(* ===== verification/Prelude.thy ===== *)
theory Prelude
  imports Main "HOL-Library.Word"
begin

text \<open>
  Shared vocabulary of the development.

  \<^item> \<open>outcome\<close>: the result of Rust code that may panic (a slice out of range, an overflow);
    every panic of the modelled code is a \<open>Panic\<close> branch.
  \<^item> byte strings: a Rust \<open>str\<close> is its UTF-8 byte sequence, a HOL \<open>string\<close> whose
    characters are bytes; \<open>len\<close>, \<open>get\<close>, slicing and \<open>pop\<close> work on bytes with the character
    boundary rules of the standard library.
  \<^item> ASCII case mapping, splitting, hexadecimal formatting.

  The collections \<open>str_simps\<close> (string functions) and \<open>out_simps\<close> (panic monad) carry the
  component proofs.
\<close>

named_theorems str_simps \<open>equations and facts about the byte-string functions\<close>
named_theorems out_simps \<open>unfolding rules of the panic monad\<close>

section \<open>Computations that may panic\<close>

datatype 'a outcome = Ret 'a | Panic

definition bind_out :: "'a outcome \<Rightarrow> ('a \<Rightarrow> 'b outcome) \<Rightarrow> 'b outcome" where
  "bind_out m f = (case m of Ret x \<Rightarrow> f x | Panic \<Rightarrow> Panic)"

definition map_out :: "('a \<Rightarrow> 'b) \<Rightarrow> 'a outcome \<Rightarrow> 'b outcome" where
  "map_out f m = (case m of Ret x \<Rightarrow> Ret (f x) | Panic \<Rightarrow> Panic)"

lemma bind_out_simps [simp, out_simps]:
  "bind_out (Ret x) f = f x"
  "bind_out Panic f = Panic"
  by (simp_all add: bind_out_def)

lemma map_out_simps [simp, out_simps]:
  "map_out f (Ret x) = Ret (f x)"
  "map_out f Panic = Panic"
  by (simp_all add: map_out_def)

lemma map_out_eq_Ret [simp]: "map_out f m = Ret y \<longleftrightarrow> (\<exists>x. m = Ret x \<and> y = f x)"
  by (cases m) auto

lemma map_out_eq_Panic [simp]: "map_out f m = Panic \<longleftrightarrow> m = Panic"
  by (cases m) auto

lemma bind_out_eq_Ret: "bind_out m f = Ret y \<longleftrightarrow> (\<exists>x. m = Ret x \<and> f x = Ret y)"
  by (cases m) auto

text \<open>The list a computation returns, empty if it panics (used in specifications only).\<close>

fun out_list :: "'a list outcome \<Rightarrow> 'a list" where
  "out_list (Ret xs) = xs"
| "out_list Panic = []"

text \<open>\<open>option.into_iter().collect()\<close>\<close>

fun list_of_option :: "'a option \<Rightarrow> 'a list" where
  "list_of_option None = []"
| "list_of_option (Some x) = [x]"

lemma list_of_option_length: "length (list_of_option x) \<le> 1"
  by (cases x) simp_all

definition no_panic :: "'a outcome \<Rightarrow> bool" where
  "no_panic m \<longleftrightarrow> m \<noteq> Panic"

lemma no_panic_simps [simp]: "no_panic (Ret x)" "\<not> no_panic Panic" "no_panic (map_out f m) = no_panic m"
  by (simp_all add: no_panic_def)

section \<open>Bytes and ASCII\<close>

definition byte_of :: "char \<Rightarrow> nat" where
  "byte_of c = of_char c"

definition is_ascii_char :: "char \<Rightarrow> bool" where
  "is_ascii_char c \<longleftrightarrow> byte_of c < 128"

definition is_ascii :: "string \<Rightarrow> bool" where
  "is_ascii s = list_all is_ascii_char s"

text \<open>Continuation bytes of UTF-8: \<open>10xxxxxx\<close>.\<close>

definition is_continuation :: "char \<Rightarrow> bool" where
  "is_continuation c \<longleftrightarrow> 128 \<le> byte_of c \<and> byte_of c < 192"

definition to_ascii_lower :: "char \<Rightarrow> char" where
  "to_ascii_lower c = (if 65 \<le> byte_of c \<and> byte_of c \<le> 90 then char_of (byte_of c + 32) else c)"

definition to_ascii_upper :: "char \<Rightarrow> char" where
  "to_ascii_upper c = (if 97 \<le> byte_of c \<and> byte_of c \<le> 122 then char_of (byte_of c - 32) else c)"

abbreviation make_ascii_lowercase :: "string \<Rightarrow> string" where
  "make_ascii_lowercase \<equiv> map to_ascii_lower"

abbreviation make_ascii_uppercase :: "string \<Rightarrow> string" where
  "make_ascii_uppercase \<equiv> map to_ascii_upper"

definition eq_ignore_ascii_case :: "string \<Rightarrow> string \<Rightarrow> bool" where
  "eq_ignore_ascii_case s t \<longleftrightarrow> make_ascii_lowercase s = make_ascii_lowercase t"

lemma byte_of_less [simp]: "byte_of c < 256"
  by (simp add: byte_of_def)

lemma byte_of_char_of [simp]: "byte_of (char_of n) = n mod 256"
  by (simp add: byte_of_def)

lemma is_ascii_simps [simp, str_simps]:
  "is_ascii []"
  "is_ascii (c # s) \<longleftrightarrow> is_ascii_char c \<and> is_ascii s"
  "is_ascii (s @ t) \<longleftrightarrow> is_ascii s \<and> is_ascii t"
  by (simp_all add: is_ascii_def)

lemma byte_of_to_ascii_lower:
  "byte_of (to_ascii_lower c) = (if 65 \<le> byte_of c \<and> byte_of c \<le> 90 then byte_of c + 32 else byte_of c)"
  by (simp add: to_ascii_lower_def)

lemma byte_of_to_ascii_upper:
  "byte_of (to_ascii_upper c) = (if 97 \<le> byte_of c \<and> byte_of c \<le> 122 then byte_of c - 32 else byte_of c)"
  using byte_of_less[of c] by (auto simp: to_ascii_upper_def)

lemma to_ascii_lower_idem [simp]: "to_ascii_lower (to_ascii_lower c) = to_ascii_lower c"
  by (subst to_ascii_lower_def) (auto simp: byte_of_to_ascii_lower split: if_splits)

lemma to_ascii_upper_idem [simp]: "to_ascii_upper (to_ascii_upper c) = to_ascii_upper c"
  by (subst to_ascii_upper_def) (auto simp: byte_of_to_ascii_upper split: if_splits)

lemma ascii_char_lower [simp]: "is_ascii_char (to_ascii_lower c) = is_ascii_char c"
  by (auto simp: is_ascii_char_def byte_of_to_ascii_lower)

lemma ascii_char_upper [simp]: "is_ascii_char (to_ascii_upper c) = is_ascii_char c"
  using byte_of_less[of c] by (auto simp: is_ascii_char_def byte_of_to_ascii_upper)

lemma is_ascii_map_lower [simp]: "is_ascii (map to_ascii_lower s) = is_ascii s"
  by (induction s) auto

lemma is_ascii_map_upper [simp]: "is_ascii (map to_ascii_upper s) = is_ascii s"
  by (induction s) auto

lemma ascii_not_continuation: "is_ascii_char c \<Longrightarrow> \<not> is_continuation c"
  by (simp add: is_ascii_char_def is_continuation_def)

lemma lower_upper [simp]: "to_ascii_lower (to_ascii_upper c) = to_ascii_lower c"
proof -
  have "byte_of (to_ascii_lower (to_ascii_upper c)) = byte_of (to_ascii_lower c)"
    by (auto simp: byte_of_to_ascii_lower byte_of_to_ascii_upper split: if_splits)
  then show ?thesis by (simp add: byte_of_def)
qed

lemma eq_ignore_ascii_case_refl [simp]: "eq_ignore_ascii_case s s"
  by (simp add: eq_ignore_ascii_case_def)

lemma eq_ignore_ascii_case_lower [simp]: "eq_ignore_ascii_case (map to_ascii_lower s) s"
  by (simp add: eq_ignore_ascii_case_def o_def)

section \<open>Slicing at byte offsets\<close>

text \<open>\<open>str::is_char_boundary\<close>: offset 0, the end, or a byte that starts a character.\<close>

definition is_char_boundary :: "string \<Rightarrow> nat \<Rightarrow> bool" where
  "is_char_boundary s n \<longleftrightarrow> n = 0 \<or> n = length s \<or> (n < length s \<and> \<not> is_continuation (s ! n))"

text \<open>\<open>s.get(..n)\<close> and \<open>s.get(n..)\<close>: None out of range or inside a character.\<close>

definition get_to :: "string \<Rightarrow> nat \<Rightarrow> string option" where
  "get_to s n = (if is_char_boundary s n then Some (take n s) else None)"

definition get_from :: "string \<Rightarrow> nat \<Rightarrow> string option" where
  "get_from s n = (if is_char_boundary s n then Some (drop n s) else None)"

text \<open>\<open>&s[..n]\<close> and \<open>&s[n..]\<close>: the same conditions, as panics.\<close>

definition slice_to :: "string \<Rightarrow> nat \<Rightarrow> string outcome" where
  "slice_to s n = (if is_char_boundary s n then Ret (take n s) else Panic)"

definition slice_from :: "string \<Rightarrow> nat \<Rightarrow> string outcome" where
  "slice_from s n = (if is_char_boundary s n then Ret (drop n s) else Panic)"

text \<open>\<open>String::pop\<close> drops the last character: its continuation bytes and its leading byte.\<close>

definition str_pop :: "string \<Rightarrow> string" where
  "str_pop s = rev (tl (dropWhile is_continuation (rev s)))"

lemma is_char_boundary_ascii:
  "is_ascii s \<Longrightarrow> n \<le> length s \<Longrightarrow> is_char_boundary s n"
  using ascii_not_continuation[of "s ! n"]
  by (auto simp: is_char_boundary_def is_ascii_def list_all_length)

lemma is_char_boundary_le: "is_char_boundary s n \<Longrightarrow> n \<le> length s"
  by (auto simp: is_char_boundary_def)

lemma slice_ascii [str_simps]:
  assumes "is_ascii s" "n \<le> length s"
  shows "slice_to s n = Ret (take n s)" "slice_from s n = Ret (drop n s)"
    "get_to s n = Some (take n s)" "get_from s n = Some (drop n s)"
  using is_char_boundary_ascii[OF assms]
  by (simp_all add: slice_to_def slice_from_def get_to_def get_from_def)

lemma str_pop_snoc: "is_ascii_char c \<Longrightarrow> str_pop (s @ [c]) = s"
  by (simp add: str_pop_def ascii_not_continuation)

lemma get_to_Some: "get_to s n = Some p \<Longrightarrow> p = take n s \<and> n \<le> length s"
  by (auto simp: get_to_def dest: is_char_boundary_le split: if_splits)

section \<open>Prefixes, suffixes and separators\<close>

definition starts_with :: "string \<Rightarrow> string \<Rightarrow> bool" where
  "starts_with s p \<longleftrightarrow> take (length p) s = p"

definition ends_with :: "string \<Rightarrow> string \<Rightarrow> bool" where
  "ends_with s p \<longleftrightarrow> length p \<le> length s \<and> drop (length s - length p) s = p"

definition strip_prefix :: "string \<Rightarrow> string \<Rightarrow> string option" where
  "strip_prefix s p = (if starts_with s p then Some (drop (length p) s) else None)"

definition strip_suffix :: "string \<Rightarrow> string \<Rightarrow> string option" where
  "strip_suffix s p = (if ends_with s p then Some (take (length s - length p) s) else None)"

text \<open>\<open>split(c)\<close>: the pieces between separators, at least one.\<close>

fun split_on :: "char \<Rightarrow> string \<Rightarrow> string list" where
  "split_on d [] = [[]]"
| "split_on d (c # s) =
     (if c = d then [] # split_on d s
      else case split_on d s of [] \<Rightarrow> [[c]] | p # ps \<Rightarrow> (c # p) # ps)"

text \<open>\<open>split_once(c)\<close>: around the first separator.\<close>

fun split_once :: "char \<Rightarrow> string \<Rightarrow> (string \<times> string) option" where
  "split_once d [] = None"
| "split_once d (c # s) =
     (if c = d then Some ([], s)
      else map_option (\<lambda>(a, b). (c # a, b)) (split_once d s))"

text \<open>\<open>splitn(3, c)\<close>, when it yields three pieces.\<close>

definition splitn3 :: "char \<Rightarrow> string \<Rightarrow> (string \<times> string \<times> string) option" where
  "splitn3 d s =
     (case split_once d s of None \<Rightarrow> None
      | Some (a, r) \<Rightarrow>
         (case split_once d r of None \<Rightarrow> None
          | Some (b, t) \<Rightarrow> Some (a, b, t)))"

text \<open>\<open>rfind(c)\<close>, used together with \<open>truncate\<close>: the text before the last separator.\<close>

definition before_last :: "char \<Rightarrow> string \<Rightarrow> string option" where
  "before_last d s =
     (if d \<in> set s then Some (rev (tl (dropWhile (\<lambda>c. c \<noteq> d) (rev s)))) else None)"

lemma starts_with_append [simp, str_simps]: "starts_with (p @ s) p"
  by (simp add: starts_with_def)

lemma starts_with_iff: "starts_with s p \<longleftrightarrow> (\<exists>t. s = p @ t)"
  unfolding starts_with_def by (metis append_eq_conv_conj)

lemma strip_prefix_append [simp, str_simps]: "strip_prefix (p @ s) p = Some s"
  by (simp add: strip_prefix_def)

lemma ends_with_append [simp, str_simps]: "ends_with (s @ p) p"
  by (simp add: ends_with_def)

lemma ends_with_iff: "ends_with s p \<longleftrightarrow> (\<exists>t. s = t @ p)"
proof
  assume "ends_with s p"
  then have "s = take (length s - length p) s @ p"
    unfolding ends_with_def by (metis append_take_drop_id)
  then show "\<exists>t. s = t @ p" by blast
qed auto

lemma strip_suffix_append [simp, str_simps]: "strip_suffix (s @ p) p = Some s"
  by (simp add: strip_suffix_def)

lemma strip_suffix_Some: "strip_suffix s p = Some t \<longleftrightarrow> s = t @ p"
  unfolding strip_suffix_def ends_with_iff by (auto split: if_splits)

lemma strip_suffix_None: "strip_suffix s p = None \<longleftrightarrow> \<not> (\<exists>t. s = t @ p)"
  unfolding strip_suffix_def ends_with_iff by auto

lemma split_once_append [simp, str_simps]:
  "d \<notin> set a \<Longrightarrow> split_once d (a @ d # b) = Some (a, b)"
  by (induction a) auto

lemma split_once_Some: "split_once d s = Some (a, b) \<Longrightarrow> s = a @ d # b \<and> d \<notin> set a"
  by (induction s arbitrary: a) (auto split: if_splits)

lemma split_once_None: "split_once d s = None \<longleftrightarrow> d \<notin> set s"
  by (induction s) auto

lemma splitn3_append [simp, str_simps]:
  "d \<notin> set a \<Longrightarrow> d \<notin> set b \<Longrightarrow> splitn3 d (a @ d # b @ d # c) = Some (a, b, c)"
  by (simp add: splitn3_def)

lemma splitn3_Some:
  "splitn3 d s = Some (a, b, c) \<Longrightarrow> s = a @ d # b @ d # c \<and> d \<notin> set a \<and> d \<notin> set b"
  by (auto simp: splitn3_def dest!: split_once_Some split: option.splits)

lemma before_last_append [simp, str_simps]:
  assumes "d \<notin> set b"
  shows "before_last d (a @ d # b) = Some a"
proof -
  have "dropWhile (\<lambda>c. c \<noteq> d) (rev b @ d # rev a) = d # rev a"
    using assms by (subst dropWhile_append2) auto
  then show ?thesis by (simp add: before_last_def)
qed

section \<open>Hexadecimal formatting\<close>

definition hex_digit :: "bool \<Rightarrow> nat \<Rightarrow> char" where
  "hex_digit upper n = (if n < 10 then char_of (48 + n) else if upper then char_of (55 + n) else char_of (87 + n))"

text \<open>\<open>{:x}\<close> and \<open>{:X}\<close> of an unsigned integer: no leading zeros.\<close>

fun hex_nat :: "bool \<Rightarrow> nat \<Rightarrow> string" where
  "hex_nat upper n = (if n < 16 then [hex_digit upper n] else hex_nat upper (n div 16) @ [hex_digit upper (n mod 16)])"

declare hex_nat.simps [simp del]

text \<open>\<open>{:02x}\<close> and \<open>{:02X}\<close> of a byte.\<close>

definition hex_byte :: "bool \<Rightarrow> 8 word \<Rightarrow> string" where
  "hex_byte upper b = [hex_digit upper (unat b div 16), hex_digit upper (unat b mod 16)]"

definition hex_bytes :: "bool \<Rightarrow> 8 word list \<Rightarrow> string" where
  "hex_bytes upper bs = concat (map (hex_byte upper) bs)"

definition is_hex_char :: "char \<Rightarrow> bool" where
  "is_hex_char c \<longleftrightarrow> (48 \<le> byte_of c \<and> byte_of c \<le> 57) \<or> (65 \<le> byte_of c \<and> byte_of c \<le> 70)
      \<or> (97 \<le> byte_of c \<and> byte_of c \<le> 102)"

lemma byte_of_hex_digit: "n < 16 \<Longrightarrow> byte_of (hex_digit u n) =
    (if n < 10 then 48 + n else if u then 55 + n else 87 + n)"
  by (simp add: hex_digit_def)

lemma hex_digit_is_hex: "n < 16 \<Longrightarrow> is_hex_char (hex_digit u n)"
  by (auto simp: is_hex_char_def byte_of_hex_digit)

lemma hex_nat_is_hex: "c \<in> set (hex_nat u n) \<Longrightarrow> is_hex_char c"
proof (induction u n rule: hex_nat.induct)
  case (1 u n)
  then show ?case
    by (subst (asm) (2) hex_nat.simps) (auto simp: hex_digit_is_hex split: if_splits)
qed

lemma length_hex_bytes [simp]: "length (hex_bytes u bs) = 2 * length bs"
  by (induction bs) (simp_all add: hex_bytes_def hex_byte_def)

lemma hex_bytes_is_hex: "c \<in> set (hex_bytes u bs) \<Longrightarrow> is_hex_char c"
proof -
  have "unat b div 16 < 16" for b :: "8 word"
    using unsigned_less[of b, where 'a = nat] by simp
  then show "c \<in> set (hex_bytes u bs) \<Longrightarrow> is_hex_char c"
    by (auto simp: hex_bytes_def hex_byte_def intro: hex_digit_is_hex)
qed

lemma hex_char_ascii: "is_hex_char c \<Longrightarrow> is_ascii_char c"
  by (auto simp: is_hex_char_def is_ascii_char_def)

lemma hex_char_not_sep: "is_hex_char c \<Longrightarrow> c \<noteq> CHR ''/'' \<and> c \<noteq> CHR ''.''"
  by (auto simp: is_hex_char_def byte_of_def)

lemma hex_string_facts:
  assumes "\<forall>c \<in> set s. is_hex_char c"
  shows "is_ascii s" "CHR ''/'' \<notin> set s" "CHR ''.'' \<notin> set s"
  using assms by (auto simp: is_ascii_def list_all_iff dest: hex_char_ascii hex_char_not_sep)

end
