(* ===== verification/SourceTypes.thy ===== *)
theory SourceTypes
  imports Prelude
begin

text \<open>
  The data model of the crate \<open>symbolicator-sources\<close>: object and file types
  (\<open>types.rs\<close>, \<open>filetype.rs\<close>), the identifier of an object, and the configuration of a
  source (\<open>sources.rs\<close>). Code of other crates that path construction calls (the
  \<open>symbolic\<close>, \<open>uuid\<close> and \<open>glob\<close> crates) and the Unicode case tables are the fields of the
  record \<open>externals\<close>, an argument of the functions that use them.
\<close>

section \<open>Third-party functions\<close>

type_synonym uuid = "8 word list"
type_synonym code_id_t = string
type_synonym glob_t = string

text \<open>What the code reads of a \<open>symbolic::common::DebugId\<close>.\<close>

record debug_id_t =
  uuid :: uuid
  appendix :: "32 word"

text \<open>
  \<open>unicode_lower\<close>, \<open>unicode_upper\<close>: the case tables behind \<open>str::to_lowercase\<close> and
  \<open>str::to_uppercase\<close>; \<open>path_basename\<close>: the file name of \<open>symbolic::common::split_path\<close>;
  \<open>uuid_parse\<close>: \<open>Uuid::from_str\<close>; \<open>uuid_simple\<close>: \<open>{:x}\<close> and \<open>{:X}\<close> (True) of
  \<open>Uuid::as_simple\<close>; \<open>breakpad\<close>, \<open>from_breakpad\<close>: the Breakpad format of a \<open>DebugId\<close>;
  \<open>code_id_new\<close>: \<open>CodeId::new\<close>; \<open>glob_matches\<close>: \<open>Pattern::matches_with\<close> with the
  case-insensitive options of \<open>GLOB_OPTIONS\<close>.
\<close>

record externals =
  unicode_lower :: "string \<Rightarrow> string"
  unicode_upper :: "string \<Rightarrow> string"
  path_basename :: "string \<Rightarrow> string"
  uuid_parse :: "string \<Rightarrow> uuid option"
  uuid_simple :: "bool \<Rightarrow> uuid \<Rightarrow> string"
  breakpad :: "debug_id_t \<Rightarrow> string"
  from_breakpad :: "string \<Rightarrow> debug_id_t option"
  code_id_new :: "string \<Rightarrow> code_id_t"
  glob_matches :: "glob_t \<Rightarrow> string \<Rightarrow> bool"

section \<open>Object types and identifiers\<close>

datatype object_type = Elf | Macho | Pe | Wasm | PeDotnet | Unknown

definition object_type_as_str :: "object_type \<Rightarrow> string" where
  "object_type_as_str t = (case t of
      Elf \<Rightarrow> ''elf'' | Macho \<Rightarrow> ''macho'' | Pe \<Rightarrow> ''pe'' | PeDotnet \<Rightarrow> ''pe_dotnet''
    | Wasm \<Rightarrow> ''wasm'' | Unknown \<Rightarrow> ''unknown'')"

definition object_type_from_str :: "string \<Rightarrow> object_type" where
  "object_type_from_str s =
     (if s = ''elf'' then Elf else if s = ''macho'' then Macho else if s = ''pe'' then Pe
      else if s = ''pe_dotnet'' then PeDotnet else if s = ''wasm'' then Wasm else Unknown)"

record object_id =
  code_id :: "code_id_t option"
  code_file :: "string option"
  debug_id :: "debug_id_t option"
  debug_file :: "string option"
  debug_checksum :: "string option"
  object_type :: object_type

definition default_object_id :: object_id where
  "default_object_id = \<lparr>code_id = None, code_file = None, debug_id = None, debug_file = None,
     debug_checksum = None, object_type = Unknown\<rparr>"

definition object_id_from_debug_id :: "debug_id_t \<Rightarrow> object_id" where
  "object_id_from_debug_id d = default_object_id\<lparr>debug_id := Some d\<rparr>"

text \<open>
  \<open>char::is_control\<close> on UTF-8 bytes: U+0000 to U+001F, U+007F, and U+0080 to U+009F, which
  are encoded as \<open>C2 80\<close> to \<open>C2 9F\<close>.
\<close>

fun contains_control :: "string \<Rightarrow> bool" where
  "contains_control [] = False"
| "contains_control [c] = (byte_of c < 32 \<or> byte_of c = 127)"
| "contains_control (c # d # s) =
     (byte_of c < 32 \<or> byte_of c = 127
      \<or> (byte_of c = 194 \<and> 128 \<le> byte_of d \<and> byte_of d < 160)
      \<or> contains_control (d # s))"

definition valid_file_name :: "externals \<Rightarrow> string \<Rightarrow> string option" where
  "valid_file_name X file_name =
     (let basename = path_basename X file_name
      in if length basename < 256 \<and> \<not> contains_control basename then Some basename else None)"

definition code_file_basename :: "externals \<Rightarrow> object_id \<Rightarrow> string option" where
  "code_file_basename X i = map_option (path_basename X) (code_file i)"

definition debug_file_basename :: "externals \<Rightarrow> object_id \<Rightarrow> string option" where
  "debug_file_basename X i = map_option (path_basename X) (debug_file i)"

definition validated_code_file_basename :: "externals \<Rightarrow> object_id \<Rightarrow> string option" where
  "validated_code_file_basename X i = Option.bind (code_file i) (valid_file_name X)"

definition validated_debug_file_basename :: "externals \<Rightarrow> object_id \<Rightarrow> string option" where
  "validated_debug_file_basename X i = Option.bind (debug_file i) (valid_file_name X)"

section \<open>File types\<close>

datatype file_type =
    Pe | Pdb | PortablePdb | MachDebug | MachCode | ElfDebug | ElfCode | WasmDebug | WasmCode
  | Breakpad | SourceBundle | UuidMap | BcSymbolMap | Il2cpp | Proguard

definition file_type_all :: "file_type list" where
  "file_type_all = [Pdb, MachDebug, ElfDebug, file_type.Pe, MachCode, ElfCode, WasmCode, WasmDebug,
     Breakpad, SourceBundle, UuidMap, BcSymbolMap, PortablePdb, Proguard]"

definition file_type_sources :: "file_type list" where
  "file_type_sources = [SourceBundle, PortablePdb, ElfDebug, WasmDebug]"

definition from_object_type :: "object_type \<Rightarrow> file_type list" where
  "from_object_type ty = (case ty of
      Macho \<Rightarrow> [MachCode, Breakpad, MachDebug, Pdb, ElfDebug]
    | object_type.Pe \<Rightarrow> [file_type.Pe, Breakpad, MachDebug, Pdb, ElfDebug]
    | Elf \<Rightarrow> [ElfCode, Breakpad, MachDebug, Pdb, ElfDebug]
    | Wasm \<Rightarrow> [WasmCode, WasmDebug]
    | PeDotnet \<Rightarrow> [PortablePdb]
    | _ \<Rightarrow> file_type_all)"

definition file_type_as_ref :: "file_type \<Rightarrow> string" where
  "file_type_as_ref ft = (case ft of
      file_type.Pe \<Rightarrow> ''pe'' | Pdb \<Rightarrow> ''pdb'' | MachDebug \<Rightarrow> ''mach_debug'' | MachCode \<Rightarrow> ''mach_code''
    | ElfDebug \<Rightarrow> ''elf_debug'' | ElfCode \<Rightarrow> ''elf_code'' | WasmDebug \<Rightarrow> ''wasm_debug''
    | WasmCode \<Rightarrow> ''wasm_code'' | Breakpad \<Rightarrow> ''breakpad'' | SourceBundle \<Rightarrow> ''sourcebundle''
    | UuidMap \<Rightarrow> ''uuidmap'' | BcSymbolMap \<Rightarrow> ''bcsymbolmap'' | Il2cpp \<Rightarrow> ''il2cpp''
    | PortablePdb \<Rightarrow> ''portablepdb'' | Proguard \<Rightarrow> ''proguard'')"

section \<open>Source configuration\<close>

datatype directory_layout_type =
    Native | Symstore | SymstoreIndex2 | Ssqp | Debuginfod | Unified | SlashSymbols | NnSymStore

datatype filename_casing = Default | Uppercase | Lowercase

record directory_layout =
  ty :: directory_layout_type
  casing :: filename_casing

definition default_directory_layout :: directory_layout where
  "default_directory_layout = \<lparr>ty = Native, casing = Default\<rparr>"

record source_filters =
  filetypes :: "file_type list"
  path_patterns :: "glob_t list"
  requires_checksum :: bool

definition default_source_filters :: source_filters where
  "default_source_filters = \<lparr>filetypes = [], path_patterns = [], requires_checksum = False\<rparr>"

record common_source_config =
  filters :: source_filters
  layout :: directory_layout
  is_public :: bool
  has_index :: bool

definition default_common_source_config :: common_source_config where
  "default_common_source_config = \<lparr>filters = default_source_filters,
     layout = default_directory_layout, is_public = False, has_index = False\<rparr>"

definition with_layout :: "directory_layout_type \<Rightarrow> common_source_config" where
  "with_layout t = default_common_source_config\<lparr>layout := default_directory_layout\<lparr>ty := t\<rparr>\<rparr>"

definition canonicalize_path :: "string \<Rightarrow> string" where
  "canonicalize_path s = map (\<lambda>c. if c = CHR 0x5C then CHR ''/'' else c) s"

definition pattern_matches :: "externals \<Rightarrow> glob_t \<Rightarrow> string option \<Rightarrow> bool" where
  "pattern_matches X p f =
     (case f of None \<Rightarrow> False | Some path \<Rightarrow> glob_matches X p (canonicalize_path path))"

definition matches_path_patterns :: "externals \<Rightarrow> object_id \<Rightarrow> glob_t list \<Rightarrow> bool" where
  "matches_path_patterns X i patterns =
     (patterns = [] \<or>
      list_ex (\<lambda>p. pattern_matches X p (code_file i) \<or> pattern_matches X p (debug_file i)) patterns)"

definition is_allowed :: "externals \<Rightarrow> source_filters \<Rightarrow> object_id \<Rightarrow> file_type \<Rightarrow> bool" where
  "is_allowed X fs i ft =
     (if requires_checksum fs \<and> debug_checksum i = None then False
      else if filetypes fs \<noteq> [] \<and> ft \<notin> set (filetypes fs) then False
      else if \<not> matches_path_patterns X i (path_patterns fs) then False
      else True)"

section \<open>Laws of the data model\<close>

lemma object_type_roundtrip: "object_type_from_str (object_type_as_str t) = t"
  by (cases t) (simp_all add: object_type_as_str_def object_type_from_str_def)

lemma object_type_as_str_inj: "object_type_as_str t = object_type_as_str u \<Longrightarrow> t = u"
  by (metis object_type_roundtrip)

lemma file_type_as_ref_inj: "file_type_as_ref a = file_type_as_ref b \<Longrightarrow> a = b"
  by (cases a; cases b) (simp_all add: file_type_as_ref_def)

lemma file_type_all_distinct: "distinct file_type_all"
  by (simp add: file_type_all_def)

lemma file_type_all_complete: "set file_type_all = UNIV - {Il2cpp}"
proof (rule set_eqI)
  fix ft
  show "ft \<in> set file_type_all \<longleftrightarrow> ft \<in> UNIV - {Il2cpp}"
    by (cases ft) (simp_all add: file_type_all_def)
qed

lemma valid_file_name_Some:
  "valid_file_name X f = Some b \<longleftrightarrow> b = path_basename X f \<and> length b < 256 \<and> \<not> contains_control b"
  by (auto simp: valid_file_name_def Let_def)

lemma validated_code_file_Some:
  "validated_code_file_basename X i = Some b \<Longrightarrow> code_file_basename X i = Some b \<and> length b < 256"
  by (auto simp: validated_code_file_basename_def code_file_basename_def valid_file_name_Some
      bind_eq_Some_conv)

lemma validated_debug_file_Some:
  "validated_debug_file_basename X i = Some b \<Longrightarrow> debug_file_basename X i = Some b \<and> length b < 256"
  by (auto simp: validated_debug_file_basename_def debug_file_basename_def valid_file_name_Some
      bind_eq_Some_conv)

lemma is_allowed_iff:
  "is_allowed X fs i ft \<longleftrightarrow>
     (requires_checksum fs \<longrightarrow> debug_checksum i \<noteq> None) \<and>
     (filetypes fs = [] \<or> ft \<in> set (filetypes fs)) \<and>
     matches_path_patterns X i (path_patterns fs)"
  by (auto simp: is_allowed_def)

lemma is_allowed_default [simp]: "is_allowed X default_source_filters i ft"
  by (simp add: is_allowed_iff default_source_filters_def matches_path_patterns_def)

lemma canonicalize_path_idem [simp]: "canonicalize_path (canonicalize_path s) = canonicalize_path s"
  by (simp add: canonicalize_path_def)

end
