(* ===== verification/Paths.thy ===== *)
theory Paths
  imports SourceTypes
begin

text \<open>
  \<open>paths.rs\<close>: the relative paths at which a symbol source may hold an object, one function
  per directory layout, their dispatcher \<open>get_directory_paths\<close>, and the parser of SymStore
  paths that the proxy uses. A function that slices a string at a fixed offset can panic and
  returns an \<open>outcome\<close>.
\<close>

section \<open>Definitions\<close>

definition get_gdb_path :: "object_id \<Rightarrow> string option outcome" where
  "get_gdb_path i =
     (case code_id i of
        None \<Rightarrow> Ret None
      | Some c \<Rightarrow>
          if length c < 2 then Ret None
          else bind_out (slice_to c 2) (\<lambda>a. bind_out (slice_from c 2) (\<lambda>b.
                 Ret (Some (a @ ''/'' @ b)))))"

definition get_mach_uuid :: "externals \<Rightarrow> object_id \<Rightarrow> uuid option" where
  "get_mach_uuid X i =
     (case code_id i of
        Some c \<Rightarrow> uuid_parse X c
      | None \<Rightarrow> map_option uuid (debug_id i))"

definition lldb_segment :: "nat \<times> 8 word \<Rightarrow> string" where
  "lldb_segment p = (case p of (i, b) \<Rightarrow> hex_byte True b @ (if i mod 2 = 1 \<and> i \<le> 9 then ''/'' else []))"

definition get_lldb_path :: "externals \<Rightarrow> object_id \<Rightarrow> string option" where
  "get_lldb_path X i =
     (case get_mach_uuid X i of
        None \<Rightarrow> None
      | Some u \<Rightarrow> Some (concat (map lldb_segment (List.enumerate 0 u))))"

definition get_pdb_symstore_path :: "externals \<Rightarrow> object_id \<Rightarrow> bool \<Rightarrow> string option" where
  "get_pdb_symstore_path X i ssqp_casing =
     (case validated_debug_file_basename X i of
        None \<Rightarrow> None
      | Some f \<Rightarrow>
          (case debug_id i of
             None \<Rightarrow> None
           | Some d \<Rightarrow>
               let f = (if ssqp_casing then unicode_lower X f else f);
                   app = (if object_type i = PeDotnet then 2 ^ 32 - 1 else unat (appendix d));
                   d = (if ssqp_casing then uuid_simple X False (uuid d) @ hex_nat True app
                        else uuid_simple X True (uuid d) @ hex_nat False app)
               in Some (f @ ''/'' @ d @ ''/'' @ f)))"

definition get_pe_symstore_path :: "externals \<Rightarrow> object_id \<Rightarrow> bool \<Rightarrow> string option" where
  "get_pe_symstore_path X i ssqp_casing =
     (case validated_code_file_basename X i of
        None \<Rightarrow> None
      | Some f \<Rightarrow>
          (case code_id i of
             None \<Rightarrow> None
           | Some c \<Rightarrow>
               let f = (if ssqp_casing then unicode_lower X f else f);
                   c' = (if ssqp_casing then Some c
                         else (case get_to c 8 of
                                 None \<Rightarrow> None
                               | Some timestamp \<Rightarrow>
                                   (case get_from c 8 of
                                      None \<Rightarrow> None
                                    | Some size_of_image \<Rightarrow>
                                        Some (unicode_upper X timestamp @ unicode_lower X size_of_image))))
               in map_option (\<lambda>c'. f @ ''/'' @ c' @ ''/'' @ f) c'))"

text \<open>
  The chain \<open>strip_suffix(".exe").unwrap_or(f).strip_suffix(".dll").unwrap_or(f)
  .strip_suffix(".pdb").unwrap_or(f)\<close>: each step strips from the result of the one before, and
  falls back to the full name.
\<close>

definition strip_or :: "string \<Rightarrow> string \<Rightarrow> string \<Rightarrow> string" where
  "strip_or f s suf = (case strip_suffix s suf of None \<Rightarrow> f | Some t \<Rightarrow> t)"

definition breakpad_sym_stem :: "string \<Rightarrow> string" where
  "breakpad_sym_stem f = strip_or f (strip_or f (strip_or f f ''.exe'') ''.dll'') ''.pdb''"

definition get_breakpad_path :: "externals \<Rightarrow> object_id \<Rightarrow> string option" where
  "get_breakpad_path X i =
     (if object_type i = Wasm then None
      else (case validated_debug_file_basename X i of
              None \<Rightarrow> None
            | Some f \<Rightarrow>
                (case debug_id i of
                   None \<Rightarrow> None
                 | Some d \<Rightarrow> Some (f @ ''/'' @ breakpad X d @ ''/'' @ breakpad_sym_stem f @ ''.sym''))))"

text \<open>\<open>if let Some(cutoff) = p.rfind('.') { p.truncate(cutoff) }\<close>\<close>

definition truncate_extension :: "string \<Rightarrow> string" where
  "truncate_extension p = (case before_last CHR ''.'' p of None \<Rightarrow> p | Some q \<Rightarrow> q)"

definition source_bundle_base :: "externals \<Rightarrow> object_id \<Rightarrow> string option outcome" where
  "source_bundle_base X i =
     (case object_type i of
        object_type.Pe \<Rightarrow> Ret (map_option truncate_extension (get_pdb_symstore_path X i False))
      | PeDotnet \<Rightarrow> Ret (map_option truncate_extension (get_pdb_symstore_path X i False))
      | Macho \<Rightarrow> Ret (get_lldb_path X i)
      | Elf \<Rightarrow> get_gdb_path i
      | Wasm \<Rightarrow> get_gdb_path i
      | Unknown \<Rightarrow> Ret None)"

definition source_bundle_paths :: "externals \<Rightarrow> object_id \<Rightarrow> string list outcome" where
  "source_bundle_paths X i =
     map_out (\<lambda>base. case base of
         None \<Rightarrow> []
       | Some b \<Rightarrow>
           let primary_path = b @ ''.src.zip'' in
           (case get_breakpad_path X i of
              None \<Rightarrow> [primary_path]
            | Some bp \<Rightarrow>
                let breakpad_path = take (length bp - 4) bp @ ''.src.zip'' in
                if breakpad_path \<noteq> primary_path then [breakpad_path, primary_path]
                else [primary_path]))
       (source_bundle_base X i)"

definition get_native_paths :: "externals \<Rightarrow> file_type \<Rightarrow> object_id \<Rightarrow> string list outcome" where
  "get_native_paths X ft i = (case ft of
      ElfCode \<Rightarrow> map_out list_of_option (get_gdb_path i)
    | WasmCode \<Rightarrow> map_out list_of_option (get_gdb_path i)
    | ElfDebug \<Rightarrow> map_out (\<lambda>p. list_of_option (map_option (\<lambda>p. p @ ''.debug'') p)) (get_gdb_path i)
    | WasmDebug \<Rightarrow> map_out (\<lambda>p. list_of_option (map_option (\<lambda>p. p @ ''.debug'') p)) (get_gdb_path i)
    | MachCode \<Rightarrow> Ret (list_of_option (map_option (\<lambda>p. p @ ''.app'') (get_lldb_path X i)))
    | MachDebug \<Rightarrow> Ret (list_of_option (get_lldb_path X i))
    | Pdb \<Rightarrow> Ret (list_of_option (get_pdb_symstore_path X i False))
    | file_type.Pe \<Rightarrow> Ret (list_of_option (get_pe_symstore_path X i False))
    | PortablePdb \<Rightarrow> Ret (list_of_option (get_pdb_symstore_path X i False))
    | Breakpad \<Rightarrow> Ret (list_of_option (get_breakpad_path X i))
    | SourceBundle \<Rightarrow> source_bundle_paths X i
    | UuidMap \<Rightarrow> Ret []
    | BcSymbolMap \<Rightarrow> Ret []
    | Il2cpp \<Rightarrow> Ret []
    | Proguard \<Rightarrow> Ret [])"

definition cased :: "externals \<Rightarrow> bool \<Rightarrow> string \<Rightarrow> string" where
  "cased X ssqp_casing f = (if ssqp_casing then unicode_lower X f else f)"

function get_symstore_path :: "externals \<Rightarrow> file_type \<Rightarrow> object_id \<Rightarrow> bool \<Rightarrow> string option" where
  "get_symstore_path X ft i ssqp_casing = (case ft of
      ElfCode \<Rightarrow>
        (case code_id i of None \<Rightarrow> None | Some c \<Rightarrow>
        (case validated_code_file_basename X i of None \<Rightarrow> None | Some f \<Rightarrow>
          (let f = cased X ssqp_casing f in Some (f @ ''/elf-buildid-'' @ c @ ''/'' @ f))))
    | ElfDebug \<Rightarrow>
        (case code_id i of None \<Rightarrow> None | Some c \<Rightarrow>
          Some (''_.debug/elf-buildid-sym-'' @ c @ ''/_.debug''))
    | MachCode \<Rightarrow>
        (case validated_code_file_basename X i of None \<Rightarrow> None | Some f \<Rightarrow>
        (let f = cased X ssqp_casing f in
        (case get_mach_uuid X i of None \<Rightarrow> None | Some u \<Rightarrow>
          Some (f @ ''/mach-uuid-'' @ uuid_simple X False u @ ''/'' @ f))))
    | MachDebug \<Rightarrow>
        (case get_mach_uuid X i of None \<Rightarrow> None | Some u \<Rightarrow>
          Some (''_.dwarf/mach-uuid-sym-'' @ uuid_simple X False u @ ''/_.dwarf''))
    | Pdb \<Rightarrow> get_pdb_symstore_path X i ssqp_casing
    | PortablePdb \<Rightarrow> get_pdb_symstore_path X i ssqp_casing
    | file_type.Pe \<Rightarrow> get_pe_symstore_path X i ssqp_casing
    | SourceBundle \<Rightarrow>
        (if object_type i = object_type.Pe
         then map_option (\<lambda>p. truncate_extension p @ ''.src.zip'') (get_symstore_path X Pdb i ssqp_casing)
         else None)
    | Breakpad \<Rightarrow> None | WasmDebug \<Rightarrow> None | WasmCode \<Rightarrow> None | UuidMap \<Rightarrow> None
    | BcSymbolMap \<Rightarrow> None | Il2cpp \<Rightarrow> None | Proguard \<Rightarrow> None)"
  by pat_completeness auto
termination
  by (relation "measure (\<lambda>(X, ft, i, s). if ft = SourceBundle then 1 else 0)") auto

declare get_symstore_path.simps [simp del]

definition get_symstore_index2_path :: "externals \<Rightarrow> file_type \<Rightarrow> object_id \<Rightarrow> string option" where
  "get_symstore_index2_path X ft i =
     (case get_symstore_path X ft i False of
        None \<Rightarrow> None
      | Some rv \<Rightarrow>
          (case get_to rv 2 of
             Some prefix \<Rightarrow>
               if ends_with prefix ''/'' \<or> ends_with prefix ''.'' then Some (take 1 prefix @ ''/'' @ rv)
               else Some (prefix @ ''/'' @ rv)
           | None \<Rightarrow> Some rv))"

definition get_debuginfod_path :: "file_type \<Rightarrow> object_id \<Rightarrow> string option" where
  "get_debuginfod_path ft i = (case ft of
      ElfCode \<Rightarrow> map_option (\<lambda>c. c @ ''/executable'') (code_id i)
    | ElfDebug \<Rightarrow> map_option (\<lambda>c. c @ ''/debuginfo'') (code_id i)
    | _ \<Rightarrow> None)"

definition object_code_type :: "object_type \<Rightarrow> file_type option" where
  "object_code_type t = (case t of
      Elf \<Rightarrow> Some ElfCode | Macho \<Rightarrow> Some MachCode | object_type.Pe \<Rightarrow> Some file_type.Pe
    | Wasm \<Rightarrow> Some WasmCode | PeDotnet \<Rightarrow> Some PortablePdb | Unknown \<Rightarrow> None)"

function get_search_target_id :: "externals \<Rightarrow> file_type \<Rightarrow> object_id \<Rightarrow> string option" where
  "get_search_target_id X ft i =
     (if ft = SourceBundle \<or> ft = Breakpad \<or> ft = Il2cpp then
        (case object_code_type (object_type i) of
           None \<Rightarrow> None
         | Some ft' \<Rightarrow> get_search_target_id X ft' i)
      else if ft = file_type.Pe \<or> ft = Pdb \<or> ft = PortablePdb then
        map_option (\<lambda>d. unicode_lower X (breakpad X d)) (debug_id i)
      else if ft = MachCode \<or> ft = MachDebug \<or> ft = WasmDebug \<or> ft = WasmCode
              \<or> ft = UuidMap \<or> ft = BcSymbolMap then
        (if code_id i = None then map_option (\<lambda>d. uuid_simple X False (uuid d)) (debug_id i)
         else code_id i)
      else if ft = ElfCode \<or> ft = ElfDebug then code_id i
      else None)"
  by pat_completeness auto
termination
  by (relation "measure (\<lambda>(X, ft, i). if ft = SourceBundle \<or> ft = Breakpad \<or> ft = Il2cpp then 1 else 0)")
    (auto simp: object_code_type_def split: object_type.splits)

declare get_search_target_id.simps [simp del]

definition unified_suffix :: "file_type \<Rightarrow> string" where
  "unified_suffix ft = (case ft of
      ElfCode \<Rightarrow> ''executable'' | MachCode \<Rightarrow> ''executable'' | file_type.Pe \<Rightarrow> ''executable''
    | WasmCode \<Rightarrow> ''executable''
    | ElfDebug \<Rightarrow> ''debuginfo'' | MachDebug \<Rightarrow> ''debuginfo'' | Pdb \<Rightarrow> ''debuginfo''
    | WasmDebug \<Rightarrow> ''debuginfo'' | PortablePdb \<Rightarrow> ''debuginfo''
    | Breakpad \<Rightarrow> ''breakpad'' | SourceBundle \<Rightarrow> ''sourcebundle'' | UuidMap \<Rightarrow> ''uuidmap''
    | BcSymbolMap \<Rightarrow> ''bcsymbolmap'' | Il2cpp \<Rightarrow> ''il2cpp'' | Proguard \<Rightarrow> ''proguard'')"

definition get_unified_path :: "externals \<Rightarrow> file_type \<Rightarrow> object_id \<Rightarrow> string option" where
  "get_unified_path X ft i =
     (case get_search_target_id X ft i of
        None \<Rightarrow> None
      | Some t \<Rightarrow>
          (case get_to t 2 of None \<Rightarrow> None | Some a \<Rightarrow>
          (case get_from t 2 of None \<Rightarrow> None | Some b \<Rightarrow>
            Some (a @ ''/'' @ b @ ''/'' @ unified_suffix ft))))"

definition get_slashsymbols_paths :: "externals \<Rightarrow> object_id \<Rightarrow> string list" where
  "get_slashsymbols_paths X i =
     (case code_id i of None \<Rightarrow> [] | Some c \<Rightarrow>
     (case validated_code_file_basename X i of None \<Rightarrow> [] | Some f \<Rightarrow>
       [f @ ''/'' @ c @ ''/symbols'', f @ ''/'' @ make_ascii_uppercase c @ ''/symbols'']))"

text \<open>\<open>format!("{:0<40}", s)\<close> fills up to 40 characters, counting characters, not bytes.\<close>

definition pad_zero :: "nat \<Rightarrow> string \<Rightarrow> string" where
  "pad_zero n s = s @ replicate (n - length (filter (\<lambda>c. \<not> is_continuation c) s)) CHR ''0''"

definition get_nnsymstore_paths :: "file_type \<Rightarrow> object_id \<Rightarrow> string list" where
  "get_nnsymstore_paths ft i =
     (if ft \<noteq> ElfDebug \<and> ft \<noteq> ElfCode then []
      else (case code_id i of None \<Rightarrow> [] | Some c \<Rightarrow>
        (let t = pad_zero 40 c in
         (case get_to t 2 of None \<Rightarrow> [] | Some prefix \<Rightarrow>
           map (\<lambda>ext. prefix @ ''/'' @ t @ ''.'' @ ext) [''nnsym'', ''nxsym'']))))"

definition layout_paths :: "externals \<Rightarrow> directory_layout_type \<Rightarrow> file_type \<Rightarrow> object_id \<Rightarrow> string list outcome" where
  "layout_paths X t ft i = (case t of
      Native \<Rightarrow> get_native_paths X ft i
    | Symstore \<Rightarrow> Ret (list_of_option (get_symstore_path X ft i False))
    | SymstoreIndex2 \<Rightarrow> Ret (list_of_option (get_symstore_index2_path X ft i))
    | Ssqp \<Rightarrow> Ret (list_of_option (get_symstore_path X ft i True))
    | Debuginfod \<Rightarrow> Ret (list_of_option (get_debuginfod_path ft i))
    | Unified \<Rightarrow> Ret (list_of_option (get_unified_path X ft i))
    | SlashSymbols \<Rightarrow> Ret (get_slashsymbols_paths X i)
    | NnSymStore \<Rightarrow> Ret (get_nnsymstore_paths ft i))"

definition apply_casing :: "filename_casing \<Rightarrow> string \<Rightarrow> string" where
  "apply_casing c p = (case c of
      Lowercase \<Rightarrow> make_ascii_lowercase p | Uppercase \<Rightarrow> make_ascii_uppercase p | Default \<Rightarrow> p)"

definition compressed_path :: "string \<Rightarrow> string" where
  "compressed_path p = str_pop p @ ''_''"

definition with_compressed :: "file_type \<Rightarrow> string list \<Rightarrow> string list" where
  "with_compressed ft ps =
     (if ft = Pdb \<or> ft = file_type.Pe then concat (map (\<lambda>p. [compressed_path p, p]) ps) else ps)"

definition get_directory_paths :: "externals \<Rightarrow> directory_layout \<Rightarrow> file_type \<Rightarrow> object_id \<Rightarrow> string list outcome" where
  "get_directory_paths X l ft i =
     map_out (\<lambda>ps. with_compressed ft (map (apply_casing (casing l)) ps)) (layout_paths X (ty l) ft i)"

text \<open>
  The parser. The prefix tests look at the lowercased signature, the slices cut the
  signature itself.
\<close>

definition symstore_code_object :: "externals \<Rightarrow> file_type \<Rightarrow> object_type \<Rightarrow> string \<Rightarrow> nat \<Rightarrow> string
    \<Rightarrow> (file_type list \<times> object_id) option outcome" where
  "symstore_code_object X ft ot leading_fn n signature =
     map_out (\<lambda>c. Some ([ft],
         \<lparr>code_id = Some (code_id_new X c), code_file = Some leading_fn, debug_id = None,
          debug_file = None, debug_checksum = None, object_type = ot\<rparr>))
       (slice_from signature n)"

definition parse_symstore_path :: "externals \<Rightarrow> string \<Rightarrow> (file_type list \<times> object_id) option outcome" where
  "parse_symstore_path X path =
     (case splitn3 CHR ''/'' path of
        None \<Rightarrow> Ret None
      | Some (leading_fn, signature, trailing_fn) \<Rightarrow>
          let leading_fn_lower = unicode_lower X leading_fn in
          if \<not> eq_ignore_ascii_case leading_fn_lower trailing_fn then Ret None
          else
            let signature_lower = unicode_lower X signature in
            if ends_with leading_fn_lower ''.debug'' \<and> starts_with signature_lower ''elf-buildid-sym-'' then
              symstore_code_object X ElfDebug Elf leading_fn 16 signature
            else if starts_with signature_lower ''elf-buildid-'' then
              symstore_code_object X ElfCode Elf leading_fn 12 signature
            else if ends_with leading_fn_lower ''.dwarf'' \<and> starts_with signature_lower ''mach-uuid-sym-'' then
              symstore_code_object X MachDebug Macho leading_fn 14 signature
            else if starts_with signature_lower ''mach-uuid-'' then
              symstore_code_object X MachCode Macho leading_fn 10 signature
            else if ends_with leading_fn_lower ''.pdb'' then
              Ret (map_option (\<lambda>d. ([Pdb],
                 \<lparr>code_id = None, code_file = None, debug_id = Some d, debug_file = Some leading_fn,
                  debug_checksum = None, object_type = object_type.Pe\<rparr>)) (from_breakpad X signature))
            else
              Ret (Some ([file_type.Pe],
                 \<lparr>code_id = Some (code_id_new X signature), code_file = Some leading_fn,
                  debug_id = None, debug_file = None, debug_checksum = None,
                  object_type = object_type.Pe\<rparr>)))"

end
