(* ===== verification/PathsCorrect.thy ===== *)
theory PathsCorrect
  imports Paths
begin

text \<open>
  Correctness of the path layouts: absence of panics, the shape of the LLDB and unified
  paths, casing, compressed variants, and the round trip through the SymStore parser.
  \<open>case_laws\<close> states what the standard library documents of the case mappings on ASCII text,
  \<open>hex_laws\<close> what the \<open>uuid\<close> crate documents of its simple format.
\<close>

section \<open>Documented behaviour of the external functions\<close>

definition case_laws :: "externals \<Rightarrow> bool" where
  "case_laws X \<longleftrightarrow> (\<forall>s. is_ascii s \<longrightarrow> unicode_lower X s = make_ascii_lowercase s
                         \<and> unicode_upper X s = make_ascii_uppercase s)"

definition hex_laws :: "externals \<Rightarrow> bool" where
  "hex_laws X \<longleftrightarrow> (\<forall>up u. uuid_simple X up u = hex_bytes up u)"

text \<open>A concrete instance, on which the hypotheses of the properties are discharged.\<close>

definition demo_externals :: externals where
  "demo_externals = \<lparr>unicode_lower = make_ascii_lowercase, unicode_upper = make_ascii_uppercase,
     path_basename = (\<lambda>f. rev (takeWhile (\<lambda>c. c \<noteq> CHR ''/'' \<and> c \<noteq> CHR 0x5C) (rev f))),
     uuid_parse = (\<lambda>s. if s = ''ab'' then Some [171] else None),
     uuid_simple = hex_bytes,
     breakpad = (\<lambda>d. hex_bytes True (uuid d) @ hex_nat False (unat (appendix d))),
     from_breakpad = (\<lambda>s. if s = ''AB1'' then Some \<lparr>uuid = [171], appendix = 1\<rparr> else None),
     code_id_new = (\<lambda>s. filter is_hex_char (make_ascii_lowercase s)),
     glob_matches = (\<lambda>p s. p = s)\<rparr>"

lemma case_laws_lower: "case_laws X \<Longrightarrow> is_ascii s \<Longrightarrow> unicode_lower X s = make_ascii_lowercase s"
  by (simp add: case_laws_def)

lemma demo_laws: "case_laws demo_externals" "hex_laws demo_externals"
  by (simp_all add: case_laws_def hex_laws_def demo_externals_def)

lemma uuid_simple_hex: "hex_laws X \<Longrightarrow> \<forall>c \<in> set (uuid_simple X up u). is_hex_char c"
  by (auto simp: hex_laws_def intro: hex_bytes_is_hex)

section \<open>Absence of panics\<close>

definition ascii_code_id :: "object_id \<Rightarrow> bool" where
  "ascii_code_id i \<longleftrightarrow> (\<forall>c. code_id i = Some c \<longrightarrow> is_ascii c)"

lemma get_gdb_path_eq:
  assumes "ascii_code_id i"
  shows "get_gdb_path i = Ret (case code_id i of None \<Rightarrow> None
           | Some c \<Rightarrow> if length c < 2 then None else Some (take 2 c @ ''/'' @ drop 2 c))"
  using assms by (auto simp: get_gdb_path_def ascii_code_id_def slice_ascii split: option.splits)

lemma get_gdb_path_no_panic: "ascii_code_id i \<Longrightarrow> no_panic (get_gdb_path i)"
  by (simp add: get_gdb_path_eq)

lemma source_bundle_base_no_panic: "ascii_code_id i \<Longrightarrow> no_panic (source_bundle_base X i)"
  by (simp add: source_bundle_base_def get_gdb_path_no_panic split: object_type.splits)

lemma get_native_paths_no_panic: "ascii_code_id i \<Longrightarrow> no_panic (get_native_paths X ft i)"
  by (cases ft) (simp_all add: get_native_paths_def get_gdb_path_no_panic source_bundle_paths_def
      source_bundle_base_no_panic)

text \<open>
  Path generation never panics: for an identifier whose code id is ASCII text (which the
  \<open>CodeId\<close> type guarantees), every layout, casing and file type yields a list of paths. The
  slice \<open>&code_id[..2]\<close> of the GDB layout is the only place that could fail.
\<close>

theorem get_directory_paths_no_panic:
  assumes "ascii_code_id i"
  shows "no_panic (get_directory_paths X l ft i)"
  using get_native_paths_no_panic[OF assms]
  by (simp add: get_directory_paths_def layout_paths_def split: directory_layout_type.splits)

definition demo_elf :: object_id where
  "demo_elf = default_object_id\<lparr>code_id := Some ''dfb85d'', object_type := Elf,
     code_file := Some ''/lib/libm.so'', debug_file := Some ''/lib/libm.so'',
     debug_id := Some \<lparr>uuid = [171], appendix = 1\<rparr>\<rparr>"

lemma demo_elf_ascii: "ascii_code_id demo_elf"
  by (simp add: ascii_code_id_def demo_elf_def default_object_id_def is_ascii_char_def byte_of_def)

theorem get_directory_paths_no_panic_witness:
  "ascii_code_id demo_elf \<and> no_panic (get_directory_paths demo_externals default_directory_layout ElfDebug demo_elf)"
  using get_directory_paths_no_panic[OF demo_elf_ascii] demo_elf_ascii by simp

section \<open>The LLDB layout\<close>

text \<open>
  The LLDB path of a 16-byte UUID is its upper-case hexadecimal form, the first ten bytes
  in five directories of four digits each and the last six bytes as the file name: 37
  characters, the capacity the code reserves.
\<close>

theorem get_lldb_path_shape:
  assumes "get_mach_uuid X i = Some u" and "length u = 16"
  shows "get_lldb_path X i = Some (
           hex_bytes True (take 2 u) @ ''/'' @ hex_bytes True (take 2 (drop 2 u)) @ ''/''
           @ hex_bytes True (take 2 (drop 4 u)) @ ''/'' @ hex_bytes True (take 2 (drop 6 u)) @ ''/''
           @ hex_bytes True (take 2 (drop 8 u)) @ ''/'' @ hex_bytes True (drop 10 u))
         \<and> map_option length (get_lldb_path X i) = Some 37"
proof -
  from assms(2) obtain a b c d e f g h a' b' c' d' e' f' g' h' where
    "u = [a, b, c, d, e, f, g, h, a', b', c', d', e', f', g', h']"
    by (auto simp: numeral_eq_Suc length_Suc_conv)
  then show ?thesis
    using assms(1) by (simp add: get_lldb_path_def lldb_segment_def hex_bytes_def hex_byte_def)
qed

definition demo_macho :: object_id where
  "demo_macho = default_object_id\<lparr>debug_id := Some \<lparr>uuid = replicate 16 171, appendix = 0\<rparr>\<rparr>"

theorem get_lldb_path_shape_witness:
  "get_lldb_path demo_externals demo_macho = Some ''ABAB/ABAB/ABAB/ABAB/ABAB/ABABABABABAB''"
proof -
  have h: "get_mach_uuid demo_externals demo_macho = Some (replicate 16 171)" "length (replicate 16 (171 :: 8 word)) = 16"
    by (simp_all add: get_mach_uuid_def demo_macho_def default_object_id_def)
  have e: "hex_bytes True (replicate 2 171) = ''ABAB''" "hex_bytes True (replicate 6 171) = ''ABABABABABAB''"
    by code_simp+
  from get_lldb_path_shape[OF h] show ?thesis
    by (simp add: e)
qed

section \<open>Casing and compressed variants\<close>

lemma str_pop_map: "(\<And>c. is_continuation (f c) = is_continuation c) \<Longrightarrow> str_pop (map f s) = map f (str_pop s)"
  by (simp add: str_pop_def rev_map dropWhile_map o_def flip: map_tl)

lemma continuation_lower: "is_continuation (to_ascii_lower c) = is_continuation c"
  by (auto simp: is_continuation_def byte_of_to_ascii_lower)

lemma continuation_upper: "is_continuation (to_ascii_upper c) = is_continuation c"
  using byte_of_less[of c] by (auto simp: is_continuation_def byte_of_to_ascii_upper)

lemma ascii_case_underscore: "to_ascii_lower CHR ''_'' = CHR ''_''" "to_ascii_upper CHR ''_'' = CHR ''_''"
  by (simp_all add: to_ascii_lower_def to_ascii_upper_def byte_of_def)

lemma lower_compressed: "make_ascii_lowercase p = p \<Longrightarrow> make_ascii_lowercase (compressed_path p) = compressed_path p"
  using str_pop_map[OF continuation_lower, of p]
  by (simp add: compressed_path_def ascii_case_underscore)

lemma upper_compressed: "make_ascii_uppercase p = p \<Longrightarrow> make_ascii_uppercase (compressed_path p) = compressed_path p"
  using str_pop_map[OF continuation_upper, of p]
  by (simp add: compressed_path_def ascii_case_underscore)

lemma lower_with_compressed:
  "\<forall>p \<in> set ps. make_ascii_lowercase p = p \<Longrightarrow> q \<in> set (with_compressed ft ps) \<Longrightarrow> make_ascii_lowercase q = q"
  by (auto simp: with_compressed_def lower_compressed split: if_splits)

lemma upper_with_compressed:
  "\<forall>p \<in> set ps. make_ascii_uppercase p = p \<Longrightarrow> q \<in> set (with_compressed ft ps) \<Longrightarrow> make_ascii_uppercase q = q"
  by (auto simp: with_compressed_def upper_compressed split: if_splits)

text \<open>
  The casing of the source is honoured by every path, the compressed variants included:
  with lower (upper) casing no returned path contains an upper (lower) case ASCII letter.
\<close>

theorem get_directory_paths_casing:
  assumes "get_directory_paths X l ft i = Ret ps" and "p \<in> set ps"
  shows "(casing l = Lowercase \<longrightarrow> make_ascii_lowercase p = p) \<and>
         (casing l = Uppercase \<longrightarrow> make_ascii_uppercase p = p)"
proof -
  from assms(1) obtain qs where ps: "ps = with_compressed ft (map (apply_casing (casing l)) qs)"
    by (auto simp: get_directory_paths_def)
  then show ?thesis
    using assms(2) by (auto intro!: lower_with_compressed[of "map (apply_casing (casing l)) qs" p ft]
        upper_with_compressed[of "map (apply_casing (casing l)) qs" p ft] simp: apply_casing_def o_def)
qed

definition upper_debuginfod :: directory_layout where
  "upper_debuginfod = \<lparr>ty = Debuginfod, casing = Uppercase\<rparr>"

theorem get_directory_paths_casing_witness:
  "get_directory_paths demo_externals upper_debuginfod ElfCode demo_elf = Ret [''DFB85D/EXECUTABLE'']
   \<and> make_ascii_uppercase ''DFB85D/EXECUTABLE'' = ''DFB85D/EXECUTABLE''"
proof -
  have h: "get_directory_paths demo_externals upper_debuginfod ElfCode demo_elf = Ret [''DFB85D/EXECUTABLE'']"
    by code_simp
  from get_directory_paths_casing[OF h, of "''DFB85D/EXECUTABLE''"] h show ?thesis
    by (simp add: upper_debuginfod_def)
qed

section \<open>The unified layout\<close>

lemma get_unified_path_Some:
  "get_unified_path X ft i = Some p \<longleftrightarrow>
     (\<exists>t. get_search_target_id X ft i = Some t \<and> is_char_boundary t 2
          \<and> p = take 2 t @ ''/'' @ drop 2 t @ ''/'' @ unified_suffix ft)"
  by (auto simp: get_unified_path_def get_to_def get_from_def split: option.splits)

lemma unified_suffix_no_sep: "CHR ''/'' \<notin> set (unified_suffix ft)"
  by (cases ft) (simp_all add: unified_suffix_def)

text \<open>
  The unified layout is injective: when the ids contain no slash, equal unified paths come
  from equal ids and equal suffixes, so files of different objects, or the executable and the
  debug file of one object, never share a location.
\<close>

theorem get_unified_path_injective:
  assumes "get_unified_path X ft i = Some p" and "get_unified_path X ft' j = Some p"
    and "get_search_target_id X ft i = Some t" and "get_search_target_id X ft' j = Some t'"
    and "CHR ''/'' \<notin> set t" and "CHR ''/'' \<notin> set t'"
  shows "t = t' \<and> unified_suffix ft = unified_suffix ft'"
proof -
  have split: "splitn3 CHR ''/'' (take 2 s @ ''/'' @ drop 2 s @ ''/'' @ u) = Some (take 2 s, drop 2 s, u)"
    if "CHR ''/'' \<notin> set s" for s u
  proof -
    have "CHR ''/'' \<notin> set (take 2 s)" "CHR ''/'' \<notin> set (drop 2 s)"
      using that by (meson in_set_takeD, meson in_set_dropD)
    from splitn3_append[OF this, of u] show ?thesis by simp
  qed
  have "p = take 2 t @ ''/'' @ drop 2 t @ ''/'' @ unified_suffix ft"
    and "p = take 2 t' @ ''/'' @ drop 2 t' @ ''/'' @ unified_suffix ft'"
    using assms(1-4) by (auto simp: get_unified_path_Some)
  then have "(take 2 t, drop 2 t, unified_suffix ft) = (take 2 t', drop 2 t', unified_suffix ft')"
    using split[OF assms(5)] split[OF assms(6)] by (metis option.inject)
  then show ?thesis by (metis append_take_drop_id prod.inject)
qed

theorem get_unified_path_injective_witness:
  "get_unified_path demo_externals ElfCode demo_elf = Some ''df/b85d/executable''
   \<and> CHR ''/'' \<notin> set ''dfb85d''
   \<and> ''dfb85d'' = ''dfb85d'' \<and> unified_suffix ElfCode = unified_suffix ElfCode"
proof -
  have h: "get_unified_path demo_externals ElfCode demo_elf = Some ''df/b85d/executable''"
    "get_search_target_id demo_externals ElfCode demo_elf = Some ''dfb85d''"
    by code_simp+
  show ?thesis
    using get_unified_path_injective[OF h(1) h(1) h(2) h(2)] h by simp
qed

section \<open>The Breakpad layout\<close>

lemma strip_or_append: "strip_or f (t @ suf) suf = t"
  by (simp add: strip_or_def)

lemma strip_or_other: "\<not> ends_with s suf \<Longrightarrow> strip_or f s suf = f"
  by (simp add: strip_or_def strip_suffix_def)

lemma ends_with_last: "ends_with s p \<Longrightarrow> p \<noteq> [] \<Longrightarrow> s \<noteq> [] \<and> last s = last p"
  by (auto simp: ends_with_iff)

text \<open>
  The Breakpad symbol name of a file \<open>n.pdb\<close> is \<open>n.sym\<close>, and that of a file \<open>n.exe\<close> or
  \<open>n.dll\<close> keeps its extension, \<open>n.exe.sym\<close>: a later step of the stripping chain that does
  not apply falls back to the full name and undoes the earlier ones. Only a stacked
  \<open>.pdb.dll\<close> or \<open>.dll.exe\<close> name escapes. The layout document promises that
  \<open>.exe\<close>, \<open>.dll\<close> and \<open>.pdb\<close> are all replaced.
\<close>

theorem breakpad_sym_stem_cases:
  "breakpad_sym_stem (n @ ''.pdb'') = n
   \<and> (\<not> ends_with n ''.dll'' \<longrightarrow> breakpad_sym_stem (n @ ''.exe'') = n @ ''.exe'')
   \<and> (\<not> ends_with n ''.pdb'' \<longrightarrow> breakpad_sym_stem (n @ ''.dll'') = n @ ''.dll'')"
proof -
  have no: "\<not> ends_with (n @ x) y" if "x \<noteq> []" "y \<noteq> []" "last x \<noteq> last y" for x y
    using that ends_with_last[of "n @ x" y] by auto
  show ?thesis
    by (simp add: breakpad_sym_stem_def strip_or_append strip_or_other no)
qed

theorem breakpad_sym_stem_cases_witness:
  "breakpad_sym_stem ''crash.exe'' = ''crash.exe'' \<and> breakpad_sym_stem ''ntdll.dll'' = ''ntdll.dll''
   \<and> breakpad_sym_stem ''crash.pdb'' = ''crash''"
  using breakpad_sym_stem_cases[of "''crash''"] breakpad_sym_stem_cases[of "''ntdll''"]
  by (simp add: ends_with_def)

section \<open>Parsing SymStore paths\<close>

lemma hex_signature_no_marker:
  assumes "\<forall>c \<in> set s. is_hex_char c" and "is_ascii s" and "case_laws X"
  shows "\<not> starts_with (unicode_lower X s) ''elf-buildid-sym-''" "\<not> starts_with (unicode_lower X s) ''elf-buildid-''"
    "\<not> starts_with (unicode_lower X s) ''mach-uuid-sym-''" "\<not> starts_with (unicode_lower X s) ''mach-uuid-''"
proof -
  have low: "unicode_lower X s = make_ascii_lowercase s"
    using assms(2,3) by (rule case_laws_lower[rotated])
  have hex: "c \<in> set (make_ascii_lowercase s) \<Longrightarrow> is_hex_char c" for c
    using assms(1) by (auto simp: is_hex_char_def byte_of_to_ascii_lower)
  have nohex: "\<not> is_hex_char CHR ''u''"
    by (simp add: is_hex_char_def byte_of_def)
  have "\<not> starts_with (make_ascii_lowercase s) p" if "CHR ''u'' \<in> set p" for p
  proof
    assume "starts_with (make_ascii_lowercase s) p"
    then have "set p \<subseteq> set (make_ascii_lowercase s)"
      unfolding starts_with_iff by (metis set_append Un_upper1)
    with that hex nohex show False by blast
  qed
  then show "\<not> starts_with (unicode_lower X s) ''elf-buildid-sym-''" "\<not> starts_with (unicode_lower X s) ''elf-buildid-''"
    "\<not> starts_with (unicode_lower X s) ''mach-uuid-sym-''" "\<not> starts_with (unicode_lower X s) ''mach-uuid-''"
    by (simp_all add: low)
qed

lemma parse_signed:
  assumes "is_ascii f" and "CHR ''/'' \<notin> set f" and "case_laws X" and "CHR ''/'' \<notin> set s" and "is_ascii s"
  shows "splitn3 CHR ''/'' (f @ ''/'' @ s @ ''/'' @ f) = Some (f, s, f)"
    "unicode_lower X f = make_ascii_lowercase f" "unicode_lower X s = make_ascii_lowercase s"
    "eq_ignore_ascii_case (unicode_lower X f) f"
  using assms splitn3_append[of "CHR ''/''" f s f] by (simp_all add: case_laws_lower)

definition parsed_pdb :: "string \<Rightarrow> debug_id_t \<Rightarrow> object_id" where
  "parsed_pdb f d = default_object_id\<lparr>debug_id := Some d, debug_file := Some f, object_type := object_type.Pe\<rparr>"

definition parsed_code :: "externals \<Rightarrow> string \<Rightarrow> string \<Rightarrow> object_type \<Rightarrow> object_id" where
  "parsed_code X f c t = default_object_id\<lparr>code_id := Some (code_id_new X c), code_file := Some f, object_type := t\<rparr>"

text \<open>
  The SymStore path of a PDB parses back: the parser returns the file type, the debug id
  and the debug file name that generated the path, whenever the name is an ASCII name ending
  in \<open>.pdb\<close> and the Breakpad parser accepts the id it is given.
\<close>

theorem symstore_pdb_roundtrip:
  assumes "case_laws X" and "hex_laws X"
    and "validated_debug_file_basename X i = Some f" and "debug_id i = Some d" and "object_type i \<noteq> PeDotnet"
    and "is_ascii f" and "CHR ''/'' \<notin> set f" and "ends_with (make_ascii_lowercase f) ''.pdb''"
    and "from_breakpad X (uuid_simple X True (uuid d) @ hex_nat False (unat (appendix d))) = Some d"
  shows "\<exists>p. get_symstore_path X Pdb i False = Some p \<and> parse_symstore_path X p = Ret (Some ([Pdb], parsed_pdb f d))"
proof -
  let ?s = "uuid_simple X True (uuid d) @ hex_nat False (unat (appendix d))"
  have hex: "\<forall>c \<in> set ?s. is_hex_char c"
    using uuid_simple_hex[OF assms(2), of True "uuid d"] hex_nat_is_hex by auto
  note sfacts = hex_string_facts[OF hex]
  have path: "get_symstore_path X Pdb i False = Some (f @ ''/'' @ ?s @ ''/'' @ f)"
    using assms(3,4,5) by (simp add: get_symstore_path.simps get_pdb_symstore_path_def Let_def)
  have nd: "\<not> ends_with (make_ascii_lowercase f) ''.debug''" "\<not> ends_with (make_ascii_lowercase f) ''.dwarf''"
    using assms(8) by (auto dest!: ends_with_last)
  note markers = hex_signature_no_marker[OF hex sfacts(1) assms(1)]
  note ps = parse_signed[OF assms(6,7,1) sfacts(2,1)]
  have "parse_symstore_path X (f @ ''/'' @ ?s @ ''/'' @ f) = Ret (Some ([Pdb], parsed_pdb f d))"
    using assms(8,9) markers ps(2,4) nd
    unfolding parse_symstore_path_def ps(1)
    by (simp add: Let_def parsed_pdb_def default_object_id_def)
  with path show ?thesis by blast
qed

definition demo_pe :: object_id where
  "demo_pe = default_object_id\<lparr>debug_id := Some \<lparr>uuid = [171], appendix = 1\<rparr>, debug_file := Some ''c/crash.pdb'',
     object_type := object_type.Pe\<rparr>"

theorem symstore_pdb_roundtrip_witness:
  "\<exists>p. get_symstore_path demo_externals Pdb demo_pe False = Some p
     \<and> parse_symstore_path demo_externals p = Ret (Some ([Pdb], parsed_pdb ''crash.pdb'' \<lparr>uuid = [171], appendix = 1\<rparr>))"
proof (rule symstore_pdb_roundtrip[OF demo_laws])
  show "validated_debug_file_basename demo_externals demo_pe = Some ''crash.pdb''" by code_simp
  show "is_ascii ''crash.pdb''" by code_simp
  show "ends_with (make_ascii_lowercase ''crash.pdb'') ''.pdb''" by code_simp
  show "from_breakpad demo_externals (uuid_simple demo_externals True (uuid \<lparr>uuid = [171], appendix = 1\<rparr>)
      @ hex_nat False (unat (appendix \<lparr>uuid = [171], appendix = 1\<rparr>))) = Some \<lparr>uuid = [171], appendix = 1\<rparr>"
    by code_simp
qed (simp_all add: demo_pe_def default_object_id_def)

lemma hex_no_sym: "\<forall>c \<in> set s. is_hex_char c \<Longrightarrow> \<not> starts_with (make_ascii_lowercase s) ''sym-''"
proof (cases s)
  case (Cons a t)
  assume "\<forall>c \<in> set s. is_hex_char c"
  with Cons have "byte_of (to_ascii_lower a) \<noteq> byte_of CHR ''s''"
    by (auto simp: is_hex_char_def byte_of_to_ascii_lower) (simp_all add: byte_of_def)
  then show ?thesis using Cons by (auto simp: starts_with_def)
qed (simp add: starts_with_def)

lemma symstore_code_object_append:
  assumes "is_ascii m" and "is_ascii h" and "n = length m"
  shows "symstore_code_object X ft t f n (m @ h) = Ret (Some ([ft], parsed_code X f h t))"
  using assms slice_ascii(2)[of "m @ h" n]
  by (simp add: symstore_code_object_def parsed_code_def default_object_id_def)

text \<open>The parser on \<open>f/<marker><hex>/f\<close>, with the lowered name and signature written out.\<close>

lemma parse_marked:
  assumes "case_laws X" and "is_ascii f" and "CHR ''/'' \<notin> set f" and "\<forall>c \<in> set h. is_hex_char c"
    and "is_ascii m" and "CHR ''/'' \<notin> set m" and "make_ascii_lowercase m = m"
  shows "parse_symstore_path X (f @ ''/'' @ (m @ h) @ ''/'' @ f) =
    (let fl = make_ascii_lowercase f; sl = m @ make_ascii_lowercase h in
     if ends_with fl ''.debug'' \<and> starts_with sl ''elf-buildid-sym-'' then
       symstore_code_object X ElfDebug Elf f 16 (m @ h)
     else if starts_with sl ''elf-buildid-'' then symstore_code_object X ElfCode Elf f 12 (m @ h)
     else if ends_with fl ''.dwarf'' \<and> starts_with sl ''mach-uuid-sym-'' then
       symstore_code_object X MachDebug Macho f 14 (m @ h)
     else if starts_with sl ''mach-uuid-'' then symstore_code_object X MachCode Macho f 10 (m @ h)
     else parse_symstore_path X (f @ ''/'' @ (m @ h) @ ''/'' @ f))"
proof -
  note hf = hex_string_facts[OF assms(4)]
  have "CHR ''/'' \<notin> set (m @ h)" "is_ascii (m @ h)"
    using hf assms(5,6) by simp_all
  note ps = parse_signed[OF assms(2,3,1) this]
  have low: "unicode_lower X (m @ h) = m @ make_ascii_lowercase h"
    using ps(3) assms(7) by simp
  show ?thesis
    using ps(4) unfolding parse_symstore_path_def[of X "f @ ''/'' @ (m @ h) @ ''/'' @ f"] ps(1)
    by (simp add: Let_def low ps(2) del: append_assoc)
qed

lemma marker_facts:
  "m \<in> {''elf-buildid-'', ''elf-buildid-sym-'', ''mach-uuid-'', ''mach-uuid-sym-''} \<Longrightarrow>
     is_ascii m \<and> CHR ''/'' \<notin> set m \<and> make_ascii_lowercase m = m"
  by (elim insertE emptyE; hypsubst; code_simp)

text \<open>
  The SymStore paths of ELF and Mach-O files parse back: for a hexadecimal code id \<open>c\<close> and
  an ASCII file name, the parser recovers file type, code id and object type; the debug files
  are stored under the fixed names \<open>_.debug\<close> and \<open>_.dwarf\<close>, which come back as the code file.
\<close>

theorem symstore_marked_roundtrip:
  assumes "case_laws X" and "hex_laws X"
    and "validated_code_file_basename X i = Some f" and "is_ascii f" and "CHR ''/'' \<notin> set f"
    and "code_id i = Some c" and "\<forall>x \<in> set c. is_hex_char x" and "uuid_parse X c = Some u"
  shows "map_option (parse_symstore_path X) (get_symstore_path X ElfCode i False)
           = Some (Ret (Some ([ElfCode], parsed_code X f c Elf)))
       \<and> map_option (parse_symstore_path X) (get_symstore_path X ElfDebug i False)
           = Some (Ret (Some ([ElfDebug], parsed_code X ''_.debug'' c Elf)))
       \<and> map_option (parse_symstore_path X) (get_symstore_path X MachCode i False)
           = Some (Ret (Some ([MachCode], parsed_code X f (hex_bytes False u) Macho)))
       \<and> map_option (parse_symstore_path X) (get_symstore_path X MachDebug i False)
           = Some (Ret (Some ([MachDebug], parsed_code X ''_.dwarf'' (hex_bytes False u) Macho)))"
proof -
  have hx: "\<forall>x \<in> set (hex_bytes False u). is_hex_char x" by (auto intro: hex_bytes_is_hex)
  have names: "is_ascii ''_.debug''" "is_ascii ''_.dwarf''"
    "make_ascii_lowercase ''_.debug'' = ''_.debug''" "make_ascii_lowercase ''_.dwarf'' = ''_.dwarf''"
    by code_simp+
  note mf = marker_facts
  have "parse_symstore_path X (f @ ''/'' @ (''elf-buildid-'' @ c) @ ''/'' @ f) = Ret (Some ([ElfCode], parsed_code X f c Elf))"
    using parse_marked[OF assms(1,4,5,7), of "''elf-buildid-''"] mf[of "''elf-buildid-''"] hex_no_sym[OF assms(7)]
      symstore_code_object_append[of "''elf-buildid-''" c 12] hex_string_facts(1)[OF assms(7)]
    by (simp add: starts_with_def Let_def)
  moreover have "parse_symstore_path X (''_.debug'' @ ''/'' @ (''elf-buildid-sym-'' @ c) @ ''/'' @ ''_.debug'')
      = Ret (Some ([ElfDebug], parsed_code X ''_.debug'' c Elf))"
    using parse_marked[OF assms(1) names(1) _ assms(7), of "''elf-buildid-sym-''"] mf[of "''elf-buildid-sym-''"] names(3)
      symstore_code_object_append[of "''elf-buildid-sym-''" c 16] hex_string_facts(1)[OF assms(7)]
    by (simp add: starts_with_def ends_with_def Let_def)
  moreover have "parse_symstore_path X (f @ ''/'' @ (''mach-uuid-'' @ hex_bytes False u) @ ''/'' @ f)
      = Ret (Some ([MachCode], parsed_code X f (hex_bytes False u) Macho))"
    using parse_marked[OF assms(1,4,5) hx, of "''mach-uuid-''"] mf[of "''mach-uuid-''"] hex_no_sym[OF hx]
      symstore_code_object_append[of "''mach-uuid-''" "hex_bytes False u" 10] hex_string_facts(1)[OF hx]
    by (simp add: starts_with_def Let_def)
  moreover have "parse_symstore_path X (''_.dwarf'' @ ''/'' @ (''mach-uuid-sym-'' @ hex_bytes False u) @ ''/'' @ ''_.dwarf'')
      = Ret (Some ([MachDebug], parsed_code X ''_.dwarf'' (hex_bytes False u) Macho))"
    using parse_marked[OF assms(1) names(2) _ hx, of "''mach-uuid-sym-''"] mf[of "''mach-uuid-sym-''"] names(4)
      symstore_code_object_append[of "''mach-uuid-sym-''" "hex_bytes False u" 14] hex_string_facts(1)[OF hx]
    by (simp add: starts_with_def ends_with_def Let_def)
  ultimately show ?thesis
    using assms(2,3,6,8) by (simp add: get_symstore_path.simps cased_def get_mach_uuid_def hex_laws_def)
qed

definition demo_ab :: object_id where
  "demo_ab = default_object_id\<lparr>code_id := Some ''ab'', code_file := Some ''/lib/libm.so''\<rparr>"

theorem symstore_marked_roundtrip_witness:
  "map_option (parse_symstore_path demo_externals) (get_symstore_path demo_externals ElfCode demo_ab False)
     = Some (Ret (Some ([ElfCode], parsed_code demo_externals ''libm.so'' ''ab'' Elf)))"
proof -
  have h: "validated_code_file_basename demo_externals demo_ab = Some ''libm.so''" "is_ascii ''libm.so''"
    "CHR ''/'' \<notin> set ''libm.so''" "code_id demo_ab = Some ''ab''" "\<forall>x \<in> set ''ab''. is_hex_char x"
    "uuid_parse demo_externals ''ab'' = Some [171]"
    by code_simp+
  from symstore_marked_roundtrip[OF demo_laws h] show ?thesis by blast
qed

end
