(* ===== verification/Utf8.thy ===== *)
theory Utf8
  imports Prelude
begin

text \<open>
  UTF-8 as the Rust standard library decodes it: the check behind \<open>str::from_utf8\<close> and the
  replacement of \<open>String::from_utf8_lossy\<close>, which substitutes U+FFFD for every maximal
  invalid chunk; and the line splitting of \<open>BufRead::lines\<close>.
\<close>

section \<open>Decoding one character\<close>

definition in_range :: "nat \<Rightarrow> nat \<Rightarrow> nat \<Rightarrow> bool" where
  "in_range lo hi n \<longleftrightarrow> lo \<le> n \<and> n \<le> hi"

text \<open>The byte at an index, 0 past the end (\<open>safe_get\<close>).\<close>

definition byte_at :: "string \<Rightarrow> nat \<Rightarrow> nat" where
  "byte_at s k = (if k < length s then byte_of (s ! k) else 0)"

definition cont_at :: "string \<Rightarrow> nat \<Rightarrow> bool" where
  "cont_at s k = in_range 128 191 (byte_at s k)"

text \<open>
  The width a leading byte announces (0 for a byte that cannot lead), and the range of the
  second byte: the exceptions exclude overlong forms, surrogates and values above U+10FFFF.
\<close>

definition utf8_char_width :: "nat \<Rightarrow> nat" where
  "utf8_char_width b =
     (if b < 128 then 1 else if in_range 194 223 b then 2 else if in_range 224 239 b then 3
      else if in_range 240 244 b then 4 else 0)"

definition second_ok :: "nat \<Rightarrow> nat \<Rightarrow> bool" where
  "second_ok b c =
     (if b = 224 then in_range 160 191 c else if b = 237 then in_range 128 159 c
      else if b = 240 then in_range 144 191 c else if b = 244 then in_range 128 143 c
      else in_range 128 191 c)"

text \<open>
  Whether a nonempty string starts with a well-formed character, and how many bytes the
  character or the invalid chunk takes.
\<close>

definition utf8_head :: "string \<Rightarrow> bool \<times> nat" where
  "utf8_head s =
     (let w = utf8_char_width (byte_at s 0) in
      if w = 1 then (True, 1)
      else if w = 0 \<or> \<not> second_ok (byte_at s 0) (byte_at s 1) then (False, 1)
      else if w = 2 then (True, 2)
      else if \<not> cont_at s 2 then (False, 2)
      else if w = 3 then (True, 3)
      else if \<not> cont_at s 3 then (False, 3)
      else (True, 4))"

lemma utf8_head_pos: "0 < snd (utf8_head s)"
  by (simp add: utf8_head_def Let_def)

function utf8_valid :: "string \<Rightarrow> bool" where
  "utf8_valid s =
     (if s = [] then True
      else if \<not> fst (utf8_head s) then False
      else utf8_valid (drop (snd (utf8_head s)) s))"
  by pat_completeness auto
termination
  by (relation "measure length") (simp_all add: utf8_head_pos)

definition replacement :: string where
  "replacement = [char_of (239 :: nat), char_of (191 :: nat), char_of (189 :: nat)]"

function utf8_lossy :: "string \<Rightarrow> string" where
  "utf8_lossy s =
     (if s = [] then []
      else (if fst (utf8_head s) then take (snd (utf8_head s)) s else replacement)
           @ utf8_lossy (drop (snd (utf8_head s)) s))"
  by pat_completeness auto
termination
  by (relation "measure length") (simp_all add: utf8_head_pos)

declare utf8_valid.simps [simp del] utf8_lossy.simps [simp del]

section \<open>Facts\<close>

lemma utf8_nil [simp]: "utf8_valid []" "utf8_lossy [] = []"
  by (simp_all add: utf8_valid.simps utf8_lossy.simps)

lemma utf8_lossy_valid: "utf8_valid s \<Longrightarrow> utf8_lossy s = s"
proof (induction s rule: utf8_lossy.induct)
  case (1 s)
  show ?case
  proof (cases "s = []")
    case False
    with "1.prems" have "fst (utf8_head s)" "utf8_valid (drop (snd (utf8_head s)) s)"
      by (simp_all add: utf8_valid.simps[of s] split: if_splits)
    with "1.IH"[OF False] False show ?thesis
      by (simp add: utf8_lossy.simps[of s])
  qed simp
qed

lemma utf8_head_ascii: "is_ascii_char c \<Longrightarrow> utf8_head (c # s) = (True, 1)"
  by (simp add: utf8_head_def byte_at_def is_ascii_char_def utf8_char_width_def)

lemma utf8_valid_ascii: "is_ascii s \<Longrightarrow> utf8_valid s"
proof (induction s)
  case (Cons c s)
  then have "utf8_head (c # s) = (True, 1)" by (simp add: utf8_head_ascii)
  with Cons show ?case by (subst utf8_valid.simps) simp
qed simp

lemma byte_at_append: "k < length s \<Longrightarrow> byte_at (s @ t) k = byte_at s k"
  by (simp add: byte_at_def nth_append)

lemma byte_at_pos: "0 < byte_at s k \<Longrightarrow> k < length s"
  by (simp add: byte_at_def split: if_splits)

lemma cont_at_less: "cont_at s k \<Longrightarrow> k < length s"
  by (rule byte_at_pos) (simp add: cont_at_def in_range_def)

lemma second_ok_less: "second_ok b (byte_at s 1) \<Longrightarrow> 1 < length s"
  by (rule byte_at_pos) (simp add: second_ok_def in_range_def split: if_splits)

text \<open>A well-formed first character lies within the string and is read off its own bytes.\<close>

lemma utf8_head_length:
  assumes "s \<noteq> []" and "fst (utf8_head s)"
  shows "snd (utf8_head s) \<le> length s"
proof -
  from assms(1) have "1 \<le> length s" by (cases s) auto
  then show ?thesis
    using assms(2) second_ok_less[of "byte_at s 0" s] cont_at_less[of s 2] cont_at_less[of s 3]
    unfolding utf8_head_def Let_def by (simp split: if_splits)
qed

lemma utf8_head_cong:
  assumes "\<And>k. k < snd (utf8_head s) \<Longrightarrow> byte_at t k = byte_at s k"
    and "fst (utf8_head s)"
  shows "utf8_head t = utf8_head s"
proof -
  note h = assms(1)[of 0] assms(1)[of 1] assms(1)[of 2] assms(1)[of 3]
  show ?thesis
    using assms(2) h unfolding utf8_head_def Let_def cont_at_def by (simp split: if_splits)
qed

lemma utf8_head_prefix:
  assumes "s \<noteq> []" and "fst (utf8_head s)"
  shows "utf8_head (take (snd (utf8_head s)) s @ t) = utf8_head s"
proof (rule utf8_head_cong)
  show "fst (utf8_head s)" by fact
  fix k assume "k < snd (utf8_head s)"
  moreover have "snd (utf8_head s) \<le> length s"
    using assms by (rule utf8_head_length)
  ultimately show "byte_at (take (snd (utf8_head s)) s @ t) k = byte_at s k"
    by (simp add: byte_at_append) (simp add: byte_at_def)
qed

lemma utf8_valid_cons_head:
  assumes "s \<noteq> []" and "fst (utf8_head s)" and "utf8_valid t"
  shows "utf8_valid (take (snd (utf8_head s)) s @ t)"
proof -
  have "length (take (snd (utf8_head s)) s) = snd (utf8_head s)"
    using utf8_head_length[OF assms(1,2)] by simp
  then show ?thesis
    using assms(3) utf8_head_prefix[OF assms(1,2), of t] assms(2)
    by (subst utf8_valid.simps) simp
qed

lemma utf8_head_replacement: "utf8_head (replacement @ t) = (True, 3)"
  by (simp add: utf8_head_def replacement_def byte_at_def cont_at_def in_range_def Let_def
      utf8_char_width_def second_ok_def)

lemma utf8_valid_replacement: "utf8_valid t \<Longrightarrow> utf8_valid (replacement @ t)"
  by (subst utf8_valid.simps) (simp add: utf8_head_replacement, simp add: replacement_def)

lemma utf8_lossy_is_valid: "utf8_valid (utf8_lossy s)"
proof (induction s rule: utf8_lossy.induct)
  case (1 s)
  show ?case
  proof (cases "s = []")
    case False
    let ?r = "utf8_lossy (drop (snd (utf8_head s)) s)"
    have r: "utf8_valid ?r" using "1.IH" False by blast
    have "utf8_valid (replacement @ ?r)"
      using r by (rule utf8_valid_replacement)
    with r show ?thesis
      using False utf8_valid_cons_head[OF False _ r] by (simp add: utf8_lossy.simps[of s])
  qed simp
qed

lemma utf8_valid_append: "utf8_valid a \<Longrightarrow> utf8_valid b \<Longrightarrow> utf8_valid (a @ b)"
proof (induction a rule: utf8_valid.induct)
  case (1 a)
  show ?case
  proof (cases "a = []")
    case False
    let ?n = "snd (utf8_head a)"
    have h: "fst (utf8_head a)" "utf8_valid (drop ?n a)"
      using "1.prems"(1) False by (simp_all add: utf8_valid.simps[of a] split: if_splits)
    then have "utf8_valid (drop ?n a @ b)"
      using "1.IH" False h "1.prems"(2) by blast
    from utf8_valid_cons_head[OF False h(1) this] show ?thesis
      by (simp flip: append_assoc)
  qed (use "1.prems" in simp)
qed

section \<open>Lines\<close>

definition chop_cr :: "string \<Rightarrow> string" where
  "chop_cr l = (if l \<noteq> [] \<and> last l = CHR 0x0D then butlast l else l)"

function read_lines :: "string \<Rightarrow> string list" where
  "read_lines s =
     (if s = [] then []
      else (case split_once CHR 0x0A s of
              None \<Rightarrow> [s]
            | Some (a, b) \<Rightarrow> chop_cr a # read_lines b))"
  by pat_completeness auto
termination
  by (relation "measure length") (auto dest: split_once_Some)

declare read_lines.simps [simp del]

definition write_lines :: "string list \<Rightarrow> string" where
  "write_lines ls = concat (map (\<lambda>l. l @ [CHR 0x0A]) ls)"

definition line_ok :: "string \<Rightarrow> bool" where
  "line_ok l \<longleftrightarrow> CHR 0x0A \<notin> set l \<and> (l \<noteq> [] \<longrightarrow> last l \<noteq> CHR 0x0D)"

lemma read_lines_append:
  assumes "line_ok l"
  shows "read_lines (l @ CHR 0x0A # s) = l # read_lines s"
  using assms split_once_append[of "CHR 0x0A" l s]
  by (subst read_lines.simps) (auto simp: line_ok_def chop_cr_def)

lemma read_write_lines: "list_all line_ok ls \<Longrightarrow> read_lines (write_lines ls) = ls"
proof (induction ls)
  case Nil
  then show ?case by (simp add: write_lines_def read_lines.simps)
next
  case (Cons l ls)
  have "write_lines (l # ls) = l @ CHR 0x0A # write_lines ls"
    by (simp add: write_lines_def)
  then show ?case using Cons read_lines_append[of l "write_lines ls"] by simp
qed

end
