(* ===== verification/SourceIndex.thy ===== *)
theory SourceIndex
  imports Utf8 "HOL-Library.List_Lexorder" "HOL-Library.Char_ord"
begin

text \<open>
  \<open>index.rs\<close>: the index of a SymStore source. The \<open>BTreeSet\<close> of paths is a strictly sorted
  list in byte order, the order \<open>iter\<close> and \<open>write\<close> use. The locale \<open>path_index\<close> is what the
  location iterator relies on.
\<close>

section \<open>Interface\<close>

locale path_index =
  fixes empty :: 'i
    and insert :: "string \<Rightarrow> 'i \<Rightarrow> 'i"
    and contains :: "'i \<Rightarrow> string \<Rightarrow> bool"
  assumes contains_empty: "\<not> contains empty p"
    and contains_insert: "contains (insert q i) p \<longleftrightarrow> p = q \<or> contains i p"
begin

lemma contains_fold: "contains (fold insert qs i) p \<longleftrightarrow> p \<in> set qs \<or> contains i p"
  by (induction qs arbitrary: i) (auto simp: contains_insert)

lemma contains_build: "contains (fold insert qs empty) p \<longleftrightarrow> p \<in> set qs"
  by (simp add: contains_fold contains_empty)

end

section \<open>Definitions\<close>

record symstore_index =
  files :: "string list"

datatype source_index = Symstore symstore_index

definition empty_index :: symstore_index where
  "empty_index = \<lparr>files = []\<rparr>"

definition insert_file :: "string \<Rightarrow> symstore_index \<Rightarrow> symstore_index" where
  "insert_file p x = x\<lparr>files := insort_insert p (files x)\<rparr>"

definition parse_line :: "string \<Rightarrow> string option" where
  "parse_line line =
     (case split_on CHR 0x22 line of
        _ # entry # _ \<Rightarrow>
          (case split_once CHR 0x5C entry of
             None \<Rightarrow> None
           | Some (name, ident) \<Rightarrow> Some (name @ ''/'' @ ident @ ''/'' @ name))
      | _ \<Rightarrow> None)"

text \<open>
  Reading fails (None) at the first line that is not UTF-8, as the \<open>?\<close> on \<open>reader.lines()\<close> does.
\<close>

fun load_lines :: "string list \<Rightarrow> symstore_index \<Rightarrow> symstore_index option" where
  "load_lines [] out = Some out"
| "load_lines (l # ls) out = (if utf8_valid l then load_lines ls (insert_file l out) else None)"

definition load :: "string \<Rightarrow> symstore_index option" where
  "load bytes = load_lines (read_lines bytes) empty_index"

fun parse_lines :: "string list \<Rightarrow> symstore_index \<Rightarrow> symstore_index option" where
  "parse_lines [] out = Some out"
| "parse_lines (l # ls) out =
     (if utf8_valid l
      then parse_lines ls (case parse_line l of Some p \<Rightarrow> insert_file p out | None \<Rightarrow> out)
      else None)"

definition parse_from_reader :: "string \<Rightarrow> symstore_index option" where
  "parse_from_reader bytes = parse_lines (read_lines bytes) empty_index"

definition index_contains :: "symstore_index \<Rightarrow> string \<Rightarrow> bool" where
  "index_contains x p \<longleftrightarrow> p \<in> set (files x)"

fun source_index_contains :: "source_index \<Rightarrow> string \<Rightarrow> bool" where
  "source_index_contains (Symstore x) p = index_contains x p"

definition index_write :: "symstore_index \<Rightarrow> string" where
  "index_write x = write_lines (files x)"

definition index_append :: "symstore_index \<Rightarrow> symstore_index \<Rightarrow> symstore_index" where
  "index_append x other = fold insert_file (files other) x"

section \<open>The index implements the interface\<close>

definition index_ok :: "symstore_index \<Rightarrow> bool" where
  "index_ok x \<longleftrightarrow> sorted (files x) \<and> distinct (files x)"

lemma files_insert_file: "set (files (insert_file p x)) = insert p (set (files x))"
  by (simp add: insert_file_def set_insort_insert)

interpretation symstore: path_index empty_index insert_file index_contains
  by unfold_locales (simp_all add: empty_index_def index_contains_def files_insert_file)

interpretation source_idx: path_index "Symstore empty_index"
    "\<lambda>p i. case i of Symstore x \<Rightarrow> Symstore (insert_file p x)" source_index_contains
proof unfold_locales
  show "\<not> source_index_contains (Symstore empty_index) p" for p
    by (simp add: symstore.contains_empty)
  show "source_index_contains (case i of Symstore x \<Rightarrow> Symstore (insert_file q x)) p
      \<longleftrightarrow> p = q \<or> source_index_contains i p" for q i p
    by (cases i) (simp add: symstore.contains_insert)
qed

lemma index_ok_empty [simp]: "index_ok empty_index"
  by (simp add: index_ok_def empty_index_def)

lemma index_ok_insert: "index_ok x \<Longrightarrow> index_ok (insert_file p x)"
  by (simp add: index_ok_def insert_file_def sorted_insort_insert distinct_insort_insert)

lemma index_ok_fold: "index_ok x \<Longrightarrow> index_ok (fold insert_file ps x)"
  by (induction ps arbitrary: x) (simp_all add: index_ok_insert)

lemma index_append_contains: "index_contains (index_append x y) p \<longleftrightarrow> index_contains x p \<or> index_contains y p"
  unfolding index_append_def symstore.contains_fold by (auto simp: index_contains_def)

lemma load_lines_eq: "list_all utf8_valid ls \<Longrightarrow> load_lines ls x = Some (fold insert_file ls x)"
  by (induction ls arbitrary: x) simp_all

lemma parse_lines_eq:
  "parse_lines ls x = Some y \<Longrightarrow> y = fold insert_file (List.map_filter parse_line ls) x"
  by (induction ls arbitrary: x) (auto simp: map_filter_simps split: if_splits option.splits)

lemma insort_insert_sorted_self:
  "sorted (xs @ [p]) \<Longrightarrow> distinct (xs @ [p]) \<Longrightarrow> insort_insert p xs = xs @ [p]"
proof -
  assume s: "sorted (xs @ [p])" "distinct (xs @ [p])"
  then have "insort p xs = xs @ [p]"
    by (intro sorted_insort_is_snoc) (auto simp: sorted_append)
  then show ?thesis using s(2) by (simp add: insort_insert_insort)
qed

lemma fold_insert_sorted:
  assumes "sorted (pre @ ls)" and "distinct (pre @ ls)"
  shows "fold insert_file ls \<lparr>files = pre\<rparr> = \<lparr>files = pre @ ls\<rparr>"
  using assms
proof (induction ls arbitrary: pre)
  case (Cons l ls)
  have "insert_file l \<lparr>files = pre\<rparr> = \<lparr>files = pre @ [l]\<rparr>"
    using Cons.prems by (simp add: insert_file_def insort_insert_sorted_self sorted_append)
  then show ?case using Cons.IH[of "pre @ [l]"] Cons.prems by simp
qed simp

section \<open>Properties\<close>

definition index_writable :: "symstore_index \<Rightarrow> bool" where
  "index_writable x \<longleftrightarrow> index_ok x \<and> list_all (\<lambda>l. line_ok l \<and> utf8_valid l) (files x)"

lemma load_written:
  assumes "index_writable x"
  shows "load (index_write x) = Some x"
proof -
  have "list_all line_ok (files x)" "list_all utf8_valid (files x)" "sorted (files x)" "distinct (files x)"
    using assms by (auto simp: index_writable_def index_ok_def list_all_iff)
  then show ?thesis
    using fold_insert_sorted[of "[]" "files x"]
    by (simp add: load_def index_write_def read_write_lines load_lines_eq empty_index_def)
qed

text \<open>
  An index written out and loaded again is the same index: \<open>load\<close> inverts \<open>write\<close> on every
  sorted index whose paths are UTF-8 text without a line break and without a trailing
  carriage return.
\<close>

theorem index_load_write:
  assumes "index_writable x"
  shows "load (index_write x) = Some x"
  using assms by (rule load_written)

definition demo_index :: symstore_index where
  "demo_index = insert_file ''a.dll/1/a.dll'' (insert_file ''b.dll/2/b.dll'' empty_index)"

theorem index_load_write_witness: "index_writable demo_index \<and> load (index_write demo_index) = Some demo_index"
proof -
  have h: "index_writable demo_index" by code_simp
  from index_load_write[OF h] h show ?thesis by blast
qed

text \<open>
  Parsing a SymStore upload file yields exactly its well-formed entries: a path is in the
  index iff some line of the file parses to it. Malformed lines are skipped without losing the
  others, and the index stays sorted and free of duplicates.
\<close>

theorem parse_from_reader_exact:
  assumes "parse_from_reader bytes = Some x"
  shows "(index_contains x p \<longleftrightarrow> (\<exists>l \<in> set (read_lines bytes). parse_line l = Some p)) \<and> index_ok x"
proof -
  have x: "x = fold insert_file (List.map_filter parse_line (read_lines bytes)) empty_index"
    using assms unfolding parse_from_reader_def by (rule parse_lines_eq)
  have "index_contains x p \<longleftrightarrow> p \<in> set (List.map_filter parse_line (read_lines bytes))"
    unfolding x by (rule symstore.contains_build)
  also have "\<dots> \<longleftrightarrow> (\<exists>l \<in> set (read_lines bytes). parse_line l = Some p)"
    by (force simp: List.map_filter_def image_iff)
  finally show ?thesis
    using x by (simp add: index_ok_fold)
qed

definition demo_upload :: string where
  "demo_upload = [CHR 0x22] @ ''a.dll'' @ [CHR 0x5C] @ ''45'' @ [CHR 0x22, CHR 0x0A] @ ''junk'' @ [CHR 0x0A]"

theorem parse_from_reader_exact_witness:
  "parse_from_reader demo_upload = Some \<lparr>files = [''a.dll/45/a.dll'']\<rparr>
   \<and> index_contains \<lparr>files = [''a.dll/45/a.dll'']\<rparr> ''a.dll/45/a.dll''
   \<and> (\<exists>l \<in> set (read_lines demo_upload). parse_line l = Some ''a.dll/45/a.dll'')"
proof -
  have h: "parse_from_reader demo_upload = Some \<lparr>files = [''a.dll/45/a.dll'']\<rparr>" by code_simp
  from parse_from_reader_exact[OF h, of "''a.dll/45/a.dll''"] h show ?thesis
    by (simp add: index_contains_def)
qed

end
