(* ===== verification/SourceIter.thy ===== *)
theory SourceIter
  imports PathsCorrect SourceIndex
begin

text \<open>
  \<open>remotefile.rs\<close>: source locations, the lazy iterator over the locations to try on a source,
  and remote files with their cache keys. The iterator is modelled as the state machine its
  \<open>next\<close> method is; \<open>collect\<close> runs it.
\<close>

section \<open>Locations\<close>

definition segments :: "string \<Rightarrow> string list" where
  "segments loc = filter (\<lambda>s. s \<noteq> []) (split_on CHR ''/'' loc)"

definition trim_slashes :: "string \<Rightarrow> string" where
  "trim_slashes s = rev (dropWhile (\<lambda>c. c = CHR ''/'') (rev (dropWhile (\<lambda>c. c = CHR ''/'') s)))"

definition location_prefix :: "string \<Rightarrow> string \<Rightarrow> string" where
  "location_prefix loc pre =
     (let trimmed = trim_slashes pre
      in if trimmed = [] then loc else trimmed @ ''/'' @ loc)"

section \<open>The iterator\<close>

record location_iter =
  it_filetypes :: "file_type list"
  it_filters :: source_filters
  it_index :: "source_index option"
  it_object_id :: object_id
  it_layout :: directory_layout
  it_next :: "string list"

definition location_iter_new ::
    "common_source_config \<Rightarrow> file_type list \<Rightarrow> source_index option \<Rightarrow> object_id \<Rightarrow> location_iter" where
  "location_iter_new config fts index i =
     \<lparr>it_filetypes = fts, it_filters = filters config, it_index = index, it_object_id = i,
      it_layout = layout config, it_next = []\<rparr>"

definition retain_indexed :: "source_index option \<Rightarrow> string list \<Rightarrow> string list" where
  "retain_indexed index ps =
     (case index of None \<Rightarrow> ps | Some ix \<Rightarrow> filter (source_index_contains ix) ps)"

text \<open>The loop of \<open>next\<close>: refill from the next allowed file type until something is pending.\<close>

fun iter_loop :: "externals \<Rightarrow> location_iter \<Rightarrow> file_type list \<Rightarrow> string list
    \<Rightarrow> (string option \<times> location_iter) outcome" where
  "iter_loop X it fts (p # ps) =
     Ret (Some (last (p # ps)), it\<lparr>it_filetypes := fts, it_next := butlast (p # ps)\<rparr>)"
| "iter_loop X it [] [] = Ret (None, it\<lparr>it_filetypes := [], it_next := []\<rparr>)"
| "iter_loop X it (ft # fts) [] =
     (if \<not> is_allowed X (it_filters it) (it_object_id it) ft then iter_loop X it fts []
      else bind_out (get_directory_paths X (it_layout it) ft (it_object_id it))
             (\<lambda>ps. iter_loop X it fts (retain_indexed (it_index it) ps)))"

definition iter_next :: "externals \<Rightarrow> location_iter \<Rightarrow> (string option \<times> location_iter) outcome" where
  "iter_next X it = iter_loop X it (it_filetypes it) (it_next it)"

text \<open>Draining the iterator; the fuel bounds the calls of \<open>next\<close>, None when it is used up.\<close>

fun iter_collect :: "nat \<Rightarrow> externals \<Rightarrow> location_iter \<Rightarrow> string list outcome option" where
  "iter_collect 0 X it = None"
| "iter_collect (Suc n) X it =
     (case iter_next X it of
        Panic \<Rightarrow> Some Panic
      | Ret (None, it') \<Rightarrow> Some (Ret [])
      | Ret (Some p, it') \<Rightarrow> map_option (map_out (\<lambda>ps. p # ps)) (iter_collect n X it'))"

section \<open>Remote files\<close>

text \<open>The identifier and the common part of the five bucket-like source configurations.\<close>

record bucket_source =
  source_name :: string
  bucket_files :: common_source_config

datatype remote_file =
    Attachment string                     \<comment> \<open>the download URL\<close>
  | Azure bucket_source string
  | Filesystem bucket_source string
  | Gcs bucket_source string
  | Http bucket_source string
  | S3 bucket_source string
  | Sentry string string                  \<comment> \<open>source id, file id\<close>

definition remote_source_id :: "remote_file \<Rightarrow> string" where
  "remote_source_id f = (case f of
      Attachment _ \<Rightarrow> ''sentry:attachments''
    | Sentry s _ \<Rightarrow> s
    | Http s _ \<Rightarrow> source_name s | S3 s _ \<Rightarrow> source_name s | Gcs s _ \<Rightarrow> source_name s
    | Azure s _ \<Rightarrow> source_name s | Filesystem s _ \<Rightarrow> source_name s)"

definition remote_is_public :: "remote_file \<Rightarrow> bool" where
  "remote_is_public f = (case f of
      Attachment _ \<Rightarrow> False | Sentry _ _ \<Rightarrow> False
    | Http s _ \<Rightarrow> is_public (bucket_files s) | S3 s _ \<Rightarrow> is_public (bucket_files s)
    | Gcs s _ \<Rightarrow> is_public (bucket_files s) | Azure s _ \<Rightarrow> is_public (bucket_files s)
    | Filesystem s _ \<Rightarrow> is_public (bucket_files s))"

definition remote_cache_key :: "remote_file \<Rightarrow> string" where
  "remote_cache_key f = (case f of
      Attachment url \<Rightarrow> ''sentry:attachments.'' @ url
    | Sentry s fid \<Rightarrow> s @ ''.'' @ fid @ ''.sentryinternal''
    | Http s loc \<Rightarrow> source_name s @ ''.'' @ loc
    | S3 s loc \<Rightarrow> source_name s @ ''.'' @ loc
    | Gcs s loc \<Rightarrow> source_name s @ ''.'' @ loc
    | Azure s loc \<Rightarrow> source_name s @ ''.'' @ loc
    | Filesystem s loc \<Rightarrow> source_name s @ ''.'' @ loc)"

definition remote_is_builtin :: "remote_file \<Rightarrow> bool" where
  "remote_is_builtin f = starts_with (remote_source_id f) ''sentry:''"

definition remote_source_metric_key :: "remote_file \<Rightarrow> string" where
  "remote_source_metric_key f =
     (if remote_is_builtin f then remote_source_id f
      else (case f of
          Attachment _ \<Rightarrow> ''sentry:attachments'' | Sentry _ _ \<Rightarrow> ''sentry'' | S3 _ _ \<Rightarrow> ''s3''
        | Gcs _ _ \<Rightarrow> ''gcs'' | Azure _ _ \<Rightarrow> ''azure'' | Http _ _ \<Rightarrow> ''http''
        | Filesystem _ _ \<Rightarrow> ''filesystem''))"

definition worth_using_shared_cache :: "remote_file \<Rightarrow> bool" where
  "worth_using_shared_cache f = (case f of
      Sentry _ _ \<Rightarrow> True
    | Attachment _ \<Rightarrow> False
    | Gcs s _ \<Rightarrow> \<not> starts_with (source_name s) ''sentry:''
    | _ \<Rightarrow> True)"

definition remote_display :: "remote_file \<Rightarrow> string" where
  "remote_display f = (case f of
      Attachment url \<Rightarrow> ''Sentry attachment '' @ url
    | Sentry s fid \<Rightarrow> ''Sentry source '' @ [CHR 0x27] @ s @ [CHR 0x27] @ '' file id '' @ [CHR 0x27] @ fid @ [CHR 0x27]
    | Http s loc \<Rightarrow> ''HTTP source '' @ [CHR 0x27] @ source_name s @ [CHR 0x27] @ '' location '' @ [CHR 0x27] @ loc @ [CHR 0x27]
    | S3 s loc \<Rightarrow> ''S3 source '' @ [CHR 0x27] @ source_name s @ [CHR 0x27] @ '' location '' @ [CHR 0x27] @ loc @ [CHR 0x27]
    | Gcs s loc \<Rightarrow> ''GCS source '' @ [CHR 0x27] @ source_name s @ [CHR 0x27] @ '' location '' @ [CHR 0x27] @ loc @ [CHR 0x27]
    | Azure s loc \<Rightarrow> ''Azure source '' @ [CHR 0x27] @ source_name s @ [CHR 0x27] @ '' location '' @ [CHR 0x27] @ loc @ [CHR 0x27]
    | Filesystem s loc \<Rightarrow> ''Filesystem source '' @ [CHR 0x27] @ source_name s @ [CHR 0x27] @ '' location '' @ [CHR 0x27] @ loc @ [CHR 0x27])"

section \<open>At most four paths per file type\<close>

lemma source_bundle_paths_length: "source_bundle_paths X i = Ret ps \<Longrightarrow> length ps \<le> 2"
  by (cases "source_bundle_base X i"; cases "get_breakpad_path X i")
    (auto simp: source_bundle_paths_def Let_def split: option.splits if_splits)

lemma list_of_option_le2: "length (list_of_option x) \<le> 2"
  using list_of_option_length[of x] by linarith

lemma get_native_paths_length: "get_native_paths X ft i = Ret ps \<Longrightarrow> length ps \<le> 2"
  by (cases ft) (auto simp: get_native_paths_def list_of_option_le2 dest: source_bundle_paths_length)

lemma layout_paths_length: "layout_paths X t ft i = Ret ps \<Longrightarrow> length ps \<le> 2"
  by (cases t) (auto simp: layout_paths_def list_of_option_le2 get_slashsymbols_paths_def get_nnsymstore_paths_def Let_def
      dest: get_native_paths_length split: option.splits if_splits)

lemma length_with_compressed: "length (with_compressed ft ps) \<le> 2 * length ps"
proof -
  have "length (concat (map (\<lambda>p. [compressed_path p, p]) ps)) = 2 * length ps"
    by (induction ps) auto
  then show ?thesis by (simp add: with_compressed_def)
qed

lemma get_directory_paths_length:
  assumes "get_directory_paths X l ft i = Ret ps"
  shows "length ps \<le> 4"
proof -
  from assms obtain qs where "layout_paths X (ty l) ft i = Ret qs"
      and ps: "ps = with_compressed ft (map (apply_casing (casing l)) qs)"
    by (auto simp: get_directory_paths_def)
  then have "length qs \<le> 2" by (auto dest: layout_paths_length)
  then show ?thesis
    using length_with_compressed[of ft "map (apply_casing (casing l)) qs"] ps by simp
qed

section \<open>What the iterator yields\<close>

text \<open>
  The specification: the locations of the allowed file types in order, within one file type
  from the last path to the first (the code pops from a list sorted by rising priority), only
  those the index knows.
\<close>

definition paths_of :: "externals \<Rightarrow> location_iter \<Rightarrow> file_type \<Rightarrow> string list" where
  "paths_of X it ft =
     (if is_allowed X (it_filters it) (it_object_id it) ft
      then rev (retain_indexed (it_index it) (out_list (get_directory_paths X (it_layout it) ft (it_object_id it))))
      else [])"

definition iter_spec :: "externals \<Rightarrow> location_iter \<Rightarrow> string list" where
  "iter_spec X it = rev (it_next it) @ concat (map (paths_of X it) (it_filetypes it))"

definition iter_fuel :: "location_iter \<Rightarrow> nat" where
  "iter_fuel it = Suc (length (it_next it) + 4 * length (it_filetypes it))"

lemma retain_indexed_length: "length (retain_indexed ix ps) \<le> length ps"
  by (simp add: retain_indexed_def split: option.splits)

lemma rev_pop: "ps \<noteq> [] \<Longrightarrow> rev ps = last ps # rev (butlast ps)"
  by (metis append_butlast_last_id rev.simps(2) rev_append rev_rev_ident rev_singleton_conv append_Cons append_Nil)

lemma paths_of_update: "paths_of X (it\<lparr>it_filetypes := a, it_next := b\<rparr>) = paths_of X it"
  by (rule ext) (simp add: paths_of_def)

lemma iter_loop_spec:
  assumes "ascii_code_id (it_object_id it)"
  shows "\<exists>o' it'. iter_loop X it fts nxt = Ret (o', it')
     \<and> (case o' of
          None \<Rightarrow> rev nxt @ concat (map (paths_of X it) fts) = []
        | Some p \<Rightarrow> rev nxt @ concat (map (paths_of X it) fts) = p # iter_spec X it'
                   \<and> length (it_next it') + 4 * length (it_filetypes it') < length nxt + 4 * length fts
                   \<and> it_object_id it' = it_object_id it)"
  using assms
proof (induction X it fts nxt rule: iter_loop.induct)
  case (1 X it fts p ps)
  have "rev (p # ps) = last (p # ps) # rev (butlast (p # ps))"
    by (rule rev_pop) simp
  then show ?case
    by (simp add: iter_spec_def paths_of_update del: rev.simps last.simps butlast.simps)
next
  case (2 X it)
  then show ?case by simp
next
  case (3 X it ft fts)
  show ?case
  proof (cases "is_allowed X (it_filters it) (it_object_id it) ft")
    case False
    then have "paths_of X it ft = []" by (simp add: paths_of_def)
    with "3.IH"(1)[OF False "3.prems"] False show ?thesis
      by (elim exE conjE) (simp split: option.splits)
  next
    case True
    have "no_panic (get_directory_paths X (it_layout it) ft (it_object_id it))"
      using get_native_paths_no_panic[OF "3.prems"]
      by (simp add: get_directory_paths_def layout_paths_def split: directory_layout_type.splits)
    then obtain ps where ps: "get_directory_paths X (it_layout it) ft (it_object_id it) = Ret ps"
      by (cases "get_directory_paths X (it_layout it) ft (it_object_id it)") auto
    have len: "length (retain_indexed (it_index it) ps) \<le> 4"
      using get_directory_paths_length[OF ps] retain_indexed_length[of "it_index it" ps] by linarith
    have po: "paths_of X it ft = rev (retain_indexed (it_index it) ps)"
      using True ps by (simp add: paths_of_def)
    from "3.IH"(2)[of ps] True "3.prems" obtain o' it' where
      ih: "iter_loop X it fts (retain_indexed (it_index it) ps) = Ret (o', it')"
        "case o' of
          None \<Rightarrow> rev (retain_indexed (it_index it) ps) @ concat (map (paths_of X it) fts) = []
        | Some p \<Rightarrow> rev (retain_indexed (it_index it) ps) @ concat (map (paths_of X it) fts) = p # iter_spec X it'
                   \<and> length (it_next it') + 4 * length (it_filetypes it')
                       < length (retain_indexed (it_index it) ps) + 4 * length fts
                   \<and> it_object_id it' = it_object_id it"
      by blast
    then show ?thesis
      using True ps len po by (auto split: option.splits)
  qed
qed

lemma iter_collect_ok:
  assumes "ascii_code_id (it_object_id it)" and "iter_fuel it \<le> n"
  shows "iter_collect n X it = Some (Ret (iter_spec X it))"
  using assms
proof (induction n arbitrary: it)
  case 0
  then show ?case by (simp add: iter_fuel_def)
next
  case (Suc n)
  from iter_loop_spec[OF Suc.prems(1), of X "it_filetypes it" "it_next it"]
  obtain o' it' where step: "iter_next X it = Ret (o', it')"
    and o': "case o' of None \<Rightarrow> iter_spec X it = []
        | Some p \<Rightarrow> iter_spec X it = p # iter_spec X it' \<and> iter_fuel it' < iter_fuel it
                   \<and> it_object_id it' = it_object_id it"
    by (fastforce simp: iter_next_def iter_spec_def iter_fuel_def split: option.splits)
  show ?case
    using step o' Suc.IH[of it'] Suc.prems by (cases o') auto
qed

text \<open>
  C26. The location iterator refines its specification: it never panics, it stops within
  \<open>iter_fuel\<close> calls of \<open>next\<close>, and it yields exactly the specified locations in the specified
  order.
\<close>

theorem iter_collect_spec:
  assumes "ascii_code_id (it_object_id it)" and "iter_fuel it \<le> n"
  shows "iter_collect n X it = Some (Ret (iter_spec X it))"
  using assms by (rule iter_collect_ok)

definition demo_iter :: location_iter where
  "demo_iter = location_iter_new default_common_source_config [ElfCode, ElfDebug]
     (Some (Symstore (insert_file ''df/b85d.debug'' empty_index))) demo_elf"

theorem iter_collect_spec_witness:
  "iter_collect 9 demo_externals demo_iter = Some (Ret [''df/b85d.debug''])"
proof -
  have h: "ascii_code_id (it_object_id demo_iter)" "iter_fuel demo_iter \<le> 9"
    using demo_elf_ascii by (simp_all add: demo_iter_def location_iter_new_def iter_fuel_def)
  have e: "iter_spec demo_externals demo_iter = [''df/b85d.debug'']" by code_simp
  from iter_collect_spec[OF h] show ?thesis by (simp only: e)
qed

text \<open>
  An index is authoritative: a source with an index never has a location tried that the
  index does not list, and a location is tried iff its file type is allowed by the filters,
  the layout generates it and the index lists it.
\<close>

theorem iter_yields_indexed:
  assumes "it_next it = []" and "it_index it = Some ix"
  shows "p \<in> set (iter_spec X it) \<longleftrightarrow>
     source_index_contains ix p \<and>
     (\<exists>ft \<in> set (it_filetypes it). is_allowed X (it_filters it) (it_object_id it) ft \<and>
        (\<exists>ps. get_directory_paths X (it_layout it) ft (it_object_id it) = Ret ps \<and> p \<in> set ps))"
proof -
  let ?g = "\<lambda>ft. get_directory_paths X (it_layout it) ft (it_object_id it)"
  let ?a = "is_allowed X (it_filters it) (it_object_id it)"
  have "p \<in> set (paths_of X it ft) \<longleftrightarrow> source_index_contains ix p \<and> ?a ft \<and> (\<exists>ps. ?g ft = Ret ps \<and> p \<in> set ps)" for ft
  proof (cases "?g ft")
    case (Ret ps)
    then show ?thesis using assms(2) by (auto simp: paths_of_def retain_indexed_def)
  next
    case Panic
    then show ?thesis using assms(2) by (simp add: paths_of_def retain_indexed_def)
  qed
  then show ?thesis using assms(1) by (simp add: iter_spec_def)
qed

theorem iter_yields_indexed_witness:
  "''df/b85d.debug'' \<in> set (iter_spec demo_externals demo_iter) \<and>
   source_index_contains (Symstore (insert_file ''df/b85d.debug'' empty_index)) ''df/b85d.debug''"
proof -
  have h: "it_next demo_iter = []" "it_index demo_iter = Some (Symstore (insert_file ''df/b85d.debug'' empty_index))"
    by (simp_all add: demo_iter_def location_iter_new_def)
  have "''df/b85d.debug'' \<in> set (iter_spec demo_externals demo_iter)" by code_simp
  then show ?thesis using iter_yields_indexed[OF h, of "''df/b85d.debug''" demo_externals] by blast
qed

section \<open>Remote files\<close>

text \<open>
  Sharing never leaks private files: files of Sentry's own storage are never public, an
  attachment never reaches the shared cache, and the built-in GCS sources bypass it too.
\<close>

theorem remote_file_sharing:
  "(remote_is_public f \<longrightarrow> (\<exists>s loc. is_public (bucket_files s) \<and>
       f \<in> {Azure s loc, Filesystem s loc, Gcs s loc, Http s loc, S3 s loc}))
   \<and> (\<not> worth_using_shared_cache f \<longleftrightarrow>
       (\<exists>u. f = Attachment u) \<or> (\<exists>s loc. f = Gcs s loc \<and> remote_is_builtin f))"
  by (cases f) (auto simp: remote_is_public_def worth_using_shared_cache_def remote_is_builtin_def remote_source_id_def)

definition demo_bucket :: bucket_source where
  "demo_bucket = \<lparr>source_name = ''sentry:apple'', bucket_files = default_common_source_config\<lparr>is_public := True\<rparr>\<rparr>"

theorem remote_file_sharing_witness:
  "remote_is_public (Gcs demo_bucket ''a'') \<and> \<not> worth_using_shared_cache (Gcs demo_bucket ''a'')
   \<and> (\<exists>s loc. is_public (bucket_files s) \<and>
       Gcs demo_bucket ''a'' \<in> {Azure s loc, Filesystem s loc, Gcs s loc, Http s loc, S3 s loc})"
proof -
  have h: "remote_is_public (Gcs demo_bucket ''a'')" "\<not> worth_using_shared_cache (Gcs demo_bucket ''a'')"
    by code_simp+
  with remote_file_sharing[of "Gcs demo_bucket ''a''"] show ?thesis by blast
qed

end
