(* ===== verification/CacheErrors.thy ===== *)
theory CacheErrors
  imports Utf8
begin

text \<open>
  \<open>caching/cache_error.rs\<close>: the error values of the caching layer and their on-disk form, a
  marker followed by the details. \<open>humantime\<close> (durations as text) and the \<open>Debug\<close> form of a
  duration are the record \<open>duration_text\<close>. A duration is its number of nanoseconds.
\<close>

type_synonym duration = nat

definition duration_max :: duration where
  "duration_max = 2 ^ 64 * 10 ^ 9 - 1"

record duration_text =
  format_duration :: "duration \<Rightarrow> string"
  parse_duration :: "string \<Rightarrow> duration option"
  debug_duration :: "duration \<Rightarrow> string"

section \<open>Definitions\<close>

datatype cache_error =
    NotFound
  | PermissionDenied string
  | Timeout duration
  | DownloadError string
  | Malformed string
  | Unsupported string
  | InternalError

type_synonym 'a cache_contents = "cache_error + 'a"

text \<open>The \<open>#[error(...)]\<close> attributes, the \<open>Display\<close> form shown to users.\<close>

definition error_to_string :: "duration_text \<Rightarrow> cache_error \<Rightarrow> string" where
  "error_to_string D e = (case e of
      NotFound \<Rightarrow> ''not found''
    | PermissionDenied s \<Rightarrow> ''permission denied: '' @ s
    | Timeout d \<Rightarrow> ''download timed out after '' @ debug_duration D d
    | DownloadError s \<Rightarrow> ''download failed: '' @ s
    | Malformed s \<Rightarrow> ''malformed: '' @ s
    | Unsupported s \<Rightarrow> ''unsupported: '' @ s
    | InternalError \<Rightarrow> ''internal error'')"

abbreviation MALFORMED_MARKER :: string where "MALFORMED_MARKER \<equiv> ''malformed''"
abbreviation PERMISSION_DENIED_MARKER :: string where "PERMISSION_DENIED_MARKER \<equiv> ''permissiondenied''"
abbreviation TIMEOUT_MARKER :: string where "TIMEOUT_MARKER \<equiv> ''timeout''"
abbreviation DOWNLOAD_ERROR_MARKER :: string where "DOWNLOAD_ERROR_MARKER \<equiv> ''downloaderror''"
abbreviation UNSUPPORTED_MARKER :: string where "UNSUPPORTED_MARKER \<equiv> ''unsupported''"

text \<open>An open file: its bytes and the cursor. Writing overwrites from the cursor on.\<close>

record open_file =
  fbytes :: string
  fpos :: nat

definition file_rewind :: "open_file \<Rightarrow> open_file" where
  "file_rewind f = f\<lparr>fpos := 0\<rparr>"

definition file_write_all :: "string \<Rightarrow> open_file \<Rightarrow> open_file" where
  "file_write_all s f =
     f\<lparr>fbytes := take (fpos f) (fbytes f) @ s @ drop (fpos f + length s) (fbytes f),
       fpos := fpos f + length s\<rparr>"

definition file_set_len :: "nat \<Rightarrow> open_file \<Rightarrow> open_file" where
  "file_set_len n f = f\<lparr>fbytes := take n (fbytes f) @ replicate (n - length (fbytes f)) CHR 0x00\<rparr>"

definition error_write :: "duration_text \<Rightarrow> cache_error \<Rightarrow> open_file \<Rightarrow> open_file" where
  "error_write D e f =
     (if e = InternalError then f
      else
        let f = file_rewind f;
            f = (case e of
                   NotFound \<Rightarrow> f
                 | Malformed s \<Rightarrow> file_write_all s (file_write_all MALFORMED_MARKER f)
                 | PermissionDenied s \<Rightarrow> file_write_all s (file_write_all PERMISSION_DENIED_MARKER f)
                 | Timeout d \<Rightarrow> file_write_all (format_duration D d) (file_write_all TIMEOUT_MARKER f)
                 | DownloadError s \<Rightarrow> file_write_all s (file_write_all DOWNLOAD_ERROR_MARKER f)
                 | Unsupported s \<Rightarrow> file_write_all s (file_write_all UNSUPPORTED_MARKER f)
                 | InternalError \<Rightarrow> f)
        in file_set_len (fpos f) f)"

definition utf8_message :: "string \<Rightarrow> string" where
  "utf8_message raw = utf8_lossy (takeWhile (\<lambda>c. c \<noteq> CHR 0x00) raw)"

definition error_from_bytes :: "duration_text \<Rightarrow> string \<Rightarrow> cache_error option" where
  "error_from_bytes D bytes =
     (case strip_prefix bytes PERMISSION_DENIED_MARKER of
        Some raw \<Rightarrow> Some (PermissionDenied (utf8_message raw))
      | None \<Rightarrow>
     (case strip_prefix bytes TIMEOUT_MARKER of
        Some raw \<Rightarrow>
          (case parse_duration D (utf8_message raw) of
             Some d \<Rightarrow> Some (Timeout d)
           | None \<Rightarrow> Some InternalError)
      | None \<Rightarrow>
     (case strip_prefix bytes DOWNLOAD_ERROR_MARKER of
        Some raw \<Rightarrow> Some (DownloadError (utf8_message raw))
      | None \<Rightarrow>
     (case strip_prefix bytes MALFORMED_MARKER of
        Some raw \<Rightarrow> Some (Malformed (utf8_message raw))
      | None \<Rightarrow>
     (case strip_prefix bytes UNSUPPORTED_MARKER of
        Some raw \<Rightarrow> Some (Unsupported (utf8_message raw))
      | None \<Rightarrow>
     (if bytes = [] then Some NotFound else None))))))"

definition cache_contents_from_bytes :: "duration_text \<Rightarrow> string \<Rightarrow> string cache_contents" where
  "cache_contents_from_bytes D bytes =
     (case error_from_bytes D bytes of Some e \<Rightarrow> Inl e | None \<Rightarrow> Inr bytes)"

section \<open>Facts\<close>

definition message_ok :: "string \<Rightarrow> bool" where
  "message_ok s \<longleftrightarrow> utf8_valid s \<and> CHR 0x00 \<notin> set s"

lemma utf8_message_ok: "message_ok s \<Longrightarrow> utf8_message s = s"
proof -
  assume ok: "message_ok s"
  then have "takeWhile (\<lambda>c. c \<noteq> CHR 0x00) s = s"
    by (auto simp: message_ok_def takeWhile_eq_all_conv)
  with ok show ?thesis by (metis message_ok_def utf8_message_def utf8_lossy_valid)
qed

lemma utf8_message_valid: "utf8_valid (utf8_message s)"
  by (simp add: utf8_message_def utf8_lossy_is_valid)

text \<open>The bytes an error leaves in the file, whatever was there before.\<close>

definition error_bytes :: "duration_text \<Rightarrow> cache_error \<Rightarrow> string" where
  "error_bytes D e = (case e of
      NotFound \<Rightarrow> []
    | Malformed s \<Rightarrow> MALFORMED_MARKER @ s
    | PermissionDenied s \<Rightarrow> PERMISSION_DENIED_MARKER @ s
    | Timeout d \<Rightarrow> TIMEOUT_MARKER @ format_duration D d
    | DownloadError s \<Rightarrow> DOWNLOAD_ERROR_MARKER @ s
    | Unsupported s \<Rightarrow> UNSUPPORTED_MARKER @ s
    | InternalError \<Rightarrow> [])"

lemma write_two:
  "fbytes (file_set_len (fpos (file_write_all t (file_write_all m (file_rewind f))))
     (file_write_all t (file_write_all m (file_rewind f)))) = m @ t"
  by (simp add: file_set_len_def file_write_all_def file_rewind_def)

lemma error_write_bytes: "e \<noteq> InternalError \<Longrightarrow> fbytes (error_write D e f) = error_bytes D e"
  by (cases e) (simp_all add: error_write_def error_bytes_def Let_def write_two del: append_Cons,
      simp add: file_set_len_def file_rewind_def)

definition error_ok :: "duration_text \<Rightarrow> cache_error \<Rightarrow> bool" where
  "error_ok D e \<longleftrightarrow> (case e of
      NotFound \<Rightarrow> True
    | PermissionDenied s \<Rightarrow> message_ok s
    | Timeout d \<Rightarrow> message_ok (format_duration D d) \<and> parse_duration D (format_duration D d) = Some d
    | DownloadError s \<Rightarrow> message_ok s
    | Malformed s \<Rightarrow> message_ok s
    | Unsupported s \<Rightarrow> message_ok s
    | InternalError \<Rightarrow> False)"

lemma error_from_bytes_of_bytes: "error_ok D e \<Longrightarrow> error_from_bytes D (error_bytes D e) = Some e"
  by (cases e) (simp_all add: error_ok_def error_bytes_def error_from_bytes_def strip_prefix_def
      starts_with_def utf8_message_ok)

lemma error_from_bytes_None:
  "error_from_bytes D bytes = None \<longleftrightarrow> bytes \<noteq> [] \<and>
     (\<forall>m \<in> {PERMISSION_DENIED_MARKER, TIMEOUT_MARKER, DOWNLOAD_ERROR_MARKER, MALFORMED_MARKER,
            UNSUPPORTED_MARKER}. \<not> starts_with bytes m)"
  by (simp add: error_from_bytes_def strip_prefix_def split: option.splits)

section \<open>Interface: persisting outcomes\<close>

text \<open>
  What the file-system cache relies on: an outcome that may be persisted is recovered from
  the bytes that persisting it leaves, and outcomes are told apart.
\<close>

locale outcome_codec =
  fixes enc :: "'c \<Rightarrow> 'b"
    and dec :: "'b \<Rightarrow> 'c"
    and persistable :: "'c \<Rightarrow> bool"
  assumes dec_enc: "persistable c \<Longrightarrow> dec (enc c) = c"
begin

lemma enc_inj: "persistable c \<Longrightarrow> persistable d \<Longrightarrow> enc c = enc d \<Longrightarrow> c = d"
  by (metis dec_enc)

lemma dec_image: "persistable c \<Longrightarrow> b = enc c \<Longrightarrow> enc (dec b) = b"
  by (simp add: dec_enc)

end

fun contents_bytes :: "duration_text \<Rightarrow> string cache_contents \<Rightarrow> string" where
  "contents_bytes D (Inr b) = b"
| "contents_bytes D (Inl e) = error_bytes D e"

fun contents_persistable :: "duration_text \<Rightarrow> string cache_contents \<Rightarrow> bool" where
  "contents_persistable D (Inr b) = (error_from_bytes D b = None)"
| "contents_persistable D (Inl e) = error_ok D e"

interpretation contents: outcome_codec "contents_bytes D" "cache_contents_from_bytes D" "contents_persistable D"
proof unfold_locales
  show "cache_contents_from_bytes D (contents_bytes D c) = c" if "contents_persistable D c" for c
    using that by (cases c) (simp_all add: cache_contents_from_bytes_def error_from_bytes_of_bytes)
qed

section \<open>Properties\<close>

definition demo_durations :: duration_text where
  "demo_durations = \<lparr>format_duration = (\<lambda>d. replicate d CHR ''i''),
     parse_duration = (\<lambda>s. Some (length s)), debug_duration = (\<lambda>d. replicate d CHR ''i'')\<rparr>"

text \<open>
  Errors survive the disk: writing any error but \<open>InternalError\<close> over any previous file
  contents, at any cursor position, and reading the bytes back yields the same error, when its
  text is UTF-8 without NUL bytes. The truncation at the end of \<open>write\<close> is what makes stale
  bytes of the old contents disappear.
\<close>

theorem error_write_roundtrip:
  assumes "error_ok D e"
  shows "cache_contents_from_bytes D (fbytes (error_write D e f)) = Inl e"
proof -
  have "e \<noteq> InternalError" using assms by (auto simp: error_ok_def)
  then have "fbytes (error_write D e f) = contents_bytes D (Inl e)"
    by (simp add: error_write_bytes)
  then show ?thesis
    using contents.dec_enc[of D "Inl e"] assms by simp
qed

theorem error_write_roundtrip_witness:
  "cache_contents_from_bytes demo_durations
     (fbytes (error_write demo_durations (Malformed ''bad'') \<lparr>fbytes = ''some longer old contents'', fpos = 3\<rparr>))
   = Inl (Malformed ''bad'')"
proof (rule error_write_roundtrip)
  show "error_ok demo_durations (Malformed ''bad'')" by code_simp
qed

text \<open>
  Reading a cache file never invents anything: the bytes are taken as data iff the file is
  nonempty and starts with no error marker, and then unchanged; a decoded error message is
  always UTF-8 text, even for truncated or corrupt files.
\<close>

theorem cache_contents_from_bytes_exact:
  "(cache_contents_from_bytes D bytes = Inr b \<longleftrightarrow>
      b = bytes \<and> bytes \<noteq> [] \<and>
      (\<forall>m \<in> {PERMISSION_DENIED_MARKER, TIMEOUT_MARKER, DOWNLOAD_ERROR_MARKER, MALFORMED_MARKER,
             UNSUPPORTED_MARKER}. \<not> starts_with bytes m))
   \<and> (cache_contents_from_bytes D bytes = Inl (Malformed s) \<longrightarrow> utf8_valid s)"
proof
  show "cache_contents_from_bytes D bytes = Inr b \<longleftrightarrow>
      b = bytes \<and> bytes \<noteq> [] \<and>
      (\<forall>m \<in> {PERMISSION_DENIED_MARKER, TIMEOUT_MARKER, DOWNLOAD_ERROR_MARKER, MALFORMED_MARKER,
             UNSUPPORTED_MARKER}. \<not> starts_with bytes m)"
    using error_from_bytes_None[of D bytes]
    by (auto simp: cache_contents_from_bytes_def split: option.splits)
  show "cache_contents_from_bytes D bytes = Inl (Malformed s) \<longrightarrow> utf8_valid s"
    by (auto simp: cache_contents_from_bytes_def error_from_bytes_def utf8_message_valid split: option.splits if_splits)
qed

theorem cache_contents_from_bytes_exact_witness:
  "cache_contents_from_bytes demo_durations ''ELF'' = Inr ''ELF'' \<and> ''ELF'' \<noteq> []"
proof -
  have "cache_contents_from_bytes demo_durations ''ELF'' = Inr ''ELF''" by code_simp
  then show ?thesis
    using cache_contents_from_bytes_exact[of demo_durations "''ELF''" "''ELF''"] by blast
qed

end
