(* ===== verification/CacheKeys.thy ===== *)
theory CacheKeys
  imports SourceIter CacheErrors
begin

text \<open>
  \<open>types.rs\<close> (scopes), \<open>caching/cache_key.rs\<close>, \<open>caching/metadata.rs\<close>, \<open>caching/config.rs\<close> and
  \<open>caches/versions.rs\<close>: what a cached item is called in memory and on disk. The SHA-256 hash
  is a parameter \<open>sha256\<close> from bytes to 32 bytes, the URI of a remote file a parameter \<open>uri\<close>.
\<close>

section \<open>Scopes and cache names\<close>

datatype scope = Global | Scoped string

definition scope_display :: "scope \<Rightarrow> string" where
  "scope_display s = (case s of Global \<Rightarrow> ''global'' | Scoped x \<Rightarrow> x)"

datatype cache_name =
    Objects | ObjectMeta | Auxdifs | Il2cpp | Symcaches | Cficaches | PpdbCaches
  | SourceMapCaches | SourceFiles | Diagnostics | Proguard | SourceIndex

definition cache_name_as_str :: "cache_name \<Rightarrow> string" where
  "cache_name_as_str n = (case n of
      Objects \<Rightarrow> ''objects'' | ObjectMeta \<Rightarrow> ''object_meta'' | Auxdifs \<Rightarrow> ''auxdifs''
    | cache_name.Il2cpp \<Rightarrow> ''il2cpp'' | Symcaches \<Rightarrow> ''symcaches'' | Cficaches \<Rightarrow> ''cficaches''
    | PpdbCaches \<Rightarrow> ''ppdb_caches'' | SourceMapCaches \<Rightarrow> ''sourcemap_caches''
    | SourceFiles \<Rightarrow> ''sourcefiles'' | Diagnostics \<Rightarrow> ''diagnostics''
    | cache_name.Proguard \<Rightarrow> ''proguard'' | SourceIndex \<Rightarrow> ''source_index'')"

section \<open>Versions\<close>

datatype cache_path_format = V1 | V2

record cache_version =
  number :: nat
  path_format :: cache_path_format

abbreviation cv :: "nat \<Rightarrow> cache_path_format \<Rightarrow> cache_version" where
  "cv n f \<equiv> \<lparr>number = n, path_format = f\<rparr>"

text \<open>Equality of versions compares the numbers only.\<close>

definition version_eq :: "cache_version \<Rightarrow> cache_version \<Rightarrow> bool" where
  "version_eq a b \<longleftrightarrow> number a = number b"

record cache_versions =
  current :: cache_version
  fallbacks :: "cache_version list"
  previous :: "cache_version list"

definition CFICACHE_VERSIONS :: cache_versions where
  "CFICACHE_VERSIONS = \<lparr>current = cv 5 V2, fallbacks = [cv 4 V1],
     previous = [cv 1 V1, cv 2 V1, cv 3 V1, cv 4 V1]\<rparr>"

definition SYMCACHE_VERSIONS :: cache_versions where
  "SYMCACHE_VERSIONS = \<lparr>current = cv 12 V2,
     fallbacks = [cv 11 V2, cv 10 V2, cv 9 V2, cv 8 V2, cv 7 V1, cv 6 V1],
     previous = [cv 1 V1, cv 2 V1, cv 3 V1, cv 4 V1, cv 5 V1, cv 6 V1, cv 7 V1, cv 8 V2, cv 9 V2,
       cv 10 V2, cv 11 V2]\<rparr>"

definition OBJECTS_CACHE_VERSIONS :: cache_versions where
  "OBJECTS_CACHE_VERSIONS = \<lparr>current = cv 2 V2, fallbacks = [cv 1 V1], previous = [cv 1 V1]\<rparr>"

definition META_CACHE_VERSIONS :: cache_versions where
  "META_CACHE_VERSIONS = \<lparr>current = cv 2 V2, fallbacks = [cv 1 V1], previous = [cv 1 V1]\<rparr>"

definition PPDB_CACHE_VERSIONS :: cache_versions where
  "PPDB_CACHE_VERSIONS = \<lparr>current = cv 4 V2, fallbacks = [cv 3 V1, cv 2 V1],
     previous = [cv 1 V1, cv 2 V1, cv 3 V1]\<rparr>"

definition SOURCEMAP_CACHE_VERSIONS :: cache_versions where
  "SOURCEMAP_CACHE_VERSIONS = \<lparr>current = cv 3 V2, fallbacks = [cv 2 V2, cv 1 V1],
     previous = [cv 1 V1, cv 2 V2]\<rparr>"

definition IL2CPP_CACHE_VERSIONS :: cache_versions where
  "IL2CPP_CACHE_VERSIONS = \<lparr>current = cv 2 V2, fallbacks = [cv 1 V1], previous = [cv 1 V1]\<rparr>"

definition BITCODE_CACHE_VERSIONS :: cache_versions where
  "BITCODE_CACHE_VERSIONS = \<lparr>current = cv 2 V2, fallbacks = [cv 1 V1], previous = [cv 1 V1]\<rparr>"

definition SOURCEFILES_CACHE_VERSIONS :: cache_versions where
  "SOURCEFILES_CACHE_VERSIONS = \<lparr>current = cv 2 V2, fallbacks = [cv 1 V1], previous = [cv 1 V1]\<rparr>"

definition BUNDLE_INDEX_CACHE_VERSIONS :: cache_versions where
  "BUNDLE_INDEX_CACHE_VERSIONS = \<lparr>current = cv 2 V2, fallbacks = [cv 1 V1], previous = [cv 1 V1]\<rparr>"

definition PROGUARD_CACHE_VERSIONS :: cache_versions where
  "PROGUARD_CACHE_VERSIONS = \<lparr>current = cv 7 V2, fallbacks = [cv 6 V2],
     previous = [cv 1 V1, cv 2 V1, cv 3 V2, cv 4 V2, cv 5 V2, cv 6 V2]\<rparr>"

definition SYMSTORE_INDEX_VERSIONS :: cache_versions where
  "SYMSTORE_INDEX_VERSIONS = \<lparr>current = cv 1 V2, fallbacks = [], previous = []\<rparr>"

definition all_cache_versions :: "cache_versions list" where
  "all_cache_versions = [CFICACHE_VERSIONS, SYMCACHE_VERSIONS, OBJECTS_CACHE_VERSIONS,
     META_CACHE_VERSIONS, PPDB_CACHE_VERSIONS, SOURCEMAP_CACHE_VERSIONS, IL2CPP_CACHE_VERSIONS,
     BITCODE_CACHE_VERSIONS, SOURCEFILES_CACHE_VERSIONS, BUNDLE_INDEX_CACHE_VERSIONS,
     PROGUARD_CACHE_VERSIONS, SYMSTORE_INDEX_VERSIONS]"

section \<open>Cache keys\<close>

record cache_key =
  key_scope :: scope
  key_data :: string
  key_hash :: "8 word list"

text \<open>Equality and hashing of keys look at the hash only.\<close>

definition cache_key_eq :: "cache_key \<Rightarrow> cache_key \<Rightarrow> bool" where
  "cache_key_eq a b \<longleftrightarrow> key_hash a = key_hash b"

fun dec_nat :: "nat \<Rightarrow> string" where
  "dec_nat n = (if n < 10 then [char_of (48 + n)] else dec_nat (n div 10) @ [char_of (48 + n mod 10)])"

declare dec_nat.simps [simp del]

text \<open>
  The hash is \<open>[u8; 32]\<close>: the constant slices are in range. For a shorter list the take and
  drop of the model simply yield less.
\<close>

definition cache_path :: "cache_key \<Rightarrow> cache_version \<Rightarrow> string" where
  "cache_path k v =
     (let h = key_hash k in
      case path_format v of
        V1 \<Rightarrow> ''v'' @ dec_nat (number v) @ ''/'' @ hex_bytes False (take 1 h) @ ''/''
                @ hex_bytes False (take 3 (drop 1 h)) @ ''/'' @ hex_bytes False (drop 4 h)
      | V2 \<Rightarrow> ''v'' @ dec_nat (number v) @ ''/'' @ hex_bytes False (take 1 h) @ ''/''
                @ hex_bytes False (take 1 (drop 1 h)) @ ''/'' @ hex_bytes False (drop 2 h))"

definition cache_key_display :: "cache_key \<Rightarrow> string" where
  "cache_key_display k = cache_path k (cv 1234 V2)"

record cache_key_builder =
  builder_scope :: scope
  builder_data :: string

definition scoped_builder :: "scope \<Rightarrow> cache_key_builder" where
  "scoped_builder s =
     \<lparr>builder_scope = s, builder_data = ''scope: '' @ scope_display s @ [CHR 0x0A, CHR 0x0A]\<rparr>"

definition write_str :: "string \<Rightarrow> cache_key_builder \<Rightarrow> cache_key_builder" where
  "write_str s b = b\<lparr>builder_data := builder_data b @ s\<rparr>"

definition write_file_meta :: "(remote_file \<Rightarrow> string) \<Rightarrow> remote_file \<Rightarrow> cache_key_builder \<Rightarrow> cache_key_builder" where
  "write_file_meta uri f b =
     b\<lparr>builder_data := builder_data b @ ''source: '' @ remote_source_id f @ [CHR 0x0A]
         @ ''location: '' @ uri f @ [CHR 0x0A]\<rparr>"

definition build_key :: "(string \<Rightarrow> 8 word list) \<Rightarrow> cache_key_builder \<Rightarrow> cache_key" where
  "build_key sha256 b =
     \<lparr>key_scope = builder_scope b, key_data = builder_data b, key_hash = sha256 (builder_data b)\<rparr>"

definition from_scoped_file ::
    "(string \<Rightarrow> 8 word list) \<Rightarrow> (remote_file \<Rightarrow> string) \<Rightarrow> scope \<Rightarrow> remote_file \<Rightarrow> cache_key" where
  "from_scoped_file sha256 uri s f = build_key sha256 (write_file_meta uri f (scoped_builder s))"

section \<open>Metadata and entries\<close>

text \<open>The time is in nanoseconds since the epoch; \<open>debug\<close> is only filled in debug builds.\<close>

record metadata =
  md_scope :: scope
  time_created :: nat
  md_debug :: "string option"

definition metadata_from_key :: "bool \<Rightarrow> nat \<Rightarrow> cache_key \<Rightarrow> metadata" where
  "metadata_from_key debug_build now k =
     \<lparr>md_scope = key_scope k, time_created = now,
      md_debug = (if debug_build then Some (key_data k) else None)\<rparr>"

text \<open>The serialised form keeps whole seconds only.\<close>

definition timestamp_serialize :: "nat \<Rightarrow> nat" where
  "timestamp_serialize t = t div 10 ^ 9"

definition timestamp_deserialize :: "nat \<Rightarrow> nat" where
  "timestamp_deserialize secs = secs * 10 ^ 9"

record 'a cache_entry =
  entry_metadata :: "metadata option"
  entry_contents :: "'a cache_contents"

definition entry_from_err :: "cache_error \<Rightarrow> 'a cache_entry" where
  "entry_from_err e = \<lparr>entry_metadata = None, entry_contents = Inl e\<rparr>"

definition entry_map :: "('a \<Rightarrow> 'b) \<Rightarrow> 'a cache_entry \<Rightarrow> 'b cache_entry" where
  "entry_map f x = \<lparr>entry_metadata = entry_metadata x,
     entry_contents = (case entry_contents x of Inl e \<Rightarrow> Inl e | Inr a \<Rightarrow> Inr (f a))\<rparr>"

definition entry_and_then :: "('a \<Rightarrow> 'b cache_contents) \<Rightarrow> 'a cache_entry \<Rightarrow> 'b cache_entry" where
  "entry_and_then f x = \<lparr>entry_metadata = entry_metadata x,
     entry_contents = (case entry_contents x of Inl e \<Rightarrow> Inl e | Inr a \<Rightarrow> f a)\<rparr>"

section \<open>Facts\<close>

lemma cache_name_as_str_inj: "cache_name_as_str a = cache_name_as_str b \<Longrightarrow> a = b"
  by (cases a; cases b) (simp_all add: cache_name_as_str_def)

lemma digit_char: "d < 10 \<Longrightarrow> byte_of (char_of (48 + d)) = 48 + d"
  by simp

lemma dec_nat_digits: "c \<in> set (dec_nat n) \<Longrightarrow> 48 \<le> byte_of c \<and> byte_of c \<le> 57"
proof (induction n rule: dec_nat.induct)
  case (1 n)
  then show ?case
    by (subst (asm) (2) dec_nat.simps) (auto split: if_splits)
qed

lemma dec_nat_no_sep: "CHR ''/'' \<notin> set (dec_nat n)"
  using dec_nat_digits[of "CHR ''/''" n] by (auto simp: byte_of_def)

lemma char_of_eq_digit: "a < 10 \<Longrightarrow> b < 10 \<Longrightarrow> char_of (48 + a) = (char_of (48 + b) :: char) \<Longrightarrow> a = (b :: nat)"
  by (metis add_left_cancel digit_char)

lemma dec_nat_snoc_cases: "dec_nat n = xs @ [c] \<Longrightarrow> c = char_of (48 + n mod 10) \<and>
    (xs = [] \<and> n < 10 \<or> 10 \<le> n \<and> xs = dec_nat (n div 10))"
  by (subst (asm) dec_nat.simps) (auto split: if_splits)

lemma dec_nat_nonempty [simp]: "dec_nat n \<noteq> []"
  by (subst dec_nat.simps) simp

lemma dec_nat_inj: "dec_nat n = dec_nat k \<Longrightarrow> n = k"
proof (induction n arbitrary: k rule: dec_nat.induct)
  case (1 n)
  obtain xs c where n: "dec_nat n = xs @ [c]" by (metis dec_nat_nonempty rev_exhaust)
  note cn = dec_nat_snoc_cases[OF n]
  note ck = dec_nat_snoc_cases[OF n[unfolded "1.prems"]]
  have m: "n mod 10 = k mod 10"
    using cn ck char_of_eq_digit[of "n mod 10" "k mod 10"] by simp
  show ?case
  proof (cases "n < 10")
    case True
    with cn have "xs = []" by auto
    with ck dec_nat_nonempty[of "k div 10"] have "k < 10" by metis
    with True m show ?thesis by simp
  next
    case False
    with cn have xs: "xs = dec_nat (n div 10)" by auto
    with ck have "10 \<le> k" "xs = dec_nat (k div 10)" by auto
    with xs have "n div 10 = k div 10" using "1.IH"[OF False] by simp
    with m show ?thesis by (metis div_mult_mod_eq)
  qed
qed

lemma hex_digit_inj: "a < 16 \<Longrightarrow> b < 16 \<Longrightarrow> hex_digit u a = hex_digit u b \<Longrightarrow> a = b"
proof -
  assume a: "a < 16" "b < 16" "hex_digit u a = hex_digit u b"
  then have "byte_of (hex_digit u a) = byte_of (hex_digit u b)" by simp
  with a(1,2) show ?thesis by (auto simp: byte_of_hex_digit split: if_splits)
qed

lemma hex_byte_inj: "hex_byte u a = hex_byte u b \<Longrightarrow> a = b"
proof -
  assume eq: "hex_byte u a = hex_byte u b"
  have lt: "unat x div 16 < 16" for x :: "8 word"
    using unsigned_less[of x, where 'a = nat] by simp
  have "unat a div 16 = unat b div 16" "unat a mod 16 = unat b mod 16"
    using eq hex_digit_inj[OF lt[of a] lt[of b], of u] hex_digit_inj[of "unat a mod 16" "unat b mod 16" u]
    by (simp_all add: hex_byte_def)
  then have "unat a = unat b" by (metis div_mult_mod_eq)
  then show ?thesis by (simp add: unsigned_word_eqI)
qed

lemma hex_bytes_inj: "hex_bytes u as = hex_bytes u bs \<Longrightarrow> as = bs"
proof (induction as arbitrary: bs)
  case Nil
  then show ?case by (cases bs) (simp_all add: hex_bytes_def hex_byte_def)
next
  case (Cons a as)
  then obtain b bs' where bs: "bs = b # bs'"
    by (cases bs) (simp_all add: hex_bytes_def hex_byte_def)
  with Cons.prems have "hex_byte u a = hex_byte u b" "hex_bytes u as = hex_bytes u bs'"
    by (simp_all add: hex_bytes_def hex_byte_def)
  with Cons.IH[of bs'] bs show ?case by (auto dest: hex_byte_inj)
qed

lemma hex_bytes_no_sep: "CHR ''/'' \<notin> set (hex_bytes u bs)"
  using hex_bytes_is_hex[of "CHR ''/''" u bs] by (auto simp: is_hex_char_def byte_of_def)

text \<open>Four path segments without separators are determined by the path.\<close>

lemma four_segments:
  assumes "a @ CHR ''/'' # b @ CHR ''/'' # c @ CHR ''/'' # d = a' @ CHR ''/'' # b' @ CHR ''/'' # c' @ CHR ''/'' # d'"
    and "CHR ''/'' \<notin> set a" "CHR ''/'' \<notin> set b" "CHR ''/'' \<notin> set c"
    and "CHR ''/'' \<notin> set a'" "CHR ''/'' \<notin> set b'" "CHR ''/'' \<notin> set c'"
  shows "a = a' \<and> b = b' \<and> c = c' \<and> d = d'"
  using assms split_once_append[of "CHR ''/''" a] split_once_append[of "CHR ''/''" b]
    split_once_append[of "CHR ''/''" c]
  by (metis Pair_inject option.inject split_once_append)

definition key_ok :: "cache_key \<Rightarrow> bool" where
  "key_ok k \<longleftrightarrow> length (key_hash k) = 32"

text \<open>The segments of a path: the version, and the hash cut at one of two places.\<close>

definition hash_cut :: "cache_path_format \<Rightarrow> nat" where
  "hash_cut f = (case f of V1 \<Rightarrow> 4 | V2 \<Rightarrow> 2)"

lemma cache_path_segments:
  "cache_path k v = (''v'' @ dec_nat (number v)) @ CHR ''/'' # hex_bytes False (take 1 (key_hash k)) @ CHR ''/''
     # hex_bytes False (take (hash_cut (path_format v) - 1) (drop 1 (key_hash k))) @ CHR ''/''
     # hex_bytes False (drop (hash_cut (path_format v)) (key_hash k))"
  by (cases "path_format v") (simp_all add: cache_path_def hash_cut_def Let_def)

section \<open>Properties\<close>

lemma cache_path_inj:
  assumes "key_ok k" and "key_ok k'" and "cache_path k v = cache_path k' v'"
  shows "cache_key_eq k k' \<and> version_eq v v' \<and> path_format v = path_format v'"
proof -
  have "CHR ''/'' \<notin> set (''v'' @ dec_nat n)" for n
    using dec_nat_no_sep[of n] by simp
  note seg = four_segments[OF assms(3)[unfolded cache_path_segments] this hex_bytes_no_sep hex_bytes_no_sep this
      hex_bytes_no_sep hex_bytes_no_sep]
  have num: "dec_nat (number v) = dec_nat (number v')"
    and h1: "take 1 (key_hash k) = take 1 (key_hash k')"
    and h2: "take (hash_cut (path_format v) - 1) (drop 1 (key_hash k))
           = take (hash_cut (path_format v') - 1) (drop 1 (key_hash k'))"
    and h3: "drop (hash_cut (path_format v)) (key_hash k) = drop (hash_cut (path_format v')) (key_hash k')"
    using seg by (simp, blast dest: hex_bytes_inj, blast dest: hex_bytes_inj, blast dest: hex_bytes_inj)
  have "32 - hash_cut (path_format v) = 32 - hash_cut (path_format v')"
    using h3 assms(1,2) by (metis key_ok_def length_drop)
  then have f: "path_format v = path_format v'"
    by (cases "path_format v"; cases "path_format v'") (simp_all add: hash_cut_def)
  have join: "take 1 h @ take (n - 1) (drop 1 h) @ drop n h = h" if "1 \<le> n" for n and h :: "8 word list"
    using that by (metis append_assoc append_take_drop_id le_add_diff_inverse take_add)
  have "1 \<le> hash_cut (path_format v)"
    by (cases "path_format v") (simp_all add: hash_cut_def)
  then have "key_hash k = key_hash k'"
    using h1 h2 h3 f join by metis
  with num f show ?thesis
    by (simp add: cache_key_eq_def version_eq_def dec_nat_inj)
qed

text \<open>
  Cache paths are unambiguous: for 32-byte hashes, two keys share a path (under any two
  versions) only if they are equal keys and the versions agree in number and format; so
  distinct items, versions and layouts never overwrite each other's files.
\<close>

theorem cache_path_injective:
  assumes "key_ok k" and "key_ok k'" and "cache_path k v = cache_path k' v'"
  shows "cache_key_eq k k' \<and> version_eq v v' \<and> path_format v = path_format v'"
  using assms by (rule cache_path_inj)

definition demo_key :: "8 word \<Rightarrow> cache_key" where
  "demo_key b = \<lparr>key_scope = Global, key_data = [], key_hash = replicate 32 b\<rparr>"

theorem cache_path_injective_witness:
  "key_ok (demo_key 7) \<and> cache_key_eq (demo_key 7) (demo_key 7) \<and> version_eq (cv 1 V1) (cv 1 V1)"
proof -
  have h: "key_ok (demo_key 7)" by (simp add: key_ok_def demo_key_def)
  from cache_path_injective[OF h h refl] h show ?thesis by blast
qed

text \<open>
  The version tables of all twelve caches are consistent with the rules the module states:
  every fallback is a previous version in its recorded format, the current version is newer
  than every previous one, previous versions are listed once each in rising order, and
  fallbacks in falling order.
\<close>

definition versions_ok :: "cache_versions \<Rightarrow> bool" where
  "versions_ok v \<longleftrightarrow>
     list_all (\<lambda>f. f \<in> set (previous v)) (fallbacks v) \<and>
     list_all (\<lambda>p. number p < number (current v)) (previous v) \<and>
     sorted_wrt (\<lambda>a b. number a < number b) (previous v) \<and>
     sorted_wrt (\<lambda>a b. number a > number b) (fallbacks v)"

theorem all_cache_versions_ok: "list_all versions_ok all_cache_versions"
  by (simp add: all_cache_versions_def versions_ok_def CFICACHE_VERSIONS_def SYMCACHE_VERSIONS_def
      OBJECTS_CACHE_VERSIONS_def META_CACHE_VERSIONS_def PPDB_CACHE_VERSIONS_def
      SOURCEMAP_CACHE_VERSIONS_def IL2CPP_CACHE_VERSIONS_def BITCODE_CACHE_VERSIONS_def
      SOURCEFILES_CACHE_VERSIONS_def BUNDLE_INDEX_CACHE_VERSIONS_def PROGUARD_CACHE_VERSIONS_def
      SYMSTORE_INDEX_VERSIONS_def)

text \<open>A version 0 is part of the path like any other.\<close>

lemma cache_path_version_0: "cache_path (demo_key 7) (cv 0 V2) =
    ''v0/07/07/'' @ hex_bytes False (replicate 30 7)"
  by code_simp

text \<open>
  The serialised creation time is never in the future and loses less than a second.
\<close>

theorem timestamp_precision:
  "timestamp_deserialize (timestamp_serialize t) \<le> t \<and> t < timestamp_deserialize (timestamp_serialize t) + 10 ^ 9"
proof -
  have "t = t div 10 ^ 9 * 10 ^ 9 + t mod 10 ^ 9" by simp
  moreover have "t mod 10 ^ 9 < (10 ^ 9 :: nat)" by simp
  ultimately show ?thesis
    unfolding timestamp_serialize_def timestamp_deserialize_def by linarith
qed

end
