(* ===== verification/CacheFs.thy ===== *)
theory CacheFs
  imports CacheKeys
begin

text \<open>
  \<open>caching/fs.rs\<close> and the cache sections of \<open>config.rs\<close>: when a file of the file-system cache
  is used, touched, refreshed or dropped. Wall-clock times and durations are nanoseconds; one
  operation reads the clock once (\<open>now\<close>). The file system maps paths to cache files and to
  metadata files, whose contents are \<open>None\<close> when they do not parse.
\<close>

section \<open>Configuration\<close>

text \<open>The four options that the downloaded, derived and index cache sections share.\<close>

record ttl_config =
  max_unused_for :: "duration option"
  retry_misses_after :: "duration option"
  retry_misses_after_public :: "duration option"
  retry_malformed_after :: "duration option"

datatype cache_config =
    Downloaded ttl_config
  | Derived ttl_config
  | Index ttl_config
  | DiagnosticsConfig "duration option"

definition cfg_max_unused_for :: "cache_config \<Rightarrow> duration option" where
  "cfg_max_unused_for c = (case c of Downloaded t \<Rightarrow> max_unused_for t | Derived t \<Rightarrow> max_unused_for t
     | Index t \<Rightarrow> max_unused_for t | DiagnosticsConfig r \<Rightarrow> r)"

definition cfg_retry_misses_after :: "cache_config \<Rightarrow> duration option" where
  "cfg_retry_misses_after c = (case c of Downloaded t \<Rightarrow> retry_misses_after t | Derived t \<Rightarrow> retry_misses_after t
     | Index t \<Rightarrow> retry_misses_after t | DiagnosticsConfig r \<Rightarrow> None)"

definition cfg_retry_misses_after_public :: "cache_config \<Rightarrow> duration option" where
  "cfg_retry_misses_after_public c = (case c of Downloaded t \<Rightarrow> retry_misses_after_public t
     | Derived t \<Rightarrow> retry_misses_after_public t | Index t \<Rightarrow> retry_misses_after_public t
     | DiagnosticsConfig r \<Rightarrow> None)"

definition cfg_retry_malformed_after :: "cache_config \<Rightarrow> duration option" where
  "cfg_retry_malformed_after c = (case c of Downloaded t \<Rightarrow> retry_malformed_after t
     | Derived t \<Rightarrow> retry_malformed_after t | Index t \<Rightarrow> retry_malformed_after t
     | DiagnosticsConfig r \<Rightarrow> None)"

definition secs :: "nat \<Rightarrow> duration" where
  "secs n = n * 10 ^ 9"

definition default_downloaded :: ttl_config where
  "default_downloaded = \<lparr>max_unused_for = Some (secs (3600 * 24)), retry_misses_after = Some (secs 3600),
     retry_misses_after_public = Some (secs (3600 * 24)), retry_malformed_after = Some (secs (3600 * 24))\<rparr>"

definition default_derived :: ttl_config where
  "default_derived = \<lparr>max_unused_for = Some (secs (3600 * 24 * 7)), retry_misses_after = Some (secs 3600),
     retry_misses_after_public = Some (secs (3600 * 24)), retry_malformed_after = Some (secs (3600 * 24))\<rparr>"

definition default_index :: ttl_config where
  "default_index = \<lparr>max_unused_for = Some (secs (3600 * 24 * 7)), retry_misses_after = Some (secs 600),
     retry_misses_after_public = Some (secs 600), retry_malformed_after = Some (secs 600)\<rparr>"

section \<open>Caches, files, expiration\<close>

definition TOUCH_EVERY :: duration where
  "TOUCH_EVERY = secs 3600"

record cache =
  name :: cache_name
  cache_dir :: "string option"
  start_time :: nat
  cache_config :: cache_config

record fs_file =
  bytes :: string
  mtime :: nat

record fs =
  cache_files :: "string \<Rightarrow> fs_file option"
  meta_files :: "string \<Rightarrow> metadata option option"

text \<open>An I/O error may carry a cache error: a failed download that is read as a stream does.\<close>

datatype io_error = IoNotFound | IoOther | IoCarries cache_error

type_synonym 'a io_result = "io_error + 'a"

definition catch_not_found :: "'a io_result \<Rightarrow> 'a option io_result" where
  "catch_not_found r = (case r of Inr x \<Rightarrow> Inr (Some x) | Inl e \<Rightarrow> if e = IoNotFound then Inr None else Inl e)"

datatype expiry_strategy = StrategyNone | StrategyNegative | StrategyMalformed

datatype expiration_time = RefreshIn duration | TouchIn duration

definition expiration_strategy :: "'a cache_contents \<Rightarrow> expiry_strategy" where
  "expiration_strategy c = (case c of
      Inr _ \<Rightarrow> StrategyNone | Inl (Malformed _) \<Rightarrow> StrategyMalformed | Inl _ \<Rightarrow> StrategyNegative)"

definition unlimited :: "duration option \<Rightarrow> duration" where
  "unlimited d = (case d of None \<Rightarrow> duration_max | Some x \<Rightarrow> x)"

text \<open>\<open>SystemTime::elapsed\<close> with \<open>unwrap_or_default\<close>: 0 for a time in the future.\<close>

definition elapsed :: "nat \<Rightarrow> nat \<Rightarrow> duration" where
  "elapsed now t = now - t"

definition compute_expiration_time ::
    "cache \<Rightarrow> nat \<Rightarrow> 'a cache_contents \<Rightarrow> nat \<Rightarrow> nat \<Rightarrow> bool \<Rightarrow> expiration_time io_result" where
  "compute_expiration_time C now contents atime ctime is_pub =
     (let atime_elapsed = elapsed now atime; ctime_elapsed = elapsed now ctime in
      case expiration_strategy contents of
        StrategyNone \<Rightarrow>
          (if unlimited (cfg_max_unused_for (cache_config C)) < atime_elapsed then Inl IoNotFound
           else Inr (TouchIn (TOUCH_EVERY - atime_elapsed)))
      | StrategyNegative \<Rightarrow>
          (let retry = (if is_pub then unlimited (cfg_retry_misses_after_public (cache_config C))
                        else unlimited (cfg_retry_misses_after (cache_config C)));
               expires_in = retry - ctime_elapsed
           in if expires_in = 0 then Inl IoNotFound else Inr (RefreshIn expires_in))
      | StrategyMalformed \<Rightarrow>
          (let expires_in = unlimited (cfg_retry_malformed_after (cache_config C)) - ctime_elapsed
           in if ctime < start_time C \<or> expires_in = 0 then Inl IoNotFound
              else Inr (RefreshIn expires_in)))"

text \<open>
  \<open>Path::set_extension("metadata")\<close>: the extension starts at the last dot of the file name, a
  leading dot does not count, and a path without a file name is left alone.
\<close>

definition split_file_name :: "string \<Rightarrow> string \<times> string" where
  "split_file_name p = (let n = rev (takeWhile (\<lambda>c. c \<noteq> CHR ''/'') (rev p)) in (take (length p - length n) p, n))"

definition metadata_path :: "string \<Rightarrow> string" where
  "metadata_path p =
     (case split_file_name p of (dir, n) \<Rightarrow>
        if n = [] \<or> n = ''..'' then p
        else (case before_last CHR ''.'' n of
                None \<Rightarrow> dir @ n @ ''.metadata''
              | Some stem \<Rightarrow> if stem = [] then dir @ n @ ''.metadata'' else dir @ stem @ ''.metadata''))"

definition read_metadata :: "fs \<Rightarrow> string \<Rightarrow> metadata option io_result" where
  "read_metadata F p =
     catch_not_found (case meta_files F (metadata_path p) of
        None \<Rightarrow> Inl IoNotFound | Some None \<Rightarrow> Inl IoOther | Some (Some md) \<Rightarrow> Inr md)"

text \<open>Writing truncates the creation time to seconds (\<open>timestamp\<close>).\<close>

definition write_metadata :: "string \<Rightarrow> metadata \<Rightarrow> fs \<Rightarrow> fs" where
  "write_metadata p md F =
     F\<lparr>meta_files := (meta_files F)(metadata_path p \<mapsto>
         Some (md\<lparr>time_created := timestamp_deserialize (timestamp_serialize (time_created md))\<rparr>))\<rparr>"

definition remove_metadata :: "string \<Rightarrow> fs \<Rightarrow> fs" where
  "remove_metadata p F = F\<lparr>meta_files := (meta_files F)(metadata_path p := None)\<rparr>"

definition metadata_is_public :: "metadata option \<Rightarrow> bool" where
  "metadata_is_public md = (case md of None \<Rightarrow> False | Some m \<Rightarrow> md_scope m = Global)"

definition check_expiry :: "duration_text \<Rightarrow> cache \<Rightarrow> nat \<Rightarrow> string \<Rightarrow> fs
    \<Rightarrow> (string cache_entry \<times> expiration_time) io_result \<times> fs" where
  "check_expiry D C now p F =
     (case cache_files F p of
        None \<Rightarrow> (Inl IoNotFound, F)
      | Some f \<Rightarrow>
          let (md, F) = (case read_metadata F p of
                           Inr md \<Rightarrow> (md, F)
                         | Inl _ \<Rightarrow> (None, remove_metadata p F));
              ctime = (case md of None \<Rightarrow> mtime f | Some m \<Rightarrow> time_created m);
              contents = cache_contents_from_bytes D (bytes f)
          in (case compute_expiration_time C now contents (mtime f) ctime (metadata_is_public md) of
                Inl e \<Rightarrow> (Inl e, F)
              | Inr x \<Rightarrow> (Inr (\<lparr>entry_metadata = md, entry_contents = contents\<rparr>, x), F)))"

definition set_file_mtime :: "nat \<Rightarrow> string \<Rightarrow> fs \<Rightarrow> fs" where
  "set_file_mtime now p F =
     F\<lparr>cache_files := (cache_files F)(p := map_option (\<lambda>f. f\<lparr>mtime := now\<rparr>) (cache_files F p))\<rparr>"

text \<open>
  A file whose metadata could be read can be read itself: a failure between the two steps is not
  modelled.
\<close>

definition open_cachefile :: "duration_text \<Rightarrow> cache \<Rightarrow> nat \<Rightarrow> string \<Rightarrow> fs
    \<Rightarrow> (string cache_entry \<times> expiration_time) option io_result \<times> fs" where
  "open_cachefile D C now p F =
     (case check_expiry D C now p F of
        (Inl e, F) \<Rightarrow> (catch_not_found (Inl e), F)
      | (Inr (entry, x), F) \<Rightarrow>
          (if x = TouchIn 0
           then (Inr (Some (entry, TouchIn TOUCH_EVERY)), set_file_mtime now p F)
           else (Inr (Some (entry, x)), F)))"

definition for_fresh_status :: "cache \<Rightarrow> 'a cache_contents \<Rightarrow> expiration_time" where
  "for_fresh_status C c = (case expiration_strategy c of
      StrategyNone \<Rightarrow> TouchIn (secs 3600)
    | StrategyNegative \<Rightarrow> RefreshIn (unlimited (cfg_retry_misses_after (cache_config C)))
    | StrategyMalformed \<Rightarrow> RefreshIn (unlimited (cfg_retry_malformed_after (cache_config C))))"

definition was_touched :: "expiration_time \<Rightarrow> bool" where
  "was_touched x \<longleftrightarrow> x = TouchIn TOUCH_EVERY"

text \<open>
  \<open>Instant::now() + duration\<close> panics when the sum is not representable; on Unix an \<open>Instant\<close>
  holds signed 64-bit seconds.
\<close>

definition instant_max :: nat where
  "instant_max = 2 ^ 63 * 10 ^ 9 - 1"

definition as_instant :: "nat \<Rightarrow> expiration_time \<Rightarrow> nat outcome" where
  "as_instant now x =
     (let d = (case x of RefreshIn d \<Rightarrow> d | TouchIn d \<Rightarrow> d)
      in if now + d \<le> instant_max then Ret (now + d) else Panic)"

section \<open>Facts\<close>

lemma unlimited_simps [simp]: "unlimited (Some d) = d" "unlimited None = duration_max"
  by (simp_all add: unlimited_def)

lemma check_expiry_cache_files: "cache_files (snd (check_expiry D C now p F)) = cache_files F"
  by (auto simp: check_expiry_def Let_def remove_metadata_def split: option.splits sum.splits prod.splits)

text \<open>What the metadata file tells about a cache file: absent or unreadable ones count as none.\<close>

definition known_metadata :: "fs \<Rightarrow> string \<Rightarrow> metadata option" where
  "known_metadata F p = (case meta_files F (metadata_path p) of Some (Some md) \<Rightarrow> Some md | _ \<Rightarrow> None)"

lemma read_metadata_cases:
  "(case read_metadata F p of Inr md \<Rightarrow> (md, F) | Inl _ \<Rightarrow> (None, remove_metadata p F)) =
     (known_metadata F p, if meta_files F (metadata_path p) = Some None then remove_metadata p F else F)"
  by (auto simp: read_metadata_def known_metadata_def catch_not_found_def split: option.splits)

section \<open>When a file is usable\<close>

definition creation_time :: "fs \<Rightarrow> string \<Rightarrow> fs_file \<Rightarrow> nat" where
  "creation_time F p f = (case known_metadata F p of None \<Rightarrow> mtime f | Some m \<Rightarrow> time_created m)"

text \<open>The rules of the cache documentation, per kind of entry.\<close>

definition file_usable :: "duration_text \<Rightarrow> cache \<Rightarrow> nat \<Rightarrow> fs \<Rightarrow> string \<Rightarrow> fs_file \<Rightarrow> bool" where
  "file_usable D C now F p f =
     (case cache_contents_from_bytes D (bytes f) of
        Inr _ \<Rightarrow> now - mtime f \<le> unlimited (cfg_max_unused_for (cache_config C))
      | Inl (Malformed _) \<Rightarrow>
          start_time C \<le> creation_time F p f \<and>
          now - creation_time F p f < unlimited (cfg_retry_malformed_after (cache_config C))
      | Inl _ \<Rightarrow>
          now - creation_time F p f <
            unlimited (if metadata_is_public (known_metadata F p)
                       then cfg_retry_misses_after_public (cache_config C)
                       else cfg_retry_misses_after (cache_config C)))"

lemma compute_expiration_usable:
  assumes "contents = cache_contents_from_bytes D (bytes f)"
    and "ctime = creation_time F p f" and "is_pub = metadata_is_public (known_metadata F p)"
  shows "(\<exists>x. compute_expiration_time C now contents (mtime f) ctime is_pub = Inr x) \<longleftrightarrow> file_usable D C now F p f"
    "compute_expiration_time C now contents (mtime f) ctime is_pub = Inl e \<Longrightarrow> e = IoNotFound"
  unfolding assms
  by (cases "cache_contents_from_bytes D (bytes f)";
      auto simp: compute_expiration_time_def expiration_strategy_def file_usable_def elapsed_def Let_def
        split: cache_error.splits if_splits)+

lemma check_expiry_Some:
  assumes "cache_files F p = Some f"
  shows "fst (check_expiry D C now p F) =
     (case compute_expiration_time C now (cache_contents_from_bytes D (bytes f)) (mtime f)
             (creation_time F p f) (metadata_is_public (known_metadata F p)) of
        Inl e \<Rightarrow> Inl e
      | Inr x \<Rightarrow> Inr (\<lparr>entry_metadata = known_metadata F p,
                        entry_contents = cache_contents_from_bytes D (bytes f)\<rparr>, x))"
  using assms by (simp add: check_expiry_def read_metadata_cases creation_time_def split: sum.split)

lemma check_expiry_snd:
  "snd (check_expiry D C now p F) =
     (if cache_files F p \<noteq> None \<and> meta_files F (metadata_path p) = Some None then remove_metadata p F else F)"
  by (auto simp: check_expiry_def read_metadata_cases Let_def split: option.split sum.split)

lemma open_cachefile_fst:
  "fst (open_cachefile D C now p F) = (case fst (check_expiry D C now p F) of
      Inl e \<Rightarrow> catch_not_found (Inl e)
    | Inr (entry, x) \<Rightarrow> Inr (Some (entry, if x = TouchIn 0 then TouchIn TOUCH_EVERY else x)))"
  by (simp add: open_cachefile_def split: prod.split sum.split)

lemma open_cachefile_snd:
  "snd (open_cachefile D C now p F) =
     (case fst (check_expiry D C now p F) of
        Inr (entry, x) \<Rightarrow> (if x = TouchIn 0 then set_file_mtime now p (snd (check_expiry D C now p F))
                           else snd (check_expiry D C now p F))
      | Inl e \<Rightarrow> snd (check_expiry D C now p F))"
  by (simp add: open_cachefile_def split: prod.split sum.split)

lemma open_cachefile_served:
  assumes "cache_files F p = Some f" and "file_usable D C now F p f"
  shows "\<exists>x. fst (open_cachefile D C now p F) =
            Inr (Some (\<lparr>entry_metadata = known_metadata F p,
                        entry_contents = cache_contents_from_bytes D (bytes f)\<rparr>, x))"
proof -
  from compute_expiration_usable(1)[of _ D f _ F p _ C now, OF refl refl refl] assms(2) obtain x where
    "compute_expiration_time C now (cache_contents_from_bytes D (bytes f)) (mtime f)
       (creation_time F p f) (metadata_is_public (known_metadata F p)) = Inr x" by blast
  with assms(1) show ?thesis by (simp add: open_cachefile_fst check_expiry_Some)
qed

lemma open_cachefile_missed:
  assumes "\<And>f. cache_files F p = Some f \<Longrightarrow> \<not> file_usable D C now F p f"
  shows "fst (open_cachefile D C now p F) = Inr None"
proof (cases "cache_files F p")
  case None
  then show ?thesis by (simp add: open_cachefile_fst check_expiry_def catch_not_found_def)
next
  case (Some f)
  let ?c = "compute_expiration_time C now (cache_contents_from_bytes D (bytes f)) (mtime f)
       (creation_time F p f) (metadata_is_public (known_metadata F p))"
  note u = compute_expiration_usable[of _ D f _ F p _ C now, OF refl refl refl]
  have "?c = Inl IoNotFound"
  proof (cases ?c)
    case (Inl e)
    with u(2) show ?thesis by simp
  next
    case (Inr x)
    with u(1) assms[OF Some] show ?thesis by blast
  qed
  with Some show ?thesis by (simp add: open_cachefile_fst check_expiry_Some catch_not_found_def)
qed

text \<open>
  A cache file is served exactly when it is usable: positive entries within
  \<open>max_unused_for\<close> of their last use, negative ones within the public or private retry interval
  of their creation, malformed ones only if created by this process and within theirs. In every
  other case the lookup is a plain miss, never an error, and the served contents are the bytes
  of the file.
\<close>

theorem open_cachefile_usable:
  "(case cache_files F p of
      None \<Rightarrow> fst (open_cachefile D C now p F) = Inr None
    | Some f \<Rightarrow>
        if file_usable D C now F p f
        then (\<exists>x. fst (open_cachefile D C now p F) =
                Inr (Some (\<lparr>entry_metadata = known_metadata F p,
                            entry_contents = cache_contents_from_bytes D (bytes f)\<rparr>, x)))
        else fst (open_cachefile D C now p F) = Inr None)"
  using open_cachefile_served[of F p _ D C now] open_cachefile_missed[of F p D C now]
  by (auto split: option.split)

section \<open>Touching and staying alive\<close>

lemma touch_positive:
  assumes "compute_expiration_time C now (Inr b :: string cache_contents) a ct pub = Inr x"
  shows "x = TouchIn (TOUCH_EVERY - (now - a)) \<and> now - a \<le> unlimited (cfg_max_unused_for (cache_config C))"
  using assms by (auto simp: compute_expiration_time_def expiration_strategy_def elapsed_def Let_def split: if_splits)

lemma positive_open:
  assumes f: "cache_files F p = Some f" and pos: "cache_contents_from_bytes D (bytes f) = Inr b"
    and open': "fst (open_cachefile D C now p F) = Inr (Some r)"
  shows "\<exists>f'. cache_files (snd (open_cachefile D C now p F)) p = Some f' \<and> bytes f' = bytes f
           \<and> now - mtime f' < TOUCH_EVERY \<and> mtime f' = (if TOUCH_EVERY \<le> now - mtime f then now else mtime f)"
proof -
  let ?c = "compute_expiration_time C now (Inr b :: string cache_contents) (mtime f)
             (creation_time F p f) (metadata_is_public (known_metadata F p))"
  obtain x where x: "?c = Inr x"
  proof (cases ?c)
    case (Inl e)
    then have "fst (open_cachefile D C now p F) = catch_not_found (Inl e)"
      using f pos by (simp add: open_cachefile_fst check_expiry_Some)
    with open' show ?thesis by (cases e) (simp_all add: catch_not_found_def)
  qed
  then have xt: "x = TouchIn (TOUCH_EVERY - (now - mtime f))" using touch_positive by blast
  have fst': "fst (check_expiry D C now p F) = Inr (\<lparr>entry_metadata = known_metadata F p, entry_contents = Inr b\<rparr>, x)"
    using f pos x by (simp add: check_expiry_Some)
  have cf: "cache_files (snd (check_expiry D C now p F)) p = Some f"
    using f by (simp add: check_expiry_cache_files)
  have pos': "0 < TOUCH_EVERY" by (simp add: TOUCH_EVERY_def secs_def)
  show ?thesis
  proof (cases "TOUCH_EVERY \<le> now - mtime f")
    case True
    then have "x = TouchIn 0" using xt by simp
    then show ?thesis
      using True fst' cf pos' by (simp add: open_cachefile_snd set_file_mtime_def)
  next
    case False
    then have "x \<noteq> TouchIn 0" using xt by simp
    then show ?thesis
      using False fst' cf by (simp add: open_cachefile_snd)
  qed
qed

text \<open>
  Entries in use stay alive: after a positive entry was served at time \<open>t\<close> (touched at most
  once an hour), it is served again at every later time up to \<open>max_unused_for\<close> minus one hour
  after \<open>t\<close>, so regular use keeps it cached forever.
\<close>

theorem positive_entries_stay_alive:
  assumes "cache_files F p = Some f" and "cache_contents_from_bytes D (bytes f) = Inr b"
    and "fst (open_cachefile D C t p F) = Inr (Some r)"
    and "t \<le> t'" and "t' - t + TOUCH_EVERY \<le> unlimited (cfg_max_unused_for (cache_config C))"
  shows "\<exists>entry x. fst (open_cachefile D C t' p (snd (open_cachefile D C t p F))) = Inr (Some (entry, x))
           \<and> entry_contents entry = Inr b"
proof -
  let ?F = "snd (open_cachefile D C t p F)"
  from positive_open[OF assms(1-3)] obtain f' where
    f': "cache_files ?F p = Some f'" "bytes f' = bytes f" "t - mtime f' < TOUCH_EVERY" by blast
  have "t' - mtime f' \<le> unlimited (cfg_max_unused_for (cache_config C))"
    using f'(3) assms(4,5) by linarith
  then have "file_usable D C t' ?F p f'"
    using assms(2) f'(2) by (simp add: file_usable_def)
  then show ?thesis
    using open_cachefile_served[OF f'(1), of D C t'] f'(2) assms(2) by auto
qed

definition demo_cache :: cache where
  "demo_cache = \<lparr>name = Objects, cache_dir = Some ''/cache/objects'', start_time = 0,
     cache_config = Downloaded default_downloaded\<rparr>"

definition demo_fs :: fs where
  "demo_fs = \<lparr>cache_files = [''v2/ab'' \<mapsto> \<lparr>bytes = ''ELF'', mtime = 0\<rparr>], meta_files = Map.empty\<rparr>"

lemma demo_positive: "cache_contents_from_bytes demo_durations ''ELF'' = Inr ''ELF''"
  by code_simp

theorem positive_entries_stay_alive_witness:
  "\<exists>entry x. fst (open_cachefile demo_durations demo_cache (secs 7200) ''v2/ab''
      (snd (open_cachefile demo_durations demo_cache (secs 3600) ''v2/ab'' demo_fs))) = Inr (Some (entry, x))
      \<and> entry_contents entry = Inr ''ELF''"
proof (rule positive_entries_stay_alive)
  show "cache_files demo_fs ''v2/ab'' = Some \<lparr>bytes = ''ELF'', mtime = 0\<rparr>"
    by (simp add: demo_fs_def)
  show "cache_contents_from_bytes demo_durations (bytes \<lparr>bytes = ''ELF'', mtime = 0\<rparr>) = Inr ''ELF''"
    by (simp add: demo_positive)
  have "file_usable demo_durations demo_cache (secs 3600) demo_fs ''v2/ab'' \<lparr>bytes = ''ELF'', mtime = 0\<rparr>"
    by (simp add: file_usable_def demo_positive demo_cache_def cfg_max_unused_for_def default_downloaded_def secs_def)
  then show "fst (open_cachefile demo_durations demo_cache (secs 3600) ''v2/ab'' demo_fs) =
      Inr (Some (\<lparr>entry_metadata = None, entry_contents = Inr ''ELF''\<rparr>, TouchIn TOUCH_EVERY))"
    by (simp add: open_cachefile_fst check_expiry_Some demo_fs_def demo_positive known_metadata_def
        compute_expiration_time_def expiration_strategy_def demo_cache_def cfg_max_unused_for_def
        default_downloaded_def secs_def elapsed_def Let_def TOUCH_EVERY_def)
qed (simp_all add: secs_def TOUCH_EVERY_def demo_cache_def cfg_max_unused_for_def default_downloaded_def)

section \<open>Deadlines\<close>

text \<open>
  Disabling the expiry of failed lookups makes them panic: with \<open>retry_misses_after\<close> unset,
  which the configuration document offers to disable expiration, the in-memory deadline of
  every freshly cached negative entry is \<open>now + Duration::MAX\<close>, which no \<open>Instant\<close> can hold; with
  any finite setting below the range the deadline exists.
\<close>

theorem negative_deadline_panics_iff_unlimited:
  assumes "expiration_strategy c = StrategyNegative"
    and "\<And>d. cfg_retry_misses_after (cache_config C) = Some d \<Longrightarrow> now + d \<le> instant_max"
  shows "as_instant now (for_fresh_status C c) = Panic \<longleftrightarrow> cfg_retry_misses_after (cache_config C) = None"
proof -
  have "instant_max < duration_max" by (simp add: instant_max_def duration_max_def)
  then show ?thesis
    using assms by (cases "cfg_retry_misses_after (cache_config C)")
      (simp_all add: for_fresh_status_def as_instant_def Let_def)
qed

theorem negative_deadline_panics_iff_unlimited_witness:
  "as_instant 0 (for_fresh_status (demo_cache\<lparr>cache_config := Downloaded (default_downloaded\<lparr>retry_misses_after := None\<rparr>)\<rparr>)
      (Inl NotFound :: string cache_contents)) = Panic"
proof -
  let ?C = "demo_cache\<lparr>cache_config := Downloaded (default_downloaded\<lparr>retry_misses_after := None\<rparr>)\<rparr>"
  have h: "expiration_strategy (Inl NotFound :: string cache_contents) = StrategyNegative"
    by (simp add: expiration_strategy_def)
  have n: "cfg_retry_misses_after (cache_config ?C) = None"
    by (simp add: cfg_retry_misses_after_def)
  from negative_deadline_panics_iff_unlimited[OF h, of ?C 0] n show ?thesis by simp
qed

end
