(* ===== verification/Defer.thy ===== *)
theory Defer
  imports Prelude "HOL-Library.Word"
begin

text \<open>
  \<open>utils/defer.rs\<close>: guards that run a closure when dropped, and the shared counters that bound
  background refreshes and concurrent requests. A counter is the value of its \<open>AtomicUsize\<close>
  (64 bits, additions wrap); each operation is one atomic update. A token holds its counter
  until it is dropped.
\<close>

type_synonym usize = "64 word"

section \<open>Definitions\<close>

text \<open>A guard holds the effect of its closure on the state it captures.\<close>

type_synonym 's defer_guard = "('s \<Rightarrow> 's) option"

definition defer_closure :: "('s \<Rightarrow> 's) \<Rightarrow> 's defer_guard" where
  "defer_closure f = Some f"

definition drop_guard :: "'s defer_guard \<Rightarrow> 's \<Rightarrow> 's defer_guard \<times> 's" where
  "drop_guard g s = (case g of Some f \<Rightarrow> (None, f s) | None \<Rightarrow> (None, s))"

datatype token = Token "unit option"

definition counter_new :: usize where
  "counter_new = 0"

definition counter_incr :: "usize \<Rightarrow> token \<times> usize" where
  "counter_incr v = (Token (Some ()), v + 1)"

definition counter_try_incr :: "usize option \<Rightarrow> usize \<Rightarrow> (token \<times> usize) option" where
  "counter_try_incr m v =
     (case m of
        None \<Rightarrow> Some (counter_incr v)
      | Some m \<Rightarrow> if v < m then Some (Token (Some ()), v + 1) else None)"

text \<open>\<open>debug\<close> says whether \<open>debug_assert_ne!\<close> is compiled in.\<close>

definition drop_token :: "bool \<Rightarrow> token \<Rightarrow> usize \<Rightarrow> (token \<times> usize) outcome" where
  "drop_token debug t v =
     (case t of
        Token None \<Rightarrow> Ret (Token None, v)
      | Token (Some _) \<Rightarrow> if debug \<and> v = 0 then Panic else Ret (Token None, v - 1))"

record max_defer_counter =
  counter_max :: "usize option"
  counter_value :: usize

definition max_counter_new :: "usize option \<Rightarrow> max_defer_counter" where
  "max_counter_new m = \<lparr>counter_max = m, counter_value = counter_new\<rparr>"

definition max_try_incr :: "max_defer_counter \<Rightarrow> (token \<times> max_defer_counter) option" where
  "max_try_incr c = (case counter_try_incr (counter_max c) (counter_value c) of
      None \<Rightarrow> None | Some (t, v) \<Rightarrow> Some (t, c\<lparr>counter_value := v\<rparr>))"

definition max_drop_token :: "bool \<Rightarrow> token \<Rightarrow> max_defer_counter \<Rightarrow> (token \<times> max_defer_counter) outcome" where
  "max_drop_token debug t c =
     map_out (\<lambda>(t, v). (t, c\<lparr>counter_value := v\<rparr>)) (drop_token debug t (counter_value c))"

section \<open>Interface: a bounded counter\<close>

text \<open>
  What the users of a counter rely on: acquiring succeeds exactly below the limit and adds one,
  and each acquired token gives back one.
\<close>

datatype counter_event = Acquire | Release nat

locale bounded_counter =
  fixes acquire :: "'s \<Rightarrow> ('t \<times> 's) option"
    and release :: "'t \<Rightarrow> 's \<Rightarrow> ('t \<times> 's) outcome"
    and held :: "'t \<Rightarrow> bool"
    and used :: "'s \<Rightarrow> nat"
    and limit :: "'s \<Rightarrow> nat"
  assumes acquire_None: "acquire s = None \<longleftrightarrow> limit s \<le> used s"
    and acquire_Some: "acquire s = Some (t, s') \<Longrightarrow> held t \<and> used s' = Suc (used s) \<and> limit s' = limit s"
    and release_held: "held t \<Longrightarrow> 0 < used s \<Longrightarrow>
          \<exists>t' s'. release t s = Ret (t', s') \<and> \<not> held t' \<and> used s' = used s - 1 \<and> limit s' = limit s"
begin

text \<open>The tokens that are out, oldest first; releasing picks one by its position.\<close>

fun run_events :: "counter_event list \<Rightarrow> 't list \<times> 's \<Rightarrow> ('t list \<times> 's) outcome" where
  "run_events [] (ts, s) = Ret (ts, s)"
| "run_events (Acquire # es) (ts, s) =
     (case acquire s of None \<Rightarrow> run_events es (ts, s) | Some (t, s') \<Rightarrow> run_events es (ts @ [t], s'))"
| "run_events (Release i # es) (ts, s) =
     (if i < length ts
      then (case release (ts ! i) s of
              Panic \<Rightarrow> Panic
            | Ret (_, s') \<Rightarrow> run_events es (take i ts @ drop (Suc i) ts, s'))
      else run_events es (ts, s))"

definition counts :: "'t list \<times> 's \<Rightarrow> bool" where
  "counts x \<longleftrightarrow> list_all held (fst x) \<and> used (snd x) = length (fst x) \<and> length (fst x) \<le> limit (snd x)"

lemma run_events_counts:
  "counts (ts, s) \<Longrightarrow> \<exists>ts' s'. run_events es (ts, s) = Ret (ts', s') \<and> counts (ts', s') \<and> limit s' = limit s"
proof (induction es arbitrary: ts s)
  case Nil
  then show ?case by simp
next
  case (Cons e es)
  show ?case
  proof (cases e)
    case Acquire
    show ?thesis
    proof (cases "acquire s")
      case None
      with Acquire Cons show ?thesis by simp
    next
      case (Some x)
      then obtain t s' where x: "acquire s = Some (t, s')" by (cases x) auto
      note a = acquire_Some[OF x]
      have "used s < limit s" using x acquire_None[of s] by simp
      then have "counts (ts @ [t], s')" using a Cons.prems by (simp add: counts_def)
      from Cons.IH[OF this] show ?thesis using Acquire x a by simp
    qed
  next
    case (Release i)
    show ?thesis
    proof (cases "i < length ts")
      case False
      with Release Cons show ?thesis by simp
    next
      case True
      then have h: "held (ts ! i)" "0 < used s"
        using Cons.prems by (auto simp: counts_def list_all_length)
      from release_held[OF this] obtain t' s' where
        r: "release (ts ! i) s = Ret (t', s')" "used s' = used s - 1" "limit s' = limit s" by blast
      have "list_all held (take i ts @ drop (Suc i) ts)"
        using Cons.prems by (auto simp: counts_def list_all_iff dest: in_set_takeD in_set_dropD)
      then have "counts (take i ts @ drop (Suc i) ts, s')"
        using Cons.prems r True by (auto simp: counts_def)
      from Cons.IH[OF this] show ?thesis using Release True r by simp
    qed
  qed
qed

end

definition token_held :: "token \<Rightarrow> bool" where
  "token_held t \<longleftrightarrow> t = Token (Some ())"

definition max_limit :: "max_defer_counter \<Rightarrow> nat" where
  "max_limit c = (case counter_max c of None \<Rightarrow> 2 ^ 64 | Some m \<Rightarrow> unat m)"

lemma unat_inc: "v < m \<Longrightarrow> unat (v + 1) = Suc (unat (v :: usize))"
proof -
  assume "v < m"
  then have "v + 1 \<noteq> 0"
    using max_word_wrap[of v] word_order.extremum[of m] by (auto simp: leD)
  then show ?thesis by (simp add: unatSuc add.commute)
qed

lemma unat_dec: "0 < unat v \<Longrightarrow> unat (v - 1) = unat (v :: usize) - 1"
  by (metis unat_gt_0 unat_minus_one)

lemma max_drop_held:
  "0 < unat (counter_value c) \<Longrightarrow> max_drop_token debug (Token (Some ())) c
     = Ret (Token None, c\<lparr>counter_value := counter_value c - 1\<rparr>)"
  by (auto simp: max_drop_token_def drop_token_def map_out_def)

text \<open>
  The bounded counters meet the contract for a limit below the range; an unlimited one never
  refuses, so it is not an instance.
\<close>

definition try_some :: "usize \<Rightarrow> usize \<Rightarrow> (token \<times> usize) option" where
  "try_some m v = counter_try_incr (Some m) v"

interpretation limited: bounded_counter "try_some m" "drop_token debug" token_held unat "\<lambda>_. unat m"
proof unfold_locales
  show "try_some m s = None \<longleftrightarrow> unat m \<le> unat s" for s
    by (simp add: try_some_def counter_try_incr_def word_less_nat_alt not_less)
  show "token_held t \<and> unat s' = Suc (unat s) \<and> unat m = unat m" if "try_some m s = Some (t, s')" for s t s'
    using that by (auto simp: try_some_def counter_try_incr_def token_held_def unat_inc split: if_splits)
  show "\<exists>t' s'. drop_token debug t s = Ret (t', s') \<and> \<not> token_held t' \<and> unat s' = unat s - 1 \<and> unat m = unat m"
    if "token_held t" "0 < unat s" for t s
    using that by (auto simp: drop_token_def token_held_def unat_dec)
qed

section \<open>Properties\<close>

text \<open>
  Whatever the order in which callers acquire from a counter with a maximum and drop their
  tokens, no drop underflows (so the debug assertion never fires), the value equals the number
  of tokens that are out, and that number never exceeds the maximum.
\<close>

theorem counter_bounded:
  "\<exists>ts v. limited.run_events m debug es ([], counter_new) = Ret (ts, v)
     \<and> list_all token_held ts \<and> unat v = length ts \<and> length ts \<le> unat m"
proof -
  have "limited.counts m ([], counter_new)"
    by (simp add: limited.counts_def counter_new_def)
  from limited.run_events_counts[OF this] show ?thesis
    by (fastforce simp: limited.counts_def)
qed

lemma max_try_incr_None: "max_try_incr c = None \<longleftrightarrow> (\<exists>m. counter_max c = Some m \<and> m \<le> counter_value c)"
  by (auto simp: max_try_incr_def counter_try_incr_def counter_incr_def split: option.splits)

lemma max_try_incr_Some:
  "max_try_incr c = Some (t, c') \<Longrightarrow>
     t = Token (Some ()) \<and> c' = c\<lparr>counter_value := counter_value c + 1\<rparr>"
  by (auto simp: max_try_incr_def counter_try_incr_def counter_incr_def split: option.splits if_splits)

end
