(* ===== verification/Cacher.thy ===== *)
theory Cacher
  imports CacheFs Defer
begin

text \<open>
  \<open>caching/memory.rs\<close>: the \<open>Cacher\<close>, which answers a request from memory, from the local file
  system (current version, then fallbacks), from the shared cache, or by computing the item, and
  refreshes outdated versions in background tasks. Computing an item, the shared cache service,
  the clock and failing file operations are the environment of one operation (\<open>env\<close>). The
  in-memory cache library coalesces concurrent requests for one key, so a request is one
  operation; background refreshes are separate operations, in any order.
\<close>

section \<open>State and environment\<close>

datatype store_reason = StoreNew | StoreRefresh

datatype io_op = CreateTemp | ReopenShared | MapShared | MapTemp | ReopenTemp | WriteError | WriteMetadata | RemoveOld

datatype attempt = MkdirFails | RenameFails | AttemptOk

text \<open>A missed fetch may leave bytes of an interrupted transfer in the temporary file.\<close>

datatype fetch_result = FetchHit string | FetchMiss string

record env =
  clock :: nat
  clock_done :: nat
  durations :: duration_text
  debug_build :: bool
  io_ok :: "io_op \<Rightarrow> bool"
  persist_attempt :: "nat \<Rightarrow> attempt"
  compute_item :: "string \<Rightarrow> string \<times> unit cache_contents"
  shared_service :: "(cache_name \<Rightarrow> string \<Rightarrow> fetch_result) option"

record 'i request =
  req_versions :: cache_versions
  load_item :: "string \<Rightarrow> 'i cache_contents"
  use_shared_cache :: bool

record 'i in_memory_item =
  deadline :: nat
  item_entry :: "'i cache_entry"

definition item_and_then :: "('a \<Rightarrow> 'b cache_contents) \<Rightarrow> 'a in_memory_item \<Rightarrow> 'b in_memory_item" where
  "item_and_then f x = \<lparr>deadline = deadline x, item_entry = entry_and_then f (item_entry x)\<rparr>"

record 'i refresh_task =
  task_request :: "'i request"
  task_key :: cache_key
  task_token :: token

text \<open>In memory, an item is kept with the time of its insertion. Keys are compared by hash.\<close>

record 'i cacher =
  cr_config :: cache
  cr_disk :: fs
  cr_memory :: "8 word list \<Rightarrow> (nat \<times> 'i in_memory_item) option"
  cr_refreshes :: "8 word list set"
  cr_lazy :: max_defer_counter
  cr_tasks :: "'i refresh_task list"
  cr_uploads :: "(cache_name \<times> string \<times> string \<times> store_reason) list"

section \<open>Operations\<close>

definition saturating_duration_since :: "nat \<Rightarrow> nat \<Rightarrow> duration option" where
  "saturating_duration_since current_time target_time = Some (target_time - current_time)"

definition expire_after_create :: "'i in_memory_item \<Rightarrow> nat \<Rightarrow> duration option" where
  "expire_after_create x current_time = saturating_duration_since current_time (deadline x)"

definition memory_get :: "env \<Rightarrow> cache_key \<Rightarrow> 'i cacher \<Rightarrow> 'i in_memory_item option" where
  "memory_get E k c =
     (case cr_memory c (key_hash k) of
        None \<Rightarrow> None
      | Some (t, x) \<Rightarrow> (case expire_after_create x t of
            None \<Rightarrow> Some x | Some d \<Rightarrow> if clock E < t + d then Some x else None))"

definition memory_insert :: "nat \<Rightarrow> cache_key \<Rightarrow> 'i in_memory_item \<Rightarrow> 'i cacher \<Rightarrow> 'i cacher" where
  "memory_insert t k x c = c\<lparr>cr_memory := (cr_memory c)(key_hash k \<mapsto> (t, x))\<rparr>"

definition shared_cache :: "env \<Rightarrow> 'i request \<Rightarrow> (cache_name \<Rightarrow> string \<Rightarrow> fetch_result) option" where
  "shared_cache E r = (if use_shared_cache r then shared_service E else None)"

text \<open>\<open>Path::join\<close> with a relative path.\<close>

definition path_join :: "string \<Rightarrow> string \<Rightarrow> string" where
  "path_join d p = (if d = [] \<or> last d = CHR ''/'' then d @ p else d @ ''/'' @ p)"

definition key_metadata :: "env \<Rightarrow> cache_key \<Rightarrow> metadata" where
  "key_metadata E k = metadata_from_key (debug_build E) (clock_done E) k"

text \<open>The second component is the contents of the temporary file.\<close>

definition load_from_shared_cache :: "env \<Rightarrow> 'i cacher \<Rightarrow> 'i request \<Rightarrow> cache_key \<Rightarrow> string
    \<Rightarrow> string cache_entry option \<times> string" where
  "load_from_shared_cache E c r k temp =
     (case shared_cache E r of
        None \<Rightarrow> (None, temp)
      | Some fetch \<Rightarrow>
          if \<not> io_ok E ReopenShared then (Some (entry_from_err InternalError), temp)
          else (case fetch (name (cr_config c)) (cache_path k (current (req_versions r))) of
                  FetchHit b \<Rightarrow>
                    if io_ok E MapShared
                    then (Some \<lparr>entry_metadata = Some (key_metadata E k), entry_contents = Inr b\<rparr>, b)
                    else (Some (entry_from_err InternalError), b)
                | FetchMiss b \<Rightarrow> (None, b)))"

definition store_in_shared_cache :: "env \<Rightarrow> 'i request \<Rightarrow> cache_key \<Rightarrow> string cache_entry
    \<Rightarrow> store_reason \<Rightarrow> 'i cacher \<Rightarrow> 'i cacher" where
  "store_in_shared_cache E r k entry reason c =
     (case shared_cache E r of
        None \<Rightarrow> c
      | Some _ \<Rightarrow>
          (case entry_contents entry of
             Inr b \<Rightarrow> c\<lparr>cr_uploads := cr_uploads c @
                 [(name (cr_config c), cache_path k (current (req_versions r)), b, reason)]\<rparr>
           | Inl _ \<Rightarrow> c))"

abbreviation MAX_RETRIES :: nat where "MAX_RETRIES \<equiv> 2"

text \<open>The retry loop of \<open>persist_tempfile\<close>; \<open>retries\<close> counts the attempts made.\<close>

function persist_loop :: "(nat \<Rightarrow> attempt) \<Rightarrow> nat \<Rightarrow> bool" where
  "persist_loop att retries =
     (let retries = retries + 1 in
      case att retries of
        AttemptOk \<Rightarrow> True
      | MkdirFails \<Rightarrow> if retries > MAX_RETRIES then False else persist_loop att retries
      | RenameFails \<Rightarrow> if retries > MAX_RETRIES then False else persist_loop att retries)"
  by pat_completeness auto
termination by (relation "measure (\<lambda>(_, n). 3 - n)") auto

declare persist_loop.simps [simp del]

definition persist_tempfile :: "env \<Rightarrow> string \<Rightarrow> string \<Rightarrow> fs \<Rightarrow> fs" where
  "persist_tempfile E temp p F =
     (if persist_loop (persist_attempt E) 0
      then F\<lparr>cache_files := (cache_files F)(p \<mapsto> \<lparr>bytes = temp, mtime = clock_done E\<rparr>)\<rparr>
      else F)"

definition remove_cache_file :: "string \<Rightarrow> fs \<Rightarrow> fs" where
  "remove_cache_file p F = F\<lparr>cache_files := (cache_files F)(p := None)\<rparr>"

text \<open>\<open>write_cache_file\<close>; failing removals are only logged.\<close>

definition remove_old :: "env \<Rightarrow> string \<Rightarrow> cache_key \<Rightarrow> cache_version \<Rightarrow> fs \<Rightarrow> fs" where
  "remove_old E dir k v F =
     (let p = path_join dir (cache_path k v)
      in if io_ok E RemoveOld then remove_metadata p (remove_cache_file p F) else F)"

definition write_cache_file :: "env \<Rightarrow> cache \<Rightarrow> 'i request \<Rightarrow> cache_key \<Rightarrow> string cache_entry \<Rightarrow> string \<Rightarrow> fs \<Rightarrow> fs" where
  "write_cache_file E C r k entry temp F =
     (case cache_dir C of
        None \<Rightarrow> F
      | Some dir \<Rightarrow>
          let p = path_join dir (cache_path k (current (req_versions r)));
              F = persist_tempfile E temp p F;
              F = (case entry_metadata entry of
                     Some md \<Rightarrow> if io_ok E WriteMetadata then write_metadata p md F else F
                   | None \<Rightarrow> F)
          in fold (remove_old E dir k) (previous (req_versions r)) F)"

text \<open>The end of \<open>compute\<close>: persist, upload unless it came from the shared cache, load.\<close>

definition finish_compute :: "env \<Rightarrow> 'i request \<Rightarrow> cache_key \<Rightarrow> bool \<Rightarrow> string cache_entry \<Rightarrow> string
    \<Rightarrow> 'i cacher \<Rightarrow> 'i cache_entry \<times> 'i cacher" where
  "finish_compute E r k hit entry temp c =
     (let c = c\<lparr>cr_disk := write_cache_file E (cr_config c) r k entry temp (cr_disk c)\<rparr>;
          c = (if hit then c else store_in_shared_cache E r k entry StoreNew c)
      in (entry_and_then (load_item r) entry, c))"

definition compute :: "env \<Rightarrow> 'i request \<Rightarrow> cache_key \<Rightarrow> 'i cacher \<Rightarrow> 'i cache_entry \<times> 'i cacher" where
  "compute E r k c =
     (if \<not> io_ok E CreateTemp then (entry_from_err InternalError, c)
      else (case load_from_shared_cache E c r k [] of
         (Some entry, temp) \<Rightarrow> finish_compute E r k True entry temp c
       | (None, temp) \<Rightarrow>
           (case compute_item E temp of
              (temp, Inr _) \<Rightarrow>
                if \<not> io_ok E MapTemp then (entry_from_err InternalError, c)
                else finish_compute E r k False
                       \<lparr>entry_metadata = Some (key_metadata E k), entry_contents = Inr temp\<rparr> temp c
            | (temp, Inl err) \<Rightarrow>
                if err = InternalError \<or> \<not> io_ok E ReopenTemp \<or> \<not> io_ok E WriteError
                then (entry_from_err InternalError, c)
                else finish_compute E r k False
                       \<lparr>entry_metadata = Some (key_metadata E k), entry_contents = Inl err\<rparr>
                       (fbytes (error_write (durations E) err \<lparr>fbytes = temp, fpos = 0\<rparr>)) c)))"

definition io_to_cache_error :: "io_error \<Rightarrow> cache_error" where
  "io_to_cache_error e = (case e of IoCarries inner \<Rightarrow> inner | _ \<Rightarrow> InternalError)"

text \<open>The free function \<open>lookup_local_cache\<close>: one version in the file system.\<close>

definition lookup_file :: "env \<Rightarrow> cache \<Rightarrow> string \<Rightarrow> string \<Rightarrow> fs
    \<Rightarrow> (string in_memory_item \<times> bool) cache_contents outcome \<times> fs" where
  "lookup_file E C dir key F =
     (case open_cachefile (durations E) C (clock E) (path_join dir key) F of
        (Inl e, F) \<Rightarrow> (Ret (Inl (io_to_cache_error e)), F)
      | (Inr None, F) \<Rightarrow> (Ret (Inl NotFound), F)
      | (Inr (Some (data, x)), F) \<Rightarrow>
          (map_out (\<lambda>d. Inr (\<lparr>deadline = d, item_entry = data\<rparr>, was_touched x)) (as_instant (clock E) x), F))"

definition spawn_refresh :: "'i request \<Rightarrow> cache_key \<Rightarrow> 'i cacher \<Rightarrow> 'i cacher" where
  "spawn_refresh r k c =
     (if key_hash k \<in> cr_refreshes c then c
      else (case max_try_incr (cr_lazy c) of
              None \<Rightarrow> c
            | Some (t, lazy) \<Rightarrow>
                c\<lparr>cr_lazy := lazy, cr_refreshes := insert (key_hash k) (cr_refreshes c),
                  cr_tasks := cr_tasks c @ [\<lparr>task_request = r, task_key = k, task_token = t\<rparr>]\<rparr>))"

fun lookup_versions :: "env \<Rightarrow> 'i request \<Rightarrow> cache_key \<Rightarrow> string \<Rightarrow> cache_version list \<Rightarrow> 'i cacher
    \<Rightarrow> 'i in_memory_item option outcome \<times> 'i cacher" where
  "lookup_versions E r k dir [] c = (Ret None, c)"
| "lookup_versions E r k dir (v # vs) c =
     (let is_current_version = version_eq v (current (req_versions r));
          (res, F) = lookup_file E (cr_config c) dir (cache_path k v) (cr_disk c);
          c = c\<lparr>cr_disk := F\<rparr>
      in (case res of
            Panic \<Rightarrow> (Panic, c)
          | Ret (Inl err) \<Rightarrow>
              if err = NotFound then lookup_versions E r k dir vs c
              else (map_out (\<lambda>d. Some \<lparr>deadline = d, item_entry =
                        \<lparr>entry_metadata = Some (key_metadata E k), entry_contents = Inl err\<rparr>\<rparr>)
                      (as_instant (clock E) (for_fresh_status (cr_config c) (Inl err :: 'i cache_contents))), c)
          | Ret (Inr (x, needs_reupload)) \<Rightarrow>
              let c = (if is_current_version \<and> needs_reupload
                       then store_in_shared_cache E r k (item_entry x) StoreRefresh c else c);
                  c = (if is_current_version then c else spawn_refresh r k c)
              in (Ret (Some (item_and_then (load_item r) x)), c)))"

definition lookup_local_cache :: "env \<Rightarrow> 'i request \<Rightarrow> cache_key \<Rightarrow> 'i cacher
    \<Rightarrow> 'i in_memory_item option outcome \<times> 'i cacher" where
  "lookup_local_cache E r k c =
     (case cache_dir (cr_config c) of
        None \<Rightarrow> (Ret None, c)
      | Some dir \<Rightarrow> lookup_versions E r k dir (current (req_versions r) # fallbacks (req_versions r)) c)"

definition lookup_or_compute :: "env \<Rightarrow> 'i request \<Rightarrow> cache_key \<Rightarrow> 'i cacher
    \<Rightarrow> 'i in_memory_item outcome \<times> 'i cacher" where
  "lookup_or_compute E r k c =
     (case lookup_local_cache E r k c of
        (Panic, c) \<Rightarrow> (Panic, c)
      | (Ret (Some x), c) \<Rightarrow> (Ret x, c)
      | (Ret None, c) \<Rightarrow>
          (case compute E r k c of (data, c) \<Rightarrow>
             (map_out (\<lambda>d. \<lparr>deadline = d, item_entry = data\<rparr>)
                (as_instant (clock_done E) (for_fresh_status (cr_config c) (entry_contents data))), c)))"

definition compute_memoized :: "env \<Rightarrow> 'i request \<Rightarrow> cache_key \<Rightarrow> 'i cacher
    \<Rightarrow> 'i cache_entry outcome \<times> 'i cacher" where
  "compute_memoized E r k c =
     (case memory_get E k c of
        Some x \<Rightarrow> (Ret (item_entry x), c)
      | None \<Rightarrow>
          (case lookup_or_compute E r k c of
             (Panic, c) \<Rightarrow> (Panic, c)
           | (Ret x, c) \<Rightarrow> (Ret (item_entry x), memory_insert (clock_done E) k x c)))"

text \<open>
  The background task. Its \<open>done_token\<close> is dropped when it ends, also when it unwinds: computing the
  deadline panics when it is too far away for an \<open>Instant\<close>, and then the memory is not updated. The
  runtime confines that panic to the task. The outer \<open>Panic\<close> is one of the drop itself.
\<close>

datatype refresh_end = RefreshDone | RefreshPanicked

definition drop_done_token :: "bool \<Rightarrow> 'i refresh_task \<Rightarrow> 'i cacher \<Rightarrow> 'i cacher outcome" where
  "drop_done_token debug t c =
     map_out (\<lambda>(_, lazy). c\<lparr>cr_lazy := lazy, cr_refreshes := cr_refreshes c - {key_hash (task_key t)}\<rparr>)
       (max_drop_token debug (task_token t) (cr_lazy c))"

definition run_refresh :: "env \<Rightarrow> nat \<Rightarrow> 'i cacher \<Rightarrow> (refresh_end \<times> 'i cacher) outcome" where
  "run_refresh E i c =
     (let t = cr_tasks c ! i;
          c = c\<lparr>cr_tasks := take i (cr_tasks c) @ drop (Suc i) (cr_tasks c)\<rparr>;
          (data, c) = compute E (task_request t) (task_key t) c;
          (how, c) = (case as_instant (clock_done E) (for_fresh_status (cr_config c) (entry_contents data)) of
                 Panic \<Rightarrow> (RefreshPanicked, c)
               | Ret d \<Rightarrow> (RefreshDone, memory_insert (clock_done E) (task_key t) \<lparr>deadline = d, item_entry = data\<rparr> c))
      in map_out (Pair how) (drop_done_token (debug_build E) t c))"

end
