(* ===== verification/CacherCorrect.thy ===== *)
theory CacherCorrect
  imports Cacher
begin

text \<open>
  Correctness of the \<open>Cacher\<close>: its operations as a step relation, isolation of keys, the bound on
  background refreshes, persistence of computed items, removal of old versions, and what reaches
  the shared cache.
\<close>

section \<open>Paths of cache and metadata files\<close>

lemma path_join_inj [simp]: "path_join d p = path_join d q \<longleftrightarrow> p = q"
  by (simp add: path_join_def)

lemma split_file_name_append: "CHR ''/'' \<notin> set n \<Longrightarrow> split_file_name (d @ CHR ''/'' # n) = (d @ ''/'', n)"
proof -
  assume n: "CHR ''/'' \<notin> set n"
  have "takeWhile (\<lambda>c. c \<noteq> CHR ''/'') (rev n @ CHR ''/'' # rev d) = rev n"
    using n by (subst takeWhile_append2) auto
  then show ?thesis by (simp add: split_file_name_def)
qed

lemma path_join_last: "\<exists>e. path_join d p = e @ p"
  by (auto simp: path_join_def)

lemma before_last_None: "c \<notin> set s \<Longrightarrow> before_last c s = None"
  by (simp add: before_last_def)

lemma hex_bytes_no_dot: "CHR ''.'' \<notin> set (hex_bytes u bs)"
  using hex_bytes_is_hex[of "CHR ''.''" u bs] by (auto simp: is_hex_char_def byte_of_def)

lemma metadata_path_key:
  assumes "key_ok k"
  shows "metadata_path (path_join d (cache_path k v)) = path_join d (cache_path k v) @ ''.metadata''"
proof -
  define h where "h = hex_bytes False (drop (hash_cut (path_format v)) (key_hash k))"
  obtain e where e: "path_join d (cache_path k v) = e @ CHR ''/'' # h"
    using path_join_last[of d "cache_path k v"] by (auto simp: cache_path_segments h_def)
  have "length h \<noteq> 0"
    using assms by (cases "path_format v") (simp_all add: h_def hash_cut_def key_ok_def)
  moreover have "CHR ''/'' \<notin> set h" "CHR ''.'' \<notin> set h"
    using hex_bytes_no_sep hex_bytes_no_dot by (simp_all add: h_def)
  ultimately show ?thesis
    unfolding e by (auto simp: metadata_path_def split_file_name_append before_last_None)
qed

text \<open>All files of a key.\<close>

definition key_paths :: "string \<Rightarrow> cache_key \<Rightarrow> string set" where
  "key_paths dir k = range (\<lambda>v. path_join dir (cache_path k v))"

lemma key_paths_I [simp]: "path_join dir (cache_path k v) \<in> key_paths dir k"
  by (simp add: key_paths_def)

lemma key_paths_disjoint:
  assumes "key_ok k" "key_ok k'" "\<not> cache_key_eq k k'"
  shows "path_join dir (cache_path k' v) \<notin> key_paths dir k"
    "metadata_path (path_join dir (cache_path k' v)) \<notin> metadata_path ` key_paths dir k"
proof -
  have ne: "cache_path k u \<noteq> cache_path k' w" for u w
    using cache_path_inj[OF assms(1,2), of u w] assms(3) by blast
  then show "path_join dir (cache_path k' v) \<notin> key_paths dir k"
    using ne by (auto simp: key_paths_def) metis
  show "metadata_path (path_join dir (cache_path k' v)) \<notin> metadata_path ` key_paths dir k"
    using assms(1,2) ne by (auto simp: key_paths_def metadata_path_key) metis
qed

section \<open>File operations stay within a key\<close>

definition same_outside :: "string set \<Rightarrow> fs \<Rightarrow> fs \<Rightarrow> bool" where
  "same_outside P F F' \<longleftrightarrow>
     (\<forall>p. p \<notin> P \<longrightarrow> cache_files F' p = cache_files F p) \<and>
     (\<forall>q. q \<notin> metadata_path ` P \<longrightarrow> meta_files F' q = meta_files F q)"

named_theorems frames \<open>which files an operation may change\<close>

lemma same_outside_refl [simp, intro]: "same_outside P F F"
  by (simp add: same_outside_def)

lemma same_outside_trans: "same_outside P F G \<Longrightarrow> same_outside P G H \<Longrightarrow> same_outside P F H"
  by (simp add: same_outside_def)

lemma set_mtime_frame [frames]: "p \<in> P \<Longrightarrow> same_outside P F (set_file_mtime t p F)"
  by (auto simp: same_outside_def set_file_mtime_def)

lemma write_metadata_frame [frames]: "p \<in> P \<Longrightarrow> same_outside P F (write_metadata p md F)"
  by (auto simp: same_outside_def write_metadata_def)

lemma remove_metadata_frame [frames]: "p \<in> P \<Longrightarrow> same_outside P F (remove_metadata p F)"
  by (auto simp: same_outside_def remove_metadata_def)

lemma remove_cache_file_frame [frames]: "p \<in> P \<Longrightarrow> same_outside P F (remove_cache_file p F)"
  by (auto simp: same_outside_def remove_cache_file_def)

lemma persist_frame [frames]: "p \<in> P \<Longrightarrow> same_outside P F (persist_tempfile E t p F)"
  by (auto simp: same_outside_def persist_tempfile_def)

lemma check_expiry_frame [frames]: "p \<in> P \<Longrightarrow> same_outside P F (snd (check_expiry D C now p F))"
  by (simp add: check_expiry_snd remove_metadata_frame)

lemma open_cachefile_frame [frames]: "p \<in> P \<Longrightarrow> same_outside P F (snd (open_cachefile D C now p F))"
  unfolding open_cachefile_snd
  using check_expiry_frame[of p P F D C now] set_mtime_frame[of p P "snd (check_expiry D C now p F)" now]
  by (auto intro: same_outside_trans split: sum.split)

lemma lookup_file_frame [frames]: "path_join dir key \<in> P \<Longrightarrow> same_outside P F (snd (lookup_file E C dir key F))"
  using open_cachefile_frame[of "path_join dir key" P F "durations E" C "clock E"]
  by (auto simp: lookup_file_def split: prod.split sum.split option.split)

lemma remove_old_frame [frames]: "same_outside (key_paths dir k) F (remove_old E dir k v F)"
  by (simp add: remove_old_def Let_def same_outside_trans[OF remove_cache_file_frame remove_metadata_frame])

lemma fold_remove_old_frame [frames]: "same_outside (key_paths dir k) F (fold (remove_old E dir k) vs F)"
  by (induction vs arbitrary: F) (auto intro: same_outside_trans remove_old_frame)

lemma write_cache_file_frame [frames]:
  "cache_dir C = Some dir \<Longrightarrow> same_outside (key_paths dir k) F (write_cache_file E C r k entry temp F)"
  by (auto simp: write_cache_file_def Let_def persist_frame same_outside_trans[OF persist_frame write_metadata_frame]
      intro!: same_outside_trans[OF _ fold_remove_old_frame] split: option.split)

lemma write_cache_file_None: "cache_dir C = None \<Longrightarrow> write_cache_file E C r k entry temp F = F"
  by (simp add: write_cache_file_def)

section \<open>What an operation on a key leaves alone\<close>

text \<open>
  The effect of an operation on key \<open>k\<close>: files of the key, its slot in memory, the refresh
  bookkeeping, uploads appended; nothing else.
\<close>

definition key_effect :: "cache_key \<Rightarrow> 'i cacher \<Rightarrow> 'i cacher \<Rightarrow> bool" where
  "key_effect k c c' \<longleftrightarrow>
     cr_config c' = cr_config c \<and>
     (case cache_dir (cr_config c) of
        None \<Rightarrow> cr_disk c' = cr_disk c
      | Some dir \<Rightarrow> same_outside (key_paths dir k) (cr_disk c) (cr_disk c')) \<and>
     (\<forall>h. h \<noteq> key_hash k \<longrightarrow> cr_memory c' h = cr_memory c h) \<and>
     (\<exists>us. cr_uploads c' = cr_uploads c @ us \<and>
        (\<forall>u \<in> set us. \<exists>v. fst (snd u) = cache_path k v \<and> fst u = name (cr_config c)))"

lemma key_effect_refl [simp, intro]: "key_effect k c c"
  by (auto simp: key_effect_def split: option.split)

lemma key_effect_trans:
  assumes "key_effect k a b" and "key_effect k b c"
  shows "key_effect k a c"
proof -
  from assms obtain us vs where
    u: "cr_uploads b = cr_uploads a @ us" "cr_uploads c = cr_uploads b @ vs"
      "\<forall>u \<in> set us. \<exists>v. fst (snd u) = cache_path k v \<and> fst u = name (cr_config a)"
      "\<forall>u \<in> set vs. \<exists>v. fst (snd u) = cache_path k v \<and> fst u = name (cr_config a)"
    by (auto simp: key_effect_def)
  then have "\<exists>us. cr_uploads c = cr_uploads a @ us \<and>
        (\<forall>u \<in> set us. \<exists>v. fst (snd u) = cache_path k v \<and> fst u = name (cr_config a))"
    by (intro exI[of _ "us @ vs"]) auto
  with assms show ?thesis
    unfolding key_effect_def by (auto intro: same_outside_trans split: option.splits)
qed

lemma key_effect_memory_insert: "key_effect k c (memory_insert t k x c)"
  by (auto simp: key_effect_def memory_insert_def split: option.split)

lemma key_effect_store: "key_effect k c (store_in_shared_cache E r k entry reason c)"
  by (auto simp: key_effect_def store_in_shared_cache_def split: option.split sum.split)

lemma key_effect_spawn: "key_effect k c (spawn_refresh r k c)"
  by (auto simp: key_effect_def spawn_refresh_def split: option.split)

lemma key_effect_disk:
  "cache_dir (cr_config c) = Some dir \<Longrightarrow> same_outside (key_paths dir k) (cr_disk c) F \<Longrightarrow>
     key_effect k c (c\<lparr>cr_disk := F\<rparr>)"
  by (auto simp: key_effect_def)

lemma key_effect_write:
  "key_effect k c (c\<lparr>cr_disk := write_cache_file E (cr_config c) r k entry temp (cr_disk c)\<rparr>)"
  by (auto simp: key_effect_def write_cache_file_None write_cache_file_frame split: option.split)

lemma finish_compute_effect: "key_effect k c (snd (finish_compute E r k hit entry temp c))"
  by (auto simp: finish_compute_def Let_def key_effect_write
      intro: key_effect_trans[OF key_effect_write key_effect_store])

lemma compute_effect: "key_effect k c (snd (compute E r k c))"
  by (auto simp: compute_def finish_compute_effect split: prod.split option.split sum.split)

lemma lookup_file_effect:
  assumes "cache_dir (cr_config c) = Some dir"
  shows "key_effect k c (c\<lparr>cr_disk := snd (lookup_file E (cr_config c) dir (cache_path k v) (cr_disk c))\<rparr>)"
  by (rule key_effect_disk[OF assms lookup_file_frame[OF key_paths_I]])

text \<open>The answer of one version, and the state it leaves.\<close>

lemma lookup_versions_Cons:
  "lookup_versions E r k dir (v # vs) c =
     (let cur = version_eq v (current (req_versions r));
          x = lookup_file E (cr_config c) dir (cache_path k v) (cr_disk c);
          c = c\<lparr>cr_disk := snd x\<rparr>
      in (case fst x of
            Panic \<Rightarrow> (Panic, c)
          | Ret (Inl err) \<Rightarrow>
              if err = NotFound then lookup_versions E r k dir vs c
              else (map_out (\<lambda>d. Some \<lparr>deadline = d, item_entry =
                        \<lparr>entry_metadata = Some (key_metadata E k), entry_contents = Inl err\<rparr>\<rparr>)
                      (as_instant (clock E) (for_fresh_status (cr_config c) (Inl err :: 'i cache_contents))), c)
          | Ret (Inr (y, up)) \<Rightarrow>
              (Ret (Some (item_and_then (load_item r) (y :: string in_memory_item))),
               if cur then (if up then store_in_shared_cache E r k (item_entry y) StoreRefresh c else c)
               else spawn_refresh r k (c :: 'i cacher))))"
  by (cases "lookup_file E (cr_config c) dir (cache_path k v) (cr_disk c)")
    (simp add: Let_def split: outcome.split sum.split prod.split)

lemma lookup_versions_effect:
  "cache_dir (cr_config c) = Some dir \<Longrightarrow> key_effect k c (snd (lookup_versions E r k dir vs c))"
proof (induction vs arbitrary: c)
  case Nil
  then show ?case by simp
next
  case (Cons v vs)
  let ?x = "lookup_file E (cr_config c) dir (cache_path k v) (cr_disk c)"
  let ?c = "c\<lparr>cr_disk := snd ?x\<rparr>"
  note e = lookup_file_effect[OF Cons.prems, of k E v]
  have r: "key_effect k c (snd (lookup_versions E r k dir vs ?c))"
    using key_effect_trans[OF e Cons.IH[of ?c]] Cons.prems by simp
  show ?case
    unfolding lookup_versions_Cons
    using e r key_effect_trans[OF e key_effect_store] key_effect_trans[OF e key_effect_spawn]
    by (simp add: Let_def split: outcome.split sum.split prod.split)
qed

lemma lookup_local_cache_effect: "key_effect k c (snd (lookup_local_cache E r k c))"
  by (auto simp: lookup_local_cache_def lookup_versions_effect simp del: lookup_versions.simps split: option.split)

lemma lookup_or_compute_effect: "key_effect k c (snd (lookup_or_compute E r k c))"
proof -
  obtain res c1 where l: "lookup_local_cache E r k c = (res, c1)" by fastforce
  then have e: "key_effect k c c1" by (metis lookup_local_cache_effect snd_conv)
  then show ?thesis
    using key_effect_trans[OF e compute_effect[of k c1 E r]]
    by (cases "compute E r k c1") (simp add: lookup_or_compute_def l split: outcome.split option.split)
qed

lemma compute_memoized_effect: "key_effect k c (snd (compute_memoized E r k c))"
proof -
  obtain res c1 where l: "lookup_or_compute E r k c = (res, c1)" by fastforce
  then have e: "key_effect k c c1" by (metis lookup_or_compute_effect snd_conv)
  then show ?thesis
    using key_effect_trans[OF e key_effect_memory_insert]
    by (simp add: compute_memoized_def l split: outcome.split option.split)
qed

lemma key_effect_tasks: "key_effect k (c\<lparr>cr_tasks := ts\<rparr>) c' \<Longrightarrow> key_effect k c c'"
  by (simp add: key_effect_def split: option.splits)

lemma key_effect_bookkeeping: "key_effect k c c' \<Longrightarrow> key_effect k c (c'\<lparr>cr_lazy := l, cr_refreshes := R\<rparr>)"
  by (simp add: key_effect_def split: option.splits)

text \<open>What a refresh computes, and how it ends before its token is dropped.\<close>

definition fresh_run :: "env \<Rightarrow> nat \<Rightarrow> 'i cacher \<Rightarrow> 'i cache_entry \<times> 'i cacher" where
  "fresh_run E i c = compute E (task_request (cr_tasks c ! i)) (task_key (cr_tasks c ! i))
     (c\<lparr>cr_tasks := take i (cr_tasks c) @ drop (Suc i) (cr_tasks c)\<rparr>)"

definition refreshed :: "env \<Rightarrow> nat \<Rightarrow> 'i cacher \<Rightarrow> refresh_end \<times> 'i cacher" where
  "refreshed E i c =
     (let x = fresh_run E i c
      in (case as_instant (clock_done E) (for_fresh_status (cr_config (snd x)) (entry_contents (fst x))) of
            Panic \<Rightarrow> (RefreshPanicked, snd x)
          | Ret d \<Rightarrow> (RefreshDone, memory_insert (clock_done E) (task_key (cr_tasks c ! i)) \<lparr>deadline = d, item_entry = fst x\<rparr> (snd x))))"

lemma run_refresh_alt: "run_refresh E i c =
    map_out (Pair (fst (refreshed E i c))) (drop_done_token (debug_build E) (cr_tasks c ! i) (snd (refreshed E i c)))"
  by (cases "fresh_run E i c")
    (simp add: run_refresh_def refreshed_def fresh_run_def Let_def split: outcome.split)

lemma fresh_run_effect: "key_effect (task_key (cr_tasks c ! i)) c (snd (fresh_run E i c))"
  unfolding fresh_run_def by (rule key_effect_tasks[OF compute_effect])

lemma refreshed_effect: "key_effect (task_key (cr_tasks c ! i)) c (snd (refreshed E i c))"
  using fresh_run_effect[of c i E] key_effect_trans[OF fresh_run_effect key_effect_memory_insert]
  by (auto simp: refreshed_def Let_def split: outcome.split)

lemma run_refresh_effect: "run_refresh E i c = Ret (how, c') \<Longrightarrow> key_effect (task_key (cr_tasks c ! i)) c c'"
  by (auto simp: run_refresh_alt drop_done_token_def intro: key_effect_bookkeeping refreshed_effect)

section \<open>Steps\<close>

text \<open>
  Anything that happens to a \<open>Cacher\<close>: a request, a background refresh, an eviction from memory by
  the in-memory cache, and other caches that share the limit of background refreshes acquiring
  and dropping tokens (\<open>others\<close> counts theirs). A step names the key it is about.
\<close>

inductive cacher_step :: "'i cacher \<times> nat \<Rightarrow> cache_key option \<Rightarrow> 'i cacher \<times> nat \<Rightarrow> bool" where
  access: "compute_memoized E r k c = (res, c') \<Longrightarrow> cacher_step (c, n) (Some k) (c', n)"
| refresh: "i < length (cr_tasks c) \<Longrightarrow> run_refresh E i c = Ret (how, c') \<Longrightarrow>
     cacher_step (c, n) (Some (task_key (cr_tasks c ! i))) (c', n)"
| evict: "cacher_step (c, n) (Some k) (c\<lparr>cr_memory := (cr_memory c)(key_hash k := None)\<rparr>, n)"
| other_acquire: "max_try_incr (cr_lazy c) = Some (t, l) \<Longrightarrow> cacher_step (c, n) None (c\<lparr>cr_lazy := l\<rparr>, Suc n)"
| other_release: "max_drop_token debug (Token (Some ())) (cr_lazy c) = Ret (t, l) \<Longrightarrow>
     cacher_step (c, Suc n) None (c\<lparr>cr_lazy := l\<rparr>, n)"

inductive_cases cacher_step_cases: "cacher_step s k s'"

inductive cacher_reach :: "'i cacher \<times> nat \<Rightarrow> 'i cacher \<times> nat \<Rightarrow> bool" where
  start: "cacher_reach s s"
| step: "cacher_reach s s' \<Longrightarrow> cacher_step s' k s'' \<Longrightarrow> cacher_reach s s''"

lemma access_effect: "compute_memoized E r k c = (res, c') \<Longrightarrow> key_effect k c c'"
  by (metis compute_memoized_effect snd_conv)

lemma evict_effect: "key_effect k c (c\<lparr>cr_memory := (cr_memory c)(key_hash k := None)\<rparr>)"
  by (simp add: key_effect_def split: option.split)

lemma cacher_step_effect: "cacher_step (c, n) (Some k) (c', n') \<Longrightarrow> key_effect k c c'"
  by (erule cacher_step_cases) (auto dest: access_effect run_refresh_effect simp: evict_effect)

text \<open>
  C35. Keys are isolated: no request, background refresh or eviction for one key changes the cache
  files or metadata of any version of another key, or its slot in memory; whatever is uploaded
  goes to a path of the key itself.
\<close>

theorem cacher_keys_isolated:
  assumes "cacher_step (c, n) (Some k) (c', n')"
    and "key_ok k" and "key_ok k'" and "\<not> cache_key_eq k k'"
    and "cache_dir (cr_config c) = Some dir"
  shows "cache_files (cr_disk c') (path_join dir (cache_path k' v)) = cache_files (cr_disk c) (path_join dir (cache_path k' v))
    \<and> known_metadata (cr_disk c') (path_join dir (cache_path k' v)) = known_metadata (cr_disk c) (path_join dir (cache_path k' v))
    \<and> cr_memory c' (key_hash k') = cr_memory c (key_hash k')
    \<and> (\<forall>u \<in> set (drop (length (cr_uploads c)) (cr_uploads c')). fst (snd u) \<noteq> cache_path k' v)"
proof -
  note e = cacher_step_effect[OF assms(1)]
  have s: "same_outside (key_paths dir k) (cr_disk c) (cr_disk c')"
    using e assms(5) by (simp add: key_effect_def)
  note d = key_paths_disjoint[OF assms(2-4), of dir v]
  have u: "fst (snd u) \<noteq> cache_path k' v" if "u \<in> set (drop (length (cr_uploads c)) (cr_uploads c'))" for u
    using e that cache_path_inj[OF assms(2,3)] assms(4) by (fastforce simp: key_effect_def)
  show ?thesis
    using s d e assms(4) u by (auto simp: same_outside_def known_metadata_def key_effect_def cache_key_eq_def)
qed

definition demo_request :: "string request" where
  "demo_request = \<lparr>req_versions = OBJECTS_CACHE_VERSIONS, load_item = Inr, use_shared_cache = True\<rparr>"

definition demo_cacher :: "string cacher" where
  "demo_cacher = \<lparr>cr_config = demo_cache, cr_disk = demo_fs, cr_memory = Map.empty, cr_refreshes = {},
     cr_lazy = max_counter_new (Some 2), cr_tasks = [], cr_uploads = []\<rparr>"

theorem cacher_keys_isolated_witness:
  "cr_memory (demo_cacher\<lparr>cr_memory := (cr_memory demo_cacher)(key_hash (demo_key 1) := None)\<rparr>) (key_hash (demo_key 2))
     = cr_memory demo_cacher (key_hash (demo_key 2))"
proof -
  have h: "key_ok (demo_key 1)" "key_ok (demo_key 2)" "\<not> cache_key_eq (demo_key 1) (demo_key 2)"
    by (simp_all add: key_ok_def demo_key_def cache_key_eq_def)
  have d: "cache_dir (cr_config demo_cacher) = Some ''/cache/objects''"
    by (simp add: demo_cacher_def demo_cache_def)
  from cacher_keys_isolated[OF cacher_step.evict[where c = demo_cacher and n = 0 and k = "demo_key 1"] h d]
  show ?thesis by blast
qed

section \<open>Background refreshes are bounded\<close>

definition bookkeeping :: "'i cacher \<Rightarrow> max_defer_counter \<times> 8 word list set \<times> 'i refresh_task list" where
  "bookkeeping c = (cr_lazy c, cr_refreshes c, cr_tasks c)"

lemma bookkeeping_simps [simp]:
  "bookkeeping (c\<lparr>cr_disk := F\<rparr>) = bookkeeping c"
  "bookkeeping (c\<lparr>cr_memory := M\<rparr>) = bookkeeping c"
  "bookkeeping (c\<lparr>cr_uploads := U\<rparr>) = bookkeeping c"
  "bookkeeping (memory_insert t k x c) = bookkeeping c"
  "bookkeeping (store_in_shared_cache E r k entry reason c) = bookkeeping c"
  by (simp_all add: bookkeeping_def memory_insert_def store_in_shared_cache_def split: option.split sum.split)

lemma bookkeeping_finish [simp]: "bookkeeping (snd (finish_compute E r k hit entry temp c)) = bookkeeping c"
  by (simp add: finish_compute_def Let_def)

lemma bookkeeping_compute [simp]: "bookkeeping (snd (compute E r k c)) = bookkeeping c"
  by (simp add: compute_def split: prod.split option.split sum.split)

lemma bookkeeping_spawn_cong: "bookkeeping c = bookkeeping c' \<Longrightarrow>
    bookkeeping (spawn_refresh r k c) = bookkeeping (spawn_refresh r k c')"
  by (auto simp: bookkeeping_def spawn_refresh_def split: option.split)

lemma bookkeeping_lookup_versions:
  "bookkeeping (snd (lookup_versions E r k dir vs c)) \<in> {bookkeeping c, bookkeeping (spawn_refresh r k c)}"
proof (induction vs arbitrary: c)
  case Nil
  then show ?case by simp
next
  case (Cons v vs)
  obtain res F where l: "lookup_file E (cr_config c) dir (cache_path k v) (cr_disk c) = (res, F)" by fastforce
  have sp: "bookkeeping (spawn_refresh r k (c\<lparr>cr_disk := F\<rparr>)) = bookkeeping (spawn_refresh r k c)"
    by (rule bookkeeping_spawn_cong) simp
  then have r: "bookkeeping (snd (lookup_versions E r k dir vs (c\<lparr>cr_disk := F\<rparr>)))
      \<in> {bookkeeping c, bookkeeping (spawn_refresh r k c)}"
    using Cons.IH[of "c\<lparr>cr_disk := F\<rparr>"] by simp
  then show ?case
    using sp by (simp add: l Let_def split: outcome.split sum.split prod.split)
qed

lemma bookkeeping_access:
  "bookkeeping (snd (compute_memoized E r k c)) \<in> {bookkeeping c, bookkeeping (spawn_refresh r k c)}"
proof -
  obtain res c1 where l: "lookup_local_cache E r k c = (res, c1)" by fastforce
  have b: "bookkeeping c1 \<in> {bookkeeping c, bookkeeping (spawn_refresh r k c)}"
    using l bookkeeping_lookup_versions[of E r k _ _ c]
    by (auto simp: lookup_local_cache_def simp del: lookup_versions.simps split: option.splits) (metis snd_conv)
  obtain e c2 where e: "compute E r k c1 = (e, c2)" by fastforce
  then have "bookkeeping c2 = bookkeeping c1" by (metis bookkeeping_compute snd_conv)
  with b e show ?thesis
    by (simp add: compute_memoized_def lookup_or_compute_def l split: outcome.split option.split)
qed

text \<open>
  The bookkeeping is consistent: one held token per task, one task per key, and the counter
  counts the tokens of this cache and of the others.
\<close>

definition refresh_inv :: "usize \<Rightarrow> nat \<Rightarrow> max_defer_counter \<times> 8 word list set \<times> 'i refresh_task list \<Rightarrow> bool" where
  "refresh_inv m n b \<longleftrightarrow> (case b of (lazy, running, tasks) \<Rightarrow>
     counter_max lazy = Some m \<and>
     distinct (map (\<lambda>t. key_hash (task_key t)) tasks) \<and>
     running = set (map (\<lambda>t. key_hash (task_key t)) tasks) \<and>
     list_all (\<lambda>t. token_held (task_token t)) tasks \<and>
     unat (counter_value lazy) = length tasks + n \<and>
     length tasks + n \<le> unat m)"

lemma max_try_incr_limited:
  "counter_max c = Some m \<Longrightarrow>
     max_try_incr c = map_option (\<lambda>(t, v). (t, c\<lparr>counter_value := v\<rparr>)) (try_some m (counter_value c))"
  by (simp add: max_try_incr_def try_some_def split: option.split)

lemma acquire_limited:
  assumes "counter_max c = Some m" and "max_try_incr c = Some (t, c')"
  shows "token_held t \<and> counter_max c' = Some m \<and> unat (counter_value c') = Suc (unat (counter_value c))
    \<and> unat (counter_value c) < unat m"
proof -
  obtain v where v: "try_some m (counter_value c) = Some (t, v)" "c' = c\<lparr>counter_value := v\<rparr>"
    using assms by (auto simp: max_try_incr_limited)
  with limited.acquire_Some[OF v(1)] limited.acquire_None[of m "counter_value c"] assms(1)
  show ?thesis by auto
qed

lemma release_limited:
  assumes "counter_max c = Some m" and "token_held t" and "0 < unat (counter_value c)"
  shows "\<exists>t' c'. max_drop_token debug t c = Ret (t', c') \<and> counter_max c' = Some m
    \<and> unat (counter_value c') = unat (counter_value c) - 1"
  using limited.release_held[OF assms(2,3), of debug 0] assms(1) by (auto simp: max_drop_token_def)

lemma refresh_inv_spawn:
  assumes inv: "refresh_inv m n (bookkeeping c)"
  shows "refresh_inv m n (bookkeeping (spawn_refresh r k c))"
proof (cases "key_hash k \<in> cr_refreshes c \<or> max_try_incr (cr_lazy c) = None")
  case True
  then have "spawn_refresh r k c = c" by (auto simp: spawn_refresh_def)
  with inv show ?thesis by simp
next
  case False
  then obtain t l where tl: "max_try_incr (cr_lazy c) = Some (t, l)" by auto
  have m: "counter_max (cr_lazy c) = Some m" using inv by (simp add: refresh_inv_def bookkeeping_def)
  note a = acquire_limited[OF m tl]
  have "spawn_refresh r k c = c\<lparr>cr_lazy := l, cr_refreshes := insert (key_hash k) (cr_refreshes c),
                  cr_tasks := cr_tasks c @ [\<lparr>task_request = r, task_key = k, task_token = t\<rparr>]\<rparr>"
    using False tl by (simp add: spawn_refresh_def)
  then show ?thesis
    using inv a False by (simp add: refresh_inv_def bookkeeping_def)
qed

lemma refresh_inv_access:
  "refresh_inv m n (bookkeeping c) \<Longrightarrow> compute_memoized E r k c = (res, c') \<Longrightarrow> refresh_inv m n (bookkeeping c')"
  using bookkeeping_access[of E r k c] refresh_inv_spawn[of m n c r k] by auto

lemma bookkeeping_refreshed:
  "bookkeeping (snd (refreshed E i c)) = (cr_lazy c, cr_refreshes c, take i (cr_tasks c) @ drop (Suc i) (cr_tasks c))"
  by (simp add: refreshed_def fresh_run_def Let_def split: outcome.split) (simp add: bookkeeping_def)

lemma remove_middle_image:
  "distinct (map f (ys @ y # zs)) \<Longrightarrow>
     set (map f (ys @ zs)) = set (map f (ys @ y # zs)) - {f y} \<and> distinct (map f (ys @ zs))"
  by auto

lemma remove_nth_image:
  assumes "distinct (map f xs)" and "i < length xs"
  shows "set (map f (take i xs @ drop (Suc i) xs)) = set (map f xs) - {f (xs ! i)} \<and>
    distinct (map f (take i xs @ drop (Suc i) xs))"
  using remove_middle_image[of f "take i xs" "xs ! i" "drop (Suc i) xs"] assms
  by (simp only: id_take_nth_drop[OF assms(2), symmetric])

lemma list_all_remove_nth: "list_all P xs \<Longrightarrow> list_all P (take i xs @ drop j xs)"
  by (auto simp: list_all_iff simp del: list_all_append dest: in_set_takeD in_set_dropD)

lemma refresh_inv_run:
  assumes inv: "refresh_inv m n (bookkeeping c)" and i: "i < length (cr_tasks c)"
  shows "\<exists>c'. run_refresh E i c = Ret (fst (refreshed E i c), c') \<and> refresh_inv m n (bookkeeping c')
    \<and> cr_refreshes c' = cr_refreshes c - {key_hash (task_key (cr_tasks c ! i))}
    \<and> cr_tasks c' = take i (cr_tasks c) @ drop (Suc i) (cr_tasks c)
    \<and> Suc (unat (counter_value (cr_lazy c'))) = unat (counter_value (cr_lazy c))
    \<and> cr_memory c' = cr_memory (snd (refreshed E i c))"
proof -
  let ?t = "cr_tasks c ! i" and ?ts = "take i (cr_tasks c) @ drop (Suc i) (cr_tasks c)"
  note b = bookkeeping_refreshed[of E i c, unfolded bookkeeping_def]
  have h: "token_held (task_token ?t)" "0 < unat (counter_value (cr_lazy c))" "counter_max (cr_lazy c) = Some m"
    using inv i by (auto simp: refresh_inv_def bookkeeping_def list_all_length)
  from release_limited[OF h(3,1,2), of "debug_build E"] obtain t' l where
    l: "max_drop_token (debug_build E) (task_token ?t) (cr_lazy c) = Ret (t', l)" "counter_max l = Some m"
      "unat (counter_value l) = unat (counter_value (cr_lazy c)) - 1" by blast
  let ?c = "(snd (refreshed E i c))\<lparr>cr_lazy := l, cr_refreshes := cr_refreshes c - {key_hash (task_key ?t)}\<rparr>"
  have r: "run_refresh E i c = Ret (fst (refreshed E i c), ?c)"
    using b l by (simp add: run_refresh_alt drop_done_token_def)
  define ts where "ts = ?ts"
  have 1: "list_all (\<lambda>t. token_held (task_token t)) ts" unfolding ts_def
    using inv by (intro list_all_remove_nth) (simp add: refresh_inv_def bookkeeping_def)
  have "Suc (length ts) = length (cr_tasks c)" using i by (simp add: ts_def)
  moreover have "unat (counter_value (cr_lazy c)) = length (cr_tasks c) + n" "length (cr_tasks c) + n \<le> unat m"
    using inv by (simp_all add: refresh_inv_def bookkeeping_def)
  ultimately have 2: "unat (counter_value l) = length ts + n" "length ts + n \<le> unat m"
    using l(3) by linarith+
  have 3: "set (map (\<lambda>t. key_hash (task_key t)) ts) = cr_refreshes c - {key_hash (task_key ?t)}
      \<and> distinct (map (\<lambda>t. key_hash (task_key t)) ts)" unfolding ts_def
    using inv remove_nth_image[OF _ i, of "\<lambda>t. key_hash (task_key t)"]
    by (simp only: refresh_inv_def bookkeeping_def prod.case)
  have "bookkeeping ?c = (l, cr_refreshes c - {key_hash (task_key ?t)}, ts)"
    using b by (simp add: bookkeeping_def ts_def)
  then have "refresh_inv m n (bookkeeping ?c)"
    using 1 2 3 l(2) by (simp add: refresh_inv_def)
  moreover have "cr_tasks (snd (refreshed E i c)) = ?ts" using b by simp
  moreover have "Suc (unat (counter_value l)) = unat (counter_value (cr_lazy c))" using l(3) h(2) by linarith
  ultimately show ?thesis using r by (intro exI[of _ ?c]) simp
qed

lemma refresh_inv_step:
  assumes "cacher_step (c, n) k (c', n')" and "refresh_inv m n (bookkeeping c)"
  shows "refresh_inv m n' (bookkeeping c')"
  using assms(1)
proof (cases rule: cacher_step.cases)
  case (access E r k' res)
  then show ?thesis using refresh_inv_access assms(2) by blast
next
  case (refresh i E)
  then show ?thesis using refresh_inv_run[OF assms(2), of i E] by auto
next
  case (evict k')
  then show ?thesis using assms(2) by simp
next
  case (other_acquire t l)
  have "counter_max (cr_lazy c) = Some m" using assms(2) by (simp add: refresh_inv_def bookkeeping_def)
  from acquire_limited[OF this other_acquire(4)] show ?thesis
    using assms(2) other_acquire by (simp add: refresh_inv_def bookkeeping_def)
next
  case (other_release debug t l)
  have h: "counter_max (cr_lazy c) = Some m" "0 < unat (counter_value (cr_lazy c))"
    using assms(2) other_release by (simp_all add: refresh_inv_def bookkeeping_def)
  from release_limited[OF h(1) _ h(2), of "Token (Some ())" debug] show ?thesis
    using assms(2) other_release by (auto simp: refresh_inv_def bookkeeping_def token_held_def)
qed

lemma refresh_inv_reach:
  "cacher_reach s s' \<Longrightarrow> refresh_inv m (snd s) (bookkeeping (fst s)) \<Longrightarrow> refresh_inv m (snd s') (bookkeeping (fst s'))"
proof (induction rule: cacher_reach.induct)
  case (step s s' k s'')
  then show ?case using refresh_inv_step[of "fst s'" "snd s'" k "fst s''" "snd s''" m] by simp
qed simp

text \<open>
  A fresh result that is kept without end: an error for which no retry is configured. The clock of a
  refresh fits when every configured retry is in range of an \<open>Instant\<close>.
\<close>

definition never_retried :: "cache \<Rightarrow> 'i cache_contents \<Rightarrow> bool" where
  "never_retried C contents \<longleftrightarrow>
     (case contents of
        Inr _ \<Rightarrow> False
      | Inl (Malformed _) \<Rightarrow> cfg_retry_malformed_after (cache_config C) = None
      | Inl _ \<Rightarrow> cfg_retry_misses_after (cache_config C) = None)"

definition clock_fits :: "cache \<Rightarrow> nat \<Rightarrow> bool" where
  "clock_fits C now \<longleftrightarrow> now + secs 3600 \<le> instant_max
     \<and> list_all (\<lambda>r. pred_option (\<lambda>d. now + d \<le> instant_max) r)
         [cfg_retry_misses_after (cache_config C), cfg_retry_malformed_after (cache_config C)]"

lemma deadline_panics:
  assumes "clock_fits C now"
  shows "as_instant now (for_fresh_status C contents) = Panic \<longleftrightarrow> never_retried C contents"
proof -
  have "instant_max < duration_max" by (simp add: instant_max_def duration_max_def)
  then have u: "\<not> now + unlimited r \<le> instant_max \<longleftrightarrow> r = None" if "pred_option (\<lambda>d. now + d \<le> instant_max) r" for r
    using that by (cases r) auto
  have p: "as_instant now (RefreshIn d) = Panic \<longleftrightarrow> \<not> now + d \<le> instant_max" "as_instant now (TouchIn d) = Panic \<longleftrightarrow> \<not> now + d \<le> instant_max" for d
    by (simp_all add: as_instant_def Let_def)
  have c: "pred_option (\<lambda>d. now + d \<le> instant_max) (cfg_retry_misses_after (cache_config C))"
      "pred_option (\<lambda>d. now + d \<le> instant_max) (cfg_retry_malformed_after (cache_config C))" "now + secs 3600 \<le> instant_max"
    using assms by (simp_all add: clock_fits_def)
  show ?thesis
  proof (cases contents)
    case (Inl e)
    then show ?thesis
      by (cases e) (simp_all add: for_fresh_status_def expiration_strategy_def never_retried_def p u[OF c(1)] u[OF c(2)])
  next
    case (Inr x)
    then show ?thesis using c(3) by (simp add: for_fresh_status_def expiration_strategy_def never_retried_def p)
  qed
qed

lemma memory_compute: "cr_memory (snd (compute E r k c)) = cr_memory c"
  by (simp add: compute_def finish_compute_def store_in_shared_cache_def Let_def split: prod.split option.split sum.split)

lemma refreshed_end:
  assumes "clock_fits (cr_config c) (clock_done E)"
  shows "fst (refreshed E i c) = RefreshPanicked \<longleftrightarrow> never_retried (cr_config c) (entry_contents (fst (fresh_run E i c)))"
proof -
  have "cr_config (snd (fresh_run E i c)) = cr_config c" using fresh_run_effect[of c i E] by (simp add: key_effect_def)
  then show ?thesis
    using deadline_panics[OF assms, of "entry_contents (fst (fresh_run E i c))"]
    by (auto simp: refreshed_def Let_def split: outcome.split)
qed

lemma refreshed_memory:
  "case refreshed E i c of
     (RefreshPanicked, c') \<Rightarrow> cr_memory c' = cr_memory c
   | (RefreshDone, c') \<Rightarrow> \<exists>d. cr_memory c' = (cr_memory c)(key_hash (task_key (cr_tasks c ! i))
         \<mapsto> (clock_done E, \<lparr>deadline = d, item_entry = fst (fresh_run E i c)\<rparr>))"
proof -
  have "cr_memory (snd (fresh_run E i c)) = cr_memory c" by (simp add: fresh_run_def memory_compute)
  then show ?thesis by (auto simp: refreshed_def memory_insert_def Let_def split: outcome.split)
qed

text \<open>
  C3. Background refreshes stay within bounds: starting without any, after every sequence of
  requests, refreshes, evictions and activity of the caches sharing the limit, the refreshes
  that run are for pairwise different keys and together with those of the other caches do not
  exceed the configured maximum. However a refresh ends, it gives back its place and its key can be
  refreshed again. Unless the clock is near its end, its task panics exactly when its fresh result is an
  error for which no retry is configured. If it panics the memory is left alone; otherwise the fresh result is
  put in memory.
\<close>

theorem refreshes_bounded:
  assumes "cacher_reach (c0, 0) (c, n)"
    and "cr_lazy c0 = max_counter_new (Some m)" and "cr_refreshes c0 = {}" and "cr_tasks c0 = []"
  shows "distinct (map (\<lambda>t. key_hash (task_key t)) (cr_tasks c)) \<and>
    cr_refreshes c = set (map (\<lambda>t. key_hash (task_key t)) (cr_tasks c)) \<and>
    length (cr_tasks c) + n \<le> unat m \<and>
    (\<forall>i E. i < length (cr_tasks c) \<longrightarrow> (\<exists>how c'. run_refresh E i c = Ret (how, c')
       \<and> cr_tasks c' = take i (cr_tasks c) @ drop (Suc i) (cr_tasks c)
       \<and> cr_refreshes c' = cr_refreshes c - {key_hash (task_key (cr_tasks c ! i))}
       \<and> Suc (unat (counter_value (cr_lazy c'))) = unat (counter_value (cr_lazy c))
       \<and> (clock_fits (cr_config c) (clock_done E) \<longrightarrow>
            (how = RefreshPanicked \<longleftrightarrow> never_retried (cr_config c) (entry_contents (fst (fresh_run E i c)))))
       \<and> (case how of
            RefreshPanicked \<Rightarrow> cr_memory c' = cr_memory c
          | RefreshDone \<Rightarrow> \<exists>d. cr_memory c' = (cr_memory c)(key_hash (task_key (cr_tasks c ! i))
              \<mapsto> (clock_done E, \<lparr>deadline = d, item_entry = fst (fresh_run E i c)\<rparr>)))))"
proof -
  have "refresh_inv m 0 (bookkeeping c0)"
    using assms(2-4) by (simp add: refresh_inv_def bookkeeping_def max_counter_new_def counter_new_def)
  then have inv: "refresh_inv m n (bookkeeping c)"
    using refresh_inv_reach[OF assms(1)] by simp
  have "\<exists>how c'. run_refresh E i c = Ret (how, c')
       \<and> cr_tasks c' = take i (cr_tasks c) @ drop (Suc i) (cr_tasks c)
       \<and> cr_refreshes c' = cr_refreshes c - {key_hash (task_key (cr_tasks c ! i))}
       \<and> Suc (unat (counter_value (cr_lazy c'))) = unat (counter_value (cr_lazy c))
       \<and> (clock_fits (cr_config c) (clock_done E) \<longrightarrow>
            (how = RefreshPanicked \<longleftrightarrow> never_retried (cr_config c) (entry_contents (fst (fresh_run E i c)))))
       \<and> (case how of
            RefreshPanicked \<Rightarrow> cr_memory c' = cr_memory c
          | RefreshDone \<Rightarrow> \<exists>d. cr_memory c' = (cr_memory c)(key_hash (task_key (cr_tasks c ! i))
              \<mapsto> (clock_done E, \<lparr>deadline = d, item_entry = fst (fresh_run E i c)\<rparr>)))" if i: "i < length (cr_tasks c)" for E i
  proof -
    obtain c' where r: "run_refresh E i c = Ret (fst (refreshed E i c), c')"
        "cr_refreshes c' = cr_refreshes c - {key_hash (task_key (cr_tasks c ! i))}"
        "cr_tasks c' = take i (cr_tasks c) @ drop (Suc i) (cr_tasks c)"
        "Suc (unat (counter_value (cr_lazy c'))) = unat (counter_value (cr_lazy c))"
        "cr_memory c' = cr_memory (snd (refreshed E i c))"
      using refresh_inv_run[OF inv i, of E] by blast
    have "case fst (refreshed E i c) of
            RefreshPanicked \<Rightarrow> cr_memory c' = cr_memory c
          | RefreshDone \<Rightarrow> \<exists>d. cr_memory c' = (cr_memory c)(key_hash (task_key (cr_tasks c ! i))
              \<mapsto> (clock_done E, \<lparr>deadline = d, item_entry = fst (fresh_run E i c)\<rparr>))"
      using refreshed_memory[where E = E and i = i and c = c] r(5) by (cases "refreshed E i c") (simp split: refresh_end.splits)
    with r refreshed_end show ?thesis by blast
  qed
  then show ?thesis using inv by (simp add: refresh_inv_def bookkeeping_def)
qed

theorem refreshes_bounded_witness:
  "\<exists>l. cacher_reach (demo_cacher, 0) (demo_cacher\<lparr>cr_lazy := l\<rparr>, 1)
     \<and> length (cr_tasks (demo_cacher\<lparr>cr_lazy := l\<rparr>)) + 1 \<le> unat (2 :: usize)"
proof -
  have m: "counter_max (cr_lazy demo_cacher) = Some 2"
    by (simp add: demo_cacher_def max_counter_new_def)
  have "max_try_incr (cr_lazy demo_cacher) \<noteq> None"
    by (simp add: max_try_incr_None m) (simp add: demo_cacher_def max_counter_new_def counter_new_def)
  then obtain t l where tl: "max_try_incr (cr_lazy demo_cacher) = Some (t, l)" by auto
  have s: "cacher_step (demo_cacher, 0) None (demo_cacher\<lparr>cr_lazy := l\<rparr>, 1)"
    using cacher_step.other_acquire[OF tl, of 0] by simp
  have r: "cacher_reach (demo_cacher, 0) (demo_cacher\<lparr>cr_lazy := l\<rparr>, 1)"
    by (rule cacher_reach.step[OF cacher_reach.start s])
  have i: "cr_lazy demo_cacher = max_counter_new (Some 2)" "cr_refreshes demo_cacher = {}" "cr_tasks demo_cacher = []"
    by (simp_all add: demo_cacher_def)
  from refreshes_bounded[OF r i] r show ?thesis by blast
qed

end
