(* ===== verification/CacherPersist.thy ===== *)
theory CacherPersist
  imports CacherCorrect
begin

text \<open>
  What the \<open>Cacher\<close> leaves on disk and serves from there: the effect of \<open>write_cache_file\<close> in
  closed form, answers that survive a restart, removal of old versions, errors that are not
  persisted, and the fallback to outdated versions.
\<close>

section \<open>The effect of writing a cache file\<close>

definition version_path :: "string \<Rightarrow> cache_key \<Rightarrow> cache_version \<Rightarrow> string" where
  "version_path dir k v = path_join dir (cache_path k v)"

lemma fold_remove_old_files:
  "cache_files (fold (remove_old E dir k) vs F) p =
     (if io_ok E RemoveOld \<and> p \<in> version_path dir k ` set vs then None else cache_files F p)"
  by (induction vs arbitrary: F) (auto simp: Let_def remove_old_def remove_metadata_def remove_cache_file_def version_path_def)

lemma fold_remove_old_meta:
  "meta_files (fold (remove_old E dir k) vs F) q =
     (if io_ok E RemoveOld \<and> q \<in> metadata_path ` version_path dir k ` set vs then None else meta_files F q)"
  by (induction vs arbitrary: F) (auto simp: Let_def remove_old_def remove_metadata_def remove_cache_file_def version_path_def)

lemma current_not_old:
  assumes "key_ok k" and "versions_ok vs"
  shows "version_path dir k (current vs) \<notin> version_path dir k ` set (previous vs)"
    "metadata_path (version_path dir k (current vs)) \<notin> metadata_path ` version_path dir k ` set (previous vs)"
proof -
  have ne: "cache_path k (current vs) \<noteq> cache_path k v" if "v \<in> set (previous vs)" for v
  proof
    assume "cache_path k (current vs) = cache_path k v"
    then have "version_eq (current vs) v"
      using cache_path_inj[OF assms(1,1)] by blast
    moreover have "number v < number (current vs)"
      using that assms(2) unfolding versions_ok_def list_all_iff by blast
    ultimately show False by (simp add: version_eq_def)
  qed
  show "version_path dir k (current vs) \<notin> version_path dir k ` set (previous vs)"
  proof
    assume "version_path dir k (current vs) \<in> version_path dir k ` set (previous vs)"
    then obtain v where "v \<in> set (previous vs)" "version_path dir k (current vs) = version_path dir k v" by (rule imageE)
    with ne[of v] show False by (simp add: version_path_def)
  qed
  show "metadata_path (version_path dir k (current vs)) \<notin> metadata_path ` version_path dir k ` set (previous vs)"
  proof
    assume "metadata_path (version_path dir k (current vs)) \<in> metadata_path ` version_path dir k ` set (previous vs)"
    then obtain v where "v \<in> set (previous vs)" "metadata_path (version_path dir k (current vs)) = metadata_path (version_path dir k v)"
      by blast
    with ne[of v] show False by (simp add: version_path_def metadata_path_key[OF assms(1)])
  qed
qed

definition stored_metadata :: "metadata \<Rightarrow> metadata" where
  "stored_metadata md = md\<lparr>time_created := timestamp_deserialize (timestamp_serialize (time_created md))\<rparr>"

lemma write_cache_file_result:
  fixes F :: fs and temp :: string
  assumes "key_ok k" and "versions_ok (req_versions r)" and "cache_dir C = Some dir"
    and "persist_loop (persist_attempt E) 0" and "io_ok E WriteMetadata" and "entry_metadata entry = Some md"
  defines "F' \<equiv> write_cache_file E C r k entry temp F" and "p \<equiv> version_path dir k (current (req_versions r))"
  shows "cache_files F' p = Some \<lparr>bytes = temp, mtime = clock_done E\<rparr>"
    "known_metadata F' p = Some (stored_metadata md)"
  using current_not_old[OF assms(1,2), of dir] assms(3-6) unfolding F'_def p_def
  by (simp_all add: write_cache_file_def Let_def fold_remove_old_files fold_remove_old_meta persist_tempfile_def
      write_metadata_def known_metadata_def stored_metadata_def flip: version_path_def)

section \<open>Serving from disk\<close>

text \<open>The clock is far enough from the end of time for every deadline of the configuration.\<close>

definition deadlines_ok :: "cache \<Rightarrow> nat \<Rightarrow> bool" where
  "deadlines_ok C now \<longleftrightarrow> now + TOUCH_EVERY \<le> instant_max \<and>
     now + unlimited (cfg_retry_misses_after (cache_config C)) \<le> instant_max \<and>
     now + unlimited (cfg_retry_misses_after_public (cache_config C)) \<le> instant_max \<and>
     now + unlimited (cfg_retry_malformed_after (cache_config C)) \<le> instant_max"

lemma compute_expiration_deadline:
  assumes "compute_expiration_time C now c a ct pub = Inr x" and "deadlines_ok C now"
  shows "\<exists>d. as_instant now x = Ret d"
proof -
  have le: "\<exists>d. as_instant now (RefreshIn (m - e)) = Ret d" "\<exists>d. as_instant now (TouchIn (m - e)) = Ret d"
    if "now + m \<le> instant_max" for e m :: nat
    using that by (simp_all add: as_instant_def Let_def)
  show ?thesis
  proof (cases "expiration_strategy c")
    case StrategyNone
    with assms(1) have "x = TouchIn (TOUCH_EVERY - elapsed now a)"
      by (simp add: compute_expiration_time_def Let_def split: if_splits)
    with assms(2) show ?thesis by (simp add: deadlines_ok_def le(2))
  next
    case StrategyNegative
    then show ?thesis
      using assms by (cases pub) (auto simp: compute_expiration_time_def deadlines_ok_def Let_def
          split: if_splits intro: le(1))
  next
    case StrategyMalformed
    then show ?thesis
      using assms by (auto simp: compute_expiration_time_def deadlines_ok_def Let_def
          split: if_splits intro: le(1))
  qed
qed

lemma open_cachefile_deadline:
  assumes "fst (open_cachefile D C now p F) = Inr (Some (e, x))" and "deadlines_ok C now"
  shows "\<exists>d. as_instant now x = Ret d"
proof (cases "cache_files F p")
  case None
  then show ?thesis using assms by (simp add: open_cachefile_fst check_expiry_def catch_not_found_def)
next
  case (Some f)
  have "as_instant now (TouchIn TOUCH_EVERY) = Ret (now + TOUCH_EVERY)"
    using assms(2) by (simp add: as_instant_def deadlines_ok_def)
  then show ?thesis
    using assms compute_expiration_deadline[OF _ assms(2)] Some
    by (auto simp: open_cachefile_fst check_expiry_Some catch_not_found_def split: sum.splits if_splits io_error.splits)
qed

lemma lookup_file_hit:
  assumes "cache_files F (path_join dir key) = Some f" and "file_usable (durations E) C (clock E) F (path_join dir key) f"
    and "deadlines_ok C (clock E)"
  shows "\<exists>d b. fst (lookup_file E C dir key F) =
     Ret (Inr (\<lparr>deadline = d, item_entry = \<lparr>entry_metadata = known_metadata F (path_join dir key),
        entry_contents = cache_contents_from_bytes (durations E) (bytes f)\<rparr>\<rparr>, b))"
proof -
  obtain x where x: "fst (open_cachefile (durations E) C (clock E) (path_join dir key) F) =
      Inr (Some (\<lparr>entry_metadata = known_metadata F (path_join dir key),
                  entry_contents = cache_contents_from_bytes (durations E) (bytes f)\<rparr>, x))"
    using open_cachefile_served[OF assms(1,2)] by blast
  with open_cachefile_deadline[OF x assms(3)] show ?thesis
    by (auto simp: lookup_file_def split: prod.split)
qed

lemma lookup_file_miss:
  assumes "\<And>f. cache_files F (path_join dir key) = Some f \<Longrightarrow>
      \<not> file_usable (durations E) C (clock E) F (path_join dir key) f"
  shows "fst (lookup_file E C dir key F) = Ret (Inl NotFound)"
proof -
  have "fst (open_cachefile (durations E) C (clock E) (path_join dir key) F) = Inr None"
    using open_cachefile_missed[OF assms] by blast
  then show ?thesis by (auto simp: lookup_file_def split: prod.split)
qed

section \<open>Computing and persisting\<close>

definition all_io_ok :: "env \<Rightarrow> bool" where
  "all_io_ok E \<longleftrightarrow> (\<forall>oper. io_ok E oper) \<and> persist_loop (persist_attempt E) 0"

text \<open>What a computation is meant to leave: its output, or its error.\<close>

fun stored_result :: "string \<times> unit cache_contents \<Rightarrow> string cache_contents" where
  "stored_result (t, Inr _) = Inr t"
| "stored_result (t, Inl e) = Inl e"

lemma compute_fresh:
  assumes "shared_cache E r = None" and "all_io_ok E"
    and "contents_persistable (durations E) (stored_result (compute_item E []))"
  shows "compute E r k c = finish_compute E r k False
      \<lparr>entry_metadata = Some (key_metadata E k), entry_contents = stored_result (compute_item E [])\<rparr>
      (contents_bytes (durations E) (stored_result (compute_item E []))) c"
proof -
  obtain t res where x: "compute_item E [] = (t, res)" by fastforce
  have io: "io_ok E oper" for oper using assms(2) by (simp add: all_io_ok_def)
  show ?thesis
  proof (cases res)
    case (Inl e)
    with x assms(3) have "error_ok (durations E) e" by simp
    then have "e \<noteq> InternalError" by (auto simp: error_ok_def)
    then show ?thesis
      using x Inl io assms(1) by (simp add: compute_def load_from_shared_cache_def error_write_bytes)
  next
    case (Inr u)
    then show ?thesis
      using x io assms(1) by (simp add: compute_def load_from_shared_cache_def)
  qed
qed

lemma finish_compute_alone:
  "shared_cache E r = None \<Longrightarrow> finish_compute E r k hit entry temp c =
     (entry_and_then (load_item r) entry,
      c\<lparr>cr_disk := write_cache_file E (cr_config c) r k entry temp (cr_disk c)\<rparr>)"
  by (simp add: finish_compute_def Let_def store_in_shared_cache_def)

text \<open>A request whose current version is usable on disk is answered from it.\<close>

lemma compute_memoized_from_disk:
  assumes "memory_get E k c = None" and "cache_dir (cr_config c) = Some dir"
    and "cache_files (cr_disk c) (version_path dir k (current (req_versions r))) = Some f"
    and "file_usable (durations E) (cr_config c) (clock E) (cr_disk c) (version_path dir k (current (req_versions r))) f"
    and "deadlines_ok (cr_config c) (clock E)"
  shows "fst (compute_memoized E r k c) = Ret (entry_and_then (load_item r)
     \<lparr>entry_metadata = known_metadata (cr_disk c) (version_path dir k (current (req_versions r))),
      entry_contents = cache_contents_from_bytes (durations E) (bytes f)\<rparr>)"
proof -
  let ?v = "current (req_versions r)"
  obtain d b where "fst (lookup_file E (cr_config c) dir (cache_path k ?v) (cr_disk c)) =
     Ret (Inr (\<lparr>deadline = d, item_entry = \<lparr>entry_metadata = known_metadata (cr_disk c) (version_path dir k ?v),
        entry_contents = cache_contents_from_bytes (durations E) (bytes f)\<rparr>\<rparr>, b))"
    using lookup_file_hit[OF assms(3-5)[unfolded version_path_def]] unfolding version_path_def by blast
  then obtain F where "lookup_file E (cr_config c) dir (cache_path k ?v) (cr_disk c) =
     (Ret (Inr (\<lparr>deadline = d, item_entry = \<lparr>entry_metadata = known_metadata (cr_disk c) (version_path dir k ?v),
        entry_contents = cache_contents_from_bytes (durations E) (bytes f)\<rparr>\<rparr>, b)), F)"
    by (metis prod.collapse)
  then show ?thesis
    by (simp add: compute_memoized_def assms(1,2) lookup_or_compute_def lookup_local_cache_def Let_def
        item_and_then_def version_eq_def)
qed

text \<open>
  C1. Computed items survive a restart: when an item was computed and every file operation
  succeeded, the answer is the loaded output (or the error), and after losing all memory the
  same answer, with the creation time truncated to seconds, is served from disk, without
  computing again, as long as the file is usable.
\<close>

theorem computed_items_survive_restart:
  assumes "shared_cache E r = None" and "all_io_ok E" and "cache_dir (cr_config c) = Some dir"
    and "key_ok k" and "versions_ok (req_versions r)"
    and "contents_persistable (durations E) (stored_result (compute_item E []))"
    and "durations E' = durations E" and "deadlines_ok (cr_config c) (clock E')"
    and "file_usable (durations E) (cr_config c) (clock E') (cr_disk (snd (compute E r k c)))
           (version_path dir k (current (req_versions r)))
           \<lparr>bytes = contents_bytes (durations E) (stored_result (compute_item E [])), mtime = clock_done E\<rparr>"
  shows "fst (compute E r k c) = entry_and_then (load_item r)
            \<lparr>entry_metadata = Some (key_metadata E k), entry_contents = stored_result (compute_item E [])\<rparr>
    \<and> fst (compute_memoized E' r k ((snd (compute E r k c))\<lparr>cr_memory := Map.empty\<rparr>)) =
        Ret (entry_and_then (load_item r) \<lparr>entry_metadata = Some (stored_metadata (key_metadata E k)),
               entry_contents = stored_result (compute_item E [])\<rparr>)"
proof -
  let ?D = "durations E" and ?res = "stored_result (compute_item E [])"
  let ?entry = "\<lparr>entry_metadata = Some (key_metadata E k), entry_contents = ?res\<rparr>"
  define p where "p = version_path dir k (current (req_versions r))"
  define F where "F = write_cache_file E (cr_config c) r k ?entry (contents_bytes ?D ?res) (cr_disk c)"
  have c: "compute E r k c = (entry_and_then (load_item r) ?entry, c\<lparr>cr_disk := F\<rparr>)"
    by (simp add: compute_fresh[OF assms(1,2,6)] finish_compute_alone[OF assms(1)] F_def)
  have io: "io_ok E WriteMetadata" "persist_loop (persist_attempt E) 0"
    using assms(2) by (simp_all add: all_io_ok_def)
  note w = write_cache_file_result[OF assms(4,5,3) io(2,1), where entry = ?entry and md = "key_metadata E k"
      and F = "cr_disk c" and temp = "contents_bytes ?D ?res"]
  have f: "cache_files F p = Some \<lparr>bytes = contents_bytes ?D ?res, mtime = clock_done E\<rparr>"
    "known_metadata F p = Some (stored_metadata (key_metadata E k))"
    using w by (simp_all add: F_def p_def)
  let ?c = "c\<lparr>cr_disk := F, cr_memory := Map.empty\<rparr>"
  have "fst (compute_memoized E' r k ?c) = Ret (entry_and_then (load_item r)
     \<lparr>entry_metadata = known_metadata (cr_disk ?c) p,
      entry_contents = cache_contents_from_bytes (durations E') (bytes \<lparr>bytes = contents_bytes ?D ?res, mtime = clock_done E\<rparr>)\<rparr>)"
    unfolding p_def
    by (rule compute_memoized_from_disk)
      (use assms(3,7-9) c f in \<open>simp_all add: memory_get_def p_def\<close>)
  then show ?thesis
    using c f(2) assms(7) contents.dec_enc[OF assms(6)] by simp
qed

definition demo_env :: "nat \<Rightarrow> string \<times> unit cache_contents \<Rightarrow> env" where
  "demo_env now res = \<lparr>clock = now, clock_done = now, durations = demo_durations, debug_build = False,
     io_ok = (\<lambda>_. True), persist_attempt = (\<lambda>_. AttemptOk), compute_item = (\<lambda>_. res), shared_service = None\<rparr>"

lemma demo_env_ok: "all_io_ok (demo_env now res)" "shared_cache (demo_env now res) r = None"
  by (simp_all add: all_io_ok_def demo_env_def shared_cache_def persist_loop.simps)

lemma demo_versions_ok: "versions_ok (req_versions demo_request)"
  by (simp add: demo_request_def versions_ok_def OBJECTS_CACHE_VERSIONS_def)

lemma demo_dir: "cache_dir (cr_config demo_cacher) = Some ''/cache/objects''"
  by (simp add: demo_cacher_def demo_cache_def)

lemma demo_key_ok: "key_ok (demo_key b)"
  by (simp add: key_ok_def demo_key_def)

lemma demo_deadlines: "deadlines_ok (cr_config demo_cacher) (secs 60)"
  by (simp add: deadlines_ok_def demo_cacher_def demo_cache_def cfg_retry_misses_after_def
      cfg_retry_misses_after_public_def cfg_retry_malformed_after_def default_downloaded_def secs_def
      instant_max_def TOUCH_EVERY_def)

theorem computed_items_survive_restart_witness:
  "fst (compute_memoized (demo_env (secs 60) ([], Inl NotFound)) demo_request (demo_key 1)
      ((snd (compute (demo_env 0 (''ELF'', Inr ())) demo_request (demo_key 1) demo_cacher))\<lparr>cr_memory := Map.empty\<rparr>)) =
    Ret (entry_and_then Inr \<lparr>entry_metadata = Some (stored_metadata (key_metadata (demo_env 0 (''ELF'', Inr ())) (demo_key 1))),
               entry_contents = Inr ''ELF''\<rparr>)"
proof -
  let ?E = "demo_env 0 (''ELF'', Inr ())" and ?E' = "demo_env (secs 60) ([], Inl NotFound)"
  have r: "stored_result (compute_item ?E []) = Inr ''ELF''" by (simp add: demo_env_def)
  have p: "contents_persistable (durations ?E) (stored_result (compute_item ?E []))"
    unfolding r by (simp add: demo_env_def) code_simp
  have d: "durations ?E' = durations ?E" "deadlines_ok (cr_config demo_cacher) (clock ?E')"
    using demo_deadlines by (simp_all add: demo_env_def)
  have u: "file_usable (durations ?E) (cr_config demo_cacher) (clock ?E') F q
      \<lparr>bytes = contents_bytes (durations ?E) (stored_result (compute_item ?E [])), mtime = clock_done ?E\<rparr>" for F q
    unfolding r by (simp add: demo_env_def file_usable_def demo_positive demo_cacher_def demo_cache_def
        cfg_max_unused_for_def default_downloaded_def secs_def)
  from computed_items_survive_restart[OF demo_env_ok(2,1) demo_dir demo_key_ok demo_versions_ok p d u]
  show ?thesis unfolding r by (simp add: demo_request_def)
qed

section \<open>Old versions\<close>

text \<open>
  Writing an item cleans up after older software: afterwards the current version is on disk
  with the new bytes, and no file and no metadata of any previous version of the key is left,
  when the removals succeed. This needs the version table to keep current and previous apart.
\<close>

theorem old_versions_removed:
  fixes F :: fs and temp :: string
  assumes "key_ok k" and "versions_ok (req_versions r)" and "cache_dir C = Some dir" and "all_io_ok E"
    and "v \<in> set (previous (req_versions r))"
  shows "cache_files (write_cache_file E C r k entry temp F) (version_path dir k v) = None
    \<and> known_metadata (write_cache_file E C r k entry temp F) (version_path dir k v) = None
    \<and> cache_files (write_cache_file E C r k entry temp F) (version_path dir k (current (req_versions r)))
        = Some \<lparr>bytes = temp, mtime = clock_done E\<rparr>"
proof -
  have io: "io_ok E oper" "persist_loop (persist_attempt E) 0" for oper
    using assms(4) by (simp_all add: all_io_ok_def)
  let ?G = "case entry_metadata entry of
      Some md \<Rightarrow> write_metadata (version_path dir k (current (req_versions r))) md
         (persist_tempfile E temp (version_path dir k (current (req_versions r))) F)
    | None \<Rightarrow> persist_tempfile E temp (version_path dir k (current (req_versions r))) F"
  have w: "write_cache_file E C r k entry temp F = fold (remove_old E dir k) (previous (req_versions r)) ?G"
    using io by (simp add: write_cache_file_def assms(3) Let_def flip: version_path_def split: option.split)
  have g: "cache_files ?G (version_path dir k (current (req_versions r))) = Some \<lparr>bytes = temp, mtime = clock_done E\<rparr>"
    using io(2) by (simp add: persist_tempfile_def write_metadata_def split: option.split)
  have old: "version_path dir k v \<in> version_path dir k ` set (previous (req_versions r))"
    "metadata_path (version_path dir k v) \<in> metadata_path ` version_path dir k ` set (previous (req_versions r))"
    using assms(5) by blast+
  show ?thesis
    using current_not_old[OF assms(1,2), of dir] old io(1) g
    unfolding w known_metadata_def fold_remove_old_files fold_remove_old_meta by simp
qed

theorem old_versions_removed_witness:
  "cache_files (write_cache_file (demo_env 0 ([], Inr ())) demo_cache demo_request (demo_key 1)
      (entry_from_err NotFound) [] demo_fs) (version_path ''/cache/objects'' (demo_key 1) (cv 1 V1)) = None"
proof -
  have d: "cache_dir demo_cache = Some ''/cache/objects''" by (simp add: demo_cache_def)
  have v: "cv 1 V1 \<in> set (previous (req_versions demo_request))"
    by (simp add: demo_request_def OBJECTS_CACHE_VERSIONS_def)
  from old_versions_removed[OF demo_key_ok demo_versions_ok d demo_env_ok(1) v] show ?thesis by blast
qed

section \<open>Internal errors and the shared cache\<close>

lemma internal_error_not_persisted:
  assumes "shared_cache E r = None" and "snd (compute_item E []) = Inl InternalError"
  shows "compute E r k c = (entry_from_err InternalError, c)"
  using assms by (cases "compute_item E []") (simp add: compute_def load_from_shared_cache_def)

text \<open>
  An internal error that is persisted after all: if the temporary file cannot be reopened for
  the shared cache, the caller gets the internal error, but the empty temporary file is still
  moved into the cache, where it reads as a negative entry: the item counts as not found for the
  whole retry interval, although nothing was ever looked up.
\<close>

theorem shared_reopen_failure_persists_not_found:
  assumes "shared_cache E r = Some fetch" and "io_ok E CreateTemp" and "\<not> io_ok E ReopenShared"
    and "cache_dir (cr_config c) = Some dir" and "persist_loop (persist_attempt E) 0"
    and "key_ok k" and "versions_ok (req_versions r)"
  shows "entry_contents (fst (compute E r k c)) = Inl InternalError
    \<and> (\<exists>f. cache_files (cr_disk (snd (compute E r k c))) (version_path dir k (current (req_versions r))) = Some f
          \<and> cache_contents_from_bytes D (bytes f) = Inl NotFound)"
proof -
  have e: "error_from_bytes D [] = Some NotFound"
    by (simp add: error_from_bytes_def strip_prefix_def starts_with_def)
  show ?thesis
    using assms(1-5) current_not_old(1)[OF assms(6,7), of dir] e
    by (simp add: compute_def load_from_shared_cache_def finish_compute_def entry_and_then_def entry_from_err_def Let_def
        write_cache_file_def fold_remove_old_files persist_tempfile_def cache_contents_from_bytes_def
        flip: version_path_def)
qed

theorem shared_reopen_failure_persists_not_found_witness:
  "entry_contents (fst (compute ((demo_env 0 ([], Inr ()))\<lparr>io_ok := (\<lambda>oper. oper \<noteq> ReopenShared),
      shared_service := Some (\<lambda>_ _. FetchMiss [])\<rparr>) demo_request (demo_key 1) demo_cacher)) = Inl InternalError"
proof -
  let ?E = "(demo_env 0 ([], Inr ()))\<lparr>io_ok := (\<lambda>oper. oper \<noteq> ReopenShared), shared_service := Some (\<lambda>_ _. FetchMiss [])\<rparr>"
  have h: "shared_cache ?E demo_request = Some (\<lambda>_ _. FetchMiss [])" "io_ok ?E CreateTemp" "\<not> io_ok ?E ReopenShared"
    "persist_loop (persist_attempt ?E) 0"
    by (simp_all add: shared_cache_def demo_request_def demo_env_def persist_loop.simps)
  from shared_reopen_failure_persists_not_found[OF h(1-3) demo_dir h(4) demo_key_ok demo_versions_ok]
  show ?thesis by blast
qed

text \<open>
  Only successful computations are uploaded: computing an item uploads at most once, under
  the current version's path, and then exactly the bytes that were computed without an error;
  errors and items that came from the shared cache are not uploaded.
\<close>

theorem uploads_only_computed:
  "cr_uploads (snd (compute E r k c)) = cr_uploads c \<or>
   (\<exists>left b. compute_item E left = (b, Inr ()) \<and> use_shared_cache r \<and>
      cr_uploads (snd (compute E r k c)) =
        cr_uploads c @ [(name (cr_config c), cache_path k (current (req_versions r)), b, StoreNew)])"
proof (cases "load_from_shared_cache E c r k []")
  case (Pair entry left)
  obtain b res where ci: "compute_item E left = (b, res)" by fastforce
  have s: "shared_cache E r \<noteq> None \<Longrightarrow> use_shared_cache r" by (simp add: shared_cache_def split: if_splits)
  show ?thesis
  proof (cases "entry")
    case (Some e)
    then show ?thesis by (simp add: compute_def Pair finish_compute_def Let_def)
  next
    case None
    show ?thesis
    proof (cases res)
      case (Inl err)
      then show ?thesis
        by (simp add: compute_def Pair None ci finish_compute_def Let_def store_in_shared_cache_def split: option.split)
    next
      case (Inr u)
      then have "compute_item E left = (b, Inr ())" using ci by simp
      then show ?thesis
        using s by (auto simp: compute_def Pair None finish_compute_def Let_def store_in_shared_cache_def split: option.split)
    qed
  qed
qed

section \<open>Memory\<close>

lemma memory_get_insert:
  "memory_get E k (memory_insert t k x c) = (if clock E < t + (deadline x - t) then Some x else None)"
  by (simp add: memory_get_def memory_insert_def expire_after_create_def saturating_duration_since_def)

text \<open>
  Computed answers are remembered for the time of their status: after a request that had to
  compute, every further request for the key until the fresh deadline (one hour for a success,
  the retry interval for an error) gets the same answer and changes nothing, whatever the
  request, the disk or the environment would answer.
\<close>

theorem answer_remembered_until_deadline:
  assumes "memory_get E k c = None" and "lookup_local_cache E r k c = (Ret None, c1)"
    and "as_instant (clock_done E) (for_fresh_status (cr_config c) (entry_contents (fst (compute E r k c1)))) = Ret d"
    and "clock E' < d"
  shows "compute_memoized E' r' k (snd (compute_memoized E r k c)) =
           (fst (compute_memoized E r k c), snd (compute_memoized E r k c))
    \<and> fst (compute_memoized E r k c) = Ret (fst (compute E r k c1))"
proof -
  obtain e c2 where c2: "compute E r k c1 = (e, c2)" by fastforce
  have "cr_config c1 = cr_config c"
    using lookup_local_cache_effect[of k c E r] assms(2) by (simp add: key_effect_def)
  moreover have "cr_config c2 = cr_config c1"
    using compute_effect[of k c1 E r] c2 by (simp add: key_effect_def)
  ultimately have l: "lookup_or_compute E r k c = (Ret \<lparr>deadline = d, item_entry = e\<rparr>, c2)"
    using assms(3) by (simp add: lookup_or_compute_def assms(2) c2)
  have m: "compute_memoized E r k c = (Ret e, memory_insert (clock_done E) k \<lparr>deadline = d, item_entry = e\<rparr> c2)"
    by (simp add: compute_memoized_def assms(1) l)
  have "memory_get E' k (memory_insert (clock_done E) k \<lparr>deadline = d, item_entry = e\<rparr> c2) = Some \<lparr>deadline = d, item_entry = e\<rparr>"
    using assms(4) by (simp add: memory_get_insert)
  then show ?thesis
    unfolding m c2 by (simp add: compute_memoized_def)
qed

definition diskless_cacher :: "string cacher" where
  "diskless_cacher = demo_cacher\<lparr>cr_config := demo_cache\<lparr>cache_dir := None\<rparr>\<rparr>"

theorem answer_remembered_until_deadline_witness:
  "fst (compute_memoized (demo_env (secs 60) ([], Inl NotFound)) demo_request (demo_key 1)
      (snd (compute_memoized (demo_env 0 (''ELF'', Inr ())) demo_request (demo_key 1) diskless_cacher)))
   = Ret \<lparr>entry_metadata = Some (key_metadata (demo_env 0 (''ELF'', Inr ())) (demo_key 1)), entry_contents = Inr ''ELF''\<rparr>"
proof -
  let ?E = "demo_env 0 (''ELF'', Inr ())" and ?E' = "demo_env (secs 60) ([], Inl NotFound)"
  have r: "stored_result (compute_item ?E []) = Inr ''ELF''" by (simp add: demo_env_def)
  have p: "contents_persistable (durations ?E) (stored_result (compute_item ?E []))"
    unfolding r by (simp add: demo_env_def) code_simp
  have c: "fst (compute ?E demo_request (demo_key 1) diskless_cacher) =
      \<lparr>entry_metadata = Some (key_metadata ?E (demo_key 1)), entry_contents = Inr ''ELF''\<rparr>"
    by (simp add: compute_fresh[OF demo_env_ok(2,1) p] r finish_compute_alone[OF demo_env_ok(2)] entry_and_then_def
        demo_request_def)
  have l: "lookup_local_cache ?E demo_request (demo_key 1) diskless_cacher = (Ret None, diskless_cacher)"
    by (simp add: lookup_local_cache_def diskless_cacher_def)
  have m: "memory_get ?E (demo_key 1) diskless_cacher = None"
    by (simp add: memory_get_def diskless_cacher_def demo_cacher_def)
  have d: "as_instant (clock_done ?E) (for_fresh_status (cr_config diskless_cacher)
      (entry_contents (fst (compute ?E demo_request (demo_key 1) diskless_cacher)))) = Ret (secs 3600)"
    unfolding c by (simp add: demo_env_def for_fresh_status_def expiration_strategy_def as_instant_def secs_def instant_max_def)
  have t: "clock ?E' < secs 3600" by (simp add: demo_env_def secs_def)
  from answer_remembered_until_deadline[OF m l d t, of demo_request] c show ?thesis by simp
qed

section \<open>Fallback versions\<close>

text \<open>The fallbacks are tried after the current version; each has its own files.\<close>

definition tried_versions :: "cache_versions \<Rightarrow> cache_version list" where
  "tried_versions vs = current vs # fallbacks vs"

lemma tried_versions_distinct:
  assumes "versions_ok vs"
  shows "sorted_wrt (\<lambda>a b. number a > number b) (tried_versions vs)"
proof -
  have "number f < number (current vs)" if "f \<in> set (fallbacks vs)" for f
    using assms that unfolding versions_ok_def list_all_iff by blast
  then show ?thesis using assms by (simp add: tried_versions_def versions_ok_def)
qed

lemma version_path_neq:
  assumes "key_ok k" and "number v \<noteq> number w"
  shows "version_path dir k v \<noteq> version_path dir k w"
    "metadata_path (version_path dir k v) \<noteq> metadata_path (version_path dir k w)"
  using cache_path_inj[OF assms(1,1), of v w] assms(2)
  by (auto simp: version_path_def version_eq_def metadata_path_key[OF assms(1)])

definition missing :: "env \<Rightarrow> cache \<Rightarrow> string \<Rightarrow> fs \<Rightarrow> bool" where
  "missing E C p F \<longleftrightarrow> (case cache_files F p of None \<Rightarrow> True
     | Some f \<Rightarrow> \<not> file_usable (durations E) C (clock E) F p f)"

lemma lookup_file_missing: "missing E C (path_join dir key) F \<Longrightarrow> fst (lookup_file E C dir key F) = Ret (Inl NotFound)"
  by (rule lookup_file_miss) (simp add: missing_def)

lemma same_file:
  assumes "same_outside {q} F F'" and "p \<noteq> q" and "metadata_path p \<noteq> metadata_path q"
  shows "cache_files F' p = cache_files F p" "known_metadata F' p = known_metadata F p"
    "file_usable D C now F' p f = file_usable D C now F p f" "missing E C p F' = missing E C p F"
proof -
  show a: "cache_files F' p = cache_files F p" and b: "known_metadata F' p = known_metadata F p"
    using assms by (auto simp: same_outside_def known_metadata_def)
  have ct: "creation_time F' p f = creation_time F p f" for f using b by (simp add: creation_time_def)
  show u: "file_usable D C now F' p f = file_usable D C now F p f" for D C now f
    unfolding file_usable_def b ct by (rule refl)
  show "missing E C p F' = missing E C p F" by (simp add: missing_def a u split: option.split)
qed

lemma lookup_versions_skip:
  assumes "key_ok k" and "sorted_wrt (\<lambda>a b. number a > number b) (us @ v # vs)"
    and "\<forall>u \<in> set us. missing E (cr_config c) (version_path dir k u) (cr_disk c)"
  shows "\<exists>F. lookup_versions E r k dir (us @ v # vs) c = lookup_versions E r k dir (v # vs) (c\<lparr>cr_disk := F\<rparr>)
     \<and> cache_files F (version_path dir k v) = cache_files (cr_disk c) (version_path dir k v)
     \<and> known_metadata F (version_path dir k v) = known_metadata (cr_disk c) (version_path dir k v)"
  using assms(2,3)
proof (induction us arbitrary: c)
  case Nil
  show ?case by (rule exI[of _ "cr_disk c"]) simp
next
  case (Cons u us)
  obtain F where l: "lookup_file E (cr_config c) dir (cache_path k u) (cr_disk c) = (Ret (Inl NotFound), F)"
    using lookup_file_missing[of E "cr_config c" dir "cache_path k u" "cr_disk c"] Cons.prems(2)
    by (cases "lookup_file E (cr_config c) dir (cache_path k u) (cr_disk c)") (auto simp: version_path_def)
  have s: "same_outside {version_path dir k u} (cr_disk c) F"
    using lookup_file_frame[of dir "cache_path k u" "{version_path dir k u}" "cr_disk c" E "cr_config c"] l
    by (simp add: version_path_def)
  have n: "number w \<noteq> number u" if "w \<in> set (us @ v # vs)" for w
  proof -
    have "number w < number u" using Cons.prems(1) that unfolding append_Cons sorted_wrt.simps by blast
    then show ?thesis by simp
  qed
  note k = same_file[OF s version_path_neq(1)[OF assms(1) n] version_path_neq(2)[OF assms(1) n]]
  have "\<forall>w \<in> set us. missing E (cr_config (c\<lparr>cr_disk := F\<rparr>)) (version_path dir k w) (cr_disk (c\<lparr>cr_disk := F\<rparr>))"
    using Cons.prems(2) k(4) by simp
  moreover have "sorted_wrt (\<lambda>a b. number a > number b) (us @ v # vs)"
    using Cons.prems(1) by simp
  ultimately obtain G where
    "lookup_versions E r k dir (us @ v # vs) (c\<lparr>cr_disk := F\<rparr>) = lookup_versions E r k dir (v # vs) (c\<lparr>cr_disk := G\<rparr>)"
    "cache_files G (version_path dir k v) = cache_files F (version_path dir k v)"
    "known_metadata G (version_path dir k v) = known_metadata F (version_path dir k v)"
    using Cons.IH[of "c\<lparr>cr_disk := F\<rparr>"] by auto
  then show ?case using l k(1,2)[of v] by (intro exI[of _ G]) simp
qed

text \<open>
  Outdated versions bridge a software update: if no file of the current version or of the
  fallbacks tried before is usable, but one of fallback version \<open>v\<close> is, the request is answered
  from that file without computing anything, and a background refresh for the key is running
  afterwards unless the limit of refreshes is reached.
\<close>

theorem fallback_served_and_refreshed:
  assumes "memory_get E k c = None" and "cache_dir (cr_config c) = Some dir"
    and "key_ok k" and "versions_ok (req_versions r)" and "fallbacks (req_versions r) = us @ v # vs"
    and "\<forall>u \<in> set (current (req_versions r) # us). missing E (cr_config c) (version_path dir k u) (cr_disk c)"
    and "cache_files (cr_disk c) (version_path dir k v) = Some f"
    and "file_usable (durations E) (cr_config c) (clock E) (cr_disk c) (version_path dir k v) f"
    and "deadlines_ok (cr_config c) (clock E)"
  shows "fst (compute_memoized E r k c) = Ret (entry_and_then (load_item r)
       \<lparr>entry_metadata = known_metadata (cr_disk c) (version_path dir k v),
        entry_contents = cache_contents_from_bytes (durations E) (bytes f)\<rparr>)
    \<and> (key_hash k \<in> cr_refreshes (snd (compute_memoized E r k c)) \<or> max_try_incr (cr_lazy c) = None)"
proof -
  let ?us = "current (req_versions r) # us"
  have tv: "current (req_versions r) # fallbacks (req_versions r) = ?us @ v # vs" using assms(5) by simp
  have sorted: "sorted_wrt (\<lambda>a b. number a > number b) (?us @ v # vs)"
    using tried_versions_distinct[OF assms(4)] tv by (simp only: tried_versions_def)
  obtain F where F: "lookup_versions E r k dir (?us @ v # vs) c = lookup_versions E r k dir (v # vs) (c\<lparr>cr_disk := F\<rparr>)"
    "cache_files F (version_path dir k v) = Some f"
    "known_metadata F (version_path dir k v) = known_metadata (cr_disk c) (version_path dir k v)"
    using lookup_versions_skip[OF assms(3) sorted assms(6)] assms(7) by auto
  have u: "file_usable (durations E) (cr_config c) (clock E) F (version_path dir k v) f"
    using assms(8) by (simp add: file_usable_def creation_time_def F(3) cong: sum.case_cong cache_error.case_cong)
  obtain d b where h: "fst (lookup_file E (cr_config c) dir (cache_path k v) F) =
     Ret (Inr (\<lparr>deadline = d, item_entry = \<lparr>entry_metadata = known_metadata F (version_path dir k v),
        entry_contents = cache_contents_from_bytes (durations E) (bytes f)\<rparr>\<rparr>, b))"
    using lookup_file_hit[OF F(2)[unfolded version_path_def] u[unfolded version_path_def] assms(9)]
    unfolding version_path_def by blast
  have nc: "\<not> version_eq v (current (req_versions r))"
    using sorted by (simp add: version_eq_def)
  have l: "lookup_local_cache E r k c = (Ret (Some (item_and_then (load_item r) \<lparr>deadline = d,
       item_entry = \<lparr>entry_metadata = known_metadata F (version_path dir k v),
        entry_contents = cache_contents_from_bytes (durations E) (bytes f)\<rparr>\<rparr>)),
     spawn_refresh r k (c\<lparr>cr_disk := snd (lookup_file E (cr_config c) dir (cache_path k v) F)\<rparr>))"
    using h nc unfolding lookup_local_cache_def assms(2) tv option.case F(1) lookup_versions_Cons
    by (simp add: Let_def)
  show ?thesis
    by (simp add: compute_memoized_def assms(1) lookup_or_compute_def l item_and_then_def memory_insert_def
        spawn_refresh_def F(3) split: option.split)
qed

definition outdated_cacher :: "string cacher" where
  "outdated_cacher = demo_cacher\<lparr>cr_disk :=
     \<lparr>cache_files = [version_path ''/cache/objects'' (demo_key 1) (cv 1 V1) \<mapsto> \<lparr>bytes = ''ELF'', mtime = 0\<rparr>],
      meta_files = Map.empty\<rparr>\<rparr>"

theorem fallback_served_and_refreshed_witness:
  "fst (compute_memoized (demo_env (secs 60) ([], Inl NotFound)) demo_request (demo_key 1) outdated_cacher) =
     Ret (entry_and_then Inr \<lparr>entry_metadata = None, entry_contents = Inr ''ELF''\<rparr>)
   \<and> key_hash (demo_key 1) \<in>
       cr_refreshes (snd (compute_memoized (demo_env (secs 60) ([], Inl NotFound)) demo_request (demo_key 1) outdated_cacher))"
proof -
  let ?E = "demo_env (secs 60) ([], Inl NotFound)" and ?dir = "''/cache/objects''" and ?k = "demo_key 1"
  have m: "memory_get ?E ?k outdated_cacher = None"
    by (simp add: memory_get_def outdated_cacher_def demo_cacher_def)
  have d: "cache_dir (cr_config outdated_cacher) = Some ?dir" "deadlines_ok (cr_config outdated_cacher) (clock ?E)"
    using demo_dir demo_deadlines by (simp_all add: outdated_cacher_def demo_env_def)
  have v: "fallbacks (req_versions demo_request) = [] @ cv 1 V1 # []" "current (req_versions demo_request) = cv 2 V2"
    by (simp_all add: demo_request_def OBJECTS_CACHE_VERSIONS_def)
  have miss: "\<forall>u \<in> set (current (req_versions demo_request) # []).
      missing ?E (cr_config outdated_cacher) (version_path ?dir ?k u) (cr_disk outdated_cacher)"
    using version_path_neq(1)[OF demo_key_ok, of "cv 2 V2" "cv 1 V1" ?dir 1]
    by (simp add: v(2) missing_def outdated_cacher_def)
  have f: "cache_files (cr_disk outdated_cacher) (version_path ?dir ?k (cv 1 V1)) = Some \<lparr>bytes = ''ELF'', mtime = 0\<rparr>"
    "known_metadata (cr_disk outdated_cacher) (version_path ?dir ?k (cv 1 V1)) = None"
    by (simp_all add: outdated_cacher_def known_metadata_def)
  have u: "file_usable (durations ?E) (cr_config outdated_cacher) (clock ?E) (cr_disk outdated_cacher)
      (version_path ?dir ?k (cv 1 V1)) \<lparr>bytes = ''ELF'', mtime = 0\<rparr>"
    by (simp add: demo_env_def file_usable_def demo_positive outdated_cacher_def demo_cacher_def demo_cache_def
        cfg_max_unused_for_def default_downloaded_def secs_def)
  have l: "max_try_incr (cr_lazy outdated_cacher) \<noteq> None"
    by (simp add: max_try_incr_None) (simp add: outdated_cacher_def demo_cacher_def max_counter_new_def counter_new_def)
  have c: "cache_contents_from_bytes (durations ?E) (bytes \<lparr>bytes = ''ELF'', mtime = 0\<rparr>) = Inr ''ELF''"
    "load_item demo_request = Inr"
    by (simp_all add: demo_env_def demo_positive demo_request_def)
  from fallback_served_and_refreshed[OF m d(1) demo_key_ok demo_versions_ok v(1) miss f(1) u d(2)] l
  show ?thesis unfolding c f(2) by blast
qed

end
