(* ===== verification/Cleanup.thy ===== *)
theory Cleanup
  imports CacheFs "HOL-Library.AList"
begin

text \<open>
  \<open>caching/cleanup.rs\<close>: the cleanup job that removes expired cache files, their metadata and
  empty directories. The directory of a cache is a tree of named entries. The source walks the
  entries of a directory in parallel; the entries are independent of each other except that a
  file and its metadata file belong together, and the model walks them in listing order.
\<close>

section \<open>Directories\<close>

text \<open>
  A regular file carries what it parses to as a metadata file. Special files are neither regular
  files nor directories.
\<close>

datatype dir_node = RegFile fs_file "metadata option" | Directory "(string \<times> dir_node) list" | SpecialFile

type_synonym listing = "(string \<times> dir_node) list"

text \<open>A directory as the file system that \<open>check_expiry\<close> sees; paths are names in it.\<close>

definition dir_fs :: "listing \<Rightarrow> fs" where
  "dir_fs es = \<lparr>cache_files = (\<lambda>n. case map_of es n of Some (RegFile f _) \<Rightarrow> Some f | _ \<Rightarrow> None),
     meta_files = (\<lambda>n. case map_of es n of Some (RegFile _ md) \<Rightarrow> Some md | Some _ \<Rightarrow> Some None | None \<Rightarrow> None)\<rparr>"

definition remove_file :: "string \<Rightarrow> listing \<Rightarrow> listing" where
  "remove_file n es = (case map_of es n of
      Some (Directory _) \<Rightarrow> es | _ \<Rightarrow> AList.delete n es)"

definition path_extension :: "string \<Rightarrow> string option" where
  "path_extension n = (if n = ''..'' then None else
     (case before_last CHR ''.'' n of
        None \<Rightarrow> None
      | Some stem \<Rightarrow> if stem = [] then None else Some (drop (length stem + 1) n)))"

abbreviation METADATA_EXTENSION :: string where "METADATA_EXTENSION \<equiv> ''metadata''"

section \<open>Definitions\<close>

datatype cleanup_op = ReadDir | StatFile | StatMetadata | Unlink | UnlinkMetadata | RemoveDirAll

text \<open>One run: time, mode, and which file operations on which paths succeed.\<close>

record cleanup_env =
  cl_durations :: duration_text
  cl_cache :: cache
  cl_now :: nat
  dry_run :: bool
  cl_ok :: "cleanup_op \<Rightarrow> string \<Rightarrow> bool"

datatype cleanup_error = CleanupIo | NotAFile | NoCaching

definition try_cleanup_path :: "cleanup_env \<Rightarrow> string \<Rightarrow> string \<Rightarrow> listing \<Rightarrow> (cleanup_error + bool) \<times> listing" where
  "try_cleanup_path e dir n es =
     (let p = dir @ ''/'' @ n; mp = metadata_path n in
      if \<not> cl_ok e StatFile p then (Inl CleanupIo, es)
      else (case map_of es n of
        None \<Rightarrow> (Inr True, es)
      | Some (Directory _) \<Rightarrow> (Inl NotAFile, es)
      | Some SpecialFile \<Rightarrow> (Inl NotAFile, es)
      | Some (RegFile f _) \<Rightarrow>
          if \<not> cl_ok e StatMetadata p then (Inl CleanupIo, es)
          else
            let (res, F) = check_expiry (cl_durations e) (cl_cache e) (cl_now e) n (dir_fs es);
                es = (if meta_files F mp = None then remove_file mp es else es)
            in (case catch_not_found res of
                  Inl _ \<Rightarrow> (Inl CleanupIo, es)
                | Inr (Some _) \<Rightarrow> (Inr False, es)
                | Inr None \<Rightarrow>
                    if dry_run e then (Inr True, es)
                    else if \<not> cl_ok e Unlink p then (Inl CleanupIo, es)
                    else if \<not> cl_ok e UnlinkMetadata p then (Inl CleanupIo, remove_file n es)
                    else (Inr True, remove_file mp (remove_file n es)))))"

text \<open>
  \<open>cleanup_directory_recursive\<close>: the snapshot that is left to walk, the directory as it is now,
  and whether it is empty so far.
\<close>

fun cleanup_entries :: "cleanup_env \<Rightarrow> string \<Rightarrow> listing \<Rightarrow> listing \<Rightarrow> bool \<Rightarrow> (cleanup_error + bool) \<times> listing" where
  "cleanup_entries e dir [] es is_empty = (Inr is_empty, es)"
| "cleanup_entries e dir ((n, node) # rest) es is_empty =
     (if path_extension n = Some METADATA_EXTENSION then cleanup_entries e dir rest es is_empty
      else (case node of
        Directory sub \<Rightarrow>
          (case (if cl_ok e ReadDir (dir @ ''/'' @ n) then cleanup_entries e (dir @ ''/'' @ n) sub sub True
                 else (Inl CleanupIo, sub)) of
             (Inl err, sub) \<Rightarrow> (Inl err, AList.update n (Directory sub) es)
           | (Inr dir_is_empty, sub) \<Rightarrow>
               (let es = AList.update n (Directory sub) es;
                    failed = (dir_is_empty \<and> \<not> dry_run e \<and> \<not> cl_ok e RemoveDirAll (dir @ ''/'' @ n));
                    es = (if dir_is_empty \<and> \<not> dry_run e \<and> \<not> failed then AList.delete n es else es)
                in cleanup_entries e dir rest es (is_empty \<and> dir_is_empty \<and> \<not> failed)))
      | _ \<Rightarrow>
          (case try_cleanup_path e dir n es of
             (Inl _, es) \<Rightarrow> cleanup_entries e dir rest es is_empty
           | (Inr file_removed, es) \<Rightarrow> cleanup_entries e dir rest es (is_empty \<and> file_removed))))"

definition cleanup_directory_recursive :: "cleanup_env \<Rightarrow> string \<Rightarrow> listing \<Rightarrow> (cleanup_error + bool) \<times> listing" where
  "cleanup_directory_recursive e dir es =
     (if cl_ok e ReadDir dir then cleanup_entries e dir es es True else (Inl CleanupIo, es))"

definition cleanup_cache :: "cleanup_env \<Rightarrow> listing \<Rightarrow> (cleanup_error + unit) \<times> listing" where
  "cleanup_cache e es =
     (case cache_dir (cl_cache e) of
        None \<Rightarrow> (Inl NoCaching, es)
      | Some dir \<Rightarrow> (case cleanup_directory_recursive e dir es of
            (Inl err, es) \<Rightarrow> (Inl err, es) | (Inr _, es) \<Rightarrow> (Inr (), es)))"

text \<open>One iteration of \<open>Caches::cleanup\<close>, in the given (shuffled) order of the caches.\<close>

definition cleanup_all :: "(cleanup_env \<times> listing) list \<Rightarrow> (cleanup_error + unit) \<times> listing list" where
  "cleanup_all cs =
     (let results = map (\<lambda>(e, es). cleanup_cache e es) cs;
          errors = List.map_filter (\<lambda>r. case fst r of Inl err \<Rightarrow> Some err | Inr _ \<Rightarrow> None) results
      in ((case errors of [] \<Rightarrow> Inr () | err # _ \<Rightarrow> Inl err), map snd results))"

section \<open>Facts about one file\<close>

text \<open>
  Names in a cache directory: hexadecimal names and \<open>v\<close>-directories without dots, and the
  metadata files next to the files.
\<close>

definition plain_name :: "string \<Rightarrow> bool" where
  "plain_name n \<longleftrightarrow> n \<noteq> [] \<and> CHR ''.'' \<notin> set n \<and> CHR ''/'' \<notin> set n"

definition name_ok :: "string \<Rightarrow> bool" where
  "name_ok n \<longleftrightarrow> plain_name n \<or> (\<exists>m. plain_name m \<and> n = m @ ''.metadata'')"

lemma plain_name_ne: "plain_name n \<Longrightarrow> n \<noteq> ''..'' \<and> n \<noteq> []"
  by (auto simp: plain_name_def)

lemma metadata_path_plain:
  assumes n: "plain_name n"
  shows "metadata_path n = n @ ''.metadata''"
proof -
  have t: "takeWhile (\<lambda>c. c \<noteq> CHR ''/'') (rev n) = rev n"
    using n by (intro takeWhile_eq_all_conv[THEN iffD2]) (auto simp: plain_name_def)
  have "split_file_name n = ([], n)" unfolding split_file_name_def t Let_def by simp
  moreover have "before_last CHR ''.'' n = None" using n by (simp add: plain_name_def before_last_def)
  ultimately show ?thesis using plain_name_ne[OF n] by (simp add: metadata_path_def)
qed

lemma extension_plain: "plain_name n \<Longrightarrow> path_extension n = None"
  by (simp add: path_extension_def plain_name_def before_last_def)

lemma extension_metadata:
  assumes n: "plain_name n"
  shows "path_extension (n @ ''.metadata'') = Some METADATA_EXTENSION"
proof -
  have "before_last CHR ''.'' (n @ CHR ''.'' # ''metadata'') = Some n"
    by (rule before_last_append) simp
  then show ?thesis using plain_name_ne[OF n] by (simp add: path_extension_def)
qed

lemma not_metadata: "name_ok n \<Longrightarrow> path_extension n \<noteq> Some METADATA_EXTENSION \<Longrightarrow> plain_name n"
  using extension_metadata by (auto simp: name_ok_def)

text \<open>What one file can see and touch: itself and its metadata file.\<close>

lemma plain_neq:
  assumes "plain_name n" "plain_name m" "n \<noteq> m"
  shows "n \<noteq> metadata_path m" "metadata_path n \<noteq> metadata_path m"
  using assms by (auto simp: metadata_path_plain) (auto simp: plain_name_def)

lemma map_of_remove_file: "map_of (remove_file n es) m = (if m = n \<and> (\<nexists>sub. map_of es n = Some (Directory sub)) then None else map_of es m)"
  by (auto simp: remove_file_def AList.delete_conv' split: option.split dir_node.split)

lemma known_metadata_dir: "known_metadata (dir_fs es) n =
    (case map_of es (metadata_path n) of Some (RegFile _ (Some md)) \<Rightarrow> Some md | _ \<Rightarrow> None)"
  by (auto simp: known_metadata_def dir_fs_def split: option.split dir_node.split)

lemma meta_files_dir: "meta_files (dir_fs es) q =
    (case map_of es q of Some (RegFile _ md) \<Rightarrow> Some md | Some _ \<Rightarrow> Some None | None \<Rightarrow> None)"
  by (simp add: dir_fs_def)

definition usable_in :: "cleanup_env \<Rightarrow> listing \<Rightarrow> string \<Rightarrow> fs_file \<Rightarrow> bool" where
  "usable_in e es n f = file_usable (cl_durations e) (cl_cache e) (cl_now e) (dir_fs es) n f"

lemma usable_in_cong:
  assumes "known_metadata (dir_fs es') n = known_metadata (dir_fs es) n"
  shows "usable_in e es' n f = usable_in e es n f"
proof -
  have c: "creation_time (dir_fs es') n f = creation_time (dir_fs es) n f"
    using assms by (simp add: creation_time_def)
  show ?thesis unfolding usable_in_def file_usable_def assms c by (rule refl)
qed

lemma check_expiry_usable:
  assumes "cache_files F n = Some f"
  shows "(\<exists>x. catch_not_found (fst (check_expiry D C now n F)) =
           (if file_usable D C now F n f then Inr (Some x) else Inr None))"
proof -
  let ?c = "compute_expiration_time C now (cache_contents_from_bytes D (bytes f)) (mtime f)
       (creation_time F n f) (metadata_is_public (known_metadata F n))"
  note u = compute_expiration_usable[of _ D f _ F n _ C now, OF refl refl refl]
  show ?thesis
  proof (cases ?c)
    case (Inl err)
    with u have "err = IoNotFound" "\<not> file_usable D C now F n f" by auto
    with Inl show ?thesis by (simp add: check_expiry_Some[OF assms] catch_not_found_def)
  next
    case (Inr x)
    with u(1) have "file_usable D C now F n f" by blast
    with Inr show ?thesis by (simp add: check_expiry_Some[OF assms] catch_not_found_def)
  qed
qed

text \<open>The directory after \<open>check_expiry\<close> looked at \<open>n\<close>: an unreadable metadata file is gone.\<close>

definition after_check :: "string \<Rightarrow> listing \<Rightarrow> listing" where
  "after_check n es = (if meta_files (dir_fs es) (metadata_path n) \<in> {None, Some None}
     then remove_file (metadata_path n) es else es)"

lemma try_cleanup_RegFile:
  assumes "map_of es n = Some (RegFile f x)" and "plain_name n"
  shows "try_cleanup_path e dir n es =
     (let p = dir @ ''/'' @ n in
      if \<not> cl_ok e StatFile p \<or> \<not> cl_ok e StatMetadata p then (Inl CleanupIo, es)
      else if usable_in e es n f then (Inr False, after_check n es)
      else if dry_run e then (Inr True, after_check n es)
      else if \<not> cl_ok e Unlink p then (Inl CleanupIo, after_check n es)
      else if \<not> cl_ok e UnlinkMetadata p then (Inl CleanupIo, remove_file n (after_check n es))
      else (Inr True, remove_file (metadata_path n) (remove_file n (after_check n es))))"
proof -
  have f: "cache_files (dir_fs es) n = Some f" using assms(1) by (simp add: dir_fs_def)
  obtain res F where ce: "check_expiry (cl_durations e) (cl_cache e) (cl_now e) n (dir_fs es) = (res, F)" by fastforce
  have F: "F = (if meta_files (dir_fs es) (metadata_path n) = Some None then remove_metadata n (dir_fs es) else dir_fs es)"
    using check_expiry_snd[of "cl_durations e" "cl_cache e" "cl_now e" n "dir_fs es"] ce f by simp
  have m: "(if meta_files F (metadata_path n) = None then remove_file (metadata_path n) es else es) = after_check n es"
    by (auto simp: F after_check_def remove_metadata_def)
  from check_expiry_usable[OF f, of "cl_durations e" "cl_cache e" "cl_now e"] ce
  obtain y where r: "catch_not_found res = (if usable_in e es n f then Inr (Some y) else Inr None)"
    by (auto simp: usable_in_def)
  show ?thesis
    by (simp add: try_cleanup_path_def assms(1) Let_def ce m r)
qed

lemma map_of_after_check:
  "plain_name n \<Longrightarrow> m \<noteq> metadata_path n \<Longrightarrow> map_of (after_check n es) m = map_of es m"
  by (simp add: after_check_def map_of_remove_file)

lemma try_cleanup_other:
  assumes "plain_name n" and "m \<noteq> n" and "m \<noteq> metadata_path n"
  shows "map_of (snd (try_cleanup_path e dir n es)) m = map_of es m"
proof (cases "map_of es n")
  case None
  then show ?thesis by (simp add: try_cleanup_path_def Let_def)
next
  case (Some node)
  show ?thesis
  proof (cases node)
    case (RegFile f x)
    with Some assms show ?thesis
      by (simp add: try_cleanup_RegFile Let_def map_of_remove_file map_of_after_check)
  qed (use Some in \<open>simp_all add: try_cleanup_path_def Let_def\<close>)
qed

lemma try_cleanup_usable:
  assumes "map_of es n = Some (RegFile f x)" and "plain_name n" and "usable_in e es n f"
  shows "map_of (snd (try_cleanup_path e dir n es)) n = Some (RegFile f x)"
    "known_metadata (dir_fs (snd (try_cleanup_path e dir n es))) n = known_metadata (dir_fs es) n"
    "fst (try_cleanup_path e dir n es) \<noteq> Inr True"
proof -
  have ne: "n \<noteq> metadata_path n" using assms(2) by (simp add: metadata_path_plain)
  have k: "known_metadata (dir_fs (after_check n es)) n = known_metadata (dir_fs es) n"
    by (auto simp: known_metadata_dir after_check_def map_of_remove_file meta_files_dir
        split: option.splits dir_node.splits)
  show "map_of (snd (try_cleanup_path e dir n es)) n = Some (RegFile f x)"
    "known_metadata (dir_fs (snd (try_cleanup_path e dir n es))) n = known_metadata (dir_fs es) n"
    "fst (try_cleanup_path e dir n es) \<noteq> Inr True"
    using assms ne k by (simp_all add: try_cleanup_RegFile Let_def map_of_after_check)
qed

lemma try_cleanup_expired:
  assumes "map_of es n = Some (RegFile f x)" and "plain_name n" and "\<not> usable_in e es n f"
    and "\<not> dry_run e" and "\<And>oper p. cl_ok e oper p"
  shows "map_of (snd (try_cleanup_path e dir n es)) n = None"
    "fst (try_cleanup_path e dir n es) = Inr True"
proof -
  have ne: "n \<noteq> metadata_path n" using assms(2) by (simp add: metadata_path_plain)
  show "map_of (snd (try_cleanup_path e dir n es)) n = None" "fst (try_cleanup_path e dir n es) = Inr True"
    using assms ne by (simp_all add: try_cleanup_RegFile Let_def map_of_after_check map_of_remove_file)
qed

section \<open>Trees\<close>

fun node_at :: "string list \<Rightarrow> listing \<Rightarrow> dir_node option" where
  "node_at [] es = None"
| "node_at [n] es = map_of es n"
| "node_at (n # m # ps) es = (case map_of es n of Some (Directory sub) \<Rightarrow> node_at (m # ps) sub | _ \<Rightarrow> None)"

text \<open>Whether the file at a path is usable, judged with the metadata in its directory.\<close>

fun usable_at :: "cleanup_env \<Rightarrow> string list \<Rightarrow> listing \<Rightarrow> fs_file \<Rightarrow> bool" where
  "usable_at e [] es f = False"
| "usable_at e [n] es f = usable_in e es n f"
| "usable_at e (n # m # ps) es f =
     (case map_of es n of Some (Directory sub) \<Rightarrow> usable_at e (m # ps) sub f | _ \<Rightarrow> False)"

fun tree_ok :: "listing \<Rightarrow> bool" where
  "tree_ok [] = True"
| "tree_ok ((n, node) # es) \<longleftrightarrow> name_ok n \<and> n \<notin> fst ` set es \<and>
     (case node of Directory sub \<Rightarrow> plain_name n \<and> tree_ok sub | _ \<Rightarrow> True) \<and> tree_ok es"

definition agree :: "listing \<Rightarrow> listing \<Rightarrow> bool" where
  "agree rest es \<longleftrightarrow> (\<forall>n node. (n, node) \<in> set rest \<longrightarrow> plain_name n \<longrightarrow> map_of es n = Some node)"

lemma tree_ok_distinct: "tree_ok es \<Longrightarrow> distinct (map fst es)"
  by (induction es rule: tree_ok.induct) auto

lemma agree_refl: "tree_ok es \<Longrightarrow> agree es es"
  by (simp add: agree_def tree_ok_distinct)

text \<open>What one step does to the directory: nothing outside \<open>n\<close> and its metadata file.\<close>

definition touches :: "string \<Rightarrow> listing \<Rightarrow> listing \<Rightarrow> bool" where
  "touches n es es' \<longleftrightarrow> (\<forall>m. m \<noteq> n \<longrightarrow> m \<noteq> metadata_path n \<longrightarrow> map_of es' m = map_of es m)"

lemma touches_plain:
  assumes "touches n es es'" and "plain_name n" and "plain_name m" and "m \<noteq> n"
  shows "map_of es' m = map_of es m \<and> known_metadata (dir_fs es') m = known_metadata (dir_fs es) m"
  using assms plain_neq[OF assms(3,2,4)] plain_neq[OF assms(2,3) not_sym[OF assms(4)]]
  by (simp add: touches_def known_metadata_dir)

lemma touches_try: "plain_name n \<Longrightarrow> touches n es (snd (try_cleanup_path e dir n es))"
  by (simp add: touches_def try_cleanup_other)

lemma touches_update: "touches n es (AList.update n v es)"
  by (simp add: touches_def update_conv')

lemma touches_update_delete: "touches n es (AList.delete n (AList.update n v es))"
  by (simp add: touches_def update_conv' AList.delete_conv')

text \<open>The step for the first entry of the snapshot, and the verdict it adds; \<open>None\<close> for an abort.\<close>

fun entry_step :: "cleanup_env \<Rightarrow> string \<Rightarrow> string \<Rightarrow> dir_node \<Rightarrow> listing \<Rightarrow> (cleanup_error + bool) \<times> listing" where
  "entry_step e dir n (Directory sub) es =
     (case (if cl_ok e ReadDir (dir @ ''/'' @ n) then cleanup_entries e (dir @ ''/'' @ n) sub sub True
            else (Inl CleanupIo, sub)) of
        (Inl err, sub) \<Rightarrow> (Inl err, AList.update n (Directory sub) es)
      | (Inr b, sub) \<Rightarrow>
          (if b \<and> \<not> dry_run e
           then if cl_ok e RemoveDirAll (dir @ ''/'' @ n) then (Inr True, AList.delete n (AList.update n (Directory sub) es))
                else (Inr False, AList.update n (Directory sub) es)
           else (Inr b, AList.update n (Directory sub) es)))"
| "entry_step e dir n node es =
     (case try_cleanup_path e dir n es of (Inl _, es) \<Rightarrow> (Inr True, es) | (Inr b, es) \<Rightarrow> (Inr b, es))"

lemma cleanup_entries_Cons:
  "cleanup_entries e dir ((n, node) # rest) es is_empty =
     (if path_extension n = Some METADATA_EXTENSION then cleanup_entries e dir rest es is_empty
      else (case fst (entry_step e dir n node es) of
              Inl err \<Rightarrow> (Inl err, snd (entry_step e dir n node es))
            | Inr b \<Rightarrow> cleanup_entries e dir rest (snd (entry_step e dir n node es)) (is_empty \<and> b)))"
  by (cases node) (auto simp: Let_def split: prod.split sum.split)

lemma entry_step_touches: "plain_name n \<Longrightarrow> touches n es (snd (entry_step e dir n node es))"
proof (cases node)
  case (Directory sub)
  then show ?thesis
    using touches_update[of n es] touches_update_delete[of n es] by (auto split: prod.split sum.split)
qed (use touches_try[of n es e dir] in \<open>auto split: prod.split sum.split\<close>)

lemma cleanup_entries_other:
  assumes "tree_ok rest" and "plain_name m" and "m \<notin> fst ` set rest"
  shows "map_of (snd (cleanup_entries e dir rest es b)) m = map_of es m
    \<and> known_metadata (dir_fs (snd (cleanup_entries e dir rest es b))) m = known_metadata (dir_fs es) m"
  using assms
proof (induction rest arbitrary: es b)
  case Nil
  then show ?case by simp
next
  case (Cons x rest)
  obtain n node where x: "x = (n, node)" by fastforce
  show ?case
  proof (cases "path_extension n = Some METADATA_EXTENSION")
    case True
    with Cons x show ?thesis by (simp add: cleanup_entries_Cons del: cleanup_entries.simps)
  next
    case False
    then have pn: "plain_name n" using Cons.prems(1) x not_metadata by auto
    have mn: "m \<noteq> n" using Cons.prems(3) x by auto
    note t = touches_plain[OF entry_step_touches[OF pn, where es = es and e = e and dir = dir and node = node]
        pn Cons.prems(2) mn]
    have rest: "tree_ok rest" "m \<notin> fst ` set rest" using Cons.prems x by auto
    show ?thesis
      using t Cons.IH[OF rest(1) Cons.prems(2) rest(2)] False x
      by (simp add: cleanup_entries_Cons del: cleanup_entries.simps split: sum.split)
  qed
qed

lemma cleanup_entries_not_empty:
  assumes "tree_ok rest" shows "fst (cleanup_entries e dir rest es False) \<noteq> Inr True"
  using assms
proof (induction rest arbitrary: es)
  case (Cons x rest)
  obtain n node where x: "x = (n, node)" by fastforce
  with Cons show ?case by (simp add: cleanup_entries_Cons del: cleanup_entries.simps split: sum.split)
qed simp

lemma agree_step:
  assumes "tree_ok ((n, node) # rest)" and "agree ((n, node) # rest) es" and "plain_name n"
  shows "agree rest (snd (entry_step e dir n node es))"
  unfolding agree_def
proof (intro allI impI)
  fix m nd assume m: "(m, nd) \<in> set rest" "plain_name m"
  then have "m \<noteq> n" using assms(1) by force
  from touches_plain[OF entry_step_touches[OF assms(3), where es = es and e = e and dir = dir and node = node]
      assms(3) m(2) this]
  show "map_of (snd (entry_step e dir n node es)) m = Some nd"
    using assms(2) m by (simp add: agree_def)
qed

section \<open>What cleanup keeps and removes\<close>

text \<open>
  A claim about one path after the step for its first entry carries over the rest of the
  directory.
\<close>

lemma rest_keeps_node:
  assumes "tree_ok rest" and "plain_name n" and "n \<notin> fst ` set rest"
  shows "node_at (n # ps) (snd (cleanup_entries e dir rest es b)) = node_at (n # ps) es"
  using cleanup_entries_other[OF assms, of e dir es b] by (cases ps) (simp_all split: option.split)

lemma other_step_node:
  assumes "plain_name n" and "plain_name m" and "m \<noteq> n"
  shows "node_at (m # ps) (snd (entry_step e dir n node es)) = node_at (m # ps) es
    \<and> usable_at e' (m # ps) (snd (entry_step e dir n node es)) f = usable_at e' (m # ps) es f"
proof -
  let ?es = "snd (entry_step e dir n node es)"
  have t: "map_of ?es m = map_of es m" "known_metadata (dir_fs ?es) m = known_metadata (dir_fs es) m"
    using touches_plain[OF entry_step_touches[OF assms(1), where es = es and e = e and dir = dir and node = node] assms]
    by blast+
  show ?thesis
  proof (cases ps)
    case Nil
    then show ?thesis using t usable_in_cong[OF t(2)] by simp
  next
    case (Cons q qs)
    then show ?thesis using t(1) by (simp split: option.split dir_node.split)
  qed
qed

lemma own_step_kept:
  assumes "plain_name n" and "map_of es n = Some (RegFile f x)" and "dry_run e \<or> usable_in e es n f"
  shows "map_of (snd (entry_step e dir n (RegFile f x) es)) n = Some (RegFile f x)"
proof -
  have "n \<noteq> metadata_path n" using assms(1) by (simp add: metadata_path_plain)
  with assms show ?thesis by (auto simp: try_cleanup_RegFile Let_def map_of_after_check)
qed

text \<open>
  The operations whose failure the source reports without counting the file as left: they inspect the
  file that the names \<open>ps\<close> lead to.
\<close>

definition inspected :: "cleanup_env \<Rightarrow> string \<Rightarrow> string list \<Rightarrow> bool" where
  "inspected e dir ps \<longleftrightarrow> (let p = foldl (\<lambda>d n. d @ ''/'' @ n) dir ps in cl_ok e StatFile p \<and> cl_ok e StatMetadata p)"

lemma own_step_not_empty:
  assumes "plain_name n" and "map_of es n = Some (RegFile f x)" and "usable_in e es n f" and "inspected e dir [n]"
  shows "fst (entry_step e dir n (RegFile f x) es) = Inr False"
  using assms by (simp add: try_cleanup_RegFile inspected_def Let_def)

definition all_ok :: "cleanup_env \<Rightarrow> bool" where
  "all_ok e \<longleftrightarrow> (\<forall>oper p. cl_ok e oper p)"

lemma own_step_removed:
  assumes "plain_name n" and "map_of es n = Some (RegFile f x)" and "\<not> usable_in e es n f"
    and "\<not> dry_run e" and "all_ok e"
  shows "map_of (snd (entry_step e dir n (RegFile f x) es)) n = None"
proof -
  have "\<And>oper p. cl_ok e oper p" using assms(5) by (simp add: all_ok_def)
  note t = try_cleanup_expired[OF assms(2,1,3,4) this, of dir]
  then show ?thesis by (cases "try_cleanup_path e dir n es") simp
qed

lemma no_abort:
  assumes ok: "all_ok e"
  shows "\<exists>b'. fst (cleanup_entries e dir rest es b) = Inr b'"
proof (induction rest arbitrary: dir es b rule: tree_ok.induct)
  case 1
  then show ?case by simp
next
  case (2 n node rest)
  have "\<exists>b'. fst (entry_step e dir n node es) = Inr b'"
  proof (cases node)
    case (Directory sub)
    obtain b' where "fst (cleanup_entries e (dir @ ''/'' @ n) sub sub True) = Inr b'"
      using "2.IH"(1)[OF Directory] by blast
    then show ?thesis
      using ok Directory by (cases "cleanup_entries e (dir @ ''/'' @ n) sub sub True") (auto simp: all_ok_def)
  qed (auto split: prod.split sum.split)
  then obtain b' where "fst (entry_step e dir n node es) = Inr b'" by blast
  then show ?case
    using "2.IH"(2) by (simp add: cleanup_entries_Cons del: cleanup_entries.simps entry_step.simps)
qed

lemma step_no_abort: "all_ok e \<Longrightarrow> \<exists>b. fst (entry_step e dir n node es) = Inr b"
proof (cases node)
  case (Directory sub)
  moreover assume "all_ok e"
  ultimately show ?thesis
    using no_abort[of e "dir @ ''/'' @ n" sub sub True]
    by (auto simp: all_ok_def split: prod.split sum.split)
qed (auto split: prod.split sum.split)

text \<open>
  The walk up to the entry of interest: entries with other names do not matter, so it is enough
  to look at the walk that starts with it.
\<close>

lemma walk_to_entry:
  assumes "tree_ok rest" and "agree rest es" and "(n0, node0) \<in> set rest" and "plain_name n0"
    and start: "\<And>rest' es' b'. tree_ok ((n0, node0) # rest') \<Longrightarrow> agree ((n0, node0) # rest') es' \<Longrightarrow>
        \<forall>qs. node_at (n0 # qs) es' = node_at (n0 # qs) es \<Longrightarrow>
        \<forall>qs f. usable_at e (n0 # qs) es' f = usable_at e (n0 # qs) es f \<Longrightarrow>
        P (cleanup_entries e dir ((n0, node0) # rest') es' b')"
    and abort: "\<And>err es'. \<not> all_ok e \<Longrightarrow> \<forall>qs. node_at (n0 # qs) es' = node_at (n0 # qs) es \<Longrightarrow> P (Inl err, es')"
  shows "P (cleanup_entries e dir rest es b)"
  using assms
proof (induction rest arbitrary: es b)
  case Nil
  then show ?case by simp
next
  case (Cons y rest)
  obtain n node where y: "y = (n, node)" by fastforce
  show ?case
  proof (cases "n = n0")
    case True
    then have "node = node0" using Cons.prems(1,3) y by force
    then show ?thesis using Cons.prems(5)[of rest es b] Cons.prems(1,2) y True by simp
  next
    case other: False
    then have rest: "tree_ok rest" "(n0, node0) \<in> set rest" using Cons.prems(1,3) y by auto
    show ?thesis
    proof (cases "path_extension n = Some METADATA_EXTENSION")
      case True
      have ag: "agree rest es" using Cons.prems(2) by (simp add: agree_def y)
      have "cleanup_entries e dir (y # rest) es b = cleanup_entries e dir rest es b"
        by (simp add: y True)
      moreover have "P (cleanup_entries e dir rest es b)"
        by (rule Cons.IH[OF rest(1) ag rest(2) Cons.prems(4)])
          (rule Cons.prems(5), assumption+, rule Cons.prems(6), assumption+)
      ultimately show ?thesis by (simp only:)
    next
      case False
      then have pn: "plain_name n" using Cons.prems(1) y not_metadata by auto
      let ?st = "entry_step e dir n node es"
      have keep: "node_at (n0 # qs) (snd ?st) = node_at (n0 # qs) es"
        "usable_at e (n0 # qs) (snd ?st) f = usable_at e (n0 # qs) es f" for qs f
        using other_step_node[OF pn Cons.prems(4) not_sym[OF other]] by blast+
      have ag: "agree rest (snd ?st)"
        using agree_step[OF Cons.prems(1,2)[unfolded y] pn] .
      show ?thesis
      proof (cases "fst ?st")
        case (Inl err)
        then have "\<not> all_ok e" using step_no_abort[of e dir n node es] by auto
        moreover have "cleanup_entries e dir (y # rest) es b = (Inl err, snd ?st)"
          by (simp add: y cleanup_entries_Cons False Inl del: cleanup_entries.simps entry_step.simps)
        moreover have "P (Inl err, snd ?st)"
          by (rule Cons.prems(6)) (use calculation keep(1) in blast)+
        ultimately show ?thesis by (simp only:)
      next
        case (Inr b')
        have "P (cleanup_entries e dir rest (snd ?st) (b \<and> b'))"
          by (rule Cons.IH[OF rest(1) ag rest(2) Cons.prems(4)])
            (unfold keep, rule Cons.prems(5), assumption+, rule Cons.prems(6), assumption+)
        moreover have "cleanup_entries e dir (y # rest) es b = cleanup_entries e dir rest (snd ?st) (b \<and> b')"
          by (simp add: y cleanup_entries_Cons False Inr del: cleanup_entries.simps entry_step.simps)
        ultimately show ?thesis by (simp only:)
      qed
    qed
  qed
qed

lemma node_at_head: "node_at (n # ps) es = Some nd \<Longrightarrow> \<exists>node. map_of es n = Some node \<and> (n, node) \<in> set es"
  by (cases ps) (auto dest: map_of_SomeD split: option.splits)

lemma start_walk:
  assumes "plain_name n" and "tree_ok ((n, node) # rest)"
    and "Q (fst (entry_step e dir n node es)) (snd (entry_step e dir n node es))"
    and "\<And>err es'. Q (Inl err) es' \<Longrightarrow> P (Inl err, es')"
    and "\<And>b' es' r. Q (Inr b') es' \<Longrightarrow> \<forall>qs. node_at (n # qs) (snd r) = node_at (n # qs) es' \<Longrightarrow>
         \<not> b' \<longrightarrow> fst r \<noteq> Inr True \<Longrightarrow> P r"
  shows "P (cleanup_entries e dir ((n, node) # rest) es b)"
proof (cases "fst (entry_step e dir n node es)")
  case (Inl err)
  then have "cleanup_entries e dir ((n, node) # rest) es b = (Inl err, snd (entry_step e dir n node es))"
    by (simp add: cleanup_entries_Cons extension_plain[OF assms(1)] del: cleanup_entries.simps entry_step.simps)
  moreover have "P (Inl err, snd (entry_step e dir n node es))"
    using assms(3) Inl by (intro assms(4)) simp
  ultimately show ?thesis by (simp only:)
next
  case (Inr b')
  let ?es = "snd (entry_step e dir n node es)"
  let ?r = "cleanup_entries e dir rest ?es (b \<and> b')"
  have "cleanup_entries e dir ((n, node) # rest) es b = ?r"
    by (simp add: cleanup_entries_Cons extension_plain[OF assms(1)] Inr del: cleanup_entries.simps entry_step.simps)
  moreover have "P ?r"
  proof (rule assms(5))
    show "Q (Inr b') ?es" using assms(3) Inr by simp
    show "\<forall>qs. node_at (n # qs) (snd ?r) = node_at (n # qs) ?es"
      using rest_keeps_node[of rest n] assms(1,2) by simp
    show "\<not> b' \<longrightarrow> fst ?r \<noteq> Inr True"
      using cleanup_entries_not_empty[of rest e dir ?es] assms(2) by auto
  qed
  ultimately show ?thesis by (simp only:)
qed

lemma cleanup_keeps:
  "tree_ok rest \<Longrightarrow> agree rest es \<Longrightarrow> list_all plain_name (n0 # ps) \<Longrightarrow> (n0, node0) \<in> set rest \<Longrightarrow>
    node_at (n0 # ps) es = Some (RegFile f x) \<Longrightarrow> dry_run e \<or> usable_at e (n0 # ps) es f \<Longrightarrow> inspected e dir (n0 # ps) \<Longrightarrow>
    node_at (n0 # ps) (snd (cleanup_entries e dir rest es b)) = Some (RegFile f x)
    \<and> (usable_at e (n0 # ps) es f \<longrightarrow> fst (cleanup_entries e dir rest es b) \<noteq> Inr True)"
proof (induction ps arbitrary: n0 node0 rest es dir b)
  case Nil
  let ?P = "\<lambda>r. node_at [n0] (snd r) = Some (RegFile f x) \<and> (usable_at e [n0] es f \<longrightarrow> fst r \<noteq> Inr True)"
  have pn: "plain_name n0" using Nil.prems(3) by simp
  show ?case
  proof (rule walk_to_entry[OF Nil.prems(1,2,4) pn, where P = ?P])
    fix rest' es' b'
    assume t: "tree_ok ((n0, node0) # rest')" "agree ((n0, node0) # rest') es'"
      and same: "\<forall>qs. node_at (n0 # qs) es' = node_at (n0 # qs) es"
        "\<forall>qs f. usable_at e (n0 # qs) es' f = usable_at e (n0 # qs) es f"
    have m: "map_of es' n0 = Some (RegFile f x)" using same(1)[rule_format, of "[]"] Nil.prems(5) by simp
    then have nd: "node0 = RegFile f x" using t(2) pn by (simp add: agree_def)
    have u: "usable_in e es' n0 f = usable_at e [n0] es f" using same(2)[rule_format, of "[]"] by simp
    have k: "dry_run e \<or> usable_in e es' n0 f" using Nil.prems(6) u by simp
    let ?Q = "\<lambda>r es2. map_of es2 n0 = Some (RegFile f x) \<and> (usable_in e es' n0 f \<longrightarrow> r = Inr False)"
    show "?P (cleanup_entries e dir ((n0, node0) # rest') es' b')"
    proof (rule start_walk[OF pn t(1), where P = ?P and Q = ?Q])
      show "?Q (fst (entry_step e dir n0 node0 es')) (snd (entry_step e dir n0 node0 es'))"
        unfolding nd using own_step_kept[OF pn m k] own_step_not_empty[OF pn m _ Nil.prems(7)] by blast
      show "?P (Inl err, es2)" if "?Q (Inl err) es2" for err es2 using that u by simp
      show "?P r" if "?Q (Inr b2) es2" "\<forall>qs. node_at (n0 # qs) (snd r) = node_at (n0 # qs) es2"
        "\<not> b2 \<longrightarrow> fst r \<noteq> Inr True" for b2 es2 r
        using that(1,3) that(2)[rule_format, of "[]"] u by auto
    qed
  next
    show "?P (Inl err, es')" if "\<forall>qs. node_at (n0 # qs) es' = node_at (n0 # qs) es" for err es'
      using that[rule_format, of "[]"] Nil.prems(5) by simp
  qed
next
  case (Cons m qs)
  let ?ps = "n0 # m # qs"
  let ?P = "\<lambda>r. node_at ?ps (snd r) = Some (RegFile f x) \<and> (usable_at e ?ps es f \<longrightarrow> fst r \<noteq> Inr True)"
  have pn: "plain_name n0" using Cons.prems(3) by simp
  show ?case
  proof (rule walk_to_entry[OF Cons.prems(1,2,4) pn, where P = ?P])
    fix rest' es' b'
    assume t: "tree_ok ((n0, node0) # rest')" "agree ((n0, node0) # rest') es'"
      and same: "\<forall>qs. node_at (n0 # qs) es' = node_at (n0 # qs) es"
        "\<forall>qs f. usable_at e (n0 # qs) es' f = usable_at e (n0 # qs) es f"
    have m0: "map_of es' n0 = Some node0" using t(2) pn by (simp add: agree_def)
    have nd: "node_at ?ps es' = Some (RegFile f x)" using same(1)[rule_format, of "m # qs"] Cons.prems(5) by (simp only:)
    then obtain sub where sub: "node0 = Directory sub" "node_at (m # qs) sub = Some (RegFile f x)"
      using m0 by (auto split: dir_node.splits)
    have u: "usable_at e (m # qs) sub f = usable_at e ?ps es f"
      using same(2)[rule_format, of "m # qs" f] m0 sub(1) by simp
    have ts: "tree_ok sub" using t(1) sub(1) by simp
    obtain node1 where "(m, node1) \<in> set sub" using node_at_head[OF sub(2)] by blast
    note IH = Cons.IH[OF ts agree_refl[OF ts] _ this sub(2), of "dir @ ''/'' @ n0" True]
    let ?c = "cleanup_entries e (dir @ ''/'' @ n0) sub sub True"
    have c: "node_at (m # qs) (snd ?c) = Some (RegFile f x)" "usable_at e ?ps es f \<Longrightarrow> fst ?c \<noteq> Inr True"
      using IH Cons.prems(3,6,7) u by (auto simp: inspected_def)
    let ?Q = "\<lambda>r es2. node_at ?ps es2 = Some (RegFile f x) \<and> (usable_at e ?ps es f \<longrightarrow> r \<noteq> Inr True)"
    show "?P (cleanup_entries e dir ((n0, node0) # rest') es' b')"
    proof (rule start_walk[OF pn t(1), where P = ?P and Q = ?Q])
      show "?Q (fst (entry_step e dir n0 node0 es')) (snd (entry_step e dir n0 node0 es'))"
        unfolding sub(1) using c Cons.prems(6) sub(2)
        by (cases ?c) (auto simp: update_conv' split: sum.split)
      show "?P (Inl err, es2)" if "?Q (Inl err) es2" for err es2 using that by simp
      show "?P r" if "?Q (Inr b2) es2" "\<forall>qs. node_at (n0 # qs) (snd r) = node_at (n0 # qs) es2"
        "\<not> b2 \<longrightarrow> fst r \<noteq> Inr True" for b2 es2 r
        using that(1,3) that(2)[rule_format, of "m # qs"] by (metis sum.inject(2))
    qed
  next
    show "?P (Inl err, es')" if "\<forall>qs. node_at (n0 # qs) es' = node_at (n0 # qs) es" for err es'
      using that[rule_format, of "m # qs"] Cons.prems(5) by (simp only: snd_conv fst_conv) simp
  qed
qed

text \<open>Expired files are removed at every depth.\<close>

lemma cleanup_removes:
  assumes ok: "all_ok e" and dry: "\<not> dry_run e"
  shows "tree_ok rest \<Longrightarrow> agree rest es \<Longrightarrow> list_all plain_name (n0 # ps) \<Longrightarrow> (n0, node0) \<in> set rest \<Longrightarrow>
    node_at (n0 # ps) es = Some (RegFile f x) \<Longrightarrow> \<not> usable_at e (n0 # ps) es f \<Longrightarrow>
    node_at (n0 # ps) (snd (cleanup_entries e dir rest es b)) = None"
proof (induction ps arbitrary: n0 node0 rest es dir b)
  case Nil
  let ?P = "\<lambda>r. node_at [n0] (snd r) = None"
  have pn: "plain_name n0" using Nil.prems(3) by simp
  show ?case
  proof (rule walk_to_entry[OF Nil.prems(1,2,4) pn, where P = ?P])
    fix rest' es' b'
    assume t: "tree_ok ((n0, node0) # rest')" "agree ((n0, node0) # rest') es'"
      and same: "\<forall>qs. node_at (n0 # qs) es' = node_at (n0 # qs) es"
        "\<forall>qs f. usable_at e (n0 # qs) es' f = usable_at e (n0 # qs) es f"
    have m: "map_of es' n0 = Some (RegFile f x)" using same(1)[rule_format, of "[]"] Nil.prems(5) by simp
    then have nd: "node0 = RegFile f x" using t(2) pn by (simp add: agree_def)
    have u: "\<not> usable_in e es' n0 f" using same(2)[rule_format, of "[]"] Nil.prems(6) by simp
    let ?Q = "\<lambda>r es2. map_of es2 n0 = None"
    show "?P (cleanup_entries e dir ((n0, node0) # rest') es' b')"
    proof (rule start_walk[OF pn t(1), where P = ?P and Q = ?Q])
      show "?Q (fst (entry_step e dir n0 node0 es')) (snd (entry_step e dir n0 node0 es'))"
        unfolding nd by (rule own_step_removed[OF pn m u dry ok])
      show "?P r" if "?Q (Inr b2) es2" "\<forall>qs. node_at (n0 # qs) (snd r) = node_at (n0 # qs) es2" for b2 es2 r
        using that(1) that(2)[rule_format, of "[]"] by simp
    qed simp
  qed (use ok in simp)
next
  case (Cons m qs)
  let ?ps = "n0 # m # qs"
  let ?P = "\<lambda>r. node_at ?ps (snd r) = None"
  have pn: "plain_name n0" using Cons.prems(3) by simp
  show ?case
  proof (rule walk_to_entry[OF Cons.prems(1,2,4) pn, where P = ?P])
    fix rest' es' b'
    assume t: "tree_ok ((n0, node0) # rest')" "agree ((n0, node0) # rest') es'"
      and same: "\<forall>qs. node_at (n0 # qs) es' = node_at (n0 # qs) es"
        "\<forall>qs f. usable_at e (n0 # qs) es' f = usable_at e (n0 # qs) es f"
    have m0: "map_of es' n0 = Some node0" using t(2) pn by (simp add: agree_def)
    have nd: "node_at ?ps es' = Some (RegFile f x)" using same(1)[rule_format, of "m # qs"] Cons.prems(5) by (simp only:)
    then obtain sub where sub: "node0 = Directory sub" "node_at (m # qs) sub = Some (RegFile f x)"
      using m0 by (auto split: dir_node.splits)
    have u: "\<not> usable_at e (m # qs) sub f"
      using same(2)[rule_format, of "m # qs" f] m0 sub(1) Cons.prems(6) by simp
    have ts: "tree_ok sub" using t(1) sub(1) by simp
    obtain node1 where "(m, node1) \<in> set sub" using node_at_head[OF sub(2)] by blast
    note IH = Cons.IH[OF ts agree_refl[OF ts] _ this sub(2) u, of "dir @ ''/'' @ n0" True]
    let ?c = "cleanup_entries e (dir @ ''/'' @ n0) sub sub True"
    have c: "node_at (m # qs) (snd ?c) = None" using IH Cons.prems(3) by simp
    obtain bc where bc: "fst ?c = Inr bc" using no_abort[OF ok] by blast
    let ?Q = "\<lambda>r es2. node_at ?ps es2 = None"
    show "?P (cleanup_entries e dir ((n0, node0) # rest') es' b')"
    proof (rule start_walk[OF pn t(1), where P = ?P and Q = ?Q])
      show "?Q (fst (entry_step e dir n0 node0 es')) (snd (entry_step e dir n0 node0 es'))"
        unfolding sub(1) using c bc ok
        by (cases ?c) (auto simp: update_conv' AList.delete_conv' all_ok_def)
      show "?P r" if "?Q (Inr b2) es2" "\<forall>qs. node_at (n0 # qs) (snd r) = node_at (n0 # qs) es2" for b2 es2 r
        using that(1) that(2)[rule_format, of "m # qs"] by (simp only:)
    qed simp
  qed (use ok in simp)
qed

section \<open>Properties\<close>

text \<open>
  C5. Cleanup never removes what the cache would still serve: in a well-formed cache directory, a
  file at any depth that is usable by the rules of the cache (and, in a dry run, any file), and that the
  run could inspect, is still there afterwards, unchanged, whatever other operations of the run fail; and a
  directory that contains such a usable file is not reported empty. A file whose own inspection fails
  is not kept: its directory may be removed with it (\<open>uninspected_files_are_removed\<close>).
\<close>

theorem cleanup_keeps_usable_files:
  assumes "tree_ok es" and "list_all plain_name ps" and "node_at ps es = Some (RegFile f md)"
    and "dry_run e \<or> usable_at e ps es f" and "inspected e dir ps"
  shows "node_at ps (snd (cleanup_directory_recursive e dir es)) = Some (RegFile f md)
    \<and> (usable_at e ps es f \<longrightarrow> fst (cleanup_directory_recursive e dir es) \<noteq> Inr True)"
proof (cases ps)
  case Nil
  with assms(3) show ?thesis by simp
next
  case (Cons n qs)
  obtain node where "(n, node) \<in> set es" using node_at_head assms(3) Cons by blast
  then show ?thesis
    using cleanup_keeps[OF assms(1) agree_refl[OF assms(1)], of n qs node f md e dir True] assms Cons
    by (simp add: cleanup_directory_recursive_def)
qed

text \<open>
  Cleanup removes everything expired: in a well-formed cache directory, a run that is not dry
  and whose file operations succeed completes without an error, and no file that the cache would
  no longer serve is left at any depth.
\<close>

theorem cleanup_removes_expired_files:
  assumes "tree_ok es" and "list_all plain_name ps" and "node_at ps es = Some (RegFile f md)"
    and "\<not> usable_at e ps es f" and "\<not> dry_run e" and "all_ok e"
  shows "node_at ps (snd (cleanup_directory_recursive e dir es)) = None
    \<and> (\<exists>b. fst (cleanup_directory_recursive e dir es) = Inr b)"
proof (cases ps)
  case Nil
  with assms(3) show ?thesis by simp
next
  case (Cons n qs)
  obtain node where "(n, node) \<in> set es" using node_at_head assms(3) Cons by blast
  then show ?thesis
    using cleanup_removes[OF assms(6,5,1) agree_refl[OF assms(1)], of n qs node f md dir True] assms Cons
      no_abort[OF assms(6)]
    by (simp add: cleanup_directory_recursive_def all_ok_def)
qed

definition demo_cleanup :: "nat \<Rightarrow> (cleanup_op \<Rightarrow> string \<Rightarrow> bool) \<Rightarrow> cleanup_env" where
  "demo_cleanup now ok = \<lparr>cl_durations = demo_durations, cl_cache = demo_cache, cl_now = now,
     dry_run = False, cl_ok = ok\<rparr>"

definition demo_tree :: listing where
  "demo_tree = [(''v2'', Directory [(''ab'', RegFile \<lparr>bytes = ''ELF'', mtime = 0\<rparr> None)])]"

lemma demo_tree_ok: "tree_ok demo_tree" "list_all plain_name [''v2'', ''ab'']"
  "node_at [''v2'', ''ab''] demo_tree = Some (RegFile \<lparr>bytes = ''ELF'', mtime = 0\<rparr> None)"
  by (simp_all add: demo_tree_def name_ok_def plain_name_def)

lemma demo_tree_usable: "usable_at (demo_cleanup now ok) [''v2'', ''ab''] demo_tree \<lparr>bytes = ''ELF'', mtime = 0\<rparr>
    \<longleftrightarrow> now \<le> secs (3600 * 24)"
  by (simp add: demo_tree_def usable_in_def demo_cleanup_def file_usable_def demo_positive demo_cache_def
      cfg_max_unused_for_def default_downloaded_def)

theorem cleanup_keeps_usable_files_witness:
  "node_at [''v2'', ''ab''] (snd (cleanup_directory_recursive (demo_cleanup 0 (\<lambda>oper p. oper \<noteq> Unlink \<and> p \<noteq> ''/c/v2/cd'')) ''/c'' demo_tree)) =
     Some (RegFile \<lparr>bytes = ''ELF'', mtime = 0\<rparr> None)"
proof -
  let ?e = "demo_cleanup 0 (\<lambda>oper p. oper \<noteq> Unlink \<and> p \<noteq> ''/c/v2/cd'')"
  have u: "dry_run ?e \<or> usable_at ?e [''v2'', ''ab''] demo_tree \<lparr>bytes = ''ELF'', mtime = 0\<rparr>"
    by (simp only: demo_tree_usable) simp
  have s: "inspected ?e ''/c'' [''v2'', ''ab'']" by (simp add: inspected_def demo_cleanup_def)
  from cleanup_keeps_usable_files[OF demo_tree_ok u s] show ?thesis by blast
qed

theorem cleanup_removes_expired_files_witness:
  "node_at [''v2'', ''ab''] (snd (cleanup_directory_recursive (demo_cleanup (secs 90000) (\<lambda>_ _. True)) ''/c'' demo_tree)) = None"
proof -
  let ?e = "demo_cleanup (secs 90000) (\<lambda>_ _. True)"
  have u: "\<not> usable_at ?e [''v2'', ''ab''] demo_tree \<lparr>bytes = ''ELF'', mtime = 0\<rparr>"
    by (simp only: demo_tree_usable) (simp add: secs_def)
  have s: "\<not> dry_run ?e" "all_ok ?e" by (simp_all add: all_ok_def demo_cleanup_def)
  from cleanup_removes_expired_files[OF demo_tree_ok u s] show ?thesis by blast
qed

text \<open>
  A failed inspection costs more than one file: an error while inspecting a file is logged
  but leaves the directory counted as empty, so if a directory holds only that file, the whole
  directory is removed with it, even though the file is not expired.
\<close>

theorem uninspected_files_are_removed:
  assumes "\<not> cl_ok e StatMetadata (dir @ ''/'' @ d @ ''/'' @ n)" and "cl_ok e ReadDir dir"
    and "cl_ok e ReadDir (dir @ ''/'' @ d)" and "cl_ok e RemoveDirAll (dir @ ''/'' @ d)" and "\<not> dry_run e"
    and "plain_name d" and "plain_name n"
  shows "cleanup_directory_recursive e dir [(d, Directory [(n, RegFile f md)])] = (Inr True, [])"
proof -
  have "try_cleanup_path e (dir @ ''/'' @ d) n [(n, RegFile f md)] = (Inl CleanupIo, [(n, RegFile f md)])"
    using assms(1) by (simp add: try_cleanup_path_def Let_def)
  then show ?thesis
    using assms by (simp add: cleanup_directory_recursive_def extension_plain)
qed

theorem uninspected_files_are_removed_witness:
  "cleanup_directory_recursive (demo_cleanup 0 (\<lambda>oper _. oper \<noteq> StatMetadata)) ''/c'' demo_tree = (Inr True, [])
   \<and> usable_at (demo_cleanup 0 (\<lambda>oper _. oper \<noteq> StatMetadata)) [''v2'', ''ab''] demo_tree \<lparr>bytes = ''ELF'', mtime = 0\<rparr>"
proof -
  let ?e = "demo_cleanup 0 (\<lambda>oper _. oper \<noteq> StatMetadata)"
  have h: "\<not> cl_ok ?e StatMetadata (''/c'' @ ''/'' @ ''v2'' @ ''/'' @ ''ab'')" "cl_ok ?e ReadDir ''/c''"
    "cl_ok ?e ReadDir (''/c'' @ ''/'' @ ''v2'')" "cl_ok ?e RemoveDirAll (''/c'' @ ''/'' @ ''v2'')" "\<not> dry_run ?e"
    by (simp_all add: demo_cleanup_def)
  have p: "plain_name ''v2''" "plain_name ''ab''" by (simp_all add: plain_name_def)
  show ?thesis
    using uninspected_files_are_removed[OF h p, of "\<lparr>bytes = ''ELF'', mtime = 0\<rparr>" None]
    by (simp only: demo_tree_usable flip: demo_tree_def) simp
qed

text \<open>Even a dry run removes a metadata file that does not parse, as a side effect of the check.\<close>

lemma dry_run_removes_corrupt_metadata:
  assumes "plain_name n" and "dry_run e" and "inspected e dir [n]"
  shows "snd (try_cleanup_path e dir n [(n, RegFile f md), (n @ ''.metadata'', RegFile g None)]) = [(n, RegFile f md)]"
  using assms
  by (simp add: try_cleanup_RegFile Let_def inspected_def after_check_def meta_files_dir metadata_path_plain remove_file_def)

end
