(* ===== verification/Partial.thy ===== *)
theory Partial
  imports CacheKeys
begin

text \<open>
  \<open>download/partial.rs\<close>: splitting a download into inclusive byte ranges, and the \<open>Content-Range\<close>
  header. \<open>u64\<close> values are naturals below \<open>2 ^ 64\<close>; where an addition may overflow, the result
  is a panic with overflow checks and wraps without (\<open>checks\<close>). Header values are ASCII.
\<close>

definition u64_max :: nat where
  "u64_max = 2 ^ 64 - 1"

definition add_u64 :: "bool \<Rightarrow> nat \<Rightarrow> nat \<Rightarrow> nat outcome" where
  "add_u64 checks a b =
     (if a + b \<le> u64_max then Ret (a + b) else if checks then Panic else Ret (a + b - 2 ^ 64))"

section \<open>Definitions\<close>

record byte_range =
  range_start :: nat
  range_end :: nat

record bytes_content_range =
  cr_start :: nat
  cr_end :: nat
  cr_total :: nat

abbreviation MAX_PARTIAL_RANGES :: nat where "MAX_PARTIAL_RANGES \<equiv> 4"

definition PARTIAL_SPLIT_SIZE :: nat where
  "PARTIAL_SPLIT_SIZE = 128 * 1024 * 1024"

definition initial_range :: byte_range where
  "initial_range = \<lparr>range_start = 0, range_end = PARTIAL_SPLIT_SIZE - 1\<rparr>"

definition byte_range_size :: "bool \<Rightarrow> byte_range \<Rightarrow> nat outcome" where
  "byte_range_size checks r =
     (if range_start r > range_end r then Ret 0 else add_u64 checks (range_end r - range_start r) 1)"

definition div_ceil :: "nat \<Rightarrow> nat \<Rightarrow> nat" where
  "div_ceil a b = (if a mod b = 0 then a div b else a div b + 1)"

text \<open>The arithmetic on the ranges stays below the total size; only \<open>r.end + 1\<close> may overflow.\<close>

definition split_ranges :: "byte_range \<Rightarrow> nat \<Rightarrow> byte_range list" where
  "split_ranges remainder n =
     (let ranges = min (div_ceil n PARTIAL_SPLIT_SIZE) MAX_PARTIAL_RANGES;
          len = n div ranges
      in map (\<lambda>i. let is_last = (i + 1 = ranges);
                      start = range_start remainder + i * len;
                      e = (if is_last then range_end remainder else start + len)
                  in \<lparr>range_start = start, range_end = e\<rparr>) [0..<ranges])"

definition partial_split :: "bool \<Rightarrow> bytes_content_range \<Rightarrow> byte_range list outcome" where
  "partial_split checks r =
     (if cr_total r = 0 then Ret []
      else bind_out (add_u64 checks (cr_end r) 1) (\<lambda>start.
        let remainder = \<lparr>range_start = start, range_end = cr_total r - 1\<rparr>
        in bind_out (byte_range_size checks remainder) (\<lambda>n.
             if n = 0 then Ret [] else Ret (split_ranges remainder n))))"

definition byte_range_display :: "byte_range \<Rightarrow> string" where
  "byte_range_display r = ''bytes='' @ dec_nat (range_start r) @ ''-'' @ dec_nat (range_end r)"

definition is_full_range :: "bytes_content_range \<Rightarrow> bool" where
  "is_full_range r \<longleftrightarrow> cr_start r = 0 \<and> cr_end r + 1 \<le> u64_max \<and> cr_end r + 1 = cr_total r"

definition content_range_range :: "bytes_content_range \<Rightarrow> byte_range" where
  "content_range_range r = \<lparr>range_start = cr_start r, range_end = cr_end r\<rparr>"

definition content_range_display :: "bytes_content_range \<Rightarrow> string" where
  "content_range_display r = ''bytes '' @ dec_nat (cr_start r) @ ''-'' @ dec_nat (cr_end r) @ ''/'' @ dec_nat (cr_total r)"

datatype invalid_bytes_range = MalformedRange | NotBytes | RangeNotSatisfiable | UnknownLength

text \<open>\<open>str::trim\<close> on ASCII text.\<close>

definition is_space :: "char \<Rightarrow> bool" where
  "is_space c \<longleftrightarrow> byte_of c = 32 \<or> (9 \<le> byte_of c \<and> byte_of c \<le> 13)"

definition str_trim :: "string \<Rightarrow> string" where
  "str_trim s = rev (dropWhile is_space (rev (dropWhile is_space s)))"

text \<open>\<open>u64::from_str\<close>: an optional plus sign and at least one digit, within the range.\<close>

definition is_digit :: "char \<Rightarrow> bool" where
  "is_digit c \<longleftrightarrow> 48 \<le> byte_of c \<and> byte_of c \<le> 57"

definition digits_value :: "string \<Rightarrow> nat" where
  "digits_value s = foldl (\<lambda>n c. n * 10 + (byte_of c - 48)) 0 s"

definition parse_u64 :: "string \<Rightarrow> nat option" where
  "parse_u64 s =
     (let d = (case s of c # t \<Rightarrow> if c = CHR ''+'' then t else s | [] \<Rightarrow> [])
      in if d \<noteq> [] \<and> list_all is_digit d \<and> digits_value d \<le> u64_max then Some (digits_value d) else None)"

definition content_range_from_str :: "string \<Rightarrow> invalid_bytes_range + bytes_content_range" where
  "content_range_from_str s =
     (case split_once CHR '' '' (str_trim s) of
        None \<Rightarrow> Inl NotBytes
      | Some (u, s) \<Rightarrow> if u \<noteq> ''bytes'' then Inl NotBytes else
     (case split_once CHR ''/'' (str_trim s) of
        None \<Rightarrow> Inl MalformedRange
      | Some (rng, total_size) \<Rightarrow> if str_trim rng = ''*'' then Inl RangeNotSatisfiable else
     (case split_once CHR ''-'' rng of
        None \<Rightarrow> Inl MalformedRange
      | Some (start, e) \<Rightarrow>
     (case parse_u64 (str_trim start) of
        None \<Rightarrow> Inl MalformedRange
      | Some start \<Rightarrow>
     (case parse_u64 (str_trim e) of
        None \<Rightarrow> Inl MalformedRange
      | Some e \<Rightarrow> if e < start then Inl MalformedRange else
     (if str_trim total_size = ''*'' then Inl UnknownLength else
      case parse_u64 (str_trim total_size) of
        None \<Rightarrow> Inl MalformedRange
      | Some tot \<Rightarrow> Inr \<lparr>cr_start = start, cr_end = e, cr_total = tot\<rparr>))))))"

section \<open>Numbers in headers\<close>

lemma dec_nat_is_digit: "c \<in> set (dec_nat n) \<Longrightarrow> is_digit c"
  using dec_nat_digits by (simp add: is_digit_def)

lemma digits_value_snoc: "digits_value (s @ [c]) = digits_value s * 10 + (byte_of c - 48)"
  by (simp add: digits_value_def)

lemma digits_value_dec_nat: "digits_value (dec_nat n) = n"
proof (induction n rule: dec_nat.induct)
  case (1 n)
  show ?case
  proof (cases "n < 10")
    case True
    then show ?thesis by (subst dec_nat.simps) (simp add: digits_value_def)
  next
    case False
    then have "dec_nat n = dec_nat (n div 10) @ [char_of (48 + n mod 10)]" by (subst dec_nat.simps) simp
    then show ?thesis using 1[OF False] by (simp add: digits_value_snoc)
  qed
qed

lemma parse_u64_dec_nat: "n \<le> u64_max \<Longrightarrow> parse_u64 (dec_nat n) = Some n"
proof -
  assume n: "n \<le> u64_max"
  have all: "list_all is_digit (dec_nat n)" by (simp add: list_all_iff dec_nat_is_digit)
  obtain c t where c: "dec_nat n = c # t" using dec_nat_nonempty by (metis list.exhaust)
  have "c \<noteq> CHR ''+''" using all c by (auto simp: is_digit_def byte_of_def)
  then have "(case dec_nat n of c # t \<Rightarrow> if c = CHR ''+'' then t else dec_nat n | [] \<Rightarrow> []) = dec_nat n"
    by (simp add: c)
  then show ?thesis using all n by (simp add: parse_u64_def digits_value_dec_nat)
qed

lemma digit_not_space: "is_digit c \<Longrightarrow> \<not> is_space c"
  by (auto simp: is_digit_def is_space_def)

text \<open>Trimming leaves text alone that starts and ends with other characters.\<close>

lemma str_trim_id:
  assumes "s \<noteq> []" and "\<not> is_space (hd s)" and "\<not> is_space (last s)"
  shows "str_trim s = s"
proof -
  have "dropWhile is_space s = s" using assms(1,2) by (cases s) simp_all
  moreover have "dropWhile is_space (rev s) = rev s"
    using assms(1,3) by (cases "rev s") (auto simp: hd_rev[symmetric])
  ultimately show ?thesis by (simp add: str_trim_def)
qed

lemma dec_nat_ends: "\<not> is_space (hd (dec_nat n))" "\<not> is_space (last (dec_nat n))"
  using dec_nat_is_digit[of _ n] hd_in_set[of "dec_nat n"] last_in_set[of "dec_nat n"]
  by (auto intro!: digit_not_space)

lemma str_trim_dec_nat: "str_trim (dec_nat n) = dec_nat n"
  by (rule str_trim_id) (simp_all add: dec_nat_ends)

lemma dec_nat_no_char: "\<not> is_digit c \<Longrightarrow> c \<notin> set (dec_nat n)"
  using dec_nat_is_digit by blast

section \<open>Splitting\<close>

lemma div_ceil_bounds: "0 < b \<Longrightarrow> 0 < a \<Longrightarrow> 1 \<le> div_ceil a b \<and> div_ceil a b \<le> a \<and> a \<le> div_ceil a b * b
    \<and> (div_ceil a b - 1) * b < a"
proof -
  assume b: "0 < b" and a: "0 < a"
  have e: "a = a div b * b + a mod b" by simp
  show ?thesis
  proof (cases "a mod b = 0")
    case True
    then have "div_ceil a b * b = a" by (auto simp: div_ceil_def)
    moreover from this a have "1 \<le> div_ceil a b" by (cases "div_ceil a b") auto
    moreover have "div_ceil a b \<le> div_ceil a b * b" using b by simp
    ultimately show ?thesis using a b by (simp add: diff_mult_distrib)
  next
    case False
    then have d: "div_ceil a b = a div b + 1" by (simp add: div_ceil_def)
    have "a div b \<le> a div b * b" using b by simp
    moreover have "a mod b < b" using b by simp
    moreover have "(a div b + 1) * b = a div b * b + b" by simp
    ultimately show ?thesis unfolding d using False e by (simp only: add_diff_cancel_right') linarith
  qed
qed

text \<open>The number of ranges and the length of a range.\<close>

definition range_count :: "nat \<Rightarrow> nat" where
  "range_count n = min (div_ceil n PARTIAL_SPLIT_SIZE) MAX_PARTIAL_RANGES"

lemma range_count_bounds: "0 < n \<Longrightarrow> 1 \<le> range_count n \<and> range_count n \<le> 4 \<and> range_count n \<le> n"
  using div_ceil_bounds[of PARTIAL_SPLIT_SIZE n] by (auto simp: range_count_def PARTIAL_SPLIT_SIZE_def)

lemma split_ranges_nth:
  assumes "i < range_count n"
  shows "split_ranges rem n ! i = \<lparr>range_start = range_start rem + i * (n div range_count n),
     range_end = (if i + 1 = range_count n then range_end rem else range_start rem + (i + 1) * (n div range_count n))\<rparr>"
  using assms by (simp add: split_ranges_def range_count_def[symmetric] Let_def algebra_simps)

lemma split_ranges_length: "length (split_ranges rem n) = range_count n"
  by (simp add: split_ranges_def range_count_def[symmetric] Let_def)

lemma partial_split_Ret:
  assumes "cr_end r < cr_total r" and "cr_total r \<le> u64_max"
  shows "partial_split checks r = Ret (if cr_total r - 1 = cr_end r then []
     else split_ranges \<lparr>range_start = cr_end r + 1, range_end = cr_total r - 1\<rparr> (cr_total r - 1 - cr_end r))"
proof -
  have a: "add_u64 checks (cr_end r) 1 = Ret (cr_end r + 1)" using assms by (simp add: add_u64_def)
  show ?thesis
  proof (cases "cr_total r - 1 = cr_end r")
    case True
    then show ?thesis using assms a by (simp add: partial_split_def byte_range_size_def)
  next
    case False
    then have lt: "cr_end r + 1 \<le> cr_total r - 1" using assms(1) by simp
    have le: "cr_total r - 1 - cr_end r \<le> u64_max" using assms(2) by linarith
    have e: "cr_total r - 1 - (cr_end r + 1) + 1 = cr_total r - 1 - cr_end r" using lt by linarith
    then have "byte_range_size checks \<lparr>range_start = cr_end r + 1, range_end = cr_total r - 1\<rparr> =
        Ret (cr_total r - 1 - cr_end r)"
      using lt le by (simp add: byte_range_size_def add_u64_def)
    then show ?thesis using assms(1) a lt False by (auto simp: partial_split_def Let_def)
  qed
qed

definition range_bytes :: "byte_range \<Rightarrow> nat set" where
  "range_bytes r = {range_start r .. range_end r}"

lemma split_ranges_cover:
  fixes s :: nat
  assumes "0 < n"
  defines "rem \<equiv> \<lparr>range_start = s, range_end = s + n - 1\<rparr>"
  shows "(\<Union>x \<in> set (split_ranges rem n). range_bytes x) = {s ..< s + n}"
proof -
  define k where "k = range_count n"
  define len where "len = n div k"
  have k: "1 \<le> k" "k \<le> n" using range_count_bounds[OF assms(1)] by (auto simp: k_def)
  then have len: "1 \<le> len" by (simp add: len_def Suc_leI div_greater_zero_iff)
  have kl: "k * len \<le> n" by (simp add: len_def)
  have nth: "split_ranges rem n ! i = \<lparr>range_start = s + i * len,
      range_end = (if i + 1 = k then s + n - 1 else s + (i + 1) * len)\<rparr>" if "i < k" for i
    using split_ranges_nth[of i n rem] that by (simp add: rem_def k_def len_def)
  have le: "(i + 1) * len \<le> k * len" if "i < k" for i using that by (intro mult_le_mono1) simp
  have sub: "x \<in> {s ..< s + n}" if "i < k" "x \<in> range_bytes (split_ranges rem n ! i)" for i x
  proof (cases "i + 1 = k")
    case True
    then show ?thesis using that nth[OF that(1)] assms(1) by (auto simp: range_bytes_def)
  next
    case False
    then have "(i + 2) * len \<le> k * len" using that(1) by (intro mult_le_mono1) simp
    then have "(i + 1) * len + 1 \<le> n" using len kl by simp
    then show ?thesis using that nth[OF that(1)] False by (auto simp: range_bytes_def)
  qed
  have sup: "\<exists>i < k. x \<in> range_bytes (split_ranges rem n ! i)" if "x \<in> {s ..< s + n}" for x
  proof -
    define j where "j = (x - s) div len"
    have "x - s < len + (x - s) div len * len" using len by (intro dividend_less_div_times) simp
    then have j: "j * len \<le> x - s" "x - s < (j + 1) * len" by (simp_all add: j_def)
    show ?thesis
    proof (cases "j + 1 < k")
      case True
      then show ?thesis using j that nth[of j] by (intro exI[of _ j]) (auto simp: range_bytes_def)
    next
      case False
      then have "(k - 1) * len \<le> j * len" by (intro mult_le_mono1) simp
      then have "(k - 1) * len \<le> x - s" using j by linarith
      then show ?thesis using k that nth[of "k - 1"] by (intro exI[of _ "k - 1"]) (auto simp: range_bytes_def)
    qed
  qed
  have "(\<Union>x \<in> set (split_ranges rem n). range_bytes x) = (\<Union>i \<in> {i. i < k}. range_bytes (split_ranges rem n ! i))"
    by (auto simp: set_conv_nth split_ranges_length k_def)
  also have "\<dots> = {s ..< s + n}"
  proof (intro equalityI subsetI)
    show "x \<in> {s ..< s + n}" if "x \<in> (\<Union>i \<in> {i. i < k}. range_bytes (split_ranges rem n ! i))" for x
      using that sub by blast
    show "x \<in> (\<Union>i \<in> {i. i < k}. range_bytes (split_ranges rem n ! i))" if "x \<in> {s ..< s + n}" for x
      using sup[OF that] by blast
  qed
  finally show ?thesis .
qed

section \<open>Properties\<close>

text \<open>
  Splitting loses no byte: for a valid content range, the ranges requested for the rest of the
  resource cover exactly the bytes after the received ones, there are at most four, no overflow
  panics, and neighbouring ranges overlap in exactly one byte, because the inclusive end of a
  range is computed as the start of the next one.
\<close>

theorem partial_split_covers:
  assumes "cr_end r < cr_total r" and "cr_total r \<le> u64_max"
  shows "\<exists>rs. partial_split checks r = Ret rs \<and> length rs \<le> 4
    \<and> (\<Union>x \<in> set rs. range_bytes x) = {cr_end r + 1 ..< cr_total r}
    \<and> (\<forall>i < length rs - 1. range_start (rs ! (i + 1)) = range_end (rs ! i))"
proof (cases "cr_total r - 1 = cr_end r")
  case True
  then show ?thesis using partial_split_Ret[OF assms] by auto
next
  case False
  define n where "n = cr_total r - 1 - cr_end r"
  have n: "0 < n" "cr_end r + 1 + n - 1 = cr_total r - 1" "cr_end r + 1 + n = cr_total r"
    using False assms(1) by (simp_all add: n_def)
  let ?rem = "\<lparr>range_start = cr_end r + 1, range_end = cr_total r - 1\<rparr>"
  have cover: "(\<Union>x \<in> set (split_ranges ?rem n). range_bytes x) = {cr_end r + 1 ..< cr_total r}"
    using split_ranges_cover[OF n(1), of "cr_end r + 1"] n(2,3) by simp
  have overlap: "range_start (split_ranges ?rem n ! (i + 1)) = range_end (split_ranges ?rem n ! i)"
    if "i < length (split_ranges ?rem n) - 1" for i
    using that split_ranges_nth[of i n ?rem] split_ranges_nth[of "i + 1" n ?rem]
    by (simp add: split_ranges_length)
  show ?thesis
    using partial_split_Ret[OF assms, of checks] False cover overlap range_count_bounds[OF n(1)]
    by (intro exI[of _ "split_ranges ?rem n"]) (auto simp: split_ranges_length n_def)
qed

theorem partial_split_covers_witness:
  "\<exists>rs. partial_split True \<lparr>cr_start = 0, cr_end = 9, cr_total = 10 + 2 * PARTIAL_SPLIT_SIZE\<rparr> = Ret rs
     \<and> (\<Union>x \<in> set rs. range_bytes x) = {10 ..< 10 + 2 * PARTIAL_SPLIT_SIZE}"
proof -
  let ?r = "\<lparr>cr_start = 0, cr_end = 9, cr_total = 10 + 2 * PARTIAL_SPLIT_SIZE\<rparr>"
  have h: "cr_end ?r < cr_total ?r" "cr_total ?r \<le> u64_max" by (simp_all add: PARTIAL_SPLIT_SIZE_def u64_max_def)
  from partial_split_covers[OF h, of True] show ?thesis by auto
qed

lemma content_range_parse_display:
  assumes "cr_start r \<le> cr_end r" and "cr_end r \<le> u64_max" and "cr_total r \<le> u64_max"
  shows "content_range_from_str (content_range_display r) = Inr r"
proof -
  let ?range = "dec_nat (cr_start r) @ CHR ''-'' # dec_nat (cr_end r)"
  let ?rest = "?range @ CHR ''/'' # dec_nat (cr_total r)"
  have d: "\<not> is_digit CHR ''/''" "\<not> is_digit CHR ''-''" "\<not> is_digit CHR '' ''"
    by (simp_all add: is_digit_def byte_of_def)
  have sp: "\<not> is_space CHR ''b''" "\<not> is_space CHR ''/''" "\<not> is_space CHR ''-''"
    by (simp_all add: is_space_def byte_of_def)
  have t1: "str_trim (content_range_display r) = ''bytes'' @ CHR '' '' # ?rest"
    using sp dec_nat_ends(2)[of "cr_total r"]
    by (subst str_trim_id) (simp_all add: content_range_display_def)
  have t2: "str_trim ?rest = ?rest"
    using dec_nat_ends by (intro str_trim_id) simp_all
  have t3: "str_trim ?range = ?range"
    using dec_nat_ends by (intro str_trim_id) simp_all
  have s1: "split_once CHR '' '' (''bytes'' @ CHR '' '' # ?rest) = Some (''bytes'', ?rest)"
    by (rule split_once_append) simp
  have s2: "split_once CHR ''/'' ?rest = Some (?range, dec_nat (cr_total r))"
    using dec_nat_no_char[OF d(1)] by (intro split_once_append) simp
  have s3: "split_once CHR ''-'' ?range = Some (dec_nat (cr_start r), dec_nat (cr_end r))"
    using dec_nat_no_char[OF d(2)] by (intro split_once_append) simp
  have ne: "?range \<noteq> ''*''" "dec_nat (cr_total r) \<noteq> ''*''"
  proof -
    have "\<not> is_digit CHR ''*''" by (simp add: is_digit_def byte_of_def)
    from dec_nat_no_char[OF this] show "dec_nat (cr_total r) \<noteq> ''*''" by (metis list.set_intros(1))
    show "?range \<noteq> ''*''" by (cases "dec_nat (cr_start r)") simp_all
  qed
  have "cr_start r \<le> u64_max" using assms by linarith
  then show ?thesis
    unfolding content_range_from_str_def t1 s1 option.case prod.case
    using assms by (simp only: if_False if_True simp_thms t2 s2 option.case prod.case t3 ne s3 str_trim_dec_nat
        parse_u64_dec_nat not_less) simp
qed

text \<open>
  The header round trip: parsing what a content range prints gives the range back, for every
  range of \<open>u64\<close> values whose end is not before its start.
\<close>

theorem content_range_roundtrip:
  assumes "cr_start r \<le> cr_end r" and "cr_end r \<le> u64_max" and "cr_total r \<le> u64_max"
  shows "content_range_from_str (content_range_display r) = Inr r"
  using assms by (rule content_range_parse_display)

theorem content_range_roundtrip_witness:
  "content_range_from_str (content_range_display \<lparr>cr_start = 0, cr_end = 12, cr_total = 123\<rparr>)
     = Inr \<lparr>cr_start = 0, cr_end = 12, cr_total = 123\<rparr>"
proof (rule content_range_roundtrip)
qed (simp_all add: u64_max_def)

lemma content_range_from_str_ordered: "content_range_from_str s = Inr r \<Longrightarrow> cr_start r \<le> cr_end r"
  by (auto simp: content_range_from_str_def split: option.splits prod.splits if_splits)

end
