(* ===== verification/DenyList.thy ===== *)
theory DenyList
  imports CacheErrors
begin

text \<open>
  \<open>download/deny_list.rs\<close>: hosts with too many download failures in a time window are blocked for
  a while. Times are milliseconds; \<open>u64\<close> values are naturals with the wrap-around and overflow
  of the source written out. The two \<open>moka\<close> caches are maps with the time of the last use
  (\<open>failures\<close>, time to idle) or of the insertion (\<open>blocked_hosts\<close>, time to live).
\<close>

section \<open>Definitions\<close>

record failure_count =
  timestamp :: nat
  fc_failures :: nat

record host_deny_list =
  time_window_millis :: nat
  bucket_size_millis :: nat
  failure_threshold :: nat
  block_time :: nat
  never_block :: "string list"
  dl_failures :: "string \<Rightarrow> (nat \<times> failure_count list) option"
  blocked_hosts :: "string \<Rightarrow> (nat \<times> cache_error) option"

record deny_list_config =
  deny_list_time_window :: nat
  deny_list_bucket_size :: nat
  deny_list_threshold :: nat
  deny_list_block_time :: nat
  deny_list_never_block_hosts :: "string list"

definition deny_list_from_config :: "deny_list_config \<Rightarrow> host_deny_list" where
  "deny_list_from_config c = \<lparr>time_window_millis = deny_list_time_window c,
     bucket_size_millis = deny_list_bucket_size c, failure_threshold = deny_list_threshold c,
     block_time = deny_list_block_time c, never_block = deny_list_never_block_hosts c,
     dl_failures = Map.empty, blocked_hosts = Map.empty\<rparr>"

text \<open>The remainder by a bucket size of 0 panics.\<close>

definition round_duration :: "host_deny_list \<Rightarrow> nat \<Rightarrow> nat outcome" where
  "round_duration L d =
     (let d = d mod 2 ^ 64
      in if bucket_size_millis L = 0 then Panic else Ret (d - d mod bucket_size_millis L))"

definition max_queue_len :: "host_deny_list \<Rightarrow> nat" where
  "max_queue_len L = time_window_millis L div bucket_size_millis L + 1"

definition push_failure :: "nat \<Rightarrow> failure_count list \<Rightarrow> failure_count list" where
  "push_failure current_ts queue =
     (if queue \<noteq> [] \<and> timestamp (last queue) = current_ts
      then butlast queue @ [(last queue)\<lparr>fc_failures := fc_failures (last queue) + 1\<rparr>]
      else queue @ [\<lparr>timestamp = current_ts, fc_failures = 1\<rparr>])"

definition trim_queue :: "host_deny_list \<Rightarrow> failure_count list \<Rightarrow> failure_count list" where
  "trim_queue L queue = (if length queue > max_queue_len L then tl queue else queue)"

text \<open>\<open>current_ts - time_window\<close> overflows before the first window has passed: with overflow checks it
  panics, otherwise it wraps.\<close>

definition sub_u64 :: "bool \<Rightarrow> nat \<Rightarrow> nat \<Rightarrow> nat outcome" where
  "sub_u64 checks a b = (if b \<le> a then Ret (a - b) else if checks then Panic else Ret (2 ^ 64 + a - b))"

definition total_failures :: "nat \<Rightarrow> failure_count list \<Rightarrow> nat" where
  "total_failures cutoff queue =
     sum_list (map fc_failures (dropWhile (\<lambda>f. timestamp f < cutoff) queue))"

text \<open>A cached entry is live until its last use (insertion) is a whole period ago.\<close>

definition live_entry :: "nat \<Rightarrow> nat \<Rightarrow> (nat \<times> 'a) option \<Rightarrow> 'a option" where
  "live_entry now period x = (case x of None \<Rightarrow> None | Some (t, a) \<Rightarrow> if now < t + period then Some a else None)"

definition is_blocked :: "nat \<Rightarrow> string \<Rightarrow> host_deny_list \<Rightarrow> cache_error option" where
  "is_blocked now host L = live_entry now (block_time L) (blocked_hosts L host)"

definition failure_queue :: "nat \<Rightarrow> string \<Rightarrow> host_deny_list \<Rightarrow> failure_count list" where
  "failure_queue now host L = (case live_entry now (time_window_millis L) (dl_failures L host) of
      None \<Rightarrow> [] | Some q \<Rightarrow> q)"

definition register_failure :: "bool \<Rightarrow> nat \<Rightarrow> string \<Rightarrow> cache_error \<Rightarrow> host_deny_list \<Rightarrow> host_deny_list outcome" where
  "register_failure checks now host err L =
     (if is_blocked now host L \<noteq> None then Ret L
      else bind_out (round_duration L now) (\<lambda>current_ts.
        let queue = trim_queue L (push_failure current_ts (failure_queue now host L));
            L = L\<lparr>dl_failures := (dl_failures L)(host \<mapsto> (now, queue))\<rparr>
        in bind_out (sub_u64 checks current_ts (time_window_millis L)) (\<lambda>cutoff.
          if total_failures cutoff queue \<ge> failure_threshold L \<and> host \<notin> set (never_block L)
          then Ret (L\<lparr>blocked_hosts := (blocked_hosts L)(host \<mapsto> (now, err))\<rparr>)
          else Ret L)))"

definition format_error :: "duration_text \<Rightarrow> string \<Rightarrow> cache_error \<Rightarrow> host_deny_list \<Rightarrow> cache_error" where
  "format_error D host reason L = DownloadError (''Host '' @ host @
     '' is temporarily blocked because there were too many download failures. It will remain blocked for a maximum of ''
     @ format_duration D (block_time L * 10 ^ 6) @ ''. The error that triggered the block was: `''
     @ error_to_string D reason @ ''`.'')"

section \<open>The queue counts the window\<close>

text \<open>
  The queue after recording failures with the rounded times \<open>rs\<close>: strictly increasing buckets,
  multiples of the bucket size, the last one being the current time, and the right number of
  failures for every cutoff that is still of interest.
\<close>

definition queue_ok :: "host_deny_list \<Rightarrow> nat list \<Rightarrow> failure_count list \<Rightarrow> bool" where
  "queue_ok L rs q \<longleftrightarrow>
     sorted_wrt (\<lambda>a b. timestamp a < timestamp b) q \<and>
     (\<forall>f \<in> set q. bucket_size_millis L dvd timestamp f) \<and>
     length q \<le> max_queue_len L \<and>
     (rs = [] \<longrightarrow> q = []) \<and>
     (rs \<noteq> [] \<longrightarrow> q \<noteq> [] \<and> timestamp (last q) = last rs) \<and>
     (\<forall>c. rs = [] \<or> last rs \<le> c + time_window_millis L \<longrightarrow>
        sum_list (map fc_failures (filter (\<lambda>f. c \<le> timestamp f) q)) = length (filter (\<lambda>r. c \<le> r) rs))"

lemma sum_push_failure:
  "sum_list (map fc_failures (filter (\<lambda>f. c \<le> timestamp f) (push_failure r q))) =
     sum_list (map fc_failures (filter (\<lambda>f. c \<le> timestamp f) q)) + (if c \<le> r then 1 else 0)"
proof (cases "q \<noteq> [] \<and> timestamp (last q) = r")
  case True
  then have "q = butlast q @ [last q]" by simp
  then obtain p l where q: "q = p @ [l]" by blast
  with True show ?thesis by (simp add: push_failure_def)
next
  case False
  then show ?thesis by (auto simp: push_failure_def)
qed

lemma strict_multiples_bound:
  assumes "sorted_wrt (\<lambda>a b. timestamp a < timestamp b) (f # q)" and "\<forall>g \<in> set (f # q). b dvd timestamp g"
  shows "timestamp f + length q * b \<le> timestamp (last (f # q))"
  using assms
proof (induction q arbitrary: f)
  case Nil
  then show ?case by simp
next
  case (Cons g q)
  have "timestamp f < timestamp g" using Cons.prems(1) by simp
  moreover obtain i j where "timestamp f = b * i" "timestamp g = b * j"
    using Cons.prems(2) by (auto elim!: dvdE)
  ultimately have "i + 1 \<le> j" by (metis Suc_eq_plus1 Suc_leI nat_mult_less_cancel_disj)
  then have "b * (i + 1) \<le> b * j" by (rule mult_le_mono2)
  then have "timestamp f + b \<le> timestamp g"
    using \<open>timestamp f = b * i\<close> \<open>timestamp g = b * j\<close> by simp
  with Cons.IH[of g] Cons.prems show ?case by simp
qed

lemma push_failure_cases:
  assumes "q \<noteq> [] \<Longrightarrow> timestamp (last q) \<le> r"
  shows "(\<exists>p l. q = p @ [l] \<and> timestamp l = r \<and> push_failure r q = p @ [l\<lparr>fc_failures := fc_failures l + 1\<rparr>])
    \<or> (push_failure r q = q @ [\<lparr>timestamp = r, fc_failures = 1\<rparr>] \<and> (q \<noteq> [] \<longrightarrow> timestamp (last q) < r))"
proof (cases "q \<noteq> [] \<and> timestamp (last q) = r")
  case True
  then show ?thesis
    by (intro disjI1 exI[of _ "butlast q"] exI[of _ "last q"]) (simp add: push_failure_def)
next
  case False
  then show ?thesis using assms by (auto simp: push_failure_def)
qed

lemma sorted_below_last:
  assumes "sorted_wrt (\<lambda>a b. timestamp a < timestamp b) q" and "f \<in> set q"
  shows "timestamp f \<le> timestamp (last q)"
proof -
  obtain p l where q: "q = p @ [l]" using assms(2) by (metis empty_iff empty_set rev_exhaust)
  with assms show ?thesis by (auto simp: sorted_wrt_append dest: less_imp_le)
qed

lemma push_failure_sorted:
  assumes "sorted_wrt (\<lambda>a b. timestamp a < timestamp b) q" and "\<forall>f \<in> set q. b dvd timestamp f"
    and "q \<noteq> [] \<Longrightarrow> timestamp (last q) \<le> r" and "b dvd r"
  shows "sorted_wrt (\<lambda>a b. timestamp a < timestamp b) (push_failure r q)"
    "\<forall>f \<in> set (push_failure r q). b dvd timestamp f"
    "push_failure r q \<noteq> [] \<and> timestamp (last (push_failure r q)) = r"
    "length (push_failure r q) \<le> Suc (length q)"
proof -
  consider (inc) p l where "q = p @ [l]" "timestamp l = r" "push_failure r q = p @ [l\<lparr>fc_failures := fc_failures l + 1\<rparr>]"
    | (new) "push_failure r q = q @ [\<lparr>timestamp = r, fc_failures = 1\<rparr>]" "q \<noteq> [] \<longrightarrow> timestamp (last q) < r"
    using push_failure_cases[OF assms(3)] by blast
  then have "sorted_wrt (\<lambda>a b. timestamp a < timestamp b) (push_failure r q) \<and>
      (\<forall>f \<in> set (push_failure r q). b dvd timestamp f) \<and>
      push_failure r q \<noteq> [] \<and> timestamp (last (push_failure r q)) = r \<and> length (push_failure r q) \<le> Suc (length q)"
  proof cases
    case inc
    then show ?thesis using assms(1,2,4) by (simp add: sorted_wrt_append)
  next
    case new
    have "timestamp f < r" if "f \<in> set q" for f
      using sorted_below_last[OF assms(1) that] new(2) that by (metis empty_iff empty_set le_less_trans)
    with new assms(1,2,4) show ?thesis by (simp add: sorted_wrt_append)
  qed
  then show "sorted_wrt (\<lambda>a b. timestamp a < timestamp b) (push_failure r q)"
    "\<forall>f \<in> set (push_failure r q). b dvd timestamp f"
    "push_failure r q \<noteq> [] \<and> timestamp (last (push_failure r q)) = r"
    "length (push_failure r q) \<le> Suc (length q)" by blast+
qed

lemma filter_tl_old:
  "q = f # q' \<Longrightarrow> timestamp f < c \<Longrightarrow> filter (\<lambda>f. c \<le> timestamp f) (tl q) = filter (\<lambda>f. c \<le> timestamp f) q"
  by simp

lemma queue_ok_step:
  assumes ok: "queue_ok L rs q" and b: "0 < bucket_size_millis L" "bucket_size_millis L dvd r"
    and mono: "rs \<noteq> [] \<Longrightarrow> last rs \<le> r"
  shows "queue_ok L (rs @ [r]) (trim_queue L (push_failure r q))"
proof -
  let ?b = "bucket_size_millis L" and ?p = "push_failure r q" and ?w = "time_window_millis L"
  have le: "q \<noteq> [] \<Longrightarrow> timestamp (last q) \<le> r" using ok mono by (auto simp: queue_ok_def)
  have q: "sorted_wrt (\<lambda>a b. timestamp a < timestamp b) q" "\<forall>f \<in> set q. ?b dvd timestamp f"
    using ok by (auto simp: queue_ok_def)
  note p = push_failure_sorted[OF q le b(2)]
  have sum: "sum_list (map fc_failures (filter (\<lambda>f. c \<le> timestamp f) ?p)) = length (filter (\<lambda>x. c \<le> x) (rs @ [r]))"
    if "r \<le> c + ?w" for c
  proof -
    have "rs = [] \<or> last rs \<le> c + ?w" using that mono by fastforce
    then have "sum_list (map fc_failures (filter (\<lambda>f. c \<le> timestamp f) q)) = length (filter (\<lambda>x. c \<le> x) rs)"
      using ok unfolding queue_ok_def by blast
    then show ?thesis by (simp add: sum_push_failure)
  qed
  show ?thesis
  proof (cases "length ?p > max_queue_len L")
    case False
    then show ?thesis using p sum unfolding queue_ok_def trim_queue_def by auto
  next
    case True
    obtain f q' where f: "?p = f # q'" using p(3) by (cases ?p) auto
    have len: "length q' = max_queue_len L" using True p(4) ok f by (simp add: queue_ok_def)
    then have ne: "q' \<noteq> []" by (auto simp: max_queue_len_def)
    have "timestamp f + length q' * ?b \<le> r"
      using strict_multiples_bound[of f q' ?b] p f by simp
    moreover have "?w < length q' * ?b"
      using b(1) len by (simp add: max_queue_len_def) (metis add.commute dividend_less_div_times)
    ultimately have old: "timestamp f + ?w < r" by linarith
    have "sum_list (map fc_failures (filter (\<lambda>f. c \<le> timestamp f) q')) = length (filter (\<lambda>x. c \<le> x) (rs @ [r]))"
      if "r \<le> c + ?w" for c
      using sum[OF that] old that f by simp
    then show ?thesis
      using p f len ne True unfolding queue_ok_def trim_queue_def by simp
  qed
qed

lemma total_failures_filter:
  assumes "sorted_wrt (\<lambda>a b. timestamp a < timestamp b) q"
  shows "total_failures c q = sum_list (map fc_failures (filter (\<lambda>f. c \<le> timestamp f) q))"
proof -
  have "dropWhile (\<lambda>f. timestamp f < c) q = filter (\<lambda>f. c \<le> timestamp f) q"
    using assms
  proof (induction q)
    case (Cons f q)
    show ?case
    proof (cases "timestamp f < c")
      case True
      with Cons show ?thesis by simp
    next
      case False
      then have "\<forall>g \<in> set q. c \<le> timestamp g" using Cons.prems by auto
      with False show ?thesis by (simp add: filter_id_conv)
    qed
  qed simp
  then show ?thesis by (simp add: total_failures_def)
qed

section \<open>Properties\<close>

text \<open>
  The queue of a host that was never idle for a whole time window while these failures were
  recorded; the eviction of an idle queue is part of \<open>failure_queue\<close>.
\<close>

definition record_all :: "host_deny_list \<Rightarrow> nat list \<Rightarrow> failure_count list" where
  "record_all L rs = foldl (\<lambda>q r. trim_queue L (push_failure r q)) [] rs"

lemma record_all_ok:
  "0 < bucket_size_millis L \<Longrightarrow> sorted rs \<Longrightarrow> \<forall>r \<in> set rs. bucket_size_millis L dvd r \<Longrightarrow> queue_ok L rs (record_all L rs)"
proof (induction rs rule: rev_induct)
  case Nil
  then show ?case by (simp add: queue_ok_def record_all_def)
next
  case (snoc r rs)
  have "queue_ok L rs (record_all L rs)" using snoc by (simp add: sorted_append)
  moreover have "last rs \<le> r" if "rs \<noteq> []" using snoc.prems(2) that by (simp add: sorted_append)
  ultimately show ?case
    using queue_ok_step[of L rs "record_all L rs" r] snoc.prems by (simp add: record_all_def)
qed

text \<open>
  C37. The bounded queue of buckets counts the sliding window exactly: after any failures at rising
  times with no idle time that evicts the queue, however many buckets were dropped from the front, the total that is compared with the
  threshold is the number of all recorded failures whose bucket starts at most one time window
  before the current bucket, and the queue never grows beyond its maximum length.
\<close>

theorem window_counted_exactly:
  assumes "0 < bucket_size_millis L" and "sorted (rs @ [r])" and "\<forall>x \<in> set (rs @ [r]). bucket_size_millis L dvd x"
  shows "total_failures (r - time_window_millis L) (record_all L (rs @ [r])) =
           length (filter (\<lambda>x. r \<le> x + time_window_millis L) (rs @ [r]))
    \<and> length (record_all L (rs @ [r])) \<le> max_queue_len L"
proof -
  note ok = record_all_ok[OF assms]
  then have s: "sorted_wrt (\<lambda>a b. timestamp a < timestamp b) (record_all L (rs @ [r]))"
    and n: "length (record_all L (rs @ [r])) \<le> max_queue_len L"
    and all: "\<forall>c. rs @ [r] = [] \<or> last (rs @ [r]) \<le> c + time_window_millis L \<longrightarrow>
        sum_list (map fc_failures (filter (\<lambda>f. c \<le> timestamp f) (record_all L (rs @ [r])))) =
        length (filter (\<lambda>x. c \<le> x) (rs @ [r]))"
    unfolding queue_ok_def by blast+
  have "last (rs @ [r]) \<le> (r - time_window_millis L) + time_window_millis L" by simp
  with all have c: "sum_list (map fc_failures (filter (\<lambda>f. r - time_window_millis L \<le> timestamp f) (record_all L (rs @ [r]))))
      = length (filter (\<lambda>x. r - time_window_millis L \<le> x) (rs @ [r]))" by blast
  have "(\<lambda>x. r - time_window_millis L \<le> x) = (\<lambda>x. r \<le> x + time_window_millis L)" by auto
  with s n c show ?thesis by (simp only: total_failures_filter)
qed

definition demo_deny_list :: host_deny_list where
  "demo_deny_list = \<lparr>time_window_millis = 5000, bucket_size_millis = 1000, failure_threshold = 2, block_time = 100,
     never_block = [''safe''], dl_failures = Map.empty, blocked_hosts = Map.empty\<rparr>"

theorem window_counted_exactly_witness:
  "total_failures (9000 - 5000) (record_all demo_deny_list [1000, 1000, 4000, 9000]) = 2"
proof -
  let ?rs = "[1000, 1000, 4000 :: nat]"
  have h: "0 < bucket_size_millis demo_deny_list" "sorted (?rs @ [9000])"
    "\<forall>x \<in> set (?rs @ [9000]). bucket_size_millis demo_deny_list dvd x"
    by (simp_all add: demo_deny_list_def)
  from window_counted_exactly[OF h] show ?thesis by (simp add: demo_deny_list_def)
qed

text \<open>Registering a failure, past the first window of the epoch.\<close>

lemma register_failure_eq:
  assumes "is_blocked now host L = None" and "0 < bucket_size_millis L" and "now < 2 ^ 64"
    and "time_window_millis L + bucket_size_millis L \<le> now"
  defines "ts \<equiv> now - now mod bucket_size_millis L"
  defines "queue \<equiv> trim_queue L (push_failure ts (failure_queue now host L))"
  shows "register_failure checks now host err L =
    Ret (if failure_threshold L \<le> total_failures (ts - time_window_millis L) queue \<and> host \<notin> set (never_block L)
         then L\<lparr>dl_failures := (dl_failures L)(host \<mapsto> (now, queue)), blocked_hosts := (blocked_hosts L)(host \<mapsto> (now, err))\<rparr>
         else L\<lparr>dl_failures := (dl_failures L)(host \<mapsto> (now, queue))\<rparr>)"
proof -
  have r: "round_duration L now = Ret ts" using assms(2,3) by (simp add: round_duration_def ts_def)
  have "now mod bucket_size_millis L < bucket_size_millis L" using assms(2) by simp
  then have "time_window_millis L \<le> ts" using assms(4) unfolding ts_def by linarith
  then have s: "sub_u64 checks ts (time_window_millis L) = Ret (ts - time_window_millis L)"
    by (simp add: sub_u64_def)
  show ?thesis
    using assms(1) by (simp add: register_failure_def r s queue_def Let_def)
qed

text \<open>
  A failure blocks its host exactly when it should: for a host that is not blocked, after the
  first time window of the epoch, the host is blocked afterwards with the error of this failure
  iff the failures counted in the window reach the threshold and the host is not on the list of
  hosts that are never blocked; other hosts are unaffected.
\<close>

theorem register_failure_blocks_iff:
  assumes "is_blocked now host L = None" and "0 < bucket_size_millis L" and "0 < block_time L" and "now < 2 ^ 64"
    and "time_window_millis L + bucket_size_millis L \<le> now"
  defines "ts \<equiv> now - now mod bucket_size_millis L"
  shows "\<exists>L'. register_failure checks now host err L = Ret L'
    \<and> (is_blocked now host L' = Some err \<longleftrightarrow>
         failure_threshold L \<le> total_failures (ts - time_window_millis L)
            (trim_queue L (push_failure ts (failure_queue now host L)))
         \<and> host \<notin> set (never_block L))
    \<and> (\<forall>h. h \<noteq> host \<longrightarrow> blocked_hosts L' h = blocked_hosts L h \<and> dl_failures L' h = dl_failures L h)"
proof -
  have b: "is_blocked now host (L\<lparr>dl_failures := F\<rparr>) = None" for F
    using assms(1) by (simp add: is_blocked_def)
  show ?thesis
    unfolding register_failure_eq[OF assms(1,2,4,5), folded ts_def]
    using assms(3) b by simp (simp add: is_blocked_def live_entry_def)
qed

theorem register_failure_blocks_iff_witness:
  "\<exists>L'. register_failure True 9500 ''test'' NotFound
        (demo_deny_list\<lparr>dl_failures := [''test'' \<mapsto> (9400, [\<lparr>timestamp = 9000, fc_failures = 1\<rparr>])]\<rparr>) = Ret L'
     \<and> is_blocked 9500 ''test'' L' = Some NotFound"
proof -
  let ?L = "demo_deny_list\<lparr>dl_failures := [''test'' \<mapsto> (9400, [\<lparr>timestamp = 9000, fc_failures = 1\<rparr>])]\<rparr>"
  have h: "is_blocked 9500 ''test'' ?L = None" "0 < bucket_size_millis ?L" "0 < block_time ?L" "9500 < (2 :: nat) ^ 64"
    "time_window_millis ?L + bucket_size_millis ?L \<le> 9500"
    by (simp_all add: demo_deny_list_def is_blocked_def live_entry_def)
  have t: "failure_threshold ?L \<le> total_failures (9500 - 9500 mod bucket_size_millis ?L - time_window_millis ?L)
      (trim_queue ?L (push_failure (9500 - 9500 mod bucket_size_millis ?L) (failure_queue 9500 ''test'' ?L)))"
    by (simp add: demo_deny_list_def failure_queue_def live_entry_def push_failure_def trim_queue_def max_queue_len_def
        total_failures_def)
  have n: "''test'' \<notin> set (never_block ?L)" by (simp add: demo_deny_list_def)
  from register_failure_blocks_iff[OF h, of True NotFound] t n show ?thesis by blast
qed

text \<open>Hosts on the never-block list stay unblocked, whatever fails whenever.\<close>

lemma never_block_invariant:
  assumes "register_failure checks now host err L = Ret L'" and "h \<in> set (never_block L)" and "blocked_hosts L h = None"
  shows "never_block L' = never_block L \<and> blocked_hosts L' h = None"
  using assms
  by (auto simp: register_failure_def Let_def bind_out_eq_Ret split: if_splits)

end
