(* ===== verification/Download.thy ===== *)
theory Download
  imports Partial DenyList
begin

text \<open>
  \<open>download/mod.rs\<close> and \<open>download/destination.rs\<close>: retries, the deny list around a download, the
  error handler, and the concurrent download of a resource in byte ranges. The server is a
  parameter: what it answers to a request with or without a range. The body of a response is the
  list of chunks as they arrive; the order in which the streams make progress is a schedule.
\<close>

section \<open>Retries and blocked hosts\<close>

definition should_not_retry :: "'a cache_contents \<Rightarrow> bool" where
  "should_not_retry r = (case r of Inr _ \<Rightarrow> True | Inl NotFound \<Rightarrow> True | Inl (PermissionDenied _) \<Rightarrow> True | _ \<Rightarrow> False)"

text \<open>\<open>task n\<close> is the result of the \<open>n\<close>-th try.\<close>

function retry_loop :: "(nat \<Rightarrow> 'a cache_contents) \<Rightarrow> nat \<Rightarrow> 'a cache_contents" where
  "retry_loop task tries =
     (let tries = tries + 1; result = task tries
      in if should_not_retry result \<or> tries \<ge> 3 then result else retry_loop task tries)"
  by pat_completeness auto
termination by (relation "measure (\<lambda>(_, n). 3 - n)") auto

declare retry_loop.simps [simp del]

definition retry :: "(nat \<Rightarrow> 'a cache_contents) \<Rightarrow> 'a cache_contents" where
  "retry task = retry_loop task 0"

text \<open>What the spawned job of a download came to.\<close>

datatype 'a job_result = JobTimeout | JobCancelled | JobDone "'a cache_contents"

record download_request =
  dl_host :: string
  dl_metric_key :: string

definition source_can_be_blocked :: "download_request \<Rightarrow> bool" where
  "source_can_be_blocked q \<longleftrightarrow> dl_metric_key q = ''http''"

definition job_contents :: "duration \<Rightarrow> 'a job_result \<Rightarrow> 'a cache_contents" where
  "job_contents timeout j = (case j of JobTimeout \<Rightarrow> Inl (Timeout timeout)
     | JobCancelled \<Rightarrow> Inl InternalError | JobDone r \<Rightarrow> r)"

definition counts_as_failure :: "'a cache_contents \<Rightarrow> cache_error option" where
  "counts_as_failure r = (case r of Inl (DownloadError s) \<Rightarrow> Some (DownloadError s)
     | Inl (Timeout d) \<Rightarrow> Some (Timeout d) | _ \<Rightarrow> None)"

text \<open>\<open>DownloadService::download\<close>; the job is only run when the host is not blocked.\<close>

definition download :: "duration_text \<Rightarrow> bool \<Rightarrow> duration \<Rightarrow> nat \<Rightarrow> nat \<Rightarrow> download_request \<Rightarrow> 'a job_result
    \<Rightarrow> host_deny_list option \<Rightarrow> ('a cache_contents \<times> host_deny_list option) outcome" where
  "download D checks timeout now end_time q job deny =
     (case (if source_can_be_blocked q
            then (case deny of None \<Rightarrow> None
                  | Some L \<Rightarrow> map_option (\<lambda>reason. format_error D (dl_host q) reason L) (is_blocked now (dl_host q) L))
            else None) of
        Some err \<Rightarrow> Ret (Inl err, deny)
      | None \<Rightarrow>
          let result = job_contents timeout job
          in (case (counts_as_failure result, deny) of
                (Some e, Some L) \<Rightarrow>
                  if source_can_be_blocked q
                  then map_out (\<lambda>L. (result, Some L)) (register_failure checks end_time (dl_host q) e L)
                  else Ret (result, deny)
              | _ \<Rightarrow> Ret (result, deny)))"

section \<open>Responses\<close>

datatype compression = Identity | Brotli | Deflate | Gzip | Zstd

record response =
  resp_status :: nat
  resp_content_range :: "string option"
  resp_compression :: "compression cache_contents"
  resp_body :: "string cache_contents list"

definition is_success :: "nat \<Rightarrow> bool" where
  "is_success s \<longleftrightarrow> 200 \<le> s \<and> s < 300"

definition from_response :: "response \<Rightarrow> (invalid_bytes_range + bytes_content_range) option" where
  "from_response r = (if resp_status r \<noteq> 206 then None else map_option content_range_from_str (resp_content_range r))"

text \<open>The text of a status is \<open>status_text\<close>; \<open>debug_assert!\<close> aside.\<close>

definition handle_status :: "(nat \<Rightarrow> string) \<Rightarrow> nat \<Rightarrow> cache_error" where
  "handle_status status_text s =
     (if s = 403 \<or> s = 401 then PermissionDenied (status_text s)
      else if 400 \<le> s \<and> s < 500 then NotFound
      else if s = 302 then PermissionDenied ''Potential login page detected''
      else DownloadError (status_text s))"

definition size_exceeded :: cache_error where
  "size_exceeded = Malformed ''Maximum file size exceeded''"

section \<open>Destinations\<close>

text \<open>\<open>write_all_at\<close>: past the end of the file, the gap is filled with zeros.\<close>

definition write_at :: "nat \<Rightarrow> string \<Rightarrow> string \<Rightarrow> string" where
  "write_at offset buf file =
     take offset file @ replicate (offset - length file) CHR 0x00 @ buf @ drop (offset + length buf) file"

definition set_file_size :: "nat \<Rightarrow> string \<Rightarrow> string" where
  "set_file_size n file = take n file @ replicate (n - length file) CHR 0x00"

record write_stream =
  ws_offset :: nat
  ws_end :: nat

definition open_stream :: "nat \<Rightarrow> nat \<Rightarrow> write_stream" where
  "open_stream offset n = \<lparr>ws_offset = offset, ws_end = offset + n + 1\<rparr>"

text \<open>The error of writing past the end is an \<open>io::Error\<close>, which becomes an internal error.\<close>

definition stream_write_all :: "string \<Rightarrow> write_stream \<Rightarrow> string \<Rightarrow> (write_stream \<times> string) cache_contents" where
  "stream_write_all buf w file =
     (if ws_offset w + length buf \<ge> ws_end w then Inl InternalError
      else Inr (w\<lparr>ws_offset := ws_offset w + length buf\<rparr>, write_at (ws_offset w) buf file))"

text \<open>The measure guard: the counter is advanced before the limit is checked.\<close>

record measure =
  max_bytes_transferred :: nat
  bytes_transferred :: nat

definition add_bytes_transferred :: "nat \<Rightarrow> measure \<Rightarrow> unit cache_contents \<times> measure" where
  "add_bytes_transferred n g =
     (let g = g\<lparr>bytes_transferred := bytes_transferred g + n\<rparr>
      in (if bytes_transferred g > max_bytes_transferred g then Inl size_exceeded else Inr (), g))"

section \<open>Sequential and concurrent downloads\<close>

text \<open>\<open>SymResponse::download\<close> into a plain file, from its cursor on (decompression is an argument).\<close>

fun download_chunks :: "string cache_contents list \<Rightarrow> measure \<Rightarrow> string \<Rightarrow> unit cache_contents \<times> measure \<times> string" where
  "download_chunks [] g file = (Inr (), g, file)"
| "download_chunks (Inl err # cs) g file = (Inl err, g, file)"
| "download_chunks (Inr b # cs) g file =
     (case add_bytes_transferred (length b) g of
        (Inl err, g) \<Rightarrow> (Inl err, g, file)
      | (Inr _, g) \<Rightarrow> download_chunks cs g (file @ b))"

text \<open>One of several concurrent downloads: its stream, what is left of its body.\<close>

record part =
  part_stream :: write_stream
  part_left :: "string cache_contents list"

record transfer =
  tr_parts :: "part list"
  tr_file :: string
  tr_measure :: measure

text \<open>The next chunk of part \<open>i\<close>; a finished part makes no progress.\<close>

definition part_step :: "nat \<Rightarrow> transfer \<Rightarrow> transfer cache_contents" where
  "part_step i t =
     (if i < length (tr_parts t) then
        (case part_left (tr_parts t ! i) of
           [] \<Rightarrow> Inr t
         | Inl err # _ \<Rightarrow> Inl err
         | Inr b # cs \<Rightarrow>
             (case add_bytes_transferred (length b) (tr_measure t) of
                (Inl err, g) \<Rightarrow> Inl err
              | (Inr _, g) \<Rightarrow>
                  (case stream_write_all b (part_stream (tr_parts t ! i)) (tr_file t) of
                     Inl err \<Rightarrow> Inl err
                   | Inr (w, file) \<Rightarrow>
                       Inr (t\<lparr>tr_parts := (tr_parts t)[i := \<lparr>part_stream = w, part_left = cs\<rparr>],
                              tr_file := file, tr_measure := g\<rparr>))))
      else Inr t)"

fun run_schedule :: "nat list \<Rightarrow> transfer \<Rightarrow> transfer cache_contents" where
  "run_schedule [] t = Inr t"
| "run_schedule (i # is) t = (case part_step i t of Inl err \<Rightarrow> Inl err | Inr t \<Rightarrow> run_schedule is t)"

text \<open>After any schedule, the parts that are left run to their end.\<close>

definition remaining_schedule :: "transfer \<Rightarrow> nat list" where
  "remaining_schedule t = concat (map (\<lambda>i. replicate (length (part_left (tr_parts t ! i))) i) [0..<length (tr_parts t)])"

definition run_transfer :: "nat list \<Rightarrow> transfer \<Rightarrow> transfer cache_contents" where
  "run_transfer sched t =
     (case run_schedule sched t of Inl err \<Rightarrow> Inl err | Inr t \<Rightarrow> run_schedule (remaining_schedule t) t)"

text \<open>The answer to a range request that is one of several: an unsuccessful one fails the download.\<close>

definition open_part :: "(nat \<Rightarrow> string) \<Rightarrow> (byte_range option \<Rightarrow> response cache_contents) \<Rightarrow> byte_range \<Rightarrow> part" where
  "open_part status_text server r =
     \<lparr>part_stream = open_stream (range_start r) (range_end r + 1 - range_start r),
      part_left = (case server (Some r) of
          Inl err \<Rightarrow> [Inl err]
        | Inr resp \<Rightarrow>
            if is_success (resp_status resp)
            then (case resp_compression resp of Inl err \<Rightarrow> [Inl err] | Inr _ \<Rightarrow> resp_body resp)
            else [Inl (handle_status status_text (resp_status resp))])\<rparr>"

text \<open>\<open>do_download_reqwest\<close> with decompression: the whole body in one go.\<close>

definition download_plain :: "(nat \<Rightarrow> string) \<Rightarrow> (compression \<Rightarrow> string cache_contents list \<Rightarrow> string cache_contents list)
    \<Rightarrow> response cache_contents \<Rightarrow> measure \<Rightarrow> string \<Rightarrow> compression cache_contents \<times> string" where
  "download_plain status_text decompress resp g file =
     (case resp of
        Inl err \<Rightarrow> (Inl err, file)
      | Inr resp \<Rightarrow>
          if is_success (resp_status resp)
          then (case resp_compression resp of
                  Inl err \<Rightarrow> (Inl err, file)
                | Inr c \<Rightarrow> (case download_chunks (decompress c (resp_body resp)) g file of
                      (Inl err, _, file) \<Rightarrow> (Inl err, file) | (Inr _, _, file) \<Rightarrow> (Inr Identity, file)))
          else (Inl (handle_status status_text (resp_status resp)), file))"

definition download_range :: "bool \<Rightarrow> (nat \<Rightarrow> string) \<Rightarrow> (compression \<Rightarrow> string cache_contents list \<Rightarrow> string cache_contents list)
    \<Rightarrow> (byte_range option \<Rightarrow> response cache_contents) \<Rightarrow> nat \<Rightarrow> nat list \<Rightarrow> string
    \<Rightarrow> (compression cache_contents \<times> string) outcome" where
  "download_range checks status_text decompress server max_size sched file =
     (let g = \<lparr>max_bytes_transferred = max_size, bytes_transferred = 0\<rparr> in
      case server (Some initial_range) of
        Inl err \<Rightarrow> Ret (Inl err, file)
      | Inr resp \<Rightarrow>
          (let content_range = from_response resp;
               is_full_response = (case content_range of None \<Rightarrow> True | Some (Inr r) \<Rightarrow> is_full_range r | Some (Inl _) \<Rightarrow> False)
           in if is_success (resp_status resp) \<and> is_full_response
              then Ret (download_plain status_text decompress (Inr resp) g file)
              else (case content_range of
                None \<Rightarrow>
                  if resp_status resp = 416 then Ret (download_plain status_text decompress (server None) g file)
                  else Ret (Inl (handle_status status_text (resp_status resp)), file)
              | Some (Inl _) \<Rightarrow> Ret (download_plain status_text decompress (server None) g file)
              | Some (Inr r) \<Rightarrow>
                  if cr_total r = 0 then Ret (Inr Identity, file)
                  else if cr_total r > max_size then Ret (Inl size_exceeded, file)
                  else (case resp_compression resp of
                     Inl err \<Rightarrow> Ret (Inl err, set_file_size (cr_total r) file)
                   | Inr c \<Rightarrow>
                       map_out (\<lambda>rs.
                         let head = \<lparr>part_stream = open_stream 0 (cr_end r + 1 - cr_start r), part_left = resp_body resp\<rparr>;
                             t = \<lparr>tr_parts = head # map (open_part status_text server) rs,
                                  tr_file = set_file_size (cr_total r) file, tr_measure = g\<rparr>
                         in (case run_transfer sched t of
                               Inl err \<Rightarrow> (Inl err, tr_file t)
                             | Inr t \<Rightarrow> (Inr c, tr_file t))) (partial_split checks r)))))"

end
