(* ===== verification/DownloadCorrect.thy ===== *)
theory DownloadCorrect
  imports Download
begin

text \<open>
  Correctness of downloads: the concurrent range download assembles the resource exactly,
  whatever the interleaving of its streams; the size limit; retries; who can be blocked.
\<close>

section \<open>Writing at an offset\<close>

lemma write_at_length: "offset + length b \<le> length file \<Longrightarrow> length (write_at offset b file) = length file"
  by (simp add: write_at_def)

lemma write_at_nth:
  assumes "offset + length b \<le> length file" and "p < length file"
  shows "write_at offset b file ! p = (if offset \<le> p \<and> p < offset + length b then b ! (p - offset) else file ! p)"
proof -
  have w: "write_at offset b file = take offset file @ b @ drop (offset + length b) file"
    using assms(1) by (simp add: write_at_def)
  show ?thesis
    using assms by (auto simp: w nth_append min_def)
qed

section \<open>Invariant of a transfer\<close>

text \<open>A span is the start and length of what a part is to write.\<close>

definition part_ok :: "string \<Rightarrow> nat \<times> nat \<Rightarrow> part \<Rightarrow> bool" where
  "part_ok R sp p \<longleftrightarrow> (case sp of (s, n) \<Rightarrow> s + n \<le> length R \<and>
     (\<exists>k cs. k \<le> n \<and> part_stream p = \<lparr>ws_offset = s + k, ws_end = s + n + 1\<rparr> \<and> part_left p = map Inr cs
        \<and> concat cs = take (n - k) (drop (s + k) R)))"

definition done_bytes :: "nat \<times> nat \<Rightarrow> part \<Rightarrow> nat" where
  "done_bytes sp p = ws_offset (part_stream p) - fst sp"

definition transfer_ok :: "string \<Rightarrow> nat \<Rightarrow> (nat \<times> nat) list \<Rightarrow> transfer \<Rightarrow> bool" where
  "transfer_ok R M sps t \<longleftrightarrow>
     length (tr_parts t) = length sps \<and>
     (\<forall>i < length sps. part_ok R (sps ! i) (tr_parts t ! i)) \<and>
     length (tr_file t) = length R \<and>
     (\<forall>i < length sps. \<forall>p. fst (sps ! i) \<le> p \<and> p < ws_offset (part_stream (tr_parts t ! i)) \<longrightarrow> tr_file t ! p = R ! p) \<and>
     max_bytes_transferred (tr_measure t) = M \<and>
     bytes_transferred (tr_measure t) = (\<Sum>i < length sps. done_bytes (sps ! i) (tr_parts t ! i)) \<and>
     bytes_transferred (tr_measure t) \<le> M"

lemma sum_change_one:
  fixes f g :: "nat \<Rightarrow> nat"
  assumes "i < n" and "\<And>j. j < n \<Longrightarrow> j \<noteq> i \<Longrightarrow> g j = f j" and "g i = f i + d"
  shows "(\<Sum>j < n. g j) = (\<Sum>j < n. f j) + d"
proof -
  have "(\<Sum>j < n. g j) = (\<Sum>j < n. f j + (if j = i then d else 0))"
    using assms(2,3) by (intro sum.cong) auto
  also have "\<dots> = (\<Sum>j < n. f j) + (\<Sum>j < n. if j = i then d else 0)" by (rule sum.distrib)
  also have "(\<Sum>j < n. if j = i then d else 0) = d" using assms(1) by simp
  finally show ?thesis .
qed

lemma part_ok_done: "part_ok R (s, n) p \<Longrightarrow> done_bytes (s, n) p \<le> n \<and> ws_offset (part_stream p) = s + done_bytes (s, n) p"
  by (auto simp: part_ok_def done_bytes_def)

lemma part_ok_offset: "part_ok R sp p \<Longrightarrow> ws_offset (part_stream p) \<le> length R \<and> done_bytes sp p \<le> snd sp"
  by (cases sp) (auto simp: part_ok_def done_bytes_def)

text \<open>A chunk of a well-behaved part.\<close>

lemma part_chunk:
  assumes ok: "part_ok R (s, n) p" and left: "part_left p = Inr b # cs"
  shows "ws_offset (part_stream p) + length b \<le> s + n" "s + n \<le> length R"
    "b = take (length b) (drop (ws_offset (part_stream p)) R)"
    "ws_end (part_stream p) = s + n + 1"
    "part_ok R (s, n) \<lparr>part_stream = (part_stream p)\<lparr>ws_offset := ws_offset (part_stream p) + length b\<rparr>, part_left = cs\<rparr>"
proof -
  from ok obtain k ds where k: "k \<le> n" "part_stream p = \<lparr>ws_offset = s + k, ws_end = s + n + 1\<rparr>"
    "part_left p = map Inr ds" "concat ds = take (n - k) (drop (s + k) R)" and le: "s + n \<le> length R"
    by (auto simp: part_ok_def)
  from k(3) left obtain ds' where ds: "ds = b # ds'" "cs = map Inr ds'" by (cases ds) auto
  have c: "b @ concat ds' = take (n - k) (drop (s + k) R)" using k(4) ds(1) by simp
  have len: "length (take (n - k) (drop (s + k) R)) = n - k" using le k(1) by simp
  then have lb: "length b + length (concat ds') = n - k" using c by (metis length_append)
  have b: "b = take (length b) (drop (s + k) R)"
  proof -
    have "take (length b) (b @ concat ds') = take (length b) (take (n - k) (drop (s + k) R))" by (simp only: c)
    moreover have "min (length b) (n - k) = length b" using lb by simp
    ultimately show ?thesis by (metis append_eq_conv_conj take_take)
  qed
  have d: "concat ds' = take (n - (k + length b)) (drop (s + (k + length b)) R)"
  proof -
    have "drop (length b) (b @ concat ds') = drop (length b) (take (n - k) (drop (s + k) R))" by (simp only: c)
    then show ?thesis by (simp add: drop_take add.commute add.left_commute)
  qed
  show "ws_offset (part_stream p) + length b \<le> s + n" "s + n \<le> length R"
    "ws_end (part_stream p) = s + n + 1" using k(1,2) lb le by simp_all
  show "b = take (length b) (drop (ws_offset (part_stream p)) R)" using b k(2) by simp
  show "part_ok R (s, n) \<lparr>part_stream = (part_stream p)\<lparr>ws_offset := ws_offset (part_stream p) + length b\<rparr>, part_left = cs\<rparr>"
    using k(1,2) lb le d ds(2) by (auto simp: part_ok_def intro!: exI[of _ "k + length b"] exI[of _ ds'])
qed

lemma part_step_ok:
  assumes ok: "transfer_ok R M sps t"
  shows "(\<exists>t'. part_step i t = Inr t' \<and> transfer_ok R M sps t'
            \<and> (\<forall>j. length (part_left (tr_parts t' ! j)) = length (part_left (tr_parts t ! j)) - (if j = i \<and> i < length sps then 1 else 0)))
    \<or> (part_step i t = Inl size_exceeded \<and> M < (\<Sum>j < length sps. snd (sps ! j)))"
proof (cases "i < length sps \<and> part_left (tr_parts t ! i) \<noteq> []")
  case False
  then have "part_step i t = Inr t" using ok by (auto simp: part_step_def transfer_ok_def)
  with ok False show ?thesis by auto
next
  case True
  let ?p = "tr_parts t ! i" and ?off = "ws_offset (part_stream (tr_parts t ! i))"
  obtain s n where sp: "sps ! i = (s, n)" by fastforce
  have p: "part_ok R (s, n) ?p" using ok True sp by (auto simp: transfer_ok_def)
  have len: "i < length (tr_parts t)" using ok True by (simp add: transfer_ok_def)
  have "\<exists>b cs. part_left ?p = Inr b # cs"
    using p True by (auto simp: part_ok_def) (metis list.exhaust list.map_disc_iff list.simps(9))
  then obtain b cs where left: "part_left ?p = Inr b # cs" by blast
  note c = part_chunk[OF p left]
  have fl: "length (tr_file t) = length R" using ok by (simp add: transfer_ok_def)
  let ?q = "\<lparr>part_stream = (part_stream ?p)\<lparr>ws_offset := ?off + length b\<rparr>, part_left = cs\<rparr>"
  let ?g = "(tr_measure t)\<lparr>bytes_transferred := bytes_transferred (tr_measure t) + length b\<rparr>"
  let ?t = "t\<lparr>tr_parts := (tr_parts t)[i := ?q], tr_file := write_at ?off b (tr_file t), tr_measure := ?g\<rparr>"
  have m: "max_bytes_transferred (tr_measure t) = M" using ok by (simp add: transfer_ok_def)
  have sum: "bytes_transferred (tr_measure t) = (\<Sum>j < length sps. done_bytes (sps ! j) (tr_parts t ! j))"
    using ok by (simp add: transfer_ok_def)
  have sum': "(\<Sum>j < length sps. done_bytes (sps ! j) ((tr_parts t)[i := ?q] ! j)) =
      (\<Sum>j < length sps. done_bytes (sps ! j) (tr_parts t ! j)) + length b"
  proof (rule sum_change_one)
    show "i < length sps" using True by blast
    show "done_bytes (sps ! j) ((tr_parts t)[i := ?q] ! j) = done_bytes (sps ! j) (tr_parts t ! j)" if "j \<noteq> i" for j
      using that by simp
    show "done_bytes (sps ! i) ((tr_parts t)[i := ?q] ! i) = done_bytes (sps ! i) (tr_parts t ! i) + length b"
      using part_ok_done[OF p] len sp by (simp add: done_bytes_def)
  qed
  have pok: "part_ok R (sps ! j) ((tr_parts t)[i := ?q] ! j)" if "j < length sps" for j
    using ok that c(5) sp len by (cases "j = i") (auto simp: transfer_ok_def)
  have step: "part_step i t = (if bytes_transferred (tr_measure t) + length b > M then Inl size_exceeded else Inr ?t)"
    using len left c(1,4) m by (simp add: part_step_def add_bytes_transferred_def Let_def stream_write_all_def)
  show ?thesis
  proof (cases "bytes_transferred (tr_measure t) + length b > M")
    case True
    have "bytes_transferred (tr_measure t) + length b = (\<Sum>j < length sps. done_bytes (sps ! j) ((tr_parts t)[i := ?q] ! j))"
      using sum sum' by simp
    also have "\<dots> \<le> (\<Sum>j < length sps. snd (sps ! j))"
      using part_ok_offset[OF pok] by (intro sum_mono) simp
    finally show ?thesis using True step by simp
  next
    case False
    have nth: "write_at ?off b (tr_file t) ! x = R ! x"
      if "j < length sps" "fst (sps ! j) \<le> x" "x < ws_offset (part_stream ((tr_parts t)[i := ?q] ! j))" for j x
    proof -
      have xl: "x < length R"
        using part_ok_offset[OF pok[OF that(1)]] that(3) by linarith
      have le: "?off + length b \<le> length (tr_file t)" using c(1,2) fl by linarith
      show ?thesis
      proof (cases "?off \<le> x \<and> x < ?off + length b")
        case True
        then have lt: "x - ?off < length b" "?off + (x - ?off) = x" by linarith+
        have "b ! (x - ?off) = take (length b) (drop ?off R) ! (x - ?off)" by (rule arg_cong[OF c(3)])
        also have "\<dots> = R ! x" using lt c(1,2) by simp
        finally have "b ! (x - ?off) = R ! x" .
        with True show ?thesis using write_at_nth[OF le, of x] xl fl by simp
      next
        case out: False
        have "x < ws_offset (part_stream (tr_parts t ! j))"
          using that(3) out len part_ok_done[OF p] that(2) sp by (cases "j = i") auto
        then have "tr_file t ! x = R ! x" using ok that(1,2) by (auto simp: transfer_ok_def)
        moreover have "write_at ?off b (tr_file t) ! x = tr_file t ! x"
          using write_at_nth[OF le, of x] xl fl out by (simp only: if_False)
        ultimately show ?thesis by (simp only:)
      qed
    qed
    have "length (write_at ?off b (tr_file t)) = length R"
      using write_at_length[of ?off b "tr_file t"] c(1,2) fl by simp
    then have "transfer_ok R M sps ?t"
      using ok pok nth sum sum' m False by (simp add: transfer_ok_def)
    then show ?thesis using False step left len ok True by (auto simp: nth_list_update transfer_ok_def)
  qed
qed

lemma run_schedule_ok:
  assumes "transfer_ok R M sps t"
  shows "(\<exists>t'. run_schedule is t = Inr t' \<and> transfer_ok R M sps t'
            \<and> (\<forall>j < length sps. length (part_left (tr_parts t' ! j)) = length (part_left (tr_parts t ! j)) - count_list is j))
    \<or> (run_schedule is t = Inl size_exceeded \<and> M < (\<Sum>j < length sps. snd (sps ! j)))"
  using assms
proof (induction "is" arbitrary: t)
  case Nil
  then show ?case by simp
next
  case (Cons i "is")
  consider (ok) t' where "part_step i t = Inr t'" "transfer_ok R M sps t'"
      "\<forall>j. length (part_left (tr_parts t' ! j)) = length (part_left (tr_parts t ! j)) - (if j = i \<and> i < length sps then 1 else 0)"
    | (err) "part_step i t = Inl size_exceeded" "M < (\<Sum>j < length sps. snd (sps ! j))"
    using part_step_ok[OF Cons.prems, of i] by blast
  then show ?case
  proof cases
    case err
    then show ?thesis by simp
  next
    case ok
    from Cons.IH[OF ok(2)] show ?thesis
    proof (elim disjE exE conjE)
      fix t'' assume r: "run_schedule is t' = Inr t''" "transfer_ok R M sps t''"
        "\<forall>j < length sps. length (part_left (tr_parts t'' ! j)) = length (part_left (tr_parts t' ! j)) - count_list is j"
      have "length (part_left (tr_parts t'' ! j)) = length (part_left (tr_parts t ! j)) - count_list (i # is) j"
        if "j < length sps" for j using r(3) ok(3) that by auto
      with r ok(1) show ?thesis by auto
    qed (use ok(1) in simp)
  qed
qed

lemma count_list_replicate_nat: "count_list (replicate m n) j = (if j = n then m else 0)"
  by (induction m) auto

lemma count_remaining:
  "j < length (tr_parts t) \<Longrightarrow> count_list (remaining_schedule t) j = length (part_left (tr_parts t ! j))"
proof -
  have c: "count_list (concat (map (\<lambda>i. replicate (f i) i) [0..<n])) j = (if j < n then f j else 0)" for f :: "nat \<Rightarrow> nat" and n
  proof (induction n)
    case (Suc n)
    then show ?case by (auto simp: count_list_append count_list_replicate_nat)
  qed simp
  show "j < length (tr_parts t) \<Longrightarrow> ?thesis" by (simp add: remaining_schedule_def c)
qed

text \<open>A transfer that runs to its end has written every span, in full and correctly.\<close>

lemma run_transfer_ok:
  assumes "transfer_ok R M sps t"
  shows "(\<exists>t'. run_transfer sched t = Inr t' \<and> transfer_ok R M sps t' \<and> (\<forall>j < length sps. part_left (tr_parts t' ! j) = []))
    \<or> (run_transfer sched t = Inl size_exceeded \<and> M < (\<Sum>j < length sps. snd (sps ! j)))"
proof -
  consider (ok) t1 where "run_schedule sched t = Inr t1" "transfer_ok R M sps t1"
    | (err) "run_schedule sched t = Inl size_exceeded" "M < (\<Sum>j < length sps. snd (sps ! j))"
    using run_schedule_ok[OF assms, of sched] by blast
  then show ?thesis
  proof cases
    case err
    then show ?thesis by (simp add: run_transfer_def)
  next
    case ok
    have n: "length (tr_parts t1) = length sps" using ok(2) by (simp add: transfer_ok_def)
    from run_schedule_ok[OF ok(2), of "remaining_schedule t1"] show ?thesis
      using ok(1) count_remaining[of _ t1] n by (auto simp: run_transfer_def)
  qed
qed

lemma finished_transfer:
  assumes ok: "transfer_ok R M sps t" and fin: "\<forall>j < length sps. part_left (tr_parts t ! j) = []"
  shows "(\<Sum>j < length sps. snd (sps ! j)) \<le> M"
    "(\<And>x. x < length R \<Longrightarrow> \<exists>j < length sps. fst (sps ! j) \<le> x \<and> x < fst (sps ! j) + snd (sps ! j)) \<Longrightarrow> tr_file t = R"
proof -
  have full: "ws_offset (part_stream (tr_parts t ! j)) = fst (sps ! j) + snd (sps ! j)" if "j < length sps" for j
  proof -
    obtain s n where sp: "sps ! j = (s, n)" by fastforce
    have "part_ok R (s, n) (tr_parts t ! j)" using ok that sp by (auto simp: transfer_ok_def)
    then obtain k cs where k: "s + n \<le> length R" "k \<le> n" "part_stream (tr_parts t ! j) = \<lparr>ws_offset = s + k, ws_end = s + n + 1\<rparr>"
      "part_left (tr_parts t ! j) = map Inr cs" "concat cs = take (n - k) (drop (s + k) R)" by (auto simp: part_ok_def)
    have "cs = []" using k(4) fin that by simp
    then have "n - k = 0 \<or> length R \<le> s + k" using k(5) by auto
    then have "k = n" using k(1,2) by linarith
    then show ?thesis using k(3) sp by simp
  qed
  have "(\<Sum>j < length sps. snd (sps ! j)) = (\<Sum>j < length sps. done_bytes (sps ! j) (tr_parts t ! j))"
    by (intro sum.cong) (simp_all add: done_bytes_def full)
  then show "(\<Sum>j < length sps. snd (sps ! j)) \<le> M" using ok by (simp add: transfer_ok_def)
  assume cover: "\<And>x. x < length R \<Longrightarrow> \<exists>j < length sps. fst (sps ! j) \<le> x \<and> x < fst (sps ! j) + snd (sps ! j)"
  show "tr_file t = R"
  proof (rule nth_equalityI)
    show "length (tr_file t) = length R" using ok by (simp add: transfer_ok_def)
    fix x assume "x < length (tr_file t)"
    then have "x < length R" using ok by (simp add: transfer_ok_def)
    then obtain j where j: "j < length sps" "fst (sps ! j) \<le> x" "x < fst (sps ! j) + snd (sps ! j)"
      using cover by blast
    have w: "\<forall>p. fst (sps ! j) \<le> p \<and> p < ws_offset (part_stream (tr_parts t ! j)) \<longrightarrow> tr_file t ! p = R ! p"
      using ok j(1) by (simp add: transfer_ok_def)
    show "tr_file t ! x = R ! x" using w[rule_format, of x] j full[OF j(1)] by simp
  qed
qed

section \<open>Ranges as spans\<close>

definition span_of :: "byte_range \<Rightarrow> nat \<times> nat" where
  "span_of r = (range_start r, range_end r + 1 - range_start r)"

text \<open>The ranges request every byte once, and one byte per seam twice.\<close>

lemma split_ranges_sum:
  fixes s :: nat
  assumes "0 < n"
  shows "(\<Sum>r \<leftarrow> split_ranges \<lparr>range_start = s, range_end = s + n - 1\<rparr> n. snd (span_of r)) = n + range_count n - 1"
proof -
  define k where "k = range_count n"
  define len where "len = n div k"
  let ?rem = "\<lparr>range_start = s, range_end = s + n - 1\<rparr>"
  have k: "1 \<le> k" "k \<le> n" using range_count_bounds[OF assms] by (auto simp: k_def)
  then obtain m where m: "k = Suc m" by (cases k) auto
  have len: "1 \<le> len" using k by (simp add: len_def Suc_leI div_greater_zero_iff)
  have kl: "k * len \<le> n" by (simp add: len_def)
  have nth: "split_ranges ?rem n ! i = \<lparr>range_start = s + i * len,
      range_end = (if i + 1 = k then s + n - 1 else s + (i + 1) * len)\<rparr>" if "i < k" for i
    using split_ranges_nth[of i n ?rem] that by (simp add: k_def len_def)
  have "map (\<lambda>r. snd (span_of r)) (split_ranges ?rem n) = map (\<lambda>i. snd (span_of (split_ranges ?rem n ! i))) [0..<k]"
    by (rule nth_equalityI) (simp_all add: split_ranges_length k_def)
  then have "(\<Sum>r \<leftarrow> split_ranges ?rem n. snd (span_of r)) = (\<Sum>i \<leftarrow> [0..<k]. snd (span_of (split_ranges ?rem n ! i)))"
    by (rule arg_cong)
  also have "\<dots> = (\<Sum>i \<leftarrow> [0..<m]. snd (span_of (split_ranges ?rem n ! i))) + snd (span_of (split_ranges ?rem n ! m))"
    by (simp add: m)
  also have "(\<Sum>i \<leftarrow> [0..<m]. snd (span_of (split_ranges ?rem n ! i))) = (\<Sum>i \<leftarrow> [0..<m]. len + 1)"
    using nth m by (intro arg_cong[where f = sum_list] map_cong) (auto simp: span_of_def)
  also have "\<dots> = m * (len + 1)" by (simp add: sum_list_triv)
  also have "snd (span_of (split_ranges ?rem n ! m)) = n - m * len"
    using nth[of m] m assms by (simp add: span_of_def)
  finally have "(\<Sum>r \<leftarrow> split_ranges ?rem n. snd (span_of r)) = m * (len + 1) + (n - m * len)" .
  moreover have "m * len \<le> n" using kl m by simp
  ultimately show ?thesis using m by (simp add: k_def[symmetric] algebra_simps)
qed

lemma split_ranges_valid:
  fixes s :: nat
  assumes "0 < n" and "r \<in> set (split_ranges \<lparr>range_start = s, range_end = s + n - 1\<rparr> n)"
  shows "s \<le> range_start r \<and> range_start r \<le> range_end r \<and> range_end r < s + n"
proof -
  define k where "k = range_count n"
  define len where "len = n div k"
  let ?rem = "\<lparr>range_start = s, range_end = s + n - 1\<rparr>"
  have k: "1 \<le> k" "k \<le> n" using range_count_bounds[OF assms(1)] by (auto simp: k_def)
  have len: "1 \<le> len" using k by (simp add: len_def Suc_leI div_greater_zero_iff)
  have kl: "k * len \<le> n" by (simp add: len_def)
  obtain i where i: "i < k" "r = split_ranges ?rem n ! i"
    using assms(2) by (auto simp: in_set_conv_nth split_ranges_length k_def)
  then have r: "r = \<lparr>range_start = s + i * len, range_end = (if i + 1 = k then s + n - 1 else s + (i + 1) * len)\<rparr>"
    using split_ranges_nth[of i n ?rem] by (simp add: k_def len_def)
  have a: "(i + 1) * len \<le> k * len" using i(1) by (intro mult_le_mono1) simp
  show ?thesis
  proof (cases "i + 1 = k")
    case True
    then have "i * len + len = k * len" by (metis Suc_eq_plus1 add.commute mult_Suc)
    then have "i * len \<le> n - 1" using kl len by linarith
    then show ?thesis using r True assms(1) by simp
  next
    case False
    then have "(i + 2) * len \<le> k * len" using i(1) by (intro mult_le_mono1) simp
    then show ?thesis using r kl len False by simp
  qed
qed

section \<open>An honest server\<close>

text \<open>
  What RFC 7233 asks of a server with range support, for resource \<open>R\<close>: a satisfiable range is
  answered with status 206, a content range clipped to the resource, and exactly those bytes, in
  any chunks.
\<close>

definition honest_response :: "string \<Rightarrow> byte_range \<Rightarrow> response \<Rightarrow> bool" where
  "honest_response R r resp \<longleftrightarrow>
     (let e = min (range_end r) (length R - 1) in
      resp_status resp = 206 \<and>
      resp_content_range resp = Some (content_range_display \<lparr>cr_start = range_start r, cr_end = e, cr_total = length R\<rparr>) \<and>
      resp_compression resp = Inr Identity \<and>
      (\<exists>cs. resp_body resp = map Inr cs \<and> concat cs = take (e + 1 - range_start r) (drop (range_start r) R)))"

definition honest_server :: "string \<Rightarrow> (byte_range option \<Rightarrow> response cache_contents) \<Rightarrow> bool" where
  "honest_server R server \<longleftrightarrow>
     (\<forall>r. range_start r \<le> range_end r \<longrightarrow> range_start r < length R \<longrightarrow>
        (\<exists>resp. server (Some r) = Inr resp \<and> honest_response R r resp))"

lemma honest_part:
  assumes "honest_server R server" and "range_start r \<le> range_end r" and "range_end r < length R"
  shows "part_ok R (span_of r) (open_part st server r)"
proof -
  obtain resp where resp: "server (Some r) = Inr resp" "honest_response R r resp"
    using assms by (auto simp: honest_server_def)
  have e: "min (range_end r) (length R - 1) = range_end r" using assms(3) by simp
  obtain cs where cs: "resp_body resp = map Inr cs" "concat cs = take (range_end r + 1 - range_start r) (drop (range_start r) R)"
    "resp_status resp = 206" "resp_compression resp = Inr Identity"
    using resp(2) unfolding honest_response_def Let_def e by auto
  show ?thesis
    using assms(2,3) cs resp(1)
    by (auto simp: part_ok_def span_of_def open_part_def open_stream_def is_success_def intro!: exI[of _ 0] exI[of _ cs])
qed

lemma initial_transfer_ok:
  assumes "list_all2 (part_ok R) sps ps" and "\<forall>j < length sps. ws_offset (part_stream (ps ! j)) = fst (sps ! j)"
    and "length file = length R"
  shows "transfer_ok R M sps \<lparr>tr_parts = ps, tr_file = file, tr_measure = \<lparr>max_bytes_transferred = M, bytes_transferred = 0\<rparr>\<rparr>"
  using assms by (auto simp: transfer_ok_def list_all2_conv_all_nth done_bytes_def)

lemma download_chunks_ok:
  "bytes_transferred g + length (concat cs) \<le> max_bytes_transferred g \<Longrightarrow>
     \<exists>g'. download_chunks (map Inr cs) g buf = (Inr (), g', buf @ concat cs)"
proof (induction cs arbitrary: g buf)
  case (Cons b cs)
  then show ?case
    using Cons.IH[of "g\<lparr>bytes_transferred := bytes_transferred g + length b\<rparr>" "buf @ b"]
    by (simp add: add_bytes_transferred_def Let_def)
qed simp

text \<open>The parts of a range download of a resource larger than the initial range.\<close>

definition rest_ranges :: "string \<Rightarrow> byte_range list" where
  "rest_ranges R = split_ranges \<lparr>range_start = PARTIAL_SPLIT_SIZE, range_end = length R - 1\<rparr> (length R - PARTIAL_SPLIT_SIZE)"

lemma rest_ranges_alt:
  assumes "PARTIAL_SPLIT_SIZE < length R"
  obtains n where "0 < n" "length R = PARTIAL_SPLIT_SIZE + n"
    "rest_ranges R = split_ranges \<lparr>range_start = PARTIAL_SPLIT_SIZE, range_end = PARTIAL_SPLIT_SIZE + n - 1\<rparr> n"
proof
  show "0 < length R - PARTIAL_SPLIT_SIZE" using assms by simp
  show e: "length R = PARTIAL_SPLIT_SIZE + (length R - PARTIAL_SPLIT_SIZE)" using assms by simp
  show "rest_ranges R = split_ranges \<lparr>range_start = PARTIAL_SPLIT_SIZE,
      range_end = PARTIAL_SPLIT_SIZE + (length R - PARTIAL_SPLIT_SIZE) - 1\<rparr> (length R - PARTIAL_SPLIT_SIZE)"
    unfolding rest_ranges_def e[symmetric] by (rule refl)
qed

definition all_spans :: "string \<Rightarrow> (nat \<times> nat) list" where
  "all_spans R = (0, PARTIAL_SPLIT_SIZE) # map span_of (rest_ranges R)"

lemma all_spans_sum:
  assumes "PARTIAL_SPLIT_SIZE < length R"
  shows "length R \<le> (\<Sum>j < length (all_spans R). snd (all_spans R ! j))"
    "(\<Sum>j < length (all_spans R). snd (all_spans R ! j)) \<le> length R + 3"
    "PARTIAL_SPLIT_SIZE + PARTIAL_SPLIT_SIZE < length R \<Longrightarrow> length R < (\<Sum>j < length (all_spans R). snd (all_spans R ! j))"
proof -
  obtain n where n: "0 < n" "length R = PARTIAL_SPLIT_SIZE + n"
    "rest_ranges R = split_ranges \<lparr>range_start = PARTIAL_SPLIT_SIZE, range_end = PARTIAL_SPLIT_SIZE + n - 1\<rparr> n"
    by (rule rest_ranges_alt[OF assms])
  have "(\<Sum>j < length (all_spans R). snd (all_spans R ! j)) = (\<Sum>sp \<leftarrow> all_spans R. snd sp)"
    by (simp add: sum_list_sum_nth atLeast0LessThan)
  also have "\<dots> = PARTIAL_SPLIT_SIZE + (\<Sum>r \<leftarrow> rest_ranges R. snd (span_of r))"
    by (simp add: all_spans_def comp_def)
  also have "(\<Sum>r \<leftarrow> rest_ranges R. snd (span_of r)) = n + range_count n - 1"
    unfolding n(3) by (rule split_ranges_sum[OF n(1)])
  finally have sum: "(\<Sum>j < length (all_spans R). snd (all_spans R ! j)) = PARTIAL_SPLIT_SIZE + (n + range_count n - 1)" .
  have k: "1 \<le> range_count n" "range_count n \<le> 4" using range_count_bounds[OF n(1)] by auto
  show "length R \<le> (\<Sum>j < length (all_spans R). snd (all_spans R ! j))"
    "(\<Sum>j < length (all_spans R). snd (all_spans R ! j)) \<le> length R + 3"
    unfolding sum using n(2) k by linarith+
  assume "PARTIAL_SPLIT_SIZE + PARTIAL_SPLIT_SIZE < length R"
  then have "PARTIAL_SPLIT_SIZE < n" using n(2) by simp
  then have "div_ceil n PARTIAL_SPLIT_SIZE \<noteq> 1"
    using div_ceil_bounds[of PARTIAL_SPLIT_SIZE n] n(1) by (auto simp: PARTIAL_SPLIT_SIZE_def)
  then have "2 \<le> range_count n" using k(1) by (simp add: range_count_def)
  then show "length R < (\<Sum>j < length (all_spans R). snd (all_spans R ! j))"
    unfolding sum using n(2) by linarith
qed

lemma all_spans_cover:
  assumes "PARTIAL_SPLIT_SIZE < length R" and "x < length R"
  shows "\<exists>j < length (all_spans R). fst (all_spans R ! j) \<le> x \<and> x < fst (all_spans R ! j) + snd (all_spans R ! j)"
proof (cases "x < PARTIAL_SPLIT_SIZE")
  case True
  then show ?thesis by (intro exI[of _ 0]) (simp add: all_spans_def)
next
  case False
  obtain n where n: "0 < n" "length R = PARTIAL_SPLIT_SIZE + n"
    "rest_ranges R = split_ranges \<lparr>range_start = PARTIAL_SPLIT_SIZE, range_end = PARTIAL_SPLIT_SIZE + n - 1\<rparr> n"
    by (rule rest_ranges_alt[OF assms(1)])
  have "x \<in> (\<Union>r \<in> set (rest_ranges R). range_bytes r)"
    unfolding n(3) split_ranges_cover[OF n(1)] using False assms(2) n(2) by simp
  then obtain r where r: "r \<in> set (rest_ranges R)" "x \<in> range_bytes r" by blast
  then obtain j where j: "j < length (rest_ranges R)" "r = rest_ranges R ! j" by (metis in_set_conv_nth)
  show ?thesis
    using r(2) j by (intro exI[of _ "Suc j"]) (auto simp: all_spans_def span_of_def range_bytes_def)
qed

text \<open>How an honest server's answer to the initial range is taken.\<close>

lemma honest_initial:
  assumes "honest_server R server" and "0 < length R" and "length R \<le> u64_max"
  obtains resp cs where "server (Some initial_range) = Inr resp" "resp_status resp = 206"
    "from_response resp = Some (Inr \<lparr>cr_start = 0, cr_end = min PARTIAL_SPLIT_SIZE (length R) - 1, cr_total = length R\<rparr>)"
    "resp_compression resp = Inr Identity" "resp_body resp = map Inr cs"
    "concat cs = take (min PARTIAL_SPLIT_SIZE (length R)) R"
proof -
  have "range_start initial_range \<le> range_end initial_range" "range_start initial_range < length R"
    using assms(2) by (simp_all add: initial_range_def)
  then obtain resp where resp: "server (Some initial_range) = Inr resp" "honest_response R initial_range resp"
    using assms(1) unfolding honest_server_def by blast
  have S: "1 \<le> PARTIAL_SPLIT_SIZE" by (simp add: PARTIAL_SPLIT_SIZE_def)
  have e: "min (range_end initial_range) (length R - 1) = min PARTIAL_SPLIT_SIZE (length R) - 1"
    using S assms(2) by (auto simp: initial_range_def min_def)
  have m: "min PARTIAL_SPLIT_SIZE (length R) - 1 + 1 - 0 = min PARTIAL_SPLIT_SIZE (length R)"
    using S assms(2) by (auto simp: min_def)
  have s0: "range_start initial_range = 0" by (simp add: initial_range_def)
  obtain cs where cs: "resp_body resp = map Inr cs" "concat cs = take (min PARTIAL_SPLIT_SIZE (length R)) R"
    and h: "resp_status resp = 206" "resp_compression resp = Inr Identity"
      "resp_content_range resp = Some (content_range_display \<lparr>cr_start = 0, cr_end = min PARTIAL_SPLIT_SIZE (length R) - 1, cr_total = length R\<rparr>)"
    using resp(2) unfolding honest_response_def Let_def e s0 m by auto
  have "content_range_from_str (content_range_display \<lparr>cr_start = 0, cr_end = min PARTIAL_SPLIT_SIZE (length R) - 1, cr_total = length R\<rparr>)
      = Inr \<lparr>cr_start = 0, cr_end = min PARTIAL_SPLIT_SIZE (length R) - 1, cr_total = length R\<rparr>"
  proof (rule content_range_parse_display)
    have "min PARTIAL_SPLIT_SIZE (length R) - 1 \<le> u64_max"
      using assms(3) min.cobounded2[of PARTIAL_SPLIT_SIZE "length R"] by linarith
    then show "cr_end \<lparr>cr_start = 0, cr_end = min PARTIAL_SPLIT_SIZE (length R) - 1, cr_total = length R\<rparr> \<le> u64_max"
      by simp
  qed (use assms(3) in simp_all)
  then have "from_response resp = Some (Inr \<lparr>cr_start = 0, cr_end = min PARTIAL_SPLIT_SIZE (length R) - 1, cr_total = length R\<rparr>)"
    using h by (simp add: from_response_def)
  from that[OF resp(1) h(1) this h(2) cs] show thesis .
qed

lemma range_transfer_start:
  assumes "honest_server R server" and "PARTIAL_SPLIT_SIZE < length R" and "concat cs = take PARTIAL_SPLIT_SIZE R"
  shows "transfer_ok R M (all_spans R)
    \<lparr>tr_parts = \<lparr>part_stream = open_stream 0 PARTIAL_SPLIT_SIZE, part_left = map Inr cs\<rparr> # map (open_part st server) (rest_ranges R),
     tr_file = set_file_size (length R) file, tr_measure = \<lparr>max_bytes_transferred = M, bytes_transferred = 0\<rparr>\<rparr>"
proof (rule initial_transfer_ok)
  let ?head = "\<lparr>part_stream = open_stream 0 PARTIAL_SPLIT_SIZE, part_left = map Inr cs\<rparr>"
  obtain n where n: "0 < n" "length R = PARTIAL_SPLIT_SIZE + n"
    "rest_ranges R = split_ranges \<lparr>range_start = PARTIAL_SPLIT_SIZE, range_end = PARTIAL_SPLIT_SIZE + n - 1\<rparr> n"
    by (rule rest_ranges_alt[OF assms(2)])
  have head: "part_ok R (0, PARTIAL_SPLIT_SIZE) ?head"
    using assms(2,3) by (auto simp: part_ok_def open_stream_def intro!: exI[of _ 0] exI[of _ cs])
  have parts: "part_ok R (span_of r) (open_part st server r)" if "r \<in> set (rest_ranges R)" for r
    using split_ranges_valid[OF n(1) that[unfolded n(3)]] honest_part[OF assms(1), of r st] n(2) by simp
  show "list_all2 (part_ok R) (all_spans R) (?head # map (open_part st server) (rest_ranges R))"
    using head parts by (simp add: all_spans_def list_all2_map1 list_all2_map2 list.rel_refl_strong)
  show "\<forall>j < length (all_spans R). ws_offset (part_stream ((?head # map (open_part st server) (rest_ranges R)) ! j)) = fst (all_spans R ! j)"
    by (auto simp: all_spans_def open_stream_def span_of_def open_part_def nth_Cons' less_Suc_eq_0_disj)
  show "length (set_file_size (length R) file) = length R" by (simp add: set_file_size_def)
qed

lemma download_range_large:
  assumes "honest_server R server" and "PARTIAL_SPLIT_SIZE < length R" and "length R \<le> u64_max" and "length R \<le> M"
  obtains cs where "concat cs = take PARTIAL_SPLIT_SIZE R"
    "download_range checks st decompress server M sched file =
       Ret (case run_transfer sched \<lparr>tr_parts = \<lparr>part_stream = open_stream 0 PARTIAL_SPLIT_SIZE, part_left = map Inr cs\<rparr> # map (open_part st server) (rest_ranges R),
         tr_file = set_file_size (length R) file, tr_measure = \<lparr>max_bytes_transferred = M, bytes_transferred = 0\<rparr>\<rparr> of
         Inl err \<Rightarrow> (Inl err, set_file_size (length R) file) | Inr t \<Rightarrow> (Inr Identity, tr_file t))"
proof -
  have S: "1 \<le> PARTIAL_SPLIT_SIZE" "min PARTIAL_SPLIT_SIZE (length R) = PARTIAL_SPLIT_SIZE"
    using assms(2) by (simp_all add: PARTIAL_SPLIT_SIZE_def)
  have "0 < length R" using assms(2) by linarith
  from honest_initial[OF assms(1) this assms(3)] obtain resp cs where r: "server (Some initial_range) = Inr resp" "resp_status resp = 206"
    "from_response resp = Some (Inr \<lparr>cr_start = 0, cr_end = PARTIAL_SPLIT_SIZE - 1, cr_total = length R\<rparr>)"
    "resp_compression resp = Inr Identity" "resp_body resp = map Inr cs" "concat cs = take PARTIAL_SPLIT_SIZE R"
    unfolding S(2) by metis
  let ?r = "\<lparr>cr_start = 0, cr_end = PARTIAL_SPLIT_SIZE - 1, cr_total = length R\<rparr>"
  have nf: "\<not> is_full_range ?r" using S(1) assms(2) by (simp add: is_full_range_def)
  have sp: "partial_split checks ?r = Ret (rest_ranges R)"
  proof -
    have "PARTIAL_SPLIT_SIZE - 1 < length R" "length R - 1 \<noteq> PARTIAL_SPLIT_SIZE - 1" "PARTIAL_SPLIT_SIZE - 1 + 1 = PARTIAL_SPLIT_SIZE"
      "length R - 1 - (PARTIAL_SPLIT_SIZE - 1) = length R - PARTIAL_SPLIT_SIZE"
      using assms(2) S(1) by linarith+
    then show ?thesis
      using partial_split_Ret[of ?r checks] assms(3) by (simp only: rest_ranges_def bytes_content_range.simps if_False)
  qed
  have "R \<noteq> []" using assms(2) by auto
  then have "download_range checks st decompress server M sched file =
       Ret (case run_transfer sched \<lparr>tr_parts = \<lparr>part_stream = open_stream 0 PARTIAL_SPLIT_SIZE, part_left = map Inr cs\<rparr> # map (open_part st server) (rest_ranges R),
         tr_file = set_file_size (length R) file, tr_measure = \<lparr>max_bytes_transferred = M, bytes_transferred = 0\<rparr>\<rparr> of
         Inl err \<Rightarrow> (Inl err, set_file_size (length R) file) | Inr t \<Rightarrow> (Inr Identity, tr_file t))"
    using r nf sp assms(4) S(1) by (simp add: download_range_def Let_def split: sum.split)
  with that r(6) show thesis by blast
qed

section \<open>Properties\<close>

lemma honest_small:
  assumes "honest_server R server" and "0 < length R" and "length R \<le> PARTIAL_SPLIT_SIZE" and "length R \<le> u64_max"
    and "length R \<le> M" and "decompress Identity = id"
  shows "download_range checks st decompress server M sched [] = Ret (Inr Identity, R)"
proof -
  have m: "min PARTIAL_SPLIT_SIZE (length R) = length R" using assms(3) by simp
  from honest_initial[OF assms(1,2,4)] obtain resp cs where r: "server (Some initial_range) = Inr resp" "resp_status resp = 206"
    "from_response resp = Some (Inr \<lparr>cr_start = 0, cr_end = length R - 1, cr_total = length R\<rparr>)"
    "resp_compression resp = Inr Identity" "resp_body resp = map Inr cs" "concat cs = take (length R) R"
    unfolding m by metis
  have full: "is_full_range \<lparr>cr_start = 0, cr_end = length R - 1, cr_total = length R\<rparr>"
    using assms(2,4) by (simp add: is_full_range_def)
  let ?g = "\<lparr>max_bytes_transferred = M, bytes_transferred = 0\<rparr>"
  have cs: "concat cs = R" using r(6) by simp
  have "bytes_transferred ?g + length (concat cs) \<le> max_bytes_transferred ?g" using cs assms(5) by simp
  from download_chunks_ok[OF this, of "[]"] obtain g' where d: "download_chunks (map Inr cs) ?g [] = (Inr (), g', R)"
    using cs by auto
  have "download_plain st decompress (Inr resp) ?g [] = (Inr Identity, R)"
    using r d assms(6) by (simp add: download_plain_def is_success_def)
  then show ?thesis
    using r full by (simp add: download_range_def Let_def is_success_def)
qed

text \<open>
  C2. The concurrent range download refines a copy of the resource: against a server that answers
  range requests as RFC 7233 asks, in chunks of any size, the destination holds exactly the
  resource when the download succeeds, and it does succeed, for every interleaving of the
  streams, with no panic, provided the limit leaves room for the (at most three) bytes that
  neighbouring ranges request twice.
\<close>

theorem range_download_exact:
  assumes "honest_server R server" and "0 < length R" and "length R \<le> u64_max" and "length R + 3 \<le> M"
    and "decompress Identity = id"
  shows "download_range checks status_text decompress server M sched [] = Ret (Inr Identity, R)"
proof (cases "length R \<le> PARTIAL_SPLIT_SIZE")
  case True
  have "length R \<le> M" using assms(4) by simp
  with assms True show ?thesis by (intro honest_small)
next
  case False
  then have large: "PARTIAL_SPLIT_SIZE < length R" by simp
  have M: "length R \<le> M" using assms(4) by simp
  from download_range_large[OF assms(1) large assms(3) M, of checks status_text decompress sched "[]"] obtain cs where
    cs: "concat cs = take PARTIAL_SPLIT_SIZE R" and
    run: "download_range checks status_text decompress server M sched [] =
       Ret (case run_transfer sched \<lparr>tr_parts = \<lparr>part_stream = open_stream 0 PARTIAL_SPLIT_SIZE, part_left = map Inr cs\<rparr> # map (open_part status_text server) (rest_ranges R),
         tr_file = set_file_size (length R) [], tr_measure = \<lparr>max_bytes_transferred = M, bytes_transferred = 0\<rparr>\<rparr> of
         Inl err \<Rightarrow> (Inl err, set_file_size (length R) []) | Inr t \<Rightarrow> (Inr Identity, tr_file t))" .
  have "\<not> M < (\<Sum>j < length (all_spans R). snd (all_spans R ! j))" using all_spans_sum(2)[OF large] assms(4) by simp
  with run_transfer_ok[OF range_transfer_start[OF assms(1) large cs, of M status_text "[]"], of sched]
  obtain t' where t': "run_transfer sched \<lparr>tr_parts = \<lparr>part_stream = open_stream 0 PARTIAL_SPLIT_SIZE, part_left = map Inr cs\<rparr> # map (open_part status_text server) (rest_ranges R),
         tr_file = set_file_size (length R) [], tr_measure = \<lparr>max_bytes_transferred = M, bytes_transferred = 0\<rparr>\<rparr> = Inr t'"
    "transfer_ok R M (all_spans R) t'" "\<forall>j < length (all_spans R). part_left (tr_parts t' ! j) = []" by blast
  have "tr_file t' = R" by (rule finished_transfer(2)[OF t'(2,3) all_spans_cover[OF large]])
  then show ?thesis unfolding run t'(1) by simp
qed

text \<open>A server that answers with one chunk.\<close>

definition one_chunk_server :: "string \<Rightarrow> byte_range option \<Rightarrow> response cache_contents" where
  "one_chunk_server R q = (case q of
      None \<Rightarrow> Inr \<lparr>resp_status = 200, resp_content_range = None, resp_compression = Inr Identity, resp_body = [Inr R]\<rparr>
    | Some r \<Rightarrow> (let e = min (range_end r) (length R - 1) in
        Inr \<lparr>resp_status = 206,
          resp_content_range = Some (content_range_display \<lparr>cr_start = range_start r, cr_end = e, cr_total = length R\<rparr>),
          resp_compression = Inr Identity,
          resp_body = map Inr [take (e + 1 - range_start r) (drop (range_start r) R)]\<rparr>))"

lemma one_chunk_server_honest: "honest_server R (one_chunk_server R)"
proof -
  have "honest_response R r resp" if "one_chunk_server R (Some r) = Inr resp" for r resp
  proof -
    let ?b = "take (min (range_end r) (length R - 1) + 1 - range_start r) (drop (range_start r) R)"
    have "resp_body resp = map Inr [?b] \<and> concat [?b] = ?b" using that by (auto simp: one_chunk_server_def Let_def)
    then have "\<exists>cs. resp_body resp = map Inr cs \<and> concat cs = ?b" by blast
    then show ?thesis using that by (auto simp: honest_response_def one_chunk_server_def Let_def simp del: concat.simps)
  qed
  then show ?thesis by (auto simp: honest_server_def one_chunk_server_def Let_def)
qed

theorem range_download_exact_witness:
  "download_range True (\<lambda>_. ''error'') (\<lambda>_. id) (one_chunk_server (replicate (3 * PARTIAL_SPLIT_SIZE) CHR ''x''))
     (4 * PARTIAL_SPLIT_SIZE) [2, 1, 0] [] = Ret (Inr Identity, replicate (3 * PARTIAL_SPLIT_SIZE) CHR ''x'')"
proof (rule range_download_exact)
qed (simp_all add: one_chunk_server_honest u64_max_def PARTIAL_SPLIT_SIZE_def del: replicate.simps)

text \<open>
  A resource of exactly the maximum size is refused when it needs more than two ranges: the
  size check against the advertised size passes, but the bytes requested twice are counted
  against the limit, so every interleaving ends in the error of an exceeded size.
\<close>

theorem file_at_size_limit_rejected:
  assumes "honest_server R server" and "length R \<le> u64_max" and "2 * PARTIAL_SPLIT_SIZE < length R"
  shows "\<exists>file'. download_range checks status_text decompress server (length R) sched file = Ret (Inl size_exceeded, file')"
proof -
  have large: "PARTIAL_SPLIT_SIZE < length R" using assms(3) by simp
  from download_range_large[OF assms(1) large assms(2) order.refl, of checks status_text decompress sched "file"] obtain cs where
    cs: "concat cs = take PARTIAL_SPLIT_SIZE R" and
    run: "download_range checks status_text decompress server (length R) sched file =
       Ret (case run_transfer sched \<lparr>tr_parts = \<lparr>part_stream = open_stream 0 PARTIAL_SPLIT_SIZE, part_left = map Inr cs\<rparr> # map (open_part status_text server) (rest_ranges R),
         tr_file = set_file_size (length R) file, tr_measure = \<lparr>max_bytes_transferred = length R, bytes_transferred = 0\<rparr>\<rparr> of
         Inl err \<Rightarrow> (Inl err, set_file_size (length R) file) | Inr t \<Rightarrow> (Inr Identity, tr_file t))" .
  have gt: "length R < (\<Sum>j < length (all_spans R). snd (all_spans R ! j))"
    using all_spans_sum(3)[OF large] assms(3) by simp
  from run_transfer_ok[OF range_transfer_start[OF assms(1) large cs, of "length R" status_text "file"], of sched]
  have "run_transfer sched \<lparr>tr_parts = \<lparr>part_stream = open_stream 0 PARTIAL_SPLIT_SIZE, part_left = map Inr cs\<rparr> # map (open_part status_text server) (rest_ranges R),
         tr_file = set_file_size (length R) file, tr_measure = \<lparr>max_bytes_transferred = length R, bytes_transferred = 0\<rparr>\<rparr> = Inl size_exceeded"
  proof (elim disjE exE conjE)
    fix t' assume t': "transfer_ok R (length R) (all_spans R) t'" "\<forall>j < length (all_spans R). part_left (tr_parts t' ! j) = []"
    from finished_transfer(1)[OF t'] gt have False by linarith
    then show ?thesis ..
  qed
  then show ?thesis unfolding run by simp
qed

theorem file_at_size_limit_rejected_witness:
  "\<exists>file'. download_range True (\<lambda>_. ''error'') (\<lambda>_ b. b) (one_chunk_server (replicate (3 * PARTIAL_SPLIT_SIZE) CHR ''x''))
     (length (replicate (3 * PARTIAL_SPLIT_SIZE) CHR ''x'')) [] [] = Ret (Inl size_exceeded, file')"
proof (rule file_at_size_limit_rejected)
qed (simp_all only: one_chunk_server_honest length_replicate, simp_all add: u64_max_def PARTIAL_SPLIT_SIZE_def)

text \<open>
  Retrying ends after at most three tries: the result is that of the first try that is
  final (a success, a missing file or a permission error), and of the third try if none was.
\<close>

theorem retry_at_most_three:
  "\<exists>n. 1 \<le> n \<and> n \<le> 3 \<and> retry task = task n \<and> (n = 3 \<or> should_not_retry (task n))
     \<and> (\<forall>k < n. k = 0 \<or> \<not> should_not_retry (task k))"
proof -
  have u: "retry task = (if should_not_retry (task 1) then task 1 else if should_not_retry (task 2) then task 2 else task 3)"
    by (simp add: retry_def retry_loop.simps[of task 0] retry_loop.simps[of task 1] retry_loop.simps[of task 2] Let_def
        retry_loop.simps[of task "Suc 0"] retry_loop.simps[of task "Suc (Suc 0)"] numeral_2_eq_2 numeral_3_eq_3)
  consider "should_not_retry (task 1)" | "\<not> should_not_retry (task 1)" "should_not_retry (task 2)"
    | "\<not> should_not_retry (task 1)" "\<not> should_not_retry (task 2)" by blast
  then show ?thesis
  proof cases
    case 1 then show ?thesis unfolding u by (intro exI[of _ 1]) auto
  next
    case 2
    then have "\<forall>k < 2. k = 0 \<or> \<not> should_not_retry (task k)" by (auto simp: less_2_cases_iff)
    with 2 show ?thesis unfolding u by (intro exI[of _ 2]) simp
  next
    case 3
    have "k = 0 \<or> \<not> should_not_retry (task k)" if "k < 3" for k
    proof -
      have "k = 0 \<or> k = 1 \<or> k = 2" using that by linarith
      then show ?thesis using 3 by auto
    qed
    with 3 show ?thesis unfolding u by (intro exI[of _ 3]) simp
  qed
qed

theorem retry_at_most_three_witness:
  "retry (\<lambda>n. if n < 2 then Inl (Timeout 1) else Inr n) = Inr (2 :: nat)"
proof -
  let ?t = "\<lambda>n. if n < 2 then Inl (Timeout 1) else Inr (n :: nat)"
  obtain n where n: "1 \<le> n" "n \<le> 3" "retry ?t = ?t n" "n = 3 \<or> should_not_retry (?t n)"
    "\<forall>k < n. k = 0 \<or> \<not> should_not_retry (?t k)"
    using retry_at_most_three[of ?t] by blast
  have "should_not_retry (?t 2)" "\<not> should_not_retry (?t 1)" by (simp_all add: should_not_retry_def)
  then have "n \<noteq> 1" "\<not> 2 < n" using n(4,5) by auto
  then have "n = 2" using n(1) by linarith
  then show ?thesis using n(3) by simp
qed

text \<open>
  C39. Circuit breaking: when a download from a plain HTTP source ends in a download error or a
  timeout that reaches the threshold of its window, then until the block time is over every
  further download from that host fails at once with the stored reason, whatever the server would
  have answered, and leaves the deny list as it is.
\<close>

theorem failing_host_is_blocked:
  assumes "dl_metric_key q = ''http''" and "is_blocked now (dl_host q) L = None" and "is_blocked end_time (dl_host q) L = None"
    and "counts_as_failure (job_contents timeout job) = Some e"
    and "0 < bucket_size_millis L" and "end_time < 2 ^ 64" and "time_window_millis L + bucket_size_millis L \<le> end_time"
    and "dl_host q \<notin> set (never_block L)"
    and "failure_threshold L \<le> total_failures (end_time - end_time mod bucket_size_millis L - time_window_millis L)
        (trim_queue L (push_failure (end_time - end_time mod bucket_size_millis L) (failure_queue end_time (dl_host q) L)))"
  shows "\<exists>L'. download D checks timeout now end_time q job (Some L) = Ret (job_contents timeout job, Some L')
    \<and> (\<forall>t end_time' q' job'. end_time \<le> t \<and> t < end_time + block_time L \<and> dl_metric_key q' = ''http'' \<and> dl_host q' = dl_host q \<longrightarrow>
          download D checks timeout t end_time' q' job' (Some L') = Ret (Inl (format_error D (dl_host q) e L'), Some L'))"
proof -
  let ?L = "L\<lparr>dl_failures := (dl_failures L)(dl_host q \<mapsto> (end_time,
        trim_queue L (push_failure (end_time - end_time mod bucket_size_millis L) (failure_queue end_time (dl_host q) L)))),
      blocked_hosts := (blocked_hosts L)(dl_host q \<mapsto> (end_time, e))\<rparr>"
  have "register_failure checks end_time (dl_host q) e L = Ret ?L"
    using register_failure_eq[OF assms(3,5,6,7), of checks e] assms(8,9) by simp
  then have "download D checks timeout now end_time q job (Some L) = Ret (job_contents timeout job, Some ?L)"
    using assms(1,2,4) by (simp add: download_def source_can_be_blocked_def Let_def)
  moreover have "is_blocked t (dl_host q) ?L = Some e" if "t < end_time + block_time L" for t
    using that by (simp add: is_blocked_def live_entry_def)
  ultimately show ?thesis
    by (intro exI[of _ ?L]) (auto simp: download_def source_can_be_blocked_def)
qed

theorem failing_host_is_blocked_witness:
  "\<exists>L'. download demo_durations True 7 9400 9500 \<lparr>dl_host = ''test'', dl_metric_key = ''http''\<rparr> (JobTimeout :: unit job_result)
      (Some (demo_deny_list\<lparr>dl_failures := [''test'' \<mapsto> (9400, [\<lparr>timestamp = 9000, fc_failures = 1\<rparr>])]\<rparr>)) = Ret (Inl (Timeout 7), Some L')
    \<and> download demo_durations True 7 9599 9600 \<lparr>dl_host = ''test'', dl_metric_key = ''http''\<rparr> (JobDone (Inr ()))
        (Some L') = Ret (Inl (format_error demo_durations ''test'' (Timeout 7) L'), Some L')"
proof -
  let ?L = "demo_deny_list\<lparr>dl_failures := [''test'' \<mapsto> (9400, [\<lparr>timestamp = 9000, fc_failures = 1\<rparr>])]\<rparr>"
  let ?q = "\<lparr>dl_host = ''test'', dl_metric_key = ''http''\<rparr>"
  have h: "dl_metric_key ?q = ''http''" "is_blocked 9400 (dl_host ?q) ?L = None" "is_blocked 9500 (dl_host ?q) ?L = None"
    "counts_as_failure (job_contents 7 (JobTimeout :: unit job_result)) = Some (Timeout 7)"
    "0 < bucket_size_millis ?L" "9500 < (2 :: nat) ^ 64" "time_window_millis ?L + bucket_size_millis ?L \<le> 9500"
    "dl_host ?q \<notin> set (never_block ?L)"
    by (simp_all add: demo_deny_list_def is_blocked_def live_entry_def counts_as_failure_def job_contents_def)
  have t: "failure_threshold ?L \<le> total_failures (9500 - 9500 mod bucket_size_millis ?L - time_window_millis ?L)
      (trim_queue ?L (push_failure (9500 - 9500 mod bucket_size_millis ?L) (failure_queue 9500 (dl_host ?q) ?L)))"
    by (simp add: demo_deny_list_def failure_queue_def live_entry_def push_failure_def trim_queue_def max_queue_len_def
        total_failures_def)
  have b: "(9500 :: nat) \<le> 9599" "9599 < 9500 + block_time ?L" by (simp_all add: demo_deny_list_def)
  from failing_host_is_blocked[OF h t, of demo_durations True] b h(1) show ?thesis
    unfolding job_contents_def job_result.case by (metis download_request.select_convs(1))
qed

end
