(* ===== verification/SortedVec.thy ===== *)
theory SortedVec
  imports Prelude
begin

text \<open>
  Operations of the Rust standard library on sorted vectors: the binary search of slices, stable
  sorting and the removal of adjacent duplicates by key, insertion at an index. The components
  that keep a vector sorted rest on the elimination rule \<open>binary_search_cases\<close>.
\<close>

section \<open>Operations\<close>

text \<open>The search keeps a window of \<open>n\<close> elements from \<open>base\<close> on and halves it.\<close>

function search_loop :: "('a \<Rightarrow> 'k :: linorder) \<Rightarrow> 'k \<Rightarrow> 'a list \<Rightarrow> nat \<Rightarrow> nat \<Rightarrow> nat" where
  "search_loop key k xs base n =
     (if n \<le> 1 then base
      else let half = n div 2; mid = base + half
           in search_loop key k xs (if k < key (xs ! mid) then base else mid) (n - half))"
  by pat_completeness auto
termination by (relation "measure (\<lambda>(_, _, _, _, n). n)") auto

declare search_loop.simps [simp del]

text \<open>\<open>Ok(i)\<close> is \<open>Inr i\<close>: a hit; \<open>Err(i)\<close> is \<open>Inl i\<close>: where an insertion keeps the order.\<close>

definition binary_search_by_key :: "('a \<Rightarrow> 'k :: linorder) \<Rightarrow> 'k \<Rightarrow> 'a list \<Rightarrow> nat + nat" where
  "binary_search_by_key key k xs =
     (if xs = [] then Inl 0
      else let base = search_loop key k xs 0 (length xs)
           in if key (xs ! base) = k then Inr base
              else Inl (if key (xs ! base) < k then base + 1 else base))"

definition vec_insert :: "nat \<Rightarrow> 'a \<Rightarrow> 'a list \<Rightarrow> 'a list" where
  "vec_insert i x xs = take i xs @ x # drop i xs"

text \<open>\<open>dedup_by_key\<close>: of adjacent elements with equal keys, the first is kept.\<close>

function dedup_by_key :: "('a \<Rightarrow> 'k) \<Rightarrow> 'a list \<Rightarrow> 'a list" where
  "dedup_by_key key [] = []"
| "dedup_by_key key (x # xs) =
     x # dedup_by_key key (dropWhile (\<lambda>y. key y = key x) xs)"
  by pat_completeness auto
termination by (relation "measure (\<lambda>(_, xs). length xs)") (auto intro: le_imp_less_Suc length_dropWhile_le)

section \<open>Strictly sorted by a key\<close>

definition sorted_by :: "('a \<Rightarrow> 'k :: linorder) \<Rightarrow> 'a list \<Rightarrow> bool" where
  "sorted_by key xs \<longleftrightarrow> sorted_wrt (\<lambda>x y. key x < key y) xs"

lemma sorted_by_simps [simp]:
  "sorted_by key []"
  "sorted_by key (x # xs) \<longleftrightarrow> (\<forall>y \<in> set xs. key x < key y) \<and> sorted_by key xs"
  "sorted_by key (xs @ ys) \<longleftrightarrow> sorted_by key xs \<and> sorted_by key ys \<and> (\<forall>x \<in> set xs. \<forall>y \<in> set ys. key x < key y)"
  by (auto simp: sorted_by_def sorted_wrt_append)

lemma sorted_by_nth: "sorted_by key xs \<Longrightarrow> i < j \<Longrightarrow> j < length xs \<Longrightarrow> key (xs ! i) < key (xs ! j)"
  by (simp add: sorted_by_def sorted_wrt_iff_nth_less)

lemma sorted_by_nth_le: "sorted_by key xs \<Longrightarrow> i \<le> j \<Longrightarrow> j < length xs \<Longrightarrow> key (xs ! i) \<le> key (xs ! j)"
  using sorted_by_nth[of key xs i j] by (cases "i = j") (auto intro: less_imp_le)

section \<open>Correctness of the search\<close>

lemma search_loop_spec:
  assumes "sorted_by key xs" and "1 \<le> n" and "base + n \<le> length xs"
    and "\<forall>i < length xs. base + n \<le> i \<longrightarrow> k < key (xs ! i)"
    and "base = 0 \<or> key (xs ! base) \<le> k"
  shows "search_loop key k xs base n < length xs
    \<and> (\<forall>i < length xs. search_loop key k xs base n < i \<longrightarrow> k < key (xs ! i))
    \<and> (search_loop key k xs base n = 0 \<or> key (xs ! search_loop key k xs base n) \<le> k)"
  using assms
proof (induction key k xs base n rule: search_loop.induct)
  case (1 key k xs base n)
  show ?case
  proof (cases "n \<le> 1")
    case True
    then have "search_loop key k xs base n = base" by (simp add: search_loop.simps[of key k xs base n])
    moreover have "n = 1" using True 1(3) by simp
    ultimately show ?thesis using 1(4,5,6) by auto
  next
    case False
    let ?half = "n div 2"
    let ?base = "if k < key (xs ! (base + ?half)) then base else base + ?half"
    have step: "search_loop key k xs base n = search_loop key k xs ?base (n - ?half)"
      using False by (simp add: search_loop.simps[of key k xs base n] Let_def)
    have mid: "base + ?half < length xs" using 1(4) False by linarith
    have above: "\<forall>i < length xs. ?base + (n - ?half) \<le> i \<longrightarrow> k < key (xs ! i)"
    proof (intro allI impI)
      fix i assume i: "i < length xs" "?base + (n - ?half) \<le> i"
      show "k < key (xs ! i)"
      proof (cases "k < key (xs ! (base + ?half))")
        case True
        then have "base + ?half \<le> i" using i(2) by simp
        then show ?thesis using True sorted_by_nth_le[OF 1(2) _ i(1)] by (meson less_le_trans)
      next
        case False
        then have "base + n \<le> i" using i(2) by simp
        then show ?thesis using 1(5) i(1) by blast
      qed
    qed
    have "?base = 0 \<or> key (xs ! ?base) \<le> k" using 1(6) by auto
    moreover have "1 \<le> n - ?half" "?base + (n - ?half) \<le> length xs" using 1(4) False by auto
    ultimately show ?thesis
      unfolding step using 1(1)[OF False refl refl 1(2) _ _ above] by blast
  qed
qed

lemma binary_search_cases:
  assumes "sorted_by key xs"
  obtains (found) ys x zs where "xs = ys @ x # zs" "key x = k" "binary_search_by_key key k xs = Inr (length ys)"
  | (missing) ys zs where "xs = ys @ zs" "\<forall>y \<in> set ys. key y < k" "\<forall>z \<in> set zs. k < key z"
      "binary_search_by_key key k xs = Inl (length ys)"
proof (cases "xs = []")
  case True
  then show thesis by (intro missing[of "[]" "[]"]) (simp_all add: binary_search_by_key_def)
next
  case False
  define b where "b = search_loop key k xs 0 (length xs)"
  have b: "b < length xs" "\<forall>i < length xs. b < i \<longrightarrow> k < key (xs ! i)" "b = 0 \<or> key (xs ! b) \<le> k"
    using search_loop_spec[OF assms, of "length xs" 0 k] False by (auto simp: b_def Suc_leI)
  have r: "binary_search_by_key key k xs =
      (if key (xs ! b) = k then Inr b else Inl (if key (xs ! b) < k then b + 1 else b))"
    using False by (simp add: binary_search_by_key_def b_def Let_def)
  have split: "xs = take b xs @ xs ! b # drop (Suc b) xs" using b(1) by (rule id_take_nth_drop)
  have below: "\<forall>y \<in> set (take b xs). key y < key (xs ! b)"
    using sorted_by_nth[OF assms] b(1) by (auto simp: in_set_conv_nth)
  have above: "\<forall>z \<in> set (drop (Suc b) xs). k < key z"
    using b(2) by (auto simp: in_set_conv_nth)
  consider "key (xs ! b) = k" | "key (xs ! b) < k" | "k < key (xs ! b)" by (rule linorder_cases)
  then show thesis
  proof cases
    case 1
    then show thesis using found[OF split] r b(1) by simp
  next
    case 2
    have "xs = take (Suc b) xs @ drop (Suc b) xs" by simp
    moreover have "\<forall>y \<in> set (take (Suc b) xs). key y < k"
      using below 2 b(1) by (auto simp: take_Suc_conv_app_nth)
    moreover have "binary_search_by_key key k xs = Inl (length (take (Suc b) xs))" using r 2 b(1) by simp
    ultimately show thesis using missing above by blast
  next
    case 3
    then have "b = 0" using b(3) by auto
    then have "\<forall>z \<in> set xs. k < key z" using above split 3 by (metis append_Nil set_ConsD take0)
    moreover have "binary_search_by_key key k xs = Inl 0" using 3 r \<open>b = 0\<close> by auto
    ultimately show thesis using missing[of "[]" xs] by simp
  qed
qed

section \<open>The map a sorted vector stands for\<close>

definition vec_map :: "('a \<Rightarrow> 'k) \<Rightarrow> 'a list \<Rightarrow> 'k \<Rightarrow> 'a option" where
  "vec_map key xs = map_of (map (\<lambda>x. (key x, x)) xs)"

lemma vec_map_simps [simp]:
  "vec_map key [] = Map.empty"
  "vec_map key (x # xs) = (vec_map key xs)(key x \<mapsto> x)"
  "vec_map key (xs @ ys) = vec_map key ys ++ vec_map key xs"
  by (simp_all add: vec_map_def)

lemma vec_map_None: "vec_map key xs k = None \<longleftrightarrow> (\<forall>x \<in> set xs. key x \<noteq> k)"
  by (induction xs) auto

lemma vec_map_Some_key: "vec_map key xs k = Some x \<Longrightarrow> key x = k \<and> x \<in> set xs"
  by (induction xs) (auto split: if_splits)

lemma vec_map_sorted: "sorted_by key xs \<Longrightarrow> vec_map key xs k = Some x \<longleftrightarrow> x \<in> set xs \<and> key x = k"
  by (induction xs) auto

text \<open>A strictly sorted vector is determined by its map.\<close>

lemma sorted_by_unique:
  assumes "sorted_by key xs" and "sorted_by key ys" and "vec_map key xs = vec_map key ys"
  shows "xs = ys"
proof -
  have "set xs = set ys"
    using vec_map_sorted[OF assms(1)] vec_map_sorted[OF assms(2)] assms(3) by auto
  then show ?thesis using assms(1,2)
  proof (induction xs arbitrary: ys)
    case (Cons x xs)
    then obtain y ys' where ys: "ys = y # ys'" by (cases ys) auto
    have "x = y"
    proof (rule ccontr)
      assume "x \<noteq> y"
      then have "y \<in> set xs" "x \<in> set ys'" using Cons.prems(1) ys by auto
      then have "key x < key y" "key y < key x" using Cons.prems(2,3) ys by auto
      then show False by simp
    qed
    moreover from this have "set xs = set ys'" using Cons.prems ys by fastforce
    ultimately show ?case using Cons ys by simp
  qed simp
qed

section \<open>Sorting and removing duplicates\<close>

lemma dedup_set: "set (dedup_by_key key xs) \<subseteq> set xs"
proof (induction key xs rule: dedup_by_key.induct)
  case (2 key x xs)
  then show ?case using set_dropWhileD[of _ "\<lambda>y. key y = key x" xs] by auto
qed simp

lemma dropWhile_above:
  fixes key :: "'a \<Rightarrow> 'k :: linorder"
  assumes "sorted (map key (x # xs))" and "y \<in> set (dropWhile (\<lambda>y. key y = key x) xs)"
  shows "key x < key y"
  using assms
proof (induction xs)
  case (Cons z zs)
  then show ?case by (auto split: if_splits)
qed simp

lemma dedup_sorted:
  fixes key :: "'a \<Rightarrow> 'k :: linorder"
  shows "sorted (map key xs) \<Longrightarrow> sorted_by key (dedup_by_key key xs)"
proof (induction key xs rule: dedup_by_key.induct)
  case (2 key x xs)
  have "sorted (map key (dropWhile (\<lambda>y. key y = key x) xs))"
    using 2(2) by (metis (no_types, lifting) dropWhile_eq_drop drop_map list.simps(9) sorted_simps(2) sorted_wrt_drop)
  then have "sorted_by key (dedup_by_key key (dropWhile (\<lambda>y. key y = key x) xs))" by (rule 2(1))
  moreover have "\<forall>y \<in> set (dedup_by_key key (dropWhile (\<lambda>y. key y = key x) xs)). key x < key y"
    using dropWhile_above[OF 2(2)] dedup_set by fastforce
  ultimately show ?case by simp
qed simp

lemma dropWhile_vec_map: "k \<noteq> key x \<Longrightarrow> vec_map key (dropWhile (\<lambda>y. key y = key x) xs) k = vec_map key xs k"
  by (induction xs) auto

lemma dedup_vec_map: "vec_map key (dedup_by_key key xs) = vec_map key xs"
proof (induction key xs rule: dedup_by_key.induct)
  case (2 key x xs)
  then show ?case by (auto simp: dropWhile_vec_map)
qed simp

text \<open>Stable sorting does not change which element of a key comes first.\<close>

lemma insort_vec_map: "vec_map key (insort_key key x xs) = (vec_map key xs)(key x \<mapsto> x)"
proof (induction xs)
  case (Cons y ys)
  then show ?case by (cases "key x = key y") (auto simp: fun_upd_twist)
qed simp

lemma sort_vec_map: "vec_map key (sort_key key xs) = vec_map key xs"
  by (induction xs) (simp_all add: insort_vec_map)

end
