(* ===== verification/Candidates.thy ===== *)
theory Candidates
  imports SortedVec SourceIter CacheErrors "HOL-Library.List_Lexorder" "HOL-Library.Char_ord" "HOL-Library.Product_Lexorder"
begin

text \<open>
  \<open>objects/candidates.rs\<close>: the candidates for a debug file that are reported to the user, kept in a
  vector that is sorted and unique by source and location. Strings are ordered by their bytes.
\<close>

section \<open>Definitions\<close>

datatype srcsrv_vcs = Git | Perforce | OtherVcs

text \<open>\<open>str::contains\<close>\<close>

definition str_contains :: "string \<Rightarrow> string \<Rightarrow> bool" where
  "str_contains s p \<longleftrightarrow> list_ex (\<lambda>i. starts_with (drop i s) p) [0..<Suc (length s)]"

definition from_vcs_name :: "externals \<Rightarrow> string \<Rightarrow> srcsrv_vcs" where
  "from_vcs_name X vcs_name =
     (let vcs_lower = unicode_lower X vcs_name
      in if str_contains vcs_lower ''git'' then Git
         else if str_contains vcs_lower ''perforce'' then Perforce
         else OtherVcs)"

definition vcs_as_str :: "srcsrv_vcs \<Rightarrow> string" where
  "vcs_as_str v = (case v of Git \<Rightarrow> ''git'' | Perforce \<Rightarrow> ''perforce'' | OtherVcs \<Rightarrow> ''other'')"

record object_features =
  has_debug_info :: bool
  has_unwind_info :: bool
  has_symbols :: bool
  has_sources :: bool
  srcsrv :: "srcsrv_vcs option"

definition default_features :: object_features where
  "default_features = \<lparr>has_debug_info = False, has_unwind_info = False, has_symbols = False, has_sources = False, srcsrv = None\<rparr>"

definition merge_features :: "object_features \<Rightarrow> object_features \<Rightarrow> object_features" where
  "merge_features a b =
     \<lparr>has_debug_info = has_debug_info a \<or> has_debug_info b,
      has_unwind_info = has_unwind_info a \<or> has_unwind_info b,
      has_symbols = has_symbols a \<or> has_symbols b,
      has_sources = has_sources a \<or> has_sources b,
      srcsrv = (if srcsrv a = None then srcsrv b else srcsrv a)\<rparr>"

datatype object_download_info =
    DlOk object_features
  | DlMalformed
  | DlNoPerm string
  | DlNotFound
  | DlError string

datatype object_use_info = UseOk | UseMalformed | UseError string | UseNone

record object_candidate =
  cand_source :: string
  cand_location :: string
  cand_download :: object_download_info
  cand_unwind :: object_use_info
  cand_debug :: object_use_info

datatype candidate_status = StatusDebug | StatusUnwind | StatusNone

type_synonym all_candidates = "object_candidate list"

definition cand_key :: "object_candidate \<Rightarrow> string \<times> string" where
  "cand_key c = (cand_source c, cand_location c)"

definition set_use :: "candidate_status \<Rightarrow> object_use_info \<Rightarrow> object_candidate \<Rightarrow> object_candidate outcome" where
  "set_use s info c = (case s of
      StatusDebug \<Rightarrow> Ret (c\<lparr>cand_debug := info\<rparr>)
    | StatusUnwind \<Rightarrow> Ret (c\<lparr>cand_unwind := info\<rparr>)
    | StatusNone \<Rightarrow> Panic)"

text \<open>\<open>set_status\<close>: a missing candidate is only reported to Sentry.\<close>

definition set_status :: "candidate_status \<Rightarrow> string \<Rightarrow> string \<Rightarrow> object_use_info \<Rightarrow> all_candidates \<Rightarrow> all_candidates outcome" where
  "set_status s source uri info cs =
     (if s = StatusNone then Ret cs
      else (case binary_search_by_key cand_key (source, uri) cs of
              Inr i \<Rightarrow> if i < length cs then map_out (\<lambda>c. cs[i := c]) (set_use s info (cs ! i)) else Ret cs
            | Inl _ \<Rightarrow> Ret cs))"

definition merge_candidate :: "object_candidate \<Rightarrow> object_candidate \<Rightarrow> object_candidate" where
  "merge_candidate info c =
     (let info = info\<lparr>cand_download := cand_download c\<rparr>;
          info = (if cand_unwind c \<noteq> UseNone then info\<lparr>cand_unwind := cand_unwind c\<rparr> else info)
      in if cand_debug c \<noteq> UseNone then info\<lparr>cand_debug := cand_debug c\<rparr> else info)"

definition merge_one :: "object_candidate \<Rightarrow> all_candidates \<Rightarrow> all_candidates" where
  "merge_one c cs =
     (case binary_search_by_key cand_key (cand_key c) cs of
        Inr i \<Rightarrow> if i < length cs then cs[i := merge_candidate (cs ! i) c] else cs
      | Inl i \<Rightarrow> vec_insert i c cs)"

definition merge_all :: "all_candidates \<Rightarrow> all_candidates \<Rightarrow> all_candidates" where
  "merge_all cs others = fold merge_one others cs"

definition candidates_from_vec :: "object_candidate list \<Rightarrow> all_candidates" where
  "candidates_from_vec cs = dedup_by_key cand_key (sort_key cand_key cs)"

section \<open>The contract of a keyed collection\<close>

text \<open>
  What a client relies on: an invariant, the abstract map of a collection, and that adding an
  element keeps the invariant and joins the element with what was there under its key.
\<close>

locale keyed_collection =
  fixes key :: "'a \<Rightarrow> 'k" and join :: "'a \<Rightarrow> 'a \<Rightarrow> 'a" and inv :: "'c \<Rightarrow> bool"
    and abs :: "'c \<Rightarrow> 'k \<Rightarrow> 'a option" and add :: "'a \<Rightarrow> 'c \<Rightarrow> 'c"
  assumes add_inv: "inv c \<Longrightarrow> inv (add x c)"
    and add_abs: "inv c \<Longrightarrow> abs (add x c) =
          (abs c)(key x \<mapsto> (case abs c (key x) of None \<Rightarrow> x | Some y \<Rightarrow> join y x))"
    and join_key: "key x = key y \<Longrightarrow> key (join y x) = key y"
begin

definition joined :: "'a option \<Rightarrow> 'a option \<Rightarrow> 'a option" where
  "joined a b = (case a of None \<Rightarrow> b | Some y \<Rightarrow> (case b of None \<Rightarrow> a | Some x \<Rightarrow> Some (join y x)))"

lemma fold_inv: "inv c \<Longrightarrow> inv (fold add xs c)"
  by (induction xs arbitrary: c) (simp_all add: add_inv)

lemma fold_abs:
  "inv c \<Longrightarrow> distinct (map key xs) \<Longrightarrow>
     abs (fold add xs c) k = joined (abs c k) (map_of (map (\<lambda>x. (key x, x)) xs) k)"
proof (induction xs arbitrary: c)
  case Nil
  then show ?case by (simp add: joined_def split: option.splits)
next
  case (Cons x xs)
  have IH: "abs (fold add xs (add x c)) k = joined (abs (add x c) k) (map_of (map (\<lambda>x. (key x, x)) xs) k)"
    using Cons by (simp add: add_inv)
  show ?case
  proof (cases "k = key x")
    case True
    then have "map_of (map (\<lambda>x. (key x, x)) xs) k = None"
      using Cons.prems(2) by (force simp: map_of_eq_None_iff)
    then show ?thesis
      using IH True Cons.prems(1) by (simp add: add_abs joined_def split: option.splits)
  next
    case False
    then show ?thesis using IH Cons.prems(1) by (simp add: add_abs)
  qed
qed

end

section \<open>Candidates are such a collection\<close>

lemma merge_candidate_key [simp]: "cand_key (merge_candidate info c) = cand_key info"
  by (simp add: merge_candidate_def cand_key_def Let_def)

lemma vec_insert_append [simp]: "vec_insert (length ys) x (ys @ zs) = ys @ x # zs"
  by (simp add: vec_insert_def)

lemma merge_one_cases:
  assumes "sorted_by cand_key cs"
  obtains ys x zs where "cs = ys @ x # zs" "cand_key x = cand_key c" "merge_one c cs = ys @ merge_candidate x c # zs"
  | ys zs where "cs = ys @ zs" "\<forall>y \<in> set ys. cand_key y < cand_key c" "\<forall>z \<in> set zs. cand_key c < cand_key z"
      "merge_one c cs = ys @ c # zs"
  using assms
proof (cases rule: binary_search_cases[where k = "cand_key c"])
  case (found ys x zs)
  then show thesis using that(1)[of ys x zs] by (simp add: merge_one_def)
next
  case (missing ys zs)
  then show thesis using that(2)[of ys zs] by (simp add: merge_one_def)
qed

lemma merge_one_sorted: "sorted_by cand_key cs \<Longrightarrow> sorted_by cand_key (merge_one c cs)"
  by (cases rule: merge_one_cases[of cs c]) auto

lemma vec_map_middle: "sorted_by key (ys @ x # zs) \<Longrightarrow> vec_map key (ys @ x # zs) (key x) = Some x"
  using vec_map_sorted[of key "ys @ x # zs"] by simp

lemma merge_one_map:
  assumes "sorted_by cand_key cs"
  shows "vec_map cand_key (merge_one c cs) =
    (vec_map cand_key cs)(cand_key c \<mapsto> (case vec_map cand_key cs (cand_key c) of None \<Rightarrow> c | Some y \<Rightarrow> merge_candidate y c))"
  using assms
proof (cases rule: merge_one_cases[of cs c])
  case (1 ys x zs)
  have "vec_map cand_key ys (cand_key x) = None" using assms 1(1) by (auto simp: vec_map_None)
  moreover have "vec_map cand_key cs (cand_key c) = Some x"
    using vec_map_middle[of cand_key ys x zs] assms 1(1,2) by simp
  ultimately show ?thesis
    using 1 by (auto simp: map_add_def fun_eq_iff split: option.splits)
next
  case (2 ys zs)
  have "vec_map cand_key ys (cand_key c) = None" using 2(2) by (auto simp: vec_map_None)
  moreover have "vec_map cand_key cs (cand_key c) = None" using 2(1,2,3) by (auto simp: vec_map_None)
  ultimately show ?thesis using 2(1,4) by (auto simp: map_add_def fun_eq_iff split: option.splits)
qed

interpretation cands: keyed_collection cand_key merge_candidate "sorted_by cand_key" "vec_map cand_key" merge_one
  by unfold_locales (simp_all add: merge_one_sorted merge_one_map)

lemma candidates_from_vec_sorted: "sorted_by cand_key (candidates_from_vec cs)"
  unfolding candidates_from_vec_def by (rule dedup_sorted) simp

lemma candidates_from_vec_map: "vec_map cand_key (candidates_from_vec cs) = vec_map cand_key cs"
  by (simp add: candidates_from_vec_def dedup_vec_map sort_vec_map)

lemma sorted_by_distinct: "sorted_by key xs \<Longrightarrow> distinct (map key xs)"
  by (induction xs) auto

text \<open>What \<open>set_status\<close> does to the map.\<close>

lemma set_status_map:
  assumes "sorted_by cand_key cs"
  shows "\<exists>cs'. set_status s source uri info cs = Ret cs' \<and> sorted_by cand_key cs' \<and>
    vec_map cand_key cs' = (case vec_map cand_key cs (source, uri) of
        None \<Rightarrow> vec_map cand_key cs
      | Some c \<Rightarrow> (vec_map cand_key cs)((source, uri) \<mapsto>
          (case s of StatusDebug \<Rightarrow> c\<lparr>cand_debug := info\<rparr> | StatusUnwind \<Rightarrow> c\<lparr>cand_unwind := info\<rparr> | StatusNone \<Rightarrow> c)))"
proof (cases "s = StatusNone")
  case True
  then show ?thesis using assms by (auto simp: set_status_def fun_eq_iff split: option.splits)
next
  case False
  from assms show ?thesis
  proof (cases rule: binary_search_cases[where k = "(source, uri)"])
    case (found ys x zs)
    obtain x' where x': "set_use s info x = Ret x'" "cand_key x' = cand_key x"
      "x' = (case s of StatusDebug \<Rightarrow> x\<lparr>cand_debug := info\<rparr> | StatusUnwind \<Rightarrow> x\<lparr>cand_unwind := info\<rparr> | StatusNone \<Rightarrow> x)"
      using False by (cases s) (auto simp: set_use_def cand_key_def)
    have set: "set_status s source uri info cs = Ret (ys @ x' # zs)"
      using False found x'(1) by (simp add: set_status_def)
    have "vec_map cand_key ys (source, uri) = None" using assms found(1,2) by (auto simp: vec_map_None)
    moreover have "vec_map cand_key cs (source, uri) = Some x"
      using vec_map_middle[of cand_key ys x zs] assms found(1,2) by simp
    ultimately have "vec_map cand_key (ys @ x' # zs) = (vec_map cand_key cs)((source, uri) \<mapsto> x')"
      using found(1,2) x'(2) by (auto simp: map_add_def fun_eq_iff split: option.splits)
    moreover have "sorted_by cand_key (ys @ x' # zs)" using assms found(1) x'(2) by auto
    ultimately show ?thesis using set x'(3) \<open>vec_map cand_key cs (source, uri) = Some x\<close> by simp
  next
    case (missing ys zs)
    have "vec_map cand_key cs (source, uri) = None" using missing(1,2,3) by (auto simp: vec_map_None)
    then show ?thesis using False missing(4) assms by (simp add: set_status_def)
  qed
qed

section \<open>Properties\<close>

text \<open>
  Collections of candidates stay sorted and unique by source and location, whatever was put
  into them: building one from a vector, merging collections and setting a status keep the
  invariant, and setting a status never reaches the unreachable branch.
\<close>

theorem candidates_stay_sorted:
  assumes "sorted_by cand_key cs"
  shows "sorted_by cand_key (candidates_from_vec v) \<and> sorted_by cand_key (merge_all cs others)
    \<and> (\<exists>cs'. set_status s source uri info cs = Ret cs' \<and> sorted_by cand_key cs')"
  using candidates_from_vec_sorted[of v] cands.fold_inv[OF assms, of others]
    set_status_map[OF assms, of s source uri info]
  unfolding merge_all_def by blast

definition demo_candidate :: "string \<Rightarrow> string \<Rightarrow> object_use_info \<Rightarrow> object_candidate" where
  "demo_candidate s l u = \<lparr>cand_source = s, cand_location = l, cand_download = DlOk default_features,
     cand_unwind = u, cand_debug = UseNone\<rparr>"

theorem candidates_stay_sorted_witness:
  "sorted_by cand_key (merge_all [demo_candidate ''A'' ''a'' UseOk, demo_candidate ''C'' ''c'' UseOk] [demo_candidate ''B'' ''b'' UseOk])"
proof -
  have "sorted_by cand_key [demo_candidate ''A'' ''a'' UseOk, demo_candidate ''C'' ''c'' UseOk]"
    by (simp add: cand_key_def demo_candidate_def less_char_def)
  from candidates_stay_sorted[OF this] show ?thesis by blast
qed

lemma merge_all_map:
  assumes "sorted_by cand_key cs" and "sorted_by cand_key others"
  shows "vec_map cand_key (merge_all cs others) k =
    (case (vec_map cand_key cs k, vec_map cand_key others k) of
       (None, b) \<Rightarrow> b
     | (Some a, None) \<Rightarrow> Some a
     | (Some a, Some b) \<Rightarrow> Some (a\<lparr>cand_download := cand_download b,
           cand_unwind := (if cand_unwind b = UseNone then cand_unwind a else cand_unwind b),
           cand_debug := (if cand_debug b = UseNone then cand_debug a else cand_debug b)\<rparr>))"
proof -
  have "vec_map cand_key (merge_all cs others) k = cands.joined (vec_map cand_key cs k) (vec_map cand_key others k)"
    unfolding merge_all_def using cands.fold_abs[OF assms(1) sorted_by_distinct[OF assms(2)], of k]
    by (simp add: vec_map_def)
  then show ?thesis
    by (auto simp: cands.joined_def merge_candidate_def Let_def split: option.splits)
qed

text \<open>
  Merging refines the join of finite maps: a collection stands for a map from source and
  location to the candidate, and merging two collections gives the map that has every candidate
  of both, where they meet the download information of the second, and the unwind and debug
  information of the second unless it has none.
\<close>

theorem merge_refines_join:
  assumes "sorted_by cand_key cs" and "sorted_by cand_key others"
  shows "vec_map cand_key (merge_all cs others) k =
    (case (vec_map cand_key cs k, vec_map cand_key others k) of
       (None, b) \<Rightarrow> b
     | (Some a, None) \<Rightarrow> Some a
     | (Some a, Some b) \<Rightarrow> Some (a\<lparr>cand_download := cand_download b,
           cand_unwind := (if cand_unwind b = UseNone then cand_unwind a else cand_unwind b),
           cand_debug := (if cand_debug b = UseNone then cand_debug a else cand_debug b)\<rparr>))"
  by (rule merge_all_map[OF assms])

theorem merge_refines_join_witness:
  "vec_map cand_key (merge_all [demo_candidate ''A'' ''a'' UseOk] [demo_candidate ''A'' ''a'' UseMalformed]) (''A'', ''a'')
     = Some (demo_candidate ''A'' ''a'' UseMalformed)"
proof -
  have h: "sorted_by cand_key [demo_candidate ''A'' ''a'' UseOk]" "sorted_by cand_key [demo_candidate ''A'' ''a'' UseMalformed]"
    by simp_all
  show ?thesis unfolding merge_refines_join[OF h] by (simp add: cand_key_def demo_candidate_def)
qed

end
