(* ===== verification/IndexService.thy ===== *)
theory IndexService
  imports SourceIter Partial
begin

text \<open>
  \<open>download/index.rs\<close>: fetching the index of a SymStore source, that is its last id (remembered in
  memory) and the numbered segments up to it, each a cached item of its own. The downloads are a
  parameter, as are the answers of the segment and index caches (theory \<open>Cacher\<close> models those).
  Times are nanoseconds; error texts of the standard library are a parameter.
\<close>

section \<open>Sources\<close>

datatype source_config =
    SrcSentry string                      \<comment> \<open>the source id\<close>
  | SrcHttp bucket_source
  | SrcS3 bucket_source
  | SrcGcs bucket_source
  | SrcAzure bucket_source
  | SrcFilesystem bucket_source

definition source_config_id :: "source_config \<Rightarrow> string" where
  "source_config_id s = (case s of
      SrcSentry i \<Rightarrow> i
    | SrcHttp b \<Rightarrow> source_name b
    | SrcS3 b \<Rightarrow> source_name b
    | SrcGcs b \<Rightarrow> source_name b
    | SrcAzure b \<Rightarrow> source_name b
    | SrcFilesystem b \<Rightarrow> source_name b)"

datatype index_source =
    IxAzure bucket_source
  | IxFilesystem bucket_source
  | IxGcs bucket_source
  | IxHttp bucket_source
  | IxS3 bucket_source

definition maybe_from :: "source_config \<Rightarrow> index_source option" where
  "maybe_from s = (case s of
      SrcAzure b \<Rightarrow> Some (IxAzure b)
    | SrcFilesystem b \<Rightarrow> Some (IxFilesystem b)
    | SrcGcs b \<Rightarrow> Some (IxGcs b)
    | SrcHttp b \<Rightarrow> Some (IxHttp b)
    | SrcS3 b \<Rightarrow> Some (IxS3 b)
    | SrcSentry _ \<Rightarrow> None)"

fun index_bucket :: "index_source \<Rightarrow> bucket_source" where
  "index_bucket (IxAzure b) = b"
| "index_bucket (IxFilesystem b) = b"
| "index_bucket (IxGcs b) = b"
| "index_bucket (IxHttp b) = b"
| "index_bucket (IxS3 b) = b"

definition index_source_id :: "index_source \<Rightarrow> string" where
  "index_source_id s = source_name (index_bucket s)"

definition index_has_index :: "index_source \<Rightarrow> bool" where
  "index_has_index s = has_index (bucket_files (index_bucket s))"

definition index_layout_ty :: "index_source \<Rightarrow> directory_layout_type" where
  "index_layout_ty s = ty (layout (bucket_files (index_bucket s)))"

definition index_remote_file :: "index_source \<Rightarrow> string \<Rightarrow> remote_file" where
  "index_remote_file s loc = (case s of
      IxAzure b \<Rightarrow> Azure b loc
    | IxFilesystem b \<Rightarrow> Filesystem b loc
    | IxGcs b \<Rightarrow> Gcs b loc
    | IxHttp b \<Rightarrow> Http b loc
    | IxS3 b \<Rightarrow> S3 b loc)"

definition index_source_metric_key :: "index_source \<Rightarrow> string" where
  "index_source_metric_key s =
     (if starts_with (index_source_id s) ''sentry:'' then index_source_id s
      else (case s of
          IxS3 _ \<Rightarrow> ''s3'' | IxGcs _ \<Rightarrow> ''gcs'' | IxAzure _ \<Rightarrow> ''azure'' | IxHttp _ \<Rightarrow> ''http''
        | IxFilesystem _ \<Rightarrow> ''filesystem''))"

section \<open>Segments and the full index\<close>

text \<open>What the code reaches outside: downloads, and the standard library's trimming and error texts.\<close>

record index_externals =
  fetch_bytes :: "remote_file \<Rightarrow> string cache_contents"
  ustr_trim :: "string \<Rightarrow> string"
  utf8_error :: "string \<Rightarrow> string"
  parse_int_error :: "string \<Rightarrow> string"

abbreviation LASTID_FILE :: string where "LASTID_FILE \<equiv> ''000Admin/lastid.txt''"

definition LASTID_MAX :: nat where "LASTID_MAX = 10000"

text \<open>\<open>(u32::MAX.ilog10() + 1) * 2\<close>\<close>

definition LASTID_MAX_LENGTH :: nat where "LASTID_MAX_LENGTH = (9 + 1) * 2"

definition LASTID_OK_CACHE_TIME :: duration where "LASTID_OK_CACHE_TIME = 24 * 60 * 60 * 10 ^ 9"
definition LASTID_ERROR_CACHE_TIME :: duration where "LASTID_ERROR_CACHE_TIME = 10 * 60 * 10 ^ 9"

text \<open>\<open>{segment:0>10}\<close>\<close>

definition pad_zeros :: "nat \<Rightarrow> string \<Rightarrow> string" where
  "pad_zeros n s = replicate (n - length s) CHR ''0'' @ s"

definition segment_location :: "nat \<Rightarrow> string" where
  "segment_location segment = ''000Admin/'' @ pad_zeros 10 (dec_nat segment)"

text \<open>The result and the bytes of the (fresh) file. A read error becomes an internal error.\<close>

definition download_index_segment :: "index_externals \<Rightarrow> index_source \<Rightarrow> nat \<Rightarrow> string \<Rightarrow> unit cache_contents \<times> string" where
  "download_index_segment X s segment buf =
     (case fetch_bytes X (index_remote_file s (segment_location segment)) of
        Inl err \<Rightarrow> (Inl err, buf)
      | Inr bytes \<Rightarrow>
          (case parse_from_reader bytes of
             None \<Rightarrow> (Inl InternalError, buf)
           | Some ix \<Rightarrow> (Inr (), buf @ index_write ix)))"

definition load_index :: "string \<Rightarrow> symstore_index cache_contents" where
  "load_index data = (case load data of None \<Rightarrow> Inl InternalError | Some ix \<Rightarrow> Inr ix)"

text \<open>The loop over the segment numbers; \<open>get\<close> is what the segment cache answers.\<close>

fun append_segments :: "(nat \<Rightarrow> symstore_index cache_contents) \<Rightarrow> nat list \<Rightarrow> symstore_index \<Rightarrow> symstore_index cache_contents" where
  "append_segments get [] ix = Inr ix"
| "append_segments get (i # is) ix =
     (case get i of
        Inr segment \<Rightarrow> append_segments get is (index_append ix segment)
      | Inl _ \<Rightarrow> Inl (DownloadError (''Failed to download symstore index segment '' @ dec_nat i)))"

definition download_full_index :: "(nat \<Rightarrow> symstore_index cache_contents) \<Rightarrow> nat \<Rightarrow> string \<Rightarrow> unit cache_contents \<times> string" where
  "download_full_index get last_id buf =
     (if last_id > LASTID_MAX
      then (Inl (Malformed (''Invalid Symstore Id: '' @ dec_nat last_id @ '', too large'')), buf)
      else (case append_segments get [1..<Suc last_id] empty_index of
              Inl err \<Rightarrow> (Inl err, buf)
            | Inr ix \<Rightarrow> (Inr (), buf @ index_write ix)))"

text \<open>The data of the cache keys; \<open>writeln!\<close> cannot fail.\<close>

definition segment_key :: "(string \<Rightarrow> 8 word list) \<Rightarrow> scope \<Rightarrow> index_source \<Rightarrow> nat \<Rightarrow> cache_key" where
  "segment_key sha256 sc s i = build_key sha256
     (write_str (''segment: '' @ dec_nat i @ [CHR 0x0A])
       (write_str (''source_id: '' @ index_source_id s @ [CHR 0x0A])
         (write_str (''type: symstore_segment'' @ [CHR 0x0A]) (scoped_builder sc))))"

definition full_index_key :: "(string \<Rightarrow> 8 word list) \<Rightarrow> scope \<Rightarrow> index_source \<Rightarrow> nat \<Rightarrow> cache_key" where
  "full_index_key sha256 sc s last_id = build_key sha256
     (write_str (''last_id: '' @ dec_nat last_id @ [CHR 0x0A])
       (write_str (''source_id: '' @ index_source_id s @ [CHR 0x0A])
         (write_str (''type: symstore'' @ [CHR 0x0A]) (scoped_builder sc))))"

section \<open>The last id\<close>

definition u32_max :: nat where "u32_max = 2 ^ 32 - 1"

definition parse_u32 :: "string \<Rightarrow> nat option" where
  "parse_u32 s = (case parse_u64 s of None \<Rightarrow> None | Some n \<Rightarrow> if n \<le> u32_max then Some n else None)"

definition fetch_symstore_last_id :: "index_externals \<Rightarrow> index_source \<Rightarrow> nat cache_contents" where
  "fetch_symstore_last_id X s =
     (case fetch_bytes X (index_remote_file s LASTID_FILE) of
        Inl err \<Rightarrow> Inl err
      | Inr bytes \<Rightarrow>
          (let last_id = take (LASTID_MAX_LENGTH + 1) bytes
           in if length last_id > LASTID_MAX_LENGTH then Inl (Malformed ''Invalid Symstore Id (too big)'')
              else if \<not> utf8_valid last_id then Inl (Malformed (''Invalid Symstore Id: '' @ utf8_error X last_id))
              else (case parse_u32 (ustr_trim X last_id) of
                      None \<Rightarrow> Inl (Malformed (''Invalid Symstore Id: '' @ parse_int_error X (ustr_trim X last_id)))
                    | Some n \<Rightarrow> Inr n)))"

text \<open>
  The remembered last ids, by scope and source id. \<open>now\<close> is read before the entry is inspected,
  \<open>later\<close> by \<open>elapsed\<close>, which panics when the clock has gone back behind the time of the entry.
\<close>

type_synonym last_id_cache = "scope \<times> string \<Rightarrow> (nat cache_contents \<times> nat) option"

definition fetch_last_id_memoized ::
    "(unit \<Rightarrow> nat cache_contents) \<Rightarrow> nat \<Rightarrow> nat \<Rightarrow> scope \<times> string \<Rightarrow> last_id_cache
      \<Rightarrow> (nat cache_contents \<times> last_id_cache) outcome" where
  "fetch_last_id_memoized fetch now later k cache =
     (case cache k of
        None \<Rightarrow> let v = fetch () in Ret (v, cache(k \<mapsto> (v, now)))
      | Some (res, ts) \<Rightarrow>
          (let cache_time = (case res of Inr _ \<Rightarrow> LASTID_OK_CACHE_TIME | Inl _ \<Rightarrow> LASTID_ERROR_CACHE_TIME)
           in if later < ts then Panic
              else if later - ts > cache_time then
                (case (res, fetch ()) of
                   (Inr v, Inl _) \<Rightarrow> Ret (res, cache(k \<mapsto> (res, now)))
                 | (_, res_new) \<Rightarrow> Ret (res_new, cache(k \<mapsto> (res_new, now))))
              else Ret (res, cache)))"

section \<open>The service\<close>

text \<open>
  \<open>get_index\<close> is what the index cache answers for a source and a last id.
\<close>

definition fetch_symstore_index ::
    "index_externals \<Rightarrow> (index_source \<Rightarrow> nat \<Rightarrow> symstore_index cache_contents) \<Rightarrow> nat \<Rightarrow> nat \<Rightarrow> scope \<Rightarrow> index_source
      \<Rightarrow> last_id_cache \<Rightarrow> (symstore_index cache_contents \<times> last_id_cache) outcome" where
  "fetch_symstore_index X get_index now later sc s cache =
     map_out (\<lambda>(last_id, cache).
         ((case last_id of Inl err \<Rightarrow> Inl err | Inr n \<Rightarrow> get_index s n), cache))
       (fetch_last_id_memoized (\<lambda>_. fetch_symstore_last_id X s) now later (sc, index_source_id s) cache)"

definition fetch_index ::
    "index_externals \<Rightarrow> (index_source \<Rightarrow> nat \<Rightarrow> symstore_index cache_contents) \<Rightarrow> nat \<Rightarrow> nat \<Rightarrow> scope \<Rightarrow> source_config
      \<Rightarrow> last_id_cache \<Rightarrow> (source_index option \<times> last_id_cache) outcome" where
  "fetch_index X get_index now later sc s cache =
     (case maybe_from s of
        None \<Rightarrow> Ret (None, cache)
      | Some s \<Rightarrow>
          if \<not> index_has_index s then Ret (None, cache)
          else if index_layout_ty s = directory_layout_type.Symstore
               then map_out (\<lambda>(r, cache).
                        (Some (Symstore (case r of Inl _ \<Rightarrow> empty_index | Inr ix \<Rightarrow> ix)), cache))
                      (fetch_symstore_index X get_index now later sc s cache)
               else Ret (None, cache))"

section \<open>The full index\<close>

lemma append_segments_Inr:
  "append_segments get is ix = Inr r \<longleftrightarrow>
     (\<forall>i \<in> set is. \<exists>s. get i = Inr s) \<and> r = fold (\<lambda>i x. index_append x (projr (get i))) is ix"
  by (induction "is" arbitrary: ix) (auto split: sum.splits)

lemma append_segments_Inl:
  "append_segments get is ix = Inl e \<Longrightarrow> \<exists>i \<in> set is. \<exists>err. get i = Inl err"
  by (induction "is" arbitrary: ix) (auto split: sum.splits)

lemma fold_append_contains:
  "index_contains (fold (\<lambda>i x. index_append x (g i)) is x) p \<longleftrightarrow>
     index_contains x p \<or> (\<exists>i \<in> set is. index_contains (g i) p)"
  by (induction "is" arbitrary: x) (auto simp: index_append_contains)

lemma index_append_writable:
  assumes "index_writable x" and "index_writable y"
  shows "index_writable (index_append x y)"
proof -
  have "index_ok (index_append x y)"
    using assms(1) by (simp add: index_append_def index_ok_fold index_writable_def)
  moreover have "set (files (index_append x y)) = set (files x) \<union> set (files y)"
    using index_append_contains[of x y] by (auto simp: index_contains_def)
  ultimately show ?thesis using assms by (auto simp: index_writable_def list_all_iff)
qed

lemma fold_append_writable:
  "index_writable x \<Longrightarrow> \<forall>i \<in> set is. index_writable (g i) \<Longrightarrow> index_writable (fold (\<lambda>i x. index_append x (g i)) is x)"
  by (induction "is" arbitrary: x) (simp_all add: index_append_writable)

lemma empty_index_writable: "index_writable empty_index"
  by (simp add: index_writable_def empty_index_def index_ok_def)

lemma empty_index_contains: "\<not> index_contains empty_index p"
  by (simp add: index_contains_def empty_index_def)

section \<open>Properties\<close>

text \<open>
  An index is complete or not cached at all: the index file of a source is written exactly when
  the last id is within the limit and every segment up to it could be read, and then loading the
  file gives an index that lists a path iff one of the segments lists it.
\<close>

theorem full_index_complete:
  assumes "\<And>i s. get i = Inr s \<Longrightarrow> index_writable s"
  shows "(fst (download_full_index get last_id []) = Inr () \<longleftrightarrow>
            last_id \<le> LASTID_MAX \<and> (\<forall>i. 1 \<le> i \<and> i \<le> last_id \<longrightarrow> (\<exists>s. get i = Inr s)))
    \<and> (fst (download_full_index get last_id []) = Inr () \<longrightarrow>
         (\<exists>ix. load_index (snd (download_full_index get last_id [])) = Inr ix \<and>
            (\<forall>p. index_contains ix p \<longleftrightarrow> (\<exists>i s. 1 \<le> i \<and> i \<le> last_id \<and> get i = Inr s \<and> index_contains s p))))"
proof (cases "last_id \<le> LASTID_MAX \<and> (\<forall>i. 1 \<le> i \<and> i \<le> last_id \<longrightarrow> (\<exists>s. get i = Inr s))")
  case True
  let ?g = "\<lambda>i. projr (get i)"
  let ?ix = "fold (\<lambda>i x. index_append x (?g i)) [1..<Suc last_id] empty_index"
  have all: "\<forall>i \<in> set [1..<Suc last_id]. \<exists>s. get i = Inr s" using True by auto
  then have seg: "append_segments get [1..<Suc last_id] empty_index = Inr ?ix"
    by (simp only: append_segments_Inr)
  have down: "download_full_index get last_id [] = (Inr (), index_write ?ix)"
    unfolding download_full_index_def seg using True by simp
  have "\<forall>i \<in> set [1..<Suc last_id]. index_writable (?g i)" using all assms by fastforce
  then have "index_writable ?ix" by (rule fold_append_writable[OF empty_index_writable])
  then have "load_index (index_write ?ix) = Inr ?ix" by (simp add: load_index_def load_written)
  moreover have "index_contains ?ix p \<longleftrightarrow> (\<exists>i s. 1 \<le> i \<and> i \<le> last_id \<and> get i = Inr s \<and> index_contains s p)" for p
  proof -
    have "index_contains ?ix p \<longleftrightarrow> (\<exists>i \<in> {1..<Suc last_id}. index_contains (?g i) p)"
      unfolding fold_append_contains set_upt by (simp only: empty_index_contains simp_thms)
    also have "\<dots> \<longleftrightarrow> (\<exists>i. 1 \<le> i \<and> i \<le> last_id \<and> index_contains (?g i) p)"
      by (simp add: Bex_def less_Suc_eq_le conj_assoc)
    also have "\<dots> \<longleftrightarrow> (\<exists>i s. 1 \<le> i \<and> i \<le> last_id \<and> get i = Inr s \<and> index_contains s p)"
      using True by (metis sum.sel(2))
    finally show ?thesis .
  qed
  ultimately show ?thesis using True unfolding down by auto
next
  case False
  have "fst (download_full_index get last_id []) \<noteq> Inr ()"
  proof
    assume r: "fst (download_full_index get last_id []) = Inr ()"
    then have le: "last_id \<le> LASTID_MAX" by (simp add: download_full_index_def split: if_splits)
    from r le obtain ix where "append_segments get [1..<Suc last_id] empty_index = Inr ix"
      by (cases "append_segments get [1..<Suc last_id] empty_index") (auto simp: download_full_index_def simp del: upt_Suc)
    then have "\<forall>i \<in> set [1..<Suc last_id]. \<exists>s. get i = Inr s" unfolding append_segments_Inr by blast
    with le False show False by auto
  qed
  with False show ?thesis by blast
qed

theorem full_index_complete_witness:
  "\<exists>ix. load_index (snd (download_full_index (\<lambda>_. Inr demo_index) 2 [])) = Inr ix \<and> index_contains ix ''a.dll/1/a.dll''"
proof -
  have w: "index_writable demo_index" by code_simp
  have h: "index_writable s" if "(\<lambda>_. Inr demo_index) i = (Inr s :: symstore_index cache_contents)" for i :: nat and s
    using that w by simp
  have c: "index_contains demo_index ''a.dll/1/a.dll''" by code_simp
  have "2 \<le> LASTID_MAX" by (simp add: LASTID_MAX_def)
  with full_index_complete[of "\<lambda>_. Inr demo_index" 2, OF h] c show ?thesis
    by (metis le_refl one_le_numeral)
qed

text \<open>
  The life of one remembered last id: a sequence of calls, each with the two clock readings and
  what fetching the id anew would give.
\<close>

fun last_id_calls :: "(nat \<times> nat \<times> nat cache_contents) list \<Rightarrow> scope \<times> string \<Rightarrow> last_id_cache
    \<Rightarrow> (nat cache_contents list \<times> last_id_cache) outcome" where
  "last_id_calls [] k cache = Ret ([], cache)"
| "last_id_calls ((now, later, fetched) # calls) k cache =
     bind_out (fetch_last_id_memoized (\<lambda>_. fetched) now later k cache) (\<lambda>(r, cache).
       map_out (\<lambda>(rs, cache). (r # rs, cache)) (last_id_calls calls k cache))"

lemma last_id_step_ok:
  assumes "cache k = Some (Inr v, ts)" and "fetch_last_id_memoized (\<lambda>_. f) now later k cache = Ret (r, cache')"
  shows "\<exists>v'. r = Inr v' \<and> (\<exists>ts'. cache' k = Some (Inr v', ts')) \<and> (v' = v \<or> f = Inr v')"
  using assms by (auto simp: fetch_last_id_memoized_def Let_def split: if_splits sum.splits)

text \<open>
  A last id is never lost to an outage: once a source's last id is remembered, every later call
  that returns gives a last id, the remembered one or one fetched since, however many of the later
  downloads fail, so the source keeps its index.
\<close>

theorem last_id_never_lost:
  assumes "cache k = Some (Inr v, ts)" and "last_id_calls calls k cache = Ret (rs, cache')" and "r \<in> set rs"
  shows "\<exists>v'. r = Inr v' \<and> (v' = v \<or> (\<exists>now later. (now, later, Inr v') \<in> set calls))"
  using assms
proof (induction calls arbitrary: cache v ts rs)
  case Nil
  then show ?case by simp
next
  case (Cons c calls)
  obtain now later f where c: "c = (now, later, f)" by (cases c) auto
  from Cons.prems(2) c obtain r1 cache1 rs1 where step: "fetch_last_id_memoized (\<lambda>_. f) now later k cache = Ret (r1, cache1)"
    and rest: "last_id_calls calls k cache1 = Ret (rs1, cache')" and rs: "rs = r1 # rs1"
    by (auto simp: bind_out_eq_Ret)
  from last_id_step_ok[OF Cons.prems(1) step] obtain v1 ts1 where v1: "r1 = Inr v1" "cache1 k = Some (Inr v1, ts1)" "v1 = v \<or> f = Inr v1"
    by blast
  show ?case
  proof (cases "r = r1")
    case True
    then show ?thesis using v1 c by auto
  next
    case False
    then have "r \<in> set rs1" using Cons.prems(3) rs by simp
    from Cons.IH[OF v1(2) rest this] v1(3) c show ?thesis by auto
  qed
qed

theorem last_id_never_lost_witness:
  "last_id_calls [(0, 0, Inr 5), (10 ^ 15, 10 ^ 15, Inl NotFound)] (Global, ''intel'') (Map.empty((Global, ''intel'') \<mapsto> (Inr 5, 0)))
      = Ret ([Inr 5, Inr 5], Map.empty((Global, ''intel'') \<mapsto> (Inr 5, 10 ^ 15)))
   \<and> (\<exists>v. (Inr 5 :: nat cache_contents) = Inr v)"
proof -
  have e: "last_id_calls [(0, 0, Inr 5), (10 ^ 15, 10 ^ 15, Inl NotFound)] (Global, ''intel'') (Map.empty((Global, ''intel'') \<mapsto> (Inr 5, 0)))
      = Ret ([Inr 5, Inr 5], Map.empty((Global, ''intel'') \<mapsto> (Inr 5, 10 ^ 15)))"
    by (simp add: fetch_last_id_memoized_def LASTID_OK_CACHE_TIME_def)
  have "(Map.empty((Global, ''intel'') \<mapsto> (Inr 5, 0)) :: last_id_cache) (Global, ''intel'') = Some (Inr 5, 0)" by simp
  from last_id_never_lost[OF this e, of "Inr 5"] e show ?thesis by auto
qed

text \<open>
  A source whose index cannot be fetched is switched off: when a source is configured with an
  index and a SymStore layout and the last id or the index cannot be had, the index that is used is
  empty, and then no location of the source is ever tried.
\<close>

theorem failed_index_disables_source:
  assumes "maybe_from s = Some x" and "index_has_index x" and "index_layout_ty x = directory_layout_type.Symstore"
    and "fetch_symstore_index X get_index now later sc x cache = Ret (Inl err, cache')"
    and "fetch_index X get_index now later sc s cache = Ret (ix, cache'')"
  shows "iter_spec Y (location_iter_new config fts ix i) = []"
proof -
  have "ix = Some (Symstore empty_index)"
    using assms by (simp add: fetch_index_def)
  then have "paths_of Y (location_iter_new config fts ix i) ft = []" for ft
    by (simp add: paths_of_def location_iter_new_def retain_indexed_def empty_index_contains)
  moreover have "it_next (location_iter_new config fts ix i) = []" by (simp add: location_iter_new_def)
  ultimately show ?thesis by (simp add: iter_spec_def)
qed

definition indexed_bucket :: bucket_source where
  "indexed_bucket = \<lparr>source_name = ''intel'', bucket_files = (with_layout directory_layout_type.Symstore)\<lparr>has_index := True\<rparr>\<rparr>"

definition offline_externals :: index_externals where
  "offline_externals = \<lparr>fetch_bytes = (\<lambda>_. Inl NotFound), ustr_trim = id, utf8_error = (\<lambda>_. []), parse_int_error = (\<lambda>_. [])\<rparr>"

theorem failed_index_disables_source_witness:
  "iter_spec demo_externals (location_iter_new default_common_source_config [ElfCode] (Some (Symstore empty_index)) demo_elf) = []"
proof (rule failed_index_disables_source)
  show "maybe_from (SrcHttp indexed_bucket) = Some (IxHttp indexed_bucket)" by (simp add: maybe_from_def)
  show "index_has_index (IxHttp indexed_bucket)" by (simp add: index_has_index_def indexed_bucket_def)
  show "index_layout_ty (IxHttp indexed_bucket) = directory_layout_type.Symstore"
    by (simp add: index_layout_ty_def indexed_bucket_def with_layout_def default_common_source_config_def)
  show "fetch_symstore_index offline_externals (\<lambda>_ _. Inl NotFound) 0 0 Global (IxHttp indexed_bucket) Map.empty
      = Ret (Inl NotFound, Map.empty((Global, ''intel'') \<mapsto> (Inl NotFound, 0)))"
    by (simp add: fetch_symstore_index_def fetch_last_id_memoized_def fetch_symstore_last_id_def offline_externals_def
        index_source_id_def indexed_bucket_def Let_def)
  show "fetch_index offline_externals (\<lambda>_ _. Inl NotFound) 0 0 Global (SrcHttp indexed_bucket) Map.empty
      = Ret (Some (Symstore empty_index), Map.empty((Global, ''intel'') \<mapsto> (Inl NotFound, 0)))"
    by (simp add: fetch_index_def fetch_symstore_index_def fetch_last_id_memoized_def fetch_symstore_last_id_def offline_externals_def
        index_source_id_def indexed_bucket_def maybe_from_def index_has_index_def index_layout_ty_def with_layout_def
        default_common_source_config_def Let_def)
qed

text \<open>A clock that went back panics.\<close>

lemma last_id_clock_panic:
  "cache k = Some (res, ts) \<Longrightarrow> later < ts \<Longrightarrow> fetch_last_id_memoized fetch now later k cache = Panic"
  by (cases res) (simp_all add: fetch_last_id_memoized_def Let_def)

end
