(* ===== verification/Objects.thy ===== *)
theory Objects
  imports Candidates IndexService
begin

text \<open>
  \<open>objects/\<close> and the listing of files of \<open>download/mod.rs\<close>: the files to try for an object on all
  sources, the lookups of their metadata, the choice of the best one, and the download of an
  object out of an archive. Parsing object files is done by a library and a parameter here: an
  archive is what the library reports of it.
\<close>

section \<open>Listing files\<close>

text \<open>A file to try, with the checksum header of files from HTTP sources.\<close>

type_synonym listed_file = "remote_file \<times> string option"

text \<open>
  The locations of one source: the iterator run to its end (\<open>iter_fuel\<close> calls suffice).
\<close>

definition collect_locations :: "externals \<Rightarrow> bucket_source \<Rightarrow> file_type list \<Rightarrow> source_index option \<Rightarrow> object_id
    \<Rightarrow> string list outcome" where
  "collect_locations X b fts ix i =
     (let it = location_iter_new (bucket_files b) fts ix i
      in case iter_collect (iter_fuel it) X it of None \<Rightarrow> Panic | Some r \<Rightarrow> r)"

definition list_source :: "externals \<Rightarrow> (source_config \<Rightarrow> source_index option) \<Rightarrow> (string \<Rightarrow> remote_file list cache_contents)
    \<Rightarrow> file_type list \<Rightarrow> object_id \<Rightarrow> source_config \<Rightarrow> listed_file list outcome" where
  "list_source X index_of sentry_list fts i source =
     (let ix = index_of source;
          check = (\<lambda>mk b. map_out (map (\<lambda>loc. (mk b loc, None))) (collect_locations X b fts ix i))
      in case source of
           SrcSentry s \<Rightarrow> (case sentry_list s of Inl _ \<Rightarrow> Ret [] | Inr fs \<Rightarrow> Ret (map (\<lambda>f. (f, None)) fs))
         | SrcHttp b \<Rightarrow> map_out (map (\<lambda>loc. (Http b loc, debug_checksum i))) (collect_locations X b fts ix i)
         | SrcS3 b \<Rightarrow> check S3 b
         | SrcGcs b \<Rightarrow> check Gcs b
         | SrcAzure b \<Rightarrow> check Azure b
         | SrcFilesystem b \<Rightarrow> check Filesystem b)"

fun list_files :: "externals \<Rightarrow> (source_config \<Rightarrow> source_index option) \<Rightarrow> (string \<Rightarrow> remote_file list cache_contents)
    \<Rightarrow> source_config list \<Rightarrow> file_type list \<Rightarrow> object_id \<Rightarrow> listed_file list outcome" where
  "list_files X index_of sentry_list [] fts i = Ret []"
| "list_files X index_of sentry_list (s # ss) fts i =
     bind_out (list_source X index_of sentry_list fts i s) (\<lambda>fs.
       map_out (\<lambda>gs. fs @ gs) (list_files X index_of sentry_list ss fts i))"

section \<open>Object metadata\<close>

datatype object_purpose = PurposeUnwind | PurposeDebug | PurposeSource

record found_meta =
  file_source :: remote_file
  handle :: "object_features cache_contents"

definition lookup_scope :: "scope \<Rightarrow> remote_file \<Rightarrow> scope" where
  "lookup_scope sc f = (if remote_is_public f then Global else sc)"

text \<open>
  \<open>fetch_file_metas\<close>: \<open>meta_lookup\<close> is the answer of the metadata cache for a key; the lookups are
  independent and joined in order.
\<close>

definition fetch_file_metas :: "(string \<Rightarrow> 8 word list) \<Rightarrow> (remote_file \<Rightarrow> string)
    \<Rightarrow> (cache_key \<Rightarrow> remote_file \<Rightarrow> object_features cache_contents) \<Rightarrow> scope \<Rightarrow> remote_file list \<Rightarrow> found_meta list" where
  "fetch_file_metas sha256 uri meta_lookup sc fs =
     map (\<lambda>f. \<lparr>file_source = f, handle = meta_lookup (from_scoped_file sha256 uri (lookup_scope sc f) f) f\<rparr>) fs"

definition object_has_features :: "object_features \<Rightarrow> object_purpose \<Rightarrow> bool" where
  "object_has_features m p = (case p of
      PurposeUnwind \<Rightarrow> has_unwind_info m
    | PurposeDebug \<Rightarrow> has_debug_info m \<or> has_symbols m
    | PurposeSource \<Rightarrow> has_sources m)"

definition object_quality :: "found_meta \<Rightarrow> object_purpose \<Rightarrow> nat" where
  "object_quality l p = (case handle l of
      Inr m \<Rightarrow>
        (case p of
           PurposeUnwind \<Rightarrow> if has_unwind_info m then 0 else 2
         | PurposeDebug \<Rightarrow> if has_debug_info m then 0 else if has_symbols m then 1 else 2
         | PurposeSource \<Rightarrow> if has_sources m then 0 else 2)
    | Inl _ \<Rightarrow> 3)"

definition suitable :: "object_purpose \<Rightarrow> found_meta \<Rightarrow> bool" where
  "suitable p l = (case handle l of Inr m \<Rightarrow> object_has_features m p | Inl _ \<Rightarrow> True)"

fun select_loop :: "object_purpose \<Rightarrow> found_meta list \<Rightarrow> found_meta option \<Rightarrow> nat \<Rightarrow> found_meta option" where
  "select_loop p [] selected quality = selected"
| "select_loop p (l # ls) selected quality =
     (if \<not> suitable p l then select_loop p ls selected quality
      else if object_quality l p < quality then select_loop p ls (Some l) (object_quality l p)
      else select_loop p ls selected quality)"

definition select_meta :: "found_meta list \<Rightarrow> object_purpose \<Rightarrow> found_meta option" where
  "select_meta ls p = select_loop p ls None 255"

section \<open>Candidates\<close>

definition create_candidate_info :: "duration_text \<Rightarrow> (remote_file \<Rightarrow> string) \<Rightarrow> found_meta \<Rightarrow> object_candidate" where
  "create_candidate_info D uri l =
     \<lparr>cand_source = remote_source_id (file_source l), cand_location = uri (file_source l),
      cand_download = (case handle l of
          Inr m \<Rightarrow> DlOk m
        | Inl NotFound \<Rightarrow> DlNotFound
        | Inl (PermissionDenied msg) \<Rightarrow> DlNoPerm msg
        | Inl (Malformed _) \<Rightarrow> DlMalformed
        | Inl err \<Rightarrow> DlError (error_to_string D err)),
      cand_unwind = UseNone, cand_debug = UseNone\<rparr>"

definition no_files_candidate :: "string \<Rightarrow> object_candidate" where
  "no_files_candidate source =
     \<lparr>cand_source = source, cand_location = ''No object files listed on this source'', cand_download = DlNotFound,
      cand_unwind = UseNone, cand_debug = UseNone\<rparr>"

text \<open>The ordered set of source ids is a sorted list; every lookup takes its source out of it.\<close>

definition create_candidates :: "duration_text \<Rightarrow> (remote_file \<Rightarrow> string) \<Rightarrow> source_config list \<Rightarrow> found_meta list \<Rightarrow> all_candidates" where
  "create_candidates D uri sources lookups =
     (let ids = sort (remdups (map source_config_id sources));
          left = fold (\<lambda>l ids. removeAll (remote_source_id (file_source l)) ids) lookups ids
      in candidates_from_vec (map (create_candidate_info D uri) lookups @ map no_files_candidate left))"

record find_result =
  found :: "found_meta option"
  candidates :: all_candidates

definition find_object ::
    "externals \<Rightarrow> duration_text \<Rightarrow> (string \<Rightarrow> 8 word list) \<Rightarrow> (remote_file \<Rightarrow> string)
      \<Rightarrow> (source_config \<Rightarrow> source_index option) \<Rightarrow> (string \<Rightarrow> remote_file list cache_contents)
      \<Rightarrow> (cache_key \<Rightarrow> remote_file \<Rightarrow> object_features cache_contents)
      \<Rightarrow> file_type list \<Rightarrow> object_purpose \<Rightarrow> scope \<Rightarrow> object_id \<Rightarrow> source_config list \<Rightarrow> find_result outcome" where
  "find_object X D sha256 uri index_of sentry_list meta_lookup fts p sc i sources =
     map_out (\<lambda>fs.
         let metas = fetch_file_metas sha256 uri meta_lookup sc (map fst fs)
         in \<lparr>found = select_meta metas p, candidates = create_candidates D uri sources metas\<rparr>)
       (list_files X index_of sentry_list sources fts i)"

section \<open>Object files and archives\<close>

text \<open>What the library reports of an object and of an archive; errors are their texts.\<close>

record parsed_object =
  po_debug_id :: debug_id_t
  po_code_id :: "code_id_t option"
  po_data :: string
  po_features :: object_features
  po_vcs_name :: "string option"       \<comment> \<open>of a PDB whose session opens\<close>

record archive =
  is_multi :: bool
  objects :: "(string + parsed_object) list"

definition object_matches_id :: "parsed_object \<Rightarrow> object_id \<Rightarrow> bool" where
  "object_matches_id ob i =
     (case debug_id i of
        Some d \<Rightarrow> uuid (po_debug_id ob) = uuid d \<and> appendix (po_debug_id ob) \<ge> appendix d
      | None \<Rightarrow>
          (case (code_id i, po_code_id ob) of
             (Some c, Some oc) \<Rightarrow> oc = c
           | _ \<Rightarrow> True))"

fun find_matching :: "object_id \<Rightarrow> (string + parsed_object) list \<Rightarrow> parsed_object option" where
  "find_matching i [] = None"
| "find_matching i (Inl _ # obs) = find_matching i obs"
| "find_matching i (Inr ob # obs) = (if object_matches_id ob i then Some ob else find_matching i obs)"

fun first_error :: "(string + parsed_object) list \<Rightarrow> string option" where
  "first_error [] = None"
| "first_error (Inl e # obs) = Some e"
| "first_error (Inr _ # obs) = first_error obs"

text \<open>
  \<open>fetch_file\<close>: the bytes of the download are put into the file and decompressed there; both may
  fail. \<open>download\<close> and \<open>decompress\<close> are parameters; a failed decompression is a malformed file.
\<close>

definition fetch_file :: "string cache_contents \<Rightarrow> (string \<Rightarrow> string + string) \<Rightarrow> string \<Rightarrow> unit cache_contents \<times> string" where
  "fetch_file download decompress temp =
     (case download of
        Inl err \<Rightarrow> (Inl err, temp)
      | Inr bytes \<Rightarrow> (case decompress bytes of Inl e \<Rightarrow> (Inl (Malformed e), bytes) | Inr out \<Rightarrow> (Inr (), out)))"

text \<open>\<open>fetch_object_file\<close>; the file operations on the temporary files succeed.\<close>

definition fetch_object_file :: "(string \<Rightarrow> string + archive) \<Rightarrow> object_id \<Rightarrow> string cache_contents \<Rightarrow> (string \<Rightarrow> string + string)
    \<Rightarrow> string \<Rightarrow> unit cache_contents \<times> string" where
  "fetch_object_file parse_archive i download decompress temp =
     (case fetch_file download decompress temp of
        (Inl err, temp) \<Rightarrow> (Inl err, temp)
      | (Inr _, temp) \<Rightarrow>
          (case parse_archive temp of
             Inl e \<Rightarrow> (Inl (Malformed e), temp)
           | Inr ar \<Rightarrow>
               if is_multi ar then
                 (case find_matching i (objects ar) of
                    Some ob \<Rightarrow> (Inr (), po_data ob)
                  | None \<Rightarrow> (case first_error (objects ar) of
                        Some e \<Rightarrow> (Inl (Malformed e), temp) | None \<Rightarrow> (Inl NotFound, temp)))
               else (case objects ar of Inl e # _ \<Rightarrow> (Inl (Malformed e), temp) | _ \<Rightarrow> (Inr (), temp))))"

text \<open>\<open>compute_file_meta\<close>: the features of the object the data cache gives, written as JSON.\<close>

definition meta_of_object :: "externals \<Rightarrow> parsed_object \<Rightarrow> object_features" where
  "meta_of_object X ob = (po_features ob)\<lparr>srcsrv := map_option (from_vcs_name X) (po_vcs_name ob)\<rparr>"

definition compute_file_meta :: "externals \<Rightarrow> (object_features \<Rightarrow> string) \<Rightarrow> parsed_object cache_contents \<Rightarrow> string \<Rightarrow> unit cache_contents \<times> string" where
  "compute_file_meta X to_json ob temp =
     (case ob of Inl err \<Rightarrow> (Inl err, temp) | Inr ob \<Rightarrow> (Inr (), temp @ to_json (meta_of_object X ob)))"

section \<open>Selection\<close>

lemma object_quality_le: "object_quality l p \<le> 3"
  by (auto simp: object_quality_def split: sum.splits object_purpose.splits)

text \<open>The loop started with \<open>Some m\<close> of quality \<open>q\<close> gives a later suitable lookup only if it is better.\<close>

lemma select_loop_cases:
  "select_loop p ls sel q = sel \<and> (\<forall>l \<in> set ls. suitable p l \<longrightarrow> q \<le> object_quality l p)
   \<or> (\<exists>as m bs. ls = as @ m # bs \<and> select_loop p ls sel q = Some m \<and> suitable p m \<and> object_quality m p < q
        \<and> (\<forall>l \<in> set as. suitable p l \<longrightarrow> object_quality m p < object_quality l p)
        \<and> (\<forall>l \<in> set bs. suitable p l \<longrightarrow> object_quality m p \<le> object_quality l p))"
proof (induction ls arbitrary: sel q)
  case Nil
  then show ?case by simp
next
  case (Cons l ls)
  show ?case
  proof (cases "suitable p l \<and> object_quality l p < q")
    case False
    then have e: "select_loop p (l # ls) sel q = select_loop p ls sel q" by auto
    from Cons.IH[of sel q] show ?thesis
    proof (elim disjE conjE exE)
      assume "select_loop p ls sel q = sel" "\<forall>l \<in> set ls. suitable p l \<longrightarrow> q \<le> object_quality l p"
      then show ?thesis using False e by (intro disjI1) auto
    next
      fix as m bs assume "ls = as @ m # bs" "select_loop p ls sel q = Some m" "suitable p m" "object_quality m p < q"
        "\<forall>l \<in> set as. suitable p l \<longrightarrow> object_quality m p < object_quality l p"
        "\<forall>l \<in> set bs. suitable p l \<longrightarrow> object_quality m p \<le> object_quality l p"
      then show ?thesis using False e by (intro disjI2 exI[of _ "l # as"] exI[of _ m] exI[of _ bs]) auto
    qed
  next
    case True
    then have e: "select_loop p (l # ls) sel q = select_loop p ls (Some l) (object_quality l p)" by simp
    from Cons.IH[of "Some l" "object_quality l p"] show ?thesis
    proof (elim disjE conjE exE)
      assume "select_loop p ls (Some l) (object_quality l p) = Some l"
        "\<forall>x \<in> set ls. suitable p x \<longrightarrow> object_quality l p \<le> object_quality x p"
      then show ?thesis using True e by (intro disjI2 exI[of _ "[]"] exI[of _ l] exI[of _ ls]) simp
    next
      fix as m bs assume "ls = as @ m # bs" "select_loop p ls (Some l) (object_quality l p) = Some m" "suitable p m"
        "object_quality m p < object_quality l p"
        "\<forall>l \<in> set as. suitable p l \<longrightarrow> object_quality m p < object_quality l p"
        "\<forall>l \<in> set bs. suitable p l \<longrightarrow> object_quality m p \<le> object_quality l p"
      then show ?thesis using True e by (intro disjI2 exI[of _ "l # as"] exI[of _ m] exI[of _ bs]) auto
    qed
  qed
qed

section \<open>Keys of lookups\<close>

lemma split_at_newline:
  "a @ CHR 0x0A # b = c @ CHR 0x0A # d \<Longrightarrow> CHR 0x0A \<notin> set a \<Longrightarrow> CHR 0x0A \<notin> set c \<Longrightarrow> a = c \<and> b = d"
  by (metis option.inject prod.inject split_once_append)

definition one_line :: "string \<Rightarrow> bool" where
  "one_line s \<longleftrightarrow> CHR 0x0A \<notin> set s"

lemma scoped_key_data:
  "key_data (from_scoped_file sha256 uri s f) =
     (''scope: '' @ scope_display s) @ CHR 0x0A # [] @ CHR 0x0A # (''source: '' @ remote_source_id f) @ CHR 0x0A #
       (''location: '' @ uri f) @ CHR 0x0A # []"
  by (simp add: from_scoped_file_def build_key_def write_file_meta_def scoped_builder_def)

lemma scoped_key_inj:
  assumes "key_data (from_scoped_file sha256 uri s f) = key_data (from_scoped_file sha256 uri s' f')"
    and "one_line (scope_display s)" and "one_line (scope_display s')"
    and "one_line (remote_source_id f)" and "one_line (remote_source_id f')"
  shows "scope_display s = scope_display s' \<and> remote_source_id f = remote_source_id f' \<and> uri f = uri f'"
proof -
  have n: "CHR 0x0A \<notin> set (''scope: '' @ scope_display s)" "CHR 0x0A \<notin> set (''scope: '' @ scope_display s')"
    "CHR 0x0A \<notin> set (''source: '' @ remote_source_id f)" "CHR 0x0A \<notin> set (''source: '' @ remote_source_id f')"
    using assms(2-5) by (simp_all add: one_line_def)
  from split_at_newline[OF assms(1)[unfolded scoped_key_data] n(1,2)]
  have a: "scope_display s = scope_display s'"
    and r: "(''source: '' @ remote_source_id f) @ CHR 0x0A # (''location: '' @ uri f) @ [CHR 0x0A] =
       (''source: '' @ remote_source_id f') @ CHR 0x0A # (''location: '' @ uri f') @ [CHR 0x0A]" by simp_all
  from split_at_newline[OF r n(3,4)] a show ?thesis by simp
qed

section \<open>Properties\<close>

text \<open>
  The best object is chosen, and the earliest of the best: the selected lookup is suitable (or
  an error), every suitable lookup before it is strictly worse and none after it is better; nothing
  is selected only if no lookup is suitable and none failed. In particular an error is only
  returned when no lookup has a suitable object.
\<close>

theorem select_meta_best:
  "(case select_meta ls p of
      None \<Rightarrow> filter (suitable p) ls = []
    | Some m \<Rightarrow> (\<exists>as bs. ls = as @ m # bs \<and> suitable p m
        \<and> filter (\<lambda>l. suitable p l \<and> object_quality l p \<le> object_quality m p) as = []
        \<and> filter (\<lambda>l. suitable p l \<and> object_quality l p < object_quality m p) bs = []))"
proof -
  have big: "\<not> 255 \<le> object_quality l p" for l using object_quality_le[of l p] by simp
  from select_loop_cases[of p ls None 255] show ?thesis
  proof (elim disjE conjE exE)
    assume "select_loop p ls None 255 = None" "\<forall>l \<in> set ls. suitable p l \<longrightarrow> 255 \<le> object_quality l p"
    then show ?thesis using big by (auto simp: select_meta_def filter_empty_conv)
  next
    fix as m bs assume l: "ls = as @ m # bs" and s: "select_loop p ls None 255 = Some m" and m: "suitable p m"
        "\<forall>l \<in> set as. suitable p l \<longrightarrow> object_quality m p < object_quality l p"
        "\<forall>l \<in> set bs. suitable p l \<longrightarrow> object_quality m p \<le> object_quality l p"
    have "filter (\<lambda>l. suitable p l \<and> object_quality l p \<le> object_quality m p) as = []"
      "filter (\<lambda>l. suitable p l \<and> object_quality l p < object_quality m p) bs = []"
      using m(2,3) by (auto simp: filter_empty_conv)
    with l m(1) show ?thesis unfolding select_meta_def s option.case by blast
  qed
qed

lemma create_candidate_info_source [simp]: "cand_source (create_candidate_info D uri l) = remote_source_id (file_source l)"
  by (simp add: create_candidate_info_def)

lemma left_ids: "set (fold (\<lambda>l ids. removeAll (remote_source_id (file_source l)) ids) ls ids) =
    set ids - (\<lambda>l. remote_source_id (file_source l)) ` set ls"
  by (induction ls arbitrary: ids) auto

lemma create_candidates_spec:
  "sorted_by cand_key (create_candidates D uri sources lookups)
   \<and> list_all (\<lambda>l. vec_map cand_key (create_candidates D uri sources lookups) (cand_key (create_candidate_info D uri l)) =
          vec_map cand_key (map (create_candidate_info D uri) lookups) (cand_key (create_candidate_info D uri l))) lookups
   \<and> list_all (\<lambda>s. list_ex (\<lambda>c. cand_source c = source_config_id s) (create_candidates D uri sources lookups)) sources"
proof -
  define left where "left = fold (\<lambda>l ids. removeAll (remote_source_id (file_source l)) ids) lookups (sort (remdups (map source_config_id sources)))"
  let ?infos = "map (create_candidate_info D uri) lookups"
  let ?v = "?infos @ map no_files_candidate left"
  have c: "create_candidates D uri sources lookups = candidates_from_vec ?v"
    by (simp add: create_candidates_def left_def)
  have m: "vec_map cand_key (create_candidates D uri sources lookups) = vec_map cand_key ?v"
    unfolding c by (rule candidates_from_vec_map)
  have first: "vec_map cand_key ?v (cand_key (create_candidate_info D uri l)) = vec_map cand_key ?infos (cand_key (create_candidate_info D uri l))"
    if "l \<in> set lookups" for l
  proof -
    have "vec_map cand_key ?infos (cand_key (create_candidate_info D uri l)) \<noteq> None"
      unfolding vec_map_None using that by auto
    then show ?thesis by (auto simp: map_add_def)
  qed
  have src: "list_ex (\<lambda>c. cand_source c = source_config_id s) (create_candidates D uri sources lookups)" if "s \<in> set sources" for s
  proof -
    have "\<exists>x \<in> set ?v. cand_source x = source_config_id s"
    proof (cases "source_config_id s \<in> (\<lambda>l. remote_source_id (file_source l)) ` set lookups")
      case True
      then obtain l where "l \<in> set lookups" "source_config_id s = remote_source_id (file_source l)" by blast
      then show ?thesis by (intro bexI[of _ "create_candidate_info D uri l"]) auto
    next
      case False
      then have "source_config_id s \<in> set left" using that by (auto simp: left_def left_ids)
      then show ?thesis by (intro bexI[of _ "no_files_candidate (source_config_id s)"]) (auto simp: no_files_candidate_def)
    qed
    then obtain x where x: "x \<in> set ?v" "cand_source x = source_config_id s" by blast
    then have "vec_map cand_key ?v (cand_key x) \<noteq> None" by (auto simp: vec_map_None simp del: vec_map_simps)
    then obtain y where "vec_map cand_key (create_candidates D uri sources lookups) (cand_key x) = Some y"
      unfolding m by blast
    from vec_map_Some_key[OF this] x(2) show ?thesis by (auto simp: list_ex_iff cand_key_def)
  qed
  show ?thesis
    using candidates_from_vec_sorted[of ?v] first src unfolding m c[symmetric] by (simp add: list_all_iff)
qed

text \<open>
  Every file and every source is accounted for: the reported candidates are sorted and unique,
  each looked-up file is among them with the outcome of its first lookup, and every source of the
  request has at least one candidate, if only the note that it listed no files.
\<close>

theorem create_candidates_complete:
  "sorted_by cand_key (create_candidates D uri sources lookups)
   \<and> list_all (\<lambda>l. vec_map cand_key (create_candidates D uri sources lookups) (cand_key (create_candidate_info D uri l)) =
          vec_map cand_key (map (create_candidate_info D uri) lookups) (cand_key (create_candidate_info D uri l))) lookups
   \<and> list_all (\<lambda>s. list_ex (\<lambda>c. cand_source c = source_config_id s) (create_candidates D uri sources lookups)) sources"
  by (rule create_candidates_spec)

text \<open>
  Lookups never cross tenants: if the keys of two lookups have the same data, they are for the
  same location of the same source, and either both files are public or both requests have the
  same scope, when scopes and source ids are single lines and no request uses the reserved scope
  \<open>global\<close>.
\<close>

theorem lookups_isolated:
  assumes "key_data (from_scoped_file sha256 uri (lookup_scope (Scoped a) f) f) =
           key_data (from_scoped_file sha256 uri (lookup_scope (Scoped b) g) g)"
    and "one_line a" and "one_line b" and "one_line (remote_source_id f)" and "one_line (remote_source_id g)"
    and "a \<noteq> ''global''" and "b \<noteq> ''global''"
  shows "remote_source_id f = remote_source_id g \<and> uri f = uri g \<and> (remote_is_public f \<and> remote_is_public g \<or> a = b)"
proof -
  have l: "one_line (scope_display (lookup_scope (Scoped a) f))" "one_line (scope_display (lookup_scope (Scoped b) g))"
    using assms(2,3) by (auto simp: lookup_scope_def scope_display_def one_line_def)
  from scoped_key_inj[OF assms(1) l assms(4,5)] assms(6,7) show ?thesis
    by (auto simp: lookup_scope_def scope_display_def split: if_splits)
qed

theorem lookups_isolated_witness:
  "remote_source_id (Sentry ''project'' ''42'') = remote_source_id (Sentry ''project'' ''42'') \<and> (''1'' = ''1'')"
proof -
  let ?f = "Sentry ''project'' ''42''"
  have h: "one_line ''1''" "one_line (remote_source_id ?f)" "''1'' \<noteq> ''global''"
    by (simp_all add: one_line_def remote_source_id_def)
  from lookups_isolated[OF refl h(1) h(1) h(2) h(2) h(3) h(3)]
  show ?thesis by blast
qed

lemma find_matching_Some:
  "find_matching i obs = Some ob \<Longrightarrow> Inr ob \<in> set obs \<and> object_matches_id ob i"
  by (induction i obs rule: find_matching.induct) (auto split: if_splits)

lemma find_matching_None:
  "find_matching i obs = None \<longleftrightarrow> (\<forall>ob. Inr ob \<in> set obs \<longrightarrow> \<not> object_matches_id ob i)"
  by (induction i obs rule: find_matching.induct) auto

lemma first_error_None: "first_error obs = None \<longleftrightarrow> (\<forall>e. Inl e \<notin> set obs)"
  by (induction obs rule: first_error.induct) auto

text \<open>
  The right object is taken out of an archive: for a multi-object file the stored bytes are
  those of an object of the archive that matches the request (same id and at least the requested
  age, or else the same code id); it is not found only if every object could be read and none
  matches, and malformed only if none matches and one could not be read.
\<close>

theorem archive_object_matches:
  assumes "fetch_file dl decompress [] = (Inr (), bytes')" and "parse_archive bytes' = Inr ar" and "is_multi ar"
  shows "(case fetch_object_file parse_archive i dl decompress [] of
      (Inr _, out) \<Rightarrow> \<exists>ob. Inr ob \<in> set (objects ar) \<and> object_matches_id ob i \<and> out = po_data ob
    | (Inl err, out) \<Rightarrow> (\<forall>ob. Inr ob \<in> set (objects ar) \<longrightarrow> \<not> object_matches_id ob i) \<and>
        (if err = NotFound then (\<forall>e. Inl e \<notin> set (objects ar)) else \<exists>e. err = Malformed e \<and> Inl e \<in> set (objects ar)))"
proof (cases "find_matching i (objects ar)")
  case (Some ob)
  then show ?thesis using find_matching_Some[OF Some] assms by (auto simp: fetch_object_file_def)
next
  case None
  note nm = None[unfolded find_matching_None]
  show ?thesis
  proof (cases "first_error (objects ar)")
    case None
    then show ?thesis
      using \<open>find_matching i (objects ar) = None\<close> nm assms None[unfolded first_error_None]
      by (simp add: fetch_object_file_def)
  next
    case (Some e)
    have "first_error obs = Some e \<Longrightarrow> Inl e \<in> set obs" for obs :: "(string + parsed_object) list"
      by (induction obs rule: first_error.induct) auto
    then show ?thesis
      using \<open>find_matching i (objects ar) = None\<close> nm assms Some by (simp add: fetch_object_file_def)
  qed
qed

definition demo_object :: "8 word \<Rightarrow> 32 word \<Rightarrow> string \<Rightarrow> parsed_object" where
  "demo_object u n d = \<lparr>po_debug_id = \<lparr>uuid = replicate 16 u, appendix = n\<rparr>, po_code_id = None, po_data = d,
     po_features = default_features, po_vcs_name = None\<rparr>"

theorem archive_object_matches_witness:
  "\<exists>ob. Inr ob \<in> set (objects \<lparr>is_multi = True, objects = [Inr (demo_object 1 0 ''one''), Inl ''bad'', Inr (demo_object 2 4 ''two'')]\<rparr>)
     \<and> object_matches_id ob (default_object_id\<lparr>debug_id := Some \<lparr>uuid = replicate 16 2, appendix = 2\<rparr>\<rparr>) \<and> ''two'' = po_data ob"
proof -
  let ?ar = "\<lparr>is_multi = True, objects = [Inr (demo_object 1 0 ''one''), Inl ''bad'', Inr (demo_object 2 4 ''two'')]\<rparr>"
  let ?i = "default_object_id\<lparr>debug_id := Some \<lparr>uuid = replicate 16 2, appendix = 2\<rparr>\<rparr>"
  have h: "fetch_file (Inr ''fat'') Inr [] = (Inr (), ''fat'')" by (simp add: fetch_file_def)
  have a: "(\<lambda>_. Inr ?ar) ''fat'' = (Inr ?ar :: string + archive)" "is_multi ?ar" by simp_all
  have "fetch_object_file (\<lambda>_. Inr ?ar) ?i (Inr ''fat'') Inr [] = (Inr (), ''two'')"
    by (simp add: fetch_object_file_def fetch_file_def object_matches_id_def demo_object_def)
  with archive_object_matches[OF h a, of ?i] show ?thesis by simp
qed

end
