(* ===== verification/VariableTypes.thy ===== *)
theory VariableTypes
  imports Objects
begin

text \<open>
  \<open>symbolicator-native/interface/variables.rs\<close>: the variables of a frame, keyed by their names, and
  the representations of their values. The \<open>BTreeMap\<close> of variables is a list of entries in the
  strict order of the keys.
\<close>

section \<open>JSON values\<close>

text \<open>
  The values of \<open>serde_json\<close>. A floating-point number is kept as the bits of the type it was
  converted from.
\<close>

datatype json =
    JNull
  | JBool bool
  | JInt int
  | JFloat32 "32 word"
  | JFloat64 "64 word"
  | JString string
  | JArray "json list"
  | JObject "(string \<times> json) list"

text \<open>\<open>serde_json\<close> has no infinities and no NaNs: they become null.\<close>

definition json_f32 :: "32 word \<Rightarrow> json" where
  "json_f32 v = (if unat v div 2 ^ 23 mod 2 ^ 8 = 255 then JNull else JFloat32 v)"

definition json_f64 :: "64 word \<Rightarrow> json" where
  "json_f64 v = (if unat v div 2 ^ 52 mod 2 ^ 11 = 2047 then JNull else JFloat64 v)"

section \<open>Values\<close>

text \<open>\<open>{:#0wx}\<close> of an unsigned integer: padded with zeros to the width, the prefix included.\<close>

definition hex_padded :: "nat \<Rightarrow> nat \<Rightarrow> string" where
  "hex_padded width n = (let h = hex_nat False n in ''0x'' @ replicate (width - 2 - length h) (CHR ''0'') @ h)"

datatype pointer_address = ThirtyTwoBit "32 word" | SixtyFourBit "64 word"

definition pointer_address_display :: "pointer_address \<Rightarrow> string" where
  "pointer_address_display a = (case a of
      ThirtyTwoBit v \<Rightarrow> hex_padded 10 (unat v)
    | SixtyFourBit v \<Rightarrow> hex_padded 18 (unat v))"

record variable_value =
  vv_value :: "json option"
  vv_pointer_address :: "pointer_address option"

definition new_value :: variable_value where
  "new_value = \<lparr>vv_value = None, vv_pointer_address = None\<rparr>"

definition with_value :: "json \<Rightarrow> variable_value" where
  "with_value j = new_value\<lparr>vv_value := Some j\<rparr>"

definition with_pointer :: "pointer_address \<Rightarrow> variable_value" where
  "with_pointer a = new_value\<lparr>vv_pointer_address := Some a\<rparr>"

datatype variable_kind = LocalVariable | ParameterVariable

definition variable_kind_name :: "variable_kind \<Rightarrow> string" where
  "variable_kind_name k = (case k of LocalVariable \<Rightarrow> ''local'' | ParameterVariable \<Rightarrow> ''parameter'')"

record variable =
  vr_kind :: variable_kind
  vr_type :: string
  vr_value :: variable_value

definition into_variable :: "variable_value \<Rightarrow> string \<Rightarrow> variable_kind \<Rightarrow> variable" where
  "into_variable v type_name kind = \<lparr>vr_kind = kind, vr_type = type_name, vr_value = v\<rparr>"

section \<open>Variables by name\<close>

type_synonym variables = "(string \<times> variable) list"

fun btree_insert :: "'k::linorder \<Rightarrow> 'v \<Rightarrow> ('k \<times> 'v) list \<Rightarrow> ('k \<times> 'v) list" where
  "btree_insert k v [] = [(k, v)]"
| "btree_insert k v ((k', v') # xs) =
     (if k < k' then (k, v) # (k', v') # xs
      else if k = k' then (k, v) # xs
      else (k', v') # btree_insert k v xs)"

definition btree_collect :: "('k::linorder \<times> 'v) list \<Rightarrow> ('k \<times> 'v) list" where
  "btree_collect kvs = fold (\<lambda>(k, v). btree_insert k v) kvs []"

lemma keys_btree_insert [simp]: "fst ` set (btree_insert k v xs) = insert k (fst ` set xs)"
  by (induction k v xs rule: btree_insert.induct) auto

lemma sorted_btree_insert:
  "sorted_wrt (<) (map fst xs) \<Longrightarrow> sorted_wrt (<) (map fst (btree_insert k v xs))"
proof (induction k v xs rule: btree_insert.induct)
  case (2 k v k' v' xs)
  have "a < b" if "k < k'" "a = k" "b \<in> fst ` set xs" for a b
    using that "2.prems" by (auto dest: less_trans)
  moreover have "set (map fst (btree_insert k v xs)) = insert k (set (map fst xs))" by simp
  ultimately show ?case using 2 by auto
qed simp

lemma map_of_btree_insert:
  "sorted_wrt (<) (map fst xs) \<Longrightarrow> map_of (btree_insert k v xs) = (map_of xs)(k \<mapsto> v)"
  by (induction k v xs rule: btree_insert.induct) (auto simp: fun_eq_iff)

lemma btree_collect_spec:
  "sorted_wrt (<) (map fst (btree_collect kvs)) \<and> fst ` set (btree_collect kvs) = fst ` set kvs
    \<and> map_of (btree_collect kvs) = map_of (rev kvs)"
proof -
  let ?go = "fold (\<lambda>(k, v). btree_insert k v)"
  have "sorted_wrt (<) (map fst (?go kvs xs)) \<and> fst ` set (?go kvs xs) = fst ` set kvs \<union> fst ` set xs
      \<and> map_of (?go kvs xs) = map_of xs ++ map_of (rev kvs)" if "sorted_wrt (<) (map fst xs)" for xs
    using that
  proof (induction kvs arbitrary: xs)
    case (Cons kv kvs)
    obtain k v where kv: "kv = (k, v)" by (cases kv)
    show ?case using Cons.IH[OF sorted_btree_insert[OF Cons.prems, of k v]] Cons.prems
      by (auto simp: kv map_of_btree_insert fun_eq_iff map_add_def split: option.splits)
  qed simp
  from this[of "[]"] show ?thesis by (simp add: btree_collect_def)
qed

section \<open>Serialization\<close>

text \<open>Absent representations are left out, and the value's fields stand beside the variable's.\<close>

definition value_fields :: "variable_value \<Rightarrow> (string \<times> json) list" where
  "value_fields v =
     (case vv_value v of None \<Rightarrow> [] | Some j \<Rightarrow> [(''value'', j)])
     @ (case vv_pointer_address v of None \<Rightarrow> [] | Some a \<Rightarrow> [(''pointer_address'', JString (pointer_address_display a))])"

definition variable_json :: "variable \<Rightarrow> json" where
  "variable_json v = JObject ([(''kind'', JString (variable_kind_name (vr_kind v))), (''type'', JString (vr_type v))]
     @ value_fields (vr_value v))"

definition variables_json :: "variables \<Rightarrow> json" where
  "variables_json vs = JObject (map (\<lambda>(n, v). (n, variable_json v)) vs)"

end
