(* ===== verification/Interface.thy ===== *)
theory Interface
  imports VariableTypes
begin

text \<open>
  The interface types of native symbolication (\<open>symbolicator-native/interface/mod.rs\<close>, \<open>types.rs\<close> and
  \<open>utils/hex.rs\<close> of the service): hexadecimal values, address modes, platforms, object infos,
  frames and stack traces. Addresses are 64-bit words. Languages and architectures are enums of
  the \<open>symbolic\<close> crate and are named by strings here; the parsers and printers of its identifiers
  are a parameter, as are regular expressions.
\<close>

section \<open>Checked arithmetic\<close>

definition checked_add :: "64 word \<Rightarrow> 64 word \<Rightarrow> 64 word option" where
  "checked_add a b = (if unat a + unat b < 2 ^ 64 then Some (a + b) else None)"

definition checked_sub :: "64 word \<Rightarrow> 64 word \<Rightarrow> 64 word option" where
  "checked_sub a b = (if b \<le> a then Some (a - b) else None)"

lemma checked_add_Some: "checked_add a b = Some c \<longleftrightarrow> unat c = unat a + unat b"
proof
  assume "checked_add a b = Some c"
  then show "unat c = unat a + unat b"
    by (auto simp: checked_add_def unat_word_ariths split: if_splits)
next
  assume u: "unat c = unat a + unat b"
  then have lt: "unat a + unat b < 2 ^ 64" using unsigned_less[of c, where 'a = nat] by simp
  then have "unat (a + b) = unat c" using u by (simp add: unat_word_ariths)
  then have "a + b = c" by (rule word_unat_eq_iff[THEN iffD2])
  then show "checked_add a b = Some c" using lt by (simp add: checked_add_def)
qed

lemma unat_minus_le: "b \<le> a \<Longrightarrow> unat (a - b) = unat a - unat (b :: 64 word)"
  by (rule unat_sub)

lemma checked_sub_Some: "checked_sub a b = Some c \<longleftrightarrow> unat a = unat b + unat c"
proof
  assume "checked_sub a b = Some c"
  then have c: "b \<le> a" "c = a - b" by (simp_all add: checked_sub_def split: if_splits)
  then have "unat b \<le> unat a" by (simp add: word_le_nat_alt)
  then show "unat a = unat b + unat c" using unat_minus_le[OF c(1)] c(2) by simp
next
  assume u: "unat a = unat b + unat c"
  then have le: "b \<le> a" by (simp add: word_le_nat_alt)
  then have "unat (a - b) = unat c" using unat_minus_le[OF le] u by simp
  then have "a - b = c" by (rule word_unat_eq_iff[THEN iffD2])
  then show "checked_sub a b = Some c" using le by (simp add: checked_sub_def)
qed

section \<open>Hexadecimal values\<close>

definition hex_display :: "64 word \<Rightarrow> string" where
  "hex_display w = ''0x'' @ hex_nat False (unat w)"

definition hex_digit_value :: "char \<Rightarrow> nat" where
  "hex_digit_value c =
     (if byte_of c \<le> 57 then byte_of c - 48 else if byte_of c \<le> 70 then byte_of c - 55 else byte_of c - 87)"

definition hex_value :: "string \<Rightarrow> nat" where
  "hex_value s = foldl (\<lambda>n c. n * 16 + hex_digit_value c) 0 s"

text \<open>\<open>u64::from_str_radix(s, 16)\<close>\<close>

definition parse_hex_u64 :: "string \<Rightarrow> nat option" where
  "parse_hex_u64 s =
     (let d = (case s of c # t \<Rightarrow> if c = CHR ''+'' then t else s | [] \<Rightarrow> [])
      in if d \<noteq> [] \<and> list_all is_hex_char d \<and> hex_value d \<le> u64_max then Some (hex_value d) else None)"

definition hex_from_str :: "string \<Rightarrow> 64 word option" where
  "hex_from_str s =
     map_option word_of_nat
       (if starts_with s ''0x'' \<or> starts_with s ''0X'' then parse_hex_u64 (drop 2 s) else parse_u64 s)"

lemma hex_digit_value_hex_digit: "n < 16 \<Longrightarrow> hex_digit_value (hex_digit u n) = n"
  by (auto simp: hex_digit_value_def byte_of_hex_digit)

lemma hex_value_snoc: "hex_value (s @ [c]) = hex_value s * 16 + hex_digit_value c"
  by (simp add: hex_value_def)

lemma hex_value_hex_nat: "hex_value (hex_nat u n) = n"
proof (induction u n rule: hex_nat.induct)
  case (1 u n)
  show ?case
  proof (cases "n < 16")
    case True
    then show ?thesis by (subst hex_nat.simps) (simp add: hex_value_def hex_digit_value_hex_digit)
  next
    case False
    then have "hex_nat u n = hex_nat u (n div 16) @ [hex_digit u (n mod 16)]" by (subst hex_nat.simps) simp
    then show ?thesis using 1[OF False] by (simp add: hex_value_snoc hex_digit_value_hex_digit)
  qed
qed

lemma hex_nat_nonempty: "hex_nat u n \<noteq> []"
  by (subst hex_nat.simps) simp

lemma parse_hex_hex_nat: "n \<le> u64_max \<Longrightarrow> parse_hex_u64 (hex_nat u n) = Some n"
proof -
  assume n: "n \<le> u64_max"
  have all: "list_all is_hex_char (hex_nat u n)" by (simp add: list_all_iff hex_nat_is_hex)
  obtain c t where c: "hex_nat u n = c # t" using hex_nat_nonempty by (metis list.exhaust)
  have "c \<noteq> CHR ''+''" using all c by (auto simp: is_hex_char_def byte_of_def)
  then have "(case hex_nat u n of c # t \<Rightarrow> if c = CHR ''+'' then t else hex_nat u n | [] \<Rightarrow> []) = hex_nat u n"
    by (simp add: c)
  then show ?thesis using all n by (simp add: parse_hex_u64_def hex_value_hex_nat c[symmetric] hex_nat_nonempty)
qed

lemma unat_le_u64: "unat (w :: 64 word) \<le> u64_max"
  using unsigned_less[of w, where 'a = nat] by (simp add: u64_max_def)

section \<open>Address modes\<close>

datatype addr_mode = Abs | Rel nat

definition addr_mode_display :: "addr_mode \<Rightarrow> string" where
  "addr_mode_display m = (case m of Abs \<Rightarrow> ''abs'' | Rel i \<Rightarrow> ''rel:'' @ dec_nat i)"

definition addr_mode_from_str :: "string \<Rightarrow> addr_mode option" where
  "addr_mode_from_str s =
     (if s = ''abs'' then Some Abs
      else (case split_once CHR '':'' s of
              None \<Rightarrow> None
            | Some (kind, index) \<Rightarrow>
                (case parse_u64 index of
                   None \<Rightarrow> None
                 | Some i \<Rightarrow> if kind = ''rel'' then Some (Rel i) else None)))"

section \<open>Platforms\<close>

datatype native_platform = ObjC | Cocoa | Swift | NativeP | C | CSharp
datatype js_platform = Node | JavaScript
datatype jvm_platform = Java | Android
datatype platform = PNative native_platform | PJs js_platform | PJvm jvm_platform | POther string

definition native_platform_as_ref :: "native_platform \<Rightarrow> string" where
  "native_platform_as_ref p = (case p of ObjC \<Rightarrow> ''objc'' | Cocoa \<Rightarrow> ''cocoa'' | Swift \<Rightarrow> ''swift''
     | NativeP \<Rightarrow> ''native'' | C \<Rightarrow> ''c'' | CSharp \<Rightarrow> ''csharp'')"

definition js_platform_as_ref :: "js_platform \<Rightarrow> string" where
  "js_platform_as_ref p = (case p of Node \<Rightarrow> ''node'' | JavaScript \<Rightarrow> ''javascript'')"

definition jvm_platform_as_ref :: "jvm_platform \<Rightarrow> string" where
  "jvm_platform_as_ref p = (case p of Java \<Rightarrow> ''java'' | Android \<Rightarrow> ''android'')"

definition platform_as_ref :: "platform \<Rightarrow> string" where
  "platform_as_ref p = (case p of PNative p \<Rightarrow> native_platform_as_ref p | PJs p \<Rightarrow> js_platform_as_ref p
     | PJvm p \<Rightarrow> jvm_platform_as_ref p | POther s \<Rightarrow> s)"

definition platform_is_native :: "platform \<Rightarrow> bool" where
  "platform_is_native p = (case p of PNative _ \<Rightarrow> True | _ \<Rightarrow> False)"
definition platform_is_js :: "platform \<Rightarrow> bool" where
  "platform_is_js p = (case p of PJs _ \<Rightarrow> True | _ \<Rightarrow> False)"
definition platform_is_jvm :: "platform \<Rightarrow> bool" where
  "platform_is_jvm p = (case p of PJvm _ \<Rightarrow> True | _ \<Rightarrow> False)"

definition default_platform :: platform where
  "default_platform = POther ''unknown''"

text \<open>The untagged \<open>Deserialize\<close>: the variants in order, with the alias for Node.\<close>

definition platform_from_str :: "string \<Rightarrow> platform" where
  "platform_from_str s =
     (if s = ''objc'' then PNative ObjC else if s = ''cocoa'' then PNative Cocoa
      else if s = ''swift'' then PNative Swift else if s = ''native'' then PNative NativeP
      else if s = ''c'' then PNative C else if s = ''csharp'' then PNative CSharp
      else if s = ''node'' \<or> s = ''nodejs'' then PJs Node else if s = ''javascript'' then PJs JavaScript
      else if s = ''java'' then PJvm Java else if s = ''android'' then PJvm Android
      else POther s)"

datatype frame_order = CalleeFirst | CallerFirst

section \<open>Object infos\<close>

datatype object_file_status =
  StFound | StUnused | StMissing | StMalformed | StFetchingFailed | StTimeout | StUnsupported | StOther

definition object_file_status_name :: "object_file_status \<Rightarrow> string" where
  "object_file_status_name s = (case s of StFound \<Rightarrow> ''found'' | StUnused \<Rightarrow> ''unused'' | StMissing \<Rightarrow> ''missing''
     | StMalformed \<Rightarrow> ''malformed'' | StFetchingFailed \<Rightarrow> ''fetching_failed'' | StTimeout \<Rightarrow> ''timeout''
     | StUnsupported \<Rightarrow> ''unsupported'' | StOther \<Rightarrow> ''other'')"

record raw_object_info =
  ro_type :: object_type
  ro_code_id :: "string option"
  ro_code_file :: "string option"
  ro_debug_id :: "string option"
  ro_debug_file :: "string option"
  ro_debug_checksum :: "string option"
  ro_image_addr :: "64 word"
  ro_image_size :: "64 word option"

record object_info =
  oi_debug_status :: object_file_status
  oi_unwind_status :: "object_file_status option"
  oi_features :: object_features
  oi_arch :: string
  oi_raw :: raw_object_info
  oi_candidates :: all_candidates

definition supports_absolute_addresses :: "object_info \<Rightarrow> bool" where
  "supports_absolute_addresses o' \<longleftrightarrow> ro_image_addr (oi_raw o') \<noteq> 0"

definition abs_to_rel_addr :: "object_info \<Rightarrow> 64 word \<Rightarrow> 64 word option" where
  "abs_to_rel_addr o' addr =
     (if supports_absolute_addresses o' then checked_sub addr (ro_image_addr (oi_raw o')) else None)"

definition rel_to_abs_addr :: "object_info \<Rightarrow> 64 word \<Rightarrow> 64 word option" where
  "rel_to_abs_addr o' addr =
     (if supports_absolute_addresses o' then checked_add (ro_image_addr (oi_raw o')) addr else None)"

text \<open>Identifiers as the \<open>symbolic\<close> crate reads and prints them.\<close>

record id_externals =
  debug_id_from_str :: "string \<Rightarrow> debug_id_t option"
  debug_id_to_string :: "debug_id_t \<Rightarrow> string"
  code_id_from_str :: "string \<Rightarrow> code_id_t option"
  code_id_to_string :: "code_id_t \<Rightarrow> string"

definition normalize_id :: "(string \<Rightarrow> 'a option) \<Rightarrow> ('a \<Rightarrow> string) \<Rightarrow> string option \<Rightarrow> string option" where
  "normalize_id parse print i =
     (case i of None \<Rightarrow> None | Some s \<Rightarrow> if s = [] then None else map_option print (parse s))"

definition object_info_from_raw :: "id_externals \<Rightarrow> raw_object_info \<Rightarrow> object_info" where
  "object_info_from_raw I raw =
     \<lparr>oi_debug_status = StUnused, oi_unwind_status = None, oi_features = default_features, oi_arch = ''unknown'',
      oi_raw = raw\<lparr>ro_debug_id := normalize_id (debug_id_from_str I) (debug_id_to_string I) (ro_debug_id raw),
                   ro_code_id := normalize_id (code_id_from_str I) (code_id_to_string I) (ro_code_id raw)\<rparr>,
      oi_candidates = []\<rparr>"

definition parse_id :: "(string \<Rightarrow> 'a option) \<Rightarrow> string option \<Rightarrow> 'a option" where
  "parse_id parse i = (case i of None \<Rightarrow> None | Some s \<Rightarrow> if s = [] then None else parse s)"

definition object_id_from_object_info :: "id_externals \<Rightarrow> raw_object_info \<Rightarrow> object_id" where
  "object_id_from_object_info I raw =
     \<lparr>code_id = parse_id (code_id_from_str I) (ro_code_id raw), code_file = ro_code_file raw,
      debug_id = parse_id (debug_id_from_str I) (ro_debug_id raw), debug_file = ro_debug_file raw,
      debug_checksum = ro_debug_checksum raw, object_type = ro_type raw\<rparr>"

definition status_from_contents :: "'a cache_contents \<Rightarrow> object_file_status" where
  "status_from_contents c = (case c of
      Inr _ \<Rightarrow> StFound
    | Inl NotFound \<Rightarrow> StMissing
    | Inl (PermissionDenied _) \<Rightarrow> StFetchingFailed
    | Inl (DownloadError _) \<Rightarrow> StFetchingFailed
    | Inl (Timeout _) \<Rightarrow> StTimeout
    | Inl (Malformed _) \<Rightarrow> StMalformed
    | Inl (Unsupported _) \<Rightarrow> StUnsupported
    | Inl InternalError \<Rightarrow> StOther)"

section \<open>Frames\<close>

datatype frame_status = Symbolicated | MissingSymbol | UnknownImage | Missing | FrameMalformed

datatype frame_trust = TrustNone | Scan | CfiScan | Fp | Cfi | PreWalked | Context

type_synonym registers = "string \<Rightarrow> 64 word option"

record raw_frame =
  fr_platform :: "platform option"
  fr_addr_mode :: addr_mode
  fr_instruction_addr :: "64 word"
  fr_adjust :: "bool option"
  fr_function_id :: "64 word option"
  fr_package :: "string option"
  fr_lang :: "string option"
  fr_symbol :: "string option"
  fr_sym_addr :: "64 word option"
  fr_function :: "string option"
  fr_filename :: "string option"
  fr_abs_path :: "string option"
  fr_lineno :: "nat option"
  fr_pre_context :: "string list"
  fr_context_line :: "string option"
  fr_post_context :: "string list"
  fr_source_link :: "string option"
  fr_vars :: variables
  fr_trust :: frame_trust
  fr_registers :: registers
  fr_file_revision :: "string option"

definition default_frame :: raw_frame where
  "default_frame = \<lparr>fr_platform = None, fr_addr_mode = Abs, fr_instruction_addr = 0, fr_adjust = None,
     fr_function_id = None, fr_package = None, fr_lang = None, fr_symbol = None, fr_sym_addr = None,
     fr_function = None, fr_filename = None, fr_abs_path = None, fr_lineno = None, fr_pre_context = [],
     fr_context_line = None, fr_post_context = [], fr_source_link = None, fr_vars = [], fr_trust = TrustNone,
     fr_registers = Map.empty, fr_file_revision = None\<rparr>"

record sym_frame =
  sf_status :: frame_status
  sf_original_index :: "nat option"
  sf_raw :: raw_frame

record raw_stacktrace =
  rs_thread_id :: "nat option"
  rs_thread_name :: "string option"
  rs_is_requesting :: "bool option"
  rs_registers :: registers
  rs_frames :: "raw_frame list"

record complete_stacktrace =
  cs_thread_id :: "nat option"
  cs_thread_name :: "string option"
  cs_is_requesting :: "bool option"
  cs_registers :: registers
  cs_frames :: "sym_frame list"

datatype adjust_instruction_addr = AdjustYes | AdjustNo | AdjustAuto

definition adjust_for_frame :: "raw_frame \<Rightarrow> adjust_instruction_addr \<Rightarrow> adjust_instruction_addr" where
  "adjust_for_frame f def =
     (case fr_adjust f of Some True \<Rightarrow> AdjustYes | Some False \<Rightarrow> AdjustNo | None \<Rightarrow> def)"

definition adjust_default_for_thread :: "raw_stacktrace \<Rightarrow> adjust_instruction_addr" where
  "adjust_default_for_thread t =
     (if list_ex (\<lambda>f. fr_adjust f \<noteq> None) (rs_frames t) then AdjustYes else AdjustAuto)"

text \<open>A rewrite rule is its effect: None when the expression does not match.\<close>

type_synonym rewrite_rule = "string \<Rightarrow> string option"

fun rewrite :: "rewrite_rule list \<Rightarrow> string \<Rightarrow> string option" where
  "rewrite [] s = None"
| "rewrite (r # rs) s = (case r s of None \<Rightarrow> rewrite rs s | Some t \<Rightarrow> Some t)"

section \<open>Properties\<close>

text \<open>
  The text forms of the interface are lossless: hexadecimal values, address modes (with an
  index that fits a machine word) and platforms read back as they were printed.
\<close>

theorem interface_text_roundtrip:
  assumes "i \<le> u64_max" and "platform_from_str s = POther s"
  shows "hex_from_str (hex_display w) = Some w
    \<and> addr_mode_from_str (addr_mode_display Abs) = Some Abs
    \<and> addr_mode_from_str (addr_mode_display (Rel i)) = Some (Rel i)
    \<and> platform_from_str (platform_as_ref (PNative pn)) = PNative pn
    \<and> platform_from_str (platform_as_ref (PJs pj)) = PJs pj
    \<and> platform_from_str (platform_as_ref (PJvm pv)) = PJvm pv
    \<and> platform_from_str (platform_as_ref (POther s)) = POther s"
proof (intro conjI)
  show "hex_from_str (hex_display w) = Some w"
    using parse_hex_hex_nat[OF unat_le_u64, of False w]
    by (simp add: hex_from_str_def hex_display_def starts_with_def)
  show "addr_mode_from_str (addr_mode_display Abs) = Some Abs"
    by (simp add: addr_mode_from_str_def addr_mode_display_def)
  have "split_once CHR '':'' (''rel'' @ CHR '':'' # dec_nat i) = Some (''rel'', dec_nat i)"
    by (rule split_once_append) simp
  then show "addr_mode_from_str (addr_mode_display (Rel i)) = Some (Rel i)"
    using parse_u64_dec_nat[OF assms(1)] by (simp add: addr_mode_from_str_def addr_mode_display_def)
  show "platform_from_str (platform_as_ref (PNative pn)) = PNative pn"
    by (cases pn) (simp_all add: platform_from_str_def platform_as_ref_def native_platform_as_ref_def)
  show "platform_from_str (platform_as_ref (PJs pj)) = PJs pj"
    by (cases pj) (simp_all add: platform_from_str_def platform_as_ref_def js_platform_as_ref_def)
  show "platform_from_str (platform_as_ref (PJvm pv)) = PJvm pv"
    by (cases pv) (simp_all add: platform_from_str_def platform_as_ref_def jvm_platform_as_ref_def)
  show "platform_from_str (platform_as_ref (POther s)) = POther s"
    using assms(2) by (simp add: platform_as_ref_def)
qed

theorem interface_text_roundtrip_witness:
  "hex_from_str (hex_display 4276993775) = Some 4276993775 \<and> addr_mode_from_str (addr_mode_display (Rel 3)) = Some (Rel 3)"
proof -
  have h: "3 \<le> u64_max" "platform_from_str ''php'' = POther ''php''"
    by (simp_all add: u64_max_def platform_from_str_def)
  from interface_text_roundtrip[OF h, of 4276993775] show ?thesis by blast
qed

text \<open>
  Relative and absolute addresses of an image translate back and forth without loss, and a
  translation fails exactly when the image has no absolute addresses or the result would leave the
  64-bit range.
\<close>

theorem address_translation_exact:
  "(abs_to_rel_addr o' a = Some r \<longleftrightarrow> rel_to_abs_addr o' r = Some a)
   \<and> (rel_to_abs_addr o' r = None \<longleftrightarrow> ro_image_addr (oi_raw o') = 0 \<or> 2 ^ 64 \<le> unat (ro_image_addr (oi_raw o')) + unat r)
   \<and> (abs_to_rel_addr o' a = None \<longleftrightarrow> ro_image_addr (oi_raw o') = 0 \<or> a < ro_image_addr (oi_raw o'))"
proof (intro conjI)
  show "abs_to_rel_addr o' a = Some r \<longleftrightarrow> rel_to_abs_addr o' r = Some a"
    by (simp add: abs_to_rel_addr_def rel_to_abs_addr_def checked_add_Some checked_sub_Some)
  show "rel_to_abs_addr o' r = None \<longleftrightarrow> ro_image_addr (oi_raw o') = 0 \<or> 2 ^ 64 \<le> unat (ro_image_addr (oi_raw o')) + unat r"
    by (auto simp: rel_to_abs_addr_def supports_absolute_addresses_def checked_add_def)
  show "abs_to_rel_addr o' a = None \<longleftrightarrow> ro_image_addr (oi_raw o') = 0 \<or> a < ro_image_addr (oi_raw o')"
    by (auto simp: abs_to_rel_addr_def supports_absolute_addresses_def checked_sub_def)
qed

end
