(* ===== verification/SourceContext.thy ===== *)
theory SourceContext
  imports Utf8
begin

text \<open>
  \<open>source_context.rs\<close>: the lines of a source file around a line number, each trimmed to about 150
  bytes around a column. Line numbers and columns are \<open>usize\<close>, modelled as naturals with the
  saturating subtraction of the code. Slicing at an offset that is not a character boundary panics.
\<close>

section \<open>Definitions\<close>

definition DEFAULT_CONTEXT_LINES :: nat where "DEFAULT_CONTEXT_LINES = 5"

text \<open>
  The last character boundary at or before an index, looked for in the four bytes that end at the
  index. \<open>unwrap_unchecked\<close> on a window without a boundary is undefined behaviour: \<open>Panic\<close> here.
\<close>

definition floor_char_boundary :: "string \<Rightarrow> nat \<Rightarrow> nat outcome" where
  "floor_char_boundary s index =
     (if index \<ge> length s then Ret (length s)
      else (case filter (\<lambda>i. \<not> is_continuation (s ! i)) [index - 3..<Suc index] of
              [] \<Rightarrow> Panic
            | is \<Rightarrow> Ret (last is)))"

text \<open>\<open>&line[start..end]\<close>\<close>

definition str_slice :: "string \<Rightarrow> nat \<Rightarrow> nat \<Rightarrow> string outcome" where
  "str_slice s a b =
     (if a \<le> b \<and> is_char_boundary s a \<and> is_char_boundary s b then Ret (drop a (take b s)) else Panic)"

definition snip_before :: string where "snip_before = ''{snip} ''"
definition snip_after :: string where "snip_after = '' {snip}''"

text \<open>The bounds before they are rounded down to character boundaries.\<close>

definition trim_bounds :: "nat \<Rightarrow> nat \<Rightarrow> nat \<times> nat" where
  "trim_bounds len column =
     (let col = min column len;
          start = col - 60;
          start = (if start < 5 then 0 else start);
          end' = min (start + 140) len;
          end' = (if end' > len - 5 then len else end');
          start = (if end' = len then end' - 140 else start)
      in (start, end'))"

definition trim_context_line :: "string \<Rightarrow> nat \<Rightarrow> string outcome" where
  "trim_context_line line column =
     (let len = length line in
      if len \<le> 150 then Ret line
      else (let (start, end') = trim_bounds len column in
        bind_out (floor_char_boundary line start) (\<lambda>start.
        bind_out (floor_char_boundary line end') (\<lambda>end'.
        bind_out (str_slice line start end') (\<lambda>mid.
        let text = (if start > 0 then snip_before @ mid else mid)
        in Ret (if end' < len then text @ snip_after else text))))))"

fun out_all :: "'a outcome list \<Rightarrow> 'a list outcome" where
  "out_all [] = Ret []"
| "out_all (x # xs) = bind_out x (\<lambda>y. map_out (\<lambda>ys. y # ys) (out_all xs))"

definition get_context_lines ::
    "string \<Rightarrow> nat \<Rightarrow> nat \<Rightarrow> nat option \<Rightarrow> (string list \<times> string \<times> string list) option outcome" where
  "get_context_lines source lineno trim_to_column context_lines =
     (let context_lines = (case context_lines of Some n \<Rightarrow> n | None \<Rightarrow> DEFAULT_CONTEXT_LINES);
          start_line = (lineno - context_lines) - 1;
          line_diff = (lineno - start_line) - 1;
          trim_line = (\<lambda>l. trim_context_line l trim_to_column);
          ls = drop start_line (read_lines source)
      in bind_out (out_all (map trim_line (take line_diff ls))) (\<lambda>pre.
         case drop line_diff ls of
           [] \<Rightarrow> Ret None
         | l # rest \<Rightarrow>
             bind_out (trim_line l) (\<lambda>context.
             map_out (\<lambda>post. Some (pre, context, post)) (out_all (map trim_line (take context_lines rest))))))"

section \<open>Boundaries of valid UTF-8\<close>

lemma byte_at_0: "s \<noteq> [] \<Longrightarrow> byte_at s 0 = byte_of (s ! 0)"
  by (simp add: byte_at_def)

lemma utf8_head_le4: "snd (utf8_head s) \<le> 4"
  by (simp add: utf8_head_def Let_def)

lemma second_ok_cont: "second_ok b c \<Longrightarrow> in_range 128 191 c"
  by (simp add: second_ok_def in_range_def split: if_splits)

lemma head_first:
  assumes "s \<noteq> []" and "fst (utf8_head s)"
  shows "\<not> is_continuation (s ! 0)"
  using assms unfolding utf8_head_def Let_def is_continuation_def utf8_char_width_def in_range_def
  by (simp add: byte_at_0 split: if_splits)

lemma head_rest:
  assumes "fst (utf8_head s)" and "0 < k" and "k < snd (utf8_head s)"
  shows "in_range 128 191 (byte_at s k)"
proof -
  have "k \<le> 3" using utf8_head_le4[of s] assms(3) by simp
  then have "k = 1 \<or> k = 2 \<or> k = 3" using assms(2) by auto
  then show ?thesis
    using assms unfolding utf8_head_def Let_def cont_at_def
    by (elim disjE) (auto split: if_splits dest: second_ok_cont)
qed

lemma head_rest_cont:
  assumes "s \<noteq> []" and "fst (utf8_head s)" and "0 < k" and "k < snd (utf8_head s)"
  shows "is_continuation (s ! k)"
  using head_rest[OF assms(2,3,4)] utf8_head_length[OF assms(1,2)] assms(4)
  by (simp add: byte_at_def in_range_def is_continuation_def split: if_splits)

lemma utf8_valid_step:
  assumes "utf8_valid s" and "s \<noteq> []"
  shows "fst (utf8_head s)" and "utf8_valid (drop (snd (utf8_head s)) s)"
  using assms by (simp_all add: utf8_valid.simps[of s] split: if_splits)

lemma boundary_near:
  "utf8_valid s \<Longrightarrow> i < length s \<Longrightarrow> \<exists>j. j \<le> i \<and> i \<le> j + 3 \<and> \<not> is_continuation (s ! j)"
proof (induction s arbitrary: i rule: utf8_valid.induct)
  case (1 s)
  then have ne: "s \<noteq> []" by auto
  let ?h = "snd (utf8_head s)"
  note h = utf8_valid_step[OF "1.prems"(1) ne]
  show ?case
  proof (cases "i < ?h")
    case True
    then have "i \<le> 3" using utf8_head_le4[of s] by simp
    with head_first[OF ne h(1)] show ?thesis by (intro exI[of _ 0]) simp
  next
    case False
    then have "i - ?h < length (drop ?h s)" using "1.prems"(2) by simp
    from "1.IH"[OF ne _ h(2) this] h(1)
    obtain j where "j \<le> i - ?h" "i - ?h \<le> j + 3" "\<not> is_continuation (drop ?h s ! j)" by auto
    with False "1.prems"(2) show ?thesis by (intro exI[of _ "?h + j"]) (auto simp: nth_drop)
  qed
qed

lemma valid_split:
  "utf8_valid s \<Longrightarrow> is_char_boundary s n \<Longrightarrow> utf8_valid (take n s) \<and> utf8_valid (drop n s)"
proof (induction s arbitrary: n rule: utf8_valid.induct)
  case (1 s)
  let ?h = "snd (utf8_head s)"
  show ?case
  proof (cases "s = [] \<or> n = 0")
    case True
    then show ?thesis using "1.prems" by auto
  next
    case False
    then have ne: "s \<noteq> []" and n: "0 < n" by auto
    note h = utf8_valid_step[OF "1.prems"(1) ne]
    have len: "?h \<le> length s" using utf8_head_length[OF ne h(1)] .
    have ge: "?h \<le> n"
    proof (rule ccontr)
      assume "\<not> ?h \<le> n"
      then have "is_continuation (s ! n)" using head_rest_cont[OF ne h(1) n] by simp
      with "1.prems"(2) n \<open>\<not> ?h \<le> n\<close> len show False by (auto simp: is_char_boundary_def)
    qed
    have "is_char_boundary (drop ?h s) (n - ?h)"
      using "1.prems"(2) ge len n by (auto simp: is_char_boundary_def nth_drop)
    from "1.IH"[OF ne _ h(2) this] h(1)
    have IH: "utf8_valid (take (n - ?h) (drop ?h s))" "utf8_valid (drop n s)" using ge by simp_all
    have "take n s = take ?h s @ take (n - ?h) (drop ?h s)"
      using ge by (metis le_add_diff_inverse take_add)
    with utf8_valid_cons_head[OF ne h(1) IH(1)] IH(2) show ?thesis by simp
  qed
qed

lemma floor_char_boundary_spec:
  assumes "utf8_valid s"
  shows "\<exists>n. floor_char_boundary s i = Ret n \<and> is_char_boundary s n \<and> n \<le> i \<and> min i (length s) \<le> n + 3"
proof (cases "i \<ge> length s")
  case True
  then show ?thesis by (simp add: floor_char_boundary_def is_char_boundary_def)
next
  case False
  let ?w = "filter (\<lambda>i. \<not> is_continuation (s ! i)) [i - 3..<Suc i]"
  from boundary_near[OF assms, of i] False
  obtain j where j: "j \<le> i" "i \<le> j + 3" "\<not> is_continuation (s ! j)" by auto
  then have "j \<in> set ?w" by (simp del: upt_Suc)
  then have ne: "?w \<noteq> []" by (metis empty_iff list.set(1))
  then have f: "floor_char_boundary s i = Ret (last ?w)"
    using False by (simp add: floor_char_boundary_def del: upt_Suc filter.simps split: list.split)
  from last_in_set[OF ne] have "last ?w \<in> set [i - 3..<Suc i]" "\<not> is_continuation (s ! last ?w)"
    unfolding set_filter by blast+
  then show ?thesis using False f by (intro exI[of _ "last ?w"]) (auto simp: is_char_boundary_def)
qed

section \<open>Lines of valid text are valid\<close>

lemma ascii_boundary: "i < length s \<Longrightarrow> is_ascii_char (s ! i) \<Longrightarrow> is_char_boundary s i"
  using ascii_not_continuation by (simp add: is_char_boundary_def)

lemma valid_after_ascii:
  assumes "utf8_valid (c # s)" and "is_ascii_char c"
  shows "utf8_valid s"
  using utf8_valid_step(2)[OF assms(1)] utf8_head_ascii[OF assms(2), of s] by simp

lemma valid_split_once:
  assumes "utf8_valid s" and "split_once d s = Some (a, b)" and "is_ascii_char d"
  shows "utf8_valid a \<and> utf8_valid b"
proof -
  have s: "s = a @ d # b" using split_once_Some[OF assms(2)] by simp
  then have "is_char_boundary s (length a)" using assms(3) by (intro ascii_boundary) simp_all
  from valid_split[OF assms(1) this] s have "utf8_valid a" "utf8_valid (d # b)" by simp_all
  with valid_after_ascii assms(3) show ?thesis by blast
qed

lemma cr_ascii: "is_ascii_char CHR 0x0D"
  by (simp add: is_ascii_char_def byte_of_def)

lemma valid_chop_cr:
  assumes "utf8_valid l"
  shows "utf8_valid (chop_cr l)"
proof (cases "l \<noteq> [] \<and> last l = CHR 0x0D")
  case True
  then have "is_ascii_char (l ! (length l - 1))"
    by (metis last_conv_nth cr_ascii)
  then have "is_char_boundary l (length l - 1)"
    using True by (intro ascii_boundary) simp_all
  with valid_split[OF assms] True show ?thesis by (simp add: chop_cr_def butlast_conv_take)
next
  case False
  then have "chop_cr l = l" unfolding chop_cr_def by (rule if_not_P)
  with assms show ?thesis by simp
qed

lemma valid_read_lines: "utf8_valid s \<Longrightarrow> list_all utf8_valid (read_lines s)"
proof (induction s rule: read_lines.induct)
  case (1 s)
  show ?case
  proof (cases "split_once CHR 0x0A s")
    case None
    then show ?thesis using "1.prems" by (simp add: read_lines.simps[of s])
  next
    case (Some p)
    obtain a b where p: "p = (a, b)" by (cases p)
    have "is_ascii_char CHR 0x0A" by (simp add: is_ascii_char_def byte_of_def)
    with valid_split_once[OF "1.prems" Some[unfolded p]] have "utf8_valid a" "utf8_valid b" by blast+
    moreover have "s \<noteq> []" using Some by auto
    ultimately show ?thesis
      using "1.IH"[OF _ Some[unfolded p] refl] Some p by (simp add: read_lines.simps[of s] valid_chop_cr)
  qed
qed

section \<open>Trimming\<close>

lemma trim_bounds_spec:
  assumes "150 < len" and "trim_bounds len column = (a, b)"
  shows "a + 140 = b" and "b \<le> len" and "a < len" and "min column len \<le> b" and "a \<le> min column len"
    and "b < len \<Longrightarrow> min column len + 3 < b"
proof -
  define col where "col = min column len"
  define start where "start = (if col - 60 < 5 then 0 else col - 60)"
  define e where "e = (if min (start + 140) len > len - 5 then len else min (start + 140) len)"
  have "(if e = len then e - 140 else start, e) = (a, b)"
    using assms(2) unfolding trim_bounds_def Let_def e_def start_def col_def .
  then have ab: "a = (if e = len then e - 140 else start)" "b = e" by auto
  have c: "col \<le> len" by (simp add: col_def)
  have s: "start \<le> col" "start = 0 \<and> col < 65 \<or> start + 60 = col" by (auto simp: start_def)
  have e: "e = len \<and> len < start + 145 \<or> e = start + 140 \<and> e + 5 \<le> len" using assms(1) by (auto simp: e_def min_def)
  show "a + 140 = b" "b \<le> len" "a < len" "min column len \<le> b" "a \<le> min column len" "b < len \<Longrightarrow> min column len + 3 < b"
    using assms(1) c s e unfolding ab col_def[symmetric] by auto
qed

text \<open>What trimming promises, as a relation between the line, the column and the result.\<close>

definition trimmed :: "string \<Rightarrow> nat \<Rightarrow> string \<Rightarrow> bool" where
  "trimmed line column text \<longleftrightarrow>
     (\<exists>pre mid post. line = pre @ mid @ post
        \<and> text = (if pre = [] then [] else snip_before) @ mid @ (if post = [] then [] else snip_after)
        \<and> length mid \<le> 150 \<and> list_all utf8_valid [pre, mid, post]
        \<and> length pre \<le> column \<and> (column < length line \<longrightarrow> column < length pre + length mid)
        \<and> (length line \<le> 150 \<longrightarrow> text = line))"

lemma trim_context_line_trimmed:
  assumes "utf8_valid line"
  shows "\<exists>text. trim_context_line line column = Ret text \<and> trimmed line column text"
proof (cases "length line \<le> 150")
  case True
  moreover have "trimmed line column line"
    unfolding trimmed_def
    by (intro exI[of _ "[]"] exI[of _ line]) (use True assms in simp)
  ultimately show ?thesis by (simp add: trim_context_line_def)
next
  case False
  obtain a b where ab: "trim_bounds (length line) column = (a, b)" by (cases "trim_bounds (length line) column")
  note s = trim_bounds_spec[OF _ ab]
  have l: "150 < length line" using False by simp
  obtain a' where a: "floor_char_boundary line a = Ret a'" "is_char_boundary line a'" "a' \<le> a" "min a (length line) \<le> a' + 3"
    using floor_char_boundary_spec[OF assms, of a] by blast
  obtain b' where b: "floor_char_boundary line b = Ret b'" "is_char_boundary line b'" "b' \<le> b" "min b (length line) \<le> b' + 3"
    using floor_char_boundary_spec[OF assms, of b] by blast
  have bb: "b = length line \<Longrightarrow> b' = b" using b(1) by (simp add: floor_char_boundary_def)
  have le: "a' \<le> b'" using a b s(1)[OF l] s(2)[OF l] by simp
  let ?mid = "drop a' (take b' line)"
  let ?pre = "take a' line" and ?post = "drop b' line"
  have line: "line = ?pre @ ?mid @ ?post"
    using le by (metis append_assoc append_take_drop_id min.absorb1 take_take)
  have blen: "b' \<le> length line" using is_char_boundary_le[OF b(2)] .
  have lens: "length ?pre = a'" "length ?mid = b' - a'" using le blen by simp_all
  have vb: "utf8_valid (take b' line)" "utf8_valid ?post" using valid_split[OF assms b(2)] by simp_all
  have "is_char_boundary (take b' line) a'"
    using a(2) le blen by (auto simp: is_char_boundary_def)
  from valid_split[OF vb(1) this] have vm: "utf8_valid ?pre" "utf8_valid ?mid" using le by simp_all
  let ?text = "(if ?pre = [] then [] else snip_before) @ ?mid @ (if ?post = [] then [] else snip_after)"
  have pre: "?pre = [] \<longleftrightarrow> a' = 0" using le blen l by auto
  have post: "?post = [] \<longleftrightarrow> \<not> b' < length line" by (simp add: not_less)
  have t: "trim_context_line line column = Ret ?text"
    using a b le False pre unfolding trim_context_line_def
    by (simp add: ab str_slice_def)
  have col: "column < length line \<Longrightarrow> column < b'"
    using s(6)[OF l] b(4) s(2)[OF l] bb by (cases "b = length line") auto
  have acol: "a' \<le> column" using a(3) s(5)[OF l] by simp
  have "b' - a' \<le> 143" using s(1)[OF l] a(4) b(3) s(3)[OF l] by simp
  then have c1: "length ?mid \<le> 150" using lens by linarith
  have c2: "list_all utf8_valid [?pre, ?mid, ?post]" using vm vb(2) by simp
  have c3: "length ?pre \<le> column" using acol lens(1) by linarith
  have c4: "column < length line \<longrightarrow> column < length ?pre + length ?mid" using col lens le by linarith
  have c5: "length line \<le> 150 \<longrightarrow> ?text = line" using False by linarith
  have "trimmed line column ?text"
    unfolding trimmed_def by (intro exI[of _ ?pre] exI[of _ ?mid] exI[of _ ?post] conjI line refl c1 c2 c3 c4 c5)
  with t show ?thesis by blast
qed

lemma out_all_trimmed:
  assumes "list_all utf8_valid ls"
  shows "\<exists>ts. out_all (map (\<lambda>l. trim_context_line l c) ls) = Ret ts \<and> list_all2 (\<lambda>l t. trimmed l c t) ls ts"
  using assms
proof (induction ls)
  case (Cons l ls)
  then obtain ts where "out_all (map (\<lambda>l. trim_context_line l c) ls) = Ret ts" "list_all2 (\<lambda>l t. trimmed l c t) ls ts"
    by auto
  moreover obtain t where "trim_context_line l c = Ret t" "trimmed l c t"
    using trim_context_line_trimmed Cons.prems by auto
  ultimately show ?case by auto
qed simp

section \<open>Lines around a line\<close>

lemma context_lines_spec:
  assumes "utf8_valid source"
  shows "\<exists>r. get_context_lines source lineno column (Some n) = Ret r
     \<and> (let ls = read_lines source; k = lineno - 1 in
        case r of None \<Rightarrow> length ls \<le> k
        | Some (pre, context, post) \<Rightarrow> k < length ls
            \<and> list_all2 (\<lambda>l t. trimmed l column t) (drop (k - n) (take k ls)) pre
            \<and> trimmed (ls ! k) column context
            \<and> list_all2 (\<lambda>l t. trimmed l column t) (take n (drop (Suc k) ls)) post)"
proof -
  define ls where "ls = read_lines source"
  define k where "k = lineno - 1"
  have v: "list_all utf8_valid ls" unfolding ls_def by (rule valid_read_lines[OF assms])
  have vd: "list_all utf8_valid (drop i ls)" "list_all utf8_valid (take i (drop j ls))" for i j
    using v by (auto simp: list_all_iff dest: in_set_dropD in_set_takeD)
  have start: "lineno - n - 1 = k - n" by (simp add: k_def)
  have diff: "lineno - (k - n) - 1 = k - (k - n)" by (simp add: k_def)
  have d: "drop (k - (k - n)) (drop (k - n) ls) = drop k ls" by simp
  have t: "take (k - (k - n)) (drop (k - n) ls) = drop (k - n) (take k ls)" by (simp add: drop_take)
  obtain pre where pre: "out_all (map (\<lambda>l. trim_context_line l column) (take (k - (k - n)) (drop (k - n) ls))) = Ret pre"
      "list_all2 (\<lambda>l t. trimmed l column t) (drop (k - n) (take k ls)) pre"
    using out_all_trimmed[OF vd(2)] t by metis
  have eq: "get_context_lines source lineno column (Some n) =
      (case drop k ls of [] \<Rightarrow> Ret None
       | l # rest \<Rightarrow> bind_out (trim_context_line l column) (\<lambda>context.
           map_out (\<lambda>post. Some (pre, context, post)) (out_all (map (\<lambda>l. trim_context_line l column) (take n rest)))))"
    unfolding get_context_lines_def Let_def option.case start diff ls_def[symmetric] pre(1) bind_out_simps d ..
  show ?thesis
  proof (cases "k < length ls")
    case False
    then show ?thesis using eq by (simp add: ls_def k_def)
  next
    case True
    then have dk: "drop k ls = ls ! k # drop (Suc k) ls" by (rule Cons_nth_drop_Suc[symmetric])
    obtain post where post: "out_all (map (\<lambda>l. trim_context_line l column) (take n (drop (Suc k) ls))) = Ret post"
        "list_all2 (\<lambda>l t. trimmed l column t) (take n (drop (Suc k) ls)) post"
      using out_all_trimmed[OF vd(2)] by metis
    obtain c where c: "trim_context_line (ls ! k) column = Ret c" "trimmed (ls ! k) column c"
      using trim_context_line_trimmed v True by (metis list_all_length)
    have "get_context_lines source lineno column (Some n) = Ret (Some (pre, c, post))"
      using eq post(1) c(1) by (simp add: dk)
    with True pre(2) post(2) c(2) show ?thesis by (simp add: ls_def k_def)
  qed
qed

section \<open>Properties\<close>

text \<open>
  The context of a line of any valid text: no panic; the reported line is the requested one, by
  number from 1 (0 counts as 1), surrounded by as many lines before and after as there are, up to the
  configured number; there is no context only if the file has no such line. Each line is trimmed: an
  infix of at most 150 bytes of whole characters that holds the character at the column, marked where
  it was cut, and a line of up to 150 bytes is left as it is.
\<close>

theorem context_lines_around:
  assumes "utf8_valid source"
  shows "\<exists>r. get_context_lines source lineno column (Some n) = Ret r
     \<and> (let ls = read_lines source; k = lineno - 1 in
        case r of None \<Rightarrow> length ls \<le> k
        | Some (pre, context, post) \<Rightarrow> k < length ls
            \<and> list_all2 (\<lambda>l t. trimmed l column t) (drop (k - n) (take k ls)) pre
            \<and> trimmed (ls ! k) column context
            \<and> list_all2 (\<lambda>l t. trimmed l column t) (take n (drop (Suc k) ls)) post)"
  by (rule context_lines_spec[OF assms])

theorem context_lines_around_witness:
  "\<exists>r. get_context_lines (''a'' @ [CHR 0x0A] @ ''b'') 1 0 (Some 2) = Ret r \<and> r \<noteq> None"
proof -
  have "utf8_valid (''a'' @ [CHR 0x0A] @ ''b'')"
    by (rule utf8_valid_ascii) (simp add: is_ascii_char_def byte_of_def)
  from context_lines_around[OF this, of 1 0 2] show ?thesis
    by (auto simp: Let_def read_lines.simps split: option.splits)
qed

end
