(* ===== verification/JsUtils.thy ===== *)
theory JsUtils
  imports Interface SourceContext
begin

text \<open>
  \<open>symbolicator-js/utils.rs\<close>: function names, module names, and the paths and URLs of JavaScript
  files. The regular expression that cleans a module name, the digest of a URL, the decoding of a
  \<open>data:\<close> URL and the search for a source map reference are parameters.
\<close>

section \<open>Strings\<close>

text \<open>\<open>split_once\<close> and \<open>contains\<close> with a string pattern; \<open>trim_end_matches\<close> with a non-empty one.\<close>

fun split_once_str :: "string \<Rightarrow> string \<Rightarrow> (string \<times> string) option" where
  "split_once_str p [] = (if p = [] then Some ([], []) else None)"
| "split_once_str p (c # s) =
     (if starts_with (c # s) p then Some ([], drop (length p) (c # s))
      else map_option (\<lambda>(a, b). (c # a, b)) (split_once_str p s))"

definition contains_str :: "string \<Rightarrow> string \<Rightarrow> bool" where
  "contains_str s p \<longleftrightarrow> split_once_str p s \<noteq> None"

function trim_end_matches :: "string \<Rightarrow> string \<Rightarrow> string" where
  "trim_end_matches p s =
     (if p \<noteq> [] \<and> ends_with s p then trim_end_matches p (take (length s - length p) s) else s)"
  by auto
termination
  by (relation "measure (\<lambda>(p, s). length s)") (auto simp: ends_with_def neq_Nil_conv)

declare trim_end_matches.simps [simp del]

definition before_first :: "(char \<Rightarrow> bool) \<Rightarrow> string \<Rightarrow> string" where
  "before_first P s = takeWhile (\<lambda>c. \<not> P c) s"

fun join_with :: "string \<Rightarrow> string list \<Rightarrow> string" where
  "join_with d [] = []"
| "join_with d [p] = p"
| "join_with d (p # q # ps) = p @ d @ join_with d (q # ps)"

section \<open>Function names\<close>

definition USELESS_FN_NAMES :: "string list" where
  "USELESS_FN_NAMES = [''<anonymous>'', ''__webpack_require__'', ''__webpack_modules__'']"

definition get_function_for_token :: "string option \<Rightarrow> string \<Rightarrow> string option \<Rightarrow> string" where
  "get_function_for_token frame_fn_name token_fn_name callsite_fn_name =
     (if token_fn_name \<notin> set USELESS_FN_NAMES then token_fn_name
      else case (case callsite_fn_name of Some n \<Rightarrow> if n \<noteq> [] then Some n else None | None \<Rightarrow> None) of
        Some token_name \<Rightarrow> token_name
      | None \<Rightarrow> (case frame_fn_name of None \<Rightarrow> token_fn_name | Some f \<Rightarrow> f))"

text \<open>The groups of equal neighbours; the last group of the vector comes first here.\<close>

fun group_parts :: "string list list \<Rightarrow> string list \<Rightarrow> string list list" where
  "group_parts gs [] = rev gs"
| "group_parts gs (p # ps) =
     (case gs of
        [] \<Rightarrow> group_parts [[p]] ps
      | g # gs' \<Rightarrow> if g = [] \<or> last g = p then group_parts ((g @ [p]) # gs') ps
                 else group_parts ([p] # g # gs') ps)"

definition fold_group :: "string list \<Rightarrow> string" where
  "fold_group g = (if length g = 1 then hd g else ''{'' @ hd g @ ''#'' @ dec_nat (length g) @ ''}'')"

definition fold_function_name :: "string \<Rightarrow> string" where
  "fold_function_name n =
     (let parts = split_on (CHR ''.'') n in
      if length parts = 1 then n
      else join_with ''.'' (map fold_group (group_parts [[]] (butlast parts))) @ ''.'' @ last parts)"

section \<open>File and module names\<close>

text \<open>\<open>^webpack(-internal)?://[a-zA-Z0-9_\-@\.]+/\./\<close>: the text after the match.\<close>

definition is_ns_char :: "char \<Rightarrow> bool" where
  "is_ns_char c \<longleftrightarrow> (97 \<le> byte_of c \<and> byte_of c \<le> 122) \<or> (65 \<le> byte_of c \<and> byte_of c \<le> 90)
     \<or> (48 \<le> byte_of c \<and> byte_of c \<le> 57) \<or> c \<in> set ''_-@.''"

definition webpack_namespace :: "string \<Rightarrow> string option" where
  "webpack_namespace s =
     (case strip_prefix s ''webpack'' of
        None \<Rightarrow> None
      | Some r \<Rightarrow>
          (case strip_prefix (case strip_prefix r ''-internal'' of Some t \<Rightarrow> t | None \<Rightarrow> r) ''://'' of
             None \<Rightarrow> None
           | Some t \<Rightarrow> if takeWhile is_ns_char t = [] then None else strip_prefix (dropWhile is_ns_char t) ''/./''))"

definition fixup_webpack_filename :: "string \<Rightarrow> string" where
  "fixup_webpack_filename f =
     (case split_once_str ''/~/'' f of
        Some (_, rest) \<Rightarrow> ''~/'' @ rest
      | None \<Rightarrow>
          (case webpack_namespace f of
             Some rest \<Rightarrow> ''./'' @ rest
           | None \<Rightarrow>
               (case strip_prefix f ''webpack:///'' of
                  Some rest \<Rightarrow> rest
                | None \<Rightarrow> (case strip_prefix f ''webpack-internal:///'' of Some rest \<Rightarrow> rest | None \<Rightarrow> f))))"

definition fixup_turbopack_filename :: "string \<Rightarrow> string" where
  "fixup_turbopack_filename f =
     (case split_once_str ''/~/'' f of
        Some (_, rest) \<Rightarrow> ''~/'' @ rest
      | None \<Rightarrow>
          (case strip_prefix f ''turbopack:///'' of
             Some rest \<Rightarrow> (case strip_prefix rest ''[project]/'' of Some p \<Rightarrow> p | None \<Rightarrow> rest)
           | None \<Rightarrow> f))"

definition strip_hostname :: "string \<Rightarrow> string" where
  "strip_hostname path =
     (case strip_prefix path ''~'' of
        Some after_tilde \<Rightarrow> after_tilde
      | None \<Rightarrow>
          (case split_once_str ''://'' path of
             Some (_, rest) \<Rightarrow>
               (if CHR ''/'' \<in> set rest then dropWhile (\<lambda>c. c \<noteq> CHR ''/'') rest else rest)
           | None \<Rightarrow> path))"

text \<open>The path up to its last \<open>.\<close> when no \<open>/\<close> follows it.\<close>

definition cut_extension :: "string \<Rightarrow> string" where
  "cut_extension path =
     (case dropWhile (\<lambda>c. c \<notin> set ''./'') (rev path) of
        [] \<Rightarrow> path
      | c # before \<Rightarrow> if c = CHR ''.'' then rev before else path)"

definition is_hash_segment :: "string \<Rightarrow> bool" where
  "is_hash_segment s \<longleftrightarrow> length s = 32 \<or> length s = 40 \<and> list_all is_hex_char s"

fun after_hash :: "string list \<Rightarrow> string list option" where
  "after_hash [] = None"
| "after_hash (s # ss) = (if is_hash_segment s then Some ss else after_hash ss)"

definition generate_module :: "(string \<Rightarrow> string) \<Rightarrow> string \<Rightarrow> string" where
  "generate_module clean abs_path =
     (let path = before_first (\<lambda>c. c \<in> set ''#?'') (strip_hostname abs_path);
          path = cut_extension path;
          path = (case strip_suffix path ''.min'' of Some p \<Rightarrow> p | None \<Rightarrow> path)
      in case after_hash (split_on (CHR ''/'') path) of
           Some ss \<Rightarrow> join_with ''/'' ss
         | None \<Rightarrow> clean path)"

section \<open>Joining paths\<close>

fun join_segments :: "bool \<Rightarrow> bool \<Rightarrow> string list \<Rightarrow> string list \<Rightarrow> string list" where
  "join_segments is_http first segs [] = segs"
| "join_segments is_http first segs (r # rs) =
     (if r = ''..'' \<and> (segs \<noteq> [] \<or> is_http) then join_segments is_http first (butlast segs) rs
      else if r = ''.'' \<and> (is_http \<or> first) then join_segments is_http first segs rs
      else join_segments is_http False (segs @ [r]) rs)"

definition slashed :: "string list \<Rightarrow> string" where
  "slashed segs = concat (map (\<lambda>s. if s = [] then [] else CHR ''/'' # s) segs)"

definition base_parts :: "string \<Rightarrow> string \<times> string" where
  "base_parts base = (case split_once_str ''://'' base of Some p \<Rightarrow> p | None \<Rightarrow> (''file'', base))"

text \<open>The segments left of the base name, after the host name or a leading \<open>/\<close>.\<close>

definition left_segments :: "string \<Rightarrow> string \<Rightarrow> string list" where
  "left_segments scheme rest =
     (let segs = split_on (CHR ''/'') rest;
          segs = (if scheme \<noteq> ''file'' then tl segs else if hd segs = [] then tl segs else segs)
      in butlast segs)"

definition join_paths :: "string \<Rightarrow> string \<Rightarrow> string" where
  "join_paths base right =
     (if contains_str right ''://'' \<or> starts_with right ''webpack:'' \<or> starts_with right ''turbopack:'' then right
      else
        (let (scheme, rest) = base_parts base;
             right = (case strip_prefix right ''~'' of Some r \<Rightarrow> r | None \<Rightarrow> right);
             hostname = hd (split_on (CHR ''/'') rest);
             is_http = (scheme = ''http'' \<or> scheme = ''https'')
         in if starts_with right ''/'' then
              (if scheme = ''file'' then right
               else case strip_prefix right ''//'' of
                 Some r \<Rightarrow> scheme @ ''://'' @ r
               | None \<Rightarrow> scheme @ ''://'' @ hostname @ right)
            else
              (if scheme \<noteq> ''file'' then scheme @ ''://'' @ hostname else [])
                @ slashed (join_segments is_http True (left_segments scheme rest) (split_on (CHR ''/'') right))))"

section \<open>Candidate names of a file\<close>

definition FILE_SUFFIX_PATTERNS :: "string list" where
  "FILE_SUFFIX_PATTERNS = [''.min'', ''.js'', ''.map'', ''.cjs'', ''.mjs'', ''.ts'', ''.d'', ''.jsx'', ''.tsx'']"

definition trim_once :: "string list \<Rightarrow> string \<Rightarrow> string" where
  "trim_once patterns s = fold trim_end_matches patterns s"

lemma trim_end_matches_prefix: "\<exists>k. s = trim_end_matches p s @ concat (replicate k p)"
proof (induction p s rule: trim_end_matches.induct)
  case (1 p s)
  show ?case
  proof (cases "p \<noteq> [] \<and> ends_with s p")
    case True
    define t where "t = take (length s - length p) s"
    from True have s: "s = t @ p" unfolding t_def ends_with_def by (metis append_take_drop_id)
    from "1.IH"[OF True] obtain k where "t = trim_end_matches p t @ concat (replicate k p)"
      unfolding t_def by blast
    then have "s = trim_end_matches p t @ concat (replicate k p) @ p" using s by (metis append.assoc)
    moreover have "concat (replicate k p) @ p = concat (replicate (Suc k) p)"
      by (induction k) auto
    moreover have "trim_end_matches p s = trim_end_matches p t"
      using True unfolding t_def by (subst trim_end_matches.simps) simp
    ultimately show ?thesis by metis
  next
    case False
    then have "trim_end_matches p s = s" by (subst trim_end_matches.simps) auto
    then have "s = trim_end_matches p s @ concat (replicate 0 p)" by simp
    then show ?thesis by blast
  qed
qed

lemma trim_once_prefix: "\<exists>qs. set qs \<subseteq> set ps \<and> s = trim_once ps s @ concat qs"
proof (induction ps arbitrary: s)
  case Nil
  show ?case by (simp add: trim_once_def)
next
  case (Cons p ps)
  let ?t = "trim_end_matches p s"
  obtain k where k: "s = ?t @ concat (replicate k p)" using trim_end_matches_prefix by blast
  obtain qs where qs: "set qs \<subseteq> set ps" "?t = trim_once ps ?t @ concat qs" using Cons.IH by blast
  have "s = trim_once (p # ps) s @ concat (qs @ replicate k p)"
    using k qs(2) by (simp add: trim_once_def) (metis append.assoc)
  moreover have "set (qs @ replicate k p) \<subseteq> set (p # ps)" using qs(1) by auto
  ultimately show ?case by blast
qed

lemma trim_once_shorter: "trim_once ps s \<noteq> s \<Longrightarrow> length (trim_once ps s) < length s"
proof -
  assume ne: "trim_once ps s \<noteq> s"
  obtain qs where s: "s = trim_once ps s @ concat qs" using trim_once_prefix by blast
  with ne have "concat qs \<noteq> []" by (metis append_Nil2)
  moreover have "length s = length (trim_once ps s) + length (concat qs)" using s by (metis length_append)
  ultimately show ?thesis by simp
qed

function trim_all_end_matches :: "string list \<Rightarrow> string \<Rightarrow> string" where
  "trim_all_end_matches patterns input =
     (let trimmed = trim_once patterns input in
      if trimmed = input then trimmed else trim_all_end_matches patterns trimmed)"
  by auto
termination
  by (relation "measure (\<lambda>(ps, s). length s)") (use trim_once_shorter in auto)

declare trim_all_end_matches.simps [simp del]

text \<open>\<open>rsplit_once\<close>: around the last separator.\<close>

definition rsplit_once :: "char \<Rightarrow> string \<Rightarrow> (string \<times> string) option" where
  "rsplit_once d s =
     (if d \<in> set s then Some (rev (tl (dropWhile (\<lambda>c. c \<noteq> d) (rev s))), rev (takeWhile (\<lambda>c. c \<noteq> d) (rev s))) else None)"

definition extract_file_stem :: "string \<Rightarrow> string" where
  "extract_file_stem p =
     (let path = strip_hostname p in
      case rsplit_once (CHR ''/'') path of
        None \<Rightarrow> path
      | Some (dir, base) \<Rightarrow>
          (let base = before_first (\<lambda>c. c = CHR ''?'') base;
               base = before_first (\<lambda>c. c = CHR ''#'') base
           in dir @ ''/'' @ trim_all_end_matches FILE_SUFFIX_PATTERNS base))"

definition get_release_file_candidate_urls :: "string \<Rightarrow> string list" where
  "get_release_file_candidate_urls u =
     (let url = before_first (\<lambda>c. c = CHR ''#'') u;
          relative = strip_hostname url
      in [url]
         @ (case split_once (CHR ''?'') url of Some (a, _) \<Rightarrow> [a] | None \<Rightarrow> [])
         @ [''~'' @ relative]
         @ (case split_once (CHR ''?'') relative of Some (a, _) \<Rightarrow> [''~'' @ a] | None \<Rightarrow> []))"

section \<open>Source map references\<close>

datatype source_map_url = Data string | Remote string

definition parse_with_prefix :: "(string \<Rightarrow> string option) \<Rightarrow> string \<Rightarrow> string \<Rightarrow> source_map_url cache_contents" where
  "parse_with_prefix decode base url_string =
     (if starts_with url_string ''data:'' then
        (case decode url_string of
           None \<Rightarrow> Inl (Malformed ''invalid `data:` url'')
         | Some d \<Rightarrow> Inr (Data d))
      else Inr (Remote (join_paths base url_string)))"

definition ok_option :: "'a cache_contents \<Rightarrow> 'a option" where
  "ok_option r = (case r of Inl _ \<Rightarrow> None | Inr x \<Rightarrow> Some x)"

definition resolve_sourcemap_url :: "(string \<Rightarrow> string option) \<Rightarrow> (string \<Rightarrow> string option) \<Rightarrow> string
    \<Rightarrow> (string \<rightharpoonup> string) \<Rightarrow> string \<Rightarrow> source_map_url option" where
  "resolve_sourcemap_url decode discover abs_path headers artifact =
     (case headers ''sourcemap'' of
        Some h \<Rightarrow> ok_option (parse_with_prefix decode abs_path h)
      | None \<Rightarrow>
          (case headers ''x-sourcemap'' of
             Some h \<Rightarrow> ok_option (parse_with_prefix decode abs_path h)
           | None \<Rightarrow>
               (case discover artifact of
                  None \<Rightarrow> None
                | Some r \<Rightarrow> ok_option (parse_with_prefix decode abs_path r))))"

section \<open>Refreshing scraped files\<close>

definition from_le_bytes :: "8 word list \<Rightarrow> 64 word" where
  "from_le_bytes bs = word_of_nat (\<Sum>i<length bs. unat (bs ! i) * 256 ^ i)"

text \<open>The key of a URL at a time; a zero interval divides by zero, and a time before the offset
  underflows (checked in a debug build, wrapping in a release build).\<close>

definition cache_busting_key :: "(string \<Rightarrow> 8 word list) \<Rightarrow> string \<Rightarrow> 64 word \<Rightarrow> 64 word \<Rightarrow> 64 word outcome" where
  "cache_busting_key sha url timestamp refresh_every =
     (if refresh_every = 0 then Panic
      else let url_hash = from_le_bytes (take 8 (sha url));
               offset = url_hash mod refresh_every
           in Ret ((timestamp - offset) div refresh_every * refresh_every + offset))"

section \<open>Searching for a text\<close>

lemma split_once_str_Some: "split_once_str p s = Some (a, b) \<Longrightarrow> s = a @ p @ b"
proof (induction s arbitrary: a)
  case (Cons c s)
  show ?case
  proof (cases "starts_with (c # s) p")
    case True
    with Cons.prems have "a = []" "b = drop (length p) (c # s)" by auto
    with True show ?thesis by (metis starts_with_iff append_Nil append_eq_conv_conj)
  next
    case False
    with Cons.prems obtain a' where "split_once_str p s = Some (a', b)" "a = c # a'" by (auto split: prod.splits)
    with Cons.IH show ?thesis by simp
  qed
qed (auto split: if_splits)

lemma contains_strI: "contains_str (a @ p @ b) p"
proof (induction a)
  case Nil
  have "starts_with (p @ b) p" by simp
  then show ?case by (cases "p @ b") (auto simp: contains_str_def)
next
  case (Cons c a)
  then show ?case by (auto simp: contains_str_def)
qed

lemma contains_str_iff: "contains_str s p \<longleftrightarrow> (\<exists>a b. s = a @ p @ b)"
  using contains_strI split_once_str_Some unfolding contains_str_def by (metis not_Some_eq surj_pair)

text \<open>Around the first \<open>://\<close>, when the text before it has no colon.\<close>

lemma split_scheme:
  assumes "CHR '':'' \<notin> set scheme"
  shows "split_once_str ''://'' (scheme @ ''://'' @ rest) = Some (scheme, rest)"
  using assms by (induction scheme) (auto simp: starts_with_def)

lemma split_on_not_Nil [simp]: "split_on d s \<noteq> []"
  by (induction s) (auto split: list.splits)

lemma hd_split_on:
  assumes "CHR ''/'' \<notin> set host" and "path = [] \<or> hd path = CHR ''/''"
  shows "hd (split_on (CHR ''/'') (host @ path)) = host"
  using assms(1)
proof (induction host)
  case Nil
  show ?case using assms(2) by (cases path) auto
next
  case (Cons c host)
  obtain q qs where "split_on (CHR ''/'') (host @ path) = q # qs" by (meson list.exhaust split_on_not_Nil)
  with Cons show ?case by auto
qed

section \<open>Joined paths stay on their host\<close>

lemma slashed_cases: "slashed segs = [] \<or> hd (slashed segs) = CHR ''/''"
  unfolding slashed_def by (induction segs) auto

definition keeps_host :: "string \<Rightarrow> bool" where
  "keeps_host right \<longleftrightarrow> \<not> contains_str right ''://'' \<and> \<not> starts_with right ''webpack:'' \<and> \<not> starts_with right ''turbopack:''
     \<and> \<not> starts_with right ''//'' \<and> \<not> starts_with right ''~//''"

lemma join_paths_host_spec:
  assumes scheme: "CHR '':'' \<notin> set scheme" "scheme \<noteq> ''file''"
    and host: "CHR ''/'' \<notin> set host" "path = [] \<or> hd path = CHR ''/''"
    and right: "keeps_host right"
  shows "\<exists>t. join_paths (scheme @ ''://'' @ host @ path) right = scheme @ ''://'' @ host @ t \<and> (t = [] \<or> hd t = CHR ''/'')"
proof -
  let ?base = "scheme @ ''://'' @ host @ path"
  let ?r = "case strip_prefix right ''~'' of Some r \<Rightarrow> r | None \<Rightarrow> right"
  have parts: "base_parts ?base = (scheme, host @ path)"
    using split_scheme[OF scheme(1)] by (simp add: base_parts_def)
  have h: "hd (split_on (CHR ''/'') (host @ path)) = host" by (rule hd_split_on[OF host])
  have pass: "\<not> (contains_str right ''://'' \<or> starts_with right ''webpack:'' \<or> starts_with right ''turbopack:'')"
    using right by (simp add: keeps_host_def)
  have no2: "strip_prefix ?r ''//'' = None"
  proof (cases "strip_prefix right ''~''")
    case None
    then show ?thesis using right by (simp add: keeps_host_def strip_prefix_def)
  next
    case (Some r)
    then have "right = ''~'' @ r" by (auto simp: strip_prefix_def starts_with_iff split: if_splits)
    then have "\<not> starts_with r ''//''" using right by (auto simp: keeps_host_def starts_with_iff)
    with Some show ?thesis by (simp add: strip_prefix_def)
  qed
  show ?thesis
  proof (cases "starts_with ?r ''/''")
    case True
    then have "join_paths ?base right = scheme @ ''://'' @ host @ ?r"
      unfolding join_paths_def if_not_P[OF pass] using parts h no2 scheme(2) by simp
    moreover have "hd ?r = CHR ''/''" using True by (auto simp: starts_with_iff)
    ultimately show ?thesis by blast
  next
    case False
    then have "join_paths ?base right = scheme @ ''://'' @ host
        @ slashed (join_segments (scheme = ''http'' \<or> scheme = ''https'') True (left_segments scheme (host @ path)) (split_on (CHR ''/'') ?r))"
      unfolding join_paths_def if_not_P[OF pass] using parts h scheme(2) by simp
    then show ?thesis using slashed_cases by blast
  qed
qed

text \<open>On HTTP a relative path leaves no dot segments of its own and cannot leave the host.\<close>

lemma join_segments_http: "set (join_segments True first segs rs) \<subseteq> set segs \<union> (set rs - {''.'', ''..''})"
proof (induction rs arbitrary: first segs)
  case (Cons r rs)
  have "set (butlast segs) \<subseteq> set segs" by (auto dest: in_set_butlastD)
  then show ?case using Cons.IH[of first "butlast segs"] Cons.IH[of first segs] Cons.IH[of False "segs @ [r]"]
    by (auto split: if_splits)
qed simp

lemma join_paths_absolute: "contains_str right ''://'' \<Longrightarrow> join_paths base right = right"
  by (simp add: join_paths_def)

section \<open>Trimmed suffixes\<close>

lemma trim_end_matches_none: "p \<noteq> [] \<Longrightarrow> trim_end_matches p s = s \<Longrightarrow> \<not> ends_with s p"
proof
  assume p: "p \<noteq> []" and eq: "trim_end_matches p s = s" and e: "ends_with s p"
  have "trim_end_matches p s = trim_end_matches p (take (length s - length p) s)"
    using p e by (subst trim_end_matches.simps) simp
  moreover have "length (trim_end_matches p t) \<le> length t" for t
    using trim_end_matches_prefix[of t p] by (metis length_append le_add1)
  ultimately have "length s \<le> length (take (length s - length p) s)" using eq by metis
  then show False using p e by (auto simp: ends_with_def)
qed

lemma trim_once_fixed: "trim_once ps s = s \<Longrightarrow> p \<in> set ps \<Longrightarrow> trim_end_matches p s = s"
proof (induction ps)
  case (Cons q ps)
  let ?t = "trim_end_matches q s"
  obtain k where k: "s = ?t @ concat (replicate k q)" using trim_end_matches_prefix by blast
  obtain qs where qs: "?t = trim_once ps ?t @ concat qs" using trim_once_prefix by blast
  have "trim_once ps ?t = s" using Cons.prems(1) by (simp add: trim_once_def)
  then have "?t = s @ concat qs" using qs by simp
  then have "?t = s" using k by (metis append_Nil2 append.assoc append_is_Nil_conv same_append_eq)
  then show ?case using Cons \<open>trim_once ps ?t = s\<close> by auto
qed simp

lemma trim_all_spec:
  assumes "[] \<notin> set ps"
  shows "list_all (\<lambda>p. \<not> ends_with (trim_all_end_matches ps s) p) ps \<and>
    (\<exists>qs. set qs \<subseteq> set ps \<and> s = trim_all_end_matches ps s @ concat qs)"
  using assms
proof (induction ps s rule: trim_all_end_matches.induct)
  case (1 ps s)
  let ?t = "trim_once ps s"
  obtain qs where qs: "set qs \<subseteq> set ps" "s = ?t @ concat qs" using trim_once_prefix by blast
  show ?case
  proof (cases "?t = s")
    case True
    then have eq: "trim_all_end_matches ps s = s" by (subst trim_all_end_matches.simps) simp
    have "\<not> ends_with s p" if "p \<in> set ps" for p
      using trim_end_matches_none trim_once_fixed[OF True that] that "1.prems" by metis
    then have "list_all (\<lambda>p. \<not> ends_with s p) ps" by (simp add: list_all_iff)
    moreover have "set [] \<subseteq> set ps \<and> s = s @ concat []" by simp
    ultimately show ?thesis unfolding eq by blast
  next
    case False
    then have eq: "trim_all_end_matches ps s = trim_all_end_matches ps ?t" by (subst trim_all_end_matches.simps) simp
    from "1.IH"[OF refl False "1.prems"] obtain rs where
      rs: "list_all (\<lambda>p. \<not> ends_with (trim_all_end_matches ps ?t) p) ps" "set rs \<subseteq> set ps" "?t = trim_all_end_matches ps ?t @ concat rs"
      by blast
    have "s = trim_all_end_matches ps ?t @ concat (rs @ qs)" using rs(3) qs(2) by (metis append.assoc concat_append)
    moreover have "set (rs @ qs) \<subseteq> set ps" using rs(2) qs(1) by simp
    ultimately show ?thesis using rs(1) unfolding eq by blast
  qed
qed

section \<open>The stem of a file is part of each of its candidate names\<close>

definition plain_query :: "string \<Rightarrow> bool" where
  "plain_query q \<longleftrightarrow> CHR ''/'' \<notin> set q \<and> (q = [] \<or> hd q \<in> set ''?#'')"

definition plain_path :: "string \<Rightarrow> bool" where
  "plain_path p \<longleftrightarrow> CHR ''?'' \<notin> set p \<and> CHR ''#'' \<notin> set p"

lemma starts_with_scheme: "CHR ''/'' \<notin> set q \<Longrightarrow> starts_with (s @ q) ''://'' = starts_with s ''://''"
proof (induction s)
  case Nil
  then show ?case by (cases q; cases "tl q") (auto simp: starts_with_def)
next
  case (Cons c s)
  then show ?case by (cases s; cases "tl s"; cases q; cases "tl q") (auto simp: starts_with_def)
qed

lemma split_scheme_append:
  assumes "CHR ''/'' \<notin> set q"
  shows "split_once_str ''://'' (p @ q) = map_option (\<lambda>(a, b). (a, b @ q)) (split_once_str ''://'' p)"
proof (induction p)
  case Nil
  have "\<not> contains_str q ''://''" using assms unfolding contains_str_iff by auto
  then have "split_once_str ''://'' q = None" unfolding contains_str_def by blast
  then show ?case by simp
next
  case (Cons c p)
  have "starts_with (c # p @ q) ''://'' = starts_with (c # p) ''://''"
    using starts_with_scheme[OF assms, of "c # p"] by simp
  moreover have "starts_with (c # p) ''://'' \<Longrightarrow> 3 \<le> length (c # p)"
    by (cases p; cases "tl p") (auto simp: starts_with_def)
  ultimately show ?case using Cons.IH by (cases "split_once_str ''://'' p") auto
qed

lemma strip_hostname_append:
  assumes "plain_query q"
  shows "strip_hostname (p @ q) = strip_hostname p @ q"
proof -
  have q: "CHR ''/'' \<notin> set q" "q = [] \<or> hd q \<noteq> CHR ''~''" using assms by (auto simp: plain_query_def)
  have "strip_prefix (p @ q) ''~'' = map_option (\<lambda>r. r @ q) (strip_prefix p ''~'')"
    using q(2) by (cases p; cases q) (auto simp: strip_prefix_def starts_with_def)
  then show ?thesis
    using split_scheme_append[OF q(1), of p] q(1)
    by (auto simp: strip_hostname_def dropWhile_append1 split: option.splits)
qed

lemma strip_hostname_suffix: "\<exists>a. p = a @ strip_hostname p"
proof (cases "strip_prefix p ''~''")
  case (Some r)
  then have "p = ''~'' @ r" by (auto simp: strip_prefix_def starts_with_iff split: if_splits)
  with Some show ?thesis by (auto simp: strip_hostname_def)
next
  case None
  show ?thesis
  proof (cases "split_once_str ''://'' p")
    case (Some ab)
    then obtain a b where ab: "split_once_str ''://'' p = Some (a, b)" by (cases ab) auto
    have "\<exists>x. b = x @ (if CHR ''/'' \<in> set b then dropWhile (\<lambda>c. c \<noteq> CHR ''/'') b else b)"
      by (metis append_Nil takeWhile_dropWhile_id)
    then obtain x where "b = x @ strip_hostname p" using None ab by (auto simp: strip_hostname_def)
    then show ?thesis using split_once_str_Some[OF ab] by (metis append.assoc)
  qed (use None in \<open>auto simp: strip_hostname_def\<close>)
qed

lemma rsplit_once_spec:
  assumes "d \<in> set s"
  obtains a b where "s = a @ d # b" "d \<notin> set b" "rsplit_once d s = Some (a, b)"
proof -
  obtain a b where ab: "s = a @ d # b" "d \<notin> set b" using split_list_last[OF assms] by blast
  have "dropWhile (\<lambda>c. c \<noteq> d) (rev b @ d # rev a) = d # rev a"
    using ab(2) by (subst dropWhile_append2) auto
  moreover have "takeWhile (\<lambda>c. c \<noteq> d) (rev b @ d # rev a) = rev b"
    using ab(2) by (subst takeWhile_append2) auto
  ultimately have "rsplit_once d s = Some (a, b)" using ab by (simp add: rsplit_once_def)
  with ab that show ?thesis by blast
qed

lemma last_split_unique:
  "a @ d # b = a' @ d # b' \<Longrightarrow> d \<notin> set b \<Longrightarrow> d \<notin> set b' \<Longrightarrow> a = a' \<and> b = b'"
  by (auto simp: append_eq_append_conv2 append_eq_Cons_conv Cons_eq_append_conv)

lemma takeWhile_app: "d \<notin> set p \<Longrightarrow> takeWhile (\<lambda>c. c \<noteq> d) (p @ q) = p @ takeWhile (\<lambda>c. c \<noteq> d) q"
  by (induction p) auto

lemma before_first_append: "list_all (\<lambda>c. \<not> P c) a \<Longrightarrow> b = [] \<or> P (hd b) \<Longrightarrow> before_first P (a @ b) = a"
  by (cases b) (auto simp: before_first_def list_all_iff takeWhile_append2)

lemma stem_prefix:
  assumes "plain_query q" "plain_path p" "CHR ''/'' \<in> set (strip_hostname p)"
  shows "\<exists>t. strip_hostname p = extract_file_stem (p @ q) @ t"
proof -
  let ?P = "strip_hostname p"
  obtain a b where ab: "?P = a @ CHR ''/'' # b" "CHR ''/'' \<notin> set b" using rsplit_once_spec[OF assms(3)] by metis
  have pb: "plain_path b"
    using assms(2) ab(1) strip_hostname_suffix[of p] unfolding plain_path_def by (metis UnCI list.set_intros(2) set_append)
  have "CHR ''/'' \<in> set (?P @ q)" using assms(3) by simp
  then obtain a' b' where ab': "?P @ q = a' @ CHR ''/'' # b'" "CHR ''/'' \<notin> set b'" "rsplit_once (CHR ''/'') (?P @ q) = Some (a', b')"
    by (rule rsplit_once_spec)
  have "CHR ''/'' \<notin> set (b @ q)" using ab(2) assms(1) by (simp add: plain_query_def)
  moreover have "a' @ CHR ''/'' # b' = a @ CHR ''/'' # (b @ q)" using ab'(1) ab(1) by simp
  ultimately have eq: "a' = a" "b' = b @ q" using ab'(2) last_split_unique by metis+
  let ?b1 = "before_first (\<lambda>c. c = CHR ''?'') (b @ q)"
  have "before_first (\<lambda>c. c = CHR ''#'') ?b1 = b"
  proof (cases "q \<noteq> [] \<and> hd q = CHR ''?''")
    case True
    then have "?b1 = b" using pb by (intro before_first_append) (auto simp: plain_path_def list_all_iff)
    moreover have "before_first (\<lambda>c. c = CHR ''#'') (b @ []) = b"
      using pb by (intro before_first_append) (auto simp: plain_path_def list_all_iff)
    ultimately show ?thesis by simp
  next
    case False
    then have q: "q = [] \<or> hd q = CHR ''#''" using assms(1) by (auto simp: plain_query_def)
    have b1: "?b1 = b @ takeWhile (\<lambda>c. c \<noteq> CHR ''?'') q"
      using pb by (simp add: before_first_def plain_path_def takeWhile_app)
    have "takeWhile (\<lambda>c. c \<noteq> CHR ''?'') q = [] \<or> hd (takeWhile (\<lambda>c. c \<noteq> CHR ''?'') q) = CHR ''#''"
      using q by (cases q) auto
    then show ?thesis unfolding b1 using pb by (intro before_first_append) (auto simp: plain_path_def list_all_iff)
  qed
  then have "extract_file_stem (p @ q) = a @ ''/'' @ trim_all_end_matches FILE_SUFFIX_PATTERNS b"
    using ab'(3) eq strip_hostname_append[OF assms(1), of p] by (simp add: extract_file_stem_def)
  moreover obtain t where "b = trim_all_end_matches FILE_SUFFIX_PATTERNS b @ t"
    using trim_all_spec[of FILE_SUFFIX_PATTERNS b] by (auto simp: FILE_SUFFIX_PATTERNS_def)
  ultimately show ?thesis using ab(1) by (metis append.assoc append_Cons append_Nil)
qed

lemma before_fragment:
  assumes "plain_query q" "plain_path p"
  shows "\<exists>q'. before_first (\<lambda>c. c = CHR ''#'') (p @ q) = p @ q' \<and> plain_query q'"
proof -
  have "before_first (\<lambda>c. c = CHR ''#'') (p @ q) = p @ takeWhile (\<lambda>c. c \<noteq> CHR ''#'') q"
    using assms(2) by (simp add: before_first_def plain_path_def takeWhile_app)
  moreover have "plain_query (takeWhile (\<lambda>c. c \<noteq> CHR ''#'') q)"
    using assms(1) by (cases q) (auto simp: plain_query_def dest: set_takeWhileD)
  ultimately show ?thesis by blast
qed

lemma split_query: "plain_path p \<Longrightarrow> plain_query q \<Longrightarrow> CHR ''#'' \<notin> set q \<Longrightarrow>
  split_once (CHR ''?'') (p @ q) = (case q of [] \<Rightarrow> None | _ # r \<Rightarrow> Some (p, r))"
  by (cases q) (auto simp: plain_path_def plain_query_def split_once_None)

lemma candidate_urls_contain_path:
  assumes "plain_query q" "plain_path p"
  shows "list_all (\<lambda>u. \<exists>a b. u = a @ strip_hostname p @ b) (get_release_file_candidate_urls (p @ q))"
proof -
  obtain q' where q': "before_first (\<lambda>c. c = CHR ''#'') (p @ q) = p @ q'" "plain_query q'"
    using before_fragment[OF assms] by blast
  have nf: "CHR ''#'' \<notin> set q'"
  proof -
    have "CHR ''#'' \<notin> set (before_first (\<lambda>c. c = CHR ''#'') (p @ q))"
      unfolding before_first_def by (metis set_takeWhileD)
    then show ?thesis using q'(1) by simp
  qed
  obtain x where x: "p = x @ strip_hostname p" using strip_hostname_suffix by blast
  let ?P = "strip_hostname p"
  have pp: "plain_path ?P" using assms(2) x unfolding plain_path_def by (metis UnCI set_append)
  have c1: "\<exists>a b. p @ q' = a @ ?P @ b" using x by (metis append.assoc)
  have c2: "\<exists>a b. p = a @ ?P @ b" using x by (metis append.right_neutral)
  have c3: "\<exists>a b. CHR ''~'' # ?P @ q' = a @ ?P @ b" by (metis append_Cons append_Nil)
  have c4: "\<exists>a b. CHR ''~'' # ?P = a @ ?P @ b" by (metis append_Cons append_Nil append_Nil2)
  have s: "strip_hostname (p @ q') = ?P @ q'" by (rule strip_hostname_append[OF q'(2)])
  show ?thesis
    unfolding get_release_file_candidate_urls_def Let_def q'(1) s
      split_query[OF assms(2) q'(2) nf] split_query[OF pp q'(2) nf]
    using c1 c2 c3 c4 by (cases q') auto
qed

lemma stem_in_candidates:
  assumes "plain_query q" "plain_path p" "CHR ''/'' \<in> set (strip_hostname p)"
  shows "list_all (\<lambda>u. contains_str u (extract_file_stem (p @ q))) (get_release_file_candidate_urls (p @ q))"
proof -
  obtain t where t: "strip_hostname p = extract_file_stem (p @ q) @ t" using stem_prefix[OF assms] by blast
  have "contains_str u (extract_file_stem (p @ q))" if "\<exists>a b. u = a @ strip_hostname p @ b" for u
    using that t unfolding contains_str_iff by (metis append.assoc)
  then show ?thesis
    using candidate_urls_contain_path[OF assms(1,2)] by (simp add: list_all_iff)
qed

text \<open>
  The stem sent to Sentry with an API request is contained in every name under which the file may
  be stored, so the partial match of the server finds the file under each of them. Only the query
  and fragment of the URL must not contain a slash.
\<close>

theorem stem_found_in_candidates:
  assumes "plain_query q" "plain_path p" "CHR ''/'' \<in> set (strip_hostname p)"
  shows "list_all (\<lambda>u. contains_str u (extract_file_stem (p @ q))) (get_release_file_candidate_urls (p @ q))"
  by (rule stem_in_candidates[OF assms])

theorem stem_found_in_candidates_witness:
  "list_all (\<lambda>u. contains_str u (extract_file_stem (''http://x/a.min.js'' @ ''?v=1#f'')))
     (get_release_file_candidate_urls (''http://x/a.min.js'' @ ''?v=1#f''))"
  by (rule stem_found_in_candidates) code_simp+

lemma trim_all_id: "list_all (\<lambda>p. \<not> ends_with s p) ps \<Longrightarrow> trim_all_end_matches ps s = s"
proof -
  assume none: "list_all (\<lambda>p. \<not> ends_with s p) ps"
  then have "trim_once ps s = s"
    unfolding trim_once_def by (induction ps) (simp_all add: trim_end_matches.simps)
  then show ?thesis by (subst trim_all_end_matches.simps) simp
qed

text \<open>
  With a slash in the query the stem keeps the query and the suffix, and is not part of the
  candidate without the query.
\<close>

theorem stem_keeps_query_with_slash:
  "extract_file_stem ''http://x/a.js?p=/b'' = ''/a.js?p=/b''
   \<and> \<not> list_all (\<lambda>u. contains_str u ''/a.js?p=/b'') (get_release_file_candidate_urls ''http://x/a.js?p=/b'')"
proof
  have "rsplit_once (CHR ''/'') (strip_hostname ''http://x/a.js?p=/b'') = Some (''/a.js?p='', ''b'')" by code_simp
  moreover have "trim_all_end_matches FILE_SUFFIX_PATTERNS ''b'' = ''b''" by (rule trim_all_id) code_simp
  moreover have "before_first P [c] = (if P c then [] else [c])" for P and c :: char by (simp add: before_first_def)
  ultimately show "extract_file_stem ''http://x/a.js?p=/b'' = ''/a.js?p=/b''" by (simp add: extract_file_stem_def)
  show "\<not> list_all (\<lambda>u. contains_str u ''/a.js?p=/b'') (get_release_file_candidate_urls ''http://x/a.js?p=/b'')" by code_simp
qed

text \<open>Any segment of 32 bytes counts as a hash, hexadecimal or not.\<close>

theorem long_segment_taken_for_hash:
  "generate_module clean ''/directory_name_of_32_characters_/app/x.js'' = ''app/x''"
  unfolding generate_module_def by code_simp

text \<open>
  Joining a relative path to a URL never leaves the scheme and host of the URL: only a path that
  is a URL of its own or starts with two slashes names another host.
\<close>

theorem join_paths_keeps_host:
  assumes "CHR '':'' \<notin> set scheme" "scheme \<noteq> ''file''"
    and "CHR ''/'' \<notin> set host" "path = [] \<or> hd path = CHR ''/''"
    and "keeps_host right"
  shows "\<exists>t. join_paths (scheme @ ''://'' @ host @ path) right = scheme @ ''://'' @ host @ t \<and> (t = [] \<or> hd t = CHR ''/'')"
  by (rule join_paths_host_spec[OF assms])

theorem join_paths_keeps_host_witness:
  "\<exists>t. join_paths (''https'' @ ''://'' @ ''x.io'' @ ''/a/b.js'') ''../../../etc/c.map'' = ''https'' @ ''://'' @ ''x.io'' @ t \<and> (t = [] \<or> hd t = CHR ''/'')"
  by (rule join_paths_keeps_host) code_simp+

section \<open>Refresh windows\<close>

definition url_offset :: "(string \<Rightarrow> 8 word list) \<Rightarrow> string \<Rightarrow> 64 word \<Rightarrow> 64 word" where
  "url_offset sha url refresh_every = from_le_bytes (take 8 (sha url)) mod refresh_every"

lemma busting_value:
  assumes "e \<noteq> 0" and o: "url_offset sha url e \<le> ts"
  shows "\<exists>k. cache_busting_key sha url ts e = Ret k
     \<and> unat k = (unat ts - unat (url_offset sha url e)) div unat e * unat e + unat (url_offset sha url e)"
proof -
  let ?o = "url_offset sha url e"
  let ?q = "(unat ts - unat ?o) div unat e"
  have ot: "unat ?o \<le> unat ts" using o by (simp add: word_le_nat_alt)
  have d: "unat (ts - ?o) = unat ts - unat ?o" by (rule unat_minus_le[OF o])
  have le: "?q * unat e \<le> unat ts - unat ?o" by (rule div_times_less_eq_dividend)
  have lt: "unat ts < 2 ^ 64" using unsigned_less[of ts, where 'a = nat] by simp
  have div: "unat ((ts - ?o) div e) = ?q" by (simp add: unat_div_distrib d)
  have mult: "unat ((ts - ?o) div e * e) = ?q * unat e"
    using unat_mult_lem[of "(ts - ?o) div e" e] order_le_less_trans[OF le] lt div by simp
  have "?q * unat e + unat ?o < 2 ^ 64" using le ot lt by linarith
  then have "unat ((ts - ?o) div e * e + ?o) = ?q * unat e + unat ?o"
    using unat_add_lem[of "(ts - ?o) div e * e" ?o] mult by simp
  moreover have "cache_busting_key sha url ts e = Ret ((ts - ?o) div e * e + ?o)"
    using assms(1) by (simp add: cache_busting_key_def url_offset_def Let_def)
  ultimately show ?thesis by blast
qed

lemma busting_window:
  assumes e: "e \<noteq> 0" and o: "url_offset sha url e \<le> ts"
  shows "\<exists>k. cache_busting_key sha url ts e = Ret k \<and> unat k \<le> unat ts \<and> unat ts < unat k + unat e
    \<and> list_all (\<lambda>ts'. unat k \<le> unat ts' \<and> unat ts' < unat k + unat e \<longrightarrow> cache_busting_key sha url ts' e = Ret k) others"
proof -
  let ?O = "unat (url_offset sha url e)"
  have E: "0 < unat e" using e by (simp add: word_neq_0_conv word_less_nat_alt)
  have ot: "?O \<le> unat ts" using o by (simp add: word_le_nat_alt)
  obtain k where k: "cache_busting_key sha url ts e = Ret k" "unat k = (unat ts - ?O) div unat e * unat e + ?O"
    using busting_value[OF e o] by blast
  have dm: "(unat ts - ?O) div unat e * unat e + (unat ts - ?O) mod unat e = unat ts - ?O" by (rule div_mult_mod_eq)
  have ml: "(unat ts - ?O) mod unat e < unat e" using E by simp
  have b: "unat k \<le> unat ts" "unat ts < unat k + unat e" using k(2) dm ml ot by linarith+
  have "cache_busting_key sha url ts' e = Ret k" if w: "unat k \<le> unat ts'" "unat ts' < unat k + unat e" for ts'
  proof -
    have o': "url_offset sha url e \<le> ts'" using w(1) k(2) by (simp add: word_le_nat_alt)
    obtain k' where k': "cache_busting_key sha url ts' e = Ret k'" "unat k' = (unat ts' - ?O) div unat e * unat e + ?O"
      using busting_value[OF e o'] by blast
    define r where "r = unat ts' - unat k"
    have r: "unat ts' - ?O = r + (unat ts - ?O) div unat e * unat e" "r < unat e"
      using w k(2) unfolding r_def by linarith+
    have "(unat ts' - ?O) div unat e = (unat ts - ?O) div unat e" unfolding r(1) using r(2) E by simp
    then have "unat k' = unat k" using k(2) k'(2) by simp
    then show ?thesis using k'(1) by (simp add: word_unat_eq_iff)
  qed
  then show ?thesis using k(1) b by (auto simp: list_all_iff)
qed

text \<open>
  The key that is put into the URL of a scraped file lies less than one interval before the time,
  and is the same at every other time of its interval: the cache of a scraped file is refreshed
  exactly once per interval.
\<close>

theorem scraped_files_refreshed_per_interval:
  assumes "e \<noteq> 0" and "url_offset sha url e \<le> ts"
  shows "\<exists>k. cache_busting_key sha url ts e = Ret k \<and> unat k \<le> unat ts \<and> unat ts < unat k + unat e
    \<and> list_all (\<lambda>ts'. unat k \<le> unat ts' \<and> unat ts' < unat k + unat e \<longrightarrow> cache_busting_key sha url ts' e = Ret k) others"
  by (rule busting_window[OF assms])

theorem scraped_files_refreshed_per_interval_witness:
  "\<exists>k. cache_busting_key (\<lambda>_. [139, 0, 0, 0, 0, 0, 0, 0]) ''https://example.com/foo.js'' 1000 100 = Ret k \<and> unat k \<le> unat (1000 :: 64 word)
    \<and> unat (1000 :: 64 word) < unat k + unat (100 :: 64 word)
    \<and> list_all (\<lambda>ts'. unat k \<le> unat ts' \<and> unat ts' < unat k + unat (100 :: 64 word)
         \<longrightarrow> cache_busting_key (\<lambda>_. [139, 0, 0, 0, 0, 0, 0, 0]) ''https://example.com/foo.js'' ts' 100 = Ret k) [1038, 1039]"
  by (rule scraped_files_refreshed_per_interval) (simp_all add: url_offset_def from_le_bytes_def lessThan_Suc)

end
