(* ===== verification/Origin.thy ===== *)
theory Origin
  imports JsUtils
begin

text \<open>
  \<open>utils/http.rs\<close>: which hosts may be scraped and which addresses a connection may use. The parsed
  form of a URL and the IDNA conversion of a domain come from their crates and are parameters.
\<close>

unbundle bit_operations_syntax

section \<open>Reserved addresses\<close>

datatype ip_addr = V4 "32 word" | V6 "128 word"

definition ipv4 :: "nat \<Rightarrow> nat \<Rightarrow> nat \<Rightarrow> nat \<Rightarrow> 32 word" where
  "ipv4 a b c d = word_of_nat (a * 2 ^ 24 + b * 2 ^ 16 + c * 2 ^ 8 + d)"

definition RESERVED_IP_BLOCKS :: "(32 word \<times> nat) list" where
  "RESERVED_IP_BLOCKS =
     [(ipv4 0 0 0 0, 8), (ipv4 10 0 0 0, 8), (ipv4 100 64 0 0, 10), (ipv4 127 0 0 0, 8), (ipv4 169 254 0 0, 16),
      (ipv4 172 16 0 0, 12), (ipv4 192 0 0 0, 29), (ipv4 192 0 2 0, 24), (ipv4 192 88 99 0, 24), (ipv4 192 168 0 0, 16),
      (ipv4 198 18 0 0, 15), (ipv4 198 51 100 0, 24), (ipv4 224 0 0 0, 4), (ipv4 240 0 0 0, 4), (ipv4 255 255 255 255, 32)]"

text \<open>Membership in a network: the leading bits agree.\<close>

definition network_contains :: "32 word \<times> nat \<Rightarrow> 32 word \<Rightarrow> bool" where
  "network_contains n addr \<longleftrightarrow> drop_bit (32 - snd n) addr = drop_bit (32 - snd n) (fst n)"

definition is_external_ip :: "ip_addr \<Rightarrow> bool" where
  "is_external_ip ip =
     (case ip of
        V6 _ \<Rightarrow> False
      | V4 addr \<Rightarrow> list_all (\<lambda>n. \<not> network_contains n addr) RESERVED_IP_BLOCKS)"

section \<open>Allowed origins\<close>

record parsed_url =
  pu_str :: string
  pu_scheme :: string
  pu_host :: "string option"
  pu_port :: "nat option"                     \<comment> \<open>\<open>port_or_known_default\<close>\<close>
  pu_path :: string

record allowed_origin_pattern =
  ap_scheme :: string
  ap_domain :: string
  ap_path :: string

definition allowed_origin_parse :: "(string \<Rightarrow> string option) \<Rightarrow> string \<Rightarrow> allowed_origin_pattern option" where
  "allowed_origin_parse idna value =
     (let (scheme, rest) = (case split_once_str ''://'' value of Some p \<Rightarrow> p | None \<Rightarrow> (''*'', value));
          (domain, path) = (case split_once (CHR ''/'') rest of Some p \<Rightarrow> p | None \<Rightarrow> (rest, ''*''));
          (domain, port) = (case split_once (CHR '':'') rest of Some (d, p) \<Rightarrow> (d, Some p) | None \<Rightarrow> (domain, None))
      in map_option (\<lambda>d. \<lparr>ap_scheme = scheme,
                         ap_domain = (case port of Some p \<Rightarrow> d @ '':'' @ p | None \<Rightarrow> d),
                         ap_path = path\<rparr>) (idna domain))"

definition origin_hostname :: "(string \<Rightarrow> string option) \<Rightarrow> parsed_url \<Rightarrow> string" where
  "origin_hostname idna origin =
     (case pu_host origin of None \<Rightarrow> [] | Some h \<Rightarrow> (case idna h of Some d \<Rightarrow> d | None \<Rightarrow> h))"

definition domain_matches :: "(string \<Rightarrow> string option) \<Rightarrow> parsed_url \<Rightarrow> string list" where
  "domain_matches idna origin =
     (let hostname = origin_hostname idna origin in
      [''*'', hostname]
      @ (case pu_port origin of None \<Rightarrow> [] | Some p \<Rightarrow> [''*:'' @ dec_nat p, hostname @ '':'' @ dec_nat p]))"

definition pattern_allows :: "(string \<Rightarrow> string option) \<Rightarrow> parsed_url \<Rightarrow> allowed_origin_pattern \<Rightarrow> bool" where
  "pattern_allows idna origin p =
     (if ap_scheme p \<noteq> ''*'' \<and> ap_scheme p \<noteq> pu_scheme origin then False
      else case strip_prefix (ap_domain p) ''*.'' of
        Some rest \<Rightarrow> ends_with (origin_hostname idna origin) (tl (ap_domain p)) \<or> origin_hostname idna origin = rest
      | None \<Rightarrow>
          (if ap_domain p \<notin> set (domain_matches idna origin) then False
           else if ap_path p = ''*'' then True
           else starts_with (pu_path origin) (case strip_suffix (ap_path p) ''*'' of Some q \<Rightarrow> q | None \<Rightarrow> ap_path p)))"

definition is_valid_origin :: "(string \<Rightarrow> string option) \<Rightarrow> parsed_url \<Rightarrow> string list \<Rightarrow> bool" where
  "is_valid_origin idna origin allowed =
     (if allowed = [] then False
      else if ''*'' \<in> set allowed then True
      else if pu_str origin \<in> set allowed then True
      else list_ex (\<lambda>v. case allowed_origin_parse idna v of None \<Rightarrow> False | Some p \<Rightarrow> pattern_allows idna origin p) allowed)"

section \<open>The documented forms\<close>

text \<open>
  A documented pattern: an optional scheme, any host or a domain with or without its subdomains,
  and a port, which is not combined with subdomains.
\<close>

datatype host_pattern = AnyHost | Subdomains string | ExactHost string

record origin_pattern =
  op_scheme :: "string option"
  op_host :: host_pattern
  op_port :: "nat option"

definition host_text :: "host_pattern \<Rightarrow> string" where
  "host_text h = (case h of AnyHost \<Rightarrow> ''*'' | Subdomains d \<Rightarrow> ''*.'' @ d | ExactHost d \<Rightarrow> d)"

definition port_text :: "nat option \<Rightarrow> string" where
  "port_text p = (case p of None \<Rightarrow> [] | Some n \<Rightarrow> '':'' @ dec_nat n)"

definition pattern_text :: "origin_pattern \<Rightarrow> string" where
  "pattern_text p = (case op_scheme p of None \<Rightarrow> [] | Some s \<Rightarrow> s @ ''://'') @ host_text (op_host p) @ port_text (op_port p)"

text \<open>The ASCII form of a domain, and of the domain of a pattern.\<close>

definition ascii_domain :: "(string \<Rightarrow> string option) \<Rightarrow> string \<Rightarrow> string" where
  "ascii_domain idna d = (case idna d of Some a \<Rightarrow> a | None \<Rightarrow> d)"

definition ascii_host :: "(string \<Rightarrow> string option) \<Rightarrow> host_pattern \<Rightarrow> host_pattern" where
  "ascii_host idna h = (case h of AnyHost \<Rightarrow> AnyHost | Subdomains d \<Rightarrow> Subdomains (ascii_domain idna d)
     | ExactHost d \<Rightarrow> ExactHost (ascii_domain idna d))"

text \<open>
  A pattern that can be written down, with a domain that has an ASCII form. The conversion works label by
  label: it keeps the wildcards, and the ASCII form is a domain again, without a port.
\<close>

definition pattern_ok :: "(string \<Rightarrow> string option) \<Rightarrow> origin_pattern \<Rightarrow> bool" where
  "pattern_ok idna p \<longleftrightarrow>
     CHR ''/'' \<notin> set (host_text (op_host p)) \<and> CHR '':'' \<notin> set (host_text (op_host p))
     \<and> idna (host_text (op_host p)) = Some (host_text (ascii_host idna (op_host p)))
     \<and> CHR '':'' \<notin> set (host_text (ascii_host idna (op_host p)))
     \<and> (case op_scheme p of None \<Rightarrow> True | Some s \<Rightarrow> CHR '':'' \<notin> set s \<and> s \<noteq> ''*'')
     \<and> (case op_host p of AnyHost \<Rightarrow> True | Subdomains _ \<Rightarrow> op_port p = None
          | ExactHost d \<Rightarrow> d \<noteq> ''*'' \<and> ascii_domain idna d \<noteq> ''*'' \<and> \<not> starts_with (ascii_domain idna d) ''*.'')"

definition host_matches :: "host_pattern \<Rightarrow> string \<Rightarrow> bool" where
  "host_matches p h = (case p of AnyHost \<Rightarrow> True | Subdomains d \<Rightarrow> h = d \<or> ends_with h (CHR ''.'' # d) | ExactHost d \<Rightarrow> h = d)"

text \<open>What the code accepts: without a port in the pattern, any port.\<close>

definition origin_matches :: "(string \<Rightarrow> string option) \<Rightarrow> parsed_url \<Rightarrow> origin_pattern \<Rightarrow> bool" where
  "origin_matches idna u p \<longleftrightarrow> (op_scheme p = None \<or> op_scheme p = Some (pu_scheme u))
     \<and> host_matches (ascii_host idna (op_host p)) (origin_hostname idna u) \<and> (op_port p = None \<or> op_port p = pu_port u)"

text \<open>
  What is documented: a port is matched exactly; without one, a domain is matched on any port, but a base
  URI, a scheme with a domain, is matched exactly, so it stands for the default port of its scheme.
\<close>

definition known_default_port :: "string \<Rightarrow> nat option" where
  "known_default_port scheme = map_of [(''http'', 80), (''ws'', 80), (''https'', 443), (''wss'', 443), (''ftp'', 21)] scheme"

definition documented_port :: "origin_pattern \<Rightarrow> nat option" where
  "documented_port p =
     (case op_port p of
        Some n \<Rightarrow> Some n
      | None \<Rightarrow> (case (op_scheme p, op_host p) of (Some s, ExactHost _) \<Rightarrow> known_default_port s | _ \<Rightarrow> None))"

definition documented_match :: "(string \<Rightarrow> string option) \<Rightarrow> parsed_url \<Rightarrow> origin_pattern \<Rightarrow> bool" where
  "documented_match idna u p \<longleftrightarrow>
     (op_scheme p = None \<or> op_scheme p = Some (pu_scheme u))
     \<and> (case op_host p of
          AnyHost \<Rightarrow> True
        | Subdomains d \<Rightarrow> origin_hostname idna u = ascii_domain idna d \<or> ends_with (origin_hostname idna u) (CHR ''.'' # ascii_domain idna d)
        | ExactHost d \<Rightarrow> origin_hostname idna u = ascii_domain idna d)
     \<and> (documented_port p = None \<or> documented_port p = pu_port u)"

text \<open>A base URI without a port that has the scheme and the host of the URL, whatever the port of the URL.\<close>

definition portless_base :: "(string \<Rightarrow> string option) \<Rightarrow> parsed_url \<Rightarrow> origin_pattern \<Rightarrow> bool" where
  "portless_base idna u p \<longleftrightarrow> op_scheme p = Some (pu_scheme u) \<and> op_port p = None
     \<and> (case op_host p of ExactHost d \<Rightarrow> origin_hostname idna u = ascii_domain idna d | _ \<Rightarrow> False)"

lemma matches_documented: "origin_matches idna u p \<longleftrightarrow> documented_match idna u p \<or> portless_base idna u p"
  unfolding origin_matches_def documented_match_def portless_base_def documented_port_def ascii_host_def host_matches_def
  by (cases "op_port p"; cases "op_scheme p"; cases "op_host p") auto

lemma port_no_scheme: "CHR ''/'' \<notin> set d \<Longrightarrow> split_once_str ''://'' d = None"
  using contains_str_iff[of d "''://''"] unfolding contains_str_def by auto

lemma dec_nat_no_colon: "CHR '':'' \<notin> set (dec_nat n)"
  using dec_nat_digits[of "CHR '':''" n] by (auto simp: byte_of_def)

lemma port_text_no_slash [simp]: "CHR ''/'' \<notin> set (port_text p)"
  by (cases p) (auto simp: port_text_def dec_nat_no_sep)

lemma parse_documented:
  assumes "pattern_ok idna p"
  shows "allowed_origin_parse idna (pattern_text p) =
    Some \<lparr>ap_scheme = (case op_scheme p of None \<Rightarrow> ''*'' | Some s \<Rightarrow> s),
      ap_domain = host_text (ascii_host idna (op_host p)) @ port_text (op_port p), ap_path = ''*''\<rparr>"
proof -
  let ?d = "host_text (op_host p)" and ?t = "host_text (op_host p) @ port_text (op_port p)"
  from assms have d: "CHR ''/'' \<notin> set ?d" "CHR '':'' \<notin> set ?d" "idna ?d = Some (host_text (ascii_host idna (op_host p)))"
    by (simp_all add: pattern_ok_def)
  have "split_once_str ''://'' (pattern_text p) = (case op_scheme p of None \<Rightarrow> None | Some s \<Rightarrow> Some (s, ?t))"
    using assms d(1) port_no_scheme[of ?t] split_scheme[of _ ?t]
    by (cases "op_scheme p") (auto simp: pattern_text_def pattern_ok_def)
  moreover have "pattern_text p = ?t" if "op_scheme p = None" using that by (simp add: pattern_text_def)
  moreover have "split_once (CHR ''/'') ?t = None" using d(1) by (simp add: split_once_None)
  moreover have "split_once (CHR '':'') ?t = (case op_port p of None \<Rightarrow> None | Some n \<Rightarrow> Some (?d, dec_nat n))"
    using d(2) by (cases "op_port p") (simp_all add: port_text_def split_once_None)
  ultimately show ?thesis using d(3)
    by (cases "op_scheme p"; cases "op_port p") (simp_all add: allowed_origin_parse_def port_text_def)
qed

lemma domain_in_matches:
  assumes ok: "pattern_ok idna p" and h: "CHR '':'' \<notin> set (origin_hostname idna u)"
    and sub: "\<forall>d. op_host p \<noteq> Subdomains d"
  shows "host_text (ascii_host idna (op_host p)) @ port_text (op_port p) \<in> set (domain_matches idna u) \<longleftrightarrow>
    host_matches (ascii_host idna (op_host p)) (origin_hostname idna u) \<and> (op_port p = None \<or> op_port p = pu_port u)"
proof -
  let ?h = "origin_hostname idna u" and ?d = "host_text (ascii_host idna (op_host p))"
  have d: "CHR '':'' \<notin> set ?d" using ok by (simp add: pattern_ok_def)
  have host: "host_matches (ascii_host idna (op_host p)) ?h \<longleftrightarrow> ?d = ''*'' \<or> ?d = ?h"
    using ok sub by (cases "op_host p") (auto simp: host_matches_def host_text_def ascii_host_def pattern_ok_def)
  have star: "CHR '':'' \<notin> set ''*''" by simp
  have app: "a @ '':'' @ x = b @ '':'' @ y \<longleftrightarrow> a = b \<and> x = y"
    if "CHR '':'' \<notin> set a" "CHR '':'' \<notin> set b" for a b x y :: string
    using that split_once_append[of "CHR '':''" a x] split_once_append[of "CHR '':''" b y]
    by (metis append_Cons append_Nil option.inject prod.inject)
  show ?thesis
  proof (cases "op_port p")
    case None
    have "?d \<noteq> a @ '':'' @ x" for a x using d by auto
    then show ?thesis using None host d
      by (cases "pu_port u") (auto simp: domain_matches_def port_text_def Let_def)
  next
    case (Some n)
    have "CHR '':'' \<in> set (?d @ '':'' @ dec_nat n)" by simp
    then have "?d @ '':'' @ dec_nat n \<noteq> ''*''" "?d @ '':'' @ dec_nat n \<noteq> ?h" using h star by metis+
    then show ?thesis
      using Some host app[OF d star] app[OF d h] dec_nat_inj
      by (cases "pu_port u") (auto simp: domain_matches_def port_text_def Let_def)
  qed
qed

lemma pattern_allows_documented:
  assumes ok: "pattern_ok idna p" and h: "CHR '':'' \<notin> set (origin_hostname idna u)"
  shows "(case allowed_origin_parse idna (pattern_text p) of None \<Rightarrow> False | Some a \<Rightarrow> pattern_allows idna u a) \<longleftrightarrow> origin_matches idna u p"
proof -
  let ?a = "\<lparr>ap_scheme = (case op_scheme p of None \<Rightarrow> ''*'' | Some s \<Rightarrow> s),
      ap_domain = host_text (ascii_host idna (op_host p)) @ port_text (op_port p), ap_path = ''*''\<rparr>"
  have scheme: "\<not> (ap_scheme ?a \<noteq> ''*'' \<and> ap_scheme ?a \<noteq> pu_scheme u) \<longleftrightarrow> op_scheme p = None \<or> op_scheme p = Some (pu_scheme u)"
    using ok by (cases "op_scheme p") (auto simp: pattern_ok_def)
  have "pattern_allows idna u ?a \<longleftrightarrow> origin_matches idna u p"
  proof (cases "\<exists>d. op_host p = Subdomains d")
    case True
    then obtain d where d: "op_host p = Subdomains d" by blast
    with ok have "op_port p = None" by (simp add: pattern_ok_def)
    then have "ap_domain ?a = ''*.'' @ ascii_domain idna d" using d by (simp add: host_text_def port_text_def ascii_host_def)
    then show ?thesis using scheme d \<open>op_port p = None\<close> strip_prefix_append[of "''*.''" "ascii_domain idna d"]
      by (auto simp: pattern_allows_def origin_matches_def host_matches_def ascii_host_def)
  next
    case False
    have "strip_prefix (ap_domain ?a) ''*.'' = None"
    proof (cases "op_host p")
      case (ExactHost d)
      let ?x = "ascii_domain idna d"
      from ExactHost ok have "\<not> starts_with ?x ''*.''" "?x \<noteq> ''*''" by (simp_all add: pattern_ok_def)
      then have "\<not> starts_with (?x @ port_text (op_port p)) ''*.''"
        by (cases ?x; cases "tl ?x"; cases "op_port p") (auto simp: starts_with_def port_text_def)
      then show ?thesis using ExactHost by (simp add: strip_prefix_def host_text_def ascii_host_def)
    qed (use False in \<open>cases "op_port p", auto simp: strip_prefix_def starts_with_def host_text_def port_text_def ascii_host_def\<close>)
    then show ?thesis using scheme domain_in_matches[OF ok h] False
      by (auto simp: pattern_allows_def origin_matches_def)
  qed
  then show ?thesis unfolding parse_documented[OF ok] by simp
qed

lemma valid_origin_spec:
  assumes "list_all (pattern_ok idna) ps" and h: "CHR '':'' \<notin> set (origin_hostname idna u)"
  shows "is_valid_origin idna u (map pattern_text ps) \<longleftrightarrow>
    pu_str u \<in> set (map pattern_text ps) \<or> list_ex (origin_matches idna u) ps"
proof -
  have each: "(case allowed_origin_parse idna (pattern_text p) of None \<Rightarrow> False | Some a \<Rightarrow> pattern_allows idna u a)
      \<longleftrightarrow> origin_matches idna u p" if "p \<in> set ps" for p
    using pattern_allows_documented[OF _ h] assms(1) that by (simp add: list_all_iff)
  have any: "origin_matches idna u p" if "p \<in> set ps" "pattern_text p = ''*''" for p
  proof -
    have ok: "pattern_ok idna p" using assms(1) that(1) by (simp add: list_all_iff)
    have "op_scheme p = None"
    proof (rule ccontr)
      assume "op_scheme p \<noteq> None"
      then obtain s where "op_scheme p = Some s" by blast
      then have "length (pattern_text p) \<ge> 3" by (simp add: pattern_text_def)
      then show False using that(2) by simp
    qed
    then have t: "host_text (op_host p) @ port_text (op_port p) = ''*''" using that(2) by (simp add: pattern_text_def)
    then have "op_port p = None" by (cases "op_port p") (auto simp: port_text_def append_eq_Cons_conv)
    with t have "host_text (op_host p) = ''*''" by (simp add: port_text_def)
    then have "op_host p = AnyHost" using ok by (cases "op_host p") (auto simp: host_text_def pattern_ok_def)
    then show ?thesis using \<open>op_scheme p = None\<close> \<open>op_port p = None\<close> by (simp add: origin_matches_def host_matches_def ascii_host_def)
  qed
  have ex: "list_ex (\<lambda>v. case allowed_origin_parse idna v of None \<Rightarrow> False | Some a \<Rightarrow> pattern_allows idna u a) (map pattern_text ps)
      \<longleftrightarrow> list_ex (origin_matches idna u) ps"
    using each by (auto simp: list_ex_iff)
  show ?thesis
  proof (cases "''*'' \<in> set (map pattern_text ps)")
    case True
    then obtain p where "p \<in> set ps" "pattern_text p = ''*''" by auto
    then have "list_ex (origin_matches idna u) ps" using any by (auto simp: list_ex_iff)
    moreover have "map pattern_text ps \<noteq> []" using \<open>p \<in> set ps\<close> by auto
    ultimately show ?thesis using True by (simp add: is_valid_origin_def)
  next
    case False
    then show ?thesis unfolding is_valid_origin_def ex by (cases "ps = []") simp_all
  qed
qed

text \<open>
  C38. Scraping is limited to the allowed origins: a URL is accepted exactly when it is listed itself, or its
  scheme, host and port match one of the patterns the way the documentation says, or a pattern is a base URI
  without a port that has its scheme and host. The documentation wants an exact match with the port in the
  last case; the code takes any port. A pattern for subdomains accepts the domain and the names that end in
  a dot and the domain, and nothing else; domains are compared in their ASCII form.
\<close>

theorem allowed_origins_exact:
  assumes "list_all (pattern_ok idna) ps" and "CHR '':'' \<notin> set (origin_hostname idna u)"
  shows "is_valid_origin idna u (map pattern_text ps) \<longleftrightarrow>
    pu_str u \<in> set (map pattern_text ps) \<or> list_ex (documented_match idna u) ps \<or> list_ex (portless_base idna u) ps"
  using valid_origin_spec[OF assms] matches_documented by (auto simp: list_ex_iff)

definition demo_url :: parsed_url where
  "demo_url = \<lparr>pu_str = ''http://www.x.io/a/b.js'', pu_scheme = ''http'', pu_host = Some ''www.x.io'', pu_port = Some 80,
     pu_path = ''/a/b.js''\<rparr>"

text \<open>A pattern in Unicode, with the conversion of its domain.\<close>

definition unicode_domain :: string where
  "unicode_domain = ''m'' @ [CHR 0xC3, CHR 0xBC] @ ''nchen.de''"

definition demo_idna :: "string \<Rightarrow> string option" where
  "demo_idna d = Some (if d = unicode_domain then ''xn--mnchen-3ya.de''
     else if d = ''*.'' @ unicode_domain then ''*.xn--mnchen-3ya.de'' else d)"

definition demo_patterns :: "origin_pattern list" where
  "demo_patterns = [\<lparr>op_scheme = None, op_host = ExactHost ''x.io'', op_port = Some 8\<rparr>,
     \<lparr>op_scheme = None, op_host = Subdomains unicode_domain, op_port = None\<rparr>,
     \<lparr>op_scheme = None, op_host = AnyHost, op_port = Some 9\<rparr>,
     \<lparr>op_scheme = Some ''https'', op_host = ExactHost ''x.io'', op_port = None\<rparr>]"

definition demo_unicode_url :: parsed_url where
  "demo_unicode_url = \<lparr>pu_str = ''http://a.xn--mnchen-3ya.de/'', pu_scheme = ''http'',
     pu_host = Some ''a.xn--mnchen-3ya.de'', pu_port = Some 80, pu_path = ''/''\<rparr>"

theorem allowed_origins_exact_witness:
  "is_valid_origin demo_idna demo_unicode_url (map pattern_text demo_patterns)
    \<and> \<not> is_valid_origin demo_idna demo_url (map pattern_text demo_patterns)"
proof -
  have ok: "list_all (pattern_ok demo_idna) demo_patterns" by code_simp
  have m: "list_ex (documented_match demo_idna demo_unicode_url) demo_patterns"
      "\<not> list_ex (documented_match demo_idna demo_url) demo_patterns" "\<not> list_ex (portless_base demo_idna demo_url) demo_patterns"
    by code_simp+
  have "hd (pattern_text p) \<noteq> CHR ''h'' \<or> pattern_text p = ''https://x.io''" if "p \<in> set demo_patterns" for p
    using that unfolding demo_patterns_def by (auto simp: pattern_text_def host_text_def port_text_def simp del: dec_nat.simps)
  moreover have "hd (pu_str demo_url) = CHR ''h'' \<and> pu_str demo_url \<noteq> ''https://x.io''" by (simp add: demo_url_def)
  ultimately have "pu_str demo_url \<noteq> pattern_text p" if "p \<in> set demo_patterns" for p using that by force
  then have t: "pu_str demo_url \<notin> set (map pattern_text demo_patterns)" unfolding set_map image_iff by blast
  have h: "CHR '':'' \<notin> set (origin_hostname demo_idna demo_unicode_url)" "CHR '':'' \<notin> set (origin_hostname demo_idna demo_url)"
    by code_simp+
  show ?thesis
    unfolding allowed_origins_exact[OF ok h(1)] allowed_origins_exact[OF ok h(2)] using m t by blast
qed

text \<open>A base URI that does not name a port accepts every port, against its documentation.\<close>

definition other_port_url :: parsed_url where
  "other_port_url = \<lparr>pu_str = ''http://www.x.io:81/'', pu_scheme = ''http'', pu_host = Some ''www.x.io'', pu_port = Some 81,
     pu_path = ''/''\<rparr>"

theorem base_uri_accepts_any_port:
  "\<not> documented_match Some other_port_url \<lparr>op_scheme = Some ''http'', op_host = ExactHost ''www.x.io'', op_port = None\<rparr>
   \<and> is_valid_origin Some other_port_url [''http://www.x.io'']"
proof
  let ?p = "\<lparr>op_scheme = Some ''http'', op_host = ExactHost ''www.x.io'', op_port = None\<rparr>"
  show "\<not> documented_match Some other_port_url ?p" by code_simp
  have "list_all (pattern_ok Some) [?p]" "CHR '':'' \<notin> set (origin_hostname Some other_port_url)"
      "portless_base Some other_port_url ?p" "pattern_text ?p = ''http://www.x.io''" by code_simp+
  then show "is_valid_origin Some other_port_url [''http://www.x.io'']"
    using valid_origin_spec[of Some "[?p]" other_port_url] matches_documented by simp
qed

section \<open>Patterns with a path\<close>

lemma demo_domains: "domain_matches Some demo_url = [''*'', ''www.x.io'', ''*:80'', ''www.x.io:80'']"
proof -
  have "char_of (56 :: nat) = CHR ''8''" "char_of (48 :: nat) = CHR ''0''" by code_simp+
  then have "dec_nat 80 = ''80''" by (simp add: dec_nat.simps[of 80] dec_nat.simps[of 8])
  then show ?thesis by (simp add: domain_matches_def origin_hostname_def demo_url_def)
qed

lemma single_origin:
  "v \<noteq> ''*'' \<Longrightarrow> v \<noteq> pu_str u \<Longrightarrow> allowed_origin_parse idna v = Some p \<Longrightarrow> is_valid_origin idna u [v] = pattern_allows idna u p"
  by (simp add: is_valid_origin_def)

lemma demo_allows:
  assumes "strip_prefix d ''*.'' = None"
  shows "pattern_allows Some demo_url \<lparr>ap_scheme = ''http'', ap_domain = d, ap_path = path\<rparr> \<longleftrightarrow>
    d \<in> set [''*'', ''www.x.io'', ''*:80'', ''www.x.io:80'']
    \<and> (path = ''*'' \<or> starts_with ''/a/b.js'' (case strip_suffix path ''*'' of Some q \<Rightarrow> q | None \<Rightarrow> path))"
  using assms unfolding pattern_allows_def demo_domains by (cases "strip_suffix path ''*''") (simp_all add: demo_url_def)

text \<open>A pattern with a path never matches: the path is compared without its leading slash.\<close>

theorem path_pattern_never_matches:
  "\<not> is_valid_origin Some demo_url [''http://www.x.io/a/*''] \<and> is_valid_origin Some demo_url [''http://www.x.io'']"
proof
  have s: "pu_str demo_url = ''http://www.x.io/a/b.js''" "strip_prefix ''www.x.io'' ''*.'' = None" by code_simp+
  have p: "allowed_origin_parse Some ''http://www.x.io/a/*'' = Some \<lparr>ap_scheme = ''http'', ap_domain = ''www.x.io'', ap_path = ''a/*''\<rparr>"
    by code_simp
  have "is_valid_origin Some demo_url [''http://www.x.io/a/*''] =
      pattern_allows Some demo_url \<lparr>ap_scheme = ''http'', ap_domain = ''www.x.io'', ap_path = ''a/*''\<rparr>"
    by (rule single_origin[OF _ _ p]) (simp_all add: s)
  moreover have "strip_suffix ''a/*'' ''*'' = Some ''a/''" "\<not> starts_with ''/a/b.js'' ''a/''" by code_simp+
  ultimately show "\<not> is_valid_origin Some demo_url [''http://www.x.io/a/*'']"
    unfolding demo_allows[OF s(2)] by simp
  have p: "allowed_origin_parse Some ''http://www.x.io'' = Some \<lparr>ap_scheme = ''http'', ap_domain = ''www.x.io'', ap_path = ''*''\<rparr>"
    by code_simp
  have "is_valid_origin Some demo_url [''http://www.x.io''] =
      pattern_allows Some demo_url \<lparr>ap_scheme = ''http'', ap_domain = ''www.x.io'', ap_path = ''*''\<rparr>"
    by (rule single_origin[OF _ _ p]) (simp_all add: s)
  then show "is_valid_origin Some demo_url [''http://www.x.io'']" unfolding demo_allows[OF s(2)] by simp
qed

text \<open>With a port and a path the domain of the pattern swallows the path.\<close>

theorem port_pattern_swallows_path:
  "allowed_origin_parse Some ''http://www.x.io:80/*'' =
     Some \<lparr>ap_scheme = ''http'', ap_domain = ''www.x.io:80/*'', ap_path = ''*''\<rparr>
   \<and> \<not> is_valid_origin Some demo_url [''http://www.x.io:80/*'']"
proof
  have s: "pu_str demo_url = ''http://www.x.io/a/b.js''" "strip_prefix ''www.x.io:80/*'' ''*.'' = None" by code_simp+
  show p: "allowed_origin_parse Some ''http://www.x.io:80/*'' =
     Some \<lparr>ap_scheme = ''http'', ap_domain = ''www.x.io:80/*'', ap_path = ''*''\<rparr>" by code_simp
  have "is_valid_origin Some demo_url [''http://www.x.io:80/*''] =
      pattern_allows Some demo_url \<lparr>ap_scheme = ''http'', ap_domain = ''www.x.io:80/*'', ap_path = ''*''\<rparr>"
    by (rule single_origin[OF _ _ p]) (simp_all add: s)
  then show "\<not> is_valid_origin Some demo_url [''http://www.x.io:80/*'']" unfolding demo_allows[OF s(2)] by simp
qed

text \<open>The loopback addresses and all of IPv6 are refused.\<close>

theorem loopback_refused: "\<not> is_external_ip (V4 (ipv4 127 0 0 1)) \<and> \<not> is_external_ip (V6 a)
    \<and> is_external_ip (V4 (ipv4 8 8 8 8))"
  by (simp add: is_external_ip_def RESERVED_IP_BLOCKS_def network_contains_def ipv4_def)

end
