(* ===== verification/JsMetrics.thy ===== *)
theory JsMetrics
  imports Origin
begin

text \<open>
  The types of \<open>symbolicator-js/interface.rs\<close> that the lookup of files uses, and the counters of
  \<open>metrics.rs\<close>: one counter per field of \<open>JsMetrics\<close>.
\<close>

section \<open>How a file was resolved\<close>

datatype resolved_with = RwDebugId | RwUrl | RwIndex | RwRelease | RwReleaseOld | RwScraping | RwUnknown

text \<open>The file types of the \<open>symbolic\<close> crate that are looked up.\<close>

datatype source_file_type = FtSource | FtMinifiedSource | FtSourceMap

section \<open>Counters\<close>

datatype js_counter =
    NeededFiles | ApiRequests | QueriedArtifacts | FetchedArtifacts | QueriedBundles | ScrapedFiles | FetchedBundles
  | FoundSourceViaDebugid | FoundSourceViaReleaseWithDebugid | FoundSourceViaReleaseOldWithDebugid
  | FoundSourceViaScrapingWithDebugid | SourceNotFoundWithDebugid
  | FoundSourceViaReleaseWithoutDebugid | FoundSourceViaReleaseOldWithoutDebugid
  | FoundSourceViaScrapingWithoutDebugid | SourceNotFoundWithoutDebugid
  | FoundSourcemapViaDebugid | FoundSourcemapViaReleaseWithDebugid | FoundSourcemapViaReleaseOldWithDebugid
  | FoundSourcemapViaScrapingWithDebugid | SourcemapNotFoundWithDebugid
  | FoundSourcemapViaReleaseWithoutDebugid | FoundSourcemapViaReleaseOldWithoutDebugid
  | FoundSourcemapViaScrapingWithoutDebugid | SourcemapNotFoundWithoutDebugid
  | SourcemapNotNeeded
  | FoundBundleViaDebugid | FoundBundleViaIndex | FoundBundleViaRelease | FoundBundleViaReleaseOld

type_synonym js_metrics = "js_counter \<Rightarrow> nat"

definition incr :: "js_counter \<Rightarrow> js_metrics \<Rightarrow> js_metrics" where
  "incr c m = m(c := Suc (m c))"

definition record_bundle_fetched :: "js_metrics \<Rightarrow> js_metrics" where
  "record_bundle_fetched m = incr FetchedBundles m"

definition record_file_scraped :: "source_file_type \<Rightarrow> bool \<Rightarrow> js_metrics \<Rightarrow> js_metrics" where
  "record_file_scraped ft had_debug_id m =
     (case (ft, had_debug_id) of
        (FtSourceMap, True) \<Rightarrow> incr FoundSourcemapViaScrapingWithDebugid m
      | (FtSourceMap, False) \<Rightarrow> incr FoundSourcemapViaScrapingWithoutDebugid m
      | (_, True) \<Rightarrow> incr FoundSourceViaScrapingWithDebugid m
      | (_, False) \<Rightarrow> incr FoundSourceViaScrapingWithoutDebugid m)"

definition record_not_found :: "source_file_type \<Rightarrow> bool \<Rightarrow> js_metrics \<Rightarrow> js_metrics" where
  "record_not_found ft had_debug_id m =
     (case (ft, had_debug_id) of
        (FtSourceMap, True) \<Rightarrow> incr SourcemapNotFoundWithDebugid m
      | (FtSourceMap, False) \<Rightarrow> incr SourcemapNotFoundWithoutDebugid m
      | (_, True) \<Rightarrow> incr SourceNotFoundWithDebugid m
      | (_, False) \<Rightarrow> incr SourceNotFoundWithoutDebugid m)"

definition record_sourcemap_not_needed :: "js_metrics \<Rightarrow> js_metrics" where
  "record_sourcemap_not_needed m = incr SourcemapNotNeeded m"

definition found_counter :: "source_file_type \<Rightarrow> resolved_with \<Rightarrow> resolved_with \<Rightarrow> bool \<Rightarrow> js_counter" where
  "found_counter ft file_by bundle_by had_debug_id =
     (case (ft, file_by, bundle_by) of
        (FtSourceMap, RwDebugId, _) \<Rightarrow> FoundSourcemapViaDebugid
      | (FtSourceMap, RwUrl, RwReleaseOld) \<Rightarrow>
          if had_debug_id then FoundSourcemapViaReleaseOldWithDebugid else FoundSourcemapViaReleaseOldWithoutDebugid
      | (FtSourceMap, _, _) \<Rightarrow>
          if had_debug_id then FoundSourcemapViaReleaseWithDebugid else FoundSourcemapViaReleaseWithoutDebugid
      | (_, RwDebugId, _) \<Rightarrow> FoundSourceViaDebugid
      | (_, RwUrl, RwReleaseOld) \<Rightarrow>
          if had_debug_id then FoundSourceViaReleaseOldWithDebugid else FoundSourceViaReleaseOldWithoutDebugid
      | (_, _, _) \<Rightarrow>
          if had_debug_id then FoundSourceViaReleaseWithDebugid else FoundSourceViaReleaseWithoutDebugid)"

definition bundle_counter :: "resolved_with \<Rightarrow> js_counter" where
  "bundle_counter bundle_by =
     (case bundle_by of
        RwDebugId \<Rightarrow> FoundBundleViaDebugid
      | RwIndex \<Rightarrow> FoundBundleViaIndex
      | RwRelease \<Rightarrow> FoundBundleViaRelease
      | _ \<Rightarrow> FoundBundleViaReleaseOld)"

definition record_file_found_in_bundle ::
    "source_file_type \<Rightarrow> resolved_with \<Rightarrow> resolved_with \<Rightarrow> bool \<Rightarrow> js_metrics \<Rightarrow> js_metrics" where
  "record_file_found_in_bundle ft file_by bundle_by had_debug_id m =
     incr (bundle_counter bundle_by) (incr (found_counter ft file_by bundle_by had_debug_id) m)"

section \<open>What is submitted\<close>

text \<open>A metric with its tags and value.\<close>

type_synonym submitted = "string \<times> (string \<times> string) list \<times> nat"

definition via_bundle_url :: "string \<Rightarrow> string \<Rightarrow> string \<Rightarrow> nat \<Rightarrow> submitted" where
  "via_bundle_url ft lookup had n =
     (''js.found_via_bundle_url'', [(''type'', ft), (''lookup'', lookup), (''had_debugid'', had)], n)"

definition typed_metric :: "string \<Rightarrow> string \<Rightarrow> string \<Rightarrow> nat \<Rightarrow> submitted" where
  "typed_metric metric_name ft had n = (metric_name, [(''type'', ft), (''had_debugid'', had)], n)"

definition submit :: "js_metrics \<Rightarrow> submitted list" where
  "submit m =
     [(''js.needed_files'', [], m NeededFiles), (''js.api_requests'', [], m ApiRequests),
      (''js.queried_bundles'', [], m QueriedBundles), (''js.fetched_bundles'', [], m FetchedBundles),
      (''js.queried_artifacts'', [], m QueriedArtifacts), (''js.fetched_artifacts'', [], m FetchedArtifacts),
      (''js.scraped_files'', [], m ScrapedFiles),
      typed_metric ''js.found_via_bundle_debugid'' ''source'' ''true'' (m FoundSourceViaDebugid),
      via_bundle_url ''source'' ''release'' ''true'' (m FoundSourceViaReleaseWithDebugid),
      via_bundle_url ''source'' ''release'' ''false'' (m FoundSourceViaReleaseWithoutDebugid),
      via_bundle_url ''source'' ''release-old'' ''true'' (m FoundSourceViaReleaseOldWithDebugid),
      via_bundle_url ''source'' ''release-old'' ''false'' (m FoundSourceViaReleaseOldWithoutDebugid),
      typed_metric ''js.found_via_scraping'' ''source'' ''true'' (m FoundSourceViaScrapingWithDebugid),
      typed_metric ''js.found_via_scraping'' ''source'' ''false'' (m FoundSourceViaScrapingWithoutDebugid),
      typed_metric ''js.file_not_found'' ''source'' ''true'' (m SourceNotFoundWithDebugid),
      typed_metric ''js.file_not_found'' ''source'' ''false'' (m SourceNotFoundWithoutDebugid),
      typed_metric ''js.found_via_bundle_debugid'' ''sourcemap'' ''true'' (m FoundSourcemapViaDebugid),
      via_bundle_url ''sourcemap'' ''release'' ''true'' (m FoundSourcemapViaReleaseWithDebugid),
      via_bundle_url ''sourcemap'' ''release'' ''false'' (m FoundSourcemapViaReleaseWithoutDebugid),
      via_bundle_url ''sourcemap'' ''release-old'' ''true'' (m FoundSourcemapViaReleaseOldWithDebugid),
      via_bundle_url ''sourcemap'' ''release-old'' ''false'' (m FoundSourcemapViaReleaseOldWithoutDebugid),
      typed_metric ''js.found_via_scraping'' ''sourcemap'' ''true'' (m FoundSourcemapViaScrapingWithDebugid),
      typed_metric ''js.found_via_scraping'' ''sourcemap'' ''false'' (m FoundSourcemapViaScrapingWithoutDebugid),
      typed_metric ''js.file_not_found'' ''sourcemap'' ''true'' (m SourcemapNotFoundWithDebugid),
      typed_metric ''js.file_not_found'' ''sourcemap'' ''false'' (m SourcemapNotFoundWithoutDebugid),
      (''js.sourcemap_not_needed'', [], m SourcemapNotNeeded),
      (''js.bundle_lookup'', [(''method'', ''debugid'')], m FoundBundleViaDebugid),
      (''js.bundle_lookup'', [(''method'', ''index'')], m FoundBundleViaIndex),
      (''js.bundle_lookup'', [(''method'', ''release'')], m FoundBundleViaRelease),
      (''js.bundle_lookup'', [(''method'', ''release-old'')], m FoundBundleViaReleaseOld)]"

section \<open>Totals\<close>

definition via_bundle :: "js_counter list" where
  "via_bundle =
     [FoundSourceViaDebugid, FoundSourceViaReleaseWithDebugid, FoundSourceViaReleaseOldWithDebugid,
      FoundSourceViaReleaseWithoutDebugid, FoundSourceViaReleaseOldWithoutDebugid,
      FoundSourcemapViaDebugid, FoundSourcemapViaReleaseWithDebugid, FoundSourcemapViaReleaseOldWithDebugid,
      FoundSourcemapViaReleaseWithoutDebugid, FoundSourcemapViaReleaseOldWithoutDebugid]"

definition bundles_by_method :: "js_counter list" where
  "bundles_by_method = [FoundBundleViaDebugid, FoundBundleViaIndex, FoundBundleViaRelease, FoundBundleViaReleaseOld]"

definition via_scraping :: "js_counter list" where
  "via_scraping = [FoundSourceViaScrapingWithDebugid, FoundSourceViaScrapingWithoutDebugid,
     FoundSourcemapViaScrapingWithDebugid, FoundSourcemapViaScrapingWithoutDebugid]"

definition total :: "js_counter list \<Rightarrow> js_metrics \<Rightarrow> nat" where
  "total cs m = sum_list (map m cs)"

lemma incr_apply [simp]: "incr c m d = (if d = c then Suc (m c) else m d)"
  by (simp add: incr_def)

lemma total_Cons [simp]: "total (c # cs) m = m c + total cs m" and total_Nil [simp]: "total [] m = 0"
  by (simp_all add: total_def)

lemma found_counter_cases: "found_counter ft f b h \<in> set via_bundle" and bundle_counter_cases: "bundle_counter b \<in> set bundles_by_method"
  by (auto simp: found_counter_def bundle_counter_def via_bundle_def bundles_by_method_def
      split: source_file_type.splits resolved_with.splits)

lemma total_incr: "distinct cs \<Longrightarrow> total cs (incr c m) = total cs m + (if c \<in> set cs then 1 else 0)"
  by (induction cs) auto

lemma distinct_totals: "distinct via_bundle" "distinct bundles_by_method" "distinct via_scraping"
    "set via_bundle \<inter> set bundles_by_method = {}" "set via_bundle \<inter> set via_scraping = {}" "set via_scraping \<inter> set bundles_by_method = {}"
  by (auto simp: via_bundle_def bundles_by_method_def via_scraping_def)

lemma total_found:
  "total via_bundle (record_file_found_in_bundle ft f b h m) = Suc (total via_bundle m)"
  "total bundles_by_method (record_file_found_in_bundle ft f b h m) = Suc (total bundles_by_method m)"
  "total via_scraping (record_file_found_in_bundle ft f b h m) = total via_scraping m"
  using found_counter_cases[of ft f b h] bundle_counter_cases[of b] distinct_totals
  by (auto simp: record_file_found_in_bundle_def total_incr)

lemma total_scraped:
  "total via_scraping (record_file_scraped ft h m) = Suc (total via_scraping m)"
  "total via_bundle (record_file_scraped ft h m) = total via_bundle m"
  "total bundles_by_method (record_file_scraped ft h m) = total bundles_by_method m"
  by (auto simp: record_file_scraped_def via_scraping_def via_bundle_def bundles_by_method_def split: source_file_type.splits bool.splits)

lemma total_not_found:
  "total via_scraping (record_not_found ft h m) = total via_scraping m"
  "total via_bundle (record_not_found ft h m) = total via_bundle m"
  "total bundles_by_method (record_not_found ft h m) = total bundles_by_method m"
  by (auto simp: record_not_found_def via_scraping_def via_bundle_def bundles_by_method_def split: source_file_type.splits bool.splits)

lemma counter_unchanged:
  "record_file_found_in_bundle ft f b h m NeededFiles = m NeededFiles"
  "record_file_found_in_bundle ft f b h m FetchedBundles = m FetchedBundles"
  "record_file_found_in_bundle ft f b h m ScrapedFiles = m ScrapedFiles"
  "record_file_found_in_bundle ft f b h m FetchedArtifacts = m FetchedArtifacts"
  using found_counter_cases[of ft f b h] bundle_counter_cases[of b]
  by (auto simp: record_file_found_in_bundle_def via_bundle_def bundles_by_method_def)

end
