(* ===== verification/JsLookup.thy ===== *)
theory JsLookup
  imports JsMetrics
begin

text \<open>
  \<open>symbolicator-js/lookup.rs\<close>, \<open>bundle_lookup.rs\<close>, \<open>api_lookup.rs\<close> and \<open>sourcemap_cache.rs\<close>: finding the
  minified file, source map and sources of a JavaScript module in artifact bundles, individual
  artifacts or on the web. The caches that answer a download, the parsing of bundles, URLs and
  source maps and the answers of the Sentry API are parameters. Counters are natural numbers.
\<close>

section \<open>Files\<close>

datatype file_key =
    MinifiedSource string "debug_id_t option"
  | SourceMap "string option" "debug_id_t option"
  | Source string

definition key_debug_id :: "file_key \<Rightarrow> debug_id_t option" where
  "key_debug_id k = (case k of MinifiedSource _ d \<Rightarrow> d | SourceMap _ d \<Rightarrow> d | Source _ \<Rightarrow> None)"

definition key_abs_path :: "file_key \<Rightarrow> string option" where
  "key_abs_path k = (case k of MinifiedSource p _ \<Rightarrow> Some p | SourceMap p _ \<Rightarrow> p | Source p \<Rightarrow> Some p)"

definition as_type :: "file_key \<Rightarrow> source_file_type" where
  "as_type k = (case k of MinifiedSource _ _ \<Rightarrow> FtMinifiedSource | SourceMap _ _ \<Rightarrow> FtSourceMap | Source _ \<Rightarrow> FtSource)"

datatype cached_file_uri =
    IndividualFile string
  | ScrapedFile string
  | Bundled string file_key
  | Embedded

definition type_debug :: "source_file_type \<Rightarrow> string" where
  "type_debug ft = (case ft of FtSource \<Rightarrow> ''Source'' | FtMinifiedSource \<Rightarrow> ''MinifiedSource'' | FtSourceMap \<Rightarrow> ''SourceMap'')"

definition file_uri_display :: "(debug_id_t \<Rightarrow> string) \<Rightarrow> cached_file_uri \<Rightarrow> string" where
  "file_uri_display id_text u =
     (case u of
        IndividualFile uri \<Rightarrow> uri
      | ScrapedFile uri \<Rightarrow> uri
      | Bundled uri key \<Rightarrow>
          uri @ '' / '' @ type_debug (as_type key) @ '':''
          @ (case key_abs_path key of Some p \<Rightarrow> p | None \<Rightarrow> ''-'')
          @ '' / ''
          @ (case key_debug_id key of Some d \<Rightarrow> id_text d | None \<Rightarrow> ''-'')
      | Embedded \<Rightarrow> ''<embedded>'')"

record cached_file =
  cf_contents :: "string option"
  cf_sourcemap_url :: "source_map_url option"
  cf_debug_id :: "debug_id_t option"

record 'a cached_file_entry =
  ce_uri :: cached_file_uri
  ce_entry :: "'a cache_contents"
  ce_resolved_with :: resolved_with

definition empty_entry :: "'a cached_file_entry" where
  "empty_entry = \<lparr>ce_uri = IndividualFile ''<invalid>'', ce_entry = Inl NotFound, ce_resolved_with = RwUnknown\<rparr>"

text \<open>A file in a bundle, as the \<open>symbolic\<close> crate describes it.\<close>

record descriptor =
  ds_mapping_url :: "string option"
  ds_contents :: "string option"

definition from_descriptor :: "(string \<Rightarrow> string option) \<Rightarrow> string option \<Rightarrow> descriptor \<Rightarrow> cached_file cache_contents" where
  "from_descriptor decode abs_path d =
     (case (case ds_mapping_url d of
              None \<Rightarrow> Inr None
            | Some url \<Rightarrow>
                (case abs_path of
                   None \<Rightarrow> Inl (Malformed ''using a descriptor without an `abs_path`'')
                 | Some p \<Rightarrow> (case parse_with_prefix decode p url of Inl e \<Rightarrow> Inl e | Inr u \<Rightarrow> Inr (Some u)))) of
        Inl e \<Rightarrow> Inl e
      | Inr url \<Rightarrow>
          (case ds_contents d of
             None \<Rightarrow> Inl (Malformed ''descriptor should have `contents`'')
           | Some c \<Rightarrow> Inr \<lparr>cf_contents = Some c, cf_sourcemap_url = url, cf_debug_id = None\<rparr>))"

definition file_contents :: "cached_file \<Rightarrow> string" where
  "file_contents f = (case cf_contents f of Some c \<Rightarrow> c | None \<Rightarrow> [])"

definition remote_sourcemap_url :: "cached_file \<Rightarrow> string option" where
  "remote_sourcemap_url f = (case cf_sourcemap_url f of Some (Remote url) \<Rightarrow> Some url | _ \<Rightarrow> None)"

section \<open>Remote files\<close>

record sentry_source_config =
  se_id :: string
  se_url :: string
  se_credentials :: string

datatype js_remote_file =
    JsSentry sentry_source_config bool string string  \<comment> \<open>source, use of its credentials, file id, URL\<close>
  | JsHttp string bool "(string \<times> string) list"     \<comment> \<open>URL, certificates are verified, headers\<close>

definition js_remote_uri :: "js_remote_file \<Rightarrow> string" where
  "js_remote_uri f = (case f of JsSentry _ _ fid _ \<Rightarrow> ''sentry://project_debug_file/'' @ fid | JsHttp url _ _ \<Rightarrow> url)"

definition make_remote_file :: "sentry_source_config \<Rightarrow> string \<Rightarrow> string \<Rightarrow> js_remote_file" where
  "make_remote_file source file_id url = JsSentry source (starts_with url (se_url source)) file_id url"

section \<open>Scraping attempts\<close>

datatype scraping_failure_reason =
    ReasonNotFound | ReasonDisabled | ReasonInvalidHost | ReasonPermissionDenied | ReasonTimeout
  | ReasonDownloadError | ReasonOther

datatype scraping_result = NotAttempted | ScrapeSuccess | ScrapeFailure scraping_failure_reason string

record scraping_attempt =
  sa_url :: string
  sa_result :: scraping_result

definition scraping_result_from :: "duration_text \<Rightarrow> cache_error \<Rightarrow> scraping_result" where
  "scraping_result_from D e =
     (case e of
        NotFound \<Rightarrow> ScrapeFailure ReasonNotFound []
      | PermissionDenied details \<Rightarrow> ScrapeFailure ReasonPermissionDenied details
      | Timeout d \<Rightarrow> ScrapeFailure ReasonTimeout (''Timeout after '' @ format_duration D d)
      | DownloadError details \<Rightarrow> ScrapeFailure ReasonDownloadError details
      | Malformed details \<Rightarrow> ScrapeFailure ReasonOther details
      | Unsupported details \<Rightarrow> ScrapeFailure ReasonOther details
      | InternalError \<Rightarrow> ScrapeFailure ReasonOther [])"

record scraping_config =
  sc_enabled :: bool
  sc_verify_ssl :: bool
  sc_allowed_origins :: "string list"
  sc_headers :: "(string \<times> string) list"

section \<open>The Sentry API\<close>

datatype raw_js_lookup =
    RawBundle string string resolved_with
  | RawFile string string string "(string \<times> string) list" resolved_with

datatype js_lookup_result =
    ArtifactBundle js_remote_file resolved_with
  | IndividualArtifact js_remote_file string "(string \<times> string) list" resolved_with

record search_query =
  sq_index_url :: string
  sq_credentials :: string

text \<open>The spawned download: out of time, cancelled, or finished.\<close>

datatype api_outcome = TimedOut | Cancelled | Finished "raw_js_lookup list cache_contents"

section \<open>What the libraries and caches answer\<close>

datatype 'b opened_object = SourceBundle "'b option" | OtherObject

text \<open>A request for a source map cache: the minified source and the source map.\<close>

datatype 'h source_map_contents = FromBundle 'h file_key | Resolved string

record 'h sm_request =
  sm_source :: string
  sm_map :: "'h source_map_contents"

record ('h, 'b, 'm) js_services =
  js_decode :: "string \<Rightarrow> string option"                \<comment> \<open>a \<open>data:\<close> URL\<close>
  js_discover_map :: "string \<Rightarrow> string option"          \<comment> \<open>\<open>discover_sourcemaps_location\<close>\<close>
  js_discover_id :: "string \<Rightarrow> debug_id_t option"       \<comment> \<open>\<open>discover_debug_id\<close>\<close>
  js_id_text :: "debug_id_t \<Rightarrow> string"
  js_parse_id :: "string \<Rightarrow> debug_id_t option"
  js_lower :: "string \<Rightarrow> string"                        \<comment> \<open>\<open>to_lowercase\<close>\<close>
  js_durations :: duration_text
  js_parse_url :: "string \<Rightarrow> string + parsed_url"
  js_set_fragment :: "parsed_url \<Rightarrow> string \<Rightarrow> string"
  js_query_url :: "string \<Rightarrow> (string \<times> string) list \<Rightarrow> string"
  js_idna :: "string \<Rightarrow> string option"
  js_sha :: "string \<Rightarrow> 8 word list"
  js_now :: "64 word"
  js_reserved_ips :: bool                             \<comment> \<open>\<open>can_connect_to_reserved_ips\<close>\<close>
  js_fetch_file :: "scope \<Rightarrow> js_remote_file \<Rightarrow> bool \<Rightarrow> string cache_contents"
  js_fetch_object :: "scope \<Rightarrow> js_remote_file \<Rightarrow> 'h cache_contents"
  js_open :: "'h \<Rightarrow> 'b opened_object"
  js_by_debug_id :: "'b \<Rightarrow> debug_id_t \<Rightarrow> source_file_type \<Rightarrow> descriptor option"
  js_by_url :: "'b \<Rightarrow> string \<Rightarrow> descriptor option"
  js_api :: "search_query \<Rightarrow> api_outcome"
  js_smcache :: "'h sm_request \<Rightarrow> cache_key \<Rightarrow> 'm cache_contents"

definition js_result :: "sentry_source_config \<Rightarrow> raw_js_lookup \<Rightarrow> js_lookup_result" where
  "js_result source raw =
     (case raw of
        RawBundle fid url rw \<Rightarrow> ArtifactBundle (make_remote_file source fid url) rw
      | RawFile fid url path hs rw \<Rightarrow> IndividualArtifact (make_remote_file source fid url) path hs rw)"

definition api_contents :: "api_outcome \<Rightarrow> raw_js_lookup list cache_contents" where
  "api_contents r = (case r of TimedOut \<Rightarrow> Inl (Timeout (30 * 10 ^ 9)) | Cancelled \<Rightarrow> Inl InternalError | Finished c \<Rightarrow> c)"

type_synonym api_cache = "search_query \<rightharpoonup> raw_js_lookup list cache_contents"

definition lookup_js_artifacts :: "('h, 'b, 'm) js_services \<Rightarrow> sentry_source_config \<Rightarrow> debug_id_t list \<Rightarrow> string list
    \<Rightarrow> string option \<Rightarrow> string option \<Rightarrow> api_cache \<Rightarrow> js_lookup_result list cache_contents \<times> api_cache" where
  "lookup_js_artifacts sv source debug_ids file_stems release dist cache =
     (let url = js_query_url sv (se_url source)
            ((case release of Some r \<Rightarrow> (''release'', r) # map (Pair ''url'') file_stems | None \<Rightarrow> [])
             @ (case dist of Some d \<Rightarrow> [(''dist'', d)] | None \<Rightarrow> [])
             @ map (\<lambda>d. (''debug_id'', js_id_text sv d)) debug_ids)
      in if length url > 65534 then (Inl (DownloadError ''uri too long''), cache)
         else
           (let query = \<lparr>sq_index_url = url, sq_credentials = se_credentials source\<rparr>;
                entry = (case cache query of Some (Inr raws) \<Rightarrow> Inr raws | _ \<Rightarrow> api_contents (js_api sv query))
            in (case entry of Inl e \<Rightarrow> Inl e | Inr raws \<Rightarrow> Inr (map (js_result source) raws), cache(query \<mapsto> entry))))"

section \<open>The state of a request\<close>

record individual_artifact =
  ia_remote_file :: js_remote_file
  ia_headers :: "(string \<times> string) list"
  ia_resolved_with :: resolved_with

text \<open>An opened bundle: the object and the session of its files.\<close>

type_synonym ('h, 'b) artifact_bundle = "'h \<times> 'b"
type_synonym bundle_file_cache = "string \<times> file_key \<rightharpoonup> cached_file cached_file_entry \<times> resolved_with"

record ('h, 'b) artifact_fetcher =
  af_metrics :: js_metrics
  af_files_in_bundles :: bundle_file_cache
  af_api_cache :: api_cache
  af_scope :: scope
  af_source :: sentry_source_config
  af_release :: "string option"
  af_dist :: "string option"
  af_scraping :: scraping_config
  af_bundles :: "(string \<times> (('h, 'b) artifact_bundle \<times> resolved_with) cache_contents) list"   \<comment> \<open>by URI, ascending\<close>
  af_artifacts :: "string \<rightharpoonup> individual_artifact"
  af_attempts :: "scraping_attempt list"
  af_budget :: nat

definition count :: "js_counter \<Rightarrow> ('h, 'b) artifact_fetcher \<Rightarrow> ('h, 'b) artifact_fetcher" where
  "count c s = s\<lparr>af_metrics := incr c (af_metrics s)\<rparr>"

definition push_attempt :: "string \<Rightarrow> scraping_result \<Rightarrow> ('h, 'b) artifact_fetcher \<Rightarrow> ('h, 'b) artifact_fetcher" where
  "push_attempt url r s = s\<lparr>af_attempts := af_attempts s @ [\<lparr>sa_url = url, sa_result = r\<rparr>]\<rparr>"

section \<open>Files in bundles\<close>

text \<open>\<open>FileInBundleCache\<close>, shared by all requests.\<close>

fun try_get :: "bundle_file_cache \<Rightarrow> string list \<Rightarrow> file_key \<Rightarrow> (string \<times> cached_file cached_file_entry \<times> resolved_with) option" where
  "try_get cache [] key = None"
| "try_get cache (uri # uris) key =
     (case cache (uri, key) of
        Some (file_entry, resolved_with) \<Rightarrow> Some (uri, file_entry, resolved_with)
      | None \<Rightarrow> try_get cache uris key)"

definition is_source_map_key :: "file_key \<Rightarrow> bool" where
  "is_source_map_key k = (case k of SourceMap _ _ \<Rightarrow> True | _ \<Rightarrow> False)"

definition drop_contents :: "cached_file cached_file_entry \<Rightarrow> cached_file cached_file_entry" where
  "drop_contents e = e\<lparr>ce_entry := (case ce_entry e of Inl x \<Rightarrow> Inl x | Inr f \<Rightarrow> Inr (f\<lparr>cf_contents := None\<rparr>))\<rparr>"

definition cache_insert :: "string \<Rightarrow> file_key \<Rightarrow> resolved_with \<Rightarrow> cached_file cached_file_entry
    \<Rightarrow> bundle_file_cache \<Rightarrow> bundle_file_cache" where
  "cache_insert uri key rw e cache = cache((uri, key) \<mapsto> (if is_source_map_key key then drop_contents e else e, rw))"

definition try_get_file_from_bundles_cached ::
    "file_key \<Rightarrow> ('h, 'b) artifact_fetcher \<Rightarrow> cached_file cached_file_entry option \<times> ('h, 'b) artifact_fetcher" where
  "try_get_file_from_bundles_cached key s =
     (if af_bundles s = [] then (None, s)
      else case try_get (af_files_in_bundles s) (map fst (rev (af_bundles s))) key of
        None \<Rightarrow> (None, s)
      | Some (uri, file_entry, rw) \<Rightarrow>
          (Some file_entry,
           case map_of (af_bundles s) uri of
             Some (Inr (_, bundle_rw)) \<Rightarrow>
               s\<lparr>af_metrics := record_file_found_in_bundle (as_type key) rw bundle_rw (key_debug_id key \<noteq> None) (af_metrics s)\<rparr>
           | _ \<Rightarrow> s))"

text \<open>The first bundle, by descending URI, that has a file.\<close>

fun find_in_bundles :: "('b \<Rightarrow> descriptor option)
    \<Rightarrow> (string \<times> (('h, 'b) artifact_bundle \<times> resolved_with) cache_contents) list
    \<Rightarrow> (string \<times> resolved_with \<times> descriptor) option" where
  "find_in_bundles look [] = None"
| "find_in_bundles look ((uri, Inl _) # bs) = find_in_bundles look bs"
| "find_in_bundles look ((uri, Inr ((_, b), rw)) # bs) =
     (case look b of Some d \<Rightarrow> Some (uri, rw, d) | None \<Rightarrow> find_in_bundles look bs)"

definition try_get_file_from_bundles_by_debug_id ::
    "('h, 'b, 'm) js_services \<Rightarrow> file_key \<Rightarrow> ('h, 'b) artifact_fetcher \<Rightarrow> cached_file cached_file_entry option \<times> ('h, 'b) artifact_fetcher" where
  "try_get_file_from_bundles_by_debug_id sv key s =
     (case key_debug_id key of
        None \<Rightarrow> (None, s)
      | Some d \<Rightarrow>
          (case find_in_bundles (\<lambda>b. js_by_debug_id sv b d (as_type key)) (rev (af_bundles s)) of
             None \<Rightarrow> (None, s)
           | Some (uri, bundle_rw, desc) \<Rightarrow>
               (let e = \<lparr>ce_uri = Bundled uri key,
                         ce_entry = from_descriptor (js_decode sv) (key_abs_path key) desc,
                         ce_resolved_with = RwDebugId\<rparr>
                in (Some e,
                    s\<lparr>af_metrics := record_file_found_in_bundle (as_type key) RwDebugId bundle_rw True (af_metrics s),
                      af_files_in_bundles := cache_insert uri key RwDebugId e (af_files_in_bundles s)\<rparr>))))"

fun find_by_urls :: "('b \<Rightarrow> string \<Rightarrow> descriptor option) \<Rightarrow> string list
    \<Rightarrow> (string \<times> (('h, 'b) artifact_bundle \<times> resolved_with) cache_contents) list
    \<Rightarrow> (string \<times> resolved_with \<times> descriptor) option" where
  "find_by_urls by_url [] bs = None"
| "find_by_urls by_url (u # us) bs =
     (case find_in_bundles (\<lambda>b. by_url b u) bs of Some r \<Rightarrow> Some r | None \<Rightarrow> find_by_urls by_url us bs)"

definition try_get_file_from_bundles_by_path ::
    "('h, 'b, 'm) js_services \<Rightarrow> file_key \<Rightarrow> ('h, 'b) artifact_fetcher \<Rightarrow> cached_file cached_file_entry option \<times> ('h, 'b) artifact_fetcher" where
  "try_get_file_from_bundles_by_path sv key s =
     (case key_abs_path key of
        None \<Rightarrow> (None, s)
      | Some p \<Rightarrow>
          (case find_by_urls (js_by_url sv) (get_release_file_candidate_urls p) (rev (af_bundles s)) of
             None \<Rightarrow> (None, s)
           | Some (uri, bundle_rw, desc) \<Rightarrow>
               (let e = \<lparr>ce_uri = Bundled uri key,
                         ce_entry = from_descriptor (js_decode sv) (Some p) desc,
                         ce_resolved_with = bundle_rw\<rparr>
                in (Some e,
                    s\<lparr>af_metrics := record_file_found_in_bundle (as_type key) RwUrl bundle_rw (key_debug_id key \<noteq> None) (af_metrics s),
                      af_files_in_bundles := cache_insert uri key RwUrl e (af_files_in_bundles s)\<rparr>))))"

section \<open>Individual artifacts\<close>

definition ia_header :: "individual_artifact \<Rightarrow> string \<rightharpoonup> string" where
  "ia_header a = map_of (rev (ia_headers a))"

fun find_artifact :: "(string \<rightharpoonup> individual_artifact) \<Rightarrow> string list \<Rightarrow> individual_artifact option" where
  "find_artifact m [] = None"
| "find_artifact m (u # us) = (case m u of Some a \<Rightarrow> Some a | None \<Rightarrow> find_artifact m us)"

definition try_fetch_file_from_artifacts ::
    "('h, 'b, 'm) js_services \<Rightarrow> file_key \<Rightarrow> ('h, 'b) artifact_fetcher \<Rightarrow> cached_file cached_file_entry option \<times> ('h, 'b) artifact_fetcher" where
  "try_fetch_file_from_artifacts sv key s =
     (case key_abs_path key of
        None \<Rightarrow> (None, s)
      | Some abs_path \<Rightarrow>
          (case find_artifact (af_artifacts s) (get_release_file_candidate_urls abs_path) of
             None \<Rightarrow> (None, s)
           | Some artifact \<Rightarrow>
               (let fetched = js_fetch_file sv (af_scope s) (ia_remote_file artifact) True;
                    fetched = (if fetched = Inl NotFound \<and> ia_headers artifact \<noteq> [] then Inr [] else fetched)
                in (Some \<lparr>ce_uri = IndividualFile (js_remote_uri (ia_remote_file artifact)),
                          ce_entry = (case fetched of
                             Inl e \<Rightarrow> Inl e
                           | Inr c \<Rightarrow> Inr \<lparr>cf_contents = Some c,
                               cf_sourcemap_url = resolve_sourcemap_url (js_decode sv) (js_discover_map sv) abs_path (ia_header artifact) c,
                               cf_debug_id = js_discover_id sv c\<rparr>),
                          ce_resolved_with = ia_resolved_with artifact\<rparr>,
                    count FetchedArtifacts s))))"

section \<open>Asking Sentry\<close>

text \<open>\<open>open_bundle\<close>: only source bundles are expected.\<close>

definition open_artifact_bundle :: "('h, 'b, 'm) js_services \<Rightarrow> 'h \<Rightarrow> ('h, 'b) artifact_bundle cache_contents" where
  "open_artifact_bundle sv h =
     (case js_open sv h of
        SourceBundle (Some b) \<Rightarrow> Inr (h, b)
      | SourceBundle None \<Rightarrow> Inl InternalError
      | OtherObject \<Rightarrow> Inl InternalError)"

definition fetch_artifact_bundle :: "('h, 'b, 'm) js_services \<Rightarrow> js_remote_file \<Rightarrow> ('h, 'b) artifact_fetcher \<Rightarrow> ('h, 'b) artifact_bundle cache_contents" where
  "fetch_artifact_bundle sv f s = (case js_fetch_object sv (af_scope s) f of Inl e \<Rightarrow> Inl e | Inr h \<Rightarrow> open_artifact_bundle sv h)"

definition ensure_artifact_bundle :: "('h, 'b, 'm) js_services \<Rightarrow> js_remote_file \<Rightarrow> resolved_with \<Rightarrow> ('h, 'b) artifact_fetcher \<Rightarrow> bool \<times> ('h, 'b) artifact_fetcher" where
  "ensure_artifact_bundle sv f rw s =
     (let uri = js_remote_uri f in
      if map_of (af_bundles s) uri \<noteq> None then (False, s)
      else let bundle = (case fetch_artifact_bundle sv f s of Inl e \<Rightarrow> Inl e | Inr b \<Rightarrow> Inr (b, rw))
           in (True, s\<lparr>af_bundles := insort_key fst (uri, bundle) (af_bundles s),
                       af_metrics := record_bundle_fetched (af_metrics s)\<rparr>))"

definition add_artifact :: "('h, 'b, 'm) js_services \<Rightarrow> js_remote_file \<Rightarrow> string \<Rightarrow> (string \<times> string) list \<Rightarrow> resolved_with
    \<Rightarrow> ('h, 'b) artifact_fetcher \<Rightarrow> bool \<times> ('h, 'b) artifact_fetcher" where
  "add_artifact sv f abs_path hs rw s =
     (if af_artifacts s abs_path \<noteq> None then (False, s)
      else (True, s\<lparr>af_artifacts := (af_artifacts s)(abs_path \<mapsto>
              \<lparr>ia_remote_file = f, ia_headers = map (\<lambda>(k, v). (js_lower sv k, v)) hs, ia_resolved_with = rw\<rparr>)\<rparr>))"

fun apply_results :: "('h, 'b, 'm) js_services \<Rightarrow> js_lookup_result list \<Rightarrow> ('h, 'b) artifact_fetcher \<Rightarrow> bool \<times> ('h, 'b) artifact_fetcher" where
  "apply_results sv [] s = (False, s)"
| "apply_results sv (r # rs) s =
     (let (is_new, s) = (case r of
             IndividualArtifact f abs_path hs rw \<Rightarrow> add_artifact sv f abs_path hs rw (count QueriedArtifacts s)
           | ArtifactBundle f rw \<Rightarrow> ensure_artifact_bundle sv f rw (count QueriedBundles s));
          (more, s) = apply_results sv rs s
      in (is_new \<or> more, s))"

definition query_sentry_for_files :: "('h, 'b, 'm) js_services \<Rightarrow> debug_id_t list \<Rightarrow> string list \<Rightarrow> ('h, 'b) artifact_fetcher \<Rightarrow> bool \<times> ('h, 'b) artifact_fetcher" where
  "query_sentry_for_files sv debug_ids file_stems s =
     (if debug_ids = [] \<and> (file_stems = [] \<or> af_release s = None) then (False, s)
      else
        (let s = count ApiRequests s;
             (results, api) = lookup_js_artifacts sv (af_source s) debug_ids file_stems (af_release s) (af_dist s) (af_api_cache s);
             s = s\<lparr>af_api_cache := api\<rparr>
         in case results of Inl _ \<Rightarrow> (False, s) | Inr rs \<Rightarrow> apply_results sv rs s))"

definition query_sentry_for_file :: "('h, 'b, 'm) js_services \<Rightarrow> file_key \<Rightarrow> ('h, 'b) artifact_fetcher \<Rightarrow> bool \<times> ('h, 'b) artifact_fetcher" where
  "query_sentry_for_file sv key s =
     query_sentry_for_files sv (list_of_option (key_debug_id key)) (map extract_file_stem (list_of_option (key_abs_path key))) s"

section \<open>The order of lookups\<close>

text \<open>Run a lookup only when nothing was found before.\<close>

definition or_else :: "('s \<Rightarrow> 'a option \<times> 's) \<Rightarrow> 'a option \<times> 's \<Rightarrow> 'a option \<times> 's" where
  "or_else next r = (case r of (Some x, s) \<Rightarrow> (Some x, s) | (None, s) \<Rightarrow> next s)"

definition try_get_file_with_debug_id ::
    "('h, 'b, 'm) js_services \<Rightarrow> file_key \<Rightarrow> ('h, 'b) artifact_fetcher \<Rightarrow> cached_file cached_file_entry option \<times> ('h, 'b) artifact_fetcher" where
  "try_get_file_with_debug_id sv key s =
     or_else (try_fetch_file_from_artifacts sv key)
       (or_else (try_get_file_from_bundles_by_path sv key)
          (or_else (\<lambda>s. case query_sentry_for_file sv key s of
                          (True, s) \<Rightarrow> try_get_file_from_bundles_by_debug_id sv key s
                        | (False, s) \<Rightarrow> (None, s))
             (try_get_file_from_bundles_by_debug_id sv key s)))"

definition try_get_file_without_debug_id ::
    "('h, 'b, 'm) js_services \<Rightarrow> file_key \<Rightarrow> ('h, 'b) artifact_fetcher \<Rightarrow> cached_file cached_file_entry option \<times> ('h, 'b) artifact_fetcher" where
  "try_get_file_without_debug_id sv key s =
     or_else (\<lambda>s. case query_sentry_for_file sv key s of
                    (True, s) \<Rightarrow> or_else (try_fetch_file_from_artifacts sv key) (try_get_file_from_bundles_by_path sv key s)
                  | (False, s) \<Rightarrow> (None, s))
       (or_else (try_fetch_file_from_artifacts sv key) (try_get_file_from_bundles_by_path sv key s))"

section \<open>Scraping\<close>

definition scrape_error :: "string \<Rightarrow> string \<Rightarrow> cached_file cached_file_entry" where
  "scrape_error abs_path err =
     \<lparr>ce_uri = ScrapedFile abs_path, ce_entry = Inl (DownloadError err), ce_resolved_with = RwUnknown\<rparr>"

definition SCRAPE_FILES_EVERY :: "64 word" where
  "SCRAPE_FILES_EVERY = 60 * 60"

definition reserved_host :: "('h, 'b, 'm) js_services \<Rightarrow> string \<Rightarrow> bool" where
  "reserved_host sv host \<longleftrightarrow> (host = ''localhost'' \<or> host = ''127.0.0.1'') \<and> \<not> js_reserved_ips sv"

text \<open>The refusals in their order: the failure that is reported and the error of the file.\<close>

definition scrape_refusal :: "('h, 'b, 'm) js_services \<Rightarrow> scraping_config \<Rightarrow> string \<Rightarrow> parsed_url
    \<Rightarrow> (scraping_failure_reason \<times> string \<times> string) option" where
  "scrape_refusal sv cfg abs_path url =
     (if \<not> sc_enabled cfg then Some (ReasonDisabled, [], ''Scraping disabled'')
      else if pu_scheme url \<notin> {''http'', ''https''} then
        (let m = ''`'' @ pu_scheme url @ ''` is not an allowed download scheme'' in Some (ReasonInvalidHost, m, m))
      else if \<not> is_valid_origin (js_idna sv) url (sc_allowed_origins cfg) then
        (let m = abs_path @ '' is not an allowed download origin'' in Some (ReasonInvalidHost, m, m))
      else case pu_host url of
        None \<Rightarrow> Some (ReasonInvalidHost, [], ''Invalid host'')
      | Some host \<Rightarrow>
          if reserved_host sv host
          then Some (ReasonInvalidHost, ''Can'' @ [CHR 0x27] @ ''t connect to restricted host '' @ host, ''Invalid host'')
          else None)"

definition scrape_remote_file :: "('h, 'b, 'm) js_services \<Rightarrow> scraping_config \<Rightarrow> parsed_url \<Rightarrow> js_remote_file" where
  "scrape_remote_file sv cfg url =
     (let key = (case cache_busting_key (js_sha sv) (pu_str url) (js_now sv) SCRAPE_FILES_EVERY of
                   Ret k \<Rightarrow> dec_nat (unat k) | Panic \<Rightarrow> [])
      in JsHttp (js_set_fragment sv url key) (sc_verify_ssl cfg) (sc_headers cfg))"

definition scrape :: "('h, 'b, 'm) js_services \<Rightarrow> file_key \<Rightarrow> ('h, 'b) artifact_fetcher \<Rightarrow> cached_file cached_file_entry \<times> ('h, 'b) artifact_fetcher" where
  "scrape sv key s =
     (case key_abs_path key of
        None \<Rightarrow> (empty_entry, s)
      | Some abs_path \<Rightarrow>
          (case js_parse_url sv abs_path of
             Inl err \<Rightarrow> (scrape_error abs_path err, s)
           | Inr url \<Rightarrow>
               (case scrape_refusal sv (af_scraping s) abs_path url of
                  Some (reason, details, err) \<Rightarrow>
                    (scrape_error abs_path err, push_attempt abs_path (ScrapeFailure reason details) s)
                | None \<Rightarrow>
                    (let s = count ScrapedFiles s;
                         f = scrape_remote_file sv (af_scraping s) url
                     in case js_fetch_file sv (af_scope s) f False of
                          Inl e \<Rightarrow>
                            (\<lparr>ce_uri = ScrapedFile (js_remote_uri f), ce_entry = Inl e, ce_resolved_with = RwScraping\<rparr>,
                             push_attempt abs_path (scraping_result_from (js_durations sv) e) s)
                        | Inr c \<Rightarrow>
                            (\<lparr>ce_uri = ScrapedFile (js_remote_uri f),
                              ce_entry = Inr \<lparr>cf_contents = Some c,
                                cf_sourcemap_url = (case js_discover_map sv c of
                                   None \<Rightarrow> None
                                 | Some r \<Rightarrow> ok_option (parse_with_prefix (js_decode sv) abs_path r)),
                                cf_debug_id = js_discover_id sv c\<rparr>,
                              ce_resolved_with = RwScraping\<rparr>,
                             push_attempt abs_path ScrapeSuccess
                               (s\<lparr>af_metrics := record_file_scraped (as_type key) (key_debug_id key \<noteq> None) (af_metrics s)\<rparr>))))))"

section \<open>Any file\<close>

definition not_attempted :: "file_key \<Rightarrow> ('h, 'b) artifact_fetcher \<Rightarrow> ('h, 'b) artifact_fetcher" where
  "not_attempted key s = (case key_abs_path key of Some url \<Rightarrow> push_attempt url NotAttempted s | None \<Rightarrow> s)"

definition get_file :: "('h, 'b, 'm) js_services \<Rightarrow> file_key \<Rightarrow> ('h, 'b) artifact_fetcher \<Rightarrow> cached_file cached_file_entry \<times> ('h, 'b) artifact_fetcher" where
  "get_file sv key s =
     (case try_get_file_from_bundles_cached key (count NeededFiles s) of
        (Some e, s) \<Rightarrow> (e, not_attempted key s)
      | (None, s) \<Rightarrow>
          (case (if key_debug_id key \<noteq> None then try_get_file_with_debug_id sv key s
                 else try_get_file_without_debug_id sv key s) of
             (Some e, s) \<Rightarrow> (e, not_attempted key s)
           | (None, s) \<Rightarrow> scrape sv key s))"

definition apply_sources_budget :: "cached_file cached_file_entry \<Rightarrow> ('h, 'b) artifact_fetcher \<Rightarrow> cached_file cached_file_entry \<times> ('h, 'b) artifact_fetcher" where
  "apply_sources_budget e s =
     (case ce_entry e of
        Inl _ \<Rightarrow> (e, s)
      | Inr file \<Rightarrow>
          (let len = length (file_contents file) in
           if len > af_budget s then (e\<lparr>ce_entry := Inl NotFound\<rparr>, s)
           else (e, s\<lparr>af_budget := af_budget s - len\<rparr>)))"

section \<open>The source map cache\<close>

definition from_cachedfile :: "('h, 'b) artifact_fetcher \<Rightarrow> cached_file_uri \<Rightarrow> cached_file \<Rightarrow> 'h source_map_contents option" where
  "from_cachedfile s uri f =
     (case cf_contents f of
        Some c \<Rightarrow> Some (Resolved c)
      | None \<Rightarrow>
          (case uri of
             Bundled bundle_uri key \<Rightarrow>
               (case map_of (af_bundles s) bundle_uri of
                  Some (Inr ((h, _), _)) \<Rightarrow> Some (FromBundle h key)
                | _ \<Rightarrow> None)
           | _ \<Rightarrow> None))"

definition write_cache_key :: "('h, 'b, 'm) js_services \<Rightarrow> string \<Rightarrow> cached_file_uri \<Rightarrow> string \<Rightarrow> cache_key_builder \<Rightarrow> cache_key_builder" where
  "write_cache_key sv prefix uri c b =
     write_str (prefix @ '':'' @ [CHR 0x0A]
        @ (case uri of ScrapedFile _ \<Rightarrow> hex_bytes False (js_sha sv c) | _ \<Rightarrow> file_uri_display (js_id_text sv) uri)
        @ [CHR 0x0A]) b"

definition sourcemap_cache_key :: "('h, 'b, 'm) js_services \<Rightarrow> scope \<Rightarrow> cached_file_uri \<Rightarrow> string \<Rightarrow> cached_file_uri \<Rightarrow> string \<Rightarrow> cache_key" where
  "sourcemap_cache_key sv sc source_uri source_contents map_uri map_contents =
     build_key (js_sha sv)
       (write_cache_key sv ''sourcemap'' map_uri map_contents
          (write_cache_key sv ''source'' source_uri source_contents (scoped_builder sc)))"

definition fetch_sourcemap_cache :: "('h, 'b, 'm) js_services \<Rightarrow> cached_file cached_file_entry \<Rightarrow> cached_file cached_file_entry
    \<Rightarrow> ('h, 'b) artifact_fetcher \<Rightarrow> 'm cached_file_entry" where
  "fetch_sourcemap_cache sv source sourcemap s =
     \<lparr>ce_uri = ce_uri sourcemap,
      ce_entry = (case ce_entry source of
          Inl e \<Rightarrow> Inl e
        | Inr src \<Rightarrow>
            (case ce_entry sourcemap of
               Inl e \<Rightarrow> Inl e
             | Inr m \<Rightarrow>
                 (let key = sourcemap_cache_key sv (af_scope s) (ce_uri source) (file_contents src) (ce_uri sourcemap) (file_contents m);
                      c = (case from_cachedfile s (ce_uri sourcemap) m of Some c \<Rightarrow> c | None \<Rightarrow> Resolved [])
                  in js_smcache sv \<lparr>sm_source = file_contents src, sm_map = c\<rparr> key))),
      ce_resolved_with = ce_resolved_with sourcemap\<rparr>"

definition fetch_minified_and_sourcemap :: "('h, 'b, 'm) js_services \<Rightarrow> string \<Rightarrow> debug_id_t option \<Rightarrow> ('h, 'b) artifact_fetcher
    \<Rightarrow> (cached_file cached_file_entry \<times> 'm cached_file_entry option) \<times> ('h, 'b) artifact_fetcher" where
  "fetch_minified_and_sourcemap sv abs_path dbg s =
     (let (minified, s) = get_file sv (MinifiedSource abs_path dbg) s;
          s = (case ce_entry minified of
                 Inl _ \<Rightarrow> s\<lparr>af_metrics := record_not_found FtSource (dbg \<noteq> None) (af_metrics s)\<rparr>
               | Inr _ \<Rightarrow> s);
          (minified, s) = apply_sources_budget minified s
      in if ce_entry minified = Inl NotFound then ((minified, None), s)
         else
           (let (sourcemap_url, source_debug_id) =
                  (case ce_entry minified of Inr f \<Rightarrow> (cf_sourcemap_url f, cf_debug_id f) | Inl _ \<Rightarrow> (None, None));
                dbg = (case dbg of Some d \<Rightarrow> Some d | None \<Rightarrow> source_debug_id)
            in if sourcemap_url = None \<and> dbg = None
               then ((minified, None), s\<lparr>af_metrics := record_sourcemap_not_needed (af_metrics s)\<rparr>)
               else
                 (let (sourcemap, s) =
                        (case sourcemap_url of
                           Some (Data d) \<Rightarrow>
                             (\<lparr>ce_uri = Embedded,
                               ce_entry = Inr \<lparr>cf_contents = Some d, cf_sourcemap_url = None, cf_debug_id = dbg\<rparr>,
                               ce_resolved_with = ce_resolved_with minified\<rparr>, s)
                         | Some (Remote url) \<Rightarrow> get_file sv (SourceMap (Some url) dbg) s
                         | None \<Rightarrow> get_file sv (SourceMap None dbg) s);
                      s = (if ce_uri sourcemap = Embedded
                           then s\<lparr>af_metrics := record_sourcemap_not_needed (af_metrics s)\<rparr>
                           else case ce_entry sourcemap of
                             Inl _ \<Rightarrow> s\<lparr>af_metrics := record_not_found FtSourceMap (dbg \<noteq> None) (af_metrics s)\<rparr>
                           | Inr _ \<Rightarrow> s)
                  in ((minified, Some (fetch_sourcemap_cache sv minified sourcemap s)), s))))"

section \<open>Computing a source map cache\<close>

text \<open>The writer and parser of the \<open>symbolic\<close> crate.\<close>

record 'm sm_writer =
  smw_write :: "string \<Rightarrow> string \<Rightarrow> string + string"
  smw_parse :: "string \<Rightarrow> 'm option"

definition get_descriptor_from_bundle :: "('h, 'b, 'm) js_services \<Rightarrow> 'b \<Rightarrow> file_key \<Rightarrow> descriptor option" where
  "get_descriptor_from_bundle sv b key =
     (case (case key_debug_id key of Some d \<Rightarrow> js_by_debug_id sv b d (as_type key) | None \<Rightarrow> None) of
        Some desc \<Rightarrow> Some desc
      | None \<Rightarrow>
          (case key_abs_path key of
             None \<Rightarrow> None
           | Some p \<Rightarrow> foldr (\<lambda>u r. case js_by_url sv b u of Some d \<Rightarrow> Some d | None \<Rightarrow> r)
                        (get_release_file_candidate_urls p) None))"

definition write_sourcemap_cache :: "'m sm_writer \<Rightarrow> string \<Rightarrow> string \<Rightarrow> string cache_contents" where
  "write_sourcemap_cache w source sourcemap =
     (case smw_write w source sourcemap of
        Inl err \<Rightarrow> Inl (Malformed err)
      | Inr c \<Rightarrow> if smw_parse w c = None then Inl InternalError else Inr c)"

definition sm_compute :: "('h, 'b, 'm) js_services \<Rightarrow> 'm sm_writer \<Rightarrow> 'h sm_request \<Rightarrow> string cache_contents" where
  "sm_compute sv w req =
     (case (case sm_map req of
              Resolved c \<Rightarrow> Inr c
            | FromBundle h key \<Rightarrow>
                (case open_artifact_bundle sv h of
                   Inl e \<Rightarrow> Inl e
                 | Inr (_, b) \<Rightarrow>
                     (case Option.bind (get_descriptor_from_bundle sv b key) ds_contents of
                        None \<Rightarrow> Inl (Malformed ''descriptor should have `contents`'')
                      | Some c \<Rightarrow> Inr c))) of
        Inl e \<Rightarrow> Inl e
      | Inr sourcemap \<Rightarrow> write_sourcemap_cache w (sm_source req) sourcemap)"

definition sm_load :: "'m sm_writer \<Rightarrow> string \<Rightarrow> 'm cache_contents" where
  "sm_load w c = (case smw_parse w c of None \<Rightarrow> Inl InternalError | Some m \<Rightarrow> Inr m)"

end
