(* ===== verification/JsSymbolication.thy ===== *)
theory JsSymbolication
  imports JsLookup
begin

text \<open>
  \<open>SourceMapLookup\<close> of \<open>symbolicator-js/lookup.rs\<close>, and \<open>symbolication.rs\<close>: the modules of a request,
  each fetched once, and the symbolication of JavaScript stack traces. The lookup of a position in
  a source map cache is a parameter.
\<close>

section \<open>Modules\<close>

record 'm source_map_module =
  mo_abs_path :: string
  mo_debug_id :: "debug_id_t option"
  mo_was_fetched :: bool
  mo_source_file_base :: "string option"
  mo_minified_source :: "cached_file cached_file_entry"
  mo_smcache :: "'m cached_file_entry option"

definition source_map_module_new :: "string \<Rightarrow> debug_id_t option \<Rightarrow> 'm source_map_module" where
  "source_map_module_new abs_path d =
     \<lparr>mo_abs_path = abs_path, mo_debug_id = d, mo_was_fetched = False, mo_source_file_base = None,
      mo_minified_source = empty_entry, mo_smcache = None\<rparr>"

definition source_file_key :: "'m source_map_module \<Rightarrow> string \<Rightarrow> file_key option" where
  "source_file_key m file_path = map_option (\<lambda>base. Source (join_paths base file_path)) (mo_source_file_base m)"

record ('h, 'b, 'm) source_map_lookup =
  sl_modules :: "string \<rightharpoonup> 'm source_map_module"
  sl_files :: "file_key \<rightharpoonup> cached_file cached_file_entry"
  sl_fetcher :: "('h, 'b) artifact_fetcher"

section \<open>Requests and frames\<close>

record js_module =
  jm_code_file :: string
  jm_debug_id :: string

record js_frame_data =
  jd_sourcemap :: "string option"
  jd_sourcemap_origin :: "cached_file_uri option"
  jd_resolved_with :: "resolved_with option"
  jd_symbolicated :: bool

record js_frame =
  jf_platform :: "platform option"
  jf_function :: "string option"
  jf_filename :: "string option"
  jf_module :: "string option"
  jf_abs_path :: string
  jf_lineno :: "32 word"
  jf_colno :: "32 word option"
  jf_pre_context :: "string list"
  jf_context_line :: "string option"
  jf_post_context :: "string list"
  jf_token_name :: "string option"
  jf_data :: js_frame_data

datatype js_module_error_kind =
    InvalidLocation "32 word" "32 word option"
  | InvalidAbsPath
  | NoColumn
  | MissingSourceContent string string
  | MissingSource
  | MalformedSourcemap string
  | MissingSourcemap
  | InvalidBase64Sourcemap
  | ScrapingDisabled

record js_module_error =
  je_abs_path :: string
  je_kind :: js_module_error_kind

text \<open>The derived order: the path, the variant, and its fields.\<close>

definition kind_key :: "js_module_error_kind \<Rightarrow> nat \<times> nat list \<times> string list" where
  "kind_key k =
     (case k of
        InvalidLocation l c \<Rightarrow> (0, [unat l, case c of None \<Rightarrow> 0 | Some c \<Rightarrow> Suc (unat c)], [])
      | InvalidAbsPath \<Rightarrow> (1, [], [])
      | NoColumn \<Rightarrow> (2, [], [])
      | MissingSourceContent s m \<Rightarrow> (3, [], [s, m])
      | MissingSource \<Rightarrow> (4, [], [])
      | MalformedSourcemap u \<Rightarrow> (5, [], [u])
      | MissingSourcemap \<Rightarrow> (6, [], [])
      | InvalidBase64Sourcemap \<Rightarrow> (7, [], [])
      | ScrapingDisabled \<Rightarrow> (8, [], []))"

definition error_key :: "js_module_error \<Rightarrow> string \<times> nat \<times> nat list \<times> string list" where
  "error_key e = (je_abs_path e, kind_key (je_kind e))"

definition insert_error :: "js_module_error \<Rightarrow> js_module_error list \<Rightarrow> js_module_error list" where
  "insert_error e es = (if e \<in> set es then es else insort_key error_key e es)"

record js_request =
  jr_platform :: "platform option"
  jr_scope :: scope
  jr_source :: sentry_source_config
  jr_release :: "string option"
  jr_dist :: "string option"
  jr_stacktraces :: "js_frame list list"
  jr_modules :: "js_module list"
  jr_scraping :: scraping_config
  jr_apply_source_context :: bool
  jr_frame_order :: frame_order

record js_response =
  js_stacktraces :: "js_frame list list"
  js_raw_stacktraces :: "js_frame list list"
  js_errors :: "js_module_error list"
  js_scraping_attempts :: "scraping_attempt list"

record js_stats =
  st_symbolicated :: "platform option \<Rightarrow> nat"
  st_unsymbolicated :: "platform option \<Rightarrow> nat"
  st_num_stacktraces :: nat
  st_missing_sourcescontent :: nat

section \<open>The lookup of a request\<close>

text \<open>The budget is \<open>usize::MAX\<close> when none is configured; the two caches are shared by all requests.\<close>

definition insert_module :: "('h, 'b, 'm) js_services \<Rightarrow> js_module
    \<Rightarrow> (string \<rightharpoonup> 'm source_map_module) \<Rightarrow> (string \<rightharpoonup> 'm source_map_module)" where
  "insert_module sv m mods = mods(jm_code_file m \<mapsto> source_map_module_new (jm_code_file m) (js_parse_id sv (jm_debug_id m)))"

definition source_map_lookup_new :: "('h, 'b, 'm) js_services \<Rightarrow> nat option \<Rightarrow> bundle_file_cache \<Rightarrow> api_cache
    \<Rightarrow> js_request \<Rightarrow> ('h, 'b, 'm) source_map_lookup" where
  "source_map_lookup_new sv max_sources_size files_in_bundles api req =
     \<lparr>sl_modules = fold (insert_module sv) (jr_modules req) Map.empty,
      sl_files = Map.empty,
      sl_fetcher = \<lparr>af_metrics = (\<lambda>_. 0), af_files_in_bundles = files_in_bundles, af_api_cache = api,
        af_scope = jr_scope req, af_source = jr_source req, af_release = jr_release req, af_dist = jr_dist req,
        af_scraping = jr_scraping req, af_bundles = [], af_artifacts = Map.empty, af_attempts = [],
        af_budget = (case max_sources_size of Some n \<Rightarrow> n | None \<Rightarrow> 2 ^ 64 - 1)\<rparr>\<rparr>"

definition prepare_frame :: "js_frame \<Rightarrow> (string \<rightharpoonup> 'm source_map_module) \<Rightarrow> js_frame \<times> (string \<rightharpoonup> 'm source_map_module)" where
  "prepare_frame f mods =
     (let f = (case strip_prefix (jf_abs_path f) ''async '' of Some p \<Rightarrow> f\<lparr>jf_abs_path := p\<rparr> | None \<Rightarrow> f)
      in (f, if mods (jf_abs_path f) \<noteq> None then mods
             else mods(jf_abs_path f \<mapsto> source_map_module_new (jf_abs_path f) None)))"

fun prepare_frames :: "js_frame list \<Rightarrow> (string \<rightharpoonup> 'm source_map_module) \<Rightarrow> js_frame list \<times> (string \<rightharpoonup> 'm source_map_module)" where
  "prepare_frames [] mods = ([], mods)"
| "prepare_frames (f # fs) mods =
     (let (f, mods) = prepare_frame f mods; (fs, mods) = prepare_frames fs mods in (f # fs, mods))"

fun prepare_modules :: "js_frame list list \<Rightarrow> (string \<rightharpoonup> 'm source_map_module) \<Rightarrow> js_frame list list \<times> (string \<rightharpoonup> 'm source_map_module)" where
  "prepare_modules [] mods = ([], mods)"
| "prepare_modules (t # ts) mods =
     (let (t, mods) = prepare_frames t mods; (ts, mods) = prepare_modules ts mods in (t # ts, mods))"

definition source_base :: "string \<Rightarrow> cached_file cached_file_entry \<Rightarrow> string" where
  "source_base abs_path minified =
     (case ce_entry minified of
        Inr f \<Rightarrow> (case cf_sourcemap_url f of Some (Remote url) \<Rightarrow> url | _ \<Rightarrow> abs_path)
      | Inl _ \<Rightarrow> abs_path)"

definition get_module :: "('h, 'b, 'm) js_services \<Rightarrow> string \<Rightarrow> ('h, 'b, 'm) source_map_lookup
    \<Rightarrow> 'm source_map_module \<times> ('h, 'b, 'm) source_map_lookup" where
  "get_module sv abs_path l =
     (let m = (case sl_modules l abs_path of Some m \<Rightarrow> m | None \<Rightarrow> source_map_module_new abs_path None)
      in if mo_was_fetched m then (m, l\<lparr>sl_modules := (sl_modules l)(abs_path \<mapsto> m)\<rparr>)
         else
           (let ((minified, smcache), s) = fetch_minified_and_sourcemap sv (mo_abs_path m) (mo_debug_id m) (sl_fetcher l);
                m = m\<lparr>mo_was_fetched := True,
                      mo_source_file_base := Some (source_base (mo_abs_path m) minified),
                      mo_minified_source := minified,
                      mo_smcache := smcache\<rparr>
            in (m, l\<lparr>sl_modules := (sl_modules l)(abs_path \<mapsto> m), sl_fetcher := s\<rparr>)))"

definition get_source_file :: "('h, 'b, 'm) js_services \<Rightarrow> file_key \<Rightarrow> ('h, 'b, 'm) source_map_lookup
    \<Rightarrow> cached_file cached_file_entry \<times> ('h, 'b, 'm) source_map_lookup" where
  "get_source_file sv key l =
     (case sl_files l key of
        Some e \<Rightarrow> (e, l)
      | None \<Rightarrow>
          (let (file, s) = get_file sv key (sl_fetcher l);
               (file, s) = apply_sources_budget file s
           in (file, l\<lparr>sl_files := (sl_files l)(key \<mapsto> file), sl_fetcher := s\<rparr>)))"

definition into_scraping_attempts :: "('h, 'b, 'm) source_map_lookup \<Rightarrow> scraping_attempt list" where
  "into_scraping_attempts l = sort_key sa_url (af_attempts (sl_fetcher l))"

section \<open>Symbolicating a frame\<close>

text \<open>What the \<open>symbolic\<close> crate finds at a position.\<close>

datatype token_scope = NamedScope string | AnonymousScope | UnknownScope

record token_file =
  tf_name :: "string option"
  tf_source :: "string option"

record js_token =
  tk_name :: "string option"
  tk_scope :: token_scope
  tk_file_name :: "string option"
  tk_file :: "token_file option"
  tk_line :: "32 word"
  tk_column :: "32 word"

record 'm js_libs =
  lib_trace :: bool                                   \<comment> \<open>whether the log prints records of level trace\<close>
  lib_lookup :: "'m \<Rightarrow> 32 word \<Rightarrow> 32 word \<Rightarrow> js_token option"
  lib_clean_module :: "string \<Rightarrow> string"

definition saturating_inc :: "32 word \<Rightarrow> 32 word" where
  "saturating_inc w = (if w = - 1 then w else w + 1)"

definition saturating_dec :: "32 word \<Rightarrow> 32 word" where
  "saturating_dec w = (if w = 0 then 0 else w - 1)"

definition js_apply_source_context :: "js_frame \<Rightarrow> string \<Rightarrow> js_frame outcome" where
  "js_apply_source_context f source =
     map_out (\<lambda>r. case r of
          Some (pre, context, post) \<Rightarrow> f\<lparr>jf_pre_context := pre, jf_context_line := Some context, jf_post_context := post\<rparr>
        | None \<Rightarrow> f)
       (get_context_lines source (unat (jf_lineno f)) (case jf_colno f of Some c \<Rightarrow> unat c | None \<Rightarrow> 0) None)"

definition clear_context :: "js_frame \<Rightarrow> js_frame" where
  "clear_context f = f\<lparr>jf_pre_context := [], jf_context_line := None, jf_post_context := []\<rparr>"

definition token_function :: "string option \<Rightarrow> js_token \<Rightarrow> string" where
  "token_function raw_function t =
     (case tk_scope t of
        NamedScope n \<Rightarrow> if starts_with n ''$async$'' then (case tk_name t of Some n' \<Rightarrow> n' | None \<Rightarrow> n) else n
      | AnonymousScope \<Rightarrow> ''<anonymous>''
      | UnknownScope \<Rightarrow> (case raw_function of Some f \<Rightarrow> f | None \<Rightarrow> ''<unknown>''))"

definition web_path :: "string \<Rightarrow> bool" where
  "web_path p \<longleftrightarrow> list_ex (starts_with p) [''http:'', ''https:'', ''webpack:'', ''turbopack:'', ''app:'']"

definition apply_file_name :: "(string \<Rightarrow> string) \<Rightarrow> string option \<Rightarrow> string option \<Rightarrow> js_frame \<Rightarrow> js_frame" where
  "apply_file_name clean base file_name f =
     (case file_name of
        None \<Rightarrow> f
      | Some n \<Rightarrow>
          if n = [] then f
          else
            (let f = f\<lparr>jf_abs_path := (case base of Some b \<Rightarrow> join_paths b n | None \<Rightarrow> n)\<rparr>;
                 (n', f) = (if starts_with n ''webpack:'' then
                     (let n' = fixup_webpack_filename n in (n', f\<lparr>jf_module := Some (generate_module clean n')\<rparr>))
                   else if starts_with n ''turbopack:'' then
                     (let n' = fixup_turbopack_filename n in (n', f\<lparr>jf_module := Some (generate_module clean n')\<rparr>))
                   else (n, f));
                 f = (if jf_module f = None \<and> web_path (jf_abs_path f)
                      then f\<lparr>jf_module := Some (generate_module clean (jf_abs_path f))\<rparr> else f)
             in f\<lparr>jf_filename := Some n'\<rparr>))"

definition apply_token :: "'m js_libs \<Rightarrow> string option \<Rightarrow> string option \<Rightarrow> string option \<Rightarrow> js_token \<Rightarrow> js_frame \<Rightarrow> js_frame" where
  "apply_token lib base raw_function callsite_fn_name t f =
     (let f = f\<lparr>jf_data := (jf_data f)\<lparr>jd_symbolicated := True\<rparr>,
               jf_token_name := tk_name t,
               jf_function := Some (fold_function_name (get_function_for_token raw_function (token_function raw_function t) callsite_fn_name))\<rparr>;
          f = apply_file_name (lib_clean_module lib) base (tk_file_name t) f
      in f\<lparr>jf_lineno := saturating_inc (tk_line t), jf_colno := Some (saturating_inc (tk_column t))\<rparr>)"

text \<open>The state of a run: the lookup, the errors and the statistics.\<close>

record ('h, 'b, 'm) js_run =
  run_lookup :: "('h, 'b, 'm) source_map_lookup"
  run_errors :: "js_module_error list"
  run_stats :: js_stats

definition add_error :: "string \<Rightarrow> js_module_error_kind \<Rightarrow> ('h, 'b, 'm) js_run \<Rightarrow> ('h, 'b, 'm) js_run" where
  "add_error abs_path k r = r\<lparr>run_errors := insert_error \<lparr>je_abs_path = abs_path, je_kind = k\<rparr> (run_errors r)\<rparr>"

text \<open>The original source of an unminified frame: from the source map, or a file of its own.\<close>

definition original_source_context :: "('h, 'b, 'm) js_services \<Rightarrow> 'm source_map_module \<Rightarrow> string \<Rightarrow> string \<Rightarrow> js_token
    \<Rightarrow> js_frame \<Rightarrow> ('h, 'b, 'm) js_run \<Rightarrow> (js_frame \<times> ('h, 'b, 'm) js_run) outcome" where
  "original_source_context sv m raw_abs_path sourcemap_label t f r =
     (case tk_file t of
        None \<Rightarrow> Ret (f, r)
      | Some tf \<Rightarrow>
          (case tf_source tf of
             Some source \<Rightarrow> map_out (\<lambda>f. (f, r)) (js_apply_source_context f source)
           | None \<Rightarrow>
               (let r = r\<lparr>run_stats := (run_stats r)\<lparr>st_missing_sourcescontent := Suc (st_missing_sourcescontent (run_stats r))\<rparr>\<rparr>;
                    key = Option.bind (tf_name tf) (source_file_key m);
                    (entry, r) = (case key of
                        Some k \<Rightarrow> (let (e, l) = get_source_file sv k (run_lookup r) in (ce_entry e, r\<lparr>run_lookup := l\<rparr>))
                      | None \<Rightarrow> (Inl NotFound, r))
                in case entry of
                     Inr file \<Rightarrow> map_out (\<lambda>f. (f, r)) (js_apply_source_context f (file_contents file))
                   | Inl _ \<Rightarrow>
                       Ret (f, add_error raw_abs_path
                         (MissingSourceContent (case Option.bind key key_abs_path of Some p \<Rightarrow> p | None \<Rightarrow> []) sourcemap_label) r))))"

definition scraping_disabled :: "cache_error \<Rightarrow> bool" where
  "scraping_disabled e \<longleftrightarrow> e = DownloadError ''Scraping disabled''"

text \<open>
  \<open>Debug\<close> of a file prints its contents, of a long file only the last 61 bytes, cut with a slice that
  panics inside a character. The trace record of a frame prints the module with its file.
\<close>

definition debug_cached_file :: "cached_file \<Rightarrow> string outcome" where
  "debug_cached_file f =
     (let contents = file_contents f
      in if length contents > 64 then map_out ((@) ''...'') (slice_from contents (length contents - 61)) else Ret contents)"

definition trace_module :: "'m js_libs \<Rightarrow> 'm source_map_module \<Rightarrow> unit outcome" where
  "trace_module lib m =
     (case ce_entry (mo_minified_source m) of
        Inr f \<Rightarrow> if lib_trace lib then map_out (\<lambda>_. ()) (debug_cached_file f) else Ret ()
      | Inl _ \<Rightarrow> Ret ())"

text \<open>The result of a frame, the raw frame as it was changed, and the run.\<close>

definition symbolicate_js_frame :: "('h, 'b, 'm) js_services \<Rightarrow> 'm js_libs \<Rightarrow> js_frame \<Rightarrow> string option \<Rightarrow> bool
    \<Rightarrow> ('h, 'b, 'm) js_run \<Rightarrow> ((js_module_error_kind + js_frame) \<times> js_frame \<times> ('h, 'b, 'm) js_run) outcome" where
  "symbolicate_js_frame sv lib raw callsite_fn_name with_context r =
     (if jf_lineno raw = 0 then Ret (Inl (InvalidLocation (jf_lineno raw) (jf_colno raw)), raw, r)
      else
        (let line = jf_lineno raw;
             col = (case jf_colno raw of Some c \<Rightarrow> c | None \<Rightarrow> 0);
             (m, l) = get_module sv (jf_abs_path raw) (run_lookup r);
             r = r\<lparr>run_lookup := l\<rparr>
         in bind_out (trace_module lib m) (\<lambda>_.
            case ce_entry (mo_minified_source m) of
              Inl e \<Rightarrow> Ret (Inl (if scraping_disabled e then ScrapingDisabled else MissingSource), raw, r)
            | Inr minified \<Rightarrow>
                bind_out (if with_context then js_apply_source_context raw (file_contents minified) else Ret raw) (\<lambda>raw'.
                (let f = clear_context raw;
                     label = (case remote_sourcemap_url minified of Some u \<Rightarrow> u | None \<Rightarrow> jf_abs_path raw)
                 in case mo_smcache m of
                      None \<Rightarrow> Ret (Inr raw', raw', r)
                    | Some sm \<Rightarrow>
                        (case ce_entry sm of
                           Inl (Malformed _) \<Rightarrow>
                             Ret (Inl (MalformedSourcemap label),
                                  raw'\<lparr>jf_data := (jf_data raw')\<lparr>jd_resolved_with := Some (ce_resolved_with sm),
                                                              jd_sourcemap_origin := Some (ce_uri sm)\<rparr>\<rparr>, r)
                         | Inl e \<Rightarrow> Ret (Inl (if scraping_disabled e then ScrapingDisabled else MissingSourcemap), raw', r)
                         | Inr cache \<Rightarrow>
                             (let f = f\<lparr>jf_data := (jf_data f)\<lparr>jd_sourcemap := Some label,
                                         jd_sourcemap_origin := Some (ce_uri sm), jd_resolved_with := Some (ce_resolved_with sm)\<rparr>\<rparr>
                              in case lib_lookup lib cache (line - 1) (saturating_dec col) of
                                   None \<Rightarrow> Ret (Inl (InvalidLocation line (Some col)), raw', r)
                                 | Some t \<Rightarrow>
                                     (let f = apply_token lib (mo_source_file_base m) (jf_function raw) callsite_fn_name t f
                                      in if \<not> with_context then Ret (Inr f, raw', r)
                                         else map_out (\<lambda>(f, r). (Inr f, raw', r))
                                                (original_source_context sv m (jf_abs_path raw) label t f r)))))))))"

section \<open>Symbolicating stack traces\<close>

definition bump :: "platform option \<Rightarrow> (platform option \<Rightarrow> nat) \<Rightarrow> platform option \<Rightarrow> nat" where
  "bump p m = m(p := Suc (m p))"

text \<open>The frames of a trace, callers first: each result, each raw frame, the name of the call site.\<close>

fun js_frames_loop :: "('h, 'b, 'm) js_services \<Rightarrow> 'm js_libs \<Rightarrow> bool \<Rightarrow> string option \<Rightarrow> js_frame list \<Rightarrow> ('h, 'b, 'm) js_run
    \<Rightarrow> (js_frame list \<times> js_frame list \<times> ('h, 'b, 'm) js_run) outcome" where
  "js_frames_loop sv lib with_context callsite [] r = Ret ([], [], r)"
| "js_frames_loop sv lib with_context callsite (raw # raws) r =
     bind_out (symbolicate_js_frame sv lib raw callsite with_context r) (\<lambda>(res, raw, r).
       (let (f, callsite, r) = (case res of
              Inr f \<Rightarrow>
                (f\<lparr>jf_token_name := None\<rparr>, jf_token_name f,
                 r\<lparr>run_stats := (run_stats r)\<lparr>st_symbolicated := bump (jf_platform raw) (st_symbolicated (run_stats r))\<rparr>\<rparr>)
            | Inl k \<Rightarrow>
                (raw, None,
                 add_error (jf_abs_path raw) k
                   (r\<lparr>run_stats := (run_stats r)\<lparr>st_unsymbolicated := bump (jf_platform raw) (st_unsymbolicated (run_stats r))\<rparr>\<rparr>)))
        in map_out (\<lambda>(fs, raws, r). (f # fs, raw # raws, r)) (js_frames_loop sv lib with_context callsite raws r)))"

definition symbolicate_js_stacktrace :: "('h, 'b, 'm) js_services \<Rightarrow> 'm js_libs \<Rightarrow> frame_order \<Rightarrow> bool \<Rightarrow> js_frame list
    \<Rightarrow> ('h, 'b, 'm) js_run \<Rightarrow> (js_frame list \<times> js_frame list \<times> ('h, 'b, 'm) js_run) outcome" where
  "symbolicate_js_stacktrace sv lib order with_context raws r =
     (let raws = (if order = CalleeFirst then rev raws else raws)
      in map_out (\<lambda>(fs, raws, r). if order = CalleeFirst then (rev fs, rev raws, r) else (fs, raws, r))
           (js_frames_loop sv lib with_context None raws r))"

fun js_stacktraces_loop :: "('h, 'b, 'm) js_services \<Rightarrow> 'm js_libs \<Rightarrow> frame_order \<Rightarrow> bool \<Rightarrow> js_frame list list
    \<Rightarrow> ('h, 'b, 'm) js_run \<Rightarrow> (js_frame list list \<times> js_frame list list \<times> ('h, 'b, 'm) js_run) outcome" where
  "js_stacktraces_loop sv lib order with_context [] r = Ret ([], [], r)"
| "js_stacktraces_loop sv lib order with_context (t # ts) r =
     bind_out (symbolicate_js_stacktrace sv lib order with_context t r) (\<lambda>(fs, raws, r).
       map_out (\<lambda>(fss, rawss, r). (fs # fss, raws # rawss, r)) (js_stacktraces_loop sv lib order with_context ts r))"

definition no_js_stats :: js_stats where
  "no_js_stats = \<lparr>st_symbolicated = (\<lambda>_. 0), st_unsymbolicated = (\<lambda>_. 0), st_num_stacktraces = 0, st_missing_sourcescontent = 0\<rparr>"

text \<open>The response, the counters that are submitted, and the statistics of the frames.\<close>

definition symbolicate_js :: "('h, 'b, 'm) js_services \<Rightarrow> 'm js_libs \<Rightarrow> nat option \<Rightarrow> bundle_file_cache \<Rightarrow> api_cache
    \<Rightarrow> js_request \<Rightarrow> (js_response \<times> submitted list \<times> js_stats) outcome" where
  "symbolicate_js sv lib max_sources_size files_in_bundles api req =
     (let l = source_map_lookup_new sv max_sources_size files_in_bundles api req;
          (raws, mods) = prepare_modules (jr_stacktraces req) (sl_modules l);
          r = \<lparr>run_lookup = l\<lparr>sl_modules := mods\<rparr>, run_errors = [], run_stats = no_js_stats\<rparr>
      in map_out (\<lambda>(fs, raws, r).
           (\<lparr>js_stacktraces = fs, js_raw_stacktraces = raws, js_errors = run_errors r,
              js_scraping_attempts = into_scraping_attempts (run_lookup r)\<rparr>,
            submit (af_metrics (sl_fetcher (run_lookup r))),
            (run_stats r)\<lparr>st_num_stacktraces := length fs\<rparr>))
         (js_stacktraces_loop sv lib (jr_frame_order req) (jr_apply_source_context req) raws r))"

end
