(* ===== verification/JsLookupCorrect.thy ===== *)
theory JsLookupCorrect
  imports JsSymbolication
begin

text \<open>
  What the lookup of JavaScript files keeps: the funnel of its counters, the sorted bundles, the
  budget for retained sources, the order of the lookups, and its independence of web pages that
  must not be scraped.
\<close>

section \<open>The invariant of a request\<close>

text \<open>
  A file of the Sentry source of the request: the credentials of the source are only sent to URLs
  below the URL of the source.
\<close>

definition from_source :: "sentry_source_config \<Rightarrow> js_remote_file \<Rightarrow> bool" where
  "from_source src f = (case f of
      JsSentry source use_credentials _ url \<Rightarrow> source = src \<and> use_credentials = starts_with url (se_url src)
    | JsHttp _ _ _ \<Rightarrow> False)"

definition sentry_artifacts :: "('h, 'b) artifact_fetcher \<Rightarrow> bool" where
  "sentry_artifacts s \<longleftrightarrow> (\<forall>p a. af_artifacts s p = Some a \<longrightarrow> from_source (af_source s) (ia_remote_file a))"

text \<open>Files answered from bundles and artifacts.\<close>

definition served :: "js_metrics \<Rightarrow> nat" where
  "served m = total via_bundle m + m FetchedArtifacts"

text \<open>
  The invariant with the files (\<open>n\<close>) and API requests (\<open>k\<close>) that are still allowed for the files
  counted as needed (\<open>N\<close>), and with the remaining budget (\<open>B\<close>).
\<close>

definition fetcher_inv :: "sentry_source_config \<times> scraping_config \<Rightarrow> nat \<Rightarrow> nat \<Rightarrow> nat \<Rightarrow> nat \<Rightarrow> ('h, 'b) artifact_fetcher \<Rightarrow> bool" where
  "fetcher_inv cfg N B n k s \<longleftrightarrow>
     (af_source s, af_scraping s) = cfg \<and> af_metrics s NeededFiles = N \<and> af_budget s = B \<and> sentry_artifacts s
     \<and> sorted (map fst (af_bundles s)) \<and> distinct (map fst (af_bundles s))
     \<and> af_metrics s FetchedBundles = length (af_bundles s)
     \<and> total via_bundle (af_metrics s) = total bundles_by_method (af_metrics s)
     \<and> total via_scraping (af_metrics s) \<le> af_metrics s ScrapedFiles
     \<and> served (af_metrics s) + af_metrics s ScrapedFiles + n \<le> N
     \<and> af_metrics s ApiRequests + k \<le> N"

lemma fetcher_inv_weaken: "fetcher_inv cfg N B n k s \<Longrightarrow> n' \<le> n \<Longrightarrow> k' \<le> k \<Longrightarrow> fetcher_inv cfg N B n' k' s"
  by (auto simp: fetcher_inv_def)

definition slack :: "'a option \<Rightarrow> nat" where
  "slack r = (case r of None \<Rightarrow> 1 | Some _ \<Rightarrow> 0)"

lemma slack_simps [simp]: "slack None = 1" "slack (Some x) = 0"
  by (simp_all add: slack_def)

lemma totals_incr:
  "c \<notin> set via_bundle \<Longrightarrow> total via_bundle (incr c m) = total via_bundle m"
  "c \<notin> set bundles_by_method \<Longrightarrow> total bundles_by_method (incr c m) = total bundles_by_method m"
  "c \<notin> set via_scraping \<Longrightarrow> total via_scraping (incr c m) = total via_scraping m"
  using distinct_totals by (simp_all add: total_incr)

lemma plain_counter:
  assumes "c \<in> {NeededFiles, ApiRequests, QueriedArtifacts, FetchedArtifacts, QueriedBundles, ScrapedFiles, FetchedBundles, SourcemapNotNeeded}"
  shows "c \<notin> set via_bundle" "c \<notin> set bundles_by_method" "c \<notin> set via_scraping"
  using assms by (auto simp: via_bundle_def bundles_by_method_def via_scraping_def)

lemmas plain_totals = totals_incr(1)[OF plain_counter(1)] totals_incr(2)[OF plain_counter(2)] totals_incr(3)[OF plain_counter(3)]

lemma incr_other [simp]: "d \<noteq> c \<Longrightarrow> incr c m d = m d"
  by simp

lemma found_plain:
  assumes "c \<in> {NeededFiles, ApiRequests, QueriedArtifacts, FetchedArtifacts, QueriedBundles, ScrapedFiles, FetchedBundles, SourcemapNotNeeded}"
  shows "record_file_found_in_bundle t f b h m c = m c" "record_file_scraped t h m c = m c" "record_not_found t h m c = m c"
proof -
  have "c \<noteq> found_counter t f b h" "c \<noteq> bundle_counter b"
    using plain_counter(1,2)[OF assms] found_counter_cases[of t f b h] bundle_counter_cases[of b] by metis+
  then show "record_file_found_in_bundle t f b h m c = m c" by (simp add: record_file_found_in_bundle_def)
  show "record_file_scraped t h m c = m c" "record_not_found t h m c = m c"
    using assms by (cases t; cases h; auto simp: record_file_scraped_def record_not_found_def)+
qed

lemmas counting = plain_totals found_plain total_found total_scraped total_not_found served_def

lemma found_inv:
  assumes "fetcher_inv cfg N B 1 k s"
  shows "fetcher_inv cfg N B 0 k (s\<lparr>af_metrics := record_file_found_in_bundle t f b h (af_metrics s), af_files_in_bundles := c\<rparr>)"
    and "fetcher_inv cfg N B 0 k (s\<lparr>af_metrics := record_file_found_in_bundle t f b h (af_metrics s)\<rparr>)"
  using assms by (auto simp: fetcher_inv_def counting sentry_artifacts_def)

lemma attempt_inv [simp]: "fetcher_inv cfg N B n k (push_attempt u r s) = fetcher_inv cfg N B n k s"
  by (simp add: fetcher_inv_def push_attempt_def sentry_artifacts_def)

lemma not_attempted_inv [simp]: "fetcher_inv cfg N B n k (not_attempted key s) = fetcher_inv cfg N B n k s"
  by (simp add: not_attempted_def split: option.splits)

section \<open>Every lookup keeps it\<close>

lemma cached_inv:
  assumes "fetcher_inv cfg N B 1 k s"
  shows "fetcher_inv cfg N B (slack (fst (try_get_file_from_bundles_cached key s))) k (snd (try_get_file_from_bundles_cached key s))"
  using assms found_inv(2)[OF assms] fetcher_inv_weaken[OF assms, of 0 k]
  unfolding try_get_file_from_bundles_cached_def
  by (auto split: option.splits prod.splits sum.splits)

lemma by_debug_id_inv:
  assumes "fetcher_inv cfg N B 1 k s"
  shows "fetcher_inv cfg N B (slack (fst (try_get_file_from_bundles_by_debug_id sv key s))) k (snd (try_get_file_from_bundles_by_debug_id sv key s))"
  using assms found_inv(1)[OF assms]
  unfolding try_get_file_from_bundles_by_debug_id_def
  by (auto simp: Let_def split: option.splits prod.splits)

lemma by_path_inv:
  assumes "fetcher_inv cfg N B 1 k s"
  shows "fetcher_inv cfg N B (slack (fst (try_get_file_from_bundles_by_path sv key s))) k (snd (try_get_file_from_bundles_by_path sv key s))"
  using assms found_inv(1)[OF assms]
  unfolding try_get_file_from_bundles_by_path_def
  by (auto simp: Let_def split: option.splits prod.splits)

lemma count_inv:
  "fetcher_inv cfg N B n k s \<Longrightarrow> fetcher_inv cfg (Suc N) B (Suc n) (Suc k) (count NeededFiles s)"
  "fetcher_inv cfg N B (Suc n) k s \<Longrightarrow> fetcher_inv cfg N B n k (count FetchedArtifacts s)"
  "fetcher_inv cfg N B (Suc n) k s \<Longrightarrow> fetcher_inv cfg N B n k (count ScrapedFiles s)"
  "fetcher_inv cfg N B n (Suc k) s \<Longrightarrow> fetcher_inv cfg N B n k (count ApiRequests s)"
  "fetcher_inv cfg N B n k s \<Longrightarrow> fetcher_inv cfg N B n k (count QueriedArtifacts s)"
  "fetcher_inv cfg N B n k s \<Longrightarrow> fetcher_inv cfg N B n k (count QueriedBundles s)"
  by (auto simp: fetcher_inv_def count_def counting sentry_artifacts_def)

lemma artifacts_inv:
  assumes "fetcher_inv cfg N B 1 k s"
  shows "fetcher_inv cfg N B (slack (fst (try_fetch_file_from_artifacts sv key s))) k (snd (try_fetch_file_from_artifacts sv key s))"
  using assms count_inv(2)[of cfg N B 0 k s]
  unfolding try_fetch_file_from_artifacts_def
  by (auto simp: Let_def split: option.splits)

lemma insort_bundle:
  assumes "sorted (map fst bs)" "distinct (map fst bs)" "map_of bs uri = None"
  shows "sorted (map fst (insort_key fst (uri, b) bs))" "distinct (map fst (insort_key fst (uri, b) bs))"
    "length (insort_key fst (uri, b) bs) = Suc (length bs)"
proof -
  show "sorted (map fst (insort_key fst (uri, b) bs))" using assms(1) by (simp add: sorted_insort_key)
  have "distinct (map fst (insort_key fst (uri, b) bs)) = (uri \<notin> fst ` set bs \<and> distinct (map fst bs))"
    by (induction bs) (auto simp: set_insort_key)
  then show "distinct (map fst (insort_key fst (uri, b) bs))" using assms(2,3) by (simp add: map_of_eq_None_iff)
  show "length (insort_key fst (uri, b) bs) = Suc (length bs)" by simp
qed

lemma ensure_bundle_inv:
  assumes "fetcher_inv cfg N B n k s"
  shows "fetcher_inv cfg N B n k (snd (ensure_artifact_bundle sv f rw s))"
proof (cases "map_of (af_bundles s) (js_remote_uri f)")
  case None
  with assms insort_bundle[OF _ _ None] show ?thesis
    by (auto simp: ensure_artifact_bundle_def Let_def fetcher_inv_def record_bundle_fetched_def counting sentry_artifacts_def)
qed (use assms in \<open>simp add: ensure_artifact_bundle_def Let_def\<close>)

lemma add_artifact_inv:
  assumes "fetcher_inv cfg N B n k s" and "from_source (fst cfg) f"
  shows "fetcher_inv cfg N B n k (snd (add_artifact sv f p hs rw s))"
  using assms by (auto simp: add_artifact_def fetcher_inv_def sentry_artifacts_def)

definition sentry_result :: "sentry_source_config \<Rightarrow> js_lookup_result \<Rightarrow> bool" where
  "sentry_result src r = (case r of ArtifactBundle f _ \<Rightarrow> from_source src f | IndividualArtifact f _ _ _ \<Rightarrow> from_source src f)"

lemma apply_results_inv:
  "fetcher_inv cfg N B n k s \<Longrightarrow> list_all (sentry_result (fst cfg)) rs \<Longrightarrow> fetcher_inv cfg N B n k (snd (apply_results sv rs s))"
proof (induction rs arbitrary: s)
  case (Cons r rs)
  show ?case
  proof (cases r)
    case (ArtifactBundle f rw)
    obtain b s' where e: "ensure_artifact_bundle sv f rw (count QueriedBundles s) = (b, s')" by fastforce
    have "fetcher_inv cfg N B n k s'" using ensure_bundle_inv[OF count_inv(6)[OF Cons.prems(1)], of sv f rw] e by simp
    then show ?thesis using Cons.IH[of s'] Cons.prems(2) e ArtifactBundle by (auto split: prod.splits)
  next
    case (IndividualArtifact f p hs rw)
    obtain b s' where e: "add_artifact sv f p hs rw (count QueriedArtifacts s) = (b, s')" by fastforce
    have "from_source (fst cfg) f" using Cons.prems(2) IndividualArtifact by (simp add: sentry_result_def)
    then have "fetcher_inv cfg N B n k s'" using add_artifact_inv[OF count_inv(5)[OF Cons.prems(1)], of f sv p hs rw] e by simp
    then show ?thesis using Cons.IH[of s'] Cons.prems(2) e IndividualArtifact by (auto split: prod.splits)
  qed
qed simp

lemma js_result_sentry: "sentry_result source (js_result source raw)"
  by (cases raw) (simp_all add: js_result_def sentry_result_def make_remote_file_def from_source_def)

lemma lookup_results_sentry:
  "fst (lookup_js_artifacts sv source ids stems release dist cache) = Inr rs \<Longrightarrow> list_all (sentry_result source) rs"
  by (auto simp: lookup_js_artifacts_def Let_def js_result_sentry list_all_iff split: if_splits sum.splits)

lemma query_inv:
  assumes "fetcher_inv cfg N B n (Suc k) s"
  shows "fetcher_inv cfg N B n k (snd (query_sentry_for_files sv ids stems s))"
proof (cases "ids = [] \<and> (stems = [] \<or> af_release s = None)")
  case True
  then show ?thesis using fetcher_inv_weaken[OF assms] by (simp add: query_sentry_for_files_def)
next
  case False
  let ?s = "count ApiRequests s"
  obtain results api where l: "lookup_js_artifacts sv (af_source ?s) ids stems (af_release ?s) (af_dist ?s) (af_api_cache ?s) = (results, api)"
    by fastforce
  have "fetcher_inv cfg N B n k (?s\<lparr>af_api_cache := api\<rparr>)"
    using count_inv(4)[OF assms] by (simp add: fetcher_inv_def sentry_artifacts_def)
  moreover have "af_source ?s = fst cfg" using assms by (auto simp: fetcher_inv_def count_def)
  then have "results = Inr rs \<Longrightarrow> list_all (sentry_result (fst cfg)) rs" for rs
    using l lookup_results_sentry[of sv "af_source ?s" ids stems "af_release ?s" "af_dist ?s" "af_api_cache ?s"] by simp
  ultimately show ?thesis
    using apply_results_inv[of cfg N B n k "?s\<lparr>af_api_cache := api\<rparr>"]
    unfolding query_sentry_for_files_def if_not_P[OF False] Let_def l prod.case
    by (cases results) auto
qed

lemma or_else_inv:
  assumes "fetcher_inv cfg N B (slack (fst r)) k (snd r)" and "k' \<le> k"
    and "\<And>s. fetcher_inv cfg N B 1 k s \<Longrightarrow> fetcher_inv cfg N B (slack (fst (next s))) k' (snd (next s))"
  shows "fetcher_inv cfg N B (slack (fst (or_else next r))) k' (snd (or_else next r))"
  using assms by (cases r; cases "fst r") (auto simp: or_else_def intro: fetcher_inv_weaken)

lemma query_then_inv:
  assumes "fetcher_inv cfg N B 1 (Suc k) s"
    and "\<And>s. fetcher_inv cfg N B 1 k s \<Longrightarrow> fetcher_inv cfg N B (slack (fst (next s))) k (snd (next s))"
  shows "fetcher_inv cfg N B (slack (fst (case query_sentry_for_file sv key s of (True, s) \<Rightarrow> next s | (False, s) \<Rightarrow> (None, s)))) k
      (snd (case query_sentry_for_file sv key s of (True, s) \<Rightarrow> next s | (False, s) \<Rightarrow> (None, s)))"
proof -
  obtain b s' where q: "query_sentry_for_file sv key s = (b, s')" by fastforce
  have "fetcher_inv cfg N B 1 k s'" using query_inv[OF assms(1)] q unfolding query_sentry_for_file_def by (metis snd_conv)
  then show ?thesis using assms(2) q by (cases b) auto
qed

lemma with_debug_id_inv:
  assumes "fetcher_inv cfg N B 1 1 s"
  shows "fetcher_inv cfg N B (slack (fst (try_get_file_with_debug_id sv key s))) 0 (snd (try_get_file_with_debug_id sv key s))"
  unfolding try_get_file_with_debug_id_def
  by (rule or_else_inv[where k = 0], rule or_else_inv[where k = 0], rule or_else_inv[where k = 1],
      rule by_debug_id_inv[OF assms], simp, rule query_then_inv, simp, rule by_debug_id_inv, assumption,
      simp, rule by_path_inv, assumption, simp, rule artifacts_inv)

lemma without_debug_id_inv:
  assumes "fetcher_inv cfg N B 1 1 s"
  shows "fetcher_inv cfg N B (slack (fst (try_get_file_without_debug_id sv key s))) 0 (snd (try_get_file_without_debug_id sv key s))"
  unfolding try_get_file_without_debug_id_def
  by (rule or_else_inv[where k = 1 and k' = 0], rule or_else_inv[where k = 1], rule by_path_inv[OF assms], simp, rule artifacts_inv, assumption, simp,
      rule query_then_inv, simp, rule or_else_inv[where k = 0], rule by_path_inv, assumption, simp, rule artifacts_inv)

lemma scraped_inv: "fetcher_inv cfg N B n k s \<Longrightarrow> af_metrics s = incr ScrapedFiles m \<Longrightarrow> total via_scraping m \<le> m ScrapedFiles \<Longrightarrow>
  fetcher_inv cfg N B n k (s\<lparr>af_metrics := record_file_scraped t h (af_metrics s)\<rparr>)"
  by (auto simp: fetcher_inv_def counting sentry_artifacts_def)

lemma scrape_inv:
  assumes "fetcher_inv cfg N B 1 k s"
  shows "fetcher_inv cfg N B 0 k (snd (scrape sv key s))"
proof -
  have c: "fetcher_inv cfg N B 0 k (count ScrapedFiles s)" using count_inv(3)[of cfg N B 0 k s] assms by simp
  have "total via_scraping (af_metrics s) \<le> af_metrics s ScrapedFiles" using assms by (simp add: fetcher_inv_def)
  then have "fetcher_inv cfg N B 0 k ((count ScrapedFiles s)\<lparr>af_metrics := record_file_scraped t h (af_metrics (count ScrapedFiles s))\<rparr>)" for t h
    by (intro scraped_inv[OF c]) (simp_all add: count_def)
  with c fetcher_inv_weaken[OF assms, of 0 k] show ?thesis
    unfolding scrape_def by (auto simp: Let_def split: option.splits sum.splits prod.splits)
qed

lemma get_file_inv:
  assumes "fetcher_inv cfg N B 0 0 s"
  shows "fetcher_inv cfg (Suc N) B 0 0 (snd (get_file sv key s))"
proof -
  have c: "fetcher_inv cfg (Suc N) B 1 1 (count NeededFiles s)" using count_inv(1)[OF assms] by simp
  obtain o1 s1 where e1: "try_get_file_from_bundles_cached key (count NeededFiles s) = (o1, s1)" by fastforce
  have i1: "fetcher_inv cfg (Suc N) B (slack o1) 1 s1" using cached_inv[OF c, of key] e1 by simp
  show ?thesis
  proof (cases o1)
    case (Some e)
    then show ?thesis using e1 fetcher_inv_weaken[OF i1, of 0 0] by (simp add: get_file_def)
  next
    case None
    with i1 have i1: "fetcher_inv cfg (Suc N) B 1 1 s1" by simp
    obtain o2 s2 where e2: "(if key_debug_id key \<noteq> None then try_get_file_with_debug_id sv key s1 else try_get_file_without_debug_id sv key s1) = (o2, s2)"
      by fastforce
    have i2: "fetcher_inv cfg (Suc N) B (slack o2) 0 s2"
      using with_debug_id_inv[OF i1, of sv key] without_debug_id_inv[OF i1, of sv key] e2 by (metis fst_conv snd_conv)
    then show ?thesis using e1 None e2 scrape_inv[of cfg "Suc N" B 0 s2 sv key] unfolding get_file_def
      by (cases o2) auto
  qed
qed

section \<open>The budget of a request\<close>

definition entry_size :: "cached_file cached_file_entry \<Rightarrow> nat" where
  "entry_size e = (case ce_entry e of Inl _ \<Rightarrow> 0 | Inr f \<Rightarrow> length (file_contents f))"

lemma entry_size_empty [simp]: "entry_size empty_entry = 0"
  by (simp add: entry_size_def empty_entry_def)

lemma apply_budget_inv:
  assumes "fetcher_inv cfg N B 0 0 s" and "apply_sources_budget e s = (e', s')"
  shows "fetcher_inv cfg N (B - entry_size e') 0 0 s'" "entry_size e' \<le> B"
  using assms by (auto simp: apply_sources_budget_def entry_size_def fetcher_inv_def sentry_artifacts_def Let_def split: sum.splits if_splits)

lemma not_found_inv [simp]:
  "fetcher_inv cfg N B n k (s\<lparr>af_metrics := record_not_found t h (af_metrics s)\<rparr>) = fetcher_inv cfg N B n k s"
  "fetcher_inv cfg N B n k (s\<lparr>af_metrics := record_sourcemap_not_needed (af_metrics s)\<rparr>) = fetcher_inv cfg N B n k s"
  by (auto simp: fetcher_inv_def counting sentry_artifacts_def record_sourcemap_not_needed_def)

lemma sourcemap_fetched_inv:
  assumes "fetcher_inv cfg N B 0 0 s"
    and "(case sourcemap_url of
             Some (Data d) \<Rightarrow> (e d, s)
           | Some (Remote url) \<Rightarrow> get_file sv (SourceMap (Some url) i) s
           | None \<Rightarrow> get_file sv (SourceMap None i) s) = (sourcemap, s')"
  shows "\<exists>N'. N' \<le> Suc N \<and> fetcher_inv cfg N' B 0 0 s'"
proof (cases sourcemap_url)
  case None
  then have "s' = snd (get_file sv (SourceMap None i) s)" using assms(2) by simp
  then show ?thesis using get_file_inv[OF assms(1)] by blast
next
  case (Some u)
  show ?thesis
  proof (cases u)
    case (Data d)
    then have "s' = s" using Some assms(2) by simp
    then show ?thesis using assms(1) by (intro exI[of _ N]) simp
  next
    case (Remote url)
    then have "s' = snd (get_file sv (SourceMap (Some url) i) s)" using Some assms(2) by simp
    then show ?thesis using get_file_inv[OF assms(1)] by blast
  qed
qed

lemma fetch_minified_inv:
  assumes "fetcher_inv cfg N B 0 0 s" and "fetch_minified_and_sourcemap sv p d s = ((minified, smcache), s')"
  shows "\<exists>N'. N' \<le> N + 2 \<and> fetcher_inv cfg N' (B - entry_size minified) 0 0 s'" "entry_size minified \<le> B"
proof -
  obtain m0 s0 where g: "get_file sv (MinifiedSource p d) s = (m0, s0)" by fastforce
  have i0: "fetcher_inv cfg (Suc N) B 0 0 s0" using get_file_inv[OF assms(1)] g by (metis snd_conv)
  define s1 where "s1 = (case ce_entry m0 of
                 Inl _ \<Rightarrow> s0\<lparr>af_metrics := record_not_found FtSource (d \<noteq> None) (af_metrics s0)\<rparr>
               | Inr _ \<Rightarrow> s0)"
  have i1: "fetcher_inv cfg (Suc N) B 0 0 s1" using i0 unfolding s1_def by (simp split: sum.splits)
  obtain m s2 where b: "apply_sources_budget m0 s1 = (m, s2)" by fastforce
  note i2 = apply_budget_inv[OF i1 b]
  have m: "m = minified" and "\<exists>N'. N' \<le> N + 2 \<and> fetcher_inv cfg N' (B - entry_size m) 0 0 s'"
  proof -
    let ?url = "case ce_entry m of Inr f \<Rightarrow> cf_sourcemap_url f | Inl _ \<Rightarrow> None"
    let ?id = "case d of Some d \<Rightarrow> Some d | None \<Rightarrow> (case ce_entry m of Inr f \<Rightarrow> cf_debug_id f | Inl _ \<Rightarrow> None)"
    have split: "(case ce_entry m of Inr f \<Rightarrow> (cf_sourcemap_url f, cf_debug_id f) | Inl _ \<Rightarrow> (None, None))
        = (?url, case ce_entry m of Inr f \<Rightarrow> cf_debug_id f | Inl _ \<Rightarrow> None)" by (simp split: sum.splits)
    let ?sm = "case ?url of
             Some (Data dt) \<Rightarrow> (\<lparr>ce_uri = Embedded,
                 ce_entry = Inr \<lparr>cf_contents = Some dt, cf_sourcemap_url = None, cf_debug_id = ?id\<rparr>,
                 ce_resolved_with = ce_resolved_with m\<rparr>, s2)
           | Some (Remote url) \<Rightarrow> get_file sv (SourceMap (Some url) ?id) s2
           | None \<Rightarrow> get_file sv (SourceMap None ?id) s2"
    obtain sm s3 where sm: "?sm = (sm, s3)" by fastforce
    obtain N' where N': "N' \<le> Suc (Suc N)" "fetcher_inv cfg N' (B - entry_size m) 0 0 s3"
      using sourcemap_fetched_inv[OF i2(1) sm] by blast
    note run = assms(2)[unfolded fetch_minified_and_sourcemap_def g Let_def prod.case s1_def[symmetric] b split sm]
    show "m = minified" using run by (auto split: if_splits)
    have "s' = s2 \<or> s' = s2\<lparr>af_metrics := record_sourcemap_not_needed (af_metrics s2)\<rparr>
        \<or> s' = s3 \<or> s' = s3\<lparr>af_metrics := record_sourcemap_not_needed (af_metrics s3)\<rparr>
        \<or> (\<exists>t h. s' = s3\<lparr>af_metrics := record_not_found t h (af_metrics s3)\<rparr>)"
      using run by (auto split: if_splits sum.splits)
    then show "\<exists>N'. N' \<le> N + 2 \<and> fetcher_inv cfg N' (B - entry_size m) 0 0 s'"
    proof (elim disjE exE)
      assume "s' = s2" then show ?thesis using i2(1) by (intro exI[of _ "Suc N"]) simp
    next
      assume "s' = s2\<lparr>af_metrics := record_sourcemap_not_needed (af_metrics s2)\<rparr>"
      then show ?thesis using i2(1) by (intro exI[of _ "Suc N"]) simp
    next
      assume "s' = s3" then show ?thesis using N' by (intro exI[of _ N']) simp
    next
      assume "s' = s3\<lparr>af_metrics := record_sourcemap_not_needed (af_metrics s3)\<rparr>"
      then show ?thesis using N' by (intro exI[of _ N']) simp
    next
      fix t h assume "s' = s3\<lparr>af_metrics := record_not_found t h (af_metrics s3)\<rparr>"
      then show ?thesis using N' by (intro exI[of _ N']) simp
    qed
  qed
  then show "\<exists>N'. N' \<le> N + 2 \<and> fetcher_inv cfg N' (B - entry_size minified) 0 0 s'" "entry_size minified \<le> B"
    using i2(2) by simp_all
qed

section \<open>The modules and sources of a request\<close>

definition retained_by :: "('v \<Rightarrow> nat) \<Rightarrow> ('k \<rightharpoonup> 'v) \<Rightarrow> nat" where
  "retained_by f m = (\<Sum>k\<in>dom m. f (the (m k)))"

text \<open>The bytes of source text that the lookup holds.\<close>

definition retained :: "('h, 'b, 'm) source_map_lookup \<Rightarrow> nat" where
  "retained l = retained_by (\<lambda>m. entry_size (mo_minified_source m)) (sl_modules l) + retained_by entry_size (sl_files l)"

definition fetched_modules :: "('h, 'b, 'm) source_map_lookup \<Rightarrow> string set" where
  "fetched_modules l = {p. \<exists>m. sl_modules l p = Some m \<and> mo_was_fetched m}"

definition module_ok :: "string \<Rightarrow> 'm source_map_module \<Rightarrow> bool" where
  "module_ok p m \<longleftrightarrow> mo_abs_path m = p \<and> (mo_was_fetched m \<or> entry_size (mo_minified_source m) = 0)"

definition lookup_inv :: "sentry_source_config \<times> scraping_config \<Rightarrow> nat \<Rightarrow> ('h, 'b, 'm) source_map_lookup \<Rightarrow> bool" where
  "lookup_inv cfg budget l \<longleftrightarrow> finite (dom (sl_modules l)) \<and> finite (dom (sl_files l))
     \<and> (\<forall>p m. sl_modules l p = Some m \<longrightarrow> module_ok p m)
     \<and> (\<exists>N B. fetcher_inv cfg N B 0 0 (sl_fetcher l) \<and> retained l + B = budget
           \<and> N \<le> 2 * card (fetched_modules l) + card (dom (sl_files l)))"

lemma retained_update:
  assumes "finite (dom m)" and "case m k of None \<Rightarrow> True | Some v \<Rightarrow> f v = 0"
  shows "retained_by f (m(k \<mapsto> v)) = retained_by f m + f v"
proof -
  have "retained_by f (m(k \<mapsto> v)) = f v + (\<Sum>q\<in>dom m - {k}. f (the ((m(k \<mapsto> v)) q)))"
    unfolding retained_by_def using assms(1) by (simp add: sum.insert_remove)
  also have "(\<Sum>q\<in>dom m - {k}. f (the ((m(k \<mapsto> v)) q))) = (\<Sum>q\<in>dom m - {k}. f (the (m q)))"
    by (rule sum.cong) auto
  also have "\<dots> = retained_by f m"
  proof (cases "m k")
    case (Some w)
    then have "k \<in> dom m" "f (the (m k)) = 0" using assms(2) by auto
    then show ?thesis unfolding retained_by_def using sum.remove[OF assms(1) \<open>k \<in> dom m\<close>, of "\<lambda>q. f (the (m q))"] by simp
  next
    case None
    then have "dom m - {k} = dom m" by auto
    then show ?thesis by (simp add: retained_by_def)
  qed
  finally show ?thesis by (simp only: add.commute)
qed

lemma new_module_ok [simp]: "module_ok p (source_map_module_new p d)"
  by (simp add: module_ok_def source_map_module_new_def)

lemma get_module_inv:
  assumes "lookup_inv cfg budget l"
  shows "lookup_inv cfg budget (snd (get_module sv p l)) \<and> mo_was_fetched (fst (get_module sv p l))
    \<and> sl_modules (snd (get_module sv p l)) p = Some (fst (get_module sv p l))"
proof -
  define m where "m = (case sl_modules l p of Some m \<Rightarrow> m | None \<Rightarrow> source_map_module_new p None)"
  have ok: "module_ok p m" using assms by (auto simp: m_def lookup_inv_def split: option.splits)
  have stored: "sl_modules l p = Some m" if "mo_was_fetched m"
    using that by (auto simp: m_def source_map_module_new_def split: option.splits)
  show ?thesis
  proof (cases "mo_was_fetched m")
    case True
    then have "(sl_modules l)(p \<mapsto> m) = sl_modules l" using stored by (auto simp: fun_upd_idem)
    then have "get_module sv p l = (m, l)" using True by (simp add: get_module_def m_def[symmetric] Let_def)
    then show ?thesis using True assms stored by simp
  next
    case False
    obtain minified smcache s where f: "fetch_minified_and_sourcemap sv (mo_abs_path m) (mo_debug_id m) (sl_fetcher l) = ((minified, smcache), s)"
      by (metis surj_pair)
    define m' where "m' = m\<lparr>mo_was_fetched := True, mo_source_file_base := Some (source_base (mo_abs_path m) minified),
                      mo_minified_source := minified, mo_smcache := smcache\<rparr>"
    define l' where "l' = l\<lparr>sl_modules := (sl_modules l)(p \<mapsto> m'), sl_fetcher := s\<rparr>"
    have g: "get_module sv p l = (m', l')"
      using False f by (simp add: get_module_def m_def[symmetric] Let_def m'_def l'_def)
    from assms obtain N B where inv: "fetcher_inv cfg N B 0 0 (sl_fetcher l)" "retained l + B = budget"
        "N \<le> 2 * card (fetched_modules l) + card (dom (sl_files l))"
      and fin: "finite (dom (sl_modules l))" "finite (dom (sl_files l))"
      and mods: "\<And>q x. sl_modules l q = Some x \<Longrightarrow> module_ok q x"
      unfolding lookup_inv_def by blast
    obtain N' where N': "N' \<le> N + 2" "fetcher_inv cfg N' (B - entry_size minified) 0 0 s" and B: "entry_size minified \<le> B"
      using fetch_minified_inv[OF inv(1) f] by blast
    have zero: "case sl_modules l p of None \<Rightarrow> True | Some v \<Rightarrow> entry_size (mo_minified_source v) = 0"
      using False ok by (auto simp: m_def module_ok_def split: option.splits)
    have ret: "retained l' = retained l + entry_size minified"
      using retained_update[OF fin(1) zero, where v = m'] by (simp add: retained_def l'_def m'_def)
    have notin: "p \<notin> fetched_modules l" using False by (auto simp: fetched_modules_def m_def)
    have fm: "fetched_modules l' = insert p (fetched_modules l)"
      by (auto simp: fetched_modules_def l'_def m'_def)
    have "finite (fetched_modules l)" by (rule finite_subset[OF _ fin(1)]) (auto simp: fetched_modules_def)
    then have card: "card (fetched_modules l') = Suc (card (fetched_modules l))" using notin fm by simp
    have "lookup_inv cfg budget l'"
      unfolding lookup_inv_def
    proof (intro conjI allI impI exI)
      show "finite (dom (sl_modules l'))" "finite (dom (sl_files l'))" using fin by (simp_all add: l'_def)
      show "module_ok q x" if "sl_modules l' q = Some x" for q x
        using that mods ok by (auto simp: l'_def m'_def module_ok_def split: if_splits)
      show "fetcher_inv cfg N' (B - entry_size minified) 0 0 (sl_fetcher l')" using N'(2) by (simp add: l'_def)
      show "retained l' + (B - entry_size minified) = budget" using ret inv(2) B by simp
      show "N' \<le> 2 * card (fetched_modules l') + card (dom (sl_files l'))" using N'(1) inv(3) card by (simp add: l'_def)
    qed
    then show ?thesis using g by (simp add: m'_def l'_def)
  qed
qed

lemma get_source_file_inv:
  assumes "lookup_inv cfg budget l"
  shows "lookup_inv cfg budget (snd (get_source_file sv key l))"
proof (cases "sl_files l key")
  case None
  obtain e s where g: "get_file sv key (sl_fetcher l) = (e, s)" by fastforce
  obtain e' s' where b: "apply_sources_budget e s = (e', s')" by fastforce
  define l' where "l' = l\<lparr>sl_files := (sl_files l)(key \<mapsto> e'), sl_fetcher := s'\<rparr>"
  have l': "snd (get_source_file sv key l) = l'" using None g b by (simp add: get_source_file_def Let_def l'_def)
  from assms obtain N B where inv: "fetcher_inv cfg N B 0 0 (sl_fetcher l)" "retained l + B = budget"
      "N \<le> 2 * card (fetched_modules l) + card (dom (sl_files l))"
    and fin: "finite (dom (sl_modules l))" "finite (dom (sl_files l))"
    and mods: "\<forall>p m. sl_modules l p = Some m \<longrightarrow> module_ok p m"
    unfolding lookup_inv_def by blast
  have i: "fetcher_inv cfg (Suc N) B 0 0 s" using get_file_inv[OF inv(1), of sv key] g by simp
  note bi = apply_budget_inv[OF i b]
  have ret: "retained l' = retained l + entry_size e'"
    using retained_update[OF fin(2), where k = key and f = entry_size and v = e'] None by (simp add: retained_def l'_def)
  have card: "card (dom (sl_files l')) = Suc (card (dom (sl_files l)))"
    using fin(2) None by (simp add: l'_def card_insert_if domIff)
  have "lookup_inv cfg budget l'"
    unfolding lookup_inv_def
  proof (intro conjI exI)
    show "finite (dom (sl_modules l'))" "finite (dom (sl_files l'))" using fin by (simp_all add: l'_def)
    show "\<forall>p m. sl_modules l' p = Some m \<longrightarrow> module_ok p m" using mods by (simp add: l'_def)
    show "fetcher_inv cfg (Suc N) (B - entry_size e') 0 0 (sl_fetcher l')" using bi(1) by (simp add: l'_def)
    show "retained l' + (B - entry_size e') = budget" using ret inv(2) bi(2) by simp
    show "Suc N \<le> 2 * card (fetched_modules l') + card (dom (sl_files l'))"
      using inv(3) card by (simp add: l'_def fetched_modules_def)
  qed
  with l' show ?thesis by simp
qed (use assms in \<open>simp add: get_source_file_def\<close>)

end
