(* ===== verification/JsSymbolicationCorrect.thy ===== *)
theory JsSymbolicationCorrect
  imports JsLookupCorrect
begin

text \<open>
  What symbolicating JavaScript stack traces keeps: the invariants of the lookup through a whole
  request, every frame in its place, and no minified source context on an unminified frame.
\<close>

section \<open>Clients of the lookup\<close>

lemma traced: "bind_out (trace_module lib m) (\<lambda>_. x) = Ret y \<Longrightarrow> x = Ret y"
  by (auto simp: bind_out_eq_Ret)

text \<open>Symbolication changes the lookup only by fetching modules and source files.\<close>

locale lookup_client =
  fixes sv :: "('h, 'b, 'm) js_services" and P :: "('h, 'b, 'm) source_map_lookup \<Rightarrow> bool"
  assumes module_keeps: "P l \<Longrightarrow> P (snd (get_module sv p l))"
    and source_keeps: "P l \<Longrightarrow> P (snd (get_source_file sv k l))"
begin

lemma source_context_keeps:
  assumes "original_source_context sv m p label t f r = Ret (f', r')" and "P (run_lookup r)"
  shows "P (run_lookup r')"
proof (cases "\<exists>tf. tk_file t = Some tf \<and> tf_source tf = None")
  case False
  then show ?thesis using assms
    by (cases "tk_file t"; cases "js_apply_source_context f (the (tf_source (the (tk_file t))))")
      (auto simp: original_source_context_def map_out_def)
next
  case True
  then obtain tf where tf: "tk_file t = Some tf" "tf_source tf = None" by blast
  show ?thesis
  proof (cases "Option.bind (tf_name tf) (source_file_key m)")
    case None
    then show ?thesis using assms tf by (auto simp: original_source_context_def Let_def add_error_def)
  next
    case (Some k)
    obtain e l where g: "get_source_file sv k (run_lookup r) = (e, l)" by fastforce
    have "P l" using source_keeps[OF assms(2), of k] g by simp
    then show ?thesis using assms(1) tf Some g
      by (cases "ce_entry e"; cases "js_apply_source_context f (file_contents (projr (ce_entry e)))")
        (auto simp: original_source_context_def Let_def add_error_def map_out_def)
  qed
qed

lemma frame_keeps:
  assumes "symbolicate_js_frame sv lib raw callsite ctx r = Ret (res, raw', r')" and "P (run_lookup r)"
  shows "P (run_lookup r')"
proof (cases "jf_lineno raw = 0")
  case True
  then show ?thesis using assms by (simp add: symbolicate_js_frame_def)
next
  case False
  obtain m l where g: "get_module sv (jf_abs_path raw) (run_lookup r) = (m, l)" by fastforce
  have l: "P l" using module_keeps[OF assms(2), of "jf_abs_path raw"] g by simp
  note run = traced[OF assms(1)[unfolded symbolicate_js_frame_def if_not_P[OF False] Let_def g prod.case]]
  show ?thesis
  proof (cases "ce_entry (mo_minified_source m)")
    case (Inl e)
    then show ?thesis using run l by auto
  next
    case (Inr mini)
    then obtain raw1 where raw1: "(if ctx then js_apply_source_context raw (file_contents mini) else Ret raw) = Ret raw1"
      using run by (cases "if ctx then js_apply_source_context raw (file_contents mini) else Ret raw") (auto simp: bind_out_def)
    note run = run[unfolded Inr sum.case raw1 bind_out_simps]
    show ?thesis
    proof (cases "mo_smcache m")
      case None
      then show ?thesis using run l by auto
    next
      case (Some sm)
      show ?thesis
      proof (cases "ce_entry sm")
        case (Inl e)
        then show ?thesis using run Some l by (cases e) auto
      next
        case (Inr c)
        show ?thesis
        proof (cases "lib_lookup lib c (jf_lineno raw - 1) (saturating_dec (case jf_colno raw of Some c \<Rightarrow> c | None \<Rightarrow> 0))")
          case None
          then show ?thesis using run Some Inr l by auto
        next
          case (Some t)
          show ?thesis
          proof (cases ctx)
            case False
            then show ?thesis using run \<open>mo_smcache m = Some sm\<close> Inr Some l by auto
          next
            case True
            then obtain f0 label where o: "map_out (\<lambda>(f, r). (Inr f, raw1, r))
                (original_source_context sv m (jf_abs_path raw) label t f0 (r\<lparr>run_lookup := l\<rparr>)) = Ret (res, raw', r')"
              using run \<open>mo_smcache m = Some sm\<close> Inr Some by auto
            then obtain f' r1 where o: "original_source_context sv m (jf_abs_path raw) label t f0 (r\<lparr>run_lookup := l\<rparr>) = Ret (f', r1)" "r1 = r'"
              by (cases "original_source_context sv m (jf_abs_path raw) label t f0 (r\<lparr>run_lookup := l\<rparr>)") (auto simp: map_out_def split: prod.splits)
            show ?thesis using source_context_keeps[OF o(1)] l o(2) by simp
          qed
        qed
      qed
    qed
  qed
qed

lemma frames_keep:
  assumes "js_frames_loop sv lib ctx callsite raws r = Ret (fs, raws', r')" and "P (run_lookup r)"
  shows "P (run_lookup r')"
  using assms
proof (induction raws arbitrary: callsite r fs raws')
  case (Cons raw raws)
  from Cons.prems(1) obtain res raw1 r1 where f: "symbolicate_js_frame sv lib raw callsite ctx r = Ret (res, raw1, r1)"
    by (cases "symbolicate_js_frame sv lib raw callsite ctx r") auto
  note P1 = frame_keeps[OF f Cons.prems(2)]
  show ?case
  proof (cases res)
    case (Inl k)
    then show ?thesis using Cons.prems(1) f P1 by (auto simp: add_error_def dest!: Cons.IH)
  next
    case (Inr x)
    then show ?thesis using Cons.prems(1) f P1 by (auto dest!: Cons.IH)
  qed
qed simp

lemma stacktraces_keep:
  assumes "js_stacktraces_loop sv lib order ctx ts r = Ret (fss, rawss, r')" and "P (run_lookup r)"
  shows "P (run_lookup r')"
  using assms
proof (induction ts arbitrary: r fss rawss)
  case (Cons t ts)
  from Cons.prems(1) obtain fs raws r1 where t: "symbolicate_js_stacktrace sv lib order ctx t r = Ret (fs, raws, r1)"
    by (cases "symbolicate_js_stacktrace sv lib order ctx t r") auto
  then have "P (run_lookup r1)"
    using Cons.prems(2) frames_keep unfolding symbolicate_js_stacktrace_def Let_def by (force split: if_splits)
  then show ?case using Cons.prems(1) t by (auto dest!: Cons.IH)
qed simp

end

interpretation bounded: lookup_client sv "lookup_inv cfg budget" for sv cfg budget
  using get_module_inv get_source_file_inv by unfold_locales blast+

section \<open>The bounds of a request\<close>

definition unfetched :: "(string \<rightharpoonup> 'm source_map_module) \<Rightarrow> bool" where
  "unfetched mods \<longleftrightarrow> finite (dom mods) \<and> (\<forall>p m. mods p = Some m \<longrightarrow> mo_abs_path m = p \<and> entry_size (mo_minified_source m) = 0 \<and> \<not> mo_was_fetched m)"

lemma unfetched_insert: "unfetched mods \<Longrightarrow> unfetched (mods(p \<mapsto> source_map_module_new p d))"
  unfolding unfetched_def by (simp add: source_map_module_new_def module_ok_def)

lemma insert_modules_unfetched: "unfetched mods \<Longrightarrow> unfetched (fold (insert_module sv) ms mods)"
  by (induction ms arbitrary: mods) (simp_all add: insert_module_def unfetched_insert)

lemma prepare_frame_unfetched: "unfetched mods \<Longrightarrow> unfetched (snd (prepare_frame f mods))"
  unfolding prepare_frame_def Let_def by (simp add: unfetched_insert)

lemma prepare_frames_unfetched: "unfetched mods \<Longrightarrow> unfetched (snd (prepare_frames fs mods))"
proof (induction fs arbitrary: mods)
  case (Cons f fs)
  obtain f' m' where f: "prepare_frame f mods = (f', m')" by fastforce
  have "unfetched m'" using prepare_frame_unfetched[OF Cons.prems, of f] f by simp
  then show ?case using Cons.IH[of m'] f by (auto simp: Let_def split: prod.splits)
qed simp

lemma prepare_modules_unfetched: "unfetched mods \<Longrightarrow> unfetched (snd (prepare_modules ts mods))"
proof (induction ts arbitrary: mods)
  case (Cons t ts)
  obtain t' m' where t: "prepare_frames t mods = (t', m')" by fastforce
  have "unfetched m'" using prepare_frames_unfetched[OF Cons.prems, of t] t by simp
  then show ?case using Cons.IH[of m'] t by (auto simp: Let_def split: prod.splits)
qed simp

lemma unfetched_retained: "unfetched mods \<Longrightarrow> retained_by (\<lambda>m. entry_size (mo_minified_source m)) mods = 0"
  unfolding retained_by_def unfetched_def by (rule sum.neutral) auto

text \<open>The lookup with which the frames of a request are symbolicated.\<close>

definition prepared_lookup :: "('h, 'b, 'm) js_services \<Rightarrow> nat option \<Rightarrow> bundle_file_cache \<Rightarrow> api_cache \<Rightarrow> js_request
    \<Rightarrow> ('h, 'b, 'm) source_map_lookup" where
  "prepared_lookup sv max_sources_size fb api req =
     (let l = source_map_lookup_new sv max_sources_size fb api req
      in l\<lparr>sl_modules := snd (prepare_modules (jr_stacktraces req) (sl_modules l))\<rparr>)"

definition sources_budget :: "nat option \<Rightarrow> nat" where
  "sources_budget n = (case n of Some n \<Rightarrow> n | None \<Rightarrow> 2 ^ 64 - 1)"

lemma new_modules_unfetched: "unfetched (sl_modules (source_map_lookup_new sv n fb api req))"
  using insert_modules_unfetched[of Map.empty sv "jr_modules req"] by (simp add: source_map_lookup_new_def unfetched_def)

lemma prepared_inv: "lookup_inv (jr_source req, jr_scraping req) (sources_budget n) (prepared_lookup sv n fb api req)"
proof -
  let ?l = "prepared_lookup sv n fb api req"
  have u: "unfetched (sl_modules ?l)"
    using prepare_modules_unfetched[OF new_modules_unfetched[of sv n fb api req]] by (simp add: prepared_lookup_def Let_def)
  have "fetcher_inv (jr_source req, jr_scraping req) 0 (sources_budget n) 0 0 (sl_fetcher ?l)"
    by (simp add: prepared_lookup_def source_map_lookup_new_def Let_def fetcher_inv_def sentry_artifacts_def total_def
        via_bundle_def bundles_by_method_def via_scraping_def served_def sources_budget_def)
  moreover have "retained ?l = 0"
  proof -
    have "sl_files ?l = Map.empty" by (simp add: prepared_lookup_def source_map_lookup_new_def Let_def)
    then show ?thesis using unfetched_retained[OF u] by (simp add: retained_def retained_by_def)
  qed
  ultimately show ?thesis
    using u unfolding lookup_inv_def unfetched_def module_ok_def by (auto simp: prepared_lookup_def source_map_lookup_new_def Let_def)
qed

lemma prepared_run:
  "symbolicate_js sv lib n fb api req =
     map_out (\<lambda>(fs, raws, r).
           (\<lparr>js_stacktraces = fs, js_raw_stacktraces = raws, js_errors = run_errors r,
              js_scraping_attempts = into_scraping_attempts (run_lookup r)\<rparr>,
            submit (af_metrics (sl_fetcher (run_lookup r))),
            (run_stats r)\<lparr>st_num_stacktraces := length fs\<rparr>))
       (js_stacktraces_loop sv lib (jr_frame_order req) (jr_apply_source_context req)
          (fst (prepare_modules (jr_stacktraces req) (sl_modules (source_map_lookup_new sv n fb api req))))
          \<lparr>run_lookup = prepared_lookup sv n fb api req, run_errors = [], run_stats = no_js_stats\<rparr>)"
  unfolding symbolicate_js_def prepared_lookup_def Let_def by (simp split: prod.split)

lemma request_bounded:
  assumes "js_stacktraces_loop sv lib order ctx raws \<lparr>run_lookup = prepared_lookup sv n fb api req, run_errors = es, run_stats = st\<rparr>
      = Ret (fss, rawss, r)"
  shows "retained (run_lookup r) + af_budget (sl_fetcher (run_lookup r)) = sources_budget n"
    and "af_metrics (sl_fetcher (run_lookup r)) NeededFiles \<le> 2 * card (fetched_modules (run_lookup r)) + card (dom (sl_files (run_lookup r)))"
    and "served (af_metrics (sl_fetcher (run_lookup r))) + af_metrics (sl_fetcher (run_lookup r)) ScrapedFiles
           \<le> af_metrics (sl_fetcher (run_lookup r)) NeededFiles"
    and "af_metrics (sl_fetcher (run_lookup r)) ApiRequests \<le> af_metrics (sl_fetcher (run_lookup r)) NeededFiles"
    and "total via_bundle (af_metrics (sl_fetcher (run_lookup r))) = total bundles_by_method (af_metrics (sl_fetcher (run_lookup r)))"
    and "total via_scraping (af_metrics (sl_fetcher (run_lookup r))) \<le> af_metrics (sl_fetcher (run_lookup r)) ScrapedFiles"
    and "af_metrics (sl_fetcher (run_lookup r)) FetchedBundles = length (af_bundles (sl_fetcher (run_lookup r)))"
proof -
  have "lookup_inv (jr_source req, jr_scraping req) (sources_budget n) (run_lookup r)"
    by (rule bounded.stacktraces_keep[OF assms]) (simp add: prepared_inv)
  then show "retained (run_lookup r) + af_budget (sl_fetcher (run_lookup r)) = sources_budget n"
    "af_metrics (sl_fetcher (run_lookup r)) NeededFiles \<le> 2 * card (fetched_modules (run_lookup r)) + card (dom (sl_files (run_lookup r)))"
    "served (af_metrics (sl_fetcher (run_lookup r))) + af_metrics (sl_fetcher (run_lookup r)) ScrapedFiles
           \<le> af_metrics (sl_fetcher (run_lookup r)) NeededFiles"
    "af_metrics (sl_fetcher (run_lookup r)) ApiRequests \<le> af_metrics (sl_fetcher (run_lookup r)) NeededFiles"
    "total via_bundle (af_metrics (sl_fetcher (run_lookup r))) = total bundles_by_method (af_metrics (sl_fetcher (run_lookup r)))"
    "total via_scraping (af_metrics (sl_fetcher (run_lookup r))) \<le> af_metrics (sl_fetcher (run_lookup r)) ScrapedFiles"
    "af_metrics (sl_fetcher (run_lookup r)) FetchedBundles = length (af_bundles (sl_fetcher (run_lookup r)))"
    unfolding lookup_inv_def fetcher_inv_def by auto
qed

section \<open>Every frame is accounted for\<close>

text \<open>What a run may change of a raw frame: its source context and where its source map came from.\<close>

definition raw_updated :: "js_frame \<Rightarrow> js_frame \<Rightarrow> bool" where
  "raw_updated raw raw' \<longleftrightarrow> (\<exists>pre line post d. raw' = raw\<lparr>jf_pre_context := pre, jf_context_line := line, jf_post_context := post, jf_data := d\<rparr>
     \<and> jd_symbolicated d = jd_symbolicated (jf_data raw) \<and> jd_sourcemap d = jd_sourcemap (jf_data raw))"

lemma raw_updated_refl [simp]: "raw_updated raw raw"
  unfolding raw_updated_def
  by (rule exI[of _ "jf_pre_context raw"], rule exI[of _ "jf_context_line raw"], rule exI[of _ "jf_post_context raw"], rule exI[of _ "jf_data raw"]) simp

lemma raw_updated_platform: "raw_updated raw raw' \<Longrightarrow> jf_platform raw' = jf_platform raw"
  by (auto simp: raw_updated_def)

lemma apply_context_updated: "js_apply_source_context raw src = Ret raw' \<Longrightarrow> raw_updated raw raw'"
proof -
  assume a: "js_apply_source_context raw src = Ret raw'"
  then obtain x where "raw' = (case x of
          Some (pre, context, post) \<Rightarrow> raw\<lparr>jf_pre_context := pre, jf_context_line := Some context, jf_post_context := post\<rparr>
        | None \<Rightarrow> raw)" by (auto simp: js_apply_source_context_def)
  then show ?thesis
  proof (cases x)
    case (Some y)
    obtain pre c post where "y = (pre, c, post)" by (metis surj_pair)
    then show ?thesis using \<open>raw' = _\<close> Some unfolding raw_updated_def
      by (intro exI[of _ pre] exI[of _ "Some c"] exI[of _ post] exI[of _ "jf_data raw"]) simp
  qed simp
qed

lemma raw_updated_data:
  "raw_updated raw raw' \<Longrightarrow> raw_updated raw (raw'\<lparr>jf_data := (jf_data raw')\<lparr>jd_resolved_with := w, jd_sourcemap_origin := u\<rparr>\<rparr>)"
  unfolding raw_updated_def by fastforce

text \<open>The run of a frame that was symbolicated with a source map.\<close>

lemma frame_with_smcache:
  assumes "symbolicate_js_frame sv lib raw callsite ctx r = Ret (Inr f, raw', r')"
    and g: "get_module sv (jf_abs_path raw) (run_lookup r) = (m, l)" and sm: "mo_smcache m = Some sm"
  obtains mini c t label f0 where "ce_entry (mo_minified_source m) = Inr mini" "ce_entry sm = Inr c"
    "lib_lookup lib c (jf_lineno raw - 1) (saturating_dec (case jf_colno raw of Some c \<Rightarrow> c | None \<Rightarrow> 0)) = Some t"
    "f0 = apply_token lib (mo_source_file_base m) (jf_function raw) callsite t
       ((clear_context raw)\<lparr>jf_data := (jf_data raw)\<lparr>jd_sourcemap := Some label,
           jd_sourcemap_origin := Some (ce_uri sm), jd_resolved_with := Some (ce_resolved_with sm)\<rparr>\<rparr>)"
    "if ctx then original_source_context sv m (jf_abs_path raw) label t f0 (r\<lparr>run_lookup := l\<rparr>) = Ret (f, r')
     else f = f0 \<and> r' = r\<lparr>run_lookup := l\<rparr>"
proof -
  have nz: "jf_lineno raw \<noteq> 0" using assms(1) by (auto simp: symbolicate_js_frame_def)
  note run = traced[OF assms(1)[unfolded symbolicate_js_frame_def if_not_P[OF nz] Let_def g prod.case]]
  from run obtain mini where mini: "ce_entry (mo_minified_source m) = Inr mini"
    by (cases "ce_entry (mo_minified_source m)") auto
  with run obtain raw1 where raw1: "(if ctx then js_apply_source_context raw (file_contents mini) else Ret raw) = Ret raw1"
    by (cases "if ctx then js_apply_source_context raw (file_contents mini) else Ret raw") (auto simp: bind_out_def)
  note run = run[unfolded mini sum.case raw1 bind_out_simps sm option.case]
  from run obtain c where c: "ce_entry sm = Inr c" by (cases "ce_entry sm") (auto split: cache_error.splits)
  note run = run[unfolded c sum.case]
  from run obtain t where t: "lib_lookup lib c (jf_lineno raw - 1) (saturating_dec (case jf_colno raw of Some c \<Rightarrow> c | None \<Rightarrow> 0)) = Some t"
    by (cases "lib_lookup lib c (jf_lineno raw - 1) (saturating_dec (case jf_colno raw of Some c \<Rightarrow> c | None \<Rightarrow> 0))") auto
  have "jf_data (clear_context raw) = jf_data raw" by (simp add: clear_context_def)
  with run that[OF mini c t refl] show ?thesis
    unfolding t option.case by (cases ctx) (auto simp del: map_out_simps split: prod.splits)
qed

lemma apply_file_name_frame:
  "jf_platform (apply_file_name clean base n f) = jf_platform f" "jf_pre_context (apply_file_name clean base n f) = jf_pre_context f"
  "jf_context_line (apply_file_name clean base n f) = jf_context_line f" "jf_post_context (apply_file_name clean base n f) = jf_post_context f"
  "jf_data (apply_file_name clean base n f) = jf_data f"
  by (auto simp: apply_file_name_def Let_def split: option.splits)

lemma apply_token_frame:
  "jf_platform (apply_token lib base raw_fn cs t f) = jf_platform f" "jf_pre_context (apply_token lib base raw_fn cs t f) = jf_pre_context f"
  "jf_context_line (apply_token lib base raw_fn cs t f) = jf_context_line f" "jf_post_context (apply_token lib base raw_fn cs t f) = jf_post_context f"
  "jd_symbolicated (jf_data (apply_token lib base raw_fn cs t f))"
  by (simp_all add: apply_token_def Let_def apply_file_name_frame)

lemma source_context_stats:
  assumes "original_source_context sv m p label t f r = Ret (f', r')"
  shows "st_symbolicated (run_stats r') = st_symbolicated (run_stats r) \<and> st_unsymbolicated (run_stats r') = st_unsymbolicated (run_stats r)"
  using assms by (auto simp: original_source_context_def Let_def add_error_def split: option.splits prod.splits sum.splits)

lemma frame_accounts:
  assumes "symbolicate_js_frame sv lib raw callsite ctx r = Ret (res, raw', r')"
  shows "raw_updated raw raw' \<and> st_symbolicated (run_stats r') = st_symbolicated (run_stats r)
    \<and> st_unsymbolicated (run_stats r') = st_unsymbolicated (run_stats r)"
proof (cases "jf_lineno raw = 0")
  case True
  then show ?thesis using assms by (simp add: symbolicate_js_frame_def)
next
  case False
  obtain m l where g: "get_module sv (jf_abs_path raw) (run_lookup r) = (m, l)" by fastforce
  note run = traced[OF assms[unfolded symbolicate_js_frame_def if_not_P[OF False] Let_def g prod.case]]
  show ?thesis
  proof (cases "ce_entry (mo_minified_source m)")
    case (Inl e)
    then show ?thesis using run by auto
  next
    case (Inr mini)
    then obtain raw1 where raw1: "(if ctx then js_apply_source_context raw (file_contents mini) else Ret raw) = Ret raw1"
      using run by (cases "if ctx then js_apply_source_context raw (file_contents mini) else Ret raw") (auto simp: bind_out_def)
    note run = run[unfolded Inr sum.case raw1 bind_out_simps]
    have u: "raw_updated raw raw1" using raw1 apply_context_updated by (auto split: if_splits)
    show ?thesis
    proof (cases "mo_smcache m")
      case None
      then show ?thesis using run u by auto
    next
      case (Some sm)
      note run = run[unfolded Some option.case]
      show ?thesis
      proof (cases "ce_entry sm")
        case (Inl e)
        then show ?thesis using run u raw_updated_data[OF u] by (cases e) auto
      next
        case (Inr c)
        then show ?thesis using run u
          by (auto dest!: source_context_stats split: option.splits if_splits prod.splits)
      qed
    qed
  qed
qed

text \<open>The original source of a token: embedded in the source map, or a file of its own.\<close>

definition is_original :: "('h, 'b, 'm) js_services \<Rightarrow> 'm source_map_module \<Rightarrow> ('h, 'b, 'm) source_map_lookup \<Rightarrow> js_token \<Rightarrow> string \<Rightarrow> bool" where
  "is_original sv m l t src \<longleftrightarrow>
     (case tk_file t of
        None \<Rightarrow> False
      | Some tf \<Rightarrow>
          (case tf_source tf of
             Some s \<Rightarrow> src = s
           | None \<Rightarrow>
               (case Option.bind (tf_name tf) (source_file_key m) of
                  None \<Rightarrow> False
                | Some k \<Rightarrow> (case ce_entry (fst (get_source_file sv k l)) of Inl _ \<Rightarrow> False | Inr e \<Rightarrow> src = file_contents e))))"

lemma source_context_frame:
  assumes "original_source_context sv m p label t f r = Ret (f', r')"
  shows "f' = f \<or> (\<exists>src. is_original sv m (run_lookup r) t src \<and> js_apply_source_context f src = Ret f')"
  using assms
  by (auto simp: original_source_context_def is_original_def Let_def add_error_def split: option.splits prod.splits sum.splits)

lemma frame_platform:
  assumes "symbolicate_js_frame sv lib raw callsite ctx r = Ret (Inr f, raw', r')"
  shows "jf_platform f = jf_platform raw"
proof -
  obtain m l where g: "get_module sv (jf_abs_path raw) (run_lookup r) = (m, l)" by fastforce
  show ?thesis
  proof (cases "mo_smcache m")
    case None
    have nz: "jf_lineno raw \<noteq> 0" using assms by (auto simp: symbolicate_js_frame_def)
    have "f = raw'"
      using traced[OF assms[unfolded symbolicate_js_frame_def if_not_P[OF nz] Let_def g prod.case]] None
      by (cases "ce_entry (mo_minified_source m)") (auto simp: bind_out_eq_Ret)
    then show ?thesis using raw_updated_platform frame_accounts[OF assms] by auto
  next
    case (Some sm)
    show ?thesis
      using frame_with_smcache[OF assms g Some]
    proof cases
      case (1 mini c t label f0)
      have p: "jf_platform f0 = jf_platform raw" using 1(4) by (simp add: apply_token_frame clear_context_def)
      show ?thesis
      proof (cases ctx)
        case True
        then have "f = f0 \<or> (\<exists>src. js_apply_source_context f0 src = Ret f)" using 1(5) source_context_frame by (metis (full_types))
        then show ?thesis using p raw_updated_platform apply_context_updated by metis
      qed (use 1(5) p in simp)
    qed
  qed
qed

lemma frames_accounted:
  assumes "js_frames_loop sv lib ctx callsite raws r = Ret (fs, raws', r')"
  shows "list_all2 raw_updated raws raws' \<and> map jf_platform fs = map jf_platform raws
    \<and> (\<forall>p. st_symbolicated (run_stats r') p + st_unsymbolicated (run_stats r') p
          = st_symbolicated (run_stats r) p + st_unsymbolicated (run_stats r) p + length (filter (\<lambda>f. jf_platform f = p) raws))"
  using assms
proof (induction raws arbitrary: callsite r fs raws')
  case (Cons raw raws)
  from Cons.prems obtain res raw1 r1 where f: "symbolicate_js_frame sv lib raw callsite ctx r = Ret (res, raw1, r1)"
    by (cases "symbolicate_js_frame sv lib raw callsite ctx r") auto
  note acc = frame_accounts[OF f]
  have p: "jf_platform raw1 = jf_platform raw" using acc raw_updated_platform by blast
  show ?case
  proof (cases res)
    case (Inl k)
    let ?r = "add_error (jf_abs_path raw1) k
        (r1\<lparr>run_stats := (run_stats r1)\<lparr>st_unsymbolicated := bump (jf_platform raw1) (st_unsymbolicated (run_stats r1))\<rparr>\<rparr>)"
    obtain fs1 raws1 where loop: "js_frames_loop sv lib ctx None raws ?r = Ret (fs1, raws1, r')" "fs = raw1 # fs1" "raws' = raw1 # raws1"
      using Cons.prems f Inl by auto
    have st: "st_symbolicated (run_stats ?r) = st_symbolicated (run_stats r)"
      "st_unsymbolicated (run_stats ?r) = bump (jf_platform raw) (st_unsymbolicated (run_stats r))"
      using acc p by (simp_all add: add_error_def)
    show ?thesis using Cons.IH[OF loop(1)] loop(2,3) acc p unfolding st by (auto simp: bump_def)
  next
    case (Inr x)
    let ?r = "r1\<lparr>run_stats := (run_stats r1)\<lparr>st_symbolicated := bump (jf_platform raw1) (st_symbolicated (run_stats r1))\<rparr>\<rparr>"
    obtain fs1 raws1 where loop: "js_frames_loop sv lib ctx (jf_token_name x) raws ?r = Ret (fs1, raws1, r')"
        "fs = x\<lparr>jf_token_name := None\<rparr> # fs1" "raws' = raw1 # raws1"
      using Cons.prems f Inr by auto
    have st: "st_symbolicated (run_stats ?r) = bump (jf_platform raw) (st_symbolicated (run_stats r))"
      "st_unsymbolicated (run_stats ?r) = st_unsymbolicated (run_stats r)"
      using acc p by simp_all
    have "jf_platform x = jf_platform raw" using frame_platform f Inr by blast
    then show ?thesis using Cons.IH[OF loop(1)] loop(2,3) acc unfolding st by (auto simp: bump_def)
  qed
qed simp

lemma stacktrace_accounted:
  assumes "symbolicate_js_stacktrace sv lib order ctx raws r = Ret (fs, raws', r')"
  shows "list_all2 raw_updated raws raws' \<and> map jf_platform fs = map jf_platform raws
    \<and> (\<forall>p. st_symbolicated (run_stats r') p + st_unsymbolicated (run_stats r') p
          = st_symbolicated (run_stats r) p + st_unsymbolicated (run_stats r) p + length (filter (\<lambda>f. jf_platform f = p) raws))"
proof (cases order)
  case CalleeFirst
  then obtain fs1 raws1 where l: "js_frames_loop sv lib ctx None (rev raws) r = Ret (fs1, raws1, r')" "fs = rev fs1" "raws' = rev raws1"
    using assms by (auto simp: symbolicate_js_stacktrace_def Let_def)
  have "list_all2 raw_updated raws (rev raws1)"
    using frames_accounted[OF l(1)] list_all2_rev[of raw_updated "rev raws" raws1] by simp
  then show ?thesis using frames_accounted[OF l(1)] l(2,3)
    by (auto simp: rev_filter[symmetric] rev_map[symmetric])
next
  case CallerFirst
  then have "js_frames_loop sv lib ctx None raws r = Ret (fs, raws', r')"
    using assms by (auto simp: symbolicate_js_stacktrace_def Let_def)
  from frames_accounted[OF this] show ?thesis .
qed

lemma stacktraces_accounted:
  assumes "js_stacktraces_loop sv lib order ctx ts r = Ret (fss, rawss, r')"
  shows "list_all2 (list_all2 raw_updated) ts rawss \<and> map (map jf_platform) fss = map (map jf_platform) ts
    \<and> (\<forall>p. st_symbolicated (run_stats r') p + st_unsymbolicated (run_stats r') p
          = st_symbolicated (run_stats r) p + st_unsymbolicated (run_stats r) p + length (filter (\<lambda>f. jf_platform f = p) (concat ts)))"
  using assms
proof (induction ts arbitrary: r fss rawss)
  case (Cons t ts)
  from Cons.prems obtain fs raws r1 where t: "symbolicate_js_stacktrace sv lib order ctx t r = Ret (fs, raws, r1)"
    by (cases "symbolicate_js_stacktrace sv lib order ctx t r") auto
  obtain fss1 rawss1 where l: "js_stacktraces_loop sv lib order ctx ts r1 = Ret (fss1, rawss1, r')" "fss = fs # fss1" "rawss = raws # rawss1"
    using Cons.prems t by auto
  show ?case using Cons.IH[OF l(1)] stacktrace_accounted[OF t] l(2,3) by simp
qed simp

lemma symbolicated_context:
  assumes "symbolicate_js_frame sv lib raw callsite ctx r = Ret (Inr f, raw', r')"
    and g: "get_module sv (jf_abs_path raw) (run_lookup r) = (m, l)" and sm: "mo_smcache m = Some sm"
  shows "jd_symbolicated (jf_data f)
    \<and> (jf_pre_context f = [] \<and> jf_context_line f = None \<and> jf_post_context f = []
       \<or> (\<exists>c t src. ce_entry sm = Inr c
            \<and> lib_lookup lib c (jf_lineno raw - 1) (saturating_dec (case jf_colno raw of Some c \<Rightarrow> c | None \<Rightarrow> 0)) = Some t
            \<and> is_original sv m l t src
            \<and> (case get_context_lines src (unat (saturating_inc (tk_line t))) (unat (saturating_inc (tk_column t))) None of
                 Ret (Some (pre, line, post)) \<Rightarrow> jf_pre_context f = pre \<and> jf_context_line f = Some line \<and> jf_post_context f = post
               | _ \<Rightarrow> False)))"
  using frame_with_smcache[OF assms]
proof cases
  case (1 mini c t label f0)
  have f0: "jf_pre_context f0 = []" "jf_context_line f0 = None" "jf_post_context f0 = []" "jd_symbolicated (jf_data f0)"
      "jf_lineno f0 = saturating_inc (tk_line t)" "jf_colno f0 = Some (saturating_inc (tk_column t))"
    unfolding 1(4) by (simp_all add: apply_token_frame clear_context_def) (simp_all add: apply_token_def Let_def)
  have "f = f0 \<or> (\<exists>src. is_original sv m l t src \<and> js_apply_source_context f0 src = Ret f)"
    using 1(5) source_context_frame by (cases ctx) fastforce+
  then show ?thesis
  proof
    assume "\<exists>src. is_original sv m l t src \<and> js_apply_source_context f0 src = Ret f"
    then obtain src where src: "is_original sv m l t src" "js_apply_source_context f0 src = Ret f" by blast
    then obtain x where x: "get_context_lines src (unat (saturating_inc (tk_line t))) (unat (saturating_inc (tk_column t))) None = Ret x"
        "f = (case x of
          Some (pre, context, post) \<Rightarrow> f0\<lparr>jf_pre_context := pre, jf_context_line := Some context, jf_post_context := post\<rparr>
        | None \<Rightarrow> f0)"
      unfolding js_apply_source_context_def f0 by auto
    then show ?thesis using src f0 1(2,3) by (cases x) (auto split: prod.splits)
  qed (use f0 in simp)
qed

section \<open>Frames without a line\<close>

lemma no_line_no_lookup: "jf_lineno raw = 0 \<Longrightarrow> symbolicate_js_frame sv lib raw callsite ctx r = Ret (Inl (InvalidLocation 0 (jf_colno raw)), raw, r)"
  by (simp add: symbolicate_js_frame_def)

section \<open>The order of frames\<close>

definition reverse_js_traces :: "js_request \<Rightarrow> js_request" where
  "reverse_js_traces req = req\<lparr>jr_stacktraces := map rev (jr_stacktraces req)\<rparr>"

definition reverse_js_response :: "js_response \<Rightarrow> js_response" where
  "reverse_js_response r = r\<lparr>js_stacktraces := map rev (js_stacktraces r), js_raw_stacktraces := map rev (js_raw_stacktraces r)\<rparr>"

definition strip_async :: "js_frame \<Rightarrow> js_frame" where
  "strip_async f = (case strip_prefix (jf_abs_path f) ''async '' of Some p \<Rightarrow> f\<lparr>jf_abs_path := p\<rparr> | None \<Rightarrow> f)"

definition add_modules :: "js_frame list \<Rightarrow> (string \<rightharpoonup> 'm source_map_module) \<Rightarrow> (string \<rightharpoonup> 'm source_map_module)" where
  "add_modules fs mods = (\<lambda>p. case mods p of Some m \<Rightarrow> Some m
     | None \<Rightarrow> if p \<in> set (map (jf_abs_path \<circ> strip_async) fs) then Some (source_map_module_new p None) else None)"

lemma prepare_frames_spec: "prepare_frames fs mods = (map strip_async fs, add_modules fs mods)"
proof (induction fs arbitrary: mods)
  case (Cons f fs)
  have "prepare_frame f mods = (strip_async f, add_modules [f] mods)"
    unfolding prepare_frame_def strip_async_def[symmetric] Let_def
    by (auto simp: add_modules_def fun_eq_iff split: option.splits)
  moreover have "add_modules fs (add_modules [f] mods) = add_modules (f # fs) mods"
    by (auto simp: add_modules_def fun_eq_iff split: option.splits)
  ultimately show ?case using Cons.IH by (simp add: Let_def)
qed (simp add: add_modules_def fun_eq_iff split: option.splits)

lemma prepare_modules_rev: "prepare_modules (map rev ts) mods = (map rev (fst (prepare_modules ts mods)), snd (prepare_modules ts mods))"
proof (induction ts arbitrary: mods)
  case (Cons t ts)
  have "add_modules (rev t) mods = add_modules t mods" unfolding add_modules_def by (intro ext) (auto split: option.splits)
  then show ?case using Cons.IH by (simp add: prepare_frames_spec Let_def rev_map split: prod.splits)
qed simp

lemma stacktraces_loop_rev:
  "js_stacktraces_loop sv lib CalleeFirst ctx (map rev ts) r =
     map_out (\<lambda>(fss, rawss, r). (map rev fss, map rev rawss, r)) (js_stacktraces_loop sv lib CallerFirst ctx ts r)"
proof (induction ts arbitrary: r)
  case (Cons t ts)
  have "symbolicate_js_stacktrace sv lib CalleeFirst ctx (rev t) r =
      map_out (\<lambda>(fs, raws, r). (rev fs, rev raws, r)) (symbolicate_js_stacktrace sv lib CallerFirst ctx t r)"
    by (cases "js_frames_loop sv lib ctx None t r") (auto simp: symbolicate_js_stacktrace_def)
  note one = this
  show ?case
  proof (cases "symbolicate_js_stacktrace sv lib CallerFirst ctx t r")
    case (Ret x)
    obtain fs raws r1 where x: "x = (fs, raws, r1)" by (metis surj_pair)
    show ?thesis
    proof (cases "js_stacktraces_loop sv lib CallerFirst ctx ts r1")
      case (Ret y)
      obtain fss rawss r2 where y: "y = (fss, rawss, r2)" by (metis surj_pair)
      show ?thesis using one Cons.IH[of r1] Ret \<open>symbolicate_js_stacktrace sv lib CallerFirst ctx t r = Ret x\<close> x y by simp
    next
      case Panic
      then show ?thesis using one Cons.IH[of r1] Ret x by simp
    qed
  qed (use one in simp)
qed simp

lemma js_frame_order:
  assumes "jr_frame_order req = CallerFirst"
  shows "symbolicate_js sv lib n fb api ((reverse_js_traces req)\<lparr>jr_frame_order := CalleeFirst\<rparr>) =
    map_out (\<lambda>(resp, sub, st). (reverse_js_response resp, sub, st)) (symbolicate_js sv lib n fb api req)"
proof -
  let ?req = "(reverse_js_traces req)\<lparr>jr_frame_order := CalleeFirst\<rparr>"
  have l: "source_map_lookup_new sv n fb api ?req = source_map_lookup_new sv n fb api req"
    by (simp add: source_map_lookup_new_def reverse_js_traces_def)
  let ?l = "source_map_lookup_new sv n fb api req"
  obtain raws mods where p: "prepare_modules (jr_stacktraces req) (sl_modules ?l) = (raws, mods)" by fastforce
  have p': "prepare_modules (jr_stacktraces ?req) (sl_modules ?l) = (map rev raws, mods)"
    using prepare_modules_rev[of "jr_stacktraces req" "sl_modules ?l"] p by (simp add: reverse_js_traces_def)
  let ?r = "\<lparr>run_lookup = ?l\<lparr>sl_modules := mods\<rparr>, run_errors = [], run_stats = no_js_stats\<rparr>"
  have fields: "jr_frame_order ?req = CalleeFirst" "jr_apply_source_context ?req = jr_apply_source_context req"
    by (simp_all add: reverse_js_traces_def)
  show ?thesis
    unfolding symbolicate_js_def l Let_def p p' prod.case fields stacktraces_loop_rev assms
    by (cases "js_stacktraces_loop sv lib CallerFirst (jr_apply_source_context req) raws ?r")
      (auto simp: reverse_js_response_def split: prod.splits)
qed

section \<open>A whole request\<close>

lemma prepare_modules_frames: "fst (prepare_modules ts mods) = map (map strip_async) ts"
  by (induction ts arbitrary: mods) (simp_all add: prepare_frames_spec Let_def case_prod_beta)

lemma strip_async_platform [simp]: "jf_platform (strip_async f) = jf_platform f"
  by (simp add: strip_async_def split: option.splits)

lemma request_accounted:
  assumes "symbolicate_js sv lib n fb api req = Ret (resp, sub, st)"
  shows "map (map jf_platform) (js_stacktraces resp) = map (map jf_platform) (jr_stacktraces req)
     \<and> list_all2 (list_all2 raw_updated) (map (map strip_async) (jr_stacktraces req)) (js_raw_stacktraces resp)
     \<and> st_symbolicated st p + st_unsymbolicated st p = length (filter (\<lambda>f. jf_platform f = p) (concat (jr_stacktraces req)))
     \<and> st_num_stacktraces st = length (jr_stacktraces req)"
proof -
  let ?ts = "map (map strip_async) (jr_stacktraces req)"
  obtain fss rawss r where l: "js_stacktraces_loop sv lib (jr_frame_order req) (jr_apply_source_context req) ?ts
      \<lparr>run_lookup = prepared_lookup sv n fb api req, run_errors = [], run_stats = no_js_stats\<rparr> = Ret (fss, rawss, r)"
    and resp: "js_stacktraces resp = fss" "js_raw_stacktraces resp = rawss" "st = (run_stats r)\<lparr>st_num_stacktraces := length fss\<rparr>"
    using assms unfolding prepared_run prepare_modules_frames by (auto split: prod.splits)
  have "length (filter (\<lambda>f. jf_platform f = p) (concat ?ts)) = length (filter (\<lambda>f. jf_platform f = p) (concat (jr_stacktraces req)))"
    by (simp add: map_concat[symmetric] filter_map comp_def)
  moreover have "map (map jf_platform) ?ts = map (map jf_platform) (jr_stacktraces req)" by (simp add: comp_def)
  moreover have "length fss = length (jr_stacktraces req)"
    using stacktraces_accounted[OF l] by (metis calculation(2) length_map)
  ultimately show ?thesis using stacktraces_accounted[OF l] resp by (simp add: no_js_stats_def)
qed

end
