(* ===== verification/JsSafety.thy ===== *)
theory JsSafety
  imports JsSymbolicationCorrect
begin

text \<open>
  What a JavaScript request may ask of the outside world, the order in which a file is looked up,
  and the absence of panics.
\<close>

section \<open>A world that refuses everything else\<close>

text \<open>
  The pages that the scraping settings of a request allow, written apart from the code that checks
  them: scraping is switched on, the page has an http or https URL, its URL is one of the allowed
  origins, and it has a host, which is this machine only where the downloader may reach it.
\<close>

definition scraping_allows :: "('h, 'b, 'm) js_services \<Rightarrow> scraping_config \<Rightarrow> parsed_url \<Rightarrow> bool" where
  "scraping_allows sv cfg url \<longleftrightarrow>
     sc_enabled cfg
     \<and> (pu_scheme url = ''http'' \<or> pu_scheme url = ''https'')
     \<and> is_valid_origin (js_idna sv) url (sc_allowed_origins cfg)
     \<and> (\<exists>host. pu_host url = Some host \<and> (host \<in> {''localhost'', ''127.0.0.1''} \<longrightarrow> js_reserved_ips sv))"

text \<open>
  The files a request may download: those of its own Sentry source, with its credentials only below
  its URL, and an allowed page, under some fragment, with the certificate check and the headers of
  the settings and nothing else.
\<close>

definition permitted :: "('h, 'b, 'm) js_services \<Rightarrow> sentry_source_config \<times> scraping_config \<Rightarrow> js_remote_file \<Rightarrow> bool" where
  "permitted sv cfg f \<longleftrightarrow> from_source (fst cfg) f
     \<or> (\<exists>p url key. js_parse_url sv p = Inr url \<and> scraping_allows sv (snd cfg) url
           \<and> f = JsHttp (js_set_fragment sv url key) (sc_verify_ssl (snd cfg)) (sc_headers (snd cfg)))"

lemma scrape_allowed: "scrape_refusal sv cfg p url = None \<Longrightarrow> scraping_allows sv cfg url"
  by (auto simp: scrape_refusal_def scraping_allows_def reserved_host_def Let_def split: if_splits option.splits)

lemma scraped_permitted:
  assumes "js_parse_url sv p = Inr url" and "scrape_refusal sv (snd cfg) p url = None"
  shows "permitted sv cfg (scrape_remote_file sv (snd cfg) url)"
  unfolding permitted_def scrape_remote_file_def Let_def
  by (intro disjI2 exI conjI) (rule assms(1), rule scrape_allowed[OF assms(2)], rule refl)

definition confine :: "sentry_source_config \<times> scraping_config \<Rightarrow> ('h, 'b, 'm) js_services \<Rightarrow> ('h, 'b, 'm) js_services" where
  "confine cfg sv = sv\<lparr>
     js_fetch_file := (\<lambda>sc f shared. if permitted sv cfg f then js_fetch_file sv sc f shared else Inl (PermissionDenied [])),
     js_fetch_object := (\<lambda>sc f. if permitted sv cfg f then js_fetch_object sv sc f else Inl (PermissionDenied []))\<rparr>"

lemma confine_fields [simp]:
  "js_decode (confine cfg sv) = js_decode sv" "js_discover_map (confine cfg sv) = js_discover_map sv"
  "js_discover_id (confine cfg sv) = js_discover_id sv" "js_id_text (confine cfg sv) = js_id_text sv"
  "js_parse_id (confine cfg sv) = js_parse_id sv" "js_lower (confine cfg sv) = js_lower sv"
  "js_durations (confine cfg sv) = js_durations sv" "js_parse_url (confine cfg sv) = js_parse_url sv"
  "js_set_fragment (confine cfg sv) = js_set_fragment sv" "js_query_url (confine cfg sv) = js_query_url sv"
  "js_idna (confine cfg sv) = js_idna sv" "js_sha (confine cfg sv) = js_sha sv" "js_now (confine cfg sv) = js_now sv"
  "js_reserved_ips (confine cfg sv) = js_reserved_ips sv" "js_open (confine cfg sv) = js_open sv"
  "js_by_debug_id (confine cfg sv) = js_by_debug_id sv" "js_by_url (confine cfg sv) = js_by_url sv"
  "js_api (confine cfg sv) = js_api sv" "js_smcache (confine cfg sv) = js_smcache sv"
  by (simp_all add: confine_def)

lemma confine_fetch:
  "permitted sv cfg f \<Longrightarrow> js_fetch_file (confine cfg sv) sc f shared = js_fetch_file sv sc f shared"
  "permitted sv cfg f \<Longrightarrow> js_fetch_object (confine cfg sv) sc f = js_fetch_object sv sc f"
  by (simp_all add: confine_def)

lemma confine_lookups:
  "try_get_file_from_bundles_by_debug_id (confine cfg sv) = try_get_file_from_bundles_by_debug_id sv"
  "try_get_file_from_bundles_by_path (confine cfg sv) = try_get_file_from_bundles_by_path sv"
  "lookup_js_artifacts (confine cfg sv) = lookup_js_artifacts sv" "open_artifact_bundle (confine cfg sv) = open_artifact_bundle sv"
  "add_artifact (confine cfg sv) = add_artifact sv" "scrape_refusal (confine cfg sv) = scrape_refusal sv"
  "scrape_remote_file (confine cfg sv) = scrape_remote_file sv" "fetch_sourcemap_cache (confine cfg sv) = fetch_sourcemap_cache sv"
  by (intro ext;
      unfold try_get_file_from_bundles_by_debug_id_def try_get_file_from_bundles_by_path_def lookup_js_artifacts_def
      open_artifact_bundle_def add_artifact_def scrape_refusal_def reserved_host_def scrape_remote_file_def fetch_sourcemap_cache_def
      sourcemap_cache_key_def write_cache_key_def confine_fields; rule refl)+

lemma confine_artifacts:
  assumes "fetcher_inv cfg N B n k s"
  shows "try_fetch_file_from_artifacts (confine cfg sv) key s = try_fetch_file_from_artifacts sv key s"
proof -
  have "js_fetch_file (confine cfg sv) sc (ia_remote_file a) sh = js_fetch_file sv sc (ia_remote_file a) sh"
    if "find_artifact (af_artifacts s) us = Some a" for a us sc sh
  proof -
    have "\<exists>u. af_artifacts s u = Some a" using that by (induction us) (auto split: option.splits)
    then have "from_source (fst cfg) (ia_remote_file a)" using assms by (auto simp: fetcher_inv_def sentry_artifacts_def)
    then show ?thesis by (simp add: confine_fetch permitted_def)
  qed
  then show ?thesis unfolding try_fetch_file_from_artifacts_def confine_fields
    by (cases "key_abs_path key"; cases "find_artifact (af_artifacts s) (get_release_file_candidate_urls (the (key_abs_path key)))") simp_all
qed

lemma confine_ensure:
  assumes "from_source (fst cfg) f"
  shows "ensure_artifact_bundle (confine cfg sv) f rw s = ensure_artifact_bundle sv f rw s"
proof -
  have "permitted sv cfg f" using assms by (simp add: permitted_def)
  then have "fetch_artifact_bundle (confine cfg sv) f s = fetch_artifact_bundle sv f s"
    unfolding fetch_artifact_bundle_def confine_lookups by (simp add: confine_fetch)
  then show ?thesis unfolding ensure_artifact_bundle_def by (simp only:)
qed

lemma confine_results:
  "list_all (sentry_result (fst cfg)) rs \<Longrightarrow> apply_results (confine cfg sv) rs s = apply_results sv rs s"
  by (induction rs arbitrary: s)
    (auto simp: confine_ensure confine_lookups sentry_result_def Let_def split: js_lookup_result.splits prod.splits)

lemma confine_query:
  assumes "fetcher_inv cfg N B n k s"
  shows "query_sentry_for_file (confine cfg sv) key s = query_sentry_for_file sv key s"
proof -
  have src: "af_source (count ApiRequests s) = fst cfg" using assms by (auto simp: fetcher_inv_def count_def)
  have "query_sentry_for_files (confine cfg sv) ids stems s = query_sentry_for_files sv ids stems s" for ids stems
  proof -
    let ?s = "count ApiRequests s"
    obtain results api where l: "lookup_js_artifacts sv (fst cfg) ids stems (af_release ?s) (af_dist ?s) (af_api_cache ?s) = (results, api)"
      by fastforce
    have "list_all (sentry_result (fst cfg)) rs" if "results = Inr rs" for rs using lookup_results_sentry l that by (metis fst_conv)
    then have "apply_results (confine cfg sv) rs s' = apply_results sv rs s'" if "results = Inr rs" for rs s'
      using confine_results that by blast
    then have r: "(case results of Inl _ \<Rightarrow> (False, s') | Inr rs \<Rightarrow> apply_results (confine cfg sv) rs s')
        = (case results of Inl _ \<Rightarrow> (False, s') | Inr rs \<Rightarrow> apply_results sv rs s')" for s' by (cases results) simp_all
    show ?thesis unfolding query_sentry_for_files_def confine_lookups Let_def src l prod.case r ..
  qed
  then show ?thesis by (simp add: query_sentry_for_file_def)
qed

lemma confine_scrape:
  assumes "fetcher_inv cfg N B n k s"
  shows "scrape (confine cfg sv) key s = scrape sv key s"
proof -
  have cfg: "af_scraping s = snd cfg" "af_scraping (count ScrapedFiles s) = snd cfg" using assms by (auto simp: fetcher_inv_def count_def)
  have "js_fetch_file (confine cfg sv) sc (scrape_remote_file sv (snd cfg) url) sh = js_fetch_file sv sc (scrape_remote_file sv (snd cfg) url) sh"
    if "js_parse_url sv p = Inr url" "scrape_refusal sv (snd cfg) p url = None" for sc sh p url
    using that by (intro confine_fetch scraped_permitted)
  then show ?thesis unfolding scrape_def confine_lookups confine_fields cfg by (auto simp: Let_def cfg split: option.splits sum.splits)
qed

lemma or_else_cong:
  assumes "r = r'" and "\<And>s. fst r' = None \<Longrightarrow> s = snd r' \<Longrightarrow> f s = g s"
  shows "or_else f r = or_else g r'"
  using assms by (cases r'; cases "fst r'") (auto simp: or_else_def)

lemma confine_with_debug_id:
  assumes "fetcher_inv cfg N B 1 1 s"
  shows "try_get_file_with_debug_id (confine cfg sv) key s = try_get_file_with_debug_id sv key s"
proof -
  let ?a = "try_get_file_from_bundles_by_debug_id sv key s"
  let ?next = "\<lambda>sv s. case query_sentry_for_file sv key s of
                          (True, s) \<Rightarrow> try_get_file_from_bundles_by_debug_id sv key s
                        | (False, s) \<Rightarrow> (None, s)"
  have ia: "fetcher_inv cfg N B (slack (fst ?a)) 1 (snd ?a)" by (rule by_debug_id_inv[OF assms])
  have b: "or_else (?next (confine cfg sv)) ?a = or_else (?next sv) ?a"
  proof (rule or_else_cong[OF refl])
    fix s' assume "fst ?a = None" "s' = snd ?a"
    then have "fetcher_inv cfg N B 1 1 s'" using ia by simp
    then show "?next (confine cfg sv) s' = ?next sv s'" by (simp only: confine_query confine_lookups)
  qed
  let ?b = "or_else (?next sv) ?a"
  have ib: "fetcher_inv cfg N B (slack (fst ?b)) 0 (snd ?b)"
    by (rule or_else_inv[OF ia]) (auto intro!: query_then_inv by_debug_id_inv)
  let ?c = "or_else (try_get_file_from_bundles_by_path sv key) ?b"
  have ic: "fetcher_inv cfg N B (slack (fst ?c)) 0 (snd ?c)" by (rule or_else_inv[OF ib]) (auto intro: by_path_inv)
  have "or_else (try_fetch_file_from_artifacts (confine cfg sv) key) ?c = or_else (try_fetch_file_from_artifacts sv key) ?c"
  proof (rule or_else_cong[OF refl])
    fix s' assume "fst ?c = None" "s' = snd ?c"
    then have "fetcher_inv cfg N B 1 0 s'" using ic by simp
    then show "try_fetch_file_from_artifacts (confine cfg sv) key s' = try_fetch_file_from_artifacts sv key s'" by (rule confine_artifacts)
  qed
  then show ?thesis unfolding try_get_file_with_debug_id_def confine_lookups b[unfolded confine_lookups] .
qed

lemma confine_path_then_artifacts:
  assumes "fetcher_inv cfg N B 1 k s"
  shows "or_else (try_fetch_file_from_artifacts (confine cfg sv) key) (try_get_file_from_bundles_by_path sv key s)
    = or_else (try_fetch_file_from_artifacts sv key) (try_get_file_from_bundles_by_path sv key s)"
proof (rule or_else_cong[OF refl])
  let ?a = "try_get_file_from_bundles_by_path sv key s"
  fix s' assume "fst ?a = None" "s' = snd ?a"
  then have "fetcher_inv cfg N B 1 k s'" using by_path_inv[OF assms, of sv key] by simp
  then show "try_fetch_file_from_artifacts (confine cfg sv) key s' = try_fetch_file_from_artifacts sv key s'" by (rule confine_artifacts)
qed

lemma confine_without_debug_id:
  assumes "fetcher_inv cfg N B 1 1 s"
  shows "try_get_file_without_debug_id (confine cfg sv) key s = try_get_file_without_debug_id sv key s"
proof -
  let ?a = "or_else (try_fetch_file_from_artifacts sv key) (try_get_file_from_bundles_by_path sv key s)"
  have ia: "fetcher_inv cfg N B (slack (fst ?a)) 1 (snd ?a)"
    by (rule or_else_inv[OF by_path_inv[OF assms]]) (auto intro: artifacts_inv)
  let ?next = "\<lambda>sv s. case query_sentry_for_file sv key s of
                    (True, s) \<Rightarrow> or_else (try_fetch_file_from_artifacts sv key) (try_get_file_from_bundles_by_path sv key s)
                  | (False, s) \<Rightarrow> (None, s)"
  have "or_else (?next (confine cfg sv)) ?a = or_else (?next sv) ?a"
  proof (rule or_else_cong[OF refl])
    fix s' assume "fst ?a = None" "s' = snd ?a"
    then have i: "fetcher_inv cfg N B 1 1 s'" using ia by simp
    obtain b s2 where q: "query_sentry_for_file sv key s' = (b, s2)" by fastforce
    have "fetcher_inv cfg N B 1 0 s2" using query_inv[of cfg N B 1 0 s'] i q unfolding query_sentry_for_file_def by (metis One_nat_def snd_conv)
    then show "?next (confine cfg sv) s' = ?next sv s'"
      using confine_query[OF i, of sv key] q confine_path_then_artifacts by (cases b) (simp_all add: confine_lookups)
  qed
  then show ?thesis unfolding try_get_file_without_debug_id_def confine_lookups confine_path_then_artifacts[OF assms] .
qed

lemma confine_get_file:
  assumes "fetcher_inv cfg N B 0 0 s"
  shows "get_file (confine cfg sv) key s = get_file sv key s"
proof -
  have c: "fetcher_inv cfg (Suc N) B 1 1 (count NeededFiles s)" using count_inv(1)[OF assms] by simp
  obtain o1 s1 where e1: "try_get_file_from_bundles_cached key (count NeededFiles s) = (o1, s1)" by fastforce
  have i1: "fetcher_inv cfg (Suc N) B (slack o1) 1 s1" using cached_inv[OF c, of key] e1 by simp
  show ?thesis
  proof (cases o1)
    case None
    with i1 have i1: "fetcher_inv cfg (Suc N) B 1 1 s1" by simp
    let ?t = "\<lambda>sv. if key_debug_id key \<noteq> None then try_get_file_with_debug_id sv key s1 else try_get_file_without_debug_id sv key s1"
    have t: "?t (confine cfg sv) = ?t sv" by (simp only: confine_with_debug_id[OF i1] confine_without_debug_id[OF i1])
    obtain o2 s2 where e2: "?t sv = (o2, s2)" by fastforce
    have i2: "fetcher_inv cfg (Suc N) B (slack o2) 0 s2"
      using with_debug_id_inv[OF i1, of sv key] without_debug_id_inv[OF i1, of sv key] e2 by (metis fst_conv snd_conv)
    then show ?thesis using e1 None t e2 confine_scrape[of cfg "Suc N" B 1 0 s2 sv key] unfolding get_file_def by (cases o2) simp_all
  qed (use e1 in \<open>simp add: get_file_def\<close>)
qed

lemma confine_fetch_minified:
  assumes "fetcher_inv cfg N B 0 0 s"
  shows "fetch_minified_and_sourcemap (confine cfg sv) p d s = fetch_minified_and_sourcemap sv p d s"
proof -
  obtain m0 s0 where g: "get_file sv (MinifiedSource p d) s = (m0, s0)" by fastforce
  note g' = confine_get_file[OF assms, of sv "MinifiedSource p d", unfolded g]
  have i0: "fetcher_inv cfg (Suc N) B 0 0 s0" using get_file_inv[OF assms] g by (metis snd_conv)
  define s1 where "s1 = (case ce_entry m0 of
                 Inl _ \<Rightarrow> s0\<lparr>af_metrics := record_not_found FtSource (d \<noteq> None) (af_metrics s0)\<rparr>
               | Inr _ \<Rightarrow> s0)"
  have i1: "fetcher_inv cfg (Suc N) B 0 0 s1" using i0 unfolding s1_def by (simp split: sum.splits)
  obtain m s2 where b: "apply_sources_budget m0 s1 = (m, s2)" by fastforce
  note fetched = confine_get_file[OF apply_budget_inv(1)[OF i1 b]]
  show ?thesis
    unfolding fetch_minified_and_sourcemap_def g g' Let_def prod.case s1_def[symmetric] b fetched confine_lookups ..
qed

section \<open>The whole request\<close>

lemma confine_get_module:
  assumes "lookup_inv cfg budget l"
  shows "get_module (confine cfg sv) p l = get_module sv p l"
proof -
  obtain N B where i: "fetcher_inv cfg N B 0 0 (sl_fetcher l)" using assms by (auto simp: lookup_inv_def)
  show ?thesis unfolding get_module_def confine_fetch_minified[OF i] ..
qed

lemma confine_get_source_file:
  assumes "lookup_inv cfg budget l"
  shows "get_source_file (confine cfg sv) k l = get_source_file sv k l"
proof -
  obtain N B where i: "fetcher_inv cfg N B 0 0 (sl_fetcher l)" using assms by (auto simp: lookup_inv_def)
  show ?thesis unfolding get_source_file_def confine_get_file[OF i] ..
qed

lemma confine_source_context:
  assumes "lookup_inv cfg budget (run_lookup r)"
  shows "original_source_context (confine cfg sv) m p label t f r = original_source_context sv m p label t f r"
proof -
  have "get_source_file (confine cfg sv) k (run_lookup (r\<lparr>run_stats := st\<rparr>)) = get_source_file sv k (run_lookup (r\<lparr>run_stats := st\<rparr>))" for k st
    using confine_get_source_file[OF assms] by simp
  then show ?thesis unfolding original_source_context_def Let_def by (simp only:)
qed

lemma confine_frame:
  assumes "lookup_inv cfg budget (run_lookup r)"
  shows "symbolicate_js_frame (confine cfg sv) lib raw callsite ctx r = symbolicate_js_frame sv lib raw callsite ctx r"
proof -
  obtain m l where g: "get_module sv (jf_abs_path raw) (run_lookup r) = (m, l)" by fastforce
  note g' = confine_get_module[OF assms, of sv "jf_abs_path raw", unfolded g]
  have l: "lookup_inv cfg budget (run_lookup (r\<lparr>run_lookup := l\<rparr>))" using get_module_inv[OF assms, of sv "jf_abs_path raw"] g by simp
  show ?thesis unfolding symbolicate_js_frame_def Let_def g g' prod.case confine_source_context[OF l] ..
qed

lemma confine_frames:
  "lookup_inv cfg budget (run_lookup r)
    \<Longrightarrow> js_frames_loop (confine cfg sv) lib ctx callsite raws r = js_frames_loop sv lib ctx callsite raws r"
proof (induction raws arbitrary: callsite r)
  case (Cons raw raws)
  note f' = confine_frame[OF Cons.prems, of sv lib raw callsite ctx]
  show ?case
  proof (cases "symbolicate_js_frame sv lib raw callsite ctx r")
    case (Ret x)
    obtain res raw1 r1 where x: "x = (res, raw1, r1)" by (metis surj_pair)
    have i: "lookup_inv cfg budget (run_lookup r1)" using bounded.frame_keeps[OF Ret[unfolded x] Cons.prems] .
    have "js_frames_loop (confine cfg sv) lib ctx c raws (r1\<lparr>run_stats := st\<rparr>) = js_frames_loop sv lib ctx c raws (r1\<lparr>run_stats := st\<rparr>)"
      and "js_frames_loop (confine cfg sv) lib ctx c raws (add_error p k (r1\<lparr>run_stats := st\<rparr>))
        = js_frames_loop sv lib ctx c raws (add_error p k (r1\<lparr>run_stats := st\<rparr>))" for c st p k
      using i by (auto intro!: Cons.IH simp: add_error_def)
    then show ?thesis using f' Ret x by (cases res) simp_all
  qed (use f' in simp)
qed simp

lemma confine_stacktraces:
  "lookup_inv cfg budget (run_lookup r)
    \<Longrightarrow> js_stacktraces_loop (confine cfg sv) lib order ctx ts r = js_stacktraces_loop sv lib order ctx ts r"
proof (induction ts arbitrary: r)
  case (Cons t ts)
  have t': "symbolicate_js_stacktrace (confine cfg sv) lib order ctx t r = symbolicate_js_stacktrace sv lib order ctx t r"
    unfolding symbolicate_js_stacktrace_def Let_def confine_frames[OF Cons.prems] ..
  show ?case
  proof (cases "symbolicate_js_stacktrace sv lib order ctx t r")
    case (Ret x)
    obtain fs raws r1 where x: "x = (fs, raws, r1)" by (metis surj_pair)
    have "js_stacktraces_loop sv lib order ctx [t] r = Ret ([fs], [raws], r1)" using Ret x by simp
    from bounded.stacktraces_keep[OF this Cons.prems] have "lookup_inv cfg budget (run_lookup r1)" .
    then show ?thesis using t' Ret x Cons.IH by simp
  qed (use t' in simp)
qed simp

lemma confined_run:
  "symbolicate_js (confine (jr_source req, jr_scraping req) sv) lib n fb api req = symbolicate_js sv lib n fb api req"
proof -
  have l: "source_map_lookup_new (confine cfg sv) n fb api req = source_map_lookup_new sv n fb api req" for cfg
    unfolding source_map_lookup_new_def insert_module_def[abs_def] confine_fields ..
  have p: "prepared_lookup (confine cfg sv) n fb api req = prepared_lookup sv n fb api req" for cfg
    unfolding prepared_lookup_def l ..
  have "lookup_inv (jr_source req, jr_scraping req) (sources_budget n)
      (run_lookup \<lparr>run_lookup = prepared_lookup sv n fb api req, run_errors = [], run_stats = no_js_stats\<rparr>)"
    by (simp add: prepared_inv)
  from confine_stacktraces[OF this] show ?thesis unfolding prepared_run l p by (simp only:)
qed

section \<open>Debug ids before paths\<close>

lemma artifacts_keep_bundles: "af_bundles (snd (try_fetch_file_from_artifacts sv key s)) = af_bundles s"
  by (auto simp: try_fetch_file_from_artifacts_def count_def Let_def split: option.splits)

lemma by_path_keeps_bundles: "af_bundles (snd (try_get_file_from_bundles_by_path sv key s)) = af_bundles s"
  by (auto simp: try_get_file_from_bundles_by_path_def Let_def split: option.splits prod.splits)

lemma by_debug_id_keeps_bundles: "af_bundles (snd (try_get_file_from_bundles_by_debug_id sv key s)) = af_bundles s"
  by (auto simp: try_get_file_from_bundles_by_debug_id_def Let_def split: option.splits prod.splits)

lemma not_attempted_bundles [simp]: "af_bundles (not_attempted key s) = af_bundles s"
  by (simp add: not_attempted_def push_attempt_def split: option.splits)

lemma scrape_keeps_bundles: "af_bundles (snd (scrape sv key s)) = af_bundles s"
  by (auto simp: scrape_def push_attempt_def count_def Let_def split: option.splits sum.splits prod.splits)

text \<open>Only a new artifact or bundle is reported as news.\<close>

lemma results_no_news: "apply_results sv rs s = (False, s') \<Longrightarrow> af_bundles s' = af_bundles s"
proof (induction rs arbitrary: s)
  case (Cons r rs)
  then show ?case
    by (cases r) (auto simp: Let_def ensure_artifact_bundle_def add_artifact_def count_def split: prod.splits if_splits)
qed simp

lemma query_no_news: "query_sentry_for_file sv key s = (False, s') \<Longrightarrow> af_bundles s' = af_bundles s"
  by (auto simp: query_sentry_for_file_def query_sentry_for_files_def count_def Let_def
      split: if_splits prod.splits sum.splits dest!: results_no_news)

text \<open>The file of a debug id in the open bundles.\<close>

definition bundled_by_debug_id :: "('h, 'b, 'm) js_services \<Rightarrow> file_key \<Rightarrow> debug_id_t
    \<Rightarrow> (string \<times> (('h, 'b) artifact_bundle \<times> resolved_with) cache_contents) list \<Rightarrow> cached_file cached_file_entry option" where
  "bundled_by_debug_id sv key d bs =
     map_option (\<lambda>(uri, _, desc).
       \<lparr>ce_uri = Bundled uri key, ce_entry = from_descriptor (js_decode sv) (key_abs_path key) desc, ce_resolved_with = RwDebugId\<rparr>)
       (find_in_bundles (\<lambda>b. js_by_debug_id sv b d (as_type key)) (rev bs))"

lemma by_debug_id_spec:
  "key_debug_id key = Some d \<Longrightarrow>
   fst (try_get_file_from_bundles_by_debug_id sv key s) = bundled_by_debug_id sv key d (af_bundles s)"
  by (auto simp: try_get_file_from_bundles_by_debug_id_def bundled_by_debug_id_def Let_def split: option.splits prod.splits)

lemma with_debug_id_first:
  assumes "key_debug_id key = Some d"
    and found: "bundled_by_debug_id sv key d (af_bundles (snd (try_get_file_with_debug_id sv key s))) = Some e"
  shows "fst (try_get_file_with_debug_id sv key s) = Some e"
proof (cases "bundled_by_debug_id sv key d (af_bundles s)")
  case (Some x)
  then obtain s1 where "try_get_file_from_bundles_by_debug_id sv key s = (Some x, s1)" "af_bundles s1 = af_bundles s"
    using by_debug_id_spec[OF assms(1), of sv s] by_debug_id_keeps_bundles[of sv key s] by (metis prod.collapse)
  then show ?thesis using Some found by (auto simp: try_get_file_with_debug_id_def or_else_def)
next
  case None
  then obtain s1 where a: "try_get_file_from_bundles_by_debug_id sv key s = (None, s1)" and s1: "af_bundles s1 = af_bundles s"
    using by_debug_id_spec[OF assms(1), of sv s] by_debug_id_keeps_bundles[of sv key s] by (metis prod.collapse)
  obtain b s2 where q: "query_sentry_for_file sv key s1 = (b, s2)" by fastforce
  let ?a = "\<lambda>s. try_get_file_from_bundles_by_debug_id sv key s"
  have rest: "af_bundles (snd (or_else (try_fetch_file_from_artifacts sv key) (or_else (try_get_file_from_bundles_by_path sv key) (None, s3)))) = af_bundles s3" for s3
    using by_path_keeps_bundles[of sv key s3] artifacts_keep_bundles[of sv key] by (auto simp: or_else_def split: prod.splits option.splits)
  show ?thesis
  proof (cases b)
    case False
    then have "af_bundles s2 = af_bundles s" using query_no_news q s1 by metis
    then show ?thesis using found None a q False rest[of s2] unfolding try_get_file_with_debug_id_def by (simp add: or_else_def)
  next
    case True
    show ?thesis
    proof (cases "bundled_by_debug_id sv key d (af_bundles s2)")
      case (Some x)
      then obtain s3 where "?a s2 = (Some x, s3)" "af_bundles s3 = af_bundles s2"
        using by_debug_id_spec[OF assms(1), of sv s2] by_debug_id_keeps_bundles[of sv key s2] by (metis prod.collapse)
      then show ?thesis using found a q True Some by (auto simp: try_get_file_with_debug_id_def or_else_def)
    next
      case None
      then obtain s3 where "?a s2 = (None, s3)" "af_bundles s3 = af_bundles s2"
        using by_debug_id_spec[OF assms(1), of sv s2] by_debug_id_keeps_bundles[of sv key s2] by (metis prod.collapse)
      then show ?thesis using found a q True None rest[of s3] unfolding try_get_file_with_debug_id_def by (simp add: or_else_def)
    qed
  qed
qed

lemma debug_id_wins:
  assumes "key_debug_id key = Some d"
    and "fst (try_get_file_from_bundles_cached key (count NeededFiles s)) = None"
    and "bundled_by_debug_id sv key d (af_bundles (snd (get_file sv key s))) = Some e"
  shows "fst (get_file sv key s) = e"
proof -
  obtain s1 where c: "try_get_file_from_bundles_cached key (count NeededFiles s) = (None, s1)" using assms(2) by (metis prod.collapse)
  obtain o2 s2 where w: "try_get_file_with_debug_id sv key s1 = (o2, s2)" by fastforce
  have g: "get_file sv key s = (case o2 of Some e \<Rightarrow> (e, not_attempted key s2) | None \<Rightarrow> scrape sv key s2)"
    using assms(1) c w by (simp add: get_file_def split: option.splits)
  then have "af_bundles (snd (get_file sv key s)) = af_bundles s2"
    by (auto simp: scrape_keeps_bundles split: option.splits)
  then have "o2 = Some e" using with_debug_id_first[OF assms(1), of sv s1 e] w assms(3) by simp
  then show ?thesis using g by simp
qed

section \<open>Source maps of bundles that are not available\<close>

text \<open>
  The cache of bundled files answers also for a bundle that could not be opened in this request, and
  without the contents of a source map. The source map cache is then asked for an empty source map
  under the key of the real one.
\<close>

lemma unavailable_bundle_still_answers:
  assumes "af_bundles s = [(uri, Inl e)]" and "af_files_in_bundles s (uri, key) = Some (x, rw)"
  shows "fst (get_file sv key s) = x"
  using assms by (simp add: get_file_def try_get_file_from_bundles_cached_def count_def)

lemma unavailable_bundle_shares_cache_key:
  assumes "ce_entry source = Inr src" and "ce_entry sm = Inr m" and "cf_contents m = None" and "ce_uri sm = Bundled uri key"
    and closed: "map_of (af_bundles s) uri = Some (Inl e)"
    and opened: "map_of (af_bundles s') uri = Some (Inr ((h, b), rw))" and "af_scope s' = af_scope s"
  shows "\<exists>k. ce_entry (fetch_sourcemap_cache sv source sm s) = js_smcache sv \<lparr>sm_source = file_contents src, sm_map = Resolved []\<rparr> k
    \<and> ce_entry (fetch_sourcemap_cache sv source sm s') = js_smcache sv \<lparr>sm_source = file_contents src, sm_map = FromBundle h key\<rparr> k"
  using assms by (intro exI[of _ "sourcemap_cache_key sv (af_scope s) (ce_uri source) (file_contents src) (ce_uri sm) (file_contents m)"])
    (simp add: fetch_sourcemap_cache_def from_cachedfile_def)

end
