(* ===== verification/JsTyping.thy ===== *)
theory JsTyping
  imports JsSymbolicationCorrect
begin

text \<open>
  Texts in the program are valid UTF-8 by their type. If the texts that come from outside are, then
  so is every file a request holds, symbolication never panics on a slice of a line, and every source
  line of the response is valid.
\<close>

section \<open>Typed inputs\<close>

definition descriptor_utf8 :: "descriptor \<Rightarrow> bool" where
  "descriptor_utf8 d \<longleftrightarrow> pred_option utf8_valid (ds_contents d)"

definition services_utf8 :: "('h, 'b, 'm) js_services \<Rightarrow> bool" where
  "services_utf8 sv \<longleftrightarrow>
     (\<forall>sc f sh c. js_fetch_file sv sc f sh = Inr c \<longrightarrow> utf8_valid c)
     \<and> (\<forall>b i t d. js_by_debug_id sv b i t = Some d \<longrightarrow> descriptor_utf8 d)
     \<and> (\<forall>b u d. js_by_url sv b u = Some d \<longrightarrow> descriptor_utf8 d)"

definition libs_utf8 :: "'m js_libs \<Rightarrow> bool" where
  "libs_utf8 lib \<longleftrightarrow> (\<forall>c l k t. lib_lookup lib c l k = Some t \<longrightarrow> pred_option (\<lambda>tf. pred_option utf8_valid (tf_source tf)) (tk_file t))"

definition entry_utf8 :: "cached_file cached_file_entry \<Rightarrow> bool" where
  "entry_utf8 e \<longleftrightarrow> (case ce_entry e of Inl _ \<Rightarrow> True | Inr f \<Rightarrow> utf8_valid (file_contents f))"

definition cache_utf8 :: "bundle_file_cache \<Rightarrow> bool" where
  "cache_utf8 c \<longleftrightarrow> (\<forall>k e rw. c k = Some (e, rw) \<longrightarrow> entry_utf8 e)"

text \<open>The result of a lookup with the state it leaves.\<close>

definition typed :: "cached_file cached_file_entry option \<times> ('h, 'b) artifact_fetcher \<Rightarrow> bool" where
  "typed r \<longleftrightarrow> pred_option entry_utf8 (fst r) \<and> cache_utf8 (af_files_in_bundles (snd r))"

definition lookup_utf8 :: "('h, 'b, 'm) source_map_lookup \<Rightarrow> bool" where
  "lookup_utf8 l \<longleftrightarrow> (\<forall>p m. sl_modules l p = Some m \<longrightarrow> entry_utf8 (mo_minified_source m))
     \<and> (\<forall>k e. sl_files l k = Some e \<longrightarrow> entry_utf8 e) \<and> cache_utf8 (af_files_in_bundles (sl_fetcher l))"

section \<open>Every lookup is typed\<close>

lemma typed_None [simp]: "typed (None, s) \<longleftrightarrow> cache_utf8 (af_files_in_bundles s)"
  by (simp add: typed_def)

lemma typed_Some [simp]: "typed (Some e, s) \<longleftrightarrow> entry_utf8 e \<and> cache_utf8 (af_files_in_bundles s)"
  by (simp add: typed_def)

lemma entry_utf8_error [simp]: "ce_entry e = Inl x \<Longrightarrow> entry_utf8 e"
  by (simp add: entry_utf8_def)

lemma or_else_typed:
  assumes "typed r" and "\<And>s. cache_utf8 (af_files_in_bundles s) \<Longrightarrow> typed (f s)"
  shows "typed (or_else f r)"
  using assms by (cases r; cases "fst r") (auto simp: or_else_def)

lemma count_files [simp]: "af_files_in_bundles (count c s) = af_files_in_bundles s"
  by (simp add: count_def)

lemma attempt_files [simp]: "af_files_in_bundles (push_attempt u r s) = af_files_in_bundles s"
  by (simp add: push_attempt_def)

lemma not_attempted_files [simp]: "af_files_in_bundles (not_attempted key s) = af_files_in_bundles s"
  by (simp add: not_attempted_def split: option.splits)

lemma try_get_utf8: "cache_utf8 c \<Longrightarrow> try_get c us key = Some (u, e, rw) \<Longrightarrow> entry_utf8 e"
  by (induction us) (auto simp: cache_utf8_def split: option.splits prod.splits)

lemma cached_typed:
  "cache_utf8 (af_files_in_bundles s) \<Longrightarrow> typed (try_get_file_from_bundles_cached key s)"
  by (auto simp: try_get_file_from_bundles_cached_def dest: try_get_utf8 split: option.splits sum.splits prod.splits)

lemma descriptor_entry:
  "descriptor_utf8 d \<Longrightarrow> entry_utf8 \<lparr>ce_uri = u, ce_entry = from_descriptor dec p d, ce_resolved_with = rw\<rparr>"
  by (auto simp: entry_utf8_def from_descriptor_def descriptor_utf8_def file_contents_def split: option.splits sum.splits)

lemma cache_insert_utf8:
  "cache_utf8 c \<Longrightarrow> entry_utf8 e \<Longrightarrow> cache_utf8 (cache_insert u key rw e c)"
  by (auto simp: cache_utf8_def cache_insert_def drop_contents_def entry_utf8_def file_contents_def split: sum.splits)

lemma find_in_bundles_descriptor:
  "find_in_bundles look bs = Some (u, rw, d) \<Longrightarrow> \<exists>b. look b = Some d"
  by (induction look bs rule: find_in_bundles.induct) (auto split: option.splits)

lemma find_by_urls_descriptor:
  "find_by_urls by_url us bs = Some (u, rw, d) \<Longrightarrow> \<exists>b p. by_url b p = Some d"
proof (induction us)
  case (Cons p us)
  then show ?case using find_in_bundles_descriptor[of "\<lambda>b. by_url b p" bs] by (auto split: option.splits)
qed simp

lemma by_debug_id_typed:
  assumes "services_utf8 sv" and "cache_utf8 (af_files_in_bundles s)"
  shows "typed (try_get_file_from_bundles_by_debug_id sv key s)"
proof -
  have "descriptor_utf8 d" if "find_in_bundles (\<lambda>b. js_by_debug_id sv b i t) bs = Some (u, rw, d)" for i t bs u rw d
    using find_in_bundles_descriptor[OF that] assms(1) by (auto simp: services_utf8_def)
  then show ?thesis using assms(2) unfolding try_get_file_from_bundles_by_debug_id_def
    by (auto simp: Let_def split: option.splits prod.splits intro!: cache_insert_utf8 descriptor_entry)
qed

lemma by_path_typed:
  assumes "services_utf8 sv" and "cache_utf8 (af_files_in_bundles s)"
  shows "typed (try_get_file_from_bundles_by_path sv key s)"
proof -
  have "descriptor_utf8 d" if "find_by_urls (js_by_url sv) us bs = Some (u, rw, d)" for us bs u rw d
    using find_by_urls_descriptor[OF that] assms(1) by (auto simp: services_utf8_def)
  then show ?thesis using assms(2) unfolding try_get_file_from_bundles_by_path_def
    by (auto simp: Let_def split: option.splits prod.splits intro!: cache_insert_utf8 descriptor_entry)
qed

lemma artifacts_typed:
  assumes "services_utf8 sv" and "cache_utf8 (af_files_in_bundles s)"
  shows "typed (try_fetch_file_from_artifacts sv key s)"
  using assms unfolding try_fetch_file_from_artifacts_def
  by (auto simp: Let_def services_utf8_def entry_utf8_def file_contents_def split: option.splits sum.splits)

lemma ensure_files: "ensure_artifact_bundle sv f rw s = (b, s') \<Longrightarrow> af_files_in_bundles s' = af_files_in_bundles s"
  by (auto simp: ensure_artifact_bundle_def Let_def split: if_splits)

lemma results_files: "apply_results sv rs s = (b, s') \<Longrightarrow> af_files_in_bundles s' = af_files_in_bundles s"
proof (induction rs arbitrary: s b)
  case (Cons r rs)
  then show ?case
    by (cases r) (auto simp: Let_def add_artifact_def split: prod.splits if_splits dest!: Cons.IH ensure_files)
qed simp

lemma query_files: "query_sentry_for_file sv key s = (b, s') \<Longrightarrow> af_files_in_bundles s' = af_files_in_bundles s"
  by (auto simp: query_sentry_for_file_def query_sentry_for_files_def Let_def
      split: if_splits prod.splits sum.splits dest!: results_files)

lemma with_debug_id_typed:
  assumes "services_utf8 sv" and "cache_utf8 (af_files_in_bundles s)"
  shows "typed (try_get_file_with_debug_id sv key s)"
  unfolding try_get_file_with_debug_id_def
  by (intro or_else_typed by_debug_id_typed[OF assms(1)] by_path_typed[OF assms(1)] artifacts_typed[OF assms(1)] assms(2))
    (auto split: prod.splits bool.splits intro!: by_debug_id_typed[OF assms(1)] dest!: query_files)

lemma without_debug_id_typed:
  assumes "services_utf8 sv" and "cache_utf8 (af_files_in_bundles s)"
  shows "typed (try_get_file_without_debug_id sv key s)"
  unfolding try_get_file_without_debug_id_def
  by (intro or_else_typed by_path_typed[OF assms(1)] artifacts_typed[OF assms(1)] assms(2))
    (auto split: prod.splits bool.splits intro!: or_else_typed by_path_typed[OF assms(1)] artifacts_typed[OF assms(1)] dest!: query_files)

lemma scrape_typed:
  assumes "services_utf8 sv" and "cache_utf8 (af_files_in_bundles s)"
  shows "entry_utf8 (fst (scrape sv key s)) \<and> cache_utf8 (af_files_in_bundles (snd (scrape sv key s)))"
proof -
  have "utf8_valid c" if "js_fetch_file sv sc f sh = Inr c" for sc f sh c using assms(1) that by (auto simp: services_utf8_def)
  then show ?thesis using assms(2) unfolding scrape_def
    by (auto simp: Let_def entry_utf8_def file_contents_def empty_entry_def scrape_error_def split: option.splits sum.splits prod.splits)
qed

lemma get_file_typed:
  assumes "services_utf8 sv" and "cache_utf8 (af_files_in_bundles s)"
  shows "entry_utf8 (fst (get_file sv key s)) \<and> cache_utf8 (af_files_in_bundles (snd (get_file sv key s)))"
proof -
  obtain o1 s1 where c: "try_get_file_from_bundles_cached key (count NeededFiles s) = (o1, s1)" by fastforce
  have t1: "typed (o1, s1)" using cached_typed[of "count NeededFiles s" key] assms(2) c by simp
  show ?thesis
  proof (cases o1)
    case None
    obtain o2 s2 where l: "(if key_debug_id key \<noteq> None then try_get_file_with_debug_id sv key s1 else try_get_file_without_debug_id sv key s1) = (o2, s2)"
      by fastforce
    have t2: "typed (o2, s2)"
      using with_debug_id_typed[OF assms(1), of s1 key] without_debug_id_typed[OF assms(1), of s1 key] t1 None l by (auto split: if_splits)
    then show ?thesis using c None l scrape_typed[OF assms(1), of s2 key] by (cases o2) (simp_all add: get_file_def)
  qed (use c t1 in \<open>simp add: get_file_def\<close>)
qed

lemma apply_budget_typed:
  assumes "apply_sources_budget e s = (e', s')" and "entry_utf8 e"
  shows "entry_utf8 e' \<and> af_files_in_bundles s' = af_files_in_bundles s"
  using assms by (auto simp: apply_sources_budget_def entry_utf8_def Let_def split: sum.splits if_splits)

lemma fetch_minified_typed:
  assumes sv: "services_utf8 sv" and "cache_utf8 (af_files_in_bundles s)"
    and "fetch_minified_and_sourcemap sv p d s = ((minified, smcache), s')"
  shows "entry_utf8 minified \<and> cache_utf8 (af_files_in_bundles s')"
proof -
  obtain m0 s0 where g: "get_file sv (MinifiedSource p d) s = (m0, s0)" by fastforce
  note t0 = get_file_typed[OF sv assms(2), of "MinifiedSource p d", unfolded g fst_conv snd_conv]
  define s1 where "s1 = (case ce_entry m0 of
                 Inl _ \<Rightarrow> s0\<lparr>af_metrics := record_not_found FtSource (d \<noteq> None) (af_metrics s0)\<rparr>
               | Inr _ \<Rightarrow> s0)"
  have s1: "af_files_in_bundles s1 = af_files_in_bundles s0" unfolding s1_def by (simp split: sum.splits)
  obtain m s2 where b: "apply_sources_budget m0 s1 = (m, s2)" by fastforce
  note t2 = apply_budget_typed[OF b, unfolded s1]
  have fetched: "cache_utf8 (af_files_in_bundles s3)" if "get_file sv k s2 = (e, s3)" for k e s3
    using get_file_typed[OF sv, of s2 k] that t0 t2 by simp
  note run = assms(3)[unfolded fetch_minified_and_sourcemap_def g Let_def prod.case s1_def[symmetric] b]
  have "m = minified" using run by (auto split: if_splits prod.splits)
  moreover have "cache_utf8 (af_files_in_bundles s')"
    using run t0 t2 fetched
    by (auto split: if_splits prod.splits sum.splits option.splits source_map_url.splits)
  ultimately show ?thesis using t0 t2 by simp
qed

lemma get_module_typed:
  assumes sv: "services_utf8 sv" and l: "lookup_utf8 l"
  shows "lookup_utf8 (snd (get_module sv p l)) \<and> entry_utf8 (mo_minified_source (fst (get_module sv p l)))"
proof -
  define m where "m = (case sl_modules l p of Some m \<Rightarrow> m | None \<Rightarrow> source_map_module_new p None)"
  have m: "entry_utf8 (mo_minified_source m)"
    using l by (auto simp: m_def lookup_utf8_def source_map_module_new_def empty_entry_def split: option.splits)
  show ?thesis
  proof (cases "mo_was_fetched m")
    case True
    then show ?thesis using l m by (simp add: get_module_def m_def[symmetric] Let_def lookup_utf8_def)
  next
    case False
    obtain minified smcache s where f: "fetch_minified_and_sourcemap sv (mo_abs_path m) (mo_debug_id m) (sl_fetcher l) = ((minified, smcache), s)"
      by (metis surj_pair)
    have "entry_utf8 minified \<and> cache_utf8 (af_files_in_bundles s)"
      using fetch_minified_typed[OF sv _ f] l by (simp add: lookup_utf8_def)
    then show ?thesis using False f l by (simp add: get_module_def m_def[symmetric] Let_def lookup_utf8_def)
  qed
qed

lemma get_source_file_typed:
  assumes sv: "services_utf8 sv" and l: "lookup_utf8 l"
  shows "lookup_utf8 (snd (get_source_file sv k l)) \<and> entry_utf8 (fst (get_source_file sv k l))"
proof (cases "sl_files l k")
  case None
  obtain e s where g: "get_file sv k (sl_fetcher l) = (e, s)" by fastforce
  obtain e' s' where b: "apply_sources_budget e s = (e', s')" by fastforce
  have "entry_utf8 e \<and> cache_utf8 (af_files_in_bundles s)"
    using get_file_typed[OF sv, of "sl_fetcher l" k] g l by (simp add: lookup_utf8_def)
  then show ?thesis using None g b l apply_budget_typed[OF b] by (simp add: get_source_file_def Let_def lookup_utf8_def)
qed (use l in \<open>auto simp: get_source_file_def lookup_utf8_def\<close>)

interpretation typing: lookup_client sv "\<lambda>l. services_utf8 sv \<and> lookup_utf8 l" for sv
  using get_module_typed get_source_file_typed by unfold_locales blast+

section \<open>Symbolication never panics\<close>

definition frame_utf8 :: "js_frame \<Rightarrow> bool" where
  "frame_utf8 f \<longleftrightarrow> list_all utf8_valid (jf_pre_context f) \<and> pred_option utf8_valid (jf_context_line f) \<and> list_all utf8_valid (jf_post_context f)"

lemma snips_utf8: "utf8_valid snip_before" "utf8_valid snip_after"
  by (rule utf8_valid_ascii, simp add: snip_before_def snip_after_def is_ascii_char_def byte_of_def)+

lemma trimmed_utf8: "trimmed l c t \<Longrightarrow> utf8_valid t"
  by (auto simp: trimmed_def snips_utf8 intro!: utf8_valid_append)

lemma list_trimmed_utf8: "list_all2 (\<lambda>l t. trimmed l c t) ls ts \<Longrightarrow> list_all utf8_valid ts"
  by (induction ls ts rule: list_all2_induct) (auto dest: trimmed_utf8)

lemma context_default: "get_context_lines s l c None = get_context_lines s l c (Some DEFAULT_CONTEXT_LINES)"
  by (simp add: get_context_lines_def)

lemma context_lines_typed:
  assumes "utf8_valid src"
  shows "\<exists>r. get_context_lines src l c None = Ret r \<and> pred_option (\<lambda>(pre, context, post).
    list_all utf8_valid pre \<and> utf8_valid context \<and> list_all utf8_valid post) r"
proof -
  obtain r where r: "get_context_lines src l c None = Ret r"
    and t: "let ls = read_lines src; k = l - 1 in
        case r of None \<Rightarrow> length ls \<le> k
        | Some (pre, context, post) \<Rightarrow> k < length ls
            \<and> list_all2 (\<lambda>l t. trimmed l c t) (drop (k - DEFAULT_CONTEXT_LINES) (take k ls)) pre
            \<and> trimmed (ls ! k) c context
            \<and> list_all2 (\<lambda>l t. trimmed l c t) (take DEFAULT_CONTEXT_LINES (drop (Suc k) ls)) post"
    using context_lines_spec[OF assms, of l c DEFAULT_CONTEXT_LINES] unfolding context_default by blast
  show ?thesis
  proof (cases r)
    case (Some x)
    then show ?thesis using r t list_trimmed_utf8 trimmed_utf8 by (cases x) (auto simp: Let_def)
  qed (use r in simp)
qed

lemma apply_context_typed:
  assumes "utf8_valid src" and "frame_utf8 f"
  shows "\<exists>f'. js_apply_source_context f src = Ret f' \<and> frame_utf8 f'"
proof -
  obtain r where r: "get_context_lines src (unat (jf_lineno f)) (case jf_colno f of Some c \<Rightarrow> unat c | None \<Rightarrow> 0) None = Ret r"
      "pred_option (\<lambda>(pre, context, post). list_all utf8_valid pre \<and> utf8_valid context \<and> list_all utf8_valid post) r"
    using context_lines_typed[OF assms(1)] by blast
  then show ?thesis using assms(2)
    by (cases r) (auto simp: js_apply_source_context_def frame_utf8_def)
qed

lemma source_context_typed:
  assumes sv: "services_utf8 sv" and l: "lookup_utf8 (run_lookup r)"
    and t: "pred_option (\<lambda>tf. pred_option utf8_valid (tf_source tf)) (tk_file t)" and f: "frame_utf8 f"
  shows "\<exists>f' r'. original_source_context sv m p label t f r = Ret (f', r') \<and> frame_utf8 f'"
proof (cases "\<exists>tf. tk_file t = Some tf \<and> tf_source tf = None")
  case False
  show ?thesis
  proof (cases "tk_file t")
    case (Some tf)
    then obtain src where "tf_source tf = Some src" using False by auto
    with Some t have "utf8_valid src" by simp
    from apply_context_typed[OF this f] Some \<open>tf_source tf = Some src\<close> show ?thesis
      by (auto simp: original_source_context_def)
  qed (use f in \<open>simp add: original_source_context_def\<close>)
next
  case True
  then obtain tf where tf: "tk_file t = Some tf" "tf_source tf = None" by blast
  show ?thesis
  proof (cases "Option.bind (tf_name tf) (source_file_key m)")
    case None
    then show ?thesis using tf f by (simp add: original_source_context_def Let_def)
  next
    case (Some k)
    obtain e l' where g: "get_source_file sv k (run_lookup r) = (e, l')" by fastforce
    have e: "entry_utf8 e" using get_source_file_typed[OF sv l, of k] g by simp
    show ?thesis
    proof (cases "ce_entry e")
      case (Inl x)
      then show ?thesis using tf f Some g by (simp add: original_source_context_def Let_def)
    next
      case (Inr x)
      then have "utf8_valid (file_contents x)" using e by (simp add: entry_utf8_def)
      from apply_context_typed[OF this f] show ?thesis using tf Some g Inr
        by (auto simp: original_source_context_def Let_def)
    qed
  qed
qed

text \<open>
  The trace record of a frame is only printed on request. When it is, a long file whose last 61 bytes
  start inside a character panics, although it is valid UTF-8.
\<close>

definition libs_quiet :: "'m js_libs \<Rightarrow> bool" where
  "libs_quiet lib \<longleftrightarrow> libs_utf8 lib \<and> \<not> lib_trace lib"

lemma untraced: "libs_quiet lib \<Longrightarrow> trace_module lib m = Ret ()"
  by (simp add: libs_quiet_def trace_module_def split: sum.splits)

definition accented_text :: string where
  "accented_text = ''1234'' @ [char_of (195::nat), char_of (169::nat)] @ replicate 60 CHR ''x''"

lemma trace_output_panics:
  assumes "lib_trace lib" and "jf_lineno raw \<noteq> 0" and "get_module sv (jf_abs_path raw) (run_lookup r) = (m, l)"
    and "ce_entry (mo_minified_source m) = Inr f" and "cf_contents f = Some accented_text"
  shows "utf8_valid (file_contents f) \<and> symbolicate_js_frame sv lib raw callsite ctx r = Panic"
proof -
  have c: "file_contents f = accented_text" using assms(5) by (simp add: file_contents_def)
  have "utf8_valid accented_text" by code_simp
  moreover have "slice_from accented_text (length accented_text - 61) = Panic" by code_simp
  moreover have "length accented_text > 64" by (simp add: accented_text_def)
  ultimately show ?thesis
    using assms by (simp add: symbolicate_js_frame_def trace_module_def debug_cached_file_def c Let_def)
qed

lemma frame_typed:
  assumes sv: "services_utf8 sv" and lib: "libs_quiet lib" and l: "lookup_utf8 (run_lookup r)" and raw: "frame_utf8 raw"
  shows "\<exists>res raw' r'. symbolicate_js_frame sv lib raw callsite ctx r = Ret (res, raw', r') \<and> frame_utf8 raw'
    \<and> (\<forall>f. res = Inr f \<longrightarrow> frame_utf8 f)"
proof (cases "jf_lineno raw = 0")
  case True
  then show ?thesis using raw by (simp add: symbolicate_js_frame_def)
next
  case False
  obtain m l' where g: "get_module sv (jf_abs_path raw) (run_lookup r) = (m, l')" by fastforce
  have m: "lookup_utf8 l'" "entry_utf8 (mo_minified_source m)" using get_module_typed[OF sv l, of "jf_abs_path raw"] g by simp_all
  note unf = symbolicate_js_frame_def if_not_P[OF False] Let_def g prod.case untraced[OF lib] bind_out_simps
  show ?thesis
  proof (cases "ce_entry (mo_minified_source m)")
    case (Inl e)
    then show ?thesis using raw unfolding unf by simp
  next
    case (Inr mini)
    then have "utf8_valid (file_contents mini)" using m(2) by (simp add: entry_utf8_def)
    then obtain raw1 where raw1: "(if ctx then js_apply_source_context raw (file_contents mini) else Ret raw) = Ret raw1" "frame_utf8 raw1"
      using apply_context_typed[OF _ raw] raw by (cases ctx) auto
    note unf = unf Inr sum.case raw1(1) bind_out_simps
    show ?thesis
    proof (cases "mo_smcache m")
      case None
      then show ?thesis using raw1(2) unfolding unf by simp
    next
      case (Some sm)
      note unf = unf Some option.case
      have data: "frame_utf8 (raw1\<lparr>jf_data := d\<rparr>)" for d using raw1(2) by (simp add: frame_utf8_def)
      show ?thesis
      proof (cases "ce_entry sm")
        case (Inl e)
        then show ?thesis using raw1(2) data unfolding unf by (cases e) simp_all
      next
        case (Inr c)
        note unf = unf Inr sum.case
        show ?thesis
        proof (cases "lib_lookup lib c (jf_lineno raw - 1) (saturating_dec (case jf_colno raw of Some c \<Rightarrow> c | None \<Rightarrow> 0))")
          case None
          then show ?thesis using raw1(2) unfolding unf by simp
        next
          case (Some t)
          define f where "f = apply_token lib (mo_source_file_base m) (jf_function raw) callsite t
             ((clear_context raw)\<lparr>jf_data := (jf_data (clear_context raw))\<lparr>
                jd_sourcemap := Some (case remote_sourcemap_url mini of Some u \<Rightarrow> u | None \<Rightarrow> jf_abs_path raw),
                jd_sourcemap_origin := Some (ce_uri sm), jd_resolved_with := Some (ce_resolved_with sm)\<rparr>\<rparr>)"
          have f: "frame_utf8 f" by (simp add: f_def frame_utf8_def apply_token_frame clear_context_def)
          have t: "pred_option (\<lambda>tf. pred_option utf8_valid (tf_source tf)) (tk_file t)"
            using lib Some unfolding libs_quiet_def libs_utf8_def by blast
          have l: "lookup_utf8 (run_lookup (r\<lparr>run_lookup := l'\<rparr>))" using m(1) by simp
          show ?thesis
            unfolding unf Some option.case f_def[symmetric]
            using f raw1(2) source_context_typed[OF sv l t f, of m "jf_abs_path raw"] by (cases ctx) fastforce+
        qed
      qed
    qed
  qed
qed

lemma frames_typed:
  assumes "services_utf8 sv" and "libs_quiet lib" and "lookup_utf8 (run_lookup r)" and "list_all frame_utf8 raws"
  shows "\<exists>fs raws' r'. js_frames_loop sv lib ctx callsite raws r = Ret (fs, raws', r')
    \<and> list_all frame_utf8 fs \<and> list_all frame_utf8 raws' \<and> lookup_utf8 (run_lookup r')"
  using assms(3,4)
proof (induction raws arbitrary: callsite r)
  case (Cons raw raws)
  then have "frame_utf8 raw" by simp
  from frame_typed[OF assms(1,2) Cons.prems(1) this] obtain res raw1 r1 where f: "symbolicate_js_frame sv lib raw callsite ctx r = Ret (res, raw1, r1)"
      "frame_utf8 raw1" "\<And>f. res = Inr f \<Longrightarrow> frame_utf8 f" by metis
  have l: "lookup_utf8 (run_lookup r1)" using typing.frame_keeps[OF f(1)] assms(1) Cons.prems(1) by blast
  have "list_all frame_utf8 raws" using Cons.prems(2) by simp
  note IH = Cons.IH[OF _ this]
  show ?case
  proof (cases res)
    case (Inl k)
    let ?r = "add_error (jf_abs_path raw1) k
        (r1\<lparr>run_stats := (run_stats r1)\<lparr>st_unsymbolicated := bump (jf_platform raw1) (st_unsymbolicated (run_stats r1))\<rparr>\<rparr>)"
    have "lookup_utf8 (run_lookup ?r)" using l by (simp add: add_error_def)
    from IH[OF this, of None] show ?thesis using f(1,2) Inl by auto
  next
    case (Inr x)
    let ?r = "r1\<lparr>run_stats := (run_stats r1)\<lparr>st_symbolicated := bump (jf_platform raw1) (st_symbolicated (run_stats r1))\<rparr>\<rparr>"
    have "lookup_utf8 (run_lookup ?r)" using l by simp
    from IH[OF this, of "jf_token_name x"] show ?thesis using f Inr by (auto simp: frame_utf8_def)
  qed
qed simp

lemma stacktrace_typed:
  assumes "services_utf8 sv" and "libs_quiet lib" and "lookup_utf8 (run_lookup r)" and "list_all frame_utf8 raws"
  shows "\<exists>fs raws' r'. symbolicate_js_stacktrace sv lib order ctx raws r = Ret (fs, raws', r')
    \<and> list_all frame_utf8 fs \<and> list_all frame_utf8 raws' \<and> lookup_utf8 (run_lookup r')"
  using frames_typed[OF assms(1-3), of raws ctx None] frames_typed[OF assms(1-3), of "rev raws" ctx None] assms(4)
  by (cases order) (auto simp: symbolicate_js_stacktrace_def)

lemma stacktraces_typed:
  assumes "services_utf8 sv" and "libs_quiet lib" and "lookup_utf8 (run_lookup r)" and "list_all (list_all frame_utf8) ts"
  shows "\<exists>fss rawss r'. js_stacktraces_loop sv lib order ctx ts r = Ret (fss, rawss, r')
    \<and> list_all (list_all frame_utf8) fss \<and> list_all (list_all frame_utf8) rawss \<and> lookup_utf8 (run_lookup r')"
  using assms(3,4)
proof (induction ts arbitrary: r)
  case (Cons t ts)
  then have "list_all frame_utf8 t" by simp
  from stacktrace_typed[OF assms(1,2) Cons.prems(1) this, of order ctx] obtain fs raws r1 where
    t: "symbolicate_js_stacktrace sv lib order ctx t r = Ret (fs, raws, r1)" "list_all frame_utf8 fs" "list_all frame_utf8 raws"
      "lookup_utf8 (run_lookup r1)" by blast
  from Cons.IH[OF t(4)] Cons.prems(2) t show ?case by auto
qed simp

lemma empty_entry_utf8: "entry_size e = 0 \<Longrightarrow> entry_utf8 e"
  by (simp add: entry_size_def entry_utf8_def split: sum.splits)

lemma prepared_utf8:
  assumes "cache_utf8 fb"
  shows "lookup_utf8 (prepared_lookup sv n fb api req)"
proof -
  have "unfetched (sl_modules (prepared_lookup sv n fb api req))"
    using prepare_modules_unfetched[OF new_modules_unfetched[of sv n fb api req]] by (simp add: prepared_lookup_def Let_def)
  then have "entry_utf8 (mo_minified_source m)" if "sl_modules (prepared_lookup sv n fb api req) p = Some m" for p m
    using that empty_entry_utf8 unfolding unfetched_def by blast
  then show ?thesis using assms by (auto simp: lookup_utf8_def) (auto simp: prepared_lookup_def source_map_lookup_new_def Let_def)
qed

lemma prepared_frames_utf8:
  assumes "list_all (list_all frame_utf8) ts"
  shows "list_all (list_all frame_utf8) (fst (prepare_modules ts mods))"
  using assms
proof (induction ts arbitrary: mods)
  case (Cons t ts)
  have "frame_utf8 (strip_async f) = frame_utf8 f" for f by (simp add: strip_async_def frame_utf8_def split: option.splits)
  then show ?case using Cons by (auto simp: prepare_frames_spec Let_def list_all_iff split: prod.splits) (metis fst_conv)
qed simp

lemma request_typed:
  assumes "services_utf8 sv" and "libs_quiet lib" and "cache_utf8 fb" and "list_all (list_all frame_utf8) (jr_stacktraces req)"
  shows "\<exists>resp sub st. symbolicate_js sv lib n fb api req = Ret (resp, sub, st)
    \<and> list_all (list_all frame_utf8) (js_stacktraces resp) \<and> list_all (list_all frame_utf8) (js_raw_stacktraces resp)"
proof -
  let ?r = "\<lparr>run_lookup = prepared_lookup sv n fb api req, run_errors = [], run_stats = no_js_stats\<rparr>"
  have "lookup_utf8 (run_lookup ?r)" using prepared_utf8[OF assms(3)] by simp
  from stacktraces_typed[OF assms(1,2) this prepared_frames_utf8[OF assms(4)]] show ?thesis
    unfolding prepared_run by fastforce
qed

end
