(* ===== verification/JsProperties.thy ===== *)
theory JsProperties
  imports JsSafety JsTyping
begin

text \<open>
  The properties of JavaScript symbolication, and a small world in which their hypotheses hold: one
  artifact bundle with a minified file and its source map, under one debug id.
\<close>

section \<open>A small world\<close>

definition demo_id :: debug_id_t where
  "demo_id = \<lparr>uuid = [], appendix = 0\<rparr>"

definition demo_services :: "(unit, unit, unit) js_services" where
  "demo_services = \<lparr>
     js_decode = (\<lambda>_. None), js_discover_map = (\<lambda>_. None), js_discover_id = (\<lambda>_. None), js_id_text = (\<lambda>_. ''d''),
     js_parse_id = (\<lambda>_. Some demo_id), js_lower = id,
     js_durations = \<lparr>format_duration = (\<lambda>_. []), parse_duration = (\<lambda>_. None), debug_duration = (\<lambda>_. [])\<rparr>,
     js_parse_url = (\<lambda>_. Inl ''relative URL''), js_set_fragment = (\<lambda>u _. pu_str u),
     js_query_url = (\<lambda>u _. u), js_idna = Some, js_sha = (\<lambda>_. []), js_now = 0, js_reserved_ips = False,
     js_fetch_file = (\<lambda>_ _ _. Inl NotFound), js_fetch_object = (\<lambda>_ _. Inr ()),
     js_open = (\<lambda>_. SourceBundle (Some ())),
     js_by_debug_id = (\<lambda>_ _ t. if t = FtSource then None else Some \<lparr>ds_mapping_url = None, ds_contents = Some ''min''\<rparr>),
     js_by_url = (\<lambda>_ _. None),
     js_api = (\<lambda>_. Finished (Inr [RawBundle ''1'' ''u'' RwDebugId])),
     js_smcache = (\<lambda>_ _. Inr ())\<rparr>"

definition demo_token :: js_token where
  "demo_token = \<lparr>tk_name = Some ''f'', tk_scope = NamedScope ''g'', tk_file_name = None,
     tk_file = Some \<lparr>tf_name = None, tf_source = Some ''orig''\<rparr>, tk_line = 0, tk_column = 0\<rparr>"

definition demo_libs :: "unit js_libs" where
  "demo_libs = \<lparr>lib_trace = False, lib_lookup = (\<lambda>_ _ _. Some demo_token), lib_clean_module = id\<rparr>"

definition demo_frame :: js_frame where
  "demo_frame = \<lparr>jf_platform = None, jf_function = None, jf_filename = None, jf_module = None, jf_abs_path = ''x'',
     jf_lineno = 1, jf_colno = None, jf_pre_context = [], jf_context_line = None, jf_post_context = [],
     jf_token_name = None, jf_data = \<lparr>jd_sourcemap = None, jd_sourcemap_origin = None, jd_resolved_with = None, jd_symbolicated = False\<rparr>\<rparr>"

definition demo_js_request :: js_request where
  "demo_js_request = \<lparr>jr_platform = None, jr_scope = Global, jr_source = \<lparr>se_id = ''s'', se_url = ''q'', se_credentials = []\<rparr>,
     jr_release = None, jr_dist = None, jr_stacktraces = [[demo_frame]],
     jr_modules = [\<lparr>jm_code_file = ''x'', jm_debug_id = ''d''\<rparr>],
     jr_scraping = \<lparr>sc_enabled = False, sc_verify_ssl = True, sc_allowed_origins = [], sc_headers = []\<rparr>,
     jr_apply_source_context = True, jr_frame_order = CalleeFirst\<rparr>"

definition demo_lookup :: "(unit, unit, unit) source_map_lookup" where
  "demo_lookup = prepared_lookup demo_services (Some 10) Map.empty Map.empty demo_js_request"

definition demo_run :: "(unit, unit, unit) js_run" where
  "demo_run = \<lparr>run_lookup = demo_lookup, run_errors = [], run_stats = no_js_stats\<rparr>"

text \<open>A state in which the bundle is open.\<close>

definition demo_fetcher :: "(unit, unit) artifact_fetcher" where
  "demo_fetcher = (sl_fetcher demo_lookup)\<lparr>af_bundles := [(''b'', Inr (((), ()), RwUrl))]\<rparr>"

text \<open>A run in which the module is already there.\<close>

definition demo_module :: "unit source_map_module" where
  "demo_module = \<lparr>mo_abs_path = ''x'', mo_debug_id = Some demo_id, mo_was_fetched = True, mo_source_file_base = Some ''x'',
     mo_minified_source = \<lparr>ce_uri = Embedded, ce_entry = Inr \<lparr>cf_contents = Some ''min'', cf_sourcemap_url = None, cf_debug_id = None\<rparr>,
       ce_resolved_with = RwDebugId\<rparr>,
     mo_smcache = Some \<lparr>ce_uri = Embedded, ce_entry = Inr (), ce_resolved_with = RwDebugId\<rparr>\<rparr>"

definition demo_fetched_run :: "(unit, unit, unit) js_run" where
  "demo_fetched_run = demo_run\<lparr>run_lookup := demo_lookup\<lparr>sl_modules := [''x'' \<mapsto> demo_module]\<rparr>\<rparr>"

lemma demo_texts: "utf8_valid ''min''" "utf8_valid ''orig''" "utf8_valid []"
  by (rule utf8_valid_ascii, simp add: is_ascii_char_def byte_of_def)+

lemma demo_typed:
  "services_utf8 demo_services" "libs_utf8 demo_libs" "cache_utf8 Map.empty" "list_all (list_all frame_utf8) (jr_stacktraces demo_js_request)"
  by (auto simp: services_utf8_def descriptor_utf8_def demo_services_def libs_utf8_def demo_libs_def demo_token_def cache_utf8_def
      frame_utf8_def demo_js_request_def demo_frame_def demo_texts split: if_splits)

lemma demo_quiet: "\<not> lib_trace demo_libs"
  by (simp add: demo_libs_def)

lemma demo_quiet_libs: "libs_quiet demo_libs"
  using demo_typed(2) demo_quiet by (simp add: libs_quiet_def)

section \<open>Types\<close>

text \<open>
  C34. If the texts that the caches, bundles and source maps deliver are valid UTF-8 and the log does not
  print records of level trace, then a request is answered: no slice of a line panics, and every source
  line of the response is valid UTF-8, whatever lines, columns and paths the frames name. With trace
  records in the log a file of more than 64 bytes may make a request panic (\<open>trace_output_panics\<close>).
\<close>

theorem js_request_typed:
  assumes "services_utf8 sv" and "libs_utf8 lib" and "\<not> lib_trace lib" and "cache_utf8 fb"
    and "list_all (list_all frame_utf8) (jr_stacktraces req)"
  shows "\<exists>resp sub st. symbolicate_js sv lib n fb api req = Ret (resp, sub, st)
    \<and> list_all (list_all frame_utf8) (js_stacktraces resp) \<and> list_all (list_all frame_utf8) (js_raw_stacktraces resp)"
  using request_typed[OF assms(1) _ assms(4,5)] assms(2,3) by (simp add: libs_quiet_def)

theorem js_request_typed_witness:
  "\<exists>resp sub st. symbolicate_js demo_services demo_libs (Some 10) Map.empty Map.empty demo_js_request = Ret (resp, sub, st)
    \<and> list_all (list_all frame_utf8) (js_stacktraces resp) \<and> list_all (list_all frame_utf8) (js_raw_stacktraces resp)"
  by (rule js_request_typed[OF demo_typed(1,2) demo_quiet demo_typed(3,4)])

section \<open>What is asked of the outside world\<close>


section \<open>Bounds\<close>

text \<open>
  C6. Whatever a request does, the source text it holds and what is left of its budget add up to the
  configured budget; it looks for at most two files for every module and one for every source; the
  files found in bundles, as artifacts and by scraping are together at most the files looked for, and so are
  the API requests; every file found in a bundle is counted with the method that found the bundle.
\<close>

theorem js_request_bounded:
  assumes "js_stacktraces_loop sv lib order ctx raws \<lparr>run_lookup = prepared_lookup sv n fb api req, run_errors = es, run_stats = st\<rparr>
      = Ret (fss, rawss, r)"
  shows "let l = run_lookup r; s = sl_fetcher l; m = af_metrics s in
     retained l + af_budget s = sources_budget n
     \<and> m NeededFiles \<le> 2 * card (fetched_modules l) + card (dom (sl_files l))
     \<and> total via_bundle m + m FetchedArtifacts + m ScrapedFiles \<le> m NeededFiles
     \<and> m ApiRequests \<le> m NeededFiles
     \<and> total via_bundle m = total bundles_by_method m
     \<and> m FetchedBundles = length (af_bundles s)"
  using request_bounded[OF assms] by (simp add: Let_def served_def)

theorem js_request_bounded_witness:
  "\<exists>fss rawss r. js_stacktraces_loop demo_services demo_libs CalleeFirst True [[demo_frame]] demo_run = Ret (fss, rawss, r)
     \<and> retained (run_lookup r) + af_budget (sl_fetcher (run_lookup r)) = 10"
proof -
  have "lookup_utf8 (run_lookup demo_run)"
    using prepared_utf8[OF demo_typed(3)] by (simp add: demo_run_def demo_lookup_def)
  moreover have "list_all (list_all frame_utf8) [[demo_frame]]" using demo_typed(4) by (simp add: demo_js_request_def)
  ultimately obtain fss rawss r where r: "js_stacktraces_loop demo_services demo_libs CalleeFirst True [[demo_frame]] demo_run = Ret (fss, rawss, r)"
    using stacktraces_typed[OF demo_typed(1) demo_quiet_libs] by blast
  show ?thesis
    using js_request_bounded[OF r[unfolded demo_run_def demo_lookup_def]] r by (simp add: Let_def sources_budget_def)
qed

section \<open>Frames\<close>

text \<open>
  C27. Every frame of a request has exactly one frame in the response, in its place and with its
  platform; the frames of a platform are counted as symbolicated or not, each once; and the raw frames
  are returned with only their source context and the origin of their source map changed.
\<close>

theorem js_frames_accounted:
  assumes "symbolicate_js sv lib n fb api req = Ret (resp, sub, st)"
  shows "map (map jf_platform) (js_stacktraces resp) = map (map jf_platform) (jr_stacktraces req)
     \<and> list_all2 (list_all2 raw_updated) (map (map strip_async) (jr_stacktraces req)) (js_raw_stacktraces resp)
     \<and> st_symbolicated st p + st_unsymbolicated st p = length (filter (\<lambda>f. jf_platform f = p) (concat (jr_stacktraces req)))
     \<and> st_num_stacktraces st = length (jr_stacktraces req)"
  by (rule request_accounted[OF assms])

theorem js_frames_accounted_witness:
  "\<exists>resp sub st. symbolicate_js demo_services demo_libs (Some 10) Map.empty Map.empty demo_js_request = Ret (resp, sub, st)
     \<and> map length (js_stacktraces resp) = [1] \<and> st_symbolicated st None + st_unsymbolicated st None = 1"
proof -
  obtain resp sub st where r: "symbolicate_js demo_services demo_libs (Some 10) Map.empty Map.empty demo_js_request = Ret (resp, sub, st)"
    using request_typed[OF demo_typed(1) demo_quiet_libs demo_typed(3,4)] by blast
  have "map (map jf_platform) (js_stacktraces resp) = [[None]]" "st_symbolicated st None + st_unsymbolicated st None = 1"
    using js_frames_accounted[OF r, of None] by (simp_all add: demo_js_request_def demo_frame_def)
  then show ?thesis using r by fastforce
qed

text \<open>
  An unminified frame never keeps the source lines of the minified file: its context is empty, or
  it is the context, at the position of the token, of the original source that the source map embeds or names.
\<close>

theorem js_context_original:
  assumes "symbolicate_js_frame sv lib raw callsite ctx r = Ret (Inr f, raw', r')"
    and "get_module sv (jf_abs_path raw) (run_lookup r) = (m, l)" and "mo_smcache m = Some sm"
  shows "jd_symbolicated (jf_data f)
    \<and> (jf_pre_context f = [] \<and> jf_context_line f = None \<and> jf_post_context f = []
       \<or> (\<exists>c t src. ce_entry sm = Inr c
            \<and> lib_lookup lib c (jf_lineno raw - 1) (saturating_dec (case jf_colno raw of Some c \<Rightarrow> c | None \<Rightarrow> 0)) = Some t
            \<and> is_original sv m l t src
            \<and> (case get_context_lines src (unat (saturating_inc (tk_line t))) (unat (saturating_inc (tk_column t))) None of
                 Ret (Some (pre, line, post)) \<Rightarrow> jf_pre_context f = pre \<and> jf_context_line f = Some line \<and> jf_post_context f = post
               | _ \<Rightarrow> False)))"
  by (rule symbolicated_context[OF assms])

theorem js_context_original_witness:
  "\<exists>f raw' r'. symbolicate_js_frame demo_services demo_libs demo_frame None True demo_fetched_run = Ret (Inr f, raw', r') \<and> jd_symbolicated (jf_data f)"
proof -
  let ?l = "run_lookup demo_fetched_run"
  have g: "get_module demo_services (jf_abs_path demo_frame) ?l = (demo_module, ?l)"
    by (simp add: get_module_def demo_fetched_run_def demo_frame_def demo_module_def fun_upd_idem Let_def)
  obtain raw1 where raw1: "js_apply_source_context demo_frame ''min'' = Ret raw1"
    using apply_context_typed[OF demo_texts(1), of demo_frame] demo_typed(4) by (auto simp: demo_js_request_def)
  define f0 where "f0 = apply_token demo_libs (Some ''x'') None None demo_token ((clear_context demo_frame)\<lparr>jf_data :=
    \<lparr>jd_sourcemap = Some ''x'', jd_sourcemap_origin = Some Embedded, jd_resolved_with = Some RwDebugId, jd_symbolicated = False\<rparr>\<rparr>)"
  have "frame_utf8 f0" by (simp add: f0_def frame_utf8_def apply_token_frame clear_context_def)
  then obtain f where f: "js_apply_source_context f0 ''orig'' = Ret f" using apply_context_typed[OF demo_texts(2)] by blast
  have t: "tk_file demo_token = Some \<lparr>tf_name = None, tf_source = Some ''orig''\<rparr>" "lib_lookup demo_libs c l k = Some demo_token" for c l k
    by (simp_all add: demo_token_def demo_libs_def)
  have "symbolicate_js_frame demo_services demo_libs demo_frame None True demo_fetched_run
      = map_out (\<lambda>(f, r). (Inr f, raw1, r)) (original_source_context demo_services demo_module ''x'' ''x'' demo_token f0 demo_fetched_run)"
    using raw1 g unfolding f0_def symbolicate_js_frame_def Let_def untraced[OF demo_quiet_libs]
    by (simp add: t demo_module_def file_contents_def remote_sourcemap_url_def) (simp add: demo_frame_def clear_context_def)
  also have "\<dots> = Ret (Inr f, raw1, demo_fetched_run)" using f by (simp add: original_source_context_def t)
  finally have "symbolicate_js_frame demo_services demo_libs demo_frame None True demo_fetched_run = Ret (Inr f, raw1, demo_fetched_run)" .
  then show ?thesis using js_context_original[OF _ g] by (auto simp: demo_module_def)
qed

text \<open>
  The order of the frames in a request is only presentation: a request with callers first is
  answered like the same request with callees first, with every trace reversed.
\<close>

theorem js_frame_order_equivalent:
  "symbolicate_js sv lib n fb api ((reverse_js_traces req)\<lparr>jr_frame_order := CalleeFirst\<rparr>) =
    map_out (\<lambda>(resp, sub, st). (reverse_js_response resp, sub, st)) (symbolicate_js sv lib n fb api (req\<lparr>jr_frame_order := CallerFirst\<rparr>))"
  using js_frame_order[of "req\<lparr>jr_frame_order := CallerFirst\<rparr>" sv lib n fb api] by (simp add: reverse_js_traces_def)

section \<open>Files\<close>

text \<open>
  C33. A file with a debug id that was not answered from the cache of bundled files comes from the bundle
  that has it under this debug id, if any bundle known after the lookup has it: neither a file of the same
  path, nor an individual artifact, nor the web is preferred.
\<close>

theorem js_debug_id_first:
  assumes "key_debug_id key = Some d"
    and "fst (try_get_file_from_bundles_cached key (count NeededFiles s)) = None"
    and "bundled_by_debug_id sv key d (af_bundles (snd (get_file sv key s))) = Some e"
  shows "fst (get_file sv key s) = e"
  by (rule debug_id_wins[OF assms])

theorem js_debug_id_first_witness:
  "fst (get_file demo_services (MinifiedSource ''x'' (Some demo_id)) demo_fetcher)
     = \<lparr>ce_uri = Bundled ''b'' (MinifiedSource ''x'' (Some demo_id)),
        ce_entry = Inr \<lparr>cf_contents = Some ''min'', cf_sourcemap_url = None, cf_debug_id = None\<rparr>, ce_resolved_with = RwDebugId\<rparr>"
proof -
  let ?k = "MinifiedSource ''x'' (Some demo_id)"
  have c: "try_get_file_from_bundles_cached ?k (count NeededFiles demo_fetcher) = (None, count NeededFiles demo_fetcher)"
    by (simp add: try_get_file_from_bundles_cached_def demo_fetcher_def demo_lookup_def prepared_lookup_def source_map_lookup_new_def count_def Let_def)
  have "af_bundles (snd (get_file demo_services ?k demo_fetcher)) = [(''b'', Inr (((), ()), RwUrl))]"
    by (simp add: get_file_def c key_debug_id_def try_get_file_with_debug_id_def try_get_file_from_bundles_by_debug_id_def or_else_def)
      (simp add: demo_fetcher_def count_def demo_services_def as_type_def Let_def)
  then show ?thesis
    by (intro js_debug_id_first) (simp_all add: c key_debug_id_def bundled_by_debug_id_def demo_services_def as_type_def
        from_descriptor_def key_abs_path_def)
qed

end
