(* ===== verification/Derived.thy ===== *)
theory Derived
  imports Objects
begin

text \<open>
  \<open>symbolicator-native/src/caches/\<close>: the services that derive symcaches, portable PDB caches and CFI
  caches from an object, with the bitcode symbol maps and il2cpp line mappings that go into a
  symcache. Parsers and converters of the \<open>symbolic\<close> crate are parameters; the answer of a computing
  cache for a key is a parameter too, and the file operations on temporary files succeed.
\<close>

section \<open>Shared services\<close>

record services =
  sv_ext :: externals
  sv_durations :: duration_text
  sv_sha :: "string \<Rightarrow> 8 word list"
  sv_uri :: "remote_file \<Rightarrow> string"
  sv_index :: "source_config \<Rightarrow> source_index option"
  sv_sentry :: "string \<Rightarrow> remote_file list cache_contents"
  sv_meta :: "cache_key \<Rightarrow> remote_file \<Rightarrow> object_features cache_contents"

definition find_with :: "services \<Rightarrow> file_type list \<Rightarrow> object_purpose \<Rightarrow> scope \<Rightarrow> object_id \<Rightarrow> source_config list
    \<Rightarrow> find_result outcome" where
  "find_with sv = find_object (sv_ext sv) (sv_durations sv) (sv_sha sv) (sv_uri sv) (sv_index sv) (sv_sentry sv) (sv_meta sv)"

section \<open>Deriving from an object\<close>

record 'c derived_cache =
  dc_cache :: "'c cache_contents"
  dc_candidates :: all_candidates
  dc_features :: object_features

definition use_info_of_derived :: "duration_text \<Rightarrow> 'c cache_contents \<Rightarrow> object_use_info" where
  "use_info_of_derived D c = (case c of
      Inr _ \<Rightarrow> UseOk
    | Inl NotFound \<Rightarrow> UseError ''Object file no longer available''
    | Inl (Malformed _) \<Rightarrow> UseMalformed
    | Inl e \<Rightarrow> UseError (error_to_string D e))"

definition use_info_of_lookup_error :: "cache_error \<Rightarrow> object_use_info" where
  "use_info_of_lookup_error e = (case e of
      NotFound \<Rightarrow> UseNone
    | PermissionDenied _ \<Rightarrow> UseNone
    | Timeout _ \<Rightarrow> UseNone
    | DownloadError _ \<Rightarrow> UseNone
    | _ \<Rightarrow> UseMalformed)"

definition derive_from_object_handle ::
    "duration_text \<Rightarrow> (remote_file \<Rightarrow> string) \<Rightarrow> find_result \<Rightarrow> candidate_status \<Rightarrow> (remote_file \<Rightarrow> 'c cache_contents outcome)
      \<Rightarrow> 'c derived_cache outcome" where
  "derive_from_object_handle D uri fr status derive =
     (case found fr of
        None \<Rightarrow> Ret \<lparr>dc_cache = Inl NotFound, dc_candidates = candidates fr, dc_features = default_features\<rparr>
      | Some m \<Rightarrow>
          bind_out
            (case handle m of
               Inr features \<Rightarrow> map_out (\<lambda>c. (c, use_info_of_derived D c, features)) (derive (file_source m))
             | Inl e \<Rightarrow> Ret (Inl e, use_info_of_lookup_error e, default_features))
            (\<lambda>(c, info, features).
              map_out (\<lambda>cs. \<lparr>dc_cache = c, dc_candidates = cs, dc_features = features\<rparr>)
                (set_status status (remote_source_id (file_source m)) (uri (file_source m)) info (candidates fr))))"

section \<open>Auxiliary files\<close>

datatype aux_dif_kind = AuxBcSymbolMap | AuxUuidMap

definition aux_file_types :: "aux_dif_kind \<Rightarrow> file_type list" where
  "aux_file_types k = (case k of AuxBcSymbolMap \<Rightarrow> [BcSymbolMap] | AuxUuidMap \<Rightarrow> [UuidMap])"

text \<open>The parsers: the text of the error, or what the code uses of the result.\<close>

record aux_parsers =
  bcsymbolmap_error :: "string \<Rightarrow> string option"
  parse_plist :: "debug_id_t \<Rightarrow> string \<Rightarrow> string + debug_id_t"
  line_mapping_ok :: "string \<Rightarrow> bool"

definition fetch_auxdif :: "aux_parsers \<Rightarrow> aux_dif_kind \<Rightarrow> debug_id_t \<Rightarrow> string cache_contents \<Rightarrow> (string \<Rightarrow> string + string)
    \<Rightarrow> string \<Rightarrow> unit cache_contents \<times> string" where
  "fetch_auxdif P kind i download decompress temp =
     (case fetch_file download decompress temp of
        (Inl err, temp) \<Rightarrow> (Inl err, temp)
      | (Inr _, temp) \<Rightarrow>
          (case kind of
             AuxBcSymbolMap \<Rightarrow>
               (case bcsymbolmap_error P temp of Some e \<Rightarrow> (Inl (Malformed e), temp) | None \<Rightarrow> (Inr (), temp))
           | AuxUuidMap \<Rightarrow>
               (case parse_plist P i temp of Inl e \<Rightarrow> (Inl (Malformed e), temp) | Inr _ \<Rightarrow> (Inr (), temp))))"

definition fetch_il2cpp :: "aux_parsers \<Rightarrow> string cache_contents \<Rightarrow> (string \<Rightarrow> string + string) \<Rightarrow> string
    \<Rightarrow> unit cache_contents \<times> string" where
  "fetch_il2cpp P download decompress temp =
     (case fetch_file download decompress temp of
        (Inl err, temp) \<Rightarrow> (Inl err, temp)
      | (Inr _, temp) \<Rightarrow>
          if line_mapping_ok P temp then (Inr (), temp) else (Inl (Malformed ''Failed to parse il2cpp''), temp))"

record aux_handle =
  aux_file :: remote_file
  aux_data :: string

type_synonym aux_cache = "cache_key \<Rightarrow> remote_file \<Rightarrow> string cache_contents"

fun find_ok :: "(remote_file \<times> string cache_contents) list \<Rightarrow> aux_handle option" where
  "find_ok [] = None"
| "find_ok ((f, Inr d) # rs) = Some \<lparr>aux_file = f, aux_data = d\<rparr>"
| "find_ok ((f, Inl _) # rs) = find_ok rs"

text \<open>All listed files are requested; the first one there is wins.\<close>

definition fetch_first :: "services \<Rightarrow> aux_cache \<Rightarrow> file_type list \<Rightarrow> scope \<Rightarrow> object_id \<Rightarrow> source_config list
    \<Rightarrow> aux_handle option outcome" where
  "fetch_first sv cache fts sc i sources =
     map_out (\<lambda>fs. find_ok (map (\<lambda>(f, _). (f, cache (from_scoped_file (sv_sha sv) (sv_uri sv) (lookup_scope sc f) f) f)) fs))
       (list_files (sv_ext sv) (sv_index sv) (sv_sentry sv) sources fts i)"

definition fetch_file_from_all_sources :: "services \<Rightarrow> (aux_dif_kind \<Rightarrow> debug_id_t \<Rightarrow> aux_cache) \<Rightarrow> debug_id_t \<Rightarrow> aux_dif_kind
    \<Rightarrow> scope \<Rightarrow> source_config list \<Rightarrow> aux_handle option outcome" where
  "fetch_file_from_all_sources sv cache i kind sc sources =
     fetch_first sv (cache kind i) (aux_file_types kind) sc (object_id_from_debug_id i) sources"

definition fetch_bcsymbolmap :: "services \<Rightarrow> aux_parsers \<Rightarrow> (aux_dif_kind \<Rightarrow> debug_id_t \<Rightarrow> aux_cache) \<Rightarrow> debug_id_t
    \<Rightarrow> scope \<Rightarrow> source_config list \<Rightarrow> aux_handle option outcome" where
  "fetch_bcsymbolmap sv P cache i sc sources =
     bind_out (fetch_file_from_all_sources sv cache i AuxUuidMap sc sources) (\<lambda>plist.
       case plist of
         None \<Rightarrow> Ret None
       | Some p \<Rightarrow>
           (case parse_plist P i (aux_data p) of
              Inl _ \<Rightarrow> Ret None
            | Inr original \<Rightarrow> fetch_file_from_all_sources sv cache original AuxBcSymbolMap sc sources))"

definition fetch_line_mapping :: "services \<Rightarrow> aux_cache \<Rightarrow> object_id \<Rightarrow> scope \<Rightarrow> source_config list
    \<Rightarrow> aux_handle option outcome" where
  "fetch_line_mapping sv cache i sc sources = fetch_first sv cache [file_type.Il2cpp] sc i sources"

section \<open>Symcaches\<close>

text \<open>\<open>ObjectMetaHandle::cache_key_builder\<close> of a file looked up under a scope.\<close>

definition handle_key_builder :: "services \<Rightarrow> scope \<Rightarrow> remote_file \<Rightarrow> cache_key_builder" where
  "handle_key_builder sv sc f = write_file_meta (sv_uri sv) f (scoped_builder sc)"

definition write_secondary :: "services \<Rightarrow> string \<Rightarrow> aux_handle option \<Rightarrow> cache_key_builder \<Rightarrow> cache_key_builder" where
  "write_secondary sv name h b =
     (case h of None \<Rightarrow> b
      | Some h \<Rightarrow> write_file_meta (sv_uri sv) (aux_file h) (write_str ([CHR 0x0A] @ name @ '':'' @ [CHR 0x0A]) b))"

definition symcache_key :: "services \<Rightarrow> scope \<Rightarrow> remote_file \<Rightarrow> aux_handle option \<Rightarrow> aux_handle option \<Rightarrow> cache_key" where
  "symcache_key sv sc f bc il =
     build_key (sv_sha sv)
       (write_secondary sv ''il2cpp'' il (write_secondary sv ''bcsymbolmap'' bc (handle_key_builder sv sc f)))"

record symcache_request =
  sr_object :: remote_file
  sr_bcsymbolmap :: "aux_handle option"
  sr_il2cpp :: "aux_handle option"
  sr_extract_variables :: bool

record aux_services =
  as_parsers :: aux_parsers
  as_auxdifs :: "aux_dif_kind \<Rightarrow> debug_id_t \<Rightarrow> aux_cache"
  as_il2cpp :: aux_cache

definition symcache_fetch :: "services \<Rightarrow> aux_services \<Rightarrow> (cache_key \<Rightarrow> symcache_request \<Rightarrow> 's cache_contents)
    \<Rightarrow> object_type \<Rightarrow> object_id \<Rightarrow> bool \<Rightarrow> scope \<Rightarrow> source_config list \<Rightarrow> 's derived_cache outcome" where
  "symcache_fetch sv ax symcaches ot i extract sc sources =
     bind_out (find_with sv (from_object_type ot) PurposeDebug sc i sources) (\<lambda>fr.
       derive_from_object_handle (sv_durations sv) (sv_uri sv) fr StatusDebug (\<lambda>f.
         let hs = lookup_scope sc f in
         bind_out (case debug_id i of
                     Some d \<Rightarrow> fetch_bcsymbolmap sv (as_parsers ax) (as_auxdifs ax) d hs sources
                   | None \<Rightarrow> Ret None) (\<lambda>bc.
         map_out (\<lambda>il. symcaches (symcache_key sv hs f bc il)
                         \<lparr>sr_object = f, sr_bcsymbolmap = bc, sr_il2cpp = il, sr_extract_variables = extract\<rparr>)
           (case debug_id i of
              Some d \<Rightarrow> fetch_line_mapping sv (as_il2cpp ax) i hs sources
            | None \<Rightarrow> Ret None))))"

text \<open>Writing a symcache: the secondary sources are parsed, the object converted, the file checked.\<close>

record ('b, 'l, 'o) symcache_tools =
  st_bcsymbolmap :: "string \<Rightarrow> string + 'b"
  st_line_mapping :: "string \<Rightarrow> 'l option"
  st_convert :: "bool \<Rightarrow> 'b option \<Rightarrow> 'l option \<Rightarrow> 'o \<Rightarrow> string + string"
  st_parses :: "string \<Rightarrow> bool"

definition write_symcache :: "('b, 'l, 'o) symcache_tools \<Rightarrow> 'o \<Rightarrow> symcache_request \<Rightarrow> string \<Rightarrow> unit cache_contents \<times> string" where
  "write_symcache T ob r temp =
     (case map_option (\<lambda>h. st_bcsymbolmap T (aux_data h)) (sr_bcsymbolmap r) of
        Some (Inl e) \<Rightarrow> (Inl (Malformed e), temp)
      | bc \<Rightarrow>
          (case map_option (\<lambda>h. st_line_mapping T (aux_data h)) (sr_il2cpp r) of
             Some None \<Rightarrow> (Inl InternalError, temp)
           | il \<Rightarrow>
               (case st_convert T (sr_extract_variables r)
                       (case bc of Some (Inr b) \<Rightarrow> Some b | _ \<Rightarrow> None) (case il of Some l \<Rightarrow> l | None \<Rightarrow> None) ob of
                  Inl e \<Rightarrow> (Inl (Malformed e), temp)
                | Inr out \<Rightarrow> if st_parses T (temp @ out) then (Inr (), temp @ out) else (Inl InternalError, temp @ out))))"

section \<open>Portable PDB caches\<close>

definition ppdb_fetch :: "services \<Rightarrow> (cache_key \<Rightarrow> remote_file \<Rightarrow> 'p cache_contents) \<Rightarrow> object_id \<Rightarrow> scope \<Rightarrow> source_config list
    \<Rightarrow> 'p derived_cache outcome" where
  "ppdb_fetch sv ppdbs i sc sources =
     bind_out (find_with sv [PortablePdb, file_type.Pdb] PurposeDebug sc i sources) (\<lambda>fr.
       derive_from_object_handle (sv_durations sv) (sv_uri sv) fr StatusDebug (\<lambda>f.
         Ret (ppdbs (from_scoped_file (sv_sha sv) (sv_uri sv) (lookup_scope sc f) f) f)))"

text \<open>An object that is no portable PDB is None.\<close>

definition write_ppdb_cache :: "('p \<Rightarrow> string + string) \<Rightarrow> (string \<Rightarrow> bool) \<Rightarrow> 'p option \<Rightarrow> string
    \<Rightarrow> unit cache_contents \<times> string" where
  "write_ppdb_cache convert parses ob temp =
     (case ob of
        None \<Rightarrow> (Inl (Unsupported ''Only portable PDB files can be used for .NET symbolication''), temp)
      | Some p \<Rightarrow>
          (case convert p of
             Inl e \<Rightarrow> (Inl (Malformed e), temp)
           | Inr out \<Rightarrow> if parses (temp @ out) then (Inr (), temp @ out) else (Inl InternalError, temp @ out)))"

section \<open>CFI caches\<close>

text \<open>
  A loaded CFI cache is its weight on 32 bits with the symbol file and the module of the first
  line, if there is any unwind information. Parsing a symbol file and a module record (debug id and
  name) is the library's.
\<close>

record 'f cfi_tools =
  ct_from_bytes :: "string \<Rightarrow> string option"
  ct_symbol_file :: "string \<Rightarrow> 'f option"
  ct_module :: "string \<Rightarrow> (string \<times> string) option"
  ct_debug_id :: "string \<Rightarrow> debug_id_t option"

type_synonym 'f cfi_item = "('f \<times> (debug_id_t \<times> string) option) option"

definition cfi_weight :: "nat \<Rightarrow> nat" where
  "cfi_weight len = (let u32 = 2 ^ 32 - 1 in min u32 (8 * (if len \<le> u32 then len else u32)))"

definition first_line :: "string \<Rightarrow> string" where
  "first_line s = (case split_once CHR 0x0A s of None \<Rightarrow> s | Some (l, _) \<Rightarrow> l)"

definition parse_cfi_cache :: "'f cfi_tools \<Rightarrow> string \<Rightarrow> (nat \<times> 'f cfi_item) cache_contents" where
  "parse_cfi_cache T bytes =
     (case ct_from_bytes T bytes of
        None \<Rightarrow> Inl InternalError
      | Some s \<Rightarrow>
          if s = [] then Inr (cfi_weight (length bytes), None)
          else (case ct_symbol_file T s of
                  None \<Rightarrow> Inl InternalError
                | Some f \<Rightarrow>
                    Inr (cfi_weight (length bytes),
                      Some (f, (case ct_module T (first_line s) of
                                  None \<Rightarrow> None
                                | Some (i, n) \<Rightarrow> map_option (\<lambda>d. (d, n)) (ct_debug_id T i))))))"

definition write_cficache :: "('o \<Rightarrow> string + string) \<Rightarrow> 'o \<Rightarrow> string \<Rightarrow> unit cache_contents \<times> string" where
  "write_cficache convert ob temp =
     (case convert ob of Inl e \<Rightarrow> (Inl (Malformed e), temp) | Inr out \<Rightarrow> (Inr (), temp @ out))"

definition cfi_fetch :: "services \<Rightarrow> (cache_key \<Rightarrow> remote_file \<Rightarrow> (nat \<times> 'f cfi_item) cache_contents) \<Rightarrow> object_type \<Rightarrow> object_id
    \<Rightarrow> scope \<Rightarrow> source_config list \<Rightarrow> 'f cfi_item derived_cache outcome" where
  "cfi_fetch sv cficaches ot i sc sources =
     bind_out (find_with sv (from_object_type ot) PurposeUnwind sc i sources) (\<lambda>fr.
       derive_from_object_handle (sv_durations sv) (sv_uri sv) fr StatusUnwind (\<lambda>f.
         Ret (map_sum id snd (cficaches (from_scoped_file (sv_sha sv) (sv_uri sv) (lookup_scope sc f) f) f))))"

section \<open>The candidate of the used object\<close>

lemma select_meta_mem:
  assumes "select_meta ls p = Some m"
  shows "m \<in> set ls"
  using select_loop_cases[of p ls None 255] assms unfolding select_meta_def by auto

lemma vec_map_mem: "x \<in> set xs \<Longrightarrow> vec_map key xs (key x) \<noteq> None"
  by (auto simp: vec_map_None simp del: vec_map_simps)

text \<open>The candidates of a search are sorted and hold an entry for the object it found.\<close>

lemma find_with_candidates:
  assumes "find_with sv fts p sc i sources = Ret fr" and "found fr = Some m"
  shows "sorted_by cand_key (candidates fr) \<and>
    vec_map cand_key (candidates fr) (remote_source_id (file_source m), sv_uri sv (file_source m)) \<noteq> None"
proof -
  obtain fs :: "listed_file list" where fr: "fr = (let metas = fetch_file_metas (sv_sha sv) (sv_uri sv) (sv_meta sv) sc (map fst fs)
      in \<lparr>found = select_meta metas p, candidates = create_candidates (sv_durations sv) (sv_uri sv) sources metas\<rparr>)"
    using assms(1) unfolding find_with_def find_object_def map_out_eq_Ret by (elim exE conjE) (rule that)
  define metas where "metas = fetch_file_metas (sv_sha sv) (sv_uri sv) (sv_meta sv) sc (map fst fs)"
  let ?info = "create_candidate_info (sv_durations sv) (sv_uri sv)"
  have m: "m \<in> set metas" using fr assms(2) by (intro select_meta_mem[of _ p]) (simp add: metas_def Let_def)
  have key: "cand_key (?info m) = (remote_source_id (file_source m), sv_uri sv (file_source m))"
    by (simp add: cand_key_def create_candidate_info_def)
  have "vec_map cand_key (map ?info metas) (cand_key (?info m)) \<noteq> None"
    using m by (intro vec_map_mem) simp
  with create_candidates_spec[of "sv_durations sv" "sv_uri sv" sources metas] m fr key show ?thesis
    by (auto simp: metas_def[symmetric] Let_def list_all_iff)
qed

definition derived_use :: "duration_text \<Rightarrow> found_meta \<Rightarrow> 'c cache_contents \<Rightarrow> 'c cache_contents \<times> object_features \<times> object_use_info" where
  "derived_use D m c = (case handle m of
      Inr features \<Rightarrow> (c, features, use_info_of_derived D c)
    | Inl e \<Rightarrow> (Inl e, default_features, use_info_of_lookup_error e))"

lemma derive_from_object_handle_found:
  assumes "sorted_by cand_key (candidates fr)" and "found fr = Some m" and "derive (file_source m) = Ret c"
  shows "\<exists>cs. derive_from_object_handle D uri fr st derive =
       Ret \<lparr>dc_cache = fst (derived_use D m c), dc_candidates = cs, dc_features = fst (snd (derived_use D m c))\<rparr>
     \<and> set_status st (remote_source_id (file_source m)) (uri (file_source m)) (snd (snd (derived_use D m c))) (candidates fr) = Ret cs
     \<and> sorted_by cand_key cs"
proof -
  from set_status_map[OF assms(1), of st "remote_source_id (file_source m)" "uri (file_source m)" "snd (snd (derived_use D m c))"]
  obtain cs where cs: "set_status st (remote_source_id (file_source m)) (uri (file_source m)) (snd (snd (derived_use D m c))) (candidates fr) = Ret cs"
    "sorted_by cand_key cs" by blast
  then show ?thesis using assms(2,3)
    by (auto simp: derive_from_object_handle_def derived_use_def split: sum.splits)
qed

text \<open>
  The user sees what became of the object that was used: when a search found an object, deriving a
  cache from it gives the derived cache (or the error of its lookup) with the features of the
  object, and the candidates of the search with exactly one change: the candidate of the used
  object, which is among them, has the outcome as its debug (for CFI: unwind) status.
\<close>

theorem used_object_reported:
  assumes "find_with sv fts p sc i sources = Ret fr" and "found fr = Some m"
    and "derive (file_source m) = Ret c"
    and "k = (remote_source_id (file_source m), sv_uri sv (file_source m))"
  shows "\<exists>d c0. derive_from_object_handle D (sv_uri sv) fr st derive = Ret d
     \<and> (dc_cache d, dc_features d) = (case handle m of Inr features \<Rightarrow> (c, features) | Inl e \<Rightarrow> (Inl e, default_features))
     \<and> sorted_by cand_key (dc_candidates d)
     \<and> vec_map cand_key (candidates fr) k = Some c0
     \<and> vec_map cand_key (dc_candidates d) = (vec_map cand_key (candidates fr))(k \<mapsto>
         (let info = (case handle m of Inr _ \<Rightarrow> use_info_of_derived D c | Inl e \<Rightarrow> use_info_of_lookup_error e)
          in case st of StatusDebug \<Rightarrow> c0\<lparr>cand_debug := info\<rparr> | StatusUnwind \<Rightarrow> c0\<lparr>cand_unwind := info\<rparr> | StatusNone \<Rightarrow> c0))"
proof -
  from find_with_candidates[OF assms(1,2)] obtain c0
    where s: "sorted_by cand_key (candidates fr)" and c0: "vec_map cand_key (candidates fr) k = Some c0"
    unfolding assms(4) by blast
  from derive_from_object_handle_found[where derive = derive, OF s assms(2,3), of D "sv_uri sv" st]
  obtain cs where cs: "derive_from_object_handle D (sv_uri sv) fr st derive =
       Ret \<lparr>dc_cache = fst (derived_use D m c), dc_candidates = cs, dc_features = fst (snd (derived_use D m c))\<rparr>"
    "set_status st (remote_source_id (file_source m)) (sv_uri sv (file_source m)) (snd (snd (derived_use D m c))) (candidates fr) = Ret cs"
    "sorted_by cand_key cs" by blast
  from set_status_map[OF s, of st "remote_source_id (file_source m)" "sv_uri sv (file_source m)" "snd (snd (derived_use D m c))"]
    cs(2) c0 assms(4)
  have "vec_map cand_key cs = (vec_map cand_key (candidates fr))(k \<mapsto>
          (case st of StatusDebug \<Rightarrow> c0\<lparr>cand_debug := snd (snd (derived_use D m c))\<rparr>
             | StatusUnwind \<Rightarrow> c0\<lparr>cand_unwind := snd (snd (derived_use D m c))\<rparr> | StatusNone \<Rightarrow> c0))"
    by simp
  then show ?thesis using cs(1,3) c0
    by (intro exI[of _ "\<lparr>dc_cache = fst (derived_use D m c), dc_candidates = cs, dc_features = fst (snd (derived_use D m c))\<rparr>"] exI[of _ c0])
       (cases "handle m"; cases st; simp add: derived_use_def)
qed

definition demo_services :: services where
  "demo_services = \<lparr>sv_ext = demo_externals, sv_durations = demo_durations, sv_sha = (\<lambda>_. []), sv_uri = (\<lambda>f. remote_source_id f),
     sv_index = (\<lambda>_. None), sv_sentry = (\<lambda>_. Inr [Sentry ''p'' ''1'']), sv_meta = (\<lambda>_ _. Inr (default_features\<lparr>has_debug_info := True\<rparr>))\<rparr>"

lemma demo_search:
  "\<exists>fr. find_with demo_services fts PurposeDebug Global i [SrcSentry ''p''] = Ret fr
     \<and> found fr = Some \<lparr>file_source = Sentry ''p'' ''1'', handle = Inr (default_features\<lparr>has_debug_info := True\<rparr>)\<rparr>"
  by (simp add: find_with_def find_object_def demo_services_def list_source_def fetch_file_metas_def select_meta_def
      suitable_def object_quality_def object_has_features_def default_features_def)

theorem used_object_reported_witness:
  "\<exists>fr d c. find_with demo_services [] PurposeDebug Global default_object_id [SrcSentry ''p''] = Ret fr
     \<and> derive_from_object_handle demo_durations (sv_uri demo_services) fr StatusDebug (\<lambda>_. Ret (Inr (7 :: nat))) = Ret d
     \<and> dc_cache d = Inr 7 \<and> vec_map cand_key (dc_candidates d) (''p'', ''p'') = Some c \<and> cand_debug c = UseOk"
proof -
  obtain fr where fr: "find_with demo_services [] PurposeDebug Global default_object_id [SrcSentry ''p''] = Ret fr"
    and m: "found fr = Some \<lparr>file_source = Sentry ''p'' ''1'', handle = Inr (default_features\<lparr>has_debug_info := True\<rparr>)\<rparr>"
    using demo_search by blast
  have k: "(''p'', ''p'') = (remote_source_id (file_source \<lparr>file_source = Sentry ''p'' ''1'', handle = Inr (default_features\<lparr>has_debug_info := True\<rparr>)\<rparr>),
      sv_uri demo_services (file_source \<lparr>file_source = Sentry ''p'' ''1'', handle = Inr (default_features\<lparr>has_debug_info := True\<rparr>)\<rparr>))"
    by (simp add: demo_services_def remote_source_id_def)
  from used_object_reported[where derive = "\<lambda>_. Ret (Inr (7 :: nat))" and D = demo_durations and st = StatusDebug, OF fr m refl k]
  show ?thesis using fr by (auto simp: use_info_of_derived_def)
qed

section \<open>Keys of symcaches\<close>

lemma write_lines_inj:
  assumes "write_lines as = write_lines bs" and "list_all one_line as" and "list_all one_line bs"
  shows "as = bs"
  using assms
proof (induction as arbitrary: bs)
  case Nil
  then show ?case by (cases bs) (simp_all add: write_lines_def)
next
  case (Cons a as)
  then obtain b bs' where bs: "bs = b # bs'" by (cases bs) (simp_all add: write_lines_def)
  with Cons.prems(1) have "a @ CHR 0x0A # write_lines as = b @ CHR 0x0A # write_lines bs'"
    by (simp add: write_lines_def)
  moreover have "CHR 0x0A \<notin> set a" "CHR 0x0A \<notin> set b" using Cons.prems(2,3) bs by (simp_all add: one_line_def)
  ultimately have "a = b" "write_lines as = write_lines bs'" using split_at_newline by blast+
  with Cons bs show ?case by simp
qed

definition file_lines :: "services \<Rightarrow> remote_file \<Rightarrow> string list" where
  "file_lines sv f = [''source: '' @ remote_source_id f, ''location: '' @ sv_uri sv f]"

definition secondary_lines :: "services \<Rightarrow> string \<Rightarrow> aux_handle option \<Rightarrow> string list" where
  "secondary_lines sv name h = (case h of None \<Rightarrow> [] | Some h \<Rightarrow> [[], name @ '':''] @ file_lines sv (aux_file h))"

lemma symcache_key_lines:
  "key_data (symcache_key sv sc f bc il) =
     write_lines ([''scope: '' @ scope_display sc, []] @ file_lines sv f
        @ secondary_lines sv ''bcsymbolmap'' bc @ secondary_lines sv ''il2cpp'' il)"
  by (simp add: symcache_key_def build_key_def write_secondary_def write_file_meta_def write_str_def handle_key_builder_def
      scoped_builder_def write_lines_def file_lines_def secondary_lines_def split: option.split)

definition single_lines :: "services \<Rightarrow> scope \<Rightarrow> remote_file \<Rightarrow> aux_handle option \<Rightarrow> aux_handle option \<Rightarrow> bool" where
  "single_lines sv sc f bc il \<longleftrightarrow> one_line (scope_display sc) \<and>
     list_all (\<lambda>f. one_line (remote_source_id f) \<and> one_line (sv_uri sv f))
       (f # map aux_file (list_of_option bc @ list_of_option il))"

text \<open>
  A symcache is shared only by requests for the same inputs: two keys have the same data only if
  scope, object, symbol map and line mapping are the same files, given that scopes, source
  ids and locations are single lines. A symcache made without a symbol map is never served once
  there is one.
\<close>

theorem symcache_keys_separate:
  assumes "key_data (symcache_key sv sc f bc il) = key_data (symcache_key sv sc' f' bc' il')"
    and "single_lines sv sc f bc il" and "single_lines sv sc' f' bc' il'"
  shows "scope_display sc = scope_display sc' \<and> remote_source_id f = remote_source_id f' \<and> sv_uri sv f = sv_uri sv f'
     \<and> map_option (\<lambda>h. (remote_source_id (aux_file h), sv_uri sv (aux_file h))) bc
         = map_option (\<lambda>h. (remote_source_id (aux_file h), sv_uri sv (aux_file h))) bc'
     \<and> map_option (\<lambda>h. (remote_source_id (aux_file h), sv_uri sv (aux_file h))) il
         = map_option (\<lambda>h. (remote_source_id (aux_file h), sv_uri sv (aux_file h))) il'"
proof -
  let ?L = "\<lambda>sc f bc il. [''scope: '' @ scope_display sc, []] @ file_lines sv f
        @ secondary_lines sv ''bcsymbolmap'' bc @ secondary_lines sv ''il2cpp'' il"
  have one: "single_lines sv sc f bc il \<Longrightarrow> list_all one_line (?L sc f bc il)" for sc f bc il
    by (auto simp: single_lines_def one_line_def file_lines_def secondary_lines_def split: option.splits)
  have "?L sc f bc il = ?L sc' f' bc' il'"
    by (rule write_lines_inj[OF _ one[OF assms(2)] one[OF assms(3)]]) (use assms(1) in \<open>simp add: symcache_key_lines\<close>)
  then show ?thesis
    by (cases bc; cases bc'; cases il; cases il') (auto simp: file_lines_def secondary_lines_def)
qed

theorem symcache_keys_separate_witness:
  "key_data (symcache_key demo_services Global (Sentry ''p'' ''1'') None None) \<noteq>
   key_data (symcache_key demo_services Global (Sentry ''p'' ''1'') (Some \<lparr>aux_file = Sentry ''p'' ''2'', aux_data = []\<rparr>) None)"
proof
  assume eq: "key_data (symcache_key demo_services Global (Sentry ''p'' ''1'') None None) =
     key_data (symcache_key demo_services Global (Sentry ''p'' ''1'') (Some \<lparr>aux_file = Sentry ''p'' ''2'', aux_data = []\<rparr>) None)"
  have "single_lines demo_services Global (Sentry ''p'' ''1'') b None" if "b = None \<or> b = Some \<lparr>aux_file = Sentry ''p'' ''2'', aux_data = []\<rparr>" for b
    using that by (auto simp: single_lines_def one_line_def demo_services_def scope_display_def remote_source_id_def)
  with symcache_keys_separate[OF eq] show False by simp
qed

text \<open>
  Whether variables are extracted is not part of the key: once a symcache is cached, so that the
  answer depends on the key alone, requests with and without variables get the same symcache.
\<close>

lemma symcache_key_ignores_variables:
  assumes "\<And>key r. symcaches key r = cached key"
  shows "symcache_fetch sv ax symcaches ot i True sc sources = symcache_fetch sv ax symcaches ot i False sc sources"
  unfolding symcache_fetch_def assms ..

end
