(* ===== verification/ModuleLookup.thy ===== *)
theory ModuleLookup
  imports Derived Interface SourceContext "HOL-Library.Multiset"
begin

text \<open>
  \<open>symbolication/module_lookup.rs\<close>: the modules of a request sorted by their address, with the debug
  information and sources fetched for them, and the lookup of the module of an address. A debug
  session of the \<open>symbolic\<close> crate and the normal form of a URL are parameters.
\<close>

section \<open>State\<close>

datatype ('s, 'p) cache_file_entry = SymCacheEntry 's | PpdbEntry 'p

record ('s, 'p, 'o) module_entry =
  me_index :: nat
  me_info :: object_info
  me_cache :: "('s, 'p) cache_file_entry cache_contents"
  me_source :: "'o cache_contents"

record ('s, 'p, 'o) module_lookup =
  ml_modules :: "('s, 'p, 'o) module_entry list"
  ml_scope :: scope
  ml_sources :: "source_config list"
  ml_original :: "string option"

definition me_addr :: "('s, 'p, 'o) module_entry \<Rightarrow> 64 word" where
  "me_addr e = ro_image_addr (oi_raw (me_info e))"

definition me_size :: "('s, 'p, 'o) module_entry \<Rightarrow> 64 word" where
  "me_size e = (case ro_image_size (oi_raw (me_info e)) of Some n \<Rightarrow> n | None \<Rightarrow> 0)"

definition update_raw :: "(raw_object_info \<Rightarrow> raw_object_info) \<Rightarrow> ('s, 'p, 'o) module_entry \<Rightarrow> ('s, 'p, 'o) module_entry" where
  "update_raw f e = e\<lparr>me_info := (me_info e)\<lparr>oi_raw := f (oi_raw (me_info e))\<rparr>\<rparr>"

section \<open>Construction and deconstruction\<close>

definition new_entry :: "nat \<times> object_info \<Rightarrow> ('s, 'p, 'o) module_entry" where
  "new_entry p = \<lparr>me_index = fst p, me_info = snd p, me_cache = Inl NotFound, me_source = Inl NotFound\<rparr>"

text \<open>An image without a size is given the space up to the next image; the subtraction is on 64 bits.\<close>

definition fill_size :: "64 word \<Rightarrow> ('s, 'p, 'o) module_entry \<Rightarrow> ('s, 'p, 'o) module_entry" where
  "fill_size next_addr e =
     (if me_size e = 0 then update_raw (\<lambda>raw. raw\<lparr>ro_image_size := Some (next_addr - me_addr e)\<rparr>) e else e)"

fun backfill :: "('s, 'p, 'o) module_entry list \<Rightarrow> ('s, 'p, 'o) module_entry list" where
  "backfill [] = []"
| "backfill [e] = [e]"
| "backfill (e # f # es) = fill_size (me_addr f) e # backfill (f # es)"

definition set_debug_file :: "string \<Rightarrow> ('s, 'p, 'o) module_entry \<Rightarrow> ('s, 'p, 'o) module_entry" where
  "set_debug_file f = update_raw (\<lambda>raw. raw\<lparr>ro_debug_file := Some f\<rparr>)"

definition rewrite_first :: "rewrite_rule list \<Rightarrow> ('s, 'p, 'o) module_entry list
    \<Rightarrow> ('s, 'p, 'o) module_entry list \<times> string option" where
  "rewrite_first rules es =
     (case es of
        [] \<Rightarrow> ([], None)
      | e # es \<Rightarrow>
          (case Option.bind (ro_debug_file (oi_raw (me_info e))) (rewrite rules) of
             None \<Rightarrow> (e # es, None)
           | Some f \<Rightarrow> (set_debug_file f e # es, ro_debug_file (oi_raw (me_info e)))))"

definition module_lookup_new :: "scope \<Rightarrow> source_config list \<Rightarrow> rewrite_rule list \<Rightarrow> object_info list \<Rightarrow> ('s, 'p, 'o) module_lookup" where
  "module_lookup_new sc sources rules infos =
     (let es = backfill (sort_key me_addr (map new_entry (enumerate 0 infos)));
          (es, original) = rewrite_first rules es
      in \<lparr>ml_modules = es, ml_scope = sc, ml_sources = sources, ml_original = original\<rparr>)"

definition into_inner :: "('s, 'p, 'o) module_lookup \<Rightarrow> object_info list" where
  "into_inner ml =
     (let es = (case (ml_original ml, ml_modules ml) of
                  (Some f, e # es) \<Rightarrow> set_debug_file f e # es
                | (_, es) \<Rightarrow> es)
      in map me_info (sort_key me_index es))"

section \<open>Looking up modules\<close>

definition get_module_by_addr :: "('s, 'p, 'o) module_lookup \<Rightarrow> 64 word \<Rightarrow> addr_mode \<Rightarrow> ('s, 'p, 'o) module_entry option" where
  "get_module_by_addr ml addr mode =
     (case mode of
        Rel i \<Rightarrow> find (\<lambda>e. me_index e = i) (ml_modules ml)
      | Abs \<Rightarrow>
          (case (case binary_search_by_key me_addr addr (ml_modules ml) of
                   Inr idx \<Rightarrow> Some idx
                 | Inl idx \<Rightarrow> if idx = 0 then None else Some (idx - 1)) of
             None \<Rightarrow> None
           | Some idx \<Rightarrow>
               if idx < length (ml_modules ml) then
                 (let e = ml_modules ml ! idx in
                  case checked_add (me_addr e) (me_size e) of
                    None \<Rightarrow> None
                  | Some end_addr \<Rightarrow> if end_addr < addr \<and> me_size e \<noteq> 0 then None else Some e)
               else None))"

record ('s, 'p) cache_lookup =
  cl_index :: nat
  cl_info :: object_info
  cl_cache :: "('s, 'p) cache_file_entry cache_contents"
  cl_relative :: "64 word option"

definition lookup_cache :: "('s, 'p, 'o) module_lookup \<Rightarrow> 64 word \<Rightarrow> addr_mode \<Rightarrow> ('s, 'p) cache_lookup option" where
  "lookup_cache ml addr mode =
     map_option (\<lambda>e. \<lparr>cl_index = me_index e, cl_info = me_info e, cl_cache = me_cache e,
         cl_relative = (case mode of Abs \<Rightarrow> abs_to_rel_addr (me_info e) addr | Rel _ \<Rightarrow> Some addr)\<rparr>)
       (get_module_by_addr ml addr mode)"

definition preferred_addr_mode :: "('s, 'p) cache_lookup \<Rightarrow> addr_mode" where
  "preferred_addr_mode l = (if supports_absolute_addresses (cl_info l) then Abs else Rel (cl_index l))"

definition expose_preferred_addr :: "('s, 'p) cache_lookup \<Rightarrow> 64 word \<Rightarrow> 64 word" where
  "expose_preferred_addr l addr =
     (if supports_absolute_addresses (cl_info l)
      then (case rel_to_abs_addr (cl_info l) addr of Some a \<Rightarrow> a | None \<Rightarrow> 0)
      else addr)"

section \<open>Fetching debug information\<close>

type_synonym ('q, 'c) fetcher = "'q \<Rightarrow> scope \<Rightarrow> source_config list \<Rightarrow> 'c derived_cache outcome"

text \<open>What a fetched cache file does to the entry of its module.\<close>

definition apply_cache_file :: "('s \<Rightarrow> string) \<Rightarrow> ('s, 'p) cache_file_entry derived_cache \<Rightarrow> ('s, 'p, 'o) module_entry
    \<Rightarrow> ('s, 'p, 'o) module_entry" where
  "apply_cache_file arch_of d e =
     (let o' = me_info e in
      e\<lparr>me_info := o'\<lparr>oi_features := merge_features (oi_features o') (dc_features d),
                      oi_candidates := merge_all (oi_candidates o') (dc_candidates d),
                      oi_debug_status := status_from_contents (dc_cache d),
                      oi_arch := (case dc_cache d of Inr (SymCacheEntry s) \<Rightarrow> arch_of s | _ \<Rightarrow> ''unknown'')\<rparr>,
        me_cache := dc_cache d\<rparr>)"

definition map_cache :: "('c \<Rightarrow> 'd) \<Rightarrow> 'c derived_cache \<Rightarrow> 'd derived_cache" where
  "map_cache f d = \<lparr>dc_cache = map_sum id f (dc_cache d), dc_candidates = dc_candidates d, dc_features = dc_features d\<rparr>"

definition set_unused :: "('s, 'p, 'o) module_entry \<Rightarrow> ('s, 'p, 'o) module_entry" where
  "set_unused e = e\<lparr>me_info := (me_info e)\<lparr>oi_debug_status := StUnused\<rparr>\<rparr>"

record ('s, 'p) debug_services =
  ds_ids :: id_externals
  ds_arch :: "'s \<Rightarrow> string"
  ds_symcaches :: "(object_type \<times> object_id \<times> bool, 's) fetcher"
  ds_ppdbs :: "(object_id, 'p) fetcher"

definition fetch_module :: "('s, 'p) debug_services \<Rightarrow> scope \<Rightarrow> source_config list \<Rightarrow> bool \<Rightarrow> nat set \<Rightarrow> ('s, 'p, 'o) module_entry
    \<Rightarrow> ('s, 'p, 'o) module_entry outcome" where
  "fetch_module ds sc sources extract used e =
     (if me_index e \<notin> used then Ret (set_unused e)
      else (let raw = oi_raw (me_info e); i = object_id_from_object_info (ds_ids ds) raw in
            map_out (\<lambda>d. apply_cache_file (ds_arch ds) d e)
              (if ro_type raw = PeDotnet
               then map_out (map_cache PpdbEntry) (ds_ppdbs ds i sc sources)
               else map_out (map_cache SymCacheEntry) (ds_symcaches ds (ro_type raw, i, extract) sc sources))))"

definition referenced_list :: "('s, 'p, 'o) module_lookup \<Rightarrow> (64 word \<times> addr_mode) list \<Rightarrow> nat list" where
  "referenced_list ml addrs = List.map_filter (\<lambda>(a, m). map_option me_index (get_module_by_addr ml a m)) addrs"

definition frame_addrs :: "raw_stacktrace list \<Rightarrow> (64 word \<times> addr_mode) list" where
  "frame_addrs ts = concat (map (\<lambda>t. map (\<lambda>f. (fr_instruction_addr f, fr_addr_mode f)) (rs_frames t)) ts)"

definition fetch_caches :: "('s, 'p) debug_services \<Rightarrow> raw_stacktrace list \<Rightarrow> bool \<Rightarrow> ('s, 'p, 'o) module_lookup
    \<Rightarrow> ('s, 'p, 'o) module_lookup outcome" where
  "fetch_caches ds stacktraces extract ml =
     map_out (\<lambda>es. ml\<lparr>ml_modules := es\<rparr>)
       (out_all (map (fetch_module ds (ml_scope ml) (ml_sources ml) extract (set (referenced_list ml (frame_addrs stacktraces))))
          (ml_modules ml)))"

section \<open>Fetching sources\<close>

definition set_source :: "'o cache_contents \<Rightarrow> all_candidates \<Rightarrow> ('s, 'p, 'o) module_entry \<Rightarrow> ('s, 'p, 'o) module_entry" where
  "set_source source cs e =
     (let o' = (me_info e)\<lparr>oi_candidates := merge_all (oi_candidates (me_info e)) cs\<rparr>;
          o' = (case source of Inr _ \<Rightarrow> o'\<lparr>oi_features := (oi_features o')\<lparr>has_sources := True\<rparr>\<rparr> | Inl _ \<Rightarrow> o')
      in e\<lparr>me_source := source, me_info := o'\<rparr>)"

definition fetch_source :: "id_externals \<Rightarrow> services \<Rightarrow> (scope \<Rightarrow> remote_file \<Rightarrow> 'o cache_contents) \<Rightarrow> scope \<Rightarrow> source_config list
    \<Rightarrow> nat set \<Rightarrow> ('s, 'p, 'o) module_entry \<Rightarrow> ('s, 'p, 'o) module_entry outcome" where
  "fetch_source I sv fetch sc sources used e =
     (if me_index e \<notin> used then Ret ((set_unused e)\<lparr>me_source := Inl NotFound\<rparr>)
      else map_out (\<lambda>fr.
          set_source
            (case found fr of
               None \<Rightarrow> Inl NotFound
             | Some m \<Rightarrow> (case handle m of Inr _ \<Rightarrow> fetch (lookup_scope sc (file_source m)) (file_source m) | Inl err \<Rightarrow> Inl err))
            (candidates fr) e)
        (find_with sv file_type_sources PurposeSource sc (object_id_from_object_info I (oi_raw (me_info e))) sources))"

definition sym_frame_addrs :: "complete_stacktrace list \<Rightarrow> (64 word \<times> addr_mode) list" where
  "sym_frame_addrs ts = concat (map (\<lambda>t. map (\<lambda>f. (fr_instruction_addr (sf_raw f), fr_addr_mode (sf_raw f))) (cs_frames t)) ts)"

definition fetch_sources :: "id_externals \<Rightarrow> services \<Rightarrow> (scope \<Rightarrow> remote_file \<Rightarrow> 'o cache_contents) \<Rightarrow> complete_stacktrace list
    \<Rightarrow> ('s, 'p, 'o) module_lookup \<Rightarrow> ('s, 'p, 'o) module_lookup outcome" where
  "fetch_sources I sv fetch stacktraces ml =
     map_out (\<lambda>es. ml\<lparr>ml_modules := es\<rparr>)
       (out_all (map (fetch_source I sv fetch (ml_scope ml) (ml_sources ml) (set (referenced_list ml (sym_frame_addrs stacktraces))))
          (ml_modules ml)))"

section \<open>Source context\<close>

record source_descriptor =
  sd_url :: "string option"
  sd_contents :: "string option"

text \<open>A debug session: the file of a path, None also for an error. The first match is the session of the module.\<close>

type_synonym debug_session = "string \<Rightarrow> source_descriptor option"

definition prepare_debug_sessions :: "('o \<Rightarrow> debug_session option) \<Rightarrow> ('s, 'p, 'o) module_lookup \<Rightarrow> nat \<rightharpoonup> debug_session option" where
  "prepare_debug_sessions open_session ml =
     map_of (rev (map (\<lambda>e. (me_index e, case me_source e of Inr ob \<Rightarrow> open_session ob | Inl _ \<Rightarrow> None)) (ml_modules ml)))"

definition get_source_descriptor :: "('s, 'p, 'o) module_lookup \<Rightarrow> (nat \<rightharpoonup> debug_session option) \<Rightarrow> raw_frame \<Rightarrow> source_descriptor option" where
  "get_source_descriptor ml sessions f =
     Option.bind (fr_abs_path f) (\<lambda>path.
     Option.bind (get_module_by_addr ml (fr_instruction_addr f) (fr_addr_mode f)) (\<lambda>e.
     Option.bind (sessions (me_index e)) (\<lambda>session.
     Option.bind session (\<lambda>s. s path))))"

definition set_source_context :: "string \<Rightarrow> raw_frame \<Rightarrow> raw_frame outcome" where
  "set_source_context source f =
     (case fr_lineno f of
        None \<Rightarrow> Ret f
      | Some n \<Rightarrow>
          map_out (\<lambda>r. case r of
                None \<Rightarrow> f
              | Some (pre, context, post) \<Rightarrow> f\<lparr>fr_pre_context := pre, fr_context_line := Some context, fr_post_context := post\<rparr>)
            (get_context_lines source n 0 None))"

definition valid_link :: "(string \<Rightarrow> string option) \<Rightarrow> string option \<Rightarrow> string option" where
  "valid_link parse_url u =
     (case u of
        None \<Rightarrow> None
      | Some u \<Rightarrow> if starts_with u ''https://'' \<or> starts_with u ''http://'' then parse_url u else None)"

definition try_set_source_context :: "(string \<Rightarrow> string option) \<Rightarrow> ('s, 'p, 'o) module_lookup \<Rightarrow> (nat \<rightharpoonup> debug_session option)
    \<Rightarrow> raw_frame \<Rightarrow> raw_frame outcome" where
  "try_set_source_context parse_url ml sessions f =
     (case get_source_descriptor ml sessions f of
        None \<Rightarrow> Ret f
      | Some d \<Rightarrow>
          let f = (case valid_link parse_url (sd_url d) of None \<Rightarrow> f | Some u \<Rightarrow> f\<lparr>fr_source_link := Some u\<rparr>)
          in (case sd_contents d of None \<Rightarrow> Ret f | Some text \<Rightarrow> set_source_context text f))"

definition add_candidate :: "nat \<Rightarrow> object_candidate \<Rightarrow> ('s, 'p, 'o) module_lookup \<Rightarrow> ('s, 'p, 'o) module_lookup" where
  "add_candidate idx c ml =
     (if idx < length (ml_modules ml)
      then ml\<lparr>ml_modules := (ml_modules ml)[idx := (let e = ml_modules ml ! idx in
             e\<lparr>me_info := (me_info e)\<lparr>oi_candidates := merge_one c (oi_candidates (me_info e))\<rparr>\<rparr>)]\<rparr>
      else ml)"

section \<open>Entries keep their identity\<close>

text \<open>What may differ between an object info of the request and the one returned: a size that was not given.\<close>

definition same_but_size :: "raw_object_info \<Rightarrow> raw_object_info \<Rightarrow> bool" where
  "same_but_size raw raw' \<longleftrightarrow> raw'\<lparr>ro_image_size := None\<rparr> = raw\<lparr>ro_image_size := None\<rparr>
     \<and> (ro_image_size raw \<in> {None, Some 0} \<or> ro_image_size raw' = ro_image_size raw)"

lemma same_but_size_refl [simp]: "same_but_size raw raw"
  by (simp add: same_but_size_def)

definition same_raw :: "('s, 'p, 'o) module_entry \<Rightarrow> ('s, 'p, 'o) module_entry \<Rightarrow> bool" where
  "same_raw e e' \<longleftrightarrow> me_index e' = me_index e \<and> oi_raw (me_info e') = oi_raw (me_info e)"

definition restored :: "('s, 'p, 'o) module_lookup \<Rightarrow> ('s, 'p, 'o) module_entry list" where
  "restored ml = (case (ml_original ml, ml_modules ml) of
      (Some f, e # es) \<Rightarrow> set_debug_file f e # es
    | (_, es) \<Rightarrow> es)"

definition modules_inv :: "object_info list \<Rightarrow> ('s, 'p, 'o) module_lookup \<Rightarrow> bool" where
  "modules_inv infos ml \<longleftrightarrow>
     mset (map me_index (ml_modules ml)) = mset [0..<length infos]
     \<and> list_all (\<lambda>e. same_but_size (oi_raw (infos ! me_index e)) (oi_raw (me_info e))) (restored ml)
     \<and> sorted (map me_addr (ml_modules ml))
     \<and> list_all (\<lambda>e. sorted_by cand_key (oi_candidates (me_info e))) (ml_modules ml)"

lemma update_raw_index [simp]: "me_index (update_raw f e) = me_index e"
  by (simp add: update_raw_def)

lemma set_debug_file_simps [simp]: "me_index (set_debug_file f e) = me_index e" "me_addr (set_debug_file f e) = me_addr e"
  "oi_candidates (me_info (set_debug_file f e)) = oi_candidates (me_info e)"
  by (simp_all add: set_debug_file_def update_raw_def me_addr_def)

lemma fill_size_simps [simp]: "me_index (fill_size a e) = me_index e" "me_addr (fill_size a e) = me_addr e"
  "oi_candidates (me_info (fill_size a e)) = oi_candidates (me_info e)"
  by (simp_all add: fill_size_def update_raw_def me_addr_def)

lemma fill_size_same: "same_but_size raw (oi_raw (me_info e)) \<Longrightarrow> same_but_size raw (oi_raw (me_info (fill_size a e)))"
  by (cases "oi_raw (me_info e)"; cases raw)
     (auto simp: fill_size_def update_raw_def same_but_size_def me_size_def split: option.splits)

lemma backfill_index [simp]: "map me_index (backfill es) = map me_index es"
  by (induction es rule: backfill.induct) simp_all

lemma backfill_addr [simp]: "map me_addr (backfill es) = map me_addr es"
  by (induction es rule: backfill.induct) simp_all

lemma backfill_all:
  assumes "\<And>a e. P e \<Longrightarrow> P (fill_size a e)"
  shows "list_all P es \<Longrightarrow> list_all P (backfill es)"
  using assms by (induction es rule: backfill.induct) simp_all

lemma restored_index [simp]: "map me_index (restored ml) = map me_index (ml_modules ml)"
  by (auto simp: restored_def split: option.split list.split)

lemma rewrite_first_facts:
  assumes "rewrite_first rules es = (es', original)"
  shows "map me_index es' = map me_index es" and "map me_addr es' = map me_addr es"
    and "list_all (\<lambda>e. sorted_by cand_key (oi_candidates (me_info e))) es' = list_all (\<lambda>e. sorted_by cand_key (oi_candidates (me_info e))) es"
    and "map (\<lambda>e. (me_index e, oi_raw (me_info e))) (restored \<lparr>ml_modules = es', ml_scope = sc, ml_sources = ss, ml_original = original\<rparr>)
           = map (\<lambda>e. (me_index e, oi_raw (me_info e))) es"
proof -
  have f: "set_debug_file g (set_debug_file f e) = e" if "ro_debug_file (oi_raw (me_info e)) = Some g" for f g and e :: "('a, 'b, 'c) module_entry"
    using that by (cases e; cases "me_info e"; cases "oi_raw (me_info e)") (simp add: set_debug_file_def update_raw_def)
  show "map me_index es' = map me_index es" "map me_addr es' = map me_addr es"
    "list_all (\<lambda>e. sorted_by cand_key (oi_candidates (me_info e))) es' = list_all (\<lambda>e. sorted_by cand_key (oi_candidates (me_info e))) es"
    using assms by (auto simp: rewrite_first_def split: list.splits option.splits)
  show "map (\<lambda>e. (me_index e, oi_raw (me_info e))) (restored \<lparr>ml_modules = es', ml_scope = sc, ml_sources = ss, ml_original = original\<rparr>)
           = map (\<lambda>e. (me_index e, oi_raw (me_info e))) es"
    using assms f by (auto simp: rewrite_first_def restored_def Option.bind_def split: list.splits option.splits)
qed

lemma list_all_map_cong: "map f xs = map f ys \<Longrightarrow> (\<And>x. P x = Q (f x)) \<Longrightarrow> list_all P xs = list_all P ys"
  by (metis (mono_tags, lifting) list.pred_map comp_apply list.pred_cong)

lemma new_modules_inv:
  assumes "list_all (\<lambda>o'. sorted_by cand_key (oi_candidates o')) infos"
  shows "modules_inv infos (module_lookup_new sc ss rules infos)"
proof -
  define es where "es = backfill (sort_key me_addr (map new_entry (enumerate 0 infos)) :: ('a, 'b, 'c) module_entry list)"
  obtain es' original where r: "rewrite_first rules es = (es', original)" by (cases "rewrite_first rules es")
  have ml: "module_lookup_new sc ss rules infos = \<lparr>ml_modules = es', ml_scope = sc, ml_sources = ss, ml_original = original\<rparr>"
    using r by (simp add: module_lookup_new_def es_def)
  have "map me_index (map new_entry (enumerate 0 infos) :: ('a, 'b, 'c) module_entry list) = [0..<length infos]"
    by (rule nth_equalityI) (simp_all add: new_entry_def nth_enumerate_eq)
  moreover have "mset (map me_index es) = mset (map me_index (map new_entry (enumerate 0 infos) :: ('a, 'b, 'c) module_entry list))"
    unfolding es_def backfill_index by (simp only: mset_map mset_sort)
  ultimately have idx: "mset (map me_index es) = mset [0..<length infos]" by simp
  have "list_all (\<lambda>e. same_but_size (oi_raw (infos ! me_index e)) (oi_raw (me_info e))) (sort_key me_addr (map new_entry (enumerate 0 infos)))"
    by (auto simp: list_all_iff new_entry_def in_set_enumerate_eq)
  then have raw: "list_all (\<lambda>e. same_but_size (oi_raw (infos ! me_index e)) (oi_raw (me_info e))) es"
    unfolding es_def by (rule backfill_all[rotated]) (simp add: fill_size_same)
  have "list_all (\<lambda>e. sorted_by cand_key (oi_candidates (me_info e))) (sort_key me_addr (map new_entry (enumerate 0 infos)))"
    using assms by (auto simp: list_all_iff new_entry_def in_set_enumerate_eq list_all_length)
  then have cand: "list_all (\<lambda>e. sorted_by cand_key (oi_candidates (me_info e))) es"
    unfolding es_def by (rule backfill_all[rotated]) simp
  have sorted: "sorted (map me_addr es)" by (simp add: es_def)
  note f = rewrite_first_facts[OF r]
  have "list_all (\<lambda>e. same_but_size (oi_raw (infos ! me_index e)) (oi_raw (me_info e)))
      (restored \<lparr>ml_modules = es', ml_scope = sc, ml_sources = ss, ml_original = original\<rparr>)"
    using raw list_all_map_cong[OF f(4), of _ "\<lambda>p. same_but_size (oi_raw (infos ! fst p)) (snd p)"] by simp
  then show ?thesis using idx sorted cand f(1,2,3) unfolding ml modules_inv_def by simp
qed

section \<open>Operations keep the invariant\<close>

lemma out_all_Ret: "out_all ms = Ret ys \<longleftrightarrow> list_all2 (\<lambda>m y. m = Ret y) ms ys"
proof (induction ms arbitrary: ys)
  case (Cons m ms)
  then show ?case by (cases m) (auto simp: list_all2_Cons1)
qed auto

lemma out_all_map_Ret: "out_all (map f xs) = Ret ys \<longleftrightarrow> list_all2 (\<lambda>x y. f x = Ret y) xs ys"
  by (simp add: out_all_Ret list_all2_map1)

text \<open>A step that treats every entry alone, keeping what identifies it and its candidates sorted.\<close>

definition entry_step :: "('s, 'p, 'o) module_entry \<Rightarrow> ('s, 'p, 'o) module_entry \<Rightarrow> bool" where
  "entry_step e e' \<longleftrightarrow> same_raw e e'
     \<and> (sorted_by cand_key (oi_candidates (me_info e)) \<longrightarrow> sorted_by cand_key (oi_candidates (me_info e')))"

lemma set_debug_file_raw: "oi_raw (me_info (set_debug_file f e)) = (oi_raw (me_info e))\<lparr>ro_debug_file := Some f\<rparr>"
  by (simp add: set_debug_file_def update_raw_def)

lemma step_keeps_inv:
  assumes inv: "modules_inv infos ml" and steps: "list_all2 entry_step (ml_modules ml) es"
  shows "modules_inv infos (ml\<lparr>ml_modules := es\<rparr>)"
proof -
  have idx: "map me_index es = map me_index (ml_modules ml)" and addr: "map me_addr es = map me_addr (ml_modules ml)"
    using steps by (auto simp: list_all2_conv_all_nth entry_step_def same_raw_def me_addr_def intro!: nth_equalityI)
  have raws: "map (\<lambda>e. (me_index e, oi_raw (me_info e))) (restored (ml\<lparr>ml_modules := es\<rparr>)) =
      map (\<lambda>e. (me_index e, oi_raw (me_info e))) (restored ml)"
  proof (cases "ml_original ml")
    case None
    then show ?thesis using steps
      by (auto simp: restored_def list_all2_conv_all_nth entry_step_def same_raw_def intro!: nth_equalityI)
  next
    case (Some f)
    have "map (\<lambda>e. (me_index e, oi_raw (me_info e))) es = map (\<lambda>e. (me_index e, oi_raw (me_info e))) (ml_modules ml)"
      using steps by (auto simp: list_all2_conv_all_nth entry_step_def same_raw_def intro!: nth_equalityI)
    with Some show ?thesis
      by (cases es; cases "ml_modules ml") (auto simp: restored_def set_debug_file_raw)
  qed
  have "list_all (\<lambda>e. sorted_by cand_key (oi_candidates (me_info e))) es"
    using steps inv unfolding modules_inv_def entry_step_def by (auto simp: list_all2_conv_all_nth list_all_length)
  moreover have "list_all (\<lambda>e. same_but_size (oi_raw (infos ! me_index e)) (oi_raw (me_info e))) (restored (ml\<lparr>ml_modules := es\<rparr>))"
    using inv list_all_map_cong[OF raws, of _ "\<lambda>p. same_but_size (oi_raw (infos ! fst p)) (snd p)"]
    unfolding modules_inv_def by simp
  ultimately show ?thesis using inv idx addr unfolding modules_inv_def
    by (metis (no_types, lifting) module_lookup.simps(1) module_lookup.surjective module_lookup.update_convs(1) mset_map)
qed

lemma set_unused_step: "entry_step e (set_unused e)"
  by (simp add: entry_step_def same_raw_def set_unused_def)

lemma apply_cache_file_step: "entry_step e (apply_cache_file arch d e)"
  using cands.fold_inv by (auto simp: entry_step_def same_raw_def apply_cache_file_def Let_def merge_all_def)

lemma fetch_module_step: "fetch_module ds sc ss ex used e = Ret e' \<Longrightarrow> entry_step e e'"
  by (auto simp: fetch_module_def set_unused_step apply_cache_file_step Let_def split: if_splits)

lemma set_source_step: "entry_step e (set_source so cs e)"
  using cands.fold_inv by (auto simp: entry_step_def same_raw_def set_source_def Let_def merge_all_def split: sum.split)

lemma reset_source_step: "entry_step e ((set_unused e)\<lparr>me_source := so\<rparr>)"
  by (simp add: entry_step_def same_raw_def set_unused_def)

lemma fetch_source_step: "fetch_source I sv fetch sc ss used e = Ret e' \<Longrightarrow> entry_step e e'"
  unfolding fetch_source_def
  by (auto simp: set_source_step reset_source_step split: if_splits)

lemma fetch_caches_inv:
  assumes "modules_inv infos ml" and "fetch_caches ds sts ex ml = Ret ml'"
  shows "modules_inv infos ml'"
  using assms(2) by (auto simp: fetch_caches_def out_all_map_Ret intro!: step_keeps_inv[OF assms(1)]
      elim!: list_all2_mono[OF _ fetch_module_step])

lemma fetch_sources_inv:
  assumes "modules_inv infos ml" and "fetch_sources I sv fetch sts ml = Ret ml'"
  shows "modules_inv infos ml'"
  using assms(2) by (auto simp: fetch_sources_def out_all_map_Ret intro!: step_keeps_inv[OF assms(1)]
      elim!: list_all2_mono[OF _ fetch_source_step])

lemma entry_step_refl: "entry_step e e"
  by (simp add: entry_step_def same_raw_def)

lemma add_candidate_inv:
  assumes "modules_inv infos ml"
  shows "modules_inv infos (add_candidate idx c ml)"
proof (cases "idx < length (ml_modules ml)")
  case True
  define e' where "e' = (let e = ml_modules ml ! idx in
      e\<lparr>me_info := (me_info e)\<lparr>oi_candidates := merge_one c (oi_candidates (me_info e))\<rparr>\<rparr>)"
  have "entry_step (ml_modules ml ! idx) e'"
    by (simp add: entry_step_def same_raw_def Let_def merge_one_sorted e'_def)
  then have "list_all2 entry_step (ml_modules ml) ((ml_modules ml)[idx := e'])"
    using list_all2_update_cong[of entry_step "ml_modules ml" "ml_modules ml" "ml_modules ml ! idx" e' idx]
      list.rel_refl[of entry_step "ml_modules ml", OF entry_step_refl] by simp
  from step_keeps_inv[OF assms this] True show ?thesis by (simp add: add_candidate_def e'_def)
qed (use assms in \<open>simp add: add_candidate_def\<close>)

section \<open>Reachable states\<close>

text \<open>Every state of the lookup of a request: created from the modules of the request, then any operations.\<close>

inductive module_reach :: "object_info list \<Rightarrow> ('s, 'p, 'o) module_lookup \<Rightarrow> bool" where
  reach_new: "module_reach infos (module_lookup_new sc ss rules infos)"
| reach_caches: "module_reach infos ml \<Longrightarrow> fetch_caches ds sts ex ml = Ret ml' \<Longrightarrow> module_reach infos ml'"
| reach_sources: "module_reach infos ml \<Longrightarrow> fetch_sources I sv fetch csts ml = Ret ml' \<Longrightarrow> module_reach infos ml'"
| reach_candidate: "module_reach infos ml \<Longrightarrow> module_reach infos (add_candidate idx c ml)"

lemma reach_inv:
  assumes "module_reach infos ml" and "list_all (\<lambda>o'. sorted_by cand_key (oi_candidates o')) infos"
  shows "modules_inv infos ml"
  using assms
proof (induction rule: module_reach.induct)
  case (reach_new infos sc ss rules)
  then show ?case by (rule new_modules_inv)
next
  case (reach_caches infos ml ds sts ex ml')
  then show ?case using fetch_caches_inv by blast
next
  case (reach_sources infos ml I sv fetch csts ml')
  then show ?case using fetch_sources_inv by blast
next
  case (reach_candidate infos ml idx c)
  then show ?case using add_candidate_inv by blast
qed

lemma into_inner_restored: "into_inner ml = map me_info (sort_key me_index (restored ml))"
  by (simp add: into_inner_def restored_def Let_def)

lemma map_sort_key: "map f (sort_key f xs) = sort (map f xs)"
  by (rule properties_for_sort[symmetric]) (simp_all only: mset_map mset_sort sorted_sort_key)

lemma inv_into_inner:
  assumes "modules_inv infos ml"
  shows "list_all2 (\<lambda>o' o''. same_but_size (oi_raw o') (oi_raw o'')) infos (into_inner ml)"
proof -
  let ?es = "sort_key me_index (restored ml)"
  have "mset (map me_index (restored ml)) = mset [0..<length infos]" using assms by (simp add: modules_inv_def)
  then have "sort (map me_index (restored ml)) = [0..<length infos]"
    by (intro properties_for_sort) simp_all
  then have idx: "map me_index ?es = [0..<length infos]" by (simp only: map_sort_key)
  from arg_cong[OF this, of length] have len: "length ?es = length infos" by simp
  have nth: "me_index (?es ! k) = k" if "k < length infos" for k
    using arg_cong[OF idx, of "\<lambda>xs. xs ! k"] that len by simp
  have "list_all (\<lambda>e. same_but_size (oi_raw (infos ! me_index e)) (oi_raw (me_info e))) ?es"
    using assms by (simp add: modules_inv_def list_all_iff)
  then have "same_but_size (oi_raw (infos ! k)) (oi_raw (me_info (?es ! k)))" if "k < length infos" for k
    using that len nth[OF that] unfolding list_all_length by auto
  then show ?thesis using len by (simp add: into_inner_restored list_all2_conv_all_nth)
qed

section \<open>The service that gives debug information\<close>

text \<open>
  What the module lookup relies on: the candidates of an answer are sorted, and an answer with a
  cache lists a candidate that was used.
\<close>

locale debug_service =
  fixes fetch :: "'q \<Rightarrow> scope \<Rightarrow> source_config list \<Rightarrow> 'c derived_cache outcome"
  assumes fetch_sorted: "fetch q sc ss = Ret d \<Longrightarrow> sorted_by cand_key (dc_candidates d)"
    and fetch_used: "fetch q sc ss = Ret d \<Longrightarrow> dc_cache d = Inr c
        \<Longrightarrow> \<exists>k x. vec_map cand_key (dc_candidates d) k = Some x \<and> cand_debug x = UseOk"
begin

text \<open>The candidate is still there, as used, once the answer is merged into what was known of the module.\<close>

lemma merged_used:
  assumes "fetch q sc ss = Ret d" and "dc_cache d = Inr c" and "sorted_by cand_key cs"
  shows "list_ex (\<lambda>x. cand_debug x = UseOk) (merge_all cs (dc_candidates d))"
proof -
  have s: "sorted_by cand_key (dc_candidates d)" using assms(1) by (rule fetch_sorted)
  obtain k x where x: "vec_map cand_key (dc_candidates d) k = Some x" "cand_debug x = UseOk"
    using fetch_used[OF assms(1,2)] by blast
  have "\<exists>y. vec_map cand_key (merge_all cs (dc_candidates d)) k = Some y \<and> cand_debug y = UseOk"
  proof (cases "vec_map cand_key cs k")
    case None
    then show ?thesis using x merge_all_map[OF assms(3) s, of k] by simp
  next
    case (Some y)
    then show ?thesis using x merge_all_map[OF assms(3) s, of k]
      by (auto simp: merge_candidate_def Let_def)
  qed
  then obtain y where y: "vec_map cand_key (merge_all cs (dc_candidates d)) k = Some y" "cand_debug y = UseOk" by blast
  have "sorted_by cand_key (merge_all cs (dc_candidates d))"
    using cands.fold_inv[OF assms(3)] by (simp add: merge_all_def)
  with y vec_map_sorted[of cand_key "merge_all cs (dc_candidates d)" k y] show ?thesis by (auto simp: list_ex_iff)
qed

end

text \<open>The services of \<open>caches/\<close> keep the promise.\<close>

lemma find_with_sorted: "find_with sv fts p sc i sources = Ret fr \<Longrightarrow> sorted_by cand_key (candidates fr)"
  using create_candidates_spec by (auto simp: find_with_def find_object_def Let_def)

lemma derive_sorted:
  assumes "sorted_by cand_key (candidates fr)" and "derive_from_object_handle D uri fr st derive = Ret d"
  shows "sorted_by cand_key (dc_candidates d)"
proof (cases "found fr")
  case (Some m)
  obtain cs info where "set_status st (remote_source_id (file_source m)) (uri (file_source m)) info (candidates fr) = Ret cs"
    "dc_candidates d = cs"
    using assms(2) Some by (auto simp: derive_from_object_handle_def bind_out_eq_Ret split: prod.splits)
  then show ?thesis
    using set_status_map[OF assms(1), of st "remote_source_id (file_source m)" "uri (file_source m)" info] by auto
qed (use assms in \<open>auto simp: derive_from_object_handle_def\<close>)

lemma derive_used:
  assumes "find_with sv fts p sc i sources = Ret fr"
    and "derive_from_object_handle D (sv_uri sv) fr StatusDebug derive = Ret d" and "dc_cache d = Inr c"
  shows "\<exists>k x. vec_map cand_key (dc_candidates d) k = Some x \<and> cand_debug x = UseOk"
proof -
  obtain m where m: "found fr = Some m"
    using assms(2,3) by (cases "found fr") (auto simp: derive_from_object_handle_def)
  let ?k = "(remote_source_id (file_source m), sv_uri sv (file_source m))"
  obtain c' info features where r: "(case handle m of
               Inr features \<Rightarrow> map_out (\<lambda>c. (c, use_info_of_derived D c, features)) (derive (file_source m))
             | Inl e \<Rightarrow> Ret (Inl e, use_info_of_lookup_error e, default_features)) = Ret (c', info, features)"
    and set: "set_status StatusDebug (remote_source_id (file_source m)) (sv_uri sv (file_source m)) info (candidates fr) = Ret (dc_candidates d)"
    and c': "c' = Inr c"
    using assms(2,3) m by (auto simp: derive_from_object_handle_def bind_out_eq_Ret)
  have info: "info = UseOk" using r c' by (auto simp: use_info_of_derived_def split: sum.splits)
  from find_with_candidates[OF assms(1) m] obtain x where s: "sorted_by cand_key (candidates fr)" and x: "vec_map cand_key (candidates fr) ?k = Some x"
    by blast
  from set_status_map[OF s, of StatusDebug "remote_source_id (file_source m)" "sv_uri sv (file_source m)" info] set x
  have "vec_map cand_key (dc_candidates d) ?k = Some (x\<lparr>cand_debug := info\<rparr>)" by auto
  with info show ?thesis by (intro exI[of _ ?k] exI[of _ "x\<lparr>cand_debug := info\<rparr>"]) simp
qed

definition symcache_service :: "services \<Rightarrow> aux_services \<Rightarrow> (cache_key \<Rightarrow> symcache_request \<Rightarrow> 's cache_contents)
    \<Rightarrow> (object_type \<times> object_id \<times> bool, 's) fetcher" where
  "symcache_service sv ax symcaches q sc ss = symcache_fetch sv ax symcaches (fst q) (fst (snd q)) (snd (snd q)) sc ss"

interpretation symcaches: debug_service "symcache_service sv ax symcaches" for sv ax symcaches
proof unfold_locales
  fix q sc ss d assume "symcache_service sv ax symcaches q sc ss = Ret d"
  then show "sorted_by cand_key (dc_candidates d)"
    by (auto simp: symcache_service_def symcache_fetch_def bind_out_eq_Ret dest: derive_sorted[OF find_with_sorted])
next
  fix q sc ss d c assume "symcache_service sv ax symcaches q sc ss = Ret d" "dc_cache d = Inr c"
  then show "\<exists>k x. vec_map cand_key (dc_candidates d) k = Some x \<and> cand_debug x = UseOk"
    unfolding symcache_service_def symcache_fetch_def bind_out_eq_Ret by (elim exE conjE) (rule derive_used)
qed

interpretation ppdbs: debug_service "ppdb_fetch sv cache" for sv cache
proof unfold_locales
  fix q sc ss d assume "ppdb_fetch sv cache q sc ss = Ret d"
  then show "sorted_by cand_key (dc_candidates d)"
    by (auto simp: ppdb_fetch_def bind_out_eq_Ret dest: derive_sorted[OF find_with_sorted])
next
  fix q sc ss d c assume "ppdb_fetch sv cache q sc ss = Ret d" "dc_cache d = Inr c"
  then show "\<exists>k x. vec_map cand_key (dc_candidates d) k = Some x \<and> cand_debug x = UseOk"
    unfolding ppdb_fetch_def bind_out_eq_Ret by (elim exE conjE) (rule derive_used)
qed

definition native_services :: "services \<Rightarrow> aux_services \<Rightarrow> (cache_key \<Rightarrow> symcache_request \<Rightarrow> 's cache_contents)
    \<Rightarrow> (cache_key \<Rightarrow> remote_file \<Rightarrow> 'p cache_contents) \<Rightarrow> id_externals \<Rightarrow> ('s \<Rightarrow> string) \<Rightarrow> ('s, 'p) debug_services" where
  "native_services sv ax symcaches ppdbs I arch =
     \<lparr>ds_ids = I, ds_arch = arch, ds_symcaches = symcache_service sv ax symcaches, ds_ppdbs = ppdb_fetch sv ppdbs\<rparr>"

text \<open>What an entry looks like after its debug information was fetched.\<close>

definition entry_truthful :: "nat list \<Rightarrow> ('s, 'p, 'o) module_entry \<Rightarrow> bool" where
  "entry_truthful used e \<longleftrightarrow>
     (if me_index e \<in> set used
      then oi_debug_status (me_info e) = status_from_contents (me_cache e)
         \<and> (oi_debug_status (me_info e) \<noteq> StFound \<or> list_ex (\<lambda>x. cand_debug x = UseOk) (oi_candidates (me_info e)))
      else oi_debug_status (me_info e) = StUnused)"

lemma status_found: "status_from_contents c = StFound \<longleftrightarrow> (\<exists>x. c = Inr x)"
  by (auto simp: status_from_contents_def split: sum.split cache_error.split)

lemma fetch_module_truthful:
  assumes "fetch_module (native_services sv ax symcaches ppdbs I arch) sc ss ex (set used) e = Ret e'"
    and "sorted_by cand_key (oi_candidates (me_info e))"
  shows "entry_truthful used e'"
proof (cases "me_index e \<in> set used")
  case False
  then show ?thesis using assms(1) by (auto simp: fetch_module_def entry_truthful_def set_unused_def)
next
  case True
  let ?i = "object_id_from_object_info I (oi_raw (me_info e))"
  let ?q = "(ro_type (oi_raw (me_info e)), ?i, ex)"
  let ?fetch = "(if ro_type (oi_raw (me_info e)) = PeDotnet then map_out (map_cache PpdbEntry) (ppdb_fetch sv ppdbs ?i sc ss)
       else map_out (map_cache SymCacheEntry) (symcache_service sv ax symcaches ?q sc ss))"
  have "map_out (\<lambda>d. apply_cache_file arch d e) ?fetch = Ret e'"
    using assms(1) True
    by (cases "ro_type (oi_raw (me_info e)) = PeDotnet") (simp_all add: fetch_module_def native_services_def Let_def del: map_out_eq_Ret)
  then obtain d where e': "e' = apply_cache_file arch d e" and fetch: "?fetch = Ret d"
    unfolding map_out_eq_Ret[of "\<lambda>d. apply_cache_file arch d e"] by blast
  from fetch have d: "(\<exists>p. ppdb_fetch sv ppdbs ?i sc ss = Ret p \<and> d = map_cache PpdbEntry p)
      \<or> (\<exists>p. symcache_service sv ax symcaches ?q sc ss = Ret p \<and> d = map_cache SymCacheEntry p)"
    by (auto split: if_splits)
  have used: "list_ex (\<lambda>x. cand_debug x = UseOk) (merge_all (oi_candidates (me_info e)) (dc_candidates d))" if "dc_cache d = Inr c" for c
    using d
  proof (elim disjE exE conjE)
    fix p assume "ppdb_fetch sv ppdbs ?i sc ss = Ret p" "d = map_cache PpdbEntry p"
    then show ?thesis using ppdbs.merged_used[OF _ _ assms(2)] that by (cases "dc_cache p") (auto simp: map_cache_def)
  next
    fix p assume "symcache_service sv ax symcaches ?q sc ss = Ret p" "d = map_cache SymCacheEntry p"
    then show ?thesis using symcaches.merged_used[OF _ _ assms(2)] that by (cases "dc_cache p") (auto simp: map_cache_def)
  qed
  show ?thesis using True used by (auto simp: entry_truthful_def e' apply_cache_file_def Let_def status_found)
qed

section \<open>Finding the module of an address\<close>

lemma sorted_distinct_by: "sorted (map key xs) \<Longrightarrow> distinct (map key xs) \<Longrightarrow> sorted_by key xs"
  by (induction xs) force+

text \<open>Whether an image covers an address: it starts at or before it and does not end before it.\<close>

definition covers :: "('s, 'p, 'o) module_entry \<Rightarrow> 64 word \<Rightarrow> bool" where
  "covers e addr \<longleftrightarrow> me_addr e \<le> addr \<and> unat (me_addr e) + unat (me_size e) < 2 ^ 64
     \<and> (me_size e = 0 \<or> unat addr \<le> unat (me_addr e) + unat (me_size e))"

lemma checked_end:
  assumes "me_addr e \<le> addr"
  shows "(case checked_add (me_addr e) (me_size e) of None \<Rightarrow> None
      | Some end_addr \<Rightarrow> if end_addr < addr \<and> me_size e \<noteq> 0 then None else Some e) = (if covers e addr then Some e else None)"
proof (cases "checked_add (me_addr e) (me_size e)")
  case None
  then show ?thesis by (auto simp: checked_add_def covers_def split: if_splits)
next
  case (Some c)
  then have "unat c = unat (me_addr e) + unat (me_size e)" by (simp add: checked_add_Some)
  moreover have "unat c < 2 ^ 64" using unsigned_less[of c, where 'a = nat] by simp
  ultimately show ?thesis using Some assms by (auto simp: covers_def word_less_nat_alt)
qed

lemma covering_module:
  assumes s: "sorted_by me_addr (ml_modules ml)"
  shows "get_module_by_addr ml addr Abs = Some e \<longleftrightarrow>
     e \<in> set (ml_modules ml) \<and> covers e addr \<and> (\<forall>f \<in> set (ml_modules ml). me_addr f \<le> addr \<longrightarrow> me_addr f \<le> me_addr e)"
  using s
proof (cases rule: binary_search_cases[where k = addr])
  case (found ys x zs)
  have get: "get_module_by_addr ml addr Abs = (if covers x addr then Some x else None)"
    using found checked_end[of x addr] by (simp add: get_module_by_addr_def Let_def)
  have above: "\<forall>z \<in> set zs. addr < me_addr z" and below: "\<forall>y \<in> set ys. me_addr y < addr"
    using s found(1,2) by auto
  show ?thesis unfolding get using found(1,2) above below
    by (auto simp: covers_def)
next
  case (missing ys zs)
  show ?thesis
  proof (cases ys rule: rev_cases)
    case Nil
    then have "get_module_by_addr ml addr Abs = None" using missing by (simp add: get_module_by_addr_def)
    moreover have "\<not> covers f addr" if "f \<in> set (ml_modules ml)" for f
      using missing(1,3) Nil that by (auto simp: covers_def)
    ultimately show ?thesis by auto
  next
    case (snoc us x)
    have "me_addr x \<le> addr" using missing(2) snoc by auto
    from checked_end[OF this] have get: "get_module_by_addr ml addr Abs = (if covers x addr then Some x else None)"
      using missing snoc by (simp add: get_module_by_addr_def Let_def nth_append)
    have below: "\<forall>y \<in> set us. me_addr y < me_addr x" using s missing(1) snoc by auto
    show ?thesis unfolding get using missing(1,2,3) snoc below
      by (auto simp: covers_def)
  qed
qed

lemma inv_distinct:
  assumes inv: "modules_inv infos ml" and d: "distinct (map (\<lambda>o'. ro_image_addr (oi_raw o')) infos)"
  shows "distinct (map me_index (ml_modules ml))" and "sorted_by me_addr (ml_modules ml)"
proof -
  have m: "mset (map me_index (ml_modules ml)) = mset [0..<length infos]" using inv by (simp add: modules_inv_def)
  then show idx: "distinct (map me_index (ml_modules ml))" by (metis distinct_upt mset_eq_imp_distinct_iff)
  have addrs: "map me_addr (restored ml) = map me_addr (ml_modules ml)"
    by (auto simp: restored_def split: option.split list.split)
  have "me_addr e = ro_image_addr (oi_raw (infos ! me_index e))" if "e \<in> set (restored ml)" for e
  proof -
    have "same_but_size (oi_raw (infos ! me_index e)) (oi_raw (me_info e))"
      using inv that by (simp add: modules_inv_def list_all_iff)
    then show ?thesis unfolding same_but_size_def me_addr_def
      by (metis raw_object_info.select_convs(7) raw_object_info.surjective raw_object_info.update_convs(8))
  qed
  then have "map me_addr (restored ml) = map (\<lambda>k. ro_image_addr (oi_raw (infos ! k))) (map me_index (restored ml))"
    unfolding map_map by (intro map_cong) simp_all
  then have "map me_addr (ml_modules ml) = map (\<lambda>k. ro_image_addr (oi_raw (infos ! k))) (map me_index (ml_modules ml))"
    using addrs by simp
  moreover have "mset (map (\<lambda>k. ro_image_addr (oi_raw (infos ! k))) (map me_index (ml_modules ml))) =
      mset (map (\<lambda>k. ro_image_addr (oi_raw (infos ! k))) [0..<length infos])"
    using m by (metis mset_map)
  moreover have "map (\<lambda>k. ro_image_addr (oi_raw (infos ! k))) [0..<length infos] = map (\<lambda>o'. ro_image_addr (oi_raw o')) infos"
    by (rule nth_equalityI) simp_all
  ultimately have "distinct (map me_addr (ml_modules ml))" using d by (metis mset_eq_imp_distinct_iff)
  then show "sorted_by me_addr (ml_modules ml)" using inv by (intro sorted_distinct_by) (simp_all add: modules_inv_def)
qed

lemma find_index:
  "distinct (map me_index es) \<Longrightarrow> find (\<lambda>e. me_index e = i) es = Some e \<longleftrightarrow> e \<in> set es \<and> me_index e = i"
  by (induction es) auto

section \<open>Properties\<close>

text \<open>
  The modules come back as they were sent: whatever was fetched, the modules of the response are
  those of the request, in its order, with the same identifiers, files and addresses, the
  rewritten name of the first image restored; only a size that was not given may be filled in.
\<close>

theorem modules_keep_order:
  assumes "module_reach infos ml" and "list_all (\<lambda>o'. sorted_by cand_key (oi_candidates o')) infos"
  shows "list_all2 (\<lambda>o' o''. same_but_size (oi_raw o') (oi_raw o'')) infos (into_inner ml)"
  by (rule inv_into_inner[OF reach_inv[OF assms]])

definition demo_raw :: "string \<Rightarrow> 64 word \<Rightarrow> raw_object_info" where
  "demo_raw f a = \<lparr>ro_type = Elf, ro_code_id = None, ro_code_file = Some f, ro_debug_id = None, ro_debug_file = Some f,
     ro_debug_checksum = None, ro_image_addr = a, ro_image_size = None\<rparr>"

definition demo_info :: "string \<Rightarrow> 64 word \<Rightarrow> object_info" where
  "demo_info f a = \<lparr>oi_debug_status = StUnused, oi_unwind_status = None, oi_features = default_features,
     oi_arch = ''unknown'', oi_raw = demo_raw f a, oi_candidates = []\<rparr>"

definition demo_lookup :: "(nat, nat, nat) module_lookup" where
  "demo_lookup = module_lookup_new Global [SrcSentry ''p''] [\<lambda>_. Some ''other''] [demo_info ''b'' 8192, demo_info ''a'' 4096]"

lemma demo_reach: "module_reach [demo_info ''b'' 8192, demo_info ''a'' 4096] demo_lookup"
  unfolding demo_lookup_def by (rule module_reach.intros)

lemma demo_modules: "\<exists>e f. ml_modules demo_lookup = [e, f]
    \<and> me_index e = 1 \<and> me_addr e = 4096 \<and> me_size e = 4096 \<and> oi_candidates (me_info e) = [] \<and> ro_type (oi_raw (me_info e)) = Elf
    \<and> me_index f = 0 \<and> me_addr f = 8192"
  by (simp add: demo_lookup_def module_lookup_new_def new_entry_def me_addr_def demo_info_def demo_raw_def rewrite_first_def
      fill_size_def me_size_def update_raw_def set_debug_file_def)

theorem modules_keep_order_witness:
  "map (\<lambda>o'. ro_debug_file (oi_raw o')) (into_inner demo_lookup) = [Some ''b'', Some ''a'']"
proof -
  have "list_all (\<lambda>o'. sorted_by cand_key (oi_candidates o')) [demo_info ''b'' 8192, demo_info ''a'' 4096]"
    by (simp add: demo_info_def)
  from modules_keep_order[OF demo_reach this]
  have "list_all2 (\<lambda>o' o''. ro_debug_file (oi_raw o'') = ro_debug_file (oi_raw o'))
      [demo_info ''b'' 8192, demo_info ''a'' 4096] (into_inner demo_lookup)"
    unfolding same_but_size_def
    by (elim list_all2_mono) (metis raw_object_info.select_convs(5) raw_object_info.surjective raw_object_info.update_convs(8))
  then show ?thesis by (auto simp: list_all2_Cons1 demo_info_def demo_raw_def)
qed

text \<open>
  The right module is found: when the images of a request start at different addresses, an
  absolute address gives the image that starts last at or before it, exactly if the image ends
  at or after the address within the address space or has no size, and a relative address the
  module of its index.
\<close>

theorem address_finds_module:
  assumes "module_reach infos ml" and "list_all (\<lambda>o'. sorted_by cand_key (oi_candidates o')) infos"
    and "distinct (map (\<lambda>o'. ro_image_addr (oi_raw o')) infos)"
  shows "(get_module_by_addr ml addr Abs = Some e \<longleftrightarrow>
            e \<in> set (ml_modules ml) \<and> covers e addr
            \<and> filter (\<lambda>f. me_addr e < me_addr f \<and> me_addr f \<le> addr) (ml_modules ml) = [])
       \<and> (get_module_by_addr ml addr (Rel i) = Some e \<longleftrightarrow> e \<in> set (ml_modules ml) \<and> me_index e = i)"
proof -
  note inv = reach_inv[OF assms(1,2)]
  note d = inv_distinct[OF inv assms(3)]
  have "filter (\<lambda>f. me_addr e < me_addr f \<and> me_addr f \<le> addr) (ml_modules ml) = []
      \<longleftrightarrow> (\<forall>f \<in> set (ml_modules ml). me_addr f \<le> addr \<longrightarrow> me_addr f \<le> me_addr e)"
    by (auto simp: filter_empty_conv not_less)
  with covering_module[OF d(2), of addr e] find_index[OF d(1), of i e] show ?thesis
    by (simp add: get_module_by_addr_def)
qed

theorem address_finds_module_witness:
  "\<exists>e. get_module_by_addr demo_lookup 4097 Abs = Some e \<and> me_index e = 1"
proof -
  have h: "list_all (\<lambda>o'. sorted_by cand_key (oi_candidates o')) [demo_info ''b'' 8192, demo_info ''a'' 4096]"
    "distinct (map (\<lambda>o'. ro_image_addr (oi_raw o')) [demo_info ''b'' 8192, demo_info ''a'' 4096])"
    by (simp_all add: demo_info_def demo_raw_def)
  obtain e f where m: "ml_modules demo_lookup = [e, f]" and e: "me_index e = 1" "me_addr e = 4096" "me_size e = 4096"
    and f: "me_addr f = 8192"
    using demo_modules by blast
  have "e \<in> set (ml_modules demo_lookup) \<and> covers e 4097
     \<and> filter (\<lambda>f. me_addr e < me_addr f \<and> me_addr f \<le> 4097) (ml_modules demo_lookup) = []"
    using e f by (simp add: m covers_def)
  with address_finds_module[OF demo_reach h, of 4097 e 0] e(1) show ?thesis by blast
qed

text \<open>
  C29. The status of a module is the truth: after the debug information was fetched, a module no
  frame refers to is unused, and any other has the status of its cache; where debug information
  was found, the list of candidates shows a file that was used.
\<close>

theorem fetched_modules_truthful:
  assumes "module_reach infos ml" and "list_all (\<lambda>o'. sorted_by cand_key (oi_candidates o')) infos"
    and "fetch_caches (native_services sv ax symcaches ppdbs I arch) sts ex ml = Ret ml'"
  shows "list_all (entry_truthful (referenced_list ml (frame_addrs sts))) (ml_modules ml')"
proof -
  have "list_all (\<lambda>e. sorted_by cand_key (oi_candidates (me_info e))) (ml_modules ml)"
    using reach_inv[OF assms(1,2)] by (simp add: modules_inv_def)
  moreover obtain es where "ml' = ml\<lparr>ml_modules := es\<rparr>"
    and "list_all2 (\<lambda>e e'. fetch_module (native_services sv ax symcaches ppdbs I arch) (ml_scope ml) (ml_sources ml) ex
        (set (referenced_list ml (frame_addrs sts))) e = Ret e') (ml_modules ml) es"
    using assms(3) by (auto simp: fetch_caches_def out_all_map_Ret)
  ultimately show ?thesis
    unfolding list_all2_conv_all_nth list_all_length using fetch_module_truthful by fastforce
qed

definition demo_ids :: id_externals where
  "demo_ids = \<lparr>debug_id_from_str = (\<lambda>_. None), debug_id_to_string = (\<lambda>_. []), code_id_from_str = (\<lambda>_. None), code_id_to_string = (\<lambda>_. [])\<rparr>"

definition demo_aux :: aux_services where
  "demo_aux = \<lparr>as_parsers = \<lparr>bcsymbolmap_error = (\<lambda>_. None), parse_plist = (\<lambda>_ _. Inl []), line_mapping_ok = (\<lambda>_. True)\<rparr>,
     as_auxdifs = (\<lambda>_ _ _ _. Inl NotFound), as_il2cpp = (\<lambda>_ _. Inl NotFound)\<rparr>"

definition demo_native :: "(nat, nat) debug_services" where
  "demo_native = native_services demo_services demo_aux (\<lambda>_ _. Inr 1) (\<lambda>_ _. Inr 2) demo_ids (\<lambda>_. ''x86'')"

definition demo_trace :: raw_stacktrace where
  "demo_trace = \<lparr>rs_thread_id = None, rs_thread_name = None, rs_is_requesting = None, rs_registers = Map.empty,
     rs_frames = [default_frame\<lparr>fr_instruction_addr := 4097\<rparr>]\<rparr>"

lemma demo_scope: "ml_scope demo_lookup = Global" "ml_sources demo_lookup = [SrcSentry ''p'']"
  by (simp_all add: demo_lookup_def module_lookup_new_def Let_def split: prod.split)

lemma demo_referenced: "referenced_list demo_lookup (frame_addrs [demo_trace]) = [1]"
proof -
  obtain e f where m: "ml_modules demo_lookup = [e, f]" and e: "me_index e = 1" "me_addr e = 4096" "me_size e = 4096"
    and f: "me_addr f = 8192"
    using demo_modules by blast
  have "get_module_by_addr demo_lookup 4097 Abs = Some e"
    using e f by (simp add: covering_module m covers_def)
  then show ?thesis
    by (simp add: referenced_list_def frame_addrs_def demo_trace_def default_frame_def List.map_filter_def e(1))
qed

lemma demo_symcache: "\<exists>d. symcache_service demo_services demo_aux (\<lambda>_ _. Inr 1) (Elf, i, False) Global [SrcSentry ''p''] = Ret d
    \<and> dc_cache d = Inr (1 :: nat)"
proof -
  obtain fr where fr: "find_with demo_services (from_object_type Elf) PurposeDebug Global i [SrcSentry ''p''] = Ret fr"
    and m: "found fr = Some \<lparr>file_source = Sentry ''p'' ''1'', handle = Inr (default_features\<lparr>has_debug_info := True\<rparr>)\<rparr>"
    using demo_search by blast
  define derive :: "remote_file \<Rightarrow> nat cache_contents outcome" where "derive = (\<lambda>f.
      let hs = lookup_scope Global f in
      bind_out (case debug_id i of
                  Some d \<Rightarrow> fetch_bcsymbolmap demo_services (as_parsers demo_aux) (as_auxdifs demo_aux) d hs [SrcSentry ''p'']
                | None \<Rightarrow> Ret None) (\<lambda>bc.
      map_out (\<lambda>il. Inr 1)
        (case debug_id i of
           Some d \<Rightarrow> fetch_line_mapping demo_services (as_il2cpp demo_aux) i hs [SrcSentry ''p'']
         | None \<Rightarrow> Ret None)))"
  have "derive (file_source \<lparr>file_source = Sentry ''p'' ''1'', handle = Inr (default_features\<lparr>has_debug_info := True\<rparr>)\<rparr>) = Ret (Inr 1)"
    by (cases "debug_id i") (simp_all add: derive_def demo_aux_def demo_services_def fetch_bcsymbolmap_def
        fetch_file_from_all_sources_def fetch_first_def fetch_line_mapping_def list_source_def)
  from derive_from_object_handle_found[where derive = derive, OF find_with_sorted[OF fr] m this, of demo_durations "sv_uri demo_services" StatusDebug]
  obtain d where "derive_from_object_handle demo_durations (sv_uri demo_services) fr StatusDebug derive = Ret d" "dc_cache d = Inr 1"
    by (auto simp: derived_use_def)
  moreover have "sv_durations demo_services = demo_durations" by (simp add: demo_services_def)
  ultimately show ?thesis
    unfolding symcache_service_def symcache_fetch_def fst_conv snd_conv fr bind_out_simps derive_def by simp
qed

theorem fetched_modules_truthful_witness:
  "\<exists>ml' e f. fetch_caches demo_native [demo_trace] False demo_lookup = Ret ml' \<and> ml_modules ml' = [e, f]
     \<and> oi_debug_status (me_info f) = StUnused \<and> oi_debug_status (me_info e) = StFound
     \<and> list_ex (\<lambda>x. cand_debug x = UseOk) (oi_candidates (me_info e))"
proof -
  obtain e f where m: "ml_modules demo_lookup = [e, f]" and e: "me_index e = 1" "ro_type (oi_raw (me_info e)) = Elf"
    and f: "me_index f = 0"
    using demo_modules by blast
  obtain d where d: "symcache_service demo_services demo_aux (\<lambda>_ _. Inr 1) (Elf, object_id_from_object_info demo_ids (oi_raw (me_info e)), False)
      Global [SrcSentry ''p''] = Ret d" "dc_cache d = Inr (1 :: nat)"
    using demo_symcache by blast
  define e' where "e' = apply_cache_file (\<lambda>_. ''x86'') (map_cache SymCacheEntry d) e"
  have fetch: "fetch_caches demo_native [demo_trace] False demo_lookup = Ret (demo_lookup\<lparr>ml_modules := [e', set_unused f]\<rparr>)"
    using e f d by (simp add: fetch_caches_def demo_referenced demo_scope m fetch_module_def demo_native_def native_services_def e'_def)
  have "list_all (\<lambda>o'. sorted_by cand_key (oi_candidates o')) [demo_info ''b'' 8192, demo_info ''a'' 4096]"
    by (simp add: demo_info_def)
  from fetched_modules_truthful[OF demo_reach this fetch[unfolded demo_native_def]]
  have t: "entry_truthful [1] e'" "entry_truthful [1] (set_unused f)" by (simp_all add: demo_referenced)
  have i: "me_index e' = 1" "me_cache e' = Inr (SymCacheEntry 1)" "me_index (set_unused f) = 0"
    using e f d(2) by (simp_all add: e'_def apply_cache_file_def map_cache_def Let_def set_unused_def)
  have "oi_debug_status (me_info (set_unused f)) = StUnused" "oi_debug_status (me_info e') = StFound"
    "list_ex (\<lambda>x. cand_debug x = UseOk) (oi_candidates (me_info e'))"
    using t i by (auto simp: entry_truthful_def status_from_contents_def)
  with fetch show ?thesis by (intro exI[of _ "demo_lookup\<lparr>ml_modules := [e', set_unused f]\<rparr>"] exI[of _ e'] exI[of _ "set_unused f"]) simp
qed

end
