(* ===== verification/Proguard.thy ===== *)
theory Proguard
  imports ModuleLookup JsUtils
begin

text \<open>
  \<open>symbolicator-proguard\<close>: remapping the exceptions, frames and classes of JVM events with ProGuard
  files, and their source context. Reading ProGuard files and source bundles is done by libraries;
  what they answer is the record \<open>proguard_lib\<close>.
\<close>

section \<open>Events\<close>

record jvm_frame =
  jv_platform :: "platform option"
  jv_function :: string
  jv_filename :: "string option"
  jv_module :: string
  jv_abs_path :: "string option"
  jv_lineno :: "32 word option"
  jv_pre_context :: "string list"
  jv_context_line :: "string option"
  jv_post_context :: "string list"
  jv_index :: nat
  jv_signature :: "string option"
  jv_method_synthesized :: bool

record jvm_exception =
  je_ty :: string
  je_module :: string

definition full_class_name :: "jvm_exception \<Rightarrow> string" where
  "full_class_name e = (if je_module e = [] then je_ty e else je_module e @ ''.'' @ je_ty e)"

record jvm_stacktrace =
  jt_exception :: "jvm_exception option"
  jt_frames :: "jvm_frame list"

datatype jvm_module_type = SourceModule | ProguardModule

record jvm_module =
  jmo_uuid :: debug_id_t
  jmo_type :: jvm_module_type

datatype proguard_error_kind = Missing | Invalid

definition proguard_error_display :: "proguard_error_kind \<Rightarrow> string" where
  "proguard_error_display k = (case k of
      Missing \<Rightarrow> ''The proguard mapping file is missing.''
    | Invalid \<Rightarrow> ''The proguard mapping file is invalid.'')"

record proguard_error =
  pe_uuid :: debug_id_t
  pe_kind :: proguard_error_kind

record jvm_request =
  jq_platform :: "platform option"
  jq_scope :: scope
  jq_sources :: "source_config list"
  jq_exceptions :: "jvm_exception list"
  jq_stacktraces :: "jvm_stacktrace list"
  jq_modules :: "jvm_module list"
  jq_apply_source_context :: bool
  jq_classes :: "string list"
  jq_frame_order :: frame_order

record jvm_response =
  jp_exceptions :: "jvm_exception list"
  jp_stacktraces :: "jvm_stacktrace list"
  jp_classes :: "string \<rightharpoonup> string"
  jp_errors :: "proguard_error list"

record jvm_stats =
  js_symbolicated_exceptions :: nat
  js_unsymbolicated_exceptions :: nat
  js_symbolicated_classes :: nat
  js_unsymbolicated_classes :: nat
  js_symbolicated_frames :: "platform option \<Rightarrow> nat"
  js_unsymbolicated_frames :: "platform option \<Rightarrow> nat"
  js_num_stacktraces :: nat

definition no_jvm_stats :: jvm_stats where
  "no_jvm_stats = \<lparr>js_symbolicated_exceptions = 0, js_unsymbolicated_exceptions = 0, js_symbolicated_classes = 0,
     js_unsymbolicated_classes = 0, js_symbolicated_frames = (\<lambda>_. 0), js_unsymbolicated_frames = (\<lambda>_. 0), js_num_stacktraces = 0\<rparr>"

section \<open>The libraries\<close>

text \<open>A frame that is looked up, a frame that is found, and a deobfuscated signature.\<close>

datatype proguard_frame = AtLine string string nat | WithParameters string string string

record remapped_frame =
  rf_class :: string
  rf_method :: string
  rf_line :: "nat option"
  rf_file :: "string option"
  rf_synthesized :: bool

record signature =
  sig_params :: "string list"
  sig_format :: string

text \<open>
  \<open>pg_remap_frame\<close> gets the descriptor of the exception, whether rewrite rules apply and the carried
  position in an outline; it answers None for a frame of an outline, or whether there were mappings
  and the frames, with the new position.
\<close>

record ('p, 'h, 'b) proguard_lib =
  pg_remap_class :: "'p \<Rightarrow> string \<Rightarrow> string option"
  pg_remap_method :: "'p \<Rightarrow> string \<Rightarrow> string \<Rightarrow> (string \<times> string) option"
  pg_deobfuscate :: "'p \<Rightarrow> string \<Rightarrow> signature option"
  pg_remap_frame :: "'p \<Rightarrow> proguard_frame \<Rightarrow> string option \<Rightarrow> bool \<Rightarrow> nat option
    \<Rightarrow> (bool \<times> remapped_frame list) option \<times> nat option"
  pg_descriptor :: "string \<Rightarrow> string"
  pg_open_bundle :: "'h \<Rightarrow> 'b option"
  pg_source_by_url :: "'b \<Rightarrow> string \<Rightarrow> source_descriptor option"

fun find_map :: "('a \<Rightarrow> 'c option) \<Rightarrow> 'a list \<Rightarrow> 'c option" where
  "find_map f [] = None"
| "find_map f (x # xs) = (case f x of Some y \<Rightarrow> Some y | None \<Rightarrow> find_map f xs)"

section \<open>Exceptions\<close>

definition map_exception :: "('p, 'h, 'b) proguard_lib \<Rightarrow> 'p list \<Rightarrow> jvm_exception \<Rightarrow> jvm_exception option" where
  "map_exception lib mappers e =
     (if mappers = [] then None
      else case find_map (\<lambda>m. pg_remap_class lib m (full_class_name e)) mappers of
        None \<Rightarrow> None
      | Some mapped \<Rightarrow>
          (let (new_module, new_ty) = (case rsplit_once (CHR ''.'') mapped of Some p \<Rightarrow> p | None \<Rightarrow> ([], mapped))
           in Some \<lparr>je_ty = new_ty, je_module = new_module\<rparr>))"

section \<open>Frames\<close>

datatype full_remap = OutlineFrame | RewriteCleared | Frames "jvm_frame list" | NoFrames

definition first_some :: "'a option \<Rightarrow> 'a option \<Rightarrow> 'a option" where
  "first_some a b = (case a of Some x \<Rightarrow> Some x | None \<Rightarrow> b)"

definition remapped :: "jvm_frame \<Rightarrow> remapped_frame \<Rightarrow> jvm_frame" where
  "remapped f r = f\<lparr>jv_module := rf_class r, jv_function := rf_method r, jv_lineno := map_option of_nat (rf_line r),
     jv_abs_path := first_some (rf_file r) (jv_abs_path f), jv_filename := first_some (rf_file r) (jv_filename f),
     jv_method_synthesized := rf_synthesized r\<rparr>"

definition map_full_frame :: "('p, 'h, 'b) proguard_lib \<Rightarrow> 'p \<Rightarrow> proguard_frame \<Rightarrow> jvm_frame \<Rightarrow> string option \<Rightarrow> bool \<Rightarrow> nat option
    \<Rightarrow> full_remap \<times> nat option" where
  "map_full_frame lib m pf f exc can_rewrite pos =
     (case pg_remap_frame lib m pf exc can_rewrite pos of
        (None, pos) \<Rightarrow> (OutlineFrame, pos)
      | (Some (had_mappings, rs), pos) \<Rightarrow>
          (if had_mappings \<and> rs = [] then RewriteCleared
           else if rs = [] then NoFrames
           else Frames (map (remapped f) rs), pos))"

definition map_class_method :: "('p, 'h, 'b) proguard_lib \<Rightarrow> 'p \<Rightarrow> jvm_frame \<Rightarrow> jvm_frame list option" where
  "map_class_method lib m f =
     map_option (\<lambda>(c, f'). [f\<lparr>jv_module := c, jv_function := f'\<rparr>]) (pg_remap_method lib m (jv_module f) (jv_function f))"

definition map_class :: "('p, 'h, 'b) proguard_lib \<Rightarrow> 'p \<Rightarrow> jvm_frame \<Rightarrow> jvm_frame list option" where
  "map_class lib m f = map_option (\<lambda>c. [f\<lparr>jv_module := c\<rparr>]) (pg_remap_class lib m (jv_module f))"

text \<open>The mappers in turn, each with its carried position.\<close>

fun try_mappers :: "('p, 'h, 'b) proguard_lib \<Rightarrow> proguard_frame \<Rightarrow> jvm_frame \<Rightarrow> string option \<Rightarrow> bool \<Rightarrow> ('p \<times> nat option) list
    \<Rightarrow> full_remap \<times> ('p \<times> nat option) list" where
  "try_mappers lib pf f exc can_rewrite [] = (NoFrames, [])"
| "try_mappers lib pf f exc can_rewrite ((m, pos) # ms) =
     (case map_full_frame lib m pf f exc can_rewrite pos of
        (NoFrames, pos) \<Rightarrow>
          (case map_class_method lib m f of
             Some fs \<Rightarrow> (Frames fs, (m, pos) # ms)
           | None \<Rightarrow>
               (case map_class lib m f of
                  Some fs \<Rightarrow> (Frames fs, (m, pos) # ms)
                | None \<Rightarrow> (let (r, ms) = try_mappers lib pf f exc can_rewrite ms in (r, (m, pos) # ms))))
      | (r, pos) \<Rightarrow> (r, (m, pos) # ms))"

definition join_params :: "string list \<Rightarrow> string" where
  "join_params = join_with '',''"

definition lookup_frame :: "jvm_frame \<Rightarrow> signature option \<Rightarrow> proguard_frame" where
  "lookup_frame f sig =
     (case jv_lineno f of
        Some l \<Rightarrow> AtLine (jv_module f) (jv_function f) (unat l)
      | None \<Rightarrow>
          (case sig of
             Some s \<Rightarrow> WithParameters (jv_module f) (jv_function f) (join_params (sig_params s))
           | None \<Rightarrow> AtLine (jv_module f) (jv_function f) 0))"

definition bump_frames :: "jvm_frame list \<Rightarrow> (platform option \<Rightarrow> nat) \<Rightarrow> platform option \<Rightarrow> nat" where
  "bump_frames fs n = fold (\<lambda>f n. n(jv_platform f := Suc (n (jv_platform f)))) fs n"

definition with_signature :: "signature option \<Rightarrow> jvm_frame \<Rightarrow> jvm_frame" where
  "with_signature sig f = (case sig of Some s \<Rightarrow> f\<lparr>jv_signature := Some (sig_format s)\<rparr> | None \<Rightarrow> f)"

definition frame_signature :: "('p, 'h, 'b) proguard_lib \<Rightarrow> 'p list \<Rightarrow> jvm_frame \<Rightarrow> signature option" where
  "frame_signature lib mappers f = Option.bind (jv_signature f) (\<lambda>s. find_map (\<lambda>m. pg_deobfuscate lib m s) mappers)"

text \<open>One frame: what it becomes, whether the next frame may be rewritten, and the positions.\<close>

definition map_frame :: "('p, 'h, 'b) proguard_lib \<Rightarrow> string option \<Rightarrow> bool \<Rightarrow> ('p \<times> nat option) list \<Rightarrow> jvm_frame \<Rightarrow> jvm_stats
    \<Rightarrow> jvm_frame list \<times> bool \<times> ('p \<times> nat option) list \<times> jvm_stats" where
  "map_frame lib exc can_rewrite mps f st =
     (let sig = frame_signature lib (map fst mps) f;
          (r, mps) = try_mappers lib (lookup_frame f sig) f exc can_rewrite mps
      in case r of
           OutlineFrame \<Rightarrow> ([], can_rewrite, mps, st)
         | RewriteCleared \<Rightarrow> ([], False, mps, st)
         | Frames fs \<Rightarrow>
             (let fs = (if jv_lineno f \<noteq> None then filter (\<lambda>g. \<not> jv_method_synthesized g) fs else fs)
              in if jv_lineno f \<noteq> None \<and> fs = [] then ([], False, mps, st)
                 else (map (with_signature sig) fs, False, mps,
                       st\<lparr>js_symbolicated_frames := bump_frames fs (js_symbolicated_frames st)\<rparr>))
         | NoFrames \<Rightarrow>
             ([with_signature sig f], False, mps,
              st\<lparr>js_unsymbolicated_frames := bump_frames [f] (js_unsymbolicated_frames st)\<rparr>))"

fun map_frames :: "('p, 'h, 'b) proguard_lib \<Rightarrow> string option \<Rightarrow> bool \<Rightarrow> ('p \<times> nat option) list \<Rightarrow> jvm_frame list \<Rightarrow> jvm_stats
    \<Rightarrow> jvm_frame list \<times> jvm_stats" where
  "map_frames lib exc can_rewrite mps [] st = ([], st)"
| "map_frames lib exc can_rewrite mps (f # fs) st =
     (let (gs, can_rewrite, mps, st) = map_frame lib exc can_rewrite mps f st;
          (hs, st) = map_frames lib exc can_rewrite mps fs st
      in (gs @ hs, st))"

definition map_stacktrace :: "('p, 'h, 'b) proguard_lib \<Rightarrow> 'p list \<Rightarrow> jvm_frame list \<Rightarrow> jvm_exception option \<Rightarrow> jvm_stats
    \<Rightarrow> jvm_frame list \<times> jvm_stats" where
  "map_stacktrace lib mappers frames exception st =
     (let exc = map_option (\<lambda>e. pg_descriptor lib (full_class_name e)) exception
      in map_frames lib exc (exc \<noteq> None) (map (\<lambda>m. (m, None)) mappers) frames st)"

section \<open>Source context\<close>

definition is_valid_path :: "string \<Rightarrow> string option" where
  "is_valid_path abs_path =
     (if CHR ''$'' \<in> set abs_path then None else map_option fst (rsplit_once (CHR ''.'') abs_path))"

definition dots_to_slashes :: "string \<Rightarrow> string" where
  "dots_to_slashes = map (\<lambda>c. if c = CHR ''.'' then CHR ''/'' else c)"

definition build_source_file_name :: "jvm_frame \<Rightarrow> string" where
  "build_source_file_name f =
     ''~/''
     @ (case Option.bind (jv_abs_path f) is_valid_path of
          Some before_dot \<Rightarrow>
            (case rsplit_once (CHR ''.'') (jv_module f) of
               Some (m, _) \<Rightarrow> dots_to_slashes m @ ''/''
             | None \<Rightarrow> [])
            @ before_dot
        | None \<Rightarrow> dots_to_slashes (case split_once (CHR ''$'') (jv_module f) of Some (a, _) \<Rightarrow> a | None \<Rightarrow> jv_module f))
     @ ''.jvm''"

fun jvm_context_loop :: "('p, 'h, 'b) proguard_lib \<Rightarrow> 'b list \<Rightarrow> string \<Rightarrow> nat \<Rightarrow> jvm_frame \<Rightarrow> jvm_frame outcome" where
  "jvm_context_loop lib [] file lineno f = Ret f"
| "jvm_context_loop lib (b # bs) file lineno f =
     (case pg_source_by_url lib b file of
        None \<Rightarrow> jvm_context_loop lib bs file lineno f
      | Some source \<Rightarrow>
          (case sd_contents source of
             None \<Rightarrow> jvm_context_loop lib bs file lineno f
           | Some contents \<Rightarrow>
               bind_out (get_context_lines contents lineno 0 None) (\<lambda>r. case r of
                 Some (pre, context, post) \<Rightarrow>
                   Ret (f\<lparr>jv_pre_context := pre, jv_context_line := Some context, jv_post_context := post\<rparr>)
               | None \<Rightarrow> jvm_context_loop lib bs file lineno f)))"

definition jvm_apply_source_context :: "('p, 'h, 'b) proguard_lib \<Rightarrow> 'b list \<Rightarrow> jvm_frame \<Rightarrow> jvm_frame outcome" where
  "jvm_apply_source_context lib bundles f =
     (case jv_lineno f of
        None \<Rightarrow> Ret f
      | Some l \<Rightarrow> if l = 0 then Ret f else jvm_context_loop lib bundles (build_source_file_name f) (unat l) f)"

section \<open>ProGuard files and source bundles\<close>

text \<open>
  What the services answer: the files on the sources, the cache of ProGuard files, the objects. The
  result of listing files may be a panic of the path generators.
\<close>

record ('p, 'h) jvm_services =
  jsv_externals :: externals
  jsv_durations :: duration_text
  jsv_sha :: "string \<Rightarrow> 8 word list"
  jsv_uri :: "remote_file \<Rightarrow> string"
  jsv_index :: "source_config \<Rightarrow> source_index option"
  jsv_sentry_list :: "file_type list \<Rightarrow> string \<Rightarrow> remote_file list cache_contents"
  jsv_meta :: "cache_key \<Rightarrow> remote_file \<Rightarrow> object_features cache_contents"
  jsv_proguard :: "cache_key \<Rightarrow> remote_file \<Rightarrow> 'p cache_contents"
  jsv_object :: "remote_file \<Rightarrow> object_features \<Rightarrow> 'h cache_contents"

definition download_proguard_file :: "('p, 'h) jvm_services \<Rightarrow> source_config list \<Rightarrow> scope \<Rightarrow> debug_id_t \<Rightarrow> 'p cache_contents outcome" where
  "download_proguard_file sv sources sc d =
     map_out (\<lambda>fs. case fs of
          [] \<Rightarrow> Inl NotFound
        | (f, _) # _ \<Rightarrow> jsv_proguard sv (from_scoped_file (jsv_sha sv) (jsv_uri sv) sc f) f)
       (list_files (jsv_externals sv) (jsv_index sv) (jsv_sentry_list sv [file_type.Proguard]) sources [file_type.Proguard] (object_id_from_debug_id d))"

definition download_source_bundle :: "('p, 'h) jvm_services \<Rightarrow> source_config list \<Rightarrow> scope \<Rightarrow> debug_id_t \<Rightarrow> 'h cache_contents outcome" where
  "download_source_bundle sv sources sc d =
     map_out (\<lambda>r. case found r of
          None \<Rightarrow> Inl NotFound
        | Some meta \<Rightarrow> (case handle meta of Inl e \<Rightarrow> Inl e | Inr h \<Rightarrow> jsv_object sv (file_source meta) h))
       (find_object (jsv_externals sv) (jsv_durations sv) (jsv_sha sv) (jsv_uri sv) (jsv_index sv) (jsv_sentry_list sv [file_type.SourceBundle])
          (jsv_meta sv) [file_type.SourceBundle] PurposeSource sc (object_id_from_debug_id d) sources)"

section \<open>Whole requests\<close>

definition error_of :: "debug_id_t \<times> 'p cache_contents \<Rightarrow> proguard_error option" where
  "error_of r = (case snd r of
      Inr _ \<Rightarrow> None
    | Inl (Malformed _) \<Rightarrow> Some \<lparr>pe_uuid = fst r, pe_kind = Invalid\<rparr>
    | Inl _ \<Rightarrow> Some \<lparr>pe_uuid = fst r, pe_kind = Missing\<rparr>)"

definition ok_contents :: "'a cache_contents \<Rightarrow> 'a option" where
  "ok_contents c = (case c of Inr x \<Rightarrow> Some x | Inl _ \<Rightarrow> None)"

definition modules_of :: "jvm_module_type \<Rightarrow> jvm_request \<Rightarrow> debug_id_t list" where
  "modules_of t req = map jmo_uuid (filter (\<lambda>m. jmo_type m = t) (jq_modules req))"

definition count_exception :: "('p, 'h, 'b) proguard_lib \<Rightarrow> 'p list \<Rightarrow> jvm_exception \<Rightarrow> jvm_stats \<Rightarrow> jvm_exception \<times> jvm_stats" where
  "count_exception lib mappers e st =
     (case map_exception lib mappers e of
        Some e' \<Rightarrow> (e', st\<lparr>js_symbolicated_exceptions := Suc (js_symbolicated_exceptions st)\<rparr>)
      | None \<Rightarrow> (e, st\<lparr>js_unsymbolicated_exceptions := Suc (js_unsymbolicated_exceptions st)\<rparr>))"

fun map_state :: "('a \<Rightarrow> 's \<Rightarrow> 'c \<times> 's) \<Rightarrow> 'a list \<Rightarrow> 's \<Rightarrow> 'c list \<times> 's" where
  "map_state f [] s = ([], s)"
| "map_state f (x # xs) s = (let (y, s) = f x s; (ys, s) = map_state f xs s in (y # ys, s))"

definition remap_trace :: "('p, 'h, 'b) proguard_lib \<Rightarrow> 'p list \<Rightarrow> frame_order \<Rightarrow> jvm_stacktrace \<Rightarrow> jvm_stats
    \<Rightarrow> jvm_stacktrace \<times> jvm_stats" where
  "remap_trace lib mappers order t st =
     (let exception = map_option (\<lambda>e. case map_exception lib mappers e of Some e' \<Rightarrow> e' | None \<Rightarrow> e) (jt_exception t);
          (frames, st) = map_stacktrace lib mappers (if order = CallerFirst then rev (jt_frames t) else jt_frames t) exception st
      in (\<lparr>jt_exception = exception, jt_frames = (if order = CallerFirst then rev frames else frames)\<rparr>, st))"

definition context_of_trace :: "('p, 'h, 'b) proguard_lib \<Rightarrow> 'b list \<Rightarrow> jvm_stacktrace \<Rightarrow> jvm_stacktrace outcome" where
  "context_of_trace lib bundles t = map_out (\<lambda>fs. t\<lparr>jt_frames := fs\<rparr>) (out_all (map (jvm_apply_source_context lib bundles) (jt_frames t)))"

definition remap_one_class :: "('p, 'h, 'b) proguard_lib \<Rightarrow> 'p list \<Rightarrow> string \<Rightarrow> jvm_stats \<Rightarrow> (string \<times> string) option \<times> jvm_stats" where
  "remap_one_class lib mappers c st =
     (case find_map (\<lambda>m. pg_remap_class lib m c) mappers of
        Some r \<Rightarrow> (Some (c, r), st\<lparr>js_symbolicated_classes := Suc (js_symbolicated_classes st)\<rparr>)
      | None \<Rightarrow> (None, st\<lparr>js_unsymbolicated_classes := Suc (js_unsymbolicated_classes st)\<rparr>))"

text \<open>The part of a request after its files were fetched.\<close>

definition symbolicate_with :: "('p, 'h, 'b) proguard_lib \<Rightarrow> (debug_id_t \<times> 'p cache_contents) list \<Rightarrow> 'h cache_contents list \<Rightarrow> jvm_request
    \<Rightarrow> (jvm_response \<times> jvm_stats) outcome" where
  "symbolicate_with lib maybe_mappers maybe_bundles req =
     (let mappers = List.map_filter (ok_contents \<circ> snd) maybe_mappers;
          errors = List.map_filter error_of maybe_mappers;
          bundles = List.map_filter (\<lambda>b. Option.bind (ok_contents b) (pg_open_bundle lib)) maybe_bundles;
          (exceptions, st) = map_state (count_exception lib mappers) (jq_exceptions req) no_jvm_stats;
          (traces, st) = map_state (remap_trace lib mappers (jq_frame_order req)) (jq_stacktraces req) st;
          (classes, st) = map_state (remap_one_class lib mappers) (jq_classes req) st
      in map_out (\<lambda>traces.
           (\<lparr>jp_exceptions = exceptions, jp_stacktraces = traces,
              jp_classes = map_of (rev (List.map_filter id classes)), jp_errors = errors\<rparr>,
            st\<lparr>js_num_stacktraces := length traces\<rparr>))
           (if jq_apply_source_context req then out_all (map (context_of_trace lib bundles) traces) else Ret traces))"

definition symbolicate_jvm :: "('p, 'h) jvm_services \<Rightarrow> ('p, 'h, 'b) proguard_lib \<Rightarrow> jvm_request \<Rightarrow> (jvm_response \<times> jvm_stats) outcome" where
  "symbolicate_jvm sv lib req =
     bind_out (out_all (map (\<lambda>d. map_out (Pair d) (download_proguard_file sv (jq_sources req) (jq_scope req) d)) (modules_of ProguardModule req))) (\<lambda>mappers.
     bind_out (out_all (map (download_source_bundle sv (jq_sources req) (jq_scope req)) (modules_of SourceModule req))) (\<lambda>bundles.
     symbolicate_with lib mappers bundles req))"

section \<open>Computing a ProGuard cache\<close>

text \<open>The checks and the writer of the \<open>proguard\<close> crate.\<close>

record 'p proguard_writer =
  pw_is_valid :: "string \<Rightarrow> bool"
  pw_write :: "string \<Rightarrow> string cache_contents"
  pw_parse :: "string \<Rightarrow> 'p option"

definition proguard_compute :: "'p proguard_writer \<Rightarrow> string cache_contents \<Rightarrow> (string \<Rightarrow> string + string) \<Rightarrow> string
    \<Rightarrow> unit cache_contents \<times> string" where
  "proguard_compute w download decompress temp =
     (case fetch_file download decompress temp of
        (Inl e, temp) \<Rightarrow> (Inl e, temp)
      | (Inr _, temp) \<Rightarrow>
          (if \<not> pw_is_valid w temp then (Inl (Malformed ''The file is not a valid ProGuard file''), temp)
           else case pw_write w temp of
             Inl e \<Rightarrow> (Inl e, temp)
           | Inr written \<Rightarrow> (Inr (), written)))"

definition proguard_load :: "'p proguard_writer \<Rightarrow> string \<Rightarrow> 'p cache_contents" where
  "proguard_load w content = (case pw_parse w content of None \<Rightarrow> Inl InternalError | Some p \<Rightarrow> Inr p)"

end
