(* ===== verification/ProguardCorrect.thy ===== *)
theory ProguardCorrect
  imports Proguard
begin

text \<open>
  What remapping JVM events guarantees: every frame comes from its place in the request and is counted,
  rewrite rules only touch the first frame, and source context is that of the first bundle that has the file.
\<close>

section \<open>Frames stay in place\<close>

text \<open>A frame that was expanded from another keeps its index and its platform.\<close>

definition same_origin :: "jvm_frame \<Rightarrow> jvm_frame \<Rightarrow> bool" where
  "same_origin f g \<longleftrightarrow> jv_index g = jv_index f \<and> jv_platform g = jv_platform f"

definition expanded :: "jvm_frame list \<Rightarrow> jvm_frame list \<Rightarrow> bool" where
  "expanded fs gs \<longleftrightarrow> (\<exists>bs. gs = concat bs \<and> list_all2 (\<lambda>f b. list_all (same_origin f) b) fs bs)"

lemma try_mappers_origin:
  "try_mappers lib pf f exc c mps = (Frames fs, mps') \<Longrightarrow> list_all (same_origin f) fs"
proof (induction lib pf f exc c mps arbitrary: mps' rule: try_mappers.induct)
  case (2 lib pf f exc c m pos ms)
  obtain r pos' where r: "map_full_frame lib m pf f exc c pos = (r, pos')" by fastforce
  have full: "list_all (same_origin f) gs" if "r = Frames gs" for gs
    using r that by (auto simp: map_full_frame_def remapped_def same_origin_def list_all_iff split: option.splits prod.splits if_splits)
  show ?case
  proof (cases r)
    case NoFrames
    show ?thesis
    proof (cases "map_class_method lib m f")
      case (Some gs)
      then show ?thesis using 2(2) r NoFrames by (auto simp: map_class_method_def same_origin_def)
    next
      case None
      show ?thesis
      proof (cases "map_class lib m f")
        case (Some gs)
        then show ?thesis using 2(2) r NoFrames None by (auto simp: map_class_def same_origin_def)
      next
        case none2: None
        then show ?thesis using 2(1)[OF r[symmetric] NoFrames None none2] 2(2) r NoFrames None by (auto split: prod.splits)
      qed
    qed
  qed (use 2(2) r full in auto)
qed simp

lemma with_signature_origin [simp]: "same_origin f (with_signature s g) = same_origin f g"
  "jv_platform (with_signature s g) = jv_platform g" "jv_index (with_signature s g) = jv_index g" "jv_method_synthesized (with_signature s g) = jv_method_synthesized g"
  by (simp_all add: with_signature_def same_origin_def split: option.splits)

lemma map_frame_origin: "map_frame lib exc c mps f st = (gs, c', mps', st') \<Longrightarrow> list_all (same_origin f) gs"
  unfolding map_frame_def Let_def
  by (auto simp: list_all_iff same_origin_def split: prod.splits full_remap.splits if_splits
      dest!: try_mappers_origin)

lemma map_frames_expanded: "map_frames lib exc c mps fs st = (gs, st') \<Longrightarrow> expanded fs gs"
proof (induction fs arbitrary: c mps st gs)
  case (Cons f fs)
  obtain hs c' mps' st1 where f: "map_frame lib exc c mps f st = (hs, c', mps', st1)" by (metis surj_pair)
  obtain gs1 where r: "map_frames lib exc c' mps' fs st1 = (gs1, st')" "gs = hs @ gs1"
    using Cons.prems f by (auto split: prod.splits)
  obtain bs where "gs1 = concat bs" "list_all2 (\<lambda>f b. list_all (same_origin f) b) fs bs"
    using Cons.IH[OF r(1)] by (auto simp: expanded_def)
  then show ?case unfolding expanded_def using map_frame_origin[OF f] r(2) by (intro exI[of _ "hs # bs"]) simp
qed (simp add: expanded_def)

lemma expanded_rev: "expanded (rev fs) gs \<Longrightarrow> expanded fs (rev gs)"
proof -
  assume "expanded (rev fs) gs"
  then obtain bs where bs: "gs = concat bs" "list_all2 (\<lambda>f b. list_all (same_origin f) b) (rev fs) bs" by (auto simp: expanded_def)
  then have "list_all2 (\<lambda>f b. list_all (same_origin f) b) fs (rev bs)"
    using list_all2_rev[of "\<lambda>f b. list_all (same_origin f) b" "rev fs" bs] by simp
  then have "list_all2 (\<lambda>f b. list_all (same_origin f) b) fs (map rev (rev bs))"
    by (simp add: list_all2_map2 list_all_iff)
  then show ?thesis unfolding expanded_def using bs(1) by (intro exI[of _ "map rev (rev bs)"]) (simp add: rev_concat rev_map)
qed

section \<open>Frames are counted\<close>

definition frames_counted :: "jvm_stats \<Rightarrow> platform option \<Rightarrow> nat" where
  "frames_counted st p = js_symbolicated_frames st p + js_unsymbolicated_frames st p"

abbreviation frames_of :: "platform option \<Rightarrow> jvm_frame list \<Rightarrow> nat" where
  "frames_of p fs \<equiv> length (filter (\<lambda>f. jv_platform f = p) fs)"

lemma bump_frames_count: "bump_frames fs n p = n p + frames_of p fs"
  by (induction fs arbitrary: n) (auto simp: bump_frames_def)

lemma map_frame_counted:
  assumes "map_frame lib exc c mps f st = (gs, c', mps', st')"
  shows "frames_counted st' p = frames_counted st p + frames_of p gs"
proof -
  have "frames_of p (map (with_signature s) fs) = frames_of p fs" for s fs by (simp add: filter_map comp_def)
  then show ?thesis using assms unfolding map_frame_def Let_def
    by (auto simp: frames_counted_def bump_frames_count split: prod.splits full_remap.splits if_splits)
qed

lemma map_frames_counted:
  "map_frames lib exc c mps fs st = (gs, st') \<Longrightarrow> frames_counted st' p = frames_counted st p + frames_of p gs"
proof (induction fs arbitrary: c mps st gs)
  case (Cons f fs)
  obtain hs c' mps' st1 where f: "map_frame lib exc c mps f st = (hs, c', mps', st1)" by (metis surj_pair)
  obtain gs1 where r: "map_frames lib exc c' mps' fs st1 = (gs1, st')" "gs = hs @ gs1"
    using Cons.prems f by (auto split: prod.splits)
  show ?case using Cons.IH[OF r(1)] map_frame_counted[OF f, of p] r(2) by simp
qed simp

text \<open>The other counters belong to the exceptions and classes.\<close>

definition other_counters :: "jvm_stats \<Rightarrow> jvm_stats" where
  "other_counters st = st\<lparr>js_symbolicated_frames := \<lambda>_. 0, js_unsymbolicated_frames := \<lambda>_. 0\<rparr>"

lemma map_frames_others: "map_frames lib exc c mps fs st = (gs, st') \<Longrightarrow> other_counters st' = other_counters st"
proof (induction fs arbitrary: c mps st gs)
  case (Cons f fs)
  obtain hs c' mps' st1 where f: "map_frame lib exc c mps f st = (hs, c', mps', st1)" by (metis surj_pair)
  have "other_counters st1 = other_counters st" using f unfolding map_frame_def Let_def
    by (auto simp: other_counters_def split: prod.splits full_remap.splits if_splits)
  then show ?case using Cons.prems f Cons.IH by (auto split: prod.splits)
qed simp

lemma remap_trace_spec:
  assumes "remap_trace lib mappers order t st = (t', st')"
  shows "expanded (jt_frames t) (jt_frames t')"
    and "frames_counted st' p = frames_counted st p + frames_of p (jt_frames t')"
    and "other_counters st' = other_counters st"
proof -
  obtain exc c mps gs where gs: "map_frames lib exc c mps (if order = CallerFirst then rev (jt_frames t) else jt_frames t) st = (gs, st')"
      and t': "jt_frames t' = (if order = CallerFirst then rev gs else gs)"
    using assms unfolding remap_trace_def map_stacktrace_def Let_def by (auto split: prod.splits)
  show "expanded (jt_frames t) (jt_frames t')"
    using map_frames_expanded[OF gs] expanded_rev[of "jt_frames t" gs] t' by (auto split: if_splits)
  show "frames_counted st' p = frames_counted st p + frames_of p (jt_frames t')"
    using map_frames_counted[OF gs, of p] t' by (auto simp: rev_filter[symmetric])
  show "other_counters st' = other_counters st" by (rule map_frames_others[OF gs])
qed

section \<open>Whole requests\<close>

lemma map_state_length: "map_state f xs s = (ys, s') \<Longrightarrow> length ys = length xs"
  by (induction xs arbitrary: s ys) (auto split: prod.splits)

lemma map_state_inv:
  assumes "map_state f xs s = (ys, s')" and "\<And>x s y s'. f x s = (y, s') \<Longrightarrow> R x y \<and> (I s \<longrightarrow> I s')"
  shows "list_all2 R xs ys" "I s \<Longrightarrow> I s'"
  using assms(1)
proof (induction xs arbitrary: s ys)
  case (Cons x xs)
  case 1
  obtain y s1 ys1 where "f x s = (y, s1)" "map_state f xs s1 = (ys1, s')" "ys = y # ys1"
    using 1 by (auto split: prod.splits)
  then show ?case using assms(2) Cons.IH(1) by blast
next
  case (Cons x xs)
  case 2
  obtain y s1 ys1 where "f x s = (y, s1)" "map_state f xs s1 = (ys1, s')" "ys = y # ys1"
    using 2(2) by (auto split: prod.splits)
  then show ?case using assms(2) Cons.IH(2) 2(1) by blast
qed simp_all

lemma remap_traces_spec:
  assumes "map_state (remap_trace lib mappers order) ts st = (ts', st')"
  shows "list_all2 (\<lambda>t t'. expanded (jt_frames t) (jt_frames t')) ts ts'"
    and "frames_counted st' p = frames_counted st p + frames_of p (concat (map jt_frames ts'))"
    and "other_counters st' = other_counters st"
proof -
  show "list_all2 (\<lambda>t t'. expanded (jt_frames t) (jt_frames t')) ts ts'"
    by (rule map_state_inv(1)[OF assms, where I = "\<lambda>_. True"]) (auto dest: remap_trace_spec(1))
  show "frames_counted st' p = frames_counted st p + frames_of p (concat (map jt_frames ts'))"
    using assms
  proof (induction ts arbitrary: st ts')
    case (Cons t ts)
    obtain t1 st1 ts1 where t: "remap_trace lib mappers order t st = (t1, st1)" "map_state (remap_trace lib mappers order) ts st1 = (ts1, st')"
        "ts' = t1 # ts1" using Cons.prems by (auto split: prod.splits)
    show ?case using Cons.IH[OF t(2)] remap_trace_spec(2)[OF t(1), of p] t(3) by simp
  qed simp
  show "other_counters st' = other_counters st"
    by (rule map_state_inv(2)[OF assms, where I = "\<lambda>s. other_counters s = other_counters st" and R = "\<lambda>_ _. True"])
      (auto simp: remap_trace_spec(3))
qed

lemma count_exceptions_spec:
  "map_state (count_exception lib mappers) es st = (es', st') \<Longrightarrow>
     js_symbolicated_exceptions st' + js_unsymbolicated_exceptions st' = js_symbolicated_exceptions st + js_unsymbolicated_exceptions st + length es
     \<and> js_symbolicated_frames st' = js_symbolicated_frames st \<and> js_unsymbolicated_frames st' = js_unsymbolicated_frames st
     \<and> js_symbolicated_classes st' = js_symbolicated_classes st \<and> js_unsymbolicated_classes st' = js_unsymbolicated_classes st
     \<and> es' = map (\<lambda>e. case map_exception lib mappers e of Some e' \<Rightarrow> e' | None \<Rightarrow> e) es"
proof (induction es arbitrary: st es')
  case (Cons e es)
  obtain e1 st1 es1 where e: "count_exception lib mappers e st = (e1, st1)" "map_state (count_exception lib mappers) es st1 = (es1, st')"
      "es' = e1 # es1" using Cons.prems by (auto split: prod.splits)
  show ?case using Cons.IH[OF e(2)] e(1,3) by (auto simp: count_exception_def split: option.splits)
qed simp

lemma remap_classes_spec:
  "map_state (remap_one_class lib mappers) cs st = (rs, st') \<Longrightarrow>
     js_symbolicated_classes st' + js_unsymbolicated_classes st' = js_symbolicated_classes st + js_unsymbolicated_classes st + length cs
     \<and> js_symbolicated_frames st' = js_symbolicated_frames st \<and> js_unsymbolicated_frames st' = js_unsymbolicated_frames st
     \<and> js_symbolicated_exceptions st' = js_symbolicated_exceptions st \<and> js_unsymbolicated_exceptions st' = js_unsymbolicated_exceptions st
     \<and> rs = map (\<lambda>c. map_option (Pair c) (find_map (\<lambda>m. pg_remap_class lib m c) mappers)) cs"
proof (induction cs arbitrary: st rs)
  case (Cons c cs)
  obtain r1 st1 rs1 where c: "remap_one_class lib mappers c st = (r1, st1)" "map_state (remap_one_class lib mappers) cs st1 = (rs1, st')"
      "rs = r1 # rs1" using Cons.prems by (auto split: prod.splits)
  show ?case using Cons.IH[OF c(2)] c(1,3) by (auto simp: remap_one_class_def split: option.splits)
qed simp

text \<open>The class map: every class that some mapper knows, as the first of them maps it.\<close>

lemma class_map_spec:
  "map_of (rev (List.map_filter id (map (\<lambda>c. map_option (Pair c) (g c)) cs))) = (\<lambda>c. if c \<in> set cs then g c else None)"
proof (induction cs)
  case (Cons c cs)
  show ?case
  proof (cases "g c")
    case None
    then show ?thesis using Cons by (auto simp: List.map_filter_simps fun_eq_iff)
  next
    case (Some y)
    then show ?thesis using Cons by (auto simp: List.map_filter_simps fun_eq_iff map_add_def split: option.splits)
  qed
qed (simp add: List.map_filter_simps)

section \<open>Source context\<close>

definition same_but_context :: "jvm_frame \<Rightarrow> jvm_frame \<Rightarrow> bool" where
  "same_but_context f g \<longleftrightarrow> (\<exists>pre c post. g = f\<lparr>jv_pre_context := pre, jv_context_line := c, jv_post_context := post\<rparr>)"

lemma same_but_context_refl [simp]: "same_but_context f f"
  unfolding same_but_context_def
  by (intro exI[of _ "jv_pre_context f"] exI[of _ "jv_context_line f"] exI[of _ "jv_post_context f"]) simp

lemma same_but_context_origin: "same_but_context f g \<Longrightarrow> jv_index g = jv_index f \<and> jv_platform g = jv_platform f"
  by (auto simp: same_but_context_def)

lemma context_loop_origin: "jvm_context_loop lib bs file l f = Ret f' \<Longrightarrow> same_but_context f f'"
proof (induction bs)
  case (Cons b bs)
  have "same_but_context f (f\<lparr>jv_pre_context := pre, jv_context_line := c, jv_post_context := post\<rparr>)" for pre c post
    by (auto simp: same_but_context_def)
  then show ?case using Cons by (auto simp: bind_out_eq_Ret split: option.splits)
qed simp

lemma apply_context_origin: "jvm_apply_source_context lib bs f = Ret f' \<Longrightarrow> same_but_context f f'"
  using context_loop_origin by (auto simp: jvm_apply_source_context_def split: option.splits if_splits)

lemma out_all_list_all2:
  "out_all (map f xs) = Ret ys \<Longrightarrow> list_all2 (\<lambda>x y. f x = Ret y) xs ys"
  by (induction xs arbitrary: ys) (auto simp: bind_out_eq_Ret)

lemma context_trace_frames:
  assumes "context_of_trace lib bs t = Ret t'"
  shows "jt_exception t' = jt_exception t
    \<and> list_all2 same_but_context (jt_frames t) (jt_frames t')"
proof -
  obtain fs where fs: "out_all (map (jvm_apply_source_context lib bs) (jt_frames t)) = Ret fs" "t' = t\<lparr>jt_frames := fs\<rparr>"
    using assms by (auto simp: context_of_trace_def)
  show ?thesis using list_all2_mono[OF out_all_list_all2[OF fs(1)] apply_context_origin] fs(2) by simp
qed

lemma expanded_context:
  assumes "expanded fs gs" and "list_all2 same_but_context gs hs"
  shows "expanded fs hs"
proof -
  have same: "list_all2 (\<lambda>g h. jv_index h = jv_index g \<and> jv_platform h = jv_platform g) gs hs"
    using assms(2) by (rule list_all2_mono) (rule same_but_context_origin)
  have "list_all2 (\<lambda>f b. list_all (same_origin f) b) fs bs \<Longrightarrow>
      list_all2 (\<lambda>g h. jv_index h = jv_index g \<and> jv_platform h = jv_platform g) (concat bs) hs \<Longrightarrow> expanded fs hs" for bs
  proof (induction fs bs arbitrary: hs rule: list_all2_induct)
    case (Cons f fs b bs)
    obtain h1 h2 where h: "hs = h1 @ h2" "list_all2 (\<lambda>g h. jv_index h = jv_index g \<and> jv_platform h = jv_platform g) b h1"
        "list_all2 (\<lambda>g h. jv_index h = jv_index g \<and> jv_platform h = jv_platform g) (concat bs) h2"
      using Cons(4) by (auto simp: list_all2_append1)
    have "list_all (same_origin f) h1" using Cons(1) h(2)
      by (auto simp: same_origin_def list_all_length list_all2_conv_all_nth)
    moreover obtain bs' where "h2 = concat bs'" "list_all2 (\<lambda>f b. list_all (same_origin f) b) fs bs'"
      using Cons(3)[OF h(3)] by (auto simp: expanded_def)
    ultimately show ?case using h(1) unfolding expanded_def by (intro exI[of _ "h1 # bs'"]) simp
  qed (simp add: expanded_def)
  then show ?thesis using assms(1) same by (auto simp: expanded_def)
qed

text \<open>The context of a frame: from the first bundle that has its file and line.\<close>

definition bundle_lines :: "('p, 'h, 'b) proguard_lib \<Rightarrow> string \<Rightarrow> nat \<Rightarrow> 'b \<Rightarrow> (string list \<times> string \<times> string list) option" where
  "bundle_lines lib file l b =
     Option.bind (Option.bind (pg_source_by_url lib b file) sd_contents)
       (\<lambda>c. case get_context_lines c l 0 None of Ret r \<Rightarrow> r | Panic \<Rightarrow> None)"

definition context_lines :: "('p, 'h, 'b) proguard_lib \<Rightarrow> 'b list \<Rightarrow> jvm_frame \<Rightarrow> (string list \<times> string \<times> string list) option" where
  "context_lines lib bs f =
     (case jv_lineno f of
        None \<Rightarrow> None
      | Some l \<Rightarrow> if l = 0 then None else find_map (bundle_lines lib (build_source_file_name f) (unat l)) bs)"

definition with_context_lines :: "(string list \<times> string \<times> string list) option \<Rightarrow> jvm_frame \<Rightarrow> jvm_frame" where
  "with_context_lines r f = (case r of
      Some (pre, context, post) \<Rightarrow> f\<lparr>jv_pre_context := pre, jv_context_line := Some context, jv_post_context := post\<rparr>
    | None \<Rightarrow> f)"

definition sources_utf8 :: "('p, 'h, 'b) proguard_lib \<Rightarrow> bool" where
  "sources_utf8 lib \<longleftrightarrow> (\<forall>b u d c. pg_source_by_url lib b u = Some d \<longrightarrow> sd_contents d = Some c \<longrightarrow> utf8_valid c)"

lemma context_loop_spec:
  assumes "sources_utf8 lib"
  shows "jvm_context_loop lib bs file l f = Ret (with_context_lines (find_map (bundle_lines lib file l) bs) f)"
proof (induction bs)
  case (Cons b bs)
  show ?case
  proof (cases "Option.bind (pg_source_by_url lib b file) sd_contents")
    case None
    then show ?thesis using Cons by (cases "pg_source_by_url lib b file") (auto simp: bundle_lines_def)
  next
    case (Some c)
    then obtain d where d: "pg_source_by_url lib b file = Some d" "sd_contents d = Some c" by (cases "pg_source_by_url lib b file") auto
    then have "utf8_valid c" using assms by (auto simp: sources_utf8_def)
    then obtain r where "get_context_lines c l 0 None = Ret r"
      using context_lines_spec[of c l 0 DEFAULT_CONTEXT_LINES] by (auto simp: get_context_lines_def)
    then show ?thesis using Cons d by (cases r) (auto simp: bundle_lines_def with_context_lines_def)
  qed
qed (simp add: with_context_lines_def)

lemma apply_context_spec:
  assumes "sources_utf8 lib"
  shows "jvm_apply_source_context lib bs f = Ret (with_context_lines (context_lines lib bs f) f)"
  using context_loop_spec[OF assms]
  by (auto simp: jvm_apply_source_context_def context_lines_def with_context_lines_def split: option.splits)

lemma out_all_pure: "out_all (map (\<lambda>x. Ret (f x)) xs) = Ret (map f xs)"
  by (induction xs) simp_all

lemma context_of_trace_spec:
  assumes "sources_utf8 lib"
  shows "context_of_trace lib bs t = Ret (t\<lparr>jt_frames := map (\<lambda>f. with_context_lines (context_lines lib bs f) f) (jt_frames t)\<rparr>)"
  unfolding context_of_trace_def apply_context_spec[OF assms] by (simp add: out_all_pure)

section \<open>The response\<close>

definition mappers_of :: "(debug_id_t \<times> 'p cache_contents) list \<Rightarrow> 'p list" where
  "mappers_of ms = List.map_filter (ok_contents \<circ> snd) ms"

lemma remapped_request:
  assumes "symbolicate_with lib ms bs req = Ret (resp, st)"
  obtains exceptions st1 traces st2 classes st3 traces' where
    "map_state (count_exception lib (mappers_of ms)) (jq_exceptions req) no_jvm_stats = (exceptions, st1)"
    "map_state (remap_trace lib (mappers_of ms) (jq_frame_order req)) (jq_stacktraces req) st1 = (traces, st2)"
    "map_state (remap_one_class lib (mappers_of ms)) (jq_classes req) st2 = (classes, st3)"
    "(if jq_apply_source_context req
      then out_all (map (context_of_trace lib (List.map_filter (\<lambda>b. Option.bind (ok_contents b) (pg_open_bundle lib)) bs)) traces)
      else Ret traces) = Ret traces'"
    "resp = \<lparr>jp_exceptions = exceptions, jp_stacktraces = traces', jp_classes = map_of (rev (List.map_filter id classes)),
              jp_errors = List.map_filter error_of ms\<rparr>"
    "st = st3\<lparr>js_num_stacktraces := length traces'\<rparr>"
  using assms unfolding symbolicate_with_def Let_def mappers_of_def by (auto split: prod.splits)

lemma expanded_counts:
  assumes "list_all2 (\<lambda>t t'. list_all2 same_but_context
      (jt_frames t) (jt_frames t')) ts ts'"
  shows "frames_of p (concat (map jt_frames ts')) = frames_of p (concat (map jt_frames ts))"
proof -
  have *: "list_all2 (\<lambda>f g. jv_platform g = jv_platform f) fs gs \<Longrightarrow> frames_of p gs = frames_of p fs" for fs gs
    by (induction fs gs rule: list_all2_induct) auto
  have "list_all2 (\<lambda>t t'. frames_of p (jt_frames t') = frames_of p (jt_frames t)) ts ts'"
    using assms
  proof (rule list_all2_mono)
    fix t t' assume "list_all2 same_but_context (jt_frames t) (jt_frames t')"
    then have "list_all2 (\<lambda>f g. jv_platform g = jv_platform f) (jt_frames t) (jt_frames t')"
      by (rule list_all2_mono) (simp add: same_but_context_origin)
    then show "frames_of p (jt_frames t') = frames_of p (jt_frames t)" using * by blast
  qed
  then show ?thesis by (induction ts ts' rule: list_all2_induct) auto
qed

lemma request_accounted_jvm:
  assumes "symbolicate_with lib ms bs req = Ret (resp, st)"
  shows "list_all2 (\<lambda>t t'. expanded (jt_frames t) (jt_frames t')) (jq_stacktraces req) (jp_stacktraces resp)"
    and "frames_counted st p = frames_of p (concat (map jt_frames (jp_stacktraces resp)))"
    and "js_symbolicated_exceptions st + js_unsymbolicated_exceptions st = length (jq_exceptions req)"
    and "js_symbolicated_classes st + js_unsymbolicated_classes st = length (jq_classes req)"
    and "js_num_stacktraces st = length (jq_stacktraces req)"
    and "jp_classes resp = (\<lambda>c. if c \<in> set (jq_classes req) then find_map (\<lambda>m. pg_remap_class lib m c) (mappers_of ms) else None)"
proof -
  obtain exceptions st1 traces st2 classes st3 traces' where
    e: "map_state (count_exception lib (mappers_of ms)) (jq_exceptions req) no_jvm_stats = (exceptions, st1)"
    and t: "map_state (remap_trace lib (mappers_of ms) (jq_frame_order req)) (jq_stacktraces req) st1 = (traces, st2)"
    and c: "map_state (remap_one_class lib (mappers_of ms)) (jq_classes req) st2 = (classes, st3)"
    and x: "(if jq_apply_source_context req
      then out_all (map (context_of_trace lib (List.map_filter (\<lambda>b. Option.bind (ok_contents b) (pg_open_bundle lib)) bs)) traces)
      else Ret traces) = Ret traces'"
    and r: "resp = \<lparr>jp_exceptions = exceptions, jp_stacktraces = traces', jp_classes = map_of (rev (List.map_filter id classes)),
              jp_errors = List.map_filter error_of ms\<rparr>"
    and st: "st = st3\<lparr>js_num_stacktraces := length traces'\<rparr>"
    by (rule remapped_request[OF assms])
  note e = count_exceptions_spec[OF e] and c = remap_classes_spec[OF c] and len = map_state_length[OF t]
  note t = remap_traces_spec[OF t]
  have ctx: "list_all2 (\<lambda>t t'. list_all2 same_but_context
      (jt_frames t) (jt_frames t')) traces traces'"
  proof (cases "jq_apply_source_context req")
    case True
    then show ?thesis using x context_trace_frames by (auto dest!: out_all_list_all2 elim!: list_all2_mono)
  next
    case False
    then show ?thesis using False x by (simp add: list_all2_same)
  qed
  show "list_all2 (\<lambda>t t'. expanded (jt_frames t) (jt_frames t')) (jq_stacktraces req) (jp_stacktraces resp)"
    using list_all2_trans[OF _ t(1) ctx, of "\<lambda>t t'. expanded (jt_frames t) (jt_frames t')"] expanded_context r by simp
  have "frames_counted no_jvm_stats p = 0" by (simp add: frames_counted_def no_jvm_stats_def)
  then show "frames_counted st p = frames_of p (concat (map jt_frames (jp_stacktraces resp)))"
    using t(2)[of p] e c expanded_counts[OF ctx, of p] r st by (simp add: frames_counted_def)
  have o: "other_counters st2 = other_counters st1" by (rule t(3))
  have o2: "js_symbolicated_exceptions st2 = js_symbolicated_exceptions st1" "js_unsymbolicated_exceptions st2 = js_unsymbolicated_exceptions st1"
    "js_symbolicated_classes st2 = js_symbolicated_classes st1" "js_unsymbolicated_classes st2 = js_unsymbolicated_classes st1"
    using arg_cong[OF o, of js_symbolicated_exceptions] arg_cong[OF o, of js_unsymbolicated_exceptions]
      arg_cong[OF o, of js_symbolicated_classes] arg_cong[OF o, of js_unsymbolicated_classes] by (simp_all add: other_counters_def)
  show "js_symbolicated_exceptions st + js_unsymbolicated_exceptions st = length (jq_exceptions req)"
    "js_symbolicated_classes st + js_unsymbolicated_classes st = length (jq_classes req)"
    using e c o2 st by (simp_all add: no_jvm_stats_def)
  show "js_num_stacktraces st = length (jq_stacktraces req)" using st len list_all2_lengthD[OF ctx] by simp
  show "jp_classes resp = (\<lambda>c. if c \<in> set (jq_classes req) then find_map (\<lambda>m. pg_remap_class lib m c) (mappers_of ms) else None)"
    using c r class_map_spec by simp
qed

section \<open>Rewrite rules\<close>

text \<open>The same library without rewrite rules.\<close>

definition never_rewrite :: "('p, 'h, 'b) proguard_lib \<Rightarrow> ('p, 'h, 'b) proguard_lib" where
  "never_rewrite lib = lib\<lparr>pg_remap_frame := (\<lambda>m f d _ p. pg_remap_frame lib m f d False p)\<rparr>"

lemma never_rewrite_fields [simp]:
  "pg_remap_class (never_rewrite lib) = pg_remap_class lib" "pg_remap_method (never_rewrite lib) = pg_remap_method lib"
  "pg_deobfuscate (never_rewrite lib) = pg_deobfuscate lib" "pg_descriptor (never_rewrite lib) = pg_descriptor lib"
  "pg_remap_frame (never_rewrite lib) m f d c p = pg_remap_frame lib m f d False p"
  by (simp_all add: never_rewrite_def)

lemma never_rewrite_mappers: "try_mappers (never_rewrite lib) pf f exc c mps = try_mappers lib pf f exc False mps"
proof (induction mps)
  case (Cons a mps)
  have "map_full_frame (never_rewrite lib) m pf f exc c p = map_full_frame lib m pf f exc False p"
    "map_class_method (never_rewrite lib) m f = map_class_method lib m f" "map_class (never_rewrite lib) m f = map_class lib m f" for m p
    by (simp_all add: map_full_frame_def map_class_method_def map_class_def)
  then show ?case by (cases a) (simp only: try_mappers.simps Cons.IH)
qed simp

lemma never_rewrite_frame:
  "map_frame lib exc False mps f st = map_frame (never_rewrite lib) exc c mps f st
   \<or> (\<exists>gs mps' st'. map_frame lib exc False mps f st = (gs, False, mps', st') \<and> map_frame (never_rewrite lib) exc c mps f st = (gs, c, mps', st'))"
  unfolding map_frame_def never_rewrite_mappers
  by (auto simp: Let_def frame_signature_def split: full_remap.splits prod.splits)

lemma no_rewrite_kept: "map_frame lib exc False mps f st = (gs, c', mps', st') \<Longrightarrow> \<not> c'"
  unfolding map_frame_def Let_def by (auto split: full_remap.splits prod.splits if_splits)

lemma never_rewrite_frames: "map_frames (never_rewrite lib) exc c mps fs st = map_frames lib exc False mps fs st"
proof (induction fs arbitrary: c mps st)
  case (Cons f fs)
  obtain gs c' mps' st' where f: "map_frame lib exc False mps f st = (gs, c', mps', st')" by (metis surj_pair)
  have "\<not> c'" by (rule no_rewrite_kept[OF f])
  moreover have "\<exists>c2. map_frame (never_rewrite lib) exc c mps f st = (gs, c2, mps', st')"
    using never_rewrite_frame[of lib exc mps f st c] unfolding f by (auto dest: sym)
  ultimately show ?case using Cons.IH f by auto
qed simp

text \<open>Only a frame of an outline passes the permission on.\<close>

lemma rewrite_passed_on:
  assumes "map_frame lib exc c mps f st = (gs, True, mps', st')"
  shows "c \<and> gs = [] \<and> (\<exists>mps''. try_mappers lib (lookup_frame f (frame_signature lib (map fst mps) f)) f exc c mps = (OutlineFrame, mps''))"
  using assms unfolding map_frame_def Let_def by (auto split: full_remap.splits prod.splits if_splits)

lemma rewrite_first_only:
  assumes "map_frame lib exc c mps f st = (gs, c', mps', st')" and "gs \<noteq> []"
  shows "map_frames lib exc c mps (f # fs) st =
    (let (hs, st'') = map_frames (never_rewrite lib) exc True mps' fs st' in (gs @ hs, st''))"
proof -
  have "\<not> c'" using assms rewrite_passed_on[of lib exc c mps f st gs mps' st'] by auto
  then show ?thesis using assms(1) by (simp add: never_rewrite_frames)
qed

lemma never_rewrite_trace:
  assumes "jt_exception t = None"
  shows "remap_trace (never_rewrite lib) mappers order t st = remap_trace lib mappers order t st"
  using assms by (simp add: remap_trace_def map_stacktrace_def never_rewrite_frames)

section \<open>Synthesized methods\<close>

lemma map_frame_synthesized:
  assumes "map_frame lib exc c mps f st = (gs, c', mps', st')" and "jv_lineno f \<noteq> None" and "\<not> jv_method_synthesized f"
  shows "list_all (\<lambda>g. \<not> jv_method_synthesized g) gs"
  using assms unfolding map_frame_def Let_def by (auto simp: list_all_iff split: prod.splits full_remap.splits if_splits)

definition from_source_line :: "jvm_frame \<Rightarrow> bool" where
  "from_source_line f \<longleftrightarrow> jv_lineno f \<noteq> None \<and> \<not> jv_method_synthesized f"

lemma map_frames_synthesized:
  "map_frames lib exc c mps fs st = (gs, st') \<Longrightarrow> list_all from_source_line fs \<Longrightarrow> list_all (\<lambda>g. \<not> jv_method_synthesized g) gs"
proof (induction fs arbitrary: c mps st gs)
  case (Cons f fs)
  obtain hs c' mps' st1 where f: "map_frame lib exc c mps f st = (hs, c', mps', st1)" by (metis surj_pair)
  obtain gs1 where r: "map_frames lib exc c' mps' fs st1 = (gs1, st')" "gs = hs @ gs1"
    using Cons.prems f by (auto split: prod.splits)
  show ?case using Cons.IH[OF r(1)] map_frame_synthesized[OF f] Cons.prems(2) r(2) by (simp add: from_source_line_def)
qed simp

lemma synthesized_hidden:
  assumes "list_all from_source_line (jt_frames t)"
  shows "list_all (\<lambda>g. \<not> jv_method_synthesized g) (jt_frames (fst (remap_trace lib mappers order t st)))"
proof -
  let ?fs = "if order = CallerFirst then rev (jt_frames t) else jt_frames t"
  obtain exc c mps where r: "jt_frames (fst (remap_trace lib mappers order t st))
      = (if order = CallerFirst then rev (fst (map_frames lib exc c mps ?fs st)) else fst (map_frames lib exc c mps ?fs st))"
    unfolding remap_trace_def map_stacktrace_def Let_def by (simp add: case_prod_beta)
  obtain gs st' where gs: "map_frames lib exc c mps ?fs st = (gs, st')" by fastforce
  then have t': "jt_frames (fst (remap_trace lib mappers order t st)) = (if order = CallerFirst then rev gs else gs)"
    by (simp only: r gs fst_conv)
  have "list_all from_source_line (if order = CallerFirst then rev (jt_frames t) else jt_frames t)" using assms by (simp add: list_all_iff)
  from map_frames_synthesized[OF gs this] show ?thesis unfolding t' by (simp add: list_all_iff)
qed

section \<open>Without ProGuard files\<close>

lemma no_mappers_frames:
  "map_frames lib exc c [] fs st = (fs, st\<lparr>js_unsymbolicated_frames := bump_frames fs (js_unsymbolicated_frames st)\<rparr>)"
proof (induction fs arbitrary: c st)
  case (Cons f fs)
  have sig: "with_signature (frame_signature lib [] f) f = f"
    by (cases "jv_signature f") (simp_all add: frame_signature_def with_signature_def)
  have "bump_frames (f # fs) n = bump_frames fs (bump_frames [f] n)" for n by (simp add: bump_frames_def)
  then show ?case using Cons sig by (simp add: map_frame_def Let_def)
qed (simp add: bump_frames_def)

lemma no_mappers_trace:
  "fst (remap_trace lib [] order t st) = t"
  by (cases t; cases "jt_exception t")
    (simp_all add: remap_trace_def map_stacktrace_def no_mappers_frames map_exception_def)

lemma map_state_fst:
  assumes "\<And>x s. fst (f x s) = g x"
  shows "fst (map_state f xs s) = map g xs"
proof (induction xs arbitrary: s)
  case (Cons x xs)
  then show ?case using assms[of x s] by (auto simp: case_prod_beta Let_def)
qed simp

lemma no_mappers_request:
  assumes "list_all (\<lambda>m. ok_contents (snd m) = None) ms" and "\<not> jq_apply_source_context req"
  shows "\<exists>st. symbolicate_with lib ms bs req = Ret
    (\<lparr>jp_exceptions = jq_exceptions req, jp_stacktraces = jq_stacktraces req, jp_classes = Map.empty,
       jp_errors = List.map_filter error_of ms\<rparr>, st)"
proof -
  have "List.map_filter (ok_contents \<circ> snd) ms = []" using assms(1) by (induction ms) (simp_all add: List.map_filter_simps)
  then have m: "List.map_filter (ok_contents \<circ> snd) ms = []" .
  obtain es st1 where e: "map_state (count_exception lib []) (jq_exceptions req) no_jvm_stats = (es, st1)" by fastforce
  obtain ts st2 where t: "map_state (remap_trace lib [] (jq_frame_order req)) (jq_stacktraces req) st1 = (ts, st2)" by fastforce
  obtain cs st3 where c: "map_state (remap_one_class lib []) (jq_classes req) st2 = (cs, st3)" by fastforce
  have "es = jq_exceptions req" using count_exceptions_spec[OF e] by (simp add: map_exception_def)
  moreover have "ts = jq_stacktraces req"
    using map_state_fst[of "remap_trace lib [] (jq_frame_order req)" "\<lambda>t. t", OF no_mappers_trace, of "jq_stacktraces req" st1] t by simp
  moreover have "map_of (rev (List.map_filter id cs)) = Map.empty"
    using remap_classes_spec[OF c] class_map_spec[of "\<lambda>_. None" "jq_classes req"] by simp
  ultimately show ?thesis using assms(2) unfolding symbolicate_with_def Let_def m e t c prod.case by simp
qed

section \<open>The order of frames\<close>

definition reverse_jvm :: "jvm_stacktrace \<Rightarrow> jvm_stacktrace" where
  "reverse_jvm t = t\<lparr>jt_frames := rev (jt_frames t)\<rparr>"

lemma remap_reversed:
  "remap_trace lib mappers CallerFirst (reverse_jvm t) st =
     (let (t', st') = remap_trace lib mappers CalleeFirst t st in (reverse_jvm t', st'))"
  by (simp add: remap_trace_def reverse_jvm_def Let_def split: prod.splits)

lemma remap_all_reversed:
  "map_state (remap_trace lib mappers CallerFirst) (map reverse_jvm ts) st =
     (let (ts', st') = map_state (remap_trace lib mappers CalleeFirst) ts st in (map reverse_jvm ts', st'))"
  by (induction ts arbitrary: st) (auto simp: remap_reversed Let_def split: prod.splits)

lemma out_all_rev: "out_all (rev xs) = map_out rev (out_all xs)"
proof -
  have snoc: "out_all (xs @ [x]) = bind_out (out_all xs) (\<lambda>ys. map_out (\<lambda>y. ys @ [y]) x)" for xs and x :: "'a outcome"
  proof (induction xs)
    case Nil then show ?case by (cases x) simp_all
  next
    case (Cons a xs) then show ?case by (cases a; cases "out_all xs"; cases x) simp_all
  qed
  show ?thesis
  proof (induction xs)
    case (Cons a xs) then show ?case by (cases a; cases "out_all xs") (simp_all add: snoc)
  qed simp
qed

lemma context_reversed: "context_of_trace lib bs (reverse_jvm t) = map_out reverse_jvm (context_of_trace lib bs t)"
  by (cases "out_all (map (jvm_apply_source_context lib bs) (jt_frames t))")
    (simp_all add: context_of_trace_def reverse_jvm_def rev_map[symmetric] out_all_rev)

lemma context_all_reversed:
  "out_all (map (context_of_trace lib bs) (map reverse_jvm ts)) = map_out (map reverse_jvm) (out_all (map (context_of_trace lib bs) ts))"
proof (induction ts)
  case (Cons t ts)
  then show ?case
    by (cases "context_of_trace lib bs t"; cases "out_all (map (context_of_trace lib bs) ts)") (simp_all add: context_reversed)
qed simp

lemma request_reversed:
  assumes "jq_frame_order req = CalleeFirst"
  shows "symbolicate_with lib ms bs (req\<lparr>jq_stacktraces := map reverse_jvm (jq_stacktraces req), jq_frame_order := CallerFirst\<rparr>) =
    map_out (\<lambda>(resp, st). (resp\<lparr>jp_stacktraces := map reverse_jvm (jp_stacktraces resp)\<rparr>, st)) (symbolicate_with lib ms bs req)"
proof -
  let ?m = "List.map_filter (ok_contents \<circ> snd) ms"
  obtain es st1 where e: "map_state (count_exception lib ?m) (jq_exceptions req) no_jvm_stats = (es, st1)" by fastforce
  obtain ts st2 where t: "map_state (remap_trace lib ?m CalleeFirst) (jq_stacktraces req) st1 = (ts, st2)" by fastforce
  obtain cs st3 where c: "map_state (remap_one_class lib ?m) (jq_classes req) st2 = (cs, st3)" by fastforce
  let ?b = "List.map_filter (\<lambda>b. Option.bind (ok_contents b) (pg_open_bundle lib)) bs"
  have t': "map_state (remap_trace lib ?m CallerFirst) (map reverse_jvm (jq_stacktraces req)) st1 = (map reverse_jvm ts, st2)"
    using t by (simp add: remap_all_reversed)
  show ?thesis
    using assms t t' unfolding symbolicate_with_def Let_def
    by (cases "out_all (map (context_of_trace lib ?b) ts)") (simp_all add: e c context_all_reversed del: map_map)
qed

section \<open>Names of source files\<close>

lemma rsplit_once_last: "d \<notin> set b \<Longrightarrow> rsplit_once d (a @ d # b) = Some (a, b)"
  using rsplit_once_spec[of d "a @ d # b"] last_split_unique by (metis in_set_conv_decomp)

text \<open>A class with its package, and the part of its name that follows the outer class.\<close>

lemma source_name_conventional:
  assumes outer: "CHR ''.'' \<notin> set outer" "CHR ''$'' \<notin> set outer" "CHR ''$'' \<notin> set pkg"
    and inner: "CHR ''.'' \<notin> set inner" "inner = [] \<or> hd inner = CHR ''$''"
    and ext: "CHR ''.'' \<notin> set ext" "CHR ''$'' \<notin> set ext"
    and f: "jv_module f = pkg @ ''.'' @ outer @ inner" "jv_abs_path f = Some (outer @ ''.'' @ ext)"
  shows "build_source_file_name f = ''~/'' @ dots_to_slashes pkg @ ''/'' @ outer @ ''.jvm''"
    and "build_source_file_name (f\<lparr>jv_abs_path := None\<rparr>) = build_source_file_name f"
proof -
  have "rsplit_once (CHR ''.'') (outer @ CHR ''.'' # ext) = Some (outer, ext)" by (rule rsplit_once_last[OF ext(1)])
  then have "is_valid_path (outer @ CHR ''.'' # ext) = Some outer" using outer(2) ext(2) by (simp add: is_valid_path_def)
  moreover have "rsplit_once (CHR ''.'') (pkg @ CHR ''.'' # outer @ inner) = Some (pkg, outer @ inner)"
    by (rule rsplit_once_last) (use outer(1) inner(1) in simp)
  ultimately show n: "build_source_file_name f = ''~/'' @ dots_to_slashes pkg @ ''/'' @ outer @ ''.jvm''"
    using f by (simp add: build_source_file_name_def)
  have slashes: "dots_to_slashes outer = outer" using outer(1) unfolding dots_to_slashes_def by (induction outer) auto
  have before: "(case split_once (CHR ''$'') (jv_module f) of Some (a, _) \<Rightarrow> a | None \<Rightarrow> jv_module f) = pkg @ CHR ''.'' # outer"
  proof (cases inner)
    case Nil
    then have "CHR ''$'' \<notin> set (jv_module f)" using outer(2,3) f(1) by simp
    then have "split_once (CHR ''$'') (jv_module f) = None" by (simp only: split_once_None not_False_eq_True)
    then show ?thesis using Nil f(1) by simp
  next
    case (Cons c rest)
    then have "jv_module f = (pkg @ CHR ''.'' # outer) @ CHR ''$'' # rest" "CHR ''$'' \<notin> set (pkg @ CHR ''.'' # outer)"
      using inner(2) outer f(1) by auto
    from this(1) split_once_append[OF this(2), of rest] show ?thesis by (simp only: option.case prod.case)
  qed
  have "jv_module (f\<lparr>jv_abs_path := None\<rparr>) = jv_module f" by simp
  then show "build_source_file_name (f\<lparr>jv_abs_path := None\<rparr>) = build_source_file_name f"
    unfolding n by (simp only: build_source_file_name_def before) (simp add: dots_to_slashes_def slashes[unfolded dots_to_slashes_def])
qed

section \<open>No panics\<close>

lemma context_of_traces_spec:
  assumes "sources_utf8 lib"
  shows "out_all (map (context_of_trace lib bs) ts)
    = Ret (map (\<lambda>t. t\<lparr>jt_frames := map (\<lambda>f. with_context_lines (context_lines lib bs f) f) (jt_frames t)\<rparr>) ts)"
  unfolding context_of_trace_spec[OF assms, abs_def] by (rule out_all_pure)

lemma request_context:
  assumes "sources_utf8 lib"
  shows "\<exists>resp st resp' st'. symbolicate_with lib ms bs req = Ret (resp, st)
    \<and> symbolicate_with lib ms bs (req\<lparr>jq_apply_source_context := False\<rparr>) = Ret (resp', st')
    \<and> jp_stacktraces resp = (if jq_apply_source_context req
        then map (\<lambda>t. t\<lparr>jt_frames := map (\<lambda>f. with_context_lines
               (context_lines lib (List.map_filter (\<lambda>b. Option.bind (ok_contents b) (pg_open_bundle lib)) bs) f) f) (jt_frames t)\<rparr>) (jp_stacktraces resp')
        else jp_stacktraces resp')
    \<and> resp\<lparr>jp_stacktraces := []\<rparr> = resp'\<lparr>jp_stacktraces := []\<rparr> \<and> st = st'"
proof -
  let ?m = "List.map_filter (ok_contents \<circ> snd) ms"
  obtain es st1 where e: "map_state (count_exception lib ?m) (jq_exceptions req) no_jvm_stats = (es, st1)" by fastforce
  obtain ts st2 where t: "map_state (remap_trace lib ?m (jq_frame_order req)) (jq_stacktraces req) st1 = (ts, st2)" by fastforce
  obtain cs st3 where c: "map_state (remap_one_class lib ?m) (jq_classes req) st2 = (cs, st3)" by fastforce
  show ?thesis unfolding symbolicate_with_def Let_def
    by (simp add: e t c context_of_traces_spec[OF assms])
qed

section \<open>Requests with their downloads\<close>

lemma symbolicate_jvm_with:
  assumes "symbolicate_jvm sv lib req = Ret r"
  obtains ms bs where "symbolicate_with lib ms bs req = Ret r"
  using assms by (auto simp: symbolicate_jvm_def bind_out_eq_Ret)

lemma request_synthesized:
  assumes "symbolicate_with lib ms bs req = Ret (resp, st)"
    and "list_all (\<lambda>t. list_all from_source_line (jt_frames t)) (jq_stacktraces req)"
  shows "list_all (\<lambda>t. list_all (\<lambda>f. \<not> jv_method_synthesized f) (jt_frames t)) (jp_stacktraces resp)"
proof -
  obtain exceptions st1 traces st2 classes st3 traces' where
    t: "map_state (remap_trace lib (mappers_of ms) (jq_frame_order req)) (jq_stacktraces req) st1 = (traces, st2)"
    and x: "(if jq_apply_source_context req
      then out_all (map (context_of_trace lib (List.map_filter (\<lambda>b. Option.bind (ok_contents b) (pg_open_bundle lib)) bs)) traces)
      else Ret traces) = Ret traces'"
    and r: "resp = \<lparr>jp_exceptions = exceptions, jp_stacktraces = traces', jp_classes = map_of (rev (List.map_filter id classes)),
              jp_errors = List.map_filter error_of ms\<rparr>"
    by (rule remapped_request[OF assms(1)])
  let ?P = "\<lambda>t. list_all (\<lambda>f. \<not> jv_method_synthesized f) (jt_frames t)"
  have "list_all2 (\<lambda>t t'. list_all from_source_line (jt_frames t) \<longrightarrow> ?P t') (jq_stacktraces req) traces"
    by (rule map_state_inv(1)[OF t, where I = "\<lambda>_. True"]) (metis fst_conv synthesized_hidden)
  then have p: "list_all ?P traces" using assms(2) by (simp add: list_all2_conv_all_nth list_all_length)
  have "same_but_context f g \<Longrightarrow> jv_method_synthesized g = jv_method_synthesized f" for f g by (auto simp: same_but_context_def)
  then have keep: "?P t'" if "list_all2 same_but_context (jt_frames t) (jt_frames t')" "?P t" for t t'
    using that by (auto simp: list_all2_conv_all_nth list_all_length)
  have "list_all ?P traces'"
  proof (cases "jq_apply_source_context req")
    case True
    then have "list_all2 (\<lambda>t t'. list_all2 same_but_context (jt_frames t) (jt_frames t')) traces traces'"
      using x context_trace_frames by (auto dest!: out_all_list_all2 elim!: list_all2_mono)
    then have "list_all2 (\<lambda>t t'. ?P t \<longrightarrow> ?P t') traces traces'" by (rule list_all2_mono) (use keep in blast)
    then show ?thesis using p by (simp add: list_all2_conv_all_nth list_all_length)
  qed (use x p in simp)
  then show ?thesis using r by simp
qed

lemma jvm_reversed:
  assumes "jq_frame_order req = CalleeFirst"
  shows "symbolicate_jvm sv lib (req\<lparr>jq_stacktraces := map reverse_jvm (jq_stacktraces req), jq_frame_order := CallerFirst\<rparr>) =
    map_out (\<lambda>(resp, st). (resp\<lparr>jp_stacktraces := map reverse_jvm (jp_stacktraces resp)\<rparr>, st)) (symbolicate_jvm sv lib req)"
proof -
  have m: "modules_of t (req\<lparr>jq_stacktraces := ts, jq_frame_order := order\<rparr>) = modules_of t req" for t ts order by (simp add: modules_of_def)
  have bind: "bind_out a (\<lambda>x. map_out h (g x)) = map_out h (bind_out a g)" for a :: "'x outcome" and g h by (cases a) simp_all
  show ?thesis unfolding symbolicate_jvm_def m request_reversed[OF assms] by (simp add: bind)
qed

end
