(* ===== verification/ProguardProperties.thy ===== *)
theory ProguardProperties
  imports ProguardCorrect PathsCorrect
begin

text \<open>The properties of JVM symbolication, and a small library in which their hypotheses hold.\<close>

section \<open>A small library\<close>

text \<open>
  One mapper that inlines every method of class \<open>a\<close>: two frames in class \<open>p.A\<close>, the second one
  synthesized, and only one of them under rewrite rules.
\<close>

definition demo_mapping :: "(unit, unit, unit) proguard_lib" where
  "demo_mapping = \<lparr>
     pg_remap_class = (\<lambda>_ c. if c = ''a'' then Some ''p.A'' else None),
     pg_remap_method = (\<lambda>_ _ _. None), pg_deobfuscate = (\<lambda>_ _. None),
     pg_remap_frame = (\<lambda>_ pf _ can_rewrite pos.
       (let r = \<lparr>rf_class = ''p.A'', rf_method = ''f'', rf_line = Some 1, rf_file = Some ''A.kt'', rf_synthesized = False\<rparr>
        in if can_rewrite then Some (True, [r]) else Some (True, [r, r\<lparr>rf_synthesized := True\<rparr>]), pos)),
     pg_descriptor = id, pg_open_bundle = Some,
     pg_source_by_url = (\<lambda>_ u. Some \<lparr>sd_url = None, sd_contents = Some ''val x''\<rparr>)\<rparr>"

definition demo_jvm_frame :: jvm_frame where
  "demo_jvm_frame = \<lparr>jv_platform = Some (PJvm Java), jv_function = ''b'', jv_filename = None, jv_module = ''a'', jv_abs_path = None,
     jv_lineno = Some 5, jv_pre_context = [], jv_context_line = None, jv_post_context = [], jv_index = 0, jv_signature = None,
     jv_method_synthesized = False\<rparr>"

definition demo_jvm_request :: jvm_request where
  "demo_jvm_request = \<lparr>jq_platform = None, jq_scope = Global, jq_sources = [],
     jq_exceptions = [\<lparr>je_ty = ''a'', je_module = []\<rparr>],
     jq_stacktraces = [\<lparr>jt_exception = None, jt_frames = [demo_jvm_frame, demo_jvm_frame\<lparr>jv_index := 1\<rparr>]\<rparr>],
     jq_modules = [], jq_apply_source_context = False, jq_classes = [''a'', ''z''], jq_frame_order = CalleeFirst\<rparr>"

definition demo_mappers :: "(debug_id_t \<times> unit cache_contents) list" where
  "demo_mappers = [(\<lparr>uuid = [], appendix = 0\<rparr>, Inr ())]"

lemma demo_jvm_run:
  "\<exists>resp st. symbolicate_with demo_mapping demo_mappers [Inr ()] demo_jvm_request = Ret (resp, st)
    \<and> map jv_index (concat (map jt_frames (jp_stacktraces resp))) = [0, 1]"
  by (simp add: symbolicate_with_def demo_mappers_def demo_jvm_request_def List.map_filter_simps ok_contents_def
      remap_trace_def map_stacktrace_def map_frame_def frame_signature_def demo_jvm_frame_def lookup_frame_def map_full_frame_def
      demo_mapping_def remapped_def with_signature_def Let_def split: prod.splits)

text \<open>A world with one Sentry source that lists one ProGuard file and one source bundle for every id.\<close>

definition demo_jvm_services :: "(unit, unit) jvm_services" where
  "demo_jvm_services = \<lparr>jsv_externals = demo_externals, jsv_durations = demo_durations, jsv_sha = (\<lambda>_. []),
     jsv_uri = (\<lambda>_. ''u''), jsv_index = (\<lambda>_. None), jsv_sentry_list = (\<lambda>_ _. Inr [Sentry ''s'' ''1'']),
     jsv_meta = (\<lambda>_ _. Inr (default_features\<lparr>has_sources := True\<rparr>)), jsv_proguard = (\<lambda>_ _. Inr ()), jsv_object = (\<lambda>_ _. Inr ())\<rparr>"

definition demo_jvm_full :: jvm_request where
  "demo_jvm_full = demo_jvm_request\<lparr>jq_sources := [SrcSentry ''s''],
     jq_modules := [\<lparr>jmo_uuid = \<lparr>uuid = [], appendix = 0\<rparr>, jmo_type = ProguardModule\<rparr>]\<rparr>"

lemma demo_jvm_full_run:
  "symbolicate_jvm demo_jvm_services demo_mapping demo_jvm_full = symbolicate_with demo_mapping demo_mappers [] demo_jvm_full"
  by (simp add: symbolicate_jvm_def demo_jvm_full_def demo_jvm_request_def modules_of_def download_proguard_file_def list_source_def
      demo_jvm_services_def demo_mappers_def)

lemma demo_jvm_full_result:
  "\<exists>resp st. symbolicate_jvm demo_jvm_services demo_mapping demo_jvm_full = Ret (resp, st)
    \<and> map jv_module (concat (map jt_frames (jp_stacktraces resp))) = [''p.A'', ''p.A'']"
  unfolding demo_jvm_full_run
  by (simp add: symbolicate_with_def demo_mappers_def demo_jvm_full_def demo_jvm_request_def List.map_filter_simps ok_contents_def
      remap_trace_def map_stacktrace_def map_frame_def frame_signature_def demo_jvm_frame_def lookup_frame_def map_full_frame_def
      demo_mapping_def remapped_def with_signature_def Let_def split: prod.splits)

section \<open>Properties\<close>

text \<open>
  C28. Every frame of a response was expanded from the frame of the request in its place: the frames of
  the response are those of the request in order, each replaced by any number of frames with its
  index and platform. Every frame of the response, every exception and every class is counted exactly once.
\<close>

theorem jvm_frames_in_place:
  assumes "symbolicate_jvm sv lib req = Ret (resp, st)"
  shows "list_all2 (\<lambda>t t'. expanded (jt_frames t) (jt_frames t')) (jq_stacktraces req) (jp_stacktraces resp)
    \<and> js_symbolicated_frames st p + js_unsymbolicated_frames st p
        = length (filter (\<lambda>f. jv_platform f = p) (concat (map jt_frames (jp_stacktraces resp))))
    \<and> js_symbolicated_exceptions st + js_unsymbolicated_exceptions st = length (jq_exceptions req)
    \<and> js_symbolicated_classes st + js_unsymbolicated_classes st = length (jq_classes req)
    \<and> js_num_stacktraces st = length (jq_stacktraces req)"
proof -
  obtain ms bs where w: "symbolicate_with lib ms bs req = Ret (resp, st)" by (rule symbolicate_jvm_with[OF assms])
  show ?thesis using request_accounted_jvm(1-5)[OF w] by (simp add: frames_counted_def)
qed

theorem jvm_frames_in_place_witness:
  "\<exists>resp st. symbolicate_jvm demo_jvm_services demo_mapping demo_jvm_full = Ret (resp, st)
    \<and> js_symbolicated_frames st (Some (PJvm Java)) + js_unsymbolicated_frames st (Some (PJvm Java))
        = length (filter (\<lambda>f. jv_platform f = Some (PJvm Java)) (concat (map jt_frames (jp_stacktraces resp))))
    \<and> js_symbolicated_classes st + js_unsymbolicated_classes st = 2"
proof -
  obtain resp st where r: "symbolicate_jvm demo_jvm_services demo_mapping demo_jvm_full = Ret (resp, st)" using demo_jvm_full_result by blast
  show ?thesis using r jvm_frames_in_place[OF r, of "Some (PJvm Java)"] by (simp add: demo_jvm_full_def demo_jvm_request_def)
qed

text \<open>
  Rewrite rules only apply to the first frame after an exception: without an exception they never
  apply, and once a frame was shown the rest of the trace is mapped as with a library that has no rewrite rules.
\<close>

theorem jvm_rewrite_first_frame_only:
  assumes "map_frame lib exc can_rewrite mps f st = (gs, can_rewrite', mps', st')" and "gs \<noteq> []"
  shows "map_frames lib exc can_rewrite mps (f # fs) st =
      (let (hs, st'') = map_frames (never_rewrite lib) exc True mps' fs st' in (gs @ hs, st''))
    \<and> map_stacktrace lib mappers fs None st = map_stacktrace (never_rewrite lib) mappers fs None st"
  using rewrite_first_only[OF assms] by (simp add: map_stacktrace_def never_rewrite_frames)

theorem jvm_rewrite_first_frame_only_witness:
  "map jv_method_synthesized (fst (map_frames demo_mapping (Some ''e'') True [((), None)]
      [demo_jvm_frame, demo_jvm_frame\<lparr>jv_lineno := None\<rparr>] no_jvm_stats)) = [False, False, True]"
proof -
  obtain gs c' mps' st' where f: "map_frame demo_mapping (Some ''e'') True [((), None)] demo_jvm_frame no_jvm_stats = (gs, c', mps', st')"
    by (metis surj_pair)
  have gs: "map jv_method_synthesized gs = [False]" and mps': "mps' = [((), None)]"
    using f by (simp_all add: map_frame_def demo_mapping_def demo_jvm_frame_def map_full_frame_def remapped_def frame_signature_def with_signature_def Let_def)
      auto
  then have "gs \<noteq> []" by auto
  have rest: "map jv_method_synthesized (fst (map_frames (never_rewrite demo_mapping) (Some ''e'') True [((), None)]
      [demo_jvm_frame\<lparr>jv_lineno := None\<rparr>] st)) = [False, True]" for st
    by (simp add: map_frame_def demo_mapping_def never_rewrite_def demo_jvm_frame_def map_full_frame_def remapped_def frame_signature_def
        with_signature_def Let_def)
  have "fst (map_frames demo_mapping (Some ''e'') True [((), None)] [demo_jvm_frame, demo_jvm_frame\<lparr>jv_lineno := None\<rparr>] no_jvm_stats)
      = gs @ fst (map_frames (never_rewrite demo_mapping) (Some ''e'') True mps' [demo_jvm_frame\<lparr>jv_lineno := None\<rparr>] st')"
    using jvm_rewrite_first_frame_only[OF f \<open>gs \<noteq> []\<close>, of "[demo_jvm_frame\<lparr>jv_lineno := None\<rparr>]" "[]"]
    by (simp only: Let_def case_prod_beta fst_conv)
  then show ?thesis using gs mps' rest by (simp only: map_append append.simps)
qed

text \<open>
  Frames of methods that the compiler synthesized are hidden: if every frame of a request has a line
  and is not marked as synthesized, no frame of the response is.
\<close>

theorem jvm_synthesized_hidden:
  assumes "symbolicate_jvm sv lib req = Ret (resp, st)"
    and "list_all (\<lambda>t. list_all from_source_line (jt_frames t)) (jq_stacktraces req)"
  shows "list_all (\<lambda>t. list_all (\<lambda>f. \<not> jv_method_synthesized f) (jt_frames t)) (jp_stacktraces resp)"
proof -
  obtain ms bs where w: "symbolicate_with lib ms bs req = Ret (resp, st)" by (rule symbolicate_jvm_with[OF assms(1)])
  show ?thesis by (rule request_synthesized[OF w assms(2)])
qed

theorem jvm_synthesized_hidden_witness:
  "\<exists>resp st. symbolicate_jvm demo_jvm_services demo_mapping demo_jvm_full = Ret (resp, st)
    \<and> list_all (\<lambda>t. list_all (\<lambda>f. \<not> jv_method_synthesized f) (jt_frames t)) (jp_stacktraces resp)"
proof -
  obtain resp st where r: "symbolicate_jvm demo_jvm_services demo_mapping demo_jvm_full = Ret (resp, st)" using demo_jvm_full_result by blast
  show ?thesis using r jvm_synthesized_hidden[OF r] by (simp add: demo_jvm_full_def demo_jvm_request_def demo_jvm_frame_def from_source_line_def)
qed

text \<open>
  The order of the frames in a request is only presentation: a request with callers first is
  answered like the same request with callees first, with every trace reversed.
\<close>

theorem jvm_frame_order_equivalent:
  "symbolicate_jvm sv lib (req\<lparr>jq_stacktraces := map reverse_jvm (jq_stacktraces req), jq_frame_order := CallerFirst\<rparr>) =
    map_out (\<lambda>(resp, st). (resp\<lparr>jp_stacktraces := map reverse_jvm (jp_stacktraces resp)\<rparr>, st))
      (symbolicate_jvm sv lib (req\<lparr>jq_frame_order := CalleeFirst\<rparr>))"
  using jvm_reversed[of "req\<lparr>jq_frame_order := CalleeFirst\<rparr>" sv lib] by simp

text \<open>
  With valid texts, source context is applied without a panic, and all it does is to give each frame
  the lines around its line in the first bundle that has its file with this line; frames without a
  line, the exceptions, classes, errors and statistics are as without source context.
\<close>

theorem jvm_context_first_bundle:
  assumes "sources_utf8 lib"
  shows "\<exists>resp st resp' st'. symbolicate_with lib ms bs req = Ret (resp, st)
    \<and> symbolicate_with lib ms bs (req\<lparr>jq_apply_source_context := False\<rparr>) = Ret (resp', st')
    \<and> jp_stacktraces resp = (if jq_apply_source_context req
        then map (\<lambda>t. t\<lparr>jt_frames := map (\<lambda>f. with_context_lines
               (context_lines lib (List.map_filter (\<lambda>b. Option.bind (ok_contents b) (pg_open_bundle lib)) bs) f) f) (jt_frames t)\<rparr>) (jp_stacktraces resp')
        else jp_stacktraces resp')
    \<and> resp\<lparr>jp_stacktraces := []\<rparr> = resp'\<lparr>jp_stacktraces := []\<rparr> \<and> st = st'"
  by (rule request_context[OF assms])

theorem jvm_context_first_bundle_witness:
  "\<exists>resp st. symbolicate_with demo_mapping demo_mappers [Inr ()] (demo_jvm_request\<lparr>jq_apply_source_context := True\<rparr>) = Ret (resp, st)"
proof -
  have "utf8_valid ''val x''" by (rule utf8_valid_ascii) (simp add: is_ascii_char_def byte_of_def)
  then have "sources_utf8 demo_mapping" by (auto simp: sources_utf8_def demo_mapping_def)
  from jvm_context_first_bundle[OF this, of demo_mappers "[Inr ()]" "demo_jvm_request\<lparr>jq_apply_source_context := True\<rparr>"] show ?thesis by blast
qed

section \<open>Further facts\<close>

text \<open>Without a usable ProGuard file and without source context, the event comes back unchanged.\<close>

theorem jvm_unchanged_without_mappings:
  assumes "list_all (\<lambda>m. ok_contents (snd m) = None) ms" and "\<not> jq_apply_source_context req"
  shows "\<exists>st. symbolicate_with lib ms bs req = Ret
    (\<lparr>jp_exceptions = jq_exceptions req, jp_stacktraces = jq_stacktraces req, jp_classes = Map.empty,
       jp_errors = List.map_filter error_of ms\<rparr>, st)"
  by (rule no_mappers_request[OF assms])

text \<open>The class map has exactly the classes some mapper knows, as the first of them maps them.\<close>

theorem jvm_class_map:
  assumes "symbolicate_with lib ms bs req = Ret (resp, st)"
  shows "jp_classes resp = (\<lambda>c. if c \<in> set (jq_classes req) then find_map (\<lambda>m. pg_remap_class lib m c) (mappers_of ms) else None)"
  by (rule request_accounted_jvm(6)[OF assms])

end
