(* ===== verification/ByteOrder.thy ===== *)
theory ByteOrder
  imports Prelude
begin

text \<open>
  Unsigned integers as strings of bytes, in either byte order. The minidump extension and the
  extraction of variables share them.
\<close>

fun bytes_nat :: "string \<Rightarrow> nat" where
  "bytes_nat [] = 0"
| "bytes_nat (c # cs) = of_char c + 256 * bytes_nat cs"

fun nat_bytes :: "nat \<Rightarrow> nat \<Rightarrow> string" where
  "nat_bytes 0 n = []"
| "nat_bytes (Suc k) n = char_of (n mod 256) # nat_bytes k (n div 256)"

definition read_native :: "bool \<Rightarrow> string \<Rightarrow> nat" where
  "read_native big s = bytes_nat (if big then rev s else s)"

definition write_native :: "bool \<Rightarrow> nat \<Rightarrow> nat \<Rightarrow> string" where
  "write_native big k n = (if big then rev (nat_bytes k n) else nat_bytes k n)"

lemma bytes_nat_bytes: "bytes_nat (nat_bytes k n) = n mod 256 ^ k"
proof (induction k arbitrary: n)
  case (Suc k)
  have "n mod 256 + 256 * (n div 256 mod 256 ^ k) = n mod (256 * 256 ^ k)"
    by (simp add: mod_mult2_eq)
  with Suc show ?case by simp
qed simp

lemma length_nat_bytes [simp]: "length (nat_bytes k n) = k"
  by (induction k arbitrary: n) simp_all

lemma length_write_native [simp]: "length (write_native big k n) = k"
  by (simp add: write_native_def)

lemma read_write_native: "read_native big (write_native big k n) = n mod 256 ^ k"
  by (simp add: read_native_def write_native_def bytes_nat_bytes)

lemma bytes_nat_less: "bytes_nat s < 256 ^ length s"
proof (induction s)
  case (Cons c s)
  have "of_char c < (256 :: nat)" using byte_of_less[of c] by (simp add: byte_of_def)
  then have "of_char c + 256 * bytes_nat s < 256 * 256 ^ length s" using Cons by linarith
  then show ?case by simp
qed simp

lemma read_native_less: "read_native big s < 256 ^ length s"
  using bytes_nat_less[of s] bytes_nat_less[of "rev s"] by (simp add: read_native_def)

end
