(* ===== verification/Variables.thy ===== *)
theory Variables
  imports Interface ByteOrder
begin

text \<open>
  \<open>symbolication/native/variables.rs\<close> and \<open>memory.rs\<close>: the values of local variables and parameters,
  read from the registers and the memory of a crash dump. What the symcache says of variables and
  types, the order of the registers and the lookup of a memory region are answers of libraries.
\<close>

section \<open>Memory\<close>

record memory_access =
  ma_get :: "64 word \<Rightarrow> 64 word \<Rightarrow> string option"
  ma_big_endian :: bool

text \<open>\<open>bytes.get(start..start + size)\<close> with the checked addition of the code.\<close>

definition region_slice :: "string \<Rightarrow> 64 word \<Rightarrow> 64 word \<Rightarrow> string option" where
  "region_slice s start sz = Option.bind (checked_add start sz) (\<lambda>end'.
     if start \<le> end' \<and> unat end' \<le> length s then Some (take (unat end' - unat start) (drop (unat start) s)) else None)"

record memory_region =
  mr_base :: "64 word"
  mr_bytes :: string

record minidump_memory =
  mm_at :: "(64 word \<Rightarrow> memory_region option) option"
  mm_big_endian :: bool

definition minidump_access :: "minidump_memory \<Rightarrow> memory_access" where
  "minidump_access m =
     \<lparr>ma_get = (\<lambda>addr sz.
        Option.bind (mm_at m) (\<lambda>at.
        Option.bind (at addr) (\<lambda>r.
        Option.bind (checked_sub addr (mr_base r)) (\<lambda>start. region_slice (mr_bytes r) start sz)))),
      ma_big_endian = mm_big_endian m\<rparr>"

text \<open>A register is a memory of eight bytes, in little endian order.\<close>

definition register_access :: "64 word \<Rightarrow> memory_access" where
  "register_access v = \<lparr>ma_get = region_slice (nat_bytes 8 (unat v)), ma_big_endian = False\<rparr>"

text \<open>\<open>get_value_at_address\<close> for integers of \<open>n\<close> bytes, unsigned and in two's complement.\<close>

definition get_unsigned :: "memory_access \<Rightarrow> 64 word \<Rightarrow> nat \<Rightarrow> nat option" where
  "get_unsigned M addr n = Option.bind (ma_get M addr (of_nat n)) (\<lambda>bs.
     if n \<le> length bs then Some (read_native (ma_big_endian M) (take n bs)) else None)"

definition to_signed :: "nat \<Rightarrow> nat \<Rightarrow> int" where
  "to_signed n v = (if v < 2 ^ (8 * n - 1) then int v else int v - 2 ^ (8 * n))"

definition get_signed :: "memory_access \<Rightarrow> 64 word \<Rightarrow> nat \<Rightarrow> int option" where
  "get_signed M addr n = map_option (to_signed n) (get_unsigned M addr n)"

section \<open>Types\<close>

text \<open>The encodings the code names, and the others of the library.\<close>

datatype primitive_encoding =
    Boolean | UnsignedInt | SignedInt | Float | SignedChar | UnsignedChar | AddressEncoding | OtherEncoding

record primitive_type =
  pt_name :: "string option"
  pt_size :: "64 word"
  pt_encoding :: "primitive_encoding option"

record pointer_type =
  pp_pointee :: "nat option"
  pp_size :: "64 word"

datatype variable_type = PrimitiveType primitive_type | PointerType pointer_type | OtherType

datatype variable_location = InRegister nat | FrameOffset "64 word"

record symbol_variable =
  sv_name :: "string option"
  sv_type :: "variable_type option"
  sv_kind :: variable_kind
  sv_locations :: "variable_location list"

datatype cpu_family = Amd64 | Arm64 | OtherFamily

record variable_tools =
  vt_family :: cpu_family
  vt_lookup_type :: "nat \<Rightarrow> variable_type option"
  vt_amd64_registers :: "string list"
  vt_arm64_registers :: "string list"

text \<open>The name is appended to what is there; a chain of pointers is cut at a depth of ten.\<close>

function resolve_type_name :: "variable_tools \<Rightarrow> string \<Rightarrow> variable_type option \<Rightarrow> nat \<Rightarrow> string" where
  "resolve_type_name T result vt depth =
     (case vt of
        None \<Rightarrow> result @ ''<unknown>''
      | Some vt \<Rightarrow>
          if depth > 10 then result
          else (case vt of
              PrimitiveType p \<Rightarrow> result @ (case pt_name p of Some n \<Rightarrow> n | None \<Rightarrow> [])
            | PointerType p \<Rightarrow>
                (case pp_pointee p of
                   None \<Rightarrow> result @ ''void*''
                 | Some pointee \<Rightarrow> resolve_type_name T result (vt_lookup_type T pointee) (depth + 1) @ ''*'')
            | OtherType \<Rightarrow> result @ ''<not implemented>''))"
  by pat_completeness auto
termination by (relation "measure (\<lambda>(T, result, vt, depth). 11 - depth)") auto

declare resolve_type_name.simps [simp del]

section \<open>Formatting\<close>

text \<open>\<open>u8::escape_ascii\<close>.\<close>

definition escape_ascii :: "nat \<Rightarrow> string" where
  "escape_ascii b =
     (if b = 9 then [CHR 0x5C, CHR ''t'']
      else if b = 13 then [CHR 0x5C, CHR ''r'']
      else if b = 10 then [CHR 0x5C, CHR ''n'']
      else if b = 39 \<or> b = 34 \<or> b = 92 then [CHR 0x5C, char_of b]
      else if 32 \<le> b \<and> b < 127 then [char_of b]
      else [CHR 0x5C, CHR ''x'', hex_digit False (b div 16), hex_digit False (b mod 16)])"

definition dec_int :: "int \<Rightarrow> string" where
  "dec_int i = (if i < 0 then CHR ''-'' # dec_nat (nat (- i)) else dec_nat (nat i))"

definition json_u128 :: "nat \<Rightarrow> json" where
  "json_u128 v = (if v < 2 ^ 64 then JInt (int v) else JString (dec_nat v))"

definition json_i128 :: "int \<Rightarrow> json" where
  "json_i128 v = (if - (2 ^ 63) \<le> v \<and> v < 2 ^ 63 then JInt v else JString (dec_int v))"

record unknown_bytes =
  ub_inner :: string
  ub_truncated :: "nat option"

definition unknown_bytes_from :: "string \<Rightarrow> unknown_bytes" where
  "unknown_bytes_from bs =
     (let truncated = length bs - 16
      in \<lparr>ub_inner = (if 16 \<le> length bs then take 16 bs else bs),
          ub_truncated = (if truncated = 0 then None else Some truncated)\<rparr>)"

definition unknown_bytes_json :: "unknown_bytes \<Rightarrow> json" where
  "unknown_bytes_json u = JArray (
     map (\<lambda>b. JString (hex_padded 4 (of_char b))) (ub_inner u)
     @ (case ub_truncated u of
          None \<Rightarrow> []
        | Some count \<Rightarrow> [JString (''... ('' @ dec_nat count @ '' byte'' @ (if count > 1 then ''s'' else []) @ '' truncated) ...'')]))"

datatype type_encoding = Primitive primitive_encoding | UnknownPrimitive | Pointer

definition type_layout :: "variable_type \<Rightarrow> (type_encoding \<times> 64 word) option" where
  "type_layout vt = (case vt of
      PrimitiveType p \<Rightarrow> Some (case pt_encoding p of Some e \<Rightarrow> Primitive e | None \<Rightarrow> UnknownPrimitive, pt_size p)
    | PointerType p \<Rightarrow> Some (Pointer, pp_size p)
    | OtherType \<Rightarrow> None)"

definition map_bool_unsigned :: "type_encoding \<Rightarrow> nat \<Rightarrow> variable_value" where
  "map_bool_unsigned enc v =
     (if enc = Primitive Boolean then with_value (JBool (v > 0)) else with_value (JInt (int v)))"

definition format_value :: "memory_access \<Rightarrow> 64 word \<Rightarrow> variable_type \<Rightarrow> variable_value option" where
  "format_value M addr vt = Option.bind (type_layout vt) (\<lambda>(enc, sz).
     let n = unat sz;
         unsigned = enc \<in> {Primitive Boolean, Primitive UnsignedInt};
         wide_unsigned = enc \<in> {Primitive Boolean, Primitive UnsignedInt, Primitive UnsignedChar};
         wide_signed = enc \<in> {Primitive SignedInt, Primitive SignedChar}
     in if n = 0 then Some new_value
        else if unsigned \<and> n = 1 then map_option (map_bool_unsigned enc) (get_unsigned M addr 1)
        else if wide_unsigned \<and> n \<in> {2, 4, 8} then map_option (map_bool_unsigned enc) (get_unsigned M addr n)
        else if wide_unsigned \<and> n = 16 then
          map_option (\<lambda>v. if enc = Primitive Boolean then with_value (JBool (v > 0)) else with_value (json_u128 v))
            (get_unsigned M addr 16)
        else if enc = Primitive SignedInt \<and> n = 1 then map_option (\<lambda>v. with_value (JInt v)) (get_signed M addr 1)
        else if wide_signed \<and> n \<in> {2, 4, 8} then map_option (\<lambda>v. with_value (JInt v)) (get_signed M addr n)
        else if wide_signed \<and> n = 16 then map_option (\<lambda>v. with_value (json_i128 v)) (get_signed M addr 16)
        else if enc = Primitive Float \<and> n = 4 then map_option (\<lambda>v. with_value (json_f32 (of_nat v))) (get_unsigned M addr 4)
        else if enc = Primitive Float \<and> n = 8 then map_option (\<lambda>v. with_value (json_f64 (of_nat v))) (get_unsigned M addr 8)
        else if enc \<in> {Primitive SignedChar, Primitive UnsignedChar} \<and> n = 1 then
          map_option (\<lambda>v. with_value (JString ([CHR 0x27] @ escape_ascii v @ [CHR 0x27]))) (get_unsigned M addr 1)
        else if enc = Primitive AddressEncoding \<and> n \<in> {1, 2, 4, 8, 16} then
          map_option (\<lambda>v. with_value (JString (hex_padded (2 + 2 * n) v))) (get_unsigned M addr n)
        else if enc = Pointer \<and> n = 4 then map_option (\<lambda>v. with_pointer (ThirtyTwoBit (of_nat v))) (get_unsigned M addr 4)
        else if enc = Pointer \<and> n = 8 then map_option (\<lambda>v. with_pointer (SixtyFourBit (of_nat v))) (get_unsigned M addr 8)
        else map_option (\<lambda>v. with_value (unknown_bytes_json (unknown_bytes_from v))) (ma_get M addr sz))"

section \<open>Extraction\<close>

text \<open>
  The sum of the frame base and the offset is an addition of \<open>i64\<close>: it wraps in a release build,
  which the profile of the workspace does not change. The base must be an \<open>i64\<close> and the sum must
  not be negative.
\<close>

definition frame_address :: "variable_tools \<Rightarrow> registers \<Rightarrow> 64 word \<Rightarrow> 64 word option" where
  "frame_address T regs off =
     Option.bind (case vt_family T of Amd64 \<Rightarrow> regs ''rbp'' | Arm64 \<Rightarrow> regs ''fp'' | OtherFamily \<Rightarrow> None) (\<lambda>frame_base.
       if unat frame_base < 2 ^ 63 \<and> 0 \<le> sint (frame_base + off) then Some (frame_base + off) else None)"

definition register_value :: "variable_tools \<Rightarrow> registers \<Rightarrow> nat \<Rightarrow> 64 word option" where
  "register_value T regs i =
     (let names = (case vt_family T of Amd64 \<Rightarrow> vt_amd64_registers T | Arm64 \<Rightarrow> vt_arm64_registers T | OtherFamily \<Rightarrow> [])
      in if i < length names then regs (names ! i) else None)"

definition resolve_variable_value :: "variable_tools \<Rightarrow> registers \<Rightarrow> memory_access \<Rightarrow> variable_location
    \<Rightarrow> variable_type option \<Rightarrow> variable_value option" where
  "resolve_variable_value T regs M loc vt = Option.bind vt (\<lambda>vt. case loc of
      InRegister i \<Rightarrow> Option.bind (register_value T regs i) (\<lambda>v. format_value (register_access v) 0 vt)
    | FrameOffset off \<Rightarrow> Option.bind (frame_address T regs off) (\<lambda>addr. format_value M addr vt))"

fun find_value :: "('a \<Rightarrow> 'b option) \<Rightarrow> 'a list \<Rightarrow> 'b option" where
  "find_value f [] = None"
| "find_value f (x # xs) = (case f x of Some y \<Rightarrow> Some y | None \<Rightarrow> find_value f xs)"

definition extract_variable :: "variable_tools \<Rightarrow> registers \<Rightarrow> memory_access \<Rightarrow> symbol_variable \<Rightarrow> variable" where
  "extract_variable T regs M v =
     into_variable
       (case find_value (\<lambda>loc. resolve_variable_value T regs M loc (sv_type v)) (sv_locations v) of
          Some value \<Rightarrow> value | None \<Rightarrow> new_value)
       (resolve_type_name T [] (sv_type v) 0) (sv_kind v)"

definition do_extract :: "variable_tools \<Rightarrow> registers \<Rightarrow> memory_access \<Rightarrow> symbol_variable list \<Rightarrow> variables" where
  "do_extract T regs M vs =
     btree_collect (concat (map (\<lambda>v. case sv_name v of None \<Rightarrow> [] | Some n \<Rightarrow> [(n, extract_variable T regs M v)]) vs))"

end
