(* ===== verification/Native.thy ===== *)
theory Native
  imports ModuleLookup Variables
begin

text \<open>
  \<open>symbolication/symbolicate.rs\<close>, \<open>native/mod.rs\<close>, \<open>dotnet.rs\<close>, \<open>demangle.rs\<close> and \<open>source_context.rs\<close>:
  symbolicating native and .NET stack traces. What the \<open>symbolic\<close> crate answers (the lookup in a
  symcache or a portable PDB, the adjustment of an instruction address, demangling, the last
  component of a path) and what a symcache says of variables are parameters.
\<close>

section \<open>The demangling cache\<close>

text \<open>A name is a symbol with its language; the cache may lose entries at any time.\<close>

type_synonym mangled = "string \<times> string"
type_synonym demangle_cache = "mangled \<rightharpoonup> string option"

definition demangle :: "(mangled \<Rightarrow> string option) \<Rightarrow> mangled \<Rightarrow> demangle_cache \<Rightarrow> string option \<times> demangle_cache" where
  "demangle lib n cache =
     (case cache n of
        Some d \<Rightarrow> (d, cache)
      | None \<Rightarrow> let d = lib n in (d, cache(n \<mapsto> d)))"

datatype demangle_step = AskName mangled | Evict "mangled set"

fun demangle_run :: "(mangled \<Rightarrow> string option) \<Rightarrow> demangle_step list \<Rightarrow> demangle_cache \<Rightarrow> (mangled \<times> string option) list" where
  "demangle_run lib [] cache = []"
| "demangle_run lib (AskName n # ss) cache = (n, fst (demangle lib n cache)) # demangle_run lib ss (snd (demangle lib n cache))"
| "demangle_run lib (Evict ns # ss) cache = demangle_run lib ss (cache |` (- ns))"

definition sound_cache :: "(mangled \<Rightarrow> string option) \<Rightarrow> demangle_cache \<Rightarrow> bool" where
  "sound_cache lib cache \<longleftrightarrow> (\<forall>n d. cache n = Some d \<longrightarrow> d = lib n)"

lemma demangle_sound:
  assumes "sound_cache lib cache"
  shows "fst (demangle lib n cache) = lib n" and "sound_cache lib (snd (demangle lib n cache))"
proof -
  show "fst (demangle lib n cache) = lib n"
  proof (cases "cache n")
    case (Some d)
    with assms have "d = lib n" unfolding sound_cache_def by blast
    with Some show ?thesis by (simp add: demangle_def)
  qed (simp add: demangle_def Let_def)
  show "sound_cache lib (snd (demangle lib n cache))"
  proof (cases "cache n")
    case None
    then have "snd (demangle lib n cache) = cache(n \<mapsto> lib n)" by (simp add: demangle_def Let_def)
    then show ?thesis using assms unfolding sound_cache_def by (metis fun_upd_apply option.inject)
  next
    case (Some d)
    then show ?thesis using assms by (simp add: demangle_def)
  qed
qed

lemma demangle_run_transparent:
  "sound_cache lib cache \<Longrightarrow>
     demangle_run lib ss cache = concat (map (\<lambda>s. case s of AskName n \<Rightarrow> [(n, lib n)] | Evict _ \<Rightarrow> []) ss)"
proof (induction lib ss cache rule: demangle_run.induct)
  case (2 lib n ss cache)
  then show ?case using demangle_sound[OF "2.prems", of n] by simp
next
  case (3 lib ns ss cache)
  have "sound_cache lib (cache |` (- ns))"
    using "3.prems" unfolding sound_cache_def restrict_map_def by (metis option.discI)
  with "3.IH" show ?case by simp
qed simp

section \<open>What the libraries answer\<close>

record source_file =
  fl_full_path :: string
  fl_srcsrv_path :: "string option"
  fl_srcsrv_revision :: "string option"

record source_function =
  fn_name :: string
  fn_demangle :: mangled
  fn_language :: string
  fn_entry_pc :: "32 word"

record source_location =
  sl_line :: nat
  sl_file :: "source_file option"
  sl_function :: source_function
  sl_variables :: "symbol_variable list"

record instruction_info =
  ii_addr :: "64 word"
  ii_crashing :: bool
  ii_signal :: "nat option"
  ii_ip :: "64 word option"

record line_info =
  li_line :: nat
  li_file_name :: string
  li_file_lang :: string

record ('s, 'p, 'mem) symbol_tools =
  tl_lookup :: "'s \<Rightarrow> 64 word \<Rightarrow> source_location list"
  tl_ip_register :: "'s \<Rightarrow> string option"
  tl_previous :: "'s \<Rightarrow> instruction_info \<Rightarrow> 64 word"
  tl_aligned :: "'s \<Rightarrow> instruction_info \<Rightarrow> 64 word"
  tl_caller :: "'s \<Rightarrow> instruction_info \<Rightarrow> 64 word"
  tl_ppdb :: "'p \<Rightarrow> 32 word \<Rightarrow> 32 word \<Rightarrow> line_info option"
  tl_file_name :: "string \<Rightarrow> string"
  tl_demangle :: "mangled \<Rightarrow> string option"
  tl_variable_tools :: "'s \<Rightarrow> variable_tools"
  tl_memory :: "'mem \<Rightarrow> memory_access"

section \<open>Native frames\<close>

definition adjusted_address :: "('s, 'p, 'mem) symbol_tools \<Rightarrow> 's \<Rightarrow> adjust_instruction_addr \<Rightarrow> instruction_info \<Rightarrow> 64 word" where
  "adjusted_address T s adj info = (case adj of
      AdjustYes \<Rightarrow> tl_previous T s info | AdjustNo \<Rightarrow> tl_aligned T s info | AdjustAuto \<Rightarrow> tl_caller T s info)"

definition get_relative_caller_addr :: "('s, 'p, 'mem) symbol_tools \<Rightarrow> 's \<Rightarrow> ('s, 'p) cache_lookup \<Rightarrow> registers \<Rightarrow> nat option \<Rightarrow> nat
    \<Rightarrow> adjust_instruction_addr \<Rightarrow> frame_status + 64 word" where
  "get_relative_caller_addr T s l regs sig index adj =
     (case cl_relative l of
        None \<Rightarrow> Inl MissingSymbol
      | Some addr \<Rightarrow>
          (case rel_to_abs_addr (cl_info l) addr of
             None \<Rightarrow> Inr addr
           | Some absolute \<Rightarrow>
               let crashing = (index = 0);
                   ip = (if crashing then Option.bind (tl_ip_register T s) regs else None);
                   info = \<lparr>ii_addr = absolute, ii_crashing = crashing, ii_signal = sig, ii_ip = ip\<rparr>
               in (case abs_to_rel_addr (cl_info l) (adjusted_address T s adj info) of
                     Some r \<Rightarrow> Inr r
                   | None \<Rightarrow> Inl MissingSymbol)))"

definition native_frame :: "('s, 'p, 'mem) symbol_tools \<Rightarrow> 's \<Rightarrow> ('s, 'p) cache_lookup \<Rightarrow> 64 word \<Rightarrow> raw_frame \<Rightarrow> nat \<Rightarrow> 'mem option \<Rightarrow> bool
    \<Rightarrow> source_location \<Rightarrow> sym_frame" where
  "native_frame T s l instruction_addr f index mem server_info loc =
     (let server_path = (if server_info then Option.bind (sl_file loc) fl_srcsrv_path else None);
          abs_path = (case server_path of Some p \<Rightarrow> p | None \<Rightarrow> (case sl_file loc of Some fl \<Rightarrow> fl_full_path fl | None \<Rightarrow> []));
          filename = tl_file_name T abs_path;
          fn = sl_function loc
      in \<lparr>sf_status = Symbolicated, sf_original_index = Some index,
          sf_raw = \<lparr>fr_platform = fr_platform f, fr_addr_mode = preferred_addr_mode l, fr_instruction_addr = instruction_addr,
            fr_adjust = fr_adjust f, fr_function_id = fr_function_id f, fr_package = ro_code_file (oi_raw (cl_info l)),
            fr_lang = (if fn_language fn = ''unknown'' then None else Some (fn_language fn)),
            fr_symbol = Some (fn_name fn), fr_sym_addr = None,
            fr_function = Some (case tl_demangle T (fn_demangle fn) of Some d \<Rightarrow> d | None \<Rightarrow> fn_name fn),
            fr_filename = (if filename \<noteq> [] then Some filename else fr_filename f),
            fr_abs_path = (if abs_path \<noteq> [] then Some abs_path else fr_abs_path f),
            fr_lineno = Some (sl_line loc), fr_pre_context = [], fr_context_line = None, fr_post_context = [],
            fr_source_link = None,
            fr_vars = (case mem of None \<Rightarrow> [] | Some m \<Rightarrow> do_extract (tl_variable_tools T s) (fr_registers f) (tl_memory T m) (sl_variables loc)),
            fr_trust = fr_trust f, fr_registers = Map.empty,
            fr_file_revision = (if server_info then Option.bind (sl_file loc) fl_srcsrv_revision else None)\<rparr>\<rparr>)"

text \<open>The symbol address belongs to the outermost function, the last frame.\<close>

definition set_last_sym_addr :: "64 word option \<Rightarrow> sym_frame list \<Rightarrow> sym_frame list" where
  "set_last_sym_addr a rv =
     (if rv = [] then []
      else butlast rv @ [(last rv)\<lparr>sf_raw := (sf_raw (last rv))\<lparr>fr_sym_addr := a\<rparr>\<rparr>])"

definition symbolicate_native_frame :: "('s, 'p, 'mem) symbol_tools \<Rightarrow> 's \<Rightarrow> ('s, 'p) cache_lookup \<Rightarrow> 64 word \<Rightarrow> raw_frame \<Rightarrow> nat
    \<Rightarrow> 'mem option \<Rightarrow> bool \<Rightarrow> frame_status + sym_frame list" where
  "symbolicate_native_frame T s l relative_addr f index mem server_info =
     (let instruction_addr = expose_preferred_addr l relative_addr;
          locs = tl_lookup T s relative_addr;
          rv = map (native_frame T s l instruction_addr f index mem server_info) locs;
          sym_addr = (if locs = [] then None
                      else Some (expose_preferred_addr l (ucast (fn_entry_pc (sl_function (last locs))))))
      in if rv = [] then Inl MissingSymbol else Inr (set_last_sym_addr sym_addr rv))"

section \<open>.NET frames\<close>

definition symbolicate_dotnet_frame :: "('s, 'p, 'mem) symbol_tools \<Rightarrow> 'p \<Rightarrow> raw_frame \<Rightarrow> nat \<Rightarrow> frame_status + sym_frame list" where
  "symbolicate_dotnet_frame T p f index =
     (case fr_function_id f of
        None \<Rightarrow> Inl MissingSymbol
      | Some i \<Rightarrow>
          (case tl_ppdb T p (ucast i) (ucast (fr_instruction_addr f)) of
             None \<Rightarrow> Inl MissingSymbol
           | Some li \<Rightarrow>
               Inr [\<lparr>sf_status = Symbolicated, sf_original_index = Some index,
                     sf_raw = f\<lparr>fr_lang := Some (li_file_lang li), fr_filename := Some (tl_file_name T (li_file_name li)),
                                fr_abs_path := Some (li_file_name li), fr_lineno := Some (li_line li)\<rparr>\<rparr>]))"

section \<open>One frame\<close>

text \<open>The frame is updated in place: it comes back with the package of its module.\<close>

definition symbolicate_frame :: "('s, 'p, 'mem) symbol_tools \<Rightarrow> ('s, 'p, 'o) module_lookup \<Rightarrow> registers \<Rightarrow> nat option \<Rightarrow> raw_frame \<Rightarrow> nat
    \<Rightarrow> adjust_instruction_addr \<Rightarrow> 'mem option \<Rightarrow> bool \<Rightarrow> (frame_status + sym_frame list) \<times> raw_frame" where
  "symbolicate_frame T ml regs sig f index adj mem server_info =
     (case lookup_cache ml (fr_instruction_addr f) (fr_addr_mode f) of
        None \<Rightarrow> (Inl UnknownImage, f)
      | Some l \<Rightarrow>
          let f = f\<lparr>fr_package := ro_code_file (oi_raw (cl_info l))\<rparr>
          in ((case cl_cache l of
                 Inr (SymCacheEntry s) \<Rightarrow>
                   (case get_relative_caller_addr T s l regs sig index adj of
                      Inl e \<Rightarrow> Inl e
                    | Inr a \<Rightarrow> symbolicate_native_frame T s l a f index mem server_info)
               | Inr (PpdbEntry p) \<Rightarrow> symbolicate_dotnet_frame T p f index
               | Inl (Malformed _) \<Rightarrow> Inl FrameMalformed
               | Inl _ \<Rightarrow> Inl Missing), f))"

definition is_likely_base_frame :: "sym_frame \<Rightarrow> bool" where
  "is_likely_base_frame f =
     (case (case fr_function (sf_raw f) of Some n \<Rightarrow> Some n | None \<Rightarrow> fr_symbol (sf_raw f)) of
        None \<Rightarrow> False
      | Some n \<Rightarrow>
          n \<in> {''main'', ''start'', ''_start'', ''__clone'', ''__clone3''}
          \<or> str_contains n ''UserThreadStart'' \<or> str_contains n ''thread_start''
          \<or> str_contains n ''start_thread'' \<or> str_contains n ''start_wqthread'')"

definition is_likely_glibc_undefined_rip_frame :: "sym_frame \<Rightarrow> bool" where
  "is_likely_glibc_undefined_rip_frame f =
     (case fr_function (sf_raw f) of None \<Rightarrow> False | Some n \<Rightarrow> n \<in> {''_start'', ''__clone'', ''__clone3''})"

section \<open>Metrics\<close>

record stacktrace_metrics =
  truncated_traces :: nat
  short_traces :: nat
  bad_traces :: nat
  scanned_frames :: nat
  unsymbolicated_frames :: nat
  unsymbolicated_context_frames :: nat
  unsymbolicated_scanned_frames :: nat
  unsymbolicated_cfi_frames :: nat
  unmapped_frames :: nat

definition default_metrics :: stacktrace_metrics where
  "default_metrics = \<lparr>truncated_traces = 0, short_traces = 0, bad_traces = 0, scanned_frames = 0, unsymbolicated_frames = 0,
     unsymbolicated_context_frames = 0, unsymbolicated_scanned_frames = 0, unsymbolicated_cfi_frames = 0, unmapped_frames = 0\<rparr>"

definition count_ok :: "raw_frame \<Rightarrow> stacktrace_metrics \<Rightarrow> stacktrace_metrics" where
  "count_ok f m = (if fr_trust f = Scan then m\<lparr>scanned_frames := scanned_frames m + 1\<rparr> else m)"

definition count_failed :: "raw_frame \<Rightarrow> frame_status \<Rightarrow> stacktrace_metrics \<Rightarrow> stacktrace_metrics" where
  "count_failed f status m =
     (let m = m\<lparr>unsymbolicated_frames := unsymbolicated_frames m + 1\<rparr>;
          m = (case fr_trust f of
                 Scan \<Rightarrow> m\<lparr>scanned_frames := scanned_frames m + 1, unsymbolicated_scanned_frames := unsymbolicated_scanned_frames m + 1\<rparr>
               | Cfi \<Rightarrow> m\<lparr>unsymbolicated_cfi_frames := unsymbolicated_cfi_frames m + 1\<rparr>
               | Context \<Rightarrow> m\<lparr>unsymbolicated_context_frames := unsymbolicated_context_frames m + 1\<rparr>
               | _ \<Rightarrow> m)
      in if status = UnknownImage then m\<lparr>unmapped_frames := unmapped_frames m + 1\<rparr> else m)"

section \<open>One stack trace\<close>

text \<open>
  A name that could not be symbolicated is demangled: the only one of function and symbol that is there;
  a mangled function becomes the symbol.
\<close>

definition demangle_failed :: "(mangled \<Rightarrow> string option) \<Rightarrow> raw_frame \<Rightarrow> raw_frame" where
  "demangle_failed dm f =
     (let mangled = (case (fr_function f, fr_symbol f) of (Some n, None) \<Rightarrow> Some n | (None, Some n) \<Rightarrow> Some n | _ \<Rightarrow> None)
      in (case Option.bind mangled (\<lambda>n. dm (n, ''unknown'')) of
            None \<Rightarrow> f
          | Some d \<Rightarrow>
              (case fr_function f of
                 None \<Rightarrow> f\<lparr>fr_function := Some d\<rparr>
               | Some old \<Rightarrow> f\<lparr>fr_function := Some d, fr_symbol := Some old\<rparr>)))"

text \<open>Whether a frame that could not be symbolicated is left out.\<close>

definition drop_frame :: "raw_frame \<Rightarrow> frame_status \<Rightarrow> bool \<Rightarrow> sym_frame list \<Rightarrow> bool" where
  "drop_frame f status outermost done \<longleftrightarrow>
     (fr_trust f = Scan \<and> (status = MissingSymbol \<or> status = UnknownImage))
     \<or> (status = UnknownImage \<and> outermost \<and> done \<noteq> [] \<and> is_likely_glibc_undefined_rip_frame (last done))
     \<or> (status = UnknownImage \<and> outermost \<and> fr_addr_mode f = Abs \<and> fr_instruction_addr f < 4096 \<and> done \<noteq> [])"

text \<open>The loop over the frames: index, what is done, the metrics. \<open>symf\<close> symbolicates one frame.\<close>

fun frames_loop :: "(raw_frame \<Rightarrow> nat \<Rightarrow> (frame_status + sym_frame list) \<times> raw_frame) \<Rightarrow> (mangled \<Rightarrow> string option)
    \<Rightarrow> nat \<Rightarrow> raw_frame list \<Rightarrow> sym_frame list \<Rightarrow> stacktrace_metrics \<Rightarrow> sym_frame list \<times> stacktrace_metrics" where
  "frames_loop symf dm index [] done m = (done, m)"
| "frames_loop symf dm index (f # fs) done m =
     (case symf f index of
        (Inr frames, f') \<Rightarrow> frames_loop symf dm (Suc index) fs (done @ frames) (count_ok f' m)
      | (Inl status, f') \<Rightarrow>
          let f' = demangle_failed dm f'
          in if drop_frame f' status (fs = []) done then frames_loop symf dm (Suc index) fs done m
             else frames_loop symf dm (Suc index) fs
                    (done @ [\<lparr>sf_status = status, sf_original_index = Some index, sf_raw = f'\<rparr>]) (count_failed f' status m))"

definition count_trace :: "sym_frame list \<Rightarrow> stacktrace_metrics \<Rightarrow> stacktrace_metrics" where
  "count_trace fs m =
     (let m = (if \<not> list_ex is_likely_base_frame (take 5 (rev fs)) then m\<lparr>truncated_traces := truncated_traces m + 1\<rparr> else m);
          m = (if length fs < 3 then m\<lparr>short_traces := short_traces m + 1\<rparr> else m)
      in if scanned_frames m > 0 \<or> unsymbolicated_frames m > 0 then m\<lparr>bad_traces := bad_traces m + 1\<rparr> else m)"

definition symbolicate_stacktrace :: "('s, 'p, 'mem) symbol_tools \<Rightarrow> raw_stacktrace \<Rightarrow> ('s, 'p, 'o) module_lookup \<Rightarrow> stacktrace_metrics
    \<Rightarrow> nat option \<Rightarrow> 'mem option \<Rightarrow> bool \<Rightarrow> complete_stacktrace \<times> stacktrace_metrics" where
  "symbolicate_stacktrace T t ml m sig mem server_info =
     (let default = adjust_default_for_thread t;
          symf = (\<lambda>f index. symbolicate_frame T ml (rs_registers t) sig f index (adjust_for_frame f default) mem server_info);
          (fs, m) = frames_loop symf (tl_demangle T) 0 (rs_frames t) [] m
      in (\<lparr>cs_thread_id = rs_thread_id t, cs_thread_name = rs_thread_name t, cs_is_requesting = rs_is_requesting t,
           cs_registers = rs_registers t, cs_frames = fs\<rparr>, count_trace fs m))"

fun symbolicate_all :: "(raw_stacktrace \<Rightarrow> stacktrace_metrics \<Rightarrow> complete_stacktrace \<times> stacktrace_metrics) \<Rightarrow> raw_stacktrace list
    \<Rightarrow> stacktrace_metrics \<Rightarrow> complete_stacktrace list \<times> stacktrace_metrics" where
  "symbolicate_all symf [] m = ([], m)"
| "symbolicate_all symf (t # ts) m =
     (let (c, m) = symf t m; (cs, m) = symbolicate_all symf ts m in (c # cs, m))"

section \<open>Requests\<close>

record 'mem native_request =
  nr_stacktraces :: "raw_stacktrace list"
  nr_sources :: "source_config list"
  nr_scope :: scope
  nr_signal :: "nat option"
  nr_modules :: "object_info list"
  nr_apply_source_context :: bool
  nr_rewrite_first_module :: "rewrite_rule list"
  nr_frame_order :: frame_order
  nr_extract_variables :: bool
  nr_memory :: "'mem option"
  nr_apply_source_server_info :: bool

record native_response =
  np_signal :: "nat option"
  np_stacktraces :: "complete_stacktrace list"
  np_modules :: "object_info list"
  np_metrics :: stacktrace_metrics

text \<open>The services of the actor: debug information, objects for sources, URLs and debug sessions.\<close>

record ('s, 'p, 'o, 'mem) native_actor =
  na_tools :: "('s, 'p, 'mem) symbol_tools"
  na_debug :: "('s, 'p) debug_services"
  na_services :: services
  na_fetch_object :: "scope \<Rightarrow> remote_file \<Rightarrow> 'o cache_contents"
  na_open_session :: "'o \<Rightarrow> debug_session option"
  na_parse_url :: "string \<Rightarrow> string option"

definition context_trace :: "('s, 'p, 'o, 'mem) native_actor \<Rightarrow> ('s, 'p, 'o) module_lookup \<Rightarrow> complete_stacktrace
    \<Rightarrow> complete_stacktrace outcome" where
  "context_trace A ml t =
     map_out (\<lambda>fs. t\<lparr>cs_frames := fs\<rparr>)
       (out_all (map (\<lambda>f. map_out (\<lambda>raw. f\<lparr>sf_raw := raw\<rparr>)
            (try_set_source_context (na_parse_url A) ml (prepare_debug_sessions (na_open_session A) ml) (sf_raw f))) (cs_frames t)))"

definition apply_source_context :: "('s, 'p, 'o, 'mem) native_actor \<Rightarrow> ('s, 'p, 'o) module_lookup \<Rightarrow> complete_stacktrace list
    \<Rightarrow> (('s, 'p, 'o) module_lookup \<times> complete_stacktrace list) outcome" where
  "apply_source_context A ml ts =
     bind_out (fetch_sources (ds_ids (na_debug A)) (na_services A) (na_fetch_object A) ts ml) (\<lambda>ml.
       map_out (\<lambda>ts. (ml, ts)) (out_all (map (context_trace A ml) ts)))"

definition reverse_raw :: "raw_stacktrace \<Rightarrow> raw_stacktrace" where
  "reverse_raw t = t\<lparr>rs_frames := rev (rs_frames t)\<rparr>"

definition reverse_complete :: "complete_stacktrace \<Rightarrow> complete_stacktrace" where
  "reverse_complete t = t\<lparr>cs_frames := rev (cs_frames t)\<rparr>"

definition symbolicate :: "('s, 'p, 'o, 'mem) native_actor \<Rightarrow> 'mem native_request \<Rightarrow> native_response outcome" where
  "symbolicate A r =
     (let ts = (if nr_frame_order r = CallerFirst then map reverse_raw (nr_stacktraces r) else nr_stacktraces r) in
      bind_out (fetch_caches (na_debug A) ts (nr_extract_variables r)
          (module_lookup_new (nr_scope r) (nr_sources r) (nr_rewrite_first_module r) (nr_modules r) :: ('s, 'p, 'o) module_lookup)) (\<lambda>ml.
      let (cs, m) = symbolicate_all (\<lambda>t m. symbolicate_stacktrace (na_tools A) t ml m (nr_signal r)
              (if nr_extract_variables r then nr_memory r else None) (nr_apply_source_server_info r)) ts default_metrics
      in map_out (\<lambda>(ml, cs).
           \<lparr>np_signal = nr_signal r,
            np_stacktraces = (if nr_frame_order r = CallerFirst then map reverse_complete cs else cs),
            np_modules = into_inner ml, np_metrics = m\<rparr>)
         (if nr_apply_source_context r then apply_source_context A ml cs else Ret (ml, cs))))"

section \<open>The loop over the frames\<close>

lemma sorted_const: "list_all (\<lambda>x. f x = c) xs \<Longrightarrow> sorted (map f xs)"
  by (induction xs) (auto simp: list_all_iff)

text \<open>
  What the response has for one frame of a trace, written down from the rules of the source: the frames it
  was symbolicated to, or the frame itself with the reason, or nothing. Nothing is shown only for
  \<^item> a frame found by scanning that has no symbol in its image, or no image;
  \<^item> the last frame of the trace, outside every image, below frames that are shown, when the frame shown
    above it is a known entry point or its address is in the first page.
\<close>

definition garbage :: "raw_frame \<Rightarrow> frame_status \<Rightarrow> bool \<Rightarrow> sym_frame list \<Rightarrow> bool" where
  "garbage f status outermost upper \<longleftrightarrow>
     (if fr_trust f = Scan then status \<in> {MissingSymbol, UnknownImage} else False)
     \<or> (if status = UnknownImage \<and> outermost
        then (case rev upper of
                [] \<Rightarrow> False
              | x # _ \<Rightarrow> fr_function (sf_raw x) \<in> {Some ''_start'', Some ''__clone'', Some ''__clone3''}
                  \<or> (fr_addr_mode f = Abs \<and> fr_instruction_addr f < 4096))
        else False)"

definition shown_for :: "(mangled \<Rightarrow> string option) \<Rightarrow> (frame_status + sym_frame list) \<times> raw_frame \<Rightarrow> raw_frame \<Rightarrow> nat \<Rightarrow> bool
    \<Rightarrow> sym_frame list \<Rightarrow> sym_frame list" where
  "shown_for dm r f i outermost upper =
     (case r of
        (Inr frames, _) \<Rightarrow> frames
      | (Inl status, f') \<Rightarrow>
          if garbage f status outermost upper then []
          else [\<lparr>sf_status = status, sf_original_index = Some i, sf_raw = demangle_failed dm f'\<rparr>])"

text \<open>
  What the loop relies on: a symbolicated frame gives only frames with its index, and
  how a frame was found and where it is does not change.
\<close>

locale frame_symbolicator =
  fixes symf :: "raw_frame \<Rightarrow> nat \<Rightarrow> (frame_status + sym_frame list) \<times> raw_frame"
  assumes symf_frames: "symf f i = (Inr fs, f') \<Longrightarrow> list_all (\<lambda>x. sf_original_index x = Some i) fs"
    and symf_keeps: "symf f i = (r, f') \<Longrightarrow>
      fr_trust f' = fr_trust f \<and> fr_addr_mode f' = fr_addr_mode f \<and> fr_instruction_addr f' = fr_instruction_addr f"
begin

lemma demangle_failed_keeps: "fr_trust (demangle_failed dm f) = fr_trust f" "fr_addr_mode (demangle_failed dm f) = fr_addr_mode f"
  "fr_instruction_addr (demangle_failed dm f) = fr_instruction_addr f"
  by (simp_all add: demangle_failed_def Let_def split: option.split)

lemma drop_frame_garbage:
  assumes "symf f i = (r, f')"
  shows "drop_frame (demangle_failed dm f') status outermost upper \<longleftrightarrow> garbage f status outermost upper"
proof -
  have "is_likely_glibc_undefined_rip_frame x \<longleftrightarrow> fr_function (sf_raw x) \<in> {Some ''_start'', Some ''__clone'', Some ''__clone3''}" for x
    by (cases "fr_function (sf_raw x)") (simp_all add: is_likely_glibc_undefined_rip_frame_def)
  then show ?thesis
    using symf_keeps[OF assms] by (cases upper rule: rev_cases) (auto simp: drop_frame_def garbage_def demangle_failed_keeps)
qed

lemma loop_step:
  "\<exists>m'. frames_loop symf dm k (f # fs) done m = frames_loop symf dm (Suc k) fs (done @ shown_for dm (symf f k) f k (fs = []) done) m'"
proof -
  obtain r f' where s: "symf f k = (r, f')" by (cases "symf f k")
  show ?thesis
  proof (cases r)
    case (Inr frames)
    with s show ?thesis by (intro exI[of _ "count_ok f' m"]) (simp add: shown_for_def)
  next
    case (Inl status)
    show ?thesis
    proof (cases "garbage f status (fs = []) done")
      case True
      with s Inl drop_frame_garbage[OF s] show ?thesis by (intro exI[of _ m]) (simp add: Let_def shown_for_def)
    next
      case False
      with s Inl drop_frame_garbage[OF s] show ?thesis
        by (intro exI[of _ "count_failed (demangle_failed dm f') status m"]) (simp add: Let_def shown_for_def)
    qed
  qed
qed

lemma shown_index: "list_all (\<lambda>x. sf_original_index x = Some k) (shown_for dm (symf f k) f k outermost upper)"
  using symf_frames[of f k] by (auto simp: shown_for_def split: prod.split sum.split)

lemma loop_result:
  "\<exists>new. fst (frames_loop symf dm k fs done m) = done @ new
     \<and> list_all (\<lambda>x. \<exists>i. sf_original_index x = Some i \<and> k \<le> i \<and> i < k + length fs) new
     \<and> sorted (map (\<lambda>x. the (sf_original_index x)) new)
     \<and> (\<forall>i < length fs. filter (\<lambda>x. sf_original_index x = Some (k + i)) new
          = shown_for dm (symf (fs ! i) (k + i)) (fs ! i) (k + i) (Suc i = length fs)
              (done @ filter (\<lambda>x. the (sf_original_index x) < k + i) new))"
proof (induction fs arbitrary: k "done" m)
  case Nil
  then show ?case by simp
next
  case (Cons f fs)
  define out where "out = shown_for dm (symf f k) f k (fs = []) done"
  obtain m' where step: "frames_loop symf dm k (f # fs) done m = frames_loop symf dm (Suc k) fs (done @ out) m'"
    unfolding out_def using loop_step by blast
  have out: "sf_original_index x = Some k" if "x \<in> set out" for x using shown_index that by (force simp: out_def list_all_iff)
  obtain new where new: "fst (frames_loop symf dm (Suc k) fs (done @ out) m') = (done @ out) @ new"
    and idx: "list_all (\<lambda>x. \<exists>i. sf_original_index x = Some i \<and> Suc k \<le> i \<and> i < Suc k + length fs) new"
    and sorted: "sorted (map (\<lambda>x. the (sf_original_index x)) new)"
    and each: "\<forall>i < length fs. filter (\<lambda>x. sf_original_index x = Some (Suc k + i)) new
          = shown_for dm (symf (fs ! i) (Suc k + i)) (fs ! i) (Suc k + i) (Suc i = length fs)
              ((done @ out) @ filter (\<lambda>x. the (sf_original_index x) < Suc k + i) new)"
    using Cons.IH[of "Suc k" "done @ out" m'] by blast
  have later: "\<exists>i. sf_original_index x = Some i \<and> k < i" if "x \<in> set new" for x using idx that by (force simp: list_all_iff)
  have ks: "sorted (map (\<lambda>x. the (sf_original_index x)) (out @ new))"
    using sorted_const[of "\<lambda>x. the (sf_original_index x)" k out] out later sorted by (force simp: sorted_append list_all_iff)
  have "filter (\<lambda>x. sf_original_index x = Some (k + i)) (out @ new)
      = shown_for dm (symf ((f # fs) ! i) (k + i)) ((f # fs) ! i) (k + i) (Suc i = length (f # fs))
          (done @ filter (\<lambda>x. the (sf_original_index x) < k + i) (out @ new))" if "i < length (f # fs)" for i
  proof (cases i)
    case 0
    have "filter (\<lambda>x. sf_original_index x = Some k) out = out" using out by (simp add: filter_id_conv)
    moreover have "filter (\<lambda>x. sf_original_index x = Some k) new = []" "filter (\<lambda>x. the (sf_original_index x) < k) (out @ new) = []"
      using out later by (force simp: filter_empty_conv)+
    ultimately show ?thesis using 0 by (simp add: out_def)
  next
    case (Suc j)
    have "filter (\<lambda>x. sf_original_index x = Some (k + i)) out = []" using out Suc by (auto simp: filter_empty_conv)
    moreover have "filter (\<lambda>x. the (sf_original_index x) < k + i) out = out" using out Suc by (simp add: filter_id_conv)
    ultimately show ?thesis using each[rule_format, of j] that Suc by simp
  qed
  moreover have "list_all (\<lambda>x. \<exists>i. sf_original_index x = Some i \<and> k \<le> i \<and> i < k + length (f # fs)) (out @ new)"
    using out idx by (fastforce simp: list_all_iff)
  ultimately show ?case using step new ks by (intro exI[of _ "out @ new"]) simp
qed

end

section \<open>One frame\<close>

lemma set_last_all:
  "(\<And>x. P (x\<lparr>sf_raw := (sf_raw x)\<lparr>fr_sym_addr := a\<rparr>\<rparr>) = P x) \<Longrightarrow> list_all P (set_last_sym_addr a rv) = list_all P rv"
  by (cases rv rule: rev_cases) (simp_all add: set_last_sym_addr_def)

lemma native_frames_all:
  assumes "symbolicate_native_frame T s l a f i mem si = Inr fs"
    and "\<And>x b. P (x\<lparr>sf_raw := (sf_raw x)\<lparr>fr_sym_addr := b\<rparr>\<rparr>) = P x"
    and "\<And>loc. P (native_frame T s l (expose_preferred_addr l a) f i mem si loc)"
  shows "fs \<noteq> [] \<and> list_all P fs"
proof -
  let ?rv = "map (native_frame T s l (expose_preferred_addr l a) f i mem si) (tl_lookup T s a)"
  obtain b where fs: "fs = set_last_sym_addr b ?rv" "?rv \<noteq> []"
    using assms(1) unfolding symbolicate_native_frame_def Let_def by (auto split: if_splits)
  have "list_all P ?rv" using assms(3) by (simp add: list_all_iff)
  then have "list_all P fs" unfolding fs(1) using set_last_all[of P b ?rv] assms(2) by blast
  with fs show ?thesis by (auto simp: set_last_sym_addr_def)
qed

lemma native_frames:
  assumes "symbolicate_native_frame T s l a f i mem si = Inr fs"
  shows "fs \<noteq> [] \<and> list_all (\<lambda>x. sf_original_index x = Some i) fs"
  by (rule native_frames_all[OF assms]) (simp_all add: native_frame_def Let_def)

lemma dotnet_frames:
  "symbolicate_dotnet_frame T p f i = Inr fs \<Longrightarrow> fs \<noteq> [] \<and> list_all (\<lambda>x. sf_original_index x = Some i) fs"
  by (auto simp: symbolicate_dotnet_frame_def split: option.splits)

lemma symbolicate_frame_frames:
  assumes "symbolicate_frame T ml regs sig f i adj mem si = (Inr fs, f')"
  shows "fs \<noteq> [] \<and> list_all (\<lambda>x. sf_original_index x = Some i) fs"
  using assms unfolding symbolicate_frame_def Let_def
  by (auto split: option.splits sum.splits cache_file_entry.splits cache_error.splits dest: native_frames dotnet_frames)

lemma symbolicate_frame_keeps: "symbolicate_frame T ml regs sig f i adj mem si = (r, f') \<Longrightarrow>
    fr_trust f' = fr_trust f \<and> fr_addr_mode f' = fr_addr_mode f \<and> fr_instruction_addr f' = fr_instruction_addr f"
  by (auto simp: symbolicate_frame_def Let_def split: option.splits)

definition frame_of_thread :: "('s, 'p, 'mem) symbol_tools \<Rightarrow> raw_stacktrace \<Rightarrow> ('s, 'p, 'o) module_lookup \<Rightarrow> nat option \<Rightarrow> 'mem option \<Rightarrow> bool
    \<Rightarrow> raw_frame \<Rightarrow> nat \<Rightarrow> (frame_status + sym_frame list) \<times> raw_frame" where
  "frame_of_thread T t ml sig mem si =
     (\<lambda>f i. symbolicate_frame T ml (rs_registers t) sig f i (adjust_for_frame f (adjust_default_for_thread t)) mem si)"

interpretation frames: frame_symbolicator "frame_of_thread T t ml sig mem si" for T t ml sig mem si
  by unfold_locales (auto simp: frame_of_thread_def dest: symbolicate_frame_frames symbolicate_frame_keeps)

lemma trace_frames:
  "cs_frames (fst (symbolicate_stacktrace T t ml m sig mem si)) =
     fst (frames_loop (frame_of_thread T t ml sig mem si) (tl_demangle T) 0 (rs_frames t) [] m)"
  by (simp add: symbolicate_stacktrace_def frame_of_thread_def Let_def split: prod.split)

section \<open>Addresses of symbolicated frames\<close>

lemma abs_rel_inverse: "abs_to_rel_addr o' a = Some r \<longleftrightarrow> rel_to_abs_addr o' r = Some a"
  by (simp add: abs_to_rel_addr_def rel_to_abs_addr_def checked_add_Some checked_sub_Some)

lemma native_frame_addr:
  assumes "symbolicate_native_frame T s l a f i mem si = Inr fs"
  shows "fs \<noteq> [] \<and> list_all (\<lambda>x. fr_addr_mode (sf_raw x) = preferred_addr_mode l
      \<and> fr_instruction_addr (sf_raw x) = expose_preferred_addr l a) fs"
  by (rule native_frames_all[OF assms]) (simp_all add: native_frame_def Let_def)

section \<open>Source context\<close>

definition erase_context :: "raw_frame \<Rightarrow> raw_frame" where
  "erase_context f = f\<lparr>fr_pre_context := [], fr_context_line := None, fr_post_context := [], fr_source_link := None\<rparr>"

text \<open>
  The module a frame is in, among the modules of the request: by its index, or the image that starts last
  at or before the address and covers it.
\<close>

definition frame_module :: "('s, 'p, 'o) module_entry list \<Rightarrow> raw_frame \<Rightarrow> ('s, 'p, 'o) module_entry \<Rightarrow> bool" where
  "frame_module es f e \<longleftrightarrow> e \<in> set es
     \<and> (case fr_addr_mode f of
          Rel i \<Rightarrow> me_index e = i
        | Abs \<Rightarrow> covers e (fr_instruction_addr f)
            \<and> (\<forall>e' \<in> set es. me_addr e' \<le> fr_instruction_addr f \<longrightarrow> me_addr e' \<le> me_addr e))"

text \<open>The source file of a frame: the file of its path in the object with sources of its module.\<close>

definition frame_source :: "('o \<Rightarrow> debug_session option) \<Rightarrow> ('s, 'p, 'o) module_entry list \<Rightarrow> raw_frame \<Rightarrow> source_descriptor \<Rightarrow> bool" where
  "frame_source open_session es f d \<longleftrightarrow>
     (\<exists>e ob session path. frame_module es f e \<and> me_source e = Inr ob \<and> open_session ob = Some session
        \<and> fr_abs_path f = Some path \<and> session path = Some d)"

text \<open>
  What applying a source file does to a frame: a web link of the file that parses becomes its source link,
  and if its line is in the file, its context is this line with up to five lines before and after it.
\<close>

definition context_applied :: "(string \<Rightarrow> string option) \<Rightarrow> source_descriptor \<Rightarrow> raw_frame \<Rightarrow> raw_frame \<Rightarrow> bool" where
  "context_applied parse_url d f f' \<longleftrightarrow>
     erase_context f' = erase_context f
     \<and> fr_source_link f' =
         (case Option.bind (sd_url d) (\<lambda>u. if take 8 u = ''https://'' \<or> take 7 u = ''http://'' then parse_url u else None) of
            Some u \<Rightarrow> Some u
          | None \<Rightarrow> fr_source_link f)
     \<and> (case (sd_contents d, fr_lineno f) of
          (Some text, Some n) \<Rightarrow>
            (let ls = read_lines text; k = n - 1
             in if k < length ls
                then list_all2 (\<lambda>l t. trimmed l 0 t) (drop (k - 5) (take k ls)) (fr_pre_context f')
                   \<and> pred_option (trimmed (ls ! k) 0) (fr_context_line f') \<and> fr_context_line f' \<noteq> None
                   \<and> list_all2 (\<lambda>l t. trimmed l 0 t) (take 5 (drop (Suc k) ls)) (fr_post_context f')
                else fr_pre_context f' = fr_pre_context f \<and> fr_context_line f' = fr_context_line f
                   \<and> fr_post_context f' = fr_post_context f)
        | _ \<Rightarrow> fr_pre_context f' = fr_pre_context f \<and> fr_context_line f' = fr_context_line f
            \<and> fr_post_context f' = fr_post_context f)"

definition context_found :: "('o \<Rightarrow> debug_session option) \<Rightarrow> (string \<Rightarrow> string option) \<Rightarrow> ('s, 'p, 'o) module_entry list
    \<Rightarrow> raw_frame \<Rightarrow> raw_frame \<Rightarrow> bool" where
  "context_found open_session parse_url es f f' \<longleftrightarrow>
     (\<forall>d. frame_source open_session es f d \<longrightarrow> context_applied parse_url d f f')
     \<and> ((\<exists>d. frame_source open_session es f d) \<or> f' = f)"

text \<open>The code finds that file.\<close>

lemma session_of_module:
  assumes "distinct (map me_index (ml_modules ml))" and "e \<in> set (ml_modules ml)"
  shows "prepare_debug_sessions op ml (me_index e) = Some (case me_source e of Inr ob \<Rightarrow> op ob | Inl _ \<Rightarrow> None)"
proof -
  let ?f = "\<lambda>e. (me_index e, case me_source e of Inr ob \<Rightarrow> op ob | Inl _ \<Rightarrow> None)"
  have "distinct (map fst (rev (map ?f (ml_modules ml))))" using assms(1) by (simp add: o_def flip: rev_map)
  moreover have "?f e \<in> set (rev (map ?f (ml_modules ml)))" using assms(2) by auto
  ultimately show ?thesis unfolding prepare_debug_sessions_def by (rule map_of_is_SomeI)
qed

lemma frame_module_found:
  assumes "distinct (map me_index (ml_modules ml))" and "sorted_by me_addr (ml_modules ml)"
  shows "get_module_by_addr ml (fr_instruction_addr f) (fr_addr_mode f) = Some e \<longleftrightarrow> frame_module (ml_modules ml) f e"
proof (cases "fr_addr_mode f")
  case Abs
  then show ?thesis by (simp add: frame_module_def covering_module[OF assms(2)])
next
  case (Rel i)
  then show ?thesis using find_index[OF assms(1), of i e] by (simp add: frame_module_def get_module_by_addr_def)
qed

lemma frame_source_found:
  assumes "distinct (map me_index (ml_modules ml))" and "sorted_by me_addr (ml_modules ml)"
  shows "get_source_descriptor ml (prepare_debug_sessions op ml) f = Some d \<longleftrightarrow> frame_source op (ml_modules ml) f d"
proof -
  have "get_source_descriptor ml (prepare_debug_sessions op ml) f = Some d \<longleftrightarrow>
      (\<exists>path e session s. fr_abs_path f = Some path \<and> frame_module (ml_modules ml) f e
        \<and> prepare_debug_sessions op ml (me_index e) = Some session \<and> session = Some s \<and> s path = Some d)"
    unfolding get_source_descriptor_def Option.bind_eq_Some_conv frame_module_found[OF assms] by blast
  also have "\<dots> \<longleftrightarrow> frame_source op (ml_modules ml) f d"
  proof -
    have "prepare_debug_sessions op ml (me_index e) = Some (Some s) \<longleftrightarrow> (\<exists>ob. me_source e = Inr ob \<and> op ob = Some s)"
      if "frame_module (ml_modules ml) f e" for e s
    proof -
      have "e \<in> set (ml_modules ml)" using that by (simp add: frame_module_def)
      from session_of_module[OF assms(1) this, of op] show ?thesis by (cases "me_source e") auto
    qed
    then show ?thesis unfolding frame_source_def by blast
  qed
  finally show ?thesis .
qed

lemma set_source_context_applied:
  assumes "utf8_valid c"
  shows "\<exists>f'. set_source_context c f = Ret f' \<and> erase_context f' = erase_context f \<and> fr_source_link f' = fr_source_link f
    \<and> (case fr_lineno f of
         Some n \<Rightarrow>
           (let ls = read_lines c; k = n - 1
             in if k < length ls
                then list_all2 (\<lambda>l t. trimmed l 0 t) (drop (k - 5) (take k ls)) (fr_pre_context f')
                   \<and> pred_option (trimmed (ls ! k) 0) (fr_context_line f') \<and> fr_context_line f' \<noteq> None
                   \<and> list_all2 (\<lambda>l t. trimmed l 0 t) (take 5 (drop (Suc k) ls)) (fr_post_context f')
                else fr_pre_context f' = fr_pre_context f \<and> fr_context_line f' = fr_context_line f
                   \<and> fr_post_context f' = fr_post_context f)
       | None \<Rightarrow> f' = f)"
proof (cases "fr_lineno f")
  case None
  then show ?thesis by (simp add: set_source_context_def)
next
  case (Some n)
  have eq: "get_context_lines c n 0 None = get_context_lines c n 0 (Some 5)"
    by (simp add: get_context_lines_def DEFAULT_CONTEXT_LINES_def)
  from context_lines_spec[OF assms(1), of n 0 5]
  obtain r where r: "get_context_lines c n 0 None = Ret r"
    and c: "let ls = read_lines c; k = n - 1 in
        case r of None \<Rightarrow> length ls \<le> k
        | Some (pre, context, post) \<Rightarrow> k < length ls
            \<and> list_all2 (\<lambda>l t. trimmed l 0 t) (drop (k - 5) (take k ls)) pre
            \<and> trimmed (ls ! k) 0 context
            \<and> list_all2 (\<lambda>l t. trimmed l 0 t) (take 5 (drop (Suc k) ls)) post"
    unfolding eq by blast
  show ?thesis
  proof (cases r)
    case None
    then show ?thesis using r c Some by (simp add: set_source_context_def Let_def)
  next
    case (Some p)
    then show ?thesis using r c \<open>fr_lineno f = Some n\<close>
      by (cases p) (simp add: set_source_context_def erase_context_def Let_def)
  qed
qed

lemma valid_link_spec:
  "valid_link pu u = Option.bind u (\<lambda>u. if take 8 u = ''https://'' \<or> take 7 u = ''http://'' then pu u else None)"
proof -
  have "starts_with v ''https://'' \<longleftrightarrow> take 8 v = ''https://''" "starts_with v ''http://'' \<longleftrightarrow> take 7 v = ''http://''" for v
    by (simp_all add: starts_with_def eval_nat_numeral)
  then show ?thesis by (simp add: valid_link_def split: option.split)
qed

lemma try_set_source_context_applied:
  assumes "get_source_descriptor ml ss f = Some d" and "\<And>c. sd_contents d = Some c \<Longrightarrow> utf8_valid c"
  shows "\<exists>f'. try_set_source_context pu ml ss f = Ret f' \<and> context_applied pu d f f'"
proof -
  define g where "g = (case valid_link pu (sd_url d) of None \<Rightarrow> f | Some u \<Rightarrow> f\<lparr>fr_source_link := Some u\<rparr>)"
  have g: "erase_context g = erase_context f" "fr_pre_context g = fr_pre_context f" "fr_context_line g = fr_context_line f"
      "fr_post_context g = fr_post_context f" "fr_lineno g = fr_lineno f"
      "fr_source_link g = (case valid_link pu (sd_url d) of Some u \<Rightarrow> Some u | None \<Rightarrow> fr_source_link f)"
    by (simp_all add: g_def erase_context_def split: option.split)
  have eq: "try_set_source_context pu ml ss f = (case sd_contents d of None \<Rightarrow> Ret g | Some text \<Rightarrow> set_source_context text g)"
    using assms(1) unfolding g_def try_set_source_context_def by (simp add: Let_def)
  show ?thesis
  proof (cases "sd_contents d")
    case None
    then show ?thesis using eq g by (simp add: context_applied_def valid_link_spec)
  next
    case (Some c)
    from set_source_context_applied[OF assms(2)[OF Some], of g]
    obtain f' where f': "set_source_context c g = Ret f'" "erase_context f' = erase_context g" "fr_source_link f' = fr_source_link g"
      and lines: "case fr_lineno g of
         Some n \<Rightarrow>
           (let ls = read_lines c; k = n - 1
             in if k < length ls
                then list_all2 (\<lambda>l t. trimmed l 0 t) (drop (k - 5) (take k ls)) (fr_pre_context f')
                   \<and> pred_option (trimmed (ls ! k) 0) (fr_context_line f') \<and> fr_context_line f' \<noteq> None
                   \<and> list_all2 (\<lambda>l t. trimmed l 0 t) (take 5 (drop (Suc k) ls)) (fr_post_context f')
                else fr_pre_context f' = fr_pre_context g \<and> fr_context_line f' = fr_context_line g
                   \<and> fr_post_context f' = fr_post_context g)
       | None \<Rightarrow> f' = g" by blast
    have "context_applied pu d f f'"
      using f'(2,3) lines Some unfolding context_applied_def g valid_link_spec by (cases "fr_lineno f") (simp_all add: g valid_link_spec)
    then show ?thesis using eq Some f'(1) by simp
  qed
qed

lemma context_found_exists:
  assumes inv: "distinct (map me_index (ml_modules ml))" "sorted_by me_addr (ml_modules ml)"
    and valid: "\<And>ob s p d c. op ob = Some s \<Longrightarrow> s p = Some d \<Longrightarrow> sd_contents d = Some c \<Longrightarrow> utf8_valid c"
  shows "\<exists>f'. try_set_source_context pu ml (prepare_debug_sessions op ml) f = Ret f' \<and> context_found op pu (ml_modules ml) f f'"
proof (cases "get_source_descriptor ml (prepare_debug_sessions op ml) f")
  case None
  then have "\<not> frame_source op (ml_modules ml) f d" for d using frame_source_found[OF inv, of op f d] by simp
  then show ?thesis using None by (simp add: try_set_source_context_def context_found_def)
next
  case (Some d)
  then have src: "frame_source op (ml_modules ml) f d" using frame_source_found[OF inv] by blast
  then have only: "d' = d" if "frame_source op (ml_modules ml) f d'" for d'
    using frame_source_found[OF inv, of op f d'] that Some by simp
  have "utf8_valid c" if "sd_contents d = Some c" for c
    using src valid that unfolding frame_source_def by blast
  from try_set_source_context_applied[OF Some this, of pu] only src show ?thesis unfolding context_found_def by blast
qed

lemma out_all_exists:
  "list_all (\<lambda>x. \<exists>y. g x = Ret y \<and> P x y) xs \<Longrightarrow> \<exists>ys. out_all (map g xs) = Ret ys \<and> list_all2 P xs ys"
proof (induction xs)
  case (Cons x xs)
  then obtain y ys where "g x = Ret y" "P x y" "out_all (map g xs) = Ret ys" "list_all2 P xs ys" by auto
  then show ?case by simp
qed simp

section \<open>Counters\<close>

lemma count_failed_counts: "bad_traces (count_failed f st m) = bad_traces m" "scanned_frames m \<le> scanned_frames (count_failed f st m)"
  "unsymbolicated_frames m \<le> unsymbolicated_frames (count_failed f st m)"
  by (cases "fr_trust f"; simp add: count_failed_def Let_def)+

lemma count_ok_counts: "bad_traces (count_ok f m) = bad_traces m" "scanned_frames m \<le> scanned_frames (count_ok f m)"
  "unsymbolicated_frames (count_ok f m) = unsymbolicated_frames m"
  by (simp_all add: count_ok_def)

lemma frames_loop_counts:
  "bad_traces (snd (frames_loop s dm k fs d m)) = bad_traces m
   \<and> scanned_frames m \<le> scanned_frames (snd (frames_loop s dm k fs d m))
   \<and> unsymbolicated_frames m \<le> unsymbolicated_frames (snd (frames_loop s dm k fs d m))"
proof (induction s dm k fs d m rule: frames_loop.induct)
  case (2 s dm k f fs d m)
  obtain r f' where r: "s f k = (r, f')" by (cases "s f k")
  show ?case
  proof (cases r)
    case (Inr frames)
    with r "2.IH"(3)[OF r[symmetric] Inr] count_ok_counts[where f = f' and m = m] show ?thesis by simp
  next
    case (Inl status)
    let ?f = "demangle_failed dm f'"
    show ?thesis
    proof (cases "drop_frame ?f status (fs = []) d")
      case True
      with r Inl "2.IH"(1)[OF r[symmetric] Inl refl True] show ?thesis by (simp add: Let_def)
    next
      case False
      from "2.IH"(2)[OF r[symmetric] Inl refl False] r Inl False
        count_failed_counts[where f = ?f and st = status and m = m] show ?thesis
        by (auto simp: Let_def)
    qed
  qed
qed simp

section \<open>Properties\<close>

text \<open>
  C7. A symbolicated trace has exactly what its frames give: only frames with the index of a frame of the
  request, in their order, and for every index exactly the frames (inlined functions share it) that the
  frame was symbolicated to, or the frame itself with the reason why not, its name demangled. A frame
  that could not be symbolicated is left out in two cases only: it was found by scanning and is
  without a symbol or an image; or it is the last one, without an image, and below a frame that is
  shown, which is a known entry point, or the address is in the first page.
\<close>

theorem frames_accounted_for:
  "let fs = cs_frames (fst (symbolicate_stacktrace T t ml m sig mem si)) in
     list_all (\<lambda>x. case sf_original_index x of None \<Rightarrow> False | Some i \<Rightarrow> i < length (rs_frames t)) fs
     \<and> sorted (map (\<lambda>x. the (sf_original_index x)) fs)
     \<and> (\<forall>i < length (rs_frames t). filter (\<lambda>x. sf_original_index x = Some i) fs =
          (let f = rs_frames t ! i;
               upper = filter (\<lambda>x. the (sf_original_index x) < i) fs
           in case symbolicate_frame T ml (rs_registers t) sig f i (adjust_for_frame f (adjust_default_for_thread t)) mem si of
                (Inr frames, _) \<Rightarrow> frames
              | (Inl status, f') \<Rightarrow>
                  if garbage f status (Suc i = length (rs_frames t)) upper then []
                  else [\<lparr>sf_status = status, sf_original_index = Some i, sf_raw = demangle_failed (tl_demangle T) f'\<rparr>]))"
proof -
  define fs where "fs = cs_frames (fst (symbolicate_stacktrace T t ml m sig mem si))"
  from frames.loop_result[of T t ml sig mem si "tl_demangle T" 0 "rs_frames t" "[]" m]
  have "list_all (\<lambda>x. \<exists>i. sf_original_index x = Some i \<and> i < length (rs_frames t)) fs"
      "sorted (map (\<lambda>x. the (sf_original_index x)) fs)"
      "\<forall>i < length (rs_frames t). filter (\<lambda>x. sf_original_index x = Some i) fs =
         shown_for (tl_demangle T) (frame_of_thread T t ml sig mem si (rs_frames t ! i) i) (rs_frames t ! i) i
           (Suc i = length (rs_frames t)) (filter (\<lambda>x. the (sf_original_index x) < i) fs)"
    unfolding fs_def trace_frames by auto
  then show ?thesis unfolding fs_def[symmetric] Let_def shown_for_def frame_of_thread_def by (auto simp: list_all_iff)
qed

text \<open>
  C36. The address a symbolicated frame reports is exact: for an absolute address in an image with
  absolute addresses, every frame that its symcache gives has the adjusted address of the
  request's frame, as an absolute address, with no wrap-around on the way through the relative one.
\<close>

theorem reported_address_exact:
  assumes "lookup_cache ml (fr_instruction_addr f) (fr_addr_mode f) = Some l"
    and "fr_addr_mode f = Abs" and "cl_cache l = Inr (SymCacheEntry s)"
    and "symbolicate_frame T ml regs sig f i adj mem si = (Inr fs, f')"
  shows "fs \<noteq> [] \<and> list_all (\<lambda>x. fr_addr_mode (sf_raw x) = Abs
      \<and> fr_instruction_addr (sf_raw x) = adjusted_address T s adj
          \<lparr>ii_addr = fr_instruction_addr f, ii_crashing = (i = 0), ii_signal = sig,
           ii_ip = (if i = 0 then Option.bind (tl_ip_register T s) regs else None)\<rparr>) fs"
proof -
  let ?a = "fr_instruction_addr f"
  let ?info = "\<lparr>ii_addr = ?a, ii_crashing = (i = 0), ii_signal = sig,
           ii_ip = (if i = 0 then Option.bind (tl_ip_register T s) regs else None)\<rparr>"
  obtain a where rel: "get_relative_caller_addr T s l regs sig i adj = Inr a"
    and fs: "symbolicate_native_frame T s l a (f\<lparr>fr_package := ro_code_file (oi_raw (cl_info l))\<rparr>) i mem si = Inr fs"
    using assms(1,3,4) by (auto simp: symbolicate_frame_def Let_def split: sum.splits)
  obtain r where r: "cl_relative l = Some r" using rel by (auto simp: get_relative_caller_addr_def split: option.splits)
  have "cl_relative l = abs_to_rel_addr (cl_info l) ?a"
    using assms(1,2) by (auto simp: lookup_cache_def)
  with r have abs: "rel_to_abs_addr (cl_info l) r = Some ?a" by (simp add: abs_rel_inverse)
  then have "abs_to_rel_addr (cl_info l) (adjusted_address T s adj ?info) = Some a"
    using rel r by (auto simp: get_relative_caller_addr_def Let_def split: option.splits)
  then have again: "rel_to_abs_addr (cl_info l) a = Some (adjusted_address T s adj ?info)" by (simp add: abs_rel_inverse)
  then have "supports_absolute_addresses (cl_info l)" by (simp add: rel_to_abs_addr_def split: if_splits)
  with again have "preferred_addr_mode l = Abs" "expose_preferred_addr l a = adjusted_address T s adj ?info"
    by (simp_all add: preferred_addr_mode_def expose_preferred_addr_def)
  with native_frame_addr[OF fs] show ?thesis by simp
qed

definition demo_location :: source_location where
  "demo_location = \<lparr>sl_line = 1, sl_file = None,
     sl_function = \<lparr>fn_name = ''main'', fn_demangle = (''main'', ''unknown''), fn_language = ''c'', fn_entry_pc = 0\<rparr>, sl_variables = []\<rparr>"

definition demo_tools :: "(nat, nat, nat) symbol_tools" where
  "demo_tools = \<lparr>tl_lookup = (\<lambda>_ _. [demo_location]), tl_ip_register = (\<lambda>_. None), tl_previous = (\<lambda>_ i. ii_addr i - 1),
     tl_aligned = (\<lambda>_. ii_addr), tl_caller = (\<lambda>_. ii_addr), tl_ppdb = (\<lambda>_ _ _. None), tl_file_name = id,
     tl_demangle = (\<lambda>_. None),
     tl_variable_tools = (\<lambda>_. \<lparr>vt_family = OtherFamily, vt_lookup_type = (\<lambda>_. None), vt_amd64_registers = [], vt_arm64_registers = []\<rparr>),
     tl_memory = (\<lambda>_. \<lparr>ma_get = (\<lambda>_ _. None), ma_big_endian = False\<rparr>)\<rparr>"

definition demo_ml :: "(nat, nat, nat) module_lookup" where
  "demo_ml = \<lparr>ml_modules = [\<lparr>me_index = 0, me_info = demo_info ''a'' 4096, me_cache = Inr (SymCacheEntry 1), me_source = Inl NotFound\<rparr>],
     ml_scope = Global, ml_sources = [], ml_original = None\<rparr>"

lemma demo_ml_lookup: "lookup_cache demo_ml 4097 Abs =
    Some \<lparr>cl_index = 0, cl_info = demo_info ''a'' 4096, cl_cache = Inr (SymCacheEntry 1), cl_relative = Some 1\<rparr>"
  using covering_module[of demo_ml 4097 "hd (ml_modules demo_ml)"]
  by (simp add: demo_ml_def lookup_cache_def covers_def me_addr_def me_size_def demo_info_def demo_raw_def abs_to_rel_addr_def
      supports_absolute_addresses_def checked_sub_def)

theorem reported_address_exact_witness:
  "\<exists>fs f'. symbolicate_frame demo_tools demo_ml Map.empty None (default_frame\<lparr>fr_instruction_addr := 4097\<rparr>) 1 AdjustYes None False = (Inr fs, f')
     \<and> fs \<noteq> [] \<and> list_all (\<lambda>x. fr_instruction_addr (sf_raw x) = 4096) fs"
proof -
  let ?f = "default_frame\<lparr>fr_instruction_addr := 4097\<rparr>"
  have l: "lookup_cache demo_ml (fr_instruction_addr ?f) (fr_addr_mode ?f) =
     Some \<lparr>cl_index = 0, cl_info = demo_info ''a'' 4096, cl_cache = Inr (SymCacheEntry 1), cl_relative = Some 1\<rparr>"
    by (simp add: demo_ml_lookup default_frame_def)
  have a: "fr_addr_mode ?f = Abs" by (simp add: default_frame_def)
  have "\<exists>fs f'. symbolicate_frame demo_tools demo_ml Map.empty None ?f 1 AdjustYes None False = (Inr fs, f')"
    by (simp add: symbolicate_frame_def demo_ml_lookup default_frame_def Let_def get_relative_caller_addr_def adjusted_address_def demo_tools_def rel_to_abs_addr_def
        supports_absolute_addresses_def demo_info_def demo_raw_def checked_add_def abs_to_rel_addr_def checked_sub_def
        symbolicate_native_frame_def)
  then obtain fs f' where s: "symbolicate_frame demo_tools demo_ml Map.empty None ?f 1 AdjustYes None False = (Inr fs, f')" by blast
  have "fr_instruction_addr ?f - 1 = 4096" by simp
  with reported_address_exact[OF l a _ s, of 1] s show ?thesis
    by (auto simp: adjusted_address_def demo_tools_def list_all_iff)
qed

text \<open>
  The order of frames is only a matter of presentation: a request with its frames caller first
  gives the same answer as the request with each trace reversed and callee first, with the
  frames of each trace of the answer reversed. The original index counts from the callee in both.
\<close>

theorem frame_order_equivalent:
  "symbolicate A (r\<lparr>nr_frame_order := CallerFirst\<rparr>) =
     map_out (\<lambda>p. p\<lparr>np_stacktraces := map reverse_complete (np_stacktraces p)\<rparr>)
       (symbolicate A (r\<lparr>nr_frame_order := CalleeFirst, nr_stacktraces := map reverse_raw (nr_stacktraces r)\<rparr>))"
proof -
  have out: "map_out g (bind_out m k) = bind_out m (\<lambda>x. map_out g (k x))" for g :: "'x \<Rightarrow> 'y" and m :: "'z outcome" and k
    by (cases m) simp_all
  have comp: "map_out g (map_out h m) = map_out (g \<circ> h) m" for g :: "'x \<Rightarrow> 'y" and h :: "'z \<Rightarrow> 'x" and m
    by (cases m) simp_all
  show ?thesis
    by (cases "nr_extract_variables r"; cases "nr_apply_source_context r"; simp add: symbolicate_def Let_def out comp o_def split_def)
qed

text \<open>
  One bad frame spoils the count: the counters are kept over all traces of a request, so that after
  the first frame that was scanned or could not be symbolicated every further trace is counted as
  bad, even if all of its own frames are fine.
\<close>

theorem bad_traces_overcounted:
  assumes "scanned_frames m > 0 \<or> unsymbolicated_frames m > 0"
  shows "bad_traces (snd (symbolicate_all (\<lambda>t m. symbolicate_stacktrace T t ml m sig mem si) ts m)) = bad_traces m + length ts"
  using assms
proof (induction ts arbitrary: m)
  case (Cons t ts)
  let ?m = "snd (symbolicate_stacktrace T t ml m sig mem si)"
  have loop: "bad_traces (snd (frames_loop s dm k fs d m)) = bad_traces m
      \<and> scanned_frames m \<le> scanned_frames (snd (frames_loop s dm k fs d m))
      \<and> unsymbolicated_frames m \<le> unsymbolicated_frames (snd (frames_loop s dm k fs d m))" for s dm k fs d and m :: stacktrace_metrics
    by (rule frames_loop_counts)
  obtain fs m1 where f: "frames_loop (frame_of_thread T t ml sig mem si) (tl_demangle T) 0 (rs_frames t) [] m = (fs, m1)"
    by (cases "frames_loop (frame_of_thread T t ml sig mem si) (tl_demangle T) 0 (rs_frames t) [] m")
  have m: "?m = count_trace fs m1"
    using f by (simp add: symbolicate_stacktrace_def frame_of_thread_def Let_def)
  from loop[of "frame_of_thread T t ml sig mem si" "tl_demangle T" 0 "rs_frames t" "[]" m] f
  have "bad_traces ?m = Suc (bad_traces m)" "scanned_frames ?m > 0 \<or> unsymbolicated_frames ?m > 0"
    unfolding m using Cons.prems by (auto simp: count_trace_def Let_def)
  with Cons.IH[of ?m] show ?case by (simp add: Let_def split_def)
qed simp

definition demo_scan_trace :: raw_stacktrace where
  "demo_scan_trace = demo_trace\<lparr>rs_frames := [default_frame\<lparr>fr_instruction_addr := 4097\<rparr>,
     default_frame\<lparr>fr_instruction_addr := 10, fr_trust := Scan\<rparr>]\<rparr>"

lemma demo_ml_outside: "lookup_cache demo_ml 10 Abs = None"
proof -
  have "get_module_by_addr demo_ml 10 Abs \<noteq> Some e" for e
    using covering_module[of demo_ml 10 e] by (auto simp: demo_ml_def covers_def me_addr_def demo_info_def demo_raw_def)
  then have "get_module_by_addr demo_ml 10 Abs = None" by (meson option.exhaust)
  then show ?thesis by (simp add: lookup_cache_def)
qed

theorem frames_accounted_for_witness:
  "let fs = cs_frames (fst (symbolicate_stacktrace demo_tools demo_scan_trace demo_ml default_metrics None None False)) in
     filter (\<lambda>x. sf_original_index x = Some 0) fs \<noteq> [] \<and> filter (\<lambda>x. sf_original_index x = Some 1) fs = []"
proof -
  define fs where "fs = cs_frames (fst (symbolicate_stacktrace demo_tools demo_scan_trace demo_ml default_metrics None None False))"
  note c = frames_accounted_for[of demo_tools demo_scan_trace demo_ml default_metrics None None False, folded fs_def, unfolded Let_def,
    THEN conjunct2, THEN conjunct2, rule_format]
  have n: "rs_frames demo_scan_trace = [default_frame\<lparr>fr_instruction_addr := 4097\<rparr>, default_frame\<lparr>fr_instruction_addr := 10, fr_trust := Scan\<rparr>]"
    by (simp add: demo_scan_trace_def)
  have "filter (\<lambda>x. sf_original_index x = Some 0) fs \<noteq> []"
    unfolding c[of 0, unfolded n, simplified]
    by (simp add: symbolicate_frame_def demo_ml_lookup default_frame_def
      get_relative_caller_addr_def adjusted_address_def demo_tools_def rel_to_abs_addr_def
      supports_absolute_addresses_def demo_info_def demo_raw_def checked_add_def abs_to_rel_addr_def checked_sub_def
      symbolicate_native_frame_def set_last_sym_addr_def adjust_default_for_thread_def adjust_for_frame_def
      demo_scan_trace_def demo_trace_def Let_def)
  moreover have "filter (\<lambda>x. sf_original_index x = Some 1) fs = []"
    using c[of 1, unfolded n, simplified]
    by (simp add: symbolicate_frame_def demo_ml_outside default_frame_def garbage_def)
  ultimately show ?thesis unfolding fs_def[symmetric] Let_def by blast
qed

lemma demo_trace_ok: "bad_traces (snd (symbolicate_stacktrace demo_tools demo_trace demo_ml default_metrics None None False)) = 0"
  by (simp add: symbolicate_stacktrace_def Let_def demo_trace_def symbolicate_frame_def demo_ml_lookup default_frame_def
      get_relative_caller_addr_def adjusted_address_def demo_tools_def rel_to_abs_addr_def adjust_default_for_thread_def adjust_for_frame_def
      supports_absolute_addresses_def demo_info_def demo_raw_def checked_add_def abs_to_rel_addr_def checked_sub_def
      symbolicate_native_frame_def count_trace_def count_ok_def default_metrics_def)

theorem bad_traces_overcounted_witness:
  "bad_traces (snd (symbolicate_stacktrace demo_tools demo_trace demo_ml default_metrics None None False)) = 0
   \<and> bad_traces (snd (symbolicate_all (\<lambda>t m. symbolicate_stacktrace demo_tools t demo_ml m None None False)
        [demo_trace, demo_trace] (default_metrics\<lparr>bad_traces := 1, scanned_frames := 1\<rparr>))) = 3"
  using demo_trace_ok bad_traces_overcounted[of "default_metrics\<lparr>bad_traces := 1, scanned_frames := 1\<rparr>" demo_tools demo_ml None None False "[demo_trace, demo_trace]"]
  by simp

text \<open>
  Demangling through the cache is demangling: whatever was asked before and whatever was evicted,
  every answer is the one of the library.
\<close>

theorem demangle_cache_transparent:
  "demangle_run lib ss Map.empty = concat (map (\<lambda>s. case s of AskName n \<Rightarrow> [(n, lib n)] | Evict _ \<Rightarrow> []) ss)"
  by (rule demangle_run_transparent) (simp add: sound_cache_def)

text \<open>
  C40. Source context is faithful: for images at different addresses and sources that are valid text,
  applying source context to a trace never panics and keeps its frames; a frame whose module has an
  object with sources that has the file of its path gets the line of the frame of this file, up to five
  lines before and up to five lines after it, each trimmed, and the link of the file; every other frame
  stays as it is, and so does everything else about a frame.
\<close>

theorem source_context_faithful:
  assumes "module_reach infos ml" and "list_all (\<lambda>o'. sorted_by cand_key (oi_candidates o')) infos"
    and "distinct (map (\<lambda>o'. ro_image_addr (oi_raw o')) infos)"
    and "\<And>ob s p d c. na_open_session A ob = Some s \<Longrightarrow> s p = Some d \<Longrightarrow> sd_contents d = Some c \<Longrightarrow> utf8_valid c"
  shows "\<exists>t'. context_trace A ml t = Ret t' \<and> t'\<lparr>cs_frames := []\<rparr> = t\<lparr>cs_frames := []\<rparr>
     \<and> list_all2 (\<lambda>f f'. sf_status f' = sf_status f \<and> sf_original_index f' = sf_original_index f
         \<and> context_found (na_open_session A) (na_parse_url A) (ml_modules ml) (sf_raw f) (sf_raw f'))
       (cs_frames t) (cs_frames t')"
proof -
  note inv = inv_distinct[OF reach_inv[OF assms(1,2)] assms(3)]
  let ?g = "\<lambda>f. map_out (\<lambda>raw. f\<lparr>sf_raw := raw\<rparr>)
      (try_set_source_context (na_parse_url A) ml (prepare_debug_sessions (na_open_session A) ml) (sf_raw f))"
  let ?P = "\<lambda>f f'. sf_status f' = sf_status f \<and> sf_original_index f' = sf_original_index f
         \<and> context_found (na_open_session A) (na_parse_url A) (ml_modules ml) (sf_raw f) (sf_raw f')"
  have "\<exists>f'. ?g f = Ret f' \<and> ?P f f'" for f
    using context_found_exists[OF inv, where op = "na_open_session A" and pu = "na_parse_url A" and f = "sf_raw f"] assms(4) by fastforce
  then obtain fs where "out_all (map ?g (cs_frames t)) = Ret fs" "list_all2 ?P (cs_frames t) fs"
    using out_all_exists[where xs = "cs_frames t" and g = ?g and P = ?P] by (auto simp: list_all_iff)
  then show ?thesis by (simp add: context_trace_def)
qed

definition demo_actor :: "(nat, nat, nat, nat) native_actor" where
  "demo_actor = \<lparr>na_tools = demo_tools, na_debug = demo_native, na_services = demo_services, na_fetch_object = (\<lambda>_ _. Inl NotFound),
     na_open_session = (\<lambda>_. Some (\<lambda>_. Some \<lparr>sd_url = None, sd_contents = Some ''int main''\<rparr>)), na_parse_url = (\<lambda>_. None)\<rparr>"

theorem source_context_faithful_witness:
  "\<exists>t'. context_trace demo_actor demo_lookup (fst (symbolicate_stacktrace demo_tools demo_trace demo_ml default_metrics None None False)) = Ret t'"
proof -
  have "is_ascii ''int main''" by (simp add: is_ascii_char_def byte_of_def)
  then have "utf8_valid ''int main''" by (rule utf8_valid_ascii)
  then have v: "utf8_valid c" if "na_open_session demo_actor ob = Some s" "s p = Some d" "sd_contents d = Some c" for ob s p d c
    using that by (auto simp: demo_actor_def)
  have h: "list_all (\<lambda>o'. sorted_by cand_key (oi_candidates o')) [demo_info ''b'' 8192, demo_info ''a'' 4096]"
    "distinct (map (\<lambda>o'. ro_image_addr (oi_raw o')) [demo_info ''b'' 8192, demo_info ''a'' 4096])"
    by (simp_all add: demo_info_def demo_raw_def)
  show ?thesis
    using source_context_faithful[OF demo_reach h, where A = demo_actor and
        t = "fst (symbolicate_stacktrace demo_tools demo_trace demo_ml default_metrics None None False)"] v by blast
qed

end
