(* ===== verification/MinidumpExtension.thy ===== *)
theory MinidumpExtension
  imports Interface ByteOrder
begin

text \<open>
  \<open>symbolication/minidump_stacktraces.rs\<close>: client-side stack traces in a custom stream of a
  minidump. The stream is a header, a table of threads, a table of frames and the bytes of the
  symbols, in the byte order of the host. Buffers are strings of bytes, sizes are 64-bit words.
  The code makes references to records and tables of records out of pointers into the stream. Such a
  reference is undefined behaviour when it leaves the stream or when its address is not a multiple of
  the alignment of the record, so a stream comes with its address in memory; undefined behaviour is a
  panic of the model. When it cannot happen is one of the properties.
\<close>

section \<open>Integers in the byte order of the host\<close>

text \<open>The field of \<open>len\<close> bytes at an offset of a record.\<close>

definition field32 :: "bool \<Rightarrow> nat \<Rightarrow> string \<Rightarrow> 32 word" where
  "field32 big off s = word_of_nat (read_native big (take 4 (drop off s)))"

definition field64 :: "bool \<Rightarrow> nat \<Rightarrow> string \<Rightarrow> 64 word" where
  "field64 big off s = word_of_nat (read_native big (take 8 (drop off s)))"

section \<open>The format\<close>

record raw_header =
  rh_version :: "32 word"
  rh_num_threads :: "32 word"
  rh_num_frames :: "32 word"
  rh_symbol_bytes :: "32 word"

record raw_thread =
  xt_thread_id :: "32 word"
  xt_start_frame :: "32 word"
  xt_num_frames :: "32 word"

record ext_frame =
  xf_instruction_addr :: "64 word"
  xf_symbol_offset :: "32 word"
  xf_symbol_len :: "32 word"

record extension_format =
  ex_threads :: "raw_thread list"
  ex_frames :: "ext_frame list"
  ex_symbol_bytes :: string

datatype extension_error =
    WrongVersion
  | HeaderTooSmall
  | BadFormatLength
  | FrameIndexOutOfBounds "32 word"
  | SymbolIndexOutOfBounds "64 word"

definition extension_error_display :: "extension_error \<Rightarrow> string" where
  "extension_error_display e = (case e of
      WrongVersion \<Rightarrow> ''wrong or outdated version''
    | HeaderTooSmall \<Rightarrow> ''header is too small''
    | BadFormatLength \<Rightarrow> ''incorrect extension length''
    | FrameIndexOutOfBounds t \<Rightarrow> ''frame index out of bounds for thread '' @ dec_nat (unat t)
    | SymbolIndexOutOfBounds a \<Rightarrow> ''symbol index out of bounds for instruction address '' @ dec_nat (unat a))"

definition minidump_format_version :: "32 word" where
  "minidump_format_version = 1"

definition align_to_eight :: "64 word \<Rightarrow> 64 word" where
  "align_to_eight to_align = (let remainder = to_align mod 8 in if remainder = 0 then remainder else 8 - remainder)"

definition size_of_header :: "64 word" where "size_of_header = 16"
definition size_of_thread :: "64 word" where "size_of_thread = 12"
definition size_of_frame :: "64 word" where "size_of_frame = 16"

definition raw_slice :: "string \<Rightarrow> 64 word \<Rightarrow> 64 word \<Rightarrow> string outcome" where
  "raw_slice buf start len =
     (if unat start + unat len \<le> length buf then Ret (take (unat len) (drop (unat start) buf)) else Panic)"

text \<open>A reference to records of some alignment, in a buffer that starts at an address.\<close>

definition raw_ref :: "nat \<Rightarrow> nat \<Rightarrow> string \<Rightarrow> 64 word \<Rightarrow> 64 word \<Rightarrow> string outcome" where
  "raw_ref addr align buf start len = (if (addr + unat start) mod align = 0 then raw_slice buf start len else Panic)"

definition align_of_header :: nat where "align_of_header = 4"
definition align_of_thread :: nat where "align_of_thread = 4"
definition align_of_frame :: nat where "align_of_frame = 8"

definition read_header :: "bool \<Rightarrow> string \<Rightarrow> raw_header" where
  "read_header big s = \<lparr>rh_version = field32 big 0 s, rh_num_threads = field32 big 4 s, rh_num_frames = field32 big 8 s,
     rh_symbol_bytes = field32 big 12 s\<rparr>"

definition read_thread :: "bool \<Rightarrow> string \<Rightarrow> raw_thread" where
  "read_thread big s = \<lparr>xt_thread_id = field32 big 0 s, xt_start_frame = field32 big 4 s, xt_num_frames = field32 big 8 s\<rparr>"

definition read_frame :: "bool \<Rightarrow> string \<Rightarrow> ext_frame" where
  "read_frame big s = \<lparr>xf_instruction_addr = field64 big 0 s, xf_symbol_offset = field32 big 8 s, xf_symbol_len = field32 big 12 s\<rparr>"

text \<open>The records of a table, each of \<open>sz\<close> bytes.\<close>

fun read_table :: "(string \<Rightarrow> 'a) \<Rightarrow> nat \<Rightarrow> nat \<Rightarrow> string \<Rightarrow> 'a list" where
  "read_table rd sz 0 s = []"
| "read_table rd sz (Suc n) s = rd (take sz s) # read_table rd sz n (drop sz s)"

definition parse_format :: "bool \<Rightarrow> nat \<Rightarrow> string \<Rightarrow> (extension_error + extension_format) outcome" where
  "parse_format big addr buf =
     (let header_size = size_of_header + align_to_eight size_of_header;
          buf_len = (word_of_nat (length buf) :: 64 word)
      in if buf_len < header_size then Ret (Inl HeaderTooSmall)
      else bind_out (raw_ref addr align_of_header buf 0 size_of_header) (\<lambda>bytes.
        let header = read_header big bytes in
        if rh_version header \<noteq> minidump_format_version then Ret (Inl WrongVersion)
        else
          let num_threads = ucast (rh_num_threads header) :: 64 word;
              threads_size = size_of_thread * num_threads;
              threads_size = threads_size + align_to_eight threads_size;
              num_frames = ucast (rh_num_frames header) :: 64 word;
              frames_size = size_of_frame * num_frames;
              frames_size = frames_size + align_to_eight frames_size;
              symbol_bytes = ucast (rh_symbol_bytes header) :: 64 word;
              expected_buf_size = header_size + threads_size + frames_size + symbol_bytes
          in if buf_len \<noteq> expected_buf_size then Ret (Inl BadFormatLength)
          else
            bind_out (raw_ref addr align_of_thread buf header_size (size_of_thread * num_threads)) (\<lambda>threads.
            bind_out (raw_ref addr align_of_frame buf (header_size + threads_size) (size_of_frame * num_frames)) (\<lambda>frames.
            map_out (\<lambda>symbols.
               Inr \<lparr>ex_threads = read_table (read_thread big) 12 (unat num_threads) threads,
                    ex_frames = read_table (read_frame big) 16 (unat num_frames) frames,
                    ex_symbol_bytes = symbols\<rparr>)
              (raw_slice buf (header_size + threads_size + frames_size) symbol_bytes)))))"

text \<open>A checked slice: \<open>None\<close> when the range is out of bounds.\<close>

definition get_slice :: "'a list \<Rightarrow> 64 word \<Rightarrow> 64 word \<Rightarrow> 'a list option" where
  "get_slice xs start end' = (if start \<le> end' \<and> unat end' \<le> length xs then Some (take (unat end' - unat start) (drop (unat start) xs)) else None)"

definition thread_frames :: "extension_format \<Rightarrow> raw_thread \<Rightarrow> extension_error + ext_frame list" where
  "thread_frames fmt t =
     (let start_frame = ucast (xt_start_frame t);
          end_frame = ucast (xt_start_frame t) + ucast (xt_num_frames t)
      in case get_slice (ex_frames fmt) start_frame end_frame of
           Some fs \<Rightarrow> Inr fs
         | None \<Rightarrow> Inl (FrameIndexOutOfBounds (xt_thread_id t)))"

definition frame_symbol :: "extension_format \<Rightarrow> ext_frame \<Rightarrow> extension_error + string" where
  "frame_symbol fmt f =
     (let start_symbol = ucast (xf_symbol_offset f);
          end_symbol = start_symbol + ucast (xf_symbol_len f)
      in case get_slice (ex_symbol_bytes fmt) start_symbol end_symbol of
           Some s \<Rightarrow> Inr s
         | None \<Rightarrow> Inl (SymbolIndexOutOfBounds (xf_instruction_addr f)))"

section \<open>Stack traces\<close>

text \<open>Collecting results stops at the first error.\<close>

fun collect_results :: "('e + 'a) list \<Rightarrow> 'e + 'a list" where
  "collect_results [] = Inr []"
| "collect_results (r # rs) = (case r of Inl e \<Rightarrow> Inl e | Inr x \<Rightarrow> map_sum id (\<lambda>xs. x # xs) (collect_results rs))"

definition raw_frame_of :: "extension_format \<Rightarrow> ext_frame \<Rightarrow> extension_error + raw_frame" where
  "raw_frame_of fmt f = map_sum id (\<lambda>symbol. default_frame\<lparr>fr_instruction_addr := xf_instruction_addr f,
       fr_function := Some (utf8_lossy symbol), fr_trust := PreWalked\<rparr>) (frame_symbol fmt f)"

definition client_stacktrace :: "64 word \<Rightarrow> raw_frame list \<Rightarrow> raw_stacktrace" where
  "client_stacktrace i frames = \<lparr>rs_thread_id = Some (unat i), rs_thread_name = None, rs_is_requesting = None,
     rs_registers = Map.empty, rs_frames = frames\<rparr>"

definition raw_stacktrace_of :: "extension_format \<Rightarrow> raw_thread \<Rightarrow> extension_error + raw_stacktrace" where
  "raw_stacktrace_of fmt t = (case thread_frames fmt t of
      Inl e \<Rightarrow> Inl e
    | Inr fs \<Rightarrow> map_sum id (client_stacktrace (ucast (xt_thread_id t))) (collect_results (map (raw_frame_of fmt) fs)))"

text \<open>What the library finds for the type of the stream: the bytes, in memory at some address.\<close>

datatype raw_stream = StreamNotFound | StreamError string | Stream nat string

datatype extract_stacktrace_error = MinidumpError string | FormatError extension_error

definition extract_error_display :: "extract_stacktrace_error \<Rightarrow> string" where
  "extract_error_display e = (case e of MinidumpError m \<Rightarrow> m | FormatError e \<Rightarrow> extension_error_display e)"

definition minidump_extension_type :: "32 word" where
  "minidump_extension_type = word_of_nat (bytes_nat (rev [CHR ''S'', CHR ''y'', CHR 0x00, CHR 0x01]))"

definition parse_stacktraces_from_raw_extension :: "bool \<Rightarrow> nat \<Rightarrow> string \<Rightarrow> (extract_stacktrace_error + extension_format) outcome" where
  "parse_stacktraces_from_raw_extension big addr buf = map_out (map_sum FormatError id) (parse_format big addr buf)"

definition parse_stacktraces_from_minidump :: "bool \<Rightarrow> (32 word \<Rightarrow> raw_stream)
    \<Rightarrow> (extract_stacktrace_error + raw_stacktrace list option) outcome" where
  "parse_stacktraces_from_minidump big get_raw_stream =
     (case get_raw_stream minidump_extension_type of
        StreamNotFound \<Rightarrow> Ret (Inr None)
      | StreamError e \<Rightarrow> Ret (Inl (MinidumpError e))
      | Stream addr buf \<Rightarrow> map_out (\<lambda>parsed. case parsed of
            Inl e \<Rightarrow> Inl e
          | Inr fmt \<Rightarrow> map_sum FormatError Some (collect_results (map (raw_stacktrace_of fmt) (ex_threads fmt))))
          (parse_stacktraces_from_raw_extension big addr buf))"

section \<open>The documented format\<close>

text \<open>
  What a client writes, by the diagrams of the module: threads with their frames, each an address
  with the bytes of its symbol. Frames and symbols are numbered through.
\<close>

type_synonym client_frame = "64 word \<times> string"
type_synonym client_thread = "32 word \<times> client_frame list"

fun frame_records :: "nat \<Rightarrow> client_frame list \<Rightarrow> ext_frame list" where
  "frame_records off [] = []"
| "frame_records off ((a, s) # fs) = \<lparr>xf_instruction_addr = a, xf_symbol_offset = word_of_nat off,
     xf_symbol_len = word_of_nat (length s)\<rparr> # frame_records (off + length s) fs"

fun thread_records :: "nat \<Rightarrow> client_thread list \<Rightarrow> raw_thread list" where
  "thread_records start [] = []"
| "thread_records start ((i, fs) # ts) = \<lparr>xt_thread_id = i, xt_start_frame = word_of_nat start,
     xt_num_frames = word_of_nat (length fs)\<rparr> # thread_records (start + length fs) ts"

definition all_frames :: "client_thread list \<Rightarrow> client_frame list" where
  "all_frames ts = concat (map snd ts)"

definition all_symbols :: "client_thread list \<Rightarrow> string" where
  "all_symbols ts = concat (map snd (all_frames ts))"

definition write_thread :: "bool \<Rightarrow> raw_thread \<Rightarrow> string" where
  "write_thread big t = concat (map (write_native big 4 \<circ> unat) [xt_thread_id t, xt_start_frame t, xt_num_frames t])"

definition write_frame :: "bool \<Rightarrow> ext_frame \<Rightarrow> string" where
  "write_frame big f = write_native big 8 (unat (xf_instruction_addr f))
     @ write_native big 4 (unat (xf_symbol_offset f)) @ write_native big 4 (unat (xf_symbol_len f))"

definition write_extension :: "bool \<Rightarrow> client_thread list \<Rightarrow> string" where
  "write_extension big ts =
     concat (map (write_native big 4) [1, length ts, length (all_frames ts), length (all_symbols ts)])
     @ concat (map (write_thread big) (thread_records 0 ts)) @ replicate (if odd (length ts) then 4 else 0) (CHR 0x00)
     @ concat (map (write_frame big) (frame_records 0 (all_frames ts))) @ all_symbols ts"

definition extension_ok :: "client_thread list \<Rightarrow> bool" where
  "extension_ok ts \<longleftrightarrow> length ts < 2 ^ 32 \<and> length (all_frames ts) < 2 ^ 32 \<and> length (all_symbols ts) < 2 ^ 32"

definition decoded_frame :: "client_frame \<Rightarrow> raw_frame" where
  "decoded_frame f = default_frame\<lparr>fr_instruction_addr := fst f, fr_function := Some (utf8_lossy (snd f)), fr_trust := PreWalked\<rparr>"

definition decoded_thread :: "client_thread \<Rightarrow> raw_stacktrace" where
  "decoded_thread t = client_stacktrace (ucast (fst t)) (map decoded_frame (snd t))"

end
