(* ===== verification/CrashReports.thy ===== *)
theory CrashReports
  imports Native MinidumpExtension
begin

text \<open>
  \<open>process_minidump.rs\<close>, \<open>apple.rs\<close> and \<open>attachments.rs\<close> of native symbolication: crash reports are
  fetched, parsed, walked and handed to the symbolication of stack traces, and what they say of
  the crash is merged into the response. The minidump and crash report libraries are parameters:
  what they read of a file, and the walk of the stacks, which asks for the unwind information of
  modules and whether an address is plausible. Properties are in \<open>CrashReportsCorrect\<close>.
\<close>

section \<open>Responses\<close>

record system_info =
  si_os_name :: string
  si_os_version :: string
  si_os_build :: string
  si_cpu_arch :: string
  si_device_model :: string

definition default_system_info :: system_info where
  "default_system_info = \<lparr>si_os_name = [], si_os_version = [], si_os_build = [], si_cpu_arch = ''unknown'', si_device_model = []\<rparr>"

text \<open>The whole response: what symbolication gives, with what is known of the crash.\<close>

record completed_native = native_response +
  nc_timestamp :: "nat option"
  nc_system_info :: "system_info option"
  nc_crashed :: "bool option"
  nc_crash_reason :: "string option"
  nc_crash_details :: "string option"
  nc_assertion :: "string option"

definition complete_response :: "native_response \<Rightarrow> completed_native" where
  "complete_response r = native_response.extend r
     (completed_native.fields None None None None None None)"

text \<open>An unknown architecture is taken from the first module that has one.\<close>

definition with_module_arch :: "native_response \<Rightarrow> system_info \<Rightarrow> system_info" where
  "with_module_arch r i =
     (if si_cpu_arch i = ''unknown''
      then i\<lparr>si_cpu_arch := (case find (\<lambda>a. a \<noteq> ''unknown'') (map oi_arch (np_modules r)) of Some a \<Rightarrow> a | None \<Rightarrow> ''unknown'')\<rparr>
      else i)"

section \<open>Attachments\<close>

datatype attachment_file = LocalFile string | RemoteAttachment string "string option"

record attachment_remote_file =
  at_url :: string
  at_token :: "string option"

text \<open>The contents of the file; \<open>tempfile\<close> is the error of making a temporary file.\<close>

definition download_attachment :: "cache_error option \<Rightarrow> (attachment_remote_file \<Rightarrow> string cache_contents) \<Rightarrow> (string \<Rightarrow> string + string)
    \<Rightarrow> attachment_file \<Rightarrow> string cache_contents" where
  "download_attachment tempfile fetch decompress f = (case f of
      LocalFile contents \<Rightarrow> Inr contents
    | RemoteAttachment storage_url storage_token \<Rightarrow>
        (case tempfile of
           Some e \<Rightarrow> Inl e
         | None \<Rightarrow> (case fetch_file (fetch \<lparr>at_url = storage_url, at_token = storage_token\<rparr>) decompress [] of
               (Inl e, _) \<Rightarrow> Inl e | (Inr (), temp) \<Rightarrow> Inr temp)))"

section \<open>Minidumps\<close>

datatype minidump_os = OsWindows | OsMacOs | OsIos | OsLinux | OsSolaris | OsAndroid | OsPs3 | OsNaCl | OsUnknown nat

datatype minidump_cpu = CpuX86 | CpuX86_64 | CpuPpc | CpuPpc64 | CpuSparc | CpuArm | CpuArm64 | CpuMips | CpuMips64 | CpuUnknown nat

datatype unwind_trust = UtNone | UtScan | UtCfiScan | UtFramePointer | UtCallFrameInfo | UtPreWalked | UtContext

fun trust_of :: "unwind_trust \<Rightarrow> frame_trust" where
  "trust_of UtNone = TrustNone"
| "trust_of UtScan = Scan"
| "trust_of UtCfiScan = CfiScan"
| "trust_of UtFramePointer = Fp"
| "trust_of UtCallFrameInfo = Cfi"
| "trust_of UtPreWalked = PreWalked"
| "trust_of UtContext = Context"

record md_module =
  mm_base :: "64 word"
  mm_size :: "64 word"
  mm_code_file :: string
  mm_debug_file :: "string option"
  mm_code_id :: "code_id_t option"
  mm_debug_id :: "debug_id_t option"

record md_frame =
  mf_resume_address :: "64 word"
  mf_module :: "md_module option"
  mf_trust :: unwind_trust
  mf_registers :: "(string \<times> 64 word) list"

record md_thread =
  mt_thread_id :: "32 word"
  mt_thread_name :: "string option"
  mt_frames :: "md_frame list"

text \<open>What the processor gives; modules are in the order of their addresses.\<close>

record process_state =
  ps_time :: nat
  ps_os :: minidump_os
  ps_os_version :: "string option"
  ps_os_build :: "string option"
  ps_cpu :: minidump_cpu
  ps_crashed :: bool
  ps_exception :: "(string \<times> 64 word) option"
  ps_assertion :: "string option"
  ps_requesting_thread :: "nat option"
  ps_threads :: "md_thread list"
  ps_modules :: "md_module list"

fun normalize_minidump_os_name :: "minidump_os \<Rightarrow> string" where
  "normalize_minidump_os_name OsWindows = ''Windows''"
| "normalize_minidump_os_name OsMacOs = ''macOS''"
| "normalize_minidump_os_name OsIos = ''iOS''"
| "normalize_minidump_os_name OsLinux = ''Linux''"
| "normalize_minidump_os_name OsSolaris = ''Solaris''"
| "normalize_minidump_os_name OsAndroid = ''Android''"
| "normalize_minidump_os_name OsPs3 = ''PS3''"
| "normalize_minidump_os_name OsNaCl = ''NaCl''"
| "normalize_minidump_os_name (OsUnknown _) = []"

fun arch_of_cpu :: "minidump_cpu \<Rightarrow> string" where
  "arch_of_cpu CpuX86 = ''x86''"
| "arch_of_cpu CpuX86_64 = ''x86_64''"
| "arch_of_cpu CpuPpc = ''ppc''"
| "arch_of_cpu CpuPpc64 = ''ppc64''"
| "arch_of_cpu CpuArm = ''arm''"
| "arch_of_cpu CpuArm64 = ''arm64''"
| "arch_of_cpu CpuMips = ''mips''"
| "arch_of_cpu CpuMips64 = ''mips64''"
| "arch_of_cpu _ = ''unknown''"

fun object_type_of_os :: "minidump_os \<Rightarrow> object_type" where
  "object_type_of_os OsWindows = object_type.Pe"
| "object_type_of_os OsMacOs = Macho"
| "object_type_of_os OsIos = Macho"
| "object_type_of_os OsLinux = Elf"
| "object_type_of_os OsSolaris = Elf"
| "object_type_of_os OsAndroid = Elf"
| "object_type_of_os _ = Unknown"

definition opt_string :: "string option \<Rightarrow> string" where
  "opt_string s = (case s of Some s \<Rightarrow> s | None \<Rightarrow> [])"

record minidump_state =
  ms_timestamp :: nat
  ms_system_info :: system_info
  ms_crashed :: bool
  ms_crash_reason :: string
  ms_assertion :: string

definition from_process_state :: "process_state \<Rightarrow> minidump_state" where
  "from_process_state p =
     \<lparr>ms_timestamp = ps_time p,
      ms_system_info = \<lparr>si_os_name = normalize_minidump_os_name (ps_os p), si_os_version = opt_string (ps_os_version p),
         si_os_build = opt_string (ps_os_build p), si_cpu_arch = arch_of_cpu (ps_cpu p), si_device_model = []\<rparr>,
      ms_crashed = ps_crashed p,
      ms_crash_reason = (case ps_exception p of Some (reason, address) \<Rightarrow> reason @ '' / '' @ hex_display address | None \<Rightarrow> []),
      ms_assertion = opt_string (ps_assertion p)\<rparr>"

definition merge_minidump_state :: "minidump_state \<Rightarrow> completed_native \<Rightarrow> completed_native" where
  "merge_minidump_state st r =
     r\<lparr>nc_timestamp := Some (ms_timestamp st),
       nc_system_info := Some (with_module_arch (native_response.truncate r) (ms_system_info st)),
       nc_crashed := Some (ms_crashed st),
       nc_crash_reason := Some (ms_crash_reason st),
       nc_assertion := Some (ms_assertion st)\<rparr>"

definition non_empty_file_name :: "string \<Rightarrow> string option" where
  "non_empty_file_name file_name = (if file_name = [] then None else Some file_name)"

section \<open>The symbol provider\<close>

type_synonym lookup_key = "64 word \<times> 64 word"

definition lookup_key_new :: "md_module \<Rightarrow> lookup_key" where
  "lookup_key_new m = (mm_base m, mm_size m)"

text \<open>
  Unwind information: the CFI of a file may be empty and covers some addresses. The provider keeps
  the CFI it has fetched. Concurrent requests for one module wait for the first, so the cache is a
  map of fetched entries.
\<close>

record ('f, 's) symbol_provider =
  sp_scope :: scope
  sp_sources :: "source_config list"
  sp_object_type :: object_type
  sp_cficaches :: "(object_type \<times> object_id, 'f cfi_item) fetcher"
  sp_symcaches :: "(object_type \<times> object_id \<times> bool, 's) fetcher"
  sp_cfi_empty :: "'f \<Rightarrow> bool"
  sp_cfi_covers :: "'f \<Rightarrow> 64 word \<Rightarrow> bool"
  sp_symcache_covers :: "'s \<Rightarrow> 64 word \<Rightarrow> bool"
  sp_first_module_debug_id :: "debug_id_t option"
  sp_rewrite_first_module :: "rewrite_rule list"
  sp_extract_variables :: bool

type_synonym 'f loaded_cfi = "lookup_key \<rightharpoonup> 'f cfi_item derived_cache"

definition object_id_from_module :: "('f, 's) symbol_provider \<Rightarrow> md_module \<Rightarrow> object_id" where
  "object_id_from_module P m =
     (let debug_file = Option.bind (mm_debug_file m) non_empty_file_name;
          debug_file = (if mm_debug_id m = sp_first_module_debug_id P
                        then (case Option.bind debug_file (rewrite (sp_rewrite_first_module P)) of Some new \<Rightarrow> Some new | None \<Rightarrow> debug_file)
                        else debug_file)
      in \<lparr>code_id = mm_code_id m, code_file = non_empty_file_name (mm_code_file m), debug_id = mm_debug_id m,
          debug_file = debug_file, debug_checksum = None, object_type = sp_object_type P\<rparr>)"

definition load_cfi_module :: "('f, 's) symbol_provider \<Rightarrow> md_module \<Rightarrow> 'f loaded_cfi \<Rightarrow> ('f cfi_item derived_cache \<times> 'f loaded_cfi) outcome" where
  "load_cfi_module P m loaded =
     (case loaded (lookup_key_new m) of
        Some c \<Rightarrow> Ret (c, loaded)
      | None \<Rightarrow> map_out (\<lambda>c. (c, loaded(lookup_key_new m \<mapsto> c)))
          (sp_cficaches P (sp_object_type P, object_id_from_module P m) (sp_scope P) (sp_sources P)))"

definition load_symcache :: "('f, 's) symbol_provider \<Rightarrow> md_module \<Rightarrow> 's derived_cache outcome" where
  "load_symcache P m = sp_symcaches P (sp_object_type P, object_id_from_module P m, sp_extract_variables P) (sp_scope P) (sp_sources P)"

text \<open>False when unwind information, or debug information, is there and does not cover the address.\<close>

definition check_frame_by_cfi :: "('f, 's) symbol_provider \<Rightarrow> md_module \<Rightarrow> 64 word \<Rightarrow> 'f loaded_cfi \<Rightarrow> (bool \<times> 'f loaded_cfi) outcome" where
  "check_frame_by_cfi P m instruction loaded =
     map_out (\<lambda>(c, loaded). (case dc_cache c of
          Inr (Some (f, _)) \<Rightarrow> \<not> (\<not> sp_cfi_empty P f \<and> \<not> sp_cfi_covers P f (instruction - mm_base m))
        | _ \<Rightarrow> True, loaded))
       (load_cfi_module P m loaded)"

definition check_frame_by_symbol_info :: "('f, 's) symbol_provider \<Rightarrow> md_module \<Rightarrow> 64 word \<Rightarrow> bool outcome" where
  "check_frame_by_symbol_info P m instruction =
     map_out (\<lambda>c. case dc_cache c of Inr s \<Rightarrow> sp_symcache_covers P s (instruction - mm_base m) | Inl _ \<Rightarrow> True) (load_symcache P m)"

text \<open>True: the frame is rejected, which the code says with an \<open>Ok\<close> that names no symbol.\<close>

definition fill_symbol :: "('f, 's) symbol_provider \<Rightarrow> md_module \<Rightarrow> 64 word \<Rightarrow> 'f loaded_cfi \<Rightarrow> (bool \<times> 'f loaded_cfi) outcome" where
  "fill_symbol P m instruction loaded =
     bind_out (check_frame_by_cfi P m instruction loaded) (\<lambda>(ok, loaded).
       if ok then Ret (False, loaded)
       else map_out (\<lambda>ok. (\<not> ok, loaded)) (check_frame_by_symbol_info P m instruction))"

section \<open>Walking the stacks\<close>

definition object_info_from_minidump_module :: "externals \<Rightarrow> id_externals \<Rightarrow> (code_id_t \<Rightarrow> bool) \<Rightarrow> object_type \<Rightarrow> md_module \<Rightarrow> object_info" where
  "object_info_from_minidump_module X I code_id_nil oty m =
     object_info_from_raw I
       \<lparr>ro_type = oty,
        ro_code_id = (case mm_code_id m of Some c \<Rightarrow> if code_id_nil c then None else Some (unicode_lower X (code_id_to_string I c)) | None \<Rightarrow> None),
        ro_code_file = non_empty_file_name (mm_code_file m),
        ro_debug_id = map_option (breakpad X) (mm_debug_id m),
        ro_debug_file = Option.bind (mm_debug_file m) non_empty_file_name,
        ro_debug_checksum = None,
        ro_image_addr = mm_base m,
        ro_image_size = (if mm_size m = 0 then None else Some (mm_size m))\<rparr>"

definition map_symbolic_registers :: "(string \<times> 64 word) list \<Rightarrow> registers" where
  "map_symbolic_registers regs = map_of (rev regs)"

definition walked_frame :: "md_frame \<Rightarrow> raw_frame" where
  "walked_frame f = default_frame\<lparr>fr_instruction_addr := mf_resume_address f,
     fr_package := Option.bind (mf_module f) (\<lambda>m. non_empty_file_name (mm_code_file m)),
     fr_trust := trust_of (mf_trust f), fr_registers := map_symbolic_registers (mf_registers f)\<rparr>"

definition walked_thread :: "nat option \<Rightarrow> nat \<times> md_thread \<Rightarrow> raw_stacktrace" where
  "walked_thread requesting_thread_index x = (case x of (index, t) \<Rightarrow>
     \<lparr>rs_thread_id = Some (unat (mt_thread_id t)), rs_thread_name = mt_thread_name t,
      rs_is_requesting = map_option (\<lambda>r. r = index) requesting_thread_index,
      rs_registers = (case mt_frames t of f # _ \<Rightarrow> map_symbolic_registers (mf_registers f) | [] \<Rightarrow> Map.empty),
      rs_frames = map walked_frame (take 256 (mt_frames t))\<rparr>)"

definition maybe_backfill_debugid :: "id_externals \<Rightarrow> debug_id_t \<times> string \<Rightarrow> raw_object_info \<Rightarrow> raw_object_info" where
  "maybe_backfill_debugid I c raw =
     (let raw = (if ro_debug_id raw = None then raw\<lparr>ro_debug_id := Some (debug_id_to_string I (fst c))\<rparr> else raw)
      in if ro_debug_file raw = None then raw\<lparr>ro_debug_file := Some (snd c)\<rparr> else raw)"

definition walked_module :: "externals \<Rightarrow> id_externals \<Rightarrow> (code_id_t \<Rightarrow> bool) \<Rightarrow> object_type \<Rightarrow> md_module \<Rightarrow> 'f cfi_item derived_cache option \<Rightarrow> object_info" where
  "walked_module X I code_id_nil oty m cfi =
     (let obj_info = object_info_from_minidump_module X I code_id_nil oty m in
      case cfi of
        Some c \<Rightarrow> obj_info\<lparr>oi_features := merge_features (oi_features obj_info) (dc_features c),
            oi_candidates := dc_candidates c,
            oi_raw := (case dc_cache c of Inr (Some (_, Some i)) \<Rightarrow> maybe_backfill_debugid I i (oi_raw obj_info) | _ \<Rightarrow> oi_raw obj_info),
            oi_unwind_status := Some (status_from_contents (dc_cache c))\<rparr>
      | None \<Rightarrow> obj_info\<lparr>oi_unwind_status := Some StUnused\<rparr>)"

text \<open>Every entry goes to the first module with its address and size; modules without any id are left out unless used.\<close>

fun walked_modules :: "externals \<Rightarrow> id_externals \<Rightarrow> (code_id_t \<Rightarrow> bool) \<Rightarrow> object_type \<Rightarrow> md_module list \<Rightarrow> 'f loaded_cfi \<Rightarrow> object_info list" where
  "walked_modules X I code_id_nil oty [] loaded = []"
| "walked_modules X I code_id_nil oty (m # ms) loaded =
     (if loaded (lookup_key_new m) = None \<and> mm_debug_id m = None \<and> mm_code_id m = None
      then walked_modules X I code_id_nil oty ms loaded
      else walked_module X I code_id_nil oty m (loaded (lookup_key_new m)) # walked_modules X I code_id_nil oty ms (loaded(lookup_key_new m := None)))"

text \<open>
  What the minidump library reads: the operating system, the module list, the raw streams, its
  byte order, the text of its error, when a code id is nil, and the walk. The walk asks the provider and says what it found, with the CFI that was loaded.
\<close>

record ('m, 'f) minidump_lib =
  ml_read :: "string \<Rightarrow> string + 'm"
  ml_os :: "'m \<Rightarrow> minidump_os option"
  ml_module_list :: "'m \<Rightarrow> md_module list option"
  ml_raw_stream :: "'m \<Rightarrow> 32 word \<Rightarrow> raw_stream"
  ml_big_endian :: bool
  ml_missing_system_info :: string
  ml_code_id_nil :: "code_id_t \<Rightarrow> bool"
  ml_process :: "'m \<Rightarrow> (md_module \<Rightarrow> 64 word \<Rightarrow> 'f loaded_cfi \<Rightarrow> (bool \<times> 'f loaded_cfi) outcome)
     \<Rightarrow> (md_module \<Rightarrow> 'f loaded_cfi \<Rightarrow> ('f cfi_item derived_cache \<times> 'f loaded_cfi) outcome)
     \<Rightarrow> (string + process_state \<times> 'f loaded_cfi) outcome"

record process_minidump =
  pm_platform :: "platform option"
  pm_scope :: scope
  pm_minidump_file :: attachment_file
  pm_sources :: "source_config list"
  pm_rewrite_first_module :: "rewrite_rule list"
  pm_extract_variables :: bool
  pm_apply_source_server_info :: bool

definition stackwalk :: "externals \<Rightarrow> id_externals \<Rightarrow> ('m, 'f) minidump_lib \<Rightarrow> ('f, 's) symbol_provider \<Rightarrow> 'm
    \<Rightarrow> (string + object_info list \<times> raw_stacktrace list \<times> minidump_state) outcome" where
  "stackwalk X I L P0 dump =
     (case ml_os L dump of
        None \<Rightarrow> Ret (Inl (ml_missing_system_info L))
      | Some os \<Rightarrow>
          let oty = object_type_of_os os;
              first_module_debug_id = Option.bind (ml_module_list L dump) (\<lambda>ms. case ms of m # _ \<Rightarrow> mm_debug_id m | [] \<Rightarrow> None);
              P = P0\<lparr>sp_object_type := oty, sp_first_module_debug_id := first_module_debug_id\<rparr>
          in map_out (\<lambda>r. case r of
               Inl e \<Rightarrow> Inl e
             | Inr (ps, loaded) \<Rightarrow>
                 Inr (walked_modules X I (ml_code_id_nil L) oty (ps_modules ps) loaded,
                      map (walked_thread (ps_requesting_thread ps)) (enumerate 0 (ps_threads ps)),
                      from_process_state ps))
             (ml_process L dump (fill_symbol P) (load_cfi_module P)))"

section \<open>Client-side stack traces\<close>

definition client_traces_by_id :: "raw_stacktrace list \<Rightarrow> nat \<rightharpoonup> raw_stacktrace" where
  "client_traces_by_id ts = map_of (rev (List.map_filter (\<lambda>t. map_option (\<lambda>i. (i, t)) (rs_thread_id t)) ts))"

fun merge_traces :: "raw_stacktrace list \<Rightarrow> (nat \<rightharpoonup> raw_stacktrace) \<Rightarrow> raw_stacktrace list" where
  "merge_traces [] by_id = []"
| "merge_traces (t # ts) by_id =
     (case Option.bind (rs_thread_id t) by_id of
        Some c \<Rightarrow> (if rs_frames c \<noteq> [] then t\<lparr>rs_frames := rs_frames c\<rparr> else t) # merge_traces ts (by_id(the (rs_thread_id t) := None))
      | None \<Rightarrow> t # merge_traces ts by_id)"

definition merge_clientside_with_processed_stacktraces :: "raw_stacktrace list \<Rightarrow> raw_stacktrace list \<Rightarrow> raw_stacktrace list" where
  "merge_clientside_with_processed_stacktraces processed clientside = merge_traces processed (client_traces_by_id clientside)"

record ('s, 'p, 'o, 'm, 'f) crash_actor =
  ca_native :: "('s, 'p, 'o, 'm) native_actor"
  ca_minidump :: "('m, 'f) minidump_lib"
  ca_provider :: "('f, 's) symbol_provider"
  ca_tempfile :: "cache_error option"
  ca_fetch :: "attachment_remote_file \<Rightarrow> string cache_contents"
  ca_decompress :: "string \<Rightarrow> string + string"

definition fetch_attachment :: "('s, 'p, 'o, 'm, 'f) crash_actor \<Rightarrow> attachment_file \<Rightarrow> string + string" where
  "fetch_attachment A f = map_sum (error_to_string (sv_durations (na_services (ca_native A)))) id
     (download_attachment (ca_tempfile A) (ca_fetch A) (ca_decompress A) f)"

definition minidump_request :: "process_minidump \<Rightarrow> object_info list \<Rightarrow> raw_stacktrace list \<Rightarrow> 'm \<Rightarrow> 'm native_request" where
  "minidump_request req modules stacktraces dump =
     \<lparr>nr_stacktraces = stacktraces, nr_sources = pm_sources req, nr_scope = pm_scope req, nr_signal = None, nr_modules = modules,
      nr_apply_source_context = True, nr_rewrite_first_module = pm_rewrite_first_module req, nr_frame_order = CalleeFirst,
      nr_extract_variables = pm_extract_variables req, nr_memory = Some dump,
      nr_apply_source_server_info = pm_apply_source_server_info req\<rparr>"

definition stackwalk_minidump :: "('s, 'p, 'o, 'm, 'f) crash_actor \<Rightarrow> process_minidump
    \<Rightarrow> (string + 'm native_request \<times> minidump_state) outcome" where
  "stackwalk_minidump A req =
     (case fetch_attachment A (pm_minidump_file req) of
        Inl e \<Rightarrow> Ret (Inl e)
      | Inr contents \<Rightarrow>
     (case ml_read (ca_minidump A) contents of
        Inl e \<Rightarrow> Ret (Inl e)
      | Inr dump \<Rightarrow>
          bind_out (stackwalk (sv_ext (na_services (ca_native A))) (ds_ids (na_debug (ca_native A))) (ca_minidump A)
              ((ca_provider A)\<lparr>sp_scope := pm_scope req, sp_sources := pm_sources req,
                 sp_rewrite_first_module := pm_rewrite_first_module req, sp_extract_variables := pm_extract_variables req\<rparr>) dump)
            (\<lambda>r. case r of
               Inl e \<Rightarrow> Ret (Inl e)
             | Inr (modules, stacktraces, st) \<Rightarrow>
                 map_out (\<lambda>c. Inr (minidump_request req modules
                     (case c of Inr (Some client) \<Rightarrow> merge_clientside_with_processed_stacktraces stacktraces client | _ \<Rightarrow> stacktraces) dump, st))
                   (parse_stacktraces_from_minidump (ml_big_endian (ca_minidump A)) (ml_raw_stream (ca_minidump A) dump)))))"

definition process_minidump_file :: "('s, 'p, 'o, 'm, 'f) crash_actor \<Rightarrow> process_minidump \<Rightarrow> (string + completed_native) outcome" where
  "process_minidump_file A req =
     bind_out (stackwalk_minidump A req) (\<lambda>r. case r of
         Inl e \<Rightarrow> Ret (Inl e)
       | Inr (request, st) \<Rightarrow> map_out (\<lambda>resp. Inr (merge_minidump_state st (complete_response resp))) (symbolicate (ca_native A) request))"

section \<open>Apple crash reports\<close>

record apple_image =
  ai_uuid :: uuid
  ai_path :: string
  ai_addr :: "64 word"
  ai_size :: "64 word"

record apple_thread =
  ath_id :: nat
  ath_name :: "string option"
  ath_crashed :: bool
  ath_registers :: "(string \<times> 64 word) list option"
  ath_frames :: "(64 word \<times> string option) list"

record apple_report =
  ar_timestamp :: "nat option"
  ar_code_type :: "string option"
  ar_images :: "apple_image list"
  ar_threads :: "apple_thread list"
  ar_metadata :: "string \<rightharpoonup> string"
  ar_application_info :: "string option"

text \<open>
  The parser of the reports, the names of architectures, the two named groups of the regular
  expression for the name of macOS, and the printed forms of the ids of an image.
\<close>

record apple_lib =
  al_parse :: "string \<Rightarrow> string + apple_report"
  al_arch :: "string \<Rightarrow> string option"
  al_macos :: "string \<Rightarrow> (string option \<times> string option) option"
  al_code_id :: "uuid \<Rightarrow> string"
  al_debug_id :: "uuid \<Rightarrow> string"

record apple_state =
  aps_timestamp :: "nat option"
  aps_system_info :: system_info
  aps_crash_reason :: "string option"
  aps_crash_details :: "string option"

definition map_apple_binary_image :: "id_externals \<Rightarrow> apple_lib \<Rightarrow> apple_image \<Rightarrow> object_info" where
  "map_apple_binary_image I L im = object_info_from_raw I
     \<lparr>ro_type = Macho, ro_code_id = Some (al_code_id L (ai_uuid im)), ro_code_file = Some (ai_path im),
      ro_debug_id = Some (al_debug_id L (ai_uuid im)), ro_debug_file = Some (ai_path im), ro_debug_checksum = None,
      ro_image_addr = ai_addr im, ro_image_size = (if ai_size im = 0 then None else Some (ai_size im))\<rparr>"

definition apple_stacktrace :: "apple_thread \<Rightarrow> raw_stacktrace" where
  "apple_stacktrace t =
     \<lparr>rs_thread_id = Some (ath_id t), rs_thread_name = ath_name t, rs_is_requesting = Some (ath_crashed t),
      rs_registers = map_symbolic_registers (case ath_registers t of Some r \<Rightarrow> r | None \<Rightarrow> []),
      rs_frames = map (\<lambda>(a, m). default_frame\<lparr>fr_instruction_addr := a, fr_package := m\<rparr>) (ath_frames t)\<rparr>"

definition or_option :: "'a option \<Rightarrow> 'a option \<Rightarrow> 'a option" where
  "or_option a b = (case a of Some x \<Rightarrow> Some x | None \<Rightarrow> b)"

definition apple_system_info :: "apple_lib \<Rightarrow> string \<Rightarrow> apple_report \<Rightarrow> system_info" where
  "apple_system_info L arch r =
     (let i = default_system_info\<lparr>si_os_name := opt_string (ar_metadata r ''OS Version''),
                si_device_model := opt_string (ar_metadata r ''Hardware Model''), si_cpu_arch := arch\<rparr>
      in case al_macos L (si_os_name i) of
           Some (version, build) \<Rightarrow> i\<lparr>si_os_version := opt_string version, si_os_build := opt_string build, si_os_name := ''macOS''\<rparr>
         | None \<Rightarrow> i)"

definition parse_apple_crash_report :: "id_externals \<Rightarrow> apple_lib \<Rightarrow> scope \<Rightarrow> source_config list \<Rightarrow> bool \<Rightarrow> string
    \<Rightarrow> string + ('m native_request \<times> apple_state)" where
  "parse_apple_crash_report I L sc sources extract_variables contents =
     (case al_parse L contents of
        Inl _ \<Rightarrow> Inl ''failed to parse apple crash report''
      | Inr r \<Rightarrow>
          let arch = (case Option.bind (ar_code_type r) (\<lambda>t. al_arch L (hd (split_on (CHR '' '') t))) of Some a \<Rightarrow> a | None \<Rightarrow> ''unknown'')
          in Inr (\<lparr>nr_stacktraces = map apple_stacktrace (ar_threads r), nr_sources = sources, nr_scope = sc, nr_signal = None,
                nr_modules = map (map_apple_binary_image I L) (ar_images r), nr_apply_source_context = True,
                nr_rewrite_first_module = [], nr_frame_order = CalleeFirst, nr_extract_variables = extract_variables,
                nr_memory = None, nr_apply_source_server_info = False\<rparr>,
              \<lparr>aps_timestamp = ar_timestamp r, aps_system_info = apple_system_info L arch r,
               aps_crash_reason = ar_metadata r ''Exception Type'',
               aps_crash_details = or_option (ar_application_info r) (or_option (ar_metadata r ''Exception Message'')
                  (or_option (ar_metadata r ''Exception Subtype'') (ar_metadata r ''Exception Codes'')))\<rparr>))"

definition merge_apple_state :: "apple_state \<Rightarrow> completed_native \<Rightarrow> completed_native" where
  "merge_apple_state st r =
     r\<lparr>nc_timestamp := aps_timestamp st,
       nc_system_info := Some (with_module_arch (native_response.truncate r) (aps_system_info st)),
       nc_crash_reason := aps_crash_reason st,
       nc_crash_details := aps_crash_details st,
       nc_crashed := Some True\<rparr>"

definition process_apple_crash_report :: "('s, 'p, 'o, 'm, 'f) crash_actor \<Rightarrow> apple_lib \<Rightarrow> scope \<Rightarrow> attachment_file
    \<Rightarrow> source_config list \<Rightarrow> bool \<Rightarrow> (string + completed_native) outcome" where
  "process_apple_crash_report A L sc report sources extract_variables =
     (case fetch_attachment A report of
        Inl e \<Rightarrow> Ret (Inl e)
      | Inr contents \<Rightarrow>
     (case parse_apple_crash_report (ds_ids (na_debug (ca_native A))) L sc sources extract_variables contents of
        Inl e \<Rightarrow> Ret (Inl e)
      | Inr (request, st) \<Rightarrow>
          map_out (\<lambda>resp. Inr (merge_apple_state st (complete_response resp))) (symbolicate (ca_native A) request)))"

end
