(* ===== verification/Requests.thy ===== *)
theory Requests
  imports CrashReports JsSymbolication Proguard Defer
begin

text \<open>
  \<open>symbolicator/src/service.rs\<close>: the request service. A request is accepted or rejected by the
  counter of requests in flight; an accepted one is a task that runs the symbolication under a
  timeout, sends its response through a channel, keeps the channel for clients to poll, and then
  removes it. Here are the data, the operations of the service and of its tasks, and the events
  that interleave them. The properties are in \<open>RequestsCorrect\<close>.

  Time is in milliseconds of one clock. A task carries the outcome of its future: what the
  symbolication returns, an error text, or a panic. When the future becomes ready, and whether
  it does before the timeout, is up to the events.
\<close>

section \<open>Data\<close>

type_synonym request_id = uuid

datatype completed_response =
    NativeResponse completed_native
  | JsResponse js_response
  | JvmResponse jvm_response

datatype symbolication_response =
    RespPending request_id nat
  | RespCompleted completed_response
  | RespFailed string
  | RespTimeout
  | RespInternalError

definition response_status :: "symbolication_response \<Rightarrow> string" where
  "response_status r = (case r of
      RespPending _ _ \<Rightarrow> ''pending''
    | RespCompleted _ \<Rightarrow> ''completed''
    | RespFailed _ \<Rightarrow> ''failed''
    | RespTimeout \<Rightarrow> ''timeout''
    | RespInternalError \<Rightarrow> ''internal_error'')"

text \<open>A request id that does not parse is the nil UUID.\<close>

definition request_id_deserialize :: "(string \<Rightarrow> uuid option) \<Rightarrow> string \<Rightarrow> request_id" where
  "request_id_deserialize parse_uuid t = (case parse_uuid t of Some u \<Rightarrow> u | None \<Rightarrow> replicate 16 0)"

record request_options =
  op_dif_candidates :: bool
  op_apply_source_context :: bool
  op_frame_order :: frame_order
  op_extract_variables :: bool
  op_apply_source_server_info :: bool

definition default_options :: request_options where
  "default_options = \<lparr>op_dif_candidates = False, op_apply_source_context = True, op_frame_order = CalleeFirst,
     op_extract_variables = False, op_apply_source_server_info = False\<rparr>"

definition clear_dif_candidates :: "completed_native \<Rightarrow> completed_native" where
  "clear_dif_candidates r = r\<lparr>np_modules := map (\<lambda>m. m\<lparr>oi_candidates := []\<rparr>) (np_modules r)\<rparr>"

text \<open>What a future ends with: a result whose error is its text, or a panic.\<close>

type_synonym job = "(string + completed_response) outcome"

text \<open>
  The state of a one-shot channel: nothing sent, the response with the instant it was sent, or
  the sender dropped without sending.
\<close>

datatype channel = Waiting | Sent nat symbolication_response | Canceled

datatype phase = Queued | Running nat | Lingering nat

record request_task =
  rt_id :: request_id
  rt_channel :: nat
  rt_name :: string
  rt_options :: request_options
  rt_job :: job
  rt_current :: token
  rt_phase :: phase

record request_poller =
  po_id :: request_id
  po_channel :: nat
  po_deadline :: "nat option"

text \<open>
  The service with its clients. \<open>rq_requests\<close> is the map of the service from ids to the receiving
  end of a channel, an index into \<open>rq_channels\<close>; \<open>rq_submitted\<close> records what was accepted, in the
  order of the channels. The last fields are the counters the service reports and what the clients
  were answered, the latest first.
\<close>

record request_service =
  rq_now :: nat
  rq_current :: max_defer_counter
  rq_requests :: "request_id \<rightharpoonup> nat"
  rq_channels :: "channel list"
  rq_submitted :: "(request_id \<times> request_options \<times> job) list"
  rq_tasks :: "request_task list"
  rq_pollers :: "request_poller list"
  rq_accepted :: nat
  rq_rejected :: nat
  rq_processed :: nat
  rq_panicked :: nat
  rq_unknown :: nat
  rq_replies :: "(request_id \<times> symbolication_response option) list"

definition service_create :: "usize option \<Rightarrow> request_service" where
  "service_create max_concurrent_requests =
     \<lparr>rq_now = 0, rq_current = max_counter_new max_concurrent_requests, rq_requests = (\<lambda>_. None),
      rq_channels = [], rq_submitted = [], rq_tasks = [], rq_pollers = [],
      rq_accepted = 0, rq_rejected = 0, rq_processed = 0, rq_panicked = 0, rq_unknown = 0, rq_replies = []\<rparr>"

section \<open>Creating a request\<close>

datatype max_requests_error = MaxRequestsError

definition symbolication_timeout :: nat where
  "symbolication_timeout = 15 * 60 * 1000"

definition max_poll_delay :: nat where
  "max_poll_delay = 90 * 1000"

definition create_symbolication_request :: "request_id \<Rightarrow> string \<Rightarrow> request_options \<Rightarrow> job \<Rightarrow> request_service
    \<Rightarrow> (max_requests_error + request_id) \<times> request_service" where
  "create_symbolication_request i task_name options f s =
     (case max_try_incr (rq_current s) of
        None \<Rightarrow> (Inl MaxRequestsError, s\<lparr>rq_rejected := rq_rejected s + 1\<rparr>)
      | Some (current_request, c) \<Rightarrow>
          (Inr i, s\<lparr>rq_current := c,
             rq_accepted := rq_accepted s + 1,
             rq_requests := (rq_requests s)(i \<mapsto> length (rq_channels s)),
             rq_channels := rq_channels s @ [Waiting],
             rq_submitted := rq_submitted s @ [(i, options, f)],
             rq_tasks := rq_tasks s @ [\<lparr>rt_id = i, rt_channel = length (rq_channels s), rt_name = task_name,
                rt_options = options, rt_job = f, rt_current = current_request, rt_phase = Queued\<rparr>]\<rparr>))"

section \<open>The task of a request\<close>

text \<open>The first poll starts the timeout.\<close>

definition start_task :: "nat \<Rightarrow> request_service \<Rightarrow> request_service" where
  "start_task k s = s\<lparr>rq_tasks := (rq_tasks s)[k := (rq_tasks s ! k)\<lparr>rt_phase := Running (rq_now s + symbolication_timeout)\<rparr>]\<rparr>"

text \<open>The response to send: of the result of the future, or of its timeout.\<close>

definition task_response :: "request_options \<Rightarrow> (string + completed_response) option \<Rightarrow> symbolication_response" where
  "task_response options r = (case r of
      Some (Inr response) \<Rightarrow>
        RespCompleted (case response of
          NativeResponse res \<Rightarrow> if op_dif_candidates options then response else NativeResponse (clear_dif_candidates res)
        | _ \<Rightarrow> response)
    | Some (Inl err) \<Rightarrow> RespFailed err
    | None \<Rightarrow> RespTimeout)"

text \<open>The end of the future: send, stop counting the request, and keep its channel for a while.\<close>

definition complete_task :: "bool \<Rightarrow> nat \<Rightarrow> (string + completed_response) option \<Rightarrow> request_service \<Rightarrow> request_service outcome" where
  "complete_task debug k r s =
     (let t = rq_tasks s ! k in
      map_out (\<lambda>(token, c).
          s\<lparr>rq_channels := (rq_channels s)[rt_channel t := Sent (rq_now s) (task_response (rt_options t) r)],
            rq_current := c,
            rq_processed := rq_processed s + 1,
            rq_tasks := (rq_tasks s)[k := t\<lparr>rt_current := token, rt_phase := Lingering (rq_now s + max_poll_delay)\<rparr>]\<rparr>)
        (max_drop_token debug (rt_current t) (rq_current s)))"

text \<open>
  A task that ends drops what it holds: the sender, its token of the counter, and the guard that
  removes the id from the map.
\<close>

definition remove_task :: "nat \<Rightarrow> request_service \<Rightarrow> request_service" where
  "remove_task k s = s\<lparr>rq_requests := (rq_requests s)(rt_id (rq_tasks s ! k) := None),
     rq_tasks := take k (rq_tasks s) @ drop (Suc k) (rq_tasks s)\<rparr>"

definition crash_task :: "bool \<Rightarrow> nat \<Rightarrow> request_service \<Rightarrow> request_service outcome" where
  "crash_task debug k s =
     (let t = rq_tasks s ! k in
      map_out (\<lambda>(_, c). remove_task k
          (s\<lparr>rq_channels := (rq_channels s)[rt_channel t := Canceled], rq_current := c, rq_panicked := rq_panicked s + 1\<rparr>))
        (max_drop_token debug (rt_current t) (rq_current s)))"

section \<open>Polling\<close>

text \<open>
  What a client that waits on a channel is told when it is looked at, \<open>None\<close> to keep waiting; a
  channel that is ready wins over a timeout that has elapsed.
\<close>

definition wrap_response_channel :: "request_id \<Rightarrow> bool \<Rightarrow> channel \<Rightarrow> symbolication_response option" where
  "wrap_response_channel i elapsed ch = (case ch of
      Sent _ response \<Rightarrow> Some response
    | Canceled \<Rightarrow> Some RespInternalError
    | Waiting \<Rightarrow> if elapsed then Some (RespPending i 30) else None)"

definition get_response :: "request_id \<Rightarrow> nat option \<Rightarrow> request_service \<Rightarrow> request_service" where
  "get_response i timeout s = (case rq_requests s i of
      Some a \<Rightarrow> s\<lparr>rq_pollers := rq_pollers s @ [\<lparr>po_id = i, po_channel = a,
          po_deadline = map_option (\<lambda>t. rq_now s + t * 1000) timeout\<rparr>]\<rparr>
    | None \<Rightarrow> s\<lparr>rq_unknown := rq_unknown s + 1, rq_replies := (i, None) # rq_replies s\<rparr>)"

definition deadline_passed :: "nat \<Rightarrow> nat option \<Rightarrow> bool" where
  "deadline_passed now d = (case d of Some d \<Rightarrow> d \<le> now | None \<Rightarrow> False)"

definition wake_poller :: "nat \<Rightarrow> request_service \<Rightarrow> request_service" where
  "wake_poller k s =
     (let p = rq_pollers s ! k in
      case wrap_response_channel (po_id p) (deadline_passed (rq_now s) (po_deadline p)) (rq_channels s ! po_channel p) of
        Some r \<Rightarrow> s\<lparr>rq_pollers := take k (rq_pollers s) @ drop (Suc k) (rq_pollers s), rq_replies := (po_id p, Some r) # rq_replies s\<rparr>
      | None \<Rightarrow> s)"

section \<open>Runs\<close>

text \<open>
  The events. \<open>Submit\<close> carries the random id; ids do not collide, which is the assumption the
  code states. Timers fire when they are due: time does not pass the end of a timeout, of the
  wait of a finished task or of a poll before that is handled. An event whose guard fails does
  nothing.
\<close>

datatype service_event =
    Submit request_id string request_options job
  | Start nat
  | FutureReady nat
  | TimeoutElapsed nat
  | DelayOver nat
  | Poll request_id "nat option"
  | Wake nat
  | Advance nat

definition task_deadline :: "request_task \<Rightarrow> nat option" where
  "task_deadline t = (case rt_phase t of Queued \<Rightarrow> None | Running d \<Rightarrow> Some d | Lingering d \<Rightarrow> Some d)"

definition not_before :: "nat \<Rightarrow> nat option \<Rightarrow> bool" where
  "not_before t d = (case d of Some d \<Rightarrow> t \<le> d | None \<Rightarrow> True)"

definition may_advance :: "nat \<Rightarrow> request_service \<Rightarrow> bool" where
  "may_advance t s \<longleftrightarrow> list_all (\<lambda>k. not_before t (task_deadline k)) (rq_tasks s)
     \<and> list_all (\<lambda>p. not_before t (po_deadline p)) (rq_pollers s)"

definition phase_at :: "request_service \<Rightarrow> nat \<Rightarrow> phase option" where
  "phase_at s k = (if k < length (rq_tasks s) then Some (rt_phase (rq_tasks s ! k)) else None)"

fun service_step :: "bool \<Rightarrow> service_event \<Rightarrow> request_service \<Rightarrow> request_service outcome" where
  "service_step debug (Submit i task_name options f) s =
     Ret (if i \<in> fst ` set (rq_submitted s) then s else snd (create_symbolication_request i task_name options f s))"
| "service_step debug (Start k) s = Ret (if phase_at s k = Some Queued then start_task k s else s)"
| "service_step debug (FutureReady k) s = (case phase_at s k of
      Some (Running _) \<Rightarrow> (case rt_job (rq_tasks s ! k) of
          Ret r \<Rightarrow> complete_task debug k (Some r) s
        | Panic \<Rightarrow> crash_task debug k s)
    | _ \<Rightarrow> Ret s)"
| "service_step debug (TimeoutElapsed k) s = (case phase_at s k of
      Some (Running d) \<Rightarrow> if d \<le> rq_now s then complete_task debug k None s else Ret s
    | _ \<Rightarrow> Ret s)"
| "service_step debug (DelayOver k) s = (case phase_at s k of
      Some (Lingering d) \<Rightarrow> Ret (if d \<le> rq_now s then remove_task k s else s)
    | _ \<Rightarrow> Ret s)"
| "service_step debug (Poll i timeout) s = Ret (get_response i timeout s)"
| "service_step debug (Wake k) s = Ret (if k < length (rq_pollers s) then wake_poller k s else s)"
| "service_step debug (Advance d) s = Ret (if may_advance (rq_now s + d) s then s\<lparr>rq_now := rq_now s + d\<rparr> else s)"

fun run_steps :: "('e \<Rightarrow> 's \<Rightarrow> 's outcome) \<Rightarrow> 'e list \<Rightarrow> 's \<Rightarrow> 's outcome" where
  "run_steps step [] s = Ret s"
| "run_steps step (e # es) s = bind_out (step e s) (run_steps step es)"

definition run_service :: "bool \<Rightarrow> service_event list \<Rightarrow> request_service \<Rightarrow> request_service outcome" where
  "run_service debug es s = run_steps (service_step debug) es s"

section \<open>The futures of the requests\<close>

text \<open>The symbolication of stack traces never returns an error; a panic of it is a panic of the task.\<close>

definition symbolicate_stacktraces :: "('s, 'p, 'o, 'mem) native_actor \<Rightarrow> request_id \<Rightarrow> 'mem native_request \<Rightarrow> request_options
    \<Rightarrow> request_service \<Rightarrow> (max_requests_error + request_id) \<times> request_service" where
  "symbolicate_stacktraces A i req options =
     create_symbolication_request i ''symbolicate'' options (map_out (\<lambda>r. Inr (NativeResponse (complete_response r))) (symbolicate A req))"

definition symbolicate_js_stacktraces :: "('h, 'b, 'm) js_services \<Rightarrow> 'm js_libs \<Rightarrow> nat option \<Rightarrow> bundle_file_cache \<Rightarrow> api_cache
    \<Rightarrow> request_id \<Rightarrow> js_request \<Rightarrow> request_service \<Rightarrow> (max_requests_error + request_id) \<times> request_service" where
  "symbolicate_js_stacktraces sv lib max_sources_size files_in_bundles api i req =
     create_symbolication_request i ''symbolicate_js'' default_options
       (map_out (\<lambda>(r, _). Inr (JsResponse r)) (symbolicate_js sv lib max_sources_size files_in_bundles api req))"

definition symbolicate_jvm_stacktraces :: "('p, 'h) jvm_services \<Rightarrow> ('p, 'h, 'b) proguard_lib
    \<Rightarrow> request_id \<Rightarrow> jvm_request \<Rightarrow> request_service \<Rightarrow> (max_requests_error + request_id) \<times> request_service" where
  "symbolicate_jvm_stacktraces sv lib i req =
     create_symbolication_request i ''symbolicate_jvm'' default_options
       (map_out (\<lambda>(r, _). Inr (JvmResponse r)) (symbolicate_jvm sv lib req))"

definition process_minidump_request :: "('s, 'p, 'o, 'm, 'f) crash_actor \<Rightarrow> request_id \<Rightarrow> process_minidump \<Rightarrow> request_options
    \<Rightarrow> request_service \<Rightarrow> (max_requests_error + request_id) \<times> request_service" where
  "process_minidump_request A i req options =
     create_symbolication_request i ''minidump_stackwalk'' options (map_out (map_sum id NativeResponse) (process_minidump_file A req))"

definition process_apple_crash_report_request :: "('s, 'p, 'o, 'm, 'f) crash_actor \<Rightarrow> apple_lib \<Rightarrow> request_id \<Rightarrow> scope \<Rightarrow> attachment_file
    \<Rightarrow> source_config list \<Rightarrow> request_options \<Rightarrow> request_service \<Rightarrow> (max_requests_error + request_id) \<times> request_service" where
  "process_apple_crash_report_request A L i sc report sources options =
     create_symbolication_request i ''parse_apple_crash_report'' options
       (map_out (map_sum id NativeResponse) (process_apple_crash_report A L sc report sources (op_extract_variables options)))"

end
