(* ===== verification/RequestsCorrect.thy ===== *)
theory RequestsCorrect
  imports Requests
begin

text \<open>
  Invariants of the request service: the counter is the number of unfinished tasks, the map and
  the channels agree with the tasks and their timers, and what clients are told comes from the
  job they submitted. Each is an instance of one interface, \<open>invariant\<close>.
\<close>

section \<open>Interface: invariants of a step function\<close>

locale invariant =
  fixes step :: "'e \<Rightarrow> 's \<Rightarrow> 's outcome"
    and start :: 's
    and inv :: "'s \<Rightarrow> bool"
  assumes at_start: "inv start"
    and kept: "inv s \<Longrightarrow> step e s = Ret s' \<Longrightarrow> inv s'"
begin

lemma run_inv: "inv s \<Longrightarrow> run_steps step es s = Ret s' \<Longrightarrow> inv s'"
  by (induction es arbitrary: s) (auto simp: bind_out_eq_Ret intro: kept)

lemmas reached_inv = run_inv[OF at_start]

end

text \<open>An invariant that also rules out panics.\<close>

locale safe_invariant = invariant +
  assumes no_panic: "inv s \<Longrightarrow> step e s \<noteq> Panic"
begin

lemma run_returns: "inv s \<Longrightarrow> \<exists>s'. run_steps step es s = Ret s' \<and> inv s'"
proof (induction es arbitrary: s)
  case (Cons e es)
  then obtain s' where "step e s = Ret s'" "inv s'"
    using no_panic kept by (cases "step e s") blast+
  with Cons.IH show ?case by simp
qed simp

end

section \<open>Positions in the lists of tasks and pollers\<close>

fun unfinished :: "phase \<Rightarrow> bool" where
  "unfinished Queued = True"
| "unfinished (Running _) = True"
| "unfinished (Lingering _) = False"

lemma phase_at_Some: "phase_at s k = Some p \<longleftrightarrow> (\<exists>xs t ys. rq_tasks s = xs @ t # ys \<and> k = length xs \<and> rt_phase t = p)"
proof
  assume p: "phase_at s k = Some p"
  then have "k < length (rq_tasks s)" "rt_phase (rq_tasks s ! k) = p" by (auto simp: phase_at_def split: if_splits)
  moreover from this have "rq_tasks s = take k (rq_tasks s) @ rq_tasks s ! k # drop (Suc k) (rq_tasks s)"
    by (simp add: id_take_nth_drop)
  ultimately show "\<exists>xs t ys. rq_tasks s = xs @ t # ys \<and> k = length xs \<and> rt_phase t = p"
    by (metis length_take min.absorb4)
qed (auto simp: phase_at_def)

lemma phase_atE:
  assumes "phase_at s k = Some p"
  obtains xs t ys where "rq_tasks s = xs @ t # ys" "k = length xs" "rt_phase t = p"
  using assms by (auto simp: phase_at_Some)

text \<open>The events that change the state, by what they do to it.\<close>

lemma service_step_cases [consumes 1, case_names same submit start ready crash elapsed over poll wake advance]:
  assumes "service_step debug e s = Ret s'"
  obtains "s' = s"
  | i task_name options f where "i \<notin> fst ` set (rq_submitted s)"
      "s' = snd (create_symbolication_request i task_name options f s)"
  | xs t ys where "rq_tasks s = xs @ t # ys" "rt_phase t = Queued" "s' = start_task (length xs) s"
  | xs t ys d r where "rq_tasks s = xs @ t # ys" "rt_phase t = Running d" "rt_job t = Ret r"
      "complete_task debug (length xs) (Some r) s = Ret s'"
  | xs t ys d where "rq_tasks s = xs @ t # ys" "rt_phase t = Running d" "rt_job t = Panic"
      "crash_task debug (length xs) s = Ret s'"
  | xs t ys d where "rq_tasks s = xs @ t # ys" "rt_phase t = Running d" "d \<le> rq_now s"
      "complete_task debug (length xs) None s = Ret s'"
  | xs t ys d where "rq_tasks s = xs @ t # ys" "rt_phase t = Lingering d" "d \<le> rq_now s" "s' = remove_task (length xs) s"
  | i timeout where "s' = get_response i timeout s"
  | k where "k < length (rq_pollers s)" "s' = wake_poller k s"
  | d where "may_advance (rq_now s + d) s" "s' = s\<lparr>rq_now := rq_now s + d\<rparr>"
proof (cases e)
  case (Submit i nm o' f)
  show thesis
  proof (cases "i \<in> fst ` set (rq_submitted s)")
    case True
    show thesis by (rule that(1)) (use assms Submit True in simp)
  next
    case False
    show thesis by (rule that(2)[OF False, of nm o' f]) (use assms Submit False in simp)
  qed
next
  case (Start k)
  show thesis
  proof (cases "phase_at s k = Some Queued")
    case False
    show thesis by (rule that(1)) (use assms Start False in simp)
  next
    case True
    then obtain xs t ys where t: "rq_tasks s = xs @ t # ys" "k = length xs" "rt_phase t = Queued" by (rule phase_atE)
    show thesis by (rule that(3)[OF t(1,3)]) (use assms Start True t(2) in simp)
  qed
next
  case (FutureReady k)
  show thesis
  proof (cases "phase_at s k")
    case None
    with assms FutureReady that(1) show thesis by simp
  next
    case (Some p)
    then obtain xs t ys where "rq_tasks s = xs @ t # ys" "k = length xs" "rt_phase t = p" by (rule phase_atE)
    note t = this
    show thesis
    proof (cases "\<exists>d. p = Running d")
      case False
      show thesis by (rule that(1)) (use assms FutureReady Some False in \<open>cases p; simp\<close>)
    next
      case True
      then obtain d where d: "p = Running d" by blast
      show thesis
      proof (cases "rt_job t")
        case (Ret r)
        show thesis by (rule that(4)[OF t(1) _ Ret]) (use assms FutureReady Some t d Ret in simp_all)
      next
        case Panic
        show thesis by (rule that(5)[OF t(1) _ Panic]) (use assms FutureReady Some t d Panic in simp_all)
      qed
    qed
  qed
next
  case (TimeoutElapsed k)
  show thesis
  proof (cases "phase_at s k")
    case None
    with assms TimeoutElapsed that(1) show thesis by simp
  next
    case (Some p)
    then obtain xs t ys where "rq_tasks s = xs @ t # ys" "k = length xs" "rt_phase t = p" by (rule phase_atE)
    note t = this
    show thesis
    proof (cases "\<exists>d. p = Running d \<and> d \<le> rq_now s")
      case False
      show thesis by (rule that(1)) (use assms TimeoutElapsed Some False in \<open>cases p; simp split: if_splits\<close>)
    next
      case True
      then obtain d where d: "p = Running d" "d \<le> rq_now s" by blast
      show thesis by (rule that(6)[OF t(1) _ d(2)]) (use assms TimeoutElapsed Some t d in simp_all)
    qed
  qed
next
  case (DelayOver k)
  show thesis
  proof (cases "phase_at s k")
    case None
    with assms DelayOver that(1) show thesis by simp
  next
    case (Some p)
    then obtain xs t ys where "rq_tasks s = xs @ t # ys" "k = length xs" "rt_phase t = p" by (rule phase_atE)
    note t = this
    show thesis
    proof (cases "\<exists>d. p = Lingering d \<and> d \<le> rq_now s")
      case False
      show thesis by (rule that(1)) (use assms DelayOver Some False in \<open>cases p; simp split: if_splits\<close>)
    next
      case True
      then obtain d where d: "p = Lingering d" "d \<le> rq_now s" by blast
      show thesis by (rule that(7)[OF t(1) _ d(2)]) (use assms DelayOver Some t d in simp_all)
    qed
  qed
next
  case (Poll i timeout)
  show thesis by (rule that(8)[of i timeout]) (use assms Poll in simp)
next
  case (Wake k)
  show thesis
  proof (cases "k < length (rq_pollers s)")
    case True
    show thesis by (rule that(9)[OF True]) (use assms Wake True in simp)
  next
    case False
    show thesis by (rule that(1)) (use assms Wake False in simp)
  qed
next
  case (Advance d)
  show thesis
  proof (cases "may_advance (rq_now s + d) s")
    case True
    show thesis by (rule that(10)[OF True]) (use assms Advance True in simp)
  next
    case False
    show thesis by (rule that(1)) (use assms Advance False in simp)
  qed
qed

section \<open>The counter\<close>

definition in_flight :: "request_service \<Rightarrow> nat" where
  "in_flight s = length (filter (unfinished \<circ> rt_phase) (rq_tasks s))"

definition counter_inv :: "usize option \<Rightarrow> request_service \<Rightarrow> bool" where
  "counter_inv m s \<longleftrightarrow> counter_max (rq_current s) = m
     \<and> counter_value (rq_current s) = of_nat (in_flight s)
     \<and> (\<forall>l. m = Some l \<longrightarrow> in_flight s \<le> unat l)
     \<and> list_all (\<lambda>t. unfinished (rt_phase t) \<longrightarrow> rt_current t = Token (Some ())) (rq_tasks s)
     \<and> rq_accepted s = rq_processed s + rq_panicked s + in_flight s"

lemma complete_task_alt:
  "rq_tasks s = xs @ t # ys \<Longrightarrow> complete_task debug (length xs) r s =
     map_out (\<lambda>(token, c).
        s\<lparr>rq_channels := (rq_channels s)[rt_channel t := Sent (rq_now s) (task_response (rt_options t) r)],
          rq_current := c, rq_processed := rq_processed s + 1,
          rq_tasks := xs @ t\<lparr>rt_current := token, rt_phase := Lingering (rq_now s + max_poll_delay)\<rparr> # ys\<rparr>)
       (max_drop_token debug (rt_current t) (rq_current s))"
  by (simp add: complete_task_def Let_def)

lemma crash_task_alt:
  "rq_tasks s = xs @ t # ys \<Longrightarrow> crash_task debug (length xs) s =
     map_out (\<lambda>(_, c).
        s\<lparr>rq_channels := (rq_channels s)[rt_channel t := Canceled], rq_current := c, rq_panicked := rq_panicked s + 1,
          rq_requests := (rq_requests s)(rt_id t := None), rq_tasks := xs @ ys\<rparr>)
       (max_drop_token debug (rt_current t) (rq_current s))"
  by (simp add: crash_task_def remove_task_def Let_def)

lemma start_task_alt:
  "rq_tasks s = xs @ t # ys \<Longrightarrow> start_task (length xs) s =
     s\<lparr>rq_tasks := xs @ t\<lparr>rt_phase := Running (rq_now s + symbolication_timeout)\<rparr> # ys\<rparr>"
  by (simp add: start_task_def)

lemma remove_task_alt:
  "rq_tasks s = xs @ t # ys \<Longrightarrow> remove_task (length xs) s = s\<lparr>rq_requests := (rq_requests s)(rt_id t := None), rq_tasks := xs @ ys\<rparr>"
  by (simp add: remove_task_def)

lemmas task_alts = complete_task_alt crash_task_alt start_task_alt remove_task_alt

text \<open>Dropping a token never changes the limit, and takes one off the value.\<close>

lemma drop_held:
  "max_drop_token debug (Token (Some ())) c = Ret (tok, c') \<Longrightarrow>
     tok = Token None \<and> c' = c\<lparr>counter_value := counter_value c - 1\<rparr>"
  by (auto simp: max_drop_token_def drop_token_def map_out_def split: if_splits)

lemma counter_inv_start: "counter_inv m (service_create m)"
  by (simp add: counter_inv_def service_create_def max_counter_new_def counter_new_def in_flight_def)

lemma unat_of_nat_id: "n \<le> unat (l :: usize) \<Longrightarrow> unat (of_nat n :: usize) = n"
  by (rule le_unat_uoi[of n l])

lemma counter_inv_create:
  assumes "counter_inv m s"
  shows "counter_inv m (snd (create_symbolication_request i nm op f s))"
proof (cases "max_try_incr (rq_current s)")
  case None
  with assms show ?thesis by (simp add: create_symbolication_request_def counter_inv_def in_flight_def)
next
  case (Some tc)
  then obtain tok c where tc: "max_try_incr (rq_current s) = Some (tok, c)" by (cases tc) auto
  have c: "c = (rq_current s)\<lparr>counter_value := counter_value (rq_current s) + 1\<rparr>" "tok = Token (Some ())"
    using max_try_incr_Some[OF tc] by simp_all
  have "Suc (in_flight s) \<le> unat l" if "m = Some l" for l
  proof -
    have "\<not> l \<le> of_nat (in_flight s)"
      using that tc assms max_try_incr_None[of "rq_current s"] by (auto simp: counter_inv_def)
    then have "unat (of_nat (in_flight s) :: usize) < unat l" by (simp add: word_le_nat_alt)
    moreover have "in_flight s \<le> unat l" using that assms by (simp add: counter_inv_def)
    ultimately show ?thesis by (simp add: unat_of_nat_id)
  qed
  then show ?thesis
    using assms unfolding counter_inv_def create_symbolication_request_def tc
    by (simp add: c in_flight_def)
qed

lemma counter_inv_dropped:
  assumes "counter_inv m s" "rq_tasks s = xs @ t # ys" "unfinished (rt_phase t)"
    and "max_drop_token debug (rt_current t) (rq_current s) = Ret (tok, c)"
  shows "counter_max c = m"
    and "counter_value c = of_nat (length (filter (unfinished \<circ> rt_phase) xs) + length (filter (unfinished \<circ> rt_phase) ys))"
  using assms drop_held[of debug "rq_current s" tok c] by (auto simp: counter_inv_def in_flight_def)

lemma counter_inv_step:
  assumes "counter_inv m s" and "service_step debug e s = Ret s'"
  shows "counter_inv m s'"
  using assms(2)
proof (cases rule: service_step_cases)
  case (submit i nm op f)
  with assms(1) show ?thesis by (simp add: counter_inv_create)
next
  case (start xs t ys)
  with assms(1) show ?thesis by (auto simp: start_task_alt counter_inv_def in_flight_def)
next
  case (ready xs t ys d r)
  then obtain tok c where "max_drop_token debug (rt_current t) (rq_current s) = Ret (tok, c)"
    by (auto simp: complete_task_alt map_out_eq_Ret)
  note d = counter_inv_dropped[OF assms(1) ready(1) _ this] and this
  with ready assms(1) show ?thesis by (auto simp: complete_task_alt counter_inv_def in_flight_def)
next
  case (elapsed xs t ys d)
  then obtain tok c where "max_drop_token debug (rt_current t) (rq_current s) = Ret (tok, c)"
    by (auto simp: complete_task_alt map_out_eq_Ret)
  note d = counter_inv_dropped[OF assms(1) elapsed(1) _ this] and this
  with elapsed assms(1) show ?thesis by (auto simp: complete_task_alt counter_inv_def in_flight_def)
next
  case (crash xs t ys d)
  then obtain tok c where "max_drop_token debug (rt_current t) (rq_current s) = Ret (tok, c)"
    by (auto simp: crash_task_alt map_out_eq_Ret)
  note d = counter_inv_dropped[OF assms(1) crash(1) _ this] and this
  with crash assms(1) show ?thesis by (auto simp: crash_task_alt counter_inv_def in_flight_def)
next
  case (over xs t ys d)
  with assms(1) show ?thesis by (auto simp: remove_task_alt counter_inv_def in_flight_def)
next
  case (poll i timeout)
  with assms(1) show ?thesis by (auto simp: get_response_def counter_inv_def in_flight_def split: option.splits)
next
  case (wake k)
  with assms(1) show ?thesis by (auto simp: wake_poller_def Let_def counter_inv_def in_flight_def split: option.splits)
next
  case (advance d)
  with assms(1) show ?thesis by (simp add: counter_inv_def in_flight_def)
qed (use assms(1) in simp)

text \<open>With a limit no drop underflows.\<close>

lemma limited_drop:
  assumes "counter_inv (Some l) s" "rq_tasks s = xs @ t # ys" "unfinished (rt_phase t)"
  shows "\<exists>c. max_drop_token debug (rt_current t) (rq_current s) = Ret (Token None, c)"
proof -
  let ?n = "in_flight s"
  have n: "0 < ?n" "?n \<le> unat l" using assms by (auto simp: counter_inv_def in_flight_def)
  then have "unat (of_nat ?n :: usize) = ?n" by (simp add: unat_of_nat_id)
  with n assms have "0 < unat (counter_value (rq_current s))" by (simp add: counter_inv_def)
  moreover have "rt_current t = Token (Some ())" using assms by (simp add: counter_inv_def)
  ultimately show ?thesis by (simp add: max_drop_held)
qed

lemma limited_no_panic:
  assumes "counter_inv (Some l) s"
  shows "service_step debug e s \<noteq> Panic"
proof (cases e)
  case (FutureReady k)
  then show ?thesis using limited_drop[OF assms]
    by (auto simp: phase_at_Some task_alts map_out_eq_Panic split: option.splits phase.splits outcome.splits)
      (metis outcome.distinct(1) unfinished.simps(2))+
next
  case (TimeoutElapsed k)
  then show ?thesis using limited_drop[OF assms]
    by (auto simp: phase_at_Some task_alts map_out_eq_Panic split: option.splits phase.splits outcome.splits)
      (metis outcome.distinct(1) unfinished.simps(2))+
qed (auto split: option.splits phase.splits)

interpretation counted: invariant "service_step debug" "service_create m" "counter_inv m"
  by unfold_locales (auto intro: counter_inv_start counter_inv_step)

interpretation limited_service: safe_invariant "service_step debug" "service_create (Some l)" "counter_inv (Some l)"
  by unfold_locales (rule limited_no_panic)

section \<open>The table of requests\<close>

text \<open>The responses a submission may get.\<close>

definition answers :: "request_options \<Rightarrow> job \<Rightarrow> symbolication_response \<Rightarrow> bool" where
  "answers options f r \<longleftrightarrow> r = RespTimeout \<or> (\<exists>x. f = Ret x \<and> r = task_response options (Some x))"

definition ids_of :: "request_service \<Rightarrow> request_id list" where
  "ids_of s = map fst (rq_submitted s)"

text \<open>A task, with the channel it sends on.\<close>

definition task_ok :: "nat \<Rightarrow> (request_id \<times> request_options \<times> job) list \<Rightarrow> channel list \<Rightarrow> request_task \<Rightarrow> bool" where
  "task_ok now subs chs t \<longleftrightarrow> rt_channel t < length chs \<and> subs ! rt_channel t = (rt_id t, rt_options t, rt_job t)
     \<and> (case rt_phase t of
          Queued \<Rightarrow> chs ! rt_channel t = Waiting
        | Running d \<Rightarrow> chs ! rt_channel t = Waiting \<and> now \<le> d \<and> d \<le> now + symbolication_timeout
        | Lingering d \<Rightarrow> now \<le> d \<and> (\<exists>t0 r. chs ! rt_channel t = Sent t0 r \<and> t0 \<le> now \<and> d = t0 + max_poll_delay))"

text \<open>A channel, with the task that owns it.\<close>

definition channel_ok :: "nat \<Rightarrow> request_id \<times> request_options \<times> job \<Rightarrow> request_task list \<Rightarrow> nat \<Rightarrow> channel \<Rightarrow> bool" where
  "channel_ok now sub ts a ch \<longleftrightarrow> (case ch of
      Waiting \<Rightarrow> \<exists>t \<in> set ts. rt_channel t = a \<and> unfinished (rt_phase t)
    | Sent t0 r \<Rightarrow> answers (fst (snd sub)) (snd (snd sub)) r
        \<and> (t0 + max_poll_delay \<le> now \<or> (\<exists>t \<in> set ts. rt_channel t = a \<and> rt_phase t = Lingering (t0 + max_poll_delay)))
    | Canceled \<Rightarrow> snd (snd sub) = Panic)"

definition table_inv :: "request_service \<Rightarrow> bool" where
  "table_inv s \<longleftrightarrow> length (rq_submitted s) = length (rq_channels s)
     \<and> distinct (ids_of s) \<and> distinct (map rt_channel (rq_tasks s))
     \<and> (\<forall>t \<in> set (rq_tasks s). task_ok (rq_now s) (rq_submitted s) (rq_channels s) t)
     \<and> (\<forall>a < length (rq_channels s). channel_ok (rq_now s) (rq_submitted s ! a) (rq_tasks s) a (rq_channels s ! a))
     \<and> rq_requests s = map_of (map (\<lambda>t. (rt_id t, rt_channel t)) (rq_tasks s))"

lemma table_inv_start: "table_inv (service_create m)"
  by (simp add: table_inv_def service_create_def ids_of_def)

text \<open>Distinct channels belong to distinct ids.\<close>

lemma table_ids:
  assumes "table_inv s"
  shows "distinct (map rt_id (rq_tasks s))"
proof -
  have "map rt_id (rq_tasks s) = map ((!) (ids_of s)) (map rt_channel (rq_tasks s))"
    using assms by (auto simp: table_inv_def task_ok_def ids_of_def)
  moreover have "\<forall>a \<in> set (map rt_channel (rq_tasks s)). a < length (ids_of s)"
    using assms by (auto simp: table_inv_def task_ok_def ids_of_def)
  ultimately show ?thesis
    using assms inj_on_nth[of "ids_of s"] by (simp add: table_inv_def distinct_map[of "(!) (ids_of s)"] del: map_map)
qed

text \<open>A task of a split list: its channel is its own.\<close>

lemma table_split:
  assumes "table_inv s" "rq_tasks s = xs @ t # ys"
  shows "task_ok (rq_now s) (rq_submitted s) (rq_channels s) t"
    and "u \<in> set xs \<union> set ys \<Longrightarrow> rt_channel u \<noteq> rt_channel t \<and> rt_id u \<noteq> rt_id t"
    and "u \<in> set xs \<union> set ys \<Longrightarrow> task_ok (rq_now s) (rq_submitted s) (rq_channels s) u"
proof -
  show "task_ok (rq_now s) (rq_submitted s) (rq_channels s) t" using assms by (simp add: table_inv_def)
  show "task_ok (rq_now s) (rq_submitted s) (rq_channels s) u" if "u \<in> set xs \<union> set ys"
    using assms that by (auto simp: table_inv_def)
  have "distinct (map rt_channel xs @ rt_channel t # map rt_channel ys)" "distinct (map rt_id xs @ rt_id t # map rt_id ys)"
    using assms table_ids[OF assms(1)] by (simp_all add: table_inv_def)
  then have "rt_channel t \<notin> rt_channel ` (set xs \<union> set ys)" "rt_id t \<notin> rt_id ` (set xs \<union> set ys)" by auto
  then show "rt_channel u \<noteq> rt_channel t \<and> rt_id u \<noteq> rt_id t" if "u \<in> set xs \<union> set ys"
    using that by (metis imageI)
qed

lemma task_ok_other: "rt_channel u \<noteq> a \<Longrightarrow> task_ok now subs (chs[a := ch]) u = task_ok now subs chs u"
  by (auto simp: task_ok_def split: phase.splits)

lemma channel_ok_cong:
  assumes "\<And>t. rt_channel t = a \<Longrightarrow> t \<in> set ts \<longleftrightarrow> t \<in> set ts'"
  shows "channel_ok now sub ts a ch = channel_ok now sub ts' a ch"
proof -
  have "(\<exists>t \<in> set ts. rt_channel t = a \<and> P t) \<longleftrightarrow> (\<exists>t \<in> set ts'. rt_channel t = a \<and> P t)" for P
    using assms by blast
  then show ?thesis by (simp only: channel_ok_def)
qed

lemma map_of_remove_mid:
  "(\<And>u. u \<in> set xs \<union> set ys \<Longrightarrow> f u \<noteq> f t) \<Longrightarrow>
     (map_of (map (\<lambda>t. (f t, g t)) (xs @ t # ys)))(f t := None) = map_of (map (\<lambda>t. (f t, g t)) (xs @ ys))"
proof (induction xs)
  case Nil
  then have "f t \<notin> f ` set ys" by (metis UnCI imageE)
  then have "map_of (map (\<lambda>t. (f t, g t)) ys) (f t) = None" by (simp add: map_of_eq_None_iff image_image)
  then show ?case by (auto simp: fun_eq_iff)
next
  case (Cons x xs)
  then have x: "f x \<noteq> f t" by simp
  have "(map_of (map (\<lambda>t. (f t, g t)) (xs @ t # ys)))(f t := None) = map_of (map (\<lambda>t. (f t, g t)) (xs @ ys))"
    by (rule Cons.IH) (use Cons.prems in simp)
  then show ?case
    by (simp only: append_Cons list.map map_of.simps fst_conv snd_conv fun_upd_twist[OF x])
qed

lemma map_of_snoc: "k \<notin> fst ` set m \<Longrightarrow> map_of (m @ [(k, v)]) = (map_of m)(k \<mapsto> v)"
  by (induction m) (auto simp: fun_upd_twist)

text \<open>A change of one task, which may go away, and of its channel.\<close>

lemma table_inv_change:
  assumes inv: "table_inv s" and split: "rq_tasks s = xs @ t # ys"
    and same: "rq_submitted s' = rq_submitted s" "rq_now s' = rq_now s" "rq_channels s' = (rq_channels s)[rt_channel t := ch]"
      "rq_tasks s' = xs @ us @ ys"
    and us: "us = [] \<and> rq_requests s' = (rq_requests s)(rt_id t := None)
      \<or> (\<exists>t'. us = [t'] \<and> rt_id t' = rt_id t \<and> rt_channel t' = rt_channel t
           \<and> task_ok (rq_now s) (rq_submitted s) ((rq_channels s)[rt_channel t := ch]) t' \<and> rq_requests s' = rq_requests s)"
    and ch: "channel_ok (rq_now s) (rq_submitted s ! rt_channel t) us (rt_channel t) ch"
  shows "table_inv s'"
proof -
  note t = table_split[OF inv split]
  have us': "u \<in> set us \<Longrightarrow> rt_channel u = rt_channel t" for u using us by auto
  have a: "rt_channel t < length (rq_channels s)" using t(1) by (simp add: task_ok_def)
  have d: "distinct (map rt_channel (rq_tasks s'))"
  proof -
    have "distinct (map rt_channel (xs @ t # ys))" using inv split by (simp add: table_inv_def)
    then have "distinct (map rt_channel (xs @ ys))" by simp
    moreover have "\<forall>u \<in> set xs \<union> set ys. rt_channel u \<noteq> rt_channel t" using t(2) by blast
    moreover have "map rt_channel us = [] \<or> map rt_channel us = [rt_channel t]" using us by auto
    ultimately show ?thesis unfolding same map_append by auto
  qed
  have ts: "task_ok (rq_now s) (rq_submitted s) ((rq_channels s)[rt_channel t := ch]) u" if "u \<in> set (rq_tasks s')" for u
  proof (cases "u \<in> set us")
    case True
    then show ?thesis using us by auto
  next
    case False
    with that have "u \<in> set xs \<union> set ys" unfolding same by auto
    then show ?thesis using t(2,3)[of u] by (simp add: task_ok_other)
  qed
  have cs: "channel_ok (rq_now s) (rq_submitted s ! b) (rq_tasks s') b ((rq_channels s)[rt_channel t := ch] ! b)"
    if "b < length (rq_channels s)" for b
  proof (cases "b = rt_channel t")
    case True
    have "channel_ok (rq_now s) (rq_submitted s ! b) (rq_tasks s') b ch = channel_ok (rq_now s) (rq_submitted s ! b) us b ch"
      by (rule channel_ok_cong) (use t(2) True same in auto)
    with ch True a show ?thesis by simp
  next
    case False
    have "channel_ok (rq_now s) (rq_submitted s ! b) (rq_tasks s') b (rq_channels s ! b)
        = channel_ok (rq_now s) (rq_submitted s ! b) (rq_tasks s) b (rq_channels s ! b)"
      by (rule channel_ok_cong) (use us' False same split in auto)
    with False inv that show ?thesis by (simp add: table_inv_def)
  qed
  have "rq_requests s' = map_of (map (\<lambda>t. (rt_id t, rt_channel t)) (rq_tasks s'))"
    using us
  proof
    assume u: "us = [] \<and> rq_requests s' = (rq_requests s)(rt_id t := None)"
    then have "rq_requests s' = (map_of (map (\<lambda>t. (rt_id t, rt_channel t)) (xs @ t # ys)))(rt_id t := None)"
      using inv split by (simp add: table_inv_def)
    also have "\<dots> = map_of (map (\<lambda>t. (rt_id t, rt_channel t)) (xs @ ys))"
      by (rule map_of_remove_mid) (use t(2) in blast)
    finally show ?thesis using u same by simp
  next
    assume "\<exists>t'. us = [t'] \<and> rt_id t' = rt_id t \<and> rt_channel t' = rt_channel t
      \<and> task_ok (rq_now s) (rq_submitted s) ((rq_channels s)[rt_channel t := ch]) t' \<and> rq_requests s' = rq_requests s"
    then show ?thesis using inv split same by (auto simp: table_inv_def)
  qed
  with d ts cs inv show ?thesis unfolding table_inv_def ids_of_def same by (simp add: same)
qed

lemma table_inv_create:
  assumes inv: "table_inv s" and new: "i \<notin> fst ` set (rq_submitted s)"
  shows "table_inv (snd (create_symbolication_request i nm op f s))"
proof (cases "max_try_incr (rq_current s)")
  case None
  with inv show ?thesis by (simp add: create_symbolication_request_def table_inv_def ids_of_def)
next
  case (Some tc)
  then obtain tok c where tc: "max_try_incr (rq_current s) = Some (tok, c)" by (cases tc) auto
  let ?t = "\<lparr>rt_id = i, rt_channel = length (rq_channels s), rt_name = nm, rt_options = op, rt_job = f, rt_current = tok, rt_phase = Queued\<rparr>"
  let ?subs = "rq_submitted s @ [(i, op, f)]" and ?chs = "rq_channels s @ [Waiting]"
  let ?s = "snd (create_symbolication_request i nm op f s)"
  have s: "rq_submitted ?s = ?subs" "rq_channels ?s = ?chs" "rq_tasks ?s = rq_tasks s @ [?t]" "rq_now ?s = rq_now s"
    "rq_requests ?s = (rq_requests s)(i \<mapsto> length (rq_channels s))"
    by (simp_all add: create_symbolication_request_def tc)
  have len: "length (rq_submitted s) = length (rq_channels s)" using inv by (simp add: table_inv_def)
  have ts: "task_ok (rq_now s) ?subs ?chs u" if "u \<in> set (rq_tasks s)" for u
  proof -
    have "task_ok (rq_now s) (rq_submitted s) (rq_channels s) u" using inv that by (simp add: table_inv_def)
    then show ?thesis using len by (auto simp: task_ok_def nth_append split: phase.splits)
  qed
  have "rt_channel u \<noteq> length (rq_channels s) \<and> rt_id u \<noteq> i" if "u \<in> set (rq_tasks s)" for u
  proof -
    have "rt_channel u < length (rq_channels s)" "rq_submitted s ! rt_channel u = (rt_id u, rt_options u, rt_job u)"
      using inv that by (auto simp: table_inv_def task_ok_def)
    with len new show ?thesis by (metis fst_conv image_eqI less_irrefl nth_mem)
  qed
  note u = this
  have cs: "channel_ok (rq_now s) (?subs ! b) (rq_tasks s @ [?t]) b (?chs ! b)" if "b < Suc (length (rq_channels s))" for b
  proof (cases "b = length (rq_channels s)")
    case True
    then show ?thesis by (simp add: channel_ok_def)
  next
    case False
    with that have b: "b < length (rq_channels s)" by simp
    have "channel_ok (rq_now s) (rq_submitted s ! b) (rq_tasks s @ [?t]) b (rq_channels s ! b)
        = channel_ok (rq_now s) (rq_submitted s ! b) (rq_tasks s) b (rq_channels s ! b)"
      by (rule channel_ok_cong) (use False in auto)
    with b inv len show ?thesis by (simp add: table_inv_def nth_append)
  qed
  have "(map_of (map (\<lambda>t. (rt_id t, rt_channel t)) (rq_tasks s)))(i \<mapsto> length (rq_channels s))
      = map_of (map (\<lambda>t. (rt_id t, rt_channel t)) (rq_tasks s @ [?t]))"
  proof -
    have "i \<notin> fst ` set (map (\<lambda>t. (rt_id t, rt_channel t)) (rq_tasks s))" by (auto dest: u)
    from map_of_snoc[OF this] show ?thesis by simp
  qed
  then have "rq_requests ?s = map_of (map (\<lambda>t. (rt_id t, rt_channel t)) (rq_tasks s @ [?t]))"
    using inv by (simp add: s table_inv_def)
  moreover have "task_ok (rq_now s) ?subs ?chs ?t" using len by (simp add: task_ok_def nth_append)
  then have "\<forall>u \<in> set (rq_tasks s @ [?t]). task_ok (rq_now s) ?subs ?chs u" using ts by simp
  moreover have "distinct (map rt_channel (rq_tasks s @ [?t]))" using inv by (auto simp: table_inv_def dest: u)
  moreover have "distinct (map fst ?subs)" using inv new by (auto simp: table_inv_def ids_of_def)
  ultimately show ?thesis using cs len unfolding table_inv_def ids_of_def by (simp add: s)
qed

lemma unfinished_Running: "unfinished p \<longleftrightarrow> p = Queued \<or> (\<exists>d. p = Running d)"
  by (cases p) auto

lemma table_inv_complete:
  assumes inv: "table_inv s" and split: "rq_tasks s = xs @ t # ys" and p: "rt_phase t = Running d"
    and r: "answers (rt_options t) (rt_job t) (task_response (rt_options t) r)"
    and run: "complete_task debug (length xs) r s = Ret s'"
  shows "table_inv s'"
proof -
  obtain tok c where s': "s' = s\<lparr>rq_channels := (rq_channels s)[rt_channel t := Sent (rq_now s) (task_response (rt_options t) r)],
          rq_current := c, rq_processed := rq_processed s + 1,
          rq_tasks := xs @ t\<lparr>rt_current := tok, rt_phase := Lingering (rq_now s + max_poll_delay)\<rparr> # ys\<rparr>"
    using run by (auto simp: complete_task_alt[OF split] map_out_eq_Ret)
  note t = table_split(1)[OF inv split]
  show ?thesis
    by (rule table_inv_change[OF inv split, where us = "[t\<lparr>rt_current := tok, rt_phase := Lingering (rq_now s + max_poll_delay)\<rparr>]"
          and ch = "Sent (rq_now s) (task_response (rt_options t) r)"])
      (use t r in \<open>auto simp: s' task_ok_def channel_ok_def\<close>)
qed

lemma may_advance_task:
  "may_advance now' s \<Longrightarrow> t \<in> set (rq_tasks s) \<Longrightarrow> not_before now' (task_deadline t)"
  by (simp add: may_advance_def list_all_iff)

lemma table_inv_advance:
  assumes inv: "table_inv s" and may: "may_advance (rq_now s + d) s"
  shows "table_inv (s\<lparr>rq_now := rq_now s + d\<rparr>)"
proof -
  have "task_ok (rq_now s + d) (rq_submitted s) (rq_channels s) t" if "t \<in> set (rq_tasks s)" for t
    using inv that may_advance_task[OF may that]
    by (cases "rt_phase t") (fastforce simp: table_inv_def task_ok_def task_deadline_def not_before_def)+
  moreover have "channel_ok (rq_now s + d) (rq_submitted s ! a) (rq_tasks s) a (rq_channels s ! a)" if "a < length (rq_channels s)" for a
  proof -
    have "channel_ok (rq_now s) (rq_submitted s ! a) (rq_tasks s) a (rq_channels s ! a)" using inv that by (simp add: table_inv_def)
    then show ?thesis by (auto simp: channel_ok_def split: channel.splits)
  qed
  ultimately show ?thesis using inv by (simp add: table_inv_def ids_of_def)
qed

lemma table_inv_cong:
  "table_inv s \<Longrightarrow> rq_submitted s' = rq_submitted s \<Longrightarrow> rq_channels s' = rq_channels s \<Longrightarrow> rq_tasks s' = rq_tasks s
     \<Longrightarrow> rq_now s' = rq_now s \<Longrightarrow> rq_requests s' = rq_requests s \<Longrightarrow> table_inv s'"
  by (simp add: table_inv_def ids_of_def)

lemma table_inv_step:
  assumes inv: "table_inv s" and "service_step debug e s = Ret s'"
  shows "table_inv s'"
  using assms(2)
proof (cases rule: service_step_cases)
  case (submit i nm op f)
  with inv show ?thesis by (simp add: table_inv_create)
next
  case (start xs t ys)
  note t = table_split(1)[OF inv start(1)]
  have w: "rq_channels s ! rt_channel t = Waiting" using t start(2) by (simp add: task_ok_def)
  then have upd: "(rq_channels s)[rt_channel t := Waiting] = rq_channels s" by (metis list_update_id)
  show ?thesis
    by (rule table_inv_change[OF inv start(1), where us = "[t\<lparr>rt_phase := Running (rq_now s + symbolication_timeout)\<rparr>]" and ch = Waiting])
      (use t w start in \<open>auto simp: start_task_alt task_ok_def channel_ok_def upd\<close>)
next
  case (ready xs t ys d r)
  show ?thesis by (rule table_inv_complete[OF inv ready(1,2) _ ready(4)]) (use ready(3) in \<open>auto simp: answers_def\<close>)
next
  case (elapsed xs t ys d)
  show ?thesis by (rule table_inv_complete[OF inv elapsed(1,2) _ elapsed(4)]) (auto simp: answers_def task_response_def)
next
  case (crash xs t ys d)
  note t = table_split(1)[OF inv crash(1)]
  obtain tok c where s': "s' = s\<lparr>rq_channels := (rq_channels s)[rt_channel t := Canceled], rq_current := c, rq_panicked := rq_panicked s + 1,
          rq_requests := (rq_requests s)(rt_id t := None), rq_tasks := xs @ ys\<rparr>"
    using crash(4) by (auto simp: crash_task_alt[OF crash(1)] map_out_eq_Ret)
  show ?thesis
    by (rule table_inv_change[OF inv crash(1), where us = "[]" and ch = Canceled])
      (use t crash(3) in \<open>auto simp: s' task_ok_def channel_ok_def\<close>)
next
  case (over xs t ys d)
  note t = table_split(1)[OF inv over(1)]
  have a: "rt_channel t < length (rq_channels s)" using t by (simp add: task_ok_def)
  have "channel_ok (rq_now s) (rq_submitted s ! rt_channel t) (rq_tasks s) (rt_channel t) (rq_channels s ! rt_channel t)"
    using inv a by (simp add: table_inv_def)
  then have "channel_ok (rq_now s) (rq_submitted s ! rt_channel t) [] (rt_channel t) (rq_channels s ! rt_channel t)"
    using t over(2,3) by (auto simp: task_ok_def channel_ok_def)
  then show ?thesis
    by (rule table_inv_change[OF inv over(1), where us = "[]" and ch = "rq_channels s ! rt_channel t", rotated -1])
      (use over in \<open>auto simp: remove_task_alt\<close>)
next
  case (poll i timeout)
  then show ?thesis by (intro table_inv_cong[OF inv]) (auto simp: get_response_def split: option.splits)
next
  case (wake k)
  then show ?thesis by (intro table_inv_cong[OF inv]) (auto simp: wake_poller_def Let_def split: option.splits)
next
  case (advance d)
  with inv show ?thesis by (simp add: table_inv_advance)
qed (use inv in simp)

interpretation table: invariant "service_step debug" "service_create m" table_inv
  by unfold_locales (auto intro: table_inv_start table_inv_step)

section \<open>What clients are told\<close>

text \<open>A channel that is no longer waiting keeps its state, and accepted requests stay on record.\<close>

definition grows :: "request_service \<Rightarrow> request_service \<Rightarrow> bool" where
  "grows s s' \<longleftrightarrow> (\<exists>zs. rq_submitted s' = rq_submitted s @ zs) \<and> length (rq_channels s) \<le> length (rq_channels s')
     \<and> (\<forall>a < length (rq_channels s). rq_channels s ! a \<noteq> Waiting \<longrightarrow> rq_channels s' ! a = rq_channels s ! a)
     \<and> rq_now s \<le> rq_now s'"

lemma grows_refl: "grows s s"
  by (simp add: grows_def)

lemma grows_trans:
  assumes "grows s s'" "grows s' s''"
  shows "grows s s''"
proof -
  have "rq_channels s'' ! a = rq_channels s ! a" if "a < length (rq_channels s)" "rq_channels s ! a \<noteq> Waiting" for a
    using assms that unfolding grows_def by (metis order_less_le_trans)
  then show ?thesis using assms by (auto simp: grows_def)
qed

lemma grows_same:
  "rq_submitted s' = rq_submitted s \<Longrightarrow> rq_channels s' = rq_channels s \<Longrightarrow> rq_now s \<le> rq_now s' \<Longrightarrow> grows s s'"
  by (simp add: grows_def)

lemma grows_update:
  "rq_submitted s' = rq_submitted s \<Longrightarrow> rq_channels s' = (rq_channels s)[a := ch] \<Longrightarrow> rq_channels s ! a = Waiting
     \<Longrightarrow> rq_now s' = rq_now s \<Longrightarrow> grows s s'"
  by (auto simp: grows_def) (metis nth_list_update_neq)

lemma step_grows:
  assumes inv: "table_inv s" and "service_step debug e s = Ret s'"
  shows "grows s s'"
  using assms(2)
proof (cases rule: service_step_cases)
  case same
  then show ?thesis by (simp add: grows_refl)
next
  case (submit i nm op f)
  have "length (rq_submitted s) = length (rq_channels s)" using inv by (simp add: table_inv_def)
  with submit show ?thesis
    by (auto simp: create_symbolication_request_def grows_def nth_append split: option.splits)
next
  case (start xs t ys)
  then show ?thesis by (intro grows_same) (auto simp: start_task_alt)
next
  case (ready xs t ys d r)
  then show ?thesis using table_split(1)[OF inv ready(1)]
    by (intro grows_update[where a = "rt_channel t" and ch = "Sent (rq_now s) (task_response (rt_options t) (Some r))"])
      (auto simp: complete_task_alt map_out_eq_Ret task_ok_def)
next
  case (elapsed xs t ys d)
  then show ?thesis using table_split(1)[OF inv elapsed(1)]
    by (intro grows_update[where a = "rt_channel t" and ch = "Sent (rq_now s) (task_response (rt_options t) None)"])
      (auto simp: complete_task_alt map_out_eq_Ret task_ok_def)
next
  case (crash xs t ys d)
  then show ?thesis using table_split(1)[OF inv crash(1)]
    by (intro grows_update[where a = "rt_channel t" and ch = Canceled])
      (auto simp: crash_task_alt map_out_eq_Ret task_ok_def)
next
  case (over xs t ys d)
  then show ?thesis by (intro grows_same) (auto simp: remove_task_alt)
next
  case (poll i timeout)
  then show ?thesis by (intro grows_same) (auto simp: get_response_def split: option.splits)
next
  case (wake k)
  then show ?thesis by (intro grows_same) (auto simp: wake_poller_def Let_def split: option.splits)
next
  case (advance d)
  then show ?thesis by (intro grows_same) auto
qed

lemma run_grows: "table_inv s \<Longrightarrow> run_steps (service_step debug) es s = Ret s' \<Longrightarrow> grows s s' \<and> table_inv s'"
proof (induction es arbitrary: s)
  case (Cons e es)
  then obtain s1 where "service_step debug e s = Ret s1" "run_steps (service_step debug) es s1 = Ret s'"
    by (auto simp: bind_out_eq_Ret)
  with Cons step_grows table_inv_step show ?case by (metis grows_trans)
qed (simp add: grows_refl)

text \<open>A reply is that the request is pending, or what its channel holds.\<close>

definition reply_ok :: "request_service \<Rightarrow> request_id \<times> symbolication_response option \<Rightarrow> bool" where
  "reply_ok s x \<longleftrightarrow> (\<forall>r. snd x = Some r \<longrightarrow> (\<exists>a < length (rq_channels s). fst (rq_submitted s ! a) = fst x
     \<and> (r = RespPending (fst x) 30 \<or> wrap_response_channel (fst x) False (rq_channels s ! a) = Some r)))"

definition poller_ok :: "request_service \<Rightarrow> request_poller \<Rightarrow> bool" where
  "poller_ok s p \<longleftrightarrow> po_channel p < length (rq_channels s) \<and> fst (rq_submitted s ! po_channel p) = po_id p"

definition reply_inv :: "request_service \<Rightarrow> bool" where
  "reply_inv s \<longleftrightarrow> table_inv s \<and> (\<forall>p \<in> set (rq_pollers s). poller_ok s p) \<and> (\<forall>x \<in> set (rq_replies s). reply_ok s x)"

lemma grows_submitted:
  assumes "table_inv s" "grows s s'" "a < length (rq_channels s)"
  shows "a < length (rq_channels s')" "rq_submitted s' ! a = rq_submitted s ! a"
  using assms by (auto simp: grows_def table_inv_def nth_append)

lemma poller_ok_grows: "table_inv s \<Longrightarrow> grows s s' \<Longrightarrow> poller_ok s p \<Longrightarrow> poller_ok s' p"
  using grows_submitted[of s s' "po_channel p"] by (simp add: poller_ok_def)

lemma reply_ok_grows:
  assumes "table_inv s" "grows s s'" "reply_ok s x"
  shows "reply_ok s' x"
  unfolding reply_ok_def
proof (intro allI impI)
  fix r assume "snd x = Some r"
  then obtain a where a: "a < length (rq_channels s)" "fst (rq_submitted s ! a) = fst x"
    "r = RespPending (fst x) 30 \<or> wrap_response_channel (fst x) False (rq_channels s ! a) = Some r"
    using assms(3) by (auto simp: reply_ok_def)
  have "wrap_response_channel (fst x) False (rq_channels s' ! a) = Some r"
    if "wrap_response_channel (fst x) False (rq_channels s ! a) = Some r"
  proof -
    have "rq_channels s ! a \<noteq> Waiting" using that by (auto simp: wrap_response_channel_def)
    then have "rq_channels s' ! a = rq_channels s ! a" using assms(2) a(1) by (simp add: grows_def)
    with that show ?thesis by simp
  qed
  with a grows_submitted[OF assms(1,2) a(1)]
  show "\<exists>a < length (rq_channels s'). fst (rq_submitted s' ! a) = fst x
     \<and> (r = RespPending (fst x) 30 \<or> wrap_response_channel (fst x) False (rq_channels s' ! a) = Some r)"
    by auto
qed

text \<open>A poll finds the channel of the id.\<close>

lemma requests_task:
  assumes "table_inv s" "rq_requests s i = Some a"
  obtains t where "t \<in> set (rq_tasks s)" "rt_id t = i" "rt_channel t = a"
    "a < length (rq_channels s)" "fst (rq_submitted s ! a) = i"
proof -
  from assms have "(i, a) \<in> set (map (\<lambda>t. (rt_id t, rt_channel t)) (rq_tasks s))"
    by (auto simp: table_inv_def dest: map_of_SomeD)
  then obtain t where t: "t \<in> set (rq_tasks s)" "rt_id t = i" "rt_channel t = a" by auto
  with assms(1) that show thesis by (auto simp: table_inv_def task_ok_def)
qed

lemma wake_reply:
  assumes "poller_ok s (rq_pollers s ! k)"
  shows "wake_poller k s = s \<or> (\<exists>x. reply_ok s x
     \<and> wake_poller k s = s\<lparr>rq_pollers := take k (rq_pollers s) @ drop (Suc k) (rq_pollers s), rq_replies := x # rq_replies s\<rparr>)"
proof (cases "wrap_response_channel (po_id (rq_pollers s ! k)) (deadline_passed (rq_now s) (po_deadline (rq_pollers s ! k)))
      (rq_channels s ! po_channel (rq_pollers s ! k))")
  case None
  then show ?thesis by (simp add: wake_poller_def Let_def)
next
  case (Some r)
  then have "reply_ok s (po_id (rq_pollers s ! k), Some r)"
    using assms unfolding reply_ok_def poller_ok_def
    by (intro allI impI exI[of _ "po_channel (rq_pollers s ! k)"])
      (auto simp: wrap_response_channel_def split: channel.splits if_splits)
  with Some show ?thesis by (auto simp: wake_poller_def Let_def)
qed

lemma reply_inv_start: "reply_inv (service_create m)"
  using table_inv_start[of m] by (simp add: reply_inv_def service_create_def)

lemma reply_inv_step:
  assumes inv: "reply_inv s" and step: "service_step debug e s = Ret s'"
  shows "reply_inv s'"
proof -
  have t: "table_inv s" using inv by (simp add: reply_inv_def)
  note t' = table_inv_step[OF t step] and g = step_grows[OF t step]
  have kept: "reply_inv s'" if "set (rq_pollers s') \<subseteq> set (rq_pollers s)" "set (rq_replies s') \<subseteq> set (rq_replies s)"
    using that inv t' poller_ok_grows[OF t g] reply_ok_grows[OF t g] by (auto simp: reply_inv_def)
  from step show ?thesis
  proof (cases rule: service_step_cases)
    case (submit i nm op f)
    then show ?thesis by (intro kept) (auto simp: create_symbolication_request_def split: option.splits)
  next
    case (poll i timeout)
    show ?thesis
    proof (cases "rq_requests s i")
      case None
      then have "reply_ok s' (i, None)" by (simp add: reply_ok_def)
      then show ?thesis using inv t' poller_ok_grows[OF t g] reply_ok_grows[OF t g] poll None
        by (auto simp: reply_inv_def get_response_def)
    next
      case (Some a)
      then have "poller_ok s \<lparr>po_id = i, po_channel = a, po_deadline = map_option (\<lambda>t. rq_now s + t * 1000) timeout\<rparr>"
        using requests_task[OF t Some] by (auto simp: poller_ok_def)
      then show ?thesis using inv t' poller_ok_grows[OF t g] reply_ok_grows[OF t g] poll Some
        by (auto simp: reply_inv_def get_response_def)
    qed
  next
    case (wake k)
    then have "poller_ok s (rq_pollers s ! k)" using inv by (simp add: reply_inv_def)
    from wake_reply[OF this] show ?thesis
    proof
      assume "wake_poller k s = s"
      with wake inv show ?thesis by simp
    next
      assume "\<exists>x. reply_ok s x \<and> wake_poller k s = s\<lparr>rq_pollers := take k (rq_pollers s) @ drop (Suc k) (rq_pollers s), rq_replies := x # rq_replies s\<rparr>"
      then obtain x where "reply_ok s x" "s' = s\<lparr>rq_pollers := take k (rq_pollers s) @ drop (Suc k) (rq_pollers s), rq_replies := x # rq_replies s\<rparr>"
        using wake by auto
      then show ?thesis using inv t' poller_ok_grows[OF t g] reply_ok_grows[OF t g]
        by (auto simp: reply_inv_def dest: in_set_takeD in_set_dropD)
    qed
  qed ((rule kept; auto simp: task_alts map_out_eq_Ret)+)
qed

interpretation told: invariant "service_step debug" "service_create m" reply_inv
  by unfold_locales (auto intro: reply_inv_start reply_inv_step)

section \<open>Time goes on\<close>

text \<open>What is due can be handled, after which the clock can move.\<close>

definition due :: "nat \<Rightarrow> nat option \<Rightarrow> bool" where
  "due now d \<longleftrightarrow> (case d of Some d \<Rightarrow> d \<le> now | None \<Rightarrow> False)"

definition number_due :: "request_service \<Rightarrow> nat" where
  "number_due s = length (filter (\<lambda>t. due (rq_now s) (task_deadline t)) (rq_tasks s))
     + length (filter (\<lambda>p. due (rq_now s) (po_deadline p)) (rq_pollers s))"

lemma not_due: "\<not> due now d \<longleftrightarrow> not_before (Suc now) d"
  by (auto simp: due_def not_before_def split: option.splits)

lemma may_advance_one: "number_due s = 0 \<Longrightarrow> may_advance (Suc (rq_now s)) s"
  by (auto simp: number_due_def may_advance_def filter_empty_conv list_all_iff not_due)

lemma handle_due_task:
  assumes inv: "counter_inv (Some l) s" and split: "rq_tasks s = xs @ t # ys" and t: "due (rq_now s) (task_deadline t)"
  shows "\<exists>e s'. service_step debug e s = Ret s' \<and> rq_now s' = rq_now s \<and> number_due s' < number_due s"
proof (cases "rt_phase t")
  case Queued
  with t show ?thesis by (simp add: due_def task_deadline_def)
next
  case (Running d)
  then have d: "d \<le> rq_now s" using t by (simp add: due_def task_deadline_def)
  from limited_drop[OF inv split] Running obtain c where c: "max_drop_token debug (rt_current t) (rq_current s) = Ret (Token None, c)"
    by auto
  have p: "phase_at s (length xs) = Some (Running d)" using split Running by (auto simp: phase_at_Some)
  obtain s' where s': "service_step debug (TimeoutElapsed (length xs)) s = Ret s'" "rq_now s' = rq_now s" "rq_pollers s' = rq_pollers s"
    "rq_tasks s' = xs @ t\<lparr>rt_current := Token None, rt_phase := Lingering (rq_now s + max_poll_delay)\<rparr> # ys"
    using c d p by (auto simp: complete_task_alt[OF split] simp del: split)
  have "number_due s' < number_due s"
    using t unfolding number_due_def s' split by (simp add: due_def task_deadline_def max_poll_delay_def)
  with s' show ?thesis by blast
next
  case (Lingering d)
  then have d: "d \<le> rq_now s" using t by (simp add: due_def task_deadline_def)
  have p: "phase_at s (length xs) = Some (Lingering d)" using split Lingering by (auto simp: phase_at_Some)
  obtain s' where s': "service_step debug (DelayOver (length xs)) s = Ret s'" "rq_now s' = rq_now s" "rq_pollers s' = rq_pollers s"
    "rq_tasks s' = xs @ ys"
    using d p by (auto simp: remove_task_alt[OF split])
  have "number_due s' < number_due s" using t unfolding number_due_def s' split by simp
  with s' show ?thesis by blast
qed

lemma handle_due_poller:
  assumes "rq_pollers s = xs @ p # ys" "due (rq_now s) (po_deadline p)"
  shows "\<exists>e s'. service_step debug e s = Ret s' \<and> rq_now s' = rq_now s \<and> number_due s' < number_due s"
proof -
  have "deadline_passed (rq_now s) (po_deadline p)" using assms(2) by (simp add: due_def deadline_passed_def split: option.splits)
  then obtain r where "wrap_response_channel (po_id p) (deadline_passed (rq_now s) (po_deadline p)) (rq_channels s ! po_channel p) = Some r"
    by (cases "rq_channels s ! po_channel p") (auto simp: wrap_response_channel_def)
  then have "service_step debug (Wake (length xs)) s = Ret (s\<lparr>rq_pollers := xs @ ys, rq_replies := (po_id p, Some r) # rq_replies s\<rparr>)"
    using assms(1) by (simp add: wake_poller_def)
  moreover have "number_due (s\<lparr>rq_pollers := xs @ ys, rq_replies := (po_id p, Some r) # rq_replies s\<rparr>) < number_due s"
    using assms by (simp add: number_due_def)
  ultimately show ?thesis by fastforce
qed

lemma handle_due:
  assumes inv: "counter_inv (Some l) s" and some: "number_due s \<noteq> 0"
  shows "\<exists>e s'. service_step debug e s = Ret s' \<and> rq_now s' = rq_now s \<and> number_due s' < number_due s"
proof (cases "\<exists>t \<in> set (rq_tasks s). due (rq_now s) (task_deadline t)")
  case True
  then obtain t xs ys where "rq_tasks s = xs @ t # ys" "due (rq_now s) (task_deadline t)" by (metis split_list)
  then show ?thesis by (rule handle_due_task[OF inv])
next
  case False
  then have "\<exists>p \<in> set (rq_pollers s). due (rq_now s) (po_deadline p)"
    using some by (auto simp: number_due_def filter_empty_conv)
  then obtain p xs ys where "rq_pollers s = xs @ p # ys" "due (rq_now s) (po_deadline p)" by (metis split_list)
  then show ?thesis by (rule handle_due_poller)
qed

lemma all_due_handled:
  assumes "counter_inv (Some l) s"
  shows "\<exists>es s'. run_steps (service_step debug) es s = Ret s' \<and> rq_now s' = rq_now s \<and> number_due s' = 0"
  using assms
proof (induction "number_due s" arbitrary: s rule: less_induct)
  case less
  show ?case
  proof (cases "number_due s = 0")
    case True
    have "run_steps (service_step debug) [] s = Ret s" by simp
    with True show ?thesis by blast
  next
    case False
    then obtain e s1 where s1: "service_step debug e s = Ret s1" "rq_now s1 = rq_now s" "number_due s1 < number_due s"
      using handle_due[OF less.prems] by blast
    from less.hyps[OF s1(3) counter_inv_step[OF less.prems s1(1)]] obtain es s'
      where "run_steps (service_step debug) es s1 = Ret s'" "rq_now s' = rq_now s1" "number_due s' = 0" by blast
    then have "run_steps (service_step debug) (e # es) s = Ret s' \<and> rq_now s' = rq_now s \<and> number_due s' = 0"
      using s1 by simp
    then show ?thesis by blast
  qed
qed

lemma run_append: "run_steps step (xs @ ys) s = bind_out (run_steps step xs s) (run_steps step ys)"
  by (induction xs arbitrary: s) (auto simp: bind_out_def split: outcome.splits)

lemma time_goes_on:
  assumes "counter_inv (Some l) s"
  shows "\<exists>es s'. run_steps (service_step debug) es s = Ret s' \<and> rq_now s' = rq_now s + n"
proof (induction n)
  case 0
  have "run_steps (service_step debug) [] s = Ret s" by simp
  then show ?case by fastforce
next
  case (Suc n)
  then obtain es s1 where s1: "run_steps (service_step debug) es s = Ret s1" "rq_now s1 = rq_now s + n" by blast
  have "counter_inv (Some l) s1" by (rule counted.run_inv[OF assms s1(1)])
  from all_due_handled[OF this] obtain es' s2
    where s2: "run_steps (service_step debug) es' s1 = Ret s2" "rq_now s2 = rq_now s1" "number_due s2 = 0" by blast
  have "service_step debug (Advance 1) s2 = Ret (s2\<lparr>rq_now := Suc (rq_now s2)\<rparr>)"
    using may_advance_one[OF s2(3)] by simp
  then have "run_steps (service_step debug) (es @ es' @ [Advance 1]) s = Ret (s2\<lparr>rq_now := Suc (rq_now s2)\<rparr>)"
    using s1 s2 by (simp add: run_append)
  moreover have "rq_now (s2\<lparr>rq_now := Suc (rq_now s2)\<rparr>) = rq_now s + Suc n" using s1 s2 by simp
  ultimately show ?case by blast
qed

text \<open>A waiting channel belongs to a task, whose timeout has not passed once it has started.\<close>

lemma waiting_until_deadline:
  assumes "table_inv s" "a < length (rq_channels s)" "rq_channels s ! a = Waiting"
  obtains t where "t \<in> set (rq_tasks s)" "rt_channel t = a" "rt_phase t = Queued \<or> (\<exists>d. rt_phase t = Running d \<and> rq_now s \<le> d)"
proof -
  have "channel_ok (rq_now s) (rq_submitted s ! a) (rq_tasks s) a Waiting" using assms by (auto simp: table_inv_def)
  then obtain t where t: "t \<in> set (rq_tasks s)" "rt_channel t = a" "unfinished (rt_phase t)" by (auto simp: channel_ok_def)
  moreover have "task_ok (rq_now s) (rq_submitted s) (rq_channels s) t" using assms t by (simp add: table_inv_def)
  ultimately show thesis using that by (cases "rt_phase t") (auto simp: task_ok_def)
qed

text \<open>A task that runs has its deadline until its channel is no longer waiting.\<close>

definition runs_until :: "nat \<Rightarrow> nat \<Rightarrow> request_service \<Rightarrow> bool" where
  "runs_until a d s \<longleftrightarrow> a < length (rq_channels s)
     \<and> (rq_channels s ! a = Waiting \<longrightarrow> (\<exists>t \<in> set (rq_tasks s). rt_channel t = a \<and> rt_phase t = Running d))"

lemma runs_until_step:
  assumes inv: "table_inv s" and run: "runs_until a d s" and step: "service_step debug e s = Ret s'"
  shows "runs_until a d s'"
proof (cases "rq_channels s ! a = Waiting")
  case False
  with run step_grows[OF inv step] show ?thesis by (auto simp: runs_until_def grows_def)
next
  case True
  with run obtain t where t: "t \<in> set (rq_tasks s)" "rt_channel t = a" "rt_phase t = Running d" and a: "a < length (rq_channels s)"
    by (auto simp: runs_until_def)
  have len: "a < length (rq_channels s')" using step_grows[OF inv step] a by (simp add: grows_def)
  from step have "t \<in> set (rq_tasks s') \<or> rq_channels s' ! a \<noteq> Waiting"
  proof (cases rule: service_step_cases)
    case (ready xs t1 ys d1 r)
    then show ?thesis using t a by (cases "t = t1") (auto simp: complete_task_alt map_out_eq_Ret)
  next
    case (elapsed xs t1 ys d1)
    then show ?thesis using t a by (cases "t = t1") (auto simp: complete_task_alt map_out_eq_Ret)
  next
    case (crash xs t1 ys d1)
    then show ?thesis using t a by (cases "t = t1") (auto simp: crash_task_alt map_out_eq_Ret)
  qed (use t in \<open>auto simp: create_symbolication_request_def start_task_alt remove_task_alt get_response_def wake_poller_def Let_def
        split: option.splits\<close>)
  then show ?thesis using t len by (auto simp: runs_until_def)
qed

lemma runs_until_run:
  "table_inv s \<Longrightarrow> runs_until a d s \<Longrightarrow> run_steps (service_step debug) es s = Ret s' \<Longrightarrow> runs_until a d s'"
proof (induction es arbitrary: s)
  case (Cons e es)
  then obtain s1 where "service_step debug e s = Ret s1" "run_steps (service_step debug) es s1 = Ret s'"
    by (auto simp: bind_out_eq_Ret)
  with Cons runs_until_step table_inv_step show ?case by metis
qed simp

lemma late_is_answered:
  assumes "table_inv s" "runs_until a d s" "d < rq_now s"
  shows "rq_channels s ! a \<noteq> Waiting"
proof
  assume "rq_channels s ! a = Waiting"
  with assms(2) obtain t where "t \<in> set (rq_tasks s)" "rt_phase t = Running d" by (auto simp: runs_until_def)
  with assms(1) have "rq_now s \<le> d" by (auto simp: table_inv_def task_ok_def)
  with assms(3) show False by simp
qed

text \<open>The id of a sent response is in the map exactly while the response is kept.\<close>

lemma sent_is_kept:
  assumes inv: "table_inv s" and a: "a < length (rq_channels s)" "rq_channels s ! a = Sent t0 r"
  shows "rq_now s < t0 + max_poll_delay \<Longrightarrow> rq_requests s (fst (rq_submitted s ! a)) = Some a"
    and "t0 + max_poll_delay < rq_now s \<Longrightarrow> rq_requests s (fst (rq_submitted s ! a)) = None"
proof -
  assume "rq_now s < t0 + max_poll_delay"
  moreover have "channel_ok (rq_now s) (rq_submitted s ! a) (rq_tasks s) a (Sent t0 r)" using inv a by (metis table_inv_def)
  ultimately obtain t where t: "t \<in> set (rq_tasks s)" "rt_channel t = a" by (auto simp: channel_ok_def)
  then have "(rt_id t, a) \<in> set (map (\<lambda>t. (rt_id t, rt_channel t)) (rq_tasks s))" by auto
  moreover have "distinct (map fst (map (\<lambda>t. (rt_id t, rt_channel t)) (rq_tasks s)))"
    using table_ids[OF inv] by (simp add: comp_def)
  moreover have "rt_id t = fst (rq_submitted s ! a)" using inv t by (auto simp: table_inv_def task_ok_def)
  ultimately show "rq_requests s (fst (rq_submitted s ! a)) = Some a" using inv by (simp add: table_inv_def)
next
  assume late: "t0 + max_poll_delay < rq_now s"
  show "rq_requests s (fst (rq_submitted s ! a)) = None"
  proof (rule ccontr)
    assume "rq_requests s (fst (rq_submitted s ! a)) \<noteq> None"
    then obtain b where "rq_requests s (fst (rq_submitted s ! a)) = Some b" by blast
    then obtain t where t: "t \<in> set (rq_tasks s)" "rt_channel t = b" "b < length (rq_channels s)"
        "fst (rq_submitted s ! b) = fst (rq_submitted s ! a)" by (rule requests_task[OF inv]) auto
    have "ids_of s ! b = ids_of s ! a" "a < length (ids_of s)" "b < length (ids_of s)"
      using inv t a by (simp_all add: ids_of_def table_inv_def)
    with inv have "b = a" by (simp add: table_inv_def nth_eq_iff_index_eq)
    moreover have "task_ok (rq_now s) (rq_submitted s) (rq_channels s) t" using inv t by (simp add: table_inv_def)
    ultimately show False using t a late by (auto simp: task_ok_def split: phase.splits)
  qed
qed

section \<open>Answers to one client\<close>

text \<open>The limit, if there is one, counts the requests in flight.\<close>

definition limit_reached :: "usize option \<Rightarrow> request_service \<Rightarrow> bool" where
  "limit_reached m s \<longleftrightarrow> (\<exists>l. m = Some l \<and> in_flight s = unat l)"

lemma rejected_at_limit:
  assumes "counter_inv m s"
  shows "max_try_incr (rq_current s) = None \<longleftrightarrow> limit_reached m s"
proof (cases m)
  case None
  with assms show ?thesis by (simp add: max_try_incr_None counter_inv_def limit_reached_def)
next
  case (Some l)
  have "unat (of_nat (in_flight s) :: usize) = in_flight s" using assms Some by (auto simp: counter_inv_def intro: unat_of_nat_id)
  then show ?thesis using assms Some
    by (auto simp: max_try_incr_None counter_inv_def limit_reached_def word_le_nat_alt)
qed

text \<open>What may be told of a request with these options and this job.\<close>

definition client_told :: "request_id \<Rightarrow> request_options \<Rightarrow> job \<Rightarrow> symbolication_response \<Rightarrow> bool" where
  "client_told i options f r \<longleftrightarrow> r = RespPending i 30 \<or> answers options f r \<or> f = Panic \<and> r = RespInternalError"

lemma reply_of_submission:
  assumes "reply_inv s" and "(i, Some r) \<in> set (rq_replies s)"
  obtains options f where "(i, options, f) \<in> set (rq_submitted s)" "client_told i options f r"
proof -
  from assms obtain a where a: "a < length (rq_channels s)" "fst (rq_submitted s ! a) = i"
    "r = RespPending i 30 \<or> wrap_response_channel i False (rq_channels s ! a) = Some r"
    by (fastforce simp: reply_inv_def reply_ok_def)
  obtain options f where sub: "rq_submitted s ! a = (i, options, f)" using a(2) by (cases "rq_submitted s ! a") auto
  have "a < length (rq_submitted s)" using assms(1) a(1) by (simp add: reply_inv_def table_inv_def)
  with sub have "(i, options, f) \<in> set (rq_submitted s)" by (metis nth_mem)
  moreover have "channel_ok (rq_now s) (i, options, f) (rq_tasks s) a (rq_channels s ! a)"
    using assms(1) a(1) sub by (auto simp: reply_inv_def table_inv_def)
  then have "client_told i options f r"
    using a(3) by (auto simp: client_told_def channel_ok_def wrap_response_channel_def split: channel.splits)
  ultimately show thesis by (rule that)
qed

lemma submitted_once:
  "table_inv s \<Longrightarrow> (i, options, f) \<in> set (rq_submitted s) \<Longrightarrow> (i, options', f') \<in> set (rq_submitted s) \<Longrightarrow> options' = options \<and> f' = f"
  by (auto simp: table_inv_def ids_of_def dest: eq_key_imp_eq_value)

lemma told_of_accepted:
  assumes "run_steps (service_step debug) es s = Ret s'" and "reply_inv s"
    and "(i, options, f) \<in> set (rq_submitted s)" and "(i, Some r) \<in> set (rq_replies s')"
  shows "client_told i options f r"
proof -
  have inv: "reply_inv s'" by (rule told.run_inv[OF assms(2,1)])
  have t: "table_inv s" using assms(2) by (simp add: reply_inv_def)
  from run_grows[OF t assms(1)] assms(3) have "(i, options, f) \<in> set (rq_submitted s')" by (auto simp: grows_def)
  with reply_of_submission[OF inv assms(4)] submitted_once inv show ?thesis by (metis reply_inv_def)
qed

end
