(* ===== verification/RequestsProperties.thy ===== *)
theory RequestsProperties
  imports RequestsCorrect
begin

text \<open>
  The properties of the request service, with a run of two polls as their witness: the first
  poll times out while the task is running, the second gets the response.
\<close>

section \<open>A concrete run\<close>

definition demo_request :: request_id where
  "demo_request = [1, 2]"

definition demo_response :: completed_native where
  "demo_response = complete_response \<lparr>np_signal = None, np_stacktraces = [], np_modules = [], np_metrics = default_metrics\<rparr>"

definition demo_job :: job where
  "demo_job = Ret (Inr (NativeResponse demo_response))"

definition demo_events :: "service_event list" where
  "demo_events = [Submit demo_request ''symbolicate'' default_options demo_job, Start 0, Poll demo_request (Some 1), Advance 1000, Wake 0,
     FutureReady 0, Poll demo_request None, Wake 0]"

definition demo_started :: request_service where
  "demo_started = (case run_service True (take 2 demo_events) (service_create (Some 4)) of Ret s \<Rightarrow> s | Panic \<Rightarrow> service_create None)"

definition demo_served :: request_service where
  "demo_served = (case run_service True demo_events (service_create (Some 4)) of Ret s \<Rightarrow> s | Panic \<Rightarrow> service_create None)"

lemmas demo_service_defs = run_service_def demo_events_def demo_request_def demo_job_def service_create_def max_counter_new_def
  counter_new_def create_symbolication_request_def max_try_incr_def counter_try_incr_def phase_at_def start_task_def
  complete_task_def max_drop_token_def drop_token_def map_out_def get_response_def wake_poller_def wrap_response_channel_def
  deadline_passed_def may_advance_def not_before_def task_deadline_def symbolication_timeout_def max_poll_delay_def
  task_response_def demo_response_def complete_response_def native_response.defs completed_native.defs clear_dif_candidates_def default_options_def bind_out_def

lemma demo_started_run: "run_service True (take 2 demo_events) (service_create (Some 4)) = Ret demo_started"
  by (simp add: demo_started_def demo_service_defs)

lemma demo_served_run: "run_service True demo_events (service_create (Some 4)) = Ret demo_served"
  by (simp add: demo_served_def demo_service_defs)

lemma demo_started_state:
  "length (rq_tasks demo_started) = 1" "rt_phase (rq_tasks demo_started ! 0) = Running 900000"
  "rt_channel (rq_tasks demo_started ! 0) = 0" "rq_now demo_started = 0"
  by (simp_all add: demo_started_def demo_service_defs)

lemma demo_served_state:
  "rq_replies demo_served = [(demo_request, Some (RespCompleted (NativeResponse demo_response))), (demo_request, Some (RespPending demo_request 30))]"
  "rq_channels demo_served = [Sent 1000 (RespCompleted (NativeResponse demo_response))]"
  "rq_now demo_served = 1000" "rq_submitted demo_served = [(demo_request, default_options, demo_job)]"
  "rq_pollers demo_served = []"
  by (simp_all add: demo_served_def demo_service_defs)

section \<open>Properties\<close>

lemma no_candidates:
  assumes "task_response options x = RespCompleted (NativeResponse res)" "\<not> op_dif_candidates options" "m \<in> set (np_modules res)"
  shows "oi_candidates m = []"
proof -
  obtain response where "x = Some (Inr response)" using assms(1) by (auto simp: task_response_def split: option.splits sum.splits)
  with assms show ?thesis by (cases response) (auto simp: task_response_def demo_response_def complete_response_def native_response.defs completed_native.defs clear_dif_candidates_def)
qed

lemmas run_counter = counted.reached_inv[folded run_service_def]
lemmas run_table = table.reached_inv[folded run_service_def]
lemmas run_replies = told.reached_inv[folded run_service_def]

text \<open>
  C8. Whatever the requests, their outcomes and the interleaving of their tasks, with a limit on
  concurrent requests no operation of the service panics, even in a debug build where the
  counter asserts: the number of requests in flight is what the counter says and never exceeds
  the limit, a new request is rejected exactly when the limit is reached, and every accepted
  request is in flight, processed, or ended by a panic of its task.
\<close>

theorem requests_limited:
  "\<exists>s. run_service debug es (service_create (Some l)) = Ret s
     \<and> in_flight s \<le> unat l \<and> counter_value (rq_current s) = of_nat (in_flight s)
     \<and> (fst (create_symbolication_request i task_name options f s) = Inl MaxRequestsError \<longleftrightarrow> in_flight s = unat l)
     \<and> rq_accepted s = rq_processed s + rq_panicked s + in_flight s"
proof -
  obtain s where s: "run_steps (service_step debug) es (service_create (Some l)) = Ret s" "counter_inv (Some l) s"
    using limited_service.run_returns[OF counter_inv_start] by blast
  have "unat (of_nat (in_flight s) :: usize) = in_flight s" using s(2) by (auto simp: counter_inv_def intro: unat_of_nat_id)
  then have "max_try_incr (rq_current s) = None \<longleftrightarrow> in_flight s = unat l"
    using s(2) by (auto simp: max_try_incr_None counter_inv_def word_le_nat_alt)
  then have "fst (create_symbolication_request i task_name options f s) = Inl MaxRequestsError \<longleftrightarrow> in_flight s = unat l"
    by (cases "max_try_incr (rq_current s)") (auto simp: create_symbolication_request_def)
  with s show ?thesis by (auto simp: run_service_def counter_inv_def)
qed

text \<open>
  C11. What a client is told of a request is told of one that was accepted under that id: that it
  is pending, to come back in 30 seconds; or its outcome, which is the completed response, the
  error text or the timeout of the job that was submitted; or an internal error, only when that
  job panicked. Unless the options asked for them, a native response names no candidates.
\<close>

theorem replies_faithful:
  assumes "run_service debug es (service_create m) = Ret s" and "(i, Some r) \<in> set (rq_replies s)"
  shows "\<exists>options f. (i, options, f) \<in> set (rq_submitted s)
     \<and> (r = RespPending i 30 \<or> r = RespTimeout \<or> (\<exists>x. f = Ret x \<and> r = task_response options (Some x)) \<or> f = Panic \<and> r = RespInternalError)
     \<and> (\<forall>res. r = RespCompleted (NativeResponse res) \<and> \<not> op_dif_candidates options \<longrightarrow> (\<forall>m \<in> set (np_modules res). oi_candidates m = []))"
proof -
  note inv = run_replies[OF assms(1)] run_table[OF assms(1)]
  then obtain a where a: "a < length (rq_channels s)" "fst (rq_submitted s ! a) = i"
    "r = RespPending i 30 \<or> wrap_response_channel i False (rq_channels s ! a) = Some r"
    using assms(2) by (fastforce simp: reply_inv_def reply_ok_def)
  obtain options f where sub: "rq_submitted s ! a = (i, options, f)" using a(2) by (cases "rq_submitted s ! a") auto
  moreover have "a < length (rq_submitted s)" using inv(2) a(1) by (simp add: table_inv_def)
  ultimately have "(i, options, f) \<in> set (rq_submitted s)" by (metis nth_mem)
  moreover have "channel_ok (rq_now s) (i, options, f) (rq_tasks s) a (rq_channels s ! a)"
    using inv(2) a(1) sub by (auto simp: table_inv_def)
  then have "r = RespPending i 30 \<or> answers options f r \<or> f = Panic \<and> r = RespInternalError"
    using a(3) by (auto simp: channel_ok_def wrap_response_channel_def split: channel.splits)
  ultimately show ?thesis
    by (intro exI[of _ options] exI[of _ f]) (auto simp: answers_def dest: no_candidates[OF sym])
qed

lemma replies_faithful_witness:
  "\<exists>options f. (demo_request, options, f) \<in> set (rq_submitted demo_served)
     \<and> (\<exists>x. f = Ret x \<and> RespCompleted (NativeResponse demo_response) = task_response options (Some x))"
  using replies_faithful[OF demo_served_run, of demo_request "RespCompleted (NativeResponse demo_response)"]
  by (auto simp: demo_served_state)

text \<open>
  Once a request has an outcome, it is the same for every client and every poll: two replies
  for one id that are not pending are equal.
\<close>

theorem final_replies_agree:
  assumes "run_service debug es (service_create m) = Ret s"
    and "(i, Some r) \<in> set (rq_replies s)" and "(i, Some r') \<in> set (rq_replies s)"
    and "r \<noteq> RespPending i 30" and "r' \<noteq> RespPending i 30"
  shows "r = r'"
proof -
  note inv = run_replies[OF assms(1)] run_table[OF assms(1)]
  have told: "\<exists>a < length (rq_channels s). ids_of s ! a = i \<and> wrap_response_channel i False (rq_channels s ! a) = Some q"
    if "(i, Some q) \<in> set (rq_replies s)" "q \<noteq> RespPending i 30" for q
    using inv that by (fastforce simp: reply_inv_def reply_ok_def table_inv_def ids_of_def)
  from told[OF assms(2,4)] told[OF assms(3,5)] obtain a b
    where ab: "a < length (rq_channels s)" "b < length (rq_channels s)" "ids_of s ! a = ids_of s ! b"
      "wrap_response_channel i False (rq_channels s ! a) = Some r" "wrap_response_channel i False (rq_channels s ! b) = Some r'"
    by metis
  have "distinct (ids_of s)" "length (ids_of s) = length (rq_channels s)" using inv(2) by (simp_all add: table_inv_def ids_of_def)
  then have "a = b" using ab nth_eq_iff_index_eq by metis
  with ab show ?thesis by simp
qed

lemma final_replies_agree_witness:
  "RespCompleted (NativeResponse demo_response)
   = RespCompleted (NativeResponse demo_response)"
  by (rule final_replies_agree[OF demo_served_run, of demo_request]) (simp_all add: demo_served_state)

text \<open>
  C10. A request that has started is answered within 15 minutes, whatever else the service does:
  at any later state past the deadline of its task its channel holds an outcome; and such states
  are always reached, since time is never blocked.
\<close>

theorem requests_answered_in_time:
  assumes "run_service debug es (service_create (Some l)) = Ret s"
    and "k < length (rq_tasks s)" and "rt_phase (rq_tasks s ! k) = Running d"
  shows "d \<le> rq_now s + 15 * 60 * 1000
     \<and> (\<forall>es' s'. run_service debug es' s = Ret s' \<and> d < rq_now s' \<longrightarrow> rq_channels s' ! rt_channel (rq_tasks s ! k) \<noteq> Waiting)
     \<and> (\<exists>es' s'. run_service debug es' s = Ret s' \<and> d < rq_now s')"
proof (intro conjI allI impI)
  let ?t = "rq_tasks s ! k"
  note inv = run_table[OF assms(1)] and c = run_counter[OF assms(1)]
  have t: "?t \<in> set (rq_tasks s)" using assms(2) by simp
  with inv have ok: "task_ok (rq_now s) (rq_submitted s) (rq_channels s) ?t" by (simp add: table_inv_def)
  then show "d \<le> rq_now s + 15 * 60 * 1000" using assms(3) by (simp add: task_ok_def symbolication_timeout_def)
  have r: "runs_until (rt_channel ?t) d s" using ok t assms(3) by (auto simp: runs_until_def task_ok_def)
  show "rq_channels s' ! rt_channel ?t \<noteq> Waiting" if "run_service debug es' s = Ret s' \<and> d < rq_now s'" for es' s'
  proof -
    from that have run: "run_steps (service_step debug) es' s = Ret s'" by (simp add: run_service_def)
    show ?thesis
      by (rule late_is_answered[OF table.run_inv[OF inv run] runs_until_run[OF inv r run]]) (use that in simp)
  qed
  obtain es' s' where "run_steps (service_step debug) es' s = Ret s'" "rq_now s' = rq_now s + Suc d"
    using time_goes_on[OF c] by blast
  then have "run_service debug es' s = Ret s' \<and> d < rq_now s'" by (simp add: run_service_def)
  then show "\<exists>es' s'. run_service debug es' s = Ret s' \<and> d < rq_now s'" by blast
qed

lemma requests_answered_in_time_witness:
  "900000 \<le> rq_now demo_started + 15 * 60 * 1000 \<and> (\<exists>es' s'. run_service True es' demo_started = Ret s' \<and> 900000 < rq_now s')"
  using requests_answered_in_time[OF demo_started_run, of 0 900000] by (simp add: demo_started_state)

text \<open>
  C12. The outcome of a request stays available for 90 seconds after it was sent: until then a
  poll with any timeout is answered with it at once. Afterwards the id is unknown.
\<close>

theorem responses_pollable:
  assumes "run_service debug es (service_create m) = Ret s"
    and "a < length (rq_channels s)" and "rq_channels s ! a = Sent t0 r"
  shows "(rq_now s < t0 + 90 * 1000 \<longrightarrow>
      (\<exists>s'. run_service debug [Poll (fst (rq_submitted s ! a)) timeout, Wake (length (rq_pollers s))] s = Ret s'
        \<and> rq_replies s' = (fst (rq_submitted s ! a), Some r) # rq_replies s \<and> rq_now s' = rq_now s))
    \<and> (t0 + 90 * 1000 < rq_now s \<longrightarrow>
      (\<exists>s'. run_service debug [Poll (fst (rq_submitted s ! a)) timeout] s = Ret s'
        \<and> rq_replies s' = (fst (rq_submitted s ! a), None) # rq_replies s))"
proof (intro conjI impI)
  note k = sent_is_kept[OF run_table[OF assms(1)] assms(2,3), unfolded max_poll_delay_def]
  show "\<exists>s'. run_service debug [Poll (fst (rq_submitted s ! a)) timeout, Wake (length (rq_pollers s))] s = Ret s'
      \<and> rq_replies s' = (fst (rq_submitted s ! a), Some r) # rq_replies s \<and> rq_now s' = rq_now s"
    if "rq_now s < t0 + 90 * 1000"
    using k(1)[OF that] assms(3)
    by (auto simp: run_service_def get_response_def wake_poller_def wrap_response_channel_def)
  show "\<exists>s'. run_service debug [Poll (fst (rq_submitted s ! a)) timeout] s = Ret s'
      \<and> rq_replies s' = (fst (rq_submitted s ! a), None) # rq_replies s" if "t0 + 90 * 1000 < rq_now s"
    using k(2)[OF that] by (auto simp: run_service_def get_response_def)
qed

lemma responses_pollable_witness:
  "\<exists>s'. run_service True [Poll (fst (rq_submitted demo_served ! 0)) (Some 5), Wake (length (rq_pollers demo_served))] demo_served = Ret s'
      \<and> rq_replies s' = (fst (rq_submitted demo_served ! 0), Some (RespCompleted (NativeResponse demo_response))) # rq_replies demo_served \<and> rq_now s' = rq_now demo_served"
  using responses_pollable[OF demo_served_run, of 0 1000 "RespCompleted (NativeResponse demo_response)" "Some 5"]
  by (simp add: demo_served_state)

end
