(* ===== verification/MinidumpExtensionCorrect.thy ===== *)
theory MinidumpExtensionCorrect
  imports MinidumpExtension
begin

text \<open>
  Reading the stack trace extension of a minidump: no read leaves the buffer, whatever its bytes,
  and what a client writes by the documented format is read back.
\<close>

section \<open>Integers\<close>

lemma field32_write: "length p = off \<Longrightarrow> field32 big off (p @ write_native big 4 n @ q) = word_of_nat n"
  by (simp add: field32_def read_write_native word_of_nat_eq_iff take_bit_eq_mod)

lemma field64_write: "length p = off \<Longrightarrow> field64 big off (p @ write_native big 8 n @ q) = word_of_nat n"
  by (simp add: field64_def read_write_native word_of_nat_eq_iff take_bit_eq_mod)

section \<open>Records and tables\<close>

lemma read_write_thread: "read_thread big (write_thread big t) = t"
proof -
  let ?a = "write_native big 4 (unat (xt_thread_id t))" and ?b = "write_native big 4 (unat (xt_start_frame t))"
  have "field32 big 0 (write_thread big t) = xt_thread_id t"
    using field32_write[of "[]" 0 big "unat (xt_thread_id t)"] by (simp add: write_thread_def)
  moreover have "field32 big 4 (write_thread big t) = xt_start_frame t"
    using field32_write[of ?a 4 big "unat (xt_start_frame t)"] by (simp add: write_thread_def)
  moreover have "field32 big 8 (write_thread big t) = xt_num_frames t"
    using field32_write[of "?a @ ?b" 8 big "unat (xt_num_frames t)" "[]"] by (simp add: write_thread_def)
  ultimately show ?thesis by (simp add: read_thread_def)
qed

lemma read_write_frame: "read_frame big (write_frame big f) = f"
proof -
  have 1: "field64 big 0 (write_frame big f) = xf_instruction_addr f"
    using field64_write[of "[]" 0 big "unat (xf_instruction_addr f)"] by (simp add: write_frame_def)
  have 2: "field32 big 8 (write_frame big f) = xf_symbol_offset f"
    using field32_write[of "write_native big 8 (unat (xf_instruction_addr f))" 8 big "unat (xf_symbol_offset f)"]
    by (simp add: write_frame_def)
  have 3: "field32 big 12 (write_frame big f) = xf_symbol_len f"
    using field32_write[of "write_native big 8 (unat (xf_instruction_addr f)) @ write_native big 4 (unat (xf_symbol_offset f))" 12 big "unat (xf_symbol_len f)" "[]"]
    by (simp add: write_frame_def)
  show ?thesis by (simp add: read_frame_def 1 2 3)
qed

lemma length_write_thread [simp]: "length (write_thread big t) = 12"
  by (simp add: write_thread_def)

lemma length_write_frame [simp]: "length (write_frame big f) = 16"
  by (simp add: write_frame_def)

lemma read_table_write:
  assumes "\<And>x. rd (wr x) = x" and "\<And>x. length (wr x) = sz"
  shows "read_table rd sz (length xs) (concat (map wr xs)) = xs"
  by (induction xs) (simp_all add: assms)

lemma length_read_table [simp]: "length (read_table rd sz n s) = n"
  by (induction n arbitrary: s) simp_all

lemma length_table: "(\<And>x. length (wr x) = sz) \<Longrightarrow> length (concat (map wr xs)) = sz * length xs"
  by (induction xs) simp_all

lemma length_frame_records [simp]: "length (frame_records off fs) = length fs"
  by (induction off fs rule: frame_records.induct) simp_all

lemma length_thread_records [simp]: "length (thread_records start ts) = length ts"
  by (induction start ts rule: thread_records.induct) simp_all

section \<open>Sizes\<close>

text \<open>On 64 bits no size computation wraps: counts have 32 bits.\<close>

definition padding :: "nat \<Rightarrow> nat" where
  "padding n = (if odd n then 4 else 0)"

lemma unat_32_bound: "unat (n :: 32 word) < 2 ^ 32"
  by (rule order_less_le_trans[OF unsigned_less]) simp

lemma unat_ucast_32: "unat (ucast (n :: 32 word) :: 64 word) = unat n"
  using unat_32_bound[of n] by (simp add: unsigned_ucast_eq take_bit_eq_mod)

lemma unat_threads_size: "unat (size_of_thread * ucast (n :: 32 word)) = 12 * unat n"
  using unat_32_bound[of n] by (simp add: size_of_thread_def unat_word_ariths unat_ucast_32)

lemma unat_frames_size: "unat (size_of_frame * ucast (n :: 32 word)) = 16 * unat n"
  using unat_32_bound[of n] by (simp add: size_of_frame_def unat_word_ariths unat_ucast_32)

lemma unat_align: "unat (align_to_eight x) = (if unat x mod 8 = 0 then 0 else 8 - unat x mod 8)"
proof -
  have "unat (x mod 8) = unat x mod 8" by (simp add: unat_mod)
  moreover have "unat (8 - x mod 8) = 8 - unat x mod 8"
    by (subst unat_sub) (simp_all add: unat_mod word_le_nat_alt)
  ultimately show ?thesis by (auto simp: align_to_eight_def Let_def unat_eq_0[symmetric])
qed

lemma threads_padding: "(12 * n) mod 8 = (if odd n then 4 else 0 :: nat)"
  by (cases "odd n") (auto elim!: oddE evenE simp: algebra_simps, presburger+)

lemma padded_threads: "unat (size_of_thread * ucast (n :: 32 word) + align_to_eight (size_of_thread * ucast n)) = 12 * unat n + padding (unat n)"
  using unat_32_bound[of n]
  by (simp add: unat_word_ariths(1) unat_align unat_threads_size threads_padding padding_def)

lemma padded_frames: "size_of_frame * ucast (n :: 32 word) + align_to_eight (size_of_frame * ucast n) = size_of_frame * ucast n"
  by (simp add: align_to_eight_def Let_def unat_eq_0[symmetric] unat_mod unat_frames_size del: unat_eq_0)

lemma padded_header: "size_of_header + align_to_eight size_of_header = 16"
  by (simp add: size_of_header_def align_to_eight_def)

section \<open>Parsing\<close>

text \<open>What the parser computes, over natural numbers and without reads outside of the buffer.\<close>

definition parsed_format :: "bool \<Rightarrow> string \<Rightarrow> nat \<Rightarrow> nat \<Rightarrow> nat \<Rightarrow> extension_format" where
  "parsed_format big buf n m k =
     \<lparr>ex_threads = read_table (read_thread big) 12 n (take (12 * n) (drop 16 buf)),
      ex_frames = read_table (read_frame big) 16 m (take (16 * m) (drop (16 + 12 * n + padding n) buf)),
      ex_symbol_bytes = take k (drop (16 + 12 * n + padding n + 16 * m) buf)\<rparr>"

definition parse_spec :: "bool \<Rightarrow> string \<Rightarrow> extension_error + extension_format" where
  "parse_spec big buf =
     (let h = read_header big (take 16 buf);
          n = unat (rh_num_threads h); m = unat (rh_num_frames h); k = unat (rh_symbol_bytes h)
      in if length buf < 16 then Inl HeaderTooSmall
         else if rh_version h \<noteq> minidump_format_version then Inl WrongVersion
         else if length buf \<noteq> 16 + 12 * n + padding n + 16 * m + k then Inl BadFormatLength
         else Inr (parsed_format big buf n m k))"

lemma padding_le: "padding n \<le> 4"
  by (simp add: padding_def)

lemma raw_slice_Ret: "unat start = a \<Longrightarrow> unat len = b \<Longrightarrow> a + b \<le> length buf \<Longrightarrow> raw_slice buf start len = Ret (take b (drop a buf))"
  by (simp add: raw_slice_def)

text \<open>The tables start at multiples of 8 within the stream, so all depends on the address of the stream.\<close>

lemma aligned_offset: "8 dvd (16 + 12 * n + padding n)"
proof (cases "odd n")
  case True
  then obtain k where "n = 2 * k + 1" by (elim oddE)
  then have "16 + 12 * n + padding n = 8 * (3 * k + 4)" by (simp add: padding_def)
  then show ?thesis by (rule dvdI)
next
  case False
  then obtain k where "n = 2 * k" by (auto elim: evenE)
  then have "16 + 12 * n + padding n = 8 * (3 * k + 2)" by (simp add: padding_def)
  then show ?thesis by (rule dvdI)
qed

lemma four_eight: "8 dvd addr \<Longrightarrow> 4 dvd (addr :: nat)"
  by (rule dvd_trans[of 4 8]) simp_all

lemma raw_ref_header: "4 dvd addr \<Longrightarrow> raw_ref addr align_of_header buf 0 len = raw_slice buf 0 len"
  by (simp add: raw_ref_def align_of_header_def dvd_imp_mod_0)

lemma raw_ref_threads: "4 dvd addr \<Longrightarrow> raw_ref addr align_of_thread buf 16 len = raw_slice buf 16 len"
  by (simp add: raw_ref_def align_of_thread_def mod_eq_0_iff_dvd dvd_add)

lemma raw_ref_frames:
  assumes "unat start = 16 + 12 * n + padding n"
  shows "raw_ref addr align_of_frame buf start len = (if 8 dvd addr then raw_slice buf start len else Panic)"
proof -
  have "8 dvd (addr + unat start) \<longleftrightarrow> 8 dvd addr" unfolding assms by (rule dvd_add_left_iff[OF aligned_offset])
  then show ?thesis by (simp add: raw_ref_def align_of_frame_def mod_eq_0_iff_dvd)
qed

lemma unat_buf_len: "length buf < 2 ^ 64 \<Longrightarrow> unat (word_of_nat (length buf) :: 64 word) = length buf"
  by (simp add: unsigned_of_nat take_bit_eq_mod)

lemma unat_plus_small: "unat (a :: 64 word) = x \<Longrightarrow> unat b = y \<Longrightarrow> x + y < 2 ^ 64 \<Longrightarrow> unat (a + b) = x + y"
  by (simp add: unat_word_ariths(1))

lemma parse_format_at:
  assumes len: "length buf < 2 ^ 64" and addr: "4 dvd addr"
  shows "parse_format big addr buf = (if isl (parse_spec big buf) \<or> 8 dvd addr then Ret (parse_spec big buf) else Panic)"
proof -
  define h where "h = read_header big (take 16 buf)"
  define N where "N = unat (rh_num_threads h)"
  define M where "M = unat (rh_num_frames h)"
  define K where "K = unat (rh_symbol_bytes h)"
  let ?th = "ucast (rh_num_threads h) :: 64 word" and ?fr = "ucast (rh_num_frames h) :: 64 word" and ?sy = "ucast (rh_symbol_bytes h) :: 64 word"
  let ?T = "size_of_thread * ?th + align_to_eight (size_of_thread * ?th)" and ?F = "size_of_frame * ?fr"
  have small: "N < 2 ^ 32" "M < 2 ^ 32" "K < 2 ^ 32" unfolding N_def M_def K_def by (rule unat_32_bound)+
  have T: "unat ?T = 12 * N + padding N" by (simp add: padded_threads N_def)
  have F: "unat ?F = 16 * M" by (simp add: unat_frames_size M_def)
  have S: "unat ?sy = K" by (simp add: unat_ucast_32 K_def)
  have th: "unat ?th = N" "unat ?fr = M" by (simp_all add: unat_ucast_32 N_def M_def)
  have HT: "unat (16 + ?T) = 16 + 12 * N + padding N"
    using unat_plus_small[OF _ T, of 16 16] small padding_le[of N] by simp
  have HTF: "unat (16 + ?T + ?F) = 16 + 12 * N + padding N + 16 * M"
    by (rule unat_plus_small[OF HT F]) (use small padding_le[of N] in simp)
  have HTFS: "unat (16 + ?T + ?F + ?sy) = 16 + 12 * N + padding N + 16 * M + K"
    by (rule unat_plus_small[OF HTF S]) (use small padding_le[of N] in simp)
  have small_header: "(word_of_nat (length buf) :: 64 word) < 16 \<longleftrightarrow> length buf < 16"
    by (simp add: word_less_nat_alt unat_buf_len[OF len])
  have exact: "(word_of_nat (length buf) :: 64 word) \<noteq> 16 + ?T + ?F + ?sy \<longleftrightarrow> length buf \<noteq> 16 + 12 * N + padding N + 16 * M + K"
    unfolding word_eq_iff_unsigned[where 'a = nat] unat_buf_len[OF len] HTFS by (simp only: add.assoc)
  show ?thesis
  proof (cases "length buf < 16")
    case True
    then show ?thesis by (simp add: parse_format_def parse_spec_def padded_header small_header Let_def)
  next
    case False
    then have header: "raw_ref addr align_of_header buf 0 size_of_header = Ret (take 16 buf)"
      by (simp add: raw_ref_header[OF addr] raw_slice_def size_of_header_def)
    show ?thesis
    proof (cases "rh_version h = minidump_format_version \<and> length buf = 16 + 12 * N + padding N + 16 * M + K")
      case True
      then have sl: "length buf = 16 + 12 * N + padding N + 16 * M + K" by simp
      have "raw_ref addr align_of_thread buf 16 (size_of_thread * ?th) = Ret (take (12 * N) (drop 16 buf))"
        "raw_ref addr align_of_frame buf (16 + ?T) ?F
          = (if 8 dvd addr then Ret (take (16 * M) (drop (16 + 12 * N + padding N) buf)) else Panic)"
        "raw_slice buf (16 + ?T + ?F) ?sy = Ret (take K (drop (16 + 12 * N + padding N + 16 * M) buf))"
      proof -
        show "raw_ref addr align_of_thread buf 16 (size_of_thread * ?th) = Ret (take (12 * N) (drop 16 buf))"
          unfolding raw_ref_threads[OF addr] by (rule raw_slice_Ret) (use sl in \<open>simp_all add: unat_threads_size N_def\<close>)
        have "raw_slice buf (16 + ?T) ?F = Ret (take (16 * M) (drop (16 + 12 * N + padding N) buf))"
          by (rule raw_slice_Ret[OF HT F]) (use sl in simp)
        then show "raw_ref addr align_of_frame buf (16 + ?T) ?F
            = (if 8 dvd addr then Ret (take (16 * M) (drop (16 + 12 * N + padding N) buf)) else Panic)"
          unfolding raw_ref_frames[OF HT] by simp
        show "raw_slice buf (16 + ?T + ?F) ?sy = Ret (take K (drop (16 + 12 * N + padding N + 16 * M) buf))"
          by (rule raw_slice_Ret[OF HTF S]) (use sl in simp)
      qed
      with True header False exact show ?thesis
        unfolding parse_format_def parse_spec_def padded_header padded_frames Let_def small_header bind_out_simps h_def[symmetric]
        by (simp add: parsed_format_def th N_def M_def K_def flip: h_def)
    next
      case False': False
      with False header exact show ?thesis
        unfolding parse_format_def parse_spec_def padded_header padded_frames Let_def small_header
        by (auto simp: N_def M_def K_def simp flip: h_def)
    qed
  qed
qed

lemma parse_format_spec: "length buf < 2 ^ 64 \<Longrightarrow> 8 dvd addr \<Longrightarrow> parse_format big addr buf = Ret (parse_spec big buf)"
  using parse_format_at[OF _ four_eight] by simp

section \<open>What a client writes is read back\<close>

lemma unat_index: "a < 2 ^ 32 \<Longrightarrow> unat (ucast (word_of_nat a :: 32 word) :: 64 word) = a"
  by (simp add: unat_ucast_32 unsigned_of_nat take_bit_eq_mod)

lemma get_slice_mid:
  assumes "length pre < 2 ^ 32" "length xs < 2 ^ 32"
  shows "get_slice (pre @ xs @ post) (ucast (word_of_nat (length pre) :: 32 word))
     (ucast (word_of_nat (length pre) :: 32 word) + ucast (word_of_nat (length xs) :: 32 word)) = Some xs"
proof -
  have e: "unat (ucast (word_of_nat (length pre) :: 32 word) + ucast (word_of_nat (length xs) :: 32 word) :: 64 word) = length pre + length xs"
    by (rule unat_plus_small) (use assms in \<open>simp_all add: unat_index\<close>)
  show ?thesis unfolding get_slice_def word_le_nat_alt e using assms by (simp add: unat_index)
qed

lemma frames_read_back:
  assumes "ex_symbol_bytes fmt = pre @ concat (map snd fs) @ post" and "length (ex_symbol_bytes fmt) < 2 ^ 32"
  shows "collect_results (map (raw_frame_of fmt) (frame_records (length pre) fs)) = Inr (map decoded_frame fs)"
  using assms
proof (induction fs arbitrary: pre)
  case (Cons f fs)
  obtain a sym where f: "f = (a, sym)" by (cases f)
  have "ex_symbol_bytes fmt = pre @ sym @ (concat (map snd fs) @ post)" using Cons.prems(1) f by simp
  then have sym: "frame_symbol fmt \<lparr>xf_instruction_addr = a, xf_symbol_offset = word_of_nat (length pre), xf_symbol_len = word_of_nat (length sym)\<rparr> = Inr sym"
    using Cons.prems(2) get_slice_mid[of pre sym "concat (map snd fs) @ post"] by (simp add: frame_symbol_def)
  have "raw_frame_of fmt \<lparr>xf_instruction_addr = a, xf_symbol_offset = word_of_nat (length pre), xf_symbol_len = word_of_nat (length sym)\<rparr>
      = Inr (decoded_frame f)"
    using sym f by (simp add: raw_frame_of_def decoded_frame_def)
  moreover have "collect_results (map (raw_frame_of fmt) (frame_records (length (pre @ sym)) fs)) = Inr (map decoded_frame fs)"
    by (rule Cons.IH) (use Cons.prems f in simp_all)
  ultimately show ?case using f by simp
qed simp

lemma frame_records_append: "frame_records off (xs @ ys) = frame_records off xs @ frame_records (off + length (concat (map snd xs))) ys"
  by (induction off xs rule: frame_records.induct) (simp_all add: add.assoc)

lemma threads_read_back:
  assumes "ex_frames fmt = fpre @ frame_records (length spre) (all_frames ts)" and "length (ex_frames fmt) < 2 ^ 32"
    and "ex_symbol_bytes fmt = spre @ all_symbols ts" and "length (ex_symbol_bytes fmt) < 2 ^ 32"
  shows "collect_results (map (raw_stacktrace_of fmt) (thread_records (length fpre) ts)) = Inr (map decoded_thread ts)"
  using assms
proof (induction ts arbitrary: fpre spre)
  case (Cons t ts)
  obtain i fs where t: "t = (i, fs)" by (cases t)
  let ?syms = "concat (map snd fs)" and ?recs = "frame_records (length spre) fs"
  have frames: "ex_frames fmt = fpre @ ?recs @ frame_records (length (spre @ ?syms)) (all_frames ts)"
    using Cons.prems(1) t by (simp add: all_frames_def frame_records_append)
  have symbols: "ex_symbol_bytes fmt = spre @ ?syms @ all_symbols ts"
    using Cons.prems(3) t by (simp add: all_symbols_def all_frames_def)
  have th: "thread_frames fmt \<lparr>xt_thread_id = i, xt_start_frame = word_of_nat (length fpre), xt_num_frames = word_of_nat (length fs)\<rparr> = Inr ?recs"
    using Cons.prems(2) frames get_slice_mid[of fpre ?recs "frame_records (length (spre @ ?syms)) (all_frames ts)"]
    by (simp add: thread_frames_def)
  have fs: "collect_results (map (raw_frame_of fmt) ?recs) = Inr (map decoded_frame fs)"
    by (rule frames_read_back[OF symbols Cons.prems(4)])
  have "raw_stacktrace_of fmt \<lparr>xt_thread_id = i, xt_start_frame = word_of_nat (length fpre), xt_num_frames = word_of_nat (length fs)\<rparr>
      = Inr (decoded_thread t)"
    using th fs t by (simp add: raw_stacktrace_of_def decoded_thread_def)
  moreover have "collect_results (map (raw_stacktrace_of fmt) (thread_records (length (fpre @ ?recs)) ts)) = Inr (map decoded_thread ts)"
    by (rule Cons.IH[of "fpre @ ?recs" "spre @ ?syms"]) (use frames symbols Cons.prems in simp_all)
  ultimately show ?case using t by simp
qed simp

definition header_bytes :: "bool \<Rightarrow> client_thread list \<Rightarrow> string" where
  "header_bytes big ts = concat (map (write_native big 4) [1, length ts, length (all_frames ts), length (all_symbols ts)])"

lemma length_header_bytes [simp]: "length (header_bytes big ts) = 16"
  by (simp add: header_bytes_def)

lemma read_written_header:
  "read_header big (header_bytes big ts) = \<lparr>rh_version = 1, rh_num_threads = word_of_nat (length ts),
     rh_num_frames = word_of_nat (length (all_frames ts)), rh_symbol_bytes = word_of_nat (length (all_symbols ts))\<rparr>"
proof -
  let ?v = "write_native big 4 1" and ?n = "write_native big 4 (length ts)" and ?m = "write_native big 4 (length (all_frames ts))"
  have "field32 big 0 (header_bytes big ts) = word_of_nat 1"
    using field32_write[of "[]" 0 big 1] by (simp add: header_bytes_def)
  moreover have "field32 big 4 (header_bytes big ts) = word_of_nat (length ts)"
    using field32_write[of ?v 4 big "length ts"] by (simp add: header_bytes_def)
  moreover have "field32 big 8 (header_bytes big ts) = word_of_nat (length (all_frames ts))"
    using field32_write[of "?v @ ?n" 8 big "length (all_frames ts)"] by (simp add: header_bytes_def)
  moreover have "field32 big 12 (header_bytes big ts) = word_of_nat (length (all_symbols ts))"
    using field32_write[of "?v @ ?n @ ?m" 12 big "length (all_symbols ts)" "[]"] by (simp add: header_bytes_def)
  ultimately show ?thesis by (simp add: read_header_def)
qed

lemma unat_count: "n < 2 ^ 32 \<Longrightarrow> unat (word_of_nat n :: 32 word) = n"
  by (simp add: unsigned_of_nat take_bit_eq_mod)

lemma written_alt:
  "write_extension big ts = header_bytes big ts @ concat (map (write_thread big) (thread_records 0 ts)) @ replicate (padding (length ts)) (CHR 0x00)
     @ concat (map (write_frame big) (frame_records 0 (all_frames ts))) @ all_symbols ts"
  by (simp add: write_extension_def header_bytes_def padding_def)

lemma length_written:
  "length (write_extension big ts) = 16 + 12 * length ts + padding (length ts) + 16 * length (all_frames ts) + length (all_symbols ts)"
  by (simp add: written_alt length_table[of "write_thread big" 12] length_table[of "write_frame big" 16])

lemma parse_written:
  assumes "extension_ok ts"
  shows "parse_spec big (write_extension big ts) = Inr \<lparr>ex_threads = thread_records 0 ts, ex_frames = frame_records 0 (all_frames ts),
     ex_symbol_bytes = all_symbols ts\<rparr>"
proof -
  let ?T = "concat (map (write_thread big) (thread_records 0 ts))" and ?P = "replicate (padding (length ts)) (CHR 0x00)"
    and ?F = "concat (map (write_frame big) (frame_records 0 (all_frames ts)))"
  have T: "length ?T = 12 * length ts" and F: "length ?F = 16 * length (all_frames ts)"
    by (simp_all add: length_table[of "write_thread big" 12] length_table[of "write_frame big" 16])
  have h: "read_header big (take 16 (write_extension big ts)) = \<lparr>rh_version = 1, rh_num_threads = word_of_nat (length ts),
     rh_num_frames = word_of_nat (length (all_frames ts)), rh_symbol_bytes = word_of_nat (length (all_symbols ts))\<rparr>"
    by (simp add: written_alt read_written_header)
  have n: "unat (word_of_nat (length ts) :: 32 word) = length ts" "unat (word_of_nat (length (all_frames ts)) :: 32 word) = length (all_frames ts)"
    "unat (word_of_nat (length (all_symbols ts)) :: 32 word) = length (all_symbols ts)"
    using assms by (simp_all add: extension_ok_def unat_count)
  have threads: "take (12 * length ts) (drop 16 (write_extension big ts)) = ?T"
    by (simp add: written_alt T)
  have frames: "take (16 * length (all_frames ts)) (drop (16 + 12 * length ts + padding (length ts)) (write_extension big ts)) = ?F"
    by (simp add: written_alt T F)
  have symbols: "drop (16 + 12 * length ts + padding (length ts) + 16 * length (all_frames ts)) (write_extension big ts) = all_symbols ts"
    by (simp add: written_alt T F)
  have tables: "read_table (read_thread big) 12 (length ts) ?T = thread_records 0 ts"
    "read_table (read_frame big) 16 (length (all_frames ts)) ?F = frame_records 0 (all_frames ts)"
    using read_table_write[of "read_thread big" "write_thread big" 12 "thread_records 0 ts"]
      read_table_write[of "read_frame big" "write_frame big" 16 "frame_records 0 (all_frames ts)"]
    by (simp_all add: read_write_thread read_write_frame)
  show ?thesis unfolding parse_spec_def h Let_def
    by (simp add: n length_written minidump_format_version_def parsed_format_def threads frames symbols tables)
qed

text \<open>In the other byte order the version never matches.\<close>

lemma parse_foreign: "parse_spec (\<not> big) (write_extension big ts) = Inl WrongVersion"
proof -
  have "bytes_nat (rev (nat_bytes (Suc (Suc (Suc (Suc 0)))) 1)) = 16777216" by simp
  moreover have "Suc (Suc (Suc (Suc 0))) = 4" by simp
  ultimately have "bytes_nat (rev (nat_bytes 4 1)) = 16777216" by metis
  then have "field32 (\<not> big) 0 (header_bytes big ts) = 16777216"
    by (cases big) (simp_all add: field32_def read_native_def header_bytes_def write_native_def)
  then have "rh_version (read_header (\<not> big) (take 16 (write_extension big ts))) \<noteq> minidump_format_version"
    by (simp add: written_alt read_header_def minidump_format_version_def)
  then show ?thesis by (simp add: parse_spec_def length_written)
qed

section \<open>Where names come from\<close>

lemma slice_parts: "\<exists>pre post. xs = pre @ take n (drop m xs) @ post"
  by (rule exI[of _ "take m xs"], rule exI[of _ "drop n (drop m xs)"]) (simp flip: drop_drop)

lemma get_slice_part: "get_slice xs a b = Some ys \<Longrightarrow> \<exists>pre post. xs = pre @ ys @ post"
  using slice_parts[of xs "unat b - unat a" "unat a"] by (auto simp: get_slice_def split: if_splits)

lemma collect_results_Inr: "collect_results rs = Inr xs \<longleftrightarrow> rs = map Inr xs"
proof (induction rs arbitrary: xs)
  case (Cons r rs)
  show ?case
  proof (cases r)
    case (Inl e)
    then show ?thesis by (cases xs) simp_all
  next
    case (Inr x)
    have "collect_results (r # rs) = Inr xs \<longleftrightarrow> (\<exists>ys. collect_results rs = Inr ys \<and> xs = x # ys)"
      using Inr by (cases "collect_results rs") auto
    also have "\<dots> \<longleftrightarrow> r # rs = map Inr xs" unfolding Cons.IH using Inr by (auto simp: Cons_eq_map_conv)
    finally show ?thesis .
  qed
qed auto

lemma parse_symbols_part:
  assumes "parse_spec big buf = Inr fmt"
  shows "\<exists>pre post. buf = pre @ ex_symbol_bytes fmt @ post"
proof -
  have "(\<exists>n m k. parse_spec big buf = Inr (parsed_format big buf n m k)) \<or> (\<exists>e. parse_spec big buf = Inl e)"
    unfolding parse_spec_def Let_def by (simp only: split: if_splits) blast
  with assms obtain n m k where "fmt = parsed_format big buf n m k" by auto
  then show ?thesis
    using slice_parts[of buf k "16 + 12 * n + padding n + 16 * m"] by (simp add: parsed_format_def)
qed

lemma frame_name:
  assumes "raw_frame_of fmt x = Inr f"
  shows "\<exists>pre sym post. ex_symbol_bytes fmt = pre @ sym @ post \<and> fr_function f = Some (utf8_lossy sym)"
proof (cases "frame_symbol fmt x")
  case (Inl e)
  with assms show ?thesis by (simp add: raw_frame_of_def)
next
  case (Inr sym)
  then obtain a b where g: "get_slice (ex_symbol_bytes fmt) a b = Some sym"
    by (auto simp: frame_symbol_def Let_def split: option.splits)
  have "fr_function f = Some (utf8_lossy sym)" using assms Inr by (auto simp: raw_frame_of_def)
  with get_slice_part[OF g] show ?thesis by metis
qed

lemma trace_names:
  assumes "raw_stacktrace_of fmt t = Inr tr" "f \<in> set (rs_frames tr)"
  shows "\<exists>pre sym post. ex_symbol_bytes fmt = pre @ sym @ post \<and> fr_function f = Some (utf8_lossy sym)"
proof (cases "thread_frames fmt t")
  case (Inl e)
  with assms(1) show ?thesis by (simp add: raw_stacktrace_of_def)
next
  case (Inr fs)
  show ?thesis
  proof (cases "collect_results (map (raw_frame_of fmt) fs)")
    case (Inl e)
    with assms(1) Inr show ?thesis by (simp add: raw_stacktrace_of_def)
  next
    case rs: (Inr rs)
    then have "f \<in> set rs" using assms Inr by (auto simp: raw_stacktrace_of_def client_stacktrace_def)
    then have "Inr f \<in> set (map (raw_frame_of fmt) fs)" using rs by (simp add: collect_results_Inr)
    then show ?thesis using frame_name by fastforce
  qed
qed

section \<open>Properties\<close>

text \<open>
  C18. Reading the extension of a minidump is memory safe and total when the stream is in memory at a
  multiple of 8: whatever its bytes and the byte order, no size computation wraps, no reference leaves
  the stream or is unaligned, and the result is traces, no traces or an error. The function name of every
  frame read is the UTF-8 text of consecutive bytes of the stream. The code does not check the address:
  elsewhere the references are unaligned (\<open>unaligned_extension\<close>).
\<close>

theorem extension_read_safely:
  assumes "stream minidump_extension_type = Stream addr buf" and "length buf < 2 ^ 64" and "8 dvd addr"
  shows "\<exists>r. parse_stacktraces_from_minidump big stream = Ret r
     \<and> (\<forall>traces. r = Inr (Some traces) \<longrightarrow> (\<forall>t \<in> set traces. \<forall>f \<in> set (rs_frames t).
          \<exists>pre sym post. buf = pre @ sym @ post \<and> fr_function f = Some (utf8_lossy sym)))"
proof (cases "parse_spec big buf")
  case (Inl e)
  then show ?thesis using assms
    by (simp add: parse_stacktraces_from_minidump_def parse_stacktraces_from_raw_extension_def parse_format_spec)
next
  case (Inr fmt)
  obtain p q where buf: "buf = p @ ex_symbol_bytes fmt @ q" using parse_symbols_part[OF Inr] by blast
  have r: "parse_stacktraces_from_minidump big stream
      = Ret (map_sum FormatError Some (collect_results (map (raw_stacktrace_of fmt) (ex_threads fmt))))"
    using assms Inr by (simp add: parse_stacktraces_from_minidump_def parse_stacktraces_from_raw_extension_def parse_format_spec)
  have "\<exists>pre sym post. buf = pre @ sym @ post \<and> fr_function f = Some (utf8_lossy sym)"
    if "collect_results (map (raw_stacktrace_of fmt) (ex_threads fmt)) = Inr traces" "t \<in> set traces" "f \<in> set (rs_frames t)" for traces t f
  proof -
    have "Inr t \<in> set (map (raw_stacktrace_of fmt) (ex_threads fmt))" using that by (simp add: collect_results_Inr)
    then obtain x where "raw_stacktrace_of fmt x = Inr t" by auto
    from trace_names[OF this that(3)] obtain pre sym post
      where "ex_symbol_bytes fmt = pre @ sym @ post" "fr_function f = Some (utf8_lossy sym)" by blast
    then have "buf = (p @ pre) @ sym @ (post @ q)" "fr_function f = Some (utf8_lossy sym)" using buf by simp_all
    then show ?thesis by blast
  qed
  then show ?thesis unfolding r by (cases "collect_results (map (raw_stacktrace_of fmt) (ex_threads fmt))") auto
qed

definition demo_client :: "client_thread list" where
  "demo_client = [(123, [(1337, ''_start''), (0xdeadbeef, ''main'')]), (321, []), (17, [])]"

lemma demo_client_ok: "extension_ok demo_client"
  by (simp add: extension_ok_def demo_client_def all_frames_def all_symbols_def)

lemma extension_read_safely_witness:
  "\<exists>r. parse_stacktraces_from_minidump False (\<lambda>_. Stream 4096 (write_extension True demo_client)) = Ret r"
  using extension_read_safely[of "\<lambda>_. Stream 4096 (write_extension True demo_client)" 4096 "write_extension True demo_client" False]
  by (auto simp: length_written demo_client_def all_frames_def all_symbols_def padding_def)

text \<open>
  The library hands out a stream wherever it is in the dump, and streams of a dump are only aligned to 4
  bytes. Between two multiples of 8 the stream a client writes is read through unaligned references.
\<close>

theorem unaligned_extension:
  assumes "extension_ok ts" and "addr mod 8 = 4"
  shows "parse_format big addr (write_extension big ts) = Panic"
proof -
  have len: "length (write_extension big ts) < 2 ^ 64"
    using assms(1) padding_le[of "length ts"] by (simp add: length_written extension_ok_def)
  have "4 dvd addr" "\<not> 8 dvd addr" using assms(2) by presburger+
  then show ?thesis using parse_format_at[OF len, of addr big] parse_written[OF assms(1), of big] by simp
qed

text \<open>
  C14. What a client writes by the documented format is read back exactly: one stack trace per
  thread, in order, with its id and its frames, each with its address and the text of its symbol.
  Written in the other byte order it is refused as a wrong version. The format has its tables aligned
  to 8 bytes, so the stream starts at a multiple of 8.
\<close>

theorem extension_roundtrip:
  assumes "extension_ok ts" and "8 dvd addr"
  shows "parse_stacktraces_from_minidump big (\<lambda>ty. if ty = minidump_extension_type then Stream addr (write_extension big ts) else StreamNotFound)
       = Ret (Inr (Some (map decoded_thread ts)))
     \<and> parse_stacktraces_from_minidump (\<not> big) (\<lambda>ty. if ty = minidump_extension_type then Stream addr (write_extension big ts) else StreamNotFound)
       = Ret (Inl (FormatError WrongVersion))"
proof -
  let ?fmt = "\<lparr>ex_threads = thread_records 0 ts, ex_frames = frame_records 0 (all_frames ts), ex_symbol_bytes = all_symbols ts\<rparr>"
  have len: "length (write_extension big ts) < 2 ^ 64"
    using assms(1) padding_le[of "length ts"] by (simp add: length_written extension_ok_def)
  have "collect_results (map (raw_stacktrace_of ?fmt) (thread_records (length ([] :: ext_frame list)) ts)) = Inr (map decoded_thread ts)"
    by (rule threads_read_back[where spre = "[]"]) (use assms(1) in \<open>simp_all add: extension_ok_def\<close>)
  then show ?thesis
    by (simp add: parse_stacktraces_from_minidump_def parse_stacktraces_from_raw_extension_def parse_format_spec[OF len assms(2)]
        parse_written[OF assms(1)] parse_foreign)
qed

lemma extension_roundtrip_witness:
  "parse_stacktraces_from_minidump False (\<lambda>ty. if ty = minidump_extension_type then Stream 4096 (write_extension False demo_client) else StreamNotFound)
     = Ret (Inr (Some (map decoded_thread demo_client)))"
  using extension_roundtrip[OF demo_client_ok, of 4096 False] by simp

end
