(* ===== verification/CrashReportsCorrect.thy ===== *)
theory CrashReportsCorrect
  imports CrashReports
begin

text \<open>
  Crash reports: which frames a thread of a minidump gets, which modules are reported and with
  which unwind status, and when the symbol provider rejects an address.
\<close>

section \<open>Client-side stack traces\<close>

text \<open>The frames of the thread at a position, when those before it have taken their traces.\<close>

definition merged_trace :: "(nat \<rightharpoonup> raw_stacktrace) \<Rightarrow> raw_stacktrace list \<Rightarrow> raw_stacktrace \<Rightarrow> raw_stacktrace" where
  "merged_trace by_id before t =
     (case Option.bind (rs_thread_id t) by_id of
        Some c \<Rightarrow> if rs_frames c \<noteq> [] \<and> rs_thread_id t \<notin> rs_thread_id ` set before then t\<lparr>rs_frames := rs_frames c\<rparr> else t
      | None \<Rightarrow> t)"

lemma length_merge_traces [simp]: "length (merge_traces ts by_id) = length ts"
  by (induction ts by_id rule: merge_traces.induct) (auto simp del: fun_upd_apply split: option.splits)

lemma merge_traces_without:
  assumes "i < length ts"
  shows "merge_traces ts by_id ! i = merged_trace by_id (take i ts) (ts ! i)"
  using assms
proof (induction ts arbitrary: i by_id)
  case (Cons t ts)
  show ?case
  proof (cases i)
    case 0
    then show ?thesis by (auto simp: merged_trace_def split: option.splits)
  next
    case (Suc j)
    then have j: "j < length ts" using Cons.prems by simp
    show ?thesis
    proof (cases "Option.bind (rs_thread_id t) by_id")
      case None
      have "merged_trace by_id (take j ts) (ts ! j) = merged_trace by_id (t # take j ts) (ts ! j)"
        using None by (auto simp: merged_trace_def split: option.splits)
      then show ?thesis using Cons.IH[OF j, of by_id] Suc None by simp
    next
      case (Some c)
      then obtain x where x: "rs_thread_id t = Some x" "by_id x = Some c" by (cases "rs_thread_id t") auto
      have "merged_trace (by_id(x := None)) (take j ts) (ts ! j) = merged_trace by_id (t # take j ts) (ts ! j)"
        using x by (cases "rs_thread_id (ts ! j)") (auto simp: merged_trace_def split: option.splits)
      then show ?thesis using Cons.IH[OF j, of "by_id(x := None)"] Suc Some x by (simp del: fun_upd_apply)
    qed
  qed
qed simp

section \<open>Modules\<close>

text \<open>The modules that are reported, each with the CFI that is its own.\<close>

definition cfi_of :: "md_module list \<Rightarrow> 'f loaded_cfi \<Rightarrow> md_module \<Rightarrow> 'f cfi_item derived_cache option" where
  "cfi_of before loaded m = (if lookup_key_new m \<in> lookup_key_new ` set before then None else loaded (lookup_key_new m))"

fun reported_modules :: "md_module list \<Rightarrow> 'f loaded_cfi \<Rightarrow> md_module list \<Rightarrow> (md_module \<times> 'f cfi_item derived_cache option) list" where
  "reported_modules before loaded [] = []"
| "reported_modules before loaded (m # ms) =
     (let c = cfi_of before loaded m in
      if c = None \<and> mm_debug_id m = None \<and> mm_code_id m = None then reported_modules (before @ [m]) loaded ms
      else (m, c) # reported_modules (before @ [m]) loaded ms)"

lemma reported_cong:
  "lookup_key_new ` set before = lookup_key_new ` set before' \<Longrightarrow> reported_modules before loaded ms = reported_modules before' loaded ms"
proof (induction ms arbitrary: before before')
  case (Cons m ms)
  have "reported_modules (before @ [m]) loaded ms = reported_modules (before' @ [m]) loaded ms"
    by (rule Cons.IH) (use Cons.prems in simp)
  then show ?case using Cons.prems by (simp add: cfi_of_def Let_def)
qed simp

lemma reported_taken:
  "lookup_key_new m \<in> lookup_key_new ` set before \<Longrightarrow> reported_modules before (loaded(lookup_key_new m := None)) ms = reported_modules before loaded ms"
proof (induction ms arbitrary: before)
  case (Cons x ms)
  have "reported_modules (before @ [x]) (loaded(lookup_key_new m := None)) ms = reported_modules (before @ [x]) loaded ms"
    by (rule Cons.IH) (use Cons.prems in simp)
  moreover have "cfi_of before (loaded(lookup_key_new m := None)) x = cfi_of before loaded x"
    using Cons.prems by (auto simp: cfi_of_def)
  ultimately show ?case by (simp add: Let_def del: fun_upd_apply)
qed simp

lemma reported_untaken:
  "(\<forall>m \<in> set before. loaded (lookup_key_new m) = None) \<Longrightarrow> cfi_of before loaded x = loaded (lookup_key_new x)"
  by (auto simp: cfi_of_def)

lemma walked_modules_reported:
  assumes "\<forall>m \<in> set before. loaded (lookup_key_new m) = None"
  shows "walked_modules X I nil oty ms loaded = map (\<lambda>(m, c). walked_module X I nil oty m c) (reported_modules before loaded ms)"
  using assms
proof (induction ms arbitrary: before loaded)
  case (Cons m ms)
  have c: "cfi_of before loaded m = loaded (lookup_key_new m)" using Cons.prems by (rule reported_untaken)
  show ?case
  proof (cases "loaded (lookup_key_new m) = None \<and> mm_debug_id m = None \<and> mm_code_id m = None")
    case True
    have "walked_modules X I nil oty ms loaded = map (\<lambda>(m, c). walked_module X I nil oty m c) (reported_modules (before @ [m]) loaded ms)"
      by (rule Cons.IH) (use True Cons.prems in auto)
    with True c show ?thesis by simp
  next
    case False
    have "walked_modules X I nil oty ms (loaded(lookup_key_new m := None))
        = map (\<lambda>(m, c). walked_module X I nil oty m c) (reported_modules (before @ [m]) (loaded(lookup_key_new m := None)) ms)"
      by (rule Cons.IH) (use Cons.prems in auto)
    also have "\<dots> = map (\<lambda>(m, c). walked_module X I nil oty m c) (reported_modules (before @ [m]) loaded ms)"
      by (subst reported_taken) simp_all
    finally show ?thesis using False c by (auto simp: Let_def)
  qed
qed simp

lemma reported_complete:
  "m \<in> set ms \<Longrightarrow> mm_debug_id m \<noteq> None \<or> mm_code_id m \<noteq> None \<Longrightarrow> m \<in> fst ` set (reported_modules before loaded ms)"
  by (induction ms arbitrary: before) (auto simp: Let_def image_iff)

lemma reported_loaded:
  "loaded k = Some c \<Longrightarrow> k \<in> lookup_key_new ` set ms \<Longrightarrow> k \<notin> lookup_key_new ` set before
     \<Longrightarrow> \<exists>m. (m, Some c) \<in> set (reported_modules before loaded ms) \<and> lookup_key_new m = k"
proof (induction ms arbitrary: before)
  case (Cons m ms)
  show ?case
  proof (cases "lookup_key_new m = k")
    case True
    then have "cfi_of before loaded m = Some c" using Cons.prems by (simp add: cfi_of_def)
    with True show ?thesis by (auto simp: Let_def)
  next
    case False
    then have "\<exists>x. (x, Some c) \<in> set (reported_modules (before @ [m]) loaded ms) \<and> lookup_key_new x = k"
      using Cons.prems by (intro Cons.IH) auto
    then show ?thesis by (auto simp: Let_def)
  qed
qed simp

lemma reported_sound:
  "(m, c) \<in> set (reported_modules before loaded ms) \<Longrightarrow> m \<in> set ms \<and> (c = None \<or> c = loaded (lookup_key_new m))"
  by (induction ms arbitrary: before) (auto simp: Let_def cfi_of_def split: if_splits)

section \<open>The symbol provider\<close>

text \<open>What the provider keeps is what fetching gives.\<close>

definition provider_inv :: "('f, 's) symbol_provider \<Rightarrow> md_module set \<Rightarrow> 'f loaded_cfi \<Rightarrow> bool" where
  "provider_inv P ms loaded \<longleftrightarrow> (\<forall>m \<in> ms. \<forall>c. loaded (lookup_key_new m) = Some c \<longrightarrow>
     sp_cficaches P (sp_object_type P, object_id_from_module P m) (sp_scope P) (sp_sources P) = Ret c)"

lemma load_cfi_transparent:
  assumes "provider_inv P ms loaded" "m \<in> ms" "inj_on lookup_key_new ms" "load_cfi_module P m loaded = Ret (c, loaded')"
  shows "sp_cficaches P (sp_object_type P, object_id_from_module P m) (sp_scope P) (sp_sources P) = Ret c"
    and "provider_inv P ms loaded'" and "loaded' (lookup_key_new m) = Some c"
proof -
  show c: "sp_cficaches P (sp_object_type P, object_id_from_module P m) (sp_scope P) (sp_sources P) = Ret c"
    using assms by (auto simp: load_cfi_module_def provider_inv_def map_out_eq_Ret split: option.splits)
  show "loaded' (lookup_key_new m) = Some c"
    using assms by (auto simp: load_cfi_module_def map_out_eq_Ret split: option.splits)
  show "provider_inv P ms loaded'"
  proof (cases "loaded (lookup_key_new m)")
    case None
    then have l: "loaded' = loaded(lookup_key_new m \<mapsto> c)" using assms(4) by (auto simp: load_cfi_module_def map_out_eq_Ret)
    show ?thesis unfolding provider_inv_def l
    proof (intro ballI allI impI)
      fix m' c' assume m': "m' \<in> ms" "(loaded(lookup_key_new m \<mapsto> c)) (lookup_key_new m') = Some c'"
      show "sp_cficaches P (sp_object_type P, object_id_from_module P m') (sp_scope P) (sp_sources P) = Ret c'"
      proof (cases "m' = m")
        case True
        with m' c show ?thesis by simp
      next
        case False
        then have "lookup_key_new m' \<noteq> lookup_key_new m" using assms(2,3) m'(1) by (auto dest: inj_onD)
        with m' assms(1) show ?thesis by (simp add: provider_inv_def)
      qed
    qed
  next
    case (Some c')
    with assms show ?thesis by (auto simp: load_cfi_module_def)
  qed
qed

definition cfi_rejects :: "('f, 's) symbol_provider \<Rightarrow> 64 word \<Rightarrow> 'f cfi_item derived_cache \<Rightarrow> bool" where
  "cfi_rejects P offset c \<longleftrightarrow> (\<exists>f i. dc_cache c = Inr (Some (f, i)) \<and> \<not> sp_cfi_empty P f \<and> \<not> sp_cfi_covers P f offset)"

definition symbols_reject :: "('f, 's) symbol_provider \<Rightarrow> 64 word \<Rightarrow> 's derived_cache \<Rightarrow> bool" where
  "symbols_reject P offset c \<longleftrightarrow> (\<exists>s. dc_cache c = Inr s \<and> \<not> sp_symcache_covers P s offset)"

lemma cfi_verdict:
  "(case dc_cache c of Inr (Some (f, _)) \<Rightarrow> \<not> (\<not> sp_cfi_empty P f \<and> \<not> sp_cfi_covers P f x) | _ \<Rightarrow> True) = (\<not> cfi_rejects P x c)"
  by (auto simp: cfi_rejects_def split: sum.splits option.splits)

lemma symbols_verdict:
  "(case dc_cache c of Inr s \<Rightarrow> sp_symcache_covers P s x | Inl _ \<Rightarrow> True) = (\<not> symbols_reject P x c)"
  by (auto simp: symbols_reject_def split: sum.splits)

section \<open>Properties\<close>

text \<open>
  Client-side stack traces are preferred over walked ones, and nothing else of a thread
  changes: every thread stays in its place, and its frames are those of the last client trace with
  its thread id, if that has frames and no earlier thread had this id, and its own otherwise.
\<close>

theorem client_traces_merged:
  assumes "i < length processed"
  shows "merge_clientside_with_processed_stacktraces processed clientside ! i =
       (case Option.bind (rs_thread_id (processed ! i)) (client_traces_by_id clientside) of
          Some c \<Rightarrow> if rs_frames c \<noteq> [] \<and> rs_thread_id (processed ! i) \<notin> rs_thread_id ` set (take i processed)
            then (processed ! i)\<lparr>rs_frames := rs_frames c\<rparr> else processed ! i
        | None \<Rightarrow> processed ! i)
     \<and> length (merge_clientside_with_processed_stacktraces processed clientside) = length processed"
  using merge_traces_without[OF assms]
  by (simp add: merge_clientside_with_processed_stacktraces_def merged_trace_def)

definition demo_trace :: "nat \<Rightarrow> 64 word list \<Rightarrow> raw_stacktrace" where
  "demo_trace i addrs = \<lparr>rs_thread_id = Some i, rs_thread_name = None, rs_is_requesting = None, rs_registers = Map.empty,
     rs_frames = map (\<lambda>a. default_frame\<lparr>fr_instruction_addr := a\<rparr>) addrs\<rparr>"

lemma client_traces_merged_witness:
  "rs_frames (merge_clientside_with_processed_stacktraces [demo_trace 1 [10], demo_trace 2 [20]] [demo_trace 2 [30, 40]] ! 1)
     = rs_frames (demo_trace 2 [30, 40])"
  using client_traces_merged[of 1 "[demo_trace 1 [10], demo_trace 2 [20]]" "[demo_trace 2 [30, 40]]"]
  by (simp add: client_traces_by_id_def demo_trace_def map_filter_simps)

text \<open>
  The symbol provider rejects an address of a module exactly when both its unwind information,
  which is not empty, and its debug information are found and do not cover the address; what it
  has kept of earlier questions changes no answer, as modules differ in address or size.
\<close>

theorem frame_rejected_iff:
  assumes "provider_inv P ms loaded" and "m \<in> ms" and "inj_on lookup_key_new ms"
    and "fill_symbol P m instruction loaded = Ret (rejected, loaded')"
    and "sp_cficaches P (sp_object_type P, object_id_from_module P m) (sp_scope P) (sp_sources P) = Ret cfi"
    and "load_symcache P m = Ret symcache"
  shows "(rejected \<longleftrightarrow> cfi_rejects P (instruction - mm_base m) cfi \<and> symbols_reject P (instruction - mm_base m) symcache)
     \<and> provider_inv P ms loaded'"
proof -
  obtain c l where l: "load_cfi_module P m loaded = Ret (c, l)"
    using assms(4) by (auto simp: fill_symbol_def check_frame_by_cfi_def bind_out_eq_Ret map_out_eq_Ret)
  note t = load_cfi_transparent[OF assms(1-3) l]
  then have c: "c = cfi" using assms(5) by simp
  have "check_frame_by_cfi P m instruction loaded = Ret (\<not> cfi_rejects P (instruction - mm_base m) cfi, l)"
    unfolding check_frame_by_cfi_def l c by (simp add: cfi_verdict)
  moreover have "check_frame_by_symbol_info P m instruction = Ret (\<not> symbols_reject P (instruction - mm_base m) symcache)"
    unfolding check_frame_by_symbol_info_def assms(6) by (simp add: symbols_verdict)
  ultimately show ?thesis using assms(4) t(2) by (auto simp: fill_symbol_def split: if_splits)
qed

definition demo_provider :: "(nat, nat) symbol_provider" where
  "demo_provider = \<lparr>sp_scope = Global, sp_sources = [], sp_object_type = Elf,
     sp_cficaches = (\<lambda>_ _ _. Ret \<lparr>dc_cache = Inr (Some (0, None)), dc_candidates = [], dc_features = default_features\<rparr>),
     sp_symcaches = (\<lambda>_ _ _. Ret \<lparr>dc_cache = Inr 0, dc_candidates = [], dc_features = default_features\<rparr>),
     sp_cfi_empty = (\<lambda>_. False), sp_cfi_covers = (\<lambda>_ a. a < 16), sp_symcache_covers = (\<lambda>_ a. a < 16),
     sp_first_module_debug_id = None, sp_rewrite_first_module = [], sp_extract_variables = False\<rparr>"

definition demo_module :: md_module where
  "demo_module = \<lparr>mm_base = 4096, mm_size = 256, mm_code_file = ''a.out'', mm_debug_file = None, mm_code_id = Some ''abc'', mm_debug_id = None\<rparr>"

lemma frame_rejected_iff_witness:
  "cfi_rejects demo_provider (4196 - mm_base demo_module) \<lparr>dc_cache = Inr (Some (0, None)), dc_candidates = [], dc_features = default_features\<rparr>
     \<and> symbols_reject demo_provider (4196 - mm_base demo_module) \<lparr>dc_cache = Inr 0, dc_candidates = [], dc_features = default_features\<rparr>"
  using frame_rejected_iff[of demo_provider "{demo_module}" Map.empty demo_module 4196 True
      "[lookup_key_new demo_module \<mapsto> \<lparr>dc_cache = Inr (Some (0, None)), dc_candidates = [], dc_features = default_features\<rparr>]"
      "\<lparr>dc_cache = Inr (Some (0, None)), dc_candidates = [], dc_features = default_features\<rparr>"
      "\<lparr>dc_cache = Inr 0, dc_candidates = [], dc_features = default_features\<rparr>"]
  by (simp add: provider_inv_def fill_symbol_def check_frame_by_cfi_def check_frame_by_symbol_info_def load_cfi_module_def
      load_symcache_def demo_provider_def demo_module_def word_less_nat_alt)

text \<open>The traces and modules of a minidump, before symbolication.\<close>

lemma client_by_id_mem: "client_traces_by_id cs i = Some c \<Longrightarrow> c \<in> set cs \<and> rs_thread_id c = Some i"
  by (auto simp: client_traces_by_id_def map_filter_def dest!: map_of_SomeD)

lemma merged_frames:
  fixes cs :: "raw_stacktrace list"
  assumes "i < length ps"
  defines "t \<equiv> merge_clientside_with_processed_stacktraces ps cs ! i"
  shows "rs_thread_id t = rs_thread_id (ps ! i)" "rs_is_requesting t = rs_is_requesting (ps ! i)"
    "rs_frames t = rs_frames (ps ! i) \<or> (\<exists>c \<in> set cs. rs_thread_id c = rs_thread_id (ps ! i) \<and> rs_frames c \<noteq> [] \<and> rs_frames t = rs_frames c)"
proof -
  have t: "t = merged_trace (client_traces_by_id cs) (take i ps) (ps ! i)"
    unfolding t_def merge_clientside_with_processed_stacktraces_def by (rule merge_traces_without[OF assms(1)])
  show "rs_thread_id t = rs_thread_id (ps ! i)" "rs_is_requesting t = rs_is_requesting (ps ! i)"
    unfolding t by (auto simp: merged_trace_def split: option.splits)
  show "rs_frames t = rs_frames (ps ! i) \<or> (\<exists>c \<in> set cs. rs_thread_id c = rs_thread_id (ps ! i) \<and> rs_frames c \<noteq> [] \<and> rs_frames t = rs_frames c)"
  proof (cases "Option.bind (rs_thread_id (ps ! i)) (client_traces_by_id cs)")
    case None
    then show ?thesis unfolding t by (simp add: merged_trace_def)
  next
    case (Some c)
    then obtain x where x: "rs_thread_id (ps ! i) = Some x" "client_traces_by_id cs x = Some c" by (cases "rs_thread_id (ps ! i)") auto
    then show ?thesis using client_by_id_mem[OF x(2)] unfolding t by (auto simp: merged_trace_def)
  qed
qed

definition thread_faithful :: "process_state \<Rightarrow> raw_stacktrace list \<Rightarrow> nat \<Rightarrow> raw_stacktrace \<Rightarrow> bool" where
  "thread_faithful ps client i t \<longleftrightarrow>
     rs_thread_id t = Some (unat (mt_thread_id (ps_threads ps ! i)))
     \<and> rs_is_requesting t = map_option (\<lambda>r. r = i) (ps_requesting_thread ps)
     \<and> (rs_frames t = map walked_frame (take 256 (mt_frames (ps_threads ps ! i)))
        \<or> (\<exists>c \<in> set client. rs_thread_id c = rs_thread_id t \<and> rs_frames c \<noteq> [] \<and> rs_frames t = rs_frames c))"

lemma merged_faithful:
  assumes "i < length (ps_threads ps)"
  shows "thread_faithful ps cs i
     (merge_clientside_with_processed_stacktraces (map (walked_thread (ps_requesting_thread ps)) (enumerate 0 (ps_threads ps))) cs ! i)"
    and "thread_faithful ps cs i (map (walked_thread (ps_requesting_thread ps)) (enumerate 0 (ps_threads ps)) ! i)"
proof -
  let ?ps = "map (walked_thread (ps_requesting_thread ps)) (enumerate 0 (ps_threads ps))"
  have w: "?ps ! i = walked_thread (ps_requesting_thread ps) (i, ps_threads ps ! i)"
    using assms by (simp add: nth_enumerate_eq)
  show "thread_faithful ps cs i (?ps ! i)" unfolding w by (simp add: thread_faithful_def walked_thread_def)
  show "thread_faithful ps cs i (merge_clientside_with_processed_stacktraces ?ps cs ! i)"
    using merged_frames[of i ?ps cs] assms unfolding w by (auto simp: thread_faithful_def walked_thread_def)
qed

lemma raw_of_walked: "ro_image_addr (oi_raw (walked_module X I nil oty m c)) = mm_base m"
  by (auto simp: walked_module_def Let_def object_info_from_minidump_module_def object_info_from_raw_def maybe_backfill_debugid_def
      split: option.splits sum.splits prod.splits)

lemma unwind_of_walked:
  "oi_unwind_status (walked_module X I nil oty m c) = Some (case c of Some c \<Rightarrow> status_from_contents (dc_cache c) | None \<Rightarrow> StUnused)"
  by (auto simp: walked_module_def Let_def split: option.splits)

definition modules_faithful :: "process_state \<Rightarrow> 'f loaded_cfi \<Rightarrow> object_info list \<Rightarrow> bool" where
  "modules_faithful ps loaded infos \<longleftrightarrow>
     (\<forall>m \<in> set (ps_modules ps). mm_debug_id m \<noteq> None \<or> mm_code_id m \<noteq> None \<longrightarrow> (\<exists>x \<in> set infos. ro_image_addr (oi_raw x) = mm_base m))
     \<and> (\<forall>k c. loaded k = Some c \<and> k \<in> lookup_key_new ` set (ps_modules ps)
          \<longrightarrow> (\<exists>x \<in> set infos. ro_image_addr (oi_raw x) = fst k \<and> oi_unwind_status x = Some (status_from_contents (dc_cache c))))
     \<and> (\<forall>x \<in> set infos. oi_unwind_status x \<noteq> Some StUnused
          \<longrightarrow> (\<exists>k c. loaded k = Some c \<and> ro_image_addr (oi_raw x) = fst k \<and> oi_unwind_status x = Some (status_from_contents (dc_cache c))))"

lemma walked_modules_faithful: "modules_faithful ps loaded (walked_modules X I nil oty (ps_modules ps) loaded)"
proof -
  let ?r = "reported_modules [] loaded (ps_modules ps)"
  have w: "walked_modules X I nil oty (ps_modules ps) loaded = map (\<lambda>(m, c). walked_module X I nil oty m c) ?r"
    by (rule walked_modules_reported) simp
  have 1: "\<exists>x \<in> set (map (\<lambda>(m, c). walked_module X I nil oty m c) ?r). ro_image_addr (oi_raw x) = mm_base m"
    if ids: "m \<in> set (ps_modules ps)" "mm_debug_id m \<noteq> None \<or> mm_code_id m \<noteq> None" for m
  proof -
    obtain c where "(m, c) \<in> set ?r" using reported_complete[OF ids, of "[]" loaded] by fastforce
    then show ?thesis
      by (intro bexI[of _ "walked_module X I nil oty m c"]) (simp_all add: raw_of_walked rev_image_eqI[of "(m, c)"])
  qed
  have 2: "\<exists>x \<in> set (map (\<lambda>(m, c). walked_module X I nil oty m c) ?r). ro_image_addr (oi_raw x) = fst k
      \<and> oi_unwind_status x = Some (status_from_contents (dc_cache c))"
    if kc: "loaded k = Some c" "k \<in> lookup_key_new ` set (ps_modules ps)" for k c
  proof -
    obtain m where m: "(m, Some c) \<in> set ?r" "lookup_key_new m = k" using reported_loaded[where loaded = loaded and before = "[]" and k = k, OF kc] by auto
    then have "fst k = mm_base m" by (auto simp: lookup_key_new_def)
    then show ?thesis using m(1)
      by (intro bexI[of _ "walked_module X I nil oty m (Some c)"])
        (simp_all add: raw_of_walked unwind_of_walked rev_image_eqI[of "(m, Some c)"])
  qed
  have 3: "\<exists>k c. loaded k = Some c \<and> ro_image_addr (oi_raw x) = fst k \<and> oi_unwind_status x = Some (status_from_contents (dc_cache c))"
    if x: "x \<in> set (map (\<lambda>(m, c). walked_module X I nil oty m c) ?r)" "oi_unwind_status x \<noteq> Some StUnused" for x
  proof -
    obtain m c where m: "(m, c) \<in> set ?r" "x = walked_module X I nil oty m c" using x(1) by auto
    then obtain c' where "c = Some c'" using x(2) by (cases c) (auto simp: unwind_of_walked)
    then have "loaded (lookup_key_new m) = Some c'" using reported_sound[OF m(1)] by simp
    then show ?thesis using m \<open>c = Some c'\<close>
      by (intro exI[of _ "lookup_key_new m"] exI[of _ c']) (simp add: raw_of_walked unwind_of_walked lookup_key_new_def)
  qed
  show ?thesis unfolding modules_faithful_def w
    by (intro conjI ballI allI impI) (fact 1, elim conjE, fact 2, fact 3)
qed

lemma stackwalk_InrE:
  fixes P0 :: "('f, 's) symbol_provider" and L :: "('m, 'f) minidump_lib"
  assumes w: "stackwalk X I L P0 dump = Ret (Inr (modules, traces, st))"
  obtains P :: "('f, 's) symbol_provider" and oty ps loaded where "ml_process L dump (fill_symbol P) (load_cfi_module P) = Ret (Inr (ps, loaded))"
    "sp_scope P = sp_scope P0 \<and> sp_sources P = sp_sources P0"
    "modules = walked_modules X I (ml_code_id_nil L) oty (ps_modules ps) loaded"
    "traces = map (walked_thread (ps_requesting_thread ps)) (enumerate 0 (ps_threads ps))" "st = from_process_state ps"
proof -
  obtain os where os: "ml_os L dump = Some os" using w by (cases "ml_os L dump") (auto simp: stackwalk_def)
  let ?P = "P0\<lparr>sp_object_type := object_type_of_os os,
     sp_first_module_debug_id := Option.bind (ml_module_list L dump) (\<lambda>ms. case ms of m # _ \<Rightarrow> mm_debug_id m | [] \<Rightarrow> None)\<rparr>"
  obtain x where x: "ml_process L dump (fill_symbol ?P) (load_cfi_module ?P) = Ret x"
    "(case x of Inl e \<Rightarrow> Inl e | Inr (ps, loaded) \<Rightarrow>
       Inr (walked_modules X I (ml_code_id_nil L) (object_type_of_os os) (ps_modules ps) loaded,
            map (walked_thread (ps_requesting_thread ps)) (enumerate 0 (ps_threads ps)), from_process_state ps)) = Inr (modules, traces, st)"
    using w by (auto simp only: stackwalk_def os option.case Let_def map_out_eq_Ret)
  then obtain y where y: "x = Inr y" by (cases x) auto
  obtain ps loaded where "y = (ps, loaded)" by (cases y)
  then show thesis using that[of ?P ps loaded "object_type_of_os os"] x y by simp
qed

definition client_traces :: "('m, 'f) minidump_lib \<Rightarrow> 'm \<Rightarrow> raw_stacktrace list" where
  "client_traces L dump =
     (case parse_stacktraces_from_minidump (ml_big_endian L) (ml_raw_stream L dump) of Ret (Inr (Some client)) \<Rightarrow> client | _ \<Rightarrow> [])"

text \<open>
  C13. A minidump that is processed becomes a request of what its walk found. Every thread is there,
  in order, with its id and whether it crashed; its frames are the first 256 of the walk or all of
  a client-side trace for its id in the dump's own stream. Every module with an id is there; every module the walk asked for
  is there with the status of its unwind information, and no other claims to have been used.
\<close>

theorem minidump_request_faithful:
  fixes A :: "('s, 'p, 'o, 'm, 'f) crash_actor"
  assumes "stackwalk_minidump A req = Ret (Inr (request, st))"
  shows "\<exists>contents dump ps loaded (P :: ('f, 's) symbol_provider).
       fetch_attachment A (pm_minidump_file req) = Inr contents \<and> ml_read (ca_minidump A) contents = Inr dump
     \<and> sp_scope P = pm_scope req \<and> sp_sources P = pm_sources req
     \<and> ml_process (ca_minidump A) dump (fill_symbol P) (load_cfi_module P) = Ret (Inr (ps, loaded))
     \<and> length (nr_stacktraces request) = length (ps_threads ps)
     \<and> (\<forall>i < length (ps_threads ps). thread_faithful ps (client_traces (ca_minidump A) dump) i (nr_stacktraces request ! i))
     \<and> modules_faithful ps loaded (nr_modules request)
     \<and> st = from_process_state ps"
proof -
  let ?A = "ca_minidump A"
  obtain contents where c: "fetch_attachment A (pm_minidump_file req) = Inr contents"
    using assms by (cases "fetch_attachment A (pm_minidump_file req)") (auto simp: stackwalk_minidump_def)
  obtain dump where d: "ml_read ?A contents = Inr dump"
    using assms c by (cases "ml_read ?A contents") (auto simp: stackwalk_minidump_def)
  let ?P0 = "(ca_provider A)\<lparr>sp_scope := pm_scope req, sp_sources := pm_sources req,
     sp_rewrite_first_module := pm_rewrite_first_module req, sp_extract_variables := pm_extract_variables req\<rparr>"
  let ?walk = "stackwalk (sv_ext (na_services (ca_native A))) (ds_ids (na_debug (ca_native A))) ?A ?P0 dump"
  have run: "stackwalk_minidump A req = bind_out ?walk (\<lambda>r. case r of
         Inl e \<Rightarrow> Ret (Inl e)
       | Inr (modules, stacktraces, st) \<Rightarrow>
           map_out (\<lambda>c. Inr (minidump_request req modules
               (case c of Inr (Some client) \<Rightarrow> merge_clientside_with_processed_stacktraces stacktraces client | _ \<Rightarrow> stacktraces) dump, st))
             (parse_stacktraces_from_minidump (ml_big_endian ?A) (ml_raw_stream ?A dump)))"
    by (simp only: stackwalk_minidump_def c d sum.case)
  then obtain y where y: "?walk = Ret y" using assms by (cases ?walk) auto
  then obtain z where z: "y = Inr z" using assms run by (cases y) auto
  obtain modules traces st' where "z = (modules, traces, st')" by (cases z)
  with y z have w: "?walk = Ret (Inr (modules, traces, st'))" by simp
  then obtain x where r: "parse_stacktraces_from_minidump (ml_big_endian ?A) (ml_raw_stream ?A dump) = Ret x" "st = st'"
    "request = minidump_request req modules
       (case x of Inr (Some client) \<Rightarrow> merge_clientside_with_processed_stacktraces traces client | _ \<Rightarrow> traces) dump"
    using assms unfolding run w by (auto simp: map_out_eq_Ret)
  obtain P :: "('f, 's) symbol_provider" and oty ps loaded where p: "ml_process ?A dump (fill_symbol P) (load_cfi_module P) = Ret (Inr (ps, loaded))"
    "sp_scope P = pm_scope req \<and> sp_sources P = pm_sources req"
    "modules = walked_modules (sv_ext (na_services (ca_native A))) (ds_ids (na_debug (ca_native A))) (ml_code_id_nil ?A) oty (ps_modules ps) loaded"
    "traces = map (walked_thread (ps_requesting_thread ps)) (enumerate 0 (ps_threads ps))" "st' = from_process_state ps"
    by (rule stackwalk_InrE[OF w]) simp
  have client: "client_traces ?A dump = (case x of Inr (Some client) \<Rightarrow> client | _ \<Rightarrow> [])"
    by (simp add: client_traces_def r(1))
  have "length (nr_stacktraces request) = length (ps_threads ps)"
    unfolding r(3) p(4) minidump_request_def by (auto simp: merge_clientside_with_processed_stacktraces_def split: sum.splits option.splits)
  moreover have "thread_faithful ps (client_traces ?A dump) i (nr_stacktraces request ! i)" if "i < length (ps_threads ps)" for i
    using merged_faithful[OF that] unfolding r(3) p(4) minidump_request_def client by (auto split: sum.splits option.splits)
  moreover have "modules_faithful ps loaded (nr_modules request)"
    unfolding r(3) p(3) minidump_request_def by (simp add: walked_modules_faithful)
  ultimately show ?thesis using p(1,2,5) r(2) c d
    by (intro exI[of _ contents] exI[of _ dump] exI[of _ ps] exI[of _ loaded] exI[of _ P]) simp
qed

definition demo_process_state :: process_state where
  "demo_process_state = \<lparr>ps_time = 0, ps_os = OsLinux, ps_os_version = None, ps_os_build = None, ps_cpu = CpuX86_64, ps_crashed = True,
     ps_exception = None, ps_assertion = None, ps_requesting_thread = Some 0,
     ps_threads = [\<lparr>mt_thread_id = 7, mt_thread_name = None, mt_frames = []\<rparr>], ps_modules = [demo_module]\<rparr>"

definition demo_minidump_lib :: "(nat, nat) minidump_lib" where
  "demo_minidump_lib = \<lparr>ml_read = (\<lambda>_. Inr 0), ml_os = (\<lambda>_. Some OsLinux), ml_module_list = (\<lambda>_. None),
     ml_raw_stream = (\<lambda>_ _. StreamNotFound), ml_big_endian = False, ml_missing_system_info = [], ml_code_id_nil = (\<lambda>c. c = []),
     ml_process = (\<lambda>_ _ _. Ret (Inr (demo_process_state, Map.empty)))\<rparr>"

definition demo_crash_actor :: "(nat, nat, nat, nat, nat) crash_actor" where
  "demo_crash_actor = \<lparr>ca_native = demo_actor, ca_minidump = demo_minidump_lib, ca_provider = demo_provider, ca_tempfile = None,
     ca_fetch = (\<lambda>_. Inl NotFound), ca_decompress = Inr\<rparr>"

definition demo_minidump :: process_minidump where
  "demo_minidump = \<lparr>pm_platform = None, pm_scope = Global, pm_minidump_file = LocalFile ''MDMP'', pm_sources = [], pm_rewrite_first_module = [],
     pm_extract_variables = False, pm_apply_source_server_info = False\<rparr>"

definition demo_crash_request :: "nat native_request" where
  "demo_crash_request = (case stackwalk_minidump demo_crash_actor demo_minidump of Ret (Inr (r, _)) \<Rightarrow> r | _ \<Rightarrow> undefined)"

lemma demo_crash_run: "stackwalk_minidump demo_crash_actor demo_minidump = Ret (Inr (demo_crash_request, from_process_state demo_process_state))"
  by (simp add: demo_crash_request_def stackwalk_minidump_def demo_crash_actor_def demo_minidump_def demo_minidump_lib_def
      fetch_attachment_def download_attachment_def stackwalk_def parse_stacktraces_from_minidump_def)

lemma minidump_request_faithful_witness:
  "\<exists>dump ps loaded (P :: (nat, nat) symbol_provider). ml_process (ca_minidump demo_crash_actor) dump (fill_symbol P) (load_cfi_module P) = Ret (Inr (ps, loaded))
     \<and> length (nr_stacktraces demo_crash_request) = length (ps_threads ps)
     \<and> modules_faithful ps loaded (nr_modules demo_crash_request)"
  using minidump_request_faithful[OF demo_crash_run] by blast

end
