(* ===== verification/SharedCache.thy ===== *)
theory SharedCache
  imports Cacher
begin

text \<open>
  \<open>caching/shared_cache/mod.rs\<close>: the cache shared by several instances of the service. A store puts
  a message in a bounded queue; a worker takes messages while it has permits and starts an upload
  for each; an upload writes to the backend, gives its permit back and notifies whoever waits.
  Here are both backends, the state of the service, its operations and the events that interleave
  them. The answers of the bucket and the failures of the file system are parameters of the single
  steps. Properties are in \<open>SharedCacheCorrect\<close>.
\<close>

section \<open>Errors and results\<close>

datatype shared_error = SharedConnectTimeout | SharedTimeout | SharedOther string

definition shared_error_details :: "shared_error \<Rightarrow> string" where
  "shared_error_details e = (case e of
      SharedConnectTimeout \<Rightarrow> ''connect-timeout''
    | SharedTimeout \<Rightarrow> ''timeout''
    | SharedOther _ \<Rightarrow> ''other'')"

datatype store_result = Written nat nat | Skipped

definition store_result_as_str :: "store_result \<Rightarrow> string" where
  "store_result_as_str r = (case r of Written _ _ \<Rightarrow> ''written'' | Skipped \<Rightarrow> ''skipped'')"

definition store_reason_as_str :: "store_reason \<Rightarrow> string" where
  "store_reason_as_str r = (case r of StoreNew \<Rightarrow> ''new'' | StoreRefresh \<Rightarrow> ''refresh'')"

section \<open>Configuration\<close>

text \<open>The directory or the bucket.\<close>

datatype shared_backend = FsBackend string | GcsBackend string

definition shared_backend_name :: "shared_backend \<Rightarrow> string" where
  "shared_backend_name b = (case b of GcsBackend _ \<Rightarrow> ''GCS'' | FsBackend _ \<Rightarrow> ''filesystem'')"

record shared_cache_config =
  scc_max_concurrent_uploads :: nat
  scc_max_upload_queue_size :: nat
  scc_backend :: shared_backend

definition default_max_upload_queue_size :: nat where
  "default_max_upload_queue_size = 400"

definition default_max_concurrent_uploads :: nat where
  "default_max_concurrent_uploads = 20"

text \<open>Only the credentials of a bucket can fail.\<close>

definition maybe_new_backend :: "bool \<Rightarrow> shared_backend \<Rightarrow> shared_backend option" where
  "maybe_new_backend gcs_ok b = (case b of GcsBackend _ \<Rightarrow> if gcs_ok then Some b else None | FsBackend _ \<Rightarrow> Some b)"

section \<open>Uploads\<close>

record upload_message =
  um_cache :: cache_name
  um_key :: string
  um_content :: string
  um_done :: nat
  um_reason :: store_reason

text \<open>
  An upload is cut where other tasks can be seen to interfere: the look whether the item is there,
  the write that makes it visible, the message that gives back the permit, the notification.
\<close>

datatype upload_phase = UpStarted | UpWriting | UpStored "shared_error + store_result" | UpReported

type_synonym shared_files = "string \<rightharpoonup> string"

datatype shared_op = MkdirParent | StatFile | MkdirTemp | NewTemp | DupTemp | CopyTemp | PersistTemp

datatype token_answer = TokenOk | TokenFails | TokenTimeout

datatype http_answer = NoAnswer | SendFails | Answer nat

text \<open>\<open>se_late\<close>: the object was created although the answer does not say so.\<close>

record store_env =
  se_ok :: "shared_op \<Rightarrow> bool"
  se_token :: token_answer
  se_url_ok :: bool
  se_answer :: http_answer
  se_late :: bool
  se_compressed :: nat
  se_status_text :: "nat \<Rightarrow> string"

section \<open>The directory\<close>

definition has_parent :: "string \<Rightarrow> bool" where
  "has_parent p = list_ex (\<lambda>c. c \<noteq> CHR ''/'') p"

text \<open>Up to the empty temporary file; then the contents and the rename.\<close>

definition fs_store_prepare :: "string \<Rightarrow> store_env \<Rightarrow> shared_files \<Rightarrow> upload_message \<Rightarrow> upload_phase" where
  "fs_store_prepare root E held m =
     (let abspath = path_join root (um_key m) in
      if \<not> has_parent abspath then UpStored (Inl (SharedOther ''Shared cache directory not found''))
      else if \<not> se_ok E MkdirParent then UpStored (Inl (SharedOther ''Failed to create parent directories''))
      else if se_ok E StatFile \<and> held abspath \<noteq> None then UpStored (Inr Skipped)
      else if \<not> se_ok E MkdirTemp then UpStored (Inl (SharedOther ''failed to create tempdir''))
      else if \<not> se_ok E NewTemp then UpStored (Inl (SharedOther ''failed to create tempfile''))
      else if \<not> se_ok E DupTemp then UpStored (Inl (SharedOther ''failed to dup filedescriptor''))
      else UpWriting)"

definition fs_store_write :: "string \<Rightarrow> store_env \<Rightarrow> shared_files \<Rightarrow> upload_message \<Rightarrow> upload_phase \<times> shared_files" where
  "fs_store_write root E held m =
     (if \<not> se_ok E CopyTemp then (UpStored (Inl (SharedOther ''Failed to copy data into file'')), held)
      else if \<not> se_ok E PersistTemp then (UpStored (Inl (SharedOther ''Failed to save file in shared cache'')), held)
      else (UpStored (Inr (Written (length (um_content m)) (length (um_content m)))),
            held(path_join root (um_key m) \<mapsto> um_content m)))"

definition fs_advance :: "string \<Rightarrow> store_env \<Rightarrow> shared_files \<Rightarrow> upload_message \<Rightarrow> upload_phase \<Rightarrow> upload_phase \<times> shared_files" where
  "fs_advance root E held m ph = (case ph of
      UpStarted \<Rightarrow> (fs_store_prepare root E held m, held)
    | UpWriting \<Rightarrow> fs_store_write root E held m
    | _ \<Rightarrow> (ph, held))"

text \<open>
  A fetch. A file is replaced by a rename only, so the contents read are those at the time of
  opening. The second component is what was written to the destination; \<open>fe_body\<close> is where the
  transfer broke off.
\<close>

datatype body_end = BodyComplete | BodyFails nat | BodyTimeout nat

datatype fetch_end = FetchEnds | FetchLost nat | FetchElapsed nat

record fetch_env =
  fe_open_ok :: bool
  fe_body :: body_end
  fe_token :: token_answer
  fe_url_ok :: bool
  fe_answer :: http_answer
  fe_end :: fetch_end
  fe_status_text :: "nat \<Rightarrow> string"

definition fs_fetch :: "string \<Rightarrow> fetch_env \<Rightarrow> shared_files \<Rightarrow> string \<Rightarrow> (shared_error + nat option) \<times> string" where
  "fs_fetch root F held key =
     (if \<not> fe_open_ok F then (Inl (SharedOther ''Failed to open file in shared cache''), [])
      else (case held (path_join root key) of
          None \<Rightarrow> (Inr None, [])
        | Some c \<Rightarrow> (case fe_body F of
              BodyComplete \<Rightarrow> (Inr (Some (length c)), c)
            | BodyFails n \<Rightarrow> (Inl (SharedOther ''Failed to copy file from shared cache''), take n c)
            | BodyTimeout n \<Rightarrow> (Inl (SharedOther ''Failed to copy file from shared cache''), take n c))))"

section \<open>The bucket\<close>

definition http_success :: "nat \<Rightarrow> bool" where
  "http_success status \<longleftrightarrow> 200 \<le> status \<and> status < 300"

definition gcs_state_token :: "token_answer \<Rightarrow> shared_error + unit" where
  "gcs_state_token t = (case t of
      TokenOk \<Rightarrow> Inr ()
    | TokenFails \<Rightarrow> Inl (SharedOther ''Failed to get authentication token'')
    | TokenTimeout \<Rightarrow> Inl (SharedOther ''Timeout refreshing GCS authentication token''))"

text \<open>The server: it has no success for an object that is not there, and creates objects only once.\<close>

definition get_object :: "shared_files \<Rightarrow> string \<Rightarrow> http_answer \<Rightarrow> http_answer" where
  "get_object held key a = (case a of Answer st \<Rightarrow> if http_success st \<and> held key = None then Answer 404 else a | _ \<Rightarrow> a)"

definition post_object :: "shared_files \<Rightarrow> string \<Rightarrow> string \<Rightarrow> http_answer \<Rightarrow> bool \<Rightarrow> http_answer \<times> shared_files" where
  "post_object held key content a late =
     (if held key \<noteq> None then (case a of Answer st \<Rightarrow> if http_success st then Answer 412 else a | _ \<Rightarrow> a, held)
      else (a, case a of
          Answer st \<Rightarrow> if http_success st then held(key \<mapsto> content) else held
        | _ \<Rightarrow> if late then held(key \<mapsto> content) else held))"

definition gcs_exists :: "store_env \<Rightarrow> shared_files \<Rightarrow> string \<Rightarrow> shared_error + bool" where
  "gcs_exists E held key =
     (case gcs_state_token (se_token E) of
        Inl e \<Rightarrow> Inl e
      | Inr _ \<Rightarrow>
          if \<not> se_url_ok E then Inl (SharedOther ''failed to build object url'')
          else (case get_object held key (se_answer E) of
              Answer st \<Rightarrow> if st = 200 then Inr True else if st = 404 then Inr False
                else Inl (SharedOther (''Unexpected status code from GCS: '' @ se_status_text E st))
            | SendFails \<Rightarrow> Inl (SharedOther ''Error connecting to GCS'')
            | NoAnswer \<Rightarrow> Inl SharedConnectTimeout))"

text \<open>A failing look does not keep the upload from going on.\<close>

definition gcs_store_prepare :: "store_env \<Rightarrow> shared_files \<Rightarrow> upload_message \<Rightarrow> upload_phase" where
  "gcs_store_prepare E held m =
     (if um_reason m = StoreRefresh then
        (case gcs_exists E held (um_key m) of Inr True \<Rightarrow> UpStored (Inr Skipped) | _ \<Rightarrow> UpWriting)
      else UpWriting)"

definition gcs_store_write :: "string \<Rightarrow> store_env \<Rightarrow> shared_files \<Rightarrow> upload_message \<Rightarrow> upload_phase \<times> shared_files" where
  "gcs_store_write bucket E held m =
     (case gcs_state_token (se_token E) of
        Inl e \<Rightarrow> (UpStored (Inl e), held)
      | Inr _ \<Rightarrow>
          if \<not> se_url_ok E then (UpStored (Inl (SharedOther ''failed to build url'')), held)
          else (case post_object held (um_key m) (um_content m) (se_answer E) (se_late E) of (a, held) \<Rightarrow>
            (UpStored (case a of
                Answer st \<Rightarrow>
                  if http_success st then Inr (Written (length (um_content m)) (se_compressed E))
                  else if st = 412 then Inr Skipped
                  else if st = 403 then Inl (SharedOther (''Insufficient permissions for bucket '' @ bucket))
                  else if st = 401 then Inl (SharedOther ''Invalid credentials'')
                  else Inl (SharedOther (''Error response from GCS: '' @ se_status_text E st))
              | SendFails \<Rightarrow> Inl (SharedOther ''Bad GCS response for shared_cache'')
              | NoAnswer \<Rightarrow> Inl SharedConnectTimeout), held)))"

definition gcs_advance :: "string \<Rightarrow> store_env \<Rightarrow> shared_files \<Rightarrow> upload_message \<Rightarrow> upload_phase \<Rightarrow> upload_phase \<times> shared_files" where
  "gcs_advance bucket E held m ph = (case ph of
      UpStarted \<Rightarrow> (gcs_store_prepare E held m, held)
    | UpWriting \<Rightarrow> gcs_store_write bucket E held m
    | _ \<Rightarrow> (ph, held))"

definition gcs_fetch :: "string \<Rightarrow> fetch_env \<Rightarrow> shared_files \<Rightarrow> string \<Rightarrow> (shared_error + nat option) \<times> string" where
  "gcs_fetch bucket F held key =
     (case gcs_state_token (fe_token F) of
        Inl e \<Rightarrow> (Inl e, [])
      | Inr _ \<Rightarrow>
          if \<not> fe_url_ok F then (Inl (SharedOther ''URL construction failed''), [])
          else (case get_object held key (fe_answer F) of
              NoAnswer \<Rightarrow> (Inl SharedConnectTimeout, [])
            | SendFails \<Rightarrow> (Inl (SharedOther ''Bad GCS response for shared_cache''), [])
            | Answer st \<Rightarrow>
                if http_success st then
                  (let c = (case held key of Some c \<Rightarrow> c | None \<Rightarrow> []) in
                   case fe_body F of
                     BodyComplete \<Rightarrow> (Inr (Some (length c)), c)
                   | BodyFails n \<Rightarrow> (Inl (SharedOther ''IO Error streaming HTTP bytes to writer''), take n c)
                   | BodyTimeout n \<Rightarrow> (Inl SharedTimeout, take n c))
                else if st = 404 then (Inr None, [])
                else if st = 403 then (Inl (SharedOther (''Insufficient permissions for bucket '' @ bucket)), [])
                else if st = 401 then (Inl (SharedOther ''Invalid credentials''), [])
                else (Inl (SharedOther (''Error response from GCS: '' @ fe_status_text F st)), [])))"

section \<open>The service\<close>

definition backend_path :: "shared_backend \<Rightarrow> string \<Rightarrow> string" where
  "backend_path b key = (case b of FsBackend root \<Rightarrow> path_join root key | GcsBackend _ \<Rightarrow> key)"

definition backend_advance :: "shared_backend \<Rightarrow> store_env \<Rightarrow> shared_files \<Rightarrow> upload_message \<Rightarrow> upload_phase \<Rightarrow> upload_phase \<times> shared_files" where
  "backend_advance b = (case b of FsBackend root \<Rightarrow> fs_advance root | GcsBackend bucket \<Rightarrow> gcs_advance bucket)"

definition shared_key :: "cache_name \<Rightarrow> string \<Rightarrow> string" where
  "shared_key cache key = cache_name_as_str cache @ ''/'' @ key"

text \<open>
  A lookup. The fetch from a bucket runs in a task with a time limit: a task that is lost counts
  as a failed connection. Errors are hidden; the destination may have received some bytes.
\<close>

definition shared_fetch :: "shared_backend \<Rightarrow> fetch_env \<Rightarrow> shared_files \<Rightarrow> cache_name \<Rightarrow> string \<Rightarrow> fetch_result" where
  "shared_fetch b F held cache key =
     (let key = shared_key cache key;
          (res, written) = (case b of
              GcsBackend bucket \<Rightarrow> (case fe_end F of
                  FetchEnds \<Rightarrow> gcs_fetch bucket F held key
                | FetchLost n \<Rightarrow> (Inl SharedConnectTimeout, take n (snd (gcs_fetch bucket F held key)))
                | FetchElapsed n \<Rightarrow> (Inl SharedTimeout, take n (snd (gcs_fetch bucket F held key))))
            | FsBackend root \<Rightarrow> fs_fetch root F held key)
      in case res of Inr (Some _) \<Rightarrow> FetchHit written | _ \<Rightarrow> FetchMiss written)"

datatype completion = DonePending | DoneSent | DoneDropped

datatype worker = WorkerStarting | WorkerRunning | WorkerDead

record upload =
  up_message :: upload_message
  up_phase :: upload_phase

text \<open>
  \<open>sc_done\<close> counts the messages of finished uploads to the worker; \<open>sc_completions\<close> are the channels
  handed out by stores, in order, and \<open>sc_stored\<close> the stores that were put in the queue.
\<close>

record shared_cache_service =
  sc_backend :: shared_backend
  sc_capacity :: nat
  sc_max :: nat
  sc_worker :: worker
  sc_queue :: "upload_message list"
  sc_counter :: nat
  sc_uploads :: "upload list"
  sc_done :: nat
  sc_files :: shared_files
  sc_completions :: "completion list"
  sc_stored :: "(cache_name \<times> string \<times> string) list"

text \<open>A channel without capacity panics. \<open>held\<close> is what the backend has already.\<close>

definition shared_init :: "bool \<Rightarrow> shared_files \<Rightarrow> shared_cache_config \<Rightarrow> shared_cache_service option outcome" where
  "shared_init gcs_ok held C =
     (if scc_max_upload_queue_size C = 0 then Panic
      else Ret (map_option (\<lambda>b. \<lparr>sc_backend = b, sc_capacity = scc_max_upload_queue_size C, sc_max = scc_max_concurrent_uploads C,
             sc_worker = WorkerStarting, sc_queue = [], sc_counter = 0, sc_uploads = [], sc_done = 0, sc_files = held,
             sc_completions = [], sc_stored = []\<rparr>) (maybe_new_backend gcs_ok (scc_backend C))))"

text \<open>\<open>draw\<close> is the random number in units of \<open>2\<^sup>-\<^sup>2\<^sup>4\<close>, the resolution of a random \<open>f32\<close>.\<close>

definition shared_store :: "cache_name \<Rightarrow> string \<Rightarrow> string \<Rightarrow> store_reason \<Rightarrow> nat \<Rightarrow> shared_cache_service \<Rightarrow> shared_cache_service" where
  "shared_store cache key content reason draw s =
     (if reason = StoreRefresh \<and> 20 * draw > 2 ^ 24 then s\<lparr>sc_completions := sc_completions s @ [DoneSent]\<rparr>
      else if sc_worker s = WorkerDead \<or> sc_capacity s \<le> length (sc_queue s)
      then s\<lparr>sc_completions := sc_completions s @ [DoneDropped]\<rparr>
      else s\<lparr>sc_queue := sc_queue s @ [\<lparr>um_cache = cache, um_key = shared_key cache key, um_content = content,
                um_done = length (sc_completions s), um_reason = reason\<rparr>],
             sc_completions := sc_completions s @ [DonePending],
             sc_stored := sc_stored s @ [(cache, key, content)]\<rparr>)"

text \<open>
  The worker. It makes its own channel first, which panics without permits; then what is in the
  queue is dropped with the queue.
\<close>

definition drop_completions :: "upload_message list \<Rightarrow> completion list \<Rightarrow> completion list" where
  "drop_completions ms cs = fold (\<lambda>m cs. cs[um_done m := DoneDropped]) ms cs"

definition start_worker :: "shared_cache_service \<Rightarrow> shared_cache_service" where
  "start_worker s =
     (if sc_max s = 0
      then s\<lparr>sc_worker := WorkerDead, sc_completions := drop_completions (sc_queue s) (sc_completions s), sc_queue := []\<rparr>
      else s\<lparr>sc_worker := WorkerRunning, sc_counter := sc_max s\<rparr>)"

definition receive_message :: "shared_cache_service \<Rightarrow> shared_cache_service option" where
  "receive_message s =
     (case sc_queue s of
        m # ms \<Rightarrow> if 0 < sc_counter s
          then Some (s\<lparr>sc_queue := ms, sc_counter := sc_counter s - 1, sc_uploads := sc_uploads s @ [\<lparr>up_message = m, up_phase = UpStarted\<rparr>]\<rparr>)
          else None
      | [] \<Rightarrow> None)"

definition receive_done :: "shared_cache_service \<Rightarrow> shared_cache_service option" where
  "receive_done s = (if 0 < sc_done s then Some (s\<lparr>sc_done := sc_done s - 1, sc_counter := sc_counter s + 1\<rparr>) else None)"

text \<open>The end of an upload: the message to the worker waits for room in its channel.\<close>

definition advance_upload :: "store_env \<Rightarrow> nat \<Rightarrow> shared_cache_service \<Rightarrow> shared_cache_service option" where
  "advance_upload E k s =
     (let u = sc_uploads s ! k in
      if up_phase u = UpStarted \<or> up_phase u = UpWriting then
        (case backend_advance (sc_backend s) E (sc_files s) (up_message u) (up_phase u) of (ph, held) \<Rightarrow>
           Some (s\<lparr>sc_uploads := (sc_uploads s)[k := u\<lparr>up_phase := ph\<rparr>], sc_files := held\<rparr>))
      else None)"

definition report_done :: "nat \<Rightarrow> shared_cache_service \<Rightarrow> shared_cache_service option" where
  "report_done k s =
     (let u = sc_uploads s ! k in
      case up_phase u of
        UpStored _ \<Rightarrow> if sc_done s < sc_max s
          then Some (s\<lparr>sc_done := sc_done s + 1, sc_uploads := (sc_uploads s)[k := u\<lparr>up_phase := UpReported\<rparr>]\<rparr>) else None
      | _ \<Rightarrow> None)"

definition notify_done :: "nat \<Rightarrow> shared_cache_service \<Rightarrow> shared_cache_service option" where
  "notify_done k s =
     (let u = sc_uploads s ! k in
      if up_phase u = UpReported
      then Some (s\<lparr>sc_completions := (sc_completions s)[um_done (up_message u) := DoneSent],
                 sc_uploads := take k (sc_uploads s) @ drop (Suc k) (sc_uploads s)\<rparr>)
      else None)"

datatype shared_event =
    Store cache_name string string store_reason nat
  | StartWorker
  | ReceiveMessage
  | ReceiveDone
  | AdvanceUpload store_env nat
  | ReportDone nat
  | NotifyDone nat

fun shared_step :: "shared_event \<Rightarrow> shared_cache_service \<Rightarrow> shared_cache_service option" where
  "shared_step (Store cache key content reason draw) s = Some (shared_store cache key content reason draw s)"
| "shared_step StartWorker s = (if sc_worker s = WorkerStarting then Some (start_worker s) else None)"
| "shared_step ReceiveMessage s = (if sc_worker s = WorkerRunning then receive_message s else None)"
| "shared_step ReceiveDone s = (if sc_worker s = WorkerRunning then receive_done s else None)"
| "shared_step (AdvanceUpload E k) s = (if k < length (sc_uploads s) then advance_upload E k s else None)"
| "shared_step (ReportDone k) s = (if k < length (sc_uploads s) then report_done k s else None)"
| "shared_step (NotifyDone k) s = (if k < length (sc_uploads s) then notify_done k s else None)"

fun shared_run :: "shared_event list \<Rightarrow> shared_cache_service \<Rightarrow> shared_cache_service option" where
  "shared_run [] s = Some s"
| "shared_run (e # es) s = (case shared_step e s of Some s \<Rightarrow> shared_run es s | None \<Rightarrow> None)"

end
