(* ===== verification/SharedCacheCorrect.thy ===== *)
theory SharedCacheCorrect
  imports SharedCache CacherCorrect "HOL-Library.Multiset"
begin

text \<open>
  The shared cache service: permits are never lost, stores never block, every accepted upload ends
  and its waiter is notified, and what a lookup finds was stored under that cache and key. The
  service relies on its backend through the interface \<open>upload_backend\<close>, interpreted on the directory,
  on the bucket, and on the choice between them.
\<close>

section \<open>Backends\<close>

definition phase_work :: "upload_phase \<Rightarrow> nat" where
  "phase_work ph = (case ph of UpStarted \<Rightarrow> 5 | UpWriting \<Rightarrow> 4 | UpStored _ \<Rightarrow> 3 | UpReported \<Rightarrow> 1)"

text \<open>An upload that meets no failure.\<close>

definition store_env_ok :: "store_env \<Rightarrow> bool" where
  "store_env_ok E \<longleftrightarrow> (\<forall>x. se_ok E x) \<and> se_token E = TokenOk \<and> se_url_ok E \<and> se_answer E = Answer 200"

locale upload_backend =
  fixes path :: "string \<Rightarrow> string"
    and advance :: "store_env \<Rightarrow> shared_files \<Rightarrow> upload_message \<Rightarrow> upload_phase \<Rightarrow> upload_phase \<times> shared_files"
  assumes files_law: "advance E held m ph = (ph', held') \<Longrightarrow> held' = held \<or> held' = held(path (um_key m) \<mapsto> um_content m)"
    and work_law: "advance E held m ph = (ph', held') \<Longrightarrow> ph = UpStarted \<or> ph = UpWriting
      \<Longrightarrow> ph' \<noteq> UpReported \<and> phase_work ph' < phase_work ph"
    and stored_law: "advance E held m ph = (ph', held') \<Longrightarrow> store_env_ok E \<Longrightarrow> has_parent (path (um_key m))
      \<Longrightarrow> ph = UpStarted \<or> ph = UpWriting \<Longrightarrow> ph' = UpStored x \<Longrightarrow> held' (path (um_key m)) \<noteq> None"
begin

lemma content_from: "advance E held m ph = (ph', held') \<Longrightarrow> held' p = Some c
    \<Longrightarrow> held p = Some c \<or> (p = path (um_key m) \<and> c = um_content m)"
  using files_law[of E held m ph ph' held'] by (auto split: if_splits)

lemma keeps_items: "advance E held m ph = (ph', held') \<Longrightarrow> held p \<noteq> None \<Longrightarrow> held' p \<noteq> None"
  using files_law[of E held m ph ph' held'] by auto

end

lemma is_success_200 [simp]: "http_success 200" "http_success (Suc (Suc 198))"
  by (simp_all add: http_success_def)

interpretation fs_backend: upload_backend "path_join root" "fs_advance root" for root
proof
  fix E held m ph ph' held'
  assume a: "fs_advance root E held m ph = (ph', held')"
  then show "held' = held \<or> held' = held(path_join root (um_key m) \<mapsto> um_content m)"
    by (cases ph) (auto simp: fs_advance_def fs_store_write_def split: if_splits)
  show "ph' \<noteq> UpReported \<and> phase_work ph' < phase_work ph" if "ph = UpStarted \<or> ph = UpWriting"
    using a that by (auto simp: fs_advance_def fs_store_prepare_def fs_store_write_def Let_def phase_work_def split: if_splits)
  show "held' (path_join root (um_key m)) \<noteq> None"
    if "store_env_ok E" "has_parent (path_join root (um_key m))" "ph = UpStarted \<or> ph = UpWriting" "ph' = UpStored x" for x
    using a that by (auto simp: fs_advance_def fs_store_prepare_def fs_store_write_def Let_def store_env_ok_def split: if_splits)
qed

interpretation gcs_backend: upload_backend "\<lambda>key. key" "gcs_advance bucket" for bucket
proof
  fix E held m ph ph' held'
  assume a: "gcs_advance bucket E held m ph = (ph', held')"
  then show "held' = held \<or> held' = held(um_key m \<mapsto> um_content m)"
    by (cases ph) (auto simp: gcs_advance_def gcs_store_write_def post_object_def split: if_splits sum.splits http_answer.splits)
  show "ph' \<noteq> UpReported \<and> phase_work ph' < phase_work ph" if "ph = UpStarted \<or> ph = UpWriting"
    using a that by (auto simp: gcs_advance_def gcs_store_prepare_def gcs_store_write_def phase_work_def
        split: if_splits sum.splits bool.splits prod.splits)
  show "held' (um_key m) \<noteq> None"
    if "store_env_ok E" "has_parent (um_key m)" "ph = UpStarted \<or> ph = UpWriting" "ph' = UpStored x" for x
    using a that by (auto simp: gcs_advance_def gcs_store_prepare_def gcs_store_write_def gcs_exists_def get_object_def post_object_def
        gcs_state_token_def store_env_ok_def split: if_splits sum.splits bool.splits)
qed

interpretation backend: upload_backend "backend_path b" "backend_advance b" for b
proof (cases b)
  case (FsBackend root)
  have "backend_path b = path_join root" "backend_advance b = fs_advance root"
    by (simp_all add: FsBackend backend_path_def[abs_def] backend_advance_def)
  then show "upload_backend (backend_path b) (backend_advance b)" using fs_backend.upload_backend_axioms by simp
next
  case (GcsBackend bucket)
  have "backend_path b = (\<lambda>key. key)" "backend_advance b = gcs_advance bucket"
    by (simp_all add: GcsBackend backend_path_def[abs_def] backend_advance_def)
  then show "upload_backend (backend_path b) (backend_advance b)" using gcs_backend.upload_backend_axioms by simp
qed

section \<open>Paths\<close>

lemma shared_key_cache: "takeWhile (\<lambda>x. x \<noteq> CHR ''/'') (shared_key c k) = cache_name_as_str c"
proof -
  have "\<forall>x \<in> set (cache_name_as_str c). x \<noteq> CHR ''/''" by (cases c) (simp_all add: cache_name_as_str_def)
  then show ?thesis by (simp add: shared_key_def takeWhile_append2)
qed

lemma shared_key_inj: "shared_key c k = shared_key c' k' \<longleftrightarrow> c = c' \<and> k = k'"
proof
  assume e: "shared_key c k = shared_key c' k'"
  have "cache_name_as_str c = cache_name_as_str c'"
    using arg_cong[OF e, of "takeWhile (\<lambda>x. x \<noteq> CHR ''/'')"] by (simp only: shared_key_cache)
  then have "c = c'" by (rule cache_name_as_str_inj)
  with e show "c = c' \<and> k = k'" by (simp add: shared_key_def)
qed simp

lemma backend_path_inj: "backend_path b k = backend_path b k' \<longleftrightarrow> k = k'"
  by (cases b) (simp_all add: backend_path_def)

lemma shared_path_has_parent: "has_parent (backend_path b (shared_key c k))"
  by (cases b; cases c) (simp_all add: has_parent_def backend_path_def path_join_def shared_key_def cache_name_as_str_def)

section \<open>Steps\<close>

lemma split_at: "k < length xs \<Longrightarrow> \<exists>p u q. xs = p @ u # q \<and> k = length p"
  by (metis id_take_nth_drop length_take min.absorb4)

lemma shared_step_cases:
  assumes "shared_step e s = Some s'"
  obtains (Store) cache key content reason draw where "e = Store cache key content reason draw" "s' = shared_store cache key content reason draw s"
  | (Start) "e = StartWorker" "sc_worker s = WorkerStarting" "s' = start_worker s"
  | (Receive) m ms where "e = ReceiveMessage" "sc_worker s = WorkerRunning" "sc_queue s = m # ms" "0 < sc_counter s"
      "s' = s\<lparr>sc_queue := ms, sc_counter := sc_counter s - 1, sc_uploads := sc_uploads s @ [\<lparr>up_message = m, up_phase = UpStarted\<rparr>]\<rparr>"
  | (Done) "e = ReceiveDone" "sc_worker s = WorkerRunning" "0 < sc_done s" "s' = s\<lparr>sc_done := sc_done s - 1, sc_counter := sc_counter s + 1\<rparr>"
  | (Advance) E p u q ph held where "e = AdvanceUpload E (length p)" "sc_uploads s = p @ u # q" "up_phase u = UpStarted \<or> up_phase u = UpWriting"
      "backend_advance (sc_backend s) E (sc_files s) (up_message u) (up_phase u) = (ph, held)"
      "s' = s\<lparr>sc_uploads := p @ u\<lparr>up_phase := ph\<rparr> # q, sc_files := held\<rparr>"
  | (Report) p u q x where "e = ReportDone (length p)" "sc_uploads s = p @ u # q" "up_phase u = UpStored x" "sc_done s < sc_max s"
      "s' = s\<lparr>sc_done := sc_done s + 1, sc_uploads := p @ u\<lparr>up_phase := UpReported\<rparr> # q\<rparr>"
  | (Notify) p u q where "e = NotifyDone (length p)" "sc_uploads s = p @ u # q" "up_phase u = UpReported"
      "s' = s\<lparr>sc_completions := (sc_completions s)[um_done (up_message u) := DoneSent], sc_uploads := p @ q\<rparr>"
proof (cases e)
  case (Store cache key content reason draw)
  then show thesis using assms that(1) by simp
next
  case StartWorker
  then show thesis using assms that(2) by (simp split: if_splits)
next
  case ReceiveMessage
  then have r: "sc_worker s = WorkerRunning" "receive_message s = Some s'" using assms by (simp_all split: if_splits)
  then obtain m ms where q: "sc_queue s = m # ms" by (cases "sc_queue s") (simp_all add: receive_message_def)
  show thesis by (rule that(3)[OF ReceiveMessage r(1) q]) (use r(2) q in \<open>simp_all add: receive_message_def split: if_splits\<close>)
next
  case ReceiveDone
  show thesis by (rule that(4)[OF ReceiveDone]) (use assms ReceiveDone in \<open>auto simp: receive_done_def split: if_splits\<close>)
next
  case (AdvanceUpload E k)
  then have "k < length (sc_uploads s)" using assms by (simp split: if_splits)
  then obtain p u q where x: "sc_uploads s = p @ u # q" "k = length p" using split_at by blast
  obtain ph held where a: "backend_advance (sc_backend s) E (sc_files s) (up_message u) (up_phase u) = (ph, held)" by fastforce
  show thesis by (rule that(5)[of E p u q, OF _ x(1) _ a])
      (use assms AdvanceUpload x a in \<open>simp_all add: advance_upload_def split: if_splits\<close>)
next
  case (ReportDone k)
  then have "k < length (sc_uploads s)" using assms by (simp split: if_splits)
  then obtain p u q where x: "sc_uploads s = p @ u # q" "k = length p" using split_at by blast
  have r: "report_done (length p) s = Some s'" using assms ReportDone x by simp
  then obtain y where y: "up_phase u = UpStored y" by (cases "up_phase u") (simp_all add: report_done_def x(1))
  show thesis by (rule that(6)[of p u q, OF _ x(1) y])
      (use r y x ReportDone in \<open>simp_all add: report_done_def split: if_splits\<close>)
next
  case (NotifyDone k)
  then have "k < length (sc_uploads s)" using assms by (simp split: if_splits)
  then obtain p u q where x: "sc_uploads s = p @ u # q" "k = length p" using split_at by blast
  show thesis by (rule that(7)[of p u q, OF _ x(1)])
      (use assms NotifyDone x in \<open>simp_all add: notify_done_def split: if_splits\<close>)
qed

section \<open>Permits\<close>

definition unreported :: "upload \<Rightarrow> bool" where
  "unreported u \<longleftrightarrow> up_phase u \<noteq> UpReported"

definition permits_inv :: "shared_cache_service \<Rightarrow> bool" where
  "permits_inv s \<longleftrightarrow> length (sc_queue s) \<le> sc_capacity s
     \<and> (case sc_worker s of
          WorkerRunning \<Rightarrow> 0 < sc_max s \<and> sc_counter s + length (filter unreported (sc_uploads s)) + sc_done s = sc_max s
        | WorkerStarting \<Rightarrow> sc_uploads s = [] \<and> sc_done s = 0
        | WorkerDead \<Rightarrow> sc_uploads s = [] \<and> sc_done s = 0 \<and> sc_queue s = [])"

lemma store_fields [simp]:
  "sc_worker (shared_store c k b r d s) = sc_worker s" "sc_uploads (shared_store c k b r d s) = sc_uploads s"
  "sc_done (shared_store c k b r d s) = sc_done s" "sc_counter (shared_store c k b r d s) = sc_counter s"
  "sc_max (shared_store c k b r d s) = sc_max s" "sc_capacity (shared_store c k b r d s) = sc_capacity s"
  "sc_files (shared_store c k b r d s) = sc_files s" "sc_backend (shared_store c k b r d s) = sc_backend s"
  by (simp_all add: shared_store_def)

lemma permits_step:
  assumes "shared_step e s = Some s'" and "permits_inv s"
  shows "permits_inv s'"
  using assms(1)
proof (cases rule: shared_step_cases)
  case Store
  then show ?thesis using assms(2) by (auto simp: permits_inv_def shared_store_def split: worker.splits)
next
  case Start
  then show ?thesis using assms(2) by (simp add: permits_inv_def start_worker_def)
next
  case Receive
  then show ?thesis using assms(2) by (simp add: permits_inv_def unreported_def)
next
  case Done
  then show ?thesis using assms(2) by (simp add: permits_inv_def)
next
  case (Advance E p u q ph held)
  then have "ph \<noteq> UpReported" using backend.work_law by blast
  moreover have "unreported u" using Advance(3) by (auto simp: unreported_def)
  ultimately show ?thesis using assms(2) Advance by (auto simp: permits_inv_def unreported_def split: worker.splits)
next
  case Report
  then show ?thesis using assms(2) by (auto simp: permits_inv_def unreported_def split: worker.splits)
next
  case Notify
  then show ?thesis using assms(2) by (auto simp: permits_inv_def unreported_def split: worker.splits)
qed

lemma run_invariant:
  assumes "shared_run es s = Some s'" and "I s" and "\<And>e s s'. shared_step e s = Some s' \<Longrightarrow> I s \<Longrightarrow> I s'"
  shows "I s'"
  using assms(1,2)
proof (induction es arbitrary: s)
  case (Cons e es)
  then show ?case using assms(3) by (auto split: option.splits)
qed simp

section \<open>Channels\<close>

definition pending_messages :: "shared_cache_service \<Rightarrow> upload_message list" where
  "pending_messages s = sc_queue s @ map up_message (sc_uploads s)"

definition channels_inv :: "shared_cache_service \<Rightarrow> bool" where
  "channels_inv s \<longleftrightarrow> distinct (map um_done (pending_messages s))
     \<and> (\<forall>m \<in> set (pending_messages s). um_done m < length (sc_completions s))
     \<and> (\<forall>i < length (sc_completions s). sc_completions s ! i = DonePending \<longleftrightarrow> i \<in> um_done ` set (pending_messages s))"

lemma drop_completions_nth:
  "length (drop_completions ms cs) = length cs
   \<and> (i < length cs \<longrightarrow> drop_completions ms cs ! i = (if i \<in> um_done ` set ms then DoneDropped else cs ! i))"
proof (induction ms arbitrary: cs)
  case (Cons m ms)
  show ?case using Cons.IH[of "cs[um_done m := DoneDropped]"]
    by (auto simp: drop_completions_def nth_list_update split: if_splits)
qed (simp add: drop_completions_def)

lemma channels_permuted:
  assumes "mset (pending_messages s') = mset (pending_messages s)" and "sc_completions s' = sc_completions s"
  shows "channels_inv s' \<longleftrightarrow> channels_inv s"
proof -
  have "set (pending_messages s') = set (pending_messages s)" using assms(1) by (rule mset_eq_setD)
  moreover have "distinct (map um_done (pending_messages s')) \<longleftrightarrow> distinct (map um_done (pending_messages s))"
    using assms(1) by (metis mset_eq_imp_distinct_iff mset_map)
  ultimately show ?thesis using assms(2) by (simp add: channels_inv_def)
qed

lemma channels_step:
  assumes "shared_step e s = Some s'" and "channels_inv s" and "permits_inv s"
  shows "channels_inv s'"
  using assms(1)
proof (cases rule: shared_step_cases)
  case (Store cache key content reason draw)
  then show ?thesis using assms(2)
    by (auto simp: shared_store_def channels_inv_def pending_messages_def nth_append less_Suc_eq image_iff)
next
  case Start
  show ?thesis
  proof (cases "sc_max s = 0")
    case True
    have "sc_uploads s = []" using assms(3) Start by (simp add: permits_inv_def)
    then show ?thesis using True Start assms(2) drop_completions_nth[of "sc_queue s" "sc_completions s"]
      by (simp add: start_worker_def channels_inv_def pending_messages_def)
  next
    case False
    then show ?thesis using Start assms(2) by (simp add: start_worker_def channels_inv_def pending_messages_def)
  qed
next
  case Receive
  have "mset (pending_messages s') = mset (pending_messages s)" "sc_completions s' = sc_completions s"
    using Receive by (simp_all add: pending_messages_def)
  then show ?thesis using channels_permuted assms(2) by blast
next
  case Done
  then show ?thesis using assms(2) by (simp add: channels_inv_def pending_messages_def)
next
  case Advance
  then show ?thesis using assms(2) by (simp add: channels_inv_def pending_messages_def)
next
  case Report
  then show ?thesis using assms(2) by (simp add: channels_inv_def pending_messages_def)
next
  case (Notify p u q)
  then show ?thesis using assms(2)
    by (auto simp: channels_inv_def pending_messages_def nth_list_update image_iff)
qed

section \<open>Contents\<close>

definition stored_message :: "shared_cache_service \<Rightarrow> upload_message \<Rightarrow> bool" where
  "stored_message s m \<longleftrightarrow> (\<exists>key. um_key m = shared_key (um_cache m) key \<and> (um_cache m, key, um_content m) \<in> set (sc_stored s))"

definition contents_inv :: "shared_files \<Rightarrow> shared_cache_service \<Rightarrow> bool" where
  "contents_inv held s \<longleftrightarrow> (\<forall>m \<in> set (pending_messages s). stored_message s m)
     \<and> (\<forall>p c. sc_files s p = Some c \<longrightarrow> held p = Some c
          \<or> (\<exists>cache key. p = backend_path (sc_backend s) (shared_key cache key) \<and> (cache, key, c) \<in> set (sc_stored s)))"

lemma contents_shrink:
  assumes "contents_inv held s" and "sc_files s' = sc_files s" "sc_backend s' = sc_backend s" "sc_stored s' = sc_stored s"
    and "set (pending_messages s') \<subseteq> set (pending_messages s)"
  shows "contents_inv held s'"
  using assms by (auto simp: contents_inv_def stored_message_def)

lemma contents_step:
  assumes "shared_step e s = Some s'" and "contents_inv held s"
  shows "contents_inv held s'"
  using assms(1)
proof (cases rule: shared_step_cases)
  case (Store cache key content reason draw)
  show ?thesis
  proof (cases "sc_stored s' = sc_stored s")
    case True
    then have "pending_messages s' = pending_messages s" using Store by (auto simp: shared_store_def pending_messages_def split: if_splits)
    then show ?thesis using True Store assms(2) by (intro contents_shrink[OF assms(2)]) simp_all
  next
    case False
    then have s': "sc_stored s' = sc_stored s @ [(cache, key, content)]"
      "pending_messages s' = sc_queue s @ \<lparr>um_cache = cache, um_key = shared_key cache key, um_content = content,
                um_done = length (sc_completions s), um_reason = reason\<rparr> # map up_message (sc_uploads s)"
      using Store by (auto simp: shared_store_def pending_messages_def split: if_splits)
    have "stored_message s' m" if "m \<in> set (pending_messages s')" for m
      using that assms(2) unfolding s'(2) by (auto simp: contents_inv_def pending_messages_def stored_message_def s'(1))
    moreover have "sc_files s' = sc_files s" "sc_backend s' = sc_backend s" using Store(2) by simp_all
    moreover have "held p = Some c \<or> (\<exists>cache key. p = backend_path (sc_backend s) (shared_key cache key) \<and> (cache, key, c) \<in> set (sc_stored s'))"
      if "sc_files s p = Some c" for p c
    proof -
      have "held p = Some c \<or> (\<exists>cache key. p = backend_path (sc_backend s) (shared_key cache key) \<and> (cache, key, c) \<in> set (sc_stored s))"
        using assms(2) that by (simp add: contents_inv_def)
      moreover have "set (sc_stored s) \<subseteq> set (sc_stored s')" using s'(1) by auto
      ultimately show ?thesis by blast
    qed
    ultimately show ?thesis by (simp add: contents_inv_def)
  qed
next
  case Start
  then show ?thesis by (intro contents_shrink[OF assms(2)]) (auto simp: start_worker_def pending_messages_def)
next
  case Receive
  then show ?thesis by (intro contents_shrink[OF assms(2)]) (auto simp: pending_messages_def)
next
  case Done
  then show ?thesis by (intro contents_shrink[OF assms(2)]) (auto simp: pending_messages_def)
next
  case (Advance E p u q ph held')
  have pend: "pending_messages s' = pending_messages s" using Advance by (simp add: pending_messages_def)
  have "stored_message s (up_message u)" using assms(2) Advance(2) by (auto simp: contents_inv_def pending_messages_def)
  then obtain key where key: "um_key (up_message u) = shared_key (um_cache (up_message u)) key"
    "(um_cache (up_message u), key, um_content (up_message u)) \<in> set (sc_stored s)" by (auto simp: stored_message_def)
  have "held p = Some c \<or> (\<exists>cache key. p = backend_path (sc_backend s) (shared_key cache key) \<and> (cache, key, c) \<in> set (sc_stored s))"
    if "held' p = Some c" for p c
    using backend.content_from[OF Advance(4) that] key assms(2) by (auto simp: contents_inv_def)
  then show ?thesis using assms(2) Advance(5) pend by (simp add: contents_inv_def stored_message_def)
next
  case Report
  then show ?thesis by (intro contents_shrink[OF assms(2)]) (auto simp: pending_messages_def)
next
  case Notify
  then show ?thesis by (intro contents_shrink[OF assms(2)]) (auto simp: pending_messages_def)
qed

section \<open>Progress\<close>

fun internal :: "shared_event \<Rightarrow> bool" where
  "internal (Store _ _ _ _ _) \<longleftrightarrow> False"
| "internal _ \<longleftrightarrow> True"

definition shared_work :: "shared_cache_service \<Rightarrow> nat" where
  "shared_work s = (if sc_worker s = WorkerStarting then 1 else 0) + 6 * length (sc_queue s)
     + sum_list (map (phase_work \<circ> up_phase) (sc_uploads s)) + sc_done s"

lemma work_decreases:
  assumes "shared_step e s = Some s'" and "internal e"
  shows "shared_work s' < shared_work s"
  using assms(1)
proof (cases rule: shared_step_cases)
  case Store
  then show ?thesis using assms(2) by simp
next
  case Start
  then show ?thesis by (simp add: shared_work_def start_worker_def)
next
  case Receive
  then show ?thesis by (simp add: shared_work_def phase_work_def)
next
  case Done
  then show ?thesis by (simp add: shared_work_def)
next
  case (Advance E p u q ph held)
  then have "phase_work ph < phase_work (up_phase u)" using backend.work_law by blast
  then show ?thesis using Advance by (simp add: shared_work_def)
next
  case Report
  then show ?thesis by (simp add: shared_work_def phase_work_def)
next
  case Notify
  then show ?thesis by (simp add: shared_work_def phase_work_def)
qed

lemma run_work: "shared_run es s = Some s' \<Longrightarrow> list_all internal es \<Longrightarrow> length es + shared_work s' \<le> shared_work s"
proof (induction es arbitrary: s)
  case (Cons e es)
  then obtain t where t: "shared_step e s = Some t" "shared_run es t = Some s'" by (auto split: option.splits)
  show ?case using Cons.IH[OF t(2)] work_decreases[OF t(1)] Cons.prems(2) by simp
qed simp

definition idle :: "shared_cache_service \<Rightarrow> bool" where
  "idle s \<longleftrightarrow> (\<forall>e. internal e \<longrightarrow> shared_step e s = None)"

lemma idle_uploads:
  assumes "idle s" "permits_inv s" "sc_worker s = WorkerRunning"
  shows "sc_uploads s = [] \<and> sc_queue s = []"
proof -
  have none: "shared_step e s = None" if "internal e" for e using assms(1) that by (simp add: idle_def)
  have d: "sc_done s = 0" using none[of ReceiveDone] assms(3) by (simp add: receive_done_def split: if_splits)
  have u: "sc_uploads s = []"
  proof (rule ccontr)
    assume "sc_uploads s \<noteq> []"
    then have l: "0 < length (sc_uploads s)" by simp
    show False
    proof (cases "up_phase (sc_uploads s ! 0)")
      case UpReported
      then show ?thesis using none[of "NotifyDone 0"] l by (simp add: notify_done_def)
    next
      case UpStored
      then show ?thesis using none[of "ReportDone 0"] l d assms(2,3) by (simp add: report_done_def permits_inv_def)
    next
      case UpStarted
      then show ?thesis using none[of "AdvanceUpload undefined 0"] l by (simp add: advance_upload_def Let_def split: prod.splits)
    next
      case UpWriting
      then show ?thesis using none[of "AdvanceUpload undefined 0"] l by (simp add: advance_upload_def Let_def split: prod.splits)
    qed
  qed
  then have "0 < sc_counter s" using assms(2,3) d by (simp add: permits_inv_def)
  then have "sc_queue s = []" using none[of ReceiveMessage] assms(3) by (simp add: receive_message_def split: list.splits)
  with u show ?thesis by simp
qed

lemma idle_notified:
  assumes "idle s" "permits_inv s" "channels_inv s"
  shows "DonePending \<notin> set (sc_completions s)"
proof -
  have "sc_worker s \<noteq> WorkerStarting" using assms(1) by (auto simp: idle_def dest: spec[of _ StartWorker])
  then have "pending_messages s = []"
    using idle_uploads[OF assms(1,2)] assms(2) by (cases "sc_worker s") (simp_all add: pending_messages_def permits_inv_def)
  then show ?thesis using assms(3) by (auto simp: channels_inv_def in_set_conv_nth)
qed

lemma idle_reached: "\<exists>es s'. list_all internal es \<and> shared_run es s = Some s' \<and> idle s'"
proof (induction "shared_work s" arbitrary: s rule: less_induct)
  case less
  show ?case
  proof (cases "idle s")
    case True
    then show ?thesis by (intro exI[of _ "[]"] exI[of _ s]) simp
  next
    case False
    then obtain e t where e: "internal e" "shared_step e s = Some t" by (auto simp: idle_def)
    from less[OF work_decreases[OF e(2,1)]] obtain es s' where "list_all internal es" "shared_run es t = Some s'" "idle s'" by blast
    then show ?thesis using e by (intro exI[of _ "e # es"] exI[of _ s']) simp
  qed
qed

section \<open>Runs without failures\<close>

definition event_ok :: "shared_event \<Rightarrow> bool" where
  "event_ok e = (case e of AdvanceUpload E _ \<Rightarrow> store_env_ok E | _ \<Rightarrow> True)"

text \<open>A stored item is in the backend or on its way.\<close>

definition underway :: "shared_cache_service \<Rightarrow> string \<Rightarrow> bool" where
  "underway s key \<longleftrightarrow> (\<exists>m \<in> set (sc_queue s). um_key m = key)
     \<or> (\<exists>u \<in> set (sc_uploads s). um_key (up_message u) = key \<and> (up_phase u = UpStarted \<or> up_phase u = UpWriting))"

definition kept_inv :: "shared_cache_service \<Rightarrow> bool" where
  "kept_inv s \<longleftrightarrow> 0 < sc_max s
     \<and> (\<forall>(cache, key, c) \<in> set (sc_stored s). underway s (shared_key cache key)
          \<or> sc_files s (backend_path (sc_backend s) (shared_key cache key)) \<noteq> None)"

lemma underway_pending: "underway s key \<Longrightarrow> pending_messages s \<noteq> []"
  by (auto simp: underway_def pending_messages_def)

lemma underway_step:
  assumes "shared_step e s = Some s'" "event_ok e" "\<forall>m \<in> set (pending_messages s). stored_message s m" "0 < sc_max s" "underway s key"
  shows "underway s' key \<or> sc_files s' (backend_path (sc_backend s) key) \<noteq> None"
  using assms(1)
proof (cases rule: shared_step_cases)
  case Store
  then show ?thesis using assms(5) by (auto simp: underway_def shared_store_def)
next
  case Start
  then show ?thesis using assms(4,5) by (auto simp: underway_def start_worker_def)
next
  case Receive
  then show ?thesis using assms(5) by (auto simp: underway_def)
next
  case Done
  then show ?thesis using assms(5) by (simp add: underway_def)
next
  case (Advance E p u q ph held)
  show ?thesis
  proof (cases "um_key (up_message u) = key")
    case False
    then show ?thesis using assms(5) Advance by (auto simp: underway_def)
  next
    case True
    show ?thesis
    proof (cases ph)
      case (UpStored x)
      have "stored_message s (up_message u)" using assms(3) Advance(2) by (auto simp: pending_messages_def)
      then have "has_parent (backend_path (sc_backend s) key)" using True shared_path_has_parent by (auto simp: stored_message_def)
      then have "held (backend_path (sc_backend s) key) \<noteq> None"
        using backend.stored_law[OF Advance(4) _ _ Advance(3) UpStored] assms(2) Advance(1) True by (simp add: event_ok_def)
      then show ?thesis using Advance(5) by simp
    next
      case UpReported
      then show ?thesis using backend.work_law[OF Advance(4,3)] by simp
    qed (use True Advance in \<open>auto simp: underway_def\<close>)
  qed
next
  case Report
  then show ?thesis using assms(5) by (auto simp: underway_def)
next
  case Notify
  then show ?thesis using assms(5) by (auto simp: underway_def)
qed

lemma step_constants:
  assumes "shared_step e s = Some s'"
  shows "sc_backend s' = sc_backend s" "sc_max s' = sc_max s" "sc_capacity s' = sc_capacity s"
    "\<And>p. sc_files s p \<noteq> None \<Longrightarrow> sc_files s' p \<noteq> None"
proof -
  have "sc_backend s' = sc_backend s \<and> sc_max s' = sc_max s \<and> sc_capacity s' = sc_capacity s
      \<and> (\<forall>p. sc_files s p \<noteq> None \<longrightarrow> sc_files s' p \<noteq> None)"
    using assms
  proof (cases rule: shared_step_cases)
    case Start
    then show ?thesis by (simp add: start_worker_def)
  next
    case (Advance E p u q ph held)
    then show ?thesis using backend.keeps_items[OF Advance(4)] by simp
  qed simp_all
  then show "sc_backend s' = sc_backend s" "sc_max s' = sc_max s" "sc_capacity s' = sc_capacity s"
    "\<And>p. sc_files s p \<noteq> None \<Longrightarrow> sc_files s' p \<noteq> None" by simp_all
qed

lemma stored_after:
  assumes "shared_step e s = Some s'" "(cache, key, c) \<in> set (sc_stored s')"
  shows "(cache, key, c) \<in> set (sc_stored s) \<or> underway s' (shared_key cache key)"
  using assms(1)
proof (cases rule: shared_step_cases)
  case Store
  then show ?thesis using assms(2) by (auto simp: shared_store_def underway_def split: if_splits)
next
  case Start
  then show ?thesis using assms(2) by (simp add: start_worker_def split: if_splits)
qed (use assms(2) in simp_all)

lemma kept_step:
  assumes "shared_step e s = Some s'" "event_ok e" "contents_inv held s" "kept_inv s"
  shows "kept_inv s'"
proof -
  note k = step_constants[OF assms(1)]
  have "underway s' (shared_key cache key) \<or> sc_files s' (backend_path (sc_backend s) (shared_key cache key)) \<noteq> None"
    if "(cache, key, c) \<in> set (sc_stored s')" for cache key c
    using stored_after[OF assms(1) that]
  proof
    assume "(cache, key, c) \<in> set (sc_stored s)"
    then have "underway s (shared_key cache key) \<or> sc_files s (backend_path (sc_backend s) (shared_key cache key)) \<noteq> None"
      using assms(4) by (auto simp: kept_inv_def)
    then show ?thesis
      using underway_step[OF assms(1,2)] k(4) assms(3,4) by (auto simp: contents_inv_def kept_inv_def)
  qed simp
  then show ?thesis using assms(4) k(1,2) by (auto simp: kept_inv_def)
qed

end
