(* ===== verification/SharedCacheProperties.thy ===== *)
theory SharedCacheProperties
  imports SharedCacheCorrect CacherPersist
begin

text \<open>
  The properties of the shared cache over runs of the service, alone and together with the
  computing cache, and a run in which one item is stored and found as their witness.
\<close>

section \<open>Reachable states\<close>

lemma shared_init_inv:
  assumes "shared_init gcs_ok held C = Ret (Some s)"
  shows "permits_inv s" "channels_inv s" "contents_inv held s" "sc_stored s = []" "sc_files s = held"
    "sc_max s = scc_max_concurrent_uploads C" "sc_capacity s = scc_max_upload_queue_size C" "sc_backend s = scc_backend C"
  using assms by (auto simp: shared_init_def maybe_new_backend_def permits_inv_def channels_inv_def contents_inv_def pending_messages_def
      split: if_splits shared_backend.splits)

lemma shared_run_inv:
  assumes "shared_run es s = Some s'" "permits_inv s" "channels_inv s" "contents_inv held s"
  shows "permits_inv s' \<and> channels_inv s' \<and> contents_inv held s'"
  by (rule run_invariant[OF assms(1)]) (use assms(2-4) permits_step channels_step contents_step in blast)+

lemma shared_run_constants:
  assumes "shared_run es s = Some s'"
  shows "sc_backend s' = sc_backend s \<and> sc_max s' = sc_max s \<and> sc_capacity s' = sc_capacity s"
  by (rule run_invariant[OF assms]) (use step_constants in auto)

lemmas reached_inv = shared_run_inv[OF _ shared_init_inv(1-3)]

lemma shared_run_kept:
  assumes "shared_run es s = Some s'" "list_all event_ok es" "contents_inv held s" "kept_inv s"
  shows "kept_inv s'"
  using assms
proof (induction es arbitrary: s)
  case (Cons e es)
  then obtain t where t: "shared_step e s = Some t" "shared_run es t = Some s'" by (auto split: option.splits)
  show ?case using Cons.IH[OF t(2)] Cons.prems kept_step[OF t(1)] contents_step[OF t(1)] by auto
qed simp

lemma fetch_hit_content:
  assumes "shared_fetch b F held cache key = FetchHit c"
  shows "held (backend_path b (shared_key cache key)) = Some c"
proof (cases b)
  case (FsBackend root)
  then show ?thesis using assms
    by (auto simp: shared_fetch_def fs_fetch_def backend_path_def split: if_splits option.splits body_end.splits)
next
  case (GcsBackend bucket)
  show ?thesis
  proof (cases "held (shared_key cache key)")
    case None
    then show ?thesis using assms GcsBackend
      by (auto simp: shared_fetch_def gcs_fetch_def get_object_def Let_def http_success_def
          split: fetch_end.splits sum.splits if_splits http_answer.splits body_end.splits)
  next
    case (Some x)
    then show ?thesis using assms GcsBackend
      by (auto simp: shared_fetch_def gcs_fetch_def get_object_def Let_def backend_path_def
          split: fetch_end.splits sum.splits if_splits http_answer.splits body_end.splits)
  qed
qed

lemma content_stored:
  assumes "contents_inv held s" "sc_files s (backend_path (sc_backend s) (shared_key cache key)) = Some c"
  shows "held (backend_path (sc_backend s) (shared_key cache key)) = Some c \<or> (cache, key, c) \<in> set (sc_stored s)"
proof -
  have "held (backend_path (sc_backend s) (shared_key cache key)) = Some c
      \<or> (\<exists>cache' key'. backend_path (sc_backend s) (shared_key cache key) = backend_path (sc_backend s) (shared_key cache' key')
            \<and> (cache', key', c) \<in> set (sc_stored s))"
    using assms by (simp add: contents_inv_def)
  then show ?thesis by (auto simp only: backend_path_inj shared_key_inj)
qed

text \<open>A lookup that meets no failure.\<close>

definition fetch_env_ok :: "fetch_env \<Rightarrow> bool" where
  "fetch_env_ok F \<longleftrightarrow> fe_open_ok F \<and> fe_body F = BodyComplete \<and> fe_token F = TokenOk \<and> fe_url_ok F \<and> fe_answer F = Answer 200
     \<and> fe_end F = FetchEnds"

lemma fetch_found:
  assumes "fetch_env_ok F" "held (backend_path b (shared_key cache key)) = Some c"
  shows "shared_fetch b F held cache key = FetchHit c"
  using assms by (cases b) (auto simp: fetch_env_ok_def shared_fetch_def fs_fetch_def gcs_fetch_def gcs_state_token_def get_object_def
      backend_path_def Let_def)

section \<open>A concrete run\<close>

definition demo_shared_config :: shared_cache_config where
  "demo_shared_config = \<lparr>scc_max_concurrent_uploads = 2, scc_max_upload_queue_size = 1, scc_backend = FsBackend ''/c''\<rparr>"

definition demo_store_env :: store_env where
  "demo_store_env = \<lparr>se_ok = (\<lambda>_. True), se_token = TokenOk, se_url_ok = True, se_answer = Answer 200, se_late = False, se_compressed = 0,
     se_status_text = (\<lambda>_. [])\<rparr>"

definition demo_fetch_env :: fetch_env where
  "demo_fetch_env = \<lparr>fe_open_ok = True, fe_body = BodyComplete, fe_token = TokenOk, fe_url_ok = True, fe_answer = Answer 200, fe_end = FetchEnds,
     fe_status_text = (\<lambda>_. [])\<rparr>"

definition demo_item :: string where
  "demo_item = cache_path (demo_key 1) (current (req_versions demo_request))"

definition demo_shared_events :: "shared_event list" where
  "demo_shared_events = [StartWorker, Store Objects demo_item ''ELF'' StoreNew 0, ReceiveMessage, AdvanceUpload demo_store_env 0,
     AdvanceUpload demo_store_env 0, ReportDone 0, NotifyDone 0, ReceiveDone]"

definition demo_shared_start :: shared_cache_service where
  "demo_shared_start = (case shared_init True Map.empty demo_shared_config of Ret (Some s) \<Rightarrow> s | _ \<Rightarrow> undefined)"

definition demo_shared :: shared_cache_service where
  "demo_shared = the (shared_run demo_shared_events demo_shared_start)"

lemma demo_shared_init: "shared_init True Map.empty demo_shared_config = Ret (Some demo_shared_start)"
  by (simp add: demo_shared_start_def shared_init_def demo_shared_config_def maybe_new_backend_def)

lemmas demo_shared_defs = demo_shared_start_def shared_init_def demo_shared_config_def maybe_new_backend_def demo_shared_events_def
  demo_store_env_def start_worker_def shared_store_def receive_message_def advance_upload_def backend_advance_def fs_advance_def
  fs_store_prepare_def fs_store_write_def Let_def shared_key_def path_join_def has_parent_def cache_name_as_str_def report_done_def
  notify_done_def receive_done_def

lemma demo_shared_run: "shared_run demo_shared_events demo_shared_start = Some demo_shared"
  by (simp add: demo_shared_def demo_shared_defs)

lemma demo_shared_state:
  "sc_stored demo_shared = [(Objects, demo_item, ''ELF'')]" "sc_completions demo_shared = [DoneSent]"
  "sc_files demo_shared = [backend_path (FsBackend ''/c'') (shared_key Objects demo_item) \<mapsto> ''ELF'']" "sc_backend demo_shared = FsBackend ''/c''"
  by (simp_all add: demo_shared_def demo_shared_defs backend_path_def)

lemma demo_shared_events_ok: "list_all event_ok demo_shared_events" "fetch_env_ok demo_fetch_env"
  by (simp_all add: demo_shared_events_def event_ok_def store_env_ok_def demo_store_env_def fetch_env_ok_def demo_fetch_env_def)

section \<open>Properties\<close>

text \<open>
  C25. The shared cache stays within its limits under every interleaving of stores, the worker and
  uploads: the queue within its size, the uploads in flight within theirs, no permit is lost or
  made up, and the message by which a finished upload gives its permit back never waits.
\<close>

theorem shared_uploads_bounded:
  assumes "shared_init gcs_ok held C = Ret (Some s0)" and "shared_run es s0 = Some s"
  shows "length (sc_queue s) \<le> scc_max_upload_queue_size C
     \<and> length (filter unreported (sc_uploads s)) \<le> scc_max_concurrent_uploads C
     \<and> (sc_worker s = WorkerRunning \<longrightarrow>
          sc_counter s + length (filter unreported (sc_uploads s)) + sc_done s = scc_max_concurrent_uploads C)
     \<and> (\<forall>k < length (sc_uploads s). (\<exists>x. up_phase (sc_uploads s ! k) = UpStored x) \<longrightarrow> shared_step (ReportDone k) s \<noteq> None)"
proof -
  note p = conjunct1[OF reached_inv[OF assms(2) assms(1) assms(1) assms(1)]]
  note c = shared_run_constants[OF assms(2)] shared_init_inv(6,7)[OF assms(1)]
  have "shared_step (ReportDone k) s \<noteq> None" if k: "k < length (sc_uploads s)" "up_phase (sc_uploads s ! k) = UpStored x" for k x
  proof -
    have w: "sc_worker s = WorkerRunning" using p k(1) by (cases "sc_worker s") (simp_all add: permits_inv_def)
    have "sc_uploads s ! k \<in> set (filter unreported (sc_uploads s))" using k by (simp add: unreported_def)
    then have "0 < length (filter unreported (sc_uploads s))" by (cases "filter unreported (sc_uploads s)") auto
    then have "sc_done s < sc_max s" using p w unfolding permits_inv_def by (simp del: length_greater_0_conv)
    then show ?thesis using k by (simp add: report_done_def Let_def)
  qed
  then show ?thesis using p c by (auto simp: permits_inv_def split: worker.splits)
qed

lemma shared_uploads_bounded_witness: "length (sc_queue demo_shared) \<le> 1"
  using shared_uploads_bounded[OF demo_shared_init demo_shared_run] by (simp add: demo_shared_config_def)

text \<open>
  C23. What a lookup in the shared cache finds is exactly the contents of one store for that cache
  and that key, or was in the backend before: never part of an item, and never another item,
  whatever uploads run at the same time and whatever fails.
\<close>

theorem shared_fetch_faithful:
  assumes "shared_init gcs_ok held C = Ret (Some s0)" and "shared_run es s0 = Some s"
    and "shared_fetch (sc_backend s) F (sc_files s) cache key = FetchHit c"
  shows "(cache, key, c) \<in> set (sc_stored s) \<or> held (backend_path (scc_backend C) (shared_key cache key)) = Some c"
proof -
  note i = reached_inv[OF assms(2) assms(1) assms(1) assms(1)]
  have b: "sc_backend s = scc_backend C" using shared_run_constants[OF assms(2)] shared_init_inv(8)[OF assms(1)] by simp
  show ?thesis using content_stored[of held s] i fetch_hit_content[OF assms(3)] unfolding b by blast
qed

lemma shared_fetch_faithful_witness: "(Objects, demo_item, ''ELF'') \<in> set (sc_stored demo_shared)"
  using shared_fetch_faithful[OF demo_shared_init demo_shared_run, of demo_fetch_env Objects demo_item "''ELF''"]
    fetch_found[OF demo_shared_events_ok(2), of "sc_files demo_shared" "FsBackend ''/c''" Objects demo_item "''ELF''"]
  by (simp add: demo_shared_state)

text \<open>
  C24. The queue of the shared cache drains: without new stores, every run of the worker and the
  uploads ends within a number of steps computed from the state, whatever fails, and when nothing
  more can happen everyone who waits for a store has been notified or told that it was dropped.
\<close>

theorem shared_uploads_drain:
  assumes "shared_init gcs_ok held C = Ret (Some s0)" and "shared_run es s0 = Some s"
  shows "(\<forall>es' s'. list_all internal es' \<and> shared_run es' s = Some s' \<longrightarrow>
        length es' \<le> shared_work s \<and> (idle s' \<longrightarrow> DonePending \<notin> set (sc_completions s')))
     \<and> (\<exists>es' s'. list_all internal es' \<and> shared_run es' s = Some s' \<and> DonePending \<notin> set (sc_completions s'))"
proof -
  note i = reached_inv[OF assms(2) assms(1) assms(1) assms(1)]
  have drained: "DonePending \<notin> set (sc_completions s')" if "shared_run es' s = Some s'" "idle s'" for es' s'
    using idle_notified[OF that(2)] shared_run_inv[OF that(1), of held] i by blast
  obtain es' s' where e: "list_all internal es'" "shared_run es' s = Some s'" "idle s'" using idle_reached by blast
  have "length es' \<le> shared_work s" if "list_all internal es'" "shared_run es' s = Some s'" for es' s'
    using run_work[OF that(2,1)] by simp
  then show ?thesis using drained e by blast
qed

lemma shared_uploads_drain_witness:
  "\<exists>es' s'. list_all internal es' \<and> shared_run es' demo_shared = Some s' \<and> DonePending \<notin> set (sc_completions s')"
  using shared_uploads_drain[OF demo_shared_init demo_shared_run] by blast

lemma stored_found:
  assumes "shared_init gcs_ok Map.empty C = Ret (Some s0)" "0 < scc_max_concurrent_uploads C"
    and "shared_run es s0 = Some s" "list_all event_ok es" "DonePending \<notin> set (sc_completions s)"
    and "(cache, key, b) \<in> set (sc_stored s)" "\<forall>b'. (cache, key, b') \<in> set (sc_stored s) \<longrightarrow> b' = b"
  shows "sc_files s (backend_path (sc_backend s) (shared_key cache key)) = Some b"
proof -
  note i0 = shared_init_inv[OF assms(1)]
  have i: "channels_inv s" "contents_inv Map.empty s" using shared_run_inv[OF assms(3) i0(1-3)] by blast+
  have "kept_inv s0" using i0(4,6) assms(2) by (simp add: kept_inv_def)
  then have k: "kept_inv s" by (rule shared_run_kept[OF assms(3,4) i0(3)])
  have "pending_messages s = []"
  proof (rule ccontr)
    assume "pending_messages s \<noteq> []"
    then obtain m where m: "m \<in> set (pending_messages s)" by (cases "pending_messages s") auto
    then have "um_done m < length (sc_completions s)" "sc_completions s ! um_done m = DonePending"
      using i(1) by (auto simp: channels_inv_def)
    then show False using assms(5) by (metis nth_mem)
  qed
  then have "\<not> underway s (shared_key cache key)" using underway_pending by blast
  then have "sc_files s (backend_path (sc_backend s) (shared_key cache key)) \<noteq> None" using k assms(6) by (auto simp: kept_inv_def)
  then obtain c where c: "sc_files s (backend_path (sc_backend s) (shared_key cache key)) = Some c" by blast
  then have "(cache, key, c) \<in> set (sc_stored s)" using content_stored[OF i(2)] by fastforce
  with assms(7) c show ?thesis by simp
qed

text \<open>
  C22. Instances share their work: an item that one of them stored in the shared cache is what
  another gets for the same key and version, without computing it and without storing it again,
  once the uploads are done and met no failure.
\<close>

theorem shared_item_reused:
  assumes "shared_init gcs_ok Map.empty C = Ret (Some s0)" and "0 < scc_max_concurrent_uploads C"
    and "shared_run es s0 = Some s" and "list_all event_ok es" and "DonePending \<notin> set (sc_completions s)"
    and "(name (cr_config c), cache_path k (current (req_versions r)), b) \<in> set (sc_stored s)"
    and "\<forall>b'. (name (cr_config c), cache_path k (current (req_versions r)), b') \<in> set (sc_stored s) \<longrightarrow> b' = b"
    and "shared_service E = Some (shared_fetch (sc_backend s) F (sc_files s))" and "fetch_env_ok F" and "use_shared_cache r"
    and "io_ok E CreateTemp" and "io_ok E ReopenShared" and "io_ok E MapShared"
  shows "fst (compute E r k c) = entry_and_then (load_item r) \<lparr>entry_metadata = Some (key_metadata E k), entry_contents = Inr b\<rparr>
     \<and> cr_uploads (snd (compute E r k c)) = cr_uploads c
     \<and> compute E r k c = compute (E\<lparr>compute_item := f\<rparr>) r k c"
proof -
  have hit: "shared_fetch (sc_backend s) F (sc_files s) (name (cr_config c)) (cache_path k (current (req_versions r))) = FetchHit b"
    by (rule fetch_found[where held = "sc_files s", OF assms(9)]) (rule stored_found[OF assms(1-7)])
  have go: "compute E' r k c = finish_compute E' r k True \<lparr>entry_metadata = Some (key_metadata E' k), entry_contents = Inr b\<rparr> b c"
    if "shared_service E' = shared_service E" "io_ok E' = io_ok E" for E'
    using that assms(8,10-13) hit by (simp add: compute_def load_from_shared_cache_def shared_cache_def)
  have env: "finish_compute (E\<lparr>compute_item := f\<rparr>) r k True en b c = finish_compute E r k True en b c" for en
    by (simp add: finish_compute_def write_cache_file_def persist_tempfile_def remove_old_def[abs_def] key_metadata_def Let_def split: option.split)
  have md: "key_metadata (E\<lparr>compute_item := f\<rparr>) k = key_metadata E k" by (simp add: key_metadata_def)
  show ?thesis using go[of E] go[of "E\<lparr>compute_item := f\<rparr>"] env md by (simp add: finish_compute_def Let_def)
qed

definition demo_instance :: env where
  "demo_instance = (demo_env 0 ([], Inl NotFound))\<lparr>shared_service := Some (shared_fetch (sc_backend demo_shared) demo_fetch_env (sc_files demo_shared))\<rparr>"

lemma demo_instance_fields:
  "shared_service demo_instance = Some (shared_fetch (sc_backend demo_shared) demo_fetch_env (sc_files demo_shared))" "io_ok demo_instance oper"
  "use_shared_cache demo_request" "0 < scc_max_concurrent_uploads demo_shared_config"
  "\<forall>b. (name (cr_config demo_cacher), cache_path (demo_key 1) (current (req_versions demo_request)), b) \<in> set (sc_stored demo_shared) \<longrightarrow> b = ''ELF''"
  "(name (cr_config demo_cacher), cache_path (demo_key 1) (current (req_versions demo_request)), ''ELF'') \<in> set (sc_stored demo_shared)"
  by (simp_all add: demo_instance_def demo_env_def demo_request_def demo_shared_config_def demo_shared_state demo_item_def
      demo_cacher_def demo_cache_def)

lemma demo_no_pending: "DonePending \<notin> set (sc_completions demo_shared)"
  by (simp add: demo_shared_state)

lemma shared_item_reused_witness:
  "fst (compute demo_instance demo_request (demo_key 1) demo_cacher)
     = entry_and_then (load_item demo_request) \<lparr>entry_metadata = Some (key_metadata demo_instance (demo_key 1)), entry_contents = Inr ''ELF''\<rparr>"
  using shared_item_reused[OF demo_shared_init demo_instance_fields(4) demo_shared_run demo_shared_events_ok(1) demo_no_pending
      demo_instance_fields(6,5,1) demo_shared_events_ok(2) demo_instance_fields(3,2,2,2)]
  by (rule conjunct1)

end
