(* ===== verification/Decompress.thy ===== *)
theory Decompress
  imports Download
begin

text \<open>
  \<open>download/compression.rs\<close>, \<open>download/stream.rs\<close> and \<open>SymResponse::bytes\<close>: the compression of a
  response, the limit on what is read out of it, and the unpacking of archives after a download.
  The decoders are parameters: a decoder gives bytes and perhaps an error after them. The file
  operations on temporary files succeed, but for making one. Properties are in
  \<open>DecompressCorrect\<close>.
\<close>

section \<open>Errors\<close>

text \<open>An I/O error that carries a cache error, or another with the text of its root cause.\<close>

datatype io_failure = CarriesError cache_error | PlainFailure string

definition str_contains :: "string \<Rightarrow> string \<Rightarrow> bool" where
  "str_contains pat s = list_ex (\<lambda>n. take (length pat) (drop n s) = pat) [0..<Suc (length s)]"

definition download_error :: "io_failure \<Rightarrow> cache_error" where
  "download_error e = (case e of
      CarriesError err \<Rightarrow> err
    | PlainFailure s \<Rightarrow>
        (let s = (if str_contains ''certificate verify failed'' s then ''certificate verify failed'' else s);
             s = (if str_contains ''SSL routines'' s then ''SSL error'' else s)
         in DownloadError s))"

section \<open>Content encodings\<close>

definition is_ascii_whitespace :: "char \<Rightarrow> bool" where
  "is_ascii_whitespace c \<longleftrightarrow> of_char c \<in> {9, 10, 12, 13, 32 :: nat}"

definition trim_ascii :: "string \<Rightarrow> string" where
  "trim_ascii s = rev (dropWhile is_ascii_whitespace (rev (dropWhile is_ascii_whitespace s)))"

text \<open>The argument is the values of all \<open>Content-Encoding\<close> headers.\<close>

definition from_headers :: "string list \<Rightarrow> compression cache_contents" where
  "from_headers content_encodings = (case content_encodings of
      [] \<Rightarrow> Inr Identity
    | _ # _ # _ \<Rightarrow> Inl (DownloadError ''Multiple content encodings not supported'')
    | [content_encoding] \<Rightarrow>
        (let e = trim_ascii content_encoding in
         if e = [] \<or> e = ''identity'' then Inr Identity
         else if e = ''br'' then Inr Brotli
         else if e = ''gzip'' \<or> e = ''x-gzip'' then Inr Gzip
         else if e = ''deflate'' then Inr Deflate
         else if e = ''zstd'' then Inr Zstd
         else Inl (DownloadError ''Unsupported content encoding'')))"

definition accept_encoding :: string where
  "accept_encoding = ''br, deflate, gzip, zstd''"

section \<open>The body of an error\<close>

text \<open>\<open>SymResponse::bytes\<close>: the subtraction panics or wraps when it goes below zero.\<close>

fun response_bytes :: "bool \<Rightarrow> 64 word \<Rightarrow> string \<Rightarrow> string cache_contents list \<Rightarrow> string cache_contents outcome" where
  "response_bytes checks max_size buf [] = Ret (Inr buf)"
| "response_bytes checks max_size buf (Inl e # cs) = Ret (Inl e)"
| "response_bytes checks max_size buf (Inr chunk # cs) =
     (let len = word_of_nat (length buf) :: 64 word in
      if checks \<and> max_size < len then Panic
      else if max_size - len < word_of_nat (length chunk) then Ret (Inl size_exceeded)
      else response_bytes checks max_size (buf @ chunk) cs)"

section \<open>Limiting what is read\<close>

record limit_read =
  lr_limit :: "64 word"
  lr_bytes_read :: "64 word"

definition limit_read_new :: "64 word option \<Rightarrow> limit_read" where
  "limit_read_new limit = \<lparr>lr_limit = (case limit of Some l \<Rightarrow> l | None \<Rightarrow> - 1), lr_bytes_read = 0\<rparr>"

text \<open>
  One poll that is ready: \<open>inner\<close> is what the inner reader puts into the buffer, at most
  \<open>remaining\<close> bytes, or its error. The result is what is left in the buffer.
\<close>

definition limit_poll :: "bool \<Rightarrow> nat \<Rightarrow> io_failure + string \<Rightarrow> limit_read \<Rightarrow> ((io_failure + string) \<times> limit_read) outcome" where
  "limit_poll checks remaining inner r =
     (if lr_limit r < lr_bytes_read r then Ret (Inl (CarriesError size_exceeded), r)
      else if remaining = 0 then Ret (Inr [], r)
      else (case inner of
          Inl e \<Rightarrow> Ret (Inl e, r)
        | Inr filled \<Rightarrow>
            let n = word_of_nat (length filled) in
            if checks \<and> - 1 - lr_bytes_read r < n then Panic
            else
              let r = r\<lparr>lr_bytes_read := lr_bytes_read r + n\<rparr> in
              if lr_limit r < lr_bytes_read r then
                (let over = lr_bytes_read r - lr_limit r;
                     filled = take (length filled - unat over) filled
                 in if filled = [] then Ret (Inl (CarriesError size_exceeded), r) else Ret (Inr filled, r))
              else Ret (Inr filled, r)))"

text \<open>
  \<open>tokio::io::copy\<close> out of the limited reader: polls with room in the buffer until nothing is
  read. The list is what the inner reader gives, poll by poll; after it there is the end.
\<close>

fun copy_limited :: "bool \<Rightarrow> limit_read \<Rightarrow> (io_failure + string) list \<Rightarrow> ((io_failure + unit) \<times> string) outcome" where
  "copy_limited checks r [] = map_out (\<lambda>(x, _). (case x of Inl e \<Rightarrow> Inl e | Inr _ \<Rightarrow> Inr (), [])) (limit_poll checks 1 (Inr []) r)"
| "copy_limited checks r (c # cs) = bind_out (limit_poll checks (case c of Inr b \<Rightarrow> max 1 (length b) | Inl _ \<Rightarrow> 1) c r) (\<lambda>(x, r).
     case x of
       Inl e \<Rightarrow> Ret (Inl e, [])
     | Inr b \<Rightarrow> if b = [] then Ret (Inr (), []) else map_out (\<lambda>(res, out). (res, b @ out)) (copy_limited checks r cs))"

record downloaded =
  dd_contents :: string
  dd_compression :: compression
  dd_max_download_size :: "64 word option"

text \<open>
  \<open>Download::materialize_into\<close>: \<open>polls\<close> are the reads of the decoder. The errors of reading are
  turned into download errors, which the conversion of the error of the copy finds again.
\<close>

definition materialize_into :: "bool \<Rightarrow> (compression \<Rightarrow> string \<Rightarrow> (io_failure + string) list) \<Rightarrow> downloaded
    \<Rightarrow> (unit cache_contents \<times> string) outcome" where
  "materialize_into checks polls d =
     (if dd_compression d = Identity then Ret (Inr (), dd_contents d)
      else map_out (\<lambda>(res, out). (map_sum download_error id res, out))
        (copy_limited checks (limit_read_new (dd_max_download_size d)) (polls (dd_compression d) (dd_contents d))))"

section \<open>Archives\<close>

datatype archive_kind = ZstdFile | GzipFile | ZlibFile | ZipFile | CabFile

definition archive_kind_of :: "string \<Rightarrow> archive_kind option" where
  "archive_kind_of contents =
     (let magic_bytes = map of_char (take 4 contents) :: nat list in
      if magic_bytes = [0x28, 0xb5, 0x2f, 0xfd] then Some ZstdFile
      else if take 2 magic_bytes = [0x1f, 0x8b] then Some GzipFile
      else if take 2 magic_bytes \<in> {[0x78, 0x01], [0x78, 0x9c], [0x78, 0xda]} then Some ZlibFile
      else if magic_bytes = [0x50, 0x4b, 0x03, 0x04] then Some ZipFile
      else if magic_bytes = [77, 83, 67, 70] then Some CabFile
      else None)"

text \<open>What a reader gives, and the error that follows, if any.\<close>

type_synonym reader = "string \<times> string option"

record decoders =
  dc_zstd :: "string \<Rightarrow> string + reader"
  dc_gzip :: "string \<Rightarrow> reader"
  dc_zlib :: "string \<Rightarrow> reader"
  dc_zip :: "string \<Rightarrow> string + (string + reader) list"
  dc_cab :: "string \<Rightarrow> string + (string + reader) list"

definition take_read :: "64 word \<Rightarrow> reader \<Rightarrow> string + string" where
  "take_read read_limit rd = (case rd of (bs, e) \<Rightarrow>
     if unat read_limit \<le> length bs then Inr (take (unat read_limit) bs)
     else (case e of Some e \<Rightarrow> Inl e | None \<Rightarrow> Inr bs))"

definition saturating_add1 :: "64 word \<Rightarrow> 64 word" where
  "saturating_add1 n = (if n = - 1 then n else n + 1)"

text \<open>The contents of a new temporary file, unless it cannot be made, with the error \<open>temp\<close>.\<close>

definition unpack :: "decoders \<Rightarrow> string option \<Rightarrow> 64 word \<Rightarrow> archive_kind \<Rightarrow> string \<Rightarrow> string + string" where
  "unpack D temp read_limit k contents =
     (let to_temp = (\<lambda>open_reader. case temp of Some e \<Rightarrow> Inl e | None \<Rightarrow>
            (case open_reader of Inl e \<Rightarrow> Inl e | Inr rd \<Rightarrow> take_read read_limit rd))
      in case k of
        ZstdFile \<Rightarrow> to_temp (dc_zstd D contents)
      | GzipFile \<Rightarrow> to_temp (Inr (dc_gzip D contents))
      | ZlibFile \<Rightarrow> to_temp (Inr (dc_zlib D contents))
      | ZipFile \<Rightarrow> (case dc_zip D contents of
            Inl e \<Rightarrow> Inl e
          | Inr [entry] \<Rightarrow> to_temp entry
          | Inr _ \<Rightarrow> Inl ''ZipArchive contains more than one symbol file'')
      | CabFile \<Rightarrow> (case dc_cab D contents of
            Inl e \<Rightarrow> Inl e
          | Inr [] \<Rightarrow> Inl ''cab file is empty''
          | Inr [entry] \<Rightarrow> to_temp entry
          | Inr _ \<Rightarrow> Inl ''cab file contains more than 1 symbol file''))"

text \<open>The second component is the file after the call, which may be a new one.\<close>

definition maybe_decompress_file :: "decoders \<Rightarrow> string option \<Rightarrow> 64 word \<Rightarrow> string \<Rightarrow> (string + unit) \<times> string" where
  "maybe_decompress_file D temp max_uncompressed_size contents =
     (if length contents < 4 then (Inr (), contents)
      else
        (case (case archive_kind_of contents of
                 Some k \<Rightarrow> unpack D temp (saturating_add1 max_uncompressed_size) k contents
               | None \<Rightarrow> Inr contents) of
           Inl e \<Rightarrow> (Inl e, contents)
         | Inr src \<Rightarrow> (if unat max_uncompressed_size < length src then Inl ''Maximum file size exceeded'' else Inr (), src)))"

text \<open>\<open>fetch_file\<close>, from what the download service gives.\<close>

definition fetch_downloaded :: "bool \<Rightarrow> (compression \<Rightarrow> string \<Rightarrow> (io_failure + string) list) \<Rightarrow> decoders \<Rightarrow> string option
    \<Rightarrow> 64 word option \<Rightarrow> downloaded cache_contents \<Rightarrow> string \<Rightarrow> (unit cache_contents \<times> string) outcome" where
  "fetch_downloaded checks polls D temp max_download_size d temp_file =
     (case d of
        Inl e \<Rightarrow> Ret (Inl e, temp_file)
      | Inr d \<Rightarrow> map_out (\<lambda>(res, file). case res of
            Inl e \<Rightarrow> (Inl e, file)
          | Inr _ \<Rightarrow>
              (case maybe_decompress_file D temp (case max_download_size of Some l \<Rightarrow> l | None \<Rightarrow> - 1) file of
                 (Inl e, file) \<Rightarrow> (Inl (Malformed e), file)
               | (Inr _, file) \<Rightarrow> (Inr (), file)))
          (materialize_into checks polls d))"

end
