(* ===== verification/SourceDownloaders.thy ===== *)
theory SourceDownloaders
  imports Decompress SourceIter Interface
begin

text \<open>
  \<open>download/sentry.rs\<close>, \<open>gcs.rs\<close>, \<open>azure.rs\<close>, \<open>s3.rs\<close>, \<open>http.rs\<close>, \<open>filesystem.rs\<close> and the dispatch of
  \<open>download/mod.rs\<close>: the list of files of a Sentry source with its cache of queries, the tokens of
  buckets and their caches, the errors of buckets, and which downloader gets a file with which
  headers. What servers answer is a parameter. Properties are in \<open>SourceDownloadersCorrect\<close>.
\<close>

section \<open>Caches of a library\<close>

text \<open>
  An entry with the time of its insertion; a cache may have a time to live. An entry that is there
  is replaced when it satisfies the predicate.
\<close>

type_synonym ('k, 'v) timed_cache = "'k \<rightharpoonup> nat \<times> 'v"

definition timed_get :: "duration option \<Rightarrow> nat \<Rightarrow> ('k, 'v) timed_cache \<Rightarrow> 'k \<Rightarrow> 'v option" where
  "timed_get ttl now cache k = (case cache k of
      None \<Rightarrow> None
    | Some (t, v) \<Rightarrow> (case ttl of None \<Rightarrow> Some v | Some d \<Rightarrow> if now < t + d then Some v else None))"

definition or_insert_with_if :: "duration option \<Rightarrow> nat \<Rightarrow> 'k \<Rightarrow> 'v \<Rightarrow> ('v \<Rightarrow> bool) \<Rightarrow> ('k, 'v) timed_cache \<Rightarrow> 'v \<times> ('k, 'v) timed_cache" where
  "or_insert_with_if ttl now k init replace_if cache =
     (case timed_get ttl now cache k of
        Some v \<Rightarrow> if replace_if v then (init, cache(k \<mapsto> (now, init))) else (v, cache)
      | None \<Rightarrow> (init, cache(k \<mapsto> (now, init))))"

fun is_err :: "'a cache_contents \<Rightarrow> bool" where
  "is_err (Inl _) \<longleftrightarrow> True"
| "is_err (Inr _) \<longleftrightarrow> False"

section \<open>Sentry\<close>

datatype sentry_file_type =
    StPe | StPdb | StPortablePdb | StMachO | StElf | StWasm | StBreakpad | StSourceBundle | StUuidMap | StBcSymbolMap
  | StIl2cpp | StProguard | StDartSymbolMap

definition sentry_type_of :: "file_type \<Rightarrow> sentry_file_type" where
  "sentry_type_of t = (case t of
      file_type.Pe \<Rightarrow> StPe
    | file_type.Pdb \<Rightarrow> StPdb
    | file_type.PortablePdb \<Rightarrow> StPortablePdb
    | MachDebug \<Rightarrow> StMachO | MachCode \<Rightarrow> StMachO
    | ElfDebug \<Rightarrow> StElf | ElfCode \<Rightarrow> StElf
    | WasmDebug \<Rightarrow> StWasm | WasmCode \<Rightarrow> StWasm
    | file_type.Breakpad \<Rightarrow> StBreakpad
    | file_type.SourceBundle \<Rightarrow> StSourceBundle
    | UuidMap \<Rightarrow> StUuidMap
    | BcSymbolMap \<Rightarrow> StBcSymbolMap
    | file_type.Il2cpp \<Rightarrow> StIl2cpp
    | file_type.Proguard \<Rightarrow> StProguard)"

definition sentry_type_matches :: "sentry_file_type \<Rightarrow> file_type list \<Rightarrow> bool" where
  "sentry_type_matches t file_types = list_ex (\<lambda>ty. sentry_type_of ty = t) file_types"

record search_result =
  sr_id :: string
  sr_symbol_type :: sentry_file_type

datatype sentry_credentials = TokenCredentials string | CookieCredentials string

text \<open>A URL is kept as its base with the pairs of its query.\<close>

record dif_query =
  sq_index_url :: "string \<times> (string \<times> string) list"
  sq_credentials :: sentry_credentials

definition authenticate :: "sentry_credentials \<Rightarrow> string \<times> string" where
  "authenticate c = (case c of
      TokenCredentials t \<Rightarrow> (''authorization'', ''Bearer '' @ t)
    | CookieCredentials s \<Rightarrow> (''cookie'', s))"

text \<open>The answer to one request: a failure to send it, or a status with a body that may not parse.\<close>

datatype 'r api_answer = ApiFails io_failure | ApiAnswer nat "io_failure + 'r list"

definition fetch_sentry_json :: "(nat \<Rightarrow> string) \<Rightarrow> 'r api_answer \<Rightarrow> 'r list cache_contents" where
  "fetch_sentry_json status_text a = (case a of
      ApiFails e \<Rightarrow> Inl (download_error e)
    | ApiAnswer status body \<Rightarrow>
        if is_success status then map_sum download_error id body else Inl (DownloadError (status_text status)))"

text \<open>The whole query, with up to three tries, in a task with a limit of 30 seconds.\<close>

datatype query_end = QueryEnds | QueryElapsed | QueryLost

definition run_query :: "(nat \<Rightarrow> string) \<Rightarrow> query_end \<Rightarrow> (nat \<Rightarrow> 'r api_answer) \<Rightarrow> 'r list cache_contents" where
  "run_query status_text how answers = (case how of
      QueryEnds \<Rightarrow> retry (\<lambda>n. fetch_sentry_json status_text (answers n))
    | QueryElapsed \<Rightarrow> Inl (Timeout (30 * 10 ^ 9))
    | QueryLost \<Rightarrow> Inl InternalError)"

record sentry_source =
  ss_id :: string
  ss_url :: string
  ss_credentials :: sentry_credentials

definition sentry_search_query :: "id_externals \<Rightarrow> sentry_source \<Rightarrow> object_id \<Rightarrow> dif_query" where
  "sentry_search_query I src i =
     \<lparr>sq_index_url = (ss_url src,
        (case debug_id i of Some d \<Rightarrow> [(''debug_id'', debug_id_to_string I d)] | None \<Rightarrow> [])
        @ (case code_id i of Some c \<Rightarrow> [(''code_id'', code_id_to_string I c)] | None \<Rightarrow> [])),
      sq_credentials = ss_credentials src\<rparr>"

type_synonym dif_cache = "(dif_query, search_result list cache_contents) timed_cache"

text \<open>\<open>query\<close> is what a query comes to if it is made now.\<close>

definition sentry_list_files :: "id_externals \<Rightarrow> duration \<Rightarrow> nat \<Rightarrow> sentry_source \<Rightarrow> object_id \<Rightarrow> file_type list
    \<Rightarrow> (dif_query \<Rightarrow> search_result list cache_contents) \<Rightarrow> dif_cache \<Rightarrow> remote_file list cache_contents \<times> dif_cache" where
  "sentry_list_files I ttl now src i file_types query cache =
     (if debug_id i = None \<and> code_id i = None then (Inr [], cache)
      else
        let q = sentry_search_query I src i;
            (entries, cache) = or_insert_with_if (Some ttl) now q (query q) is_err cache
        in (map_sum id (\<lambda>es. map (\<lambda>r. Sentry (ss_id src) (sr_id r)) (filter (\<lambda>r. sentry_type_matches (sr_symbol_type r) file_types) es)) entries,
            cache))"

section \<open>Tokens\<close>

record gcs_token =
  gt_bearer_token :: string
  gt_expires_at :: int

definition gcs_token_expired :: "int \<Rightarrow> gcs_token \<Rightarrow> bool" where
  "gcs_token_expired now t \<longleftrightarrow> gt_expires_at t < now"

text \<open>\<open>answer\<close> is the token of the server; it is used for 58 minutes. Times are in seconds.\<close>

definition gcs_request_new_token :: "int \<Rightarrow> string cache_contents \<Rightarrow> gcs_token cache_contents" where
  "gcs_request_new_token now answer = map_sum id (\<lambda>t. \<lparr>gt_bearer_token = t, gt_expires_at = now + 58 * 60\<rparr>) answer"

datatype gcs_authorization = GcsKey string string | GcsToken string

definition gcs_get_token :: "int \<Rightarrow> (string \<times> string \<Rightarrow> string cache_contents) \<Rightarrow> gcs_authorization
    \<Rightarrow> (string \<times> string, gcs_token cache_contents) timed_cache
    \<Rightarrow> string cache_contents \<times> (string \<times> string, gcs_token cache_contents) timed_cache" where
  "gcs_get_token now answer auth cache = (case auth of
      GcsToken t \<Rightarrow> (Inr t, cache)
    | GcsKey email private_key \<Rightarrow>
        (let (r, cache) = or_insert_with_if None (nat now) (email, private_key) (gcs_request_new_token now (answer (email, private_key)))
               (\<lambda>e. case e of Inl _ \<Rightarrow> True | Inr t \<Rightarrow> gcs_token_expired now t) cache
         in (map_sum id gt_bearer_token r, cache)))"

record azure_token =
  at_access_token :: string
  at_expires_at :: int

definition token_expiry_margin :: int where
  "token_expiry_margin = 60"

definition azure_request_new_token :: "int \<Rightarrow> (string \<times> int) cache_contents \<Rightarrow> azure_token cache_contents" where
  "azure_request_new_token now answer =
     map_sum id (\<lambda>(t, expires_in). \<lparr>at_access_token = t, at_expires_at = now + expires_in - token_expiry_margin\<rparr>) answer"

definition azure_get_token :: "int \<Rightarrow> ('k \<Rightarrow> (string \<times> int) cache_contents) \<Rightarrow> 'k \<Rightarrow> ('k, azure_token cache_contents) timed_cache
    \<Rightarrow> azure_token cache_contents \<times> ('k, azure_token cache_contents) timed_cache" where
  "azure_get_token now answer k cache =
     or_insert_with_if None (nat now) k (azure_request_new_token now (answer k))
       (\<lambda>e. case e of Inl _ \<Rightarrow> True | Inr t \<Rightarrow> at_expires_at t < now) cache"

definition is_valid_account :: "string \<Rightarrow> bool" where
  "is_valid_account account \<longleftrightarrow> 3 \<le> length account \<and> length account \<le> 24
     \<and> list_all (\<lambda>c. (97 \<le> (of_char c :: nat) \<and> (of_char c :: nat) \<le> 122) \<or> (48 \<le> (of_char c :: nat) \<and> (of_char c :: nat) \<le> 57)) account"

text \<open>The host and the segments of the path, which the URL library encodes.\<close>

definition blob_url :: "string \<Rightarrow> string \<Rightarrow> string \<Rightarrow> (string \<times> string list) option" where
  "blob_url account container key =
     (if is_valid_account account
      then Some (account @ ''.blob.core.windows.net'', container # split_on (CHR ''/'') key) else None)"

section \<open>Errors of S3\<close>

record s3_metadata =
  sm_code :: "string option"
  sm_message :: "string option"

definition error_from_metadata :: "s3_metadata \<Rightarrow> cache_error option" where
  "error_from_metadata m = (case sm_code m of
      None \<Rightarrow> None
    | Some code \<Rightarrow>
        if code \<in> {''AuthorizationHeaderMalformed'', ''AuthorizationQueryParametersError'', ''AccessDenied'', ''SignatureDoesNotMatch'',
             ''InvalidAccessKeyId''}
        then Some (PermissionDenied (case sm_message m of Some message \<Rightarrow> code @ '': '' @ message | None \<Rightarrow> code))
        else if code \<in> {''NoSuchBucket'', ''NoSuchKey'', ''NotFound''} then Some NotFound
        else None)"

definition max_error_size :: "64 word" where
  "max_error_size = 64 * 1024"

text \<open>\<open>parse\<close> reads the XML of the body.\<close>

definition s3_handle :: "bool \<Rightarrow> (nat \<Rightarrow> string) \<Rightarrow> (string \<Rightarrow> s3_metadata option) \<Rightarrow> nat \<Rightarrow> string cache_contents list \<Rightarrow> cache_error outcome" where
  "s3_handle checks status_text parse status body =
     map_out (\<lambda>body.
        let metadata = (case body of Inr b \<Rightarrow> parse b | Inl _ \<Rightarrow> None) in
        case Option.bind metadata error_from_metadata of
          Some error \<Rightarrow> error
        | None \<Rightarrow>
            let details = (case (Option.bind metadata sm_code, Option.bind metadata sm_message) of
                (Some code, None) \<Rightarrow> code
              | (None, Some message) \<Rightarrow> status_text status @ '': '' @ message
              | (Some code, Some message) \<Rightarrow> code @ '': '' @ message
              | (None, None) \<Rightarrow> status_text status)
            in if status = 403 \<or> status = 401 then PermissionDenied details
               else if status = 404 then NotFound
               else DownloadError details)
       (response_bytes checks max_error_size [] body)"

section \<open>Requests of the downloaders\<close>

text \<open>Which client sends a request: whether it may connect to reserved addresses and accepts invalid certificates.\<close>

record client_settings =
  cs_connect_to_reserved_ips :: bool
  cs_accept_invalid_certs :: bool

definition restricted_settings :: "bool \<Rightarrow> client_settings" where
  "restricted_settings connect = \<lparr>cs_connect_to_reserved_ips = connect, cs_accept_invalid_certs = False\<rparr>"

definition sentry_settings :: "bool \<Rightarrow> client_settings" where
  "sentry_settings connect = (restricted_settings connect)\<lparr>cs_connect_to_reserved_ips := True\<rparr>"

definition no_ssl_settings :: "bool \<Rightarrow> client_settings" where
  "no_ssl_settings connect = (restricted_settings connect)\<lparr>cs_accept_invalid_certs := True\<rparr>"

record sent_request =
  rq_client :: client_settings
  rq_url :: string
  rq_headers :: "(string \<times> string) list"

text \<open>
  The secrets of a file's source, as far as they matter for the request: what to send and where.
  \<open>valid_header\<close> is the check of header names.
\<close>

datatype file_access =
    AccessAttachment string "string option"
  | AccessSentry string bool sentry_credentials
  | AccessHttp "string option" bool "(string \<times> string) list" "(string \<times> string) list"
  | AccessS3 string "(string \<times> string) list"
  | AccessGcs string string
  | AccessAzure "string option" string
  | AccessFilesystem string

definition attachment_request :: "bool \<Rightarrow> string \<Rightarrow> string option \<Rightarrow> sent_request" where
  "attachment_request connect url token = \<lparr>rq_client = sentry_settings connect, rq_url = url,
     rq_headers = (case token of Some t \<Rightarrow> [(''authorization'', ''Bearer '' @ t)] | None \<Rightarrow> [])\<rparr>"

definition sentry_request :: "bool \<Rightarrow> string \<Rightarrow> bool \<Rightarrow> sentry_credentials \<Rightarrow> sent_request" where
  "sentry_request connect url use_credentials credentials = \<lparr>rq_client = sentry_settings connect, rq_url = url,
     rq_headers = (if use_credentials then [authenticate credentials] else [])\<rparr>"

definition http_request :: "bool \<Rightarrow> (string \<Rightarrow> bool) \<Rightarrow> string option \<Rightarrow> bool \<Rightarrow> (string \<times> string) list \<Rightarrow> (string \<times> string) list
    \<Rightarrow> sent_request cache_contents" where
  "http_request connect valid_header url accept_invalid_certs source_headers file_headers = (case url of
      None \<Rightarrow> Inl NotFound
    | Some url \<Rightarrow> Inr \<lparr>rq_client = (if accept_invalid_certs then no_ssl_settings connect else restricted_settings connect), rq_url = url,
        rq_headers = filter (\<lambda>(k, _). valid_header k) (source_headers @ file_headers)\<rparr>)"

definition s3_request :: "bool \<Rightarrow> string \<Rightarrow> (string \<times> string) list \<Rightarrow> sent_request" where
  "s3_request connect presigned headers = \<lparr>rq_client = restricted_settings connect, rq_url = presigned, rq_headers = headers\<rparr>"

definition gcs_request :: "bool \<Rightarrow> string \<Rightarrow> string \<Rightarrow> sent_request" where
  "gcs_request connect url token = \<lparr>rq_client = restricted_settings connect, rq_url = url,
     rq_headers = [(''authorization'', ''Bearer '' @ token)]\<rparr>"

definition azure_request :: "bool \<Rightarrow> string option \<Rightarrow> string \<Rightarrow> sent_request cache_contents" where
  "azure_request connect url token = (case url of
      None \<Rightarrow> Inl (DownloadError ''invalid Azure blob URL'')
    | Some url \<Rightarrow> Inr \<lparr>rq_client = restricted_settings connect, rq_url = url,
        rq_headers = [(''authorization'', ''Bearer '' @ token), (''x-ms-version'', ''2021-08-06'')]\<rparr>)"

definition source_request :: "bool \<Rightarrow> (string \<Rightarrow> bool) \<Rightarrow> file_access \<Rightarrow> sent_request option cache_contents" where
  "source_request connect valid_header f = (case f of
      AccessAttachment url token \<Rightarrow> Inr (Some (attachment_request connect url token))
    | AccessSentry url use_credentials credentials \<Rightarrow> Inr (Some (sentry_request connect url use_credentials credentials))
    | AccessHttp url accept_invalid_certs source_headers file_headers \<Rightarrow>
        map_sum id Some (http_request connect valid_header url accept_invalid_certs source_headers file_headers)
    | AccessS3 presigned headers \<Rightarrow> Inr (Some (s3_request connect presigned headers))
    | AccessGcs url token \<Rightarrow> Inr (Some (gcs_request connect url token))
    | AccessAzure url token \<Rightarrow> map_sum id Some (azure_request connect url token)
    | AccessFilesystem _ \<Rightarrow> Inr None)"

text \<open>The encodings are offered unless the request has the header.\<close>

definition executed_headers :: "sent_request \<Rightarrow> (string \<times> string) list" where
  "executed_headers r = (if ''accept-encoding'' \<in> set (map (map to_ascii_lower \<circ> fst) (rq_headers r)) then rq_headers r
     else rq_headers r @ [(''accept-encoding'', accept_encoding)])"

text \<open>\<open>dispatch_download\<close>: every try downloads into a new temporary file, whose error is \<open>temp n\<close>.\<close>

definition dispatch_download :: "64 word option \<Rightarrow> (nat \<Rightarrow> cache_error option) \<Rightarrow> (nat \<Rightarrow> compression cache_contents \<times> string)
    \<Rightarrow> downloaded cache_contents" where
  "dispatch_download max_download_size temp attempt_download =
     retry (\<lambda>n. case temp n of
        Some e \<Rightarrow> Inl e
      | None \<Rightarrow> (case attempt_download n of (result, destination) \<Rightarrow>
          map_sum id (\<lambda>c. \<lparr>dd_contents = destination, dd_compression = c, dd_max_download_size = max_download_size\<rparr>) result))"

text \<open>A file of a local directory: the error of opening it, or its contents and the error of copying them.\<close>

definition filesystem_download :: "(bool \<times> cache_error) + (string \<times> cache_error option) \<Rightarrow> compression cache_contents \<times> string" where
  "filesystem_download file = (case file of
      Inl (not_found, e) \<Rightarrow> (Inl (if not_found then NotFound else e), [])
    | Inr (contents, e) \<Rightarrow> (case e of Some e \<Rightarrow> Inl e | None \<Rightarrow> Inr Identity, contents))"

end
