(* ===== verification/DecompressCorrect.thy ===== *)
theory DecompressCorrect
  imports Decompress
begin

text \<open>
  The limits on downloaded files: reading through the limit gives exactly the contents or the
  first bytes up to the limit and an error, however the reads are cut; no fetched file is larger
  than the limit, whatever the decoders give.
\<close>

section \<open>Reading through the limit\<close>

lemma unat_max_word: "unat (- 1 :: 64 word) = 2 ^ 64 - 1"
  by (simp add: unsigned_minus_1_eq_mask mask_eq_exp_minus_1)

lemma limit_exhausted: "lr_limit r < lr_bytes_read r \<Longrightarrow> copy_limited checks r polls = Ret (Inl (CarriesError size_exceeded), [])"
  by (cases polls) (simp_all add: limit_poll_def)

lemma read_on:
  assumes "unat (lr_bytes_read r) + length c < 2 ^ 64"
  shows "\<not> - 1 - lr_bytes_read r < word_of_nat (length c)"
    and "unat (lr_bytes_read r + word_of_nat (length c)) = unat (lr_bytes_read r) + length c"
proof -
  have c: "unat (word_of_nat (length c) :: 64 word) = length c" using assms by (simp add: unat_of_nat take_bit_eq_mod)
  show s: "unat (lr_bytes_read r + word_of_nat (length c)) = unat (lr_bytes_read r) + length c"
    using assms c by (simp add: unat_word_ariths)
  have "unat (- 1 - lr_bytes_read r :: 64 word) = 2 ^ 64 - 1 - unat (lr_bytes_read r)"
    using unsigned_less[where 'a = nat, of "lr_bytes_read r"] by (simp add: unat_sub_if_size unat_max_word)
  then show "\<not> - 1 - lr_bytes_read r < word_of_nat (length c)" using assms c by (simp add: word_less_nat_alt)
qed

lemma limit_poll_cases:
  assumes "c \<noteq> []" "lr_bytes_read r \<le> lr_limit r" "unat (lr_bytes_read r) + length c < 2 ^ 64" "0 < n"
  shows "limit_poll checks n (Inr c) r =
     (let room = unat (lr_limit r) - unat (lr_bytes_read r); r' = r\<lparr>lr_bytes_read := lr_bytes_read r + word_of_nat (length c)\<rparr> in
      if length c \<le> room then Ret (Inr c, r')
      else if room = 0 then Ret (Inl (CarriesError size_exceeded), r')
      else Ret (Inr (take room c), r'))"
proof -
  note on = read_on[OF assms(3)]
  have le: "unat (lr_bytes_read r) \<le> unat (lr_limit r)" using assms(2) by (simp add: word_le_nat_alt)
  have over: "unat (lr_bytes_read r + word_of_nat (length c) - lr_limit r) = unat (lr_bytes_read r) + length c - unat (lr_limit r)"
    if "unat (lr_limit r) < unat (lr_bytes_read r) + length c"
    using that on(2) by (simp add: unat_sub_if_size)
  have cut: "length c - (unat (lr_bytes_read r) + length c - unat (lr_limit r)) = unat (lr_limit r) - unat (lr_bytes_read r)"
    if "unat (lr_limit r) < unat (lr_bytes_read r) + length c" using that le by simp
  show ?thesis
    using assms(1,2,4) on(1) le over cut
    by (auto simp: limit_poll_def Let_def word_less_nat_alt on(2))
qed

text \<open>What the reader has given when it ends or fails.\<close>

definition limited :: "nat \<Rightarrow> string \<Rightarrow> (io_failure + string) list \<Rightarrow> (io_failure + unit) \<times> string" where
  "limited room contents rest =
     (if room < length contents then (Inl (CarriesError size_exceeded), take room contents)
      else (case rest of Inl e # _ \<Rightarrow> Inl e | _ \<Rightarrow> Inr (), contents))"

lemma copy_limited_exact:
  assumes "lr_bytes_read r \<le> lr_limit r" "[] \<notin> set cs" "unat (lr_bytes_read r) + length (concat cs) < 2 ^ 64"
    and "rest = [] \<or> (\<exists>e rest'. rest = Inl e # rest')"
  shows "copy_limited checks r (map Inr cs @ rest) = Ret (limited (unat (lr_limit r) - unat (lr_bytes_read r)) (concat cs) rest)"
  using assms
proof (induction cs arbitrary: r)
  case Nil
  then show ?case by (auto simp: limited_def limit_poll_def Let_def)
next
  case (Cons c cs)
  let ?room = "unat (lr_limit r) - unat (lr_bytes_read r)"
  let ?r = "r\<lparr>lr_bytes_read := lr_bytes_read r + word_of_nat (length c)\<rparr>"
  have c: "c \<noteq> []" and l: "unat (lr_bytes_read r) + length c < 2 ^ 64" using Cons.prems(2,3) by auto
  note poll = limit_poll_cases[OF c Cons.prems(1) l, of "length c" checks]
  have mx: "max (Suc 0) (length c) = length c" using c by (cases c) simp_all
  note sum = read_on(2)[OF l]
  show ?case
  proof (cases "length c \<le> ?room")
    case True
    have le: "unat (lr_bytes_read r) \<le> unat (lr_limit r)" using Cons.prems(1) by (simp add: word_le_nat_alt)
    have "copy_limited checks ?r (map Inr cs @ rest) = Ret (limited (unat (lr_limit ?r) - unat (lr_bytes_read ?r)) (concat cs) rest)"
      by (rule Cons.IH) (use Cons.prems True le sum in \<open>simp_all add: word_le_nat_alt\<close>)
    moreover have "limited ?room (c @ concat cs) rest
        = (fst (limited (?room - length c) (concat cs) rest), c @ snd (limited (?room - length c) (concat cs) rest))"
      using True by (auto simp: limited_def)
    ultimately show ?thesis using c True sum by (simp add: poll mx Let_def split_beta)
  next
    case False
    have "lr_limit ?r < lr_bytes_read ?r" using False sum by (simp add: word_less_nat_alt)
    then show ?thesis using c False by (auto simp: poll mx Let_def limited_def limit_exhausted)
  qed
qed

section \<open>Sizes\<close>

lemma take_read_length: "take_read n rd = Inr bs \<Longrightarrow> length bs \<le> unat n"
  by (cases rd) (auto simp: take_read_def split: if_splits option.splits)

lemma unpack_length: "unpack D temp n k contents = Inr bs \<Longrightarrow> length bs \<le> unat n"
  by (cases k) (auto simp: unpack_def Let_def split: option.splits sum.splits list.splits dest: take_read_length)

lemma unat_saturating_add1: "unat (saturating_add1 n) \<le> unat n + 1"
  by (simp add: saturating_add1_def unat_word_ariths)

lemma decompressed_length:
  assumes "maybe_decompress_file D temp n contents = (res, file)"
  shows "length file \<le> max (length contents) (unat n + 1)" and "res = Inr () \<Longrightarrow> length file \<le> unat n \<or> length file < 4"
proof -
  have u: "length bs \<le> unat n + 1" if "unpack D temp (saturating_add1 n) k contents = Inr bs" for k bs
    using unpack_length[OF that] unat_saturating_add1[of n] by simp
  show "length file \<le> max (length contents) (unat n + 1)"
    using assms by (auto simp: maybe_decompress_file_def split: if_splits option.splits sum.splits dest!: u)
  show "length file \<le> unat n \<or> length file < 4" if "res = Inr ()"
    using assms that by (auto simp: maybe_decompress_file_def split: if_splits option.splits sum.splits)
qed

section \<open>Bodies of errors\<close>

lemma response_bytes_exact:
  assumes "length buf \<le> unat n" "length buf + length (concat cs) < 2 ^ 64"
  shows "response_bytes checks n buf (map Inr cs) =
     Ret (if length buf + length (concat cs) \<le> unat n then Inr (buf @ concat cs) else Inl size_exceeded)"
  using assms
proof (induction cs arbitrary: buf)
  case (Cons c cs)
  have b: "unat (word_of_nat (length buf) :: 64 word) = length buf" "unat (word_of_nat (length c) :: 64 word) = length c"
    using Cons.prems(2) by (simp_all add: unat_of_nat take_bit_eq_mod)
  have "unat (n - word_of_nat (length buf)) = unat n - length buf" using Cons.prems(1) b(1) by (simp add: unat_sub_if_size)
  then show ?case using Cons b by (auto simp: Let_def word_less_nat_alt not_less)
qed simp

section \<open>Properties\<close>

text \<open>
  C32. A compressed download is decompressed exactly, up to the limit: however the decoder cuts its
  output, the file has all of it, or its first bytes up to the limit together with the error of an
  exceeded size, or what came before an error of the decoder with that error.
\<close>

theorem download_limit_exact:
  assumes "dd_compression d \<noteq> Identity" and "polls (dd_compression d) (dd_contents d) = map Inr cs @ rest"
    and "[] \<notin> set cs" and "length (concat cs) < 2 ^ 64" and "rest = [] \<or> (\<exists>e rest'. rest = Inl e # rest')"
  shows "materialize_into checks polls d =
     Ret (case dd_max_download_size d of
            Some l \<Rightarrow> if unat l < length (concat cs) then (Inl size_exceeded, take (unat l) (concat cs))
                      else (case rest of Inl e # _ \<Rightarrow> Inl (download_error e) | _ \<Rightarrow> Inr (), concat cs)
          | None \<Rightarrow> (case rest of Inl e # _ \<Rightarrow> Inl (download_error e) | _ \<Rightarrow> Inr (), concat cs))"
proof -
  let ?r = "limit_read_new (dd_max_download_size d)"
  have "lr_bytes_read ?r = 0" by (simp add: limit_read_new_def)
  then have "copy_limited checks ?r (map Inr cs @ rest) = Ret (limited (unat (lr_limit ?r)) (concat cs) rest)"
    using copy_limited_exact[of ?r cs rest checks] assms(3-5) by simp
  then show ?thesis using assms(1,2,4,5)
    by (cases "dd_max_download_size d")
      (auto simp: materialize_into_def limit_read_new_def limited_def download_error_def unat_max_word split: list.splits sum.splits)
qed

definition demo_download :: downloaded where
  "demo_download = \<lparr>dd_contents = ''packed'', dd_compression = Gzip, dd_max_download_size = Some 5\<rparr>"

definition demo_polls :: "compression \<Rightarrow> string \<Rightarrow> (io_failure + string) list" where
  "demo_polls c s = [Inr ''unp'', Inr ''acked'']"

lemma download_limit_exact_witness: "materialize_into True demo_polls demo_download = Ret (Inl size_exceeded, ''unpac'')"
  using download_limit_exact[of demo_download demo_polls "[''unp'', ''acked'']" "[]" True]
  by (simp add: demo_download_def demo_polls_def)

text \<open>
  C30. A file that is accepted is no larger than the limit or shorter than four bytes, since such
  short files are never looked at, whatever the decompression of the response and the unpacking of
  archives give; and whether it is accepted or refused, the file never holds more bytes than the larger of what
  was downloaded and one byte more than the limit.
\<close>

theorem fetched_file_bounded:
  assumes "fetch_downloaded checks polls D temp (Some l) (Inr d) temp_file = Ret (res, file)"
    and "dd_max_download_size d = Some l" and "polls (dd_compression d) (dd_contents d) = map Inr cs @ rest"
    and "[] \<notin> set cs" and "length (concat cs) < 2 ^ 64" and "rest = [] \<or> (\<exists>e rest'. rest = Inl e # rest')"
  shows "(res = Inr () \<longrightarrow> length file \<le> unat l \<or> length file < 4) \<and> length file \<le> max (length (dd_contents d)) (unat l + 1)"
proof -
  obtain res' out where m: "materialize_into checks polls d = Ret (res', out)" using assms(1)
    by (cases "materialize_into checks polls d") (auto simp: fetch_downloaded_def)
  have out: "length out \<le> max (length (dd_contents d)) (unat l + 1)"
  proof (cases "dd_compression d = Identity")
    case True
    then show ?thesis using m by (simp add: materialize_into_def)
  next
    case False
    let ?r = "limit_read_new (Some l)"
    have "copy_limited checks ?r (map Inr cs @ rest) = Ret (limited (unat l) (concat cs) rest)"
      using copy_limited_exact[of ?r cs rest checks] assms(4-6) by (simp add: limit_read_new_def)
    then show ?thesis using m assms(2,3) False by (auto simp: materialize_into_def limited_def split: if_splits)
  qed
  show ?thesis
  proof (cases res')
    case (Inl e)
    then show ?thesis using assms(1) m out by (auto simp: fetch_downloaded_def)
  next
    case (Inr u)
    obtain dres dfile where dec: "maybe_decompress_file D temp l out = (dres, dfile)" by fastforce
    then have "file = dfile" "res = Inr () \<longrightarrow> dres = Inr ()"
      using assms(1) m Inr by (auto simp: fetch_downloaded_def split: sum.splits)
    then show ?thesis using decompressed_length[OF dec] out by auto
  qed
qed

definition demo_decoders :: decoders where
  "demo_decoders = \<lparr>dc_zstd = (\<lambda>s. Inr (s, None)), dc_gzip = (\<lambda>s. (s, None)), dc_zlib = (\<lambda>s. (s, None)), dc_zip = (\<lambda>_. Inr []), dc_cab = (\<lambda>_. Inr [])\<rparr>"

lemma fetched_file_bounded_witness:
  "length ''unpacked'' \<le> unat (8 :: 64 word) \<or> length ''unpacked'' < 4"
  using fetched_file_bounded[of True demo_polls demo_decoders None 8 "demo_download\<lparr>dd_max_download_size := Some 8\<rparr>" "[]" "Inr ()" "''unpacked''"
      "[''unp'', ''acked'']" "[]"]
  by (simp add: fetch_downloaded_def materialize_into_def limit_read_new_def limit_poll_def demo_download_def demo_polls_def
      maybe_decompress_file_def archive_kind_of_def Let_def)

end
