(* ===== verification/SourceDownloadersCorrect.thy ===== *)
theory SourceDownloadersCorrect
  imports SourceDownloaders DecompressCorrect
begin

text \<open>
  Listings of Sentry sources are what the server said to the same question with the same
  credentials, recently; tokens are usable or new; and a download never depends on the tries
  before the one that succeeded.
\<close>

section \<open>Entries of caches\<close>

text \<open>The interface of the caches: what they keep was put there for its key.\<close>

locale cache_origin =
  fixes origin :: "'k \<Rightarrow> nat \<Rightarrow> 'v \<Rightarrow> bool"
begin

definition entries_ok :: "('k, 'v) timed_cache \<Rightarrow> bool" where
  "entries_ok cache \<longleftrightarrow> (\<forall>k t v. cache k = Some (t, v) \<longrightarrow> origin k t v)"

lemma entries_ok_empty: "entries_ok Map.empty"
  by (simp add: entries_ok_def)

lemma entries_ok_evict: "entries_ok cache \<Longrightarrow> entries_ok (cache(k := None))"
  by (simp add: entries_ok_def)

lemma entries_ok_insert:
  assumes "entries_ok cache" "origin k now init" "or_insert_with_if ttl now k init p cache = (v, cache')"
  shows "entries_ok cache'"
  using assms by (auto simp: entries_ok_def or_insert_with_if_def split: option.splits if_splits)

lemma value_origin:
  assumes "entries_ok cache" "or_insert_with_if (Some d) now k init p cache = (v, cache')"
  shows "v = init \<or> (\<not> p v \<and> (\<exists>t. origin k t v \<and> now < t + d))"
  using assms by (auto simp: entries_ok_def or_insert_with_if_def timed_get_def split: option.splits if_splits)

end

lemma or_insert_fresh_or_kept:
  "or_insert_with_if ttl now k init p cache = (v, cache') \<Longrightarrow> v = init \<or> \<not> p v"
  by (auto simp: or_insert_with_if_def split: option.splits if_splits)

section \<open>Listings\<close>

datatype listing_event =
    ListFiles nat sentry_source object_id "file_type list" "dif_query \<Rightarrow> search_result list cache_contents"
  | EvictQuery dif_query

fun listing_step :: "id_externals \<Rightarrow> duration \<Rightarrow> listing_event \<Rightarrow> dif_cache \<Rightarrow> dif_cache" where
  "listing_step I ttl (ListFiles now src i tys query) cache = snd (sentry_list_files I ttl now src i tys query cache)"
| "listing_step I ttl (EvictQuery q) cache = cache(q := None)"

definition listing_state :: "id_externals \<Rightarrow> duration \<Rightarrow> listing_event list \<Rightarrow> dif_cache" where
  "listing_state I ttl es = fold (listing_step I ttl) es Map.empty"

text \<open>Some event made this query at the time and it came to the value.\<close>

definition asked :: "id_externals \<Rightarrow> listing_event list \<Rightarrow> dif_query \<Rightarrow> nat \<Rightarrow> search_result list cache_contents \<Rightarrow> bool" where
  "asked I es q t v \<longleftrightarrow> (\<exists>src i tys query. ListFiles t src i tys query \<in> set es \<and> sentry_search_query I src i = q \<and> v = query q)"

interpretation listings: cache_origin "asked I es" for I es .

lemma listings_kept: "listings.entries_ok I es (listing_state I ttl es)"
proof (induction es rule: rev_induct)
  case Nil
  show ?case by (simp add: listing_state_def listings.entries_ok_empty)
next
  case (snoc e es)
  have old: "listings.entries_ok I (es @ [e]) (listing_state I ttl es)"
  proof -
    have "asked I es q t v \<Longrightarrow> asked I (es @ [e]) q t v" for q t v by (auto simp: asked_def)
    then show ?thesis using snoc unfolding listings.entries_ok_def by blast
  qed
  show ?case
  proof (cases e)
    case (EvictQuery q)
    then show ?thesis using listings.entries_ok_evict[OF old, of q] by (simp add: listing_state_def del: fun_upd_apply)
  next
    case (ListFiles now src i tys query)
    let ?q = "sentry_search_query I src i"
    show ?thesis
    proof (cases "debug_id i = None \<and> code_id i = None")
      case True
      then show ?thesis using old ListFiles by (simp add: listing_state_def sentry_list_files_def)
    next
      case False
      obtain v cache' where c: "or_insert_with_if (Some ttl) now ?q (query ?q) is_err (listing_state I ttl es) = (v, cache')" by fastforce
      have "asked I (es @ [e]) ?q now (query ?q)" using ListFiles by (auto simp: asked_def)
      from listings.entries_ok_insert[OF old this c] show ?thesis
        using False c ListFiles by (auto simp: listing_state_def sentry_list_files_def)
    qed
  qed
qed

section \<open>Properties\<close>

text \<open>
  C31. A listing of a Sentry source is what its server said now, or less than the time to live ago
  to another request with the same URL, the same ids and the same credentials, filtered by the
  file types asked for. An error is never remembered: it is always the answer to this request.
\<close>

theorem sentry_listing_faithful:
  assumes "fst (sentry_list_files I ttl now src i tys query (listing_state I ttl es)) = r"
    and "debug_id i \<noteq> None \<or> code_id i \<noteq> None"
  shows "case r of
      Inl e \<Rightarrow> query (sentry_search_query I src i) = Inl e
    | Inr fs \<Rightarrow> \<exists>rs. fs = map (\<lambda>r. Sentry (ss_id src) (sr_id r)) (filter (\<lambda>r. sentry_type_matches (sr_symbol_type r) tys) rs)
        \<and> (query (sentry_search_query I src i) = Inr rs
           \<or> (\<exists>t src' i' tys' query'. ListFiles t src' i' tys' query' \<in> set es \<and> now < t + ttl
                \<and> ss_url src' = ss_url src \<and> ss_credentials src' = ss_credentials src
                \<and> sentry_search_query I src' i' = sentry_search_query I src i \<and> query' (sentry_search_query I src i) = Inr rs))"
proof -
  let ?q = "sentry_search_query I src i"
  obtain v cache' where c: "or_insert_with_if (Some ttl) now ?q (query ?q) is_err (listing_state I ttl es) = (v, cache')" by fastforce
  have r: "r = map_sum id (\<lambda>es. map (\<lambda>r. Sentry (ss_id src) (sr_id r)) (filter (\<lambda>r. sentry_type_matches (sr_symbol_type r) tys) es)) v"
    using assms c by (auto simp: sentry_list_files_def)
  note v = listings.value_origin[OF listings_kept c]
  show ?thesis
  proof (cases v)
    case (Inl e)
    then have "query ?q = Inl e" using v by auto
    moreover have "r = Inl e" using r Inl by simp
    ultimately show ?thesis by simp
  next
    case (Inr rs)
    then consider "query ?q = Inr rs" | t where "asked I es ?q t (Inr rs)" "now < t + ttl" using v by auto
    then show ?thesis
    proof cases
      case 1
      then show ?thesis using r Inr by auto
    next
      case 2
      then obtain src' i' tys' query' where e: "ListFiles t src' i' tys' query' \<in> set es" "sentry_search_query I src' i' = ?q" "query' ?q = Inr rs"
        unfolding asked_def by metis
      then have "ss_url src' = ss_url src" "ss_credentials src' = ss_credentials src" by (simp_all add: sentry_search_query_def)
      then show ?thesis using r Inr e 2(2) by auto
    qed
  qed
qed

definition demo_sentry :: sentry_source where
  "demo_sentry = \<lparr>ss_id = ''sentry'', ss_url = ''https://sentry.example/'', ss_credentials = TokenCredentials ''t''\<rparr>"

definition demo_answer :: "dif_query \<Rightarrow> search_result list cache_contents" where
  "demo_answer q = Inr [\<lparr>sr_id = ''1'', sr_symbol_type = StElf\<rparr>, \<lparr>sr_id = ''2'', sr_symbol_type = StPe\<rparr>]"

definition demo_lookup :: "id_externals \<Rightarrow> remote_file list cache_contents" where
  "demo_lookup I = fst (sentry_list_files I 60 100 demo_sentry (default_object_id\<lparr>code_id := Some ''abc''\<rparr>) [ElfDebug] (\<lambda>_. Inl NotFound)
     (listing_state I 60 [ListFiles 50 demo_sentry (default_object_id\<lparr>code_id := Some ''abc''\<rparr>) [file_type.Pe] demo_answer]))"

lemma demo_lookup_run: "demo_lookup I = Inr [Sentry ''sentry'' ''1'']"
  by (simp add: demo_lookup_def listing_state_def sentry_list_files_def or_insert_with_if_def timed_get_def demo_answer_def demo_sentry_def
      default_object_id_def sentry_type_matches_def sentry_type_of_def)

lemma sentry_listing_faithful_witness:
  "\<exists>rs :: search_result list. [Sentry ''sentry'' ''1''] = map (\<lambda>r. Sentry (ss_id demo_sentry) (sr_id r)) (filter (\<lambda>r. sentry_type_matches (sr_symbol_type r) [ElfDebug]) rs)"
proof -
  let ?I = "\<lparr>debug_id_from_str = (\<lambda>_. None), debug_id_to_string = (\<lambda>_. []), code_id_from_str = (\<lambda>_. None), code_id_to_string = (\<lambda>c. c)\<rparr>"
  have r: "fst (sentry_list_files ?I 60 100 demo_sentry (default_object_id\<lparr>code_id := Some ''abc''\<rparr>) [ElfDebug] (\<lambda>_. Inl NotFound)
     (listing_state ?I 60 [ListFiles 50 demo_sentry (default_object_id\<lparr>code_id := Some ''abc''\<rparr>) [file_type.Pe] demo_answer]))
     = Inr [Sentry ''sentry'' ''1'']"
    using demo_lookup_run[of ?I] by (simp only: demo_lookup_def)
  have i: "debug_id (default_object_id\<lparr>code_id := Some ''abc''\<rparr>) \<noteq> None \<or> code_id (default_object_id\<lparr>code_id := Some ''abc''\<rparr>) \<noteq> None" by simp
  show ?thesis using sentry_listing_faithful[OF r i] unfolding sum.case by (elim exE conjE) (rule exI, assumption)
qed

text \<open>
  A token for a bucket is one the server just gave, or one that has not expired; failures to get a
  token are not remembered.
\<close>

theorem bucket_tokens_usable:
  assumes "gcs_get_token now answer (GcsKey email key) cache = (r, cache')"
    and "azure_get_token now' answer' k cache'' = (r', cache''')"
  shows "(r = map_sum id gt_bearer_token (gcs_request_new_token now (answer (email, key)))
      \<or> (\<exists>t. r = Inr (gt_bearer_token t) \<and> \<not> gcs_token_expired now t))
    \<and> (r' = azure_request_new_token now' (answer' k) \<or> (\<exists>t. r' = Inr t \<and> now' \<le> at_expires_at t))"
proof
  obtain v c where v: "or_insert_with_if None (nat now) (email, key) (gcs_request_new_token now (answer (email, key)))
      (\<lambda>e. case e of Inl _ \<Rightarrow> True | Inr t \<Rightarrow> gcs_token_expired now t) cache = (v, c)" by fastforce
  have rv: "r = map_sum id gt_bearer_token v" using assms(1) v by (simp add: gcs_get_token_def)
  show "r = map_sum id gt_bearer_token (gcs_request_new_token now (answer (email, key)))
      \<or> (\<exists>t. r = Inr (gt_bearer_token t) \<and> \<not> gcs_token_expired now t)"
    using or_insert_fresh_or_kept[OF v]
  proof
    assume "\<not> (case v of Inl _ \<Rightarrow> True | Inr t \<Rightarrow> gcs_token_expired now t)"
    then show ?thesis using rv by (cases v) auto
  qed (use rv in simp)
  show "r' = azure_request_new_token now' (answer' k) \<or> (\<exists>t. r' = Inr t \<and> now' \<le> at_expires_at t)"
    using or_insert_fresh_or_kept[OF assms(2)[unfolded azure_get_token_def]] by (auto split: sum.splits)
qed

text \<open>The account of a bucket cannot change the host of its URL.\<close>

theorem azure_host_confined:
  assumes "blob_url account container key = Some (host, segs)"
  shows "host = account @ ''.blob.core.windows.net'' \<and> CHR ''/'' \<notin> set account \<and> CHR ''.'' \<notin> set account
     \<and> CHR '':'' \<notin> set account \<and> CHR ''@'' \<notin> set account"
  using assms by (auto simp: blob_url_def is_valid_account_def list_all_iff split: if_splits)

text \<open>What a download gives comes from its last try alone.\<close>

theorem dispatched_from_one_try:
  assumes "dispatch_download l temp attempt_download = Inr d"
  shows "\<exists>n \<in> {1..3}. temp n = None \<and> attempt_download n = (Inr (dd_compression d), dd_contents d) \<and> dd_max_download_size d = l"
proof -
  have tries: "\<exists>m. n < m \<and> m \<le> max 3 (n + 1) \<and> retry_loop task n = task m" for task :: "nat \<Rightarrow> downloaded cache_contents" and n
  proof (induction task n rule: retry_loop.induct)
    case (1 task n)
    show ?case
    proof (cases "should_not_retry (task (n + 1)) \<or> n + 1 \<ge> 3")
      case True
      then show ?thesis by (intro exI[of _ "n + 1"]) (simp add: retry_loop.simps[of task n] Let_def)
    next
      case False
      from 1[OF refl refl False] obtain m where "n + 1 < m" "m \<le> max 3 (n + 1 + 1)" "retry_loop task (n + 1) = task m" by blast
      then show ?thesis using False by (intro exI[of _ m]) (simp add: retry_loop.simps[of task n] Let_def)
    qed
  qed
  let ?task = "\<lambda>n. case temp n of
        Some e \<Rightarrow> Inl e
      | None \<Rightarrow> (case attempt_download n of (result, destination) \<Rightarrow>
          map_sum id (\<lambda>c. \<lparr>dd_contents = destination, dd_compression = c, dd_max_download_size = l\<rparr>) result)"
  obtain n where n: "0 < n" "n \<le> 3" "retry_loop ?task 0 = ?task n" using tries[of 0 ?task] by auto
  then have d: "?task n = Inr d" using assms by (simp only: dispatch_download_def retry_def)
  then have t: "temp n = None" by (cases "temp n") simp_all
  obtain res dest where a: "attempt_download n = (res, dest)" by fastforce
  obtain c where "res = Inr c" using d t a by (cases res) simp_all
  then have "d = \<lparr>dd_contents = dest, dd_compression = c, dd_max_download_size = l\<rparr>" "attempt_download n = (Inr c, dest)"
    using d t a by simp_all
  with n t show ?thesis by (intro bexI[of _ n]) simp_all
qed

end
