(* ===== verification/VariablesCorrect.thy ===== *)
theory VariablesCorrect
  imports Variables
begin

text \<open>
  Extraction of variables: an integer stored in the memory of a dump is the value shown, every named
  variable is listed once, a value depends on the bytes of the variable only, and what is shown of a
  variable is short.
\<close>

section \<open>Memory\<close>

lemma region_slice_length: "region_slice s start sz = Some bs \<Longrightarrow> length bs = unat sz"
  by (auto simp: region_slice_def checked_add_def unat_word_ariths word_le_nat_alt split: if_splits)

lemma minidump_get_length: "ma_get (minidump_access m) addr sz = Some bs \<Longrightarrow> length bs = unat sz"
  by (auto simp: minidump_access_def bind_eq_Some_conv dest: region_slice_length)

lemma register_get_length: "ma_get (register_access v) addr sz = Some bs \<Longrightarrow> length bs = unat sz"
  by (auto simp: register_access_def dest: region_slice_length)

lemma get_unsigned_less: "get_unsigned M addr n = Some v \<Longrightarrow> v < 2 ^ (8 * n)"
proof -
  assume "get_unsigned M addr n = Some v"
  then obtain bs where "n \<le> length bs" "v = read_native (ma_big_endian M) (take n bs)"
    by (auto simp: get_unsigned_def bind_eq_Some_conv split: if_splits)
  then have "v < 256 ^ n" using read_native_less[of "ma_big_endian M" "take n bs"] by (simp add: min_absorb2)
  then show ?thesis by (simp add: power_mult)
qed

text \<open>A region of the dump holds the bytes at the address.\<close>

definition stored_at :: "minidump_memory \<Rightarrow> int \<Rightarrow> string \<Rightarrow> bool" where
  "stored_at m a bs \<longleftrightarrow> (\<exists>at r pre post. mm_at m = Some at \<and> at (word_of_int a) = Some r
      \<and> mr_bytes r = pre @ bs @ post \<and> uint (mr_base r) + int (length pre) = a \<and> length (mr_bytes r) < 2 ^ 64)"

lemma stored_get:
  assumes "stored_at m a bs" "0 \<le> a" "a < 2 ^ 64"
  shows "ma_get (minidump_access m) (word_of_int a) (of_nat (length bs)) = Some bs"
proof -
  obtain at r pre post where m: "mm_at m = Some at" "at (word_of_int a) = Some r"
    and s: "mr_bytes r = pre @ bs @ post" "uint (mr_base r) + int (length pre) = a" "length (mr_bytes r) < 2 ^ 64"
    using assms(1) by (auto simp: stored_at_def)
  have ua: "uint (word_of_int a :: 64 word) = a" using assms(2,3) by (simp add: uint_word_of_int)
  have le: "mr_base r \<le> word_of_int a" using s(2) by (simp add: word_le_def ua)
  have "word_of_int a = (word_of_int (uint (mr_base r) + int (length pre)) :: 64 word)" by (simp only: s(2))
  then have "word_of_int a = mr_base r + of_nat (length pre)" by simp
  then have sub: "checked_sub (word_of_int a) (mr_base r) = Some (of_nat (length pre))"
    using le by (simp add: checked_sub_def)
  have n: "length pre + length bs < 2 ^ 64" using s(1,3) by simp
  have u: "unat (of_nat k :: 64 word) = k" if "k < 2 ^ 64" for k using that by (simp add: unat_of_nat)
  have e: "of_nat (length pre) + of_nat (length bs) = (of_nat (length pre + length bs) :: 64 word)" by simp
  have "region_slice (mr_bytes r) (of_nat (length pre)) (of_nat (length bs)) = Some bs"
    using n s(1) by (simp add: region_slice_def checked_add_def word_le_nat_alt e u del: of_nat_add)
  then show ?thesis by (simp add: minidump_access_def m sub)
qed

section \<open>Integers\<close>

definition encode_int :: "bool \<Rightarrow> nat \<Rightarrow> int \<Rightarrow> string" where
  "encode_int big n v = write_native big n (nat (v mod 2 ^ (8 * n)))"

lemma read_encoded:
  "read_native big (encode_int big n v) = nat (v mod 2 ^ (8 * n))"
proof -
  have "nat (v mod 2 ^ (8 * n)) < 256 ^ n" by (simp add: power_mult nat_less_iff)
  then show ?thesis by (simp add: encode_int_def read_write_native)
qed

lemma to_signed_mod:
  assumes "0 < n" "- (2 ^ (8 * n - 1)) \<le> v" "v < 2 ^ (8 * n - 1)"
  shows "to_signed n (nat (v mod 2 ^ (8 * n))) = v"
proof -
  have d: "(2 :: int) ^ (8 * n) = 2 * 2 ^ (8 * n - 1)"
    using assms(1) by (metis One_nat_def Suc_pred mult_pos_pos power_Suc zero_less_numeral)
  show ?thesis
  proof (cases "0 \<le> v")
    case True
    then have "v mod 2 ^ (8 * n) = v" using assms(3) d by simp
    then show ?thesis using True assms(3) by (simp add: to_signed_def nat_less_iff)
  next
    case False
    then have "(v + 2 ^ (8 * n)) mod 2 ^ (8 * n) = v + 2 ^ (8 * n)" using assms(2) d by (intro mod_pos_pos_trivial) auto
    then have "v mod 2 ^ (8 * n) = v + 2 ^ (8 * n)" by simp
    then show ?thesis using False assms(2) d by (simp add: to_signed_def nat_less_iff)
  qed
qed

lemma get_stored:
  assumes "stored_at m a (encode_int (mm_big_endian m) n v)" "0 \<le> a" "a < 2 ^ 63"
  shows "get_unsigned (minidump_access m) (word_of_int a) n = Some (nat (v mod 2 ^ (8 * n)))"
proof -
  have l: "length (encode_int (mm_big_endian m) n v) = n" by (simp add: encode_int_def)
  have "ma_big_endian (minidump_access m) = mm_big_endian m" by (simp add: minidump_access_def)
  then show ?thesis using stored_get[OF assms(1,2)] assms(3) by (simp add: get_unsigned_def l read_encoded)
qed

lemma format_signed:
  assumes "n \<in> {1, 2, 4, 8, 16}" "get_unsigned M addr n = Some (nat (v mod 2 ^ (8 * n)))"
    "- (2 ^ (8 * n - 1)) \<le> v" "v < 2 ^ (8 * n - 1)"
  shows "format_value M addr (PrimitiveType \<lparr>pt_name = nm, pt_size = of_nat n, pt_encoding = Some SignedInt\<rparr>)
    = Some (with_value (json_i128 v))"
proof -
  have "get_signed M addr n = Some v"
    using to_signed_mod[of n v] assms by (auto simp: get_signed_def)
  then show ?thesis
    using assms(1,3,4) by (auto simp: format_value_def type_layout_def json_i128_def)
qed

lemma format_unsigned:
  assumes "n \<in> {1, 2, 4, 8, 16}" "get_unsigned M addr n = Some (nat (v mod 2 ^ (8 * n)))"
    "0 \<le> v" "v < 2 ^ (8 * n)"
  shows "format_value M addr (PrimitiveType \<lparr>pt_name = nm, pt_size = of_nat n, pt_encoding = Some UnsignedInt\<rparr>)
    = Some (with_value (json_u128 (nat v)))"
proof -
  have "get_unsigned M addr n = Some (nat v)" using assms by simp
  then show ?thesis
    using assms(1,3,4) by (auto simp: format_value_def type_layout_def json_u128_def map_bool_unsigned_def)
qed

lemma frame_address_exact:
  assumes "vt_family T = Amd64 \<and> regs ''rbp'' = Some base \<or> vt_family T = Arm64 \<and> regs ''fp'' = Some base"
    "uint base < 2 ^ 63" "0 \<le> uint base + sint off" "uint base + sint off < 2 ^ 63"
  shows "frame_address T regs off = Some (word_of_int (uint base + sint off))"
proof -
  have w: "word_of_int (uint base + sint off) = base + off" by simp
  have "sint (word_of_int (uint base + sint off) :: 64 word) = uint base + sint off"
    unfolding sint_sbintrunc' using assms(3,4) by (simp add: signed_take_bit_int_eq_self)
  then have "0 \<le> sint (base + off)" using assms(3) unfolding w by simp
  moreover have "unat base < 2 ^ 63"
    unfolding nat_uint_eq[symmetric] using assms(2) by (simp del: nat_uint_eq add: nat_less_iff)
  ultimately have "frame_address T regs off = Some (base + off)" using assms(1) by (auto simp: frame_address_def)
  then show ?thesis by simp
qed

text \<open>C15. An integer of the program that lies in the stack frame is shown with its value: when the bytes at
  the frame base plus the offset hold the two's complement or unsigned encoding of a number in any of the
  five sizes and in the byte order of the dump, the extracted value is that number, as a JSON number when
  64 bits hold it and as its decimal digits otherwise.\<close>

theorem stack_integer_extracted:
  assumes "vt_family T = Amd64 \<and> regs ''rbp'' = Some base \<or> vt_family T = Arm64 \<and> regs ''fp'' = Some base"
    and "uint base < 2 ^ 63" "0 \<le> uint base + sint off" "uint base + sint off < 2 ^ 63"
    and "n \<in> {1, 2, 4, 8, 16}" "stored_at m (uint base + sint off) (encode_int (mm_big_endian m) n v)"
  shows "(- (2 ^ (8 * n - 1)) \<le> v \<and> v < 2 ^ (8 * n - 1) \<longrightarrow>
      resolve_variable_value T regs (minidump_access m) (FrameOffset off)
        (Some (PrimitiveType \<lparr>pt_name = nm, pt_size = of_nat n, pt_encoding = Some SignedInt\<rparr>))
      = Some (with_value (if - (2 ^ 63) \<le> v \<and> v < 2 ^ 63 then JInt v else JString (dec_int v))))
    \<and> (0 \<le> v \<and> v < 2 ^ (8 * n) \<longrightarrow>
      resolve_variable_value T regs (minidump_access m) (FrameOffset off)
        (Some (PrimitiveType \<lparr>pt_name = nm, pt_size = of_nat n, pt_encoding = Some UnsignedInt\<rparr>))
      = Some (with_value (if v < 2 ^ 64 then JInt v else JString (dec_int v))))"
proof -
  note address = frame_address_exact[of T regs base off, OF assms(1,2,3,4)]
  note stored = get_stored[OF assms(6,3,4)]
  have "json_u128 (nat v) = (if v < 2 ^ 64 then JInt v else JString (dec_int v))" if "0 \<le> v"
    using that by (auto simp: json_u128_def dec_int_def nat_less_iff)
  then show ?thesis
    using format_signed[OF assms(5) stored, of nm] format_unsigned[OF assms(5) stored, of nm]
    by (simp add: resolve_variable_value_def address json_i128_def)
qed

definition demo_variable_tools :: variable_tools where
  "demo_variable_tools = \<lparr>vt_family = Amd64, vt_lookup_type = (\<lambda>_. None), vt_amd64_registers = [''rax'', ''rdx''],
     vt_arm64_registers = []\<rparr>"

definition demo_dump_memory :: minidump_memory where
  "demo_dump_memory = \<lparr>mm_at = Some (\<lambda>_. Some \<lparr>mr_base = 4096, mr_bytes = ''stack'' @ encode_int False 4 (- 2) @ ''above''\<rparr>),
     mm_big_endian = False\<rparr>"

lemma stack_integer_extracted_witness:
  "resolve_variable_value demo_variable_tools [''rbp'' \<mapsto> 4109] (minidump_access demo_dump_memory) (FrameOffset (- 8))
     (Some (PrimitiveType \<lparr>pt_name = Some ''int'', pt_size = 4, pt_encoding = Some SignedInt\<rparr>)) = Some (with_value (JInt (- 2)))"
proof -
  have "stored_at demo_dump_memory (uint (4109 :: 64 word) + sint (- 8 :: 64 word)) (encode_int (mm_big_endian demo_dump_memory) 4 (- 2))"
    unfolding stored_at_def
    by (rule exI[of _ "\<lambda>_. Some \<lparr>mr_base = 4096, mr_bytes = ''stack'' @ encode_int False 4 (- 2) @ ''above''\<rparr>"],
      rule exI[of _ "\<lparr>mr_base = 4096, mr_bytes = ''stack'' @ encode_int False 4 (- 2) @ ''above''\<rparr>"],
      rule exI[of _ "''stack''"], rule exI[of _ "''above''"]) (simp add: demo_dump_memory_def encode_int_def)
  then show ?thesis
    using stack_integer_extracted[of demo_variable_tools "[''rbp'' \<mapsto> 4109]" 4109 "- 8" 4 demo_dump_memory "- 2" "Some ''int''"]
    by (simp add: demo_variable_tools_def)
qed

section \<open>The listing\<close>

lemma named_entries:
  fixes vs :: "symbol_variable list"
  shows "map_of (rev (concat (map (\<lambda>v. case sv_name v of None \<Rightarrow> [] | Some n \<Rightarrow> [(n, f v)]) vs))) n
     = map_option f (find (\<lambda>v. sv_name v = Some n) (rev vs))"
proof (induction vs)
  case (Cons v vs)
  have "find P (xs @ [v]) = (case find P xs of Some y \<Rightarrow> Some y | None \<Rightarrow> if P v then Some v else None)" for P and xs :: "symbol_variable list"
    by (induction xs) auto
  with Cons show ?case by (auto simp: map_add_def split: option.splits)
qed simp

text \<open>The variables of a frame are keyed by name, in the strict order of the names, and every named
  variable of the debug information is there, with or without a value; of several variables of one name
  it is the last.\<close>

theorem every_variable_listed:
  "sorted_wrt (<) (map fst (do_extract T regs M vs))
    \<and> fst ` set (do_extract T regs M vs) = {n. \<exists>v \<in> set vs. sv_name v = Some n}
    \<and> map_of (do_extract T regs M vs) n = map_option (extract_variable T regs M) (find (\<lambda>v. sv_name v = Some n) (rev vs))"
proof -
  note btree_collect_spec[of "concat (map (\<lambda>v. case sv_name v of None \<Rightarrow> [] | Some n \<Rightarrow> [(n, extract_variable T regs M v)]) vs)"]
  moreover have "fst ` set (concat (map (\<lambda>v. case sv_name v of None \<Rightarrow> [] | Some n \<Rightarrow> [(n, extract_variable T regs M v)]) vs))
      = {n. \<exists>v \<in> set vs. sv_name v = Some n}"
    by (force split: option.splits)
  ultimately show ?thesis by (simp add: do_extract_def named_entries)
qed

section \<open>What a value depends on\<close>

text \<open>The reads of the dump's memory: the address and the size of every variable in the stack frame.\<close>

definition variable_reads :: "variable_tools \<Rightarrow> registers \<Rightarrow> symbol_variable list \<Rightarrow> (64 word \<times> 64 word) set" where
  "variable_reads T regs vs = {(addr, sz). \<exists>v \<in> set vs. \<exists>off vt enc. FrameOffset off \<in> set (sv_locations v) \<and> sv_type v = Some vt
      \<and> type_layout vt = Some (enc, sz) \<and> frame_address T regs off = Some addr}"

lemma format_value_cong:
  assumes "ma_big_endian M = ma_big_endian M'" "\<And>enc sz. type_layout vt = Some (enc, sz) \<Longrightarrow> ma_get M addr sz = ma_get M' addr sz"
  shows "format_value M addr vt = format_value M' addr vt"
proof (cases "type_layout vt")
  case (Some layout)
  obtain enc sz where l: "layout = (enc, sz)" by (cases layout)
  have g: "get_unsigned M addr k = get_unsigned M' addr k" if "unat sz = k" for k
    unfolding get_unsigned_def assms(1) using assms(2) Some l that by auto
  then have s: "get_signed M addr k = get_signed M' addr k" if "unat sz = k" for k
    using that by (simp add: get_signed_def)
  show ?thesis
    using assms(2)[of enc sz] Some l by (simp add: format_value_def Let_def g s cong: if_cong)
qed (simp add: format_value_def)

lemma find_value_cong: "(\<And>x. x \<in> set xs \<Longrightarrow> f x = g x) \<Longrightarrow> find_value f xs = find_value g xs"
  by (induction xs) (auto split: option.splits)

text \<open>C16. A crash dump shows of its memory only the variables themselves: two dumps of one byte order whose
  memory agrees at the bytes of the variables of the frame, each at its address and for its size, give the
  same variables, whatever else they hold.\<close>

theorem extraction_local:
  assumes "ma_big_endian M = ma_big_endian M'"
    and "\<And>addr sz. (addr, sz) \<in> variable_reads T regs vs \<Longrightarrow> ma_get M addr sz = ma_get M' addr sz"
  shows "do_extract T regs M vs = do_extract T regs M' vs"
proof -
  have "resolve_variable_value T regs M loc (sv_type v) = resolve_variable_value T regs M' loc (sv_type v)"
    if "v \<in> set vs" "loc \<in> set (sv_locations v)" for v loc
  proof (cases loc)
    case (FrameOffset off)
    have "format_value M addr vt = format_value M' addr vt"
      if "sv_type v = Some vt" "frame_address T regs off = Some addr" for vt addr
      using that \<open>v \<in> set vs\<close> \<open>loc \<in> set (sv_locations v)\<close> FrameOffset
      by (intro format_value_cong assms) (auto simp: variable_reads_def)
    then show ?thesis
      by (cases "sv_type v"; cases "frame_address T regs off") (simp_all add: resolve_variable_value_def FrameOffset)
  qed (simp add: resolve_variable_value_def)
  then have "extract_variable T regs M v = extract_variable T regs M' v" if "v \<in> set vs" for v
    using that by (simp add: extract_variable_def cong: find_value_cong)
  then show ?thesis unfolding do_extract_def by (intro arg_cong[of _ _ btree_collect] arg_cong[of _ _ concat] map_cong) (auto split: option.splits)
qed

definition demo_int_variable :: symbol_variable where
  "demo_int_variable = \<lparr>sv_name = Some ''count'', sv_type = Some (PrimitiveType \<lparr>pt_name = Some ''int'', pt_size = 4, pt_encoding = Some SignedInt\<rparr>),
     sv_kind = LocalVariable, sv_locations = [FrameOffset (- 8)]\<rparr>"

definition other_dump_memory :: minidump_memory where
  "other_dump_memory = \<lparr>mm_at = Some (\<lambda>_. Some \<lparr>mr_base = 4096, mr_bytes = ''other'' @ encode_int False 4 (- 2)\<rparr>), mm_big_endian = False\<rparr>"

lemma extraction_local_witness:
  "do_extract demo_variable_tools [''rbp'' \<mapsto> 4109] (minidump_access demo_dump_memory) [demo_int_variable]
     = do_extract demo_variable_tools [''rbp'' \<mapsto> 4109] (minidump_access other_dump_memory) [demo_int_variable]"
proof (rule extraction_local)
  show "ma_big_endian (minidump_access demo_dump_memory) = ma_big_endian (minidump_access other_dump_memory)"
    by (simp add: minidump_access_def demo_dump_memory_def other_dump_memory_def)
  show "ma_get (minidump_access demo_dump_memory) addr sz = ma_get (minidump_access other_dump_memory) addr sz"
    if "(addr, sz) \<in> variable_reads demo_variable_tools [''rbp'' \<mapsto> 4109] [demo_int_variable]" for addr sz
    using that
    by (auto simp: variable_reads_def demo_int_variable_def type_layout_def frame_address_def demo_variable_tools_def
        minidump_access_def demo_dump_memory_def other_dump_memory_def checked_sub_def region_slice_def checked_add_def encode_int_def)
qed

section \<open>The size of what is shown\<close>

lemma dec_nat_length: "n < 10 ^ Suc k \<Longrightarrow> length (dec_nat n) \<le> Suc k"
proof (induction k arbitrary: n)
  case 0
  then show ?case by (subst dec_nat.simps) simp
next
  case (Suc k)
  then have "n div 10 < 10 ^ Suc k" by (simp add: less_mult_imp_div_less mult.commute)
  with Suc.IH show ?case by (subst dec_nat.simps) auto
qed

lemma hex_nat_length: "n < 16 ^ Suc k \<Longrightarrow> length (hex_nat u n) \<le> Suc k"
proof (induction k arbitrary: n)
  case 0
  then show ?case by (subst hex_nat.simps) simp
next
  case (Suc k)
  then have "n div 16 < 16 ^ Suc k" by (simp add: less_mult_imp_div_less mult.commute)
  with Suc.IH show ?case by (subst hex_nat.simps) auto
qed

lemma hex_padded_length: "n < 16 ^ Suc k \<Longrightarrow> length (hex_padded w n) \<le> max w (k + 3)"
  using hex_nat_length[of n k False] by (auto simp: hex_padded_def Let_def)

fun short_json :: "json \<Rightarrow> bool" where
  "short_json (JString s) \<longleftrightarrow> length s \<le> 46"
| "short_json (JArray js) \<longleftrightarrow> length js \<le> 17 \<and> list_all (\<lambda>j. case j of JString s \<Rightarrow> length s \<le> 46 | _ \<Rightarrow> False) js"
| "short_json (JObject _) \<longleftrightarrow> False"
| "short_json _ \<longleftrightarrow> True"

lemma short_u128: "v < 2 ^ 128 \<Longrightarrow> short_json (json_u128 v)"
  using dec_nat_length[of v 38] by (simp add: json_u128_def)

lemma short_i128:
  assumes "v < 2 ^ 128"
  shows "short_json (json_i128 (to_signed 16 v))"
proof -
  have "nat (to_signed 16 v) < 10 ^ Suc 38" "nat (- to_signed 16 v) < 10 ^ Suc 38"
    using assms by (auto simp: to_signed_def)
  from dec_nat_length[OF this(1)] dec_nat_length[OF this(2)] show ?thesis
    by (simp add: json_i128_def dec_int_def)
qed

lemma short_hex:
  assumes "n \<in> {1, 2, 4, 8, 16}" "v < 2 ^ (8 * n)"
  shows "short_json (JString (hex_padded (2 + 2 * n) v))"
proof -
  have "(2::nat) ^ (8 * n) = 16 ^ Suc (2 * n - 1)" using assms(1) by auto
  then show ?thesis using hex_padded_length[of v "2 * n - 1" "2 + 2 * n"] assms by auto
qed

lemma short_bytes:
  assumes "length bs < 2 ^ 64"
  shows "short_json (unknown_bytes_json (unknown_bytes_from bs))"
proof -
  have "length (hex_padded 4 (of_char c)) \<le> 46" for c
    using hex_padded_length[of "of_char c" 1 4] byte_of_less[of c] by simp
  moreover have "length (dec_nat (length bs - 16)) \<le> 20" using dec_nat_length[of "length bs - 16" 19] assms by simp
  ultimately show ?thesis
    by (auto simp: unknown_bytes_json_def unknown_bytes_from_def Let_def list_all_iff split: option.splits)
qed

lemma all_if: "(c \<Longrightarrow> pred_option P a) \<Longrightarrow> (\<not> c \<Longrightarrow> pred_option P b) \<Longrightarrow> pred_option P (if c then a else b)"
  by simp

lemma all_map: "(\<And>x. a = Some x \<Longrightarrow> P (f x)) \<Longrightarrow> pred_option P (map_option f a)"
  by (cases a) simp_all

definition short_value :: "variable_value \<Rightarrow> bool" where
  "short_value v \<longleftrightarrow> pred_option short_json (vv_value v)"

lemma short_value_simps [simp]:
  "short_value new_value" "short_value (with_value j) = short_json j" "short_value (with_pointer a)"
  by (simp_all add: short_value_def new_value_def with_value_def with_pointer_def)

lemma short_floats [simp]: "short_json (json_f32 v)" "short_json (json_f64 w)"
  by (simp_all add: json_f32_def json_f64_def)

lemma short_bool_unsigned [simp]: "short_value (map_bool_unsigned enc v)"
  by (simp add: map_bool_unsigned_def)

lemma short_char [simp]: "length (escape_ascii n) \<le> 44"
  by (simp add: escape_ascii_def)

lemma format_value_short:
  assumes "\<And>sz bs. ma_get M addr sz = Some bs \<Longrightarrow> length bs = unat sz"
  shows "pred_option short_value (format_value M addr vt)"
proof (cases "type_layout vt")
  case (Some layout)
  obtain enc sz where l: "layout = (enc, sz)" by (cases layout)
  have b: "length bs < 2 ^ 64" if "ma_get M addr sz = Some bs" for bs
    using assms[OF that] unsigned_less[of sz, where 'a = nat] by simp
  have s: "short_json (json_i128 v)" if "get_signed M addr 16 = Some v" for v
    using that get_unsigned_less[of M addr 16] by (auto simp: get_signed_def intro: short_i128)
  have u: "short_json (json_u128 v)" if "get_unsigned M addr 16 = Some v" for v
    using get_unsigned_less[OF that] by (simp add: short_u128)
  have k: "short_json (unknown_bytes_json (unknown_bytes_from bs))" if "ma_get M addr sz = Some bs" for bs
    using b[OF that] by (rule short_bytes)
  have h: "length (hex_padded (Suc (Suc (2 * unat sz))) v) \<le> 46"
    if "unat sz = Suc 0 \<or> unat sz = 2 \<or> unat sz = 4 \<or> unat sz = 8 \<or> unat sz = 16" "get_unsigned M addr (unat sz) = Some v" for v
    using short_hex[of "unat sz" v] get_unsigned_less[OF that(2)] that(1) by simp
  show ?thesis unfolding format_value_def Some l Option.bind.simps prod.case Let_def
    by (intro all_if all_map) (simp_all add: s u k h)
qed (simp add: format_value_def)

lemma find_value_Some: "find_value f xs = Some y \<Longrightarrow> \<exists>x \<in> set xs. f x = Some y"
  by (induction xs) (auto split: option.splits)

lemma resolved_short: "pred_option short_value (resolve_variable_value T regs (minidump_access m) loc vt)"
proof -
  have "pred_option short_value (format_value (minidump_access m) addr t)" for addr t
    by (rule format_value_short) (rule minidump_get_length)
  moreover have "pred_option short_value (format_value (register_access r) addr t)" for r addr t
    by (rule format_value_short) (rule register_get_length)
  ultimately show ?thesis
    by (auto simp: resolve_variable_value_def pred_option_def bind_eq_Some_conv split: variable_location.splits)
qed

text \<open>The name of a primitive type has at most \<open>b\<close> characters.\<close>

definition short_name :: "nat \<Rightarrow> variable_type option \<Rightarrow> bool" where
  "short_name b vt = (case vt of Some (PrimitiveType p) \<Rightarrow> (case pt_name p of Some n \<Rightarrow> length n \<le> b | None \<Rightarrow> True) | _ \<Rightarrow> True)"

lemma type_name_length:
  "17 \<le> b \<Longrightarrow> short_name b vt \<Longrightarrow> (\<And>i. short_name b (vt_lookup_type T i)) \<Longrightarrow> depth \<le> 11
    \<Longrightarrow> length (resolve_type_name T result vt depth) \<le> length result + b + (11 - depth)"
proof (induction T result vt depth rule: resolve_type_name.induct)
  case (1 T result vt depth)
  show ?case
  proof (cases "\<exists>p i. vt = Some (PointerType p) \<and> pp_pointee p = Some i \<and> depth \<le> 10")
    case True
    then obtain p i where p: "vt = Some (PointerType p)" "pp_pointee p = Some i" "depth \<le> 10" by auto
    have "length (resolve_type_name T result (vt_lookup_type T i) (depth + 1)) \<le> length result + b + (11 - (depth + 1))"
      using p "1.prems" by (intro "1.IH"[OF p(1) _ refl p(2)]) auto
    then show ?thesis using p by (subst resolve_type_name.simps) simp
  next
    case False
    then show ?thesis using "1.prems"
      by (subst resolve_type_name.simps) (auto simp: short_name_def split: option.splits variable_type.splits)
  qed
qed

text \<open>C17. What a variable adds to the report of a crash is small, however large the variable, its type and
  the dump: its value is a scalar, a string of at most 46 characters or an array of at most 17 of them,
  and its type is at most eleven characters longer than the longest name of a primitive type, even where
  the pointers of the debug information form a cycle.\<close>

theorem extracted_variables_small:
  assumes "17 \<le> b" "\<And>v. v \<in> set vs \<Longrightarrow> short_name b (sv_type v)" "\<And>i. short_name b (vt_lookup_type T i)"
    and "(n, w) \<in> set (do_extract T regs (minidump_access m) vs)"
  shows "length (vr_type w) \<le> b + 11 \<and> (case vv_value (vr_value w) of Some j \<Rightarrow> short_json j | None \<Rightarrow> True)"
proof -
  have e: "do_extract T regs (minidump_access m) vs = btree_collect (concat (map (\<lambda>v. case sv_name v of None \<Rightarrow> []
      | Some n \<Rightarrow> [(n, extract_variable T regs (minidump_access m) v)]) vs))" (is "_ = btree_collect ?entries")
    by (simp add: do_extract_def)
  have "distinct (map fst (btree_collect ?entries))" "map_of (btree_collect ?entries) = map_of (rev ?entries)"
    using btree_collect_spec[of ?entries] unfolding strict_sorted_iff by blast+
  then have "map_of (rev ?entries) n = Some w" using map_of_is_SomeI assms(4) unfolding e by fastforce
  then obtain v where "find (\<lambda>v. sv_name v = Some n) (rev vs) = Some v" "w = extract_variable T regs (minidump_access m) v"
    by (auto simp: named_entries)
  then have v: "v \<in> set vs" "w = extract_variable T regs (minidump_access m) v"
    by (auto simp: find_Some_iff) (metis length_rev nth_mem set_rev)
  have "length (vr_type w) \<le> b + 11"
    using type_name_length[OF assms(1) assms(2)[OF v(1)] assms(3), of 0 "[]"] by (simp add: v(2) extract_variable_def into_variable_def)
  moreover have "short_value (vr_value w)"
    using resolved_short[of T regs m _ "sv_type v"]
    by (auto simp: v(2) extract_variable_def into_variable_def pred_option_def split: option.splits dest!: find_value_Some)
  ultimately show ?thesis by (simp add: short_value_def pred_option_def split: option.splits)
qed

lemma extracted_variables_small_witness:
  "length (vr_type (extract_variable demo_variable_tools [''rbp'' \<mapsto> 4109] (minidump_access demo_dump_memory) demo_int_variable)) \<le> 17 + 11
    \<and> (case vv_value (vr_value (extract_variable demo_variable_tools [''rbp'' \<mapsto> 4109] (minidump_access demo_dump_memory) demo_int_variable)) of
          Some j \<Rightarrow> short_json j | None \<Rightarrow> True)"
proof (rule extracted_variables_small[of 17 "[demo_int_variable]" demo_variable_tools "''count''"])
  show "(''count'', extract_variable demo_variable_tools [''rbp'' \<mapsto> 4109] (minidump_access demo_dump_memory) demo_int_variable)
      \<in> set (do_extract demo_variable_tools [''rbp'' \<mapsto> 4109] (minidump_access demo_dump_memory) [demo_int_variable])"
    by (simp add: do_extract_def btree_collect_def demo_int_variable_def)
qed (simp_all add: short_name_def demo_int_variable_def demo_variable_tools_def)

end
