(* ===== verification/Endpoints.thy ===== *)
theory Endpoints
  imports Requests
begin

text \<open>
  \<open>symbolicator/src/endpoints\<close>: the handlers of the web service between the HTTP server and the
  request service: reading multipart uploads, checking them, turning bodies into requests, waiting
  for the response, the errors as HTTP responses, the symbol proxy and the table of routes. The
  server, the parsers of JSON and the file system are parameters.
\<close>

section \<open>Errors\<close>

text \<open>The texts of the chain of an error, its own first.\<close>

record response_error =
  re_status :: nat
  re_chain :: "string list"

definition error_from_multipart :: "string list \<Rightarrow> response_error" where
  "error_from_multipart chain = \<lparr>re_status = 400, re_chain = chain\<rparr>"

definition error_from_json :: "string list \<Rightarrow> response_error" where
  "error_from_json chain = \<lparr>re_status = 400, re_chain = chain\<rparr>"

definition error_from_max_requests :: "max_requests_error \<Rightarrow> response_error" where
  "error_from_max_requests e = \<lparr>re_status = 503, re_chain = [''maximum number of concurrent requests reached'']\<rparr>"

definition error_from_str :: "string \<Rightarrow> response_error" where
  "error_from_str msg = \<lparr>re_status = 500, re_chain = [msg]\<rparr>"

definition error_from_status :: "nat \<Rightarrow> string \<Rightarrow> response_error" where
  "error_from_status code msg = \<lparr>re_status = code, re_chain = [msg]\<rparr>"

definition error_from_anyhow :: "string list \<Rightarrow> response_error" where
  "error_from_anyhow chain = \<lparr>re_status = 500, re_chain = chain\<rparr>"

definition error_from_io :: "string list \<Rightarrow> response_error" where
  "error_from_io chain = \<lparr>re_status = 500, re_chain = chain\<rparr>"

record api_error_response =
  ae_detail :: "string option"
  ae_causes :: "string list option"

definition api_error_from :: "string list \<Rightarrow> api_error_response" where
  "api_error_from chain =
     (let causes = tl chain
      in \<lparr>ae_detail = (case chain of [] \<Rightarrow> None | d # _ \<Rightarrow> Some d),
          ae_causes = (if causes = [] then None else Some causes)\<rparr>)"

definition api_error_json :: "api_error_response \<Rightarrow> json" where
  "api_error_json r = JObject
     ([(''detail'', case ae_detail r of None \<Rightarrow> JNull | Some d \<Rightarrow> JString d)]
      @ (case ae_causes r of None \<Rightarrow> [] | Some cs \<Rightarrow> [(''causes'', JArray (map JString cs))]))"

datatype http_body = EmptyBody | JsonBody json | StreamBody string

record http_response =
  hr_status :: nat
  hr_headers :: "(string \<times> string) list"
  hr_body :: http_body

text \<open>Whether the error is reported to Sentry, and the response.\<close>

definition into_response :: "response_error \<Rightarrow> bool \<times> http_response" where
  "into_response e =
     (500 \<le> re_status e \<and> re_status e < 600 \<and> re_status e \<noteq> 503,
      \<lparr>hr_status = re_status e, hr_headers = [], hr_body = JsonBody (api_error_json (api_error_from (re_chain e)))\<rparr>)"

section \<open>Multipart bodies\<close>

text \<open>
  A body is the sequence of the answers of \<open>next_field\<close>, a field the sequence of its chunks; an
  error of the stream is the texts of its chain.
\<close>

record multipart_field =
  mf_name :: "string option"
  mf_chunks :: "(string list + string) list"

text \<open>The operations on the temporary file of an upload that may fail, and mapping it into memory.\<close>

record upload_io =
  ui_tempfile :: "string list option"
  ui_write :: "string \<Rightarrow> string \<Rightarrow> string list option"
  ui_finish :: "string \<Rightarrow> string list option"
  ui_map :: "string \<Rightarrow> string option"

fun stream_chunks :: "upload_io \<Rightarrow> (string list + string) list \<Rightarrow> string \<Rightarrow> response_error + string" where
  "stream_chunks io [] written = (case ui_finish io written of Some e \<Rightarrow> Inl (error_from_io e) | None \<Rightarrow> Inr written)"
| "stream_chunks io (Inl e # cs) written = Inl (error_from_multipart e)"
| "stream_chunks io (Inr chunk # cs) written =
     (case ui_write io written chunk of
        Some e \<Rightarrow> Inl (error_from_io e)
      | None \<Rightarrow> stream_chunks io cs (written @ chunk))"

definition stream_multipart_file :: "upload_io \<Rightarrow> multipart_field \<Rightarrow> response_error + string" where
  "stream_multipart_file io field = stream_chunks io (mf_chunks field) []"

fun read_chunks :: "nat \<Rightarrow> string option \<Rightarrow> (string list + string) list \<Rightarrow> string \<Rightarrow> response_error + string" where
  "read_chunks max_size nm [] data = Inr data"
| "read_chunks max_size nm (Inl e # cs) data = Inl (error_from_multipart e)"
| "read_chunks max_size nm (Inr chunk # cs) data =
     (if length data + length chunk > max_size then
        Inl (error_from_status 413
          (''Field '' @ (case nm of Some n \<Rightarrow> n | None \<Rightarrow> []) @ '' larger than '' @ dec_nat max_size @ '' bytes''))
      else read_chunks max_size nm cs (data @ chunk))"

definition read_multipart_data :: "multipart_field \<Rightarrow> nat \<Rightarrow> response_error + string" where
  "read_multipart_data field max_size = read_chunks max_size (mf_name field) (mf_chunks field) []"

section \<open>Uploads\<close>

text \<open>\<open>serde_json::from_slice\<close> at the types of the fields.\<close>

record field_parsers =
  fp_sources :: "string \<Rightarrow> string list + source_config list"
  fp_options :: "string \<Rightarrow> string list + request_options"
  fp_platform :: "string \<Rightarrow> string list + platform option"
  fp_rewrite_first_module :: "string \<Rightarrow> string list + rewrite_rule list"

record crash_upload =
  up_file :: "string option"
  up_sources :: "source_config list"
  up_options :: request_options
  up_platform :: "platform option"
  up_rewrite_first_module :: "rewrite_rule list"

definition new_upload :: "source_config list \<Rightarrow> crash_upload" where
  "new_upload default_sources = \<lparr>up_file = None, up_sources = default_sources, up_options = default_options,
     up_platform = None, up_rewrite_first_module = []\<rparr>"

definition json_field :: "(string \<Rightarrow> string list + 'a) \<Rightarrow> multipart_field \<Rightarrow> response_error + 'a" where
  "json_field parse field = (case read_multipart_data field (1024 * 1024) of
      Inl e \<Rightarrow> Inl e
    | Inr data \<Rightarrow> map_sum error_from_json id (parse data))"

definition file_field :: "upload_io \<Rightarrow> multipart_field \<Rightarrow> response_error + string" where
  "file_field io field = (case ui_tempfile io of
      Some e \<Rightarrow> Inl (error_from_io e)
    | None \<Rightarrow> stream_multipart_file io field)"

definition minidump_field :: "upload_io \<Rightarrow> field_parsers \<Rightarrow> multipart_field \<Rightarrow> crash_upload \<Rightarrow> response_error + crash_upload" where
  "minidump_field io P field u =
     (if mf_name field = Some ''upload_file_minidump'' then
        map_sum id (\<lambda>f. u\<lparr>up_file := Some f\<rparr>) (file_field io field)
      else if mf_name field = Some ''sources'' then
        map_sum id (\<lambda>x. u\<lparr>up_sources := x\<rparr>) (json_field (fp_sources P) field)
      else if mf_name field = Some ''options'' then
        map_sum id (\<lambda>x. u\<lparr>up_options := x\<rparr>) (json_field (fp_options P) field)
      else if mf_name field = Some ''platform'' then
        map_sum id (\<lambda>x. u\<lparr>up_platform := x\<rparr>) (json_field (fp_platform P) field)
      else if mf_name field = Some ''rewrite_first_module'' then
        map_sum id (\<lambda>x. u\<lparr>up_rewrite_first_module := x\<rparr>) (json_field (fp_rewrite_first_module P) field)
      else Inr u)"

definition apple_field :: "upload_io \<Rightarrow> field_parsers \<Rightarrow> multipart_field \<Rightarrow> crash_upload \<Rightarrow> response_error + crash_upload" where
  "apple_field io P field u =
     (if mf_name field = Some ''apple_crash_report'' then
        map_sum id (\<lambda>f. u\<lparr>up_file := Some f\<rparr>) (file_field io field)
      else if mf_name field = Some ''sources'' then
        map_sum id (\<lambda>x. u\<lparr>up_sources := x\<rparr>) (json_field (fp_sources P) field)
      else if mf_name field = Some ''options'' then
        map_sum id (\<lambda>x. u\<lparr>up_options := x\<rparr>) (json_field (fp_options P) field)
      else if mf_name field = Some ''platform'' then
        map_sum id (\<lambda>x. u\<lparr>up_platform := x\<rparr>) (json_field (fp_platform P) field)
      else Inr u)"

fun read_fields :: "(multipart_field \<Rightarrow> crash_upload \<Rightarrow> response_error + crash_upload) \<Rightarrow> (string list + multipart_field) list
    \<Rightarrow> crash_upload \<Rightarrow> response_error + crash_upload" where
  "read_fields read_field [] u = Inr u"
| "read_fields read_field (Inl e # fs) u = Inl (error_from_multipart e)"
| "read_fields read_field (Inr f # fs) u = (case read_field f u of Inl e \<Rightarrow> Inl e | Inr u \<Rightarrow> read_fields read_field fs u)"

section \<open>Waiting for the response\<close>

record query_params =
  qp_timeout :: "nat option"
  qp_scope :: scope

text \<open>
  The end of every handler: an accepted request is polled at once, a rejected one is an error. The
  response itself arrives with a later event of the request service.
\<close>

definition await_response :: "nat option \<Rightarrow> (max_requests_error + request_id) \<times> request_service
    \<Rightarrow> (response_error + request_id) \<times> request_service" where
  "await_response timeout created = (case created of
      (Inl e, s) \<Rightarrow> (Inl (error_from_max_requests e), s)
    | (Inr i, s) \<Rightarrow> (Inr i, get_response i timeout s))"

definition handler_reply :: "symbolication_response option \<Rightarrow> response_error + symbolication_response" where
  "handler_reply r = (case r of Some response \<Rightarrow> Inr response | None \<Rightarrow> Inl (error_from_str ''symbolication request did not start''))"

text \<open>\<open>GET /requests/{request_id}\<close>: an unknown id is a bare status.\<close>

definition poll_reply :: "symbolication_response option \<Rightarrow> nat + symbolication_response" where
  "poll_reply r = (case r of Some response \<Rightarrow> Inr response | None \<Rightarrow> Inl 404)"

definition poll_request :: "request_id \<Rightarrow> nat option \<Rightarrow> request_service \<Rightarrow> request_service" where
  "poll_request i timeout s = get_response i timeout s"

section \<open>The handlers\<close>

definition handle_minidump_request :: "('s, 'p, 'o, 'm, 'f) crash_actor \<Rightarrow> source_config list \<Rightarrow> upload_io \<Rightarrow> field_parsers \<Rightarrow> request_id
    \<Rightarrow> query_params \<Rightarrow> (string list + multipart_field) list \<Rightarrow> request_service \<Rightarrow> (response_error + request_id) \<times> request_service" where
  "handle_minidump_request A default_sources io P i params body s =
     (case read_fields (minidump_field io P) body (new_upload default_sources) of
        Inl e \<Rightarrow> (Inl e, s)
      | Inr u \<Rightarrow>
     (case up_file u of
        None \<Rightarrow> (Inl (error_from_status 400 ''missing minidump''), s)
      | Some minidump_file \<Rightarrow>
          let minidump = (case ui_map io minidump_file of Some contents \<Rightarrow> contents | None \<Rightarrow> [])
          in if starts_with minidump ''--'' then (Inl (error_from_status 400 ''minidump contains multipart form data''), s)
             else await_response (qp_timeout params)
               (process_minidump_request A i
                  \<lparr>pm_platform = up_platform u, pm_scope = qp_scope params, pm_minidump_file = LocalFile minidump_file, pm_sources = up_sources u,
                   pm_rewrite_first_module = up_rewrite_first_module u,
                   pm_extract_variables = op_extract_variables (up_options u),
                   pm_apply_source_server_info = op_apply_source_server_info (up_options u)\<rparr>
                  (up_options u) s)))"

definition handle_apple_crash_report_request :: "('s, 'p, 'o, 'm, 'f) crash_actor \<Rightarrow> apple_lib \<Rightarrow> source_config list \<Rightarrow> upload_io
    \<Rightarrow> field_parsers \<Rightarrow> request_id \<Rightarrow> query_params \<Rightarrow> (string list + multipart_field) list \<Rightarrow> request_service
    \<Rightarrow> (response_error + request_id) \<times> request_service" where
  "handle_apple_crash_report_request A L default_sources io P i params body s =
     (case read_fields (apple_field io P) body (new_upload default_sources) of
        Inl e \<Rightarrow> (Inl e, s)
      | Inr u \<Rightarrow>
     (case up_file u of
        None \<Rightarrow> (Inl (error_from_status 400 ''missing apple crash report''), s)
      | Some report \<Rightarrow> await_response (qp_timeout params)
          (process_apple_crash_report_request A L i (qp_scope params) (LocalFile report) (up_sources u) (up_options u) s)))"

text \<open>The body of \<open>/symbolicate\<close>; its scraping configuration is not used.\<close>

record symbolication_body =
  sb_platform :: "platform option"
  sb_signal :: "nat option"
  sb_sources :: "source_config list option"
  sb_stacktraces :: "raw_stacktrace list"
  sb_modules :: "raw_object_info list"
  sb_options :: request_options
  sb_scraping :: scraping_config

definition symbolicate_frames :: "('s, 'p, 'o, 'mem) native_actor \<Rightarrow> source_config list \<Rightarrow> request_id \<Rightarrow> query_params
    \<Rightarrow> symbolication_body \<Rightarrow> request_service \<Rightarrow> (response_error + request_id) \<times> request_service" where
  "symbolicate_frames A default_sources i params body s =
     (let sources = (case sb_sources body of Some sources \<Rightarrow> sources | None \<Rightarrow> default_sources)
      in await_response (qp_timeout params)
           (symbolicate_stacktraces A i
              \<lparr>nr_stacktraces = sb_stacktraces body, nr_sources = sources, nr_scope = qp_scope params, nr_signal = sb_signal body,
               nr_modules = map (object_info_from_raw (ds_ids (na_debug A))) (sb_modules body),
               nr_apply_source_context = op_apply_source_context (sb_options body), nr_rewrite_first_module = [],
               nr_frame_order = op_frame_order (sb_options body), nr_extract_variables = op_extract_variables (sb_options body),
               nr_memory = None, nr_apply_source_server_info = op_apply_source_server_info (sb_options body)\<rparr>
              (sb_options body) s))"

datatype stored_crash =
    StoredMinidump string "string option" "rewrite_rule list"
  | StoredAppleCrashreport string "string option"

record symbolicate_any_body =
  ab_platform :: "platform option"
  ab_options :: request_options
  ab_sources :: "source_config list"
  ab_symbolicate :: stored_crash

definition symbolicate_any :: "('s, 'p, 'o, 'm, 'f) crash_actor \<Rightarrow> apple_lib \<Rightarrow> request_id \<Rightarrow> query_params \<Rightarrow> symbolicate_any_body
    \<Rightarrow> request_service \<Rightarrow> (response_error + request_id) \<times> request_service" where
  "symbolicate_any A L i params body s = await_response (qp_timeout params)
     (case ab_symbolicate body of
        StoredMinidump storage_url storage_token rewrite_first_module \<Rightarrow>
          process_minidump_request A i
            \<lparr>pm_platform = ab_platform body, pm_scope = qp_scope params, pm_minidump_file = RemoteAttachment storage_url storage_token, pm_sources = ab_sources body,
             pm_rewrite_first_module = rewrite_first_module,
             pm_extract_variables = op_extract_variables (ab_options body),
             pm_apply_source_server_info = op_apply_source_server_info (ab_options body)\<rparr>
            (ab_options body) s
      | StoredAppleCrashreport storage_url storage_token \<Rightarrow>
          process_apple_crash_report_request A L i (qp_scope params) (RemoteAttachment storage_url storage_token)
            (ab_sources body) (ab_options body) s)"

record js_body =
  jb_platform :: "platform option"
  jb_source :: sentry_source_config
  jb_stacktraces :: "js_frame list list"
  jb_modules :: "js_module list"
  jb_release :: "string option"
  jb_dist :: "string option"
  jb_allow_scraping :: bool
  jb_scraping :: scraping_config
  jb_apply_source_context :: bool
  jb_frame_order :: frame_order

definition js_request_of_body :: "query_params \<Rightarrow> js_body \<Rightarrow> js_request" where
  "js_request_of_body params body =
     (let scraping = (jb_scraping body)\<lparr>sc_enabled := sc_enabled (jb_scraping body) \<and> jb_allow_scraping body\<rparr>
      in \<lparr>jr_platform = jb_platform body, jr_scope = qp_scope params, jr_source = jb_source body, jr_release = jb_release body,
          jr_dist = jb_dist body, jr_stacktraces = jb_stacktraces body, jr_modules = jb_modules body, jr_scraping = scraping,
          jr_apply_source_context = jb_apply_source_context body, jr_frame_order = jb_frame_order body\<rparr>)"

definition handle_js_request :: "('h, 'b, 'm) js_services \<Rightarrow> 'm js_libs \<Rightarrow> nat option \<Rightarrow> bundle_file_cache \<Rightarrow> api_cache \<Rightarrow> request_id
    \<Rightarrow> query_params \<Rightarrow> js_body \<Rightarrow> request_service \<Rightarrow> (response_error + request_id) \<times> request_service" where
  "handle_js_request sv lib max_sources_size files_in_bundles api i params body s = await_response (qp_timeout params)
     (symbolicate_js_stacktraces sv lib max_sources_size files_in_bundles api i (js_request_of_body params body) s)"

record jvm_body =
  vb_platform :: "platform option"
  vb_sources :: "source_config list"
  vb_exceptions :: "jvm_exception list"
  vb_stacktraces :: "jvm_stacktrace list"
  vb_modules :: "jvm_module list"
  vb_classes :: "string list"
  vb_apply_source_context :: bool
  vb_frame_order :: frame_order

definition handle_jvm_request :: "('p, 'h) jvm_services \<Rightarrow> ('p, 'h, 'b) proguard_lib \<Rightarrow> request_id
    \<Rightarrow> query_params \<Rightarrow> jvm_body \<Rightarrow> request_service \<Rightarrow> (response_error + request_id) \<times> request_service" where
  "handle_jvm_request sv lib i params body s = await_response (qp_timeout params)
     (symbolicate_jvm_stacktraces sv lib i
        \<lparr>jq_platform = vb_platform body, jq_scope = qp_scope params, jq_sources = vb_sources body, jq_exceptions = vb_exceptions body,
         jq_stacktraces = vb_stacktraces body, jq_modules = vb_modules body, jq_apply_source_context = vb_apply_source_context body,
         jq_classes = vb_classes body, jq_frame_order = vb_frame_order body\<rparr> s)"

section \<open>The symbol proxy\<close>

record proxy_service =
  px_symstore_proxy :: bool
  px_default_sources :: "source_config list"
  px_durations :: duration_text
  px_sha256 :: "string \<Rightarrow> 8 word list"
  px_uri :: "remote_file \<Rightarrow> string"
  px_index_of :: "source_config \<Rightarrow> source_index option"
  px_sentry_list :: "string \<Rightarrow> remote_file list cache_contents"
  px_meta_lookup :: "cache_key \<Rightarrow> remote_file \<Rightarrow> object_features cache_contents"
  px_fetch :: "found_meta \<Rightarrow> string cache_contents"

definition load_object :: "externals \<Rightarrow> proxy_service \<Rightarrow> string \<Rightarrow> string cache_contents outcome" where
  "load_object X px path =
     (if \<not> px_symstore_proxy px then Ret (Inl NotFound)
      else bind_out (parse_symstore_path X path) (\<lambda>parsed. case parsed of
          None \<Rightarrow> Ret (Inl NotFound)
        | Some (fts, i) \<Rightarrow>
            map_out (\<lambda>found_object. case found found_object of
                None \<Rightarrow> Inl NotFound
              | Some meta \<Rightarrow> (case handle meta of Inl e \<Rightarrow> Inl e | Inr _ \<Rightarrow> px_fetch px meta))
              (find_object X (px_durations px) (px_sha256 px) (px_uri px) (px_index_of px) (px_sentry_list px) (px_meta_lookup px)
                 fts PurposeDebug Global i (px_default_sources px))))"

definition proxy_symstore_request :: "externals \<Rightarrow> proxy_service \<Rightarrow> string \<Rightarrow> bool \<Rightarrow> (response_error + http_response) outcome" where
  "proxy_symstore_request X px path is_head =
     map_out (\<lambda>r. case r of
         Inl NotFound \<Rightarrow> Inr \<lparr>hr_status = 404, hr_headers = [], hr_body = EmptyBody\<rparr>
       | Inl e \<Rightarrow> Inl (error_from_anyhow [''failed to download object'', error_to_string (px_durations px) e])
       | Inr data \<Rightarrow> Inr \<lparr>hr_status = 200,
           hr_headers = [(''content-length'', dec_nat (length data)), (''content-type'', ''application/octet-stream'')],
           hr_body = (if is_head then EmptyBody else StreamBody data)\<rparr>)
       (load_object X px path)"

section \<open>Routes\<close>

datatype endpoint =
    SymbolicateAny | SymbolicateJs | SymbolicateJvm | Symbolicate
  | AppleCrashReport | MinidumpUpload | SymstoreProxy | PollRequests | Healthcheck

datatype body_limit = DefaultLimit | MaxBytes nat

record route =
  ro_path :: string
  ro_methods :: "string list"
  ro_endpoint :: endpoint
  ro_limit :: body_limit

definition create_app :: "nat \<Rightarrow> nat \<Rightarrow> route list" where
  "create_app symbolicate_body_max_bytes crash_file_body_max_bytes =
     map (\<lambda>(p, e). \<lparr>ro_path = p, ro_methods = [''POST''], ro_endpoint = e, ro_limit = MaxBytes symbolicate_body_max_bytes\<rparr>)
       [(''/symbolicate-any'', SymbolicateAny), (''/symbolicate-js'', SymbolicateJs), (''/symbolicate-jvm'', SymbolicateJvm),
        (''/symbolicate'', Symbolicate)]
     @ map (\<lambda>(p, e). \<lparr>ro_path = p, ro_methods = [''POST''], ro_endpoint = e, ro_limit = MaxBytes crash_file_body_max_bytes\<rparr>)
       [(''/applecrashreport'', AppleCrashReport), (''/minidump'', MinidumpUpload)]
     @ [\<lparr>ro_path = ''/proxy/{*path}'', ro_methods = [''GET'', ''HEAD''], ro_endpoint = SymstoreProxy, ro_limit = DefaultLimit\<rparr>,
        \<lparr>ro_path = ''/requests/{request_id}'', ro_methods = [''GET''], ro_endpoint = PollRequests, ro_limit = DefaultLimit\<rparr>,
        \<lparr>ro_path = ''/healthcheck'', ro_methods = [''GET''], ro_endpoint = Healthcheck, ro_limit = DefaultLimit\<rparr>]"

end
