(* ===== verification/EndpointsCorrect.thy ===== *)
theory EndpointsCorrect
  imports Endpoints RequestsCorrect CrashReportsCorrect PathsCorrect
begin

text \<open>
  The handlers of the web service: what a client is told is the outcome of the request that its own
  body stands for, an upload is refused exactly if it is not sound or the service is at its limit,
  an accepted one is processed with exactly what was uploaded, fields the service does not know
  change nothing, and the proxy serves the object that its own path stands for.
\<close>

section \<open>Handlers and their clients\<close>

text \<open>
  A request is served: unless the limit is reached it is accepted under its id, its client waits
  for it with its timeout, and whatever happens afterwards, what any client is told of this id is
  the outcome of this job; at the limit it is counted as rejected.
\<close>

definition serves :: "bool \<Rightarrow> usize option \<Rightarrow> request_service \<Rightarrow> request_id \<Rightarrow> nat option \<Rightarrow> request_options \<Rightarrow> job
    \<Rightarrow> (response_error + request_id) \<times> request_service \<Rightarrow> bool" where
  "serves debug m s i timeout options f answer \<longleftrightarrow> (case answer of
      (Inr j, s') \<Rightarrow> \<not> limit_reached m s \<and> j = i
        \<and> rq_submitted s' = rq_submitted s @ [(i, options, f)] \<and> rq_replies s' = rq_replies s
        \<and> (\<exists>p. rq_pollers s' = rq_pollers s @ [p] \<and> po_id p = i
             \<and> po_deadline p = map_option (\<lambda>t. rq_now s + t * 1000) timeout)
        \<and> (\<forall>es s'' r. run_service debug es s' = Ret s'' \<and> (i, Some r) \<in> set (rq_replies s'') \<longrightarrow> client_told i options f r)
    | (Inl e, s') \<Rightarrow> limit_reached m s \<and> re_status e = 503 \<and> s' = s\<lparr>rq_rejected := rq_rejected s + 1\<rparr>)"

lemma rejected_of_run:
  "run_service debug es (service_create m) = Ret s \<Longrightarrow> max_try_incr (rq_current s) = None \<longleftrightarrow> limit_reached m s"
  unfolding run_service_def by (rule rejected_at_limit[OF counted.reached_inv])

lemma serves_created:
  assumes "run_service debug es (service_create m) = Ret s" and "i \<notin> fst ` set (rq_submitted s)"
  shows "serves debug m s i timeout options f (await_response timeout (create_symbolication_request i nm options f s))"
proof (cases "max_try_incr (rq_current s)")
  case None
  moreover from this have "limit_reached m s" using rejected_of_run[OF assms(1)] by simp
  ultimately show ?thesis
    by (simp add: serves_def await_response_def create_symbolication_request_def error_from_max_requests_def)
next
  case (Some r)
  obtain t c where r: "r = (t, c)" by (cases r)
  have free: "\<not> limit_reached m s" using rejected_of_run[OF assms(1)] Some by simp
  let ?s = "get_response i timeout (snd (create_symbolication_request i nm options f s))"
  have "run_steps (service_step debug) (es @ [Submit i nm options f, Poll i timeout]) (service_create m) = Ret ?s"
    using assms by (simp add: run_append run_service_def)
  then have inv: "reply_inv ?s" by (rule told.reached_inv)
  have sub: "(i, options, f) \<in> set (rq_submitted ?s)"
    by (simp add: create_symbolication_request_def Some r get_response_def)
  have "client_told i options f q" if "run_service debug es' ?s = Ret s'" "(i, Some q) \<in> set (rq_replies s')" for es' s' q
    by (rule told_of_accepted[OF _ inv sub that(2)]) (use that(1) in \<open>simp add: run_service_def\<close>)
  then show ?thesis
    by (auto simp: serves_def await_response_def create_symbolication_request_def Some r get_response_def free)
qed

section \<open>Uploads\<close>

text \<open>The last field of a name, and the bytes of a field.\<close>

fun last_field :: "string \<Rightarrow> (string list + multipart_field) list \<Rightarrow> multipart_field option" where
  "last_field nm [] = None"
| "last_field nm (x # fs) = (case last_field nm fs of
      Some f \<Rightarrow> Some f
    | None \<Rightarrow> (case x of Inr f \<Rightarrow> if mf_name f = Some nm then Some f else None | Inl _ \<Rightarrow> None))"

definition field_contents :: "multipart_field \<Rightarrow> string" where
  "field_contents f = concat (map projr (mf_chunks f))"

lemma map_sum_eq_Inr: "map_sum f g r = Inr y \<longleftrightarrow> (\<exists>x. r = Inr x \<and> y = g x)"
  by (cases r) auto

lemma stream_chunks_contents: "stream_chunks io cs w = Inr r \<Longrightarrow> r = w @ concat (map projr cs)"
  by (induction io cs w rule: stream_chunks.induct) (auto split: option.splits)

lemma read_chunks_contents:
  "read_chunks k nm cs w = Inr r \<Longrightarrow> length w \<le> k \<Longrightarrow> r = w @ concat (map projr cs) \<and> length r \<le> k"
  by (induction k nm cs w rule: read_chunks.induct) (auto split: if_splits)

lemma file_field_contents: "file_field io f = Inr r \<Longrightarrow> r = field_contents f"
  by (auto simp: file_field_def stream_multipart_file_def field_contents_def dest: stream_chunks_contents split: option.splits)

lemma json_field_contents:
  assumes "json_field parse f = Inr x"
  shows "parse (field_contents f) = Inr x \<and> length (field_contents f) \<le> 1024 * 1024"
proof -
  obtain data where d: "read_chunks (1024 * 1024) (mf_name f) (mf_chunks f) [] = Inr data" "map_sum error_from_json id (parse data) = Inr x"
    using assms by (auto simp: json_field_def read_multipart_data_def split: sum.splits)
  have "parse data = Inr x" using d(2) by (cases "parse data") simp_all
  with read_chunks_contents[OF d(1)] show ?thesis by (auto simp: field_contents_def)
qed

text \<open>The value a JSON field has after all fields were read: that of the last field of its name.\<close>

definition field_value :: "(string \<Rightarrow> string list + 'a) \<Rightarrow> string \<Rightarrow> (string list + multipart_field) list \<Rightarrow> 'a \<Rightarrow> 'a \<Rightarrow> bool" where
  "field_value parse nm fs initial x \<longleftrightarrow> (case last_field nm fs of
      None \<Rightarrow> x = initial
    | Some f \<Rightarrow> parse (field_contents f) = Inr x \<and> length (field_contents f) \<le> 1024 * 1024)"

definition file_value :: "string \<Rightarrow> (string list + multipart_field) list \<Rightarrow> string option \<Rightarrow> string option \<Rightarrow> bool" where
  "file_value nm fs initial x \<longleftrightarrow> x = (case last_field nm fs of None \<Rightarrow> initial | Some f \<Rightarrow> Some (field_contents f))"

lemma read_minidump_fields:
  "read_fields (minidump_field io P) fs u = Inr u' \<Longrightarrow>
     file_value ''upload_file_minidump'' fs (up_file u) (up_file u')
     \<and> field_value (fp_sources P) ''sources'' fs (up_sources u) (up_sources u')
     \<and> field_value (fp_options P) ''options'' fs (up_options u) (up_options u')
     \<and> field_value (fp_platform P) ''platform'' fs (up_platform u) (up_platform u')
     \<and> field_value (fp_rewrite_first_module P) ''rewrite_first_module'' fs (up_rewrite_first_module u) (up_rewrite_first_module u')"
proof (induction fs arbitrary: u)
  case (Cons x fs)
  then obtain f u1 where f: "x = Inr f" "minidump_field io P f u = Inr u1" "read_fields (minidump_field io P) fs u1 = Inr u'"
    by (cases x) (auto split: sum.splits)
  show ?case
    using f(2) Cons.IH[OF f(3)]
    by (auto simp: f(1) minidump_field_def map_sum_eq_Inr file_value_def field_value_def split: if_splits option.splits
        dest!: file_field_contents json_field_contents)
qed (simp add: file_value_def field_value_def)

text \<open>What an accepted upload is handed on with.\<close>

lemma minidump_accepted:
  assumes "handle_minidump_request A defaults io P i params body s = (Inr j, s')"
  obtains crash sources options platform rules where
    "map_option field_contents (last_field ''upload_file_minidump'' body) = Some crash"
    "\<not> starts_with (case ui_map io crash of Some contents \<Rightarrow> contents | None \<Rightarrow> []) ''--''"
    "field_value (fp_sources P) ''sources'' body defaults sources"
    "field_value (fp_options P) ''options'' body default_options options"
    "field_value (fp_platform P) ''platform'' body None platform"
    "field_value (fp_rewrite_first_module P) ''rewrite_first_module'' body [] rules"
    "handle_minidump_request A defaults io P i params body s = await_response (qp_timeout params) (process_minidump_request A i
        \<lparr>pm_platform = platform, pm_scope = qp_scope params, pm_minidump_file = LocalFile crash, pm_sources = sources, pm_rewrite_first_module = rules,
         pm_extract_variables = op_extract_variables options, pm_apply_source_server_info = op_apply_source_server_info options\<rparr> options s)"
proof -
  obtain u crash where u: "read_fields (minidump_field io P) body (new_upload defaults) = Inr u" "up_file u = Some crash"
    "\<not> starts_with (case ui_map io crash of Some contents \<Rightarrow> contents | None \<Rightarrow> []) ''--''"
    using assms by (auto simp: handle_minidump_request_def Let_def split: sum.splits option.splits if_splits)
  note fields = read_minidump_fields[OF u(1)]
  show thesis
  proof (rule that[of crash "up_sources u" "up_options u" "up_platform u" "up_rewrite_first_module u"])
    show "map_option field_contents (last_field ''upload_file_minidump'' body) = Some crash"
      using fields u(2) by (simp add: file_value_def new_upload_def split: option.splits)
  qed (use u fields in \<open>simp_all add: new_upload_def handle_minidump_request_def\<close>)
qed

lemma read_apple_fields:
  "read_fields (apple_field io P) fs u = Inr u' \<Longrightarrow>
     file_value ''apple_crash_report'' fs (up_file u) (up_file u')
     \<and> field_value (fp_sources P) ''sources'' fs (up_sources u) (up_sources u')
     \<and> field_value (fp_options P) ''options'' fs (up_options u) (up_options u')"
proof (induction fs arbitrary: u)
  case (Cons x fs)
  then obtain f u1 where f: "x = Inr f" "apple_field io P f u = Inr u1" "read_fields (apple_field io P) fs u1 = Inr u'"
    by (cases x) (auto split: sum.splits)
  show ?case
    using f(2) Cons.IH[OF f(3)]
    by (auto simp: f(1) apple_field_def map_sum_eq_Inr file_value_def field_value_def split: if_splits option.splits
        dest!: file_field_contents json_field_contents)
qed (simp add: file_value_def field_value_def)

lemma apple_accepted:
  assumes "handle_apple_crash_report_request A L defaults io P i params body s = (Inr j, s')"
  obtains crash sources options where
    "map_option field_contents (last_field ''apple_crash_report'' body) = Some crash"
    "field_value (fp_sources P) ''sources'' body defaults sources"
    "field_value (fp_options P) ''options'' body default_options options"
    "handle_apple_crash_report_request A L defaults io P i params body s = await_response (qp_timeout params)
       (process_apple_crash_report_request A L i (qp_scope params) (LocalFile crash) sources options s)"
proof -
  obtain u crash where u: "read_fields (apple_field io P) body (new_upload defaults) = Inr u" "up_file u = Some crash"
    using assms by (auto simp: handle_apple_crash_report_request_def split: sum.splits option.splits)
  note fields = read_apple_fields[OF u(1)]
  show thesis
  proof (rule that[of crash "up_sources u" "up_options u"])
    show "map_option field_contents (last_field ''apple_crash_report'' body) = Some crash"
      using fields u(2) by (simp add: file_value_def new_upload_def split: option.splits)
  qed (use u fields in \<open>simp_all add: new_upload_def handle_apple_crash_report_request_def\<close>)
qed

text \<open>C19. An accepted upload is processed as it was sent: the crash is the bytes of the last file field and
  not a multipart body itself, the sources, options, platform and rewrite rules are those of the last field of
  their name, or the configured sources, the default options, no platform and no rules, and no field that is parsed is larger
  than one megabyte.\<close>

theorem upload_processed_faithfully:
  assumes "handle_minidump_request A defaults io P i params body s = (Inr j, s')"
  shows "\<exists>crash sources options platform rules. j = i
    \<and> map_option field_contents (last_field ''upload_file_minidump'' body) = Some crash
    \<and> \<not> starts_with (case ui_map io crash of Some contents \<Rightarrow> contents | None \<Rightarrow> []) ''--''
    \<and> field_value (fp_sources P) ''sources'' body defaults sources
    \<and> field_value (fp_options P) ''options'' body default_options options
    \<and> field_value (fp_platform P) ''platform'' body None platform
    \<and> field_value (fp_rewrite_first_module P) ''rewrite_first_module'' body [] rules
    \<and> s' = get_response i (qp_timeout params) (snd (process_minidump_request A i
        \<lparr>pm_platform = platform, pm_scope = qp_scope params, pm_minidump_file = LocalFile crash, pm_sources = sources, pm_rewrite_first_module = rules,
         pm_extract_variables = op_extract_variables options, pm_apply_source_server_info = op_apply_source_server_info options\<rparr> options s))"
  using assms
proof (rule minidump_accepted, goal_cases)
  case (1 crash sources options platform rules)
  then have "j = i \<and> s' = get_response i (qp_timeout params) (snd (process_minidump_request A i
        \<lparr>pm_platform = platform, pm_scope = qp_scope params, pm_minidump_file = LocalFile crash, pm_sources = sources, pm_rewrite_first_module = rules,
         pm_extract_variables = op_extract_variables options, pm_apply_source_server_info = op_apply_source_server_info options\<rparr> options s))"
    using assms by (auto simp: await_response_def process_minidump_request_def create_symbolication_request_def split: option.splits)
  with 1 show ?case by blast
qed

definition demo_io :: upload_io where
  "demo_io = \<lparr>ui_tempfile = None, ui_write = (\<lambda>_ _. None), ui_finish = (\<lambda>_. None), ui_map = Some\<rparr>"

definition demo_parsers :: field_parsers where
  "demo_parsers = \<lparr>fp_sources = (\<lambda>_. Inr []), fp_options = (\<lambda>_. Inr (default_options\<lparr>op_extract_variables := True\<rparr>)),
     fp_platform = (\<lambda>_. Inr None), fp_rewrite_first_module = (\<lambda>_. Inr [])\<rparr>"

definition demo_body :: "(string list + multipart_field) list" where
  "demo_body = [Inr \<lparr>mf_name = Some ''upload_file_minidump'', mf_chunks = [Inr ''MD'', Inr ''MP'']\<rparr>,
     Inr \<lparr>mf_name = Some ''options'', mf_chunks = [Inr ''{}'']\<rparr>]"

definition demo_query :: query_params where
  "demo_query = \<lparr>qp_timeout = Some 1, qp_scope = Global\<rparr>"

definition demo_upload :: "(response_error + request_id) \<times> request_service" where
  "demo_upload = handle_minidump_request demo_crash_actor [] demo_io demo_parsers [7] demo_query demo_body (service_create (Some 4))"

lemma demo_upload_accepted: "fst demo_upload = Inr [7]"
  by (simp add: demo_upload_def handle_minidump_request_def demo_body_def demo_io_def demo_parsers_def new_upload_def minidump_field_def
      file_field_def stream_multipart_file_def json_field_def read_multipart_data_def starts_with_def await_response_def
      process_minidump_request_def create_symbolication_request_def service_create_def max_counter_new_def max_try_incr_def
      counter_try_incr_def counter_incr_def counter_new_def)

lemma upload_processed_faithfully_witness:
  "\<exists>crash options. map_option field_contents (last_field ''upload_file_minidump'' demo_body) = Some crash
     \<and> field_value (fp_options demo_parsers) ''options'' demo_body default_options options"
proof -
  have "handle_minidump_request demo_crash_actor [] demo_io demo_parsers [7] demo_query demo_body (service_create (Some 4)) = (Inr [7], snd demo_upload)"
    using demo_upload_accepted by (metis demo_upload_def prod.collapse)
  from upload_processed_faithfully[OF this] show ?thesis by blast
qed

text \<open>C9. Whatever happened before, a handler submits, under its fresh id, the request that the body
  of its client stands for, and lets the client wait for it with its timeout; whatever happens afterwards,
  everything any client is told under this id is that it is pending, its timeout, the outcome of the
  symbolication of this very request under the options of this body, or an internal error, which only a
  panic of that symbolication causes. At the limit of concurrent requests it is turned away with 503 and
  counted. A body without sources uses the configured ones, scraping needs both of its switches, and an
  upload is the bytes of its last file field with the last sources, options, platform and rules.\<close>

theorem clients_answered_from_their_bodies:
  assumes "run_service debug es (service_create m) = Ret s" and "i \<notin> fst ` set (rq_submitted s)"
  shows "serves debug m s i (qp_timeout params) (sb_options native)
      (map_out (\<lambda>r. Inr (NativeResponse (complete_response r))) (symbolicate N
         \<lparr>nr_stacktraces = sb_stacktraces native, nr_sources = case_option defaults id (sb_sources native), nr_scope = qp_scope params,
          nr_signal = sb_signal native, nr_modules = map (object_info_from_raw (ds_ids (na_debug N))) (sb_modules native),
          nr_apply_source_context = op_apply_source_context (sb_options native), nr_rewrite_first_module = [],
          nr_frame_order = op_frame_order (sb_options native), nr_extract_variables = op_extract_variables (sb_options native),
          nr_memory = None, nr_apply_source_server_info = op_apply_source_server_info (sb_options native)\<rparr>))
      (symbolicate_frames N defaults i params native s)
    \<and> serves debug m s i (qp_timeout params) default_options
      (map_out (\<lambda>(r, _). Inr (JsResponse r)) (symbolicate_js sv lib max_sources_size files_in_bundles api
         \<lparr>jr_platform = jb_platform js, jr_scope = qp_scope params, jr_source = jb_source js, jr_release = jb_release js, jr_dist = jb_dist js,
          jr_stacktraces = jb_stacktraces js, jr_modules = jb_modules js,
          jr_scraping = (jb_scraping js)\<lparr>sc_enabled := sc_enabled (jb_scraping js) \<and> jb_allow_scraping js\<rparr>,
          jr_apply_source_context = jb_apply_source_context js, jr_frame_order = jb_frame_order js\<rparr>))
      (handle_js_request sv lib max_sources_size files_in_bundles api i params js s)
    \<and> serves debug m s i (qp_timeout params) default_options
      (map_out (\<lambda>(r, _). Inr (JvmResponse r)) (symbolicate_jvm jsv jlib
         \<lparr>jq_platform = vb_platform jvm, jq_scope = qp_scope params, jq_sources = vb_sources jvm, jq_exceptions = vb_exceptions jvm,
          jq_stacktraces = vb_stacktraces jvm, jq_modules = vb_modules jvm, jq_apply_source_context = vb_apply_source_context jvm,
          jq_classes = vb_classes jvm, jq_frame_order = vb_frame_order jvm\<rparr>))
      (handle_jvm_request jsv jlib i params jvm s)
    \<and> serves debug m s i (qp_timeout params) (ab_options stored)
      (map_out (map_sum id NativeResponse) (case ab_symbolicate stored of
           StoredMinidump url token rules \<Rightarrow> process_minidump_file A
             \<lparr>pm_platform = ab_platform stored, pm_scope = qp_scope params, pm_minidump_file = RemoteAttachment url token, pm_sources = ab_sources stored,
              pm_rewrite_first_module = rules, pm_extract_variables = op_extract_variables (ab_options stored),
              pm_apply_source_server_info = op_apply_source_server_info (ab_options stored)\<rparr>
         | StoredAppleCrashreport url token \<Rightarrow> process_apple_crash_report A L (qp_scope params) (RemoteAttachment url token)
             (ab_sources stored) (op_extract_variables (ab_options stored))))
      (symbolicate_any A L i params stored s)
    \<and> (fst (handle_minidump_request A defaults io P i params body s) = Inr j \<longrightarrow>
        (\<exists>crash sources options platform rules. map_option field_contents (last_field ''upload_file_minidump'' body) = Some crash
          \<and> field_value (fp_sources P) ''sources'' body defaults sources
          \<and> field_value (fp_options P) ''options'' body default_options options
          \<and> field_value (fp_platform P) ''platform'' body None platform
          \<and> field_value (fp_rewrite_first_module P) ''rewrite_first_module'' body [] rules
          \<and> serves debug m s i (qp_timeout params) options
              (map_out (map_sum id NativeResponse) (process_minidump_file A
                 \<lparr>pm_platform = platform, pm_scope = qp_scope params, pm_minidump_file = LocalFile crash, pm_sources = sources, pm_rewrite_first_module = rules,
                  pm_extract_variables = op_extract_variables options,
                  pm_apply_source_server_info = op_apply_source_server_info options\<rparr>))
              (handle_minidump_request A defaults io P i params body s)))
    \<and> (fst (handle_apple_crash_report_request A L defaults io P i params body s) = Inr j \<longrightarrow>
        (\<exists>report sources options. map_option field_contents (last_field ''apple_crash_report'' body) = Some report
          \<and> field_value (fp_sources P) ''sources'' body defaults sources
          \<and> field_value (fp_options P) ''options'' body default_options options
          \<and> serves debug m s i (qp_timeout params) options
              (map_out (map_sum id NativeResponse)
                 (process_apple_crash_report A L (qp_scope params) (LocalFile report) sources (op_extract_variables options)))
              (handle_apple_crash_report_request A L defaults io P i params body s)))"
proof (intro conjI impI, goal_cases)
  case 1
  show ?case using serves_created[OF assms] by (auto simp: symbolicate_frames_def symbolicate_stacktraces_def Let_def split: option.split)
next
  case 2
  show ?case using serves_created[OF assms]
    by (simp add: handle_js_request_def symbolicate_js_stacktraces_def js_request_of_body_def Let_def)
next
  case 3
  show ?case using serves_created[OF assms] by (simp add: handle_jvm_request_def symbolicate_jvm_stacktraces_def)
next
  case 4
  show ?case using serves_created[OF assms]
    by (auto simp: symbolicate_any_def process_minidump_request_def process_apple_crash_report_request_def split: stored_crash.split)
next
  case 5
  then obtain s' where "handle_minidump_request A defaults io P i params body s = (Inr j, s')" by (metis prod.collapse)
  then show ?case
    by (rule minidump_accepted) (use serves_created[OF assms] in \<open>fastforce simp: process_minidump_request_def\<close>)
next
  case 6
  then obtain s' where "handle_apple_crash_report_request A L defaults io P i params body s = (Inr j, s')" by (metis prod.collapse)
  then show ?case
    by (rule apple_accepted) (use serves_created[OF assms] in \<open>fastforce simp: process_apple_crash_report_request_def\<close>)
qed

theorem clients_answered_from_their_bodies_witness:
  "\<exists>crash sources options platform rules. map_option field_contents (last_field ''upload_file_minidump'' demo_body) = Some crash
     \<and> field_value (fp_sources demo_parsers) ''sources'' demo_body [] sources
     \<and> field_value (fp_options demo_parsers) ''options'' demo_body default_options options
     \<and> field_value (fp_platform demo_parsers) ''platform'' demo_body None platform
     \<and> field_value (fp_rewrite_first_module demo_parsers) ''rewrite_first_module'' demo_body [] rules
     \<and> serves True (Some 4) (service_create (Some 4)) [7] (Some 1) options
         (map_out (map_sum id NativeResponse) (process_minidump_file demo_crash_actor
            \<lparr>pm_platform = platform, pm_scope = Global, pm_minidump_file = LocalFile crash, pm_sources = sources, pm_rewrite_first_module = rules,
             pm_extract_variables = op_extract_variables options,
             pm_apply_source_server_info = op_apply_source_server_info options\<rparr>))
         demo_upload"
proof -
  have "run_service True [] (service_create (Some 4)) = Ret (service_create (Some 4))" by (simp add: run_service_def)
  moreover have "[7] \<notin> fst ` set (rq_submitted (service_create (Some 4)))" by (simp add: service_create_def)
  ultimately show ?thesis
    using clients_answered_from_their_bodies[where params = demo_query and A = demo_crash_actor and defaults = "[]" and io = demo_io
      and P = demo_parsers and body = demo_body and i = "[7]" and j = "[7]", THEN conjunct2, THEN conjunct2, THEN conjunct2, THEN conjunct2, THEN conjunct1]
      demo_upload_accepted
    by (simp add: demo_upload_def demo_query_def)
qed

section \<open>Refused uploads\<close>

definition io_reliable :: "upload_io \<Rightarrow> bool" where
  "io_reliable io \<longleftrightarrow> ui_tempfile io = None \<and> (\<forall>w c. ui_write io w c = None) \<and> (\<forall>w. ui_finish io w = None)"

text \<open>
  What an upload has to be, whatever the file system does: every part arrives, the file and the
  fields that are parsed are complete, these hold at most one megabyte and parse, there is a file,
  and a minidump is not itself a multipart body.
\<close>

definition complete :: "multipart_field \<Rightarrow> bool" where
  "complete f \<longleftrightarrow> list_all (\<lambda>c. \<not> isl c) (mf_chunks f)"

definition json_sound :: "(string \<Rightarrow> string list + 'a) \<Rightarrow> multipart_field \<Rightarrow> bool" where
  "json_sound parse f \<longleftrightarrow> complete f \<and> length (field_contents f) \<le> 1024 * 1024 \<and> \<not> isl (parse (field_contents f))"

definition json_checks :: "field_parsers \<Rightarrow> (string \<times> (multipart_field \<Rightarrow> bool)) list" where
  "json_checks P = [(''sources'', json_sound (fp_sources P)), (''options'', json_sound (fp_options P)), (''platform'', json_sound (fp_platform P))]"

definition minidump_checks :: "field_parsers \<Rightarrow> (string \<times> (multipart_field \<Rightarrow> bool)) list" where
  "minidump_checks P = json_checks P @ [(''rewrite_first_module'', json_sound (fp_rewrite_first_module P)), (''upload_file_minidump'', complete)]"

definition apple_checks :: "field_parsers \<Rightarrow> (string \<times> (multipart_field \<Rightarrow> bool)) list" where
  "apple_checks P = json_checks P @ [(''apple_crash_report'', complete)]"

definition field_sound :: "(string \<times> (multipart_field \<Rightarrow> bool)) list \<Rightarrow> multipart_field \<Rightarrow> bool" where
  "field_sound checks f \<longleftrightarrow> (\<forall>(nm, check) \<in> set checks. mf_name f = Some nm \<longrightarrow> check f)"

definition parts_sound :: "(string \<times> (multipart_field \<Rightarrow> bool)) list \<Rightarrow> (string list + multipart_field) list \<Rightarrow> bool" where
  "parts_sound checks body \<longleftrightarrow> (\<forall>x \<in> set body. case x of Inl _ \<Rightarrow> False | Inr f \<Rightarrow> field_sound checks f)"

definition sound_minidump :: "upload_io \<Rightarrow> field_parsers \<Rightarrow> (string list + multipart_field) list \<Rightarrow> bool" where
  "sound_minidump io P body \<longleftrightarrow> parts_sound (minidump_checks P) body
     \<and> (case last_field ''upload_file_minidump'' body of None \<Rightarrow> False
        | Some f \<Rightarrow> \<not> starts_with (case ui_map io (field_contents f) of Some contents \<Rightarrow> contents | None \<Rightarrow> []) ''--'')"

definition sound_apple :: "field_parsers \<Rightarrow> (string list + multipart_field) list \<Rightarrow> bool" where
  "sound_apple P body \<longleftrightarrow> parts_sound (apple_checks P) body \<and> last_field ''apple_crash_report'' body \<noteq> None"

text \<open>More than a megabyte arrives of a field that is parsed.\<close>

fun arrived :: "(string list + string) list \<Rightarrow> nat" where
  "arrived [] = 0"
| "arrived (Inl _ # cs) = 0"
| "arrived (Inr c # cs) = length c + arrived cs"

definition oversized :: "multipart_field \<Rightarrow> bool" where
  "oversized f \<longleftrightarrow> arrived (mf_chunks f) > 1024 * 1024
     \<and> mf_name f \<in> {Some ''sources'', Some ''options'', Some ''platform'', Some ''rewrite_first_module''}"

text \<open>The status of a refusal, of whether the upload was sound and whether some field was too large.\<close>

definition refusal :: "upload_io \<Rightarrow> bool \<Rightarrow> bool \<Rightarrow> response_error \<Rightarrow> bool" where
  "refusal io sound large e \<longleftrightarrow> re_status e = 400 \<and> \<not> sound \<or> re_status e = 413 \<and> \<not> sound \<and> large
     \<or> re_status e = 500 \<and> \<not> io_reliable io"

lemma refusal_mono: "refusal io a b e \<Longrightarrow> (a' \<Longrightarrow> a) \<Longrightarrow> (b \<Longrightarrow> b') \<Longrightarrow> refusal io a' b' e"
  by (auto simp: refusal_def)

lemma refusal_status [simp]: "refusal io sound large (error_from_status 400 msg) \<longleftrightarrow> \<not> sound"
  "refusal io sound large (error_from_multipart chain) \<longleftrightarrow> \<not> sound"
  "refusal io sound large (error_from_json chain) \<longleftrightarrow> \<not> sound"
  "refusal io sound large (error_from_io chain) \<longleftrightarrow> \<not> io_reliable io"
  by (simp_all add: refusal_def error_from_status_def error_from_multipart_def error_from_json_def error_from_io_def)

text \<open>The outcome of a reader, of whether its input was sound and too large.\<close>

definition reads :: "upload_io \<Rightarrow> bool \<Rightarrow> bool \<Rightarrow> response_error + 'a \<Rightarrow> bool" where
  "reads io sound large r \<longleftrightarrow> (case r of Inl e \<Rightarrow> refusal io sound large e | Inr _ \<Rightarrow> sound)"

lemma reads_map_sum [simp]: "reads io sound large (map_sum id g r) = reads io sound large r"
  by (cases r) (simp_all add: reads_def)

lemma reads_Inr [simp]: "reads io sound large (Inr x) \<longleftrightarrow> sound"
  by (simp add: reads_def)

lemma stream_chunks_reads: "reads io (list_all (\<lambda>c. \<not> isl c) cs) large (stream_chunks io cs w)"
  by (induction io cs w rule: stream_chunks.induct)
    (auto simp: reads_def io_reliable_def split: option.splits)

lemma file_field_reads: "reads io (complete f) large (file_field io f)"
  using stream_chunks_reads[of io "mf_chunks f" large "[]"]
  by (auto simp: file_field_def stream_multipart_file_def complete_def reads_def io_reliable_def split: option.splits)

lemma arrived_complete: "list_all (\<lambda>c. \<not> isl c) cs \<Longrightarrow> arrived cs = length (concat (map projr cs))"
  by (induction cs rule: arrived.induct) simp_all

lemma read_chunks_reads:
  "length w \<le> k \<Longrightarrow> reads io (list_all (\<lambda>c. \<not> isl c) cs \<and> length w + arrived cs \<le> k) (length w + arrived cs > k) (read_chunks k nm cs w)"
proof (induction k nm cs w rule: read_chunks.induct)
  case (3 k nm chunk cs w)
  then show ?case by (auto simp: reads_def refusal_def error_from_status_def add.assoc)
qed (simp_all add: reads_def)

lemma json_field_reads:
  "reads io (json_sound parse f) (arrived (mf_chunks f) > 1024 * 1024) (json_field parse f)"
proof (cases "read_chunks (1024 * 1024) (mf_name f) (mf_chunks f) []")
  case (Inl e)
  with read_chunks_reads[of "[]" "1024 * 1024" io "mf_chunks f" "mf_name f"] arrived_complete[of "mf_chunks f"]
  have "refusal io (json_sound parse f) (arrived (mf_chunks f) > 1024 * 1024) e"
    by (auto simp: reads_def json_sound_def complete_def field_contents_def elim: refusal_mono)
  with Inl show ?thesis by (simp add: json_field_def read_multipart_data_def reads_def)
next
  case (Inr data)
  with read_chunks_reads[of "[]" "1024 * 1024" io "mf_chunks f" "mf_name f"] arrived_complete[of "mf_chunks f"]
  have "complete f \<and> length (field_contents f) \<le> 1024 * 1024"
    by (simp add: reads_def complete_def field_contents_def)
  moreover have "data = field_contents f" using read_chunks_contents[OF Inr] by (simp add: field_contents_def)
  ultimately show ?thesis
    using Inr by (cases "parse data") (simp_all add: json_field_def read_multipart_data_def reads_def json_sound_def)
qed

lemma reads_large: "reads io sound large r \<Longrightarrow> (large \<Longrightarrow> large') \<Longrightarrow> reads io sound large' r"
  by (auto simp: reads_def elim: refusal_mono split: sum.splits)

lemma json_named_reads:
  assumes "mf_name f \<in> {Some ''sources'', Some ''options'', Some ''platform'', Some ''rewrite_first_module''}"
  shows "reads io (json_sound parse f) (oversized f) (json_field parse f)"
  by (rule reads_large[OF json_field_reads]) (use assms in \<open>simp add: oversized_def\<close>)

lemmas check_defs = field_sound_def minidump_checks_def apple_checks_def json_checks_def

lemma minidump_field_reads: "reads io (field_sound (minidump_checks P) f) (oversized f) (minidump_field io P f u)"
  by (simp add: minidump_field_def check_defs file_field_reads json_named_reads)

lemma apple_field_reads: "reads io (field_sound (apple_checks P) f) (oversized f) (apple_field io P f u)"
  by (simp add: apple_field_def check_defs file_field_reads json_named_reads)

lemma read_fields_reads:
  assumes "\<And>f u. reads io (field_sound checks f) (oversized f) (read_field f u)"
  shows "reads io (parts_sound checks fs) (\<exists>f. Inr f \<in> set fs \<and> oversized f) (read_fields read_field fs u)"
proof (induction fs arbitrary: u)
  case (Cons x fs)
  show ?case
  proof (cases x)
    case (Inr f)
    show ?thesis
    proof (cases "read_field f u")
      case (Inl e)
      with assms[of f u] have "refusal io (field_sound checks f) (oversized f) e" by (simp add: reads_def)
      then show ?thesis
        using Inl Inr by (auto simp: reads_def parts_sound_def elim: refusal_mono)
    next
      case (Inr u1)
      with assms[of f u] have "field_sound checks f" by (simp add: reads_def)
      then show ?thesis
        using Cons.IH[of u1] Inr \<open>x = Inr f\<close>
        by (auto simp: reads_def parts_sound_def elim!: refusal_mono split: sum.splits)
    qed
  qed (simp add: reads_def parts_sound_def)
qed (simp add: reads_def parts_sound_def)

lemma upload_reads:
  "reads io (parts_sound (minidump_checks P) fs) (\<exists>f. Inr f \<in> set fs \<and> oversized f) (read_fields (minidump_field io P) fs u)"
  "reads io (parts_sound (apple_checks P) fs) (\<exists>f. Inr f \<in> set fs \<and> oversized f) (read_fields (apple_field io P) fs u)"
  by (rule read_fields_reads, rule minidump_field_reads) (rule read_fields_reads, rule apple_field_reads)

text \<open>What becomes of an upload.\<close>

definition upload_outcome :: "upload_io \<Rightarrow> usize option \<Rightarrow> request_service \<Rightarrow> bool \<Rightarrow> bool \<Rightarrow> (response_error + request_id) \<times> request_service \<Rightarrow> bool" where
  "upload_outcome io m s sound large answer \<longleftrightarrow> (case answer of
      (Inr j, s') \<Rightarrow> sound \<and> \<not> limit_reached m s
    | (Inl e, s') \<Rightarrow> refusal io sound large e \<and> s' = s
        \<or> re_status e = 503 \<and> sound \<and> limit_reached m s \<and> s' = s\<lparr>rq_rejected := rq_rejected s + 1\<rparr>)"

lemma upload_outcome_created:
  assumes "run_service debug es (service_create m) = Ret s" and "sound"
  shows "upload_outcome io m s sound large (await_response t (create_symbolication_request i nm options f s))"
  using rejected_of_run[OF assms(1)] assms(2)
  by (cases "max_try_incr (rq_current s)")
    (auto simp: upload_outcome_def await_response_def create_symbolication_request_def error_from_max_requests_def)

lemma upload_outcome_refused: "refusal io sound large e \<Longrightarrow> upload_outcome io m s sound large (Inl e, s)"
  by (simp add: upload_outcome_def)

text \<open>C20. An upload is accepted exactly if it is sound, the service is below its limit of concurrent requests and
  the temporary file works. One that is not sound is refused with 400, or with 413 if more than a
  megabyte arrived of a field that is parsed; a sound one is refused with 503 exactly at the limit; 500 is
  given only if the temporary file failed. No refusal changes the service, but for the count of requests
  rejected at the limit.\<close>

theorem uploads_accepted_exactly:
  assumes "run_service debug es (service_create m) = Ret s"
  shows "upload_outcome io m s (sound_minidump io P body) (\<exists>f. Inr f \<in> set body \<and> oversized f)
        (handle_minidump_request A defaults io P i params body s)
    \<and> upload_outcome io m s (sound_apple P body) (\<exists>f. Inr f \<in> set body \<and> oversized f)
        (handle_apple_crash_report_request A L defaults io P i params body s)"
proof
  show "upload_outcome io m s (sound_minidump io P body) (\<exists>f. Inr f \<in> set body \<and> oversized f)
        (handle_minidump_request A defaults io P i params body s)"
  proof (cases "read_fields (minidump_field io P) body (new_upload defaults)")
    case (Inl e)
    with upload_reads(1)[of io P body "new_upload defaults"] show ?thesis
      by (auto simp: handle_minidump_request_def reads_def sound_minidump_def intro!: upload_outcome_refused elim: refusal_mono)
  next
    case (Inr u)
    then have "parts_sound (minidump_checks P) body"
      using upload_reads(1)[of io P body "new_upload defaults"] by (simp add: reads_def)
    moreover have "up_file u = map_option field_contents (last_field ''upload_file_minidump'' body)"
      using read_minidump_fields[OF Inr] by (simp add: file_value_def new_upload_def split: option.splits)
    ultimately show ?thesis
      using upload_outcome_created[OF assms]
      by (auto simp: handle_minidump_request_def Inr sound_minidump_def process_minidump_request_def Let_def
          intro!: upload_outcome_refused split: option.splits)
  qed
next
  show "upload_outcome io m s (sound_apple P body) (\<exists>f. Inr f \<in> set body \<and> oversized f)
        (handle_apple_crash_report_request A L defaults io P i params body s)"
  proof (cases "read_fields (apple_field io P) body (new_upload defaults)")
    case (Inl e)
    with upload_reads(2)[of io P body "new_upload defaults"] show ?thesis
      by (auto simp: handle_apple_crash_report_request_def reads_def sound_apple_def intro!: upload_outcome_refused elim: refusal_mono)
  next
    case (Inr u)
    then have "parts_sound (apple_checks P) body"
      using upload_reads(2)[of io P body "new_upload defaults"] by (simp add: reads_def)
    moreover have "up_file u = map_option field_contents (last_field ''apple_crash_report'' body)"
      using read_apple_fields[OF Inr] by (simp add: file_value_def new_upload_def split: option.splits)
    ultimately show ?thesis
      using upload_outcome_created[OF assms]
      by (auto simp: handle_apple_crash_report_request_def Inr sound_apple_def process_apple_crash_report_request_def
          intro!: upload_outcome_refused split: option.splits)
  qed
qed

lemma uploads_accepted_exactly_witness:
  "upload_outcome demo_io (Some 4) (service_create (Some 4)) (sound_minidump demo_io demo_parsers demo_body)
     (\<exists>f. Inr f \<in> set demo_body \<and> oversized f) demo_upload"
proof -
  have "run_service True [] (service_create (Some 4)) = Ret (service_create (Some 4))" by (simp add: run_service_def)
  from uploads_accepted_exactly[OF this, THEN conjunct1] show ?thesis unfolding demo_upload_def .
qed

section \<open>Unknown fields\<close>

definition known_part :: "string list \<Rightarrow> string list + multipart_field \<Rightarrow> bool" where
  "known_part names x \<longleftrightarrow> (case x of Inl _ \<Rightarrow> True | Inr f \<Rightarrow> mf_name f \<in> Some ` set names)"

lemma read_fields_filter:
  "(\<And>f u. mf_name f \<notin> Some ` set names \<Longrightarrow> read_field f u = Inr u)
    \<Longrightarrow> read_fields read_field (filter (known_part names) fs) u = read_fields read_field fs u"
  by (induction read_field fs u rule: read_fields.induct) (auto simp: known_part_def split: sum.splits)

definition minidump_names :: "string list" where
  "minidump_names = [''upload_file_minidump'', ''sources'', ''options'', ''platform'', ''rewrite_first_module'']"

definition apple_names :: "string list" where
  "apple_names = [''apple_crash_report'', ''sources'', ''options'', ''platform'']"

text \<open>A field the service does not know changes nothing, whatever it holds and wherever it stands: an upload
  is handled like the upload without its unknown fields.\<close>

theorem unknown_fields_ignored:
  "handle_minidump_request A defaults io P i params (filter (known_part minidump_names) body) s
     = handle_minidump_request A defaults io P i params body s
   \<and> handle_apple_crash_report_request A L defaults io P i params (filter (known_part apple_names) body) s
     = handle_apple_crash_report_request A L defaults io P i params body s"
proof -
  have "read_fields (minidump_field io P) (filter (known_part minidump_names) body) u = read_fields (minidump_field io P) body u" for u
    by (rule read_fields_filter) (auto simp: minidump_names_def minidump_field_def)
  moreover have "read_fields (apple_field io P) (filter (known_part apple_names) body) u = read_fields (apple_field io P) body u" for u
    by (rule read_fields_filter) (auto simp: apple_names_def apple_field_def)
  ultimately show ?thesis by (simp add: handle_minidump_request_def handle_apple_crash_report_request_def)
qed

section \<open>The proxy\<close>

text \<open>The answer to a request for an object, of what the search for it gave.\<close>

definition proxy_answer :: "proxy_service \<Rightarrow> bool \<Rightarrow> find_result \<Rightarrow> response_error + http_response" where
  "proxy_answer px is_head r =
     (case (case found r of None \<Rightarrow> Inl NotFound | Some meta \<Rightarrow> (case handle meta of Inl e \<Rightarrow> Inl e | Inr _ \<Rightarrow> px_fetch px meta)) of
        Inr data \<Rightarrow> Inr \<lparr>hr_status = 200,
          hr_headers = [(''content-length'', dec_nat (length data)), (''content-type'', ''application/octet-stream'')],
          hr_body = (if is_head then EmptyBody else StreamBody data)\<rparr>
      | Inl e \<Rightarrow> if e = NotFound then Inr \<lparr>hr_status = 404, hr_headers = [], hr_body = EmptyBody\<rparr>
          else Inl \<lparr>re_status = 500, re_chain = [''failed to download object'', error_to_string (px_durations px) e]\<rparr>)"

text \<open>C21. A debugger that asks the proxy for the path at which the service itself would look for a PDB gets what
  the search of the default sources for this debug id gives: the file with its length, or its length alone
  for a HEAD request, 404 if there is none, and 500 with the cause if it could not be fetched.\<close>

theorem proxied_pdb_served:
  assumes "case_laws X" and "hex_laws X"
    and "validated_debug_file_basename X i = Some f" and "debug_id i = Some d" and "object_type i \<noteq> PeDotnet"
    and "is_ascii f" and "CHR ''/'' \<notin> set f" and "ends_with (make_ascii_lowercase f) ''.pdb''"
    and "from_breakpad X (uuid_simple X True (uuid d) @ hex_nat False (unat (appendix d))) = Some d"
    and "px_symstore_proxy px"
  shows "\<exists>p. get_symstore_path X Pdb i False = Some p
    \<and> proxy_symstore_request X px p is_head = map_out (proxy_answer px is_head)
        (find_object X (px_durations px) (px_sha256 px) (px_uri px) (px_index_of px) (px_sentry_list px) (px_meta_lookup px)
           [Pdb] PurposeDebug Global (parsed_pdb f d) (px_default_sources px))"
proof -
  obtain p where p: "get_symstore_path X Pdb i False = Some p" "parse_symstore_path X p = Ret (Some ([Pdb], parsed_pdb f d))"
    using symstore_pdb_roundtrip[OF assms(1-9)] by blast
  have "proxy_symstore_request X px p is_head = map_out (proxy_answer px is_head)
        (find_object X (px_durations px) (px_sha256 px) (px_uri px) (px_index_of px) (px_sentry_list px) (px_meta_lookup px)
           [Pdb] PurposeDebug Global (parsed_pdb f d) (px_default_sources px))"
    using assms(10)
    by (cases "find_object X (px_durations px) (px_sha256 px) (px_uri px) (px_index_of px) (px_sentry_list px) (px_meta_lookup px)
           [Pdb] PurposeDebug Global (parsed_pdb f d) (px_default_sources px)")
      (auto simp: proxy_symstore_request_def load_object_def p(2) proxy_answer_def error_from_anyhow_def split: option.splits sum.splits cache_error.splits)
  with p(1) show ?thesis by blast
qed

definition demo_proxy :: proxy_service where
  "demo_proxy = \<lparr>px_symstore_proxy = True, px_default_sources = [], px_durations = CacheErrors.demo_durations, px_sha256 = (\<lambda>_. []), px_uri = (\<lambda>_. []),
     px_index_of = (\<lambda>_. None), px_sentry_list = (\<lambda>_. Inl NotFound), px_meta_lookup = (\<lambda>_ _. Inl NotFound), px_fetch = (\<lambda>_. Inl NotFound)\<rparr>"

theorem proxied_pdb_served_witness:
  "\<exists>p. get_symstore_path demo_externals Pdb demo_pe False = Some p
    \<and> proxy_symstore_request demo_externals demo_proxy p True = map_out (proxy_answer demo_proxy True)
        (find_object demo_externals (px_durations demo_proxy) (px_sha256 demo_proxy) (px_uri demo_proxy) (px_index_of demo_proxy)
           (px_sentry_list demo_proxy) (px_meta_lookup demo_proxy) [Pdb] PurposeDebug Global
           (parsed_pdb ''crash.pdb'' \<lparr>uuid = [171], appendix = 1\<rparr>) (px_default_sources demo_proxy))"
proof (rule proxied_pdb_served[OF demo_laws])
  show "validated_debug_file_basename demo_externals demo_pe = Some ''crash.pdb''" by code_simp
  show "is_ascii ''crash.pdb''" by code_simp
  show "ends_with (make_ascii_lowercase ''crash.pdb'') ''.pdb''" by code_simp
  show "from_breakpad demo_externals (uuid_simple demo_externals True (uuid \<lparr>uuid = [171], appendix = 1\<rparr>)
      @ hex_nat False (unat (appendix \<lparr>uuid = [171], appendix = 1\<rparr>))) = Some \<lparr>uuid = [171], appendix = 1\<rparr>"
    by code_simp
qed (simp_all add: demo_pe_def default_object_id_def demo_proxy_def)

end
