(* ===== verification/Spec2Isabelle.thy ===== *)
theory Spec2Isabelle
  imports PathsCorrect SourceIter CacherPersist Cleanup DownloadCorrect JsProperties ProguardProperties RequestsProperties
  MinidumpExtensionCorrect CrashReportsCorrect SharedCacheProperties SourceDownloadersCorrect VariablesCorrect EndpointsCorrect
begin

text \<open>
  A verification development for Symbolicator, Sentry's symbolication service (the crates below
  \<open>src/crates/\<close>).

  \<^bold>\<open>The program.\<close> A request brings stack traces, the modules of the crashed process and the symbol
  sources that may be searched. For every module the service lists the places where its debug file may be
  (\<open>symbolicator-sources\<close>), downloads candidates and keeps them, their metadata and what is derived
  from them in layered caches (\<open>symbolicator-service\<close>), and looks up the frames in the derived files
  (\<open>symbolicator-native\<close>). The parts depend on each other in this order, and so do the theories.

  \<^bold>\<open>Foundations.\<close>
  \<^item> \<open>Prelude\<close>: results of code that may panic, byte strings with the slicing rules of Rust, case mapping,
    splitting, hexadecimal text. \<open>Utf8\<close>: validity and lossy decoding of UTF-8, lines.
    \<open>SortedVec\<close>: binary search, insertion, sorting and removal of duplicates as the standard library does them.

  \<^bold>\<open>Where files are\<close> (\<open>symbolicator-sources/src/\<close>).
  \<^item> \<open>SourceTypes\<close>: \<open>types.rs\<close>, \<open>filetype.rs\<close>, \<open>sources.rs\<close>: object ids and their file names, file types,
    layouts, casing, filters. \<open>Paths\<close>, \<open>PathsCorrect\<close>: \<open>paths.rs\<close>, every path generator and the parser of SymStore paths;
    no panics, round trips, shapes.
  \<^item> \<open>SourceIndex\<close>: \<open>index.rs\<close>, the index of a SymStore. \<open>SourceIter\<close>: \<open>remotefile.rs\<close>, the resumable
    iterator over locations as a step function on its state, refined to a specification of all locations; its fuel
    \<open>iter_fuel\<close> is computed from the state and proved to suffice.

  \<^bold>\<open>Caches\<close> (\<open>symbolicator-service/src/caching/\<close>, \<open>caches/versions.rs\<close>, \<open>utils/defer.rs\<close>).
  \<^item> \<open>CacheErrors\<close>: \<open>cache_error.rs\<close>, errors and their form on disk. \<open>CacheKeys\<close>: \<open>cache_key.rs\<close>, \<open>metadata.rs\<close>,
    \<open>versions.rs\<close>: keys, paths, version tables. \<open>CacheFs\<close>: \<open>fs.rs\<close> and the expiry settings of \<open>config.rs\<close>: which files
    are served, over a file system that is a map from paths to files with times.
  \<^item> \<open>Defer\<close>: \<open>defer.rs\<close>, counters on 64-bit words. \<open>Cacher\<close>, \<open>CacherCorrect\<close>, \<open>CacherPersist\<close>: \<open>memory.rs\<close>: the
    computing cache with its memory, its files, the shared cache and background refreshes as tasks of the state;
    reachable states, isolation of keys, survival of restarts, bounds on refreshes and the one case in which their tasks panic.
  \<^item> \<open>SharedCache\<close>, \<open>SharedCacheCorrect\<close>, \<open>SharedCacheProperties\<close>: \<open>shared_cache/\<close>: the queue, the worker and the uploads of the cache
    shared by instances as one state with events; both backends behind the interface \<open>upload_backend\<close>; limits, progress with a
    bound computed from the state (\<open>shared_work\<close>), faithful lookups, and the reuse of items across instances together with \<open>Cacher\<close>.
  \<^item> \<open>Cleanup\<close>: \<open>cleanup.rs\<close>: one run over a directory tree whose operations may fail.

  \<^bold>\<open>Downloads\<close> (\<open>symbolicator-service/src/download/\<close>).
  \<^item> \<open>DenyList\<close>: \<open>deny_list.rs\<close>: buckets of failures, equal to counting a sliding window. \<open>Partial\<close>: \<open>partial.rs\<close>: ranges and
    their headers. \<open>Download\<close>, \<open>DownloadCorrect\<close>: \<open>mod.rs\<close>, \<open>destination.rs\<close>: retries, the deny list around a download and
    the concurrent range download under every schedule of its streams.
  \<^item> \<open>Decompress\<close>, \<open>DecompressCorrect\<close>: \<open>compression.rs\<close>, \<open>stream.rs\<close>, \<open>fetch_file.rs\<close>: the limit on reading, poll by poll,
    and the unpacking of archives; sizes of fetched files. \<open>SourceDownloaders\<close>, \<open>SourceDownloadersCorrect\<close>: \<open>sentry.rs\<close>,
    \<open>gcs.rs\<close>, \<open>azure.rs\<close>, \<open>s3.rs\<close>, \<open>http.rs\<close>: listings and tokens with their caches (the interface \<open>cache_origin\<close>), the requests
    sent and the errors of buckets.
  \<^item> \<open>IndexService\<close>: \<open>index.rs\<close>: fetching and remembering the index of a source.

  \<^bold>\<open>Objects\<close> (\<open>symbolicator-service/src/objects/\<close>).
  \<^item> \<open>Candidates\<close>: \<open>candidates.rs\<close>: the sorted vector of candidates behind the interface \<open>keyed_collection\<close>, and its refinement to a
    finite map. \<open>Objects\<close>: \<open>mod.rs\<close>, \<open>data_cache.rs\<close>, \<open>meta_cache.rs\<close>, \<open>list_files\<close>, \<open>fetch_file\<close>: listing, metadata, choice of the
    best object, objects in archives.

  \<^bold>\<open>Native symbolication\<close> (\<open>symbolicator-native/src/\<close>, \<open>symbolicator-service/src/source_context.rs\<close>).
  \<^item> \<open>Interface\<close>: \<open>interface/mod.rs\<close>, \<open>types.rs\<close>, \<open>hex.rs\<close>: requests, frames, object infos and address translation.
    \<open>SourceContext\<close>: source lines around a line number, trimmed on character boundaries.
  \<^item> \<open>Derived\<close>: \<open>caches/\<close>: deriving symcaches, portable PDB and CFI caches, with bitcode symbol maps and il2cpp mappings.
    \<open>ModuleLookup\<close>: \<open>module_lookup.rs\<close>: the modules of a request as a state with reachable states and an invariant; the
    interface \<open>debug_service\<close> is what it needs of the derived caches, interpreted on both of them.
  \<^item> \<open>Native\<close>: \<open>symbolicate.rs\<close>, \<open>native/mod.rs\<close>, \<open>dotnet.rs\<close>, \<open>demangle.rs\<close>, \<open>source_context.rs\<close>: symbolicating traces; the loop over
    frames is proved against the interface \<open>frame_symbolicator\<close> and characterised frame by frame, with what is left out as garbage;
    source context is that of the module of a frame, by its own definition.

  \<^item> \<open>VariableTypes\<close>, \<open>Variables\<close>, \<open>VariablesCorrect\<close>: \<open>interface/variables.rs\<close>, \<open>native/variables.rs\<close>, \<open>memory.rs\<close>: the values of
    variables read from registers and memory (with \<open>ByteOrder\<close>, integers as bytes): integers are read back, only the bytes of a
    variable matter, what is shown is small.

  \<^bold>\<open>Crash reports\<close> (\<open>symbolicator-native/src/symbolication/\<close>).
  \<^item> \<open>MinidumpExtension\<close>, \<open>MinidumpExtensionCorrect\<close>: \<open>minidump_stacktraces.rs\<close>: the stream of client-side stack traces, its sizes
    as 64-bit words, its raw references as reads that panic out of bounds or at an address that is not aligned; memory safe for any bytes
    at a multiple of 8, an address the code does not check, and the inverse of the documented format.
  \<^item> \<open>CrashReports\<close>, \<open>CrashReportsCorrect\<close>: \<open>process_minidump.rs\<close>, \<open>apple.rs\<close>, \<open>attachments.rs\<close>: the provider that answers the
    stack walker, the request and the state made of a walked minidump or a parsed crash report; threads and modules
    of the request are those of the walk, client-side traces replace frames, the provider's memory changes no answer.

  \<^bold>\<open>JavaScript symbolication\<close> (\<open>symbolicator-js/src/\<close>, \<open>symbolicator-service/src/utils/http.rs\<close>).
  \<^item> \<open>JsUtils\<close>: \<open>utils.rs\<close>: names of functions and modules, joining paths, the names under which files are looked up.
    \<open>Origin\<close>: \<open>utils/http.rs\<close>: which URLs may be scraped, compared with the documented relation on patterns (IDNA domains included),
    from which it differs for base URIs without a port.
  \<^item> \<open>JsMetrics\<close>: \<open>metrics.rs\<close>. \<open>JsLookup\<close>: \<open>lookup.rs\<close>, \<open>bundle_lookup.rs\<close>, \<open>api_lookup.rs\<close>, \<open>sourcemap_cache.rs\<close>: the state of a
    request that looks for files in bundles, artifacts and on the web. \<open>JsSymbolication\<close>: \<open>symbolication.rs\<close> and the modules of a request.
  \<^item> \<open>JsLookupCorrect\<close>, \<open>JsSymbolicationCorrect\<close>: the invariant of a request (budget, counters, sources of files) through every
    operation; symbolication is a client of the lookup behind the interface \<open>lookup_client\<close>, interpreted on this invariant and, in
    \<open>JsTyping\<close>, on the validity of all texts, which also shows how a record of level trace in the log panics. \<open>JsSafety\<close>: the downloads
    of a request confined by a definition of what may be scraped that is apart from the code's, the order of lookups.
    \<open>JsProperties\<close>: the properties of requests and a small world for their hypotheses.

  \<^bold>\<open>JVM symbolication\<close> (\<open>symbolicator-proguard/src/\<close>).
  \<^item> \<open>Proguard\<close>: \<open>interface.rs\<close>, \<open>symbolication.rs\<close>, \<open>service.rs\<close>: exceptions, frames and classes remapped by the mappers of a
    request, with the positions carried through outlines, rewrite rules and fallbacks, and source context.
    \<open>ProguardCorrect\<close>, \<open>ProguardProperties\<close>: frames stay in place and are counted, rewrite rules touch only the first frame,
    the order of frames does not matter.

  \<^bold>\<open>The request service\<close> (\<open>symbolicator/src/service.rs\<close>, \<open>symbolicator/src/endpoints/\<close>).
  \<^item> \<open>Requests\<close>: requests by id, their channels and tasks, the counters and the clock as one state; a relation of steps
    interleaves requests, starts, ends and panics of tasks, polls and the passing of time. \<open>RequestsCorrect\<close>: the invariant of reachable
    states. \<open>RequestsProperties\<close>: the limit on requests, faithful and stable replies, the time limits.
  \<^item> \<open>Endpoints\<close>, \<open>EndpointsCorrect\<close>: the handlers: uploads read field by field, bodies as requests, errors as responses, the symbol
    proxy, the routes. A handler submits the request its body stands for, and all that is ever told under its id is the outcome
    of this request; uploads are accepted exactly if they are sound and the service is below its limit.

  \<^bold>\<open>What the lemmas show.\<close> Per component: an invariant that every operation keeps (sorted candidates, counters, modules,
  reachable caches), the behaviour of each operation with its errors, and where there is one the abstract contract it
  refines (candidates as a map, the iterator as a list, the buckets as a window, the range download as the resource).
  Across components: the candidate of a used object is reported up to the module of the response, the
  addresses of a response are exact, cache keys of different tenants and inputs are separate.

  \<^bold>\<open>Conventions.\<close> Strings are UTF-8 bytes. Machine integers are words where arithmetic on them can wrap
  (addresses, counters, ranges), naturals where the code only counts. A panic is a value. The time is a parameter of the
  operations that read it. Code outside of the repository (the \<open>symbolic\<close> crates, HTTP, SHA-256, Unicode case tables, globs,
  URLs, the formatting of durations) is a parameter; demonstration instances show that the hypotheses can hold.
  The demangling cache is proved transparent and appears as the function it computes.

  \<^bold>\<open>Not modelled.\<close> HTTP and the signing of requests, codecs, the parsing and walking of minidumps
  and the parsing of Apple crash reports (other crates), the HTTP server with its
  routing and the decoding of requests, the command line tools, the configuration file, logging and metrics. Concurrent requests for one
  cache key are merged by the moka library and not modelled; refreshes and streams of one download
  are. A cache file whose metadata could be read is assumed to be readable itself. The platform of a request is
  kept in its data and used for metrics only. Of logging only the one record whose text can panic is modelled, behind a flag.
\<close>

end
